(* ===== verification/Sev_Prelude.thy ===== *)
theory Sev_Prelude
  imports Main "HOL-Library.Word"
begin

text \<open>
  Shared by every component: the machine integers of the firmware (the PSP is a 32-bit ARM
  core: \<open>size_t\<close> and \<open>uint32_t\<close> are 32 bits, physical x86 addresses are \<open>uint64_t\<close>), the
  status codes, the alignment arithmetic and generic lemmas on lists and words.

  The numeric values of \<open>sev_status_t\<close> are defined by a header that is not part of the
  repository; the codes are therefore the constructors of a datatype, and the firmware's
  tests on them are equality tests.
\<close>

unbundle bit_operations_syntax

type_synonym u8 = "8 word"
type_synonym u16 = "16 word"
type_synonym u32 = "32 word"
type_synonym u64 = "64 word"

datatype sev_status =
    SEV_STATUS_SUCCESS
  | SEV_STATUS_INVALID_PLATFORM_STATE
  | SEV_STATUS_INVALID_GUEST_STATE
  | SEV_STATUS_INVALID_CONFIG
  | SEV_STATUS_INVALID_LENGTH
  | SEV_STATUS_POLICY_FAILURE
  | SEV_STATUS_INACTIVE
  | SEV_STATUS_INVALID_ADDRESS
  | SEV_STATUS_ASID_OWNED
  | SEV_STATUS_INVALID_ASID
  | SEV_STATUS_WBINVD_REQUIRED
  | SEV_STATUS_DF_FLUSH_REQUIRED
  | SEV_STATUS_INVALID_GUEST
  | SEV_STATUS_INVALID_COMMAND
  | SEV_STATUS_ACTIVE
  | SEV_STATUS_HARDWARE_PLATFORM
  | SEV_STATUS_UNSUPPORTED
  | SEV_STATUS_INVALID_PARAM
  | SEV_STATUS_RESOURCE_LIMIT
  | SEV_STATUS_INVALID_PAGE_SIZE
  | SEV_STATUS_INVALID_PAGE_STATE
  | SEV_STATUS_INVALID_PAGE_OWNER
  | SEV_STATUS_INVALID_MDATA_ENTRY
  | SEV_STATUS_HARDWARE_UNSAFE
  | SEV_STATUS_INVALID_CERTIFICATE
  | SEV_STATUS_BAD_SIGNATURE
  | SEV_STATUS_BAD_MEASUREMENT
  | SEV_STATUS_RMP_INIT_REQUIRED
  | SEV_STATUS_EXIT_RING_BUFFER
  | SEV_STATUS_RESTORE_REQUIRED
  | ERR_SEV_DLFW_CONTINUING
  | ERR_OUT_OF_RESOURCES
  | ERR_INVALID_PARAMS
  | ERR_UNIMPLEMENTED
  | ERR_HAL_MEMORY_MAP
  | ERR_HAL_SLAVE_DIE
  | ERR_HAL_ECC_PRIMITIVE
  | ERR_HAL_TRNG
  | ERR_HAL_SHA256
  | ERR_UNKNOWN
  | ERR_OTHER nat \<comment> \<open>any code that only code outside the repository returns\<close>

text \<open>Facts about machine integers that the component proofs use by name.\<close>

named_theorems page_arith
named_theorems status_simps

definition align_down :: "nat \<Rightarrow> nat \<Rightarrow> nat" where
  "align_down k a = a - a mod k"

lemma align_down_le [page_arith]: "align_down k a \<le> a"
  by (simp add: align_down_def)

lemma align_down_dvd [page_arith]: "k dvd align_down k a"
  by (simp add: align_down_def)

lemma align_down_idem [page_arith]: "k dvd a \<Longrightarrow> align_down k a = a"
  by (simp add: align_down_def)

lemma unat_plus_of_nat:
  fixes a :: "'a::len word"
  assumes "unat a + k < 2 ^ LENGTH('a)"
  shows "unat (a + of_nat k) = unat a + k"
proof -
  have "unat (of_nat k :: 'a word) = k" using assms by (simp add: unat_of_nat)
  with assms show ?thesis by (simp only: unat_word_ariths) (rule mod_less, simp)
qed

lemma u64_bound: "unat (x :: u64) < 18446744073709551616"
  using unsigned_less [of x, where 'a = nat] by simp

lemma u32_bound: "unat (x :: u32) < 4294967296"
  using unsigned_less [of x, where 'a = nat] by simp

lemma unat_add_no_wrap:
  fixes a b :: "'a::len word"
  assumes "unat a + unat b < 2 ^ LENGTH('a)"
  shows "unat (a + b) = unat a + unat b"
  using assms by (simp add: unat_word_ariths)

lemma unat_mult_no_wrap:
  fixes a b :: "'a::len word"
  assumes "unat a * unat b < 2 ^ LENGTH('a)"
  shows "unat (a * b) = unat a * unat b"
  using assms by (simp add: unat_word_ariths)

lemma unat_sub_no_wrap:
  fixes a b :: "'a::len word"
  assumes "b \<le> a"
  shows "unat (a - b) = unat a - unat b"
  using assms by (simp add: unat_sub)

lemma unat_ucast_up [simp]:
  fixes x :: "'a::len word"
  assumes "LENGTH('a) \<le> LENGTH('b::len)"
  shows "unat (ucast x :: 'b word) = unat x"
proof -
  have "unat x < 2 ^ LENGTH('a)" by (rule unsigned_less)
  also have "\<dots> \<le> 2 ^ LENGTH('b)" using assms by simp
  finally show ?thesis by (simp add: unsigned_ucast_eq take_bit_nat_eq_self)
qed

lemma unat_ucast_down:
  fixes x :: "'a::len word"
  assumes "unat x < 2 ^ LENGTH('b::len)"
  shows "unat (ucast x :: 'b word) = unat x"
  using assms by (simp add: unsigned_ucast_eq take_bit_nat_eq_self)

lemma ucast_eq_of_unat:
  fixes x :: "'b::len word"
  assumes "unat a = unat x"
  shows "(ucast a :: 'b word) = x"
proof -
  have "unat a < 2 ^ LENGTH('b)" unfolding assms by (rule unsigned_less)
  with assms show ?thesis by (simp add: unat_ucast_down word_unat_eq_iff)
qed

lemma unat_of_nat_below:
  fixes n :: "'a::len word"
  assumes "i < unat n"
  shows "unat (of_nat i :: 'a word) = i"
proof -
  have "unat n < 2 ^ LENGTH('a)" by (rule unsigned_less)
  with assms have "i < 2 ^ LENGTH('a)" by (rule less_trans)
  then show ?thesis by (simp add: unsigned_of_nat take_bit_nat_eq_self)
qed

lemma word_succ_lt:
  fixes a b :: "'a::len word"
  assumes "a < b"
  shows "unat (a + 1) = unat a + 1"
proof -
  have "unat a < unat b" using assms by (simp add: word_less_nat_alt)
  moreover have "unat b < 2 ^ LENGTH('a)" by (rule unsigned_less)
  ultimately have "unat a + unat (1 :: 'a word) < 2 ^ LENGTH('a)"
    by (simp only: unsigned_1)
  then show ?thesis by (simp add: unat_add_no_wrap)
qed

text \<open>The measure of a loop that counts up on a machine integer to a bound.\<close>

lemma word_count_measure:
  fixes a b :: "'a::len word"
  assumes "1 + a < b"
  shows "unat b - unat (2 + a) < unat b - unat (1 + a)"
proof -
  have "(1 + a) + 1 = 1 + (1 + a)" by (rule add.commute)
  also have "\<dots> = (1 + 1) + a" by (rule add.assoc [symmetric])
  also have "\<dots> = 2 + a" by (simp only: one_add_one)
  finally have "2 + a = (1 + a) + 1" by (rule sym)
  then have "unat (2 + a) = unat (1 + a) + 1"
    by (rule ssubst) (rule word_succ_lt [OF assms])
  moreover have "unat (1 + a) < unat b" using assms by (simp add: word_less_nat_alt)
  ultimately show ?thesis by simp
qed

lemma nth_last_index: "xs \<noteq> [] \<Longrightarrow> xs ! (length xs - Suc 0) = last xs"
  by (simp add: last_conv_nth)

text \<open>Bits of registers that are composed of fields.\<close>

lemma bit_flag: "bit (push_bit n (of_bool b) :: u32) m \<longleftrightarrow> b \<and> m = n \<and> n < 32"
  by (cases b) (auto simp: bit_simps)

lemma bit_field:
  fixes x :: "'a::len word"
  shows "bit (push_bit n (ucast x) :: u32) m \<longleftrightarrow> n \<le> m \<and> m < 32 \<and> bit x (m - n)"
  by (auto simp: bit_simps)

lemma bit_low_field:
  fixes x :: "'a::len word"
  shows "bit (ucast x :: u32) m \<longleftrightarrow> m < 32 \<and> bit x m"
  by (auto simp: bit_simps)

lemmas register_bits = bit_or_iff bit_flag bit_field bit_low_field

text \<open>A loop whose body may fail: it stops at the first status that is not success.\<close>

fun iter_err :: "('a \<Rightarrow> 's \<Rightarrow> sev_status \<times> 's) \<Rightarrow> 'a list \<Rightarrow> 's \<Rightarrow> sev_status \<times> 's" where
  "iter_err f [] s = (SEV_STATUS_SUCCESS, s)"
| "iter_err f (x # xs) s =
     (case f x s of (status, s') \<Rightarrow>
        if status \<noteq> SEV_STATUS_SUCCESS then (status, s') else iter_err f xs s')"

lemma iter_err_append:
  "iter_err f (xs @ ys) s =
     (case iter_err f xs s of (status, s') \<Rightarrow>
        if status \<noteq> SEV_STATUS_SUCCESS then (status, s') else iter_err f ys s')"
  by (induction xs arbitrary: s) (auto split: prod.splits)

lemma iter_err_total:
  assumes "\<And>x s. x \<in> set xs \<Longrightarrow> f x s = (SEV_STATUS_SUCCESS, g x s)"
  shows "iter_err f xs s = (SEV_STATUS_SUCCESS, fold g xs s)"
  using assms by (induction xs arbitrary: s) auto

lemma iter_err_invariant:
  assumes "P s" and "\<And>x s. x \<in> set xs \<Longrightarrow> P s \<Longrightarrow> P (snd (f x s))"
  shows "P (snd (iter_err f xs s))"
  using assms
proof (induction xs arbitrary: s)
  case Nil
  then show ?case by simp
next
  case (Cons x xs)
  obtain st t where f: "f x s = (st, t)" by (cases "f x s")
  from Cons.prems f have "P t" by (metis list.set_intros(1) snd_conv)
  then have "P (snd (iter_err f xs t))" using Cons.prems(2) by (intro Cons.IH) auto
  with f \<open>P t\<close> show ?case by simp
qed

end
