(* ===== verification/Sev_States.thy ===== *)
theory Sev_States
  imports Sev_Prelude
begin

text \<open>
  The four state machines of the firmware: the life cycle of an SEV guest and of an SNP guest
  (\<open>sev_guest.c\<close>) and the state of the SEV and of the SNP platform (\<open>sev_plat.c\<close>). Each is a
  table of rows (current state, next state, command) that ends in a sentinel row, and a
  transition function that walks the table up to the sentinel. The walk is one recursive
  function, shared by the four transition functions as the code shares its shape.

  The locale \<open>transition_table\<close> states what the walk needs of a table (a sentinel at the end,
  no two live rows for the same state and command); its lemmas are proved once and
  interpreted on the four tables.
\<close>

section \<open>Commands and states\<close>

text \<open>\<open>sev_mcmd_id_t\<close> is a 32-bit enum; the ids below are those of \<open>sev_mcmd.h\<close>.\<close>

type_synonym sev_mcmd_id = u32

definition SEV_MCMD_ID_INIT :: sev_mcmd_id where "SEV_MCMD_ID_INIT = 0x001"
definition SEV_MCMD_ID_SHUTDOWN :: sev_mcmd_id where "SEV_MCMD_ID_SHUTDOWN = 0x002"
definition SEV_MCMD_ID_PLATFORM_RESET :: sev_mcmd_id where "SEV_MCMD_ID_PLATFORM_RESET = 0x003"
definition SEV_MCMD_ID_DECOMMISSION :: sev_mcmd_id where "SEV_MCMD_ID_DECOMMISSION = 0x020"
definition SEV_MCMD_ID_LAUNCH_START :: sev_mcmd_id where "SEV_MCMD_ID_LAUNCH_START = 0x030"
definition SEV_MCMD_ID_LAUNCH_MEASURE :: sev_mcmd_id where "SEV_MCMD_ID_LAUNCH_MEASURE = 0x033"
definition SEV_MCMD_ID_LAUNCH_FINISH :: sev_mcmd_id where "SEV_MCMD_ID_LAUNCH_FINISH = 0x035"
definition SEV_MCMD_ID_SEND_START :: sev_mcmd_id where "SEV_MCMD_ID_SEND_START = 0x040"
definition SEV_MCMD_ID_SEND_FINISH :: sev_mcmd_id where "SEV_MCMD_ID_SEND_FINISH = 0x043"
definition SEV_MCMD_ID_SEND_CANCEL :: sev_mcmd_id where "SEV_MCMD_ID_SEND_CANCEL = 0x044"
definition SEV_MCMD_ID_RECEIVE_START :: sev_mcmd_id where "SEV_MCMD_ID_RECEIVE_START = 0x050"
definition SEV_MCMD_ID_RECEIVE_FINISH :: sev_mcmd_id where "SEV_MCMD_ID_RECEIVE_FINISH = 0x053"
definition SNP_MCMD_ID_INIT :: sev_mcmd_id where "SNP_MCMD_ID_INIT = 0x081"
definition SNP_MCMD_ID_SHUTDOWN :: sev_mcmd_id where "SNP_MCMD_ID_SHUTDOWN = 0x082"
definition SNP_MCMD_ID_DECOMMISSION :: sev_mcmd_id where "SNP_MCMD_ID_DECOMMISSION = 0x090"
definition SNP_MCMD_ID_GUEST_REQUEST :: sev_mcmd_id where "SNP_MCMD_ID_GUEST_REQUEST = 0x094"
definition SNP_MCMD_ID_LAUNCH_START :: sev_mcmd_id where "SNP_MCMD_ID_LAUNCH_START = 0x0A0"
definition SNP_MCMD_ID_LAUNCH_FINISH :: sev_mcmd_id where "SNP_MCMD_ID_LAUNCH_FINISH = 0x0A2"
definition SEV_MCMD_ID_LIMIT :: sev_mcmd_id where "SEV_MCMD_ID_LIMIT = 0x0CF"

lemmas mcmd_id_defs =
  SEV_MCMD_ID_INIT_def SEV_MCMD_ID_SHUTDOWN_def SEV_MCMD_ID_PLATFORM_RESET_def
  SEV_MCMD_ID_DECOMMISSION_def SEV_MCMD_ID_LAUNCH_START_def SEV_MCMD_ID_LAUNCH_MEASURE_def
  SEV_MCMD_ID_LAUNCH_FINISH_def SEV_MCMD_ID_SEND_START_def SEV_MCMD_ID_SEND_FINISH_def
  SEV_MCMD_ID_SEND_CANCEL_def SEV_MCMD_ID_RECEIVE_START_def SEV_MCMD_ID_RECEIVE_FINISH_def
  SNP_MCMD_ID_INIT_def SNP_MCMD_ID_SHUTDOWN_def SNP_MCMD_ID_DECOMMISSION_def
  SNP_MCMD_ID_GUEST_REQUEST_def SNP_MCMD_ID_LAUNCH_START_def SNP_MCMD_ID_LAUNCH_FINISH_def
  SEV_MCMD_ID_LIMIT_def

datatype sev_guest_state =
    SEV_GUEST_STATE_INVALID
  | SEV_GUEST_STATE_LUPDATE
  | SEV_GUEST_STATE_LSECRET
  | SEV_GUEST_STATE_RUNNING
  | SEV_GUEST_STATE_SUPDATE
  | SEV_GUEST_STATE_RUPDATE
  | SEV_GUEST_STATE_SENT
  | SEV_GUEST_STATE_LIMIT

datatype snp_guest_state =
    SNP_GUEST_STATE_INIT
  | SNP_GUEST_STATE_LAUNCH
  | SNP_GUEST_STATE_RUNNING
  | SNP_GUEST_STATE_LIMIT

datatype sev_state = SEV_STATE_UNINIT | SEV_STATE_INIT | SEV_STATE_WORKING | SEV_STATE_LIMIT

datatype snp_state = SNP_STATE_UNINIT | SNP_STATE_INIT | SNP_STATE_LIMIT

section \<open>The tables\<close>

type_synonym 's state_tbl = "('s \<times> 's \<times> sev_mcmd_id) list"

definition guest_state_tbl_sev :: "sev_guest_state state_tbl" where
  "guest_state_tbl_sev = [
     (SEV_GUEST_STATE_LUPDATE, SEV_GUEST_STATE_INVALID, SEV_MCMD_ID_DECOMMISSION),
     (SEV_GUEST_STATE_LSECRET, SEV_GUEST_STATE_INVALID, SEV_MCMD_ID_DECOMMISSION),
     (SEV_GUEST_STATE_RUNNING, SEV_GUEST_STATE_INVALID, SEV_MCMD_ID_DECOMMISSION),
     (SEV_GUEST_STATE_SUPDATE, SEV_GUEST_STATE_INVALID, SEV_MCMD_ID_DECOMMISSION),
     (SEV_GUEST_STATE_RUPDATE, SEV_GUEST_STATE_INVALID, SEV_MCMD_ID_DECOMMISSION),
     (SEV_GUEST_STATE_SENT, SEV_GUEST_STATE_INVALID, SEV_MCMD_ID_DECOMMISSION),
     (SEV_GUEST_STATE_INVALID, SEV_GUEST_STATE_LUPDATE, SEV_MCMD_ID_LAUNCH_START),
     (SEV_GUEST_STATE_LUPDATE, SEV_GUEST_STATE_LSECRET, SEV_MCMD_ID_LAUNCH_MEASURE),
     (SEV_GUEST_STATE_LSECRET, SEV_GUEST_STATE_RUNNING, SEV_MCMD_ID_LAUNCH_FINISH),
     (SEV_GUEST_STATE_RUNNING, SEV_GUEST_STATE_SUPDATE, SEV_MCMD_ID_SEND_START),
     (SEV_GUEST_STATE_SUPDATE, SEV_GUEST_STATE_SENT, SEV_MCMD_ID_SEND_FINISH),
     (SEV_GUEST_STATE_SUPDATE, SEV_GUEST_STATE_RUNNING, SEV_MCMD_ID_SEND_CANCEL),
     (SEV_GUEST_STATE_INVALID, SEV_GUEST_STATE_RUPDATE, SEV_MCMD_ID_RECEIVE_START),
     (SEV_GUEST_STATE_RUPDATE, SEV_GUEST_STATE_RUNNING, SEV_MCMD_ID_RECEIVE_FINISH),
     (SEV_GUEST_STATE_LIMIT, SEV_GUEST_STATE_LIMIT, SEV_MCMD_ID_LIMIT)]"

definition guest_state_tbl_snp :: "snp_guest_state state_tbl" where
  "guest_state_tbl_snp = [
     (SNP_GUEST_STATE_INIT, SNP_GUEST_STATE_INIT, SNP_MCMD_ID_DECOMMISSION),
     (SNP_GUEST_STATE_LAUNCH, SNP_GUEST_STATE_INIT, SNP_MCMD_ID_DECOMMISSION),
     (SNP_GUEST_STATE_RUNNING, SNP_GUEST_STATE_INIT, SNP_MCMD_ID_DECOMMISSION),
     (SNP_GUEST_STATE_INIT, SNP_GUEST_STATE_LAUNCH, SNP_MCMD_ID_LAUNCH_START),
     (SNP_GUEST_STATE_LAUNCH, SNP_GUEST_STATE_RUNNING, SNP_MCMD_ID_LAUNCH_FINISH),
     (SNP_GUEST_STATE_INIT, SNP_GUEST_STATE_RUNNING, SNP_MCMD_ID_GUEST_REQUEST),
     (SNP_GUEST_STATE_LAUNCH, SNP_GUEST_STATE_RUNNING, SNP_MCMD_ID_GUEST_REQUEST),
     (SNP_GUEST_STATE_LIMIT, SNP_GUEST_STATE_LIMIT, SEV_MCMD_ID_LIMIT)]"

definition plat_state_tbl_sev :: "sev_state state_tbl" where
  "plat_state_tbl_sev = [
     (SEV_STATE_UNINIT, SEV_STATE_INIT, SEV_MCMD_ID_INIT),
     (SEV_STATE_UNINIT, SEV_STATE_UNINIT, SEV_MCMD_ID_SHUTDOWN),
     (SEV_STATE_INIT, SEV_STATE_UNINIT, SEV_MCMD_ID_SHUTDOWN),
     (SEV_STATE_WORKING, SEV_STATE_UNINIT, SEV_MCMD_ID_SHUTDOWN),
     (SEV_STATE_UNINIT, SEV_STATE_UNINIT, SEV_MCMD_ID_PLATFORM_RESET),
     (SEV_STATE_WORKING, SEV_STATE_INIT, SEV_MCMD_ID_DECOMMISSION),
     (SEV_STATE_INIT, SEV_STATE_WORKING, SEV_MCMD_ID_LAUNCH_START),
     (SEV_STATE_WORKING, SEV_STATE_WORKING, SEV_MCMD_ID_LAUNCH_START),
     (SEV_STATE_INIT, SEV_STATE_WORKING, SEV_MCMD_ID_RECEIVE_START),
     (SEV_STATE_WORKING, SEV_STATE_WORKING, SEV_MCMD_ID_RECEIVE_START),
     (SEV_STATE_LIMIT, SEV_STATE_LIMIT, SEV_MCMD_ID_LIMIT)]"

definition plat_state_tbl_snp :: "snp_state state_tbl" where
  "plat_state_tbl_snp = [
     (SNP_STATE_UNINIT, SNP_STATE_INIT, SNP_MCMD_ID_INIT),
     (SNP_STATE_INIT, SNP_STATE_UNINIT, SNP_MCMD_ID_SHUTDOWN),
     (SNP_STATE_LIMIT, SNP_STATE_LIMIT, SEV_MCMD_ID_LIMIT)]"

section \<open>The walk\<close>

text \<open>
  The \<open>while (tbl[i].cmd != SEV_MCMD_ID_LIMIT)\<close> loop. \<open>None\<close> is "the loop ended at the
  sentinel"; the empty list (a table without a sentinel, past which the C loop would read)
  does not occur in the four tables.
\<close>

fun tbl_walk :: "'s state_tbl \<Rightarrow> 's \<Rightarrow> sev_mcmd_id \<Rightarrow> 's option" where
  "tbl_walk [] s cmd = None"
| "tbl_walk ((cur, nxt, c) # rows) s cmd =
     (if c = SEV_MCMD_ID_LIMIT then None
      else if cur = s \<and> c = cmd then Some nxt
      else tbl_walk rows s cmd)"

text \<open>The rows before the first sentinel.\<close>

definition live_rows :: "'s state_tbl \<Rightarrow> 's state_tbl" where
  "live_rows tbl = takeWhile (\<lambda>(cur, nxt, c). c \<noteq> SEV_MCMD_ID_LIMIT) tbl"

lemma tbl_walk_SomeD: "tbl_walk tbl s cmd = Some s' \<Longrightarrow> (s, s', cmd) \<in> set (live_rows tbl)"
  by (induction tbl s cmd rule: tbl_walk.induct) (auto simp: live_rows_def split: if_splits)

lemma tbl_walk_NoneD: "tbl_walk tbl s cmd = None \<Longrightarrow> (s, s', cmd) \<notin> set (live_rows tbl)"
  by (induction tbl s cmd rule: tbl_walk.induct) (auto simp: live_rows_def split: if_splits)

locale transition_table =
  fixes tbl :: "'s state_tbl" and sentinel :: "'s \<times> 's \<times> sev_mcmd_id"
  assumes terminated: "tbl = live_rows tbl @ [sentinel]"
    and functional: "distinct (map (\<lambda>(cur, nxt, c). (cur, c)) (live_rows tbl))"
begin

lemma row_unique:
  assumes "(s, a, cmd) \<in> set (live_rows tbl)" and "(s, b, cmd) \<in> set (live_rows tbl)"
  shows "a = b"
  using functional assms by (fastforce simp: distinct_map inj_on_def)

lemma walk_iff: "tbl_walk tbl s cmd = Some s' \<longleftrightarrow> (s, s', cmd) \<in> set (live_rows tbl)"
proof
  assume row: "(s, s', cmd) \<in> set (live_rows tbl)"
  then obtain t where t: "tbl_walk tbl s cmd = Some t"
    by (cases "tbl_walk tbl s cmd") (auto dest: tbl_walk_NoneD)
  with row show "tbl_walk tbl s cmd = Some s'"
    by (auto dest: tbl_walk_SomeD row_unique)
qed (rule tbl_walk_SomeD)

lemma walk_reject: "tbl_walk tbl s cmd = None \<longleftrightarrow> (\<forall>s'. (s, s', cmd) \<notin> set (live_rows tbl))"
  by (metis not_None_eq walk_iff)

lemma walk_live_command: "tbl_walk tbl s cmd = Some s' \<Longrightarrow> cmd \<noteq> SEV_MCMD_ID_LIMIT"
  by (auto dest!: tbl_walk_SomeD set_takeWhileD simp: live_rows_def)

end

lemmas table_simps = live_rows_def mcmd_id_defs

interpretation guest_sev: transition_table guest_state_tbl_sev
    "(SEV_GUEST_STATE_LIMIT, SEV_GUEST_STATE_LIMIT, SEV_MCMD_ID_LIMIT)"
  by unfold_locales (simp_all add: guest_state_tbl_sev_def table_simps)

interpretation guest_snp: transition_table guest_state_tbl_snp
    "(SNP_GUEST_STATE_LIMIT, SNP_GUEST_STATE_LIMIT, SEV_MCMD_ID_LIMIT)"
  by unfold_locales (simp_all add: guest_state_tbl_snp_def table_simps)

interpretation plat_sev: transition_table plat_state_tbl_sev
    "(SEV_STATE_LIMIT, SEV_STATE_LIMIT, SEV_MCMD_ID_LIMIT)"
  by unfold_locales (simp_all add: plat_state_tbl_sev_def table_simps)

interpretation plat_snp: transition_table plat_state_tbl_snp
    "(SNP_STATE_LIMIT, SNP_STATE_LIMIT, SEV_MCMD_ID_LIMIT)"
  by unfold_locales (simp_all add: plat_state_tbl_snp_def table_simps)

section \<open>The transition functions\<close>

text \<open>
  The four functions differ in their table, in the status of an illegal transition and in where
  the state lives. \<open>non_null\<close> says that the structure holding the state is not NULL.
\<close>

definition table_transition ::
  "'s state_tbl \<Rightarrow> sev_status \<Rightarrow> bool \<Rightarrow> 's \<Rightarrow> sev_mcmd_id \<Rightarrow> sev_status \<times> 's" where
  "table_transition tbl illegal non_null s cmd =
     (if \<not> non_null \<or> cmd \<ge> SEV_MCMD_ID_LIMIT then (ERR_INVALID_PARAMS, s)
      else case tbl_walk tbl s cmd of
             Some s' \<Rightarrow> (SEV_STATUS_SUCCESS, s')
           | None \<Rightarrow> (illegal, s))"

definition sev_guest_state_transition ::
  "bool \<Rightarrow> sev_guest_state \<Rightarrow> sev_mcmd_id \<Rightarrow> sev_status \<times> sev_guest_state" where
  "sev_guest_state_transition = table_transition guest_state_tbl_sev SEV_STATUS_INVALID_GUEST_STATE"

definition snp_guest_state_transition ::
  "bool \<Rightarrow> snp_guest_state \<Rightarrow> sev_mcmd_id \<Rightarrow> sev_status \<times> snp_guest_state" where
  "snp_guest_state_transition = table_transition guest_state_tbl_snp SEV_STATUS_INVALID_GUEST_STATE"

definition sev_state_transition ::
  "bool \<Rightarrow> sev_state \<Rightarrow> sev_mcmd_id \<Rightarrow> sev_status \<times> sev_state" where
  "sev_state_transition = table_transition plat_state_tbl_sev SEV_STATUS_INVALID_PLATFORM_STATE"

definition snp_state_transition ::
  "bool \<Rightarrow> snp_state \<Rightarrow> sev_mcmd_id \<Rightarrow> sev_status \<times> snp_state" where
  "snp_state_transition = table_transition plat_state_tbl_snp SEV_STATUS_INVALID_PLATFORM_STATE"

lemmas transition_defs = sev_guest_state_transition_def snp_guest_state_transition_def
  sev_state_transition_def snp_state_transition_def

context transition_table
begin

lemma transition_success:
  assumes "illegal \<noteq> SEV_STATUS_SUCCESS"
  shows "table_transition tbl illegal True s cmd = (SEV_STATUS_SUCCESS, s') \<longleftrightarrow>
    cmd < SEV_MCMD_ID_LIMIT \<and> (s, s', cmd) \<in> set (live_rows tbl)"
  unfolding walk_iff [symmetric] using assms
  by (auto simp: table_transition_def not_le split: option.splits)

lemma transition_failure:
  assumes "fst (table_transition tbl illegal non_null s cmd) \<noteq> SEV_STATUS_SUCCESS"
  shows "snd (table_transition tbl illegal non_null s cmd) = s"
  using assms by (auto simp: table_transition_def split: option.splits)

end

lemma guest_step_iff:
  "sev_guest_state_transition True s cmd = (SEV_STATUS_SUCCESS, s') \<longleftrightarrow>
     (s, s', cmd) \<in> set (live_rows guest_state_tbl_sev)"
proof -
  have "(s, s', cmd) \<in> set (live_rows guest_state_tbl_sev) \<Longrightarrow> cmd < SEV_MCMD_ID_LIMIT"
    by (auto simp: guest_state_tbl_sev_def table_simps)
  then show ?thesis
    unfolding sev_guest_state_transition_def
    by (subst guest_sev.transition_success) auto
qed

lemma live_guest_rows:
  "live_rows guest_state_tbl_sev = butlast guest_state_tbl_sev"
  by (simp add: guest_state_tbl_sev_def table_simps)

section \<open>Histories of a guest\<close>

text \<open>A guest that receives commands: the accepted ones are recorded, oldest first.\<close>

fun guest_history ::
  "sev_mcmd_id list \<Rightarrow> sev_guest_state \<times> sev_mcmd_id list \<Rightarrow> sev_guest_state \<times> sev_mcmd_id list" where
  "guest_history [] st = st"
| "guest_history (cmd # cmds) (s, acc) =
     (case sev_guest_state_transition True s cmd of
        (status, s') \<Rightarrow>
          guest_history cmds (s', if status = SEV_STATUS_SUCCESS then acc @ [cmd] else acc))"

text \<open>How a guest comes to run: it is launched and measured, or received.\<close>

definition brought_up :: "sev_mcmd_id list \<Rightarrow> bool" where
  "brought_up acc \<longleftrightarrow> (\<exists>pre start post. acc = pre @ start @ post \<and>
     SEV_MCMD_ID_DECOMMISSION \<notin> set post \<and>
     (start = [SEV_MCMD_ID_LAUNCH_START, SEV_MCMD_ID_LAUNCH_MEASURE, SEV_MCMD_ID_LAUNCH_FINISH] \<or>
      start = [SEV_MCMD_ID_RECEIVE_START, SEV_MCMD_ID_RECEIVE_FINISH]))"

fun guest_inv :: "sev_guest_state \<Rightarrow> sev_mcmd_id list \<Rightarrow> bool" where
  "guest_inv SEV_GUEST_STATE_INVALID acc \<longleftrightarrow> True"
| "guest_inv SEV_GUEST_STATE_LUPDATE acc \<longleftrightarrow> (\<exists>pre. acc = pre @ [SEV_MCMD_ID_LAUNCH_START])"
| "guest_inv SEV_GUEST_STATE_LSECRET acc \<longleftrightarrow>
     (\<exists>pre. acc = pre @ [SEV_MCMD_ID_LAUNCH_START, SEV_MCMD_ID_LAUNCH_MEASURE])"
| "guest_inv SEV_GUEST_STATE_RUPDATE acc \<longleftrightarrow> (\<exists>pre. acc = pre @ [SEV_MCMD_ID_RECEIVE_START])"
| "guest_inv SEV_GUEST_STATE_LIMIT acc \<longleftrightarrow> False"
| "guest_inv s acc \<longleftrightarrow> brought_up acc"

lemma brought_up_launch:
  "brought_up (pre @ [SEV_MCMD_ID_LAUNCH_START, SEV_MCMD_ID_LAUNCH_MEASURE, SEV_MCMD_ID_LAUNCH_FINISH])"
  unfolding brought_up_def by (intro exI [of _ pre] exI [of _ "[SEV_MCMD_ID_LAUNCH_START,
    SEV_MCMD_ID_LAUNCH_MEASURE, SEV_MCMD_ID_LAUNCH_FINISH]"] exI [of _ "[]"]) simp

lemma brought_up_receive:
  "brought_up (pre @ [SEV_MCMD_ID_RECEIVE_START, SEV_MCMD_ID_RECEIVE_FINISH])"
  unfolding brought_up_def by (intro exI [of _ pre] exI [of _ "[SEV_MCMD_ID_RECEIVE_START,
    SEV_MCMD_ID_RECEIVE_FINISH]"] exI [of _ "[]"]) simp

lemma brought_up_snoc:
  assumes "brought_up acc" and "cmd \<noteq> SEV_MCMD_ID_DECOMMISSION"
  shows "brought_up (acc @ [cmd])"
proof -
  from assms(1) obtain pre start post where *: "acc = pre @ start @ post"
    "SEV_MCMD_ID_DECOMMISSION \<notin> set post"
    "start = [SEV_MCMD_ID_LAUNCH_START, SEV_MCMD_ID_LAUNCH_MEASURE, SEV_MCMD_ID_LAUNCH_FINISH] \<or>
      start = [SEV_MCMD_ID_RECEIVE_START, SEV_MCMD_ID_RECEIVE_FINISH]"
    unfolding brought_up_def by blast
  with assms(2) show ?thesis
    unfolding brought_up_def
    by (intro exI [of _ pre] exI [of _ start] exI [of _ "post @ [cmd]"]) simp
qed

lemma guest_inv_step:
  assumes "guest_inv s acc" and "(s, s', cmd) \<in> set (live_rows guest_state_tbl_sev)"
  shows "guest_inv s' (acc @ [cmd])"
proof -
  have no: "SEV_MCMD_ID_SEND_START \<noteq> SEV_MCMD_ID_DECOMMISSION"
    "SEV_MCMD_ID_SEND_FINISH \<noteq> SEV_MCMD_ID_DECOMMISSION"
    "SEV_MCMD_ID_SEND_CANCEL \<noteq> SEV_MCMD_ID_DECOMMISSION"
    by (simp_all add: mcmd_id_defs)
  from assms(2) have row: "(s, s', cmd) \<in> set (butlast guest_state_tbl_sev)"
    by (simp only: live_guest_rows)
  show ?thesis
    using row assms(1) brought_up_launch brought_up_receive brought_up_snoc no
    by (auto simp: guest_state_tbl_sev_def)
qed

lemma guest_inv_history:
  "guest_inv s acc \<Longrightarrow> guest_history cmds (s, acc) = (s', acc') \<Longrightarrow> guest_inv s' acc'"
proof (induction cmds arbitrary: s acc)
  case Nil
  then show ?case by simp
next
  case (Cons cmd cmds)
  obtain st t where step: "sev_guest_state_transition True s cmd = (st, t)"
    by (cases "sev_guest_state_transition True s cmd")
  show ?case
  proof (cases "st = SEV_STATUS_SUCCESS")
    case True
    with step have "guest_inv t (acc @ [cmd])"
      using guest_inv_step [OF Cons.prems(1)] guest_step_iff by blast
    with Cons True step show ?thesis by simp
  next
    case False
    with step have "t = s"
      using guest_sev.transition_failure [of SEV_STATUS_INVALID_GUEST_STATE True s cmd]
      by (simp add: sev_guest_state_transition_def)
    with Cons False step show ?thesis by simp
  qed
qed

section \<open>Properties\<close>

text \<open>
  C18: However the host orders its commands, a guest that is running (or is being sent, or was
  sent) has, since it was last decommissioned, gone through launch start, measurement and
  launch finish in this order, or through receive start and receive finish.
\<close>

theorem running_guest_was_launched_or_received:
  assumes "guest_history cmds (SEV_GUEST_STATE_INVALID, []) = (s, acc)"
    and "s \<in> {SEV_GUEST_STATE_RUNNING, SEV_GUEST_STATE_SUPDATE, SEV_GUEST_STATE_SENT}"
  shows "\<exists>pre start post. acc = pre @ start @ post \<and> SEV_MCMD_ID_DECOMMISSION \<notin> set post \<and>
     (start = [SEV_MCMD_ID_LAUNCH_START, SEV_MCMD_ID_LAUNCH_MEASURE, SEV_MCMD_ID_LAUNCH_FINISH] \<or>
      start = [SEV_MCMD_ID_RECEIVE_START, SEV_MCMD_ID_RECEIVE_FINISH])"
  using guest_inv_history [OF _ assms(1)] assms(2) by (auto simp: brought_up_def)

theorem running_guest_was_launched_or_received_witness:
  "\<exists>pre start post. [SEV_MCMD_ID_RECEIVE_START, SEV_MCMD_ID_RECEIVE_FINISH, SEV_MCMD_ID_SEND_START] =
      pre @ start @ post \<and> SEV_MCMD_ID_DECOMMISSION \<notin> set post \<and>
     (start = [SEV_MCMD_ID_LAUNCH_START, SEV_MCMD_ID_LAUNCH_MEASURE, SEV_MCMD_ID_LAUNCH_FINISH] \<or>
      start = [SEV_MCMD_ID_RECEIVE_START, SEV_MCMD_ID_RECEIVE_FINISH])"
  by (rule running_guest_was_launched_or_received
      [of "[SEV_MCMD_ID_RECEIVE_START, SEV_MCMD_ID_LAUNCH_FINISH, SEV_MCMD_ID_RECEIVE_FINISH,
            SEV_MCMD_ID_SEND_START]" SEV_GUEST_STATE_SUPDATE])
     (simp_all add: sev_guest_state_transition_def table_transition_def guest_state_tbl_sev_def
       mcmd_id_defs)

text \<open>
  The four transition functions are total and deterministic: each either succeeds along a
  row of its table or leaves the state alone with its error status; in particular a guest
  that was sent accepts no command but decommission.
\<close>

theorem transitions_follow_the_tables:
  "(fst (sev_guest_state_transition b g cmd) \<noteq> SEV_STATUS_SUCCESS \<longrightarrow>
      snd (sev_guest_state_transition b g cmd) = g) \<and>
   (fst (snp_guest_state_transition b n cmd) \<noteq> SEV_STATUS_SUCCESS \<longrightarrow>
      snd (snp_guest_state_transition b n cmd) = n) \<and>
   (fst (sev_state_transition b p cmd) \<noteq> SEV_STATUS_SUCCESS \<longrightarrow>
      snd (sev_state_transition b p cmd) = p) \<and>
   (fst (snp_state_transition b q cmd) \<noteq> SEV_STATUS_SUCCESS \<longrightarrow>
      snd (snp_state_transition b q cmd) = q) \<and>
   (fst (sev_guest_state_transition True SEV_GUEST_STATE_SENT cmd) = SEV_STATUS_SUCCESS \<longleftrightarrow>
      cmd = SEV_MCMD_ID_DECOMMISSION)"
proof -
  have "fst (sev_guest_state_transition True SEV_GUEST_STATE_SENT cmd) = SEV_STATUS_SUCCESS \<longleftrightarrow>
      (\<exists>s'. (SEV_GUEST_STATE_SENT, s', cmd) \<in> set (live_rows guest_state_tbl_sev))"
    by (simp add: guest_step_iff [symmetric] prod_eq_iff)
  also have "\<dots> \<longleftrightarrow> cmd = SEV_MCMD_ID_DECOMMISSION"
    unfolding live_guest_rows by (auto simp: guest_state_tbl_sev_def)
  finally show ?thesis
    using guest_sev.transition_failure guest_snp.transition_failure plat_sev.transition_failure
      plat_snp.transition_failure
    by (simp add: transition_defs)
qed

theorem transitions_follow_the_tables_witness:
  "fst (sev_guest_state_transition True SEV_GUEST_STATE_SENT SEV_MCMD_ID_SEND_CANCEL) \<noteq>
     SEV_STATUS_SUCCESS"
  using transitions_follow_the_tables [of True SEV_GUEST_STATE_SENT SEV_MCMD_ID_SEND_CANCEL]
  by (simp add: mcmd_id_defs)

end
