(* ===== verification/Sev_Interfaces.thy ===== *)
theory Sev_Interfaces
  imports Sev_Prelude "HOL-Library.Multiset"
begin

text \<open>
  The interfaces between the components. \<open>fifo_source\<close> is what a consumer of a queue relies on
  (the ring buffer of host commands, the free list of the VCPU pool); \<open>fifo_pool\<close> extends it
  with the return of an element. The clients' lemmas are proved here, once, from the laws; the
  components that provide the operations interpret the locales on their own definitions.
\<close>

section \<open>Consuming a queue\<close>

text \<open>\<open>drain_n deq n s\<close> takes at most \<open>n\<close> elements, until the source gives none.\<close>

fun drain_n :: "('s \<Rightarrow> 'a option \<times> 's) \<Rightarrow> nat \<Rightarrow> 's \<Rightarrow> 'a list \<times> 's" where
  "drain_n deq 0 s = ([], s)"
| "drain_n deq (Suc n) s =
     (case deq s of
        (None, s') \<Rightarrow> ([], s')
      | (Some x, s') \<Rightarrow> let (xs, s'') = drain_n deq n s' in (x # xs, s''))"

locale fifo_source =
  fixes repr :: "'s \<Rightarrow> 'a list \<Rightarrow> bool"
    and deq :: "'s \<Rightarrow> 'a option \<times> 's"
    and reserve :: nat
  assumes deq_next: "repr s (x # xs) \<Longrightarrow> reserve \<le> length xs \<Longrightarrow>
      \<exists>s'. deq s = (Some x, s') \<and> repr s' xs"
    and deq_none: "repr s xs \<Longrightarrow> length xs \<le> reserve \<Longrightarrow>
      \<exists>s'. deq s = (None, s') \<and> repr s' xs"
begin

lemma drain_prefix:
  assumes "repr s xs" and "n + reserve \<le> length xs"
  shows "\<exists>s'. drain_n deq n s = (take n xs, s') \<and> repr s' (drop n xs)"
  using assms
proof (induction n arbitrary: s xs)
  case 0
  then show ?case by simp
next
  case (Suc n)
  then obtain x ys where xs: "xs = x # ys" by (cases xs) auto
  with Suc.prems deq_next obtain s' where "deq s = (Some x, s')" "repr s' ys" by fastforce
  with Suc.IH [of s' ys] Suc.prems xs show ?case by (auto split: prod.splits)
qed

text \<open>Asked for more than there is, the source gives everything but the reserve.\<close>

lemma drain_all:
  assumes "repr s xs" and "length xs \<le> n + reserve"
  shows "\<exists>s'. drain_n deq n s = (take (length xs - reserve) xs, s') \<and>
    repr s' (drop (length xs - reserve) xs)"
  using assms
proof (induction n arbitrary: s xs)
  case 0
  then show ?case by simp
next
  case (Suc n)
  show ?case
  proof (cases "length xs \<le> reserve")
    case True
    with deq_none [OF Suc.prems(1)] show ?thesis by auto
  next
    case False
    then obtain x ys where xs: "xs = x # ys" by (cases xs) auto
    with Suc.prems deq_next False obtain s' where s': "deq s = (Some x, s')" "repr s' ys"
      by fastforce
    from False xs have "length xs - reserve = Suc (length ys - reserve)" by simp
    with Suc.IH [OF s'(2)] Suc.prems xs s' show ?thesis by auto
  qed
qed

end

section \<open>A pool of elements\<close>

datatype 'a pool_op = Take | Give 'a

text \<open>A client that owns what it took and gives back only what it owns.\<close>

fun pool_step ::
  "('s \<Rightarrow> 'a option \<times> 's) \<Rightarrow> ('a \<Rightarrow> 's \<Rightarrow> 's) \<Rightarrow> 'a pool_op \<Rightarrow> 's \<times> 'a list \<Rightarrow> 's \<times> 'a list" where
  "pool_step deq enq Take (s, own) =
     (case deq s of (None, s') \<Rightarrow> (s', own) | (Some x, s') \<Rightarrow> (s', own @ [x]))"
| "pool_step deq enq (Give x) (s, own) =
     (if x \<in> set own then (enq x s, remove1 x own) else (s, own))"

definition pool_run ::
  "('s \<Rightarrow> 'a option \<times> 's) \<Rightarrow> ('a \<Rightarrow> 's \<Rightarrow> 's) \<Rightarrow> 'a pool_op list \<Rightarrow> 's \<times> 'a list \<Rightarrow> 's \<times> 'a list" where
  "pool_run deq enq ops st = fold (pool_step deq enq) ops st"

locale fifo_pool = fifo_source repr deq reserve
  for repr :: "'s \<Rightarrow> 'a list \<Rightarrow> bool" and deq :: "'s \<Rightarrow> 'a option \<times> 's" and reserve :: nat +
  fixes enq :: "'a \<Rightarrow> 's \<Rightarrow> 's"
    and elem :: "'s \<Rightarrow> 'a \<Rightarrow> bool"
  assumes enq_repr: "repr s xs \<Longrightarrow> elem s x \<Longrightarrow> x \<notin> set xs \<Longrightarrow> repr (enq x s) (xs @ [x])"
    and elem_enq: "repr s xs \<Longrightarrow> elem s x \<Longrightarrow> x \<notin> set xs \<Longrightarrow> elem (enq x s) = elem s"
    and elem_deq: "repr s xs \<Longrightarrow> elem (snd (deq s)) = elem s"
    and repr_elem: "repr s xs \<Longrightarrow> x \<in> set xs \<Longrightarrow> elem s x"
    and repr_distinct: "repr s xs \<Longrightarrow> distinct xs"
begin

lemma step_conserves:
  assumes "repr s fl" and "distinct (fl @ own)" and "\<forall>x \<in> set own. elem s x"
    and "reserve \<le> length fl"
    and "pool_step deq enq op (s, own) = (s', own')"
  shows "\<exists>fl'. repr s' fl' \<and> mset (fl' @ own') = mset (fl @ own) \<and> reserve \<le> length fl' \<and>
    (\<forall>x \<in> set own'. elem s' x)"
proof (cases op)
  case Take
  show ?thesis
  proof (cases "length fl \<le> reserve")
    case True
    with deq_none [OF assms(1)] obtain t where t: "deq s = (None, t)" "repr t fl" by blast
    with Take assms(5) have st: "s' = t" "own' = own" by auto
    have "elem t = elem s" using elem_deq [OF assms(1)] t by simp
    with t st assms show ?thesis by auto
  next
    case False
    then obtain x xs where fl: "fl = x # xs" by (cases fl) auto
    with False assms(1) deq_next obtain t where t: "deq s = (Some x, t)" "repr t xs"
      by fastforce
    with Take assms(5) have st: "s' = t" "own' = own @ [x]" by auto
    have "elem t = elem s" using elem_deq [OF assms(1)] t by simp
    then have "\<forall>y \<in> set own'. elem s' y"
      using st assms(3) repr_elem [OF assms(1)] fl by auto
    with t st fl False show ?thesis by (intro exI [of _ xs]) auto
  qed
next
  case (Give x)
  show ?thesis
  proof (cases "x \<in> set own")
    case True
    with Give assms(5) have st: "s' = enq x s" "own' = remove1 x own" by auto
    from True assms have x: "elem s x" "x \<notin> set fl" by auto
    have "\<forall>y \<in> set own'. elem s' y"
      using st assms(3) elem_enq [OF assms(1) x] set_remove1_subset [of x own] by auto
    with enq_repr [OF assms(1) x] st True assms(4) show ?thesis
      by (intro exI [of _ "fl @ [x]"]) simp
  qed (use Give assms in auto)
qed

text \<open>Nothing is lost and nothing is handed out twice, whatever the client does.\<close>

lemma run_conserves:
  assumes "repr s fl" and "distinct (fl @ own)" and "\<forall>x \<in> set own. elem s x"
    and "reserve \<le> length fl"
    and "pool_run deq enq ops (s, own) = (s', own')"
  shows "\<exists>fl'. repr s' fl' \<and> mset (fl' @ own') = mset (fl @ own) \<and> reserve \<le> length fl' \<and>
    distinct (fl' @ own')"
  using assms
proof (induction ops arbitrary: s fl own)
  case Nil
  then show ?case by (auto simp: pool_run_def)
next
  case (Cons op ops)
  obtain t own1 where step: "pool_step deq enq op (s, own) = (t, own1)"
    by (cases "pool_step deq enq op (s, own)")
  from step_conserves [OF Cons.prems(1-4) step] obtain fl1 where
    one: "repr t fl1" "mset (fl1 @ own1) = mset (fl @ own)" "reserve \<le> length fl1"
      "\<forall>x \<in> set own1. elem t x" by blast
  have d: "distinct (fl1 @ own1)"
    using one(2) Cons.prems(2) mset_eq_imp_distinct_iff by blast
  have "pool_run deq enq ops (t, own1) = (s', own')"
    using Cons.prems(5) step by (simp add: pool_run_def)
  from Cons.IH [OF one(1) d one(4) one(3) this] one(2) show ?case by simp
qed

end

end
