(* ===== verification/Sev_Pool.thy ===== *)
theory Sev_Pool
  imports Sev_Interfaces
begin

text \<open>
  The VCPU block pool of SEV-ES (\<open>pool_u32.c\<close>, \<open>pool_u32.h\<close>). A block is one 32-bit word of
  the trusted memory region that holds the index of the next block: the free blocks form a
  singly linked list with a head and a tail, and the blocks a guest owns form another list in
  the same words. Each block has a CRC word pair in the second half of the region.

  Memory is the map from the (4-byte aligned) physical address of a 32-bit word to its
  contents. Every function maps the pool with \<open>sev_hal_map_memory\<close>, which calls the boot
  loader and may fail: each such call is an argument of the model carrying the status the
  call returns (\<open>SEV_STATUS_SUCCESS\<close> or an error). Cache maintenance and the unmapping calls,
  whose result the code discards, do not change the modelled state.
\<close>

section \<open>State\<close>

type_synonym dram = "u64 \<Rightarrow> u32"

record pool_vcpu =
  start_crc_addr :: u64
  end_crc_addr :: u64
  start_pool_addr :: u64
  end_pool_addr :: u64
  nr_blocks :: u32
  free_head_idx :: u32
  free_tail_idx :: u32
  is_initialized :: bool

definition INVALID_BLOCK :: u32 where "INVALID_BLOCK = 0xFFFFFFFF"

definition CRC_BLOCK_SIZE :: u64 where "CRC_BLOCK_SIZE = 8"

definition INDEX_BLOCK_SIZE :: u64 where "INDEX_BLOCK_SIZE = 4"

section \<open>Addresses and indices\<close>

text \<open>The products \<open>idx*sizeof(...)\<close> are \<open>size_t\<close> products: they wrap at 32 bits.\<close>

definition idx_to_addr64 :: "pool_vcpu option \<Rightarrow> u32 \<Rightarrow> u64" where
  "idx_to_addr64 pool idx =
     (case pool of Some p \<Rightarrow> start_pool_addr p + ucast (idx * 4) | None \<Rightarrow> 0)"

definition idx_crc_block_to_addr64 :: "pool_vcpu option \<Rightarrow> u32 \<Rightarrow> u64" where
  "idx_crc_block_to_addr64 pool idx =
     (case pool of Some p \<Rightarrow> start_crc_addr p + ucast (idx * 8) | None \<Rightarrow> 0)"

definition addr64_to_idx :: "pool_vcpu option \<Rightarrow> u64 \<Rightarrow> u32" where
  "addr64_to_idx pool addr64 =
     (case pool of Some p \<Rightarrow> ucast ((addr64 - start_pool_addr p) div 4) | None \<Rightarrow> 0)"

text \<open>\<open>index\<close> is an out pointer: \<open>None\<close> is the null pointer, \<open>Some v\<close> its current contents.\<close>

definition addr64_crc_to_idx ::
  "pool_vcpu option \<Rightarrow> u64 \<Rightarrow> u32 option \<Rightarrow> sev_status \<times> u32 option" where
  "addr64_crc_to_idx pool addr64 index =
     (case pool of
        None \<Rightarrow> (ERR_INVALID_PARAMS, index)
      | Some p \<Rightarrow>
          if addr64 = 0 \<or> index = None then (ERR_INVALID_PARAMS, index)
          else if addr64 > end_crc_addr p \<or> addr64 < start_crc_addr p
          then (ERR_INVALID_PARAMS, index)
          else (SEV_STATUS_SUCCESS, Some (ucast ((addr64 - start_crc_addr p) div 8))))"

definition pool_is_empty :: "pool_vcpu option \<Rightarrow> bool" where
  "pool_is_empty pool =
     (case pool of Some p \<Rightarrow> free_head_idx p = free_tail_idx p | None \<Rightarrow> True)"

text \<open>\<open>blocks[idx]\<close> of the pool mapped at \<open>start_pool_addr\<close>.\<close>

abbreviation blk :: "pool_vcpu \<Rightarrow> u32 \<Rightarrow> u64" where
  "blk p idx \<equiv> idx_to_addr64 (Some p) idx"

section \<open>List primitives\<close>

text \<open>\<open>mp\<close> is the status of the call of \<open>sev_hal_map_memory\<close>; \<open>old\<close> the contents of the out
  parameter, which an early exit leaves alone.\<close>

definition list_get_next_index ::
  "sev_status \<Rightarrow> dram \<Rightarrow> pool_vcpu option \<Rightarrow> u32 \<Rightarrow> u32 \<Rightarrow> sev_status \<times> u32" where
  "list_get_next_index mp m pool idx old =
     (case pool of
        None \<Rightarrow> (ERR_INVALID_PARAMS, old)
      | Some p \<Rightarrow>
          if mp \<noteq> SEV_STATUS_SUCCESS then (mp, old)
          else (SEV_STATUS_SUCCESS, m (blk p idx)))"

definition list_set_next_index ::
  "sev_status \<Rightarrow> dram \<Rightarrow> pool_vcpu option \<Rightarrow> u32 \<Rightarrow> u32 \<Rightarrow> sev_status \<times> dram" where
  "list_set_next_index mp m pool idx next_index =
     (case pool of
        None \<Rightarrow> (ERR_INVALID_PARAMS, m)
      | Some p \<Rightarrow>
          if mp \<noteq> SEV_STATUS_SUCCESS then (mp, m)
          else (SEV_STATUS_SUCCESS, m(blk p idx := next_index)))"

text \<open>
  \<open>list_remove_head\<close> and \<open>list_add_tail\<close> return an \<open>int\<close>: the previous head (or 0), or the
  negated status on an error. The sum type keeps the two apart: \<open>Inl\<close> is the error code.
\<close>

definition list_remove_head ::
  "sev_status \<Rightarrow> dram \<Rightarrow> pool_vcpu option \<Rightarrow> (sev_status + u32) \<times> pool_vcpu option" where
  "list_remove_head mp m pool =
     (case pool of
        None \<Rightarrow> (Inl ERR_INVALID_PARAMS, pool)
      | Some p \<Rightarrow>
          (let prev_head = free_head_idx p;
               (status, nxt) = list_get_next_index mp m pool (free_head_idx p) (free_head_idx p);
               p' = p\<lparr>free_head_idx := nxt\<rparr>
           in if status \<noteq> SEV_STATUS_SUCCESS then (Inl status, Some p')
              else (Inr prev_head, Some p')))"

definition list_add_tail ::
  "sev_status \<Rightarrow> sev_status \<Rightarrow> dram \<Rightarrow> pool_vcpu option \<Rightarrow> u32 \<Rightarrow>
     (sev_status + u32) \<times> pool_vcpu option \<times> dram" where
  "list_add_tail mp1 mp2 m pool idx =
     (case pool of
        None \<Rightarrow> (Inl ERR_INVALID_PARAMS, pool, m)
      | Some p \<Rightarrow>
          (let (status, m1) = list_set_next_index mp1 m pool (free_tail_idx p) idx
           in if status \<noteq> SEV_STATUS_SUCCESS then (Inl status, pool, m1)
              else
                let p' = p\<lparr>free_tail_idx := idx\<rparr>;
                    (status, m2) =
                      list_set_next_index mp2 m1 (Some p') (free_tail_idx p') INVALID_BLOCK
                in if status \<noteq> SEV_STATUS_SUCCESS then (Inl status, Some p', m2)
                   else (Inr 0, Some p', m2)))"

section \<open>Pool operations\<close>

text \<open>The loop \<open>for (i = 0; i < nr_blocks; i++) blocks[i].next_index = i+1\<close>.\<close>

definition init_links :: "pool_vcpu \<Rightarrow> dram \<Rightarrow> dram" where
  "init_links p m =
     fold (\<lambda>i m. m(blk p (of_nat i) := of_nat (i + 1))) [0..<unat (nr_blocks p)] m"

text \<open>
  \<open>aligned a k\<close> is the macro \<open>IS_ALIGNED_BYTES\<close>, which a header outside the repository
  defines; the model takes it as an argument.
\<close>

definition pool_vcpu_init ::
  "(u64 \<Rightarrow> u64 \<Rightarrow> bool) \<Rightarrow> sev_status \<Rightarrow> dram \<Rightarrow> pool_vcpu option \<Rightarrow> u64 \<Rightarrow> u64 \<Rightarrow> u64 \<Rightarrow>
     sev_status \<times> pool_vcpu option \<times> dram" where
  "pool_vcpu_init aligned mp m pool start_addr_pool start_addr_crc sz =
     (case pool of
        None \<Rightarrow> (ERR_INVALID_PARAMS, pool, m)
      | Some p0 \<Rightarrow>
          if sz = 0 \<or> \<not> aligned start_addr_pool INDEX_BLOCK_SIZE \<or>
             \<not> aligned sz INDEX_BLOCK_SIZE
          then (ERR_INVALID_PARAMS, pool, m)
          else
            let p = p0\<lparr>nr_blocks := ucast (sz div CRC_BLOCK_SIZE),
                      start_pool_addr := start_addr_pool,
                      end_pool_addr := start_addr_pool + sz,
                      start_crc_addr := start_addr_crc,
                      end_crc_addr := start_addr_crc + sz,
                      free_head_idx := 0\<rparr>
            in if mp \<noteq> SEV_STATUS_SUCCESS then (mp, Some p, m)
               else
                 let m1 = init_links p m;
                     p1 = p\<lparr>free_tail_idx := nr_blocks p - 1\<rparr>;
                     m2 = m1(blk p1 (free_tail_idx p1) := INVALID_BLOCK);
                     p2 = p1\<lparr>is_initialized := True\<rparr>
                 in (SEV_STATUS_SUCCESS, Some p2, m2))"

text \<open>
  \<open>secure_memzero\<close> over \<open>bytes\<close> bytes of a mapped region that starts at \<open>base\<close>; the sizes
  are multiples of 4.
\<close>

definition zero_words :: "dram \<Rightarrow> u64 \<Rightarrow> nat \<Rightarrow> dram" where
  "zero_words m base bytes =
     fold (\<lambda>i m. m(base + of_nat (4 * i) := 0)) [0..<bytes div 4] m"

definition pool_zero :: pool_vcpu where
  "pool_zero = \<lparr>start_crc_addr = 0, end_crc_addr = 0, start_pool_addr = 0, end_pool_addr = 0,
     nr_blocks = 0, free_head_idx = 0, free_tail_idx = 0, is_initialized = False\<rparr>"

text \<open>\<open>mp_pool\<close>, \<open>mp_crc\<close> are the two mapping calls, \<open>fl\<close> the result of
  \<open>sev_hal_df_write_flush\<close>.\<close>

definition pool_vcpu_destroy ::
  "sev_status \<Rightarrow> sev_status \<Rightarrow> sev_status \<Rightarrow> dram \<Rightarrow> pool_vcpu option \<Rightarrow>
     sev_status \<times> pool_vcpu option \<times> dram" where
  "pool_vcpu_destroy mp_pool mp_crc fl m pool =
     (case pool of
        None \<Rightarrow> (ERR_INVALID_PARAMS, pool, m)
      | Some p \<Rightarrow>
          if is_initialized p then
            if mp_pool \<noteq> SEV_STATUS_SUCCESS then (mp_pool, pool, m)
            else if mp_crc \<noteq> SEV_STATUS_SUCCESS then (mp_crc, pool, m)
            else
              let pool_size = unat (nr_blocks p * 4);
                  crc_size = unat (nr_blocks p * 8);
                  m1 = zero_words m (start_pool_addr p) pool_size;
                  m2 = zero_words m1 (start_crc_addr p) crc_size
              in (fl, Some pool_zero, m2)
          else (SEV_STATUS_SUCCESS, Some pool_zero, m))"

text \<open>
  \<open>pool_vcpu_alloc\<close> returns the block's address (0 on an error) and writes the out
  parameters \<open>index\<close> and \<open>crc_block_paddr\<close>. \<open>block_idx\<close> is a signed \<open>int\<close>: an index whose
  top bit is set reads as negative and is treated as an error.
\<close>

definition pool_vcpu_alloc ::
  "sev_status \<Rightarrow> sev_status \<Rightarrow> dram \<Rightarrow> pool_vcpu option \<Rightarrow> u32 option \<Rightarrow> u64 option \<Rightarrow>
     u64 \<times> u32 option \<times> u64 option \<times> pool_vcpu option \<times> dram" where
  "pool_vcpu_alloc mp1 mp2 m pool index crc_block_paddr =
     (if index = None \<or> crc_block_paddr = None then (0, index, crc_block_paddr, pool, m)
      else case pool of
        None \<Rightarrow> (0, index, crc_block_paddr, pool, m)
      | Some p \<Rightarrow>
          if \<not> is_initialized p then (0, index, crc_block_paddr, pool, m)
          else if pool_is_empty pool then (0, index, crc_block_paddr, pool, m)
          else case list_remove_head mp1 m pool of
            (Inl e, pool1) \<Rightarrow> (0, index, crc_block_paddr, pool1, m)
          | (Inr block_idx, pool1) \<Rightarrow>
              if sint block_idx < 0 then (0, index, crc_block_paddr, pool1, m)
              else
                let (status, m1) = list_set_next_index mp2 m pool1 block_idx INVALID_BLOCK
                in if status \<noteq> SEV_STATUS_SUCCESS then (0, index, crc_block_paddr, pool1, m1)
                   else (idx_to_addr64 pool1 block_idx, Some block_idx,
                         Some (idx_crc_block_to_addr64 pool1 block_idx), pool1, m1))"

definition pool_vcpu_free ::
  "sev_status \<Rightarrow> sev_status \<Rightarrow> dram \<Rightarrow> pool_vcpu option \<Rightarrow> u64 \<Rightarrow> pool_vcpu option \<times> dram" where
  "pool_vcpu_free mp1 mp2 m pool block =
     (case pool of
        None \<Rightarrow> (pool, m)
      | Some p \<Rightarrow>
          if block \<ge> start_pool_addr p \<and> block < end_pool_addr p
          then snd (list_add_tail mp1 mp2 m pool (addr64_to_idx pool block))
          else (pool, m))"

definition pool_vcpu_index_to_addr64 :: "pool_vcpu option \<Rightarrow> u32 \<Rightarrow> u64" where
  "pool_vcpu_index_to_addr64 pool idx = idx_to_addr64 pool idx"

text \<open>
  The \<open>do ... while\<close> loop of \<open>pool_vcpu_free_list\<close>, on the state (pool, memory, index, count
  of freed entries). It stops at \<open>end_index\<close>, at \<open>INVALID_BLOCK\<close>, or when
  \<open>expected_entries\<close> blocks are freed and the list goes on, which is an error.
\<close>

function free_list_loop ::
  "u32 \<Rightarrow> u32 \<Rightarrow> pool_vcpu \<Rightarrow> dram \<Rightarrow> u32 \<Rightarrow> u32 \<Rightarrow> sev_status \<times> pool_vcpu \<times> dram" where
  "free_list_loop end_index expected p m index free_count =
     (let m1 = m(blk p (free_tail_idx p) := index);
          p1 = p\<lparr>free_tail_idx := index\<rparr>;
          free_count1 = free_count + 1
      in if index = end_index then (SEV_STATUS_SUCCESS, p1, m1)
         else if free_count1 \<ge> expected then (ERR_INVALID_PARAMS, p1, m1)
         else
           let index1 = m1 (blk p1 index)
           in if index1 \<noteq> INVALID_BLOCK
              then free_list_loop end_index expected p1 m1 index1 free_count1
              else (SEV_STATUS_SUCCESS, p1, m1))"
  by pat_completeness auto
termination
  by (relation "measure (\<lambda>(end_index, expected, p, m, index, free_count).
        unat expected - unat (free_count + 1))")
     (auto simp: not_le add.commute [of _ 1] dest: word_count_measure)


declare free_list_loop.simps [simp del]

definition pool_vcpu_free_list ::
  "sev_status \<Rightarrow> dram \<Rightarrow> pool_vcpu option \<Rightarrow> u32 \<Rightarrow> u32 \<Rightarrow> u32 \<Rightarrow>
     sev_status \<times> pool_vcpu option \<times> dram" where
  "pool_vcpu_free_list mp m pool start_index end_index expected_entries =
     (case pool of
        None \<Rightarrow> (ERR_INVALID_PARAMS, pool, m)
      | Some p \<Rightarrow>
          if start_index = INVALID_BLOCK \<or> end_index = INVALID_BLOCK
          then (ERR_INVALID_PARAMS, pool, m)
          else if mp \<noteq> SEV_STATUS_SUCCESS then (mp, pool, m)
          else
            let (status, p', m') = free_list_loop end_index expected_entries p m start_index 0
            in (status, Some p', m'))"

text \<open>The search loop of \<open>pool_vcpu_find_crc_in_list\<close>; \<open>found\<close> was set to false before it.\<close>

function find_crc_loop ::
  "u32 \<Rightarrow> u32 \<Rightarrow> u32 \<Rightarrow> pool_vcpu \<Rightarrow> dram \<Rightarrow> u32 \<Rightarrow> u32 \<Rightarrow> sev_status \<times> bool" where
  "find_crc_loop search_index end_index expected p m index search_count =
     (if index = search_index then (SEV_STATUS_SUCCESS, True)
      else
        let search_count1 = search_count + 1
        in if index = end_index then (SEV_STATUS_SUCCESS, False)
           else if search_count1 \<ge> expected then (ERR_INVALID_PARAMS, False)
           else
             let index1 = m (blk p index)
             in if index1 \<noteq> INVALID_BLOCK
                then find_crc_loop search_index end_index expected p m index1 search_count1
                else (SEV_STATUS_SUCCESS, False))"
  by pat_completeness auto
termination
  by (relation "measure (\<lambda>(search_index, end_index, expected, p, m, index, search_count).
        unat expected - unat (search_count + 1))")
     (auto simp: not_le add.commute [of _ 1] dest: word_count_measure)

declare find_crc_loop.simps [simp del]

text \<open>\<open>found\<close> is the out parameter's contents on entry; early exits leave it alone.\<close>

definition pool_vcpu_find_crc_in_list ::
  "sev_status \<Rightarrow> dram \<Rightarrow> pool_vcpu option \<Rightarrow> u32 \<Rightarrow> u32 \<Rightarrow> u64 \<Rightarrow> u32 \<Rightarrow> bool \<Rightarrow>
     sev_status \<times> bool" where
  "pool_vcpu_find_crc_in_list mp m pool start_index end_index crc expected_entries found =
     (case pool of
        None \<Rightarrow> (ERR_INVALID_PARAMS, found)
      | Some p \<Rightarrow>
          if start_index = INVALID_BLOCK \<or> end_index = INVALID_BLOCK
          then (ERR_INVALID_PARAMS, found)
          else case addr64_crc_to_idx pool crc (Some 0) of
            (status, None) \<Rightarrow> (SEV_STATUS_INVALID_ADDRESS, found)
          | (status, Some search_index) \<Rightarrow>
              if status \<noteq> SEV_STATUS_SUCCESS then (SEV_STATUS_INVALID_ADDRESS, found)
              else if mp \<noteq> SEV_STATUS_SUCCESS then (mp, False)
              else find_crc_loop search_index end_index expected_entries p m start_index 0)"

section \<open>Lists in the pool's memory\<close>

text \<open>
  \<open>seg m p xs e\<close>: the blocks \<open>xs\<close> are linked in this order, and the last one links to \<open>e\<close>.
\<close>

fun seg :: "dram \<Rightarrow> pool_vcpu \<Rightarrow> u32 list \<Rightarrow> u32 \<Rightarrow> bool" where
  "seg m p [] e \<longleftrightarrow> True"
| "seg m p (x # xs) e \<longleftrightarrow> m (blk p x) = (case xs of [] \<Rightarrow> e | y # _ \<Rightarrow> y) \<and> seg m p xs e"

text \<open>
  The geometry of an initialised pool: the block indices fit in 29 bits, so that no product
  with a block size wraps and no index reads as a negative \<open>int\<close>.
\<close>

definition pool_geom :: "pool_vcpu \<Rightarrow> bool" where
  "pool_geom p \<longleftrightarrow> is_initialized p \<and> 0 < nr_blocks p \<and> unat (nr_blocks p) \<le> 2 ^ 29 \<and>
     end_pool_addr p = start_pool_addr p + ucast (nr_blocks p) * 8 \<and>
     end_crc_addr p = start_crc_addr p + ucast (nr_blocks p) * 8 \<and>
     unat (start_pool_addr p) + unat (nr_blocks p) * 8 < 2 ^ 64 \<and>
     unat (start_crc_addr p) + unat (nr_blocks p) * 8 < 2 ^ 64 \<and>
     0 < start_pool_addr p \<and> 0 < start_crc_addr p"

text \<open>
  \<open>pool_repr m p fl\<close>: the free list is exactly \<open>fl\<close>. It is never empty (the tail block is
  never handed out).
\<close>

definition pool_repr :: "dram \<Rightarrow> pool_vcpu \<Rightarrow> u32 list \<Rightarrow> bool" where
  "pool_repr m p fl \<longleftrightarrow> pool_geom p \<and> fl \<noteq> [] \<and> distinct fl \<and> (\<forall>x \<in> set fl. x < nr_blocks p) \<and>
     free_head_idx p = hd fl \<and> free_tail_idx p = last fl \<and> seg m p fl INVALID_BLOCK"

lemma blk_cong:
  "start_pool_addr p = start_pool_addr q \<Longrightarrow> blk p x = blk q x"
  by (simp add: idx_to_addr64_def)

lemma blk_upd [simp]:
  "blk (p\<lparr>free_head_idx := i\<rparr>) x = blk p x" "blk (p\<lparr>free_tail_idx := i\<rparr>) x = blk p x"
  "blk (p\<lparr>is_initialized := b\<rparr>) x = blk p x"
  by (simp_all add: idx_to_addr64_def)

lemma unat_times_small:
  fixes x :: u32
  assumes "unat x < 2 ^ 29" and "k \<le> 8"
  shows "unat (x * of_nat k) = unat x * k"
proof -
  have "unat x * k \<le> unat x * 8" using assms(2) by simp
  also have "\<dots> < 2 ^ 32" using assms(1) by simp
  finally have lt: "unat x * k < 2 ^ 32" .
  have "unat (of_nat k :: u32) = k" using assms(2) by (simp add: unat_of_nat)
  with lt show ?thesis by (simp add: unat_mult_no_wrap)
qed

lemma unat_times_4: "unat (x :: u32) < 2 ^ 29 \<Longrightarrow> unat (x * 4) = unat x * 4"
  using unat_times_small [of x 4] by simp

lemma unat_times_8: "unat (x :: u32) < 2 ^ 29 \<Longrightarrow> unat (x * 8) = unat x * 8"
  using unat_times_small [of x 8] by simp

lemma geom_index:
  assumes "pool_geom p" and "x < nr_blocks p"
  shows "unat x < 2 ^ 29" and "unat x * 8 < unat (nr_blocks p) * 8"
proof -
  from assms(2) have "unat x < unat (nr_blocks p)" by (simp add: word_less_nat_alt)
  with assms(1) show "unat x < 2 ^ 29" and "unat x * 8 < unat (nr_blocks p) * 8"
    by (auto simp: pool_geom_def)
qed

lemma unat_blk:
  assumes "pool_geom p" and "x < nr_blocks p"
  shows "unat (blk p x) = unat (start_pool_addr p) + 4 * unat x"
proof -
  note gi = geom_index [OF assms]
  have x4: "unat (ucast (x * 4) :: u64) = 4 * unat x"
    by (simp add: unat_times_4 [OF gi(1)])
  have "unat (start_pool_addr p) + 4 * unat x < 2 ^ 64"
    using assms(1) gi by (simp add: pool_geom_def)
  with x4 show ?thesis
    by (simp add: idx_to_addr64_def unat_add_no_wrap)
qed

lemma blk_inj:
  assumes "pool_geom p" and "x < nr_blocks p" and "y < nr_blocks p"
  shows "blk p x = blk p y \<longleftrightarrow> x = y"
  using unat_blk [OF assms(1,2)] unat_blk [OF assms(1,3)]
  by (metis add_left_cancel mult_left_cancel word_unat_eq_iff zero_neq_numeral)

lemma unat_crc_blk:
  assumes "pool_geom p" and "x < nr_blocks p"
  shows "unat (idx_crc_block_to_addr64 (Some p) x) = unat (start_crc_addr p) + 8 * unat x"
proof -
  note gi = geom_index [OF assms]
  have x8: "unat (ucast (x * 8) :: u64) = 8 * unat x"
    by (simp add: unat_times_8 [OF gi(1)])
  have "unat (start_crc_addr p) + 8 * unat x < 2 ^ 64"
    using assms(1) gi by (simp add: pool_geom_def)
  with x8 show ?thesis
    by (simp add: idx_crc_block_to_addr64_def unat_add_no_wrap)
qed

lemma unat_end_addrs:
  assumes "pool_geom p"
  shows "unat (end_pool_addr p) = unat (start_pool_addr p) + 8 * unat (nr_blocks p)"
    and "unat (end_crc_addr p) = unat (start_crc_addr p) + 8 * unat (nr_blocks p)"
proof -
  from assms have n: "unat (nr_blocks p) \<le> 2 ^ 29" by (simp add: pool_geom_def)
  have n8: "unat (ucast (nr_blocks p) * 8 :: u64) = 8 * unat (nr_blocks p)"
    using n by (simp add: unat_mult_no_wrap)
  from assms n8 show "unat (end_pool_addr p) = unat (start_pool_addr p) + 8 * unat (nr_blocks p)"
    by (simp add: pool_geom_def unat_add_no_wrap)
  from assms n8 show "unat (end_crc_addr p) = unat (start_crc_addr p) + 8 * unat (nr_blocks p)"
    by (simp add: pool_geom_def unat_add_no_wrap)
qed

lemma blk_in_pool:
  assumes "pool_geom p" and "x < nr_blocks p"
  shows "start_pool_addr p \<le> blk p x" and "blk p x < end_pool_addr p" and "0 < blk p x"
  using unat_blk [OF assms] unat_end_addrs [OF assms(1)] geom_index [OF assms] assms(1)
  by (auto simp: word_le_nat_alt word_less_nat_alt pool_geom_def)

text \<open>The address of a block and its index are inverse to each other.\<close>

lemma addr64_to_idx_blk:
  assumes "pool_geom p" and "x < nr_blocks p"
  shows "addr64_to_idx (Some p) (blk p x) = x"
proof -
  note ub = unat_blk [OF assms] and le = blk_in_pool(1) [OF assms]
  have "unat ((blk p x - start_pool_addr p) div 4) = unat x"
    using ub unat_sub_no_wrap [OF le] by (simp add: unat_div)
  then show ?thesis by (simp add: addr64_to_idx_def ucast_eq_of_unat)
qed

lemma addr64_crc_to_idx_blk:
  assumes "pool_geom p" and "x < nr_blocks p"
  shows "addr64_crc_to_idx (Some p) (idx_crc_block_to_addr64 (Some p) x) (Some i) =
    (SEV_STATUS_SUCCESS, Some x)"
proof -
  let ?a = "idx_crc_block_to_addr64 (Some p) x"
  note ua = unat_crc_blk [OF assms]
  have le: "start_crc_addr p \<le> ?a" using ua by (simp add: word_le_nat_alt)
  moreover have "?a \<le> end_crc_addr p"
    using ua unat_end_addrs(2) [OF assms(1)] geom_index [OF assms] by (simp add: word_le_nat_alt)
  moreover have "?a \<noteq> 0"
    using ua assms(1) by (auto simp: pool_geom_def word_less_nat_alt)
  moreover have "ucast ((?a - start_crc_addr p) div 8) = x"
  proof -
    have "unat ((?a - start_crc_addr p) div 8) = unat x"
      using ua unat_sub_no_wrap [OF le] by (simp add: unat_div)
    then show ?thesis by (rule ucast_eq_of_unat)
  qed
  ultimately show ?thesis by (simp add: addr64_crc_to_idx_def not_less)
qed

subsection \<open>Segments\<close>

lemma seg_append:
  "seg m p (xs @ y # ys) e \<longleftrightarrow> seg m p xs y \<and> seg m p (y # ys) e"
  by (induction xs) (auto split: list.splits)

lemma seg_last: "xs \<noteq> [] \<Longrightarrow> seg m p xs e \<Longrightarrow> m (blk p (last xs)) = e"
  by (induction xs) (auto split: list.splits)

lemma seg_cong_pool: "start_pool_addr p = start_pool_addr q \<Longrightarrow> seg m p xs e = seg m q xs e"
  by (induction xs) (simp_all add: blk_cong [of p q])

lemma seg_upd [simp]:
  "seg m (p\<lparr>free_head_idx := i\<rparr>) xs e = seg m p xs e"
  "seg m (p\<lparr>free_tail_idx := i\<rparr>) xs e = seg m p xs e"
  by (rule seg_cong_pool, simp)+

text \<open>Writing a block outside a segment does not change it; writing its last block
  redirects it.\<close>

lemma seg_frame:
  assumes "pool_geom p" and "y < nr_blocks p" and "\<forall>x \<in> set xs. x < nr_blocks p"
    and "y \<notin> set xs"
  shows "seg (m(blk p y := v)) p xs e = seg m p xs e"
  using assms(3,4) by (induction xs) (auto simp: blk_inj [OF assms(1) _ assms(2)])

lemma seg_redirect:
  assumes "pool_geom p" and "\<forall>x \<in> set xs. x < nr_blocks p" and "distinct xs" and "xs \<noteq> []"
    and "seg m p xs e"
  shows "seg (m(blk p (last xs) := v)) p xs v"
proof -
  obtain ys y where xs: "xs = ys @ [y]"
    using assms(4) by (cases xs rule: rev_cases) auto
  with assms(5) have "seg m p ys y" by (simp add: seg_append)
  with assms(1-3) xs have "seg (m(blk p y := v)) p ys y"
    by (subst seg_frame) auto
  with xs show ?thesis by (simp add: seg_append)
qed

section \<open>The operations on the free list\<close>

text \<open>
  \<open>pool_at m p fl e\<close> is \<open>pool_repr\<close> with the tail linking to \<open>e\<close>, the shape the pool has in
  the middle of \<open>pool_vcpu_free_list\<close>.
\<close>

definition pool_at :: "dram \<Rightarrow> pool_vcpu \<Rightarrow> u32 list \<Rightarrow> u32 \<Rightarrow> bool" where
  "pool_at m p fl e \<longleftrightarrow> pool_geom p \<and> fl \<noteq> [] \<and> distinct fl \<and> (\<forall>x \<in> set fl. x < nr_blocks p) \<and>
     free_head_idx p = hd fl \<and> free_tail_idx p = last fl \<and> seg m p fl e"

lemma pool_repr_at: "pool_repr m p fl = pool_at m p fl INVALID_BLOCK"
  by (simp add: pool_repr_def pool_at_def)

lemma pool_geom_upd [simp]:
  "pool_geom (p\<lparr>free_head_idx := i\<rparr>) = pool_geom p"
  "pool_geom (p\<lparr>free_tail_idx := i\<rparr>) = pool_geom p"
  by (simp_all add: pool_geom_def)

lemma geom_sint:
  assumes "pool_geom p" and "x < nr_blocks p"
  shows "\<not> sint x < 0"
proof -
  have "unat x < 2 ^ 29" by (rule geom_index [OF assms])
  then have "int (unat x) < int (2 ^ 29)" by (rule iffD2 [OF of_nat_less_iff])
  then have u: "uint x < 2 ^ 29" by (simp only: uint_nat of_nat_power of_nat_numeral)
  have "- (2 ^ 31) \<le> uint x" by (rule order_trans [OF _ uint_ge_0]) simp
  moreover have "uint x < 2 ^ 31" using u by (rule less_trans) simp
  ultimately have "sint x = uint x"
    by (simp only: sint_uint) (simp add: signed_take_bit_int_eq_self)
  then show ?thesis by (simp only: not_less uint_ge_0)
qed

lemma pool_append:
  assumes "pool_at m p fl e" and "x < nr_blocks p" and "x \<notin> set fl"
  shows "pool_at (m(blk p (free_tail_idx p) := x)) (p\<lparr>free_tail_idx := x\<rparr>) (fl @ [x]) (m (blk p x))"
proof -
  from assms(1) have g: "pool_geom p" and fl: "\<forall>y \<in> set fl. y < nr_blocks p" "distinct fl"
      "fl \<noteq> []" "seg m p fl e" and t: "free_tail_idx p = last fl"
    by (simp_all add: pool_at_def)
  from fl have "last fl < nr_blocks p" "last fl \<noteq> x" using assms(3) by auto
  with blk_inj [OF g] assms(2) have "blk p x \<noteq> blk p (last fl)" by simp
  with seg_redirect [OF g fl(1-4)] t
  have "seg (m(blk p (free_tail_idx p) := x)) p (fl @ [x]) (m (blk p x))"
    by (simp add: seg_append)
  with assms g t show ?thesis by (auto simp: pool_at_def)
qed

lemma pool_alloc_correct:
  assumes "pool_repr m p (x # y # ys)"
  shows "pool_vcpu_alloc SEV_STATUS_SUCCESS SEV_STATUS_SUCCESS m (Some p) (Some i) (Some c) =
      (blk p x, Some x, Some (idx_crc_block_to_addr64 (Some p) x),
       Some (p\<lparr>free_head_idx := y\<rparr>), m(blk p x := INVALID_BLOCK))"
    and "pool_repr (m(blk p x := INVALID_BLOCK)) (p\<lparr>free_head_idx := y\<rparr>) (y # ys)"
proof -
  from assms have g: "pool_geom p" and all: "\<forall>z \<in> set (x # y # ys). z < nr_blocks p"
    and d: "distinct (x # y # ys)" and h: "free_head_idx p = x"
    and t: "free_tail_idx p = last (y # ys)" and s: "seg m p (x # y # ys) INVALID_BLOCK"
    by (simp_all add: pool_repr_def)
  have "last (y # ys) \<in> set (y # ys)" by (rule last_in_set) simp
  with d have ne: "x \<noteq> last (y # ys)" by auto
  have "m (blk p x) = y" using s by simp
  with g h t ne geom_sint [OF g, of x] all
  show "pool_vcpu_alloc SEV_STATUS_SUCCESS SEV_STATUS_SUCCESS m (Some p) (Some i) (Some c) =
      (blk p x, Some x, Some (idx_crc_block_to_addr64 (Some p) x),
       Some (p\<lparr>free_head_idx := y\<rparr>), m(blk p x := INVALID_BLOCK))"
    by (simp add: pool_vcpu_alloc_def pool_is_empty_def list_remove_head_def
        list_get_next_index_def list_set_next_index_def pool_geom_def
        idx_crc_block_to_addr64_def)
  have "seg (m(blk p x := INVALID_BLOCK)) p (y # ys) INVALID_BLOCK"
    using s d all by (subst seg_frame [OF g]) auto
  with g all d t show "pool_repr (m(blk p x := INVALID_BLOCK)) (p\<lparr>free_head_idx := y\<rparr>) (y # ys)"
    by (simp add: pool_repr_def)
qed

lemma pool_alloc_empty:
  assumes "pool_repr m p [x]"
  shows "pool_vcpu_alloc mp1 mp2 m (Some p) (Some i) (Some c) = (0, Some i, Some c, Some p, m)"
  using assms
  by (simp add: pool_vcpu_alloc_def pool_is_empty_def pool_repr_def pool_geom_def)

lemma pool_free_correct:
  assumes "pool_repr m p fl" and "x < nr_blocks p" and "x \<notin> set fl"
  obtains p' m' where
    "pool_vcpu_free SEV_STATUS_SUCCESS SEV_STATUS_SUCCESS m (Some p) (blk p x) = (Some p', m')"
    and "pool_repr m' p' (fl @ [x])" and "nr_blocks p' = nr_blocks p"
    and "start_pool_addr p' = start_pool_addr p"
    and "\<And>z. z < nr_blocks p \<Longrightarrow> z \<noteq> x \<Longrightarrow> z \<noteq> free_tail_idx p \<Longrightarrow> m' (blk p z) = m (blk p z)"
proof -
  let ?p' = "p\<lparr>free_tail_idx := x\<rparr>"
  let ?m1 = "m(blk p (free_tail_idx p) := x)"
  let ?m' = "?m1(blk p x := INVALID_BLOCK)"
  from assms(1) have g: "pool_geom p" and tl: "free_tail_idx p < nr_blocks p"
    by (auto simp: pool_repr_def)
  note bp = blk_in_pool [OF g assms(2)]
  have r1: "pool_vcpu_free SEV_STATUS_SUCCESS SEV_STATUS_SUCCESS m (Some p) (blk p x) = (Some ?p', ?m')"
    using bp by (simp add: pool_vcpu_free_def list_add_tail_def list_set_next_index_def
        addr64_to_idx_blk [OF g assms(2)])
  have r2: "pool_repr ?m' ?p' (fl @ [x])"
  proof -
    from pool_append [OF assms(1) [unfolded pool_repr_at] assms(2,3)]
    have at: "pool_at ?m1 ?p' (fl @ [x]) (m (blk p x))" .
    then have "seg ?m1 p (fl @ [x]) (m (blk p x))" by (simp add: pool_at_def)
    then have "seg (?m1(blk p (last (fl @ [x])) := INVALID_BLOCK)) p (fl @ [x]) INVALID_BLOCK"
      using at by (intro seg_redirect [OF g]) (simp_all add: pool_at_def)
    with at show ?thesis by (simp add: pool_repr_at pool_at_def)
  qed
  have r3: "?m' (blk p z) = m (blk p z)"
    if "z < nr_blocks p" "z \<noteq> x" "z \<noteq> free_tail_idx p" for z
    using that blk_inj [OF g] assms(2) tl by simp
  show ?thesis by (rule that [OF r1 r2 _ _ r3]) simp_all
qed

section \<open>Initialisation\<close>

lemma init_links_at:
  assumes "pool_geom p" and "k \<le> unat (nr_blocks p)" and "i < unat (nr_blocks p)"
  shows "fold (\<lambda>i m. m(blk p (of_nat i) := of_nat (i + 1))) [0..<k] m (blk p (of_nat i)) =
    (if i < k then of_nat (i + 1) else m (blk p (of_nat i)))"
  using assms(2)
proof (induction k)
  case 0
  then show ?case by simp
next
  case (Suc k)
  note idx = unat_of_nat_below [of _ "nr_blocks p"]
  have bi: "blk p (of_nat i) = blk p (of_nat k) \<longleftrightarrow> i = k"
    using blk_inj [OF assms(1), of "of_nat i" "of_nat k"] Suc.prems assms(3) idx [of i] idx [of k]
    by (metis Suc_le_eq word_less_nat_alt)
  show ?case
    using Suc bi by (auto simp: less_Suc_eq)
qed

definition init_list :: "pool_vcpu \<Rightarrow> u32 list" where
  "init_list p = map of_nat [0..<unat (nr_blocks p)]"

lemma seg_iota:
  assumes "\<And>i. i < n \<Longrightarrow> m (blk p (of_nat i)) = (if i = n - 1 then e else of_nat (i + 1))"
  shows "a \<le> n \<Longrightarrow> seg m p (map of_nat [a..<n]) e"
proof (induction "n - a" arbitrary: a)
  case 0
  then show ?case by simp
next
  case (Suc k)
  then have lt: "a < n" by simp
  then have "seg m p (map of_nat [Suc a..<n]) e" using Suc by simp
  moreover have "m (blk p (of_nat a)) =
      (case map of_nat [Suc a..<n] of [] \<Rightarrow> e | y # _ \<Rightarrow> y)"
  proof (cases "Suc a < n")
    case True
    then have "[Suc a..<n] = Suc a # [Suc (Suc a)..<n]" by (rule upt_conv_Cons)
    moreover have "a \<noteq> n - 1" using True by simp
    ultimately show ?thesis using assms [OF lt] by simp
  next
    case False
    with lt have "a = n - 1" by simp
    with False assms [OF lt] show ?thesis by simp
  qed
  ultimately show ?case using upt_conv_Cons [OF lt] by simp
qed

lemma init_list_facts:
  assumes "0 < nr_blocks p"
  shows "init_list p \<noteq> []" and "distinct (init_list p)" and "\<forall>x \<in> set (init_list p). x < nr_blocks p"
    and "hd (init_list p) = 0" and "last (init_list p) = nr_blocks p - 1"
    and "set (init_list p) = {x. x < nr_blocks p}"
proof -
  let ?n = "unat (nr_blocks p)"
  have n: "0 < ?n" using assms by (simp add: word_less_nat_alt)
  then show "init_list p \<noteq> []" and "hd (init_list p) = 0"
    by (simp_all add: init_list_def hd_map)
  note idx = unat_of_nat_below [of _ "nr_blocks p"]
  show "distinct (init_list p)"
    unfolding init_list_def distinct_map inj_on_def
    by (metis atLeastLessThan_iff distinct_upt idx set_upt)
  show all: "\<forall>x \<in> set (init_list p). x < nr_blocks p"
    using idx by (auto simp: init_list_def word_less_nat_alt)
  show "last (init_list p) = nr_blocks p - 1"
    using n by (simp add: init_list_def last_map of_nat_diff)
  have "x \<in> set (init_list p)" if "x < nr_blocks p" for x
  proof -
    from that have "unat x \<in> {0..<?n}" by (simp add: word_less_nat_alt)
    then have "of_nat (unat x) \<in> (of_nat ` {0..<?n} :: u32 set)" by (rule imageI)
    then show ?thesis by (simp add: init_list_def)
  qed
  with all show "set (init_list p) = {x. x < nr_blocks p}" by auto
qed

lemma pool_init_repr:
  assumes "aligned a INDEX_BLOCK_SIZE" and "aligned sz INDEX_BLOCK_SIZE"
    and sz: "8 \<le> unat sz" "8 dvd unat sz" "unat sz \<le> 2 ^ 32"
    and a: "0 < a" "unat a + unat sz < 2 ^ 64" and c: "0 < c" "unat c + unat sz < 2 ^ 64"
  obtains p m' where
    "pool_vcpu_init aligned SEV_STATUS_SUCCESS m (Some p0) a c sz = (SEV_STATUS_SUCCESS, Some p, m')"
    and "pool_repr m' p (init_list p)" and "unat (nr_blocks p) = unat sz div 8"
    and "start_pool_addr p = a" and "start_crc_addr p = c"
proof -
  define n :: u32 where "n = ucast (sz div 8)"
  have un: "unat n = unat sz div 8"
    using sz(3) by (simp add: n_def unat_ucast_down unat_div)
  have n8: "ucast n * 8 = sz"
    using sz un by (simp add: word_unat_eq_iff unat_mult_no_wrap dvd_div_mult_self)
  define p where "p = p0\<lparr>nr_blocks := n, start_pool_addr := a, end_pool_addr := a + sz,
    start_crc_addr := c, end_crc_addr := c + sz, free_head_idx := 0\<rparr>"
  define p2 where "p2 = p\<lparr>free_tail_idx := n - 1, is_initialized := True\<rparr>"
  define m' where "m' = (init_links p m)(blk p (n - 1) := INVALID_BLOCK)"
  have sz8: "8 * (unat sz div 8) = unat sz" using sz(2) by simp
  have n0: "0 < n" using un sz(1) by (simp add: word_less_nat_alt)
  have g: "pool_geom p2"
    using a c sz un n0 n8 sz8
    by (simp add: pool_geom_def p2_def p_def mult.commute)
  have b: "blk p x = blk p2 x" for x by (simp add: p2_def idx_to_addr64_def)
  note il = init_list_facts [of p2]
  have n1: "n - 1 < n" using n0 by (simp add: word_less_nat_alt unat_sub_no_wrap un word_le_nat_alt)
  have un1: "unat (n - 1) = unat n - 1"
    using n0 by (simp add: unat_sub_no_wrap word_le_nat_alt word_less_nat_alt)
  have links: "m' (blk p2 (of_nat i)) = (if i = unat n - 1 then INVALID_BLOCK else of_nat (i + 1))"
    if "i < unat n" for i
  proof -
    have "unat (of_nat i :: u32) = i"
      using that by (rule unat_of_nat_below)
    then have "blk p2 (of_nat i) = blk p2 (n - 1) \<longleftrightarrow> i = unat n - 1"
      using blk_inj [OF g, of "of_nat i" "n - 1"] that n1 un1
      by (auto simp: p2_def p_def word_less_nat_alt word_unat_eq_iff)
    with init_links_at [OF g, of "unat n" i m] that show ?thesis
      by (simp add: m'_def init_links_def b p2_def p_def)
  qed
  have "pool_repr m' p2 (init_list p2)"
    using g il seg_iota [OF links, of 0] n0
    by (simp add: pool_repr_def p2_def p_def init_list_def)
  moreover have "pool_vcpu_init aligned SEV_STATUS_SUCCESS m (Some p0) a c sz =
      (SEV_STATUS_SUCCESS, Some p2, m')"
    using assms(1,2) sz(1)
    by (auto simp: pool_vcpu_init_def Let_def CRC_BLOCK_SIZE_def n_def [symmetric] p2_def m'_def
        init_links_def p_def idx_to_addr64_def)
  ultimately show ?thesis using un by (intro that [of p2 m']) (simp_all add: p2_def p_def)
qed

section \<open>Returning and searching a guest's list\<close>

lemma geom_index_valid: "pool_geom p \<Longrightarrow> x < nr_blocks p \<Longrightarrow> x \<noteq> INVALID_BLOCK"
  using geom_index [of p x] by (auto simp: INVALID_BLOCK_def)

text \<open>One turn of the loop, with the count not wrapping.\<close>

lemma count_step:
  fixes cnt ex :: u32
  assumes "unat cnt + k \<le> unat ex" and "2 \<le> k"
  shows "unat (cnt + 1) = unat cnt + 1" and "\<not> ex \<le> cnt + 1"
proof -
  from assms have "cnt < ex" by (simp add: word_less_nat_alt)
  then show s: "unat (cnt + 1) = unat cnt + 1" by (rule word_succ_lt)
  with assms show "\<not> ex \<le> cnt + 1" by (simp add: word_le_nat_alt)
qed

lemma pool_at_tail:
  assumes "pool_at m p fl e"
  shows "pool_geom p" "free_tail_idx p \<in> set fl" "free_tail_idx p < nr_blocks p"
  using assms by (auto simp: pool_at_def)

lemma free_list_loop_correct:
  assumes "pool_at m p fl e" and "us \<noteq> []" and "distinct (fl @ us)"
    and "\<forall>x \<in> set us. x < nr_blocks p" and "seg m p us INVALID_BLOCK"
    and "unat cnt + length us \<le> unat ex"
  shows "\<exists>p' m'. free_list_loop (last us) ex p m (hd us) cnt = (SEV_STATUS_SUCCESS, p', m') \<and>
    pool_repr m' p' (fl @ us) \<and> nr_blocks p' = nr_blocks p \<and>
    start_pool_addr p' = start_pool_addr p"
  using assms
proof (induction us arbitrary: m p fl e cnt)
  case Nil
  then show ?case by simp
next
  case (Cons x us)
  let ?m1 = "m(blk p (free_tail_idx p) := x)"
  let ?p1 = "p\<lparr>free_tail_idx := x\<rparr>"
  note g = pool_at_tail [OF Cons.prems(1)]
  from Cons.prems have x: "x < nr_blocks p" "x \<notin> set fl" by auto
  have step: "pool_at ?m1 ?p1 (fl @ [x]) (m (blk p x))"
    by (rule pool_append [OF Cons.prems(1) x])
  show ?case
  proof (cases us)
    case Nil
    with Cons.prems step show ?thesis
      by (auto simp: free_list_loop.simps Let_def pool_repr_at)
  next
    case (Cons y ys)
    from Cons Cons.prems have y: "m (blk p x) = y" "x \<noteq> last us" "y < nr_blocks p" by auto
    have ne: "blk p x \<noteq> blk p (free_tail_idx p)"
      using x g blk_inj [OF g(1)] by auto
    have seg: "seg ?m1 ?p1 us INVALID_BLOCK"
      using Cons.prems g by (simp, subst seg_frame) auto
    note ct = count_step [of cnt "length (x # us)" ex]
    have "\<exists>p' m'. free_list_loop (last us) ex ?p1 ?m1 (hd us) (cnt + 1) =
        (SEV_STATUS_SUCCESS, p', m') \<and> pool_repr m' p' ((fl @ [x]) @ us) \<and>
        nr_blocks p' = nr_blocks ?p1 \<and> start_pool_addr p' = start_pool_addr ?p1"
      using Cons.prems Cons ct by (intro Cons.IH [OF step _ _ _ seg]) auto
    moreover have "free_list_loop (last us) ex p m x cnt =
        free_list_loop (last us) ex ?p1 ?m1 (hd us) (cnt + 1)"
      using y ne ct Cons Cons.prems(6) geom_index_valid [OF g(1) y(3)]
      by (subst free_list_loop.simps) (simp add: Let_def)
    ultimately show ?thesis using Cons by simp
  qed
qed

lemma pool_free_list_correct:
  assumes "pool_repr m p fl" and "us \<noteq> []" and "distinct (fl @ us)"
    and "\<forall>x \<in> set us. x < nr_blocks p" and "seg m p us INVALID_BLOCK"
    and "length us \<le> unat ex"
  obtains p' m' where
    "pool_vcpu_free_list SEV_STATUS_SUCCESS m (Some p) (hd us) (last us) ex =
       (SEV_STATUS_SUCCESS, Some p', m')"
    and "pool_repr m' p' (fl @ us)" and "nr_blocks p' = nr_blocks p"
    and "start_pool_addr p' = start_pool_addr p"
proof -
  from assms(1) have g: "pool_geom p" by (simp add: pool_repr_def)
  from assms(2,4) have "hd us \<noteq> INVALID_BLOCK" "last us \<noteq> INVALID_BLOCK"
    using geom_index_valid [OF g] by auto
  with free_list_loop_correct [OF assms(1) [unfolded pool_repr_at] assms(2-5), of 0 ex] assms(6) that
  show ?thesis by (auto simp: pool_vcpu_free_list_def)
qed

lemma find_crc_loop_correct:
  assumes "pool_geom p" and "us \<noteq> []" and "distinct us" and "\<forall>x \<in> set us. x < nr_blocks p"
    and "seg m p us INVALID_BLOCK" and "unat cnt + length us \<le> unat ex"
  shows "find_crc_loop i (last us) ex p m (hd us) cnt = (SEV_STATUS_SUCCESS, i \<in> set us)"
  using assms
proof (induction us arbitrary: cnt)
  case Nil
  then show ?case by simp
next
  case (Cons x us)
  show ?case
  proof (cases us)
    case Nil
    with Cons.prems show ?thesis by (auto simp: find_crc_loop.simps Let_def)
  next
    case (Cons y ys)
    from Cons Cons.prems have y: "m (blk p x) = y" "x \<noteq> last us" "y < nr_blocks p" by auto
    note ct = count_step [of cnt "length (x # us)" ex]
    have IH: "find_crc_loop i (last us) ex p m (hd us) (cnt + 1) = (SEV_STATUS_SUCCESS, i \<in> set us)"
      using Cons.prems Cons ct by (intro Cons.IH) auto
    moreover have "find_crc_loop i (last us) ex p m x cnt =
        (if x = i then (SEV_STATUS_SUCCESS, True)
         else find_crc_loop i (last us) ex p m (hd us) (cnt + 1))"
      using y ct Cons Cons.prems(6) geom_index_valid [OF Cons.prems(1) y(3)]
      by (subst find_crc_loop.simps) (simp add: Let_def)
    ultimately show ?thesis using Cons by auto
  qed
qed

section \<open>The pool as a provider of blocks\<close>

text \<open>
  The state a client of the pool sees: the pool structure and the memory. Mapping calls succeed
  here; \<open>alloc_mapping_fails\<close> and the like below say what a failing one does.
\<close>

type_synonym pool_state = "pool_vcpu option \<times> dram"

definition pool_state_repr :: "pool_state \<Rightarrow> u32 list \<Rightarrow> bool" where
  "pool_state_repr s fl = (case fst s of Some p \<Rightarrow> pool_repr (snd s) p fl | None \<Rightarrow> False)"

definition pool_take :: "pool_state \<Rightarrow> u32 option \<times> pool_state" where
  "pool_take s =
     (case pool_vcpu_alloc SEV_STATUS_SUCCESS SEV_STATUS_SUCCESS (snd s) (fst s) (Some 0) (Some 0) of
        (block, index, crc, pool, m) \<Rightarrow> (if block = 0 then None else index, (pool, m)))"

definition pool_give :: "u32 \<Rightarrow> pool_state \<Rightarrow> pool_state" where
  "pool_give x s =
     pool_vcpu_free SEV_STATUS_SUCCESS SEV_STATUS_SUCCESS (snd s) (fst s)
       (pool_vcpu_index_to_addr64 (fst s) x)"

definition pool_block :: "pool_state \<Rightarrow> u32 \<Rightarrow> bool" where
  "pool_block s x = (case fst s of Some p \<Rightarrow> x < nr_blocks p | None \<Rightarrow> False)"

lemma pool_state_reprE:
  assumes "pool_state_repr s fl"
  obtains p m where "s = (Some p, m)" and "pool_repr m p fl"
  using assms by (cases s; cases "fst s") (auto simp: pool_state_repr_def)

lemma pool_take_next:
  assumes "pool_repr m p (x # y # ys)"
  shows "pool_take (Some p, m) =
    (Some x, (Some (p\<lparr>free_head_idx := y\<rparr>), m(blk p x := INVALID_BLOCK)))"
proof -
  from assms have "pool_geom p" "x < nr_blocks p" by (auto simp: pool_repr_def)
  then have "blk p x \<noteq> 0" using blk_in_pool(3) by fastforce
  then show ?thesis by (simp add: pool_take_def pool_alloc_correct(1) [OF assms])
qed

lemma pool_take_single:
  assumes "pool_repr m p [x]"
  shows "pool_take (Some p, m) = (None, (Some p, m))"
  by (simp add: pool_take_def pool_alloc_empty [OF assms])

lemma pool_give_spec:
  assumes "pool_state_repr s fl" and "pool_block s x" and "x \<notin> set fl"
  shows "pool_state_repr (pool_give x s) (fl @ [x]) \<and> pool_block (pool_give x s) = pool_block s"
proof -
  from assms(1) obtain p m where s: "s = (Some p, m)" and r: "pool_repr m p fl"
    by (rule pool_state_reprE)
  from assms(2) s have x: "x < nr_blocks p" by (simp add: pool_block_def)
  from pool_free_correct [OF r x assms(3)] obtain p' m' where
    "pool_vcpu_free SEV_STATUS_SUCCESS SEV_STATUS_SUCCESS m (Some p) (blk p x) = (Some p', m')"
    "pool_repr m' p' (fl @ [x])" "nr_blocks p' = nr_blocks p" by metis
  with s show ?thesis
    by (simp add: pool_give_def pool_state_repr_def pool_block_def fun_eq_iff
        pool_vcpu_index_to_addr64_def)
qed

interpretation vcpu_blocks: fifo_pool pool_state_repr pool_take 1 pool_give pool_block
proof unfold_locales
  fix s :: pool_state and x :: u32 and xs
  assume a: "pool_state_repr s (x # xs)" "1 \<le> length xs"
  then obtain y ys where xs: "xs = y # ys" by (cases xs) auto
  from a obtain p m where s: "s = (Some p, m)" and r: "pool_repr m p (x # y # ys)"
    unfolding xs by (metis pool_state_reprE)
  show "\<exists>s'. pool_take s = (Some x, s') \<and> pool_state_repr s' xs"
    using pool_take_next [OF r] pool_alloc_correct(2) [OF r] s xs
    by (simp add: pool_state_repr_def)
next
  fix s :: pool_state and xs :: "u32 list"
  assume a: "pool_state_repr s xs" "length xs \<le> 1"
  from a(1) obtain p m where s: "s = (Some p, m)" and r: "pool_repr m p xs"
    by (rule pool_state_reprE)
  from r a(2) obtain x where "xs = [x]" by (cases xs) (auto simp: pool_repr_def)
  with a r s show "\<exists>s'. pool_take s = (None, s') \<and> pool_state_repr s' xs"
    by (simp add: pool_take_single)
next
  fix s :: pool_state and xs x
  assume "pool_state_repr s xs" "pool_block s x" "x \<notin> set xs"
  from pool_give_spec [OF this]
  show "pool_state_repr (pool_give x s) (xs @ [x])" and "pool_block (pool_give x s) = pool_block s"
    by simp_all
next
  fix s :: pool_state and xs
  assume a: "pool_state_repr s xs"
  then obtain p m where s: "s = (Some p, m)" and r: "pool_repr m p xs"
    by (rule pool_state_reprE)
  show "pool_block (snd (pool_take s)) = pool_block s"
  proof (cases xs rule: list.exhaust)
    case Nil
    with r show ?thesis by (simp add: pool_repr_def)
  next
    case (Cons x ys)
    then show ?thesis
      using r s by (cases ys) (simp_all add: pool_take_single pool_take_next pool_block_def fun_eq_iff)
  qed
next
  fix s :: pool_state and xs x
  assume "pool_state_repr s xs" "x \<in> set xs"
  then show "pool_block s x"
    by (auto simp: pool_block_def pool_repr_def elim: pool_state_reprE)
next
  fix s :: pool_state and xs
  assume "pool_state_repr s xs"
  then show "distinct xs" by (auto simp: pool_repr_def elim: pool_state_reprE)
qed

section \<open>Destroying the pool\<close>

lemma fold_zero:
  "fold (\<lambda>i m. m(f i := (0 :: u32))) xs m a = (if a \<in> f ` set xs then 0 else m a)"
  by (induction xs arbitrary: m) auto

lemma zero_words_at:
  "zero_words m base bytes a =
     (if a \<in> (\<lambda>i. base + of_nat (4 * i)) ` {0..<bytes div 4} then 0 else m a)"
  unfolding zero_words_def fold_zero set_upt by (rule refl)

lemma zero_words_in: "i < n \<Longrightarrow> zero_words m base (n * 4) (base + of_nat (4 * i)) = 0"
  unfolding zero_words_at by simp

lemma zero_words_keeps: "m a = 0 \<Longrightarrow> zero_words m base n a = 0"
  unfolding zero_words_at by simp

lemma blk_offset:
  assumes "pool_geom p" and "x < nr_blocks p"
  shows "blk p x = start_pool_addr p + of_nat (4 * unat x)"
proof (rule word_unat_eq_iff [THEN iffD2])
  have "unat (start_pool_addr p) + 4 * unat x < 2 ^ LENGTH(64)"
    using unat_blk [OF assms] u64_bound [of "blk p x"] by simp
  then show "unat (blk p x) = unat (start_pool_addr p + of_nat (4 * unat x))"
    by (simp only: unat_blk [OF assms] unat_plus_of_nat)
qed

lemma crc_offset:
  assumes "pool_geom p" and "x < nr_blocks p"
  shows "idx_crc_block_to_addr64 (Some p) x = start_crc_addr p + of_nat (4 * (2 * unat x))"
proof (rule word_unat_eq_iff [THEN iffD2])
  have "unat (start_crc_addr p) + 4 * (2 * unat x) < 2 ^ LENGTH(64)"
    using unat_crc_blk [OF assms] u64_bound [of "idx_crc_block_to_addr64 (Some p) x"] by simp
  then show "unat (idx_crc_block_to_addr64 (Some p) x) =
      unat (start_crc_addr p + of_nat (4 * (2 * unat x)))"
    using unat_crc_blk [OF assms] unat_plus_of_nat [of "start_crc_addr p" "4 * (2 * unat x)"]
    by simp
qed

lemma geom_sizes:
  assumes "pool_geom p" and "unat (nr_blocks p) < 2 ^ 29"
  shows "unat (nr_blocks p * 4) = unat (nr_blocks p) * 4"
    and "unat (nr_blocks p * 8) = 2 * unat (nr_blocks p) * 4"
  using unat_times_4 [OF assms(2)] unat_times_8 [OF assms(2)] by simp_all

lemma destroy_zeroes:
  assumes "pool_geom p" and "unat (nr_blocks p) < 2 ^ 29" and "x < nr_blocks p"
  shows "snd (snd (pool_vcpu_destroy SEV_STATUS_SUCCESS SEV_STATUS_SUCCESS fl m (Some p))) (blk p x) = 0"
    and "snd (snd (pool_vcpu_destroy SEV_STATUS_SUCCESS SEV_STATUS_SUCCESS fl m (Some p)))
      (idx_crc_block_to_addr64 (Some p) x) = 0"
proof -
  let ?m1 = "zero_words m (start_pool_addr p) (unat (nr_blocks p) * 4)"
  have d: "snd (snd (pool_vcpu_destroy SEV_STATUS_SUCCESS SEV_STATUS_SUCCESS fl m (Some p))) =
      zero_words ?m1 (start_crc_addr p) (2 * unat (nr_blocks p) * 4)"
    using assms(1) unfolding geom_sizes [OF assms(1,2), symmetric]
    by (simp add: pool_vcpu_destroy_def pool_geom_def)
  from assms(3) have lt: "unat x < unat (nr_blocks p)" by (simp add: word_less_nat_alt)
  show "snd (snd (pool_vcpu_destroy SEV_STATUS_SUCCESS SEV_STATUS_SUCCESS fl m (Some p))) (blk p x) = 0"
    unfolding d by (rule zero_words_keeps)
      (simp only: blk_offset [OF assms(1,3)] zero_words_in [OF lt])
  show "snd (snd (pool_vcpu_destroy SEV_STATUS_SUCCESS SEV_STATUS_SUCCESS fl m (Some p)))
      (idx_crc_block_to_addr64 (Some p) x) = 0"
    unfolding d crc_offset [OF assms(1,3)] by (rule zero_words_in) (use lt in simp)
qed

section \<open>An example pool\<close>

text \<open>Three blocks at 0x1000, their CRC blocks at 0x2000.\<close>

definition demo_aligned :: "u64 \<Rightarrow> u64 \<Rightarrow> bool" where
  "demo_aligned a k \<longleftrightarrow> a mod k = 0"

definition demo_pool :: pool_vcpu where
  "demo_pool = \<lparr>start_crc_addr = 0x2000, end_crc_addr = 0x2018, start_pool_addr = 0x1000,
     end_pool_addr = 0x1018, nr_blocks = 3, free_head_idx = 0, free_tail_idx = 2,
     is_initialized = True\<rparr>"

definition demo_dram :: dram where
  "demo_dram = (\<lambda>_. 0)(0x1000 := 1, 0x1004 := 2, 0x1008 := 0xFFFFFFFF)"

lemma demo_geom: "pool_geom demo_pool"
  by (simp add: pool_geom_def demo_pool_def)

lemma demo_repr: "pool_repr demo_dram demo_pool [0, 1, 2]"
  using demo_geom
  by (simp add: pool_repr_def demo_pool_def demo_dram_def idx_to_addr64_def INVALID_BLOCK_def)

text \<open>One free block (2), and a guest's list of blocks 0 and 1.\<close>

definition demo_guest_pool :: pool_vcpu where
  "demo_guest_pool = demo_pool\<lparr>free_head_idx := 2\<rparr>"

definition demo_guest_dram :: dram where
  "demo_guest_dram = demo_dram(0x1000 := 1, 0x1004 := 0xFFFFFFFF)"

lemma demo_guest_repr:
  "pool_repr demo_guest_dram demo_guest_pool [2]"
  "seg demo_guest_dram demo_guest_pool [0, 1] INVALID_BLOCK"
  using demo_geom
  by (simp_all add: pool_repr_def demo_pool_def demo_guest_pool_def demo_guest_dram_def
      demo_dram_def idx_to_addr64_def INVALID_BLOCK_def pool_geom_def)

section \<open>Properties of the pool\<close>

text \<open>
  Initialising the pool over an aligned region of \<open>sz\<close> bytes links all \<open>sz / 8\<close> blocks into
  one free list 0, 1, 2, ... that ends in \<open>INVALID_BLOCK\<close>.
\<close>

theorem pool_init_links_all_blocks:
  assumes "aligned a INDEX_BLOCK_SIZE" and "aligned sz INDEX_BLOCK_SIZE"
    and "8 \<le> unat sz" and "8 dvd unat sz" and "unat sz \<le> 2 ^ 32"
    and "0 < a" and "unat a + unat sz < 2 ^ 64" and "0 < c" and "unat c + unat sz < 2 ^ 64"
  shows "case pool_vcpu_init aligned SEV_STATUS_SUCCESS m (Some p0) a c sz of
      (status, pool, m') \<Rightarrow> status = SEV_STATUS_SUCCESS \<and>
        (\<exists>p. pool = Some p \<and> pool_repr m' p (map of_nat [0..<unat sz div 8]))"
proof -
  from pool_init_repr [of aligned a sz c m p0, OF assms] obtain p m' where
    "pool_vcpu_init aligned SEV_STATUS_SUCCESS m (Some p0) a c sz = (SEV_STATUS_SUCCESS, Some p, m')"
    "pool_repr m' p (init_list p)" "unat (nr_blocks p) = unat sz div 8" by metis
  then show ?thesis by (simp add: init_list_def)
qed

theorem pool_init_links_all_blocks_witness:
  "case pool_vcpu_init demo_aligned SEV_STATUS_SUCCESS (\<lambda>_. 0) (Some pool_zero) 0x1000 0x2000 24 of
      (status, pool, m') \<Rightarrow> status = SEV_STATUS_SUCCESS \<and>
        (\<exists>p. pool = Some p \<and> pool_repr m' p (map of_nat [0..<unat (24 :: u64) div 8]))"
  by (rule pool_init_links_all_blocks)
     (simp_all add: demo_aligned_def INDEX_BLOCK_SIZE_def)

text \<open>
  C23: As long as the blocks of the pool can be mapped and a client gives back only blocks it owns, for
  every sequence of allocations and releases: the free list and the client's blocks together stay
  the same set, without duplicates, so no block is lost and none is handed out twice. At least one
  block stays in the free list. (\<open>pool_take\<close> and \<open>pool_give\<close> call the two operations with mappings
  that succeed; \<open>pool_alloc_mapping_failures\<close> says what happens otherwise.)
\<close>

theorem pool_trace_conserves_blocks:
  assumes "pool_state_repr s fl" and "distinct (fl @ own)" and "\<forall>x \<in> set own. pool_block s x"
    and "pool_run pool_take pool_give ops (s, own) = (s', own')"
  shows "\<exists>fl'. pool_state_repr s' fl' \<and> mset (fl' @ own') = mset (fl @ own) \<and>
    distinct (fl' @ own') \<and> fl' \<noteq> []"
proof -
  have "1 \<le> length fl" using assms(1)
    by (cases fl) (auto elim!: pool_state_reprE simp: pool_repr_def)
  from vcpu_blocks.run_conserves [OF assms(1-3) this assms(4)] show ?thesis by fastforce
qed

theorem pool_trace_conserves_blocks_witness:
  "\<exists>fl'. pool_state_repr (fst (pool_run pool_take pool_give [Take, Take, Give 0, Take]
        ((Some demo_pool, demo_dram), []))) fl' \<and>
    mset (fl' @ snd (pool_run pool_take pool_give [Take, Take, Give 0, Take]
        ((Some demo_pool, demo_dram), []))) = mset ([0, 1, 2] @ []) \<and>
    distinct (fl' @ snd (pool_run pool_take pool_give [Take, Take, Give 0, Take]
        ((Some demo_pool, demo_dram), []))) \<and> fl' \<noteq> []"
  by (rule pool_trace_conserves_blocks [of "(Some demo_pool, demo_dram)" "[0, 1, 2]"])
     (simp_all add: pool_state_repr_def demo_repr)

text \<open>
  Successive allocations give the blocks of the free list in order, and leave the rest of
  it as the free list; asked for more, the pool keeps its last block and gives none.
\<close>

theorem pool_allocates_in_fifo_order:
  assumes "pool_state_repr s fl"
  shows "\<exists>s'. drain_n pool_take n s = (take (min n (length fl - 1)) fl, s') \<and>
    pool_state_repr s' (drop (min n (length fl - 1)) fl)"
proof (cases "n + 1 \<le> length fl")
  case True
  then have "min n (length fl - 1) = n" by arith
  with True show ?thesis using vcpu_blocks.drain_prefix [OF assms, of n] by simp
next
  case False
  then have "min n (length fl - 1) = length fl - 1" by arith
  with False show ?thesis using vcpu_blocks.drain_all [OF assms, of n] by simp
qed

theorem pool_allocates_in_fifo_order_witness:
  "\<exists>s'. drain_n pool_take 5 (Some demo_pool, demo_dram) = ([0, 1], s') \<and> pool_state_repr s' [2]"
  using pool_allocates_in_fifo_order [of "(Some demo_pool, demo_dram)" "[0, 1, 2]" 5]
  by (simp add: pool_state_repr_def demo_repr)

text \<open>
  The failures of \<open>pool_vcpu_alloc\<close>. If the first mapping fails, address 0 is returned and
  the free list is as before. If the second one fails, address 0 is returned but the head has
  already left the free list, and the caller does not learn its index: the block is lost.
\<close>

theorem pool_alloc_mapping_failures:
  assumes "pool_repr m p (x # y # ys)" and "e \<noteq> SEV_STATUS_SUCCESS"
  shows "(\<exists>q. pool_vcpu_alloc e mp2 m (Some p) (Some i) (Some c) = (0, Some i, Some c, Some q, m) \<and>
      pool_repr m q (x # y # ys)) \<and>
    (\<exists>q. pool_vcpu_alloc SEV_STATUS_SUCCESS e m (Some p) (Some i) (Some c) =
      (0, Some i, Some c, Some q, m) \<and> pool_repr m q (y # ys))"
proof (rule conjI)
  from assms(1) have g: "pool_geom p" "x < nr_blocks p" "y \<noteq> last (y # ys) \<or> ys = []"
    and ne: "free_head_idx p \<noteq> free_tail_idx p" and l: "m (blk p x) = y"
    and h: "free_head_idx p = x" and i: "is_initialized p"
    by (auto simp: pool_repr_def pool_geom_def)
  note si = geom_sint [OF g(1,2)]
  show "\<exists>q. pool_vcpu_alloc e mp2 m (Some p) (Some i) (Some c) = (0, Some i, Some c, Some q, m) \<and>
      pool_repr m q (x # y # ys)"
    using assms(1) ne i assms(2)
    by (intro exI [of _ p])
       (simp add: pool_vcpu_alloc_def pool_is_empty_def list_remove_head_def list_get_next_index_def)
  show "\<exists>q. pool_vcpu_alloc SEV_STATUS_SUCCESS e m (Some p) (Some i) (Some c) =
      (0, Some i, Some c, Some q, m) \<and> pool_repr m q (y # ys)"
    using assms ne l h i si
    by (intro exI [of _ "p\<lparr>free_head_idx := y\<rparr>"])
       (simp add: pool_vcpu_alloc_def pool_is_empty_def list_remove_head_def
         list_get_next_index_def list_set_next_index_def pool_repr_def)
qed

theorem pool_alloc_mapping_failures_witness:
  "(\<exists>q. pool_vcpu_alloc (ERR_OTHER 1) SEV_STATUS_SUCCESS demo_dram (Some demo_pool) (Some 9) (Some 9) =
      (0, Some 9, Some 9, Some q, demo_dram) \<and> pool_repr demo_dram q [0, 1, 2]) \<and>
   (\<exists>q. pool_vcpu_alloc SEV_STATUS_SUCCESS (ERR_OTHER 1) demo_dram (Some demo_pool) (Some 9) (Some 9) =
      (0, Some 9, Some 9, Some q, demo_dram) \<and> pool_repr demo_dram q [1, 2])"
  using pool_alloc_mapping_failures [OF demo_repr] by simp

text \<open>
  \<open>pool_vcpu_free_list\<close> on a guest's list of blocks appends the blocks to the free list, in
  order, whenever the count the caller gives is at least the length of the list.
\<close>

theorem pool_free_list_returns_all:
  assumes "pool_repr m p fl" and "us \<noteq> []" and "distinct (fl @ us)"
    and "\<forall>x \<in> set us. x < nr_blocks p" and "seg m p us INVALID_BLOCK"
    and "length us \<le> unat ex"
  shows "\<exists>p' m'. pool_vcpu_free_list SEV_STATUS_SUCCESS m (Some p) (hd us) (last us) ex =
      (SEV_STATUS_SUCCESS, Some p', m') \<and> pool_repr m' p' (fl @ us)"
  by (rule pool_free_list_correct [OF assms]) auto

theorem pool_free_list_returns_all_witness:
  "\<exists>p' m'. pool_vcpu_free_list SEV_STATUS_SUCCESS demo_guest_dram (Some demo_guest_pool) 0 1 2 =
      (SEV_STATUS_SUCCESS, Some p', m') \<and> pool_repr m' p' [2, 0, 1]"
  using pool_free_list_returns_all [OF demo_guest_repr(1), of "[0, 1]" 2] demo_guest_repr(2)
  by (simp add: demo_guest_pool_def demo_pool_def)

text \<open>
  Searching a guest's list for the CRC block of block \<open>i\<close> succeeds, and reports that it is
  there exactly when \<open>i\<close> is one of the guest's blocks.
\<close>

theorem pool_find_crc_decides_membership:
  assumes "pool_geom p" and "us \<noteq> []" and "distinct us" and "\<forall>x \<in> set us. x < nr_blocks p"
    and "seg m p us INVALID_BLOCK" and "length us \<le> unat ex" and "i < nr_blocks p"
  shows "pool_vcpu_find_crc_in_list SEV_STATUS_SUCCESS m (Some p) (hd us) (last us)
      (idx_crc_block_to_addr64 (Some p) i) ex b = (SEV_STATUS_SUCCESS, i \<in> set us)"
proof -
  have "hd us \<noteq> INVALID_BLOCK" "last us \<noteq> INVALID_BLOCK"
    using assms(2,4) geom_index_valid [OF assms(1)] by auto
  then show ?thesis
    using find_crc_loop_correct [OF assms(1-5), of 0 ex i] assms(6)
    by (simp add: pool_vcpu_find_crc_in_list_def addr64_crc_to_idx_blk [OF assms(1,7)])
qed

theorem pool_find_crc_decides_membership_witness:
  "pool_vcpu_find_crc_in_list SEV_STATUS_SUCCESS demo_guest_dram (Some demo_guest_pool) 0 1
      (idx_crc_block_to_addr64 (Some demo_guest_pool) 2) 2 True = (SEV_STATUS_SUCCESS, False)"
  using pool_find_crc_decides_membership [of demo_guest_pool "[0, 1]" demo_guest_dram 2 2 True]
    demo_guest_repr
  by (simp add: demo_guest_pool_def demo_pool_def pool_repr_def)

text \<open>
  The CRC address check accepts the end of the CRC area, one past its last block, and gives
  the index \<open>nr_blocks\<close> for it; so the search for it reports "not in the list" where an address
  outside the area is an error.
\<close>

theorem crc_end_address_accepted:
  assumes "pool_geom p"
  shows "addr64_crc_to_idx (Some p) (end_crc_addr p) (Some v) =
      (SEV_STATUS_SUCCESS, Some (nr_blocks p)) \<and>
    (\<forall>a. end_crc_addr p < a \<longrightarrow>
      addr64_crc_to_idx (Some p) a (Some v) = (ERR_INVALID_PARAMS, Some v))"
proof -
  have e: "unat (end_crc_addr p) = unat (start_crc_addr p) + 8 * unat (nr_blocks p)"
    by (rule unat_end_addrs(2) [OF assms])
  then have le: "start_crc_addr p \<le> end_crc_addr p" by (simp add: word_le_nat_alt)
  have nz: "end_crc_addr p \<noteq> 0"
    using assms le by (auto simp: pool_geom_def)
  have "unat ((end_crc_addr p - start_crc_addr p) div 8) = unat (nr_blocks p)"
    using e unat_sub_no_wrap [OF le] by (simp add: unat_div)
  then have "ucast ((end_crc_addr p - start_crc_addr p) div 8) = nr_blocks p"
    by (simp add: ucast_eq_of_unat)
  with le nz show ?thesis by (simp add: addr64_crc_to_idx_def)
qed

theorem crc_end_address_accepted_witness:
  "addr64_crc_to_idx (Some demo_pool) 0x2018 (Some 7) = (SEV_STATUS_SUCCESS, Some 3)"
  using crc_end_address_accepted [OF demo_geom, of 7] by (simp add: demo_pool_def)

text \<open>
  Destroying the pool clears every block and every CRC block it had, and the pool structure
  itself.
\<close>

theorem pool_destroy_clears_memory:
  assumes "pool_geom p" and "unat (nr_blocks p) < 2 ^ 29" and "x < nr_blocks p"
  shows "case pool_vcpu_destroy SEV_STATUS_SUCCESS SEV_STATUS_SUCCESS fl m (Some p) of
      (status, pool, m') \<Rightarrow> status = fl \<and> pool = Some pool_zero \<and> m' (blk p x) = 0 \<and>
        m' (idx_crc_block_to_addr64 (Some p) x) = 0"
proof -
  have "\<exists>m'. pool_vcpu_destroy SEV_STATUS_SUCCESS SEV_STATUS_SUCCESS fl m (Some p) =
      (fl, Some pool_zero, m')"
    using assms(1) by (simp add: pool_vcpu_destroy_def pool_geom_def)
  with destroy_zeroes [OF assms, of fl m] show ?thesis by auto
qed

theorem pool_destroy_clears_memory_witness:
  "case pool_vcpu_destroy SEV_STATUS_SUCCESS SEV_STATUS_SUCCESS SEV_STATUS_SUCCESS demo_dram
      (Some demo_pool) of
      (status, pool, m') \<Rightarrow> status = SEV_STATUS_SUCCESS \<and> pool = Some pool_zero \<and>
        m' (blk demo_pool 1) = 0 \<and> m' (idx_crc_block_to_addr64 (Some demo_pool) 1) = 0"
  by (rule pool_destroy_clears_memory [OF demo_geom]) (simp_all add: demo_pool_def)

text \<open>
  The range check of \<open>pool_vcpu_free\<close> spans twice the bytes the blocks take: an address in the
  upper half is accepted and its index is outside the pool.
\<close>

lemma pool_free_accepts_no_block:
  "pool_vcpu_free SEV_STATUS_SUCCESS SEV_STATUS_SUCCESS demo_dram (Some demo_pool) 0x1010 =
     (Some (demo_pool\<lparr>free_tail_idx := 4\<rparr>), demo_dram(0x1008 := 4, 0x1010 := INVALID_BLOCK))"
  by (simp add: pool_vcpu_free_def demo_pool_def list_add_tail_def list_set_next_index_def
      addr64_to_idx_def idx_to_addr64_def Let_def)

end
