(* ===== verification/Sev_RbTypes.thy ===== *)
theory Sev_RbTypes
  imports Sev_Prelude
begin

text \<open>
  The data of the ring buffer mode (\<open>sev_ring_buffer.h\<close>): the entries of the queues, the
  mailbox registers as records of their bit fields, and the configuration, which the address
  checks of \<open>x86_copy.c\<close> read too.
\<close>

section \<open>Registers and queue entries\<close>

datatype sev_rb_queue_type = HIGH_PRIORITY | LOW_PRIORITY

record sev_rb_cmd_ptr_entry =
  e_cmd_id :: u16
  e_cmd_flags :: u16
  e_software_data :: u32
  e_cmd_buffer_ptr :: u64

record sev_rb_status_entry =
  s_status :: u16
  s_reserved :: u16
  s_reserved2 :: u32
  s_error_stack :: u64

record sev_rb_control_register =
  lo_queue_empty_int :: bool
  hi_queue_empty_int :: bool
  resume_lo_queue :: bool
  resume_hi_queue :: bool
  clear_int_bits :: bool
  rb_mode_active :: bool
  x86_control_bit :: bool

record sev_rb_tail =
  t_lo_q_index :: u8
  t_hi_q_index :: u8

record sev_rb_head =
  lo_q_index :: u8
  h_reserved1 :: "3 word"
  lo_queue_running :: bool
  h_reserved2 :: "4 word"
  hi_q_index :: u8
  h_reserved :: "3 word"
  hi_queue_running :: bool
  all_queue_empty_int_stat :: bool
  cmd_done_int_stat :: bool
  q_paused_int_stat :: bool
  q_free_int_stat :: bool

record sev_rb_process_state =
  queue_in_process :: sev_rb_queue_type
  queue_index :: u32
  cmd_flags :: u16
  generate_queue_empty_int :: bool
  generate_cmd_done_int :: bool
  generate_q_pause_int :: bool
  generate_q_free_int :: bool

record sev_rb_state =
  x86_control :: sev_rb_control_register
  x86_tail :: sev_rb_tail
  sev_head :: sev_rb_head
  process_state :: sev_rb_process_state

record sev_rb_config =
  rb_enable :: bool
  int_on_empty :: bool
  cmd_ptr_low_priority_addr :: u64
  cmd_ptr_high_priority_addr :: u64
  status_ptr_low_priority_addr :: u64
  status_ptr_high_priority_addr :: u64
  low_queue_threshold :: u16
  high_queue_threshold :: u16
  low_priority_queue_size :: u8
  high_priority_queue_size :: u8

end
