(* ===== verification/Sev_RingBuffer.thy ===== *)
theory Sev_RingBuffer
  imports Sev_Interfaces Sev_RbTypes
begin

text \<open>
  The ring buffer mode of the command interface (\<open>sev_ring_buffer.c\<close>, \<open>sev_ring_buffer.h\<close>). The
  host keeps two queues of commands of 256 entries, of high and of low priority, and tells the
  firmware their tails through a mailbox register; the firmware owns the heads. A queue is
  paused by a failing command and resumed by a handshake over the control register.

  A register is a record of its bit fields, with its 32-bit value given by \<open>head_val\<close> and the
  like. The queues are host memory: \<open>cmd_mem a\<close> and \<open>status_mem a\<close> are the entries at address
  \<open>a\<close>. The pointer arguments that the C code tests against NULL are summed up in one flag
  \<open>non_null\<close>. Mapping calls are status arguments, as in the pool.
\<close>

section \<open>State\<close>

text \<open>The globals the ring buffer code reads and writes.\<close>

record rb_world =
  rb_state :: sev_rb_state
  rb_config :: sev_rb_config
  cmd_mem :: "u64 \<Rightarrow> sev_rb_cmd_ptr_entry"
  status_mem :: "u64 \<Rightarrow> sev_rb_status_entry"
  reg_rb_sev_head :: u32
  error_stack :: u64


definition SEV_RB_CMD_FLAG_INT_COMPLETE :: u16 where "SEV_RB_CMD_FLAG_INT_COMPLETE = 1"
definition SEV_RB_CMD_FLAG_CONT_ON_ERROR :: u16 where "SEV_RB_CMD_FLAG_CONT_ON_ERROR = 2"

text \<open>\<open>PAGE_SIZE_4K / sizeof(sev_rb_cmd_ptr_entry_t)\<close>.\<close>

definition SEV_RB_CMD_BUFFER_MAX_SIZE :: u32 where "SEV_RB_CMD_BUFFER_MAX_SIZE = 4096 div 16"

text \<open>The register values: bit fields are laid out from the least significant bit.\<close>

definition control_of_val :: "u32 \<Rightarrow> sev_rb_control_register" where
  "control_of_val v =
     \<lparr>lo_queue_empty_int = bit v 0, hi_queue_empty_int = bit v 1, resume_lo_queue = bit v 8,
      resume_hi_queue = bit v 9, clear_int_bits = bit v 29, rb_mode_active = bit v 30,
      x86_control_bit = bit v 31\<rparr>"

definition tail_of_val :: "u32 \<Rightarrow> sev_rb_tail" where
  "tail_of_val v = \<lparr>t_lo_q_index = ucast v, t_hi_q_index = ucast (drop_bit 16 v)\<rparr>"

definition head_val :: "sev_rb_head \<Rightarrow> u32" where
  "head_val h =
     ucast (lo_q_index h) OR push_bit 8 (ucast (h_reserved1 h)) OR
     push_bit 11 (of_bool (lo_queue_running h)) OR push_bit 12 (ucast (h_reserved2 h)) OR
     push_bit 16 (ucast (hi_q_index h)) OR push_bit 24 (ucast (h_reserved h)) OR
     push_bit 27 (of_bool (hi_queue_running h)) OR
     push_bit 28 (of_bool (all_queue_empty_int_stat h)) OR
     push_bit 29 (of_bool (cmd_done_int_stat h)) OR
     push_bit 30 (of_bool (q_paused_int_stat h)) OR push_bit 31 (of_bool (q_free_int_stat h))"

definition head_of_val :: "u32 \<Rightarrow> sev_rb_head" where
  "head_of_val v =
     \<lparr>lo_q_index = ucast v, h_reserved1 = ucast (drop_bit 8 v), lo_queue_running = bit v 11,
      h_reserved2 = ucast (drop_bit 12 v), hi_q_index = ucast (drop_bit 16 v),
      h_reserved = ucast (drop_bit 24 v), hi_queue_running = bit v 27,
      all_queue_empty_int_stat = bit v 28, cmd_done_int_stat = bit v 29,
      q_paused_int_stat = bit v 30, q_free_int_stat = bit v 31\<rparr>"

section \<open>State updates\<close>

abbreviation upd_head :: "(sev_rb_head \<Rightarrow> sev_rb_head) \<Rightarrow> rb_world \<Rightarrow> rb_world" where
  "upd_head f w \<equiv> w\<lparr>rb_state := (rb_state w)\<lparr>sev_head := f (sev_head (rb_state w))\<rparr>\<rparr>"

abbreviation upd_proc ::
  "(sev_rb_process_state \<Rightarrow> sev_rb_process_state) \<Rightarrow> rb_world \<Rightarrow> rb_world" where
  "upd_proc f w \<equiv> w\<lparr>rb_state := (rb_state w)\<lparr>process_state := f (process_state (rb_state w))\<rparr>\<rparr>"

abbreviation head :: "rb_world \<Rightarrow> sev_rb_head" where "head w \<equiv> sev_head (rb_state w)"
abbreviation ctl :: "rb_world \<Rightarrow> sev_rb_control_register" where "ctl w \<equiv> x86_control (rb_state w)"
abbreviation tail :: "rb_world \<Rightarrow> sev_rb_tail" where "tail w \<equiv> x86_tail (rb_state w)"
abbreviation proc :: "rb_world \<Rightarrow> sev_rb_process_state" where "proc w \<equiv> process_state (rb_state w)"

text \<open>\<open>WriteReg32(SEV_CMD_RB_SEV_HEAD, state->sev_head.u.val)\<close>.\<close>

definition write_head :: "rb_world \<Rightarrow> rb_world" where
  "write_head w = w\<lparr>reg_rb_sev_head := head_val (head w)\<rparr>"

text \<open>The address of \<open>base_entry[index]\<close>; both kinds of entry take 16 bytes.\<close>

definition entry_addr :: "u64 \<Rightarrow> u32 \<Rightarrow> u64" where
  "entry_addr base index = base + ucast index * 16"

section \<open>Operations\<close>

definition sev_rb_copy_mailbox :: "u32 \<Rightarrow> u32 \<Rightarrow> rb_world \<Rightarrow> rb_world" where
  "sev_rb_copy_mailbox cmd_resp_reg x86_tail_reg w =
     w\<lparr>rb_state := (rb_state w)\<lparr>x86_control := control_of_val cmd_resp_reg,
                               x86_tail := tail_of_val x86_tail_reg\<rparr>\<rparr>"


text \<open>\<open>code\<close> is the cast of a status to its 16-bit number.\<close>

definition sev_rb_save_status ::
  "(sev_status \<Rightarrow> u16) \<Rightarrow> sev_status \<Rightarrow> bool \<Rightarrow> rb_world \<Rightarrow> sev_status \<Rightarrow> sev_status \<times> rb_world" where
  "sev_rb_save_status code mp non_null w status_save =
     (if \<not> non_null then (ERR_INVALID_PARAMS, w)
      else
        let index = queue_index (proc w);
            queue_base_addr =
              (case queue_in_process (proc w) of
                 HIGH_PRIORITY \<Rightarrow> status_ptr_high_priority_addr (rb_config w)
               | LOW_PRIORITY \<Rightarrow> status_ptr_low_priority_addr (rb_config w))
        in if mp \<noteq> SEV_STATUS_SUCCESS then (mp, w)
           else
             let a = entry_addr queue_base_addr index;
                 w1 = w\<lparr>status_mem := (status_mem w)
                         (a := (status_mem w a)\<lparr>s_status := code status_save,
                                                s_error_stack := error_stack w\<rparr>)\<rparr>;
                 index1 = (if index + 1 \<ge> SEV_RB_CMD_BUFFER_MAX_SIZE then 0 else index + 1)
             in (SEV_STATUS_SUCCESS,
                 (case queue_in_process (proc w) of
                    HIGH_PRIORITY \<Rightarrow> upd_head (\<lambda>h. h\<lparr>hi_q_index := ucast index1\<rparr>) w1
                  | LOW_PRIORITY \<Rightarrow> upd_head (\<lambda>h. h\<lparr>lo_q_index := ucast index1\<rparr>) w1)))"

definition check_queue_depth :: "u32 \<Rightarrow> u32 \<Rightarrow> u32 \<Rightarrow> bool" where
  "check_queue_depth h_idx t_idx depth_check =
     (if depth_check = 0 then False
      else
        let t_idx1 = (if h_idx > t_idx then t_idx + SEV_RB_CMD_BUFFER_MAX_SIZE else t_idx);
            depth = t_idx1 - h_idx
        in depth < depth_check)"

text \<open>The block \<open>check_queue_depth(...); if (triggered_thresh && ...)\<close>, which \<open>sev_rb_get_cmd\<close> has
  four times.\<close>

definition near_empty_int :: "u8 \<Rightarrow> u8 \<Rightarrow> u16 \<Rightarrow> bool \<Rightarrow> rb_world \<Rightarrow> rb_world" where
  "near_empty_int h_idx t_idx thresh enabled w =
     (if check_queue_depth (ucast h_idx) (ucast t_idx) (ucast thresh) \<and> enabled
      then upd_proc (\<lambda>p. p\<lparr>generate_q_free_int := True\<rparr>)
             (upd_head (\<lambda>h. if \<not> q_free_int_stat h then h\<lparr>q_free_int_stat := True\<rparr> else h) w)
      else w)"

definition hi_queue_paused :: "rb_world \<Rightarrow> bool" where
  "hi_queue_paused w \<longleftrightarrow> \<not> (\<not> resume_hi_queue (ctl w) \<and> hi_queue_running (head w))"

definition low_queue_paused :: "rb_world \<Rightarrow> bool" where
  "low_queue_paused w \<longleftrightarrow> \<not> (\<not> resume_lo_queue (ctl w) \<and> lo_queue_running (head w))"

definition hi_near_empty :: "rb_world \<Rightarrow> rb_world" where
  "hi_near_empty w =
     near_empty_int (hi_q_index (head w)) (t_hi_q_index (tail w))
       (high_queue_threshold (rb_config w)) (hi_queue_empty_int (ctl w)) w"

definition lo_near_empty :: "rb_world \<Rightarrow> rb_world" where
  "lo_near_empty w =
     near_empty_int (lo_q_index (head w)) (t_lo_q_index (tail w))
       (low_queue_threshold (rb_config w)) (lo_queue_empty_int (ctl w)) w"

text \<open>The queue \<open>sev_rb_get_cmd\<close> selects, with the state after the depth checks.\<close>

definition sev_rb_select :: "rb_world \<Rightarrow> sev_rb_queue_type option \<times> rb_world" where
  "sev_rb_select w =
     (let low_paused = low_queue_paused w; hi_paused = hi_queue_paused w;
          (hi_valid, w1) =
            (if \<not> hi_paused then
               let w1 = hi_near_empty w
               in if t_hi_q_index (tail w1) \<noteq> hi_q_index (head w1)
                  then (True, hi_near_empty w1) else (False, w1)
             else (False, w))
      in if \<not> low_paused \<and> \<not> hi_valid then
           let w2 = lo_near_empty w1
           in if t_lo_q_index (tail w2) \<noteq> lo_q_index (head w2)
              then (Some LOW_PRIORITY, lo_near_empty w2) else (None, w2)
         else (if hi_valid then Some HIGH_PRIORITY else None, w1))"


definition sev_rb_pre_cmd_error_handling :: "bool \<Rightarrow> rb_world \<Rightarrow> sev_status \<times> rb_world" where
  "sev_rb_pre_cmd_error_handling non_null w =
     (if \<not> non_null then (ERR_INVALID_PARAMS, w)
      else
        let hi = \<not> hi_queue_running (head w) \<and> high_priority_queue_size (rb_config w) \<noteq> 0 \<and>
                 resume_hi_queue (ctl w);
            w1 = (if hi then upd_head (\<lambda>h. h\<lparr>hi_queue_running := True\<rparr>) w else w);
            lo = \<not> lo_queue_running (head w1) \<and> resume_lo_queue (ctl w1);
            w2 = (if lo then upd_head (\<lambda>h. h\<lparr>lo_queue_running := True\<rparr>) w1 else w1)
        in (SEV_STATUS_SUCCESS, if hi \<or> lo then write_head w2 else w2))"

text \<open>The blocks "clear the internal interrupt trackers" and "check if interrupt clear has been
  written" of \<open>sev_rb_pre_cmd_process\<close>.\<close>

definition clear_trackers :: "rb_world \<Rightarrow> rb_world" where
  "clear_trackers w =
     upd_proc (\<lambda>p. p\<lparr>generate_cmd_done_int := False, generate_queue_empty_int := False,
                     generate_q_free_int := False, generate_q_pause_int := False\<rparr>) w"

definition clear_int_stats :: "rb_world \<Rightarrow> rb_world" where
  "clear_int_stats w =
     (if clear_int_bits (ctl w)
      then write_head (upd_head (\<lambda>h. h\<lparr>all_queue_empty_int_stat := False,
                                       cmd_done_int_stat := False,
                                       q_free_int_stat := False,
                                       q_paused_int_stat := False\<rparr>) w)
      else w)"


text \<open>
  \<open>sev_rb_generate_interrupt\<close>: whether it raises the interrupt, and its status. \<open>svc_ok\<close> is
  whether the boot loader call succeeds, \<open>aspt\<close> whether the boot loader version offers it.
\<close>

definition sev_rb_generate_interrupt :: "bool \<Rightarrow> bool \<Rightarrow> rb_world \<Rightarrow> sev_status \<times> bool" where
  "sev_rb_generate_interrupt aspt svc_ok w =
     (let generate_int = generate_cmd_done_int (proc w) \<or> generate_queue_empty_int (proc w) \<or>
                         generate_q_free_int (proc w) \<or> generate_q_pause_int (proc w)
      in if generate_int then
           if aspt then
             if \<not> svc_ok then (SEV_STATUS_INVALID_PARAM, False) else (SEV_STATUS_SUCCESS, True)
           else (SEV_STATUS_SUCCESS, True)
         else (SEV_STATUS_SUCCESS, False))"

definition sev_rb_post_cmd_process ::
  "(sev_status \<Rightarrow> u16) \<Rightarrow> sev_status \<Rightarrow> rb_world \<Rightarrow> sev_status \<Rightarrow> sev_status \<times> rb_world" where
  "sev_rb_post_cmd_process code mp w status_save =
     (let (status, w1) = sev_rb_save_status code mp True w status_save;
          continue_process =
            (if status_save \<noteq> SEV_STATUS_SUCCESS
             then cmd_flags (proc w1) AND SEV_RB_CMD_FLAG_CONT_ON_ERROR \<noteq> 0 else True);
          w2 =
            (if \<not> continue_process then
               upd_proc (\<lambda>p. p\<lparr>generate_q_pause_int := True\<rparr>)
                 (upd_head (\<lambda>h. if \<not> q_paused_int_stat h then h\<lparr>q_paused_int_stat := True\<rparr> else h)
                   (case queue_in_process (proc w1) of
                      HIGH_PRIORITY \<Rightarrow> upd_head (\<lambda>h. h\<lparr>hi_queue_running := False\<rparr>) w1
                    | LOW_PRIORITY \<Rightarrow> upd_head (\<lambda>h. h\<lparr>lo_queue_running := False\<rparr>) w1))
             else w1);
          w3 =
            (if cmd_flags (proc w2) AND SEV_RB_CMD_FLAG_INT_COMPLETE \<noteq> 0 then
               upd_proc (\<lambda>p. p\<lparr>generate_cmd_done_int := True\<rparr>)
                 (upd_head (\<lambda>h. if \<not> cmd_done_int_stat h then h\<lparr>cmd_done_int_stat := True\<rparr> else h) w2)
             else w2)
      in (status, write_head w3))"

section \<open>What the fetch depends on\<close>

text \<open>The part of the state that decides which command comes next; the rest are interrupt
  flags and the record of the command in process.\<close>

definition rb_view ::
  "rb_world \<Rightarrow> sev_rb_control_register \<times> sev_rb_tail \<times> u8 \<times> u8 \<times> bool \<times> bool \<times> sev_rb_config \<times>
     (u64 \<Rightarrow> sev_rb_cmd_ptr_entry)" where
  "rb_view w = (ctl w, tail w, hi_q_index (head w), lo_q_index (head w),
     hi_queue_running (head w), lo_queue_running (head w), rb_config w, cmd_mem w)"

lemma near_empty_view [simp]: "rb_view (near_empty_int a b c d w) = rb_view w"
  by (simp add: near_empty_int_def rb_view_def)

lemma hi_near_empty_view [simp]: "rb_view (hi_near_empty w) = rb_view w"
  by (simp add: hi_near_empty_def)

lemma lo_near_empty_view [simp]: "rb_view (lo_near_empty w) = rb_view w"
  by (simp add: lo_near_empty_def)


lemma clear_view [simp]:
  "rb_view (clear_trackers w) = rb_view w" "rb_view (clear_int_stats w) = rb_view w"
  by (simp_all add: clear_trackers_def clear_int_stats_def rb_view_def write_head_def)

lemma near_empty_fields [simp]:
  "tail (hi_near_empty w) = tail w" "hi_q_index (head (hi_near_empty w)) = hi_q_index (head w)"
  "lo_q_index (head (hi_near_empty w)) = lo_q_index (head w)"
  "tail (lo_near_empty w) = tail w" "lo_q_index (head (lo_near_empty w)) = lo_q_index (head w)"
  by (simp_all add: hi_near_empty_def lo_near_empty_def near_empty_int_def)

definition hi_ready :: "rb_world \<Rightarrow> bool" where
  "hi_ready w \<longleftrightarrow> \<not> resume_hi_queue (ctl w) \<and> hi_queue_running (head w) \<and>
     t_hi_q_index (tail w) \<noteq> hi_q_index (head w)"

definition lo_ready :: "rb_world \<Rightarrow> bool" where
  "lo_ready w \<longleftrightarrow> \<not> resume_lo_queue (ctl w) \<and> lo_queue_running (head w) \<and>
     t_lo_q_index (tail w) \<noteq> lo_q_index (head w)"

lemma select_spec:
  "fst (sev_rb_select w) =
     (if hi_ready w then Some HIGH_PRIORITY else if lo_ready w then Some LOW_PRIORITY else None)"
  "rb_view (snd (sev_rb_select w)) = rb_view w"
  by (auto simp: sev_rb_select_def hi_ready_def lo_ready_def hi_queue_paused_def
      low_queue_paused_def Let_def)

section \<open>Queue contents\<close>





text \<open>The explicit wrap of the head index is the wrap of the 8-bit field.\<close>

lemma head_advance:
  fixes h :: u8
  shows "ucast (if ucast h + 1 \<ge> SEV_RB_CMD_BUFFER_MAX_SIZE then 0 else (ucast h + 1 :: u32)) = h + 1"
proof (cases "h = 255")
  case True
  then show ?thesis by (simp add: SEV_RB_CMD_BUFFER_MAX_SIZE_def)
next
  case False
  have "unat h < 256" using unsigned_less [of h, where 'a = nat] by simp
  moreover have "unat h \<noteq> 255" using False by (simp add: word_unat_eq_iff)
  ultimately have b: "unat h + 1 < 256" by simp
  have u: "unat (ucast h + 1 :: u32) = unat h + 1"
    using b by (subst unat_add_no_wrap) simp_all
  then have "\<not> (ucast h + 1 :: u32) \<ge> SEV_RB_CMD_BUFFER_MAX_SIZE"
    using b by (simp add: SEV_RB_CMD_BUFFER_MAX_SIZE_def word_le_nat_alt)
  moreover have "unat (h + 1) = unat h + 1" using b by (subst unat_add_no_wrap) simp_all
  ultimately show ?thesis using u by (simp add: ucast_eq_of_unat)
qed

section \<open>One command through the ring buffer\<close>














definition head_index :: "sev_rb_queue_type \<Rightarrow> rb_world \<Rightarrow> u32" where
  "head_index q w = (case q of HIGH_PRIORITY \<Rightarrow> ucast (hi_q_index (head w))
                             | LOW_PRIORITY \<Rightarrow> ucast (lo_q_index (head w)))"





text \<open>Posting the status advances the head of the queue in process by one, modulo 256.\<close>

definition advance :: "sev_rb_queue_type \<Rightarrow> sev_rb_head \<Rightarrow> sev_rb_head" where
  "advance q h = (case q of HIGH_PRIORITY \<Rightarrow> h\<lparr>hi_q_index := hi_q_index h + 1\<rparr>
                          | LOW_PRIORITY \<Rightarrow> h\<lparr>lo_q_index := lo_q_index h + 1\<rparr>)"

definition post_entry :: "(sev_status \<Rightarrow> u16) \<Rightarrow> sev_status \<Rightarrow> rb_world \<Rightarrow> rb_world" where
  "post_entry code st w =
     (let a = entry_addr (case queue_in_process (proc w) of
                            HIGH_PRIORITY \<Rightarrow> status_ptr_high_priority_addr (rb_config w)
                          | LOW_PRIORITY \<Rightarrow> status_ptr_low_priority_addr (rb_config w))
                         (queue_index (proc w))
      in w\<lparr>status_mem := (status_mem w)
            (a := (status_mem w a)\<lparr>s_status := code st, s_error_stack := error_stack w\<rparr>)\<rparr>)"

lemma save_status_eq:
  assumes "queue_index (proc w) = head_index (queue_in_process (proc w)) w"
  shows "sev_rb_save_status code SEV_STATUS_SUCCESS True w st =
    (SEV_STATUS_SUCCESS, upd_head (advance (queue_in_process (proc w))) (post_entry code st w))"
  using assms
  by (cases "queue_in_process (proc w)")
     (simp_all add: sev_rb_save_status_def Let_def head_index_def post_entry_def advance_def
       head_advance)

lemma write_head_state [simp]:
  "rb_state (write_head w) = rb_state w" "rb_config (write_head w) = rb_config w"
  "cmd_mem (write_head w) = cmd_mem w" "status_mem (write_head w) = status_mem w"
  by (simp_all add: write_head_def)

lemma post_entry_state [simp]:
  "rb_state (post_entry code st w) = rb_state w" "rb_config (post_entry code st w) = rb_config w"
  "cmd_mem (post_entry code st w) = cmd_mem w"
  by (simp_all add: post_entry_def Let_def)









section \<open>An example ring buffer\<close>

text \<open>Two commands in the high priority queue (the second at index 0, past the wrap) and one in
  the low priority queue.\<close>

definition demo_entry :: "u16 \<Rightarrow> sev_rb_cmd_ptr_entry" where
  "demo_entry n = \<lparr>e_cmd_id = n, e_cmd_flags = 0, e_software_data = 0, e_cmd_buffer_ptr = 0x100000002\<rparr>"

definition demo_rb :: rb_world where
  "demo_rb = \<lparr>rb_state = \<lparr>x86_control = control_of_val 0xC0000000, x86_tail = tail_of_val 0x00010001,
       sev_head = head_of_val 0x08FF0800,
       process_state = \<lparr>queue_in_process = HIGH_PRIORITY, queue_index = 0, cmd_flags = 0,
         generate_queue_empty_int = False, generate_cmd_done_int = False,
         generate_q_pause_int = False, generate_q_free_int = False\<rparr>\<rparr>,
     rb_config = \<lparr>rb_enable = True, int_on_empty = True, cmd_ptr_low_priority_addr = 0x1000,
       cmd_ptr_high_priority_addr = 0x2000, status_ptr_low_priority_addr = 0x3000,
       status_ptr_high_priority_addr = 0x4000, low_queue_threshold = 0, high_queue_threshold = 4,
       low_priority_queue_size = 1, high_priority_queue_size = 1\<rparr>,
     cmd_mem = (\<lambda>_. demo_entry 0)(0x1000 := demo_entry 3, 0x2FF0 := demo_entry 1, 0x2000 := demo_entry 2),
     status_mem = (\<lambda>_. \<lparr>s_status = 0, s_reserved = 0, s_reserved2 = 0, s_error_stack = 0\<rparr>),
     reg_rb_sev_head = 0, error_stack = 0\<rparr>"


section \<open>Properties of the ring buffer\<close>



text \<open>
  The queue chosen is the high priority one exactly if it runs, is not being resumed and is
  not empty; else the low priority one under the same conditions; else none. Choosing changes
  no index, running flag or register image.
\<close>

theorem select_respects_priority_and_pauses:
  "fst (sev_rb_select w) =
     (if \<not> resume_hi_queue (ctl w) \<and> hi_queue_running (head w) \<and>
         t_hi_q_index (tail w) \<noteq> hi_q_index (head w) then Some HIGH_PRIORITY
      else if \<not> resume_lo_queue (ctl w) \<and> lo_queue_running (head w) \<and>
         t_lo_q_index (tail w) \<noteq> lo_q_index (head w) then Some LOW_PRIORITY else None) \<and>
   rb_view (snd (sev_rb_select w)) = rb_view w"
  by (simp add: select_spec hi_ready_def lo_ready_def)

text \<open>
  On 8-bit indices, the depth check computes the number of queued commands modulo 256 and
  compares it with the threshold; a threshold of 0 turns it off.
\<close>

theorem check_queue_depth_counts_modulo_256:
  fixes h t :: u8 and d :: u16
  shows "check_queue_depth (ucast h) (ucast t) (ucast d) \<longleftrightarrow> unat (t - h) < unat d"
proof -
  have b: "unat h < 256" "unat t < 256"
    using unsigned_less [of h, where 'a = nat] unsigned_less [of t, where 'a = nat] by simp_all
  have m: "unat (SEV_RB_CMD_BUFFER_MAX_SIZE) = 256" by (simp add: SEV_RB_CMD_BUFFER_MAX_SIZE_def)
  have d0: "(ucast d :: u32) = 0 \<longleftrightarrow> unat d = 0" by (simp add: word_unat_eq_iff)
  show ?thesis
  proof (cases "(ucast t :: u32) < ucast h")
    case True
    then have lt: "unat t < unat h" by (simp add: word_less_nat_alt)
    have s: "unat (ucast t + SEV_RB_CMD_BUFFER_MAX_SIZE) = unat t + 256"
      using b by (subst unat_add_no_wrap) (simp_all add: m)
    have "unat (ucast t + SEV_RB_CMD_BUFFER_MAX_SIZE - ucast h :: u32) = unat t + 256 - unat h"
      using s b by (subst unat_sub_no_wrap) (simp_all add: word_le_nat_alt)
    moreover have "unat (t - h) = unat t + 256 - unat h"
      using lt b by (simp add: unat_sub_if')
    ultimately show ?thesis
      using True d0 by (simp add: check_queue_depth_def Let_def word_less_nat_alt)
  next
    case False
    then have le: "unat h \<le> unat t" by (simp add: word_less_nat_alt)
    then have "unat (ucast t - ucast h :: u32) = unat t - unat h"
      by (subst unat_sub_no_wrap) (simp_all add: word_le_nat_alt)
    moreover have "unat (t - h) = unat t - unat h"
      using le by (subst unat_sub_no_wrap) (simp_all add: word_le_nat_alt)
    ultimately show ?thesis
      using False d0 by (simp add: check_queue_depth_def Let_def word_less_nat_alt)
  qed
qed

text \<open>
  A command that fails without the continue-on-error flag pauses its queue: the queue is
  not running afterwards, the pause interrupt is recorded, and no fetch selects that queue until
  the running bit is set again.
\<close>

theorem failed_command_pauses_queue:
  assumes "st \<noteq> SEV_STATUS_SUCCESS" and "cmd_flags (proc w) AND SEV_RB_CMD_FLAG_CONT_ON_ERROR = 0"
    and "queue_index (proc w) = head_index (queue_in_process (proc w)) w"
  shows "let w' = snd (sev_rb_post_cmd_process code SEV_STATUS_SUCCESS w st)
    in (case queue_in_process (proc w) of
          HIGH_PRIORITY \<Rightarrow> \<not> hi_queue_running (head w') \<and> hi_q_index (head w') = hi_q_index (head w) + 1
        | LOW_PRIORITY \<Rightarrow> \<not> lo_queue_running (head w') \<and> lo_q_index (head w') = lo_q_index (head w) + 1) \<and>
       q_paused_int_stat (head w') \<and> generate_q_pause_int (proc w') \<and>
       fst (sev_rb_select w') \<noteq> Some (queue_in_process (proc w))"
  using assms(1,2)
  by (cases "queue_in_process (proc w)")
     (simp_all add: sev_rb_post_cmd_process_def save_status_eq [OF assms(3)] Let_def select_spec
       hi_ready_def lo_ready_def advance_def)

definition demo_rb_busy :: rb_world where
  "demo_rb_busy = upd_proc (\<lambda>p. p\<lparr>queue_in_process := HIGH_PRIORITY, queue_index := 255\<rparr>) demo_rb"

theorem failed_command_pauses_queue_witness:
  "let w' = snd (sev_rb_post_cmd_process (\<lambda>_. 0) SEV_STATUS_SUCCESS demo_rb_busy SEV_STATUS_INVALID_GUEST)
   in (case HIGH_PRIORITY of
          HIGH_PRIORITY \<Rightarrow> \<not> hi_queue_running (head w') \<and> hi_q_index (head w') = hi_q_index (head demo_rb_busy) + 1
        | LOW_PRIORITY \<Rightarrow> \<not> lo_queue_running (head w') \<and> lo_q_index (head w') = lo_q_index (head demo_rb_busy) + 1) \<and>
       q_paused_int_stat (head w') \<and> generate_q_pause_int (proc w') \<and>
       fst (sev_rb_select w') \<noteq> Some HIGH_PRIORITY"
  using failed_command_pauses_queue [of SEV_STATUS_INVALID_GUEST demo_rb_busy "\<lambda>_. 0"]
  by (simp add: demo_rb_busy_def demo_rb_def head_index_def head_of_val_def)

text \<open>
  Recovery of a paused queue is a handshake. With the resume bit set the running bit comes
  back and is written to the mailbox, but the queue is selected only after the host has cleared
  the resume bit; the high priority queue recovers only if it has a size.
\<close>

theorem resume_handshake:
  assumes "\<not> hi_queue_running (head w)"
  shows "let w' = snd (sev_rb_pre_cmd_error_handling True w)
    in hi_queue_running (head w') = (high_priority_queue_size (rb_config w) \<noteq> 0 \<and> resume_hi_queue (ctl w)) \<and>
       fst (sev_rb_select w') \<noteq> Some HIGH_PRIORITY \<and>
       (hi_queue_running (head w') \<longrightarrow> reg_rb_sev_head w' = head_val (head w')) \<and>
       (\<forall>cr tr. hi_queue_running (head w') \<longrightarrow> \<not> resume_hi_queue (control_of_val cr) \<longrightarrow>
         t_hi_q_index (tail_of_val tr) \<noteq> hi_q_index (head w) \<longrightarrow>
         fst (sev_rb_select (sev_rb_copy_mailbox cr tr w')) = Some HIGH_PRIORITY)"
  using assms
  by (simp add: sev_rb_pre_cmd_error_handling_def Let_def select_spec hi_ready_def
      sev_rb_copy_mailbox_def write_head_def)

definition demo_rb_resume :: rb_world where
  "demo_rb_resume = upd_head (\<lambda>h. h\<lparr>hi_queue_running := False\<rparr>)
     (sev_rb_copy_mailbox 0xC0000200 0x00010001 demo_rb)"

lemma demo_rb_resume_fields:
  "\<not> hi_queue_running (head demo_rb_resume)" "resume_hi_queue (ctl demo_rb_resume)"
  "high_priority_queue_size (rb_config demo_rb_resume) = 1"
  "hi_q_index (head demo_rb_resume) = 255" "\<not> resume_hi_queue (control_of_val 0xC0000000)"
  "t_hi_q_index (tail_of_val 0x00010001) = 1"
  by (simp_all add: demo_rb_resume_def demo_rb_def control_of_val_def tail_of_val_def
      head_of_val_def sev_rb_copy_mailbox_def)

theorem resume_handshake_witness:
  "let w' = snd (sev_rb_pre_cmd_error_handling True demo_rb_resume)
   in hi_queue_running (head w') \<and> fst (sev_rb_select w') \<noteq> Some HIGH_PRIORITY \<and>
      fst (sev_rb_select (sev_rb_copy_mailbox 0xC0000000 0x00010001 w')) = Some HIGH_PRIORITY"
  using resume_handshake [OF demo_rb_resume_fields(1)] demo_rb_resume_fields
  by (auto simp only: Let_def) simp_all

text \<open>
  If the status page cannot be mapped, post-processing reports the error and leaves the head
  of the queue alone, so the command just executed is still the one at the head of its queue.
\<close>

theorem unmapped_status_page_keeps_command_queued:
  assumes "e \<noteq> SEV_STATUS_SUCCESS"
  shows "fst (sev_rb_post_cmd_process code e w SEV_STATUS_SUCCESS) = e \<and>
    rb_view (snd (sev_rb_post_cmd_process code e w SEV_STATUS_SUCCESS)) = rb_view w"
  using assms
  by (auto simp: sev_rb_post_cmd_process_def sev_rb_save_status_def Let_def rb_view_def)

theorem unmapped_status_page_keeps_command_queued_witness:
  "fst (sev_rb_post_cmd_process (\<lambda>_. 0) ERR_HAL_MEMORY_MAP demo_rb_busy SEV_STATUS_SUCCESS) =
      ERR_HAL_MEMORY_MAP \<and>
   rb_view (snd (sev_rb_post_cmd_process (\<lambda>_. 0) ERR_HAL_MEMORY_MAP demo_rb_busy SEV_STATUS_SUCCESS)) =
      rb_view demo_rb_busy"
  by (rule unmapped_status_page_keeps_command_queued) simp

lemma head_val_bit:
  "bit (head_val h) n \<longleftrightarrow> n < 32 \<and>
     (bit (lo_q_index h) n \<or> 8 \<le> n \<and> bit (h_reserved1 h) (n - 8) \<or>
      lo_queue_running h \<and> n = 11 \<or> 12 \<le> n \<and> bit (h_reserved2 h) (n - 12) \<or>
      16 \<le> n \<and> bit (hi_q_index h) (n - 16) \<or> 24 \<le> n \<and> bit (h_reserved h) (n - 24) \<or>
      hi_queue_running h \<and> n = 27 \<or> all_queue_empty_int_stat h \<and> n = 28 \<or>
      cmd_done_int_stat h \<and> n = 29 \<or> q_paused_int_stat h \<and> n = 30 \<or>
      q_free_int_stat h \<and> n = 31)"
  by (auto simp only: head_val_def register_bits)

lemma field_width:
  fixes x :: "'a::len word"
  shows "LENGTH('a) \<le> n \<Longrightarrow> \<not> bit x n"
  by (auto dest: bit_imp_le_length)

lemma head_val_fields:
  "ucast (head_val h) = lo_q_index h" "ucast (drop_bit 8 (head_val h)) = h_reserved1 h"
  "ucast (drop_bit 12 (head_val h)) = h_reserved2 h" "ucast (drop_bit 16 (head_val h)) = hi_q_index h"
  "ucast (drop_bit 24 (head_val h)) = h_reserved h"
  by (rule bit_word_eqI; auto simp: bit_ucast_iff bit_drop_bit_eq head_val_bit field_width)+

text \<open>
  The head register and its bit fields determine each other.
\<close>

theorem head_register_roundtrip:
  "head_of_val (head_val h) = h \<and> head_val (head_of_val v) = v"
proof
  show "head_of_val (head_val h) = h"
    by (simp add: head_of_val_def head_val_fields) (simp add: head_val_bit field_width)
next
  show "head_val (head_of_val v) = v"
  proof (rule bit_word_eqI)
    fix n assume "n < LENGTH(32)"
    then have n: "n < 32" by simp
    consider "n < 8" | "8 \<le> n" "n < 11" | "n = 11" | "12 \<le> n" "n < 16" | "16 \<le> n" "n < 24"
      | "24 \<le> n" "n < 27" | "n = 27" | "n = 28" | "n = 29" | "n = 30" | "n = 31"
      using n by linarith
    then show "bit (head_val (head_of_val v)) n = bit v n"
      by cases (use n in \<open>auto simp: head_val_bit head_of_val_def bit_ucast_iff bit_drop_bit_eq less_diff_conv2\<close>)
  qed
qed

end
