(* ===== verification/Sev_Cores.thy ===== *)
theory Sev_Cores
  imports Sev_Prelude
begin

text \<open>
  The registers of the x86 cores in the CPU TMR (\<open>sev_hal_interface.c\<close>): the INVALID_ASID bits
  that keep the hardware from running an ASID, the WBINVD_DONE flags, and the registers that
  have to agree on all cores.

  The topology of the machine (which dies, CCDs, complexes and cores are present) is a record;
  its constants that come from headers outside the repository (\<open>MAX_NUM_CORES_PER_CCX\<close>, the
  number of complexes of a CCD) are fields. The CPU TMR is byte-addressed memory. What the boot
  loader calls return (TMR lookup, mapping, unmapping) and the APIC id of a thread are fields
  of an environment record.
\<close>

section \<open>Topology\<close>

record topology =
  gTotalDieNum :: nat
  max_complexes :: nat
  cores_per_ccx :: nat
  cores_per_ccd_rsdn :: nat
  ccd_present :: "nat \<Rightarrow> u32"
  core_present :: "nat \<Rightarrow> nat \<Rightarrow> u16"
  ccx_present :: u32
  smt_enabled :: bool

text \<open>(die, ccd, complex)\<close>

type_synonym ccx = "nat \<times> nat \<times> nat"

definition MAX_CCDS :: nat where "MAX_CCDS = 16"
definition MAX_CCX_PER_SOCKET_SHIFT :: nat where "MAX_CCX_PER_SOCKET_SHIFT = 16"
definition THREADS_PER_CORE :: nat where "THREADS_PER_CORE = 2"
definition MAX_SEV_ASIDS :: nat where "MAX_SEV_ASIDS = 1006"

definition is_core_enabled :: "topology \<Rightarrow> nat \<Rightarrow> nat \<Rightarrow> nat \<Rightarrow> nat \<Rightarrow> bool" where
  "is_core_enabled T die ccd cx coreid =
     (if die \<ge> gTotalDieNum T \<or> ccd \<ge> MAX_CCDS \<or> coreid \<ge> cores_per_ccd_rsdn T then False
      else
        let coreid1 = (if cx = 1 \<and> coreid < cores_per_ccx T then coreid + cores_per_ccx T else coreid)
        in bit (core_present T die ccd) coreid1)"

text \<open>The three outer loops that every function of this file has, with the CCDs that are not
  available skipped.\<close>

definition all_ccxs :: "topology \<Rightarrow> ccx list" where
  "all_ccxs T =
     concat (map (\<lambda>die. concat (map (\<lambda>ccd.
       if bit (ccd_present T die) ccd then map (\<lambda>cx. (die, ccd, cx)) [0..<max_complexes T] else [])
       [0..<MAX_CCDS])) [0..<gTotalDieNum T])"

definition ccx_index :: "topology \<Rightarrow> ccx \<Rightarrow> nat" where
  "ccx_index T = (\<lambda>(die, ccd, cx). die * MAX_CCX_PER_SOCKET_SHIFT + ccd * max_complexes T + cx)"

definition ccd_bit :: "topology \<Rightarrow> ccx \<Rightarrow> u32" where
  "ccd_bit T x = push_bit (ccx_index T x) 1"

definition enabled_cores :: "topology \<Rightarrow> ccx \<Rightarrow> nat list" where
  "enabled_cores T = (\<lambda>(die, ccd, cx). filter (is_core_enabled T die ccd cx) [0..<cores_per_ccx T])"

section \<open>The CPU TMR\<close>

type_synonym bytes_mem = "u64 \<Rightarrow> u8"

definition read32 :: "bytes_mem \<Rightarrow> u64 \<Rightarrow> u32" where
  "read32 m a = ucast (m a) OR push_bit 8 (ucast (m (a + 1))) OR
     push_bit 16 (ucast (m (a + 2))) OR push_bit 24 (ucast (m (a + 3)))"

definition write32 :: "bytes_mem \<Rightarrow> u64 \<Rightarrow> u32 \<Rightarrow> bytes_mem" where
  "write32 m a v = m(a := ucast v, a + 1 := ucast (drop_bit 8 v), a + 2 := ucast (drop_bit 16 v),
     a + 3 := ucast (drop_bit 24 v))"

record tmr_env =
  tmr_status :: sev_status
  tmr_base :: u64
  tmr_limit :: u64
  map_status :: "u64 \<Rightarrow> sev_status"
  unmap_status :: "u64 \<Rightarrow> sev_status"
  apic_id_of :: "ccx \<Rightarrow> nat \<Rightarrow> nat \<Rightarrow> sev_status + u32" \<comment> \<open>\<open>get_apic_id\<close>: ccx, core, thread\<close>

definition CPU_TMR_RMP_BASE_ADDR_OFFSET :: u32 where "CPU_TMR_RMP_BASE_ADDR_OFFSET = 0x0"
definition CPU_TMR_RMP_END_ADDR_OFFSET :: u32 where "CPU_TMR_RMP_END_ADDR_OFFSET = 0x8"
definition CPU_TMR_WBINVD_DONE_T0_OFFSET :: u32 where "CPU_TMR_WBINVD_DONE_T0_OFFSET = 0x10"
definition CPU_TMR_WBINVD_DONE_T1_OFFSET :: u32 where "CPU_TMR_WBINVD_DONE_T1_OFFSET = 0x11"
definition CPU_TMR_SME_EN_OFFSET :: u32 where "CPU_TMR_SME_EN_OFFSET = 0x14"
definition CPU_TMR_VMPL_EN_OFFSET :: u32 where "CPU_TMR_VMPL_EN_OFFSET = 0x16"
definition CPU_TMR_SMKE_EN_OFFSET :: u32 where "CPU_TMR_SMKE_EN_OFFSET = 0x17"
definition CPU_TMR_UCODE_PATCH_LEVEL_OFFSET :: u32 where "CPU_TMR_UCODE_PATCH_LEVEL_OFFSET = 0x18"
definition CPU_TMR_VM_HSAVE_PA_OFFSET :: u32 where "CPU_TMR_VM_HSAVE_PA_OFFSET = 0x20"
definition CPU_TMR_SEV_ES_TMR_BASE :: u32 where "CPU_TMR_SEV_ES_TMR_BASE = 0x28"
definition CPU_TMR_INVALID_ASID0_OFFSET :: u64 where "CPU_TMR_INVALID_ASID0_OFFSET = 0x40"
definition CPU_TMR_THREAD_OFFSET :: u32 where "CPU_TMR_THREAD_OFFSET = 4096"
definition CPU_TMR_WBINVD_DONE_FLAG :: u32 where "CPU_TMR_WBINVD_DONE_FLAG = 1"
definition INVALID_ASID_BITS_PER_REG :: u32 where "INVALID_ASID_BITS_PER_REG = 32"
definition INVALID_ASID_REG_SIZE :: u32 where "INVALID_ASID_REG_SIZE = 4"

text \<open>The mask and the register number of an ASID.\<close>

definition asid_to_reg_mask :: "u32 \<Rightarrow> u32 \<times> u32" where
  "asid_to_reg_mask asid0 =
     (let asid = asid0 - 1;
          reg = asid div INVALID_ASID_BITS_PER_REG;
          mask_bit = asid - reg * INVALID_ASID_BITS_PER_REG
      in (push_bit (unat mask_bit) 1, reg))"

definition invalid_asid_address :: "tmr_env \<Rightarrow> u32 \<Rightarrow> u32 \<Rightarrow> u64" where
  "invalid_asid_address E apic_id asid =
     (if tmr_status E \<noteq> SEV_STATUS_SUCCESS then 0
      else tmr_base E + ucast (apic_id * CPU_TMR_THREAD_OFFSET) + CPU_TMR_INVALID_ASID0_OFFSET +
           ucast (snd (asid_to_reg_mask asid) * INVALID_ASID_REG_SIZE))"

text \<open>The threads of the requested and present CCXs, in the order of the loops.\<close>

definition asid_threads :: "topology \<Rightarrow> u32 \<Rightarrow> (ccx \<times> nat \<times> nat) list" where
  "asid_threads T ccd_mask =
     concat (map (\<lambda>x.
       if ccd_mask AND ccd_bit T x AND ccx_present T = 0 then []
       else concat (map (\<lambda>core. map (\<lambda>thread. (x, core, thread))
              [0..<(if smt_enabled T then THREADS_PER_CORE else 1)]) (enabled_cores T x)))
     (all_ccxs T))"

definition access_one_asid_reg ::
  "tmr_env \<Rightarrow> u32 \<Rightarrow> ccx \<times> nat \<times> nat \<Rightarrow> (u64 \<Rightarrow> bytes_mem \<Rightarrow> bytes_mem) \<Rightarrow> bytes_mem \<Rightarrow>
     sev_status \<times> bytes_mem" where
  "access_one_asid_reg E asid t act m =
     (case t of (x, core, thread) \<Rightarrow>
       (case apic_id_of E x core thread of
          Inl status \<Rightarrow> (status, m)
        | Inr apic_id \<Rightarrow>
            let a = invalid_asid_address E apic_id asid
            in if map_status E a \<noteq> SEV_STATUS_SUCCESS then (map_status E a, m)
               else (unmap_status E a, act a m)))"

text \<open>\<open>access_invalid_asid_regs\<close> with \<open>read\<close> set: the first thread is enough.\<close>

definition read_invalid_asid_reg ::
  "tmr_env \<Rightarrow> topology \<Rightarrow> u32 \<Rightarrow> u32 \<Rightarrow> u32 \<Rightarrow> bytes_mem \<Rightarrow> sev_status \<times> u32" where
  "read_invalid_asid_reg E T asid ccd_mask value m =
     (case asid_threads T ccd_mask of
        [] \<Rightarrow> (SEV_STATUS_SUCCESS, value)
      | (x, core, thread) # _ \<Rightarrow>
          (case apic_id_of E x core thread of
             Inl status \<Rightarrow> (status, value)
           | Inr apic_id \<Rightarrow>
               let a = invalid_asid_address E apic_id asid
               in if map_status E a \<noteq> SEV_STATUS_SUCCESS then (map_status E a, value)
                  else (unmap_status E a, read32 m a)))"

text \<open>\<open>access_invalid_asid_regs\<close> with \<open>read\<close> clear.\<close>

definition write_invalid_asid_reg ::
  "tmr_env \<Rightarrow> topology \<Rightarrow> u32 \<Rightarrow> u32 \<Rightarrow> u32 \<Rightarrow> bytes_mem \<Rightarrow> sev_status \<times> bytes_mem" where
  "write_invalid_asid_reg E T asid ccd_mask value m =
     iter_err (\<lambda>t. access_one_asid_reg E asid t (\<lambda>a m. write32 m a value)) (asid_threads T ccd_mask) m"

text \<open>One turn of the loop of \<open>mark_asid\<close>, on bit \<open>i\<close> of the mask; the state is the value last
  read and the memory.\<close>

definition mark_asid_bit ::
  "tmr_env \<Rightarrow> topology \<Rightarrow> u32 \<Rightarrow> u32 \<Rightarrow> bool \<Rightarrow> nat \<Rightarrow> u32 \<times> bytes_mem \<Rightarrow>
     sev_status \<times> u32 \<times> bytes_mem" where
  "mark_asid_bit E T asid ccd_mask set_valid i st =
     (let b = push_bit i 1 :: u32
      in if ccd_mask AND b AND ccx_present T = 0 then (SEV_STATUS_SUCCESS, st)
         else
           let (status, v) = read_invalid_asid_reg E T asid b (fst st) (snd st)
           in if status \<noteq> SEV_STATUS_SUCCESS then (status, v, snd st)
              else
                let v1 = (if set_valid then v AND NOT (fst (asid_to_reg_mask asid))
                          else v OR fst (asid_to_reg_mask asid));
                    (status, m') = write_invalid_asid_reg E T asid b v1 (snd st)
                in (status, v1, m'))"

text \<open>\<open>31 - __clz(v)\<close>: the position of the highest set bit of a nonzero word.\<close>

definition lastbit :: "u32 \<Rightarrow> nat" where
  "lastbit v = last (filter (bit v) [0..<32])"

definition mark_asid ::
  "tmr_env \<Rightarrow> topology \<Rightarrow> u32 \<Rightarrow> u32 \<Rightarrow> bool \<Rightarrow> bytes_mem \<Rightarrow> sev_status \<times> bytes_mem" where
  "mark_asid E T asid ccd_mask set_valid m =
     (if ccd_mask = 0 then (SEV_STATUS_SUCCESS, m)
      else case iter_err (mark_asid_bit E T asid ccd_mask set_valid) [0..<lastbit ccd_mask + 1] (0, m) of
             (status, _, m') \<Rightarrow> (status, m'))"

definition mark_asid_valid where "mark_asid_valid E T asid ccd_mask m = mark_asid E T asid ccd_mask True m"
definition mark_asid_invalid where "mark_asid_invalid E T asid ccd_mask m = mark_asid E T asid ccd_mask False m"

definition write_all_invalid_asid_regs ::
  "tmr_env \<Rightarrow> topology \<Rightarrow> nat \<Rightarrow> nat \<Rightarrow> bool \<Rightarrow> bytes_mem \<Rightarrow> sev_status \<times> bytes_mem" where
  "write_all_invalid_asid_regs E T max_ccds max_socket_num is_invalid m =
     (let value = (if is_invalid then 0xFFFFFFFF else 0);
          asids = map (\<lambda>k. of_nat (1 + 32 * k)) [0..<(MAX_SEV_ASIDS - 1 + 31) div 32]
      in iter_err (\<lambda>ccd m.
           let b = push_bit ccd 1 :: u32
           in if b AND ccx_present T = 0 then (SEV_STATUS_SUCCESS, m)
              else iter_err (\<lambda>asid m. write_invalid_asid_reg E T asid b value m) asids m)
         [0..<max_ccds * max_socket_num * max_complexes T] m)"

definition mark_all_asids_valid where
  "mark_all_asids_valid E T max_ccds max_socket_num m =
     write_all_invalid_asid_regs E T max_ccds max_socket_num False m"

definition mark_all_asids_invalid where
  "mark_all_asids_invalid E T max_ccds max_socket_num m =
     write_all_invalid_asid_regs E T max_ccds max_socket_num True m"

section \<open>Access to a core's registers\<close>

text \<open>\<open>access_cpu_tmr\<close>: reading gives the \<open>num_regs\<close> words, writing updates the memory. The
  counter of suppressed address checks it nests in is that of \<open>x86_copy.c\<close>.\<close>

definition cpu_tmr_address :: "tmr_env \<Rightarrow> u32 \<Rightarrow> u32 \<Rightarrow> sev_status + u64" where
  "cpu_tmr_address E apic_id offset =
     (if tmr_status E \<noteq> SEV_STATUS_SUCCESS then Inl (tmr_status E)
      else
        let a = tmr_base E + ucast (apic_id * CPU_TMR_THREAD_OFFSET) + ucast offset
        in if a > tmr_limit E then Inl ERR_INVALID_PARAMS
           else if map_status E a \<noteq> SEV_STATUS_SUCCESS then Inl (map_status E a)
           else Inr a)"

definition read_cpu_tmr ::
  "tmr_env \<Rightarrow> u32 \<Rightarrow> u32 \<Rightarrow> nat \<Rightarrow> bytes_mem \<Rightarrow> sev_status + u32 list" where
  "read_cpu_tmr E apic_id offset num_regs m =
     (case cpu_tmr_address E apic_id offset of
        Inl status \<Rightarrow> Inl status
      | Inr a \<Rightarrow>
          if unmap_status E a \<noteq> SEV_STATUS_SUCCESS then Inl (unmap_status E a)
          else Inr (map (\<lambda>i. read32 m (a + of_nat (4 * i))) [0..<num_regs]))"

definition write_cpu_tmr ::
  "tmr_env \<Rightarrow> u32 \<Rightarrow> u32 \<Rightarrow> u32 list \<Rightarrow> bytes_mem \<Rightarrow> sev_status \<times> bytes_mem" where
  "write_cpu_tmr E apic_id offset vals m =
     (case cpu_tmr_address E apic_id offset of
        Inl status \<Rightarrow> (status, m)
      | Inr a \<Rightarrow> (unmap_status E a,
          fold (\<lambda>i m. write32 m (a + of_nat (4 * i)) (vals ! i)) [0..<length vals] m))"

text \<open>One register of thread \<open>thread\<close> of a core.\<close>

definition read_thread ::
  "tmr_env \<Rightarrow> ccx \<Rightarrow> nat \<Rightarrow> nat \<Rightarrow> u32 \<Rightarrow> nat \<Rightarrow> bytes_mem \<Rightarrow> sev_status + u32 list" where
  "read_thread E x core thread offset num_regs m =
     (case apic_id_of E x core thread of
        Inl status \<Rightarrow> Inl status
      | Inr apic_id \<Rightarrow> read_cpu_tmr E apic_id offset num_regs m)"

definition all_cores :: "topology \<Rightarrow> (ccx \<times> nat) list" where
  "all_cores T = concat (map (\<lambda>x. map (\<lambda>core. (x, core)) (enabled_cores T x)) (all_ccxs T))"

definition is_enabled_all_cores ::
  "tmr_env \<Rightarrow> topology \<Rightarrow> u32 \<Rightarrow> u32 \<Rightarrow> bytes_mem \<Rightarrow> bool" where
  "is_enabled_all_cores E T tmr_offset bit_mask m =
     list_all (\<lambda>(x, core).
       case read_thread E x core 0 tmr_offset 1 m of
         Inl _ \<Rightarrow> False
       | Inr vs \<Rightarrow> hd vs AND bit_mask = bit_mask) (all_cores T)"

definition sme_is_enabled_all_cores where
  "sme_is_enabled_all_cores E T m = is_enabled_all_cores E T CPU_TMR_SME_EN_OFFSET 1 m"

definition vmpl_is_enabled_all_cores where
  "vmpl_is_enabled_all_cores E T m = is_enabled_all_cores E T CPU_TMR_VMPL_EN_OFFSET 1 m"

definition smke_is_enabled_all_cores where
  "smke_is_enabled_all_cores E T m = is_enabled_all_cores E T CPU_TMR_SMKE_EN_OFFSET 1 m"

section \<open>Registers that agree on all threads\<close>

text \<open>
  The comparison of one thread's registers with the values found so far (\<open>None\<close> before the
  first thread). Only the microcode patch level may differ: its minimum is kept, and the two
  steppings 0x0a1011xx and 0x0a1012xx count as the former.
\<close>

definition merge_reg ::
  "u32 \<Rightarrow> nat \<Rightarrow> u32 list \<Rightarrow> u32 list option \<Rightarrow> sev_status + u32 list" where
  "merge_reg tmr_offset num_regs cur acc =
     (case acc of
        None \<Rightarrow> Inr cur
      | Some vs \<Rightarrow>
          if cur ! 0 = vs ! 0 \<and> (num_regs = 1 \<or> cur ! 1 = vs ! 1) then Inr vs
          else if tmr_offset \<noteq> CPU_TMR_UCODE_PATCH_LEVEL_OFFSET \<or> num_regs = 2
          then Inl SEV_STATUS_INVALID_CONFIG
          else
            let c = cur ! 0; v = vs ! 0;
                part = (\<lambda>x :: u32. x AND 0xFFFFFF00);
                to_b1 = (\<lambda>x :: u32. (x AND NOT 0x00000200) OR 0x00000100);
                r = (if part c \<noteq> part v then
                       if part c = 0x0a101200 \<and> part v = 0x0a101100 then Some (to_b1 c, v)
                       else if part c = 0x0a101100 \<and> part v = 0x0a101200 then Some (c, to_b1 v)
                       else None
                     else Some (c, v))
            in (case r of
                  None \<Rightarrow> Inl SEV_STATUS_INVALID_CONFIG
                | Some (c', v') \<Rightarrow> Inr [if c' < v' then c' else v']))"

definition reg_threads :: "topology \<Rightarrow> bool \<Rightarrow> (ccx \<times> nat \<times> nat) list" where
  "reg_threads T per_thread =
     concat (map (\<lambda>(x, core). map (\<lambda>thread. (x, core, thread))
       [0..<(if per_thread \<and> smt_enabled T then THREADS_PER_CORE else 1)]) (all_cores T))"

definition get_reg_all_threads ::
  "tmr_env \<Rightarrow> topology \<Rightarrow> u32 \<Rightarrow> nat \<Rightarrow> bool \<Rightarrow> bytes_mem \<Rightarrow> sev_status + u32 list" where
  "get_reg_all_threads E T tmr_offset num_regs per_thread m =
     (if num_regs \<noteq> 1 \<and> num_regs \<noteq> 2 then Inl ERR_INVALID_PARAMS
      else case iter_err (\<lambda>(x, core, thread) acc.
                  case read_thread E x core thread tmr_offset num_regs m of
                    Inl status \<Rightarrow> (status, acc)
                  | Inr cur \<Rightarrow>
                      (case merge_reg tmr_offset num_regs cur acc of
                         Inl status \<Rightarrow> (status, acc)
                       | Inr vs \<Rightarrow> (SEV_STATUS_SUCCESS, Some vs)))
                (reg_threads T per_thread) None of
             (status, acc) \<Rightarrow>
               if status \<noteq> SEV_STATUS_SUCCESS then Inl status
               else Inr (case acc of Some vs \<Rightarrow> vs | None \<Rightarrow> replicate num_regs 0))"

definition write_regs_all_threads ::
  "tmr_env \<Rightarrow> topology \<Rightarrow> u32 \<Rightarrow> u32 list \<Rightarrow> bytes_mem \<Rightarrow> sev_status \<times> bytes_mem" where
  "write_regs_all_threads E T tmr_offset vals m =
     iter_err (\<lambda>(x, core, thread) m.
       case apic_id_of E x core thread of
         Inl status \<Rightarrow> (status, m)
       | Inr apic_id \<Rightarrow> write_cpu_tmr E apic_id tmr_offset vals m) (reg_threads T True) m"

text \<open>A 64-bit register is two words, low word first. The out parameters of \<open>get_rmp_base_end\<close>
  keep their values on an error.\<close>

definition words_to_u64 :: "u32 list \<Rightarrow> u64" where
  "words_to_u64 vs = ucast (vs ! 0) OR push_bit 32 (ucast (vs ! 1))"

definition get_rmp_base_end ::
  "tmr_env \<Rightarrow> topology \<Rightarrow> u64 \<times> u64 \<Rightarrow> bytes_mem \<Rightarrow> sev_status \<times> u64 \<times> u64" where
  "get_rmp_base_end E T old m =
     (case get_reg_all_threads E T CPU_TMR_RMP_BASE_ADDR_OFFSET 2 False m of
        Inl status \<Rightarrow> (status, old)
      | Inr b \<Rightarrow>
          (case get_reg_all_threads E T CPU_TMR_RMP_END_ADDR_OFFSET 2 False m of
             Inl status \<Rightarrow> (status, words_to_u64 b, snd old)
           | Inr e \<Rightarrow> (SEV_STATUS_SUCCESS, words_to_u64 b, words_to_u64 e)))"

definition retrieve_microcode_patch_level :: "tmr_env \<Rightarrow> topology \<Rightarrow> bytes_mem \<Rightarrow> u32" where
  "retrieve_microcode_patch_level E T m =
     (case get_reg_all_threads E T CPU_TMR_UCODE_PATCH_LEVEL_OFFSET 1 False m of
        Inl _ \<Rightarrow> 0 | Inr vs \<Rightarrow> hd vs)"

definition vm_hsave_pa_cleared_all_cores :: "tmr_env \<Rightarrow> topology \<Rightarrow> bytes_mem \<Rightarrow> bool" where
  "vm_hsave_pa_cleared_all_cores E T m =
     (case get_reg_all_threads E T CPU_TMR_VM_HSAVE_PA_OFFSET 2 True m of
        Inl _ \<Rightarrow> False | Inr vs \<Rightarrow> words_to_u64 vs = 0)"

definition write_sev_es_tmr_address_to_all_cores ::
  "tmr_env \<Rightarrow> topology \<Rightarrow> u64 \<Rightarrow> bytes_mem \<Rightarrow> sev_status \<times> bytes_mem" where
  "write_sev_es_tmr_address_to_all_cores E T value m =
     write_regs_all_threads E T CPU_TMR_SEV_ES_TMR_BASE [ucast value, ucast (drop_bit 32 value)] m"

section \<open>WBINVD tracking\<close>

text \<open>Whether a core has executed WBINVD on its thread 0 and, with SMT, on thread 1.\<close>

definition core_wbinvd_done ::
  "tmr_env \<Rightarrow> topology \<Rightarrow> ccx \<Rightarrow> nat \<Rightarrow> bytes_mem \<Rightarrow> sev_status + bool" where
  "core_wbinvd_done E T x core m =
     (case apic_id_of E x core 0 of
        Inl status \<Rightarrow> Inl status
      | Inr apic_id \<Rightarrow>
          (case read_cpu_tmr E apic_id CPU_TMR_WBINVD_DONE_T0_OFFSET 1 m of
             Inl status \<Rightarrow> Inl status
           | Inr t0 \<Rightarrow>
               (case read_cpu_tmr E apic_id CPU_TMR_WBINVD_DONE_T1_OFFSET 1 m of
                  Inl status \<Rightarrow> Inl status
                | Inr t1 \<Rightarrow>
                    let flag = (\<lambda>vs. hd vs AND CPU_TMR_WBINVD_DONE_FLAG = CPU_TMR_WBINVD_DONE_FLAG)
                    in Inr (flag t0 \<and> (smt_enabled T \<longrightarrow> flag t1)))))"

text \<open>The loop over the cores of one CCX, on the state (\<open>is_done\<close>, \<open>ccds_done\<close>): the \<open>break\<close> on a
  core that is not done leaves it.\<close>

fun wbinvd_cores ::
  "(nat \<Rightarrow> sev_status + bool) \<Rightarrow> u32 \<Rightarrow> nat list \<Rightarrow> bool \<times> u32 \<Rightarrow> sev_status \<times> bool \<times> u32" where
  "wbinvd_cores dn b [] st = (SEV_STATUS_SUCCESS, st)"
| "wbinvd_cores dn b (core # cores) (is_done, ccds_done) =
     (case dn core of
        Inl status \<Rightarrow> (status, is_done, ccds_done)
      | Inr result \<Rightarrow>
          if result then wbinvd_cores dn b cores (is_done, ccds_done OR b)
          else (SEV_STATUS_SUCCESS, False, ccds_done))"

definition is_wbinvd_done ::
  "tmr_env \<Rightarrow> topology \<Rightarrow> bytes_mem \<Rightarrow> sev_status \<times> bool \<times> u32" where
  "is_wbinvd_done E T m =
     iter_err (\<lambda>x. wbinvd_cores (\<lambda>core. core_wbinvd_done E T x core m) (ccd_bit T x)
                    (enabled_cores T x))
       (all_ccxs T) (True, 0)"

text \<open>Clearing both flags writes back the word at the T0 flag, whose second byte is the T1 flag.\<close>

definition clear_wbinvd_core ::
  "tmr_env \<Rightarrow> ccx \<times> nat \<Rightarrow> bytes_mem \<Rightarrow> sev_status \<times> bytes_mem" where
  "clear_wbinvd_core E xc m =
     (case apic_id_of E (fst xc) (snd xc) 0 of
        Inl status \<Rightarrow> (status, m)
      | Inr apic_id \<Rightarrow>
          (case read_cpu_tmr E apic_id CPU_TMR_WBINVD_DONE_T0_OFFSET 1 m of
             Inl status \<Rightarrow> (status, m)
           | Inr vs \<Rightarrow>
               write_cpu_tmr E apic_id CPU_TMR_WBINVD_DONE_T0_OFFSET
                 [hd vs AND NOT 1 AND NOT 0x100] m))"

definition clear_wbinvd_done ::
  "tmr_env \<Rightarrow> topology \<Rightarrow> u32 \<Rightarrow> bytes_mem \<Rightarrow> sev_status \<times> bytes_mem" where
  "clear_wbinvd_done E T ccd_mask m =
     iter_err (clear_wbinvd_core E)
       (concat (map (\<lambda>x. if ccd_mask AND ccd_bit T x = 0 then []
                         else map (\<lambda>core. (x, core)) (enabled_cores T x)) (all_ccxs T))) m"

section \<open>What the WBINVD scan reports\<close>

lemma wbinvd_cores_spec:
  assumes "\<And>c. c \<in> set cores \<Longrightarrow> dn c = Inr (d c)"
  shows "wbinvd_cores dn b cores (i, c) = (SEV_STATUS_SUCCESS, i \<and> list_all d cores,
    c OR (if cores \<noteq> [] \<and> d (hd cores) then b else 0))"
  using assms
proof (induction cores arbitrary: i c)
  case Nil
  then show ?case by simp
next
  case (Cons x xs)
  then have "dn x = Inr (d x)" and IH: "\<And>i c. wbinvd_cores dn b xs (i, c) =
      (SEV_STATUS_SUCCESS, i \<and> list_all d xs, c OR (if xs \<noteq> [] \<and> d (hd xs) then b else 0))"
    by simp_all
  then show ?case by (auto simp: or.assoc)
qed

text \<open>\<open>d x core\<close> says whether the core has executed WBINVD.\<close>

definition wbinvd_known ::
  "tmr_env \<Rightarrow> topology \<Rightarrow> bytes_mem \<Rightarrow> (ccx \<Rightarrow> nat \<Rightarrow> bool) \<Rightarrow> bool" where
  "wbinvd_known E T m d \<longleftrightarrow>
     (\<forall>x \<in> set (all_ccxs T). \<forall>core \<in> set (enabled_cores T x).
        core_wbinvd_done E T x core m = Inr (d x core))"

definition first_core_done :: "topology \<Rightarrow> (ccx \<Rightarrow> nat \<Rightarrow> bool) \<Rightarrow> ccx \<Rightarrow> bool" where
  "first_core_done T d x \<longleftrightarrow> enabled_cores T x \<noteq> [] \<and> d x (hd (enabled_cores T x))"

lemma wbinvd_scan:
  assumes "\<forall>x \<in> set xs. \<forall>core \<in> set (enabled_cores T x). dn x core = Inr (d x core)"
  shows "iter_err (\<lambda>x. wbinvd_cores (dn x) (ccd_bit T x) (enabled_cores T x)) xs (i, c) =
    (SEV_STATUS_SUCCESS, i \<and> list_all (\<lambda>x. list_all (d x) (enabled_cores T x)) xs,
     c OR fold (\<lambda>x acc. acc OR (if first_core_done T d x then ccd_bit T x else 0)) xs 0)"
  using assms
proof (induction xs arbitrary: i c)
  case Nil
  then show ?case by simp
next
  case (Cons x xs)
  let ?f = "\<lambda>x acc. acc OR (if first_core_done T d x then ccd_bit T x else 0)"
  have fold_or: "fold ?f ys (e :: u32) = e OR fold ?f ys 0" for ys e
  proof (induction ys arbitrary: e)
    case (Cons y ys)
    show ?case using Cons [of "?f y e"] Cons [of "?f y 0"] by (simp add: or.assoc)
  qed simp
  have one: "wbinvd_cores (dn x) (ccd_bit T x) (enabled_cores T x) (i, c) =
      (SEV_STATUS_SUCCESS, i \<and> list_all (d x) (enabled_cores T x), ?f x c)"
    using Cons.prems by (subst wbinvd_cores_spec [where d = "d x"]) (auto simp: first_core_done_def)
  show ?case
    using Cons.IH [of "i \<and> list_all (d x) (enabled_cores T x)" "?f x c"] Cons.prems
      fold_or [of xs "?f x 0"]
    by (simp add: one or.assoc)
qed

lemma fold_or_bit:
  "bit (fold (\<lambda>x acc. acc OR (if P x then f x else 0)) xs (e :: u32)) n \<longleftrightarrow>
     bit e n \<or> (\<exists>x \<in> set xs. P x \<and> bit (f x) n)"
  by (induction xs arbitrary: e) (auto simp: bit_or_iff)

lemma ccd_bit_iff: "bit (ccd_bit T x) n \<longleftrightarrow> n = ccx_index T x \<and> n < 32"
  by (auto simp: ccd_bit_def bit_simps)

section \<open>Merging the registers of the threads\<close>

text \<open>With one register that is not the microcode level, or with two, the merge succeeds only on
  equal values.\<close>

lemma merge_strict:
  assumes "tmr_offset \<noteq> CPU_TMR_UCODE_PATCH_LEVEL_OFFSET \<or> num_regs = 2"
    and "length cur = num_regs" and "length vs = num_regs" and "num_regs = 1 \<or> num_regs = 2"
  shows "merge_reg tmr_offset num_regs cur (Some vs) =
    (if cur = vs then Inr vs else Inl SEV_STATUS_INVALID_CONFIG)"
  using assms
  by (cases cur; cases vs; cases "tl cur"; cases "tl vs") (auto simp: merge_reg_def)

lemma read_thread_length:
  "read_thread E x core thread offset n m = Inr vs \<Longrightarrow> length vs = n"
  by (auto simp: read_thread_def read_cpu_tmr_def split: sum.splits if_splits)

definition reg_step ::
  "tmr_env \<Rightarrow> u32 \<Rightarrow> nat \<Rightarrow> bytes_mem \<Rightarrow> ccx \<times> nat \<times> nat \<Rightarrow> u32 list option \<Rightarrow>
     sev_status \<times> u32 list option" where
  "reg_step E tmr_offset num_regs m = (\<lambda>(x, core, thread) acc.
     case read_thread E x core thread tmr_offset num_regs m of
       Inl status \<Rightarrow> (status, acc)
     | Inr cur \<Rightarrow>
         (case merge_reg tmr_offset num_regs cur acc of
            Inl status \<Rightarrow> (status, acc)
          | Inr vs \<Rightarrow> (SEV_STATUS_SUCCESS, Some vs)))"

definition thread_reads ::
  "tmr_env \<Rightarrow> u32 \<Rightarrow> nat \<Rightarrow> bytes_mem \<Rightarrow> u32 list \<Rightarrow> ccx \<times> nat \<times> nat \<Rightarrow> bool" where
  "thread_reads E off n m vs = (\<lambda>(x, core, thread). read_thread E x core thread off n m = Inr vs)"

text \<open>An error reported as success cannot come out of a merge or a read that fails.\<close>

definition env_honest :: "tmr_env \<Rightarrow> bool" where
  "env_honest E \<longleftrightarrow> (\<forall>x core thread. apic_id_of E x core thread \<noteq> Inl SEV_STATUS_SUCCESS)"

lemma read_thread_not_success:
  "env_honest E \<Longrightarrow> read_thread E x core thread off n m \<noteq> Inl SEV_STATUS_SUCCESS"
  by (cases x) (auto simp: env_honest_def read_thread_def read_cpu_tmr_def cpu_tmr_address_def
      Let_def split: sum.splits if_splits)

lemma reg_step_some:
  assumes "env_honest E" and "off \<noteq> CPU_TMR_UCODE_PATCH_LEVEL_OFFSET \<or> n = 2"
    and "n = 1 \<or> n = 2" and "length vs = n"
    and "reg_step E off n m t (Some vs) = (SEV_STATUS_SUCCESS, acc)"
  shows "acc = Some vs \<and> thread_reads E off n m vs t"
proof -
  obtain x core thread where t: "t = (x, core, thread)" by (cases t) auto
  from assms(5) t read_thread_not_success [OF assms(1), of x core thread off n m]
  obtain cur where cur: "read_thread E x core thread off n m = Inr cur"
    by (cases "read_thread E x core thread off n m") (auto simp: reg_step_def)
  from merge_strict [OF assms(2) read_thread_length [OF cur] assms(4,3)] assms(5) t cur
  show ?thesis by (auto simp: reg_step_def thread_reads_def split: if_splits)
qed

lemma reg_steps_some:
  assumes "env_honest E" and "off \<noteq> CPU_TMR_UCODE_PATCH_LEVEL_OFFSET \<or> n = 2"
    and "n = 1 \<or> n = 2" and "length vs = n"
    and "iter_err (reg_step E off n m) ts (Some vs) = (SEV_STATUS_SUCCESS, acc)"
  shows "acc = Some vs \<and> list_all (thread_reads E off n m vs) ts"
  using assms(5)
proof (induction ts)
  case Nil
  then show ?case by simp
next
  case (Cons t ts)
  obtain st a where one: "reg_step E off n m t (Some vs) = (st, a)"
    by (cases "reg_step E off n m t (Some vs)")
  with Cons.prems have "st = SEV_STATUS_SUCCESS" by (auto split: if_splits)
  with reg_step_some [OF assms(1-4)] one have "a = Some vs" "thread_reads E off n m vs t" by auto
  with Cons one show ?case by (auto split: if_splits)
qed

lemma get_reg_agrees:
  assumes "env_honest E" and "off \<noteq> CPU_TMR_UCODE_PATCH_LEVEL_OFFSET \<or> n = 2"
    and "get_reg_all_threads E T off n per m = Inr vs" and "reg_threads T per \<noteq> []"
  shows "list_all (thread_reads E off n m vs) (reg_threads T per)"
proof -
  obtain t ts where ts: "reg_threads T per = t # ts" using assms(4) by (cases "reg_threads T per") auto
  from assms(3) have n: "n = 1 \<or> n = 2" by (auto simp: get_reg_all_threads_def split: if_splits)
  obtain st acc where it: "iter_err (reg_step E off n m) (t # ts) None = (st, acc)"
    by (cases "iter_err (reg_step E off n m) (t # ts) None")
  then have it': "iter_err (\<lambda>(x, core, thread) acc.
       case read_thread E x core thread off n m of
         Inl status \<Rightarrow> (status, acc)
       | Inr cur \<Rightarrow>
           (case merge_reg off n cur acc of
              Inl status \<Rightarrow> (status, acc)
            | Inr vs \<Rightarrow> (SEV_STATUS_SUCCESS, Some vs))) (t # ts) None = (st, acc)"
    by (simp only: reg_step_def)
  from assms(3) n ts it' have st: "st = SEV_STATUS_SUCCESS"
    and vs: "vs = (case acc of Some vs \<Rightarrow> vs | None \<Rightarrow> replicate n 0)"
    by (auto simp: get_reg_all_threads_def simp del: iter_err.simps split: if_splits)
  obtain x core thread where t: "t = (x, core, thread)" by (cases t) auto
  obtain s1 a1 where one: "reg_step E off n m t None = (s1, a1)" by (cases "reg_step E off n m t None")
  with it st have s1: "s1 = SEV_STATUS_SUCCESS" by (auto split: if_splits)
  with one t read_thread_not_success [OF assms(1), of x core thread off n m]
  obtain cur where cur: "read_thread E x core thread off n m = Inr cur" and a1: "a1 = Some cur"
    by (cases "read_thread E x core thread off n m") (auto simp: reg_step_def merge_reg_def)
  from it one s1 a1 st have "iter_err (reg_step E off n m) ts (Some cur) = (SEV_STATUS_SUCCESS, acc)"
    by simp
  from reg_steps_some [OF assms(1,2) n read_thread_length [OF cur] this] vs ts t cur
  show ?thesis by (simp add: thread_reads_def)
qed

definition demo_topology :: topology where
  "demo_topology = \<lparr>gTotalDieNum = 1, max_complexes = 1, cores_per_ccx = 2, cores_per_ccd_rsdn = 16,
     ccd_present = (\<lambda>_. 1), core_present = (\<lambda>_ _. 3), ccx_present = 1, smt_enabled = False\<rparr>"

text \<open>Core \<open>c\<close> has APIC id \<open>c\<close>; the CPU TMR starts at 0x10000.\<close>

definition demo_env :: tmr_env where
  "demo_env = \<lparr>tmr_status = SEV_STATUS_SUCCESS, tmr_base = 0x10000, tmr_limit = 0x20000,
     map_status = (\<lambda>_. SEV_STATUS_SUCCESS), unmap_status = (\<lambda>_. SEV_STATUS_SUCCESS),
     apic_id_of = (\<lambda>_ core _. Inr (of_nat core))\<rparr>"

text \<open>Core 0 has executed WBINVD, core 1 has not.\<close>

definition demo_tmr :: bytes_mem where
  "demo_tmr = (\<lambda>_. 0)(0x10010 := 1)"

lemma demo_ccxs: "all_ccxs demo_topology = [(0, 0, 0)]"
  by (simp add: all_ccxs_def demo_topology_def MAX_CCDS_def upt_rec bit_iff_odd)

lemma demo_cores: "enabled_cores demo_topology (0, 0, 0) = [0, 1]"
  by (simp add: enabled_cores_def demo_topology_def is_core_enabled_def MAX_CCDS_def upt_rec
      bit_iff_odd)

lemma demo_smt: "\<not> smt_enabled demo_topology"
  by (simp add: demo_topology_def)

lemmas demo_tmr_simps = core_wbinvd_done_def demo_env_def read_cpu_tmr_def cpu_tmr_address_def
  CPU_TMR_THREAD_OFFSET_def CPU_TMR_WBINVD_DONE_T0_OFFSET_def CPU_TMR_WBINVD_DONE_T1_OFFSET_def
  CPU_TMR_WBINVD_DONE_FLAG_def read32_def demo_tmr_def Let_def demo_smt

lemma demo_core_0: "core_wbinvd_done demo_env demo_topology x 0 demo_tmr = Inr True"
  by (simp add: demo_tmr_simps)

lemma demo_core_1: "core_wbinvd_done demo_env demo_topology x (Suc 0) demo_tmr = Inr False"
  by (simp add: demo_tmr_simps)

lemma demo_wbinvd:
  "wbinvd_known demo_env demo_topology demo_tmr (\<lambda>x core. core = 0)"
  by (simp add: wbinvd_known_def demo_ccxs demo_cores demo_core_0 demo_core_1)

section \<open>Properties\<close>

text \<open>
  When every register can be read, the WBINVD scan returns success; its overall flag says
  exactly whether all enabled cores have executed WBINVD; and its mask has the bit of a CCX
  exactly if the FIRST enabled core of the CCX has done so.
\<close>

theorem wbinvd_scan_report:
  assumes "wbinvd_known E T m d"
  shows "\<exists>mask. is_wbinvd_done E T m =
      (SEV_STATUS_SUCCESS, (\<forall>x \<in> set (all_ccxs T). \<forall>c \<in> set (enabled_cores T x). d x c), mask) \<and>
    (\<forall>n. bit mask n \<longleftrightarrow> n < 32 \<and> (\<exists>x \<in> set (all_ccxs T). ccx_index T x = n \<and>
       enabled_cores T x \<noteq> [] \<and> d x (hd (enabled_cores T x))))"
proof -
  let ?mask = "fold (\<lambda>x acc. acc OR (if first_core_done T d x then ccd_bit T x else 0)) (all_ccxs T) 0"
  have "is_wbinvd_done E T m = (SEV_STATUS_SUCCESS,
      list_all (\<lambda>x. list_all (d x) (enabled_cores T x)) (all_ccxs T), ?mask)"
    unfolding is_wbinvd_done_def
    by (subst wbinvd_scan [where d = d]) (use assms in \<open>auto simp: wbinvd_known_def\<close>)
  moreover have "bit ?mask n \<longleftrightarrow> n < 32 \<and> (\<exists>x \<in> set (all_ccxs T). ccx_index T x = n \<and>
       enabled_cores T x \<noteq> [] \<and> d x (hd (enabled_cores T x)))" for n
    by (auto simp: fold_or_bit ccd_bit_iff first_core_done_def)
  ultimately show ?thesis by (simp add: list_all_iff)
qed

theorem wbinvd_scan_report_witness:
  "\<exists>mask. is_wbinvd_done demo_env demo_topology demo_tmr = (SEV_STATUS_SUCCESS, False, mask) \<and> bit mask 0"
  using wbinvd_scan_report [OF demo_wbinvd]
  by (auto simp: demo_ccxs demo_cores ccx_index_def)

text \<open>
  When \<open>get_rmp_base_end\<close> succeeds, the bounds it returns are what every enabled core has in
  its RMP_BASE and RMP_END registers.
\<close>

theorem rmp_bounds_agree_on_all_cores:
  assumes "env_honest E" and "get_rmp_base_end E T old m = (SEV_STATUS_SUCCESS, base, limit)"
    and "(x, core, thread) \<in> set (reg_threads T False)"
  shows "\<exists>b e. read_thread E x core thread CPU_TMR_RMP_BASE_ADDR_OFFSET 2 m = Inr b \<and>
      words_to_u64 b = base \<and>
    read_thread E x core thread CPU_TMR_RMP_END_ADDR_OFFSET 2 m = Inr e \<and> words_to_u64 e = limit"
proof -
  have n2: "off \<noteq> CPU_TMR_UCODE_PATCH_LEVEL_OFFSET \<or> (2 :: nat) = 2" for off by simp
  have ne: "reg_threads T False \<noteq> []" using assms(3) by auto
  have fails: "get_reg_all_threads E T off 2 False m \<noteq> Inl SEV_STATUS_SUCCESS" for off
    by (auto simp: get_reg_all_threads_def split: prod.splits if_splits)
  from assms(2) fails obtain b e where
    be: "get_reg_all_threads E T CPU_TMR_RMP_BASE_ADDR_OFFSET 2 False m = Inr b"
      "get_reg_all_threads E T CPU_TMR_RMP_END_ADDR_OFFSET 2 False m = Inr e"
      "words_to_u64 b = base" "words_to_u64 e = limit"
    by (auto simp: get_rmp_base_end_def split: sum.splits)
  from get_reg_agrees [OF assms(1) n2 be(1) ne] get_reg_agrees [OF assms(1) n2 be(2) ne] be(3,4) assms(3)
  show ?thesis by (fastforce simp: list_all_iff thread_reads_def)
qed

text \<open>The RMP from 0x100000 to 0x1FFFFF, on both cores.\<close>

definition demo_rmp_tmr :: bytes_mem where
  "demo_rmp_tmr = (\<lambda>_. 0)(0x10002 := 0x10, 0x10008 := 0xFF, 0x10009 := 0xFF, 0x1000A := 0x1F,
     0x11002 := 0x10, 0x11008 := 0xFF, 0x11009 := 0xFF, 0x1100A := 0x1F)"

lemma demo_reg_threads: "reg_threads demo_topology False = [((0, 0, 0), 0, 0), ((0, 0, 0), 1, 0)]"
  by (simp add: reg_threads_def all_cores_def demo_ccxs demo_cores upt_rec)

lemma demo_rmp_reads:
  "read_thread demo_env x 0 0 CPU_TMR_RMP_BASE_ADDR_OFFSET 2 demo_rmp_tmr = Inr [0x100000, 0]"
  "read_thread demo_env x (Suc 0) 0 CPU_TMR_RMP_BASE_ADDR_OFFSET 2 demo_rmp_tmr = Inr [0x100000, 0]"
  "read_thread demo_env x 0 0 CPU_TMR_RMP_END_ADDR_OFFSET 2 demo_rmp_tmr = Inr [0x1FFFFF, 0]"
  "read_thread demo_env x (Suc 0) 0 CPU_TMR_RMP_END_ADDR_OFFSET 2 demo_rmp_tmr = Inr [0x1FFFFF, 0]"
  by (simp_all add: read_thread_def read_cpu_tmr_def cpu_tmr_address_def demo_env_def Let_def
      CPU_TMR_THREAD_OFFSET_def CPU_TMR_RMP_BASE_ADDR_OFFSET_def CPU_TMR_RMP_END_ADDR_OFFSET_def
      read32_def demo_rmp_tmr_def upt_rec)

lemma demo_rmp_bounds:
  "get_rmp_base_end demo_env demo_topology (0, 0) demo_rmp_tmr = (SEV_STATUS_SUCCESS, 0x100000, 0x1FFFFF)"
  by (simp add: get_rmp_base_end_def get_reg_all_threads_def demo_reg_threads demo_rmp_reads
      merge_reg_def words_to_u64_def)

theorem rmp_bounds_agree_on_all_cores_witness:
  "\<exists>b e. read_thread demo_env (0, 0, 0) 1 0 CPU_TMR_RMP_BASE_ADDR_OFFSET 2 demo_rmp_tmr = Inr b \<and>
      words_to_u64 b = 0x100000 \<and>
    read_thread demo_env (0, 0, 0) 1 0 CPU_TMR_RMP_END_ADDR_OFFSET 2 demo_rmp_tmr = Inr e \<and>
    words_to_u64 e = 0x1FFFFF"
  by (rule rmp_bounds_agree_on_all_cores [OF _ demo_rmp_bounds])
     (simp_all add: demo_reg_threads env_honest_def demo_env_def)

end
