(* ===== verification/Sev_Guest.thy ===== *)
theory Sev_Guest
  imports Sev_States Sev_Pool Sev_Cores
begin

text \<open>
  A guest and the operations on one guest (\<open>sev_guest.c\<close>, \<open>sev_guest.h\<close>, the predicates of
  \<open>sev_es.c\<close>, \<open>apicid_to_ccx_bitmask\<close> of \<open>apicid.c\<close>): handles, the guest policy, activation on
  an ASID and its reverse.

  The guest's secrets (VEK seed, OEK, transport channel, launch digest context) are byte lists
  that these operations only store or clear. Installing the key in the memory controllers
  (\<open>set_umc_key\<close>, \<open>set_cnli_key\<close>) is represented by the status it returns; the registers of the
  cores are those of \<open>Sev_Cores\<close>.
\<close>

section \<open>The guest\<close>

datatype sev_guest_type = SEV_GUEST_TYPE_SEV | SEV_GUEST_TYPE_SNP | SEV_GUEST_TYPE_LIMIT

record sev_guest =
  g_umc_key_seed :: "u8 list"
  g_oek :: "u8 list"
  g_ld :: "u8 list"
  g_channel :: "u8 list"
  g_oek_iv_count :: u64
  g_handle :: u32
  g_policy :: u32
  g_sev_state :: sev_guest_state
  g_asid :: u32
  g_ccxs :: u32
  g_guest_flags :: u32
  g_num_vcpus :: u32
  g_head_index :: u32
  g_tail_index :: u32
  g_snp_state :: snp_guest_state
  g_type :: sev_guest_type
  g_policy_snp :: u64

text \<open>The all-zero guest; cleared byte strings are empty.\<close>

definition guest_zero :: sev_guest where
  "guest_zero = \<lparr>g_umc_key_seed = [], g_oek = [], g_ld = [], g_channel = [], g_oek_iv_count = 0,
     g_handle = 0, g_policy = 0, g_sev_state = SEV_GUEST_STATE_INVALID, g_asid = 0, g_ccxs = 0,
     g_guest_flags = 0, g_num_vcpus = 0, g_head_index = 0, g_tail_index = 0,
     g_snp_state = SNP_GUEST_STATE_INIT, g_type = SEV_GUEST_TYPE_SEV, g_policy_snp = 0\<rparr>"

definition SEV_GUEST_FLAGS_ACTIVE_FLAG :: u32 where "SEV_GUEST_FLAGS_ACTIVE_FLAG = 1"
definition SEV_GUEST_FLAGS_ES_FLAG :: u32 where "SEV_GUEST_FLAGS_ES_FLAG = 2"
definition SEV_GUEST_FLAGS_PENDING_FLAG :: u32 where "SEV_GUEST_FLAGS_PENDING_FLAG = 4"
definition SEV_GUEST_FLAGS_ES_POOL_ALLOC_FLAG :: u32 where "SEV_GUEST_FLAGS_ES_POOL_ALLOC_FLAG = 8"
definition SNP_GUEST_POLICY_SINGLE_SOCKET_FLAG :: u64 where
  "SNP_GUEST_POLICY_SINGLE_SOCKET_FLAG = 0x100000"

lemmas guest_flag_defs = SEV_GUEST_FLAGS_ACTIVE_FLAG_def SEV_GUEST_FLAGS_ES_FLAG_def
  SEV_GUEST_FLAGS_PENDING_FLAG_def SEV_GUEST_FLAGS_ES_POOL_ALLOC_FLAG_def

text \<open>Predicates of \<open>sev_guest.h\<close>; a NULL guest makes each of them false.\<close>

definition guest_is_free :: "sev_guest option \<Rightarrow> bool" where
  "guest_is_free guest =
     (case guest of Some g \<Rightarrow> g_sev_state g = SEV_GUEST_STATE_INVALID | None \<Rightarrow> False)"

definition guest_is_active :: "sev_guest \<Rightarrow> bool" where
  "guest_is_active g \<longleftrightarrow> g_guest_flags g AND SEV_GUEST_FLAGS_ACTIVE_FLAG \<noteq> 0"

definition guest_is_pending :: "sev_guest \<Rightarrow> bool" where
  "guest_is_pending g \<longleftrightarrow> g_guest_flags g AND SEV_GUEST_FLAGS_PENDING_FLAG \<noteq> 0"

definition guest_is_inactive :: "sev_guest \<Rightarrow> bool" where
  "guest_is_inactive g \<longleftrightarrow>
     g_guest_flags g AND (SEV_GUEST_FLAGS_ACTIVE_FLAG OR SEV_GUEST_FLAGS_PENDING_FLAG) = 0"

definition guest_has_asid :: "sev_guest \<Rightarrow> bool" where
  "guest_has_asid g \<longleftrightarrow>
     g_guest_flags g AND (SEV_GUEST_FLAGS_ACTIVE_FLAG OR SEV_GUEST_FLAGS_PENDING_FLAG) \<noteq> 0"

definition sev_es_guest_enabled :: "sev_guest \<Rightarrow> bool" where
  "sev_es_guest_enabled g \<longleftrightarrow> g_guest_flags g AND SEV_GUEST_FLAGS_ES_FLAG \<noteq> 0"

definition sev_es_allocation_guest_enabled :: "sev_guest \<Rightarrow> bool" where
  "sev_es_allocation_guest_enabled g \<longleftrightarrow> g_guest_flags g AND SEV_GUEST_FLAGS_ES_POOL_ALLOC_FLAG \<noteq> 0"

section \<open>Handles\<close>

definition SEV_GUEST_COUNT_MAX :: u32 where "SEV_GUEST_COUNT_MAX = 1024"
definition SEV_GUEST_HANDLE_MIN :: u32 where "SEV_GUEST_HANDLE_MIN = 1"
definition SEV_GUEST_HANDLE_MAX :: u32 where
  "SEV_GUEST_HANDLE_MAX = SEV_GUEST_HANDLE_MIN + SEV_GUEST_COUNT_MAX - 1"

definition handle_is_in_range :: "u32 \<Rightarrow> bool" where
  "handle_is_in_range handle \<longleftrightarrow> handle \<ge> SEV_GUEST_HANDLE_MIN \<and> handle \<le> SEV_GUEST_HANDLE_MAX"

definition index_is_in_range :: "u32 \<Rightarrow> bool" where
  "index_is_in_range index \<longleftrightarrow> index < SEV_GUEST_COUNT_MAX"

definition handle_to_index :: "u32 \<Rightarrow> u32 option \<Rightarrow> sev_status \<times> u32 option" where
  "handle_to_index handle index =
     (if \<not> handle_is_in_range handle \<or> index = None then (ERR_INVALID_PARAMS, index)
      else (SEV_STATUS_SUCCESS, Some (handle - SEV_GUEST_HANDLE_MIN)))"

definition index_to_handle :: "u32 \<Rightarrow> u32 option \<Rightarrow> sev_status \<times> u32 option" where
  "index_to_handle index handle =
     (if \<not> index_is_in_range index \<or> handle = None then (ERR_INVALID_PARAMS, handle)
      else (SEV_STATUS_SUCCESS, Some (index + SEV_GUEST_HANDLE_MIN)))"

text \<open>The guest array \<open>gs\<close>, by index. \<open>sev_get_guest\<close> returns a pointer: the index of the guest
  in the array, or \<open>None\<close> for NULL.\<close>

definition sev_get_guest :: "bool \<Rightarrow> u32 \<Rightarrow> u32 option" where
  "sev_get_guest non_null handle =
     (if \<not> non_null \<or> \<not> handle_is_in_range handle then None
      else case handle_to_index handle (Some 0) of
             (status, i) \<Rightarrow> if status \<noteq> SEV_STATUS_SUCCESS then None else i)"

definition handle_is_valid :: "(u32 \<Rightarrow> sev_guest) \<Rightarrow> u32 \<Rightarrow> bool" where
  "handle_is_valid gs handle \<longleftrightarrow>
     handle_is_in_range handle \<and> \<not> guest_is_free (map_option gs (sev_get_guest True handle))"

fun free_guest_from :: "(u32 \<Rightarrow> sev_guest) \<Rightarrow> nat list \<Rightarrow> u32 option \<Rightarrow> sev_status \<times> u32 option" where
  "free_guest_from gs [] handle = (SEV_STATUS_RESOURCE_LIMIT, handle)"
| "free_guest_from gs (i # is) handle =
     (if guest_is_free (Some (gs (of_nat i))) then index_to_handle (of_nat i) handle
      else free_guest_from gs is handle)"

definition find_free_guest_handle ::
  "(u32 \<Rightarrow> sev_guest) option \<Rightarrow> u32 \<Rightarrow> u32 option \<Rightarrow> sev_status \<times> u32 option" where
  "find_free_guest_handle guests max_guests handle =
     (case guests of
        None \<Rightarrow> (ERR_INVALID_PARAMS, handle)
      | Some gs \<Rightarrow> free_guest_from gs [0..<unat max_guests] handle)"

definition sev_guest_clear :: "sev_guest option \<Rightarrow> sev_guest option" where
  "sev_guest_clear guest = map_option (\<lambda>_. guest_zero) guest"

section \<open>Policy\<close>

definition api_version_supported :: "u8 \<Rightarrow> u8 \<Rightarrow> u8 \<Rightarrow> u8 \<Rightarrow> bool" where
  "api_version_supported api_major api_minor major minor \<longleftrightarrow>
     api_major > major \<or> (api_major = major \<and> api_minor \<ge> minor)"

definition SEV_GUEST_POLICY_RESERVED_MASK :: u32 where "SEV_GUEST_POLICY_RESERVED_MASK = 0x10000 - 0x40"

definition sev_policy_minor :: "u32 \<Rightarrow> u32" where
  "sev_policy_minor policy = drop_bit 24 (policy AND push_bit 24 0xFF)"

definition sev_policy_major :: "u32 \<Rightarrow> u32" where
  "sev_policy_major policy = drop_bit 16 (policy AND push_bit 16 0xFF)"

text \<open>\<open>mac_status\<close> is the result of \<open>hmac_sha256_verify_msg\<close> on the policy.\<close>

definition sev_guest_verify_policy :: "u8 \<times> u8 \<Rightarrow> sev_status \<Rightarrow> bool \<Rightarrow> u32 \<Rightarrow> sev_status" where
  "sev_guest_verify_policy api mac_status non_null policy =
     (if \<not> non_null then ERR_INVALID_PARAMS
      else if mac_status \<noteq> SEV_STATUS_SUCCESS then mac_status
      else if \<not> api_version_supported (fst api) (snd api)
                  (ucast (sev_policy_major policy)) (ucast (sev_policy_minor policy))
      then SEV_STATUS_POLICY_FAILURE
      else if policy AND SEV_GUEST_POLICY_RESERVED_MASK \<noteq> 0 then SEV_STATUS_POLICY_FAILURE
      else SEV_STATUS_SUCCESS)"

section \<open>Activation\<close>

definition GetMaxSEVASID :: u32 where "GetMaxSEVASID = 1006"

definition sev_es_validate_asid :: "u32 \<Rightarrow> sev_guest option \<Rightarrow> u32 \<Rightarrow> sev_status" where
  "sev_es_validate_asid min_sev_asid guest asid =
     (case guest of
        None \<Rightarrow> ERR_INVALID_PARAMS
      | Some g \<Rightarrow>
          if sev_es_guest_enabled g then
            if asid < 1 \<or> asid \<ge> min_sev_asid then SEV_STATUS_INVALID_ASID else SEV_STATUS_SUCCESS
          else
            if asid < min_sev_asid \<or> asid > GetMaxSEVASID then SEV_STATUS_INVALID_ASID
            else SEV_STATUS_SUCCESS)"

text \<open>What activation needs of the platform: the registers of the cores and the statuses of the
  key installations.\<close>

record act_env =
  ae_tmr :: tmr_env
  ae_topology :: topology
  ae_min_sev_asid :: u32
  ae_umc_key :: sev_status
  ae_cnli_key :: sev_status

definition guest_should_run :: "sev_guest \<Rightarrow> bool" where
  "guest_should_run g \<longleftrightarrow>
     (g_type g = SEV_GUEST_TYPE_SEV \<and>
      (g_sev_state g = SEV_GUEST_STATE_RUNNING \<or> g_sev_state g = SEV_GUEST_STATE_SUPDATE) \<and>
      g_ccxs g \<noteq> 0) \<or>
     (g_type g = SEV_GUEST_TYPE_SNP \<and> g_snp_state g = SNP_GUEST_STATE_RUNNING \<and> g_ccxs g \<noteq> 0)"

text \<open>The part of \<open>sev_guest_activate\<close> after the key is installed: the guest gets the CCXs, and
  starts there at once if it is in a running state.\<close>

definition activate_ccxs ::
  "act_env \<Rightarrow> sev_guest \<Rightarrow> u32 \<Rightarrow> bytes_mem \<Rightarrow> sev_status \<times> sev_guest \<times> bytes_mem" where
  "activate_ccxs A g1 ccxs tmr =
     (let g2 = g1\<lparr>g_ccxs := g_ccxs g1 OR ccxs\<rparr>
      in if guest_should_run g2 then
           (case mark_asid_valid (ae_tmr A) (ae_topology A) (g_asid g2) (g_ccxs g2) tmr of
              (status, tmr') \<Rightarrow>
                if status \<noteq> SEV_STATUS_SUCCESS then (status, g2, tmr')
                else (SEV_STATUS_SUCCESS,
                      g2\<lparr>g_guest_flags := (g_guest_flags g2 OR SEV_GUEST_FLAGS_ACTIVE_FLAG)
                                           AND NOT SEV_GUEST_FLAGS_PENDING_FLAG\<rparr>, tmr'))
         else (SEV_STATUS_SUCCESS,
               g2\<lparr>g_guest_flags := g_guest_flags g2 OR SEV_GUEST_FLAGS_PENDING_FLAG\<rparr>, tmr))"

definition sev_guest_activate ::
  "act_env \<Rightarrow> (u32 \<Rightarrow> u32) \<Rightarrow> sev_guest \<Rightarrow> u32 \<Rightarrow> u32 \<Rightarrow> bytes_mem \<Rightarrow>
     sev_status \<times> sev_guest \<times> bytes_mem" where
  "sev_guest_activate A dirty g asid ccxs tmr =
     (let status = sev_es_validate_asid (ae_min_sev_asid A) (Some g) asid
      in if status \<noteq> SEV_STATUS_SUCCESS then (status, g, tmr)
         else if dirty (asid - 1) AND ccxs \<noteq> 0 then (SEV_STATUS_DF_FLUSH_REQUIRED, g, tmr)
         else if \<not> guest_has_asid g then
           if ae_umc_key A \<noteq> SEV_STATUS_SUCCESS then (ae_umc_key A, g, tmr)
           else if ae_cnli_key A \<noteq> SEV_STATUS_SUCCESS then (ae_cnli_key A, g, tmr)
           else activate_ccxs A (g\<lparr>g_asid := asid\<rparr>) ccxs tmr
         else activate_ccxs A g ccxs tmr)"

definition sev_guest_finish_pending_activate ::
  "act_env \<Rightarrow> sev_guest \<Rightarrow> bytes_mem \<Rightarrow> sev_status \<times> sev_guest \<times> bytes_mem" where
  "sev_guest_finish_pending_activate A g tmr =
     (if g_guest_flags g AND SEV_GUEST_FLAGS_PENDING_FLAG \<noteq> 0 then
        let (status, tmr') = mark_asid_valid (ae_tmr A) (ae_topology A) (g_asid g) (g_ccxs g) tmr
        in if status \<noteq> SEV_STATUS_SUCCESS then (status, g, tmr')
           else (SEV_STATUS_SUCCESS,
                 g\<lparr>g_guest_flags := (g_guest_flags g AND NOT SEV_GUEST_FLAGS_PENDING_FLAG)
                                     OR SEV_GUEST_FLAGS_ACTIVE_FLAG\<rparr>, tmr')
      else (SEV_STATUS_SUCCESS, g, tmr))"

definition sev_guest_deactivate ::
  "act_env \<Rightarrow> sev_guest \<Rightarrow> u32 \<Rightarrow> bytes_mem \<Rightarrow> sev_status \<times> sev_guest \<times> bytes_mem" where
  "sev_guest_deactivate A g inuse_ccxs tmr =
     (let (status1, tmr1) =
        (if inuse_ccxs \<noteq> 0
         then mark_asid_invalid (ae_tmr A) (ae_topology A) (g_asid g) inuse_ccxs tmr
         else (SEV_STATUS_SUCCESS, tmr))
      in if status1 \<noteq> SEV_STATUS_SUCCESS then (status1, g, tmr1)
         else
           let (status2, tmr2) =
             (if inuse_ccxs \<noteq> 0
              then clear_wbinvd_done (ae_tmr A) (ae_topology A) inuse_ccxs tmr1
              else (SEV_STATUS_SUCCESS, tmr1))
           in if status2 \<noteq> SEV_STATUS_SUCCESS then (status2, g, tmr2)
              else (SEV_STATUS_SUCCESS,
                    g\<lparr>g_asid := 0, g_ccxs := 0,
                      g_guest_flags := g_guest_flags g AND
                        NOT (SEV_GUEST_FLAGS_ACTIVE_FLAG OR SEV_GUEST_FLAGS_PENDING_FLAG)\<rparr>, tmr2))"

section \<open>The CCXs of a list of APIC ids\<close>

text \<open>\<open>apic_ids\<close> is the table built at start-up: for an APIC id, a valid bit (0x80) and the
  number of the CCX.\<close>

definition MAX_APIC_IDS :: u32 where "MAX_APIC_IDS = 512"
definition APIC_ID_LIST_MAX_CNT :: u32 where "APIC_ID_LIST_MAX_CNT = 1024"
definition APIC_ID_ENTRY_VALID :: u32 where "APIC_ID_ENTRY_VALID = 0x80"

fun apicid_bitmask :: "(u32 \<Rightarrow> u8) \<Rightarrow> u32 list \<Rightarrow> u32 \<Rightarrow> sev_status + u32" where
  "apicid_bitmask tbl [] bitmask = Inr bitmask"
| "apicid_bitmask tbl (apicid # ids) bitmask =
     (if apicid \<ge> MAX_APIC_IDS then Inl ERR_INVALID_PARAMS
      else
        let v = ucast (tbl apicid) :: u32
        in if v AND APIC_ID_ENTRY_VALID \<noteq> 0
           then apicid_bitmask tbl ids
                  (bitmask OR push_bit (unat (v AND NOT APIC_ID_ENTRY_VALID)) 1)
           else Inl SEV_STATUS_INVALID_CONFIG)"

definition apicid_to_ccx_bitmask ::
  "(u32 \<Rightarrow> u8) \<Rightarrow> bool \<Rightarrow> u32 list \<Rightarrow> sev_status + u32" where
  "apicid_to_ccx_bitmask tbl non_null ids =
     (if \<not> non_null \<or> of_nat (length ids) > APIC_ID_LIST_MAX_CNT then Inl ERR_INVALID_PARAMS
      else apicid_bitmask tbl ids 0)"

end
