(* ===== verification/Sev_Es.thy ===== *)
theory Sev_Es
  imports Sev_Guest
begin

text \<open>
  The SEV-ES trusted region (\<open>sev_es.c\<close>): how its reserved memory becomes the pool of
  \<open>Sev_Pool\<close>. The TMR registers of the data fabric are outside: what reading one returns, and
  the statuses of the calls that program them, are arguments.
\<close>

record sev_es_platform =
  es_crc32_pool :: pool_vcpu
  es_tmr_addr_start :: u64
  es_tmr_addr_size :: u64
  es_start_pool_addr :: u64
  es_start_crc_addr :: u64
  es_pool_block_size :: u32
  es_crc_block_size :: u32
  es_enable_crc64 :: bool
  es_reserved_tmr_base :: u64
  es_reserved_tmr_end :: u64

definition PADDR_INVALID :: u64 where "PADDR_INVALID = NOT 0"

definition sev_es_is_initialized :: "sev_es_platform option \<Rightarrow> bool" where
  "sev_es_is_initialized es =
     (case es of Some e \<Rightarrow> is_initialized (es_crc32_pool e) | None \<Rightarrow> False)"

definition SEV_CONFIG_ES_FLAG :: u32 where "SEV_CONFIG_ES_FLAG = 1"

definition sev_es_platform_enabled :: "u32 option \<Rightarrow> bool" where
  "sev_es_platform_enabled config_flags =
     (case config_flags of Some f \<Rightarrow> f AND SEV_CONFIG_ES_FLAG \<noteq> 0 | None \<Rightarrow> False)"

text \<open>A run of calls \<open>status = f(); if (status != SEV_STATUS_SUCCESS) goto end;\<close> whose only
  effect is on the hardware: the first status that is not success, or success.\<close>

fun first_error :: "sev_status list \<Rightarrow> sev_status" where
  "first_error [] = SEV_STATUS_SUCCESS"
| "first_error (s # ss) = (if s \<noteq> SEV_STATUS_SUCCESS then s else first_error ss)"

text \<open>
  \<open>pool_tmr\<close> is what \<open>sev_hal_get_tmr(SEV_ES_TMR_POOL)\<close> returns (status, base, limit, valid
  flag), \<open>enable\<close> the statuses of the four calls that enable the two TMRs on both dies, \<open>mp\<close> the
  mapping status in \<open>pool_vcpu_init\<close>.
\<close>

record es_env =
  ee_pool_tmr :: "sev_status \<times> u64 \<times> u64 \<times> bool"
  ee_enable :: "sev_status list"
  ee_pool_map :: sev_status
  ee_aligned :: "u64 \<Rightarrow> u64 \<Rightarrow> bool"

definition sev_es_init_trusted_region ::
  "es_env \<Rightarrow> tmr_env \<Rightarrow> topology \<Rightarrow> sev_es_platform option \<Rightarrow> dram \<Rightarrow> bytes_mem \<Rightarrow>
     sev_status \<times> sev_es_platform option \<times> dram \<times> bytes_mem" where
  "sev_es_init_trusted_region X E T es0 m tmr =
     (case es0 of
        None \<Rightarrow> (ERR_INVALID_PARAMS, es0, m, tmr)
      | Some es \<Rightarrow>
          (case ee_pool_tmr X of (status, base, limit, valid) \<Rightarrow>
             if status \<noteq> SEV_STATUS_SUCCESS then (status, es0, m, tmr)
             else if \<not> valid \<and> es_reserved_tmr_base es \<noteq> base then (ERR_INVALID_PARAMS, es0, m, tmr)
             else
               let es1 = (if \<not> valid then es\<lparr>es_reserved_tmr_base := PADDR_INVALID,
                                              es_reserved_tmr_end := PADDR_INVALID\<rparr> else es);
                   enabled = (if \<not> valid then first_error (ee_enable X) else SEV_STATUS_SUCCESS)
               in if enabled \<noteq> SEV_STATUS_SUCCESS then (enabled, Some es1, m, tmr)
                  else
                    let (status, tmr') = write_sev_es_tmr_address_to_all_cores E T base tmr
                    in if status \<noteq> SEV_STATUS_SUCCESS then (status, Some es1, m, tmr')
                       else
                         case pool_vcpu_init (ee_aligned X) (ee_pool_map X) m
                                (Some (es_crc32_pool es1)) base (es_start_crc_addr es1)
                                (limit - base + 1) of
                           (status, Some pool, m') \<Rightarrow> (status, Some (es1\<lparr>es_crc32_pool := pool\<rparr>), m', tmr')
                         | (status, None, m') \<Rightarrow> (status, Some es1, m', tmr')))"

end
