(* ===== verification/Sev_Activation.thy ===== *)
theory Sev_Activation
  imports Sev_Es
begin

text \<open>
  The life of an ASID (\<open>sev_mcmd.c\<close>): DF_FLUSH, ACTIVATE, ACTIVATE_EX, DEACTIVATE,
  DECOMMISSION, LAUNCH_FINISH and RECEIVE_FINISH for SEV guests, and the parts of the SNP
  commands that touch an ASID.

  For each ASID the firmware keeps four masks of CCXs: dirty (the ASID ran there and the caches
  were not flushed since), clean, allocated (given to a guest that does not run yet) and in use.
  A guest lives in the array of SEV guests or in an SNP guest context page; a reference to a
  guest is one of the two.
\<close>

section \<open>State\<close>

datatype guest_ref = SevGuest u32 | SnpGuest u64

record sev_plat =
  p_sev_state :: sev_state
  p_snp_state :: snp_state
  p_config_flags :: u32
  p_guest_count :: u32
  p_snp_guest_count :: u32
  p_activate_ex_enable :: bool
  p_apic_ids :: "u32 \<Rightarrow> u8"
  p_guests :: "guest_ref \<Rightarrow> sev_guest"
  asid_dirty :: "u32 \<Rightarrow> u32"
  asid_clean :: "u32 \<Rightarrow> u32"
  asid_allocated :: "u32 \<Rightarrow> u32"
  asid_in_use :: "u32 \<Rightarrow> u32"
  p_es :: sev_es_platform
  p_dram :: dram
  p_tmr :: bytes_mem

abbreviation set_guest :: "guest_ref \<Rightarrow> sev_guest \<Rightarrow> sev_plat \<Rightarrow> sev_plat" where
  "set_guest r g s \<equiv> s\<lparr>p_guests := (p_guests s)(r := g)\<rparr>"

text \<open>The CCXs that are present, for the comparisons with \<open>gPersistent.ccx_present_bit_mask\<close>.\<close>

abbreviation present :: "act_env \<Rightarrow> u32" where "present A \<equiv> ccx_present (ae_topology A)"

definition asid_is_active :: "sev_plat \<Rightarrow> u32 \<Rightarrow> bool" where
  "asid_is_active s asid \<longleftrightarrow>
     (if asid = 0 \<or> asid > GetMaxSEVASID then False
      else asid_in_use s (asid - 1) \<noteq> 0 \<or> asid_dirty s (asid - 1) \<noteq> 0 \<or> asid_allocated s (asid - 1) \<noteq> 0)"

section \<open>DF_FLUSH\<close>

text \<open>One turn of the loop over the ASID indices.\<close>

definition flush_asid :: "u32 \<Rightarrow> nat \<Rightarrow> sev_plat \<Rightarrow> sev_plat" where
  "flush_asid ccds_wbinvd_done i s =
     (let idx = of_nat i; tmp_mask = asid_dirty s idx AND ccds_wbinvd_done
      in if tmp_mask \<noteq> 0 then
           s\<lparr>asid_dirty := (asid_dirty s)(idx := asid_dirty s idx AND NOT tmp_mask),
             asid_clean := (asid_clean s)(idx := asid_clean s idx OR tmp_mask)\<rparr>
         else s)"

text \<open>\<open>fl\<close> is the result of \<open>sev_hal_df_write_flush\<close>, \<open>slave\<close> that of the command to the slave
  die, which is sent when there is more than one.\<close>

definition df_flush_fabric ::
  "act_env \<Rightarrow> es_env \<Rightarrow> sev_status \<Rightarrow> sev_status \<Rightarrow> sev_plat \<Rightarrow> sev_status \<times> sev_plat" where
  "df_flush_fabric A X fl slave s1 =
     (if fl \<noteq> SEV_STATUS_SUCCESS then (fl, s1)
      else if gTotalDieNum (ae_topology A) > 1 \<and> slave \<noteq> SEV_STATUS_SUCCESS then (slave, s1)
      else if p_sev_state s1 \<noteq> SEV_STATE_UNINIT \<and>
              sev_es_platform_enabled (Some (p_config_flags s1)) \<and>
              \<not> sev_es_is_initialized (Some (p_es s1))
      then case sev_es_init_trusted_region X (ae_tmr A) (ae_topology A) (Some (p_es s1))
                  (p_dram s1) (p_tmr s1) of
             (status, es, m, tmr) \<Rightarrow> (status, s1\<lparr>p_es := the es, p_dram := m, p_tmr := tmr\<rparr>)
      else (SEV_STATUS_SUCCESS, s1))"

definition mcmd_df_flush_common ::
  "act_env \<Rightarrow> es_env \<Rightarrow> sev_status \<Rightarrow> sev_status \<Rightarrow> sev_plat \<Rightarrow> sev_status \<times> sev_plat" where
  "mcmd_df_flush_common A X fl slave s =
     (case is_wbinvd_done (ae_tmr A) (ae_topology A) (p_tmr s) of
        (status, wbinvd_is_done, ccds_wbinvd_done) \<Rightarrow>
          if status \<noteq> SEV_STATUS_SUCCESS then (status, s)
          else
            let s1 = (if ccds_wbinvd_done \<noteq> 0
                      then fold (flush_asid ccds_wbinvd_done) [0..<MAX_SEV_ASIDS] s else s)
            in if \<not> wbinvd_is_done then (SEV_STATUS_WBINVD_REQUIRED, s1)
               else df_flush_fabric A X fl slave s1)"

section \<open>DECOMMISSION\<close>

text \<open>\<open>mp\<close> is the mapping status in \<open>pool_vcpu_free_list\<close>.\<close>

definition mcmd_decommission_common ::
  "sev_status \<Rightarrow> guest_ref \<Rightarrow> sev_plat \<Rightarrow> sev_status \<times> sev_plat" where
  "mcmd_decommission_common mp r s =
     (let g = p_guests s r
      in if g_asid g \<noteq> 0 \<and> asid_is_active s (g_asid g) then (SEV_STATUS_ACTIVE, s)
         else
           let (status, s1) =
             (if sev_es_allocation_guest_enabled g \<and>
                 g_head_index g \<noteq> INVALID_BLOCK \<and> g_tail_index g \<noteq> INVALID_BLOCK
              then case pool_vcpu_free_list mp (p_dram s) (Some (es_crc32_pool (p_es s)))
                          (g_head_index g) (g_tail_index g) (g_num_vcpus g) of
                     (status, pool, m) \<Rightarrow>
                       (status, s\<lparr>p_es := (p_es s)\<lparr>es_crc32_pool := the pool\<rparr>, p_dram := m\<rparr>)
              else (SEV_STATUS_SUCCESS, s))
           in if status \<noteq> SEV_STATUS_SUCCESS then (status, s1)
              else
                let s2 = (if g_type g = SEV_GUEST_TYPE_SEV
                          then s1\<lparr>p_guest_count := p_guest_count s1 - 1\<rparr>
                          else if g_type g = SEV_GUEST_TYPE_SNP \<and> g_snp_state g \<noteq> SNP_GUEST_STATE_INIT
                          then s1\<lparr>p_snp_guest_count := p_snp_guest_count s1 - 1\<rparr>
                          else s1)
                in (SEV_STATUS_SUCCESS, set_guest r guest_zero s2))"

definition sev_mcmd_decommission ::
  "bool \<Rightarrow> sev_status \<Rightarrow> u32 \<Rightarrow> sev_plat \<Rightarrow> sev_status \<times> sev_plat" where
  "sev_mcmd_decommission non_null mp handle s =
     (if \<not> non_null then (ERR_INVALID_PARAMS, s)
      else if p_sev_state s \<noteq> SEV_STATE_WORKING then (SEV_STATUS_INVALID_PLATFORM_STATE, s)
      else if \<not> handle_is_valid (\<lambda>i. p_guests s (SevGuest i)) handle then (SEV_STATUS_INVALID_GUEST, s)
      else
        let r = SevGuest (the (sev_get_guest True handle));
            (status, s1) = mcmd_decommission_common mp r s
        in if status \<noteq> SEV_STATUS_SUCCESS then (status, s1)
           else if p_guest_count s1 = 0 then
             let (status, st) = sev_state_transition True (p_sev_state s1) SEV_MCMD_ID_DECOMMISSION
             in (status, s1\<lparr>p_sev_state := st\<rparr>)
           else (SEV_STATUS_SUCCESS, s1))"

section \<open>ACTIVATE\<close>

definition activate_common ::
  "act_env \<Rightarrow> guest_ref \<Rightarrow> u32 \<Rightarrow> u32 \<Rightarrow> sev_plat \<Rightarrow> sev_status \<times> sev_plat" where
  "activate_common A r asid ccxs s =
     (let g = p_guests s r; i = asid - 1
      in if g_sev_state g = SEV_GUEST_STATE_SENT then (SEV_STATUS_INVALID_GUEST_STATE, s)
         else if \<not> guest_has_asid g \<and> asid_dirty s i \<noteq> 0 then (SEV_STATUS_DF_FLUSH_REQUIRED, s)
         else if \<not> guest_has_asid g \<and> asid_clean s i \<noteq> present A then (SEV_STATUS_ASID_OWNED, s)
         else if guest_has_asid g \<and> asid \<noteq> g_asid g then (SEV_STATUS_ACTIVE, s)
         else
           let g1 = (if \<not> guest_has_asid g then g\<lparr>g_ccxs := 0\<rparr> else g\<lparr>g_ccxs := g_ccxs g OR ccxs\<rparr>);
               (status, g2, tmr) = sev_guest_activate A (asid_dirty s) g1 asid ccxs (p_tmr s);
               s1 = set_guest r g2 (s\<lparr>p_tmr := tmr\<rparr>)
           in if status \<noteq> SEV_STATUS_SUCCESS then (status, s1)
              else if guest_is_pending g2 then
                (SEV_STATUS_SUCCESS,
                 s1\<lparr>asid_allocated := (asid_allocated s1)(i := asid_allocated s1 i OR ccxs),
                    asid_clean := (asid_clean s1)(i := asid_clean s1 i AND NOT ccxs)\<rparr>)
              else if guest_is_active g2 then
                (SEV_STATUS_SUCCESS,
                 s1\<lparr>asid_in_use := (asid_in_use s1)(i := asid_in_use s1 i OR g_ccxs g2),
                    asid_allocated := (asid_allocated s1)(i := asid_allocated s1 i AND NOT (g_ccxs g2)),
                    asid_clean := (asid_clean s1)(i := asid_clean s1 i AND NOT (g_ccxs g2))\<rparr>)
              else (SEV_STATUS_SUCCESS, s1))"

definition mcmd_activate_common ::
  "act_env \<Rightarrow> guest_ref \<Rightarrow> u32 \<Rightarrow> sev_plat \<Rightarrow> sev_status \<times> sev_plat" where
  "mcmd_activate_common A r asid s =
     (if asid = 0 \<or> asid > GetMaxSEVASID then (SEV_STATUS_INVALID_ASID, s)
      else if asid_in_use s (asid - 1) \<noteq> 0 \<or> asid_allocated s (asid - 1) \<noteq> 0
      then (SEV_STATUS_ASID_OWNED, s)
      else if \<not> guest_is_inactive (p_guests s r) then (SEV_STATUS_ACTIVE, s)
      else activate_common A r asid (present A) s)"

definition sev_mcmd_activate ::
  "act_env \<Rightarrow> bool \<Rightarrow> u32 \<Rightarrow> u32 \<Rightarrow> sev_plat \<Rightarrow> sev_status \<times> sev_plat" where
  "sev_mcmd_activate A non_null handle asid s =
     (if \<not> non_null then (ERR_INVALID_PARAMS, s)
      else if p_sev_state s \<noteq> SEV_STATE_WORKING then (SEV_STATUS_INVALID_PLATFORM_STATE, s)
      else if \<not> handle_is_valid (\<lambda>i. p_guests s (SevGuest i)) handle then (SEV_STATUS_INVALID_GUEST, s)
      else mcmd_activate_common A (SevGuest (the (sev_get_guest True handle))) asid s)"

section \<open>ACTIVATE_EX\<close>

definition CCXS_ON_P0 :: "u32 \<Rightarrow> u32" where "CCXS_ON_P0 ccxs = ccxs AND 0xFFFF"
definition CCXS_ON_P1 :: "u32 \<Rightarrow> u32" where "CCXS_ON_P1 ccxs = drop_bit 16 ccxs AND 0xFFFF"

text \<open>The arguments of the command: \<open>x_copy\<close> is the status of the copy of the list of APIC ids
  from x86 memory and \<open>x_ids\<close> the list; \<open>x_ma\<close> is the migration agent's context page address,
  \<open>x_map\<close> the status of mapping that page.\<close>

record activate_ex_in =
  x_asid :: u32
  x_numids :: u32
  x_copy :: sev_status
  x_ids :: "u32 list"
  x_ma :: u64
  x_map :: sev_status

text \<open>The single-socket policy check; \<open>ccxs\<close> are the CCXs to be activated.\<close>

definition single_socket_check ::
  "activate_ex_in \<Rightarrow> guest_ref \<Rightarrow> u32 \<Rightarrow> sev_plat \<Rightarrow> sev_status" where
  "single_socket_check x r ccxs s =
     (let g = p_guests s r; ma = p_guests s (SnpGuest (x_ma x))
      in if g_policy_snp g AND SNP_GUEST_POLICY_SINGLE_SOCKET_FLAG = 0 then SEV_STATUS_SUCCESS
         else if x_ma x \<noteq> PADDR_INVALID \<and> x_map x \<noteq> SEV_STATUS_SUCCESS then x_map x
         else if x_ma x \<noteq> PADDR_INVALID \<and> \<not> guest_is_active ma then SEV_STATUS_POLICY_FAILURE
         else if x_ma x \<noteq> PADDR_INVALID \<and>
                 (CCXS_ON_P0 (g_ccxs ma) \<noteq> 0 \<and> CCXS_ON_P1 ccxs \<noteq> 0 \<or>
                  CCXS_ON_P1 (g_ccxs ma) \<noteq> 0 \<and> CCXS_ON_P0 ccxs \<noteq> 0)
         then SEV_STATUS_POLICY_FAILURE
         else if CCXS_ON_P0 ccxs \<noteq> 0 \<and> CCXS_ON_P1 ccxs \<noteq> 0 \<or>
                 CCXS_ON_P0 (g_ccxs g) \<noteq> 0 \<and> CCXS_ON_P1 ccxs \<noteq> 0 \<or>
                 CCXS_ON_P1 (g_ccxs g) \<noteq> 0 \<and> CCXS_ON_P0 ccxs \<noteq> 0
         then SEV_STATUS_POLICY_FAILURE
         else SEV_STATUS_SUCCESS)"

definition mcmd_activate_ex_common ::
  "act_env \<Rightarrow> activate_ex_in \<Rightarrow> guest_ref \<Rightarrow> sev_plat \<Rightarrow> sev_status \<times> sev_plat" where
  "mcmd_activate_ex_common A x r s =
     (if x_asid x = 0 \<or> x_asid x > GetMaxSEVASID then (SEV_STATUS_INVALID_ASID, s)
      else if \<not> p_activate_ex_enable s then (SEV_STATUS_UNSUPPORTED, s)
      else if x_numids x = 0 \<or> x_numids x > APIC_ID_LIST_MAX_CNT then (SEV_STATUS_INVALID_PARAM, s)
      else if x_copy x \<noteq> SEV_STATUS_SUCCESS then (x_copy x, s)
      else case apicid_to_ccx_bitmask (p_apic_ids s) True (take (unat (x_numids x)) (x_ids x)) of
             Inl status \<Rightarrow> (status, s)
           | Inr ccxs \<Rightarrow>
               let status = single_socket_check x r ccxs s
               in if status \<noteq> SEV_STATUS_SUCCESS then (status, s)
                  else activate_common A r (x_asid x) ccxs s)"

text \<open>\<open>ex_len_ok\<close> is the test of the length field of the command buffer.\<close>

definition sev_mcmd_activate_ex ::
  "act_env \<Rightarrow> bool \<Rightarrow> bool \<Rightarrow> u32 \<Rightarrow> activate_ex_in \<Rightarrow> sev_plat \<Rightarrow> sev_status \<times> sev_plat" where
  "sev_mcmd_activate_ex A non_null ex_len_ok handle x s =
     (if \<not> non_null then (ERR_INVALID_PARAMS, s)
      else if p_sev_state s \<noteq> SEV_STATE_WORKING then (SEV_STATUS_INVALID_PLATFORM_STATE, s)
      else if \<not> ex_len_ok then (SEV_STATUS_INVALID_PARAM, s)
      else if \<not> handle_is_valid (\<lambda>i. p_guests s (SevGuest i)) handle then (SEV_STATUS_INVALID_GUEST, s)
      else mcmd_activate_ex_common A (x\<lparr>x_ma := PADDR_INVALID\<rparr>)
             (SevGuest (the (sev_get_guest True handle))) s)"

section \<open>DEACTIVATE\<close>

text \<open>The CCXs a guest gives up: allocated ones become clean, used ones dirty.\<close>

definition release_ccxs :: "u32 \<Rightarrow> u32 \<Rightarrow> sev_plat \<Rightarrow> sev_plat" where
  "release_ccxs asid ccxs s =
     (let i = asid - 1;
          t1 = asid_allocated s i AND ccxs;
          s1 = (if t1 \<noteq> 0 then
                  s\<lparr>asid_allocated := (asid_allocated s)(i := asid_allocated s i AND NOT t1),
                    asid_clean := (asid_clean s)(i := asid_clean s i OR t1)\<rparr>
                else s);
          t2 = asid_in_use s1 i AND ccxs
      in if t2 \<noteq> 0 then
           s1\<lparr>asid_in_use := (asid_in_use s1)(i := asid_in_use s1 i AND NOT t2),
              asid_dirty := (asid_dirty s1)(i := asid_dirty s1 i OR t2)\<rparr>
         else s1)"

definition deactivate_guest ::
  "act_env \<Rightarrow> guest_ref \<Rightarrow> sev_plat \<Rightarrow> sev_status \<times> sev_plat" where
  "deactivate_guest A r s =
     (let g = p_guests s r; asid = g_asid g; ccxs = g_ccxs g;
          (status, g', tmr) = sev_guest_deactivate A g (asid_in_use s (asid - 1)) (p_tmr s);
          s1 = set_guest r g' (s\<lparr>p_tmr := tmr\<rparr>)
      in if status \<noteq> SEV_STATUS_SUCCESS then (status, s1)
         else (SEV_STATUS_SUCCESS, release_ccxs asid ccxs s1))"

definition sev_mcmd_deactivate ::
  "act_env \<Rightarrow> bool \<Rightarrow> u32 \<Rightarrow> sev_plat \<Rightarrow> sev_status \<times> sev_plat" where
  "sev_mcmd_deactivate A non_null handle s =
     (if \<not> non_null then (ERR_INVALID_PARAMS, s)
      else if p_sev_state s \<noteq> SEV_STATE_WORKING then (SEV_STATUS_INVALID_PLATFORM_STATE, s)
      else if \<not> handle_is_valid (\<lambda>i. p_guests s (SevGuest i)) handle then (SEV_STATUS_INVALID_GUEST, s)
      else
        let r = SevGuest (the (sev_get_guest True handle))
        in if guest_is_inactive (p_guests s r) then (SEV_STATUS_INACTIVE, s)
           else deactivate_guest A r s)"

text \<open>An SNP guest is deactivated, if need be, as part of its decommissioning.\<close>

definition snp_decommission_common ::
  "act_env \<Rightarrow> sev_status \<Rightarrow> u64 \<Rightarrow> sev_plat \<Rightarrow> sev_status \<times> sev_plat" where
  "snp_decommission_common A mp gctx s =
     (let r = SnpGuest gctx;
          (status, s1) = (if guest_has_asid (p_guests s r) then deactivate_guest A r s
                          else (SEV_STATUS_SUCCESS, s))
      in if status \<noteq> SEV_STATUS_SUCCESS then (status, s1)
         else mcmd_decommission_common mp r s1)"

section \<open>LAUNCH_FINISH and RECEIVE_FINISH\<close>

text \<open>What both do with a pending activation; \<open>bad\<close> is the status reported when the cores'
  registers cannot be written.\<close>

definition finish_pending ::
  "act_env \<Rightarrow> guest_ref \<Rightarrow> sev_plat \<Rightarrow> sev_status \<times> sev_plat" where
  "finish_pending A r s =
     (let g = p_guests s r
      in if guest_is_pending g then
           let (status, g', tmr) = sev_guest_finish_pending_activate A g (p_tmr s);
               s1 = set_guest r g' (s\<lparr>p_tmr := tmr\<rparr>);
               i = g_asid g' - 1; ccxs = g_ccxs g'
           in if status \<noteq> SEV_STATUS_SUCCESS then (status, s1)
              else (SEV_STATUS_SUCCESS,
                    s1\<lparr>asid_in_use := (asid_in_use s1)(i := asid_in_use s1 i OR ccxs),
                       asid_allocated := (asid_allocated s1)(i := asid_allocated s1 i AND NOT ccxs),
                       asid_clean := (asid_clean s1)(i := asid_clean s1 i AND NOT ccxs)\<rparr>)
         else (SEV_STATUS_SUCCESS, s))"

definition guest_finish ::
  "act_env \<Rightarrow> bool \<Rightarrow> sev_mcmd_id \<Rightarrow> guest_ref \<Rightarrow> sev_plat \<Rightarrow> sev_status \<times> sev_plat" where
  "guest_finish A clear_ld cmd r s =
     (let (status, s1) = finish_pending A r s
      in if status \<noteq> SEV_STATUS_SUCCESS then (SEV_STATUS_HARDWARE_UNSAFE, s1)
         else
           let g = p_guests s1 r;
               g1 = g\<lparr>g_channel := [], g_ld := (if clear_ld then [] else g_ld g)\<rparr>;
               (status, st) = sev_guest_state_transition True (g_sev_state g1) cmd
           in (status, set_guest r (g1\<lparr>g_sev_state := st\<rparr>) s1))"

definition sev_mcmd_launch_finish ::
  "act_env \<Rightarrow> bool \<Rightarrow> u32 \<Rightarrow> sev_plat \<Rightarrow> sev_status \<times> sev_plat" where
  "sev_mcmd_launch_finish A non_null handle s =
     (if \<not> non_null then (ERR_INVALID_PARAMS, s)
      else if p_sev_state s \<noteq> SEV_STATE_WORKING then (SEV_STATUS_INVALID_PLATFORM_STATE, s)
      else if \<not> handle_is_valid (\<lambda>i. p_guests s (SevGuest i)) handle then (SEV_STATUS_INVALID_GUEST, s)
      else
        let r = SevGuest (the (sev_get_guest True handle))
        in if g_sev_state (p_guests s r) \<noteq> SEV_GUEST_STATE_LSECRET
           then (SEV_STATUS_INVALID_GUEST_STATE, s)
           else guest_finish A True SEV_MCMD_ID_LAUNCH_FINISH r s)"

definition sev_mcmd_receive_finish ::
  "act_env \<Rightarrow> bool \<Rightarrow> u32 \<Rightarrow> sev_plat \<Rightarrow> sev_status \<times> sev_plat" where
  "sev_mcmd_receive_finish A non_null handle s =
     (if \<not> non_null then (ERR_INVALID_PARAMS, s)
      else if p_sev_state s \<noteq> SEV_STATE_WORKING then (SEV_STATUS_INVALID_PLATFORM_STATE, s)
      else if \<not> handle_is_valid (\<lambda>i. p_guests s (SevGuest i)) handle then (SEV_STATUS_INVALID_GUEST, s)
      else
        let r = SevGuest (the (sev_get_guest True handle))
        in if g_sev_state (p_guests s r) \<noteq> SEV_GUEST_STATE_RUPDATE
           then (SEV_STATUS_INVALID_GUEST_STATE, s)
           else guest_finish A False SEV_MCMD_ID_RECEIVE_FINISH r s)"

section \<open>The invariant\<close>

definition submask :: "u32 \<Rightarrow> u32 \<Rightarrow> bool" where
  "submask a b \<longleftrightarrow> (\<forall>n. bit a n \<longrightarrow> bit b n)"

text \<open>The four masks of an ASID partition the CCXs that are present.\<close>

definition mask_partition :: "u32 \<Rightarrow> u32 \<Rightarrow> u32 \<Rightarrow> u32 \<Rightarrow> u32 \<Rightarrow> bool" where
  "mask_partition p d c a u \<longleftrightarrow>
     (\<forall>n. (bit p n \<longleftrightarrow> bit d n \<or> bit c n \<or> bit a n \<or> bit u n) \<and>
       \<not> (bit d n \<and> bit c n) \<and> \<not> (bit d n \<and> bit a n) \<and> \<not> (bit d n \<and> bit u n) \<and>
       \<not> (bit c n \<and> bit a n) \<and> \<not> (bit c n \<and> bit u n) \<and> \<not> (bit a n \<and> bit u n))"

definition masks_ok :: "act_env \<Rightarrow> sev_plat \<Rightarrow> u32 \<Rightarrow> bool" where
  "masks_ok A s i \<longleftrightarrow> mask_partition (present A) (asid_dirty s i) (asid_clean s i)
     (asid_allocated s i) (asid_in_use s i)"

text \<open>The guest is in a state in which it may execute.\<close>

definition guest_runs :: "sev_guest \<Rightarrow> bool" where
  "guest_runs g \<longleftrightarrow>
     (g_type g = SEV_GUEST_TYPE_SEV \<and>
      g_sev_state g \<in> {SEV_GUEST_STATE_RUNNING, SEV_GUEST_STATE_SUPDATE, SEV_GUEST_STATE_SENT}) \<or>
     (g_type g = SEV_GUEST_TYPE_SNP \<and> g_snp_state g = SNP_GUEST_STATE_RUNNING)"

text \<open>What the masks of its ASID look like to a guest that has one.\<close>

definition owner_ok :: "act_env \<Rightarrow> sev_plat \<Rightarrow> sev_guest \<Rightarrow> bool" where
  "owner_ok A s g \<longleftrightarrow>
     (let i = g_asid g - 1 in
      g_asid g \<noteq> 0 \<and> g_asid g \<le> GetMaxSEVASID \<and> g_ccxs g \<noteq> 0 \<and> submask (g_ccxs g) (present A) \<and>
      asid_dirty s i = 0 \<and> submask (asid_allocated s i) (g_ccxs g) \<and> submask (asid_in_use s i) (g_ccxs g) \<and>
      (asid_allocated s i \<noteq> 0 \<or> asid_in_use s i \<noteq> 0) \<and>
      (guest_is_active g \<and> \<not> guest_is_pending g \<and> guest_runs g \<or>
       guest_is_pending g \<and> \<not> guest_is_active g \<and> \<not> guest_runs g \<and> asid_in_use s i = 0))"

definition apic_table_ok :: "act_env \<Rightarrow> sev_plat \<Rightarrow> bool" where
  "apic_table_ok A s \<longleftrightarrow>
     (\<forall>id. ucast (p_apic_ids s id) AND APIC_ID_ENTRY_VALID \<noteq> (0 :: u32) \<longrightarrow>
        bit (present A) (unat (ucast (p_apic_ids s id) AND NOT APIC_ID_ENTRY_VALID :: u32)))"

definition asid_inv :: "act_env \<Rightarrow> sev_plat \<Rightarrow> bool" where
  "asid_inv A s \<longleftrightarrow> present A \<noteq> 0 \<and> apic_table_ok A s \<and>
     (\<forall>i < GetMaxSEVASID. masks_ok A s i) \<and>
     (\<forall>r. guest_has_asid (p_guests s r) \<longrightarrow> owner_ok A s (p_guests s r)) \<and>
     (\<forall>r r'. guest_has_asid (p_guests s r) \<longrightarrow> guest_has_asid (p_guests s r') \<longrightarrow>
        g_asid (p_guests s r) = g_asid (p_guests s r') \<longrightarrow> r = r') \<and>
     (\<forall>i < GetMaxSEVASID. (\<forall>r. guest_has_asid (p_guests s r) \<longrightarrow> g_asid (p_guests s r) \<noteq> i + 1) \<longrightarrow>
        asid_allocated s i = 0 \<and> asid_in_use s i = 0)"

section \<open>Masks and flags\<close>

lemma bit_zero_mask: "(a :: u32) = 0 \<longleftrightarrow> (\<forall>n. \<not> bit a n)"
  using bit_imp_le_length [of a] by (fastforce simp: bit_eq_iff)

lemmas mask_bits = bit_and_iff bit_or_iff bit_not_iff

lemma bit_u32_width: "bit (a :: u32) n \<Longrightarrow> n < 32"
  using bit_imp_le_length [of a n] by simp

lemma submask_refl [simp]: "submask a a"
  by (simp add: submask_def)

lemma submask_zero [simp]: "submask 0 a"
  by (simp add: submask_def)

lemma submask_or [simp]: "submask (a OR b) c \<longleftrightarrow> submask a c \<and> submask b c"
  by (auto simp: submask_def bit_or_iff)

lemma submask_or_right: "submask a b \<Longrightarrow> submask a (b OR c)" "submask a c \<Longrightarrow> submask a (b OR c)"
  by (auto simp: submask_def bit_or_iff)

lemma has_asid_flags: "guest_has_asid g \<longleftrightarrow> guest_is_active g \<or> guest_is_pending g"
proof -
  let ?f = "g_guest_flags g"
  have "?f AND (1 OR 4) = 0 \<longleftrightarrow> ?f AND 1 = 0 \<and> ?f AND 4 = 0"
    unfolding bit_zero_mask mask_bits by auto
  then show ?thesis
    by (simp add: guest_has_asid_def guest_is_active_def guest_is_pending_def guest_flag_defs)
qed

lemma inactive_flags: "guest_is_inactive g \<longleftrightarrow> \<not> guest_has_asid g"
  by (simp add: guest_is_inactive_def guest_has_asid_def)

lemma flag_bits:
  "guest_is_active g \<longleftrightarrow> bit (g_guest_flags g) 0"
  "guest_is_pending g \<longleftrightarrow> bit (g_guest_flags g) 2"
proof -
  have one: "bit (1 :: u32) n \<longleftrightarrow> n = 0" for n by (auto simp: bit_simps)
  have "bit (4 :: u32) n \<longleftrightarrow> n = 2" for n
    using bit_push_bit_iff [of 2 "1 :: u32" n] by (auto simp: one)
  with one show "guest_is_active g \<longleftrightarrow> bit (g_guest_flags g) 0"
    "guest_is_pending g \<longleftrightarrow> bit (g_guest_flags g) 2"
    by (auto simp: guest_is_active_def guest_is_pending_def guest_flag_defs bit_zero_mask bit_and_iff)
qed

lemma bits_of_flags:
  "bit SEV_GUEST_FLAGS_ACTIVE_FLAG n \<longleftrightarrow> n = 0"
  "bit SEV_GUEST_FLAGS_PENDING_FLAG n \<longleftrightarrow> n = 2"
proof -
  show "bit SEV_GUEST_FLAGS_ACTIVE_FLAG n \<longleftrightarrow> n = 0"
    by (auto simp: guest_flag_defs bit_simps)
  show "bit SEV_GUEST_FLAGS_PENDING_FLAG n \<longleftrightarrow> n = 2"
    using bit_push_bit_iff [of 2 "1 :: u32" n] by (auto simp: guest_flag_defs bit_simps)
qed

text \<open>The flags after each of the updates the code makes.\<close>

lemma flags_set_active:
  "guest_is_active (g\<lparr>g_guest_flags := (f OR SEV_GUEST_FLAGS_ACTIVE_FLAG) AND NOT SEV_GUEST_FLAGS_PENDING_FLAG\<rparr>)"
  "\<not> guest_is_pending (g\<lparr>g_guest_flags := (f OR SEV_GUEST_FLAGS_ACTIVE_FLAG) AND NOT SEV_GUEST_FLAGS_PENDING_FLAG\<rparr>)"
  "guest_is_active (g\<lparr>g_guest_flags := (f AND NOT SEV_GUEST_FLAGS_PENDING_FLAG) OR SEV_GUEST_FLAGS_ACTIVE_FLAG\<rparr>)"
  "\<not> guest_is_pending (g\<lparr>g_guest_flags := (f AND NOT SEV_GUEST_FLAGS_PENDING_FLAG) OR SEV_GUEST_FLAGS_ACTIVE_FLAG\<rparr>)"
  by (simp_all add: flag_bits mask_bits bits_of_flags)

lemma flags_set_pending:
  "guest_is_pending (g\<lparr>g_guest_flags := f OR SEV_GUEST_FLAGS_PENDING_FLAG\<rparr>)"
  "guest_is_active (g\<lparr>g_guest_flags := f OR SEV_GUEST_FLAGS_PENDING_FLAG\<rparr>) \<longleftrightarrow> bit f 0"
  by (simp_all add: flag_bits mask_bits bits_of_flags)

lemma flags_cleared:
  "\<not> guest_has_asid (g\<lparr>g_guest_flags := f AND NOT (SEV_GUEST_FLAGS_ACTIVE_FLAG OR SEV_GUEST_FLAGS_PENDING_FLAG)\<rparr>)"
  by (simp add: has_asid_flags flag_bits mask_bits bits_of_flags)

lemma guest_zero_no_asid [simp]: "\<not> guest_has_asid guest_zero"
  by (simp add: guest_has_asid_def guest_zero_def)

text \<open>The masks after the updates the code makes.\<close>

lemma partition_flush:
  assumes "mask_partition p d c a u"
  shows "mask_partition p (d AND NOT (d AND w)) (c OR (d AND w)) a u"
  using assms by (auto simp: mask_partition_def mask_bits dest: bit_u32_width)

lemma partition_allocate:
  assumes "mask_partition p 0 c a 0" and "submask x p"
  shows "mask_partition p 0 (c AND NOT x) (a OR x) 0"
  using assms by (auto simp: mask_partition_def submask_def mask_bits dest: bit_u32_width)

lemma partition_use:
  assumes "mask_partition p 0 c a u" and "submask x p" and "submask a x" and "submask u x"
  shows "mask_partition p 0 (c AND NOT x) (a AND NOT x) (u OR x)"
  using assms by (auto simp: mask_partition_def submask_def mask_bits dest: bit_u32_width)

lemma partition_free:
  assumes "mask_partition p d c a u"
  shows "mask_partition p d (c OR (a AND x)) (a AND NOT (a AND x)) u"
    and "mask_partition p (d OR (u AND x)) c a (u AND NOT (u AND x))"
  using assms by (auto simp: mask_partition_def mask_bits dest: bit_u32_width)

lemma submask_remove: "submask a x \<Longrightarrow> a AND NOT (a AND x) = 0"
  "submask a x \<Longrightarrow> a AND NOT x = 0"
  by (auto simp: submask_def bit_zero_mask mask_bits)

section \<open>Changes at one ASID\<close>

lemma asid_index:
  assumes "asid \<noteq> (0 :: u32)" and "asid \<le> GetMaxSEVASID"
  shows "asid - 1 < GetMaxSEVASID"
proof -
  have "unat (asid - 1) = unat asid - 1" using assms(1) by (rule unat_minus_one)
  moreover have "0 < unat asid" using assms(1) by (simp add: unat_gt_0)
  ultimately show ?thesis using assms(2) by (simp add: word_less_nat_alt word_le_nat_alt)
qed

definition same_masks :: "sev_plat \<Rightarrow> sev_plat \<Rightarrow> u32 \<Rightarrow> bool" where
  "same_masks s s' j \<longleftrightarrow> asid_dirty s' j = asid_dirty s j \<and> asid_clean s' j = asid_clean s j \<and>
     asid_allocated s' j = asid_allocated s j \<and> asid_in_use s' j = asid_in_use s j"

lemma owner_ok_cong:
  "same_masks s s' (g_asid g - 1) \<Longrightarrow> owner_ok A s' g = owner_ok A s g"
  by (simp add: owner_ok_def same_masks_def Let_def)

lemma masks_ok_cong: "same_masks s s' j \<Longrightarrow> masks_ok A s' j = masks_ok A s j"
  by (simp add: masks_ok_def same_masks_def)

lemma asid_inv_update:
  assumes inv: "asid_inv A s" and i: "i < GetMaxSEVASID"
    and table: "p_apic_ids s' = p_apic_ids s"
    and masks: "\<And>j. j \<noteq> i \<Longrightarrow> same_masks s s' j" "masks_ok A s' i"
    and guests: "\<And>r'. r' \<noteq> r \<Longrightarrow> p_guests s' r' = p_guests s r'"
    and others: "\<And>r'. r' \<noteq> r \<Longrightarrow> guest_has_asid (p_guests s r') \<Longrightarrow> g_asid (p_guests s r') \<noteq> i + 1"
    and was: "guest_has_asid (p_guests s r) \<Longrightarrow> g_asid (p_guests s r) = i + 1"
    and now: "guest_has_asid (p_guests s' r) \<Longrightarrow>
      g_asid (p_guests s' r) = i + 1 \<and> owner_ok A s' (p_guests s' r)"
    and freed: "\<not> guest_has_asid (p_guests s' r) \<Longrightarrow> asid_allocated s' i = 0 \<and> asid_in_use s' i = 0"
  shows "asid_inv A s'"
  unfolding asid_inv_def
proof (intro conjI allI impI)
  show "present A \<noteq> 0" using inv by (simp add: asid_inv_def)
  show "apic_table_ok A s'" using inv table by (simp add: asid_inv_def apic_table_ok_def)
next
  fix j assume "j < GetMaxSEVASID"
  then show "masks_ok A s' j"
    using inv masks masks_ok_cong [OF masks(1)] by (cases "j = i") (auto simp: asid_inv_def)
next
  fix r' assume h: "guest_has_asid (p_guests s' r')"
  show "owner_ok A s' (p_guests s' r')"
  proof (cases "r' = r")
    case True
    with h now show ?thesis by simp
  next
    case False
    with h guests have g: "p_guests s' r' = p_guests s r'" "guest_has_asid (p_guests s r')" by auto
    with others [OF False] have "g_asid (p_guests s r') - 1 \<noteq> i" by (auto simp: algebra_simps)
    from owner_ok_cong [OF masks(1) [OF this]] g inv show ?thesis
      by (simp add: asid_inv_def)
  qed
next
  fix r1 r2
  assume h: "guest_has_asid (p_guests s' r1)" "guest_has_asid (p_guests s' r2)"
    and eq: "g_asid (p_guests s' r1) = g_asid (p_guests s' r2)"
  show "r1 = r2"
  proof (cases "r1 = r \<or> r2 = r")
    case True
    then show ?thesis using h eq now guests others by metis
  next
    case False
    then show ?thesis using h eq guests inv by (simp add: asid_inv_def)
  qed
next
  fix j
  assume j: "j < GetMaxSEVASID"
    and no: "\<forall>r. guest_has_asid (p_guests s' r) \<longrightarrow> g_asid (p_guests s' r) \<noteq> j + 1"
  have "asid_allocated s' j = 0 \<and> asid_in_use s' j = 0"
  proof (cases "j = i")
    case True
    with no now freed show ?thesis by blast
  next
    case False
    have "guest_has_asid (p_guests s r') \<longrightarrow> g_asid (p_guests s r') \<noteq> j + 1" for r'
    proof (cases "r' = r")
      case True
      with was False show ?thesis by auto
    next
      case False
      with no guests [OF False] show ?thesis by metis
    qed
    with inv j have "asid_allocated s j = 0 \<and> asid_in_use s j = 0"
      by (simp add: asid_inv_def)
    with masks(1) [OF False] show ?thesis by (simp add: same_masks_def)
  qed
  then show "asid_allocated s' j = 0" and "asid_in_use s' j = 0" by simp_all
qed

text \<open>A change that leaves the masks and every guest's ASID alone.\<close>

lemma asid_inv_frame:
  assumes "asid_inv A s" and "p_apic_ids s' = p_apic_ids s" and "\<And>j. same_masks s s' j"
    and "\<And>r. guest_has_asid (p_guests s' r) = guest_has_asid (p_guests s r)"
    and "\<And>r. guest_has_asid (p_guests s r) \<Longrightarrow> g_asid (p_guests s' r) = g_asid (p_guests s r)"
    and "\<And>r. guest_has_asid (p_guests s r) \<Longrightarrow> owner_ok A s (p_guests s' r)"
  shows "asid_inv A s'"
  using assms(1) masks_ok_cong [OF assms(3)] owner_ok_cong [OF assms(3)] assms(2-)
  by (auto simp: asid_inv_def apic_table_ok_def same_masks_def)

section \<open>Every command preserves the invariant\<close>

lemma mask_disjoint_diff: "(d :: u32) AND w = 0 \<Longrightarrow> d AND (NOT d OR NOT w) = d"
  unfolding bit_zero_mask by (auto simp: bit_eq_iff mask_bits)

lemma flush_asid_fields:
  "asid_dirty (flush_asid w i s) j =
     (if j = of_nat i then asid_dirty s j AND NOT (asid_dirty s j AND w) else asid_dirty s j)"
  "asid_clean (flush_asid w i s) j =
     (if j = of_nat i then asid_clean s j OR (asid_dirty s j AND w) else asid_clean s j)"
  "asid_allocated (flush_asid w i s) = asid_allocated s" "asid_in_use (flush_asid w i s) = asid_in_use s"
  "p_guests (flush_asid w i s) = p_guests s" "p_apic_ids (flush_asid w i s) = p_apic_ids s"
  by (simp_all add: flush_asid_def Let_def mask_disjoint_diff)

lemma flush_asid_fold:
  "n \<le> MAX_SEV_ASIDS \<Longrightarrow>
    (\<forall>j. asid_dirty (fold (flush_asid w) [0..<n] s) j =
      (if unat j < n then asid_dirty s j AND NOT (asid_dirty s j AND w) else asid_dirty s j)) \<and>
    (\<forall>j. asid_clean (fold (flush_asid w) [0..<n] s) j =
      (if unat j < n then asid_clean s j OR (asid_dirty s j AND w) else asid_clean s j)) \<and>
    asid_allocated (fold (flush_asid w) [0..<n] s) = asid_allocated s \<and>
    asid_in_use (fold (flush_asid w) [0..<n] s) = asid_in_use s \<and>
    p_guests (fold (flush_asid w) [0..<n] s) = p_guests s \<and>
    p_apic_ids (fold (flush_asid w) [0..<n] s) = p_apic_ids s"
proof (induction n)
  case 0
  then show ?case by simp
next
  case (Suc n)
  from Suc.prems have n: "n < 2 ^ 32" by (simp add: MAX_SEV_ASIDS_def)
  have u: "unat (of_nat n :: u32) = n" using n by (simp add: unat_of_nat)
  then have j: "j = (of_nat n :: u32) \<longleftrightarrow> unat j = n" for j by (simp only: word_unat_eq_iff)
  let ?t = "fold (flush_asid w) [0..<n] s"
  have t: "fold (flush_asid w) [0..<Suc n] s = flush_asid w n ?t" by simp
  from Suc have IH: "\<And>j. asid_dirty ?t j =
      (if unat j < n then asid_dirty s j AND NOT (asid_dirty s j AND w) else asid_dirty s j)"
    "\<And>j. asid_clean ?t j =
      (if unat j < n then asid_clean s j OR (asid_dirty s j AND w) else asid_clean s j)"
    "asid_allocated ?t = asid_allocated s" "asid_in_use ?t = asid_in_use s"
    "p_guests ?t = p_guests s" "p_apic_ids ?t = p_apic_ids s" by simp_all
  show ?case
    by (auto simp only: t flush_asid_fields IH j less_Suc_eq split: if_splits)
qed

lemma flush_inv:
  assumes "asid_inv A s"
  shows "asid_inv A (fold (flush_asid w) [0..<MAX_SEV_ASIDS] s)"
proof -
  let ?s = "fold (flush_asid w) [0..<MAX_SEV_ASIDS] s"
  note ff = flush_asid_fold [of MAX_SEV_ASIDS w s, OF order_refl]
  have d: "asid_dirty s j = 0 \<Longrightarrow> asid_dirty ?s j = 0" for j using ff by simp
  have "masks_ok A ?s j" if "masks_ok A s j" for j
    using that partition_flush [of "present A" "asid_dirty s j" _ _ _ w] ff by (simp add: masks_ok_def)
  moreover have "owner_ok A ?s g = owner_ok A s g" if "owner_ok A s g" for g
    using that ff d by (simp add: owner_ok_def Let_def)
  ultimately show ?thesis
    using assms ff by (simp add: asid_inv_def apic_table_ok_def)
qed

lemma asid_inv_others:
  assumes "asid_inv A s" and "p_guests s' = p_guests s" and "p_apic_ids s' = p_apic_ids s"
    and "asid_dirty s' = asid_dirty s" and "asid_clean s' = asid_clean s"
    and "asid_allocated s' = asid_allocated s" and "asid_in_use s' = asid_in_use s"
  shows "asid_inv A s'"
  by (rule asid_inv_frame [OF assms(1)]) (use assms in \<open>simp_all add: same_masks_def asid_inv_def\<close>)

lemma df_flush_fabric_inv:
  assumes "asid_inv A s" and "df_flush_fabric A X fl slave s = (st, s')"
  shows "asid_inv A s'"
proof -
  have "s' = s \<or> (\<exists>es m tmr. s' = s\<lparr>p_es := es, p_dram := m, p_tmr := tmr\<rparr>)"
    using assms(2) by (auto simp: df_flush_fabric_def split: if_split_asm prod.split_asm)
  then show ?thesis
    using assms(1) by (elim disjE exE) (auto intro!: asid_inv_others [OF assms(1)])
qed

lemma df_flush_inv:
  assumes "asid_inv A s" and "mcmd_df_flush_common A X fl slave s = (st, s')"
  shows "asid_inv A s'"
proof -
  obtain st1 dn w where scan: "is_wbinvd_done (ae_tmr A) (ae_topology A) (p_tmr s) = (st1, dn, w)"
    by (cases "is_wbinvd_done (ae_tmr A) (ae_topology A) (p_tmr s)") auto
  define s1 where "s1 = (if w \<noteq> 0 then fold (flush_asid w) [0..<MAX_SEV_ASIDS] s else s)"
  have inv: "asid_inv A s1" using flush_inv [OF assms(1)] assms(1) by (simp add: s1_def)
  have "mcmd_df_flush_common A X fl slave s =
      (if st1 \<noteq> SEV_STATUS_SUCCESS then (st1, s)
       else if \<not> dn then (SEV_STATUS_WBINVD_REQUIRED, s1) else df_flush_fabric A X fl slave s1)"
    by (simp only: mcmd_df_flush_common_def scan prod.case Let_def s1_def)
  with assms inv df_flush_fabric_inv [OF inv] show ?thesis by (auto split: if_split_asm)
qed

text \<open>What \<open>sev_guest_activate\<close> does to the guest.\<close>

lemma activate_ccxs_fail:
  assumes "activate_ccxs A g ccxs tmr = (st, g', tmr')" and "st \<noteq> SEV_STATUS_SUCCESS"
  shows "g' = g\<lparr>g_ccxs := g_ccxs g OR ccxs\<rparr>"
  using assms by (auto simp: activate_ccxs_def Let_def split: if_split_asm prod.split_asm)

lemma activate_ccxs_ok:
  assumes "activate_ccxs A g ccxs tmr = (SEV_STATUS_SUCCESS, g', tmr')"
  shows "\<exists>f. g' = g\<lparr>g_ccxs := g_ccxs g OR ccxs, g_guest_flags := f\<rparr> \<and>
    (if guest_should_run (g\<lparr>g_ccxs := g_ccxs g OR ccxs\<rparr>) then bit f 0 \<and> \<not> bit f 2
     else bit f 2 \<and> bit f 0 = bit (g_guest_flags g) 0)"
  using assms
  by (auto simp: activate_ccxs_def Let_def mask_bits bits_of_flags
      split: if_split_asm prod.split_asm)

lemma guest_activate_fail:
  assumes "sev_guest_activate A d g asid ccxs tmr = (st, g', tmr')" and "st \<noteq> SEV_STATUS_SUCCESS"
  shows "\<exists>a c. g' = g\<lparr>g_asid := a, g_ccxs := c\<rparr> \<and> (c = g_ccxs g \<or> c = g_ccxs g OR ccxs) \<and>
    (guest_has_asid g \<longrightarrow> a = g_asid g)"
proof -
  consider "g' = g" | "\<not> guest_has_asid g" "activate_ccxs A (g\<lparr>g_asid := asid\<rparr>) ccxs tmr = (st, g', tmr')"
    | "guest_has_asid g" "activate_ccxs A g ccxs tmr = (st, g', tmr')"
    using assms unfolding sev_guest_activate_def Let_def by (auto split: if_split_asm)
  then show ?thesis
  proof cases
    case 1
    then show ?thesis by (intro exI [of _ "g_asid g"] exI [of _ "g_ccxs g"]) simp
  next
    case 2
    with activate_ccxs_fail [OF 2(2) assms(2)] show ?thesis
      by (intro exI [of _ asid] exI [of _ "g_ccxs g OR ccxs"]) simp
  next
    case 3
    with activate_ccxs_fail [OF 3(2) assms(2)] show ?thesis
      by (intro exI [of _ "g_asid g"] exI [of _ "g_ccxs g OR ccxs"]) simp
  qed
qed

lemma guest_activate_ok:
  assumes "sev_guest_activate A d g asid ccxs tmr = (SEV_STATUS_SUCCESS, g', tmr')"
  shows "d (asid - 1) AND ccxs = 0"
    and "\<exists>f. g' = g\<lparr>g_asid := (if guest_has_asid g then g_asid g else asid),
                     g_ccxs := g_ccxs g OR ccxs, g_guest_flags := f\<rparr> \<and>
      (if guest_should_run (g\<lparr>g_ccxs := g_ccxs g OR ccxs\<rparr>) then bit f 0 \<and> \<not> bit f 2
       else bit f 2 \<and> bit f 0 = bit (g_guest_flags g) 0)"
proof -
  show "d (asid - 1) AND ccxs = 0"
    using assms unfolding sev_guest_activate_def Let_def by (auto split: if_split_asm)
  consider "\<not> guest_has_asid g" "activate_ccxs A (g\<lparr>g_asid := asid\<rparr>) ccxs tmr = (SEV_STATUS_SUCCESS, g', tmr')"
    | "guest_has_asid g" "activate_ccxs A g ccxs tmr = (SEV_STATUS_SUCCESS, g', tmr')"
    using assms unfolding sev_guest_activate_def Let_def by (auto split: if_split_asm)
  then show "\<exists>f. g' = g\<lparr>g_asid := (if guest_has_asid g then g_asid g else asid),
                     g_ccxs := g_ccxs g OR ccxs, g_guest_flags := f\<rparr> \<and>
      (if guest_should_run (g\<lparr>g_ccxs := g_ccxs g OR ccxs\<rparr>) then bit f 0 \<and> \<not> bit f 2
       else bit f 2 \<and> bit f 0 = bit (g_guest_flags g) 0)"
  proof cases
    case 1
    with activate_ccxs_ok [OF 1(2)] show ?thesis by (auto simp: guest_should_run_def)
  next
    case 2
    with activate_ccxs_ok [OF 2(2)] show ?thesis by auto
  qed
qed

lemma guest_runs_cong:
  "g_type g' = g_type g \<Longrightarrow> g_sev_state g' = g_sev_state g \<Longrightarrow> g_snp_state g' = g_snp_state g \<Longrightarrow>
     guest_runs g' = guest_runs g"
  by (simp add: guest_runs_def)

lemma flags_cong:
  assumes "g_guest_flags g' = g_guest_flags g"
  shows "guest_has_asid g' = guest_has_asid g" "guest_is_active g' = guest_is_active g"
    "guest_is_pending g' = guest_is_pending g"
  using assms by (simp_all add: guest_has_asid_def guest_is_active_def guest_is_pending_def)

lemma ccxs_upd_flags [simp]:
  "guest_has_asid (g\<lparr>g_ccxs := c\<rparr>) = guest_has_asid g"
  "guest_is_active (g\<lparr>g_ccxs := c\<rparr>) = guest_is_active g"
  "guest_is_pending (g\<lparr>g_ccxs := c\<rparr>) = guest_is_pending g"
  by (simp_all add: guest_has_asid_def guest_is_active_def guest_is_pending_def)

lemma or_eq_zero: "(a :: u32) OR b = 0 \<longleftrightarrow> a = 0 \<and> b = 0"
  unfolding bit_zero_mask by (auto simp: bit_or_iff)

text \<open>An ASID that is clean on all CCXs has no owner.\<close>

lemma clean_asid_unowned:
  assumes "asid_inv A s" and "i < GetMaxSEVASID" and "asid_clean s i = present A"
  shows "asid_allocated s i = 0" and "asid_in_use s i = 0"
    and "guest_has_asid (p_guests s r) \<Longrightarrow> g_asid (p_guests s r) \<noteq> i + 1"
proof -
  from assms have m: "masks_ok A s i" by (simp add: asid_inv_def)
  with assms(3) show z: "asid_allocated s i = 0" "asid_in_use s i = 0"
    unfolding bit_zero_mask by (auto simp: masks_ok_def mask_partition_def)
  assume "guest_has_asid (p_guests s r)"
  with assms(1) have "owner_ok A s (p_guests s r)" by (simp add: asid_inv_def)
  then show "g_asid (p_guests s r) \<noteq> i + 1" using z by (auto simp: owner_ok_def Let_def)
qed

lemma owned_asid_unique:
  assumes "asid_inv A s" and "guest_has_asid (p_guests s r)" and "r' \<noteq> r"
    and "guest_has_asid (p_guests s r')"
  shows "g_asid (p_guests s r') \<noteq> g_asid (p_guests s r)"
  using assms by (auto simp: asid_inv_def)

lemma should_run_iff:
  assumes "c \<noteq> 0" and "g_sev_state g \<noteq> SEV_GUEST_STATE_SENT"
  shows "guest_should_run (g\<lparr>g_ccxs := c\<rparr>) \<longleftrightarrow> guest_runs g"
  using assms by (auto simp: guest_should_run_def guest_runs_def)

lemma owner_ok_more_ccxs:
  assumes "owner_ok A s g" and "submask (g_ccxs g) c" and "submask c (present A)"
  shows "owner_ok A s (g\<lparr>g_asid := g_asid g, g_ccxs := c\<rparr>)"
proof -
  have "c \<noteq> 0" using assms(1,2) by (auto simp: owner_ok_def Let_def submask_def bit_zero_mask)
  with assms show ?thesis
    by (auto simp: owner_ok_def Let_def submask_def guest_runs_def flag_bits)
qed

lemma activate_common_fail_inv:
  assumes "asid_inv A s" and "submask ccxs (present A)" and "guest_has_asid (p_guests s r) \<longrightarrow> asid = g_asid (p_guests s r)"
    and "g1 = (p_guests s r)\<lparr>g_ccxs := c1\<rparr>"
    and "guest_has_asid (p_guests s r) \<Longrightarrow> c1 = g_ccxs (p_guests s r) OR ccxs"
    and "sev_guest_activate A d g1 asid ccxs tm = (st, g2, tmr)" and "st \<noteq> SEV_STATUS_SUCCESS"
  shows "asid_inv A (set_guest r g2 (s\<lparr>p_tmr := tmr\<rparr>))"
proof -
  let ?g = "p_guests s r"
  from guest_activate_fail [OF assms(6,7)] obtain a c where
    g2: "g2 = g1\<lparr>g_asid := a, g_ccxs := c\<rparr>" and c: "c = g_ccxs g1 \<or> c = g_ccxs g1 OR ccxs"
    and a: "guest_has_asid g1 \<longrightarrow> a = g_asid g1" by blast
  have fl: "guest_has_asid g2 = guest_has_asid ?g"
    by (rule flags_cong) (simp add: g2 assms(4))
  show ?thesis
  proof (rule asid_inv_frame [OF assms(1)])
    fix r'
    assume h: "guest_has_asid (p_guests s r')"
    then have ok: "owner_ok A s (p_guests s r')" using assms(1) by (simp add: asid_inv_def)
    show "owner_ok A s (p_guests (set_guest r g2 (s\<lparr>p_tmr := tmr\<rparr>)) r')"
    proof (cases "r' = r")
      case True
      with h have h': "guest_has_asid ?g" by simp
      with a assms(4) have "a = g_asid ?g" by simp
      then have "g2 = ?g\<lparr>g_asid := g_asid ?g, g_ccxs := c\<rparr>" using g2 assms(4) by simp
      moreover have "submask (g_ccxs ?g) c" "submask c (present A)"
        using c assms(2,4) assms(5) [OF h'] ok True
        by (auto simp: owner_ok_def Let_def submask_or_right)
      ultimately show ?thesis using owner_ok_more_ccxs [of A s ?g c] ok True by simp
    next
      case False
      with ok show ?thesis by simp
    qed
    show "g_asid (p_guests (set_guest r g2 (s\<lparr>p_tmr := tmr\<rparr>)) r') = g_asid (p_guests s r')"
      using h a g2 assms(4) by auto
  qed (use fl in \<open>auto simp: same_masks_def\<close>)
qed

text \<open>The state of an ASID just before a guest is activated on it: the guest owns it or nobody
  does.\<close>

definition activatable :: "act_env \<Rightarrow> sev_plat \<Rightarrow> guest_ref \<Rightarrow> u32 \<Rightarrow> bool" where
  "activatable A s r asid \<longleftrightarrow>
     (if guest_has_asid (p_guests s r) then asid = g_asid (p_guests s r)
      else asid_dirty s (asid - 1) = 0 \<and> asid_clean s (asid - 1) = present A)"

definition own_ccxs :: "sev_guest \<Rightarrow> u32" where
  "own_ccxs g = (if guest_has_asid g then g_ccxs g else 0)"

lemma activatable_facts:
  assumes inv: "asid_inv A s" and asid: "asid \<noteq> 0" "asid \<le> GetMaxSEVASID"
    and act: "activatable A s r asid"
  shows "asid_dirty s (asid - 1) = 0" and "masks_ok A s (asid - 1)"
    and "submask (asid_allocated s (asid - 1)) (own_ccxs (p_guests s r))"
    and "submask (asid_in_use s (asid - 1)) (own_ccxs (p_guests s r))"
    and "submask (own_ccxs (p_guests s r)) (present A)"
    and "\<not> guest_runs (p_guests s r) \<Longrightarrow> asid_in_use s (asid - 1) = 0 \<and> \<not> guest_is_active (p_guests s r)"
    and "r' \<noteq> r \<Longrightarrow> guest_has_asid (p_guests s r') \<Longrightarrow> g_asid (p_guests s r') \<noteq> asid - 1 + 1"
proof -
  let ?g = "p_guests s r" and ?i = "asid - 1"
  note i = asid_index [OF asid]
  show "masks_ok A s ?i" using inv i by (simp add: asid_inv_def)
  have *: "asid_dirty s ?i = 0 \<and> submask (asid_allocated s ?i) (own_ccxs ?g) \<and>
      submask (asid_in_use s ?i) (own_ccxs ?g) \<and> submask (own_ccxs ?g) (present A) \<and>
      (\<not> guest_runs ?g \<longrightarrow> asid_in_use s ?i = 0 \<and> \<not> guest_is_active ?g) \<and>
      (r' \<noteq> r \<longrightarrow> guest_has_asid (p_guests s r') \<longrightarrow> g_asid (p_guests s r') \<noteq> asid)"
  proof (cases "guest_has_asid ?g")
    case True
    with inv have "owner_ok A s ?g" by (simp add: asid_inv_def)
    with True act owned_asid_unique [OF inv True] show ?thesis
      by (auto simp: owner_ok_def Let_def activatable_def own_ccxs_def)
  next
    case False
    with act have c: "asid_clean s ?i = present A" "asid_dirty s ?i = 0"
      by (simp_all add: activatable_def)
    from clean_asid_unowned [OF inv i c(1)] False c show ?thesis
      by (simp add: own_ccxs_def has_asid_flags)
  qed
  then show "asid_dirty s ?i = 0" "submask (asid_allocated s ?i) (own_ccxs ?g)"
    "submask (asid_in_use s ?i) (own_ccxs ?g)" "submask (own_ccxs ?g) (present A)"
    "\<not> guest_runs ?g \<Longrightarrow> asid_in_use s ?i = 0 \<and> \<not> guest_is_active ?g"
    by auto
  show "g_asid (p_guests s r') \<noteq> asid - 1 + 1" if "r' \<noteq> r" "guest_has_asid (p_guests s r')"
    using * that by simp
qed

lemma activated_pending_inv:
  assumes inv: "asid_inv A s" and asid: "asid \<noteq> 0" "asid \<le> GetMaxSEVASID"
    and act: "activatable A s r asid"
    and ccxs: "ccxs \<noteq> 0" "submask ccxs (present A)"
    and g2: "g2 = (p_guests s r)\<lparr>g_asid := asid, g_ccxs := own_ccxs (p_guests s r) OR ccxs, g_guest_flags := f\<rparr>"
    and f: "bit f 2" "bit f 0 = guest_is_active (p_guests s r)" and run: "\<not> guest_runs (p_guests s r)"
    and s': "s' = (set_guest r g2 (s\<lparr>p_tmr := tmr\<rparr>))
      \<lparr>asid_allocated := (asid_allocated s)(asid - 1 := asid_allocated s (asid - 1) OR ccxs),
       asid_clean := (asid_clean s)(asid - 1 := asid_clean s (asid - 1) AND NOT ccxs)\<rparr>"
  shows "asid_inv A s'"
proof -
  let ?i = "asid - 1"
  note af = activatable_facts [OF inv asid act]
  have u0: "asid_in_use s ?i = 0" "\<not> bit f 0" using af(6) run f by auto
  have m: "masks_ok A s' ?i"
    using af(1,2) u0(1) ccxs(2) by (simp add: s' masks_ok_def partition_allocate)
  have runs: "guest_runs g2 = guest_runs (p_guests s r)" by (simp add: g2 guest_runs_def)
  have own: "owner_ok A s' g2"
    using asid af(1,3,5) ccxs u0 f(1) run runs
    by (simp add: owner_ok_def Let_def g2 s' flag_bits or_eq_zero submask_or_right)
  show ?thesis
  proof (rule asid_inv_update [OF inv asid_index [OF asid], where r = r])
    show "guest_has_asid (p_guests s r) \<Longrightarrow> g_asid (p_guests s r) = ?i + 1"
      using act by (simp add: activatable_def)
    show "guest_has_asid (p_guests s' r) \<Longrightarrow> g_asid (p_guests s' r) = ?i + 1 \<and> owner_ok A s' (p_guests s' r)"
      using own by (simp add: s' g2)
    show "\<not> guest_has_asid (p_guests s' r) \<Longrightarrow> asid_allocated s' ?i = 0 \<and> asid_in_use s' ?i = 0"
      using f(1) by (simp add: s' g2 has_asid_flags flag_bits)
    show "\<And>r'. r' \<noteq> r \<Longrightarrow> guest_has_asid (p_guests s r') \<Longrightarrow> g_asid (p_guests s r') \<noteq> ?i + 1"
      by (rule af(7))
  qed (use m in \<open>simp_all add: s' same_masks_def\<close>)
qed

lemma activated_running_inv:
  assumes inv: "asid_inv A s" and asid: "asid \<noteq> 0" "asid \<le> GetMaxSEVASID"
    and act: "activatable A s r asid"
    and ccxs: "ccxs \<noteq> 0" "submask ccxs (present A)"
    and g2: "g2 = (p_guests s r)\<lparr>g_asid := asid, g_ccxs := own_ccxs (p_guests s r) OR ccxs, g_guest_flags := f\<rparr>"
    and f: "bit f 0" "\<not> bit f 2" and run: "guest_runs (p_guests s r)"
    and s': "s' = (set_guest r g2 (s\<lparr>p_tmr := tmr\<rparr>))
      \<lparr>asid_in_use := (asid_in_use s)(asid - 1 := asid_in_use s (asid - 1) OR g_ccxs g2),
       asid_allocated := (asid_allocated s)(asid - 1 := asid_allocated s (asid - 1) AND NOT (g_ccxs g2)),
       asid_clean := (asid_clean s)(asid - 1 := asid_clean s (asid - 1) AND NOT (g_ccxs g2))\<rparr>"
  shows "asid_inv A s'"
proof -
  let ?i = "asid - 1"
  note af = activatable_facts [OF inv asid act]
  have c: "g_ccxs g2 = own_ccxs (p_guests s r) OR ccxs" by (simp add: g2)
  have sub: "submask (g_ccxs g2) (present A)" "submask (asid_allocated s ?i) (g_ccxs g2)"
    "submask (asid_in_use s ?i) (g_ccxs g2)"
    using af(3-5) ccxs by (simp_all add: c submask_or_right)
  have m: "masks_ok A s' ?i"
    using af(1,2) sub by (simp add: s' masks_ok_def partition_use)
  have runs: "guest_runs g2 = guest_runs (p_guests s r)" by (simp add: g2 guest_runs_def)
  have z: "asid_allocated s' ?i = 0" using sub(2) by (simp add: s' submask_remove)
  have own: "owner_ok A s' g2"
    using asid af(1) ccxs sub f run runs z c
    by (simp add: owner_ok_def Let_def flag_bits or_eq_zero) (simp add: g2 s' or_eq_zero)
  show ?thesis
  proof (rule asid_inv_update [OF inv asid_index [OF asid], where r = r])
    show "guest_has_asid (p_guests s r) \<Longrightarrow> g_asid (p_guests s r) = ?i + 1"
      using act by (simp add: activatable_def)
    show "guest_has_asid (p_guests s' r) \<Longrightarrow> g_asid (p_guests s' r) = ?i + 1 \<and> owner_ok A s' (p_guests s' r)"
      using own by (simp add: s' g2)
    show "\<not> guest_has_asid (p_guests s' r) \<Longrightarrow> asid_allocated s' ?i = 0 \<and> asid_in_use s' ?i = 0"
      using f(1) by (simp add: s' g2 has_asid_flags flag_bits)
    show "\<And>r'. r' \<noteq> r \<Longrightarrow> guest_has_asid (p_guests s r') \<Longrightarrow> g_asid (p_guests s r') \<noteq> ?i + 1"
      by (rule af(7))
  qed (use m in \<open>simp_all add: s' same_masks_def\<close>)
qed

lemma activate_common_inv:
  assumes inv: "asid_inv A s" and asid: "asid \<noteq> 0" "asid \<le> GetMaxSEVASID"
    and ccxs: "ccxs \<noteq> 0" "submask ccxs (present A)"
    and step: "activate_common A r asid ccxs s = (st, s')"
  shows "asid_inv A s'"
proof -
  let ?g = "p_guests s r" and ?i = "asid - 1"
  define g1 where "g1 = (if \<not> guest_has_asid ?g then ?g\<lparr>g_ccxs := 0\<rparr> else ?g\<lparr>g_ccxs := g_ccxs ?g OR ccxs\<rparr>)"
  obtain st1 g2 tmr where act1: "sev_guest_activate A (asid_dirty s) g1 asid ccxs (p_tmr s) = (st1, g2, tmr)"
    by (cases "sev_guest_activate A (asid_dirty s) g1 asid ccxs (p_tmr s)") auto
  define s1 where "s1 = set_guest r g2 (s\<lparr>p_tmr := tmr\<rparr>)"
  consider "s' = s" | "g_sev_state ?g \<noteq> SEV_GUEST_STATE_SENT" and "activatable A s r asid"
    and "(st, s') =
      (if st1 \<noteq> SEV_STATUS_SUCCESS then (st1, s1)
       else if guest_is_pending g2 then
         (SEV_STATUS_SUCCESS,
          s1\<lparr>asid_allocated := (asid_allocated s1)(?i := asid_allocated s1 ?i OR ccxs),
             asid_clean := (asid_clean s1)(?i := asid_clean s1 ?i AND NOT ccxs)\<rparr>)
       else if guest_is_active g2 then
         (SEV_STATUS_SUCCESS,
          s1\<lparr>asid_in_use := (asid_in_use s1)(?i := asid_in_use s1 ?i OR g_ccxs g2),
             asid_allocated := (asid_allocated s1)(?i := asid_allocated s1 ?i AND NOT (g_ccxs g2)),
             asid_clean := (asid_clean s1)(?i := asid_clean s1 ?i AND NOT (g_ccxs g2))\<rparr>)
       else (SEV_STATUS_SUCCESS, s1))"
    using step act1 unfolding activate_common_def Let_def g1_def [symmetric]
    by (auto simp: s1_def activatable_def split: if_split_asm)
  then show ?thesis
  proof cases
    case 1
    with inv show ?thesis by simp
  next
    case 2
    have h1: "guest_has_asid g1 = guest_has_asid ?g" by (simp add: g1_def)
    show ?thesis
    proof (cases "st1 = SEV_STATUS_SUCCESS")
      case False
      with 2(3) have s'1: "s' = s1" by simp
      show ?thesis
        unfolding s'1 s1_def
        by (rule activate_common_fail_inv [OF inv ccxs(2) _ _ _ act1 False,
              where ?c1.0 = "if \<not> guest_has_asid ?g then 0 else g_ccxs ?g OR ccxs"])
           (use 2(2) in \<open>auto simp: activatable_def g1_def\<close>)
    next
      case True
      from guest_activate_ok(2) [OF act1 [unfolded True]] obtain f where
        g2': "g2 = g1\<lparr>g_asid := (if guest_has_asid g1 then g_asid g1 else asid),
               g_ccxs := g_ccxs g1 OR ccxs, g_guest_flags := f\<rparr>"
        and f: "if guest_should_run (g1\<lparr>g_ccxs := g_ccxs g1 OR ccxs\<rparr>) then bit f 0 \<and> \<not> bit f 2
          else bit f 2 \<and> bit f 0 = bit (g_guest_flags g1) 0" by blast
      have g2: "g2 = ?g\<lparr>g_asid := asid, g_ccxs := own_ccxs ?g OR ccxs, g_guest_flags := f\<rparr>"
        using 2(2) h1 by (auto simp: g2' g1_def own_ccxs_def activatable_def or.assoc)
      have "guest_should_run (g1\<lparr>g_ccxs := g_ccxs g1 OR ccxs\<rparr>) = guest_runs g1"
        using 2(1) ccxs(1) by (subst should_run_iff) (auto simp: g1_def or_eq_zero)
      also have "\<dots> = guest_runs ?g" by (simp add: g1_def guest_runs_def)
      finally have run: "guest_should_run (g1\<lparr>g_ccxs := g_ccxs g1 OR ccxs\<rparr>) = guest_runs ?g" .
      have fl: "bit (g_guest_flags g1) 0 = guest_is_active ?g" by (simp add: g1_def flag_bits)
      have p2: "guest_is_pending g2 = bit f 2" "guest_is_active g2 = bit f 0"
        by (simp_all add: g2 flag_bits)
      show ?thesis
      proof (cases "guest_runs ?g")
        case False
        with f run fl have ff: "bit f 2" "bit f 0 = guest_is_active ?g" by auto
        show ?thesis
          by (rule activated_pending_inv [OF inv asid 2(2) ccxs g2 ff False, where tmr = tmr])
             (use 2(3) True p2 ff in \<open>simp add: s1_def\<close>)
      next
        case r: True
        with f run have ff: "bit f 0" "\<not> bit f 2" by auto
        show ?thesis
          by (rule activated_running_inv [OF inv asid 2(2) ccxs g2 ff r, where tmr = tmr])
             (use 2(3) True p2 ff in \<open>simp add: s1_def\<close>)
      qed
    qed
  qed
qed

lemma mcmd_activate_inv:
  assumes "asid_inv A s" and "mcmd_activate_common A r asid s = (st, s')"
  shows "asid_inv A s'"
proof -
  have p: "present A \<noteq> 0" using assms(1) by (simp add: asid_inv_def)
  consider "s' = s" | "asid \<noteq> 0" "asid \<le> GetMaxSEVASID" "activate_common A r asid (present A) s = (st, s')"
    using assms(2) by (auto simp: mcmd_activate_common_def not_less split: if_split_asm)
  then show ?thesis
    by cases (use assms(1) activate_common_inv [OF assms(1) _ _ p submask_refl] in auto)
qed

lemma apicid_bitmask_sub:
  assumes "\<forall>id. ucast (tbl id) AND APIC_ID_ENTRY_VALID \<noteq> (0 :: u32) \<longrightarrow>
      bit p (unat (ucast (tbl id) AND NOT APIC_ID_ENTRY_VALID :: u32))"
    and "apicid_bitmask tbl ids acc = Inr m" and "submask acc p"
  shows "submask m p \<and> submask acc m \<and> (ids \<noteq> [] \<longrightarrow> m \<noteq> 0)"
  using assms(2,3)
proof (induction ids arbitrary: acc)
  case Nil
  then show ?case by simp
next
  case (Cons id ids)
  let ?v = "ucast (tbl id) :: u32"
  let ?b = "push_bit (unat (?v AND NOT APIC_ID_ENTRY_VALID)) 1 :: u32"
  from Cons.prems(1) have v: "?v AND APIC_ID_ENTRY_VALID \<noteq> 0"
    and rest: "apicid_bitmask tbl ids (acc OR ?b) = Inr m"
    by (auto simp: Let_def split: if_split_asm)
  from assms(1) v have k: "bit p (unat (?v AND NOT APIC_ID_ENTRY_VALID))" by blast
  then have b: "submask ?b p" "?b \<noteq> 0"
    using bit_u32_width [OF k] unfolding bit_zero_mask by (auto simp: submask_def bit_simps)
  with Cons.prems(2) have "submask (acc OR ?b) p" by simp
  from Cons.IH [OF rest this] have IH: "submask m p" "submask (acc OR ?b) m" by auto
  then have "m \<noteq> 0" using b(2) unfolding bit_zero_mask submask_def by (auto simp: bit_or_iff)
  with IH show ?case by simp
qed

lemma activate_ex_inv:
  assumes "asid_inv A s" and "length (x_ids x) = unat (x_numids x)"
    and "mcmd_activate_ex_common A x r s = (st, s')"
  shows "asid_inv A s'"
proof (cases "s' = s")
  case True
  with assms(1) show ?thesis by simp
next
  case False
  with assms(3) obtain ccxs where a: "x_asid x \<noteq> 0" "x_asid x \<le> GetMaxSEVASID" "x_numids x \<noteq> 0"
    and m: "apicid_to_ccx_bitmask (p_apic_ids s) True (take (unat (x_numids x)) (x_ids x)) = Inr ccxs"
    and act: "activate_common A r (x_asid x) ccxs s = (st, s')"
    by (auto simp: mcmd_activate_ex_common_def Let_def not_less split: if_split_asm sum.split_asm)
  have ne: "take (unat (x_numids x)) (x_ids x) \<noteq> []"
    using a(3) assms(2) by (auto simp: unat_eq_zero)
  from m have "apicid_bitmask (p_apic_ids s) (take (unat (x_numids x)) (x_ids x)) 0 = Inr ccxs"
    by (auto simp: apicid_to_ccx_bitmask_def split: if_split_asm)
  from apicid_bitmask_sub [OF _ this submask_zero] assms(1) ne
  have "submask ccxs (present A)" "ccxs \<noteq> 0"
    by (auto simp: asid_inv_def apic_table_ok_def)
  with activate_common_inv [OF assms(1) a(1,2)] act show ?thesis by blast
qed

text \<open>Deactivation.\<close>

lemma release_ccxs_fields:
  assumes "submask (asid_allocated s (asid - 1)) ccxs" and "submask (asid_in_use s (asid - 1)) ccxs"
  shows "asid_allocated (release_ccxs asid ccxs s) (asid - 1) = 0"
    and "asid_in_use (release_ccxs asid ccxs s) (asid - 1) = 0"
    and "asid_clean (release_ccxs asid ccxs s) (asid - 1) =
      asid_clean s (asid - 1) OR (asid_allocated s (asid - 1) AND ccxs)"
    and "asid_dirty (release_ccxs asid ccxs s) (asid - 1) =
      asid_dirty s (asid - 1) OR (asid_in_use s (asid - 1) AND ccxs)"
    and "p_guests (release_ccxs asid ccxs s) = p_guests s"
    and "p_apic_ids (release_ccxs asid ccxs s) = p_apic_ids s"
    and "j \<noteq> asid - 1 \<Longrightarrow> same_masks s (release_ccxs asid ccxs s) j"
proof -
  have z: "submask m ccxs \<Longrightarrow> m AND ccxs = 0 \<Longrightarrow> m = 0" for m
    unfolding bit_zero_mask submask_def by (auto simp: bit_and_iff)
  from z [OF assms(1)] z [OF assms(2)] submask_remove(1) [OF assms(1)] submask_remove(1) [OF assms(2)]
  show "asid_allocated (release_ccxs asid ccxs s) (asid - 1) = 0"
    and "asid_in_use (release_ccxs asid ccxs s) (asid - 1) = 0"
    by (auto simp: release_ccxs_def Let_def)
  show "asid_clean (release_ccxs asid ccxs s) (asid - 1) =
      asid_clean s (asid - 1) OR (asid_allocated s (asid - 1) AND ccxs)"
    and "asid_dirty (release_ccxs asid ccxs s) (asid - 1) =
      asid_dirty s (asid - 1) OR (asid_in_use s (asid - 1) AND ccxs)"
    and "p_guests (release_ccxs asid ccxs s) = p_guests s"
    and "p_apic_ids (release_ccxs asid ccxs s) = p_apic_ids s"
    by (auto simp: release_ccxs_def Let_def)
  show "same_masks s (release_ccxs asid ccxs s) j" if "j \<noteq> asid - 1"
    using that by (auto simp: release_ccxs_def Let_def same_masks_def)
qed

lemma guest_deactivate_cases:
  assumes "sev_guest_deactivate A g w tmr = (st, g', tmr')"
  shows "st \<noteq> SEV_STATUS_SUCCESS \<and> g' = g \<or>
    st = SEV_STATUS_SUCCESS \<and> g' = g\<lparr>g_asid := 0, g_ccxs := 0, g_guest_flags := g_guest_flags g AND
        NOT (SEV_GUEST_FLAGS_ACTIVE_FLAG OR SEV_GUEST_FLAGS_PENDING_FLAG)\<rparr>"
  using assms
  by (auto simp: sev_guest_deactivate_def split: if_split_asm prod.split_asm)

lemma deactivate_inv:
  assumes inv: "asid_inv A s" and has: "guest_has_asid (p_guests s r)"
    and step: "deactivate_guest A r s = (st, s')"
  shows "asid_inv A s'"
    and "st = SEV_STATUS_SUCCESS \<Longrightarrow> \<not> guest_has_asid (p_guests s' r) \<and>
      g_asid (p_guests s' r) = 0 \<and> p_guests s' = (p_guests s)(r := p_guests s' r)"
proof -
  let ?g = "p_guests s r"
  let ?i = "g_asid ?g - 1"
  obtain st1 g' tmr where d: "sev_guest_deactivate A ?g (asid_in_use s ?i) (p_tmr s) = (st1, g', tmr)"
    by (cases "sev_guest_deactivate A ?g (asid_in_use s ?i) (p_tmr s)") auto
  define s1 where "s1 = set_guest r g' (s\<lparr>p_tmr := tmr\<rparr>)"
  have step': "(st, s') = (if st1 \<noteq> SEV_STATUS_SUCCESS then (st1, s1)
      else (SEV_STATUS_SUCCESS, release_ccxs (g_asid ?g) (g_ccxs ?g) s1))"
    using step d by (simp add: deactivate_guest_def Let_def s1_def split: if_splits)
  from inv has have ok: "owner_ok A s ?g" by (simp add: asid_inv_def)
  then have asid: "g_asid ?g \<noteq> 0" "g_asid ?g \<le> GetMaxSEVASID"
    and sub: "submask (asid_allocated s1 ?i) (g_ccxs ?g)" "submask (asid_in_use s1 ?i) (g_ccxs ?g)"
    by (simp_all add: owner_ok_def Let_def s1_def)
  note i = asid_index [OF asid]
  note rf = release_ccxs_fields [OF sub]
  from guest_deactivate_cases [OF d] consider
    (fail) "st1 \<noteq> SEV_STATUS_SUCCESS" "g' = ?g"
    | (ok) "st1 = SEV_STATUS_SUCCESS" "\<not> guest_has_asid g'" "g_asid g' = 0"
    using flags_cleared by auto
  then show "asid_inv A s'"
    and "st = SEV_STATUS_SUCCESS \<Longrightarrow> \<not> guest_has_asid (p_guests s' r) \<and>
      g_asid (p_guests s' r) = 0 \<and> p_guests s' = (p_guests s)(r := p_guests s' r)"
  proof (atomize (full), cases)
    case fail
    have "asid_inv A s1" by (rule asid_inv_others [OF inv]) (simp_all add: s1_def fail)
    with step' fail
    show "asid_inv A s' \<and> (st = SEV_STATUS_SUCCESS \<longrightarrow> \<not> guest_has_asid (p_guests s' r) \<and>
      g_asid (p_guests s' r) = 0 \<and> p_guests s' = (p_guests s)(r := p_guests s' r))" by simp
  next
    case ok
    with step' have s': "s' = release_ccxs (g_asid ?g) (g_ccxs ?g) s1" by simp
    have m: "masks_ok A s ?i" using inv i by (simp add: asid_inv_def)
    have a0: "asid_allocated s1 ?i AND NOT (asid_allocated s1 ?i AND g_ccxs ?g) = 0"
      "asid_in_use s1 ?i AND NOT (asid_in_use s1 ?i AND g_ccxs ?g) = 0"
      using submask_remove(1) sub by auto
    have m': "masks_ok A s' ?i"
      using partition_free(2) [OF partition_free(1) [of "present A" "asid_dirty s ?i" _ "asid_allocated s ?i"
          "asid_in_use s ?i" "g_ccxs ?g"], of "asid_clean s ?i" "g_ccxs ?g"] m a0
      by (simp add: masks_ok_def s' rf) (simp add: s1_def)
    have "asid_inv A s'"
    proof (rule asid_inv_update [OF inv i _ _ m', where r = r])
      show "same_masks s s' j" if "j \<noteq> ?i" for j
        using rf(7) [OF that] by (simp add: s' same_masks_def s1_def)
      show "guest_has_asid (p_guests s r') \<Longrightarrow> g_asid (p_guests s r') \<noteq> ?i + 1" if "r' \<noteq> r" for r'
        using owned_asid_unique [OF inv has that] by simp
    qed (use ok rf in \<open>simp_all add: s' s1_def\<close>)
    moreover have "p_guests s' = (p_guests s)(r := g')" by (simp only: s' rf(5)) (simp add: s1_def)
    ultimately show "asid_inv A s' \<and> (st = SEV_STATUS_SUCCESS \<longrightarrow> \<not> guest_has_asid (p_guests s' r) \<and>
      g_asid (p_guests s' r) = 0 \<and> p_guests s' = (p_guests s)(r := p_guests s' r))"
      using ok by simp
  qed
qed

end
