(* ===== verification/Sev_AsidSafety.thy ===== *)
theory Sev_AsidSafety
  imports Sev_Activation
begin

text \<open>
  The commands of \<open>Sev_Activation\<close> as a transition system. A step is one command on one guest;
  the invariant \<open>asid_inv\<close> holds in every reachable state, and with it the isolation property
  the four CCX masks exist for: an ASID has at most one owner, and a guest gets an ASID only when
  the caches of all CCXs were flushed since its last owner ran.
\<close>

section \<open>Decommissioning keeps the invariant\<close>

lemma owner_active:
  assumes "owner_ok A s g"
  shows "g_asid g \<noteq> 0" and "asid_is_active s (g_asid g)"
  using assms by (auto simp: owner_ok_def Let_def asid_is_active_def)

text \<open>The guest is cleared only when it has no ASID; nothing else of the ASID state changes.\<close>

lemma decommission_cases:
  assumes inv: "asid_inv A s" and step: "mcmd_decommission_common mp r s = (st, s')"
  shows "same_masks s s' j" and "p_apic_ids s' = p_apic_ids s"
    and "p_guests s' = p_guests s \<or>
      \<not> guest_has_asid (p_guests s r) \<and> p_guests s' = (p_guests s)(r := guest_zero)"
proof -
  let ?g = "p_guests s r"
  define f where "f = (if sev_es_allocation_guest_enabled ?g \<and>
                 g_head_index ?g \<noteq> INVALID_BLOCK \<and> g_tail_index ?g \<noteq> INVALID_BLOCK
              then case pool_vcpu_free_list mp (p_dram s) (Some (es_crc32_pool (p_es s)))
                          (g_head_index ?g) (g_tail_index ?g) (g_num_vcpus ?g) of
                     (status, pool, m) \<Rightarrow>
                       (status, s\<lparr>p_es := (p_es s)\<lparr>es_crc32_pool := the pool\<rparr>, p_dram := m\<rparr>)
              else (SEV_STATUS_SUCCESS, s))"
  obtain st1 s1 where f1: "f = (st1, s1)" by (cases f)
  have s1: "same_masks s s1 j" "p_apic_ids s1 = p_apic_ids s" "p_guests s1 = p_guests s"
    using f1 unfolding f_def by (auto simp: same_masks_def split: if_split_asm prod.split_asm)
  have e: "mcmd_decommission_common mp r s =
    (if g_asid ?g \<noteq> 0 \<and> asid_is_active s (g_asid ?g) then (SEV_STATUS_ACTIVE, s)
     else if st1 \<noteq> SEV_STATUS_SUCCESS then (st1, s1)
     else (SEV_STATUS_SUCCESS, set_guest r guest_zero
       (if g_type ?g = SEV_GUEST_TYPE_SEV then s1\<lparr>p_guest_count := p_guest_count s1 - 1\<rparr>
        else if g_type ?g = SEV_GUEST_TYPE_SNP \<and> g_snp_state ?g \<noteq> SNP_GUEST_STATE_INIT
        then s1\<lparr>p_snp_guest_count := p_snp_guest_count s1 - 1\<rparr> else s1)))"
    unfolding mcmd_decommission_common_def Let_def f_def [symmetric] f1 prod.case ..
  have no: "\<not> guest_has_asid ?g" if "\<not> (g_asid ?g \<noteq> 0 \<and> asid_is_active s (g_asid ?g))"
    using that inv owner_active [of A s ?g] by (auto simp: asid_inv_def)
  show "same_masks s s' j" "p_apic_ids s' = p_apic_ids s"
    using step s1(1,2) unfolding e by (auto simp: same_masks_def split: if_split_asm)
  show "p_guests s' = p_guests s \<or>
      \<not> guest_has_asid ?g \<and> p_guests s' = (p_guests s)(r := guest_zero)"
    using step s1(3) no unfolding e by (auto split: if_split_asm)
qed

lemma decommission_inv:
  assumes "asid_inv A s" and "mcmd_decommission_common mp r s = (st, s')"
  shows "asid_inv A s'"
proof -
  note d = decommission_cases [OF assms]
  from d(3) have "guest_has_asid (p_guests s' r') = guest_has_asid (p_guests s r')"
    and "guest_has_asid (p_guests s r') \<Longrightarrow> p_guests s' r' = p_guests s r'" for r'
    by (auto split: if_split_asm)
  then show ?thesis
    by (intro asid_inv_frame [OF assms(1) d(2,1)]) (use assms(1) in \<open>simp_all add: asid_inv_def\<close>)
qed

lemma snp_decommission_inv:
  assumes inv: "asid_inv A s" and step: "snp_decommission_common A mp gctx s = (st, s')"
  shows "asid_inv A s'"
proof (cases "guest_has_asid (p_guests s (SnpGuest gctx))")
  case False
  with step decommission_inv [OF inv] show ?thesis by (simp add: snp_decommission_common_def Let_def)
next
  case True
  obtain st1 s1 where d: "deactivate_guest A (SnpGuest gctx) s = (st1, s1)"
    by (cases "deactivate_guest A (SnpGuest gctx) s")
  have "asid_inv A s1" by (rule deactivate_inv(1) [OF inv True d])
  moreover have "s' = s1 \<or> (\<exists>st'. mcmd_decommission_common mp (SnpGuest gctx) s1 = (st', s'))"
    using step True d by (auto simp: snp_decommission_common_def Let_def split: if_split_asm)
  ultimately show ?thesis using decommission_inv by blast
qed

section \<open>Finishing keeps the invariant\<close>

lemma finish_activate_cases:
  assumes "sev_guest_finish_pending_activate A g tmr = (st, g', tmr')" and "guest_is_pending g"
  shows "st \<noteq> SEV_STATUS_SUCCESS \<and> g' = g \<or>
    st = SEV_STATUS_SUCCESS \<and>
      g' = g\<lparr>g_guest_flags := (g_guest_flags g AND NOT SEV_GUEST_FLAGS_PENDING_FLAG)
               OR SEV_GUEST_FLAGS_ACTIVE_FLAG\<rparr>"
  using assms
  by (auto simp: sev_guest_finish_pending_activate_def guest_is_pending_def
      split: if_split_asm prod.split_asm)

lemma masks_ok_at: "asid_inv A s \<Longrightarrow> i < GetMaxSEVASID \<Longrightarrow> masks_ok A s i"
  by (simp add: asid_inv_def)

text \<open>A guest that becomes a running one: its pending activation takes effect. \<open>f\<close> is what the
  command does to the guest besides.\<close>

lemma finish_inv:
  assumes inv: "asid_inv A s" and fin: "finish_pending A r s = (SEV_STATUS_SUCCESS, s1)"
    and idle: "\<not> guest_runs (p_guests s r)"
    and f: "g_asid g2 = g_asid (p_guests s1 r)" "g_ccxs g2 = g_ccxs (p_guests s1 r)"
      "g_guest_flags g2 = g_guest_flags (p_guests s1 r)"
    and run: "guest_runs g2"
  shows "asid_inv A (set_guest r g2 s1)"
proof (cases "guest_is_pending (p_guests s r)")
  case False
  with fin have s1: "s1 = s" by (simp add: finish_pending_def Let_def)
  from False idle inv have no: "\<not> guest_has_asid (p_guests s r)"
    by (auto simp: asid_inv_def owner_ok_def Let_def)
  with flags_cong(1) [of g2 "p_guests s r"] f s1 have no2: "\<not> guest_has_asid g2" by simp
  show ?thesis
    by (rule asid_inv_frame [OF inv])
       (use no no2 s1 inv in \<open>auto simp: same_masks_def asid_inv_def\<close>)
next
  case True
  let ?g = "p_guests s r" and ?i = "g_asid (p_guests s r) - 1"
  from True inv have has: "guest_has_asid ?g" by (simp add: has_asid_flags)
  with inv have ok: "owner_ok A s ?g" by (simp add: asid_inv_def)
  then have asid: "g_asid ?g \<noteq> 0" "g_asid ?g \<le> GetMaxSEVASID" and c: "g_ccxs ?g \<noteq> 0"
    "submask (g_ccxs ?g) (present A)" "asid_dirty s ?i = 0" "submask (asid_allocated s ?i) (g_ccxs ?g)"
    "asid_in_use s ?i = 0"
    using idle by (auto simp: owner_ok_def Let_def)
  note i = asid_index [OF asid]
  obtain st1 g' tmr where fa: "sev_guest_finish_pending_activate A ?g (p_tmr s) = (st1, g', tmr)"
    by (cases "sev_guest_finish_pending_activate A ?g (p_tmr s)") auto
  have st1: "st1 = SEV_STATUS_SUCCESS"
    using fin True fa by (auto simp: finish_pending_def Let_def split: if_split_asm)
  with finish_activate_cases [OF fa True]
  have g': "g' = ?g\<lparr>g_guest_flags := (g_guest_flags ?g AND NOT SEV_GUEST_FLAGS_PENDING_FLAG)
               OR SEV_GUEST_FLAGS_ACTIVE_FLAG\<rparr>" by simp
  have s1: "s1 = (set_guest r g' (s\<lparr>p_tmr := tmr\<rparr>))
      \<lparr>asid_in_use := (asid_in_use s)(?i := g_ccxs ?g),
       asid_allocated := (asid_allocated s)(?i := 0),
       asid_clean := (asid_clean s)(?i := asid_clean s ?i AND NOT (g_ccxs ?g))\<rparr>"
    using fin True fa st1 submask_remove(2) [OF c(4)] c(5)
    by (simp add: finish_pending_def Let_def g')
  let ?s' = "set_guest r g2 s1"
  have act: "guest_is_active g2" "\<not> guest_is_pending g2"
    using flags_cong(2,3) [of g2 g'] f(3) flags_set_active(3,4) s1 by (simp_all add: g')
  have g2: "g_asid g2 = g_asid ?g" "g_ccxs g2 = g_ccxs ?g" using f s1 by (simp_all add: g')
  have m0: "mask_partition (present A) 0 (asid_clean s ?i) (asid_allocated s ?i) 0"
    using masks_ok_at [OF inv i] c(3,5) by (simp add: masks_ok_def)
  have m: "masks_ok A ?s' ?i"
    using partition_use [OF m0 c(2,4) submask_zero] submask_remove(2) [OF c(4)] c(3)
    by (simp add: s1 masks_ok_def)
  have own: "owner_ok A ?s' g2"
    using asid c(1-3) act run by (simp add: owner_ok_def Let_def s1 g2)
  show ?thesis
  proof (rule asid_inv_update [OF inv i, where r = r])
    show "guest_has_asid (p_guests s r') \<Longrightarrow> g_asid (p_guests s r') \<noteq> ?i + 1" if "r' \<noteq> r" for r'
      using owned_asid_unique [OF inv has that] by simp
    show "\<not> guest_has_asid (p_guests ?s' r) \<Longrightarrow> asid_allocated ?s' ?i = 0 \<and> asid_in_use ?s' ?i = 0"
      using act(1) by (simp add: has_asid_flags)
  qed (use m own g2 in \<open>simp_all add: s1 same_masks_def\<close>)
qed

lemma finish_pending_fail:
  assumes "asid_inv A s" and "finish_pending A r s = (st, s1)" and "st \<noteq> SEV_STATUS_SUCCESS"
  shows "asid_inv A s1" and "p_guests s1 = p_guests s"
proof -
  let ?g = "p_guests s r"
  obtain st1 g' tmr where fa: "sev_guest_finish_pending_activate A ?g (p_tmr s) = (st1, g', tmr)"
    by (cases "sev_guest_finish_pending_activate A ?g (p_tmr s)") auto
  from assms(2,3) have p: "guest_is_pending ?g"
    by (auto simp: finish_pending_def Let_def split: if_split_asm)
  with assms(2,3) fa finish_activate_cases [OF fa p]
  have "s1 = set_guest r ?g (s\<lparr>p_tmr := tmr\<rparr>)"
    by (auto simp: finish_pending_def Let_def split: if_split_asm)
  then show "asid_inv A s1" "p_guests s1 = p_guests s"
    by (auto intro: asid_inv_others [OF assms(1)])
qed

lemma finish_pending_guest:
  assumes "finish_pending A r s = (st, s1)"
  shows "\<exists>fl. p_guests s1 r = (p_guests s r)\<lparr>g_guest_flags := fl\<rparr>"
    and "r' \<noteq> r \<Longrightarrow> p_guests s1 r' = p_guests s r'"
proof -
  have "\<exists>fl. p_guests s1 = (p_guests s)(r := (p_guests s r)\<lparr>g_guest_flags := fl\<rparr>)"
  proof (cases "guest_is_pending (p_guests s r)")
    case False
    with assms show ?thesis
      by (intro exI [of _ "g_guest_flags (p_guests s r)"]) (simp add: finish_pending_def Let_def)
  next
    case True
    obtain st1 g' tmr where fa: "sev_guest_finish_pending_activate A (p_guests s r) (p_tmr s) = (st1, g', tmr)"
      by (cases "sev_guest_finish_pending_activate A (p_guests s r) (p_tmr s)") auto
    have s1: "p_guests s1 = (p_guests s)(r := g')"
      using assms True fa by (auto simp: finish_pending_def Let_def split: if_split_asm)
    have "\<exists>fl. g' = (p_guests s r)\<lparr>g_guest_flags := fl\<rparr>"
      using finish_activate_cases [OF fa True]
    proof (elim disjE conjE)
      assume "g' = p_guests s r"
      then show ?thesis by (intro exI [of _ "g_guest_flags (p_guests s r)"]) simp
    qed blast
    with s1 show ?thesis by auto
  qed
  then show "\<exists>fl. p_guests s1 r = (p_guests s r)\<lparr>g_guest_flags := fl\<rparr>"
    and "r' \<noteq> r \<Longrightarrow> p_guests s1 r' = p_guests s r'" by auto
qed

section \<open>The types of the guests\<close>

text \<open>The array of SEV guests holds SEV guests; a context page whose guest was started holds an
  SNP guest.\<close>

definition ref_type_ok :: "guest_ref \<Rightarrow> sev_guest \<Rightarrow> bool" where
  "ref_type_ok r g \<longleftrightarrow>
     (case r of SevGuest _ \<Rightarrow> g_type g = SEV_GUEST_TYPE_SEV
      | SnpGuest _ \<Rightarrow> g_snp_state g \<noteq> SNP_GUEST_STATE_INIT \<longrightarrow> g_type g = SEV_GUEST_TYPE_SNP)"

definition types_ok :: "sev_plat \<Rightarrow> bool" where
  "types_ok s \<longleftrightarrow> (\<forall>r. ref_type_ok r (p_guests s r))"

lemma ref_type_ok_zero [simp]: "ref_type_ok r guest_zero"
  by (simp add: ref_type_ok_def guest_zero_def split: guest_ref.split)

text \<open>All that a command has to show: it leaves the type and the SNP state of each guest alone,
  or clears the guest.\<close>

definition same_types :: "sev_plat \<Rightarrow> sev_plat \<Rightarrow> bool" where
  "same_types s s' \<longleftrightarrow> (\<forall>r. g_type (p_guests s' r) = g_type (p_guests s r) \<and>
     g_snp_state (p_guests s' r) = g_snp_state (p_guests s r) \<or>
     g_type (p_guests s' r) = SEV_GUEST_TYPE_SEV \<and> g_snp_state (p_guests s' r) = SNP_GUEST_STATE_INIT)"

lemma same_types_refl [simp]: "same_types s s"
  by (simp add: same_types_def)

lemma same_types_trans: "same_types s s1 \<Longrightarrow> same_types s1 s' \<Longrightarrow> same_types s s'"
  unfolding same_types_def by (intro allI) (metis (no_types))

lemma same_types_ok: "types_ok s \<Longrightarrow> same_types s s' \<Longrightarrow> types_ok s'"
proof -
  assume ok: "types_ok s" and same: "same_types s s'"
  have "ref_type_ok r (p_guests s' r)" for r
    using ok [unfolded types_ok_def, rule_format, of r] same [unfolded same_types_def, rule_format, of r]
    by (cases r) (auto simp: ref_type_ok_def)
  then show "types_ok s'" by (simp add: types_ok_def)
qed

lemma types_ok_set:
  assumes "types_ok s" and "\<And>r'. r' \<noteq> r \<Longrightarrow> p_guests s1 r' = p_guests s r'" and "ref_type_ok r g"
  shows "types_ok (set_guest r g s1)"
  using assms by (simp add: types_ok_def)

lemma activate_common_guest:
  assumes "activate_common A r asid ccxs s = (st, s')"
  shows "same_types s s'"
proof -
  let ?g = "p_guests s r"
  define g1 where "g1 = (if \<not> guest_has_asid ?g then ?g\<lparr>g_ccxs := 0\<rparr> else ?g\<lparr>g_ccxs := g_ccxs ?g OR ccxs\<rparr>)"
  obtain st1 g2 tmr where act: "sev_guest_activate A (asid_dirty s) g1 asid ccxs (p_tmr s) = (st1, g2, tmr)"
    by (cases "sev_guest_activate A (asid_dirty s) g1 asid ccxs (p_tmr s)") auto
  have "p_guests s' = p_guests s \<or> p_guests s' = (p_guests s)(r := g2)"
    using assms act unfolding activate_common_def Let_def g1_def [symmetric]
    by (auto split: if_split_asm)
  moreover have "g_type g2 = g_type g1 \<and> g_snp_state g2 = g_snp_state g1"
    using guest_activate_fail [OF act] guest_activate_ok(2) [of A "asid_dirty s" g1 asid ccxs "p_tmr s" g2 tmr] act
    by (cases "st1 = SEV_STATUS_SUCCESS") auto
  moreover have "g_type g1 = g_type ?g \<and> g_snp_state g1 = g_snp_state ?g" by (simp add: g1_def)
  ultimately show ?thesis by (auto simp: same_types_def)
qed

lemma activate_types:
  "mcmd_activate_common A r asid s = (st, s') \<Longrightarrow> same_types s s'"
  "mcmd_activate_ex_common A x r s = (st, s') \<Longrightarrow> same_types s s'"
  by (auto simp: mcmd_activate_common_def mcmd_activate_ex_common_def Let_def
      dest: activate_common_guest split: if_split_asm sum.split_asm)

lemma df_flush_types:
  assumes "mcmd_df_flush_common A X fl slave s = (st, s')"
  shows "same_types s s'"
proof -
  have g: "p_guests (fold (flush_asid w) [0..<MAX_SEV_ASIDS] s) = p_guests s" for w
    using flush_asid_fold [of MAX_SEV_ASIDS w s] by simp
  have f: "p_guests s2 = p_guests s1" if "df_flush_fabric A X fl slave s1 = (st, s2)" for s1 s2
    using that by (auto simp: df_flush_fabric_def split: if_split_asm prod.split_asm)
  show ?thesis
    using assms g f unfolding mcmd_df_flush_common_def Let_def same_types_def
    by (auto split: if_split_asm prod.split_asm dest!: f)
qed

lemma deactivate_types:
  assumes "deactivate_guest A r s = (st, s')"
  shows "same_types s s'"
proof -
  let ?g = "p_guests s r"
  obtain st1 g' tmr where d: "sev_guest_deactivate A ?g (asid_in_use s (g_asid ?g - 1)) (p_tmr s) = (st1, g', tmr)"
    by (cases "sev_guest_deactivate A ?g (asid_in_use s (g_asid ?g - 1)) (p_tmr s)") auto
  have "p_guests (release_ccxs a c t) = p_guests t" for a c t
    by (simp add: release_ccxs_def Let_def)
  then have "p_guests s' = (p_guests s)(r := g')"
    using assms d by (auto simp: deactivate_guest_def Let_def split: if_split_asm)
  then show ?thesis using guest_deactivate_cases [OF d] by (auto simp: same_types_def)
qed

lemma decommission_types:
  assumes "mcmd_decommission_common mp r s = (st, s')"
  shows "same_types s s'"
proof -
  have "p_guests s' = p_guests s \<or> p_guests s' = (p_guests s)(r := guest_zero)"
    using assms unfolding mcmd_decommission_common_def Let_def
    by (auto split: if_split_asm prod.split_asm)
  then show ?thesis by (auto simp: same_types_def guest_zero_def)
qed

lemma snp_decommission_types:
  assumes "snp_decommission_common A mp gctx s = (st, s')"
  shows "same_types s s'"
proof -
  obtain st1 s1 where d: "(if guest_has_asid (p_guests s (SnpGuest gctx)) then
      deactivate_guest A (SnpGuest gctx) s else (SEV_STATUS_SUCCESS, s)) = (st1, s1)"
    by (cases "if guest_has_asid (p_guests s (SnpGuest gctx)) then
      deactivate_guest A (SnpGuest gctx) s else (SEV_STATUS_SUCCESS, s)")
  then have "same_types s s1" by (auto dest: deactivate_types split: if_split_asm)
  moreover have "s' = s1 \<or> (\<exists>st'. mcmd_decommission_common mp (SnpGuest gctx) s1 = (st', s'))"
    using assms unfolding snp_decommission_common_def Let_def d by (auto split: if_split_asm)
  ultimately show ?thesis using decommission_types same_types_trans by blast
qed

section \<open>The transition system\<close>

text \<open>The end of \<open>snp_mcmd_launch_finish\<close>: the pending activation and the state change.\<close>

definition snp_finish_guest :: "act_env \<Rightarrow> u64 \<Rightarrow> sev_plat \<Rightarrow> sev_status \<times> sev_plat" where
  "snp_finish_guest A gctx s =
     (let r = SnpGuest gctx; (status, s1) = finish_pending A r s
      in if status \<noteq> SEV_STATUS_SUCCESS then (status, s1)
         else
           let g = p_guests s1 r;
               (status, st) = snp_guest_state_transition True (g_snp_state g) SNP_MCMD_ID_LAUNCH_FINISH
           in (status, set_guest r (g\<lparr>g_snp_state := st\<rparr>) s1))"

text \<open>The commands that change the SEV state of a guest and no ASID.\<close>

definition life_cycle_cmds :: "sev_mcmd_id set" where
  "life_cycle_cmds = {SEV_MCMD_ID_LAUNCH_MEASURE, SEV_MCMD_ID_SEND_START, SEV_MCMD_ID_SEND_FINISH,
     SEV_MCMD_ID_SEND_CANCEL}"

text \<open>
  One command other than DF_FLUSH. A new guest (LAUNCH_START, RECEIVE_START, GCTX_CREATE) goes into a slot without an
  ASID and starts without one. The activations of SNP guests are the common functions; their
  handlers only restrict them further. LAUNCH_START of an SNP guest needs the page of a created
  context.
\<close>

inductive host_step :: "act_env \<Rightarrow> sev_plat \<Rightarrow> sev_plat \<Rightarrow> bool" for A where
  step_activate: "sev_mcmd_activate A nn handle asid s = (st, s') \<Longrightarrow> host_step A s s'"
| step_activate_ex: "length (x_ids x) = unat (x_numids x) \<Longrightarrow>
    sev_mcmd_activate_ex A nn len_ok handle x s = (st, s') \<Longrightarrow> host_step A s s'"
| step_deactivate: "sev_mcmd_deactivate A nn handle s = (st, s') \<Longrightarrow> host_step A s s'"
| step_decommission: "sev_mcmd_decommission nn mp handle s = (st, s') \<Longrightarrow> host_step A s s'"
| step_launch_finish: "sev_mcmd_launch_finish A nn handle s = (st, s') \<Longrightarrow> host_step A s s'"
| step_receive_finish: "sev_mcmd_receive_finish A nn handle s = (st, s') \<Longrightarrow> host_step A s s'"
| step_snp_activate: "mcmd_activate_common A (SnpGuest gctx) asid s = (st, s') \<Longrightarrow> host_step A s s'"
| step_snp_activate_ex: "length (x_ids x) = unat (x_numids x) \<Longrightarrow>
    mcmd_activate_ex_common A x (SnpGuest gctx) s = (st, s') \<Longrightarrow> host_step A s s'"
| step_snp_decommission: "snp_decommission_common A mp gctx s = (st, s') \<Longrightarrow> host_step A s s'"
| step_snp_finish: "g_snp_state (p_guests s (SnpGuest gctx)) = SNP_GUEST_STATE_LAUNCH \<Longrightarrow>
    snp_finish_guest A gctx s = (st, s') \<Longrightarrow> host_step A s s'"
| step_snp_launch_start: "g_type (p_guests s (SnpGuest gctx)) = SEV_GUEST_TYPE_SNP \<Longrightarrow>
    snp_guest_state_transition True (g_snp_state (p_guests s (SnpGuest gctx))) SNP_MCMD_ID_LAUNCH_START
      = (SEV_STATUS_SUCCESS, st') \<Longrightarrow>
    host_step A s (set_guest (SnpGuest gctx) ((p_guests s (SnpGuest gctx))\<lparr>g_snp_state := st'\<rparr>) s)"
| step_life_cycle: "cmd \<in> life_cycle_cmds \<Longrightarrow>
    sev_guest_state_transition True (g_sev_state (p_guests s (SevGuest i))) cmd
      = (SEV_STATUS_SUCCESS, st') \<Longrightarrow>
    host_step A s (set_guest (SevGuest i) ((p_guests s (SevGuest i))\<lparr>g_sev_state := st'\<rparr>) s)"
| step_new_guest: "\<not> guest_has_asid (p_guests s r) \<Longrightarrow> \<not> guest_has_asid g \<Longrightarrow> ref_type_ok r g \<Longrightarrow>
    host_step A s (set_guest r g s)"

text \<open>One command, DF_FLUSH included.\<close>

inductive plat_step :: "act_env \<Rightarrow> sev_plat \<Rightarrow> sev_plat \<Rightarrow> bool" for A where
  step_df_flush: "mcmd_df_flush_common A X fl slave s = (st, s') \<Longrightarrow> plat_step A s s'"
| step_host: "host_step A s s' \<Longrightarrow> plat_step A s s'"

text \<open>At the start every ASID is clean or dirty on every CCX, and no guest has one.\<close>

definition no_guests :: "act_env \<Rightarrow> sev_plat \<Rightarrow> bool" where
  "no_guests A s \<longleftrightarrow> present A \<noteq> 0 \<and> apic_table_ok A s \<and> types_ok s \<and>
     (\<forall>i < GetMaxSEVASID. masks_ok A s i \<and> asid_allocated s i = 0 \<and> asid_in_use s i = 0) \<and>
     (\<forall>r. \<not> guest_has_asid (p_guests s r))"

inductive plat_reachable :: "act_env \<Rightarrow> sev_plat \<Rightarrow> bool" for A where
  reach_init: "no_guests A s \<Longrightarrow> plat_reachable A s"
| reach_step: "plat_reachable A s \<Longrightarrow> plat_step A s s' \<Longrightarrow> plat_reachable A s'"

section \<open>The invariant holds in every reachable state\<close>

lemma owner_ok_same_run:
  assumes "owner_ok A s g" and "g' = g\<lparr>g_sev_state := a, g_snp_state := b\<rparr>"
    and "guest_runs g' = guest_runs g"
  shows "owner_ok A s g'"
  using assms by (simp add: owner_ok_def Let_def guest_is_active_def guest_is_pending_def)

text \<open>A command that changes the state of a guest but not whether it runs.\<close>

lemma state_change_inv:
  assumes inv: "asid_inv A s"
    and g': "g' = (p_guests s r)\<lparr>g_sev_state := a, g_snp_state := b\<rparr>"
    and run: "guest_runs g' = guest_runs (p_guests s r)"
  shows "asid_inv A (set_guest r g' s)"
proof (rule asid_inv_frame [OF inv])
  have h: "guest_has_asid g' = guest_has_asid (p_guests s r)" by (rule flags_cong) (simp add: g')
  then show "guest_has_asid (p_guests (set_guest r g' s) r') = guest_has_asid (p_guests s r')" for r'
    by simp
  show "owner_ok A s (p_guests (set_guest r g' s) r')" if "guest_has_asid (p_guests s r')" for r'
    using that inv owner_ok_same_run [OF _ g' run, of A s] by (auto simp: asid_inv_def)
qed (auto simp: same_masks_def g')

lemma life_cycle_rows:
  assumes "cmd \<in> life_cycle_cmds" and "sev_guest_state_transition True st cmd = (SEV_STATUS_SUCCESS, st')"
  shows "(st \<in> {SEV_GUEST_STATE_RUNNING, SEV_GUEST_STATE_SUPDATE, SEV_GUEST_STATE_SENT}) =
    (st' \<in> {SEV_GUEST_STATE_RUNNING, SEV_GUEST_STATE_SUPDATE, SEV_GUEST_STATE_SENT})"
  using assms unfolding guest_step_iff live_guest_rows
  by (auto simp: guest_state_tbl_sev_def life_cycle_cmds_def mcmd_id_defs)

lemma snp_launch_start_row:
  "snp_guest_state_transition True st SNP_MCMD_ID_LAUNCH_START = (SEV_STATUS_SUCCESS, st') \<Longrightarrow>
     st = SNP_GUEST_STATE_INIT \<and> st' = SNP_GUEST_STATE_LAUNCH"
  by (cases st) (auto simp: snp_guest_state_transition_def table_transition_def guest_state_tbl_snp_def
      table_simps split: if_split_asm)

text \<open>The two FINISH commands.\<close>

lemma guest_finish_keeps:
  assumes inv: "asid_inv A s" and ty: "types_ok s" and r: "r = SevGuest i"
    and st: "g_sev_state (p_guests s r) \<notin> {SEV_GUEST_STATE_RUNNING, SEV_GUEST_STATE_SUPDATE, SEV_GUEST_STATE_SENT}"
    and row: "sev_guest_state_transition True (g_sev_state (p_guests s r)) cmd =
      (SEV_STATUS_SUCCESS, SEV_GUEST_STATE_RUNNING)"
    and step: "guest_finish A clear_ld cmd r s = (st0, s')"
  shows "asid_inv A s' \<and> types_ok s'"
proof -
  obtain st1 s1 where f: "finish_pending A r s = (st1, s1)" by (cases "finish_pending A r s")
  have sev: "g_type (p_guests s r) = SEV_GUEST_TYPE_SEV"
    using ty r by (auto simp: types_ok_def ref_type_ok_def dest: spec [of _ r])
  from finish_pending_guest(1) [OF f] obtain fl where
    g1: "p_guests s1 r = (p_guests s r)\<lparr>g_guest_flags := fl\<rparr>" by blast
  show ?thesis
  proof (cases "st1 = SEV_STATUS_SUCCESS")
    case False
    with step f have "s' = s1" by (simp add: guest_finish_def Let_def)
    with finish_pending_fail [OF inv f False] ty show ?thesis by (simp add: types_ok_def)
  next
    case True
    define g2 where "g2 = (p_guests s1 r)\<lparr>g_channel := [], g_ld := (if clear_ld then [] else g_ld (p_guests s1 r)),
      g_sev_state := SEV_GUEST_STATE_RUNNING\<rparr>"
    have s': "s' = set_guest r g2 s1"
      using step f True row g1 by (simp add: guest_finish_def Let_def g2_def)
    have idle: "\<not> guest_runs (p_guests s r)" using st sev by (simp add: guest_runs_def)
    have "asid_inv A (set_guest r g2 s1)"
      by (rule finish_inv [OF inv f [unfolded True] idle]) (simp_all add: g2_def guest_runs_def g1 sev)
    moreover have "types_ok s'"
      unfolding s' by (rule types_ok_set [OF ty finish_pending_guest(2) [OF f]])
        (simp_all add: ref_type_ok_def g2_def r g1 [unfolded r] sev [unfolded r])
    ultimately show ?thesis by (simp add: s')
  qed
qed

lemma finish_rows:
  "sev_guest_state_transition True SEV_GUEST_STATE_LSECRET SEV_MCMD_ID_LAUNCH_FINISH =
     (SEV_STATUS_SUCCESS, SEV_GUEST_STATE_RUNNING)"
  "sev_guest_state_transition True SEV_GUEST_STATE_RUPDATE SEV_MCMD_ID_RECEIVE_FINISH =
     (SEV_STATUS_SUCCESS, SEV_GUEST_STATE_RUNNING)"
  unfolding guest_step_iff live_guest_rows by (simp_all add: guest_state_tbl_sev_def)

lemma snp_finish_row:
  "snp_guest_state_transition True SNP_GUEST_STATE_LAUNCH SNP_MCMD_ID_LAUNCH_FINISH =
     (SEV_STATUS_SUCCESS, SNP_GUEST_STATE_RUNNING)"
  by (simp add: snp_guest_state_transition_def table_transition_def guest_state_tbl_snp_def table_simps)

lemma snp_finish_keeps:
  assumes inv: "asid_inv A s" and ty: "types_ok s"
    and st: "g_snp_state (p_guests s (SnpGuest gctx)) = SNP_GUEST_STATE_LAUNCH"
    and step: "snp_finish_guest A gctx s = (st0, s')"
  shows "asid_inv A s' \<and> types_ok s'"
proof -
  let ?r = "SnpGuest gctx"
  obtain st1 s1 where f: "finish_pending A ?r s = (st1, s1)" by (cases "finish_pending A ?r s")
  have snp: "g_type (p_guests s ?r) = SEV_GUEST_TYPE_SNP"
    using ty st by (auto simp: types_ok_def ref_type_ok_def dest: spec [of _ ?r])
  from finish_pending_guest(1) [OF f] obtain fl where
    g1: "p_guests s1 ?r = (p_guests s ?r)\<lparr>g_guest_flags := fl\<rparr>" by blast
  show ?thesis
  proof (cases "st1 = SEV_STATUS_SUCCESS")
    case False
    with step f have "s' = s1" by (simp add: snp_finish_guest_def Let_def)
    with finish_pending_fail [OF inv f False] ty show ?thesis by (simp add: types_ok_def)
  next
    case True
    define g2 where "g2 = (p_guests s1 ?r)\<lparr>g_snp_state := SNP_GUEST_STATE_RUNNING\<rparr>"
    have s': "s' = set_guest ?r g2 s1"
      using step f True st g1 snp_finish_row by (simp add: snp_finish_guest_def Let_def g2_def)
    have idle: "\<not> guest_runs (p_guests s ?r)" using st snp by (simp add: guest_runs_def)
    have "asid_inv A (set_guest ?r g2 s1)"
      by (rule finish_inv [OF inv f [unfolded True] idle]) (simp_all add: g2_def guest_runs_def g1 snp)
    moreover have "types_ok s'"
      unfolding s' by (rule types_ok_set [OF ty finish_pending_guest(2) [OF f]])
        (simp_all add: ref_type_ok_def g2_def g1 snp)
    ultimately show ?thesis by (simp add: s')
  qed
qed

text \<open>The handlers.\<close>

lemma plat_state_upd_inv [simp]:
  "asid_inv A (s\<lparr>p_sev_state := st\<rparr>) = asid_inv A s" "types_ok (s\<lparr>p_sev_state := st\<rparr>) = types_ok s"
  by (simp_all add: asid_inv_def masks_ok_def owner_ok_def Let_def apic_table_ok_def types_ok_def)

lemma handler_activate_keeps:
  assumes "asid_inv A s" and "types_ok s" and "sev_mcmd_activate A nn handle asid s = (st, s')"
  shows "asid_inv A s' \<and> types_ok s'"
  using assms mcmd_activate_inv [OF assms(1)] same_types_ok [OF assms(2) activate_types(1)]
  by (auto simp: sev_mcmd_activate_def split: if_split_asm)

lemma handler_activate_ex_keeps:
  assumes "asid_inv A s" and "types_ok s" and "length (x_ids x) = unat (x_numids x)"
    and "sev_mcmd_activate_ex A nn len_ok handle x s = (st, s')"
  shows "asid_inv A s' \<and> types_ok s'"
proof -
  have "length (x_ids (x\<lparr>x_ma := PADDR_INVALID\<rparr>)) = unat (x_numids (x\<lparr>x_ma := PADDR_INVALID\<rparr>))"
    using assms(3) by simp
  note inv = activate_ex_inv [OF assms(1) this]
  show ?thesis
    using assms(1,2,4) inv same_types_ok [OF assms(2) activate_types(2)]
    by (auto simp: sev_mcmd_activate_ex_def split: if_split_asm)
qed

lemma handler_deactivate_keeps:
  assumes "asid_inv A s" and "types_ok s" and "sev_mcmd_deactivate A nn handle s = (st, s')"
  shows "asid_inv A s' \<and> types_ok s'"
  using assms deactivate_inv(1) [OF assms(1)] same_types_ok [OF assms(2) deactivate_types]
  by (auto simp: sev_mcmd_deactivate_def Let_def inactive_flags split: if_split_asm)

lemma handler_decommission_keeps:
  assumes "asid_inv A s" and "types_ok s" and "sev_mcmd_decommission nn mp handle s = (st, s')"
  shows "asid_inv A s' \<and> types_ok s'"
proof -
  define r where "r = SevGuest (the (sev_get_guest True handle))"
  obtain st1 s1 where d: "mcmd_decommission_common mp r s = (st1, s1)"
    by (cases "mcmd_decommission_common mp r s")
  have k: "asid_inv A s1 \<and> types_ok s1"
    using decommission_inv [OF assms(1) d] same_types_ok [OF assms(2) decommission_types [OF d]] by simp
  have "s' = s \<or> s' = s1 \<or> (\<exists>st. s' = s1\<lparr>p_sev_state := st\<rparr>)"
    using assms(3) d unfolding sev_mcmd_decommission_def Let_def r_def [symmetric]
    by (auto split: if_split_asm prod.split_asm)
  with assms(1,2) k show ?thesis by auto
qed

lemma handler_finish_keeps:
  assumes "asid_inv A s" and "types_ok s"
  shows "sev_mcmd_launch_finish A nn handle s = (st, s') \<Longrightarrow> asid_inv A s' \<and> types_ok s'"
    and "sev_mcmd_receive_finish A nn handle s = (st, s') \<Longrightarrow> asid_inv A s' \<and> types_ok s'"
proof -
  define r where "r = SevGuest (the (sev_get_guest True handle))"
  show "asid_inv A s' \<and> types_ok s'" if h: "sev_mcmd_launch_finish A nn handle s = (st, s')"
  proof (cases "g_sev_state (p_guests s r) = SEV_GUEST_STATE_LSECRET")
    case True
    show ?thesis
      using h True assms guest_finish_keeps [OF assms r_def, where cmd = SEV_MCMD_ID_LAUNCH_FINISH and clear_ld = True]
      unfolding sev_mcmd_launch_finish_def Let_def r_def [symmetric]
      by (auto simp: finish_rows split: if_split_asm)
  next
    case False
    with h assms show ?thesis
      unfolding sev_mcmd_launch_finish_def Let_def r_def [symmetric] by (auto split: if_split_asm)
  qed
  show "asid_inv A s' \<and> types_ok s'" if h: "sev_mcmd_receive_finish A nn handle s = (st, s')"
  proof (cases "g_sev_state (p_guests s r) = SEV_GUEST_STATE_RUPDATE")
    case True
    show ?thesis
      using h True assms guest_finish_keeps [OF assms r_def, where cmd = SEV_MCMD_ID_RECEIVE_FINISH and clear_ld = False]
      unfolding sev_mcmd_receive_finish_def Let_def r_def [symmetric]
      by (auto simp: finish_rows split: if_split_asm)
  next
    case False
    with h assms show ?thesis
      unfolding sev_mcmd_receive_finish_def Let_def r_def [symmetric] by (auto split: if_split_asm)
  qed
qed

lemma host_step_keeps:
  assumes "host_step A s s'" and inv: "asid_inv A s" and ty: "types_ok s"
  shows "asid_inv A s' \<and> types_ok s'"
  using assms(1)
proof cases
  case (step_activate nn handle asid st)
  then show ?thesis using handler_activate_keeps [OF inv ty] by blast
next
  case (step_activate_ex x nn len_ok handle st)
  then show ?thesis using handler_activate_ex_keeps [OF inv ty] by blast
next
  case (step_deactivate nn handle st)
  then show ?thesis using handler_deactivate_keeps [OF inv ty] by blast
next
  case (step_decommission nn mp handle st)
  then show ?thesis using handler_decommission_keeps [OF inv ty] by blast
next
  case (step_launch_finish nn handle st)
  then show ?thesis using handler_finish_keeps(1) [OF inv ty] by blast
next
  case (step_receive_finish nn handle st)
  then show ?thesis using handler_finish_keeps(2) [OF inv ty] by blast
next
  case (step_snp_activate gctx asid st)
  then show ?thesis using mcmd_activate_inv [OF inv] same_types_ok [OF ty activate_types(1)] by blast
next
  case (step_snp_activate_ex x gctx st)
  then show ?thesis using activate_ex_inv [OF inv] same_types_ok [OF ty activate_types(2)] by blast
next
  case (step_snp_decommission mp gctx st)
  then show ?thesis using snp_decommission_inv [OF inv] same_types_ok [OF ty snp_decommission_types] by blast
next
  case (step_snp_finish gctx st)
  then show ?thesis using snp_finish_keeps [OF inv ty] by blast
next
  case (step_snp_launch_start gctx st')
  let ?r = "SnpGuest gctx"
  let ?g' = "(p_guests s ?r)\<lparr>g_snp_state := st'\<rparr>"
  note row = snp_launch_start_row [OF step_snp_launch_start(3)]
  have g': "?g' = (p_guests s ?r)\<lparr>g_sev_state := g_sev_state (p_guests s ?r), g_snp_state := st'\<rparr>" by simp
  have "asid_inv A s'"
    unfolding step_snp_launch_start(1)
    by (rule state_change_inv [OF inv g']) (use row step_snp_launch_start(2) in \<open>simp add: guest_runs_def\<close>)
  moreover have "types_ok s'"
    unfolding step_snp_launch_start(1) by (rule types_ok_set [OF ty])
      (simp_all add: ref_type_ok_def step_snp_launch_start(2))
  ultimately show ?thesis by simp
next
  case (step_life_cycle cmd i st')
  let ?r = "SevGuest i"
  let ?g' = "(p_guests s ?r)\<lparr>g_sev_state := st'\<rparr>"
  have g': "?g' = (p_guests s ?r)\<lparr>g_sev_state := st', g_snp_state := g_snp_state (p_guests s ?r)\<rparr>" by simp
  have "asid_inv A s'"
    unfolding step_life_cycle(1)
    by (rule state_change_inv [OF inv g'])
       (use life_cycle_rows [OF step_life_cycle(2,3)] in \<open>simp add: guest_runs_def\<close>)
  moreover have "types_ok s'"
    unfolding step_life_cycle(1) by (rule types_ok_set [OF ty])
      (use ty in \<open>auto simp: types_ok_def ref_type_ok_def dest: spec [of _ "SevGuest i"]\<close>)
  ultimately show ?thesis by simp
next
  case (step_new_guest r g)
  have "asid_inv A s'"
    unfolding step_new_guest(1)
    by (rule asid_inv_frame [OF inv]) (use step_new_guest inv in \<open>auto simp: same_masks_def asid_inv_def\<close>)
  then show ?thesis using ty step_new_guest by (simp add: types_ok_def)
qed

lemma step_keeps:
  assumes "plat_step A s s'" and inv: "asid_inv A s" and ty: "types_ok s"
  shows "asid_inv A s' \<and> types_ok s'"
  using assms(1)
proof cases
  case (step_df_flush X fl slave st)
  then show ?thesis using df_flush_inv [OF inv] same_types_ok [OF ty df_flush_types] by blast
next
  case step_host
  then show ?thesis by (rule host_step_keeps [OF _ inv ty])
qed

lemma reachable_inv:
  assumes "plat_reachable A s"
  shows "asid_inv A s \<and> types_ok s"
  using assms
proof induction
  case (reach_init s)
  then show ?case by (simp add: no_guests_def asid_inv_def)
next
  case (reach_step s s')
  then show ?case using step_keeps by blast
qed

section \<open>Only DF_FLUSH takes the dirt away\<close>

text \<open>Every other command leaves the dirty CCXs of every ASID dirty.\<close>

definition keeps_dirt :: "sev_plat \<Rightarrow> sev_plat \<Rightarrow> bool" where
  "keeps_dirt s s' \<longleftrightarrow> (\<forall>i. submask (asid_dirty s i) (asid_dirty s' i))"

lemma keeps_dirt_refl [simp]: "keeps_dirt s s"
  by (simp add: keeps_dirt_def)

lemma keeps_dirt_trans: "keeps_dirt s s1 \<Longrightarrow> keeps_dirt s1 s' \<Longrightarrow> keeps_dirt s s'"
  by (simp add: keeps_dirt_def submask_def)

lemma keeps_dirt_same: "asid_dirty s' = asid_dirty s \<Longrightarrow> keeps_dirt s s'"
  by (simp add: keeps_dirt_def)

lemma activate_common_dirt:
  "activate_common A r asid ccxs s = (st, s') \<Longrightarrow> keeps_dirt s s'"
  by (rule keeps_dirt_same) (auto simp: activate_common_def Let_def split: if_split_asm prod.split_asm)

lemma activate_dirt:
  "mcmd_activate_common A r asid s = (st, s') \<Longrightarrow> keeps_dirt s s'"
  "mcmd_activate_ex_common A x r s = (st, s') \<Longrightarrow> keeps_dirt s s'"
  by (auto simp: mcmd_activate_common_def mcmd_activate_ex_common_def Let_def
      dest: activate_common_dirt split: if_split_asm sum.split_asm)

lemma release_ccxs_dirt: "keeps_dirt s (release_ccxs asid ccxs s)"
  by (auto simp: keeps_dirt_def release_ccxs_def Let_def submask_or_right)

lemma deactivate_dirt:
  assumes "deactivate_guest A r s = (st, s')"
  shows "keeps_dirt s s'"
proof -
  obtain st1 g' tmr where d: "sev_guest_deactivate A (p_guests s r)
      (asid_in_use s (g_asid (p_guests s r) - 1)) (p_tmr s) = (st1, g', tmr)"
    by (metis surj_pair)
  let ?s1 = "set_guest r g' (s\<lparr>p_tmr := tmr\<rparr>)"
  have "s' = ?s1 \<or> (\<exists>a c. s' = release_ccxs a c ?s1)"
    using assms d by (auto simp: deactivate_guest_def Let_def split: if_split_asm)
  moreover have "keeps_dirt s ?s1" by (rule keeps_dirt_same) simp
  ultimately show ?thesis using keeps_dirt_trans release_ccxs_dirt by blast
qed

lemma decommission_dirt:
  "mcmd_decommission_common mp r s = (st, s') \<Longrightarrow> keeps_dirt s s'"
  by (rule keeps_dirt_same)
     (auto simp: mcmd_decommission_common_def Let_def split: if_split_asm prod.split_asm)

lemma snp_decommission_dirt:
  assumes "snp_decommission_common A mp gctx s = (st, s')"
  shows "keeps_dirt s s'"
proof -
  obtain st1 s1 where d: "(if guest_has_asid (p_guests s (SnpGuest gctx)) then
      deactivate_guest A (SnpGuest gctx) s else (SEV_STATUS_SUCCESS, s)) = (st1, s1)"
    by (metis surj_pair)
  then have "keeps_dirt s s1" by (auto dest: deactivate_dirt split: if_split_asm)
  moreover have "s' = s1 \<or> (\<exists>st'. mcmd_decommission_common mp (SnpGuest gctx) s1 = (st', s'))"
    using assms unfolding snp_decommission_common_def Let_def d by (auto split: if_split_asm)
  ultimately show ?thesis using decommission_dirt keeps_dirt_trans by blast
qed

lemma finish_pending_dirt:
  "finish_pending A r s = (st, s1) \<Longrightarrow> keeps_dirt s s1"
  by (rule keeps_dirt_same) (auto simp: finish_pending_def Let_def split: if_split_asm prod.split_asm)

lemma finish_dirt:
  "guest_finish A c cmd r s = (st, s') \<Longrightarrow> keeps_dirt s s'"
  "snp_finish_guest A gctx s = (st, s') \<Longrightarrow> keeps_dirt s s'"
  by (auto simp: guest_finish_def snp_finish_guest_def Let_def keeps_dirt_def
      dest!: finish_pending_dirt split: if_split_asm prod.split_asm)

lemma handler_decommission_dirt:
  assumes "sev_mcmd_decommission nn mp handle s = (st, s')"
  shows "keeps_dirt s s'"
proof -
  define r where "r = SevGuest (the (sev_get_guest True handle))"
  obtain st1 s1 where d: "mcmd_decommission_common mp r s = (st1, s1)" by (metis surj_pair)
  have "s' = s \<or> s' = s1 \<or> (\<exists>st. s' = s1\<lparr>p_sev_state := st\<rparr>)"
    using assms d unfolding sev_mcmd_decommission_def Let_def r_def [symmetric]
    by (auto split: if_split_asm prod.split_asm)
  with decommission_dirt [OF d] show ?thesis by (auto simp: keeps_dirt_def)
qed

lemma handler_dirt:
  "sev_mcmd_activate A nn handle asid s = (st, s') \<Longrightarrow> keeps_dirt s s'"
  "sev_mcmd_activate_ex A nn len_ok handle x s = (st, s') \<Longrightarrow> keeps_dirt s s'"
  "sev_mcmd_deactivate A nn handle s = (st, s') \<Longrightarrow> keeps_dirt s s'"
  "sev_mcmd_launch_finish A nn handle s = (st, s') \<Longrightarrow> keeps_dirt s s'"
  "sev_mcmd_receive_finish A nn handle s = (st, s') \<Longrightarrow> keeps_dirt s s'"
  by (auto simp: sev_mcmd_activate_def sev_mcmd_activate_ex_def sev_mcmd_deactivate_def
      sev_mcmd_launch_finish_def sev_mcmd_receive_finish_def Let_def
      dest: activate_dirt deactivate_dirt finish_dirt split: if_split_asm)

lemma host_step_dirt:
  assumes "host_step A s s'"
  shows "keeps_dirt s s'"
  using assms
  by cases (auto dest: handler_dirt handler_decommission_dirt activate_dirt snp_decommission_dirt
      finish_dirt intro: keeps_dirt_same)

lemma host_steps_keep:
  assumes "(host_step A)\<^sup>*\<^sup>* s t" and "asid_inv A s" and "types_ok s"
  shows "asid_inv A t \<and> types_ok t \<and> keeps_dirt s t"
  using assms
proof induction
  case (step t t')
  then show ?case using host_step_keeps host_step_dirt keeps_dirt_trans by blast
qed simp

text \<open>No guest holds an ASID that is dirty anywhere.\<close>

lemma dirty_asid_unowned:
  assumes "asid_inv A s" and "i < GetMaxSEVASID" and "asid_dirty s i \<noteq> 0"
  shows "asid_allocated s i = 0" and "asid_in_use s i = 0"
proof -
  have "g_asid (p_guests s r) \<noteq> i + 1" if "guest_has_asid (p_guests s r)" for r
    using assms(1,3) that by (auto simp: asid_inv_def owner_ok_def Let_def)
  with assms(1,2) show "asid_allocated s i = 0" "asid_in_use s i = 0" by (auto simp: asid_inv_def)
qed

end
