(* ===== verification/Sev_AsidProperties.thy ===== *)
theory Sev_AsidProperties
  imports Sev_AsidSafety
begin

text \<open>
  The properties of the life of an ASID, and a concrete machine (one die, one complex of two
  cores) with two guests to which they are applied.
\<close>

section \<open>A machine with two guests\<close>

definition demo_act_env :: act_env where
  "demo_act_env = \<lparr>ae_tmr = demo_env, ae_topology = demo_topology, ae_min_sev_asid = 1,
     ae_umc_key = SEV_STATUS_SUCCESS, ae_cnli_key = SEV_STATUS_SUCCESS\<rparr>"

definition demo_guest :: "u32 \<Rightarrow> sev_guest" where
  "demo_guest handle = guest_zero\<lparr>g_handle := handle, g_sev_state := SEV_GUEST_STATE_LUPDATE\<rparr>"

definition demo_es :: sev_es_platform where
  "demo_es = \<lparr>es_crc32_pool = demo_pool, es_tmr_addr_start = 0, es_tmr_addr_size = 0,
     es_start_pool_addr = 0, es_start_crc_addr = 0, es_pool_block_size = 0, es_crc_block_size = 0,
     es_enable_crc64 = False, es_reserved_tmr_base = 0, es_reserved_tmr_end = 0\<rparr>"

definition demo_plat :: sev_plat where
  "demo_plat = \<lparr>p_sev_state = SEV_STATE_WORKING, p_snp_state = SNP_STATE_UNINIT, p_config_flags = 0,
     p_guest_count = 2, p_snp_guest_count = 0, p_activate_ex_enable = True, p_apic_ids = (\<lambda>_. 0),
     p_guests = (\<lambda>_. guest_zero), asid_dirty = (\<lambda>_. 0), asid_clean = (\<lambda>_. 1),
     asid_allocated = (\<lambda>_. 0), asid_in_use = (\<lambda>_. 0), p_es = demo_es, p_dram = (\<lambda>_. 0),
     p_tmr = (\<lambda>_. 0)\<rparr>"

text \<open>Two guests are launched; the first is activated on ASID 1, the second on ASID 2.\<close>

definition demo_launched :: sev_plat where
  "demo_launched = set_guest (SevGuest 1) (demo_guest 2) (set_guest (SevGuest 0) (demo_guest 1) demo_plat)"

definition demo_active :: sev_plat where
  "demo_active = snd (sev_mcmd_activate demo_act_env True 2 2
     (snd (sev_mcmd_activate demo_act_env True 1 1 demo_launched)))"

lemma demo_present: "present demo_act_env = 1"
  by (simp add: demo_act_env_def demo_topology_def)

lemma demo_no_guests: "no_guests demo_act_env demo_plat"
  by (auto simp: no_guests_def demo_present apic_table_ok_def types_ok_def masks_ok_def
      mask_partition_def demo_plat_def)

lemma demo_launched_reachable: "plat_reachable demo_act_env demo_launched"
proof -
  have g: "\<not> guest_has_asid (demo_guest h)" "ref_type_ok (SevGuest i) (demo_guest h)" for h i
    by (simp_all add: demo_guest_def guest_zero_def guest_has_asid_def ref_type_ok_def)
  have z: "p_guests demo_plat r = guest_zero" for r by (simp add: demo_plat_def)
  have "plat_reachable demo_act_env (set_guest (SevGuest 0) (demo_guest 1) demo_plat)"
    by (rule reach_step [OF reach_init [OF demo_no_guests] step_host [OF step_new_guest]]) (simp_all add: g z)
  then show ?thesis
    unfolding demo_launched_def by (rule reach_step [OF _ step_host [OF step_new_guest]]) (simp_all add: g z)
qed

lemma demo_active_reachable: "plat_reachable demo_act_env demo_active"
proof -
  have "plat_reachable demo_act_env (snd (sev_mcmd_activate demo_act_env True h a s))"
    if "plat_reachable demo_act_env s" for h a s
    by (rule reach_step [OF that step_host [OF step_activate]]) (rule prod.collapse [symmetric])
  then show ?thesis using demo_launched_reachable by (simp add: demo_active_def)
qed

lemmas demo_activate_simps = sev_mcmd_activate_def mcmd_activate_common_def activate_common_def
  handle_is_valid_def handle_is_in_range_def guest_is_free_def sev_get_guest_def handle_to_index_def
  SEV_GUEST_HANDLE_MIN_def SEV_GUEST_HANDLE_MAX_def SEV_GUEST_COUNT_MAX_def GetMaxSEVASID_def
  sev_guest_activate_def activate_ccxs_def sev_es_validate_asid_def sev_es_guest_enabled_def
  guest_is_inactive_def guest_has_asid_def guest_is_pending_def guest_should_run_def guest_flag_defs

lemma demo_first:
  "sev_mcmd_activate demo_act_env True 1 1 demo_launched = (SEV_STATUS_SUCCESS,
     (set_guest (SevGuest 0) ((demo_guest 1)\<lparr>g_asid := 1, g_ccxs := 1, g_guest_flags := 4\<rparr>) demo_launched)
       \<lparr>asid_allocated := (\<lambda>_. 0)(0 := 1), asid_clean := (\<lambda>_. 1)(0 := 0)\<rparr>)"
  by (simp add: demo_activate_simps demo_launched_def demo_plat_def demo_guest_def guest_zero_def
      demo_act_env_def demo_topology_def Let_def)

lemma demo_active_eq:
  "demo_active =
     (set_guest (SevGuest 1) ((demo_guest 2)\<lparr>g_asid := 2, g_ccxs := 1, g_guest_flags := 4\<rparr>)
       (set_guest (SevGuest 0) ((demo_guest 1)\<lparr>g_asid := 1, g_ccxs := 1, g_guest_flags := 4\<rparr>) demo_launched))
       \<lparr>asid_allocated := (\<lambda>_. 0)(0 := 1, 1 := 1), asid_clean := (\<lambda>_. 1)(0 := 0, 1 := 0)\<rparr>"
  unfolding demo_active_def demo_first snd_conv
  by (simp add: demo_activate_simps demo_launched_def demo_plat_def demo_guest_def guest_zero_def
      demo_act_env_def demo_topology_def Let_def)

text \<open>On this machine no register access fails.\<close>

lemma iter_err_succeeds:
  assumes "\<And>x st. x \<in> set xs \<Longrightarrow> fst (f x st) = SEV_STATUS_SUCCESS"
  shows "fst (iter_err f xs st) = SEV_STATUS_SUCCESS"
  using assms
proof (induction xs arbitrary: st)
  case (Cons x xs)
  obtain t where "f x st = (SEV_STATUS_SUCCESS, t)"
    using Cons.prems [of x st] by (cases "f x st") simp
  with Cons show ?case by simp
qed simp

lemma demo_mark_asid: "fst (mark_asid demo_env demo_topology asid w v m) = SEV_STATUS_SUCCESS"
proof -
  have w: "fst (write_invalid_asid_reg demo_env demo_topology a b c m) = SEV_STATUS_SUCCESS" for a b c m
    unfolding write_invalid_asid_reg_def
    by (rule iter_err_succeeds) (auto simp: access_one_asid_reg_def demo_env_def Let_def)
  have r: "fst (read_invalid_asid_reg demo_env demo_topology a b c m) = SEV_STATUS_SUCCESS" for a b c m
    by (auto simp: read_invalid_asid_reg_def demo_env_def Let_def split: list.split)
  have "fst (mark_asid_bit demo_env demo_topology asid w v i st) = SEV_STATUS_SUCCESS" for i st
    using w r by (auto simp: mark_asid_bit_def Let_def split: prod.split) (metis fst_conv)+
  then have "fst (iter_err (mark_asid_bit demo_env demo_topology asid w v) is st) = SEV_STATUS_SUCCESS" for "is" st
    by (intro iter_err_succeeds)
  then show ?thesis by (auto simp: mark_asid_def split: prod.split) (metis fst_conv)
qed

lemma demo_clear_wbinvd: "fst (clear_wbinvd_done demo_env demo_topology w m) = SEV_STATUS_SUCCESS"
  unfolding clear_wbinvd_done_def
proof (rule iter_err_succeeds)
  fix x st
  assume "x \<in> set (concat (map (\<lambda>x. if w AND ccd_bit demo_topology x = 0 then []
                         else map (\<lambda>core. (x, core)) (enabled_cores demo_topology x)) (all_ccxs demo_topology)))"
  then have "x = ((0, 0, 0), 0) \<or> x = ((0, 0, 0), 1)" by (auto simp: demo_ccxs demo_cores split: if_split_asm)
  then show "fst (clear_wbinvd_core demo_env x st) = SEV_STATUS_SUCCESS"
    by (auto simp: clear_wbinvd_core_def demo_env_def read_cpu_tmr_def write_cpu_tmr_def
        cpu_tmr_address_def CPU_TMR_THREAD_OFFSET_def CPU_TMR_WBINVD_DONE_T0_OFFSET_def Let_def)
qed

text \<open>The first guest is measured and its launch finished: it runs on ASID 1.\<close>

definition demo_running :: sev_plat where
  "demo_running = snd (sev_mcmd_launch_finish demo_act_env True 1
     (set_guest (SevGuest 0) ((p_guests demo_active (SevGuest 0))\<lparr>g_sev_state := SEV_GUEST_STATE_LSECRET\<rparr>) demo_active))"

lemma demo_running_reachable: "plat_reachable demo_act_env demo_running"
proof -
  have row: "sev_guest_state_transition True (g_sev_state (p_guests demo_active (SevGuest 0)))
      SEV_MCMD_ID_LAUNCH_MEASURE = (SEV_STATUS_SUCCESS, SEV_GUEST_STATE_LSECRET)"
    unfolding guest_step_iff live_guest_rows
    by (simp add: guest_state_tbl_sev_def demo_active_eq demo_guest_def)
  have "plat_reachable demo_act_env (set_guest (SevGuest 0)
      ((p_guests demo_active (SevGuest 0))\<lparr>g_sev_state := SEV_GUEST_STATE_LSECRET\<rparr>) demo_active)"
    by (rule reach_step [OF demo_active_reachable step_host [OF step_life_cycle [OF _ row]]])
       (simp add: life_cycle_cmds_def)
  from reach_step [OF this step_host [OF step_launch_finish [OF prod.collapse [symmetric]]]]
  show ?thesis by (simp add: demo_running_def)
qed

lemma demo_running_fields:
  "g_asid (p_guests demo_running (SevGuest 0)) = 1" "g_ccxs (p_guests demo_running (SevGuest 0)) = 1"
  "g_guest_flags (p_guests demo_running (SevGuest 0)) = 1"
  "g_sev_state (p_guests demo_running (SevGuest 0)) = SEV_GUEST_STATE_RUNNING"
  "asid_in_use demo_running 0 = 1" "asid_allocated demo_running 0 = 0" "asid_dirty demo_running 0 = 0"
proof -
  obtain tmr where m: "mark_asid_valid demo_env demo_topology 1 1 (p_tmr demo_launched) = (SEV_STATUS_SUCCESS, tmr)"
    using demo_mark_asid by (metis mark_asid_valid_def prod.collapse)
  note simps = demo_running_def sev_mcmd_launch_finish_def handle_is_valid_def handle_is_in_range_def
    guest_is_free_def sev_get_guest_def handle_to_index_def SEV_GUEST_HANDLE_MIN_def
    SEV_GUEST_HANDLE_MAX_def SEV_GUEST_COUNT_MAX_def guest_finish_def finish_pending_def
    sev_guest_finish_pending_activate_def guest_is_pending_def guest_flag_defs demo_active_eq Let_def
    demo_guest_def finish_rows demo_act_env_def m
  have p: "p_sev_state demo_launched = SEV_STATE_WORKING" "asid_in_use demo_launched 0 = 0"
    "asid_dirty demo_launched 0 = 0"
    by (simp_all add: demo_launched_def demo_plat_def)
  show "g_asid (p_guests demo_running (SevGuest 0)) = 1" "g_ccxs (p_guests demo_running (SevGuest 0)) = 1"
    "g_guest_flags (p_guests demo_running (SevGuest 0)) = 1"
    "g_sev_state (p_guests demo_running (SevGuest 0)) = SEV_GUEST_STATE_RUNNING"
    "asid_in_use demo_running 0 = 1" "asid_allocated demo_running 0 = 0" "asid_dirty demo_running 0 = 0"
    by (simp_all add: simps p)
qed

section \<open>Properties\<close>

text \<open>
  C1: In every state the commands can reach, two guests that hold an ASID, each active or waiting
  to become active, hold different ones: an ASID, and with it a memory encryption key, has one
  owner.
\<close>

theorem asid_has_one_owner:
  assumes "plat_reachable A s" and "r \<noteq> r'"
    and "guest_has_asid (p_guests s r)" and "guest_has_asid (p_guests s r')"
  shows "g_asid (p_guests s r) \<noteq> g_asid (p_guests s r')"
  using reachable_inv [OF assms(1)] assms(2-4) by (auto simp: asid_inv_def)

theorem asid_has_one_owner_witness:
  "g_asid (p_guests demo_active (SevGuest 0)) \<noteq> g_asid (p_guests demo_active (SevGuest 1))"
  by (rule asid_has_one_owner [OF demo_active_reachable])
     (simp_all add: demo_active_eq guest_has_asid_def guest_flag_defs)

lemma activate_common_success:
  assumes "activate_common A r asid ccxs s = (SEV_STATUS_SUCCESS, s')"
    and "\<not> guest_has_asid (p_guests s r)"
  shows "asid_dirty s (asid - 1) = 0" and "asid_clean s (asid - 1) = present A"
    and "guest_has_asid (p_guests s' r)" and "g_asid (p_guests s' r) = asid"
    and "g_ccxs (p_guests s' r) = ccxs"
proof -
  let ?g1 = "(p_guests s r)\<lparr>g_ccxs := 0\<rparr>"
  obtain st1 g2 tmr where a: "sev_guest_activate A (asid_dirty s) ?g1 asid ccxs (p_tmr s) = (st1, g2, tmr)"
    by (cases "sev_guest_activate A (asid_dirty s) ?g1 asid ccxs (p_tmr s)") auto
  from assms show d: "asid_dirty s (asid - 1) = 0" "asid_clean s (asid - 1) = present A"
    by (auto simp: activate_common_def Let_def split: if_split_asm)
  have st1: "st1 = SEV_STATUS_SUCCESS" and g2: "p_guests s' r = g2"
    using assms a d by (auto simp: activate_common_def Let_def split: if_split_asm)
  from guest_activate_ok(2) [OF a [unfolded st1]] obtain f where
    "g2 = ?g1\<lparr>g_asid := asid, g_ccxs := ccxs, g_guest_flags := f\<rparr>" "bit f 0 \<or> bit f 2"
    using assms(2) by (auto split: if_split_asm)
  then show "guest_has_asid (p_guests s' r)" "g_asid (p_guests s' r) = asid" "g_ccxs (p_guests s' r) = ccxs"
    by (auto simp: g2 has_asid_flags flag_bits)
qed

text \<open>
  C24: ACTIVATE succeeds only for an ASID that is clean on all present CCXs and that no guest
  holds; afterwards the guest holds it on all CCXs.
\<close>

theorem activate_takes_a_flushed_asid:
  assumes "plat_reachable A s"
    and "mcmd_activate_common A r asid s = (SEV_STATUS_SUCCESS, s')"
  shows "asid_dirty s (asid - 1) = 0 \<and> asid_clean s (asid - 1) = present A \<and>
    (\<forall>r'. guest_has_asid (p_guests s r') \<longrightarrow> g_asid (p_guests s r') \<noteq> asid) \<and>
    guest_has_asid (p_guests s' r) \<and> g_asid (p_guests s' r) = asid \<and> g_ccxs (p_guests s' r) = present A"
proof -
  have inv: "asid_inv A s" using reachable_inv [OF assms(1)] ..
  from assms(2) have a: "asid \<noteq> 0" "asid \<le> GetMaxSEVASID" "\<not> guest_has_asid (p_guests s r)"
    "activate_common A r asid (present A) s = (SEV_STATUS_SUCCESS, s')"
    by (auto simp: mcmd_activate_common_def inactive_flags split: if_split_asm)
  note ok = activate_common_success [OF a(4,3)]
  with clean_asid_unowned(3) [OF inv asid_index [OF a(1,2)] ok(2)] show ?thesis by simp
qed

theorem activate_takes_a_flushed_asid_witness:
  "asid_clean demo_launched 0 = present demo_act_env \<and>
   g_asid (p_guests (snd (mcmd_activate_common demo_act_env (SevGuest 0) 1 demo_launched)) (SevGuest 0)) = 1"
proof -
  have "mcmd_activate_common demo_act_env (SevGuest 0) 1 demo_launched =
      sev_mcmd_activate demo_act_env True 1 1 demo_launched"
    by (simp add: demo_activate_simps demo_launched_def demo_plat_def demo_guest_def)
  then have "mcmd_activate_common demo_act_env (SevGuest 0) 1 demo_launched =
      (SEV_STATUS_SUCCESS, snd (mcmd_activate_common demo_act_env (SevGuest 0) 1 demo_launched))"
    by (simp only: demo_first snd_conv)
  from activate_takes_a_flushed_asid [OF demo_launched_reachable this] show ?thesis by simp
qed

lemma deactivate_success:
  assumes "asid_inv A s" and "guest_has_asid (p_guests s r)"
    and "deactivate_guest A r s = (SEV_STATUS_SUCCESS, s')" and "i = g_asid (p_guests s r) - 1"
  shows "asid_allocated s' i = 0" and "asid_in_use s' i = 0"
    and "asid_clean s' i = asid_clean s i OR asid_allocated s i"
    and "asid_dirty s' i = asid_in_use s i"
    and "\<not> guest_has_asid (p_guests s' r)"
proof -
  let ?g = "p_guests s r"
  obtain st1 g' tmr where d: "sev_guest_deactivate A ?g (asid_in_use s i) (p_tmr s) = (st1, g', tmr)"
    by (cases "sev_guest_deactivate A ?g (asid_in_use s i) (p_tmr s)") auto
  define s1 where "s1 = set_guest r g' (s\<lparr>p_tmr := tmr\<rparr>)"
  have s': "s' = release_ccxs (g_asid ?g) (g_ccxs ?g) s1"
    using assms(3) d by (auto simp: deactivate_guest_def Let_def s1_def assms(4) split: if_split_asm)
  from assms(1,2) have ok: "owner_ok A s ?g" by (simp add: asid_inv_def)
  then have sub: "submask (asid_allocated s1 (g_asid ?g - 1)) (g_ccxs ?g)"
    "submask (asid_in_use s1 (g_asid ?g - 1)) (g_ccxs ?g)" and dirty: "asid_dirty s i = 0"
    by (simp_all add: owner_ok_def Let_def s1_def assms(4))
  have andsub: "submask a b \<Longrightarrow> a AND b = a" for a b
    by (auto simp: submask_def bit_eq_iff bit_and_iff)
  note rf = release_ccxs_fields [OF sub]
  show "asid_allocated s' i = 0" "asid_in_use s' i = 0" using rf(1,2) by (simp_all add: s' assms(4))
  show "asid_clean s' i = asid_clean s i OR asid_allocated s i"
    "asid_dirty s' i = asid_in_use s i"
    using rf(3,4) andsub [OF sub(1)] andsub [OF sub(2)] dirty by (simp_all add: s' assms(4) s1_def)
  show "\<not> guest_has_asid (p_guests s' r)"
    using deactivate_inv(2) [OF assms(1-3)] by simp
qed

text \<open>
  C25: DEACTIVATE takes the ASID from the guest; CCXs on which the guest was allowed but never ran
  are clean again, those on which it ran are dirty, and none stays allocated or in use.
\<close>

theorem deactivate_returns_the_ccxs:
  assumes "plat_reachable A s" and "guest_has_asid (p_guests s r)"
    and "deactivate_guest A r s = (SEV_STATUS_SUCCESS, s')" and "i = g_asid (p_guests s r) - 1"
  shows "\<not> guest_has_asid (p_guests s' r) \<and> asid_allocated s' i = 0 \<and> asid_in_use s' i = 0 \<and>
    asid_clean s' i = asid_clean s i OR asid_allocated s i \<and> asid_dirty s' i = asid_in_use s i"
  using deactivate_success [OF _ assms(2-4)] reachable_inv [OF assms(1)] by blast

definition demo_stopped :: sev_plat where
  "demo_stopped = snd (deactivate_guest demo_act_env (SevGuest 0) demo_running)"

lemma demo_stop: "deactivate_guest demo_act_env (SevGuest 0) demo_running = (SEV_STATUS_SUCCESS, demo_stopped)"
proof -
  have "fst (deactivate_guest demo_act_env (SevGuest 0) demo_running) = SEV_STATUS_SUCCESS"
    using demo_mark_asid demo_clear_wbinvd
    by (auto simp: deactivate_guest_def Let_def sev_guest_deactivate_def demo_running_fields
        demo_act_env_def mark_asid_invalid_def split: prod.split if_split) (metis fst_conv)+
  then show ?thesis unfolding demo_stopped_def by (metis prod.collapse)
qed

lemma demo_running_has_asid: "guest_has_asid (p_guests demo_running (SevGuest 0))"
  by (simp add: guest_has_asid_def demo_running_fields guest_flag_defs)

theorem deactivate_returns_the_ccxs_witness:
  "\<not> guest_has_asid (p_guests demo_stopped (SevGuest 0)) \<and> asid_dirty demo_stopped 0 = 1"
  using deactivate_returns_the_ccxs [OF demo_running_reachable demo_running_has_asid demo_stop refl]
  by (simp add: demo_running_fields)

text \<open>
  C8: An ASID on which a guest ran cannot be given to another guest before the caches were
  flushed: after its DEACTIVATE, and after any further sequence of the modelled commands without a
  DF_FLUSH, successful or not, some CCX is still dirty and ACTIVATE of the ASID answers
  DF_FLUSH_REQUIRED and changes nothing, whichever guest without an ASID it is for (one that is
  being sent away is refused for that reason).
\<close>

theorem used_asid_needs_df_flush:
  assumes "plat_reachable A s" and "guest_has_asid (p_guests s r)"
    and "asid = g_asid (p_guests s r)" and "asid_in_use s (asid - 1) \<noteq> 0"
    and "deactivate_guest A r s = (SEV_STATUS_SUCCESS, s')"
    and "(host_step A)\<^sup>*\<^sup>* s' t"
    and "guest_is_inactive (p_guests t r')" and "g_sev_state (p_guests t r') \<noteq> SEV_GUEST_STATE_SENT"
  shows "asid_dirty t (asid - 1) \<noteq> 0 \<and>
    mcmd_activate_common A r' asid t = (SEV_STATUS_DF_FLUSH_REQUIRED, t)"
proof -
  have inv: "asid_inv A s" and ty: "types_ok s" using reachable_inv [OF assms(1)] by blast+
  with assms(2) have a: "asid \<noteq> 0" "asid \<le> GetMaxSEVASID"
    by (auto simp: asid_inv_def owner_ok_def Let_def assms(3))
  have "asid_inv A s'" "types_ok s'"
    using deactivate_inv(1) [OF inv assms(2,5)] same_types_ok [OF ty deactivate_types [OF assms(5)]] .
  from host_steps_keep [OF assms(6) this]
  have t: "asid_inv A t" and d: "submask (asid_dirty s' (asid - 1)) (asid_dirty t (asid - 1))"
    by (simp_all add: keeps_dirt_def)
  have "asid_dirty s' (asid - 1) \<noteq> 0"
    using deactivate_success(4) [OF inv assms(2,5) refl] assms(3,4) by simp
  with d have dirty: "asid_dirty t (asid - 1) \<noteq> 0" by (auto simp: bit_zero_mask submask_def)
  with dirty_asid_unowned [OF t asid_index [OF a] this] a assms(7,8) show ?thesis
    by (simp add: mcmd_activate_common_def activate_common_def Let_def inactive_flags)
qed

lemma launch_finish_others:
  assumes "r' \<noteq> r"
  shows "p_guests (snd (guest_finish A c cmd r s)) r' = p_guests s r'"
proof -
  obtain st1 s1 where f: "finish_pending A r s = (st1, s1)" by (cases "finish_pending A r s")
  obtain st2 g2 where t: "sev_guest_state_transition True (g_sev_state (p_guests s1 r)) cmd = (st2, g2)"
    by (cases "sev_guest_state_transition True (g_sev_state (p_guests s1 r)) cmd")
  from finish_pending_guest(2) [OF f assms] assms show ?thesis
    by (simp add: guest_finish_def f t Let_def)
qed

text \<open>The first guest is stopped and a third one is launched: it does not get ASID 1.\<close>

definition demo_relaunched :: sev_plat where
  "demo_relaunched = set_guest (SevGuest 5) (demo_guest 6) demo_stopped"

theorem used_asid_needs_df_flush_witness:
  "mcmd_activate_common demo_act_env (SevGuest 5) 1 demo_relaunched =
     (SEV_STATUS_DF_FLUSH_REQUIRED, demo_relaunched)"
proof -
  have d: "asid_inv demo_act_env demo_running" using reachable_inv [OF demo_running_reachable] ..
  have r: "p_guests demo_running (SevGuest 5) = guest_zero"
  proof -
    have "p_guests demo_active (SevGuest 5) = guest_zero"
      by (simp add: demo_active_eq demo_launched_def demo_plat_def)
    moreover have "p_guests demo_running (SevGuest 5) = p_guests demo_active (SevGuest 5)"
      unfolding demo_running_def sev_mcmd_launch_finish_def
      by (simp add: launch_finish_others Let_def sev_get_guest_def handle_to_index_def
          handle_is_in_range_def SEV_GUEST_HANDLE_MIN_def SEV_GUEST_HANDLE_MAX_def SEV_GUEST_COUNT_MAX_def)
    ultimately show ?thesis by simp
  qed
  have "p_guests demo_stopped = (p_guests demo_running)(SevGuest 0 := p_guests demo_stopped (SevGuest 0))"
    using deactivate_inv(2) [OF d demo_running_has_asid demo_stop refl] by blast
  from fun_cong [OF this, of "SevGuest 5"] have z: "p_guests demo_stopped (SevGuest 5) = guest_zero"
    using r by simp
  have n: "\<not> guest_has_asid (demo_guest 6)" "ref_type_ok (SevGuest 5) (demo_guest 6)"
    by (simp_all add: demo_guest_def guest_zero_def guest_has_asid_def ref_type_ok_def)
  have "host_step demo_act_env demo_stopped demo_relaunched"
    unfolding demo_relaunched_def by (rule step_new_guest) (simp_all add: z n)
  then have steps: "(host_step demo_act_env)\<^sup>*\<^sup>* demo_stopped demo_relaunched" by blast
  have i: "guest_is_inactive (p_guests demo_relaunched (SevGuest 5))"
    "g_sev_state (p_guests demo_relaunched (SevGuest 5)) \<noteq> SEV_GUEST_STATE_SENT"
    using n(1) by (simp_all add: demo_relaunched_def inactive_flags) (simp add: demo_guest_def)
  have u: "asid_in_use demo_running (1 - 1) \<noteq> 0" by (simp add: demo_running_fields(5))
  from used_asid_needs_df_flush [OF demo_running_reachable demo_running_has_asid
      demo_running_fields(1) [symmetric] u demo_stop steps i]
  show ?thesis ..
qed

text \<open>
  DF_FLUSH when the scan of the cores succeeds: for every ASID the dirty CCXs that the scan
  reports become clean, the other CCXs stay dirty, allocated and used CCXs do not change; unless
  all cores are done the command answers WBINVD_REQUIRED and stops there.
\<close>

theorem df_flush_cleans_reported_ccxs:
  assumes "is_wbinvd_done (ae_tmr A) (ae_topology A) (p_tmr s) = (SEV_STATUS_SUCCESS, all_done, w)"
    and "mcmd_df_flush_common A X fl slave s = (st, s')" and "unat i < MAX_SEV_ASIDS"
  shows "asid_dirty s' i = asid_dirty s i AND NOT (asid_dirty s i AND w) \<and>
    asid_clean s' i = asid_clean s i OR (asid_dirty s i AND w) \<and>
    asid_allocated s' i = asid_allocated s i \<and> asid_in_use s' i = asid_in_use s i \<and>
    (if all_done then st = fst (df_flush_fabric A X fl slave
         (if w \<noteq> 0 then fold (flush_asid w) [0..<MAX_SEV_ASIDS] s else s))
     else st = SEV_STATUS_WBINVD_REQUIRED)"
proof -
  define s1 where "s1 = (if w \<noteq> 0 then fold (flush_asid w) [0..<MAX_SEV_ASIDS] s else s)"
  have e: "mcmd_df_flush_common A X fl slave s =
      (if \<not> all_done then (SEV_STATUS_WBINVD_REQUIRED, s1) else df_flush_fabric A X fl slave s1)"
    by (simp add: mcmd_df_flush_common_def assms(1) Let_def s1_def)
  have s1: "asid_dirty s1 i = asid_dirty s i AND NOT (asid_dirty s i AND w)"
    "asid_clean s1 i = asid_clean s i OR (asid_dirty s i AND w)"
    "asid_allocated s1 = asid_allocated s" "asid_in_use s1 = asid_in_use s"
    using flush_asid_fold [of MAX_SEV_ASIDS w s] assms(3) by (auto simp: s1_def)
  have "same_masks s1 s2 i" if "df_flush_fabric A X fl slave s1 = (st2, s2)" for st2 s2
    using that by (auto simp: df_flush_fabric_def same_masks_def split: if_split_asm prod.split_asm)
  with assms(2) s1 show ?thesis
    unfolding e s1_def [symmetric]
    by (cases all_done) (auto simp: same_masks_def)
qed

text \<open>Core 0 has executed WBINVD, core 1 of the same complex has not; ASID 1 is dirty there.\<close>

definition demo_dirty :: sev_plat where
  "demo_dirty = demo_plat\<lparr>asid_dirty := (\<lambda>_. 0)(0 := 1), asid_clean := (\<lambda>_. 1)(0 := 0), p_tmr := demo_tmr\<rparr>"

definition demo_es_env :: es_env where
  "demo_es_env = \<lparr>ee_pool_tmr = (SEV_STATUS_SUCCESS, 0, 0, True), ee_enable = [],
     ee_pool_map = SEV_STATUS_SUCCESS, ee_aligned = (\<lambda>_ _. True)\<rparr>"

lemma demo_scan: "is_wbinvd_done demo_env demo_topology demo_tmr = (SEV_STATUS_SUCCESS, False, 1)"
  by (simp add: is_wbinvd_done_def demo_ccxs demo_cores demo_core_0 demo_core_1 ccd_bit_def ccx_index_def)

text \<open>The flush marks the CCX clean although core 1 never executed WBINVD.\<close>

theorem df_flush_cleans_reported_ccxs_witness:
  "\<exists>st s'. mcmd_df_flush_common demo_act_env demo_es_env SEV_STATUS_SUCCESS SEV_STATUS_SUCCESS demo_dirty = (st, s') \<and>
     st = SEV_STATUS_WBINVD_REQUIRED \<and> asid_dirty s' 0 = 0 \<and> asid_clean s' 0 = 1"
proof -
  obtain st s' where f: "mcmd_df_flush_common demo_act_env demo_es_env SEV_STATUS_SUCCESS
      SEV_STATUS_SUCCESS demo_dirty = (st, s')" by (metis surj_pair)
  have "is_wbinvd_done (ae_tmr demo_act_env) (ae_topology demo_act_env) (p_tmr demo_dirty) =
      (SEV_STATUS_SUCCESS, False, 1)"
    by (simp add: demo_act_env_def demo_dirty_def demo_scan)
  from df_flush_cleans_reported_ccxs [OF this f, of 0] f show ?thesis
    by (simp add: MAX_SEV_ASIDS_def demo_dirty_def demo_plat_def)
qed

text \<open>
  C22: A guest that holds an ASID cannot be decommissioned: in every state that the modelled commands
  reach, the common part of DECOMMISSION answers ACTIVE for it and changes nothing (an SNP guest is
  deactivated before).
\<close>

theorem decommission_refuses_active_guest:
  assumes "plat_reachable A s" and "guest_has_asid (p_guests s r)"
  shows "mcmd_decommission_common mp r s = (SEV_STATUS_ACTIVE, s)"
proof -
  from reachable_inv [OF assms(1)] assms(2) have "owner_ok A s (p_guests s r)"
    by (simp add: asid_inv_def)
  from owner_active [OF this] show ?thesis by (simp add: mcmd_decommission_common_def)
qed

theorem decommission_refuses_active_guest_witness:
  "mcmd_decommission_common SEV_STATUS_SUCCESS (SevGuest 0) demo_running = (SEV_STATUS_ACTIVE, demo_running)"
  by (rule decommission_refuses_active_guest [OF demo_running_reachable demo_running_has_asid])

definition one_socket :: "u32 \<Rightarrow> bool" where
  "one_socket ccxs \<longleftrightarrow> CCXS_ON_P0 ccxs = 0 \<or> CCXS_ON_P1 ccxs = 0"

lemma sockets_or:
  "CCXS_ON_P0 (a OR b) = 0 \<longleftrightarrow> CCXS_ON_P0 a = 0 \<and> CCXS_ON_P0 b = 0"
  "CCXS_ON_P1 (a OR b) = 0 \<longleftrightarrow> CCXS_ON_P1 a = 0 \<and> CCXS_ON_P1 b = 0"
proof -
  have "(a OR b) AND m = (a AND m) OR (b AND m)" for a b m :: u32
    by (auto simp: bit_eq_iff mask_bits)
  moreover have "drop_bit 16 (a OR b) = drop_bit 16 a OR drop_bit 16 b"
    by (auto simp: bit_eq_iff bit_simps)
  ultimately show "CCXS_ON_P0 (a OR b) = 0 \<longleftrightarrow> CCXS_ON_P0 a = 0 \<and> CCXS_ON_P0 b = 0"
    "CCXS_ON_P1 (a OR b) = 0 \<longleftrightarrow> CCXS_ON_P1 a = 0 \<and> CCXS_ON_P1 b = 0"
    by (simp_all add: CCXS_ON_P0_def CCXS_ON_P1_def or_eq_zero)
qed

text \<open>
  The single-socket policy: when ACTIVATE_EX of such a guest passes the check, the CCXs it
  asks for together with those the guest has lie on one socket; an associated migration agent is
  active then, and if it runs on one socket, on the same one.
\<close>

theorem single_socket_is_enforced:
  assumes "g_policy_snp (p_guests s r) AND SNP_GUEST_POLICY_SINGLE_SOCKET_FLAG \<noteq> 0"
    and "one_socket (g_ccxs (p_guests s r))"
    and "single_socket_check x r ccxs s = SEV_STATUS_SUCCESS"
    and "ma = p_guests s (SnpGuest (x_ma x))"
  shows "one_socket (g_ccxs (p_guests s r) OR ccxs) \<and>
    (x_ma x \<noteq> PADDR_INVALID \<longrightarrow> guest_is_active ma \<and>
       (one_socket (g_ccxs ma) \<longrightarrow> one_socket (g_ccxs ma OR ccxs)))"
  using assms by (auto simp: single_socket_check_def Let_def one_socket_def sockets_or split: if_split_asm)

definition demo_pinned :: sev_plat where
  "demo_pinned = set_guest (SnpGuest 0) (guest_zero\<lparr>g_policy_snp := 0x100000, g_ccxs := 0x2\<rparr>) demo_plat"

definition demo_request :: activate_ex_in where
  "demo_request = \<lparr>x_asid = 1, x_numids = 1, x_copy = SEV_STATUS_SUCCESS, x_ids = [0],
     x_ma = PADDR_INVALID, x_map = SEV_STATUS_SUCCESS\<rparr>"

theorem single_socket_is_enforced_witness:
  "one_socket (0x2 OR 0x4) \<and> single_socket_check demo_request (SnpGuest 0) 0x10000 demo_pinned = SEV_STATUS_POLICY_FAILURE"
proof -
  have "g_policy_snp (p_guests demo_pinned (SnpGuest 0)) AND SNP_GUEST_POLICY_SINGLE_SOCKET_FLAG \<noteq> 0"
    "one_socket (g_ccxs (p_guests demo_pinned (SnpGuest 0)))"
    "single_socket_check demo_request (SnpGuest 0) 0x4 demo_pinned = SEV_STATUS_SUCCESS"
    by (simp_all add: demo_pinned_def SNP_GUEST_POLICY_SINGLE_SOCKET_FLAG_def one_socket_def
        single_socket_check_def CCXS_ON_P0_def CCXS_ON_P1_def demo_request_def Let_def)
  from single_socket_is_enforced [OF this refl] show ?thesis
    by (simp add: demo_pinned_def SNP_GUEST_POLICY_SINGLE_SOCKET_FLAG_def
        single_socket_check_def CCXS_ON_P0_def CCXS_ON_P1_def demo_request_def)
qed

section \<open>Handles\<close>

lemma free_guest_from_spec:
  assumes "\<forall>i \<in> set is. i < 1024"
  shows "free_guest_from gs is (Some h) =
    (case find (\<lambda>i. guest_is_free (Some (gs (of_nat i)))) is of
       None \<Rightarrow> (SEV_STATUS_RESOURCE_LIMIT, Some h)
     | Some i \<Rightarrow> (SEV_STATUS_SUCCESS, Some (of_nat i + 1)))"
  using assms
proof (induction "is")
  case (Cons i "is")
  then have "(of_nat i :: u32) < SEV_GUEST_COUNT_MAX"
    by (simp add: SEV_GUEST_COUNT_MAX_def word_less_nat_alt unat_of_nat)
  with Cons show ?case
    by (simp add: index_to_handle_def index_is_in_range_def SEV_GUEST_HANDLE_MIN_def)
qed simp

lemma handle_of_index:
  assumes "i < 1024"
  shows "sev_get_guest True (of_nat i + 1) = Some (of_nat i)"
    and "handle_is_in_range (of_nat i + 1)"
proof -
  have u: "unat (of_nat i + 1 :: u32) = i + 1"
    using assms by (simp add: unat_word_ariths unat_of_nat)
  show r: "handle_is_in_range (of_nat i + 1)"
    using assms u by (simp add: handle_is_in_range_def SEV_GUEST_HANDLE_MIN_def SEV_GUEST_HANDLE_MAX_def
        SEV_GUEST_COUNT_MAX_def word_le_nat_alt)
  then show "sev_get_guest True (of_nat i + 1) = Some (of_nat i)"
    by (simp add: sev_get_guest_def handle_to_index_def SEV_GUEST_HANDLE_MIN_def)
qed

text \<open>
  C26: The search for a free handle: it returns RESOURCE_LIMIT exactly if no slot is free, and
  otherwise a handle that is not valid yet, that resolves to a free slot, and whose slot is the
  first free one.
\<close>

theorem find_free_guest_handle_spec:
  assumes "find_free_guest_handle (Some gs) SEV_GUEST_COUNT_MAX (Some h0) = (st, h)"
  shows "if \<forall>i < 1024. \<not> guest_is_free (Some (gs (of_nat i)))
    then st = SEV_STATUS_RESOURCE_LIMIT \<and> h = Some h0
    else \<exists>i < 1024. st = SEV_STATUS_SUCCESS \<and> h = Some (of_nat i + 1) \<and>
      sev_get_guest True (of_nat i + 1) = Some (of_nat i) \<and> \<not> handle_is_valid gs (of_nat i + 1) \<and>
      guest_is_free (Some (gs (of_nat i))) \<and> (\<forall>k < i. \<not> guest_is_free (Some (gs (of_nat k))))"
proof -
  let ?P = "\<lambda>i. guest_is_free (Some (gs (of_nat i)))"
  have e: "(st, h) = (case find ?P [0..<1024] of
       None \<Rightarrow> (SEV_STATUS_RESOURCE_LIMIT, Some h0)
     | Some i \<Rightarrow> (SEV_STATUS_SUCCESS, Some (of_nat i + 1)))"
    using assms free_guest_from_spec [of "[0..<1024]" gs h0]
    by (simp add: find_free_guest_handle_def SEV_GUEST_COUNT_MAX_def)
  show ?thesis
  proof (cases "find ?P [0..<1024]")
    case None
    then have "\<forall>i < 1024. \<not> ?P i" by (auto simp: find_None_iff)
    with None e show ?thesis by simp
  next
    case (Some i)
    then have i: "i < 1024" "?P i" "\<forall>k < i. \<not> ?P k" by (auto simp: find_Some_iff)
    moreover have "\<not> handle_is_valid gs (of_nat i + 1)"
      using i handle_of_index [OF i(1)] by (simp add: handle_is_valid_def)
    moreover have "st = SEV_STATUS_SUCCESS" "h = Some (of_nat i + 1)" using Some e by simp_all
    ultimately show ?thesis using handle_of_index(1) [OF i(1)] by auto
  qed
qed

theorem find_free_guest_handle_spec_witness:
  "\<exists>i < 1024. snd (find_free_guest_handle (Some (\<lambda>_. guest_zero)) SEV_GUEST_COUNT_MAX (Some 7)) = Some (of_nat i + 1) \<and>
     \<not> handle_is_valid (\<lambda>_. guest_zero) (of_nat i + 1)"
proof -
  have "\<not> (\<forall>i < (1024 :: nat). \<not> guest_is_free (Some guest_zero))"
    by (auto simp: guest_is_free_def guest_zero_def intro: exI [of _ 0])
  with find_free_guest_handle_spec [OF prod.collapse [symmetric], of "\<lambda>_. guest_zero" 7]
  show ?thesis by auto
qed

lemma policy_version:
  "unat (ucast (sev_policy_major policy) :: u8) = unat policy div 2 ^ 16 mod 2 ^ 8"
  "unat (ucast (sev_policy_minor policy) :: u8) = unat policy div 2 ^ 24"
proof -
  have octet: "(0xFF :: u32) = mask 8" by (simp add: mask_eq_exp_minus_1)
  have "sev_policy_major policy = take_bit 8 (drop_bit 16 policy)" "sev_policy_minor policy = drop_bit 24 policy"
    unfolding sev_policy_major_def sev_policy_minor_def octet
    by (auto simp: bit_eq_iff bit_simps dest: bit_imp_le_length)
  moreover have d: "unat (drop_bit k policy) = unat policy div 2 ^ k" for k
    by (simp only: unat_drop_bit_eq drop_bit_eq_div [of k "unat policy"])
  moreover have "unat policy div 2 ^ 24 < 2 ^ 8" using u32_bound [of policy] by simp
  moreover have "unat (take_bit 8 (drop_bit 16 policy)) = unat policy div 2 ^ 16 mod 2 ^ 8"
    by (simp only: unsigned_take_bit_eq d) (simp only: take_bit_eq_mod)
  ultimately show "unat (ucast (sev_policy_major policy) :: u8) = unat policy div 2 ^ 16 mod 2 ^ 8"
    "unat (ucast (sev_policy_minor policy) :: u8) = unat policy div 2 ^ 24"
    by (simp_all add: unsigned_ucast_eq d take_bit_nat_eq_self del: power_numeral)
qed

text \<open>
  C33: The policy of an SEV guest, an SEV policy word and its MAC, is accepted exactly if the check of the
  MAC succeeds, the API version of the firmware is at least the one in the policy (the major number in
  bits 23:16, the minor number in bits 31:24), and the bits 15:6 are clear.
\<close>

theorem policy_accepted_iff:
  "sev_guest_verify_policy (api_major, api_minor) mac True policy = SEV_STATUS_SUCCESS \<longleftrightarrow>
     mac = SEV_STATUS_SUCCESS \<and>
     (let major = unat policy div 2 ^ 16 mod 2 ^ 8; minor = unat policy div 2 ^ 24
      in major < unat api_major \<or> major = unat api_major \<and> minor \<le> unat api_minor) \<and>
     (\<forall>n \<in> {6..<16}. \<not> bit policy n)"
proof -
  have eq: "(SEV_GUEST_POLICY_RESERVED_MASK :: u32) = push_bit 6 (mask 10)"
    by (simp add: SEV_GUEST_POLICY_RESERVED_MASK_def mask_eq_exp_minus_1 push_bit_eq_mult)
  have "bit (SEV_GUEST_POLICY_RESERVED_MASK :: u32) n \<longleftrightarrow> n \<in> {6..<16}" for n
    unfolding eq by (auto simp: bit_simps)
  then have "policy AND SEV_GUEST_POLICY_RESERVED_MASK = 0 \<longleftrightarrow> (\<forall>n \<in> {6..<16}. \<not> bit policy n)"
    unfolding bit_zero_mask bit_and_iff by auto
  moreover have version: "api_version_supported api_major api_minor (ucast (sev_policy_major policy)) (ucast (sev_policy_minor policy)) \<longleftrightarrow>
     (let major = unat policy div 2 ^ 16 mod 2 ^ 8; minor = unat policy div 2 ^ 24
      in major < unat api_major \<or> major = unat api_major \<and> minor \<le> unat api_minor)"
    unfolding api_version_supported_def Let_def word_less_nat_alt word_le_nat_alt word_unat_eq_iff policy_version by auto
  ultimately show ?thesis
    by (auto simp: sev_guest_verify_policy_def version simp del: power_numeral split: if_splits)
qed

text \<open>Firmware 1.55 accepts the policy 3 of API version 0.24, and refuses it with bit 6 set.\<close>

theorem policy_accepted_iff_witness:
  "sev_guest_verify_policy (1, 55) SEV_STATUS_SUCCESS True 0x18000003 = SEV_STATUS_SUCCESS \<and>
   sev_guest_verify_policy (1, 55) SEV_STATUS_SUCCESS True 0x18000043 \<noteq> SEV_STATUS_SUCCESS"
proof -
  have "\<forall>n \<in> {6..<16}. \<not> bit (0x18000003 :: u32) n"
    by (simp add: atLeastLessThan_nat_numeral del: atLeastLessThan_iff)
  then have "sev_guest_verify_policy (1, 55) SEV_STATUS_SUCCESS True 0x18000003 = SEV_STATUS_SUCCESS"
    by (subst policy_accepted_iff) (simp add: Let_def)
  moreover have "bit (0x18000043 :: u32) 6" by simp
  then have "\<not> (\<forall>n \<in> {6..<16}. \<not> bit (0x18000043 :: u32) n)" by force
  then have "sev_guest_verify_policy (1, 55) SEV_STATUS_SUCCESS True 0x18000043 \<noteq> SEV_STATUS_SUCCESS"
    by (subst policy_accepted_iff) blast
  ultimately show ?thesis by blast
qed

end
