(* ===== verification/Sev_X86Copy.thy ===== *)
theory Sev_X86Copy
  imports Sev_RbTypes Sev_Cores
begin

text \<open>
  Copies between x86 memory and the memory of the security processor (\<open>x86_copy.c\<close>), with the
  check of every address that comes from the host (\<open>validate_address_range\<close>, and
  \<open>validate_memory_map\<close> of \<open>sev_rmp.c\<close>).

  The state is one record: the x86 memory, the two switches that suppress address checks, and
  the configuration the check reads (SMM range, reserved SEV-ES region, ring buffers, TMRs, RMP,
  memory map). The memory is indexed by the address the firmware presents, ASID bits included:
  the bits select the key of the memory controller, which is outside. What mapping a window and
  reading a TMR return, the width of the ASID field and the legacy SMM segment (ASEG), which
  come from headers and calls of the boot loader, are fields too. The C buffers are byte lists.
\<close>

section \<open>State\<close>

record x86 =
  xs_mem :: bytes_mem
  xs_skip_rmp :: u32
  xs_skip_tmr :: bool
  xs_map :: "u64 \<Rightarrow> sev_status"
  xs_asid_shift :: nat
  xs_aseg_base :: u64
  xs_aseg_limit :: u64
  xs_smm_base :: u64
  xs_smm_length :: u64
  xs_context_initialized :: bool
  xs_reserved_tmr_base :: u64
  xs_reserved_tmr_end :: u64
  xs_rb :: sev_rb_config
  xs_tmr :: "nat \<Rightarrow> sev_status \<times> u64 \<times> u64 \<times> bool"
  xs_rmp_base :: u64
  xs_rmp_end :: u64
  xs_mem_map :: "(u64 \<times> u64) list option"

definition PAGE_SIZE_4K :: u64 where "PAGE_SIZE_4K = 4096"
definition PAGE_SIZE_2M :: u64 where "PAGE_SIZE_2M = 512 * PAGE_SIZE_4K"
definition SEV_CBIT_SHIFT :: nat where "SEV_CBIT_SHIFT = 51"
definition SEV_CBIT_MASK :: u64 where "SEV_CBIT_MASK = push_bit SEV_CBIT_SHIFT 1"
definition SEV_ASID_SME_ASID :: u64 where "SEV_ASID_SME_ASID = 1023"
definition X86_HYPER_TRANSPORT_AREA :: u64 where
  "X86_HYPER_TRANSPORT_AREA = 12 * 1024 * 1024 * 1024"
definition X86_MAX_PHYS_ADDR :: u64 where
  "X86_MAX_PHYS_ADDR = 64 * 1024 * 1024 * 1024 * 1024 - X86_HYPER_TRANSPORT_AREA - 1"
definition X86_64MB_SIZE :: u64 where "X86_64MB_SIZE = 64 * 1024 * 1024"
definition X86_64MB_MASK :: u64 where "X86_64MB_MASK = NOT (X86_64MB_SIZE - 1)"
definition TMR_NR_MAX :: nat where "TMR_NR_MAX = 7"
definition SNP_RMP_CPU_TMR :: nat where "SNP_RMP_CPU_TMR = 3"
definition SNP_RMP_IOMMU_TMR :: nat where "SNP_RMP_IOMMU_TMR = 4"
definition SEV_CPU_TMR :: nat where "SEV_CPU_TMR = 5"
definition SEV_CPU_TMR2 :: nat where "SEV_CPU_TMR2 = 6"

definition CLEAR_CBIT :: "u64 \<Rightarrow> u64" where "CLEAR_CBIT p = p AND NOT SEV_CBIT_MASK"
definition CBIT_IS_SET :: "u64 \<Rightarrow> bool" where "CBIT_IS_SET a \<longleftrightarrow> a AND SEV_CBIT_MASK \<noteq> 0"

text \<open>\<open>SEV_ASID_ADDR_MASK\<close>.\<close>

definition SEV_ASID_ADDR_MASK :: "x86 \<Rightarrow> u64" where
  "SEV_ASID_ADDR_MASK X = push_bit (xs_asid_shift X) 0x3FF"

datatype x86_copy_op =
    COPY_PLAINTEXT_IN | COPY_PLAINTEXT_OUT | COPY_PLAINTEXT_IN_OUT
  | COPY_CIPHERTEXT_IN | COPY_CIPHERTEXT_OUT | COPY_CIPHERTEXT_IN_OUT
  | INFLATE_PLAINTEXT_OUT | INFLATE_CIPHERTEXT_OUT

section \<open>The address check\<close>

definition ranges_overlap :: "u64 \<Rightarrow> u64 \<Rightarrow> u64 \<Rightarrow> u64 \<Rightarrow> bool" where
  "ranges_overlap start1 end1 start2 end2 \<longleftrightarrow>
     CLEAR_CBIT start1 \<le> CLEAR_CBIT end2 \<and> CLEAR_CBIT start2 \<le> CLEAR_CBIT end1"

definition range_overlaps_aseg :: "x86 \<Rightarrow> u64 \<Rightarrow> u64 \<Rightarrow> bool" where
  "range_overlaps_aseg X start limit = ranges_overlap start limit (xs_aseg_base X) (xs_aseg_limit X)"

definition asid_bits_set :: "x86 \<Rightarrow> u64 \<Rightarrow> bool" where
  "asid_bits_set X addr \<longleftrightarrow> addr AND (SEV_ASID_ADDR_MASK X AND NOT SEV_CBIT_MASK) > 0"

definition x86_addresses_same :: "x86 \<Rightarrow> u64 \<Rightarrow> u64 \<Rightarrow> bool" where
  "x86_addresses_same X addr1 addr2 \<longleftrightarrow>
     (let msk = SEV_ASID_ADDR_MASK X AND NOT SEV_CBIT_MASK
      in addr1 AND NOT msk = addr2 AND NOT msk)"

definition skip_rmp_addr_check :: "bool \<Rightarrow> x86 \<Rightarrow> x86" where
  "skip_rmp_addr_check flag X =
     (if flag then X\<lparr>xs_skip_rmp := xs_skip_rmp X + 1\<rparr>
      else if xs_skip_rmp X > 0 then X\<lparr>xs_skip_rmp := xs_skip_rmp X - 1\<rparr>
      else X)"

definition reset_rmp_addr_check :: "x86 \<Rightarrow> x86" where
  "reset_rmp_addr_check X = X\<lparr>xs_skip_rmp := 0\<rparr>"

definition skip_cpu_tmr_addr_check :: "bool \<Rightarrow> x86 \<Rightarrow> x86" where
  "skip_cpu_tmr_addr_check flag X = X\<lparr>xs_skip_tmr := flag\<rparr>"

definition reset_cpu_tmr_addr_check :: "x86 \<Rightarrow> x86" where
  "reset_cpu_tmr_addr_check X = X\<lparr>xs_skip_tmr := False\<rparr>"

text \<open>The loop over the memory regions: the range has to lie in a single one.\<close>

fun memory_map_walk :: "(u64 \<times> u64) list \<Rightarrow> u64 \<Rightarrow> u64 \<Rightarrow> sev_status" where
  "memory_map_walk [] base_addr limit_addr = SEV_STATUS_INVALID_CONFIG"
| "memory_map_walk ((b, l) # regions) base_addr limit_addr =
     (if b \<le> base_addr \<and> limit_addr \<le> l then SEV_STATUS_SUCCESS
      else memory_map_walk regions base_addr limit_addr)"

definition validate_memory_map :: "(u64 \<times> u64) list option \<Rightarrow> u64 \<Rightarrow> u64 \<Rightarrow> sev_status" where
  "validate_memory_map mem_map base_addr limit_addr =
     (case mem_map of
        None \<Rightarrow> ERR_INVALID_PARAMS
      | Some regions \<Rightarrow> memory_map_walk regions (CLEAR_CBIT base_addr) (CLEAR_CBIT limit_addr))"

text \<open>The pages of one ring buffer, from its address and its size in pages.\<close>

definition rb_range :: "u64 \<Rightarrow> u8 \<Rightarrow> u64 \<times> u64" where
  "rb_range addr pages = (addr, addr + ucast pages * PAGE_SIZE_4K - 1)"

definition rb_ranges :: "sev_rb_config \<Rightarrow> (u64 \<times> u64) list" where
  "rb_ranges c =
     (if rb_enable c then
        (if low_priority_queue_size c \<noteq> 0 then
           [rb_range (cmd_ptr_low_priority_addr c) (low_priority_queue_size c),
            rb_range (status_ptr_low_priority_addr c) (low_priority_queue_size c)] else []) @
        (if high_priority_queue_size c \<noteq> 0 then
           [rb_range (cmd_ptr_high_priority_addr c) (high_priority_queue_size c),
            rb_range (status_ptr_high_priority_addr c) (high_priority_queue_size c)] else [])
      else [])"

text \<open>The loop over the TMRs.\<close>

fun check_tmrs :: "x86 \<Rightarrow> u64 \<Rightarrow> u64 \<Rightarrow> nat list \<Rightarrow> sev_status" where
  "check_tmrs X start limit [] = SEV_STATUS_SUCCESS"
| "check_tmrs X start limit (i # is) =
     (if xs_skip_tmr X \<and> (SEV_CPU_TMR = i \<or> SEV_CPU_TMR2 = i) then check_tmrs X start limit is
      else case xs_tmr X i of (status, t_base, t_limit, is_valid) \<Rightarrow>
        if status \<noteq> SEV_STATUS_SUCCESS then status
        else if \<not> is_valid \<or> i = SNP_RMP_CPU_TMR \<or> i = SNP_RMP_IOMMU_TMR
        then check_tmrs X start limit is
        else if ranges_overlap start limit t_base t_limit then SEV_STATUS_INVALID_ADDRESS
        else check_tmrs X start limit is)"

definition validate_address_range :: "x86 \<Rightarrow> u64 \<Rightarrow> u64 \<Rightarrow> sev_status" where
  "validate_address_range X start0 size0 =
     (if size0 = 0 then ERR_INVALID_PARAMS
      else
        let start = start0 AND NOT SEV_CBIT_MASK;
            limit = start + size0 - 1;
            smm_limit = xs_smm_base X + xs_smm_length X - 1;
            check_smm = (\<not> (xs_smm_base X = 0 \<and> xs_smm_length X = 0))
        in if asid_bits_set X start \<or> asid_bits_set X limit \<or>
              start > X86_MAX_PHYS_ADDR \<or> limit > X86_MAX_PHYS_ADDR \<or> start > limit \<or>
              xs_smm_base X > smm_limit \<or> range_overlaps_aseg X start limit
           then SEV_STATUS_INVALID_ADDRESS
           else if xs_context_initialized X \<and>
              ranges_overlap start limit (xs_reserved_tmr_base X) (xs_reserved_tmr_end X)
           then SEV_STATUS_INVALID_ADDRESS
           else if check_smm \<and> ranges_overlap start limit (xs_smm_base X) smm_limit
           then SEV_STATUS_INVALID_ADDRESS
           else if list_ex (\<lambda>(b, e). ranges_overlap start limit b e) (rb_ranges (xs_rb X))
           then SEV_STATUS_INVALID_ADDRESS
           else
             let status = check_tmrs X start limit [0..<TMR_NR_MAX]
             in if status \<noteq> SEV_STATUS_SUCCESS then status
                else if xs_skip_rmp X = 0 \<and> ranges_overlap start limit (xs_rmp_base X) (xs_rmp_end X)
                then SEV_STATUS_INVALID_ADDRESS
                else validate_memory_map (xs_mem_map X) start limit)"

section \<open>Copies\<close>

definition plaintext_op :: "x86_copy_op \<Rightarrow> bool" where
  "plaintext_op op \<longleftrightarrow> op = COPY_PLAINTEXT_IN \<or> op = COPY_PLAINTEXT_OUT \<or> op = COPY_PLAINTEXT_IN_OUT"

definition set_asid :: "x86 \<Rightarrow> x86_copy_op \<Rightarrow> u64 \<Rightarrow> u64 \<Rightarrow> u64" where
  "set_asid X op addr asid =
     (let asid1 = (if addr AND SEV_CBIT_MASK \<noteq> 0 \<and> plaintext_op op then SEV_ASID_SME_ASID else asid)
      in (addr AND NOT (SEV_ASID_ADDR_MASK X)) OR push_bit (xs_asid_shift X) asid1)"

definition convert_x86_address :: "x86 \<Rightarrow> u64 option \<Rightarrow> sev_status \<times> u64 option" where
  "convert_x86_address X addr =
     (case addr of
        None \<Rightarrow> (ERR_INVALID_PARAMS, None)
      | Some a \<Rightarrow> (SEV_STATUS_SUCCESS, Some (set_asid X COPY_PLAINTEXT_IN a 0)))"

definition read_bytes :: "bytes_mem \<Rightarrow> u64 \<Rightarrow> nat \<Rightarrow> u8 list" where
  "read_bytes m a n = map (\<lambda>i. m (a + of_nat i)) [0..<n]"

definition write_bytes :: "bytes_mem \<Rightarrow> u64 \<Rightarrow> u8 list \<Rightarrow> bytes_mem" where
  "write_bytes m a bs = (\<lambda>x. let k = unat (x - a) in if k < length bs then bs ! k else m x)"

text \<open>The check that a copy stays within two windows of 64 MB (one, for moves within x86 memory).\<close>

definition window_check :: "x86_copy_op \<Rightarrow> u64 \<Rightarrow> u64 \<Rightarrow> u64 \<Rightarrow> bool" where
  "window_check op x86_addr dest n \<longleftrightarrow>
     (if op \<noteq> COPY_CIPHERTEXT_IN_OUT \<and> op \<noteq> COPY_PLAINTEXT_IN_OUT then
        ((x86_addr + n - 1) AND X86_64MB_MASK) - (x86_addr AND X86_64MB_MASK) \<le> X86_64MB_SIZE
      else
        x86_addr AND X86_64MB_MASK = (x86_addr + n - 1) AND X86_64MB_MASK \<and>
        (dest \<noteq> 0 \<longrightarrow> dest AND X86_64MB_MASK = (dest + n - 1) AND X86_64MB_MASK))"

text \<open>The two directions, in one window or in two. What was copied before the second window could
  not be mapped stays copied.\<close>

definition copy_in :: "x86 \<Rightarrow> u64 \<Rightarrow> u64 \<Rightarrow> u64 \<Rightarrow> u8 list \<Rightarrow> sev_status \<times> u8 list" where
  "copy_in X start limit n bs =
     (if start AND X86_64MB_MASK = limit AND X86_64MB_MASK
      then (SEV_STATUS_SUCCESS, read_bytes (xs_mem X) start (unat n))
      else
        let process_addr = (start AND X86_64MB_MASK) + X86_64MB_SIZE;
            process_size = ucast (process_addr - start) :: u32;
            first = read_bytes (xs_mem X) start (unat process_size);
            status = xs_map X process_addr
        in if status \<noteq> SEV_STATUS_SUCCESS then (status, first @ drop (length first) bs)
           else
             let process_size = ucast (limit - process_addr + 1) :: u32
             in (SEV_STATUS_SUCCESS, first @ read_bytes (xs_mem X) process_addr (unat process_size)))"

definition copy_out :: "x86 \<Rightarrow> u64 \<Rightarrow> u64 \<Rightarrow> u8 list \<Rightarrow> sev_status \<times> x86" where
  "copy_out X start limit bs =
     (if start AND X86_64MB_MASK = limit AND X86_64MB_MASK
      then (SEV_STATUS_SUCCESS, X\<lparr>xs_mem := write_bytes (xs_mem X) start bs\<rparr>)
      else
        let process_addr = (start AND X86_64MB_MASK) + X86_64MB_SIZE;
            process_size = ucast (process_addr - start) :: u32;
            X1 = X\<lparr>xs_mem := write_bytes (xs_mem X) start (take (unat process_size) bs)\<rparr>;
            status = xs_map X process_addr
        in if status \<noteq> SEV_STATUS_SUCCESS then (status, X1)
           else
             let process_size2 = ucast (limit - process_addr + 1) :: u32
             in (SEV_STATUS_SUCCESS, X1\<lparr>xs_mem := write_bytes (xs_mem X1) process_addr
                   (take (unat process_size2) (drop (unat process_size) bs))\<rparr>))"

text \<open>The move within x86 memory: the source was read as a whole before it is written.\<close>

definition move_within ::
  "x86 \<Rightarrow> x86_copy_op \<Rightarrow> u64 \<Rightarrow> u64 \<Rightarrow> u64 \<Rightarrow> u64 \<Rightarrow> u8 list \<Rightarrow> sev_status \<times> u8 list \<times> x86" where
  "move_within X op addr dest n asid bs =
     (let status = validate_address_range X dest n
      in if status \<noteq> SEV_STATUS_SUCCESS then (status, bs, X)
         else
           let dest1 = set_asid X op dest asid
           in if x86_addresses_same X addr dest1 then (SEV_STATUS_SUCCESS, bs, X)
              else if xs_map X dest1 \<noteq> SEV_STATUS_SUCCESS then (xs_map X dest1, bs, X)
              else (SEV_STATUS_SUCCESS, bs, X\<lparr>xs_mem :=
                     write_bytes (xs_mem X) dest1 (read_bytes (xs_mem X) addr (unat n))\<rparr>))"

text \<open>\<open>bs\<close> is the buffer of the firmware: its contents before and after.\<close>

definition x86_copy ::
  "u64 \<Rightarrow> u8 list \<Rightarrow> u64 \<Rightarrow> u64 \<Rightarrow> u64 \<Rightarrow> x86_copy_op \<Rightarrow> x86 \<Rightarrow> sev_status \<times> u8 list \<times> x86" where
  "x86_copy x86_addr bs dest n asid op X =
     (if n = 0 then (ERR_INVALID_PARAMS, bs, X)
      else if \<not> window_check op x86_addr dest n then (SEV_STATUS_INVALID_PARAM, bs, X)
      else
        let status = validate_address_range X x86_addr n
        in if status \<noteq> SEV_STATUS_SUCCESS then (status, bs, X)
           else
             let conv = (op = COPY_CIPHERTEXT_IN \<or> op = COPY_CIPHERTEXT_OUT \<or>
                         op = COPY_CIPHERTEXT_IN_OUT \<or> CBIT_IS_SET x86_addr);
                 addr = (if conv then set_asid X op x86_addr asid else x86_addr);
                 start = addr;
                 limit = (if conv then set_asid X op (x86_addr + n - 1) asid else x86_addr + n - 1);
                 status = xs_map X start
             in if status \<noteq> SEV_STATUS_SUCCESS then (status, bs, X)
                else
                  (case op of
                     COPY_CIPHERTEXT_IN \<Rightarrow> (case copy_in X start limit n bs of (st, bs') \<Rightarrow> (st, bs', X))
                   | COPY_PLAINTEXT_IN \<Rightarrow> (case copy_in X start limit n bs of (st, bs') \<Rightarrow> (st, bs', X))
                   | COPY_CIPHERTEXT_OUT \<Rightarrow> (case copy_out X start limit bs of (st, X') \<Rightarrow> (st, bs, X'))
                   | COPY_PLAINTEXT_OUT \<Rightarrow> (case copy_out X start limit bs of (st, X') \<Rightarrow> (st, bs, X'))
                   | COPY_CIPHERTEXT_IN_OUT \<Rightarrow> move_within X op addr dest n asid bs
                   | COPY_PLAINTEXT_IN_OUT \<Rightarrow> move_within X op addr dest n asid bs
                   | _ \<Rightarrow> (SEV_STATUS_UNSUPPORTED, bs, X)))"

definition copy_to_x86 :: "u64 \<Rightarrow> u8 list \<Rightarrow> x86 \<Rightarrow> sev_status \<times> x86" where
  "copy_to_x86 x86_addr bs X =
     (case x86_copy x86_addr bs 0 (of_nat (length bs)) 0 COPY_PLAINTEXT_OUT X of
        (status, _, X') \<Rightarrow> (status, X'))"

definition copy_from_x86 :: "u64 \<Rightarrow> u8 list \<Rightarrow> u64 \<Rightarrow> x86 \<Rightarrow> sev_status \<times> u8 list" where
  "copy_from_x86 x86_addr bs n X =
     (case x86_copy x86_addr bs 0 n 0 COPY_PLAINTEXT_IN X of (status, bs', _) \<Rightarrow> (status, bs'))"

definition copy_to_x86_from_x86 :: "u64 \<Rightarrow> u64 \<Rightarrow> u64 \<Rightarrow> x86 \<Rightarrow> sev_status \<times> x86" where
  "copy_to_x86_from_x86 x86_dest x86_src n X =
     (case x86_copy x86_src [] x86_dest n 0 COPY_PLAINTEXT_IN_OUT X of (status, _, X') \<Rightarrow> (status, X'))"

definition copy_to_x86_encrypted :: "u64 \<Rightarrow> u8 list \<Rightarrow> u32 \<Rightarrow> x86 \<Rightarrow> sev_status \<times> x86" where
  "copy_to_x86_encrypted x86_addr bs asid X =
     (case x86_copy x86_addr bs 0 (of_nat (length bs)) (ucast asid) COPY_CIPHERTEXT_OUT X of
        (status, _, X') \<Rightarrow> (status, X'))"

definition copy_from_x86_encrypted ::
  "u64 \<Rightarrow> u8 list \<Rightarrow> u64 \<Rightarrow> u32 \<Rightarrow> x86 \<Rightarrow> sev_status \<times> u8 list" where
  "copy_from_x86_encrypted x86_addr bs n asid X =
     (case x86_copy x86_addr bs 0 n (ucast asid) COPY_CIPHERTEXT_IN X of (status, bs', _) \<Rightarrow> (status, bs'))"

definition copy_to_x86_encrypted_from_x86_encrypted ::
  "u64 \<Rightarrow> u64 \<Rightarrow> u64 \<Rightarrow> u32 \<Rightarrow> x86 \<Rightarrow> sev_status \<times> x86" where
  "copy_to_x86_encrypted_from_x86_encrypted x86_dest x86_src n asid X =
     (case x86_copy x86_src [] x86_dest n (ucast asid) COPY_CIPHERTEXT_IN_OUT X of
        (status, _, X') \<Rightarrow> (status, X'))"

section \<open>Words\<close>

lemma and_not_low_bits:
  fixes x :: u64
  assumes "n < 64"
  shows "unat (x AND NOT (mask n)) = align_down (2 ^ n) (unat x)"
proof -
  have "(x AND mask n) + (x AND NOT (mask n)) = ((x AND mask n) OR (x AND NOT (mask n))) + ((x AND mask n) AND (x AND NOT (mask n)))"
    by (simp add: add.commute)
  also have "(x AND mask n) OR (x AND NOT (mask n)) = x"
    by (auto simp: bit_eq_iff bit_and_iff bit_or_iff bit_not_iff)
  also have "(x AND mask n) AND (x AND NOT (mask n)) = 0"
    by (auto simp: bit_eq_iff bit_and_iff bit_or_iff bit_not_iff)
  finally have "x AND NOT (mask n) = x - take_bit n x"
    by (simp add: take_bit_eq_mask algebra_simps)
  moreover have t: "unat (take_bit n x) = unat x mod 2 ^ n"
    unfolding unsigned_take_bit_eq by (simp add: take_bit_eq_mod)
  moreover have "take_bit n x \<le> x" by (simp add: word_le_nat_alt t)
  ultimately show ?thesis by (simp add: unat_sub align_down_def)
qed

lemma window_mask: "unat (x AND X86_64MB_MASK) = align_down (2 ^ 26) (unat x)"
proof -
  have "X86_64MB_MASK = NOT (mask 26)"
    by (simp add: X86_64MB_MASK_def X86_64MB_SIZE_def mask_eq_exp_minus_1)
  then show ?thesis using and_not_low_bits [of 26 x] by simp
qed

lemma align_down_step:
  assumes "a \<le> (b :: nat)" and "0 < k" and "align_down k a \<noteq> align_down k b"
    and "align_down k b - align_down k a \<le> k"
  shows "align_down k b = align_down k a + k" and "align_down k a + k \<le> b" and "a < align_down k a + k"
proof -
  have le: "align_down k a \<le> align_down k b"
    using assms(1) by (simp add: align_down_def minus_mod_eq_mult_div div_le_mono)
  have "align_down k a = k * (a div k)" "align_down k b = k * (b div k)"
    by (simp_all add: align_down_def minus_mod_eq_mult_div)
  moreover have "a div k < b div k"
    using calculation assms(3) le by (metis div_le_mono assms(1) le_neq_implies_less)
  moreover from this have "k * (a div k) + k \<le> k * (b div k)"
    by (metis Suc_leI mult_Suc_right add.commute mult_le_mono2)
  ultimately show e: "align_down k b = align_down k a + k" using assms(4) by linarith
  show "align_down k a + k \<le> b" using e align_down_le [of k b] by simp
  show "a < align_down k a + k" using assms(2)
    by (metis align_down_def mod_less_divisor minus_mod_eq_mult_div div_mult_mod_eq add.commute add_less_cancel_right mult.commute)
qed

lemma cbit_bit: "bit SEV_CBIT_MASK n \<longleftrightarrow> n = 51"
  unfolding SEV_CBIT_MASK_def SEV_CBIT_SHIFT_def bit_push_bit_iff by (auto simp: bit_1_iff)

lemma small_no_cbit:
  assumes "v \<le> X86_MAX_PHYS_ADDR"
  shows "CLEAR_CBIT v = v"
proof -
  have "unat v < 2 ^ 51"
    using assms by (simp add: word_le_nat_alt X86_MAX_PHYS_ADDR_def X86_HYPER_TRANSPORT_AREA_def)
  then have "\<not> bit (unat v) 51" by (simp add: bit_iff_odd)
  then have "\<not> bit v 51" by (simp add: bit_unsigned_iff)
  then show ?thesis
    by (intro bit_eqI) (auto simp: CLEAR_CBIT_def bit_and_iff bit_not_iff cbit_bit)
qed


lemma read_bytes_append:
  "read_bytes m a (i + j) = read_bytes m a i @ read_bytes m (a + of_nat i) j"
  by (rule nth_equalityI) (auto simp: read_bytes_def nth_append ac_simps)

lemma write_bytes_append:
  assumes "length (bs @ cs) < 2 ^ 64"
  shows "write_bytes (write_bytes m a bs) (a + of_nat (length bs)) cs = write_bytes m a (bs @ cs)"
proof
  fix x
  let ?k = "unat (x - a)" and ?l = "unat (x - (a + of_nat (length bs)))"
  have lb: "unat (of_nat (length bs) :: u64) = length bs" using assms by (simp add: unat_of_nat)
  show "write_bytes (write_bytes m a bs) (a + of_nat (length bs)) cs x = write_bytes m a (bs @ cs) x"
  proof (cases "?k < length bs")
    case True
    have "x - (a + of_nat (length bs)) = - (of_nat (length bs) - (x - a))" by simp
    have "\<not> ?l < length cs"
    proof
      assume l: "?l < length cs"
      have "x - a = (x - (a + of_nat (length bs))) + of_nat (length bs)" by simp
      then have "?k = ?l + length bs"
        using l assms lb unat_add_no_wrap [of "x - (a + of_nat (length bs))" "of_nat (length bs)"] by simp
      with True show False by simp
    qed
    with True show ?thesis by (simp add: write_bytes_def nth_append)
  next
    case False
    have e: "x - (a + of_nat (length bs)) = (x - a) - of_nat (length bs)" by simp
    have "(of_nat (length bs) :: u64) \<le> x - a" using False lb by (simp add: word_le_nat_alt)
    from unat_sub [OF this] have "?l = ?k - length bs" unfolding e lb .
    with False show ?thesis by (auto simp: write_bytes_def nth_append Let_def)
  qed
qed

lemma read_write_bytes:
  assumes "length bs < 2 ^ 64"
  shows "read_bytes (write_bytes m a bs) a (length bs) = bs"
proof (rule nth_equalityI)
  show "length (read_bytes (write_bytes m a bs) a (length bs)) = length bs" by (simp add: read_bytes_def)
  fix i assume "i < length (read_bytes (write_bytes m a bs) a (length bs))"
  then have i: "i < length bs" by (simp add: read_bytes_def)
  then have "unat (of_nat i :: u64) = i" using assms by (simp add: unat_of_nat)
  with i show "read_bytes (write_bytes m a bs) a (length bs) ! i = bs ! i"
    by (simp add: read_bytes_def write_bytes_def)
qed

text \<open>The arithmetic of a copy that needs two windows.\<close>

lemma two_windows:
  fixes a n :: u64
  assumes n: "n \<noteq> 0" and le: "a \<le> a + n - 1" and top: "unat (a + n - 1) < 2 ^ 51"
    and diff: "((a + n - 1) AND X86_64MB_MASK) - (a AND X86_64MB_MASK) \<le> X86_64MB_SIZE"
    and two: "a AND X86_64MB_MASK \<noteq> (a + n - 1) AND X86_64MB_MASK"
  defines "p \<equiv> (a AND X86_64MB_MASK) + X86_64MB_SIZE"
  shows "unat (ucast (p - a) :: u32) + unat (ucast (a + n - 1 - p + 1) :: u32) = unat n"
    and "p = a + of_nat (unat (ucast (p - a) :: u32))"
proof -
  let ?l = "a + n - 1" and ?k = "2 ^ 26 :: nat"
  have ls: "unat X86_64MB_SIZE = ?k" by (simp add: X86_64MB_SIZE_def)
  have ul: "unat ?l = unat a + unat n - 1"
  proof -
    have "unat (?l - a) = unat ?l - unat a" by (rule unat_sub [OF le])
    moreover have "?l - a = n - 1" by simp
    moreover have "unat (n - 1) = unat n - 1" "0 < unat n" using n by (simp_all add: unat_minus_one unat_gt_0)
    ultimately show ?thesis using le by (simp add: word_le_nat_alt)
  qed
  have m: "unat (a AND X86_64MB_MASK) \<le> unat (?l AND X86_64MB_MASK)"
    using le by (simp add: window_mask align_down_def minus_mod_eq_mult_div div_le_mono word_le_nat_alt)
  have d: "align_down ?k (unat ?l) - align_down ?k (unat a) \<le> ?k"
    using diff m ls by (simp add: word_le_nat_alt unat_sub window_mask)
  have ne: "align_down ?k (unat a) \<noteq> align_down ?k (unat ?l)"
    using two by (simp only: word_unat_eq_iff window_mask) simp
  have ale: "unat a \<le> unat ?l" using le by (simp add: word_le_nat_alt)
  have k0: "0 < ?k" by simp
  note st = align_down_step [OF ale k0 ne d]
  have up: "unat p = align_down ?k (unat a) + ?k"
    unfolding p_def using st(2) top by (subst unat_add_no_wrap) (simp_all add: window_mask ls)
  have pl: "p \<le> ?l" "a \<le> p" using st up by (simp_all add: word_le_nat_alt)
  have u1: "unat (p - a) = unat p - unat a" "unat (?l - p) = unat ?l - unat p"
    using pl by (simp_all add: unat_sub)
  have s1: "unat (p - a) \<le> ?k" using u1 up align_down_le [of ?k "unat a"] by simp
  have "unat ?l < align_down ?k (unat ?l) + ?k"
    by (simp add: align_down_def)
  then have s2: "unat (?l - p) < ?k" using u1 up st(1) by simp
  have u2: "unat (?l - p + 1) = unat (?l - p) + 1"
    using s2 by (subst unat_add_no_wrap) simp_all
  have c: "unat (ucast w :: u32) = unat w" if "unat w \<le> ?k" for w :: u64
    using that by (simp add: unsigned_ucast_eq take_bit_nat_eq_self)
  show "unat (ucast (p - a) :: u32) + unat (ucast (?l - p + 1) :: u32) = unat n"
  proof -
    have "0 < unat n" using n by (simp add: unat_gt_0)
    moreover have "unat a \<le> unat p" "unat p \<le> unat ?l" using pl by (simp_all add: word_le_nat_alt)
    moreover have "unat (ucast (?l - p + 1) :: u32) = unat (?l - p) + 1" using c [of "?l - p + 1"] s2 u2 by simp
    ultimately show ?thesis using c [OF s1] u1 ul by linarith
  qed
  show "p = a + of_nat (unat (ucast (p - a) :: u32))" by (simp only: c [OF s1]) simp
qed


section \<open>What a successful address check means\<close>

definition in_range :: "u64 \<Rightarrow> u64 \<Rightarrow> u64 \<Rightarrow> bool" where
  "in_range a b e \<longleftrightarrow> CLEAR_CBIT b \<le> a \<and> a \<le> CLEAR_CBIT e"

lemma cbit_idem: "CLEAR_CBIT (CLEAR_CBIT v) = CLEAR_CBIT v"
  by (intro bit_eqI) (auto simp: CLEAR_CBIT_def bit_and_iff bit_not_iff)

lemma no_overlap_outside:
  assumes "\<not> ranges_overlap s l b e" and "CLEAR_CBIT s = s" and "CLEAR_CBIT l = l"
    and "s \<le> a" and "a \<le> l"
  shows "\<not> in_range a b e"
  using assms by (auto simp: ranges_overlap_def in_range_def)

lemma check_tmrs_success:
  "check_tmrs X s l is = SEV_STATUS_SUCCESS \<longleftrightarrow>
    (\<forall>i \<in> set is. (xs_skip_tmr X \<and> (i = SEV_CPU_TMR \<or> i = SEV_CPU_TMR2)) \<or>
       fst (xs_tmr X i) = SEV_STATUS_SUCCESS \<and>
       (snd (snd (snd (xs_tmr X i))) \<longrightarrow> i = SNP_RMP_CPU_TMR \<or> i = SNP_RMP_IOMMU_TMR \<or>
          \<not> ranges_overlap s l (fst (snd (xs_tmr X i))) (fst (snd (snd (xs_tmr X i))))))"
  by (induction "is") (auto split: prod.split)

lemma memory_map_walk_success:
  "memory_map_walk regions b l = SEV_STATUS_SUCCESS \<longleftrightarrow> (\<exists>(rb, rl) \<in> set regions. rb \<le> b \<and> l \<le> rl)"
  by (induction regions) auto

lemma validate_success:
  assumes "validate_address_range X start n = SEV_STATUS_SUCCESS"
    and "s = CLEAR_CBIT start" and "l = s + n - 1"
  shows "n \<noteq> 0" and "s \<le> l" and "l \<le> X86_MAX_PHYS_ADDR" and "\<not> range_overlaps_aseg X s l"
    and "xs_context_initialized X \<Longrightarrow> \<not> ranges_overlap s l (xs_reserved_tmr_base X) (xs_reserved_tmr_end X)"
    and "xs_smm_base X \<noteq> 0 \<or> xs_smm_length X \<noteq> 0 \<Longrightarrow>
      \<not> ranges_overlap s l (xs_smm_base X) (xs_smm_base X + xs_smm_length X - 1)"
    and "(b, e) \<in> set (rb_ranges (xs_rb X)) \<Longrightarrow> \<not> ranges_overlap s l b e"
    and "check_tmrs X s l [0..<TMR_NR_MAX] = SEV_STATUS_SUCCESS"
    and "xs_skip_rmp X = 0 \<Longrightarrow> \<not> ranges_overlap s l (xs_rmp_base X) (xs_rmp_end X)"
    and "validate_memory_map (xs_mem_map X) s l = SEV_STATUS_SUCCESS"
  using assms(1) unfolding validate_address_range_def CLEAR_CBIT_def [symmetric] Let_def
  by (auto simp: assms(2,3) [symmetric] list_ex_iff not_less split: if_split_asm)

text \<open>
  C9: An address range from the host that passes the check does not wrap, lies below the end of
  physical memory and within one region of DRAM, and no address of it is in the SMM ranges, in
  the reserved SEV-ES region, in a ring buffer, in an active one of the TMRs 0 to 6 (the two RMP TMRs
  3 and 4 excepted, and the CPU TMRs 5 and 6 where their check is suppressed) or, unless its check is
  suppressed, in the RMP. TMR 7 is not looked at by the code, and is no part of the claim.
\<close>

theorem validated_range_avoids_protected_memory:
  assumes "validate_address_range X start n = SEV_STATUS_SUCCESS"
    and "s = CLEAR_CBIT start" and "l = s + n - 1" and "s \<le> a" and "a \<le> l"
  shows "l \<le> X86_MAX_PHYS_ADDR \<and> \<not> in_range a (xs_aseg_base X) (xs_aseg_limit X) \<and>
    (xs_context_initialized X \<longrightarrow> \<not> in_range a (xs_reserved_tmr_base X) (xs_reserved_tmr_end X)) \<and>
    (xs_smm_base X \<noteq> 0 \<or> xs_smm_length X \<noteq> 0 \<longrightarrow>
       \<not> in_range a (xs_smm_base X) (xs_smm_base X + xs_smm_length X - 1)) \<and>
    (\<forall>(b, e) \<in> set (rb_ranges (xs_rb X)). \<not> in_range a b e) \<and>
    (\<forall>i < TMR_NR_MAX. \<forall>b e. xs_tmr X i = (SEV_STATUS_SUCCESS, b, e, True) \<longrightarrow>
       i \<noteq> SNP_RMP_CPU_TMR \<longrightarrow> i \<noteq> SNP_RMP_IOMMU_TMR \<longrightarrow>
       (xs_skip_tmr X \<longrightarrow> i \<noteq> SEV_CPU_TMR \<and> i \<noteq> SEV_CPU_TMR2) \<longrightarrow> \<not> in_range a b e) \<and>
    (xs_skip_rmp X = 0 \<longrightarrow> \<not> in_range a (xs_rmp_base X) (xs_rmp_end X)) \<and>
    (\<exists>(rb, rl) \<in> set (the (xs_mem_map X)). rb \<le> s \<and> l \<le> rl)"
proof -
  note v = validate_success [OF assms(1-3)]
  have c: "CLEAR_CBIT s = s" "CLEAR_CBIT l = l"
    using small_no_cbit [OF v(3)] by (simp_all add: assms(2) cbit_idem)
  note out = no_overlap_outside [OF _ c assms(4,5)]
  have tmr: "\<not> in_range a b e"
    if "i < TMR_NR_MAX" "xs_tmr X i = (SEV_STATUS_SUCCESS, b, e, True)" "i \<noteq> SNP_RMP_CPU_TMR"
      "i \<noteq> SNP_RMP_IOMMU_TMR" "xs_skip_tmr X \<longrightarrow> i \<noteq> SEV_CPU_TMR \<and> i \<noteq> SEV_CPU_TMR2" for i b e
    using v(8) that unfolding check_tmrs_success by (intro out) (auto dest: bspec [of _ _ i])
  have map: "\<exists>(rb, rl) \<in> set (the (xs_mem_map X)). rb \<le> s \<and> l \<le> rl"
    using v(10) c by (auto simp: validate_memory_map_def memory_map_walk_success split: option.split_asm)
  show ?thesis
    using v(3) out [OF v(4) [unfolded range_overlaps_aseg_def]] out [OF v(5)] out [OF v(6)] out [OF v(7)]
      tmr out [OF v(9)] map by blast
qed


section \<open>Copies of plain addresses\<close>

lemma copy_in_spec:
  assumes "n \<noteq> 0" and "a \<le> a + n - 1" and "unat (a + n - 1) < 2 ^ 51"
    and "((a + n - 1) AND X86_64MB_MASK) - (a AND X86_64MB_MASK) \<le> X86_64MB_SIZE"
    and "copy_in X a (a + n - 1) n bs = (SEV_STATUS_SUCCESS, out)"
  shows "out = read_bytes (xs_mem X) a (unat n)"
proof (cases "a AND X86_64MB_MASK = (a + n - 1) AND X86_64MB_MASK")
  case True
  with assms(5) show ?thesis by (simp add: copy_in_def)
next
  case False
  note w = two_windows [OF assms(1-4) False]
  let ?p = "(a AND X86_64MB_MASK) + X86_64MB_SIZE"
  from assms(5) False have "out = read_bytes (xs_mem X) a (unat (ucast (?p - a) :: u32)) @
      read_bytes (xs_mem X) ?p (unat (ucast (a + n - 1 - ?p + 1) :: u32))"
    by (simp add: copy_in_def Let_def split: if_split_asm)
  also have "\<dots> = read_bytes (xs_mem X) a (unat n)"
    unfolding w(1) [symmetric] read_bytes_append using w(2) by simp
  finally show ?thesis .
qed

lemma copy_out_spec:
  assumes "n = of_nat (length bs)" and "length bs < 2 ^ 64"
    and "n \<noteq> 0" and "a \<le> a + n - 1" and "unat (a + n - 1) < 2 ^ 51"
    and "((a + n - 1) AND X86_64MB_MASK) - (a AND X86_64MB_MASK) \<le> X86_64MB_SIZE"
    and "copy_out X a (a + n - 1) bs = (SEV_STATUS_SUCCESS, X')"
  shows "X' = X\<lparr>xs_mem := write_bytes (xs_mem X) a bs\<rparr>"
proof (cases "a AND X86_64MB_MASK = (a + n - 1) AND X86_64MB_MASK")
  case True
  with assms(7) show ?thesis by (simp add: copy_out_def)
next
  case False
  note w = two_windows [OF assms(3-6) False]
  let ?p = "(a AND X86_64MB_MASK) + X86_64MB_SIZE"
  let ?k = "unat (ucast (?p - a) :: u32)" and ?j = "unat (ucast (a + n - 1 - ?p + 1) :: u32)"
  have len: "length bs = ?k + ?j" using w(1) assms(1,2) by (simp add: unat_of_nat)
  then have t: "length (take ?k bs) = ?k" by simp
  from assms(7) False have "X' = X\<lparr>xs_mem :=
      write_bytes (write_bytes (xs_mem X) a (take ?k bs)) ?p (take ?j (drop ?k bs))\<rparr>"
    by (simp add: copy_out_def Let_def split: if_split_asm)
  moreover have "write_bytes (write_bytes (xs_mem X) a (take ?k bs)) ?p (take ?j (drop ?k bs)) =
      write_bytes (xs_mem X) a (take ?k bs @ take ?j (drop ?k bs))"
    using write_bytes_append [of "take ?k bs" "take ?j (drop ?k bs)" "xs_mem X" a] w(2) len assms(2)
    unfolding t by simp
  moreover have "take ?k bs @ take ?j (drop ?k bs) = bs"
    using len by (simp add: take_add [symmetric])
  ultimately show ?thesis by simp
qed

lemma plain_range:
  assumes "validate_address_range X a n = SEV_STATUS_SUCCESS" and "\<not> CBIT_IS_SET a"
  shows "n \<noteq> 0" and "a \<le> a + n - 1" and "unat (a + n - 1) < 2 ^ 51"
proof -
  have a: "CLEAR_CBIT a = a"
    using assms(2) by (intro bit_eqI)
      (auto simp: CLEAR_CBIT_def CBIT_IS_SET_def bit_and_iff bit_not_iff cbit_bit bit_eq_iff [of _ 0])
  note v = validate_success [OF assms(1) a [symmetric] refl]
  show "n \<noteq> 0" "a \<le> a + n - 1" using v by simp_all
  show "unat (a + n - 1) < 2 ^ 51"
    using v(3) by (simp add: word_le_nat_alt X86_MAX_PHYS_ADDR_def X86_HYPER_TRANSPORT_AREA_def)
qed

lemma copy_from_x86_spec:
  assumes "copy_from_x86 a bs n X = (SEV_STATUS_SUCCESS, out)" and "\<not> CBIT_IS_SET a"
  shows "validate_address_range X a n = SEV_STATUS_SUCCESS" and "out = read_bytes (xs_mem X) a (unat n)"
proof -
  show v: "validate_address_range X a n = SEV_STATUS_SUCCESS"
    using assms(1) by (auto simp: copy_from_x86_def x86_copy_def Let_def split: if_split_asm prod.split_asm)
  have w: "((a + n - 1) AND X86_64MB_MASK) - (a AND X86_64MB_MASK) \<le> X86_64MB_SIZE"
    using assms(1) by (auto simp: copy_from_x86_def x86_copy_def window_check_def split: if_split_asm)
  have "copy_in X a (a + n - 1) n bs = (SEV_STATUS_SUCCESS, out)"
    using assms v by (auto simp: copy_from_x86_def x86_copy_def Let_def split: if_split_asm prod.split_asm)
  from copy_in_spec [OF plain_range [OF v assms(2)] w this]
  show "out = read_bytes (xs_mem X) a (unat n)" .
qed

lemma copy_to_x86_spec:
  assumes "copy_to_x86 a bs X = (SEV_STATUS_SUCCESS, X')" and "\<not> CBIT_IS_SET a" and "length bs < 2 ^ 64"
  shows "validate_address_range X a (of_nat (length bs)) = SEV_STATUS_SUCCESS"
    and "X' = X\<lparr>xs_mem := write_bytes (xs_mem X) a bs\<rparr>"
proof -
  let ?n = "of_nat (length bs) :: u64"
  show v: "validate_address_range X a ?n = SEV_STATUS_SUCCESS"
    using assms(1) by (auto simp: copy_to_x86_def x86_copy_def Let_def split: if_split_asm prod.split_asm)
  have w: "((a + ?n - 1) AND X86_64MB_MASK) - (a AND X86_64MB_MASK) \<le> X86_64MB_SIZE"
    using assms(1) by (auto simp: copy_to_x86_def x86_copy_def window_check_def split: if_split_asm)
  have "copy_out X a (a + ?n - 1) bs = (SEV_STATUS_SUCCESS, X')"
    using assms(1,2) v by (auto simp: copy_to_x86_def x86_copy_def Let_def split: if_split_asm prod.split_asm)
  from copy_out_spec [OF refl assms(3) plain_range [OF v assms(2)] w this]
  show "X' = X\<lparr>xs_mem := write_bytes (xs_mem X) a bs\<rparr>" .
qed

lemma validate_mem [simp]: "validate_address_range (X\<lparr>xs_mem := m\<rparr>) a n = validate_address_range X a n"
proof -
  have "check_tmrs (X\<lparr>xs_mem := m\<rparr>) s l is = check_tmrs X s l is" for s l "is"
    by (induction "is") (auto split: prod.split)
  then show ?thesis
    by (simp add: validate_address_range_def Let_def asid_bits_set_def SEV_ASID_ADDR_MASK_def
        range_overlaps_aseg_def)
qed

text \<open>
  C31: What is copied to x86 memory at an address without the C-bit is read back by a copy from
  the same address, whether the bytes fit in one 64 MB window or need two, and no other byte of
  memory changes.
\<close>

theorem x86_copy_roundtrip:
  assumes "copy_to_x86 a bs X = (SEV_STATUS_SUCCESS, X')" and "\<not> CBIT_IS_SET a"
    and "length bs < 2 ^ 64" and "length bs0 = length bs"
  shows "copy_from_x86 a bs0 (of_nat (length bs)) X' = (SEV_STATUS_SUCCESS, bs) \<and>
    (\<forall>x. length bs \<le> unat (x - a) \<longrightarrow> xs_mem X' x = xs_mem X x)"
proof -
  let ?n = "of_nat (length bs) :: u64"
  note c = copy_to_x86_spec [OF assms(1-3)]
  from assms(1) have w: "?n \<noteq> 0" "window_check COPY_PLAINTEXT_OUT a 0 ?n" "xs_map X a = SEV_STATUS_SUCCESS"
    "a AND X86_64MB_MASK \<noteq> (a + ?n - 1) AND X86_64MB_MASK \<Longrightarrow>
       xs_map X ((a AND X86_64MB_MASK) + X86_64MB_SIZE) = SEV_STATUS_SUCCESS"
    using assms(2) by (auto simp: copy_to_x86_def x86_copy_def copy_out_def Let_def split: if_split_asm prod.split_asm)
  have "fst (copy_in X' a (a + ?n - 1) ?n bs0) = SEV_STATUS_SUCCESS"
    using w by (auto simp: copy_in_def Let_def c(2))
  then have "fst (copy_from_x86 a bs0 ?n X') = SEV_STATUS_SUCCESS"
    using w c(1) assms(2)
    by (auto simp: copy_from_x86_def x86_copy_def Let_def c(2) window_check_def split: prod.split)
  then obtain out where o: "copy_from_x86 a bs0 ?n X' = (SEV_STATUS_SUCCESS, out)"
    by (cases "copy_from_x86 a bs0 ?n X'") simp
  have "unat ?n = length bs" using assms(3) by (simp add: unat_of_nat)
  with copy_from_x86_spec(2) [OF o assms(2)] have "out = bs"
    by (simp add: c(2) read_write_bytes [OF assms(3)])
  with o show ?thesis by (auto simp: c(2) write_bytes_def Let_def)
qed

text \<open>A machine with 1 GB of memory, an RMP at 512 MB and one active TMR.\<close>

definition demo_rb_off :: sev_rb_config where
  "demo_rb_off = \<lparr>rb_enable = False, int_on_empty = False, cmd_ptr_low_priority_addr = 0,
     cmd_ptr_high_priority_addr = 0, status_ptr_low_priority_addr = 0, status_ptr_high_priority_addr = 0,
     low_queue_threshold = 0, high_queue_threshold = 0, low_priority_queue_size = 0,
     high_priority_queue_size = 0\<rparr>"

definition demo_x86 :: x86 where
  "demo_x86 = \<lparr>xs_mem = (\<lambda>_. 0), xs_skip_rmp = 0, xs_skip_tmr = False,
     xs_map = (\<lambda>_. SEV_STATUS_SUCCESS), xs_asid_shift = 42,
     xs_aseg_base = 0xA0000, xs_aseg_limit = 0xBFFFF, xs_smm_base = 0, xs_smm_length = 0,
     xs_context_initialized = False, xs_reserved_tmr_base = 0, xs_reserved_tmr_end = 0,
     xs_rb = demo_rb_off,
     xs_tmr = (\<lambda>i. (SEV_STATUS_SUCCESS, 0x10000000, 0x100FFFFF, i = 0)),
     xs_rmp_base = 0x20000000, xs_rmp_end = 0x200FFFFF, xs_mem_map = Some [(0, 0x3FFFFFFF)]\<rparr>"

text \<open>The four bytes at 0x3FFFFFE cross the end of the first 64 MB window.\<close>

lemma demo_validate: "validate_address_range demo_x86 0x3FFFFFE 4 = SEV_STATUS_SUCCESS"
  by (simp add: validate_address_range_def demo_x86_def SEV_CBIT_MASK_def SEV_CBIT_SHIFT_def Let_def
      asid_bits_set_def SEV_ASID_ADDR_MASK_def X86_MAX_PHYS_ADDR_def X86_HYPER_TRANSPORT_AREA_def
      range_overlaps_aseg_def ranges_overlap_def CLEAR_CBIT_def rb_ranges_def demo_rb_off_def
      TMR_NR_MAX_def upt_rec validate_memory_map_def)

theorem validated_range_avoids_protected_memory_witness:
  "\<not> in_range 0x4000000 (xs_rmp_base demo_x86) (xs_rmp_end demo_x86)"
proof -
  have "CLEAR_CBIT 0x3FFFFFE = 0x3FFFFFE"
    by (simp add: CLEAR_CBIT_def SEV_CBIT_MASK_def SEV_CBIT_SHIFT_def)
  from validated_range_avoids_protected_memory [OF demo_validate this [symmetric] refl, where a = "0x4000000"]
  show ?thesis by (simp add: demo_x86_def)
qed

theorem x86_copy_roundtrip_witness:
  "copy_from_x86 0x3FFFFFE [0, 0, 0, 0] 4 (snd (copy_to_x86 0x3FFFFFE [1, 2, 3, 4] demo_x86)) =
     (SEV_STATUS_SUCCESS, [1, 2, 3, 4])"
proof -
  have "fst (copy_to_x86 0x3FFFFFE [1, 2, 3, 4] demo_x86) = SEV_STATUS_SUCCESS"
    by (simp add: copy_to_x86_def x86_copy_def window_check_def X86_64MB_MASK_def X86_64MB_SIZE_def
        demo_validate CBIT_IS_SET_def SEV_CBIT_MASK_def SEV_CBIT_SHIFT_def copy_out_def Let_def)
       (simp add: demo_x86_def)
  then have "copy_to_x86 0x3FFFFFE [1, 2, 3, 4] demo_x86 =
      (SEV_STATUS_SUCCESS, snd (copy_to_x86 0x3FFFFFE [1, 2, 3, 4] demo_x86))"
    by (metis prod.collapse)
  from x86_copy_roundtrip [OF this, of "[0, 0, 0, 0]"] show ?thesis
    by (simp add: CBIT_IS_SET_def SEV_CBIT_MASK_def SEV_CBIT_SHIFT_def)
qed

end
