(* ===== verification/Sev_Rmp.thy ===== *)
theory Sev_Rmp
  imports Sev_X86Copy
begin

text \<open>
  The reverse map table (\<open>sev_rmp.c\<close>, \<open>sev_rmp.h\<close>): for each page of memory a 16-byte entry in
  x86 memory with the state of the page. This theory has the entry and its fields, the address
  of the entry of a page, reading and writing an entry, the page states, and the check that a
  range of pages may be written by the firmware.

  \<open>al8k\<close> stands for the alignment macro \<open>IS_ALIGNED_TO_8KB\<close>, which comes from outside the
  repository. \<open>uc\<close> is what the microcode of the x86 cores does to the memory between the first
  read of an entry in \<open>rmp_entry_write\<close> and the write that locks it.
\<close>

section \<open>Entries\<close>

record rmp_entry =
  q1 :: u64
  q2 :: u64

text \<open>A field of \<open>n\<close> bits at bit \<open>lo\<close> of a quadword.\<close>

definition get_field :: "nat \<Rightarrow> nat \<Rightarrow> u64 \<Rightarrow> u64" where
  "get_field lo n w = take_bit n (drop_bit lo w)"

definition put_field :: "nat \<Rightarrow> nat \<Rightarrow> u64 \<Rightarrow> u64 \<Rightarrow> u64" where
  "put_field lo n v w = (w AND NOT (push_bit lo (mask n))) OR push_bit lo (take_bit n v)"

definition rmp_assigned :: "rmp_entry \<Rightarrow> u64" where "rmp_assigned e = get_field 0 1 (q1 e)"
definition rmp_page_size :: "rmp_entry \<Rightarrow> u64" where "rmp_page_size e = get_field 1 1 (q1 e)"
definition rmp_immutable :: "rmp_entry \<Rightarrow> u64" where "rmp_immutable e = get_field 2 1 (q1 e)"
definition rmp_subpage_count :: "rmp_entry \<Rightarrow> u64" where "rmp_subpage_count e = get_field 3 9 (q1 e)"
definition rmp_gpa :: "rmp_entry \<Rightarrow> u64" where "rmp_gpa e = get_field 12 39 (q1 e)"
definition rmp_asid :: "rmp_entry \<Rightarrow> u64" where "rmp_asid e = get_field 51 10 (q1 e)"
definition rmp_vmsa :: "rmp_entry \<Rightarrow> u64" where "rmp_vmsa e = get_field 61 1 (q1 e)"
definition rmp_validated :: "rmp_entry \<Rightarrow> u64" where "rmp_validated e = get_field 62 1 (q1 e)"
definition rmp_lock :: "rmp_entry \<Rightarrow> u64" where "rmp_lock e = get_field 63 1 (q1 e)"

definition set_immutable :: "u64 \<Rightarrow> rmp_entry \<Rightarrow> rmp_entry" where
  "set_immutable v e = e\<lparr>q1 := put_field 2 1 v (q1 e)\<rparr>"
definition set_subpage_count :: "u64 \<Rightarrow> rmp_entry \<Rightarrow> rmp_entry" where
  "set_subpage_count v e = e\<lparr>q1 := put_field 3 9 v (q1 e)\<rparr>"
definition set_asid_field :: "u64 \<Rightarrow> rmp_entry \<Rightarrow> rmp_entry" where
  "set_asid_field v e = e\<lparr>q1 := put_field 51 10 v (q1 e)\<rparr>"
definition set_vmsa :: "u64 \<Rightarrow> rmp_entry \<Rightarrow> rmp_entry" where
  "set_vmsa v e = e\<lparr>q1 := put_field 61 1 v (q1 e)\<rparr>"
definition set_lock :: "u64 \<Rightarrow> rmp_entry \<Rightarrow> rmp_entry" where
  "set_lock v e = e\<lparr>q1 := put_field 63 1 v (q1 e)\<rparr>"

definition RMP_INVALID_ASID :: u64 where "RMP_INVALID_ASID = 0x3ff"
definition ALIGNMENT_BITS_4K :: nat where "ALIGNMENT_BITS_4K = 12"
definition DRAM_PAGE_SIZE_4K :: u64 where "DRAM_PAGE_SIZE_4K = 0"
definition RMP_NUM_ASID_COUNTERS :: u32 where "RMP_NUM_ASID_COUNTERS = 2048"
definition RMP_ASID_COUNTERS_SIZE :: u64 where "RMP_ASID_COUNTERS_SIZE = 2048 * 8"
definition RMP_QUADPAGE_SIZE :: u64 where "RMP_QUADPAGE_SIZE = 8"
definition RMP_ENTRY_SIZE :: u64 where "RMP_ENTRY_SIZE = 16"
definition RMP_GPA_STATE_SHIFT :: nat where "RMP_GPA_STATE_SHIFT = 36"
definition RMP_GPA_STATE_FLAG :: u64 where "RMP_GPA_STATE_FLAG = push_bit RMP_GPA_STATE_SHIFT 7"
definition RMP_GPA_STATE_METADATA :: u64 where "RMP_GPA_STATE_METADATA = 1"
definition RMP_GPA_STATE_FW_IOMMU :: u64 where "RMP_GPA_STATE_FW_IOMMU = 2"
definition RMP_GET_GPA_STATE :: "u64 \<Rightarrow> u64" where "RMP_GET_GPA_STATE gpa = drop_bit RMP_GPA_STATE_SHIFT gpa"
definition RMP_GET_GPA :: "u64 \<Rightarrow> u64" where "RMP_GET_GPA gpa = gpa AND NOT RMP_GPA_STATE_FLAG"

datatype snp_page_state =
    SNP_PAGE_STATE_INVALID | SNP_PAGE_STATE_DEFAULT | SNP_PAGE_STATE_HYPERVISOR
  | SNP_PAGE_STATE_HV_FIXED | SNP_PAGE_STATE_FIRMWARE | SNP_PAGE_STATE_FIRMWARE_IOMMU
  | SNP_PAGE_STATE_RECLAIM | SNP_PAGE_STATE_CONTEXT | SNP_PAGE_STATE_METADATA
  | SNP_PAGE_STATE_PRE_GUEST | SNP_PAGE_STATE_PRE_SWAP | SNP_PAGE_STATE_GUEST_INVALID
  | SNP_PAGE_STATE_GUEST_VALID | SNP_PAGE_STATE_LIMIT

definition rmp_entry_get_state :: "rmp_entry \<Rightarrow> snp_page_state" where
  "rmp_entry_get_state e =
     (if rmp_assigned e = 0 \<and> rmp_validated e = 0 \<and> rmp_asid e = 0 \<and> rmp_immutable e = 0
      then SNP_PAGE_STATE_HYPERVISOR
      else if rmp_assigned e = 0 \<and> rmp_validated e = 0 \<and> rmp_asid e = 0 \<and> rmp_immutable e = 1
      then SNP_PAGE_STATE_HV_FIXED
      else if rmp_assigned e = 1 \<and> rmp_validated e = 0 \<and> rmp_asid e = 0 \<and> rmp_immutable e = 1 \<and>
              rmp_gpa e = 0 \<and> rmp_vmsa e = 0
      then SNP_PAGE_STATE_FIRMWARE
      else if rmp_assigned e = 1 \<and> rmp_validated e = 0 \<and> rmp_asid e = 0 \<and> rmp_immutable e = 0 \<and>
              rmp_lock e = 0
      then SNP_PAGE_STATE_RECLAIM
      else if rmp_assigned e = 1 \<and> rmp_validated e = 0 \<and> rmp_asid e = 0 \<and> rmp_immutable e = 1 \<and>
              rmp_gpa e = 0 \<and> rmp_vmsa e = 1
      then SNP_PAGE_STATE_CONTEXT
      else if rmp_assigned e = 1 \<and> rmp_validated e = 0 \<and> rmp_asid e = 0 \<and> rmp_immutable e = 1 \<and>
              RMP_GET_GPA (rmp_gpa e) > 0 \<and> RMP_GET_GPA_STATE (rmp_gpa e) = RMP_GPA_STATE_METADATA
      then SNP_PAGE_STATE_METADATA
      else if rmp_assigned e = 1 \<and> rmp_validated e = 0 \<and> rmp_asid e > 0 \<and> rmp_immutable e = 1
      then SNP_PAGE_STATE_PRE_GUEST
      else if rmp_assigned e = 1 \<and> rmp_validated e = 1 \<and> rmp_asid e > 0 \<and> rmp_immutable e = 1
      then SNP_PAGE_STATE_PRE_SWAP
      else if rmp_assigned e = 1 \<and> rmp_validated e = 0 \<and> rmp_asid e > 0 \<and> rmp_immutable e = 0
      then SNP_PAGE_STATE_GUEST_INVALID
      else if rmp_assigned e = 1 \<and> rmp_validated e = 1 \<and> rmp_asid e > 0 \<and> rmp_immutable e = 0
      then SNP_PAGE_STATE_GUEST_VALID
      else if rmp_assigned e = 1 \<and> rmp_validated e = 0 \<and> rmp_asid e = 0 \<and> rmp_immutable e = 1 \<and>
              RMP_GET_GPA (rmp_gpa e) = 1 \<and> RMP_GET_GPA_STATE (rmp_gpa e) = RMP_GPA_STATE_FW_IOMMU \<and>
              rmp_vmsa e = 0
      then SNP_PAGE_STATE_FIRMWARE_IOMMU
      else SNP_PAGE_STATE_INVALID)"

section \<open>The bytes of an entry\<close>

definition bytes_of :: "u64 \<Rightarrow> u8 list" where
  "bytes_of w = map (\<lambda>i. ucast (drop_bit (8 * i) w)) [0..<8]"

fun word_of_bytes :: "u8 list \<Rightarrow> u64" where
  "word_of_bytes [] = 0"
| "word_of_bytes (b # bs) = ucast b OR push_bit 8 (word_of_bytes bs)"

definition entry_bytes :: "rmp_entry \<Rightarrow> u8 list" where
  "entry_bytes e = bytes_of (q1 e) @ bytes_of (q2 e)"

definition entry_of_bytes :: "u8 list \<Rightarrow> rmp_entry" where
  "entry_of_bytes bs = \<lparr>q1 = word_of_bytes (take 8 bs), q2 = word_of_bytes (drop 8 bs)\<rparr>"

section \<open>The address of the entry of a page\<close>

text \<open>The second component is the output variable; it keeps its value \<open>old\<close> where the code does not
  assign it.\<close>

definition local_get_rmp_paddr :: "x86 \<Rightarrow> u64 \<Rightarrow> u64 \<Rightarrow> sev_status \<times> u64" where
  "local_get_rmp_paddr X sPA old =
     (let page = drop_bit ALIGNMENT_BITS_4K (CLEAR_CBIT sPA)
      in if (NOT 0) - RMP_ASID_COUNTERS_SIZE - page * RMP_ENTRY_SIZE < xs_rmp_base X
         then (ERR_INVALID_PARAMS, old)
         else
           let paddr = xs_rmp_base X + RMP_ASID_COUNTERS_SIZE + page * RMP_ENTRY_SIZE
           in if paddr > xs_rmp_end X then (SEV_STATUS_INVALID_PAGE_STATE, 0)
              else (SEV_STATUS_SUCCESS, paddr))"

definition get_rmp_paddr :: "x86 \<Rightarrow> u64 \<Rightarrow> u64 \<Rightarrow> sev_status \<times> u64" where
  "get_rmp_paddr X sPA old =
     (if CLEAR_CBIT sPA \<ge> CLEAR_CBIT (xs_rmp_base X) \<and> CLEAR_CBIT sPA \<le> CLEAR_CBIT (xs_rmp_end X)
      then (SEV_STATUS_INVALID_PARAM, old)
      else local_get_rmp_paddr X sPA old)"

definition get_rmp_paddr_overlap :: "x86 \<Rightarrow> u64 \<Rightarrow> u64 \<Rightarrow> sev_status \<times> u64" where
  "get_rmp_paddr_overlap X sPA old = local_get_rmp_paddr X sPA old"

section \<open>Reading and writing entries\<close>

text \<open>\<open>old\<close> is the entry in the caller's buffer.\<close>

definition rmp_entry_read :: "u64 \<Rightarrow> rmp_entry \<Rightarrow> x86 \<Rightarrow> sev_status \<times> rmp_entry \<times> x86" where
  "rmp_entry_read rmp_paddr old X =
     (let X1 = skip_rmp_addr_check True X;
          (status, bs) = copy_from_x86 rmp_paddr (entry_bytes old) RMP_ENTRY_SIZE X1
      in (status, entry_of_bytes bs, skip_rmp_addr_check False X1))"

text \<open>A sequence of copies to x86 memory, up to the first that fails.\<close>

fun copies_to_x86 :: "(u64 \<times> u8 list) list \<Rightarrow> x86 \<Rightarrow> sev_status \<times> x86" where
  "copies_to_x86 [] X = (SEV_STATUS_SUCCESS, X)"
| "copies_to_x86 ((a, bs) # cs) X =
     (case copy_to_x86 a bs X of (status, X') \<Rightarrow>
        if status \<noteq> SEV_STATUS_SUCCESS then (status, X') else copies_to_x86 cs X')"

text \<open>The entry of a 2 MB aligned page that is mapped as a 4 KB page: the count of subpages may be
  changed by the cores until the entry is locked with an invalid ASID.\<close>

definition rmp_entry_write_locked ::
  "(x86 \<Rightarrow> x86) \<Rightarrow> u64 \<Rightarrow> rmp_entry \<Rightarrow> x86 \<Rightarrow> sev_status \<times> rmp_entry \<times> x86" where
  "rmp_entry_write_locked uc rmp_paddr rmp_data X =
     (let (status, inv, X1) = rmp_entry_read rmp_paddr rmp_data X
      in if status \<noteq> SEV_STATUS_SUCCESS then (status, rmp_data, X1)
         else
           let inv1 = set_asid_field RMP_INVALID_ASID inv;
               (status, X2) = copy_to_x86 (rmp_paddr + 4) (take 4 (drop 4 (entry_bytes inv1))) (uc X1)
           in if status \<noteq> SEV_STATUS_SUCCESS then (status, rmp_data, X2)
              else
                let (status, inv2, X3) = rmp_entry_read rmp_paddr inv1 X2
                in if status \<noteq> SEV_STATUS_SUCCESS then (status, rmp_data, X3)
                   else
                     let new = set_subpage_count (rmp_subpage_count inv2) rmp_data;
                         (status, X4) = copies_to_x86
                           [(rmp_paddr, take 4 (entry_bytes new)),
                            (rmp_paddr + 8, bytes_of (q2 new)),
                            (rmp_paddr + 4, take 4 (drop 4 (entry_bytes new)))] X3
                     in (status, new, X4))"

text \<open>The entry after the call is the second component: the code updates the caller's copy.\<close>

definition rmp_entry_write ::
  "(u64 \<Rightarrow> bool) \<Rightarrow> (x86 \<Rightarrow> x86) \<Rightarrow> u64 \<Rightarrow> rmp_entry \<Rightarrow> x86 \<Rightarrow> sev_status \<times> rmp_entry \<times> x86" where
  "rmp_entry_write al8k uc rmp_paddr rmp_data X =
     (let X0 = skip_rmp_addr_check True X;
          (status, new, X1) =
            (if rmp_page_size rmp_data = DRAM_PAGE_SIZE_4K \<and> al8k rmp_paddr
             then rmp_entry_write_locked uc rmp_paddr rmp_data X0
             else case copies_to_x86 [(rmp_paddr + 8, bytes_of (q2 rmp_data)),
                                      (rmp_paddr, bytes_of (q1 rmp_data))] X0 of
                    (status, X') \<Rightarrow> (status, rmp_data, X'))
      in (status, new, skip_rmp_addr_check False X1))"

definition rmp_entry_write_direct :: "bool \<Rightarrow> u64 \<Rightarrow> rmp_entry \<Rightarrow> x86 \<Rightarrow> sev_status \<times> x86" where
  "rmp_entry_write_direct sscb_rmp rmp_paddr rmp_data X =
     (if \<not> sscb_rmp then (SEV_STATUS_INVALID_CONFIG, X)
      else copies_to_x86 [(rmp_paddr + 8, bytes_of (q2 rmp_data)), (rmp_paddr, bytes_of (q1 rmp_data))] X)"

text \<open>The result: status, address of the entry, entry, state.\<close>

definition rmp_get_addr_entry_state ::
  "u64 \<Rightarrow> u64 \<times> rmp_entry \<times> snp_page_state \<Rightarrow> x86 \<Rightarrow>
     sev_status \<times> (u64 \<times> rmp_entry \<times> snp_page_state) \<times> x86" where
  "rmp_get_addr_entry_state x86_paddr old X =
     (case old of (paddr0, entry0, state0) \<Rightarrow>
       (case get_rmp_paddr X x86_paddr paddr0 of (status, paddr) \<Rightarrow>
          if status = SEV_STATUS_INVALID_PAGE_STATE
          then (SEV_STATUS_SUCCESS, (paddr, entry0, SNP_PAGE_STATE_DEFAULT), X)
          else if status = SEV_STATUS_SUCCESS then
            (case rmp_entry_read paddr entry0 X of (status, entry, X') \<Rightarrow>
               if status \<noteq> SEV_STATUS_SUCCESS then (status, (paddr, entry, state0), X')
               else (SEV_STATUS_SUCCESS, (paddr, entry, rmp_entry_get_state entry), X'))
          else (status, (paddr, entry0, state0), X)))"

definition rmp_get_state_rmp_base :: "rmp_entry \<Rightarrow> x86 \<Rightarrow> snp_page_state \<times> x86" where
  "rmp_get_state_rmp_base entry0 X =
     (case local_get_rmp_paddr X (xs_rmp_base X) 0 of (status, paddr) \<Rightarrow>
        if status \<noteq> SEV_STATUS_SUCCESS then (SNP_PAGE_STATE_INVALID, X)
        else case rmp_entry_read paddr entry0 X of (status, entry, X') \<Rightarrow>
          if status \<noteq> SEV_STATUS_SUCCESS then (SNP_PAGE_STATE_INVALID, X')
          else (rmp_entry_get_state entry, X'))"

section \<open>Tests and updates of pages\<close>

text \<open>The do-while loop: \<open>bytes_remaining\<close> is a signed number, and the entry that decides the page
  size is the one read last, also when the page is a DEFAULT page, which has none.\<close>

function firmware_writable_loop ::
  "u64 \<Rightarrow> int \<Rightarrow> u64 \<times> rmp_entry \<times> snp_page_state \<Rightarrow> x86 \<Rightarrow> sev_status \<times> x86" where
  "firmware_writable_loop cur_page bytes_remaining old X =
     (let (status, (paddr, entry, state), X1) = rmp_get_addr_entry_state cur_page old X
      in if status \<noteq> SEV_STATUS_SUCCESS then (status, X1)
         else if state \<noteq> SNP_PAGE_STATE_FIRMWARE \<and> state \<noteq> SNP_PAGE_STATE_DEFAULT
         then (SEV_STATUS_INVALID_PAGE_STATE, X1)
         else
           let page_size = (if rmp_page_size entry = DRAM_PAGE_SIZE_4K then PAGE_SIZE_4K else PAGE_SIZE_2M);
               remaining = bytes_remaining - int (unat page_size)
           in if remaining > 0
              then firmware_writable_loop (cur_page + page_size) remaining (paddr, entry, state) X1
              else (SEV_STATUS_SUCCESS, X1))"
  by pat_completeness auto

termination
  by (relation "measure (\<lambda>(_, r, _, _). nat r)")
     (auto simp: PAGE_SIZE_4K_def PAGE_SIZE_2M_def split: if_split_asm)

definition check_page_range_firmware_writable ::
  "rmp_entry \<Rightarrow> u64 \<Rightarrow> u32 \<Rightarrow> x86 \<Rightarrow> sev_status \<times> x86" where
  "check_page_range_firmware_writable entry0 start_paddr n X =
     firmware_writable_loop start_paddr (int (unat n)) (0, entry0, SNP_PAGE_STATE_INVALID) X"

text \<open>The number of RMP pages of an ASID, from the counters at the start of the RMP.\<close>

definition sev_hal_map_memory_ccp :: "x86 \<Rightarrow> u64 \<Rightarrow> u64 \<Rightarrow> sev_status \<times> u64" where
  "sev_hal_map_memory_ccp X addr n =
     (let status = validate_address_range X addr n
      in if status \<noteq> SEV_STATUS_SUCCESS then (status, 0)
         else
           let a = the (snd (convert_x86_address X (Some addr)))
           in if xs_map X a \<noteq> SEV_STATUS_SUCCESS then (xs_map X a, 0) else (SEV_STATUS_SUCCESS, a))"

definition check_rmp_for_asid :: "x86 \<Rightarrow> u32 \<Rightarrow> u64 \<Rightarrow> sev_status \<times> u64" where
  "check_rmp_for_asid X asid count =
     (if asid \<ge> RMP_NUM_ASID_COUNTERS then (SEV_STATUS_INVALID_ASID, count)
      else
        let (status, a) = sev_hal_map_memory_ccp (skip_rmp_addr_check True X) (xs_rmp_base X) RMP_ASID_COUNTERS_SIZE
        in if status \<noteq> SEV_STATUS_SUCCESS then (status, count)
           else (SEV_STATUS_SUCCESS, word_of_bytes (read_bytes (xs_mem X) (a + 8 * ucast asid) 8)))"

text \<open>\<open>is_rmp_table_initialized\<close>: the flag of this image, or else that of the boot loader.\<close>

definition is_rmp_table_initialized :: "bool \<Rightarrow> bool \<Rightarrow> bool" where
  "is_rmp_table_initialized is_rmp_initialized globals_flag = (is_rmp_initialized \<or> globals_flag)"

definition snp_reclaim_buffer ::
  "(u64 \<Rightarrow> bool) \<Rightarrow> (x86 \<Rightarrow> x86) \<Rightarrow> bool \<Rightarrow> rmp_entry \<Rightarrow> u64 \<Rightarrow> x86 \<Rightarrow> sev_status \<times> x86" where
  "snp_reclaim_buffer al8k uc initialized entry0 address X =
     (if initialized then
        (case rmp_get_addr_entry_state address (0, entry0, SNP_PAGE_STATE_INVALID) X of
           (status, (paddr, entry, _), X1) \<Rightarrow>
             if status \<noteq> SEV_STATUS_SUCCESS then (status, X1)
             else case rmp_entry_write al8k uc paddr (set_lock 0 (set_immutable 0 entry)) X1 of
                    (status, _, X2) \<Rightarrow> (status, X2))
      else (SEV_STATUS_SUCCESS, X))"

definition update_rmp_2mb_subpage_count ::
  "bool \<Rightarrow> rmp_entry \<Rightarrow> u64 \<Rightarrow> u32 \<Rightarrow> bool \<Rightarrow> bool \<Rightarrow> x86 \<Rightarrow> sev_status \<times> x86" where
  "update_rmp_2mb_subpage_count sscb_rmp entry0 addr subpage_count inc overlap_range X =
     (case (if overlap_range then get_rmp_paddr_overlap X addr 0 else get_rmp_paddr X addr 0) of
        (status, paddr) \<Rightarrow>
          if status \<noteq> SEV_STATUS_SUCCESS then (status, X)
          else case rmp_entry_read paddr entry0 X of (status, entry, X1) \<Rightarrow>
            if status \<noteq> SEV_STATUS_SUCCESS then (status, X1)
            else if inc then
              rmp_entry_write_direct sscb_rmp paddr
                (set_subpage_count (rmp_subpage_count entry + ucast subpage_count) entry) X1
            else if rmp_subpage_count entry < ucast subpage_count then (SEV_STATUS_INVALID_PAGE_STATE, X1)
            else rmp_entry_write_direct sscb_rmp paddr
                (set_subpage_count (rmp_subpage_count entry - ucast subpage_count) entry) X1)"

section \<open>Fields and bytes\<close>

lemma bit_get_field: "bit (get_field lo n w) i \<longleftrightarrow> i < n \<and> bit w (lo + i)"
  by (auto simp: get_field_def bit_take_bit_iff bit_drop_bit_eq)

lemma bit_put_field:
  "bit (put_field lo n v w) i \<longleftrightarrow>
     i < 64 \<and> (if lo \<le> i \<and> i < lo + n then bit v (i - lo) else bit w i)"
  by (auto simp: put_field_def bit_or_iff bit_and_iff bit_not_iff bit_push_bit_iff bit_take_bit_iff
      bit_mask_iff dest: bit_imp_le_length)

lemma get_put_field: "lo + n \<le> 64 \<Longrightarrow> get_field lo n (put_field lo n v w) = take_bit n v"
  by (rule bit_eqI) (auto simp: bit_get_field bit_put_field bit_take_bit_iff)

lemma get_put_other:
  "lo + n \<le> lo' \<or> lo' + n' \<le> lo \<Longrightarrow> get_field lo n (put_field lo' n' v w) = get_field lo n w"
  by (rule bit_eqI) (auto simp: bit_get_field bit_put_field dest: bit_imp_le_length)

lemma field_one_bit: "get_field lo 1 w = (if bit w lo then 1 else 0)"
  by (rule bit_eqI) (auto simp: bit_get_field bit_1_iff)

lemma field_bool: "get_field lo 1 w = 0 \<or> get_field lo 1 w = 1"
  unfolding field_one_bit by simp

lemmas entry_fields = rmp_assigned_def rmp_page_size_def rmp_immutable_def rmp_subpage_count_def
  rmp_gpa_def rmp_asid_def rmp_vmsa_def rmp_validated_def rmp_lock_def

lemmas entry_setters = set_immutable_def set_subpage_count_def set_asid_field_def set_vmsa_def set_lock_def

lemma length_bytes_of [simp]: "length (bytes_of w) = 8"
  by (simp add: bytes_of_def)

lemma length_entry_bytes [simp]: "length (entry_bytes e) = 16"
  by (simp add: entry_bytes_def)

lemma bit_word_of_bytes:
  "length bs \<le> 8 \<Longrightarrow> bit (word_of_bytes bs) i \<longleftrightarrow> i div 8 < length bs \<and> bit (bs ! (i div 8)) (i mod 8)"
proof (induction bs arbitrary: i)
  case Nil
  then show ?case by simp
next
  case (Cons b bs)
  show ?case
  proof (cases "i < 8")
    case True
    then show ?thesis by (auto simp: bit_or_iff bit_push_bit_iff bit_ucast_iff)
  next
    case False
    then have d: "i div 8 = Suc ((i - 8) div 8)" "i mod 8 = (i - 8) mod 8"
      by (simp_all add: div_if mod_if)
    have b: "\<not> bit (ucast b :: u64) i"
      using False by (auto simp: bit_ucast_iff dest: bit_imp_le_length)
    have l: "i < 64" if "i div 8 < 8" using that by (simp add: div_less_iff_less_mult)
    show ?thesis
      using Cons.IH [of "i - 8"] Cons.prems False l
      by (auto simp: bit_or_iff bit_push_bit_iff b d)
  qed
qed

lemma bytes_of_nth: "i < 8 \<Longrightarrow> bytes_of w ! i = ucast (drop_bit (8 * i) w)"
  by (simp add: bytes_of_def)

lemma word_of_bytes_of: "word_of_bytes (bytes_of w) = w"
proof (rule bit_eqI)
  fix i assume "possible_bit TYPE(u64) i"
  then have i: "i < 64" by simp
  then have "i div 8 < 8" by (simp add: div_less_iff_less_mult)
  then show "bit (word_of_bytes (bytes_of w)) i = bit w i"
    by (simp add: bit_word_of_bytes bytes_of_nth bit_ucast_iff bit_drop_bit_eq)
qed

lemma entry_of_entry_bytes: "entry_of_bytes (entry_bytes e) = e"
  by (simp add: entry_of_bytes_def entry_bytes_def word_of_bytes_of)

section \<open>Page states\<close>

text \<open>The states that firmware pages go through, as conditions on the fields.\<close>

lemma firmware_fields:
  "rmp_entry_get_state e = SNP_PAGE_STATE_FIRMWARE \<longleftrightarrow>
     rmp_assigned e = 1 \<and> rmp_validated e = 0 \<and> rmp_asid e = 0 \<and> rmp_immutable e = 1 \<and> rmp_gpa e = 0 \<and> rmp_vmsa e = 0"
  unfolding rmp_entry_get_state_def if_distrib [of "\<lambda>s. s = SNP_PAGE_STATE_FIRMWARE"] by auto

lemma context_fields:
  "rmp_entry_get_state e = SNP_PAGE_STATE_CONTEXT \<longleftrightarrow>
     rmp_assigned e = 1 \<and> rmp_validated e = 0 \<and> rmp_asid e = 0 \<and> rmp_immutable e = 1 \<and> rmp_gpa e = 0 \<and> rmp_vmsa e = 1"
  unfolding rmp_entry_get_state_def if_distrib [of "\<lambda>s. s = SNP_PAGE_STATE_CONTEXT"] by auto

lemma reclaim_fields:
  "rmp_entry_get_state e = SNP_PAGE_STATE_RECLAIM \<longleftrightarrow>
     rmp_assigned e = 1 \<and> rmp_validated e = 0 \<and> rmp_asid e = 0 \<and> rmp_immutable e = 0 \<and> rmp_lock e = 0"
  unfolding rmp_entry_get_state_def if_distrib [of "\<lambda>s. s = SNP_PAGE_STATE_RECLAIM"] by auto

lemma page_transitions:
  "(rmp_entry_get_state e = SNP_PAGE_STATE_FIRMWARE \<longrightarrow>
      rmp_entry_get_state (set_lock 0 (set_immutable 0 e)) = SNP_PAGE_STATE_RECLAIM \<and>
      rmp_entry_get_state (set_vmsa 1 e) = SNP_PAGE_STATE_CONTEXT) \<and>
   (rmp_entry_get_state e = SNP_PAGE_STATE_CONTEXT \<longrightarrow>
      rmp_entry_get_state (set_vmsa 0 e) = SNP_PAGE_STATE_FIRMWARE)"
proof -
  have f: "rmp_assigned (set_vmsa v e) = rmp_assigned e" "rmp_validated (set_vmsa v e) = rmp_validated e"
    "rmp_asid (set_vmsa v e) = rmp_asid e" "rmp_immutable (set_vmsa v e) = rmp_immutable e"
    "rmp_gpa (set_vmsa v e) = rmp_gpa e" "rmp_vmsa (set_vmsa v e) = take_bit 1 v"
    "rmp_lock (set_vmsa v e) = rmp_lock e" for v
    by (simp_all add: entry_fields entry_setters get_put_other get_put_field)
  have g: "rmp_assigned (set_lock 0 (set_immutable 0 e)) = rmp_assigned e"
    "rmp_validated (set_lock 0 (set_immutable 0 e)) = rmp_validated e"
    "rmp_asid (set_lock 0 (set_immutable 0 e)) = rmp_asid e"
    "rmp_immutable (set_lock 0 (set_immutable 0 e)) = 0" "rmp_lock (set_lock 0 (set_immutable 0 e)) = 0"
    by (simp_all add: entry_fields entry_setters get_put_other get_put_field)
  have t: "take_bit 1 1 = (1 :: u64)" by simp
  show ?thesis
    by (simp add: firmware_fields context_fields reclaim_fields f g t)
qed

text \<open>
  The three changes of the state of a firmware page: clearing the immutable and lock bits
  makes it a RECLAIM page, which the host may take back; setting the VMSA bit makes it the
  CONTEXT page of a guest; clearing that bit again makes a CONTEXT page a FIRMWARE page.
\<close>

theorem firmware_page_transitions:
  "(rmp_entry_get_state e = SNP_PAGE_STATE_FIRMWARE \<longrightarrow>
      rmp_entry_get_state (set_lock 0 (set_immutable 0 e)) = SNP_PAGE_STATE_RECLAIM \<and>
      rmp_entry_get_state (set_vmsa 1 e) = SNP_PAGE_STATE_CONTEXT) \<and>
   (rmp_entry_get_state e = SNP_PAGE_STATE_CONTEXT \<longrightarrow>
      rmp_entry_get_state (set_vmsa 0 e) = SNP_PAGE_STATE_FIRMWARE)"
  by (rule page_transitions)

text \<open>
  A page counts as a guest page exactly if it is assigned with an ASID other than 0; no such
  page is in a state in which the firmware or the host may write it.
\<close>

theorem guest_pages_have_an_asid:
  "rmp_entry_get_state e \<in> {SNP_PAGE_STATE_PRE_GUEST, SNP_PAGE_STATE_PRE_SWAP,
      SNP_PAGE_STATE_GUEST_INVALID, SNP_PAGE_STATE_GUEST_VALID} \<longleftrightarrow>
     rmp_assigned e = 1 \<and> rmp_asid e \<noteq> 0"
proof -
  have b: "rmp_validated e = 0 \<or> rmp_validated e = 1" "rmp_immutable e = 0 \<or> rmp_immutable e = 1"
    unfolding entry_fields by (rule field_bool)+
  have p: "rmp_asid e > 0 \<longleftrightarrow> rmp_asid e \<noteq> 0" by (simp add: word_gt_0)
  show ?thesis
    using b unfolding rmp_entry_get_state_def p by (elim disjE) auto
qed

section \<open>The addresses of entries\<close>

lemma local_rmp_paddr_nat:
  assumes "local_get_rmp_paddr X a old = (SEV_STATUS_SUCCESS, p)"
  shows "unat p = unat (xs_rmp_base X) + 16384 + 16 * (unat (CLEAR_CBIT a) div 4096)" and "p \<le> xs_rmp_end X"
proof -
  let ?page = "drop_bit ALIGNMENT_BITS_4K (CLEAR_CBIT a)"
  have u: "unat ?page = unat (CLEAR_CBIT a) div 4096"
    by (simp add: ALIGNMENT_BITS_4K_def drop_bit_eq_div unat_div)
  have small: "unat ?page < 2 ^ 52"
    using u64_bound [of "CLEAR_CBIT a"] unfolding u by (simp add: div_less_iff_less_mult)
  have m: "unat (?page * RMP_ENTRY_SIZE) = 16 * unat ?page"
    using small by (simp add: RMP_ENTRY_SIZE_def unat_word_ariths)
  have c: "unat RMP_ASID_COUNTERS_SIZE = 16384" by (simp add: RMP_ASID_COUNTERS_SIZE_def)
  from assms have g: "\<not> (NOT 0) - RMP_ASID_COUNTERS_SIZE - ?page * RMP_ENTRY_SIZE < xs_rmp_base X"
    and p: "p = xs_rmp_base X + RMP_ASID_COUNTERS_SIZE + ?page * RMP_ENTRY_SIZE" and le: "p \<le> xs_rmp_end X"
    by (auto simp: local_get_rmp_paddr_def Let_def not_less split: if_split_asm)
  show "p \<le> xs_rmp_end X" by (rule le)
  have s1: "unat ((NOT 0) - RMP_ASID_COUNTERS_SIZE) = 2 ^ 64 - 1 - 16384"
    by (simp add: RMP_ASID_COUNTERS_SIZE_def)
  have "?page * RMP_ENTRY_SIZE \<le> (NOT 0) - RMP_ASID_COUNTERS_SIZE"
    unfolding word_le_nat_alt m s1 using small u64_bound [of "CLEAR_CBIT a"] u by simp
  from unat_sub [OF this]
  have "unat ((NOT 0) - RMP_ASID_COUNTERS_SIZE - ?page * RMP_ENTRY_SIZE) = 2 ^ 64 - 1 - 16384 - 16 * unat ?page"
    by (simp only: m s1)
  with g have "unat (xs_rmp_base X) \<le> 2 ^ 64 - 1 - 16384 - 16 * unat ?page"
    by (simp only: not_less word_le_nat_alt)
  with small have sum: "unat (xs_rmp_base X) + 16384 + 16 * unat ?page < 2 ^ 64" by simp
  then show "unat p = unat (xs_rmp_base X) + 16384 + 16 * (unat (CLEAR_CBIT a) div 4096)"
    unfolding p using m c u by (simp add: unat_add_no_wrap)
qed

text \<open>
  C32: The entry of a page lies in the table, behind the ASID counters, with all its 16 bytes, and
  entries of different pages do not overlap.
\<close>

theorem rmp_entries_are_disjoint:
  assumes "get_rmp_paddr X a old = (SEV_STATUS_SUCCESS, p)" and "get_rmp_paddr X b old' = (SEV_STATUS_SUCCESS, q)"
    and "unat (CLEAR_CBIT a) div 4096 \<noteq> unat (CLEAR_CBIT b) div 4096"
    and "2 ^ 20 dvd unat (xs_rmp_base X)" and "2 ^ 20 dvd unat (xs_rmp_end X) + 1"
  shows "unat (xs_rmp_base X) + 16384 \<le> unat p \<and> unat p + 15 \<le> unat (xs_rmp_end X) \<and>
    (unat p + 16 \<le> unat q \<or> unat q + 16 \<le> unat p)"
proof -
  have l: "local_get_rmp_paddr X a old = (SEV_STATUS_SUCCESS, p)" "local_get_rmp_paddr X b old' = (SEV_STATUS_SUCCESS, q)"
    using assms(1,2) by (auto simp: get_rmp_paddr_def split: if_split_asm)
  note pa = local_rmp_paddr_nat [OF l(1)] and qa = local_rmp_paddr_nat [OF l(2)]
  have "16 dvd (2 :: nat) ^ 20" by simp
  with assms(4,5) have d: "16 dvd unat (xs_rmp_base X)" "16 dvd unat (xs_rmp_end X) + 1"
    by (meson dvd_trans)+
  have dp: "16 dvd unat p" unfolding pa(1) using d(1) by (simp add: dvd_add)
  have le: "unat p < unat (xs_rmp_end X) + 1" using pa(2) by (simp add: word_le_nat_alt)
  obtain x y where xy: "unat p = 16 * x" "unat (xs_rmp_end X) + 1 = 16 * y"
    using dp d(2) by (auto elim!: dvdE)
  have "unat p + 15 \<le> unat (xs_rmp_end X)" using le xy by simp
  then show ?thesis using pa(1) qa(1) assms(3) by (simp add: algebra_simps) linarith
qed

section \<open>Writing an entry\<close>

lemma write_bytes_at:
  assumes "unat (c :: u64) + length bs \<le> 2 ^ 63"
  shows "write_bytes m (a + c) bs x =
    (if unat c \<le> unat (x - a) \<and> unat (x - a) < unat c + length bs then bs ! (unat (x - a) - unat c) else m x)"
proof -
  have e: "x - (a + c) = (x - a) - c" by simp
  have u: "unat (x - a - c) = (if unat c \<le> unat (x - a) then unat (x - a) - unat c
      else unat (x - a) + 2 ^ 64 - unat c)"
    by (subst unat_sub_if') simp
  show ?thesis using assms by (auto simp: write_bytes_def Let_def e u)
qed

lemma write_bytes_4_8:
  "length bs \<le> 8 \<Longrightarrow> write_bytes m a bs x = (if unat (x - a) < length bs then bs ! unat (x - a) else m x)"
  "length bs \<le> 8 \<Longrightarrow> write_bytes m (a + 4) bs x =
     (if 4 \<le> unat (x - a) \<and> unat (x - a) < 4 + length bs then bs ! (unat (x - a) - 4) else m x)"
  "length bs \<le> 8 \<Longrightarrow> write_bytes m (a + 8) bs x =
     (if 8 \<le> unat (x - a) \<and> unat (x - a) < 8 + length bs then bs ! (unat (x - a) - 8) else m x)"
  using write_bytes_at [of 4 bs m a x] write_bytes_at [of 8 bs m a x]
  by (simp_all add: write_bytes_def Let_def)

lemma nth_entry_bytes:
  "i < 16 \<Longrightarrow> entry_bytes e ! i = (if i < 8 then bytes_of (q1 e) ! i else bytes_of (q2 e) ! (i - 8))"
  by (simp add: entry_bytes_def nth_append)

lemma length_read_bytes [simp]: "length (read_bytes m a n) = n"
  by (simp add: read_bytes_def)

lemma nth_read_bytes [simp]: "i < n \<Longrightarrow> read_bytes m a n ! i = m (a + of_nat i)"
  by (simp add: read_bytes_def)

lemma read_entry:
  assumes "\<And>x. unat (x - a) < 16 \<Longrightarrow> m x = entry_bytes e ! unat (x - a)"
  shows "entry_of_bytes (read_bytes m a 16) = e"
proof -
  have "read_bytes m a 16 = entry_bytes e"
    by (rule nth_equalityI) (simp_all add: assms unat_of_nat)
  then show ?thesis by (simp add: entry_of_entry_bytes)
qed

text \<open>The subpage count is in the first two bytes.\<close>

lemma subpage_count_bytes:
  assumes "m (a :: u64) = m' a" and "m (a + 1) = m' (a + 1)"
  shows "rmp_subpage_count (entry_of_bytes (read_bytes m a 16)) =
    rmp_subpage_count (entry_of_bytes (read_bytes m' a 16))"
proof (rule bit_eqI)
  fix i
  have b: "bit (rmp_subpage_count (entry_of_bytes (read_bytes n a 16))) i \<longleftrightarrow>
      i < 9 \<and> bit (n (a + of_nat ((3 + i) div 8))) ((3 + i) mod 8)" for n
  proof (cases "i < 9")
    case True
    then have "(3 + i) div 8 < 8" by (simp add: div_less_iff_less_mult)
    then show ?thesis
      using True
      by (simp add: rmp_subpage_count_def entry_of_bytes_def bit_get_field bit_word_of_bytes del: div_less)
  qed (simp add: rmp_subpage_count_def bit_get_field)
  have "n (a + of_nat ((3 + i) div 8)) = n' (a + of_nat ((3 + i) div 8))"
    if "i < 9" "n a = n' a" "n (a + 1) = n' (a + 1)" for n n' :: bytes_mem
  proof -
    have "(3 + i) div 8 = 0 \<or> (3 + i) div 8 = 1" using that(1) by linarith
    moreover have "n (a + of_nat d) = n' (a + of_nat d)" if "d = 0 \<or> d = 1" for d
      using that \<open>n a = n' a\<close> \<open>n (a + 1) = n' (a + 1)\<close> by auto
    ultimately show ?thesis by blast
  qed
  from this [OF _ assms] show "bit (rmp_subpage_count (entry_of_bytes (read_bytes m a 16))) i =
    bit (rmp_subpage_count (entry_of_bytes (read_bytes m' a 16))) i"
    unfolding b by (cases "i < 9") (simp_all only: simp_thms)
qed

lemma cbit_nat: "CBIT_IS_SET a \<longleftrightarrow> odd (unat a div 2 ^ 51)"
proof -
  have "CBIT_IS_SET a \<longleftrightarrow> bit a 51"
    by (auto simp: CBIT_IS_SET_def bit_eq_iff [of _ 0] bit_and_iff cbit_bit)
  also have "\<dots> \<longleftrightarrow> bit (unat a) 51" by (simp add: bit_unsigned_iff)
  finally show ?thesis by (simp add: bit_iff_odd)
qed

lemma aligned_cbit:
  assumes "16 dvd unat (a :: u64)" and "k < 16"
  shows "CBIT_IS_SET (a + of_nat k) = CBIT_IS_SET a"
proof -
  obtain x where x: "unat a = 16 * x" using assms(1) by (elim dvdE)
  have b: "unat a + k < 2 ^ 64" using u64_bound [of a] x assms(2) by simp
  then have "unat (a + of_nat k) = 16 * x + k"
    using assms(2) x by (subst unat_add_no_wrap) (simp_all add: unat_of_nat)
  moreover have "(16 * x + k) div 2 ^ 51 = (16 * x) div 2 ^ 51"
  proof -
    have "(2 :: nat) ^ 51 = 16 * 2 ^ 47" by simp
    moreover have "(16 * x + k) div 16 = x" "(16 * x) div 16 = x" using assms(2) by simp_all
    ultimately show ?thesis by (simp only: div_mult2_eq)
  qed
  ultimately show ?thesis by (simp only: cbit_nat x)
qed

lemma aligned_cbit_4_8:
  assumes "16 dvd unat (a :: u64)" and "\<not> CBIT_IS_SET a"
  shows "\<not> CBIT_IS_SET (a + 4)" and "\<not> CBIT_IS_SET (a + 8)"
  using aligned_cbit [OF assms(1), of 4] aligned_cbit [OF assms(1), of 8] assms(2) by simp_all

lemma skip_mem [simp]: "xs_mem (skip_rmp_addr_check b X) = xs_mem X"
  by (simp add: skip_rmp_addr_check_def)

lemma rmp_read_mem:
  assumes "rmp_entry_read a old X = (SEV_STATUS_SUCCESS, e, X')" and "\<not> CBIT_IS_SET a"
  shows "e = entry_of_bytes (read_bytes (xs_mem X) a 16)" and "xs_mem X' = xs_mem X"
proof -
  from assms(1) obtain bs where
    b: "copy_from_x86 a (entry_bytes old) RMP_ENTRY_SIZE (skip_rmp_addr_check True X) = (SEV_STATUS_SUCCESS, bs)"
      "e = entry_of_bytes bs" "xs_mem X' = xs_mem X"
    by (auto simp: rmp_entry_read_def Let_def split: prod.split_asm)
  from copy_from_x86_spec(2) [OF b(1) assms(2)] b(2,3)
  show "e = entry_of_bytes (read_bytes (xs_mem X) a 16)" "xs_mem X' = xs_mem X"
    by (simp_all add: RMP_ENTRY_SIZE_def)
qed

lemma locked_write:
  assumes "rmp_entry_write_locked (\<lambda>Y. Y\<lparr>xs_mem := cores (xs_mem Y)\<rparr>) a e X = (SEV_STATUS_SUCCESS, e', X')"
    and "16 dvd unat a" and "\<not> CBIT_IS_SET a"
  shows "e' = set_subpage_count (rmp_subpage_count (entry_of_bytes (read_bytes (cores (xs_mem X)) a 16))) e"
    and "entry_of_bytes (read_bytes (xs_mem X') a 16) = e'"
    and "16 \<le> unat (x - a) \<Longrightarrow> xs_mem X' x = cores (xs_mem X) x"
proof -
  let ?uc = "\<lambda>Y. Y\<lparr>xs_mem := cores (xs_mem Y)\<rparr> :: x86"
  note cb = aligned_cbit_4_8 [OF assms(2,3)]
  obtain inv X1 X2 inv2 X3 inv1 where
    r1: "rmp_entry_read a e X = (SEV_STATUS_SUCCESS, inv, X1)" and
    c2: "copy_to_x86 (a + 4) (take 4 (drop 4 (entry_bytes inv1))) (?uc X1) = (SEV_STATUS_SUCCESS, X2)" and
    r2: "rmp_entry_read a inv1 X2 = (SEV_STATUS_SUCCESS, inv2, X3)" and
    e': "e' = set_subpage_count (rmp_subpage_count inv2) e" and
    c3: "copies_to_x86 [(a, take 4 (entry_bytes e')), (a + 8, bytes_of (q2 e')),
           (a + 4, take 4 (drop 4 (entry_bytes e')))] X3 = (SEV_STATUS_SUCCESS, X')"
    using assms(1) by (auto simp: rmp_entry_write_locked_def Let_def split: prod.split_asm if_split_asm)
  from c3 obtain Y Z where c: "copy_to_x86 a (take 4 (entry_bytes e')) X3 = (SEV_STATUS_SUCCESS, Y)"
    "copy_to_x86 (a + 8) (bytes_of (q2 e')) Y = (SEV_STATUS_SUCCESS, Z)"
    "copy_to_x86 (a + 4) (take 4 (drop 4 (entry_bytes e'))) Z = (SEV_STATUS_SUCCESS, X')"
    by (auto split: prod.split_asm if_split_asm)
  note m1 = rmp_read_mem(2) [OF r1 assms(3)] and i2 = rmp_read_mem [OF r2 assms(3)]
  have m2: "xs_mem X3 = write_bytes (cores (xs_mem X)) (a + 4) (take 4 (drop 4 (entry_bytes inv1)))"
    using copy_to_x86_spec(2) [OF c2 cb(1)] i2(2) m1 by simp
  have "rmp_subpage_count inv2 = rmp_subpage_count (entry_of_bytes (read_bytes (cores (xs_mem X)) a 16))"
    unfolding i2(1) i2(2) [symmetric] by (rule subpage_count_bytes) (simp_all add: m2 write_bytes_4_8(2,3))
  with e' show "e' = set_subpage_count (rmp_subpage_count (entry_of_bytes (read_bytes (cores (xs_mem X)) a 16))) e"
    by simp
  have mem: "xs_mem X' = write_bytes (write_bytes (write_bytes (xs_mem X3) a (take 4 (entry_bytes e')))
      (a + 8) (bytes_of (q2 e'))) (a + 4) (take 4 (drop 4 (entry_bytes e')))"
    using copy_to_x86_spec(2) [OF c(1) assms(3)] copy_to_x86_spec(2) [OF c(2) cb(2)]
      copy_to_x86_spec(2) [OF c(3) cb(1)] by simp
  show "entry_of_bytes (read_bytes (xs_mem X') a 16) = e'"
    by (rule read_entry) (auto simp: mem write_bytes_4_8(2,3) write_bytes_4_8(1) [where a = a] nth_entry_bytes)
  show "xs_mem X' x = cores (xs_mem X) x" if "16 \<le> unat (x - a)"
    using that by (simp add: mem m2 write_bytes_4_8(2,3) write_bytes_4_8(1) [where a = a])
qed

lemma rmp_write_effect:
  assumes "rmp_entry_write al8k (\<lambda>Y. Y\<lparr>xs_mem := cores (xs_mem Y)\<rparr>) a e X = (SEV_STATUS_SUCCESS, e', X')"
    and "16 dvd unat a" and "\<not> CBIT_IS_SET a"
    and "locked \<longleftrightarrow> rmp_page_size e = DRAM_PAGE_SIZE_4K \<and> al8k a"
    and "m = (if locked then cores (xs_mem X) else xs_mem X)"
  shows "e' = (if locked then set_subpage_count (rmp_subpage_count (entry_of_bytes (read_bytes m a 16))) e else e) \<and>
    entry_of_bytes (read_bytes (xs_mem X') a 16) = e' \<and>
    (\<forall>x. 16 \<le> unat (x - a) \<longrightarrow> xs_mem X' x = m x)"
proof (cases locked)
  case False
  let ?X0 = "skip_rmp_addr_check True X"
  from assms(1,4) False obtain X1 where
    w: "copies_to_x86 [(a + 8, bytes_of (q2 e)), (a, bytes_of (q1 e))] ?X0 = (SEV_STATUS_SUCCESS, X1)"
      "e' = e" "xs_mem X' = xs_mem X1"
    by (auto simp: rmp_entry_write_def Let_def split: prod.split_asm)
  from w(1) obtain Y where c: "copy_to_x86 (a + 8) (bytes_of (q2 e)) ?X0 = (SEV_STATUS_SUCCESS, Y)"
    "copy_to_x86 a (bytes_of (q1 e)) Y = (SEV_STATUS_SUCCESS, X1)"
    by (auto split: prod.split_asm if_split_asm)
  note cb = aligned_cbit_4_8 [OF assms(2,3)]
  have mem: "xs_mem X' = write_bytes (write_bytes (xs_mem X) (a + 8) (bytes_of (q2 e))) a (bytes_of (q1 e))"
    using copy_to_x86_spec(2) [OF c(1) cb(2)] copy_to_x86_spec(2) [OF c(2) assms(3)] w(3) by simp
  have r: "entry_of_bytes (read_bytes (xs_mem X') a 16) = e"
    by (rule read_entry) (simp add: mem write_bytes_4_8(2,3) write_bytes_4_8(1) [where a = a] nth_entry_bytes)
  have fr: "xs_mem X' x = xs_mem X x" if "16 \<le> unat (x - a)" for x
    using that by (simp add: mem write_bytes_4_8(2,3) write_bytes_4_8(1) [where a = a])
  show ?thesis using False w(2) r fr assms(5) by simp
next
  case True
  let ?X0 = "skip_rmp_addr_check True X"
  from assms(1,4) True obtain X1 where
    w: "rmp_entry_write_locked (\<lambda>Y. Y\<lparr>xs_mem := cores (xs_mem Y)\<rparr>) a e ?X0 = (SEV_STATUS_SUCCESS, e', X1)"
      "xs_mem X' = xs_mem X1"
    by (auto simp: rmp_entry_write_def Let_def split: prod.split_asm)
  from locked_write [OF w(1) assms(2,3)] w(2) assms(5) True show ?thesis by simp
qed

text \<open>
  C12: What \<open>rmp_entry_write\<close> leaves in memory: the entry it was given; but for a 4 KB page at a
  2 MB boundary the subpage count is the one the cores last stored there, even if they changed it
  after the first read. No other byte changes.
\<close>

theorem rmp_entry_write_keeps_subpage_count:
  assumes "rmp_entry_write al8k (\<lambda>Y. Y\<lparr>xs_mem := cores (xs_mem Y)\<rparr>) a e X = (SEV_STATUS_SUCCESS, e', X')"
    and "16 dvd unat a" and "\<not> CBIT_IS_SET a"
    and "locked \<longleftrightarrow> rmp_page_size e = DRAM_PAGE_SIZE_4K \<and> al8k a"
    and "m = (if locked then cores (xs_mem X) else xs_mem X)"
  shows "e' = (if locked then set_subpage_count (rmp_subpage_count (entry_of_bytes (read_bytes m a 16))) e else e) \<and>
    entry_of_bytes (read_bytes (xs_mem X') a 16) = e' \<and>
    (\<forall>x. 16 \<le> unat (x - a) \<longrightarrow> xs_mem X' x = m x)"
  by (rule rmp_write_effect [OF assms])

section \<open>The check of a command buffer\<close>

lemma skip_true_false [simp]:
  "xs_skip_rmp X + 1 \<noteq> 0 \<Longrightarrow> skip_rmp_addr_check False (skip_rmp_addr_check True X) = X"
  by (simp add: skip_rmp_addr_check_def word_gt_0)

text \<open>The entry at an address of the table, and whether the page of an address is one that the
  firmware may write: a FIRMWARE page or a DEFAULT page, which the table does not cover.\<close>

definition page_entry :: "x86 \<Rightarrow> u64 \<Rightarrow> rmp_entry" where
  "page_entry X p = entry_of_bytes (read_bytes (xs_mem X) p 16)"

definition page_may_be_written :: "x86 \<Rightarrow> u64 \<Rightarrow> bool" where
  "page_may_be_written X a =
     (case get_rmp_paddr X a 0 of (status, p) \<Rightarrow>
        status = SEV_STATUS_INVALID_PAGE_STATE \<or>
        status = SEV_STATUS_SUCCESS \<and> rmp_entry_get_state (page_entry X p) = SNP_PAGE_STATE_FIRMWARE)"

lemma low_address_no_cbit: "a \<le> b \<Longrightarrow> b < 2 ^ 51 \<Longrightarrow> \<not> CBIT_IS_SET a"
proof -
  assume "a \<le> b" "b < 2 ^ 51"
  then have "unat a < 2 ^ 51" by (simp add: word_le_nat_alt word_less_nat_alt)
  then show ?thesis by (simp add: cbit_nat)
qed

lemma get_rmp_paddr_old: "fst (get_rmp_paddr X a old) = fst (get_rmp_paddr X a 0)"
  "fst (get_rmp_paddr X a old) = SEV_STATUS_SUCCESS \<Longrightarrow> get_rmp_paddr X a old = get_rmp_paddr X a 0"
  by (auto simp: get_rmp_paddr_def local_get_rmp_paddr_def Let_def)

text \<open>Looking up a page changes nothing.\<close>

lemma read_keeps: "xs_skip_rmp X + 1 \<noteq> 0 \<Longrightarrow> snd (snd (rmp_entry_read p e X)) = X"
  by (simp add: rmp_entry_read_def Let_def split: prod.split)

lemma state_keeps:
  assumes "rmp_get_addr_entry_state a (p0, e0, s0) X = (st, r, X')" and "xs_skip_rmp X + 1 \<noteq> 0"
  shows "X' = X"
proof -
  have "X2 = X" if "rmp_entry_read q e0 X = (st2, e2, X2)" for q st2 e2 X2
    using read_keeps [OF assms(2), of q e0] that by simp
  then show ?thesis
    using assms(1) by (auto simp: rmp_get_addr_entry_state_def split: if_split_asm prod.split_asm)
qed

lemma entry_state_spec:
  assumes "rmp_get_addr_entry_state a (p0, e0, s0) X = (SEV_STATUS_SUCCESS, (p, e, s), X')"
    and "xs_skip_rmp X + 1 \<noteq> 0" and "xs_rmp_end X < 2 ^ 51"
  shows "X' = X" and "s = SNP_PAGE_STATE_FIRMWARE \<or> s = SNP_PAGE_STATE_DEFAULT \<Longrightarrow> page_may_be_written X a"
    and "e = e0 \<or> get_rmp_paddr X a 0 = (SEV_STATUS_SUCCESS, p) \<and> e = page_entry X p"
proof -
  obtain st q where g: "get_rmp_paddr X a p0 = (st, q)" by fastforce
  note st = get_rmp_paddr_old [of X a p0, unfolded g]
  consider "st = SEV_STATUS_INVALID_PAGE_STATE" "e = e0" "X' = X"
    | "st = SEV_STATUS_SUCCESS" "p = q" "rmp_entry_read q e0 X = (SEV_STATUS_SUCCESS, e, X')"
      "s = rmp_entry_get_state e"
    using assms(1) g
    by (auto simp: rmp_get_addr_entry_state_def split: if_split_asm prod.split_asm)
  then have "X' = X \<and> (s = SNP_PAGE_STATE_FIRMWARE \<or> s = SNP_PAGE_STATE_DEFAULT \<longrightarrow> page_may_be_written X a) \<and>
    (e = e0 \<or> get_rmp_paddr X a 0 = (SEV_STATUS_SUCCESS, p) \<and> e = page_entry X p)"
  proof cases
    case 1
    then show ?thesis using st(1) by (auto simp: page_may_be_written_def split: prod.split)
  next
    case 2
    have g0: "get_rmp_paddr X a 0 = (SEV_STATUS_SUCCESS, q)" using st(2) 2(1) by simp
    then have "local_get_rmp_paddr X a 0 = (SEV_STATUS_SUCCESS, q)"
      by (auto simp: get_rmp_paddr_def split: if_split_asm)
    note nc = low_address_no_cbit [OF local_rmp_paddr_nat(2) [OF this] assms(3)]
    have "e = page_entry X q" using rmp_read_mem(1) [OF 2(3) nc] by (simp add: page_entry_def)
    moreover have "X' = X" using 2(3) assms(2) by (auto simp: rmp_entry_read_def Let_def split: prod.split_asm)
    moreover have "s \<noteq> SNP_PAGE_STATE_DEFAULT"
      unfolding 2(4) rmp_entry_get_state_def by (simp split: if_split)
    ultimately show ?thesis using g0 2(2,4) by (auto simp: page_may_be_written_def)
  qed
  then show "X' = X" "s = SNP_PAGE_STATE_FIRMWARE \<or> s = SNP_PAGE_STATE_DEFAULT \<Longrightarrow> page_may_be_written X a"
    "e = e0 \<or> get_rmp_paddr X a 0 = (SEV_STATUS_SUCCESS, p) \<and> e = page_entry X p" by blast+
qed

declare firmware_writable_loop.simps [simp del]

lemma writable_loop_covers:
  assumes "firmware_writable_loop a n (p, e, s) X = (SEV_STATUS_SUCCESS, X')"
    and "xs_skip_rmp X + 1 \<noteq> 0" and "xs_rmp_end X < 2 ^ 51" and "rmp_page_size e = 0"
    and "\<forall>b q. get_rmp_paddr X b 0 = (SEV_STATUS_SUCCESS, q) \<longrightarrow> rmp_page_size (page_entry X q) = 0"
  shows "X' = X \<and> (\<forall>k. int k * 4096 < max n 1 \<longrightarrow> page_may_be_written X (a + of_nat k * 4096))"
  using assms
proof (induction "nat n" arbitrary: a n p e s rule: less_induct)
  case less
  obtain st q f t Y where r: "rmp_get_addr_entry_state a (p, e, s) X = (st, (q, f, t), Y)"
    by (metis prod.collapse)
  with less.prems(1) have st: "st = SEV_STATUS_SUCCESS"
    and t: "t = SNP_PAGE_STATE_FIRMWARE \<or> t = SNP_PAGE_STATE_DEFAULT"
    by (simp_all add: firmware_writable_loop.simps [of a n] Let_def split: if_split_asm)
  note sp = entry_state_spec [OF r [unfolded st] less.prems(2,3)]
  have ps: "rmp_page_size f = 0" using sp(3) less.prems(4,5) by auto
  have here: "page_may_be_written X a" by (rule sp(2) [OF t])
  have step: "firmware_writable_loop a n (p, e, s) X =
      (if n - 4096 > 0 then firmware_writable_loop (a + 4096) (n - 4096) (q, f, t) X else (SEV_STATUS_SUCCESS, X))"
    using st t r sp(1) ps
    by (subst firmware_writable_loop.simps) (auto simp: Let_def DRAM_PAGE_SIZE_4K_def PAGE_SIZE_4K_def)
  show ?case
  proof (cases "n - 4096 > 0")
    case True
    then have "nat (n - 4096) < nat n" by simp
    from less.hyps [OF this _ less.prems(2,3) ps less.prems(5)] less.prems(1) step True
    have IH: "X' = X" "int k * 4096 < n - 4096 \<Longrightarrow> page_may_be_written X (a + 4096 + of_nat k * 4096)" for k
      by (auto simp: max_def)
    have "page_may_be_written X (a + of_nat k * 4096)" if "int k * 4096 < max n 1" for k
    proof (cases k)
      case (Suc j)
      then have "int j * 4096 < n - 4096" using that True by simp
      from IH(2) [OF this] show ?thesis by (simp add: Suc algebra_simps)
    qed (simp add: here)
    with IH(1) show ?thesis by blast
  next
    case False
    have "k = 0" if "int k * 4096 < max n 1" for k using that False by (cases k) auto
    with here have "page_may_be_written X (a + of_nat k * 4096)" if "int k * 4096 < max n 1" for k
      using that by (metis add.right_neutral mult_zero_left of_nat_0)
    moreover have "X' = X" using False less.prems(1) step by simp
    ultimately show ?thesis by blast
  qed
qed

text \<open>
  When the check of a command buffer succeeds, every page it looks at, which are those of the
  start address and of each further 4096 bytes up to the length, is a FIRMWARE or a DEFAULT page,
  and the check changes nothing (for a table of 4 KB entries).
\<close>

theorem writable_check_covers_pages:
  assumes "check_page_range_firmware_writable e start n X = (SEV_STATUS_SUCCESS, X')"
    and "xs_skip_rmp X + 1 \<noteq> 0" and "xs_rmp_end X < 2 ^ 51" and "rmp_page_size e = 0"
    and "\<forall>b q. get_rmp_paddr X b 0 = (SEV_STATUS_SUCCESS, q) \<longrightarrow> rmp_page_size (page_entry X q) = 0"
  shows "X' = X \<and> (\<forall>k. k * 4096 < unat n \<longrightarrow> page_may_be_written X (start + of_nat k * 4096))"
proof -
  from writable_loop_covers [OF assms(1) [unfolded check_page_range_firmware_writable_def] assms(2-5)]
  have "X' = X" and all: "int k * 4096 < max (int (unat n)) 1 \<Longrightarrow> page_may_be_written X (start + of_nat k * 4096)" for k
    by blast+
  moreover have "int k * 4096 < max (int (unat n)) 1" if "k * 4096 < unat n" for k
  proof -
    have "int (k * 4096) < int (unat n)" using that by (simp only: of_nat_less_iff)
    then show ?thesis by (simp only: of_nat_mult of_nat_numeral less_max_iff_disj simp_thms)
  qed
  ultimately show ?thesis by blast
qed

text \<open>
  A buffer of at most 4096 bytes is checked by its first page alone: when that is a FIRMWARE
  page of 4 KB the check succeeds, even if the buffer does not start at a page boundary and its
  end lies in a next page of any state.
\<close>

theorem short_buffer_checks_one_page:
  assumes "rmp_get_addr_entry_state start (0, e, SNP_PAGE_STATE_INVALID) X =
      (SEV_STATUS_SUCCESS, (p, f, SNP_PAGE_STATE_FIRMWARE), X')"
    and "rmp_page_size f = DRAM_PAGE_SIZE_4K" and "unat n \<le> 4096"
  shows "check_page_range_firmware_writable e start n X = (SEV_STATUS_SUCCESS, X')"
proof -
  have "\<not> int (unat n) - 4096 > 0" using assms(3) by linarith
  then show ?thesis
    unfolding check_page_range_firmware_writable_def firmware_writable_loop.simps [of start]
    using assms(1,2) by (simp only: Let_def prod.case) (simp add: PAGE_SIZE_4K_def)
qed


section \<open>Witnesses\<close>

text \<open>The machine of the witnesses of the address check, with memory \<open>m\<close>.\<close>

definition demo_rmp :: "bytes_mem \<Rightarrow> u32 \<Rightarrow> x86" where
  "demo_rmp m k = demo_x86\<lparr>xs_mem := m, xs_skip_rmp := k\<rparr>"

lemma demo_rmp_fields [simp]:
  "xs_mem (demo_rmp m k) = m" "xs_rmp_base (demo_rmp m k) = 0x20000000"
  "xs_rmp_end (demo_rmp m k) = 0x200FFFFF" "xs_skip_rmp (demo_rmp m k) = k"
  "xs_map (demo_rmp m k) a = SEV_STATUS_SUCCESS" "(demo_rmp m k)\<lparr>xs_mem := m'\<rparr> = demo_rmp m' k"
  "skip_rmp_addr_check True (demo_rmp m k) = demo_rmp m (k + 1)"
  "k > 0 \<Longrightarrow> skip_rmp_addr_check False (demo_rmp m k) = demo_rmp m (k - 1)"
  by (simp_all add: demo_rmp_def demo_x86_def skip_rmp_addr_check_def)

lemmas demo_consts = SEV_CBIT_MASK_def SEV_CBIT_SHIFT_def CLEAR_CBIT_def CBIT_IS_SET_def
  RMP_ASID_COUNTERS_SIZE_def RMP_ENTRY_SIZE_def ALIGNMENT_BITS_4K_def

lemma demo_rmp_validate:
  "k > 0 \<Longrightarrow> validate_address_range (demo_rmp m k) 0x20004010 4 = SEV_STATUS_SUCCESS"
  "k > 0 \<Longrightarrow> validate_address_range (demo_rmp m k) 0x20004010 16 = SEV_STATUS_SUCCESS"
  "k > 0 \<Longrightarrow> validate_address_range (demo_rmp m k) 0x20004014 4 = SEV_STATUS_SUCCESS"
  "k > 0 \<Longrightarrow> validate_address_range (demo_rmp m k) 0x20004018 8 = SEV_STATUS_SUCCESS"
  by (simp_all add: validate_address_range_def demo_rmp_def demo_x86_def SEV_CBIT_MASK_def SEV_CBIT_SHIFT_def
      Let_def asid_bits_set_def SEV_ASID_ADDR_MASK_def X86_MAX_PHYS_ADDR_def X86_HYPER_TRANSPORT_AREA_def
      range_overlaps_aseg_def ranges_overlap_def CLEAR_CBIT_def rb_ranges_def demo_rb_off_def
      TMR_NR_MAX_def SNP_RMP_CPU_TMR_def SNP_RMP_IOMMU_TMR_def upt_rec validate_memory_map_def)

lemma demo_rmp_copies:
  "k > 0 \<Longrightarrow> length bs = 4 \<Longrightarrow> copy_to_x86 0x20004010 bs (demo_rmp m k) =
     (SEV_STATUS_SUCCESS, demo_rmp (write_bytes m 0x20004010 bs) k)"
  "k > 0 \<Longrightarrow> length bs = 4 \<Longrightarrow> copy_to_x86 0x20004014 bs (demo_rmp m k) =
     (SEV_STATUS_SUCCESS, demo_rmp (write_bytes m 0x20004014 bs) k)"
  "k > 0 \<Longrightarrow> length bs = 8 \<Longrightarrow> copy_to_x86 0x20004018 bs (demo_rmp m k) =
     (SEV_STATUS_SUCCESS, demo_rmp (write_bytes m 0x20004018 bs) k)"
  "k > 0 \<Longrightarrow> copy_from_x86 0x20004010 bs' 16 (demo_rmp m k) =
     (SEV_STATUS_SUCCESS, read_bytes m 0x20004010 16)"
  by (simp_all add: copy_to_x86_def copy_from_x86_def x86_copy_def window_check_def X86_64MB_MASK_def
      X86_64MB_SIZE_def demo_rmp_validate demo_consts copy_out_def copy_in_def Let_def)

theorem firmware_page_transitions_witness:
  "rmp_entry_get_state (set_vmsa 1 \<lparr>q1 = 5, q2 = 0\<rparr>) = SNP_PAGE_STATE_CONTEXT"
proof -
  have "rmp_entry_get_state \<lparr>q1 = 5, q2 = 0\<rparr> = SNP_PAGE_STATE_FIRMWARE"
    by (simp add: rmp_entry_get_state_def entry_fields get_field_def)
  then show ?thesis using firmware_page_transitions [of "\<lparr>q1 = 5, q2 = 0\<rparr>"] by blast
qed

theorem rmp_entries_are_disjoint_witness:
  "unat (0x20004010 :: u64) + 16 \<le> unat (0x20004020 :: u64)"
proof -
  have "get_rmp_paddr (demo_rmp m k) 0x1000 0 = (SEV_STATUS_SUCCESS, 0x20004010)"
    "get_rmp_paddr (demo_rmp m k) 0x2000 0 = (SEV_STATUS_SUCCESS, 0x20004020)" for m k
    by (simp_all add: get_rmp_paddr_def local_get_rmp_paddr_def Let_def demo_consts)
  from rmp_entries_are_disjoint [OF this] show ?thesis by (simp add: demo_consts)
qed

text \<open>While the firmware writes a FIRMWARE page back, the cores set the subpage count to 1.\<close>

theorem rmp_entry_write_keeps_subpage_count_witness:
  "\<exists>X'. rmp_entry_write (\<lambda>_. True) (\<lambda>Y. Y\<lparr>xs_mem := (xs_mem Y)(0x20004010 := 8)\<rparr>) 0x20004010
     \<lparr>q1 = 5, q2 = 0\<rparr> (demo_rmp (\<lambda>_. 0) 0) = (SEV_STATUS_SUCCESS, \<lparr>q1 = 13, q2 = 0\<rparr>, X') \<and>
     entry_of_bytes (read_bytes (xs_mem X') 0x20004010 16) = \<lparr>q1 = 13, q2 = 0\<rparr>"
proof -
  let ?m = "(\<lambda>_. 0)(0x20004010 := 8) :: bytes_mem" and ?e = "\<lparr>q1 = 5, q2 = 0\<rparr>"
  let ?w = "rmp_entry_write (\<lambda>_. True) (\<lambda>Y. Y\<lparr>xs_mem := (xs_mem Y)(0x20004010 := 8)\<rparr>) 0x20004010 ?e (demo_rmp (\<lambda>_. 0) 0)"
  have ps: "rmp_page_size ?e = DRAM_PAGE_SIZE_4K"
    by (simp add: rmp_page_size_def get_field_def DRAM_PAGE_SIZE_4K_def)
  have "fst ?w = SEV_STATUS_SUCCESS"
    by (simp add: rmp_entry_write_def ps rmp_entry_write_locked_def rmp_entry_read_def Let_def
        demo_rmp_copies RMP_ENTRY_SIZE_def del: fun_upd_apply)
  then obtain e' X' where w: "?w = (SEV_STATUS_SUCCESS, e', X')" by (cases ?w) auto
  note r = rmp_entry_write_keeps_subpage_count [OF w [folded fun_upd_def], where locked = True and m = ?m]
  have "entry_of_bytes (read_bytes ?m 0x20004010 16) = \<lparr>q1 = 8, q2 = 0\<rparr>"
    by (simp add: entry_of_bytes_def read_bytes_def upt_rec)
  then have "e' = \<lparr>q1 = 13, q2 = 0\<rparr>"
    using r ps by (simp add: demo_consts set_subpage_count_def put_field_def rmp_subpage_count_def get_field_def
        mask_eq_exp_minus_1)
  moreover have "entry_of_bytes (read_bytes (xs_mem X') 0x20004010 16) = e'"
    using r ps by (simp add: demo_consts)
  ultimately show ?thesis using w by blast
qed

text \<open>Pages behind those that the table covers are DEFAULT pages.\<close>

theorem writable_check_covers_pages_witness:
  "page_may_be_written (demo_rmp (\<lambda>_. 0) 0) (0x1F000000 + of_nat 1 * 4096)"
proof -
  let ?e = "\<lparr>q1 = 0, q2 = 0\<rparr>" and ?X = "demo_rmp (\<lambda>_. 0) 0"
  have z: "page_entry ?X q = ?e" for q
    by (simp add: page_entry_def entry_of_bytes_def read_bytes_def upt_rec)
  have ps: "rmp_page_size ?e = 0" by (simp add: rmp_page_size_def get_field_def)
  have d: "rmp_get_addr_entry_state a (p, e, s) ?X = (SEV_STATUS_SUCCESS, (0, e, SNP_PAGE_STATE_DEFAULT), ?X)"
    if "a = 0x1F000000 \<or> a = 0x1F001000" for a p e s
    using that by (auto simp: rmp_get_addr_entry_state_def get_rmp_paddr_def local_get_rmp_paddr_def Let_def demo_consts)
  have "check_page_range_firmware_writable ?e 0x1F000000 0x2000 ?X = (SEV_STATUS_SUCCESS, ?X)"
    unfolding check_page_range_firmware_writable_def
    by (simp add: firmware_writable_loop.simps [of "0x1F000000"] firmware_writable_loop.simps [of "0x1F001000"]
        d ps PAGE_SIZE_4K_def DRAM_PAGE_SIZE_4K_def)
  from writable_check_covers_pages [OF this] z ps
  have "\<forall>k. k * 4096 < unat (0x2000 :: u32) \<longrightarrow> page_may_be_written ?X (0x1F000000 + of_nat k * 4096)" by simp
  from this [rule_format, of 1] show ?thesis by simp
qed

text \<open>A buffer of 32 bytes from 16 bytes below the end of a FIRMWARE page passes, although its
  second half is in a page of the hypervisor.\<close>

theorem short_buffer_checks_one_page_witness:
  "check_page_range_firmware_writable \<lparr>q1 = 0, q2 = 0\<rparr> 0x1FF0 0x20 (demo_rmp ((\<lambda>_. 0)(0x20004010 := 5)) 0) =
     (SEV_STATUS_SUCCESS, demo_rmp ((\<lambda>_. 0)(0x20004010 := 5)) 0) \<and>
   \<not> page_may_be_written (demo_rmp ((\<lambda>_. 0)(0x20004010 := 5)) 0) 0x2000"
proof -
  let ?m = "(\<lambda>_. 0)(0x20004010 := 5) :: bytes_mem" and ?f = "\<lparr>q1 = 5, q2 = 0\<rparr>"
  have f: "entry_of_bytes (read_bytes ?m 0x20004010 16) = ?f"
    by (simp add: entry_of_bytes_def read_bytes_def upt_rec)
  have st: "rmp_entry_get_state ?f = SNP_PAGE_STATE_FIRMWARE"
    by (simp add: rmp_entry_get_state_def entry_fields get_field_def)
  have g: "get_rmp_paddr (demo_rmp ?m 0) 0x1FF0 0 = (SEV_STATUS_SUCCESS, 0x20004010)"
    "get_rmp_paddr (demo_rmp ?m 0) 0x2000 0 = (SEV_STATUS_SUCCESS, 0x20004020)"
    by (simp_all add: get_rmp_paddr_def local_get_rmp_paddr_def Let_def demo_consts)
  have h: "rmp_entry_get_state (page_entry (demo_rmp ?m 0) 0x20004020) = SNP_PAGE_STATE_HYPERVISOR"
    by (simp add: page_entry_def entry_of_bytes_def read_bytes_def upt_rec rmp_entry_get_state_def entry_fields
        get_field_def)
  have r: "rmp_get_addr_entry_state 0x1FF0 (0, \<lparr>q1 = 0, q2 = 0\<rparr>, SNP_PAGE_STATE_INVALID) (demo_rmp ?m 0) =
      (SEV_STATUS_SUCCESS, (0x20004010, ?f, SNP_PAGE_STATE_FIRMWARE), demo_rmp ?m 0)"
    unfolding rmp_get_addr_entry_state_def prod.case g
    by (simp add: rmp_entry_read_def Let_def RMP_ENTRY_SIZE_def demo_rmp_copies f st del: fun_upd_apply)
  have "rmp_page_size ?f = DRAM_PAGE_SIZE_4K" by (simp add: rmp_page_size_def get_field_def DRAM_PAGE_SIZE_4K_def)
  from short_buffer_checks_one_page [OF r this, where n = "0x20"] g(2) h show ?thesis by (simp add: page_may_be_written_def)
qed

end
