(* ===== verification/Sev_DfRegs.thy ===== *)
theory Sev_DfRegs
  imports Sev_Prelude
begin

text \<open>
  The data fabric (\<open>df_regs.c\<close>): direct, indirect and broadcast access to its registers, the
  C-state lock, the registers of the trusted memory regions (TMRs), the PSP mode register.

  A register is named by its function and offset; their encoding as an SMN address comes from a
  header outside the repository. The \<open>n\<close>-th access of the history of the die finds its register
  mapped with the status \<open>df_map n\<close>, and the \<open>n\<close>-th message to the system management unit, or
  command to the other die, ends with \<open>df_smu n\<close>, \<open>df_slave n\<close>; \<open>df_tick\<close> counts them, so that
  every pattern of failures is a value of these functions. \<open>df_ind\<close> holds the registers that
  the fabric shows in FICAD for an address written to FICAA.
\<close>

section \<open>Registers\<close>

record df =
  df_reg :: "u32 \<times> u32 \<Rightarrow> u32"
  df_ind :: "u32 \<Rightarrow> u64"
  df_tick :: nat
  df_map :: "nat \<Rightarrow> sev_status"
  df_smu :: "nat \<Rightarrow> bool"
  df_slave :: "nat \<Rightarrow> sev_status"
  df_awake :: bool
  df_slave_awake :: bool

datatype df_reg_op = DF_REG_OP_READ32 | DF_REG_OP_READ64 | DF_REG_OP_WRITE32 | DF_REG_OP_WRITE64

definition FCAC_FUNC :: u32 where "FCAC_FUNC = 4"
definition FCAC_OFFSET :: u32 where "FCAC_OFFSET = 0x40"
definition FCAC_INSTANCE_ID_SHIFT :: nat where "FCAC_INSTANCE_ID_SHIFT = 16"
definition FCAC_INSTANCE_ID_MASK :: u32 where
  "FCAC_INSTANCE_ID_MASK = push_bit FCAC_INSTANCE_ID_SHIFT 0xFF"
definition FCAC_INSTANCE_LOCK_MASK :: u32 where "FCAC_INSTANCE_LOCK_MASK = push_bit 1 1"
definition FCAC_INSTANCE_EN_MASK :: u32 where "FCAC_INSTANCE_EN_MASK = push_bit 0 1"
definition FCAC_ALL_FLAGS_MASK :: u32 where
  "FCAC_ALL_FLAGS_MASK = FCAC_INSTANCE_LOCK_MASK AND FCAC_INSTANCE_EN_MASK"
definition FICAA_FUNC :: u32 where "FICAA_FUNC = 4"
definition FICAA_OFFSET :: u32 where "FICAA_OFFSET = 0x80"
definition FICAA_INSTANCE_SHIFT :: nat where "FICAA_INSTANCE_SHIFT = 16"
definition FICAA_INSTANCE_MASK :: u32 where "FICAA_INSTANCE_MASK = push_bit FICAA_INSTANCE_SHIFT 0xFF"
definition FICAA_64BIT_FLAG :: u32 where "FICAA_64BIT_FLAG = push_bit 14 1"
definition FICAA_FUNCTION_SHIFT :: nat where "FICAA_FUNCTION_SHIFT = 11"
definition FICAA_FUNCTION_MASK :: u32 where "FICAA_FUNCTION_MASK = push_bit FICAA_FUNCTION_SHIFT 7"
definition FICAA_REG_NUM_SHIFT :: nat where "FICAA_REG_NUM_SHIFT = 1"
definition FICAA_REG_NUM_MASK :: u32 where "FICAA_REG_NUM_MASK = push_bit FICAA_REG_NUM_SHIFT 0x3FF"
definition FICAA_SINGLE_FLAG :: u32 where "FICAA_SINGLE_FLAG = push_bit 0 1"
definition FICAD_FUNC :: u32 where "FICAD_FUNC = 4"
definition FICAD_OFFSET :: u32 where "FICAD_OFFSET = 0xA0"
definition PSP_MISC_MODE_FUNC :: u32 where "PSP_MISC_MODE_FUNC = 6"
definition PSP_MISC_MODE_OFFSET :: u32 where "PSP_MISC_MODE_OFFSET = 0x408"
definition FTI_SEC_LVL_MAP_REG_FUNC :: u32 where "FTI_SEC_LVL_MAP_REG_FUNC = 6"
definition FTI_SEC_LVL_MAP_REG_OFFSET :: u32 where "FTI_SEC_LVL_MAP_REG_OFFSET = 0xDD0"
definition CSTATE_CONTROL_FUNC :: u32 where "CSTATE_CONTROL_FUNC = 5"
definition CSTATE_CONTROL_OFFSET :: u32 where "CSTATE_CONTROL_OFFSET = 0x300"
definition CSTATE_CONTROL_CLIENTS_IDLE_FLAG :: u32 where "CSTATE_CONTROL_CLIENTS_IDLE_FLAG = push_bit 1 1"
definition CCM0_INSTANCE_ID :: u32 where "CCM0_INSTANCE_ID = 16"

definition is_ficaa :: "u32 \<Rightarrow> u32 \<Rightarrow> bool" where
  "is_ficaa f offset \<longleftrightarrow> f = FICAA_FUNC \<and> offset = FICAA_OFFSET"
definition is_ficad :: "u32 \<Rightarrow> u32 \<Rightarrow> bool" where
  "is_ficad f offset \<longleftrightarrow> f = FICAD_FUNC \<and> offset = FICAD_OFFSET"

text \<open>What the hardware does on a read and on a write of 32 or 64 bits.\<close>

definition hw_read32 :: "u32 \<Rightarrow> u32 \<Rightarrow> df \<Rightarrow> u32" where
  "hw_read32 f offset D =
     (if is_ficad f offset then ucast (df_ind D (df_reg D (FICAA_FUNC, FICAA_OFFSET)))
      else df_reg D (f, offset))"

definition hw_read64 :: "u32 \<Rightarrow> u32 \<Rightarrow> df \<Rightarrow> u64" where
  "hw_read64 f offset D =
     (if is_ficad f offset then df_ind D (df_reg D (FICAA_FUNC, FICAA_OFFSET))
      else ucast (df_reg D (f, offset)) OR push_bit 32 (ucast (df_reg D (f, offset + 4))))"

definition hw_write32 :: "u32 \<Rightarrow> u32 \<Rightarrow> u32 \<Rightarrow> df \<Rightarrow> df" where
  "hw_write32 f offset v D =
     (if is_ficad f offset
      then D\<lparr>df_ind := (df_ind D)(df_reg D (FICAA_FUNC, FICAA_OFFSET) := ucast v)\<rparr>
      else D\<lparr>df_reg := (df_reg D)((f, offset) := v)\<rparr>)"

definition hw_write64 :: "u32 \<Rightarrow> u32 \<Rightarrow> u64 \<Rightarrow> df \<Rightarrow> df" where
  "hw_write64 f offset v D =
     (if is_ficad f offset
      then D\<lparr>df_ind := (df_ind D)(df_reg D (FICAA_FUNC, FICAA_OFFSET) := v)\<rparr>
      else D\<lparr>df_reg := (df_reg D)((f, offset) := ucast v, (f, offset + 4) := ucast (drop_bit 32 v))\<rparr>)"

definition tick :: "df \<Rightarrow> df" where
  "tick D = D\<lparr>df_tick := Suc (df_tick D)\<rparr>"

section \<open>Access\<close>

text \<open>The variable behind the pointer \<open>value\<close> has 64 bits; a 32-bit read changes its low half.\<close>

definition access_df_reg_direct ::
  "u32 \<Rightarrow> u32 \<Rightarrow> u64 option \<Rightarrow> df_reg_op \<Rightarrow> df \<Rightarrow> sev_status \<times> u64 option \<times> df" where
  "access_df_reg_direct f offset value op D =
     (case value of
        None \<Rightarrow> (ERR_INVALID_PARAMS, None, D)
      | Some v \<Rightarrow>
          let status = df_map D (df_tick D); D1 = tick D
          in if status \<noteq> SEV_STATUS_SUCCESS then (status, Some v, D1)
             else
               (case op of
                  DF_REG_OP_READ32 \<Rightarrow>
                    (SEV_STATUS_SUCCESS, Some (push_bit 32 (drop_bit 32 v) OR ucast (hw_read32 f offset D)), D1)
                | DF_REG_OP_WRITE32 \<Rightarrow> (SEV_STATUS_SUCCESS, Some v, hw_write32 f offset (ucast v) D1)
                | DF_REG_OP_READ64 \<Rightarrow> (SEV_STATUS_SUCCESS, Some (hw_read64 f offset D), D1)
                | DF_REG_OP_WRITE64 \<Rightarrow> (SEV_STATUS_SUCCESS, Some v, hw_write64 f offset v D1)))"

text \<open>The 32-bit accesses with a variable of 32 bits.\<close>

definition read32 :: "u32 \<Rightarrow> u32 \<Rightarrow> u32 \<Rightarrow> df \<Rightarrow> sev_status \<times> u32 \<times> df" where
  "read32 f offset v D =
     (case access_df_reg_direct f offset (Some (ucast v)) DF_REG_OP_READ32 D of
        (status, v', D') \<Rightarrow> (status, ucast (the v'), D'))"

definition write32 :: "u32 \<Rightarrow> u32 \<Rightarrow> u32 \<Rightarrow> df \<Rightarrow> sev_status \<times> df" where
  "write32 f offset v D =
     (case access_df_reg_direct f offset (Some (ucast v)) DF_REG_OP_WRITE32 D of
        (status, _, D') \<Rightarrow> (status, D'))"

definition write_ficaa :: "u32 \<Rightarrow> u32 \<Rightarrow> u32 \<Rightarrow> u32 \<Rightarrow> df \<Rightarrow> sev_status \<times> df" where
  "write_ficaa inst f offset flags D =
     (let reg_index = offset div 4;
          value = (push_bit FICAA_INSTANCE_SHIFT inst AND FICAA_INSTANCE_MASK) OR
                  (push_bit FICAA_FUNCTION_SHIFT f AND FICAA_FUNCTION_MASK) OR
                  (push_bit FICAA_REG_NUM_SHIFT reg_index AND FICAA_REG_NUM_MASK) OR flags
      in write32 FICAA_FUNC FICAA_OFFSET value D)"

definition access_df_reg_indirect ::
  "u8 \<Rightarrow> u32 \<Rightarrow> u32 \<Rightarrow> u32 \<Rightarrow> u64 option \<Rightarrow> df_reg_op \<Rightarrow> df \<Rightarrow> sev_status \<times> u64 option \<times> df" where
  "access_df_reg_indirect inst f offset flags value op D =
     (if is_ficaa f offset \<or> is_ficad f offset then (ERR_INVALID_PARAMS, value, D)
      else if value = None then (ERR_INVALID_PARAMS, value, D)
      else
        let (status, D1) = write_ficaa (ucast inst) f offset flags D
        in if status \<noteq> SEV_STATUS_SUCCESS then (status, value, D1)
           else access_df_reg_direct FICAD_FUNC FICAD_OFFSET value op D1)"

text \<open>The instance is not used for 32-bit registers.\<close>

definition read_df_reg32 :: "u32 \<Rightarrow> u32 \<Rightarrow> u32 \<Rightarrow> u32 \<Rightarrow> df \<Rightarrow> sev_status \<times> u32 \<times> df" where
  "read_df_reg32 inst f offset value D = read32 f offset value D"

definition read_df_reg64 :: "u32 \<Rightarrow> u32 \<Rightarrow> u32 \<Rightarrow> u64 option \<Rightarrow> df \<Rightarrow> sev_status \<times> u64 option \<times> df" where
  "read_df_reg64 inst f offset value D =
     access_df_reg_indirect (ucast inst) f offset (FICAA_SINGLE_FLAG OR FICAA_64BIT_FLAG) value
       DF_REG_OP_READ64 D"

definition write_df_reg32 :: "u32 \<Rightarrow> u32 \<Rightarrow> u32 \<Rightarrow> u32 \<Rightarrow> df \<Rightarrow> sev_status \<times> df" where
  "write_df_reg32 inst f offset value D = write32 f offset value D"

definition write_df_reg64 :: "u32 \<Rightarrow> u32 \<Rightarrow> u32 \<Rightarrow> u64 \<Rightarrow> df \<Rightarrow> sev_status \<times> df" where
  "write_df_reg64 inst f offset value D =
     (case access_df_reg_indirect (ucast inst) f offset (FICAA_SINGLE_FLAG OR FICAA_64BIT_FLAG) (Some value)
         DF_REG_OP_WRITE64 D of (status, _, D') \<Rightarrow> (status, D'))"

section \<open>Broadcast\<close>

text \<open>The outputs are the instance and the flags.\<close>

definition read_fcac :: "df \<Rightarrow> sev_status \<times> (u32 \<times> u32) \<times> df" where
  "read_fcac D =
     (case read32 FCAC_FUNC FCAC_OFFSET 0 D of (status, value, D1) \<Rightarrow>
        if status \<noteq> SEV_STATUS_SUCCESS then (status, (0, 0), D1)
        else (SEV_STATUS_SUCCESS,
              (drop_bit FCAC_INSTANCE_ID_SHIFT (value AND FCAC_INSTANCE_ID_MASK), value AND FCAC_ALL_FLAGS_MASK), D1))"

definition write_fcac :: "u32 \<Rightarrow> u32 \<Rightarrow> df \<Rightarrow> sev_status \<times> df" where
  "write_fcac inst flags D =
     write32 FCAC_FUNC FCAC_OFFSET
       ((push_bit FCAC_INSTANCE_ID_SHIFT inst AND FCAC_INSTANCE_ID_MASK) OR (flags AND FCAC_ALL_FLAGS_MASK)) D"

definition enable_broadcast_mode :: "df \<Rightarrow> sev_status \<times> df" where
  "enable_broadcast_mode D =
     (case read_fcac D of (status, (inst, flags), D1) \<Rightarrow>
        if status \<noteq> SEV_STATUS_SUCCESS then (status, D1)
        else if flags AND FCAC_INSTANCE_LOCK_MASK > 0 then (SEV_STATUS_SUCCESS, D1)
        else write_fcac inst (flags AND NOT FCAC_INSTANCE_EN_MASK) D1)"

definition access_df_reg_bcast32 ::
  "u32 \<Rightarrow> u32 \<Rightarrow> u32 \<Rightarrow> df_reg_op \<Rightarrow> df \<Rightarrow> sev_status \<times> u32 \<times> df" where
  "access_df_reg_bcast32 f offset value op D =
     (case enable_broadcast_mode D of (status, D1) \<Rightarrow>
        if status \<noteq> SEV_STATUS_SUCCESS then (status, value, D1)
        else case access_df_reg_direct f offset (Some (ucast value)) op D1 of
               (status, v, D2) \<Rightarrow> (status, ucast (the v), D2))"

definition read_df_reg_bcast32 :: "u32 \<Rightarrow> u32 \<Rightarrow> u32 \<Rightarrow> df \<Rightarrow> sev_status \<times> u32 \<times> df" where
  "read_df_reg_bcast32 f offset value D = access_df_reg_bcast32 f offset value DF_REG_OP_READ32 D"

definition write_df_reg_bcast32 :: "u32 \<Rightarrow> u32 \<Rightarrow> u32 \<Rightarrow> df \<Rightarrow> sev_status \<times> df" where
  "write_df_reg_bcast32 f offset value D =
     (case access_df_reg_bcast32 f offset value DF_REG_OP_WRITE32 D of (status, _, D') \<Rightarrow> (status, D'))"

definition set_psp_misc_mode :: "u32 \<Rightarrow> df \<Rightarrow> sev_status \<times> df" where
  "set_psp_misc_mode flags D = write_df_reg_bcast32 PSP_MISC_MODE_FUNC PSP_MISC_MODE_OFFSET flags D"

definition get_psp_misc_mode :: "u32 \<Rightarrow> df \<Rightarrow> sev_status \<times> u32 \<times> df" where
  "get_psp_misc_mode flags D = read_df_reg_bcast32 PSP_MISC_MODE_FUNC PSP_MISC_MODE_OFFSET flags D"

section \<open>The C-state lock\<close>

text \<open>\<open>df_awake\<close> records the last message to the system management unit: C-states are disabled.\<close>

definition sev_hal_df_acquire :: "df \<Rightarrow> sev_status \<times> df" where
  "sev_hal_df_acquire D =
     (if df_smu D (df_tick D) then (SEV_STATUS_SUCCESS, (tick D)\<lparr>df_awake := True\<rparr>)
      else (ERR_OUT_OF_RESOURCES, tick D))"

definition sev_hal_df_release :: "df \<Rightarrow> sev_status \<times> df" where
  "sev_hal_df_release D =
     (if df_smu D (df_tick D) then (SEV_STATUS_SUCCESS, (tick D)\<lparr>df_awake := False\<rparr>)
      else (ERR_OUT_OF_RESOURCES, tick D))"

text \<open>A command to the other die; on success that die has executed it.\<close>

definition slave_df :: "bool \<Rightarrow> df \<Rightarrow> sev_status \<times> df" where
  "slave_df on D =
     (let status = df_slave D (df_tick D)
      in (status, if status = SEV_STATUS_SUCCESS then (tick D)\<lparr>df_slave_awake := on\<rparr> else tick D))"

definition get_cstate_control :: "df \<Rightarrow> sev_status \<times> u32 \<times> df" where
  "get_cstate_control D = read32 CSTATE_CONTROL_FUNC CSTATE_CONTROL_OFFSET 0 D"

definition all_clients_idle :: "u32 \<Rightarrow> bool" where
  "all_clients_idle flags \<longleftrightarrow> flags AND CSTATE_CONTROL_CLIENTS_IDLE_FLAG > 0"

definition df_access_lock :: "nat \<Rightarrow> nat \<Rightarrow> df \<Rightarrow> sev_status \<times> df" where
  "df_access_lock die dies D =
     (if die \<noteq> 0 then (SEV_STATUS_SUCCESS, D)
      else
        case sev_hal_df_acquire D of (status, D1) \<Rightarrow>
          if status \<noteq> SEV_STATUS_SUCCESS then (status, D1)
          else
            case get_cstate_control D1 of (status, flags, D2) \<Rightarrow>
              if status \<noteq> SEV_STATUS_SUCCESS then (status, D2)
              else if all_clients_idle flags then (SEV_STATUS_HARDWARE_PLATFORM, D2)
              else if dies > 1 then slave_df True D2 else (SEV_STATUS_SUCCESS, D2))"

definition df_access_unlock :: "nat \<Rightarrow> nat \<Rightarrow> df \<Rightarrow> sev_status \<times> df" where
  "df_access_unlock die dies D =
     (if die \<noteq> 0 then (SEV_STATUS_SUCCESS, D)
      else
        case sev_hal_df_release D of (status, D1) \<Rightarrow>
          if status \<noteq> SEV_STATUS_SUCCESS then (status, D1)
          else if dies > 1 then slave_df False D1 else (SEV_STATUS_SUCCESS, D1))"

end
