(* ===== verification/Sev_Tmr.thy ===== *)
theory Sev_Tmr
  imports Sev_DfRegs
begin

text \<open>
  Trusted memory regions: their registers in the data fabric (\<open>df_regs.c\<close>), the cache of them
  that each die keeps (\<open>tmr_cache.c\<close>), the operations of the hardware layer (\<open>sev_hal.c\<close>), the
  slave commands (\<open>sev_scmd.c\<close>, \<open>sev_dispatch.c\<close>) and the operations on both dies (\<open>sev_tmr.c\<close>).
\<close>

section \<open>Registers of a region\<close>

definition DF_TMR_FUNC :: u32 where "DF_TMR_FUNC = 7"
definition TMR_BASE_ADDR_OFFSET :: u32 where "TMR_BASE_ADDR_OFFSET = 0xA00"
definition TMR_LIMIT_ADDR_OFFSET :: u32 where "TMR_LIMIT_ADDR_OFFSET = 0xA04"
definition TMR_CTL_OFFSET :: u32 where "TMR_CTL_OFFSET = 0xA08"
definition TMR_FIDA_OFFSET :: u32 where "TMR_FIDA_OFFSET = 0xA0C"
definition TMR_FIDB_OFFSET :: u32 where "TMR_FIDB_OFFSET = 0xA10"
definition TMR_EXT_ADDR_OFFSET :: u32 where "TMR_EXT_ADDR_OFFSET = 0xA14"
definition TMR_OFFSET :: u32 where "TMR_OFFSET = 0x18"
definition TMR_TRUST_LVL_SHIFT :: nat where "TMR_TRUST_LVL_SHIFT = 17"
definition TMR_TRUST_LVL_MASK :: u32 where "TMR_TRUST_LVL_MASK = push_bit TMR_TRUST_LVL_SHIFT 7"
definition TMR_X86_PHYS_ADDR_SHIFT :: nat where "TMR_X86_PHYS_ADDR_SHIFT = 16"
definition TMR_ADDR_MASK :: u64 where "TMR_ADDR_MASK = push_bit TMR_X86_PHYS_ADDR_SHIFT 0xFFFFFFFF"
definition TMR_EXT_SHIFT :: nat where "TMR_EXT_SHIFT = 48"
definition TMR_EXT_MASK :: u64 where "TMR_EXT_MASK = push_bit TMR_EXT_SHIFT 0xFF"
definition TMR_BASE_ADDR_EXT_SHIFT :: nat where "TMR_BASE_ADDR_EXT_SHIFT = 0"
definition TMR_BASE_ADDR_EXT_MASK :: u64 where "TMR_BASE_ADDR_EXT_MASK = push_bit TMR_BASE_ADDR_EXT_SHIFT 0xFF"
definition TMR_LIMIT_ADDR_EXT_SHIFT :: nat where "TMR_LIMIT_ADDR_EXT_SHIFT = 16"
definition TMR_LIMIT_ADDR_EXT_MASK :: u64 where
  "TMR_LIMIT_ADDR_EXT_MASK = push_bit TMR_LIMIT_ADDR_EXT_SHIFT 0xFF"
definition TMR_CTRL_VALID_FLAG :: u32 where "TMR_CTRL_VALID_FLAG = push_bit 0 1"
definition TMR_CTRL_UNIT_ID0_VAL_FLAG :: u32 where "TMR_CTRL_UNIT_ID0_VAL_FLAG = push_bit 5 1"
definition TMR_CTRL_UNIT_ID1_VAL_FLAG :: u32 where "TMR_CTRL_UNIT_ID1_VAL_FLAG = push_bit 7 1"
definition TMPM_UNIT_ID :: u32 where "TMPM_UNIT_ID = 0x3D"
definition TMPM_UNIT_ID_DMA :: u32 where "TMPM_UNIT_ID_DMA = 0x3A"
definition TMR_FIDA_UNIT_ID_SHIFT :: nat where "TMR_FIDA_UNIT_ID_SHIFT = 16"
definition TMR_FIDB_UNIT_ID_SHIFT :: nat where "TMR_FIDB_UNIT_ID_SHIFT = 16"
definition SNP_RMP_TMPM_TMR :: u32 where "SNP_RMP_TMPM_TMR = 7"
definition TMR_LAST :: u32 where "TMR_LAST = 7"

definition write_tmr_reg :: "u32 \<Rightarrow> u32 \<Rightarrow> u32 \<Rightarrow> df \<Rightarrow> sev_status \<times> df" where
  "write_tmr_reg index offset value D = write_df_reg32 index DF_TMR_FUNC (offset + index * TMR_OFFSET) value D"

definition read_tmr_reg :: "u32 \<Rightarrow> u32 \<Rightarrow> u32 option \<Rightarrow> df \<Rightarrow> sev_status \<times> u32 option \<times> df" where
  "read_tmr_reg index offset value D =
     (case value of
        None \<Rightarrow> (ERR_INVALID_PARAMS, None, D)
      | Some v \<Rightarrow>
          case read_df_reg32 index DF_TMR_FUNC (offset + index * TMR_OFFSET) v D of
            (status, v', D') \<Rightarrow> (status, Some v', D'))"

text \<open>The registers are read in this order, up to the first failure.\<close>

fun read_tmr_regs :: "u32 \<Rightarrow> u32 list \<Rightarrow> df \<Rightarrow> sev_status \<times> u32 list \<times> df" where
  "read_tmr_regs index [] D = (SEV_STATUS_SUCCESS, [], D)"
| "read_tmr_regs index (off # offs) D =
     (case read_tmr_reg index off (Some 0) D of (status, v, D1) \<Rightarrow>
        if status \<noteq> SEV_STATUS_SUCCESS then (status, [], D1)
        else case read_tmr_regs index offs D1 of (status, vs, D2) \<Rightarrow> (status, the v # vs, D2))"

text \<open>Base, limit, trust level and flags from the four registers.\<close>

definition tmr_base_of :: "u32 \<Rightarrow> u32 \<Rightarrow> u64" where
  "tmr_base_of tmr_base tmr_ext =
     push_bit TMR_X86_PHYS_ADDR_SHIFT (ucast tmr_base) +
     push_bit (TMR_EXT_SHIFT - TMR_BASE_ADDR_EXT_SHIFT) (ucast tmr_ext AND TMR_BASE_ADDR_EXT_MASK)"

definition tmr_limit_of :: "u32 \<Rightarrow> u32 \<Rightarrow> u64" where
  "tmr_limit_of tmr_limit tmr_ext =
     push_bit TMR_X86_PHYS_ADDR_SHIFT (ucast tmr_limit) +
     push_bit (TMR_EXT_SHIFT - TMR_LIMIT_ADDR_EXT_SHIFT) (ucast tmr_ext AND TMR_LIMIT_ADDR_EXT_MASK) +
     (push_bit TMR_X86_PHYS_ADDR_SHIFT 1 - 1)"

definition tmr_trust_of :: "u32 \<Rightarrow> u32" where
  "tmr_trust_of tmr_ctrl = drop_bit TMR_TRUST_LVL_SHIFT (tmr_ctrl AND TMR_TRUST_LVL_MASK)"

record tmr =
  t_base :: u64
  t_limit :: u64
  t_control :: u32
  t_trust :: u32

definition get_tmr_info :: "u32 \<Rightarrow> tmr \<Rightarrow> df \<Rightarrow> sev_status \<times> tmr \<times> df" where
  "get_tmr_info tmr_nr old D =
     (case read_tmr_regs tmr_nr
         [TMR_BASE_ADDR_OFFSET, TMR_LIMIT_ADDR_OFFSET, TMR_CTL_OFFSET, TMR_EXT_ADDR_OFFSET] D of
        (status, vs, D') \<Rightarrow>
          if status \<noteq> SEV_STATUS_SUCCESS then (status, old, D')
          else (SEV_STATUS_SUCCESS,
                \<lparr>t_base = tmr_base_of (vs ! 0) (vs ! 3), t_limit = tmr_limit_of (vs ! 1) (vs ! 3),
                 t_control = vs ! 2, t_trust = tmr_trust_of (vs ! 2)\<rparr>, D'))"

definition tmr_is_valid :: "u32 \<Rightarrow> bool" where
  "tmr_is_valid tmr_ctrl \<longleftrightarrow> tmr_ctrl AND TMR_CTRL_VALID_FLAG \<noteq> 0"

text \<open>A sequence of register writes, up to the first failure.\<close>

fun write_tmr_regs :: "u32 \<Rightarrow> (u32 \<times> u32) list \<Rightarrow> df \<Rightarrow> sev_status \<times> df" where
  "write_tmr_regs index [] D = (SEV_STATUS_SUCCESS, D)"
| "write_tmr_regs index ((off, v) # ws) D =
     (case write_tmr_reg index off v D of (status, D1) \<Rightarrow>
        if status \<noteq> SEV_STATUS_SUCCESS then (status, D1) else write_tmr_regs index ws D1)"

definition tmr_ext_of :: "u64 \<Rightarrow> u64 \<Rightarrow> u32" where
  "tmr_ext_of base limit =
     ucast (push_bit TMR_BASE_ADDR_EXT_SHIFT (drop_bit TMR_EXT_SHIFT (base AND TMR_EXT_MASK))) +
     ucast (push_bit TMR_LIMIT_ADDR_EXT_SHIFT (drop_bit TMR_EXT_SHIFT (limit AND TMR_EXT_MASK)))"

definition tmr_ctrl_of :: "u32 \<Rightarrow> u32 \<Rightarrow> u32" where
  "tmr_ctrl_of flags trust_lvl = (flags AND NOT TMR_TRUST_LVL_MASK) OR push_bit TMR_TRUST_LVL_SHIFT trust_lvl"

definition set_tmr :: "u32 \<Rightarrow> u64 \<Rightarrow> u64 \<Rightarrow> u32 \<Rightarrow> u32 \<Rightarrow> df \<Rightarrow> sev_status \<times> df" where
  "set_tmr tmr_nr base limit flags trust_lvl D =
     write_tmr_regs tmr_nr
       ([(TMR_CTL_OFFSET, 0)] @
        (if tmr_nr = SNP_RMP_TMPM_TMR \<and> flags AND TMR_CTRL_UNIT_ID0_VAL_FLAG \<noteq> 0
         then [(TMR_FIDA_OFFSET, push_bit TMR_FIDA_UNIT_ID_SHIFT TMPM_UNIT_ID)] else []) @
        (if tmr_nr = SNP_RMP_TMPM_TMR \<and> flags AND TMR_CTRL_UNIT_ID1_VAL_FLAG \<noteq> 0
         then [(TMR_FIDB_OFFSET, push_bit TMR_FIDB_UNIT_ID_SHIFT TMPM_UNIT_ID_DMA)] else []) @
        [(TMR_BASE_ADDR_OFFSET, ucast (drop_bit TMR_X86_PHYS_ADDR_SHIFT (base AND TMR_ADDR_MASK))),
         (TMR_LIMIT_ADDR_OFFSET, ucast (drop_bit TMR_X86_PHYS_ADDR_SHIFT (limit AND TMR_ADDR_MASK))),
         (TMR_EXT_ADDR_OFFSET, tmr_ext_of base limit),
         (TMR_CTL_OFFSET, tmr_ctrl_of flags trust_lvl)]) D"

definition set_tmr_modify_flags :: "u32 \<Rightarrow> u32 \<Rightarrow> bool \<Rightarrow> df \<Rightarrow> sev_status \<times> df" where
  "set_tmr_modify_flags tmr_nr flags on D =
     (case read_tmr_reg tmr_nr TMR_CTL_OFFSET (Some 0) D of (status, v, D1) \<Rightarrow>
        if status \<noteq> SEV_STATUS_SUCCESS then (status, D1)
        else write_tmr_reg tmr_nr TMR_CTL_OFFSET
               (if on then the v OR flags else the v AND NOT flags) D1)"

section \<open>The cache\<close>

record tmr_cache =
  present_mask :: u32
  tmr_entry :: "u32 \<Rightarrow> tmr"

definition tmr_zero :: tmr where
  "tmr_zero = \<lparr>t_base = 0, t_limit = 0, t_control = 0, t_trust = 0\<rparr>"

definition tmr_bit :: "u32 \<Rightarrow> u32" where
  "tmr_bit tmr_nr = push_bit (unat tmr_nr) 1"

definition tmr_cache_is_present :: "tmr_cache \<Rightarrow> u32 \<Rightarrow> bool" where
  "tmr_cache_is_present C tmr_nr \<longleftrightarrow> tmr_nr \<le> TMR_LAST \<and> present_mask C AND tmr_bit tmr_nr \<noteq> 0"

definition tmr_cache_init :: tmr_cache where
  "tmr_cache_init = \<lparr>present_mask = 0, tmr_entry = (\<lambda>_. tmr_zero)\<rparr>"

definition tmr_cache_invalidate :: "u32 \<Rightarrow> tmr_cache \<Rightarrow> sev_status \<times> tmr_cache" where
  "tmr_cache_invalidate tmr_nr C =
     (if tmr_nr > TMR_LAST then (ERR_INVALID_PARAMS, C)
      else (SEV_STATUS_SUCCESS,
            C\<lparr>tmr_entry := (tmr_entry C)(tmr_nr := tmr_zero),
              present_mask := present_mask C AND NOT (tmr_bit tmr_nr)\<rparr>))"

text \<open>A die: its number, the number of dies, its cache and its fabric.\<close>

record die =
  d_id :: nat
  d_total :: nat
  d_cache :: tmr_cache
  d_df :: df

definition cache_entry :: "u32 \<Rightarrow> tmr \<Rightarrow> tmr_cache \<Rightarrow> tmr_cache" where
  "cache_entry tmr_nr t C =
     C\<lparr>tmr_entry := (tmr_entry C)(tmr_nr := t), present_mask := present_mask C OR tmr_bit tmr_nr\<rparr>"

definition tmr_cache_read :: "u32 \<Rightarrow> die \<Rightarrow> sev_status \<times> tmr \<times> die" where
  "tmr_cache_read tmr_nr S =
     (let C = d_cache S
      in if tmr_nr > TMR_LAST then (ERR_INVALID_PARAMS, tmr_zero, S)
         else if tmr_cache_is_present C tmr_nr then (SEV_STATUS_SUCCESS, tmr_entry C tmr_nr, S)
         else
           case df_access_lock (d_id S) (d_total S) (d_df S) of (status, D1) \<Rightarrow>
             if status \<noteq> SEV_STATUS_SUCCESS then (status, tmr_zero, S\<lparr>d_df := D1\<rparr>)
             else
               case get_tmr_info tmr_nr (tmr_entry C tmr_nr) D1 of (status, t, D2) \<Rightarrow>
                 let D3 = snd (df_access_unlock (d_id S) (d_total S) D2)
                 in if status \<noteq> SEV_STATUS_SUCCESS then (status, tmr_zero, S\<lparr>d_df := D3\<rparr>)
                    else (SEV_STATUS_SUCCESS, t, S\<lparr>d_df := D3, d_cache := cache_entry tmr_nr t C\<rparr>))"

definition tmr_cache_write :: "u32 \<Rightarrow> u64 \<Rightarrow> u64 \<Rightarrow> u32 \<Rightarrow> u32 \<Rightarrow> die \<Rightarrow> sev_status \<times> die" where
  "tmr_cache_write tmr_nr base limit control trust_lvl S =
     (if tmr_nr > TMR_LAST then (ERR_INVALID_PARAMS, S)
      else
        case set_tmr tmr_nr base limit control trust_lvl (d_df S) of (status, D1) \<Rightarrow>
          if status \<noteq> SEV_STATUS_SUCCESS
          then (status, S\<lparr>d_df := D1, d_cache := snd (tmr_cache_invalidate tmr_nr (d_cache S))\<rparr>)
          else (SEV_STATUS_SUCCESS,
                S\<lparr>d_df := D1,
                  d_cache := cache_entry tmr_nr
                    \<lparr>t_base = base, t_limit = limit, t_control = control, t_trust = trust_lvl\<rparr> (d_cache S)\<rparr>))"

definition tmr_cache_modify_flags :: "u32 \<Rightarrow> u32 \<Rightarrow> bool \<Rightarrow> die \<Rightarrow> sev_status \<times> die" where
  "tmr_cache_modify_flags tmr_nr flags on S =
     (if tmr_nr > TMR_LAST then (ERR_INVALID_PARAMS, S)
      else
        case set_tmr_modify_flags tmr_nr flags on (d_df S) of (status, D1) \<Rightarrow>
          if status \<noteq> SEV_STATUS_SUCCESS
          then (status, S\<lparr>d_df := D1, d_cache := snd (tmr_cache_invalidate tmr_nr (d_cache S))\<rparr>)
          else
            case get_tmr_info tmr_nr (tmr_entry (d_cache S) tmr_nr) D1 of (status, t, D2) \<Rightarrow>
              if status \<noteq> SEV_STATUS_SUCCESS then (status, S\<lparr>d_df := D2\<rparr>)
              else (SEV_STATUS_SUCCESS, S\<lparr>d_df := D2, d_cache := cache_entry tmr_nr t (d_cache S)\<rparr>))"

section \<open>The hardware layer\<close>

text \<open>The result is base, limit and the valid flag.\<close>

definition sev_hal_get_tmr :: "u32 \<Rightarrow> die \<Rightarrow> sev_status \<times> (u64 \<times> u64 \<times> bool) \<times> die" where
  "sev_hal_get_tmr tmr_nr S =
     (if tmr_nr > TMR_LAST then (ERR_INVALID_PARAMS, (0, 0, False), S)
      else case tmr_cache_read tmr_nr S of (status, t, S') \<Rightarrow>
        if status \<noteq> SEV_STATUS_SUCCESS then (status, (0, 0, False), S')
        else (SEV_STATUS_SUCCESS, (t_base t, t_limit t, tmr_is_valid (t_control t)), S'))"

definition sev_hal_set_tmr :: "u32 \<Rightarrow> u64 \<Rightarrow> u64 \<Rightarrow> u32 \<Rightarrow> u32 \<Rightarrow> die \<Rightarrow> sev_status \<times> die" where
  "sev_hal_set_tmr tmr_nr base sz trust_lvl_mask flags S =
     tmr_cache_write tmr_nr base (base + sz) flags trust_lvl_mask S"

definition sev_hal_reset_tmr :: "u32 \<Rightarrow> die \<Rightarrow> sev_status \<times> die" where
  "sev_hal_reset_tmr tmr_nr S = tmr_cache_write tmr_nr 0 0 0 0 S"

definition sev_hal_modify_tmr_flags :: "u32 \<Rightarrow> u32 \<Rightarrow> bool \<Rightarrow> die \<Rightarrow> sev_status \<times> die" where
  "sev_hal_modify_tmr_flags tmr_nr flags on S = tmr_cache_modify_flags tmr_nr flags on S"

definition sev_hal_enable_tmr :: "u32 \<Rightarrow> die \<Rightarrow> sev_status \<times> die" where
  "sev_hal_enable_tmr tmr_nr S =
     (if tmr_nr > TMR_LAST then (ERR_INVALID_PARAMS, S)
      else case tmr_cache_read tmr_nr S of (status, t, S') \<Rightarrow>
        if status \<noteq> SEV_STATUS_SUCCESS then (status, S')
        else if \<not> tmr_is_valid (t_control t)
        then tmr_cache_write tmr_nr (t_base t) (t_limit t) (t_control t OR TMR_CTRL_VALID_FLAG) (t_trust t) S'
        else (SEV_STATUS_SUCCESS, S'))"

section \<open>Slave commands\<close>

text \<open>The commands on TMRs and on the C-states, with their arguments; the others (\<open>ScmdOther\<close>)
  report to the master and change no TMR: \<open>other\<close> is what they return.\<close>

datatype sev_scmd =
    SEV_SCMD_SET_TMR u64 u32 u8 u8 u32
  | SEV_SCMD_RESET_TMR u8
  | SEV_SCMD_ENABLE_TMR u8
  | SEV_SCMD_MODIFY_TMR_FLAGS u8 u32 bool
  | SEV_SCMD_DF_ACQUIRE
  | SEV_SCMD_DF_RELEASE
  | SEV_SCMD_OTHER u32

fun sev_dispatch_slave :: "(u32 \<Rightarrow> sev_status) \<Rightarrow> sev_scmd option \<Rightarrow> die \<Rightarrow> sev_status \<times> die" where
  "sev_dispatch_slave other None S = (ERR_INVALID_PARAMS, S)"
| "sev_dispatch_slave other (Some (SEV_SCMD_SET_TMR base sz nr trust flags)) S =
     sev_hal_set_tmr (ucast nr) base (push_bit TMR_X86_PHYS_ADDR_SHIFT (ucast sz)) (ucast trust) flags S"
| "sev_dispatch_slave other (Some (SEV_SCMD_RESET_TMR nr)) S = sev_hal_reset_tmr (ucast nr) S"
| "sev_dispatch_slave other (Some (SEV_SCMD_ENABLE_TMR nr)) S = sev_hal_enable_tmr (ucast nr) S"
| "sev_dispatch_slave other (Some (SEV_SCMD_MODIFY_TMR_FLAGS nr flags on)) S =
     sev_hal_modify_tmr_flags (ucast nr) flags on S"
| "sev_dispatch_slave other (Some SEV_SCMD_DF_ACQUIRE) S =
     (case sev_hal_df_acquire (d_df S) of (status, D) \<Rightarrow> (status, S\<lparr>d_df := D\<rparr>))"
| "sev_dispatch_slave other (Some SEV_SCMD_DF_RELEASE) S =
     (case sev_hal_df_release (d_df S) of (status, D) \<Rightarrow> (status, S\<lparr>d_df := D\<rparr>))"
| "sev_dispatch_slave other (Some (SEV_SCMD_OTHER n)) S =
     (if n \<in> {1, 5, 6, 8, 0x0B, 0x0E, 0x0F, 0x10} then (other n, S) else (ERR_UNIMPLEMENTED, S))"

text \<open>\<open>rc\<close>: the boot loader delivers the message. The second die is the slave.\<close>

definition sev_hal_master_to_slave ::
  "(u32 \<Rightarrow> sev_status) \<Rightarrow> bool \<Rightarrow> nat \<Rightarrow> sev_scmd option \<Rightarrow> die \<Rightarrow> die \<Rightarrow> sev_status \<times> die" where
  "sev_hal_master_to_slave other rc target cmd M S =
     (if d_total M = 1 then (SEV_STATUS_SUCCESS, S)
      else if d_id M \<noteq> 0 \<or> target > d_total M \<or> cmd = None then (ERR_INVALID_PARAMS, S)
      else if \<not> rc then (ERR_HAL_SLAVE_DIE, S)
      else case sev_dispatch_slave other cmd S of (status, S') \<Rightarrow>
        (if status \<noteq> SEV_STATUS_SUCCESS then ERR_HAL_SLAVE_DIE else SEV_STATUS_SUCCESS, S'))"

section \<open>Operations on both dies\<close>

definition enable_tmr ::
  "bool \<Rightarrow> u8 \<Rightarrow> u64 \<Rightarrow> u64 \<Rightarrow> u32 \<Rightarrow> die \<times> die \<Rightarrow> sev_status \<times> die \<times> die" where
  "enable_tmr rc tmr_num base sz flags MS =
     (case MS of (M, S) \<Rightarrow>
       case sev_hal_set_tmr (ucast tmr_num) base (sz - 1) 0 flags M of (status, M1) \<Rightarrow>
         if status \<noteq> SEV_STATUS_SUCCESS then (status, M1, S)
         else if d_id M1 = 0 then
           case sev_hal_master_to_slave (\<lambda>_. SEV_STATUS_SUCCESS) rc 1
               (Some (SEV_SCMD_SET_TMR base (ucast (drop_bit TMR_X86_PHYS_ADDR_SHIFT (sz - 1))) tmr_num 0 flags)) M1 S of
             (status, S1) \<Rightarrow> (status, M1, S1)
         else (SEV_STATUS_SUCCESS, M1, S))"

definition modify_tmr_flags ::
  "bool \<Rightarrow> u8 \<Rightarrow> u32 \<Rightarrow> bool \<Rightarrow> die \<times> die \<Rightarrow> sev_status \<times> die \<times> die" where
  "modify_tmr_flags rc tmr_num flags on MS =
     (case MS of (M, S) \<Rightarrow>
       case sev_hal_modify_tmr_flags (ucast tmr_num) flags on M of (status, M1) \<Rightarrow>
         if status \<noteq> SEV_STATUS_SUCCESS then (status, M1, S)
         else if d_id M1 = 0 then
           case sev_hal_master_to_slave (\<lambda>_. SEV_STATUS_SUCCESS) rc 1
               (Some (SEV_SCMD_MODIFY_TMR_FLAGS tmr_num flags on)) M1 S of
             (status, S1) \<Rightarrow> (status, M1, S1)
         else (SEV_STATUS_SUCCESS, M1, S))"

definition disable_tmr :: "bool \<Rightarrow> u8 \<Rightarrow> die \<times> die \<Rightarrow> sev_status \<times> die \<times> die" where
  "disable_tmr rc tmr_num MS =
     (case MS of (M, S) \<Rightarrow>
       case sev_hal_reset_tmr (ucast tmr_num) M of (status, M1) \<Rightarrow>
         if status \<noteq> SEV_STATUS_SUCCESS then (status, M1, S)
         else
           case sev_hal_master_to_slave (\<lambda>_. SEV_STATUS_SUCCESS) rc 1 (Some (SEV_SCMD_RESET_TMR tmr_num)) M1 S of
             (status, S1) \<Rightarrow> (status, M1, S1))"

section \<open>Reading and writing the registers\<close>

definition tmr_reg :: "df \<Rightarrow> u32 \<Rightarrow> u32 \<Rightarrow> u32" where
  "tmr_reg D tmr_nr off = df_reg D (DF_TMR_FUNC, off + tmr_nr * TMR_OFFSET)"

lemma tmr_func_not_ficad [simp]: "\<not> is_ficad DF_TMR_FUNC x"
  by (simp add: is_ficad_def DF_TMR_FUNC_def FICAD_FUNC_def)

lemma tick_fields [simp]:
  "df_reg (tick D) = df_reg D" "df_map (tick D) = df_map D" "df_tick (tick D) = Suc (df_tick D)"
  "df_ind (tick D) = df_ind D" "df_awake (tick D) = df_awake D" "df_slave_awake (tick D) = df_slave_awake D"
  "df_smu (tick D) = df_smu D" "df_slave (tick D) = df_slave D"
  by (simp_all add: tick_def)

lemma low_half: "(ucast (push_bit 32 (drop_bit 32 v) OR ucast (r :: u32) :: u64) :: u32) = r"
  by (rule bit_eqI) (auto simp: bit_ucast_iff bit_or_iff bit_push_bit_iff)

lemma ucast_u64_u32 [simp]: "(ucast (ucast (v :: u32) :: u64) :: u32) = v"
  by (rule bit_eqI) (auto simp: bit_ucast_iff dest: bit_imp_le_length)

lemma write_tmr_reg_eq:
  "write_tmr_reg i off v D =
     (if df_map D (df_tick D) = SEV_STATUS_SUCCESS
      then (SEV_STATUS_SUCCESS, (tick D)\<lparr>df_reg := (df_reg D)((DF_TMR_FUNC, off + i * TMR_OFFSET) := v)\<rparr>)
      else (df_map D (df_tick D), tick D))"
  by (simp add: write_tmr_reg_def write_df_reg32_def write32_def access_df_reg_direct_def hw_write32_def Let_def)

lemma read_tmr_reg_eq:
  "read_tmr_reg i off (Some v) D =
     (if df_map D (df_tick D) = SEV_STATUS_SUCCESS then (SEV_STATUS_SUCCESS, Some (tmr_reg D i off), tick D)
      else (df_map D (df_tick D), Some v, tick D))"
  by (simp add: read_tmr_reg_def read_df_reg32_def read32_def access_df_reg_direct_def hw_read32_def Let_def
      tmr_reg_def low_half)

lemma tmr_reg_tick [simp]: "tmr_reg (tick D) = tmr_reg D"
  by (intro ext) (simp add: tmr_reg_def)

text \<open>What a sequence of writes leaves in the registers: its first \<open>k\<close> values, all of them on
  success.\<close>

definition put_regs :: "u32 \<Rightarrow> (u32 \<times> u32) list \<Rightarrow> (u32 \<times> u32 \<Rightarrow> u32) \<Rightarrow> u32 \<times> u32 \<Rightarrow> u32" where
  "put_regs i ws m = fold (\<lambda>(off, v) m. m((DF_TMR_FUNC, off + i * TMR_OFFSET) := v)) ws m"

lemma put_regs_simps [simp]:
  "put_regs i [] m = m"
  "put_regs i ((off, v) # ws) m = put_regs i ws (m((DF_TMR_FUNC, off + i * TMR_OFFSET) := v))"
  by (simp_all add: put_regs_def)

lemma write_tmr_regs_puts:
  assumes "write_tmr_regs i ws D = (st, D')"
  shows "\<exists>k \<le> length ws. df_reg D' = put_regs i (take k ws) (df_reg D) \<and> (st = SEV_STATUS_SUCCESS \<longleftrightarrow> k = length ws)
    \<and> df_map D' = df_map D"
  using assms
proof (induction ws arbitrary: D)
  case Nil
  then show ?case by simp
next
  case (Cons w ws)
  obtain off v where w: "w = (off, v)" by fastforce
  show ?case
  proof (cases "df_map D (df_tick D) = SEV_STATUS_SUCCESS")
    case True
    then have "write_tmr_regs i ws ((tick D)\<lparr>df_reg := (df_reg D)((DF_TMR_FUNC, off + i * TMR_OFFSET) := v)\<rparr>) = (st, D')"
      using Cons.prems by (simp add: w write_tmr_reg_eq)
    from Cons.IH [OF this] obtain k where k: "k \<le> length ws" "st = SEV_STATUS_SUCCESS \<longleftrightarrow> k = length ws" "df_map D' = df_map D"
      "df_reg D' = put_regs i (take k ws) ((df_reg D)((DF_TMR_FUNC, off + i * TMR_OFFSET) := v))"
      by (auto simp del: fun_upd_apply)
    then show ?thesis by (intro exI [of _ "Suc k"]) (simp add: w)
  next
    case False
    then show ?thesis using Cons.prems by (intro exI [of _ 0]) (auto simp: w write_tmr_reg_eq)
  qed
qed

lemma put_regs_other:
  "\<forall>w \<in> set ws. fst w \<noteq> off \<Longrightarrow>
    put_regs i ws m (DF_TMR_FUNC, off + i * TMR_OFFSET) = m (DF_TMR_FUNC, off + i * TMR_OFFSET)"
  by (induction ws arbitrary: m) auto

lemmas tmr_offsets = TMR_BASE_ADDR_OFFSET_def TMR_LIMIT_ADDR_OFFSET_def TMR_CTL_OFFSET_def TMR_FIDA_OFFSET_def
  TMR_FIDB_OFFSET_def TMR_EXT_ADDR_OFFSET_def

lemma set_tmr_regs:
  assumes "set_tmr nr base limit flags trust D = (SEV_STATUS_SUCCESS, D')"
  shows "tmr_reg D' nr TMR_BASE_ADDR_OFFSET = ucast (drop_bit TMR_X86_PHYS_ADDR_SHIFT (base AND TMR_ADDR_MASK))"
    and "tmr_reg D' nr TMR_LIMIT_ADDR_OFFSET = ucast (drop_bit TMR_X86_PHYS_ADDR_SHIFT (limit AND TMR_ADDR_MASK))"
    and "tmr_reg D' nr TMR_CTL_OFFSET = tmr_ctrl_of flags trust"
    and "tmr_reg D' nr TMR_EXT_ADDR_OFFSET = tmr_ext_of base limit"
proof -
  from write_tmr_regs_puts [OF assms [unfolded set_tmr_def]]
  show "tmr_reg D' nr TMR_BASE_ADDR_OFFSET = ucast (drop_bit TMR_X86_PHYS_ADDR_SHIFT (base AND TMR_ADDR_MASK))"
    "tmr_reg D' nr TMR_LIMIT_ADDR_OFFSET = ucast (drop_bit TMR_X86_PHYS_ADDR_SHIFT (limit AND TMR_ADDR_MASK))"
    "tmr_reg D' nr TMR_CTL_OFFSET = tmr_ctrl_of flags trust"
    "tmr_reg D' nr TMR_EXT_ADDR_OFFSET = tmr_ext_of base limit"
    by (auto simp: tmr_reg_def tmr_offsets split: if_split_asm)
qed

lemma get_tmr_info_regs:
  assumes "get_tmr_info nr old D = (SEV_STATUS_SUCCESS, t, D')"
  shows "t = \<lparr>t_base = tmr_base_of (tmr_reg D nr TMR_BASE_ADDR_OFFSET) (tmr_reg D nr TMR_EXT_ADDR_OFFSET),
    t_limit = tmr_limit_of (tmr_reg D nr TMR_LIMIT_ADDR_OFFSET) (tmr_reg D nr TMR_EXT_ADDR_OFFSET),
    t_control = tmr_reg D nr TMR_CTL_OFFSET, t_trust = tmr_trust_of (tmr_reg D nr TMR_CTL_OFFSET)\<rparr>"
    and "df_reg D' = df_reg D"
  using assms by (auto simp: get_tmr_info_def read_tmr_reg_eq split: if_split_asm)

section \<open>Addresses in the registers\<close>

lemma mask_bits:
  "bit TMR_ADDR_MASK i \<longleftrightarrow> 16 \<le> i \<and> i < 48" "bit TMR_EXT_MASK i \<longleftrightarrow> 48 \<le> i \<and> i < 56"
  "bit TMR_BASE_ADDR_EXT_MASK i \<longleftrightarrow> i < 8" "bit TMR_LIMIT_ADDR_EXT_MASK i \<longleftrightarrow> 16 \<le> i \<and> i < 24"
  "bit TMR_TRUST_LVL_MASK i \<longleftrightarrow> 17 \<le> i \<and> i < 20"
proof -
  have m: "(0xFFFFFFFF :: u64) = mask 32" "(0xFF :: u64) = mask 8" "(7 :: u32) = mask 3"
    by (simp_all add: mask_eq_exp_minus_1)
  show "bit TMR_ADDR_MASK i \<longleftrightarrow> 16 \<le> i \<and> i < 48" "bit TMR_EXT_MASK i \<longleftrightarrow> 48 \<le> i \<and> i < 56"
    "bit TMR_BASE_ADDR_EXT_MASK i \<longleftrightarrow> i < 8" "bit TMR_LIMIT_ADDR_EXT_MASK i \<longleftrightarrow> 16 \<le> i \<and> i < 24"
    "bit TMR_TRUST_LVL_MASK i \<longleftrightarrow> 17 \<le> i \<and> i < 20"
    by (auto simp: TMR_ADDR_MASK_def TMR_X86_PHYS_ADDR_SHIFT_def TMR_EXT_MASK_def TMR_EXT_SHIFT_def
        TMR_BASE_ADDR_EXT_MASK_def TMR_BASE_ADDR_EXT_SHIFT_def TMR_LIMIT_ADDR_EXT_MASK_def
        TMR_LIMIT_ADDR_EXT_SHIFT_def TMR_TRUST_LVL_MASK_def TMR_TRUST_LVL_SHIFT_def m
        bit_push_bit_iff bit_mask_iff simp del: push_bit_mask_eq)
qed


lemmas tmr_shifts = TMR_X86_PHYS_ADDR_SHIFT_def TMR_EXT_SHIFT_def TMR_BASE_ADDR_EXT_SHIFT_def
  TMR_LIMIT_ADDR_EXT_SHIFT_def TMR_TRUST_LVL_SHIFT_def

lemma bit_tmr_ext_of:
  "bit (tmr_ext_of base limit) i \<longleftrightarrow>
     (i < 8 \<and> bit base (48 + i)) \<or> (16 \<le> i \<and> i < 24 \<and> bit limit (32 + i))"
proof -
  let ?a = "ucast (drop_bit 48 (base AND TMR_EXT_MASK)) :: u32"
    and ?b = "ucast (push_bit 16 (drop_bit 48 (limit AND TMR_EXT_MASK))) :: u32"
  have a: "bit ?a i \<longleftrightarrow> i < 8 \<and> bit base (48 + i)" for i
    by (auto simp: bit_ucast_iff bit_drop_bit_eq bit_and_iff mask_bits)
  have b: "bit ?b i \<longleftrightarrow> 16 \<le> i \<and> i < 24 \<and> bit limit (32 + i)" for i
    by (auto simp: bit_ucast_iff bit_drop_bit_eq bit_and_iff bit_push_bit_iff mask_bits)
  have "tmr_ext_of base limit = ?a OR ?b"
    unfolding tmr_ext_of_def tmr_shifts
    by (simp only: push_bit_0_id id_apply, rule disjunctive_add_eq_or, rule bit_eqI)
       (simp only: bit_and_iff a b, auto)
  then show ?thesis by (simp only: bit_or_iff a b)
qed

text \<open>The address bits that the registers can hold.\<close>

definition tmr_addr_bits :: u64 where "tmr_addr_bits = 0x00FFFFFFFFFF0000"

lemma bit_tmr_addr_bits: "bit tmr_addr_bits i \<longleftrightarrow> 16 \<le> i \<and> i < 56"
proof -
  have e: "tmr_addr_bits = push_bit 16 (mask 40)" by (simp add: tmr_addr_bits_def mask_eq_exp_minus_1 push_bit_eq_mult)
  show ?thesis unfolding e bit_push_bit_iff bit_mask_iff by auto
qed

lemma bit_tmr_base_of:
  "bit (tmr_base_of r e) i \<longleftrightarrow> (16 \<le> i \<and> i < 48 \<and> bit r (i - 16)) \<or> (48 \<le> i \<and> i < 56 \<and> bit e (i - 48))"
proof -
  let ?a = "push_bit 16 (ucast r) :: u64" and ?b = "push_bit 48 (ucast e AND TMR_BASE_ADDR_EXT_MASK) :: u64"
  have a: "bit ?a i \<longleftrightarrow> 16 \<le> i \<and> i < 48 \<and> bit r (i - 16)" for i
    by (auto simp: bit_push_bit_iff bit_ucast_iff dest: bit_imp_le_length)
  have b: "bit ?b i \<longleftrightarrow> 48 \<le> i \<and> i < 56 \<and> bit e (i - 48)" for i
    by (auto simp: bit_push_bit_iff bit_ucast_iff bit_and_iff mask_bits)
  have "?a + ?b = ?a OR ?b"
    by (rule disjunctive_add_eq_or, rule bit_eqI) (simp only: bit_and_iff a b, auto)
  then have "tmr_base_of r e = ?a OR ?b" by (simp add: tmr_base_of_def tmr_shifts)
  then show ?thesis by (simp only: bit_or_iff a b)
qed

lemma bit_FFFF: "bit (0xFFFF :: u64) i \<longleftrightarrow> i < 16"
proof -
  have "(0xFFFF :: u64) = mask 16" by (simp add: mask_eq_exp_minus_1)
  then show ?thesis by (simp only: bit_mask_iff) auto
qed

lemma bit_tmr_limit_of:
  "bit (tmr_limit_of r e) i \<longleftrightarrow>
     i < 16 \<or> (16 \<le> i \<and> i < 48 \<and> bit r (i - 16)) \<or> (48 \<le> i \<and> i < 56 \<and> bit e (i - 32))"
proof -
  let ?a = "push_bit 16 (ucast r) :: u64" and ?b = "push_bit 32 (ucast e AND TMR_LIMIT_ADDR_EXT_MASK) :: u64"
  have a: "bit ?a i \<longleftrightarrow> 16 \<le> i \<and> i < 48 \<and> bit r (i - 16)" for i
    by (auto simp: bit_push_bit_iff bit_ucast_iff dest: bit_imp_le_length)
  have b: "bit ?b i \<longleftrightarrow> 48 \<le> i \<and> i < 56 \<and> bit e (i - 32)" for i
    by (auto simp: bit_push_bit_iff bit_ucast_iff bit_and_iff mask_bits)
  have "?a + ?b = ?a OR ?b"
    by (rule disjunctive_add_eq_or, rule bit_eqI) (simp only: bit_and_iff a b, auto)
  moreover have "(?a OR ?b) + 0xFFFF = (?a OR ?b) OR 0xFFFF"
    by (rule disjunctive_add_eq_or, rule bit_eqI) (simp only: bit_and_iff bit_or_iff a b bit_FFFF, auto)
  ultimately have "tmr_limit_of r e = (?a OR ?b) OR 0xFFFF" by (simp add: tmr_limit_of_def tmr_shifts)
  then show ?thesis by (simp only: bit_or_iff a b bit_FFFF) auto
qed

lemma bit_addr_field:
  "bit (ucast (drop_bit TMR_X86_PHYS_ADDR_SHIFT (a AND TMR_ADDR_MASK)) :: u32) i \<longleftrightarrow> i < 32 \<and> bit a (i + 16)"
  by (auto simp: tmr_shifts bit_ucast_iff bit_drop_bit_eq bit_and_iff mask_bits ac_simps)

lemma base_roundtrip:
  "tmr_base_of (ucast (drop_bit TMR_X86_PHYS_ADDR_SHIFT (base AND TMR_ADDR_MASK))) (tmr_ext_of base limit) =
     base AND tmr_addr_bits"
proof (rule bit_eqI)
  fix i :: nat
  have "48 \<le> i \<Longrightarrow> i = 48 + (i - 48)" "16 \<le> i \<Longrightarrow> i - 16 + 16 = i" by simp_all
  then show "bit (tmr_base_of (ucast (drop_bit TMR_X86_PHYS_ADDR_SHIFT (base AND TMR_ADDR_MASK))) (tmr_ext_of base limit)) i =
      bit (base AND tmr_addr_bits) i"
    unfolding bit_tmr_base_of bit_and_iff bit_tmr_addr_bits bit_tmr_ext_of bit_addr_field
    by (cases "48 \<le> i") auto
qed

lemma limit_roundtrip:
  "tmr_limit_of (ucast (drop_bit TMR_X86_PHYS_ADDR_SHIFT (limit AND TMR_ADDR_MASK))) (tmr_ext_of base limit) =
     (limit AND tmr_addr_bits) OR 0xFFFF"
proof (rule bit_eqI)
  fix i :: nat
  have "48 \<le> i \<Longrightarrow> 32 + (i - 32) = i" "16 \<le> i \<Longrightarrow> i - 16 + 16 = i" by simp_all
  then show "bit (tmr_limit_of (ucast (drop_bit TMR_X86_PHYS_ADDR_SHIFT (limit AND TMR_ADDR_MASK))) (tmr_ext_of base limit)) i =
      bit ((limit AND tmr_addr_bits) OR 0xFFFF) i"
    unfolding bit_tmr_limit_of bit_and_iff bit_or_iff bit_tmr_addr_bits bit_tmr_ext_of bit_addr_field bit_FFFF
    by (cases "48 \<le> i") auto
qed

lemma base_granular: "tmr_base_of r e AND tmr_addr_bits = tmr_base_of r e"
  by (rule bit_eqI) (simp only: bit_tmr_base_of bit_and_iff bit_tmr_addr_bits, auto)

lemma limit_granular: "(tmr_limit_of r e AND tmr_addr_bits) OR 0xFFFF = tmr_limit_of r e"
  by (rule bit_eqI) (simp only: bit_tmr_limit_of bit_and_iff bit_or_iff bit_tmr_addr_bits bit_FFFF, auto)

lemma trust_roundtrip: "trust < 8 \<Longrightarrow> tmr_trust_of (tmr_ctrl_of flags trust) = trust"
proof -
  assume "trust < 8"
  then have "unat trust < 2 ^ 3" by (simp add: word_less_nat_alt)
  then have "take_bit 3 trust = trust" by (simp add: take_bit_eq_mod word_unat_eq_iff unat_mod)
  then have t: "bit trust i \<Longrightarrow> i < 3" for i by (metis bit_take_bit_iff)
  show ?thesis
    by (rule bit_eqI)
       (auto simp: tmr_trust_of_def tmr_ctrl_of_def TMR_TRUST_LVL_SHIFT_def bit_drop_bit_eq bit_and_iff bit_or_iff
         bit_not_iff bit_push_bit_iff mask_bits dest: t)
qed

section \<open>Properties of one region\<close>

text \<open>What the fabric holds for a region.\<close>

definition tmr_hw :: "df \<Rightarrow> u32 \<Rightarrow> tmr" where
  "tmr_hw D nr =
     \<lparr>t_base = tmr_base_of (tmr_reg D nr TMR_BASE_ADDR_OFFSET) (tmr_reg D nr TMR_EXT_ADDR_OFFSET),
      t_limit = tmr_limit_of (tmr_reg D nr TMR_LIMIT_ADDR_OFFSET) (tmr_reg D nr TMR_EXT_ADDR_OFFSET),
      t_control = tmr_reg D nr TMR_CTL_OFFSET, t_trust = tmr_trust_of (tmr_reg D nr TMR_CTL_OFFSET)\<rparr>"

lemma get_tmr_info_hw:
  "get_tmr_info nr old D = (SEV_STATUS_SUCCESS, t, D') \<Longrightarrow> t = tmr_hw D nr"
  using get_tmr_info_regs(1) by (simp add: tmr_hw_def)

lemma set_tmr_hw:
  assumes "set_tmr nr base limit flags trust D = (SEV_STATUS_SUCCESS, D')" and "trust < 8"
  shows "tmr_hw D' nr = \<lparr>t_base = base AND tmr_addr_bits, t_limit = (limit AND tmr_addr_bits) OR 0xFFFF,
    t_control = tmr_ctrl_of flags trust, t_trust = trust\<rparr>"
  unfolding tmr_hw_def set_tmr_regs [OF assms(1)] base_roundtrip limit_roundtrip trust_roundtrip [OF assms(2)] ..

text \<open>
  C30: What \<open>set_tmr\<close> stores, \<open>get_tmr_info\<close> reads back: the base rounded down and the limit
  rounded up to 64 KB, within 56 bits; the flags with the trust level in their field, and the
  trust level.
\<close>

theorem tmr_roundtrip:
  assumes "set_tmr nr base limit flags trust D = (SEV_STATUS_SUCCESS, D')" and "trust < 8"
    and "get_tmr_info nr old D' = (SEV_STATUS_SUCCESS, t, D'')"
  shows "t = \<lparr>t_base = base AND 0x00FFFFFFFFFF0000, t_limit = (limit AND 0x00FFFFFFFFFF0000) OR 0xFFFF,
    t_control = tmr_ctrl_of flags trust, t_trust = trust\<rparr>"
  using get_tmr_info_hw [OF assms(3)] set_tmr_hw [OF assms(1,2)] by (simp add: tmr_addr_bits_def)

definition mid_writes :: "u32 \<Rightarrow> u64 \<Rightarrow> u64 \<Rightarrow> u32 \<Rightarrow> (u32 \<times> u32) list" where
  "mid_writes tmr_nr base limit flags =
    (if tmr_nr = SNP_RMP_TMPM_TMR \<and> flags AND TMR_CTRL_UNIT_ID0_VAL_FLAG \<noteq> 0
     then [(TMR_FIDA_OFFSET, push_bit TMR_FIDA_UNIT_ID_SHIFT TMPM_UNIT_ID)] else []) @
    (if tmr_nr = SNP_RMP_TMPM_TMR \<and> flags AND TMR_CTRL_UNIT_ID1_VAL_FLAG \<noteq> 0
     then [(TMR_FIDB_OFFSET, push_bit TMR_FIDB_UNIT_ID_SHIFT TMPM_UNIT_ID_DMA)] else []) @
    [(TMR_BASE_ADDR_OFFSET, ucast (drop_bit TMR_X86_PHYS_ADDR_SHIFT (base AND TMR_ADDR_MASK))),
     (TMR_LIMIT_ADDR_OFFSET, ucast (drop_bit TMR_X86_PHYS_ADDR_SHIFT (limit AND TMR_ADDR_MASK))),
     (TMR_EXT_ADDR_OFFSET, tmr_ext_of base limit)]"

lemma mid_writes_no_ctl: "\<forall>w \<in> set (mid_writes nr base limit flags). fst w \<noteq> TMR_CTL_OFFSET"
  by (auto simp: mid_writes_def tmr_offsets split: if_split_asm)

lemma set_tmr_writes:
  "set_tmr nr base limit flags trust D =
     write_tmr_regs nr ((TMR_CTL_OFFSET, 0) # mid_writes nr base limit flags @ [(TMR_CTL_OFFSET, tmr_ctrl_of flags trust)]) D"
  by (simp add: set_tmr_def mid_writes_def)

text \<open>
  C40: However the writes of a region's registers fail, the region is either untouched or
  disabled: no mixture of an old and a new range is ever valid.
\<close>

theorem failed_set_tmr_leaves_region_disabled:
  assumes "set_tmr nr base limit flags trust D = (status, D')" and "status \<noteq> SEV_STATUS_SUCCESS"
  shows "df_reg D' = df_reg D \<or> \<not> tmr_is_valid (t_control (tmr_hw D' nr))"
proof -
  let ?mid = "mid_writes nr base limit flags"
  let ?ws = "(TMR_CTL_OFFSET, 0) # ?mid @ [(TMR_CTL_OFFSET, tmr_ctrl_of flags trust)]"
  from write_tmr_regs_puts [OF assms(1) [unfolded set_tmr_writes]] assms(2)
  obtain k where k: "k < length ?ws" "df_reg D' = put_regs nr (take k ?ws) (df_reg D)"
    by (metis le_neq_implies_less)
  show ?thesis
  proof (cases k)
    case 0
    then show ?thesis using k by simp
  next
    case (Suc j)
    with k(1) have "take k ?ws = (TMR_CTL_OFFSET, 0) # take j ?mid" by simp
    moreover have "\<forall>w \<in> set (take j ?mid). fst w \<noteq> TMR_CTL_OFFSET"
      using mid_writes_no_ctl by (metis in_set_takeD)
    ultimately have "tmr_reg D' nr TMR_CTL_OFFSET = 0"
      by (simp add: tmr_reg_def k(2) put_regs_other)
    then show ?thesis by (simp add: tmr_hw_def tmr_is_valid_def)
  qed
qed

section \<open>The cache agrees with the fabric\<close>

text \<open>An entry agrees with a region up to the granularity of the registers.\<close>

definition same_tmr :: "tmr \<Rightarrow> tmr \<Rightarrow> bool" where
  "same_tmr t h \<longleftrightarrow> t_base t AND tmr_addr_bits = t_base h \<and> (t_limit t AND tmr_addr_bits) OR 0xFFFF = t_limit h \<and>
     t_control t AND NOT TMR_TRUST_LVL_MASK = t_control h AND NOT TMR_TRUST_LVL_MASK \<and> t_trust t = t_trust h"

text \<open>\<open>W\<close> are the regions whose cached entry may be out of date.\<close>

definition cache_coherent :: "u32 set \<Rightarrow> die \<Rightarrow> bool" where
  "cache_coherent W S \<longleftrightarrow> (\<forall>nr. tmr_cache_is_present (d_cache S) nr \<longrightarrow>
     t_trust (tmr_entry (d_cache S) nr) < 8 \<and>
     (nr \<notin> W \<longrightarrow> same_tmr (tmr_entry (d_cache S) nr) (tmr_hw (d_df S) nr)))"

lemma present_bit: "tmr_cache_is_present C nr \<longleftrightarrow> nr \<le> TMR_LAST \<and> bit (present_mask C) (unat nr)"
  by (simp add: tmr_cache_is_present_def tmr_bit_def bit_iff_and_push_bit_not_eq_0)

lemma tmr_nr_small: "nr \<le> TMR_LAST \<Longrightarrow> unat nr \<le> 7"
  by (simp add: TMR_LAST_def word_le_nat_alt)

lemma bit_tmr_bit: "nr \<le> TMR_LAST \<Longrightarrow> bit (tmr_bit nr) i \<longleftrightarrow> i = unat nr"
  using tmr_nr_small [of nr] by (auto simp: tmr_bit_def bit_exp_iff)

lemma present_cache_entry:
  assumes "n \<le> TMR_LAST"
  shows "tmr_cache_is_present (cache_entry n t C) m \<longleftrightarrow> m = n \<or> tmr_cache_is_present C m"
proof -
  have "unat m = unat n \<longleftrightarrow> m = n" by (simp add: word_unat_eq_iff)
  then show ?thesis using assms by (auto simp: present_bit cache_entry_def bit_or_iff bit_tmr_bit)
qed

lemma present_invalidate:
  assumes "n \<le> TMR_LAST"
  shows "tmr_cache_is_present (snd (tmr_cache_invalidate n C)) m \<longleftrightarrow> m \<noteq> n \<and> tmr_cache_is_present C m"
proof -
  have "unat m = unat n \<longleftrightarrow> m = n" by (simp add: word_unat_eq_iff)
  moreover have "m \<le> TMR_LAST \<Longrightarrow> unat m < 32" using tmr_nr_small [of m] by simp
  ultimately show ?thesis
    using assms by (auto simp: present_bit tmr_cache_invalidate_def bit_and_iff bit_not_iff bit_tmr_bit not_less)
qed

text \<open>The registers of different regions are different.\<close>

lemma tmr_address_nat:
  assumes "unat off \<le> 0xA14" and "nr \<le> TMR_LAST"
  shows "unat (off + nr * TMR_OFFSET) = unat off + unat nr * 24"
proof -
  have n: "unat nr \<le> 7" by (rule tmr_nr_small [OF assms(2)])
  have "unat (nr * TMR_OFFSET) = unat nr * 24"
    using n by (subst unat_mult_no_wrap) (simp_all add: TMR_OFFSET_def)
  then show ?thesis using n assms(1) by (subst unat_add_no_wrap) simp_all
qed

definition tmr_offs :: "u32 set" where
  "tmr_offs = {TMR_BASE_ADDR_OFFSET, TMR_LIMIT_ADDR_OFFSET, TMR_CTL_OFFSET, TMR_FIDA_OFFSET,
     TMR_FIDB_OFFSET, TMR_EXT_ADDR_OFFSET}"

lemma tmr_address_inj:
  assumes "off \<in> tmr_offs" and "off' \<in> tmr_offs" and "nr \<le> TMR_LAST" and "nr' \<le> TMR_LAST"
    and "off + nr * TMR_OFFSET = off' + nr' * TMR_OFFSET"
  shows "nr = nr'"
proof -
  have o: "unat off \<in> {0xA00, 0xA04, 0xA08, 0xA0C, 0xA10, 0xA14}" "unat off' \<in> {0xA00, 0xA04, 0xA08, 0xA0C, 0xA10, 0xA14}"
    using assms(1,2) by (auto simp: tmr_offs_def tmr_offsets)
  then have "unat off \<le> 0xA14" "unat off' \<le> 0xA14" by auto
  with assms(3-5) have "unat off + unat nr * 24 = unat off' + unat nr' * 24"
    using tmr_address_nat by metis
  with o have "unat nr = unat nr'" by (simp, elim disjE) presburger+
  then show ?thesis by (simp add: word_unat_eq_iff)
qed

lemma put_regs_other_region:
  assumes "fst ` set ws \<subseteq> tmr_offs" and "nr \<le> TMR_LAST" and "nr' \<le> TMR_LAST" and "nr \<noteq> nr'" and "off \<in> tmr_offs"
  shows "put_regs nr ws m (DF_TMR_FUNC, off + nr' * TMR_OFFSET) = m (DF_TMR_FUNC, off + nr' * TMR_OFFSET)"
  using assms(1)
proof (induction ws arbitrary: m)
  case (Cons w ws)
  obtain o' v where w: "w = (o', v)" by fastforce
  with Cons.prems have "o' \<in> tmr_offs" by auto
  with assms(2-5) have "off + nr' * TMR_OFFSET \<noteq> o' + nr * TMR_OFFSET" using tmr_address_inj by blast
  with Cons show ?case by (simp add: w)
qed simp

lemma tmr_hw_cong:
  "(\<And>off. off \<in> tmr_offs \<Longrightarrow> tmr_reg D nr off = tmr_reg D' nr off) \<Longrightarrow> tmr_hw D nr = tmr_hw D' nr"
  by (simp add: tmr_hw_def tmr_offs_def)

lemma write_regs_other_region:
  assumes "write_tmr_regs nr ws D = (st, D')" and "fst ` set ws \<subseteq> tmr_offs"
    and "nr \<le> TMR_LAST" and "nr' \<le> TMR_LAST" and "nr \<noteq> nr'"
  shows "tmr_hw D' nr' = tmr_hw D nr'"
proof (rule tmr_hw_cong)
  fix off assume off: "off \<in> tmr_offs"
  from write_tmr_regs_puts [OF assms(1)] obtain k where k: "df_reg D' = put_regs nr (take k ws) (df_reg D)" by blast
  have "fst ` set (take k ws) \<subseteq> tmr_offs" using assms(2) set_take_subset by fastforce
  from put_regs_other_region [OF this assms(3-5) off]
  show "tmr_reg D' nr' off = tmr_reg D nr' off" by (simp add: tmr_reg_def k)
qed

lemma set_tmr_other_region:
  assumes "set_tmr nr base limit flags trust D = (st, D')" and "nr \<le> TMR_LAST" and "nr' \<le> TMR_LAST" and "nr \<noteq> nr'"
  shows "tmr_hw D' nr' = tmr_hw D nr'"
proof (rule write_regs_other_region [OF assms(1) [unfolded set_tmr_writes] _ assms(2-4)])
  show "fst ` set ((TMR_CTL_OFFSET, 0) # mid_writes nr base limit flags @ [(TMR_CTL_OFFSET, tmr_ctrl_of flags trust)]) \<subseteq> tmr_offs"
    by (auto simp: mid_writes_def tmr_offs_def split: if_split_asm)
qed

lemma write_one_reg: "write_tmr_regs i [(off, v)] D = write_tmr_reg i off v D"
  by (simp add: write_tmr_reg_eq)

lemma modify_other_region:
  assumes "set_tmr_modify_flags nr flags on D = (st, D')" and "nr \<le> TMR_LAST" and "nr' \<le> TMR_LAST" and "nr \<noteq> nr'"
  shows "tmr_hw D' nr' = tmr_hw D nr'"
proof -
  consider "df_reg D' = df_reg D"
    | v where "write_tmr_regs nr [(TMR_CTL_OFFSET, v)] (tick D) = (st, D')"
    using assms(1)
    by (auto simp: set_tmr_modify_flags_def read_tmr_reg_eq write_one_reg [symmetric] simp del: write_tmr_regs.simps
        split: if_split_asm)
  then show ?thesis
  proof cases
    case 1
    then show ?thesis by (intro tmr_hw_cong) (simp add: tmr_reg_def)
  next
    case 2
    from write_regs_other_region [OF this _ assms(2-4)] show ?thesis
      by (simp add: tmr_offs_def) (simp add: tmr_hw_def)
  qed
qed

lemma tmr_hw_reg: "df_reg D' = df_reg D \<Longrightarrow> tmr_hw D' = tmr_hw D"
  by (intro ext tmr_hw_cong) (simp add: tmr_reg_def)

lemma read32_reg: "read32 f off v D = (st, v', D') \<Longrightarrow> df_reg D' = df_reg D"
  by (auto simp: read32_def access_df_reg_direct_def Let_def split: prod.split_asm if_split_asm)

lemma slave_df_reg: "slave_df on D = (st, D') \<Longrightarrow> df_reg D' = df_reg D"
  by (auto simp: slave_df_def Let_def split: if_split_asm)

lemma acquire_reg: "sev_hal_df_acquire D = (st, D') \<Longrightarrow> df_reg D' = df_reg D"
  by (auto simp: sev_hal_df_acquire_def split: if_split_asm)

lemma release_reg: "sev_hal_df_release D = (st, D') \<Longrightarrow> df_reg D' = df_reg D"
  by (auto simp: sev_hal_df_release_def split: if_split_asm)

lemma lock_reg: "df_access_lock i n D = (st, D') \<Longrightarrow> df_reg D' = df_reg D"
  by (auto simp: df_access_lock_def get_cstate_control_def split: prod.split_asm if_split_asm
      dest!: acquire_reg read32_reg slave_df_reg)

lemma unlock_reg: "df_access_unlock i n D = (st, D') \<Longrightarrow> df_reg D' = df_reg D"
  by (auto simp: df_access_unlock_def split: prod.split_asm if_split_asm dest!: release_reg slave_df_reg)

lemma read_regs_reg: "read_tmr_regs i offs D = (st, vs, D') \<Longrightarrow> df_reg D' = df_reg D"
  by (induction offs arbitrary: D st vs D') (auto simp: read_tmr_reg_eq split: if_split_asm prod.split_asm)

lemma get_tmr_info_reg: "get_tmr_info nr old D = (st, t, D') \<Longrightarrow> df_reg D' = df_reg D"
  by (auto simp: get_tmr_info_def simp del: read_tmr_regs.simps split: prod.split_asm if_split_asm
      dest!: read_regs_reg)

lemma same_tmr_hw: "same_tmr (tmr_hw D nr) (tmr_hw D nr)"
  by (simp add: same_tmr_def tmr_hw_def base_granular limit_granular)

lemma same_tmr_set:
  "set_tmr nr base limit flags trust D = (SEV_STATUS_SUCCESS, D') \<Longrightarrow> trust < 8 \<Longrightarrow>
    same_tmr \<lparr>t_base = base, t_limit = limit, t_control = flags, t_trust = trust\<rparr> (tmr_hw D' nr)"
proof -
  assume s: "set_tmr nr base limit flags trust D = (SEV_STATUS_SUCCESS, D')" and t: "trust < 8"
  from t have "unat trust < 2 ^ 3" by (simp add: word_less_nat_alt)
  then have "take_bit 3 trust = trust" by (simp add: take_bit_eq_mod word_unat_eq_iff unat_mod)
  then have b: "bit trust i \<Longrightarrow> i < 3" for i by (metis bit_take_bit_iff)
  have "flags AND NOT TMR_TRUST_LVL_MASK = tmr_ctrl_of flags trust AND NOT TMR_TRUST_LVL_MASK"
    by (rule bit_eqI) (auto simp: tmr_ctrl_of_def bit_and_iff bit_or_iff bit_not_iff bit_push_bit_iff mask_bits
        TMR_TRUST_LVL_SHIFT_def dest: b)
  then show ?thesis by (simp add: same_tmr_def set_tmr_hw [OF s t])
qed

lemma tmr_trust_small: "tmr_trust_of c < 8"
proof -
  have "tmr_trust_of c = take_bit 3 (tmr_trust_of c)"
    by (rule bit_eqI)
       (auto simp: tmr_trust_of_def TMR_TRUST_LVL_SHIFT_def bit_take_bit_iff bit_drop_bit_eq bit_and_iff mask_bits)
  then have "unat (tmr_trust_of c) = unat (take_bit 3 (tmr_trust_of c))" by (simp only:)
  also have "\<dots> = take_bit 3 (unat (tmr_trust_of c))" by (rule unsigned_take_bit_eq)
  also have "\<dots> < 2 ^ 3" by (rule take_bit_nat_less_exp)
  finally show ?thesis by (simp add: word_less_nat_alt)
qed

lemma hw_trust_small: "t_trust (tmr_hw D nr) < 8"
  by (simp add: tmr_hw_def tmr_trust_small)

lemma coherent_fabric:
  "cache_coherent W S \<Longrightarrow> df_reg D = df_reg (d_df S) \<Longrightarrow> cache_coherent W (S\<lparr>d_df := D\<rparr>)"
  by (simp add: cache_coherent_def tmr_hw_reg [of D "d_df S"])

lemma coherent_mono: "cache_coherent W S \<Longrightarrow> W \<subseteq> V \<Longrightarrow> cache_coherent V S"
  by (auto simp: cache_coherent_def)

text \<open>What becomes of a region that is written, of one whose entry is dropped, and of one whose registers
  change below the cache.\<close>

lemma coherent_entry:
  assumes "cache_coherent W S" and "nr \<le> TMR_LAST" and "same_tmr t (tmr_hw D nr)" and "t_trust t < 8"
    and "\<And>m. m \<le> TMR_LAST \<Longrightarrow> m \<noteq> nr \<Longrightarrow> tmr_hw D m = tmr_hw (d_df S) m"
  shows "cache_coherent (W - {nr}) (S\<lparr>d_df := D, d_cache := cache_entry nr t (d_cache S)\<rparr>)"
  unfolding cache_coherent_def
proof (intro allI impI)
  let ?S = "S\<lparr>d_df := D, d_cache := cache_entry nr t (d_cache S)\<rparr>"
  fix m
  assume "tmr_cache_is_present (d_cache ?S) m"
  then have "m = nr \<or> m \<noteq> nr \<and> tmr_cache_is_present (d_cache S) m" using assms(2) by (auto simp: present_cache_entry)
  then show "t_trust (tmr_entry (d_cache ?S) m) < 8 \<and>
      (m \<notin> W - {nr} \<longrightarrow> same_tmr (tmr_entry (d_cache ?S) m) (tmr_hw (d_df ?S) m))"
  proof (elim disjE conjE)
    assume m: "m \<noteq> nr" "tmr_cache_is_present (d_cache S) m"
    then have "m \<le> TMR_LAST" by (simp add: present_bit)
    with m assms(1,5) show ?thesis by (simp add: cache_entry_def cache_coherent_def)
  qed (simp add: cache_entry_def assms(3,4))
qed

lemma coherent_invalid:
  assumes "cache_coherent W S" and "nr \<le> TMR_LAST"
    and "\<And>m. m \<le> TMR_LAST \<Longrightarrow> m \<noteq> nr \<Longrightarrow> tmr_hw D m = tmr_hw (d_df S) m"
  shows "cache_coherent (W - {nr}) (S\<lparr>d_df := D, d_cache := snd (tmr_cache_invalidate nr (d_cache S))\<rparr>)"
  unfolding cache_coherent_def
proof (intro allI impI)
  let ?S = "S\<lparr>d_df := D, d_cache := snd (tmr_cache_invalidate nr (d_cache S))\<rparr>"
  fix m
  assume "tmr_cache_is_present (d_cache ?S) m"
  then have m: "m \<noteq> nr" "tmr_cache_is_present (d_cache S) m" using assms(2) by (auto simp: present_invalidate)
  then have "m \<le> TMR_LAST" by (simp add: present_bit)
  with m assms show "t_trust (tmr_entry (d_cache ?S) m) < 8 \<and>
      (m \<notin> W - {nr} \<longrightarrow> same_tmr (tmr_entry (d_cache ?S) m) (tmr_hw (d_df ?S) m))"
    by (simp add: tmr_cache_invalidate_def cache_coherent_def)
qed

lemma coherent_stale:
  assumes "cache_coherent W S" and "\<And>m. m \<le> TMR_LAST \<Longrightarrow> m \<noteq> nr \<Longrightarrow> tmr_hw D m = tmr_hw (d_df S) m"
  shows "cache_coherent (insert nr W) (S\<lparr>d_df := D\<rparr>)"
  using assms by (auto simp: cache_coherent_def present_bit)

section \<open>Every operation keeps the agreement\<close>

lemma read_coherent:
  assumes "cache_coherent W S" and "tmr_cache_read nr S = (st, t, S')"
  shows "cache_coherent W S'" and "st = SEV_STATUS_SUCCESS \<Longrightarrow> nr \<notin> W \<Longrightarrow> same_tmr t (tmr_hw (d_df S') nr)"
    and "st = SEV_STATUS_SUCCESS \<Longrightarrow> t_trust t < 8" and "tmr_hw (d_df S') = tmr_hw (d_df S)"
proof -
  consider "S' = S" "st \<noteq> SEV_STATUS_SUCCESS \<or> tmr_cache_is_present (d_cache S) nr \<and> t = tmr_entry (d_cache S) nr"
    | D where "S' = S\<lparr>d_df := D\<rparr>" "df_reg D = df_reg (d_df S)" "st \<noteq> SEV_STATUS_SUCCESS"
    | D D1 D2 where "S' = S\<lparr>d_df := D, d_cache := cache_entry nr t (d_cache S)\<rparr>" "df_reg D = df_reg (d_df S)"
        "get_tmr_info nr (tmr_entry (d_cache S) nr) D1 = (SEV_STATUS_SUCCESS, t, D2)" "df_reg D1 = df_reg (d_df S)"
        "nr \<le> TMR_LAST"
  proof -
    obtain s1 D1 where l: "df_access_lock (d_id S) (d_total S) (d_df S) = (s1, D1)" by fastforce
    obtain s2 t2 D2 where g: "get_tmr_info nr (tmr_entry (d_cache S) nr) D1 = (s2, t2, D2)" by (metis prod_cases3)
    obtain s3 D3 where u: "df_access_unlock (d_id S) (d_total S) D2 = (s3, D3)" by fastforce
    note r = lock_reg [OF l] get_tmr_info_reg [OF g] unlock_reg [OF u]
    show thesis
      using assms(2) l g u r that
      by (auto simp: tmr_cache_read_def Let_def not_less split: if_split_asm)
  qed
  then have "cache_coherent W S' \<and> (st = SEV_STATUS_SUCCESS \<longrightarrow>
      (nr \<notin> W \<longrightarrow> same_tmr t (tmr_hw (d_df S') nr)) \<and> t_trust t < 8) \<and> tmr_hw (d_df S') = tmr_hw (d_df S)"
  proof cases
    case 1
    then show ?thesis using assms(1) by (auto simp: cache_coherent_def)
  next
    case 2
    then show ?thesis using coherent_fabric [OF assms(1) 2(2)] tmr_hw_reg [OF 2(2)] by simp
  next
    case 3
    have t: "t = tmr_hw D nr" using get_tmr_info_hw [OF 3(3)] tmr_hw_reg [OF 3(4)] tmr_hw_reg [OF 3(2)] by simp
    from coherent_entry [OF assms(1) 3(5), of t D] show ?thesis
      using 3(1) tmr_hw_reg [OF 3(2)] same_tmr_hw [of D nr] hw_trust_small [of D nr]
      by (auto simp: t intro: coherent_mono)
  qed
  then show "cache_coherent W S'" "st = SEV_STATUS_SUCCESS \<Longrightarrow> nr \<notin> W \<Longrightarrow> same_tmr t (tmr_hw (d_df S') nr)"
    "st = SEV_STATUS_SUCCESS \<Longrightarrow> t_trust t < 8" "tmr_hw (d_df S') = tmr_hw (d_df S)" by blast+
qed

lemma write_coherent:
  assumes "cache_coherent W S" and "tmr_cache_write nr base limit control trust S = (st, S')" and "trust < 8"
    and "nr \<le> TMR_LAST"
  shows "cache_coherent (W - {nr}) S'"
proof -
  obtain s1 D1 where s: "set_tmr nr base limit control trust (d_df S) = (s1, D1)" by fastforce
  have o: "\<And>m. m \<le> TMR_LAST \<Longrightarrow> m \<noteq> nr \<Longrightarrow> tmr_hw D1 m = tmr_hw (d_df S) m"
    using set_tmr_other_region [OF s assms(4)] by metis
  have nr: "\<not> nr > TMR_LAST" using assms(4) by simp
  show ?thesis
  proof (cases "s1 = SEV_STATUS_SUCCESS")
    case True
    from coherent_entry [OF assms(1,4) same_tmr_set [OF s [unfolded True] assms(3)] _ o]
    show ?thesis using assms(2,3) s True nr by (simp add: tmr_cache_write_def)
  next
    case st: False
    from coherent_invalid [OF assms(1,4) o]
    show ?thesis using assms(2) s st nr by (simp add: tmr_cache_write_def)
  qed
qed

lemma modify_coherent:
  assumes "cache_coherent W S" and "tmr_cache_modify_flags nr flags on S = (st, S')"
  shows "cache_coherent (if st = SEV_STATUS_SUCCESS then W - {nr} else insert nr W) S'"
proof (cases "nr > TMR_LAST")
  case True
  then show ?thesis using assms by (auto simp: tmr_cache_modify_flags_def intro: coherent_mono)
next
  case False
  then have nr: "nr \<le> TMR_LAST" by simp
  obtain s1 D1 where s: "set_tmr_modify_flags nr flags on (d_df S) = (s1, D1)" by fastforce
  obtain s2 t D2 where g: "get_tmr_info nr (tmr_entry (d_cache S) nr) D1 = (s2, t, D2)" by (metis prod_cases3)
  have r: "tmr_hw D2 = tmr_hw D1" by (rule tmr_hw_reg [OF get_tmr_info_reg [OF g]])
  have o: "\<And>m. m \<le> TMR_LAST \<Longrightarrow> m \<noteq> nr \<Longrightarrow> tmr_hw D1 m = tmr_hw (d_df S) m"
    using modify_other_region [OF s nr] by metis
  consider "s1 \<noteq> SEV_STATUS_SUCCESS" | "s1 = SEV_STATUS_SUCCESS" "s2 \<noteq> SEV_STATUS_SUCCESS"
    | "s1 = SEV_STATUS_SUCCESS" "s2 = SEV_STATUS_SUCCESS" by blast
  then show ?thesis
  proof cases
    case 1
    then show ?thesis using assms(2) s False coherent_mono [OF coherent_invalid [OF assms(1) nr o], of "insert nr W"]
      by (auto simp: tmr_cache_modify_flags_def)
  next
    case 2
    then show ?thesis using assms(2) s g False coherent_stale [OF assms(1), of nr D2] o r
      by (auto simp: tmr_cache_modify_flags_def)
  next
    case 3
    have t: "t = tmr_hw D2 nr" using get_tmr_info_hw [OF g [unfolded 3]] r by simp
    from coherent_entry [OF assms(1) nr, of t D2] show ?thesis
      using assms(2) s g False 3 o r same_tmr_hw [of D2 nr] hw_trust_small [of D2 nr]
      by (auto simp: tmr_cache_modify_flags_def t)
  qed
qed

text \<open>The states that a die's cache and fabric can reach from an empty cache, with the regions of which a
  change of flags has failed since they were last set, reset or changed. A trust level has three
  bits; calls for a region behind the last one change nothing and are left out where they matter.\<close>

inductive tmr_reachable :: "u32 set \<Rightarrow> die \<Rightarrow> bool" where
  start: "d_cache S = tmr_cache_init \<Longrightarrow> tmr_reachable {} S"
| get: "tmr_reachable W S \<Longrightarrow> tmr_reachable W (snd (snd (sev_hal_get_tmr nr S)))"
| set: "tmr_reachable W S \<Longrightarrow> trust < 8 \<Longrightarrow> nr \<le> TMR_LAST \<Longrightarrow>
    tmr_reachable (W - {nr}) (snd (sev_hal_set_tmr nr base sz trust flags S))"
| reset: "tmr_reachable W S \<Longrightarrow> nr \<le> TMR_LAST \<Longrightarrow> tmr_reachable (W - {nr}) (snd (sev_hal_reset_tmr nr S))"
| enable: "tmr_reachable W S \<Longrightarrow> tmr_reachable W (snd (sev_hal_enable_tmr nr S))"
| modify: "tmr_reachable W S \<Longrightarrow> sev_hal_modify_tmr_flags nr flags on S = (st, S') \<Longrightarrow>
    tmr_reachable (if st = SEV_STATUS_SUCCESS then W - {nr} else insert nr W) S'"

lemma reachable_coherent: "tmr_reachable W S \<Longrightarrow> cache_coherent W S"
proof (induction rule: tmr_reachable.induct)
  case (start S)
  then show ?case by (simp add: cache_coherent_def present_bit tmr_cache_init_def)
next
  case (get W S nr)
  obtain st t S' where r: "tmr_cache_read nr S = (st, t, S')" by (metis prod_cases3)
  from read_coherent(1) [OF get.IH r] get.IH show ?case by (auto simp: sev_hal_get_tmr_def r)
next
  case (set W S trust nr base sz flags)
  obtain st S' where w: "sev_hal_set_tmr nr base sz trust flags S = (st, S')" by fastforce
  from write_coherent [OF set.IH w [unfolded sev_hal_set_tmr_def] set.hyps(2,3)] show ?case by (simp add: w)
next
  case (reset W S nr)
  obtain st S' where w: "sev_hal_reset_tmr nr S = (st, S')" by fastforce
  from write_coherent [OF reset.IH w [unfolded sev_hal_reset_tmr_def] _ reset.hyps(2)] show ?case by (simp add: w)
next
  case (enable W S nr)
  obtain st t S' where r: "tmr_cache_read nr S = (st, t, S')" by (metis prod_cases3)
  note c = read_coherent [OF enable.IH r]
  have "cache_coherent W (snd (tmr_cache_write nr b l f (t_trust t) S'))"
    if "st = SEV_STATUS_SUCCESS" "nr \<le> TMR_LAST" for b l f
    using write_coherent [OF c(1) _ c(3) [OF that(1)] that(2)] coherent_mono [of "W - {nr}" _ W]
    by (metis Diff_subset prod.collapse)
  with c(1) enable.IH show ?case by (auto simp: sev_hal_enable_tmr_def r not_less)
next
  case (modify W S nr flags on st S')
  then show ?case using modify_coherent [unfolded sev_hal_modify_tmr_flags_def [symmetric]] by blast
qed

section \<open>Properties of both dies\<close>

text \<open>
  C29: In every state that the operations of the hardware layer reach, for every region of which no
  change of flags has failed since it was last set, reset or changed successfully: the range that a
  die reports for it is the one its fabric enforces, up to the 64 KB granularity of the registers, and
  it is reported valid exactly if it is. (A change of flags that fails when it reads the region back
  leaves an old entry in the cache: \<open>failed_reread_leaves_stale_cache\<close>.)
\<close>

theorem reported_tmr_is_enforced:
  assumes "tmr_reachable W S" and "nr \<notin> W" and "sev_hal_get_tmr nr S = (SEV_STATUS_SUCCESS, (base, limit, valid), S')"
  shows "base AND 0x00FFFFFFFFFF0000 = t_base (tmr_hw (d_df S') nr) \<and>
    (limit AND 0x00FFFFFFFFFF0000) OR 0xFFFF = t_limit (tmr_hw (d_df S') nr) \<and>
    (valid \<longleftrightarrow> tmr_is_valid (t_control (tmr_hw (d_df S') nr)))"
proof -
  obtain st t S1 where r: "tmr_cache_read nr S = (st, t, S1)" by (metis prod_cases3)
  with assms(3) have st: "st = SEV_STATUS_SUCCESS"
    and v: "base = t_base t" "limit = t_limit t" "valid = tmr_is_valid (t_control t)" "S' = S1"
    by (auto simp: sev_hal_get_tmr_def split: if_split_asm)
  from read_coherent(2) [OF reachable_coherent [OF assms(1)] r st assms(2)]
  have s: "same_tmr t (tmr_hw (d_df S') nr)" using v(4) by simp
  have b: "tmr_is_valid x \<longleftrightarrow> bit (x AND NOT TMR_TRUST_LVL_MASK) 0" for x
    unfolding tmr_is_valid_def TMR_CTRL_VALID_FLAG_def bit_iff_and_push_bit_not_eq_0 [symmetric]
    by (simp only: bit_and_iff bit_not_iff mask_bits) simp
  from s have "valid \<longleftrightarrow> tmr_is_valid (t_control (tmr_hw (d_df S') nr))"
    unfolding v(3) b by (simp only: same_tmr_def)
  with s show ?thesis by (simp add: same_tmr_def v(1,2) tmr_addr_bits_def)
qed

text \<open>
  When the flags of a region were changed but reading it back failed, the cache still has the
  flags from before, and presents them: the fabric has the new ones.
\<close>

theorem failed_reread_leaves_stale_cache:
  assumes "nr \<le> 7" and "set_tmr_modify_flags nr flags True (d_df S) = (SEV_STATUS_SUCCESS, D1)"
    and "get_tmr_info nr (tmr_entry (d_cache S) nr) D1 = (status, t, D2)" and "status \<noteq> SEV_STATUS_SUCCESS"
  shows "\<exists>S'. tmr_cache_modify_flags nr flags True S = (status, S') \<and> d_cache S' = d_cache S \<and>
    t_control (tmr_hw (d_df S') nr) = t_control (tmr_hw (d_df S) nr) OR flags"
proof -
  let ?S = "S\<lparr>d_df := D2\<rparr>"
  have "\<not> nr > TMR_LAST" using assms(1) by (simp add: TMR_LAST_def not_less)
  then have "tmr_cache_modify_flags nr flags True S = (status, ?S)"
    using assms(2-4) by (simp add: tmr_cache_modify_flags_def)
  moreover have "tmr_reg D1 nr TMR_CTL_OFFSET = tmr_reg (d_df S) nr TMR_CTL_OFFSET OR flags"
    using assms(2)
    by (auto simp: set_tmr_modify_flags_def read_tmr_reg_eq write_tmr_reg_eq tmr_reg_def split: if_split_asm)
  moreover from tmr_hw_reg [OF get_tmr_info_reg [OF assms(3)]]
  have "t_control (tmr_hw D2 nr) = tmr_reg D1 nr TMR_CTL_OFFSET" by (simp add: tmr_hw_def)
  moreover have "t_control (tmr_hw (d_df S) nr) = tmr_reg (d_df S) nr TMR_CTL_OFFSET" by (simp add: tmr_hw_def)
  ultimately show ?thesis by simp
qed

lemma high_bits_sum:
  assumes "base AND 0xFFFF = (0 :: u64)" and "unat base + unat x < 2 ^ 64"
  shows "drop_bit 16 (base + push_bit 16 (drop_bit 16 x)) = drop_bit 16 (base + x)"
proof -
  have "(0xFFFF :: u64) = mask 16" by (simp add: mask_eq_exp_minus_1)
  then have "take_bit 16 base = 0" using assms(1) by (simp only: take_bit_eq_mask)
  then have m: "unat base mod 2 ^ 16 = 0" by (metis take_bit_eq_mod unat_0 unsigned_take_bit_eq)
  let ?y = "push_bit 16 (drop_bit 16 x)"
  have y: "unat ?y = 2 ^ 16 * (unat x div 2 ^ 16)"
  proof -
    have "unat (drop_bit 16 x) = unat x div 2 ^ 16" by (simp add: drop_bit_eq_div unat_div)
    moreover have "unat x div 2 ^ 16 * 2 ^ 16 \<le> unat x" by simp
    then have "unat x div 2 ^ 16 * 2 ^ 16 < 2 ^ 64" using u64_bound [of x] by simp
    ultimately show ?thesis
      by (simp only: push_bit_eq_mult) (subst unat_mult_no_wrap, simp_all)
  qed
  have "unat ?y \<le> unat x" unfolding y by simp
  then have s: "unat (base + ?y) = unat base + unat ?y" "unat (base + x) = unat base + unat x"
    using assms(2) by (simp_all add: unat_add_no_wrap)
  obtain b where b: "unat base = 2 ^ 16 * b" using m by (metis mod_eq_0_iff_dvd dvdE)
  have "(unat base + unat ?y) div 2 ^ 16 = (unat base + unat x) div 2 ^ 16" unfolding y b by simp
  then have "unat (base + ?y) div 2 ^ 16 = unat (base + x) div 2 ^ 16" by (simp only: s)
  moreover have "unat (drop_bit 16 z) = unat z div 2 ^ 16" for z :: u64 by (simp add: drop_bit_eq_div unat_div)
  ultimately show ?thesis by (simp only: word_unat_eq_iff)
qed

lemma same_high_same_limit:
  assumes "drop_bit 16 l = drop_bit 16 (m :: u64)"
  shows "l AND tmr_addr_bits = m AND tmr_addr_bits"
proof (rule bit_eqI)
  fix i :: nat
  have "bit l (16 + j) = bit m (16 + j)" for j using assms by (metis bit_drop_bit_eq comp_def)
  then have "16 \<le> i \<Longrightarrow> bit l i = bit m i" by (metis le_add_diff_inverse)
  then show "bit (l AND tmr_addr_bits) i = bit (m AND tmr_addr_bits) i"
    by (auto simp: bit_and_iff bit_tmr_addr_bits)
qed

text \<open>
  Enabling a region sets it up with the same range and flags on both dies, although the
  message to the second die carries only the upper 32 bits of a 48-bit size.
\<close>

theorem enable_tmr_agrees_on_both_dies:
  assumes "enable_tmr rc nr base sz flags (M, S) = (SEV_STATUS_SUCCESS, M', S')"
    and "d_id M = 0" and "d_total M = 2"
    and "base AND 0xFFFF = 0" and "0 < sz" and "unat sz \<le> 2 ^ 48" and "unat base + unat sz < 2 ^ 64"
  shows "tmr_hw (d_df S') (ucast nr) = tmr_hw (d_df M') (ucast nr)"
proof -
  let ?x = "sz - 1" and ?n = "ucast nr :: u32"
  let ?y = "push_bit TMR_X86_PHYS_ADDR_SHIFT (ucast (ucast (drop_bit TMR_X86_PHYS_ADDR_SHIFT ?x) :: u32)) :: u64"
  have x: "unat ?x = unat sz - 1" using assms(5) by (simp add: unat_minus_one word_gt_0)
  have xs: "unat ?x < 2 ^ 48" using x assms(5,6) by (simp add: word_gt_0 unat_gt_0)
  obtain M1 where m: "sev_hal_set_tmr ?n base ?x 0 flags M = (SEV_STATUS_SUCCESS, M1)"
    using assms(1) by (auto simp: enable_tmr_def split: prod.split_asm if_split_asm)
  have ids: "d_id M1 = d_id M" "d_total M1 = d_total M"
    using m by (auto simp: sev_hal_set_tmr_def tmr_cache_write_def split: if_split_asm prod.split_asm)
  from assms(1) m ids assms(2,3)
  have MS: "M' = M1" "sev_hal_set_tmr ?n base ?y 0 flags S = (SEV_STATUS_SUCCESS, S')"
    by (auto simp: enable_tmr_def sev_hal_master_to_slave_def split: prod.split_asm if_split_asm)
  have hw: "tmr_hw (d_df B) ?n = \<lparr>t_base = base AND tmr_addr_bits, t_limit = ((base + z) AND tmr_addr_bits) OR 0xFFFF,
      t_control = tmr_ctrl_of flags 0, t_trust = 0\<rparr>"
    if "sev_hal_set_tmr ?n base z 0 flags A = (SEV_STATUS_SUCCESS, B)" for A B z
  proof -
    from that obtain D where "set_tmr ?n base (base + z) flags 0 (d_df A) = (SEV_STATUS_SUCCESS, D)" "d_df B = D"
      by (auto simp: sev_hal_set_tmr_def tmr_cache_write_def split: if_split_asm prod.split_asm)
    then show ?thesis using set_tmr_hw by simp
  qed
  have "?y = push_bit 16 (drop_bit 16 ?x)"
  proof -
    have "unat (drop_bit 16 ?x) < 2 ^ 32"
      using xs by (simp add: drop_bit_eq_div unat_div div_less_iff_less_mult)
    then have "ucast (ucast (drop_bit 16 ?x) :: u32) = drop_bit 16 ?x"
      by (simp only: word_unat_eq_iff unsigned_ucast_eq) (simp add: unsigned_take_bit_eq take_bit_nat_eq_self)
    then show ?thesis by (simp add: TMR_X86_PHYS_ADDR_SHIFT_def)
  qed
  then have "(base + ?y) AND tmr_addr_bits = (base + ?x) AND tmr_addr_bits"
    using same_high_same_limit [OF high_bits_sum [OF assms(4), of ?x]] assms(5,7) x by simp
  then show ?thesis using hw [OF m] hw [OF MS(2)] MS(1) by simp
qed

text \<open>
  Reading the fabric's configuration register never sees that broadcast mode is locked, as the
  mask of its flags is empty: switching to broadcast mode always writes the register, with both
  flags cleared.
\<close>

theorem broadcast_mode_always_rewrites:
  assumes "enable_broadcast_mode D = (SEV_STATUS_SUCCESS, D')"
  shows "df_reg D' (FCAC_FUNC, FCAC_OFFSET) = df_reg D (FCAC_FUNC, FCAC_OFFSET) AND 0x00FF0000 \<and>
    df_tick D' = df_tick D + 2"
proof -
  let ?r = "df_reg D (FCAC_FUNC, FCAC_OFFSET)"
  have nf: "\<not> is_ficad FCAC_FUNC FCAC_OFFSET" by (simp add: is_ficad_def FCAC_OFFSET_def FICAD_OFFSET_def)
  have z: "FCAC_ALL_FLAGS_MASK = 0"
    by (simp add: FCAC_ALL_FLAGS_MASK_def FCAC_INSTANCE_LOCK_MASK_def FCAC_INSTANCE_EN_MASK_def)
  have i: "push_bit 16 (drop_bit 16 (?r AND 0xFF0000)) AND (0xFF0000 :: u32) = ?r AND 0xFF0000"
  proof -
    have b: "bit (0xFF0000 :: u32) i \<longleftrightarrow> 16 \<le> i \<and> i < 24" for i
    proof -
      have e: "(0xFF0000 :: u32) = push_bit 16 (mask 8)" by (simp add: mask_eq_exp_minus_1 push_bit_eq_mult)
      show ?thesis unfolding e bit_push_bit_iff bit_mask_iff by auto
    qed
    show ?thesis
      by (rule bit_eqI) (simp only: bit_push_bit_iff bit_drop_bit_eq bit_and_iff b comp_def, auto)
  qed
  from assms show ?thesis
    using i nf
    by (auto simp: enable_broadcast_mode_def read_fcac_def write_fcac_def read32_def write32_def
        access_df_reg_direct_def Let_def hw_read32_def hw_write32_def z low_half FCAC_INSTANCE_ID_MASK_def
        FCAC_INSTANCE_ID_SHIFT_def split: if_split_asm prod.split_asm simp del: drop_bit_and push_bit_and)
qed


section \<open>Witnesses\<close>

text \<open>A die whose \<open>n\<close>-th access finds the status \<open>f n\<close>, with the value \<open>v\<close> in every register.\<close>

definition demo_df :: "(nat \<Rightarrow> sev_status) \<Rightarrow> u32 \<Rightarrow> df" where
  "demo_df f v = \<lparr>df_reg = (\<lambda>_. v), df_ind = (\<lambda>_. 0), df_tick = 0, df_map = f, df_smu = (\<lambda>_. True),
     df_slave = (\<lambda>_. SEV_STATUS_SUCCESS), df_awake = False, df_slave_awake = False\<rparr>"

definition demo_die :: "nat \<Rightarrow> df \<Rightarrow> die" where
  "demo_die i D = \<lparr>d_id = i, d_total = 2, d_cache = tmr_cache_init, d_df = D\<rparr>"

lemmas demo_tmr = demo_df_def demo_die_def write_tmr_reg_eq read_tmr_reg_eq tmr_reg_def tmr_offsets

lemma mapped_writes:
  assumes "\<And>n. df_map D n = SEV_STATUS_SUCCESS"
  shows "fst (write_tmr_regs i ws D) = SEV_STATUS_SUCCESS" and "df_map (snd (write_tmr_regs i ws D)) = df_map D"
proof -
  have "fst (write_tmr_regs i ws D) = SEV_STATUS_SUCCESS \<and> df_map (snd (write_tmr_regs i ws D)) = df_map D"
    using assms
    by (induction ws arbitrary: D) (auto simp: write_tmr_reg_eq)
  then show "fst (write_tmr_regs i ws D) = SEV_STATUS_SUCCESS" "df_map (snd (write_tmr_regs i ws D)) = df_map D"
    by blast+
qed

lemma demo_set_tmr:
  assumes "\<And>n. f n = SEV_STATUS_SUCCESS"
  obtains D' where "set_tmr nr base limit flags trust (demo_df f v) = (SEV_STATUS_SUCCESS, D')"
    "\<And>n. df_map D' n = SEV_STATUS_SUCCESS"
proof -
  have "df_map (demo_df f v) n = SEV_STATUS_SUCCESS" for n by (simp add: demo_df_def assms)
  note w = mapped_writes [OF this] show thesis
    using that w unfolding set_tmr_writes by (metis prod.collapse assms demo_df_def df.select_convs(4))
qed

theorem tmr_roundtrip_witness:
  "\<exists>D' D''. set_tmr 1 0x10012345 0x1007FFFF 3 4 (demo_df (\<lambda>_. SEV_STATUS_SUCCESS) 0) = (SEV_STATUS_SUCCESS, D') \<and>
     get_tmr_info 1 tmr_zero D' = (SEV_STATUS_SUCCESS,
       \<lparr>t_base = 0x10010000, t_limit = 0x1007FFFF, t_control = 0x80003, t_trust = 4\<rparr>, D'')"
proof -
  obtain D' where s: "set_tmr 1 0x10012345 0x1007FFFF 3 4 (demo_df (\<lambda>_. SEV_STATUS_SUCCESS) 0) = (SEV_STATUS_SUCCESS, D')"
    and m: "\<And>n. df_map D' n = SEV_STATUS_SUCCESS"
    using demo_set_tmr [of "\<lambda>_. SEV_STATUS_SUCCESS"] by metis
  have "fst (get_tmr_info 1 tmr_zero D') = SEV_STATUS_SUCCESS" by (simp add: get_tmr_info_def read_tmr_reg_eq m)
  then obtain t D'' where g: "get_tmr_info 1 tmr_zero D' = (SEV_STATUS_SUCCESS, t, D'')"
    by (cases "get_tmr_info 1 tmr_zero D'") auto
  from tmr_roundtrip [OF s _ g] have "t = \<lparr>t_base = 0x10010000, t_limit = 0x1007FFFF, t_control = 0x80003, t_trust = 4\<rparr>"
    by (simp add: tmr_ctrl_of_def TMR_TRUST_LVL_MASK_def TMR_TRUST_LVL_SHIFT_def)
  with s g show ?thesis by blast
qed

text \<open>The third access fails: the region was valid, its base is written, it is not valid now.\<close>

theorem failed_set_tmr_leaves_region_disabled_witness:
  "\<exists>D'. set_tmr 3 0x20000000 0x200FFFFF 1 0 (demo_df (\<lambda>n. if n = 2 then ERR_HAL_MEMORY_MAP else SEV_STATUS_SUCCESS) 1) =
     (ERR_HAL_MEMORY_MAP, D') \<and> \<not> tmr_is_valid (t_control (tmr_hw D' 3))"
proof -
  let ?D = "demo_df (\<lambda>n. if n = 2 then ERR_HAL_MEMORY_MAP else SEV_STATUS_SUCCESS) 1"
  obtain st D' where s: "set_tmr 3 0x20000000 0x200FFFFF 1 0 ?D = (st, D')" by fastforce
  then have st: "st = ERR_HAL_MEMORY_MAP" and c: "df_reg D' (DF_TMR_FUNC, TMR_CTL_OFFSET + 3 * TMR_OFFSET) = 0"
    by (auto simp: set_tmr_def demo_tmr SNP_RMP_TMPM_TMR_def TMR_OFFSET_def)
  have "df_reg ?D (DF_TMR_FUNC, TMR_CTL_OFFSET + 3 * TMR_OFFSET) = 1" by (simp add: demo_df_def)
  with c have "df_reg D' \<noteq> df_reg ?D" by force
  with failed_set_tmr_leaves_region_disabled [OF s] st s show ?thesis by auto
qed

lemma demo_hal_set_tmr:
  obtains S' where "sev_hal_set_tmr 3 base sz 0 flags (demo_die i (demo_df (\<lambda>_. SEV_STATUS_SUCCESS) 0)) = (SEV_STATUS_SUCCESS, S')"
    "d_cache S' = cache_entry 3 \<lparr>t_base = base, t_limit = base + sz, t_control = flags, t_trust = 0\<rparr> tmr_cache_init"
proof -
  obtain D' where s: "set_tmr 3 base (base + sz) flags 0 (demo_df (\<lambda>_. SEV_STATUS_SUCCESS) 0) = (SEV_STATUS_SUCCESS, D')"
    using demo_set_tmr [of "\<lambda>_. SEV_STATUS_SUCCESS"] by metis
  have d: "d_df (demo_die i D) = D" "d_cache (demo_die i D) = tmr_cache_init" for D by (simp_all add: demo_die_def)
  show thesis
    by (rule that) (simp_all add: sev_hal_set_tmr_def tmr_cache_write_def d s TMR_LAST_def, simp add: demo_die_def)
qed

text \<open>The state after a region was set.\<close>

definition demo_set_die :: die where
  "demo_set_die = snd (sev_hal_set_tmr 3 0x20000000 0xFFFFF 0 1 (demo_die 0 (demo_df (\<lambda>_. SEV_STATUS_SUCCESS) 0)))"

lemma demo_set_die:
  "tmr_reachable {} demo_set_die"
  "sev_hal_get_tmr 3 demo_set_die = (SEV_STATUS_SUCCESS, (0x20000000, 0x200FFFFF, True), demo_set_die)"
proof -
  let ?S0 = "demo_die 0 (demo_df (\<lambda>_. SEV_STATUS_SUCCESS) 0)"
  obtain S where s: "sev_hal_set_tmr 3 0x20000000 0xFFFFF 0 1 ?S0 = (SEV_STATUS_SUCCESS, S)"
    and c: "d_cache S = cache_entry 3 \<lparr>t_base = 0x20000000, t_limit = 0x20000000 + 0xFFFFF, t_control = 1, t_trust = 0\<rparr> tmr_cache_init"
    by (rule demo_hal_set_tmr)
  have S: "demo_set_die = S" by (simp add: demo_set_die_def s)
  have "tmr_reachable {} ?S0" by (rule tmr_reachable.start) (simp add: demo_die_def)
  from tmr_reachable.set [OF this, of 0 3 "0x20000000" "0xFFFFF" 1] show "tmr_reachable {} demo_set_die"
    by (simp add: demo_set_die_def TMR_LAST_def)
  have "tmr_cache_is_present (d_cache S) 3" by (simp add: c present_cache_entry TMR_LAST_def)
  then show "sev_hal_get_tmr 3 demo_set_die = (SEV_STATUS_SUCCESS, (0x20000000, 0x200FFFFF, True), demo_set_die)"
    unfolding S
    by (simp add: sev_hal_get_tmr_def tmr_cache_read_def Let_def TMR_LAST_def c)
       (simp add: cache_entry_def tmr_is_valid_def TMR_CTRL_VALID_FLAG_def)
qed

theorem reported_tmr_is_enforced_witness:
  "sev_hal_get_tmr 3 demo_set_die = (SEV_STATUS_SUCCESS, (0x20000000, 0x200FFFFF, True), demo_set_die) \<and>
    t_base (tmr_hw (d_df demo_set_die) 3) = 0x20000000 \<and> t_limit (tmr_hw (d_df demo_set_die) 3) = 0x200FFFFF \<and>
    tmr_is_valid (t_control (tmr_hw (d_df demo_set_die) 3))"
  using reported_tmr_is_enforced [OF demo_set_die(1) _ demo_set_die(2)] demo_set_die(2) by simp

theorem failed_reread_leaves_stale_cache_witness:
  "\<exists>S'. tmr_cache_modify_flags 3 2 True
      (demo_die 0 (demo_df (\<lambda>n. if n = 2 then ERR_HAL_MEMORY_MAP else SEV_STATUS_SUCCESS) 1)) = (ERR_HAL_MEMORY_MAP, S') \<and>
     t_control (tmr_hw (d_df S') 3) = 3"
proof -
  let ?D = "demo_df (\<lambda>n. if n = 2 then ERR_HAL_MEMORY_MAP else SEV_STATUS_SUCCESS) 1"
  obtain st D1 where m: "set_tmr_modify_flags 3 2 True ?D = (st, D1)" by fastforce
  then have st: "st = SEV_STATUS_SUCCESS" and D1: "df_map D1 (df_tick D1) = ERR_HAL_MEMORY_MAP"
    by (auto simp: set_tmr_modify_flags_def demo_tmr)
  obtain st2 t D2 where g: "get_tmr_info 3 (tmr_entry (d_cache (demo_die 0 ?D)) 3) D1 = (st2, t, D2)" by (metis prod_cases3)
  then have "st2 = ERR_HAL_MEMORY_MAP" by (auto simp: get_tmr_info_def read_tmr_reg_eq D1)
  moreover have "set_tmr_modify_flags 3 2 True (d_df (demo_die 0 ?D)) = (SEV_STATUS_SUCCESS, D1)"
    using m st by (simp add: demo_die_def)
  moreover have "t_control (tmr_hw (d_df (demo_die 0 ?D)) 3) = 1" by (simp add: tmr_hw_def tmr_reg_def demo_die_def demo_df_def)
  ultimately show ?thesis using failed_reread_leaves_stale_cache [OF _ _ g] by force
qed

theorem enable_tmr_agrees_on_both_dies_witness:
  "\<exists>M' S'. enable_tmr True 3 0x20000000 0x100000 1
      (demo_die 0 (demo_df (\<lambda>_. SEV_STATUS_SUCCESS) 0), demo_die 1 (demo_df (\<lambda>_. SEV_STATUS_SUCCESS) 0)) =
      (SEV_STATUS_SUCCESS, M', S') \<and> tmr_hw (d_df S') 3 = tmr_hw (d_df M') 3"
proof -
  let ?M = "demo_die 0 (demo_df (\<lambda>_. SEV_STATUS_SUCCESS) 0)" and ?S = "demo_die 1 (demo_df (\<lambda>_. SEV_STATUS_SUCCESS) 0)"
  obtain M' where m: "sev_hal_set_tmr 3 0x20000000 0xFFFFF 0 1 ?M = (SEV_STATUS_SUCCESS, M')" by (rule demo_hal_set_tmr)
  obtain S' where s: "sev_hal_set_tmr 3 0x20000000 0xF0000 0 1 ?S = (SEV_STATUS_SUCCESS, S')" by (rule demo_hal_set_tmr)
  have "d_id M' = 0" "d_total M' = 2"
    using m by (auto simp: sev_hal_set_tmr_def tmr_cache_write_def demo_die_def split: if_split_asm prod.split_asm)
  then have e: "enable_tmr True 3 0x20000000 0x100000 1 (?M, ?S) = (SEV_STATUS_SUCCESS, M', S')"
    by (simp add: enable_tmr_def m sev_hal_master_to_slave_def TMR_X86_PHYS_ADDR_SHIFT_def s [simplified])
  have "d_id ?M = 0" "d_total ?M = 2" by (simp_all add: demo_die_def)
  from enable_tmr_agrees_on_both_dies [OF e this] e show ?thesis by simp
qed

theorem broadcast_mode_always_rewrites_witness:
  "\<exists>D'. enable_broadcast_mode (demo_df (\<lambda>_. SEV_STATUS_SUCCESS) 0x00350003) = (SEV_STATUS_SUCCESS, D') \<and>
     df_reg D' (FCAC_FUNC, FCAC_OFFSET) = 0x00350000"
proof -
  let ?D = "demo_df (\<lambda>_. SEV_STATUS_SUCCESS) 0x00350003"
  have "fst (enable_broadcast_mode ?D) = SEV_STATUS_SUCCESS"
    by (simp add: enable_broadcast_mode_def read_fcac_def write_fcac_def read32_def write32_def
        access_df_reg_direct_def Let_def demo_df_def tick_def split: prod.split)
  then obtain D' where e: "enable_broadcast_mode ?D = (SEV_STATUS_SUCCESS, D')" by (cases "enable_broadcast_mode ?D") auto
  from broadcast_mode_always_rewrites [OF this] e show ?thesis by (simp add: demo_df_def)
qed

end
