(* ===== verification/Sev_Dispatch.thy ===== *)
theory Sev_Dispatch
  imports Sev_States Sev_Rmp Sev_Tmr
begin

text \<open>
  The dispatch of host commands (\<open>sev_dispatch.c\<close>): the table of commands, the check of the
  command buffer against the RMP, the copies of the buffer, the call of the handler, the
  transition of the buffer's page, all under the lock of the data fabric.

  The sizes of the command structures depend on the compiler's layout and are the argument
  \<open>sz\<close>. The handlers are the field \<open>de_handler\<close> of the environment: given the command and the
  buffer (\<open>None\<close> for NULL) they return the status, the buffer and the new state; the state type
  \<open>'s\<close> is theirs. \<open>de_plus64\<close> is the addition of 64 to a status code, whose numbers come from
  outside the repository. \<open>de_entry0\<close> and \<open>de_buf0\<close> are the uninitialised local variables.
\<close>

section \<open>Commands\<close>

definition SEV_MCMD_ID_PLATFORM_STATUS :: sev_mcmd_id where "SEV_MCMD_ID_PLATFORM_STATUS = 0x004"
definition SEV_MCMD_ID_PEK_GEN :: sev_mcmd_id where "SEV_MCMD_ID_PEK_GEN = 0x005"
definition SEV_MCMD_ID_PEK_CSR :: sev_mcmd_id where "SEV_MCMD_ID_PEK_CSR = 0x006"
definition SEV_MCMD_ID_PEK_CERT_IMPORT :: sev_mcmd_id where "SEV_MCMD_ID_PEK_CERT_IMPORT = 0x007"
definition SEV_MCMD_ID_PDH_CERT_EXPORT :: sev_mcmd_id where "SEV_MCMD_ID_PDH_CERT_EXPORT = 0x008"
definition SEV_MCMD_ID_PDH_GEN :: sev_mcmd_id where "SEV_MCMD_ID_PDH_GEN = 0x009"
definition SEV_MCMD_ID_DF_FLUSH :: sev_mcmd_id where "SEV_MCMD_ID_DF_FLUSH = 0x00A"
definition SEV_MCMD_ID_DOWNLOAD_FIRMWARE :: sev_mcmd_id where "SEV_MCMD_ID_DOWNLOAD_FIRMWARE = 0x00B"
definition SEV_MCMD_ID_GET_ID :: sev_mcmd_id where "SEV_MCMD_ID_GET_ID = 0x00C"
definition SEV_MCMD_ID_INIT_EX :: sev_mcmd_id where "SEV_MCMD_ID_INIT_EX = 0x00D"
definition SEV_MCMD_ID_NOP :: sev_mcmd_id where "SEV_MCMD_ID_NOP = 0x00E"
definition SEV_MCMD_ID_RING_BUFFER :: sev_mcmd_id where "SEV_MCMD_ID_RING_BUFFER = 0x00F"
definition SEV_MCMD_ID_ACTIVATE :: sev_mcmd_id where "SEV_MCMD_ID_ACTIVATE = 0x021"
definition SEV_MCMD_ID_DEACTIVATE :: sev_mcmd_id where "SEV_MCMD_ID_DEACTIVATE = 0x022"
definition SEV_MCMD_ID_GUEST_STATUS :: sev_mcmd_id where "SEV_MCMD_ID_GUEST_STATUS = 0x023"
definition SEV_MCMD_ID_COPY :: sev_mcmd_id where "SEV_MCMD_ID_COPY = 0x024"
definition SEV_MCMD_ID_ACTIVATE_EX :: sev_mcmd_id where "SEV_MCMD_ID_ACTIVATE_EX = 0x025"
definition SEV_MCMD_ID_LAUNCH_UPDATE_DATA :: sev_mcmd_id where "SEV_MCMD_ID_LAUNCH_UPDATE_DATA = 0x031"
definition SEV_MCMD_ID_LAUNCH_UPDATE_VMSA :: sev_mcmd_id where "SEV_MCMD_ID_LAUNCH_UPDATE_VMSA = 0x032"
definition SEV_MCMD_ID_LAUNCH_SECRET :: sev_mcmd_id where "SEV_MCMD_ID_LAUNCH_SECRET = 0x034"
definition SEV_MCMD_ID_ATTESTATION :: sev_mcmd_id where "SEV_MCMD_ID_ATTESTATION = 0x036"
definition SEV_MCMD_ID_SEND_UPDATE_DATA :: sev_mcmd_id where "SEV_MCMD_ID_SEND_UPDATE_DATA = 0x041"
definition SEV_MCMD_ID_SEND_UPDATE_VMSA :: sev_mcmd_id where "SEV_MCMD_ID_SEND_UPDATE_VMSA = 0x042"
definition SEV_MCMD_ID_RECEIVE_UPDATE_DATA :: sev_mcmd_id where "SEV_MCMD_ID_RECEIVE_UPDATE_DATA = 0x051"
definition SEV_MCMD_ID_RECEIVE_UPDATE_VMSA :: sev_mcmd_id where "SEV_MCMD_ID_RECEIVE_UPDATE_VMSA = 0x052"
definition SEV_MCMD_ID_DBG_DECRYPT :: sev_mcmd_id where "SEV_MCMD_ID_DBG_DECRYPT = 0x060"
definition SEV_MCMD_ID_DBG_ENCRYPT :: sev_mcmd_id where "SEV_MCMD_ID_DBG_ENCRYPT = 0x061"
definition SEV_MCMD_ID_SWAP_OUT :: sev_mcmd_id where "SEV_MCMD_ID_SWAP_OUT = 0x070"
definition SEV_MCMD_ID_SWAP_IN :: sev_mcmd_id where "SEV_MCMD_ID_SWAP_IN = 0x071"
definition SNP_MCMD_ID_PLATFORM_STATUS :: sev_mcmd_id where "SNP_MCMD_ID_PLATFORM_STATUS = 0x083"
definition SNP_MCMD_ID_DF_FLUSH :: sev_mcmd_id where "SNP_MCMD_ID_DF_FLUSH = 0x084"
definition SNP_MCMD_ID_INIT_EX :: sev_mcmd_id where "SNP_MCMD_ID_INIT_EX = 0x085"
definition SNP_MCMD_ID_SHUTDOWN_EX :: sev_mcmd_id where "SNP_MCMD_ID_SHUTDOWN_EX = 0x086"
definition SNP_MCMD_ID_ACTIVATE :: sev_mcmd_id where "SNP_MCMD_ID_ACTIVATE = 0x091"
definition SNP_MCMD_ID_GUEST_STATUS :: sev_mcmd_id where "SNP_MCMD_ID_GUEST_STATUS = 0x092"
definition SNP_MCMD_ID_ACTIVATE_EX :: sev_mcmd_id where "SNP_MCMD_ID_ACTIVATE_EX = 0x095"
definition SNP_MCMD_ID_GCTX_CREATE :: sev_mcmd_id where "SNP_MCMD_ID_GCTX_CREATE = 0x093"
definition SNP_MCMD_ID_LAUNCH_UPDATE :: sev_mcmd_id where "SNP_MCMD_ID_LAUNCH_UPDATE = 0x0A1"
definition SNP_MCMD_ID_DBG_DECRYPT :: sev_mcmd_id where "SNP_MCMD_ID_DBG_DECRYPT = 0x0B0"
definition SNP_MCMD_ID_DBG_ENCRYPT :: sev_mcmd_id where "SNP_MCMD_ID_DBG_ENCRYPT = 0x0B1"
definition SNP_MCMD_ID_SWAP_OUT :: sev_mcmd_id where "SNP_MCMD_ID_SWAP_OUT = 0x0C0"
definition SNP_MCMD_ID_SWAP_IN :: sev_mcmd_id where "SNP_MCMD_ID_SWAP_IN = 0x0C1"
definition SNP_MCMD_ID_PAGE_MOVE :: sev_mcmd_id where "SNP_MCMD_ID_PAGE_MOVE = 0x0C2"
definition SNP_MCMD_ID_MD_INIT :: sev_mcmd_id where "SNP_MCMD_ID_MD_INIT = 0x0C3"
definition SNP_MCMD_ID_PAGE_RECLAIM :: sev_mcmd_id where "SNP_MCMD_ID_PAGE_RECLAIM = 0x0C7"
definition SNP_MCMD_ID_PAGE_UNSMASH :: sev_mcmd_id where "SNP_MCMD_ID_PAGE_UNSMASH = 0x0C8"
definition SNP_MCMD_ID_CONFIG :: sev_mcmd_id where "SNP_MCMD_ID_CONFIG = 0x0C9"
definition SNP_MCMD_ID_DOWNLOAD_FIRMWARE_EX :: sev_mcmd_id where "SNP_MCMD_ID_DOWNLOAD_FIRMWARE_EX = 0x0CA"
definition SNP_MCMD_ID_COMMIT :: sev_mcmd_id where "SNP_MCMD_ID_COMMIT = 0x0CB"
definition SNP_MCMD_ID_PAGE_SET_STATE :: sev_mcmd_id where "SNP_MCMD_ID_PAGE_SET_STATE = 0x0C6"
definition SNP_MCMD_ID_DLFW_CONTINUE :: sev_mcmd_id where "SNP_MCMD_ID_DLFW_CONTINUE = 0x0CC"
definition SNP_MCMD_ID_VLEK_LOAD :: sev_mcmd_id where "SNP_MCMD_ID_VLEK_LOAD = 0x0CD"
definition SNP_MCMD_ID_FEATURE_INFO :: sev_mcmd_id where "SNP_MCMD_ID_FEATURE_INFO = 0x0CE"

lemmas dispatch_id_defs = mcmd_id_defs
  SEV_MCMD_ID_PLATFORM_STATUS_def SEV_MCMD_ID_PEK_GEN_def SEV_MCMD_ID_PEK_CSR_def
  SEV_MCMD_ID_PEK_CERT_IMPORT_def SEV_MCMD_ID_PDH_CERT_EXPORT_def SEV_MCMD_ID_PDH_GEN_def
  SEV_MCMD_ID_DF_FLUSH_def SEV_MCMD_ID_DOWNLOAD_FIRMWARE_def SEV_MCMD_ID_GET_ID_def
  SEV_MCMD_ID_INIT_EX_def SEV_MCMD_ID_NOP_def SEV_MCMD_ID_RING_BUFFER_def
  SEV_MCMD_ID_ACTIVATE_def SEV_MCMD_ID_DEACTIVATE_def SEV_MCMD_ID_GUEST_STATUS_def
  SEV_MCMD_ID_COPY_def SEV_MCMD_ID_ACTIVATE_EX_def SEV_MCMD_ID_LAUNCH_UPDATE_DATA_def
  SEV_MCMD_ID_LAUNCH_UPDATE_VMSA_def SEV_MCMD_ID_LAUNCH_SECRET_def SEV_MCMD_ID_ATTESTATION_def
  SEV_MCMD_ID_SEND_UPDATE_DATA_def SEV_MCMD_ID_SEND_UPDATE_VMSA_def
  SEV_MCMD_ID_RECEIVE_UPDATE_DATA_def SEV_MCMD_ID_RECEIVE_UPDATE_VMSA_def
  SEV_MCMD_ID_DBG_DECRYPT_def SEV_MCMD_ID_DBG_ENCRYPT_def SEV_MCMD_ID_SWAP_OUT_def
  SEV_MCMD_ID_SWAP_IN_def SNP_MCMD_ID_PLATFORM_STATUS_def SNP_MCMD_ID_DF_FLUSH_def
  SNP_MCMD_ID_INIT_EX_def SNP_MCMD_ID_SHUTDOWN_EX_def SNP_MCMD_ID_ACTIVATE_def
  SNP_MCMD_ID_GUEST_STATUS_def SNP_MCMD_ID_ACTIVATE_EX_def SNP_MCMD_ID_GCTX_CREATE_def
  SNP_MCMD_ID_LAUNCH_UPDATE_def SNP_MCMD_ID_DBG_DECRYPT_def SNP_MCMD_ID_DBG_ENCRYPT_def
  SNP_MCMD_ID_SWAP_OUT_def SNP_MCMD_ID_SWAP_IN_def SNP_MCMD_ID_PAGE_MOVE_def
  SNP_MCMD_ID_MD_INIT_def SNP_MCMD_ID_PAGE_RECLAIM_def SNP_MCMD_ID_PAGE_UNSMASH_def
  SNP_MCMD_ID_CONFIG_def SNP_MCMD_ID_DOWNLOAD_FIRMWARE_EX_def SNP_MCMD_ID_COMMIT_def
  SNP_MCMD_ID_PAGE_SET_STATE_def SNP_MCMD_ID_DLFW_CONTINUE_def SNP_MCMD_ID_VLEK_LOAD_def
  SNP_MCMD_ID_FEATURE_INFO_def

datatype cmd_buf_type =
    CMD_BUF_INPUT_ONLY | CMD_BUF_OUTPUT_ONLY | CMD_BUF_INPUT_AND_OUTPUT
  | CMD_BUF_INPUT_AND_OUTPUT_ERROR | CMD_BUF_IGNORE

record table_entry =
  te_size :: u32
  te_lock_df :: bool
  te_enforce :: bool
  te_type :: cmd_buf_type

definition master_rows :: "(sev_mcmd_id \<Rightarrow> u32) \<Rightarrow> (sev_mcmd_id \<times> table_entry) list" where
  "master_rows sz = [
     (SEV_MCMD_ID_INIT, \<lparr>te_size = sz SEV_MCMD_ID_INIT, te_lock_df = True, te_enforce = False, te_type = CMD_BUF_INPUT_ONLY\<rparr>),
     (SEV_MCMD_ID_SHUTDOWN, \<lparr>te_size = 0, te_lock_df = True, te_enforce = False, te_type = CMD_BUF_IGNORE\<rparr>),
     (SEV_MCMD_ID_PLATFORM_RESET, \<lparr>te_size = 0, te_lock_df = False, te_enforce = False, te_type = CMD_BUF_IGNORE\<rparr>),
     (SEV_MCMD_ID_PLATFORM_STATUS, \<lparr>te_size = sz SEV_MCMD_ID_PLATFORM_STATUS, te_lock_df = False, te_enforce = True, te_type = CMD_BUF_OUTPUT_ONLY\<rparr>),
     (SEV_MCMD_ID_PEK_GEN, \<lparr>te_size = 0, te_lock_df = False, te_enforce = False, te_type = CMD_BUF_IGNORE\<rparr>),
     (SEV_MCMD_ID_PEK_CSR, \<lparr>te_size = sz SEV_MCMD_ID_PEK_CSR, te_lock_df = False, te_enforce = True, te_type = CMD_BUF_INPUT_AND_OUTPUT_ERROR\<rparr>),
     (SEV_MCMD_ID_PEK_CERT_IMPORT, \<lparr>te_size = sz SEV_MCMD_ID_PEK_CERT_IMPORT, te_lock_df = False, te_enforce = False, te_type = CMD_BUF_INPUT_ONLY\<rparr>),
     (SEV_MCMD_ID_PDH_CERT_EXPORT, \<lparr>te_size = sz SEV_MCMD_ID_PDH_CERT_EXPORT, te_lock_df = False, te_enforce = True, te_type = CMD_BUF_INPUT_AND_OUTPUT_ERROR\<rparr>),
     (SEV_MCMD_ID_PDH_GEN, \<lparr>te_size = 0, te_lock_df = False, te_enforce = False, te_type = CMD_BUF_IGNORE\<rparr>),
     (SEV_MCMD_ID_DF_FLUSH, \<lparr>te_size = 0, te_lock_df = True, te_enforce = False, te_type = CMD_BUF_IGNORE\<rparr>),
     (SEV_MCMD_ID_DOWNLOAD_FIRMWARE, \<lparr>te_size = sz SEV_MCMD_ID_DOWNLOAD_FIRMWARE, te_lock_df = True, te_enforce = False, te_type = CMD_BUF_INPUT_ONLY\<rparr>),
     (SEV_MCMD_ID_GET_ID, \<lparr>te_size = sz SEV_MCMD_ID_GET_ID, te_lock_df = False, te_enforce = True, te_type = CMD_BUF_INPUT_AND_OUTPUT_ERROR\<rparr>),
     (SEV_MCMD_ID_INIT_EX, \<lparr>te_size = sz SEV_MCMD_ID_INIT_EX, te_lock_df = True, te_enforce = False, te_type = CMD_BUF_INPUT_ONLY\<rparr>),
     (SEV_MCMD_ID_NOP, \<lparr>te_size = 0, te_lock_df = False, te_enforce = False, te_type = CMD_BUF_IGNORE\<rparr>),
     (SEV_MCMD_ID_RING_BUFFER, \<lparr>te_size = sz SEV_MCMD_ID_RING_BUFFER, te_lock_df = True, te_enforce = False, te_type = CMD_BUF_INPUT_ONLY\<rparr>),
     (SEV_MCMD_ID_DECOMMISSION, \<lparr>te_size = sz SEV_MCMD_ID_DECOMMISSION, te_lock_df = True, te_enforce = False, te_type = CMD_BUF_INPUT_ONLY\<rparr>),
     (SEV_MCMD_ID_ACTIVATE, \<lparr>te_size = sz SEV_MCMD_ID_ACTIVATE, te_lock_df = True, te_enforce = False, te_type = CMD_BUF_INPUT_ONLY\<rparr>),
     (SEV_MCMD_ID_DEACTIVATE, \<lparr>te_size = sz SEV_MCMD_ID_DEACTIVATE, te_lock_df = True, te_enforce = False, te_type = CMD_BUF_INPUT_ONLY\<rparr>),
     (SEV_MCMD_ID_GUEST_STATUS, \<lparr>te_size = sz SEV_MCMD_ID_GUEST_STATUS, te_lock_df = True, te_enforce = True, te_type = CMD_BUF_INPUT_AND_OUTPUT\<rparr>),
     (SEV_MCMD_ID_COPY, \<lparr>te_size = sz SEV_MCMD_ID_COPY, te_lock_df = True, te_enforce = False, te_type = CMD_BUF_INPUT_ONLY\<rparr>),
     (SEV_MCMD_ID_ACTIVATE_EX, \<lparr>te_size = sz SEV_MCMD_ID_ACTIVATE_EX, te_lock_df = True, te_enforce = False, te_type = CMD_BUF_INPUT_ONLY\<rparr>),
     (SEV_MCMD_ID_LAUNCH_START, \<lparr>te_size = sz SEV_MCMD_ID_LAUNCH_START, te_lock_df = True, te_enforce = True, te_type = CMD_BUF_INPUT_AND_OUTPUT\<rparr>),
     (SEV_MCMD_ID_LAUNCH_UPDATE_DATA, \<lparr>te_size = sz SEV_MCMD_ID_LAUNCH_UPDATE_DATA, te_lock_df = True, te_enforce = False, te_type = CMD_BUF_INPUT_ONLY\<rparr>),
     (SEV_MCMD_ID_LAUNCH_UPDATE_VMSA, \<lparr>te_size = sz SEV_MCMD_ID_LAUNCH_UPDATE_VMSA, te_lock_df = True, te_enforce = False, te_type = CMD_BUF_INPUT_ONLY\<rparr>),
     (SEV_MCMD_ID_LAUNCH_MEASURE, \<lparr>te_size = sz SEV_MCMD_ID_LAUNCH_MEASURE, te_lock_df = True, te_enforce = True, te_type = CMD_BUF_INPUT_AND_OUTPUT_ERROR\<rparr>),
     (SEV_MCMD_ID_LAUNCH_SECRET, \<lparr>te_size = sz SEV_MCMD_ID_LAUNCH_SECRET, te_lock_df = True, te_enforce = False, te_type = CMD_BUF_INPUT_ONLY\<rparr>),
     (SEV_MCMD_ID_LAUNCH_FINISH, \<lparr>te_size = sz SEV_MCMD_ID_LAUNCH_FINISH, te_lock_df = True, te_enforce = False, te_type = CMD_BUF_INPUT_ONLY\<rparr>),
     (SEV_MCMD_ID_ATTESTATION, \<lparr>te_size = sz SEV_MCMD_ID_ATTESTATION, te_lock_df = True, te_enforce = False, te_type = CMD_BUF_INPUT_AND_OUTPUT_ERROR\<rparr>),
     (SEV_MCMD_ID_SEND_START, \<lparr>te_size = sz SEV_MCMD_ID_SEND_START, te_lock_df = True, te_enforce = True, te_type = CMD_BUF_INPUT_AND_OUTPUT_ERROR\<rparr>),
     (SEV_MCMD_ID_SEND_UPDATE_DATA, \<lparr>te_size = sz SEV_MCMD_ID_SEND_UPDATE_DATA, te_lock_df = True, te_enforce = True, te_type = CMD_BUF_INPUT_AND_OUTPUT_ERROR\<rparr>),
     (SEV_MCMD_ID_SEND_UPDATE_VMSA, \<lparr>te_size = sz SEV_MCMD_ID_SEND_UPDATE_VMSA, te_lock_df = True, te_enforce = True, te_type = CMD_BUF_INPUT_AND_OUTPUT_ERROR\<rparr>),
     (SEV_MCMD_ID_SEND_FINISH, \<lparr>te_size = sz SEV_MCMD_ID_SEND_FINISH, te_lock_df = True, te_enforce = False, te_type = CMD_BUF_INPUT_ONLY\<rparr>),
     (SEV_MCMD_ID_SEND_CANCEL, \<lparr>te_size = sz SEV_MCMD_ID_SEND_CANCEL, te_lock_df = True, te_enforce = False, te_type = CMD_BUF_INPUT_ONLY\<rparr>),
     (SEV_MCMD_ID_RECEIVE_START, \<lparr>te_size = sz SEV_MCMD_ID_RECEIVE_START, te_lock_df = True, te_enforce = True, te_type = CMD_BUF_INPUT_AND_OUTPUT\<rparr>),
     (SEV_MCMD_ID_RECEIVE_UPDATE_DATA, \<lparr>te_size = sz SEV_MCMD_ID_RECEIVE_UPDATE_DATA, te_lock_df = True, te_enforce = False, te_type = CMD_BUF_INPUT_ONLY\<rparr>),
     (SEV_MCMD_ID_RECEIVE_UPDATE_VMSA, \<lparr>te_size = sz SEV_MCMD_ID_RECEIVE_UPDATE_VMSA, te_lock_df = True, te_enforce = False, te_type = CMD_BUF_INPUT_ONLY\<rparr>),
     (SEV_MCMD_ID_RECEIVE_FINISH, \<lparr>te_size = sz SEV_MCMD_ID_RECEIVE_FINISH, te_lock_df = True, te_enforce = False, te_type = CMD_BUF_INPUT_ONLY\<rparr>),
     (SEV_MCMD_ID_DBG_DECRYPT, \<lparr>te_size = sz SEV_MCMD_ID_DBG_DECRYPT, te_lock_df = True, te_enforce = False, te_type = CMD_BUF_INPUT_ONLY\<rparr>),
     (SEV_MCMD_ID_DBG_ENCRYPT, \<lparr>te_size = sz SEV_MCMD_ID_DBG_ENCRYPT, te_lock_df = True, te_enforce = False, te_type = CMD_BUF_INPUT_ONLY\<rparr>),
     (SEV_MCMD_ID_SWAP_OUT, \<lparr>te_size = sz SEV_MCMD_ID_SWAP_OUT, te_lock_df = True, te_enforce = True, te_type = CMD_BUF_INPUT_AND_OUTPUT_ERROR\<rparr>),
     (SEV_MCMD_ID_SWAP_IN, \<lparr>te_size = sz SEV_MCMD_ID_SWAP_IN, te_lock_df = True, te_enforce = False, te_type = CMD_BUF_INPUT_ONLY\<rparr>),
     (SNP_MCMD_ID_INIT, \<lparr>te_size = 0, te_lock_df = True, te_enforce = False, te_type = CMD_BUF_IGNORE\<rparr>),
     (SNP_MCMD_ID_SHUTDOWN, \<lparr>te_size = 0, te_lock_df = True, te_enforce = False, te_type = CMD_BUF_IGNORE\<rparr>),
     (SNP_MCMD_ID_PLATFORM_STATUS, \<lparr>te_size = sz SNP_MCMD_ID_PLATFORM_STATUS, te_lock_df = True, te_enforce = False, te_type = CMD_BUF_INPUT_ONLY\<rparr>),
     (SNP_MCMD_ID_DF_FLUSH, \<lparr>te_size = 0, te_lock_df = True, te_enforce = False, te_type = CMD_BUF_IGNORE\<rparr>),
     (SNP_MCMD_ID_INIT_EX, \<lparr>te_size = sz SNP_MCMD_ID_INIT_EX, te_lock_df = True, te_enforce = False, te_type = CMD_BUF_INPUT_ONLY\<rparr>),
     (SNP_MCMD_ID_SHUTDOWN_EX, \<lparr>te_size = sz SNP_MCMD_ID_SHUTDOWN_EX, te_lock_df = True, te_enforce = False, te_type = CMD_BUF_INPUT_ONLY\<rparr>),
     (SNP_MCMD_ID_DECOMMISSION, \<lparr>te_size = sz SNP_MCMD_ID_DECOMMISSION, te_lock_df = True, te_enforce = False, te_type = CMD_BUF_INPUT_ONLY\<rparr>),
     (SNP_MCMD_ID_ACTIVATE, \<lparr>te_size = sz SNP_MCMD_ID_ACTIVATE, te_lock_df = True, te_enforce = False, te_type = CMD_BUF_INPUT_ONLY\<rparr>),
     (SNP_MCMD_ID_GUEST_STATUS, \<lparr>te_size = sz SNP_MCMD_ID_GUEST_STATUS, te_lock_df = False, te_enforce = False, te_type = CMD_BUF_INPUT_ONLY\<rparr>),
     (SNP_MCMD_ID_ACTIVATE_EX, \<lparr>te_size = sz SNP_MCMD_ID_ACTIVATE_EX, te_lock_df = True, te_enforce = False, te_type = CMD_BUF_INPUT_ONLY\<rparr>),
     (SNP_MCMD_ID_GCTX_CREATE, \<lparr>te_size = sz SNP_MCMD_ID_GCTX_CREATE, te_lock_df = True, te_enforce = False, te_type = CMD_BUF_INPUT_ONLY\<rparr>),
     (SNP_MCMD_ID_GUEST_REQUEST, \<lparr>te_size = sz SNP_MCMD_ID_GUEST_REQUEST, te_lock_df = True, te_enforce = False, te_type = CMD_BUF_INPUT_ONLY\<rparr>),
     (SNP_MCMD_ID_LAUNCH_START, \<lparr>te_size = sz SNP_MCMD_ID_LAUNCH_START, te_lock_df = True, te_enforce = False, te_type = CMD_BUF_INPUT_ONLY\<rparr>),
     (SNP_MCMD_ID_LAUNCH_UPDATE, \<lparr>te_size = sz SNP_MCMD_ID_LAUNCH_UPDATE, te_lock_df = True, te_enforce = False, te_type = CMD_BUF_INPUT_ONLY\<rparr>),
     (SNP_MCMD_ID_LAUNCH_FINISH, \<lparr>te_size = sz SNP_MCMD_ID_LAUNCH_FINISH, te_lock_df = True, te_enforce = False, te_type = CMD_BUF_INPUT_ONLY\<rparr>),
     (SNP_MCMD_ID_DBG_DECRYPT, \<lparr>te_size = sz SNP_MCMD_ID_DBG_DECRYPT, te_lock_df = True, te_enforce = False, te_type = CMD_BUF_INPUT_ONLY\<rparr>),
     (SNP_MCMD_ID_DBG_ENCRYPT, \<lparr>te_size = sz SNP_MCMD_ID_DBG_ENCRYPT, te_lock_df = True, te_enforce = False, te_type = CMD_BUF_INPUT_ONLY\<rparr>),
     (SNP_MCMD_ID_SWAP_OUT, \<lparr>te_size = sz SNP_MCMD_ID_SWAP_OUT, te_lock_df = True, te_enforce = False, te_type = CMD_BUF_INPUT_ONLY\<rparr>),
     (SNP_MCMD_ID_SWAP_IN, \<lparr>te_size = sz SNP_MCMD_ID_SWAP_IN, te_lock_df = True, te_enforce = False, te_type = CMD_BUF_INPUT_ONLY\<rparr>),
     (SNP_MCMD_ID_PAGE_MOVE, \<lparr>te_size = sz SNP_MCMD_ID_PAGE_MOVE, te_lock_df = True, te_enforce = False, te_type = CMD_BUF_INPUT_ONLY\<rparr>),
     (SNP_MCMD_ID_MD_INIT, \<lparr>te_size = sz SNP_MCMD_ID_MD_INIT, te_lock_df = False, te_enforce = False, te_type = CMD_BUF_INPUT_ONLY\<rparr>),
     (SNP_MCMD_ID_PAGE_RECLAIM, \<lparr>te_size = sz SNP_MCMD_ID_PAGE_RECLAIM, te_lock_df = False, te_enforce = False, te_type = CMD_BUF_INPUT_ONLY\<rparr>),
     (SNP_MCMD_ID_PAGE_UNSMASH, \<lparr>te_size = sz SNP_MCMD_ID_PAGE_UNSMASH, te_lock_df = False, te_enforce = False, te_type = CMD_BUF_INPUT_ONLY\<rparr>),
     (SNP_MCMD_ID_CONFIG, \<lparr>te_size = sz SNP_MCMD_ID_CONFIG, te_lock_df = True, te_enforce = False, te_type = CMD_BUF_INPUT_ONLY\<rparr>),
     (SNP_MCMD_ID_DOWNLOAD_FIRMWARE_EX, \<lparr>te_size = sz SNP_MCMD_ID_DOWNLOAD_FIRMWARE_EX, te_lock_df = True, te_enforce = False, te_type = CMD_BUF_INPUT_ONLY\<rparr>),
     (SNP_MCMD_ID_COMMIT, \<lparr>te_size = sz SNP_MCMD_ID_COMMIT, te_lock_df = True, te_enforce = False, te_type = CMD_BUF_INPUT_ONLY\<rparr>),
     (SNP_MCMD_ID_PAGE_SET_STATE, \<lparr>te_size = sz SNP_MCMD_ID_PAGE_SET_STATE, te_lock_df = False, te_enforce = False, te_type = CMD_BUF_INPUT_ONLY\<rparr>),
     (SNP_MCMD_ID_DLFW_CONTINUE, \<lparr>te_size = 0, te_lock_df = True, te_enforce = False, te_type = CMD_BUF_IGNORE\<rparr>),
     (SNP_MCMD_ID_VLEK_LOAD, \<lparr>te_size = sz SNP_MCMD_ID_VLEK_LOAD, te_lock_df = False, te_enforce = False, te_type = CMD_BUF_INPUT_ONLY\<rparr>),
     (SNP_MCMD_ID_FEATURE_INFO, \<lparr>te_size = sz SNP_MCMD_ID_FEATURE_INFO, te_lock_df = False, te_enforce = False, te_type = CMD_BUF_INPUT_ONLY\<rparr>)]"

text \<open>An entry without a handler is \<open>None\<close>.\<close>

definition master_handler_table :: "(sev_mcmd_id \<Rightarrow> u32) \<Rightarrow> sev_mcmd_id \<Rightarrow> table_entry option" where
  "master_handler_table sz = map_of (master_rows sz)"

section \<open>State and environment\<close>

record 's disp =
  ds_sev :: 's
  ds_x86 :: x86
  ds_df :: df
  ds_table :: "sev_mcmd_id \<Rightarrow> table_entry option"
  ds_rmp_init :: bool
  ds_snp_state :: snp_state

record 's disp_env =
  de_handler :: "sev_mcmd_id \<Rightarrow> u8 list option \<Rightarrow> 's disp \<Rightarrow> sev_status \<times> u8 list \<times> 's disp"
  de_die :: nat
  de_dies :: nat
  de_al8k :: "u64 \<Rightarrow> bool"
  de_uc :: "x86 \<Rightarrow> x86"
  de_plus64 :: "sev_status \<Rightarrow> sev_status"
  de_entry0 :: rmp_entry
  de_buf0 :: "u8 list"

definition to_addr64 :: "u32 \<Rightarrow> u32 \<Rightarrow> u64" where
  "to_addr64 lo hi = push_bit 32 (ucast hi) OR ucast lo"

section \<open>Dispatch\<close>

definition copy_output :: "u64 \<Rightarrow> u32 \<Rightarrow> u8 list \<Rightarrow> 's disp \<Rightarrow> sev_status \<times> 's disp" where
  "copy_output address n buf D =
     (case copy_to_x86 address (take (unat n) buf) (ds_x86 D) of (status, X) \<Rightarrow> (status, D\<lparr>ds_x86 := X\<rparr>))"

text \<open>The check before the command: SNP command buffers must be firmware pages.\<close>

definition check_command_buffer ::
  "'s disp_env \<Rightarrow> table_entry \<Rightarrow> u64 \<Rightarrow> 's disp \<Rightarrow> sev_status \<times> 's disp" where
  "check_command_buffer E e address D =
     (if ds_rmp_init D \<and> te_enforce e \<and> ds_snp_state D = SNP_STATE_INIT then
        let status = validate_address_range (ds_x86 D) address (ucast (te_size e))
        in if status \<noteq> SEV_STATUS_SUCCESS then (status, D)
           else case check_page_range_firmware_writable (de_entry0 E) address (te_size e) (ds_x86 D) of
             (status, X) \<Rightarrow>
               (if status \<noteq> SEV_STATUS_SUCCESS then de_plus64 E status else SEV_STATUS_SUCCESS, D\<lparr>ds_x86 := X\<rparr>)
      else (SEV_STATUS_SUCCESS, D))"

text \<open>The switch over the type of the command buffer.\<close>

definition run_command ::
  "'s disp_env \<Rightarrow> sev_mcmd_id \<Rightarrow> table_entry \<Rightarrow> u64 \<Rightarrow> 's disp \<Rightarrow> sev_status \<times> 's disp" where
  "run_command E cid e address D =
     (case te_type e of
        CMD_BUF_IGNORE \<Rightarrow> (case de_handler E cid None D of (status, _, D1) \<Rightarrow> (status, D1))
      | CMD_BUF_OUTPUT_ONLY \<Rightarrow>
          (case de_handler E cid (Some (de_buf0 E)) D of (status, buf, D1) \<Rightarrow>
             if status \<noteq> SEV_STATUS_SUCCESS then (status, D1)
             else copy_output address (te_size e) buf D1)
      | _ \<Rightarrow>
          (case copy_from_x86 address (take (unat (te_size e)) (de_buf0 E)) (ucast (te_size e)) (ds_x86 D) of
             (status, inp) \<Rightarrow>
               if status \<noteq> SEV_STATUS_SUCCESS then (status, D)
               else case de_handler E cid (Some (inp @ drop (unat (te_size e)) (de_buf0 E))) D of (status, buf, D1) \<Rightarrow>
                 (case te_type e of
                    CMD_BUF_INPUT_ONLY \<Rightarrow> (status, D1)
                  | CMD_BUF_INPUT_AND_OUTPUT \<Rightarrow>
                      if status \<noteq> SEV_STATUS_SUCCESS then (status, D1)
                      else copy_output address (te_size e) buf D1
                  | _ \<Rightarrow>
                      if status = SEV_STATUS_INVALID_LENGTH
                      then (status, snd (copy_output address (te_size e) buf D1))
                      else if status = SEV_STATUS_SUCCESS then copy_output address (te_size e) buf D1
                      else (status, D1))))"

text \<open>The part at the label \<open>end\<close>: the page of the command buffer becomes a RECLAIM page.\<close>

definition reclaim_command_buffer :: "'s disp_env \<Rightarrow> u64 \<Rightarrow> 's disp \<Rightarrow> 's disp" where
  "reclaim_command_buffer E address D =
     (case get_rmp_paddr (ds_x86 D) address 0 of (status, paddr) \<Rightarrow>
        if status \<noteq> SEV_STATUS_SUCCESS then D
        else case rmp_entry_read paddr (de_entry0 E) (ds_x86 D) of (status, entry, X1) \<Rightarrow>
          if status \<noteq> SEV_STATUS_SUCCESS then D\<lparr>ds_x86 := X1\<rparr>
          else
            let entry1 = set_immutable 0 entry; entry2 = set_lock (rmp_immutable entry1) entry1
            in case rmp_entry_write (de_al8k E) (de_uc E) paddr entry2 X1 of
                 (_, _, X2) \<Rightarrow> D\<lparr>ds_x86 := X2\<rparr>)"

definition unlock_df :: "'s disp_env \<Rightarrow> table_entry \<Rightarrow> 's disp \<Rightarrow> 's disp" where
  "unlock_df E e D =
     (if te_lock_df e then D\<lparr>ds_df := snd (df_access_unlock (de_die E) (de_dies E) (ds_df D))\<rparr> else D)"

definition sev_dispatch_master ::
  "'s disp_env \<Rightarrow> sev_mcmd_id \<Rightarrow> u32 \<Rightarrow> u32 \<Rightarrow> 's disp \<Rightarrow> sev_status \<times> 's disp" where
  "sev_dispatch_master E cid lo hi D =
     (let address = to_addr64 lo hi
      in if cid \<ge> SEV_MCMD_ID_LIMIT then (SEV_STATUS_INVALID_COMMAND, D)
         else case ds_table D cid of
           None \<Rightarrow> (SEV_STATUS_INVALID_COMMAND, D)
         | Some e \<Rightarrow>
             let D1 = D\<lparr>ds_x86 := reset_cpu_tmr_addr_check (reset_rmp_addr_check (ds_x86 D))\<rparr>;
                 (status, F) = (if te_lock_df e then df_access_lock (de_die E) (de_dies E) (ds_df D1)
                                else (SEV_STATUS_SUCCESS, ds_df D1));
                 D2 = D1\<lparr>ds_df := F\<rparr>
             in if status \<noteq> SEV_STATUS_SUCCESS then (status, D2)
                else case check_command_buffer E e address D2 of (status, D3) \<Rightarrow>
                  if status \<noteq> SEV_STATUS_SUCCESS then (status, unlock_df E e D3)
                  else case run_command E cid e address D3 of (status, D4) \<Rightarrow>
                    (status, unlock_df E e
                      (if te_enforce e then reclaim_command_buffer E address D4 else D4)))"

definition clear_dispatch_master :: "sev_mcmd_id \<Rightarrow> 's disp \<Rightarrow> sev_status \<times> 's disp" where
  "clear_dispatch_master cid D =
     (SEV_STATUS_SUCCESS, D\<lparr>ds_table := (\<lambda>i. if i \<noteq> cid then None else ds_table D i)\<rparr>)"

section \<open>The table\<close>

text \<open>
  The table of commands is consistent: every row has an id below the limit; a command that
  ignores its buffer has no buffer size; and a command is marked as writing its buffer exactly if
  its type has output, with the one exception of ATTESTATION.
\<close>

theorem command_table_consistent:
  assumes "master_handler_table sz cid = Some e"
  shows "cid < SEV_MCMD_ID_LIMIT \<and> (te_type e = CMD_BUF_IGNORE \<longrightarrow> te_size e = 0) \<and>
    (te_enforce e \<longleftrightarrow> te_type e \<notin> {CMD_BUF_INPUT_ONLY, CMD_BUF_IGNORE} \<and> cid \<noteq> SEV_MCMD_ID_ATTESTATION)"
proof -
  have "list_all (\<lambda>(c, e). c < SEV_MCMD_ID_LIMIT \<and> (te_type e = CMD_BUF_IGNORE \<longrightarrow> te_size e = 0) \<and>
      (te_enforce e \<longleftrightarrow> te_type e \<notin> {CMD_BUF_INPUT_ONLY, CMD_BUF_IGNORE} \<and> c \<noteq> SEV_MCMD_ID_ATTESTATION))
      (master_rows sz)"
    by (simp add: master_rows_def dispatch_id_defs)
  moreover from assms have "(cid, e) \<in> set (master_rows sz)"
    unfolding master_handler_table_def by (rule map_of_SomeD)
  ultimately show ?thesis by (auto simp: list_all_iff)
qed

section \<open>The lock of the fabric\<close>

lemma lock_smu: "df_access_lock i n D = (st, D') \<Longrightarrow> df_smu D' = df_smu D \<and> df_slave D' = df_slave D"
  by (auto simp: df_access_lock_def sev_hal_df_acquire_def get_cstate_control_def read32_def slave_df_def
      access_df_reg_direct_def Let_def split: prod.split_asm if_split_asm)

lemma unlock_sleeps:
  assumes "\<And>k. df_smu D k" and "\<And>k. df_slave D k = SEV_STATUS_SUCCESS"
  shows "\<not> df_awake (snd (df_access_unlock 0 n D)) \<and> (n > 1 \<longrightarrow> \<not> df_slave_awake (snd (df_access_unlock 0 n D)))"
  using assms by (simp add: df_access_unlock_def sev_hal_df_release_def slave_df_def Let_def)

lemma run_command_df:
  assumes "\<And>cid buf D. P (ds_df D) \<Longrightarrow> P (ds_df (snd (snd (de_handler E cid buf D))))" and "P (ds_df D)"
    and "run_command E cid e address D = (st, D')"
  shows "P (ds_df D')"
proof -
  have c: "ds_df (snd (copy_output a n b D)) = ds_df D" for a n b D
    by (simp add: copy_output_def split: prod.split)
  have c': "P (ds_df D2)" if "copy_output a n b D1 = (s, D2)" "P (ds_df D1)" for a n b D1 s D2
    using c [of a n b D1] that by simp
  have h: "P (ds_df D2)" if "de_handler E cid buf D = (s, b, D2)" for s b D2 buf
    using assms(1) [OF assms(2), of cid buf] that by simp
  show ?thesis
    using assms(2,3)
    by (auto simp: run_command_def c intro: h c' split: prod.split_asm if_split_asm cmd_buf_type.split_asm)
qed

lemma reclaim_df: "ds_df (reclaim_command_buffer E address D) = ds_df D"
  by (simp add: reclaim_command_buffer_def Let_def split: prod.split)

lemma check_df: "check_command_buffer E e address D = (st, D') \<Longrightarrow> ds_df D' = ds_df D"
  by (auto simp: check_command_buffer_def Let_def split: if_split_asm prod.split_asm)

text \<open>
  C28: A command that locks the data fabric lets it sleep again on every path, whatever the check
  of the buffer, the handler and the copies return, provided the lock was obtained and the power
  controller obeys.
\<close>

theorem dispatch_releases_the_fabric:
  assumes "sev_dispatch_master E cid lo hi D = (st, D')"
    and "cid < SEV_MCMD_ID_LIMIT" and "ds_table D cid = Some e" and "te_lock_df e" and "de_die E = 0"
    and "fst (df_access_lock 0 (de_dies E) (ds_df D)) = SEV_STATUS_SUCCESS"
    and "\<forall>k. df_smu (ds_df D) k" and "\<forall>k. df_slave (ds_df D) k = SEV_STATUS_SUCCESS"
    and "\<forall>c buf A. df_smu (ds_df (snd (snd (de_handler E c buf A)))) = df_smu (ds_df A) \<and>
           df_slave (ds_df (snd (snd (de_handler E c buf A)))) = df_slave (ds_df A)"
  shows "\<not> df_awake (ds_df D') \<and> (de_dies E > 1 \<longrightarrow> \<not> df_slave_awake (ds_df D'))"
proof -
  let ?P = "\<lambda>F. df_smu F = df_smu (ds_df D) \<and> df_slave F = df_slave (ds_df D)"
  obtain F where l: "df_access_lock 0 (de_dies E) (ds_df D) = (SEV_STATUS_SUCCESS, F)"
    using assms(6) by (metis prod.collapse)
  let ?D2 = "D\<lparr>ds_x86 := reset_cpu_tmr_addr_check (reset_rmp_addr_check (ds_x86 D)), ds_df := F\<rparr>"
  obtain s3 D3 where c: "check_command_buffer E e (to_addr64 lo hi) ?D2 = (s3, D3)" by fastforce
  obtain s4 D4 where r: "run_command E cid e (to_addr64 lo hi) D3 = (s4, D4)" by fastforce
  have P3: "?P (ds_df D3)" using check_df [OF c] lock_smu [OF l] by simp
  have P4: "?P (ds_df D4)" by (rule run_command_df [where P = ?P, OF _ P3 r]) (use assms(9) in auto)
  obtain G where G: "ds_df D' = snd (df_access_unlock 0 (de_dies E) G)" "?P G"
    using assms(1-5) l c r P3 P4
    by (auto simp: sev_dispatch_master_def Let_def unlock_df_def reclaim_df split: if_split_asm)
  show ?thesis unfolding G(1) by (rule unlock_sleeps) (use G(2) assms(7,8) in auto)
qed

text \<open>
  The lock does not nest: reading a region that is not cached, as the address check does in
  the middle of a locked command, ends with the fabric free to sleep although it was locked before.
\<close>

theorem tmr_read_drops_the_lock:
  assumes "d_id S = 0" and "\<not> tmr_cache_is_present (d_cache S) nr" and "nr \<le> 7"
    and "\<forall>k. df_smu (d_df S) k" and "tmr_cache_read nr S = (SEV_STATUS_SUCCESS, t, S')"
  shows "\<not> df_awake (d_df S')"
proof -
  obtain s1 D1 where l: "df_access_lock 0 (d_total S) (d_df S) = (s1, D1)" by fastforce
  obtain s2 t2 D2 where g: "get_tmr_info nr (tmr_entry (d_cache S) nr) D1 = (s2, t2, D2)" by (metis prod_cases3)
  have r: "df_smu D' = df_smu D" if "read_tmr_regs i offs D = (st, vs, D')" for i offs D st vs D'
    using that by (induction offs arbitrary: D st vs) (auto simp: read_tmr_reg_eq split: if_split_asm prod.split_asm)
  have "df_smu D2 = df_smu D1"
    using g r by (auto simp: get_tmr_info_def simp del: read_tmr_regs.simps split: prod.split_asm if_split_asm)
  then have "\<And>k. df_smu D2 k" using lock_smu [OF l] assms(4) by simp
  then have "\<not> df_awake (snd (df_access_unlock 0 (d_total S) D2))"
    by (auto simp: df_access_unlock_def sev_hal_df_release_def slave_df_def Let_def split: prod.split)
  with assms(1,2,3,5) l g show ?thesis
    by (auto simp: tmr_cache_read_def TMR_LAST_def Let_def split: if_split_asm)
qed

text \<open>
  When the fabric stays idle after its C-states were disabled, the command is refused and the
  fabric is not released: the C-states remain disabled.
\<close>

theorem failed_lock_is_not_released:
  assumes "cid < SEV_MCMD_ID_LIMIT" and "ds_table D cid = Some e" and "te_lock_df e" and "de_die E = 0"
    and "df_smu (ds_df D) (df_tick (ds_df D))" and "df_map (ds_df D) (Suc (df_tick (ds_df D))) = SEV_STATUS_SUCCESS"
    and "all_clients_idle (df_reg (ds_df D) (CSTATE_CONTROL_FUNC, CSTATE_CONTROL_OFFSET))"
  shows "\<exists>D'. sev_dispatch_master E cid lo hi D = (SEV_STATUS_HARDWARE_PLATFORM, D') \<and> df_awake (ds_df D')"
proof -
  have n: "\<not> is_ficad CSTATE_CONTROL_FUNC CSTATE_CONTROL_OFFSET"
    by (simp add: is_ficad_def CSTATE_CONTROL_FUNC_def FICAD_FUNC_def)
  obtain F where "df_access_lock 0 (de_dies E) (ds_df D) = (SEV_STATUS_HARDWARE_PLATFORM, F)" "df_awake F"
    using assms(5-7)
    by (simp add: df_access_lock_def sev_hal_df_acquire_def get_cstate_control_def read32_def
        access_df_reg_direct_def Let_def hw_read32_def n low_half)
  with assms(1-4) show ?thesis by (simp add: sev_dispatch_master_def Let_def not_le)
qed

section \<open>The command buffer\<close>

lemma reset_fields:
  "xs_rmp_base (reset_cpu_tmr_addr_check (reset_rmp_addr_check X)) = xs_rmp_base X"
  "xs_rmp_end (reset_cpu_tmr_addr_check (reset_rmp_addr_check X)) = xs_rmp_end X"
  "xs_mem (reset_cpu_tmr_addr_check (reset_rmp_addr_check X)) = xs_mem X"
  by (simp_all add: reset_cpu_tmr_addr_check_def reset_rmp_addr_check_def)

lemma reset_skip: "xs_skip_rmp (reset_cpu_tmr_addr_check (reset_rmp_addr_check X)) = 0"
  by (simp add: reset_cpu_tmr_addr_check_def reset_rmp_addr_check_def)

text \<open>A buffer whose first page may not be written does not pass the check, which changes no memory.\<close>

lemma first_page_refused:
  assumes "\<not> page_may_be_written X a" and "xs_skip_rmp X + 1 \<noteq> 0" and "xs_rmp_end X < 2 ^ 51"
  obtains st where "check_page_range_firmware_writable e0 a n X = (st, X)" and "st \<noteq> SEV_STATUS_SUCCESS"
proof -
  obtain st p e s Y where r: "rmp_get_addr_entry_state a (0, e0, SNP_PAGE_STATE_INVALID) X = (st, (p, e, s), Y)"
    by (metis prod.collapse)
  have Y: "Y = X" by (rule state_keeps [OF r assms(2)])
  have "\<not> (s = SNP_PAGE_STATE_FIRMWARE \<or> s = SNP_PAGE_STATE_DEFAULT)" if "st = SEV_STATUS_SUCCESS"
    using entry_state_spec(2) [OF r [unfolded that] assms(2,3)] assms(1) by blast
  then show thesis
    using that r Y
    by (cases "st = SEV_STATUS_SUCCESS") (simp_all add: check_page_range_firmware_writable_def firmware_writable_loop.simps [of a] Let_def)
qed

lemma unlock_df_keeps: "ds_x86 (unlock_df E e D) = ds_x86 D" "ds_sev (unlock_df E e D) = ds_sev D"
  by (simp_all add: unlock_df_def)

text \<open>
  C27: Once SNP is initialised, a command that is marked \<open>CMD_BUF_WRITE\<close> is refused when its buffer
  starts in a page that is neither FIRMWARE nor DEFAULT: its handler is not called, and no byte of
  memory changes. (Adding 64 to a status other than success does not give success.)
\<close>

theorem foreign_buffer_is_refused:
  assumes "sev_dispatch_master E cid lo hi D = (st, D')" and "\<not> page_may_be_written (ds_x86 D) (to_addr64 lo hi)"
    and "ds_table D cid = Some e" and "te_enforce e" and "ds_rmp_init D" and "ds_snp_state D = SNP_STATE_INIT"
    and "\<forall>st. st \<noteq> SEV_STATUS_SUCCESS \<longrightarrow> de_plus64 E st \<noteq> SEV_STATUS_SUCCESS"
    and "xs_rmp_end (ds_x86 D) < 2 ^ 51"
  shows "st \<noteq> SEV_STATUS_SUCCESS \<and> ds_sev D' = ds_sev D \<and> xs_mem (ds_x86 D') = xs_mem (ds_x86 D)"
proof -
  let ?X = "reset_cpu_tmr_addr_check (reset_rmp_addr_check (ds_x86 D))" and ?a = "to_addr64 lo hi"
  have "page_may_be_written ?X ?a = page_may_be_written (ds_x86 D) ?a"
    by (simp add: reset_fields Let_def page_may_be_written_def page_entry_def get_rmp_paddr_def local_get_rmp_paddr_def)
  then obtain s where s: "check_page_range_firmware_writable (de_entry0 E) ?a (te_size e) ?X = (s, ?X)" "s \<noteq> SEV_STATUS_SUCCESS"
    using first_page_refused [of ?X ?a "de_entry0 E" "te_size e"] assms(2,8) by (auto simp: reset_skip reset_fields)
  have refused: "\<exists>st. check_command_buffer E e ?a D1 = (st, D1) \<and> st \<noteq> SEV_STATUS_SUCCESS"
    if "ds_x86 D1 = ?X" "ds_rmp_init D1" "ds_snp_state D1 = SNP_STATE_INIT" for D1
  proof (cases "validate_address_range ?X ?a (ucast (te_size e)) = SEV_STATUS_SUCCESS")
    case True
    have "D1\<lparr>ds_x86 := ?X\<rparr> = D1" using that(1) by (metis disp.surjective disp.update_convs(2) disp.select_convs(2))
    then show ?thesis using s assms(4,7) that True by (simp add: check_command_buffer_def Let_def)
  qed (use assms(4) that in \<open>simp add: check_command_buffer_def Let_def\<close>)
  define D1 where "D1 F = D\<lparr>ds_x86 := ?X, ds_df := F\<rparr>" for F
  obtain c where c: "check_command_buffer E e ?a (D1 F) = (c F, D1 F)" "c F \<noteq> SEV_STATUS_SUCCESS" for F
    using refused [of "D1 _"] assms(5,6) unfolding D1_def by simp metis
  show ?thesis
    using assms(1,3) c
    by (auto simp: sev_dispatch_master_def Let_def D1_def [symmetric] split: if_split_asm prod.split_asm)
      (simp_all add: D1_def unlock_df_keeps reset_fields)
qed

text \<open>
  At the end of a command that writes its buffer, the entry of the buffer's first page loses
  its immutable and lock bits, whatever its state: a FIRMWARE page becomes a RECLAIM page, but so
  does a CONTEXT page when SNP is not initialised and the state is not checked.
\<close>

theorem buffer_page_is_reclaimed:
  assumes "get_rmp_paddr (ds_x86 D) address 0 = (SEV_STATUS_SUCCESS, p)"
    and "rmp_entry_read p (de_entry0 E) (ds_x86 D) = (SEV_STATUS_SUCCESS, e, X1)"
    and "rmp_entry_write (de_al8k E) (de_uc E) p (set_lock 0 (set_immutable 0 e)) X1 = (SEV_STATUS_SUCCESS, e', X2)"
    and "16 dvd unat p" and "\<not> CBIT_IS_SET p" and "\<not> de_al8k E p"
  shows "page_entry (ds_x86 (reclaim_command_buffer E address D)) p =
      set_lock 0 (set_immutable 0 (page_entry (ds_x86 D) p)) \<and>
    (rmp_entry_get_state (page_entry (ds_x86 D) p) \<in> {SNP_PAGE_STATE_FIRMWARE, SNP_PAGE_STATE_CONTEXT} \<longrightarrow>
       rmp_entry_get_state (page_entry (ds_x86 (reclaim_command_buffer E address D)) p) = SNP_PAGE_STATE_RECLAIM)"
proof -
  note rd = rmp_read_mem [OF assms(2,5)]
  have e: "e = page_entry (ds_x86 D) p" using rd(1) by (simp add: page_entry_def)
  let ?n = "set_lock 0 (set_immutable 0 e)"
  have "rmp_entry_write (de_al8k E) (\<lambda>Y. Y\<lparr>xs_mem := id (xs_mem Y)\<rparr>) p ?n X1 = (SEV_STATUS_SUCCESS, e', X2)"
    using assms(3,6) by (simp add: rmp_entry_write_def)
  from rmp_write_effect [OF this assms(4,5), where locked = False and m = "xs_mem X1"] assms(6)
  have w: "entry_of_bytes (read_bytes (xs_mem X2) p 16) = ?n" by simp
  have imm: "rmp_immutable (set_immutable 0 e) = 0" by (simp add: entry_fields entry_setters get_put_field)
  have "ds_x86 (reclaim_command_buffer E address D) = X2"
    using assms(1-3) by (simp add: reclaim_command_buffer_def Let_def imm)
  then have new: "page_entry (ds_x86 (reclaim_command_buffer E address D)) p = ?n" by (simp add: page_entry_def w)
  have g: "rmp_assigned ?n = rmp_assigned e" "rmp_validated ?n = rmp_validated e" "rmp_asid ?n = rmp_asid e"
    "rmp_immutable ?n = 0" "rmp_lock ?n = 0"
    by (simp_all add: entry_fields entry_setters get_put_other get_put_field)
  have "rmp_entry_get_state e \<in> {SNP_PAGE_STATE_FIRMWARE, SNP_PAGE_STATE_CONTEXT} \<Longrightarrow>
      rmp_entry_get_state ?n = SNP_PAGE_STATE_RECLAIM"
    by (auto simp: rmp_entry_get_state_def g split: if_split_asm)
  then show ?thesis unfolding new e [symmetric] by blast
qed

section \<open>Witnesses\<close>

definition demo_dispatch_env :: "sev_status \<Rightarrow> unit disp_env" where
  "demo_dispatch_env st = \<lparr>de_handler = (\<lambda>_ _ D. (st, replicate 32 7, D)), de_die = 0, de_dies = 2,
     de_al8k = (\<lambda>_. False), de_uc = id, de_plus64 = (\<lambda>_. ERR_INVALID_PARAMS),
     de_entry0 = \<lparr>q1 = 0, q2 = 0\<rparr>, de_buf0 = replicate 32 0\<rparr>"

definition demo_disp :: "x86 \<Rightarrow> u32 \<Rightarrow> unit disp" where
  "demo_disp X v = \<lparr>ds_sev = (), ds_x86 = X, ds_df = demo_df (\<lambda>_. SEV_STATUS_SUCCESS) v,
     ds_table = master_handler_table (\<lambda>_. 32), ds_rmp_init = True, ds_snp_state = SNP_STATE_INIT\<rparr>"

lemma demo_rows:
  "master_handler_table (\<lambda>_. 32) SEV_MCMD_ID_DF_FLUSH =
     Some \<lparr>te_size = 0, te_lock_df = True, te_enforce = False, te_type = CMD_BUF_IGNORE\<rparr>"
  "master_handler_table (\<lambda>_. 32) SEV_MCMD_ID_PLATFORM_STATUS =
     Some \<lparr>te_size = 32, te_lock_df = False, te_enforce = True, te_type = CMD_BUF_OUTPUT_ONLY\<rparr>"
  by (simp_all add: master_handler_table_def master_rows_def dispatch_id_defs)

theorem command_table_consistent_witness: "SEV_MCMD_ID_PLATFORM_STATUS < SEV_MCMD_ID_LIMIT"
  using command_table_consistent [OF demo_rows(2)] by simp

lemma demo_df_status:
  "df_smu (demo_df f v) k" "df_slave (demo_df f v) k = SEV_STATUS_SUCCESS" "df_map (demo_df f v) k = f k"
  "df_reg (demo_df f v) r = v"
  by (simp_all add: demo_df_def)

lemma demo_lock: "fst (df_access_lock 0 2 (demo_df (\<lambda>_. SEV_STATUS_SUCCESS) 0)) = SEV_STATUS_SUCCESS"
  by (simp add: df_access_lock_def sev_hal_df_acquire_def get_cstate_control_def read32_def slave_df_def
      access_df_reg_direct_def Let_def hw_read32_def is_ficad_def demo_df_def tick_def all_clients_idle_def
      CSTATE_CONTROL_FUNC_def FICAD_FUNC_def)

lemma demo_limit: "SEV_MCMD_ID_DF_FLUSH < SEV_MCMD_ID_LIMIT" "SEV_MCMD_ID_PLATFORM_STATUS < SEV_MCMD_ID_LIMIT"
  by (simp_all add: dispatch_id_defs)

theorem dispatch_releases_the_fabric_witness:
  "\<not> df_awake (ds_df (snd (sev_dispatch_master (demo_dispatch_env ERR_INVALID_PARAMS) SEV_MCMD_ID_DF_FLUSH 0 0 (demo_disp demo_x86 0))))"
proof -
  obtain st D' where d: "sev_dispatch_master (demo_dispatch_env ERR_INVALID_PARAMS) SEV_MCMD_ID_DF_FLUSH 0 0 (demo_disp demo_x86 0) = (st, D')"
    by fastforce
  have t: "ds_table (demo_disp demo_x86 0) SEV_MCMD_ID_DF_FLUSH =
      Some \<lparr>te_size = 0, te_lock_df = True, te_enforce = False, te_type = CMD_BUF_IGNORE\<rparr>"
    by (simp add: demo_disp_def demo_rows)
  from dispatch_releases_the_fabric [OF d demo_limit(1) t] d show ?thesis
    by (simp add: demo_dispatch_env_def demo_disp_def demo_lock demo_df_status)
qed

theorem tmr_read_drops_the_lock_witness:
  "\<exists>t S'. tmr_cache_read 3 (demo_die 0 (demo_df (\<lambda>_. SEV_STATUS_SUCCESS) 0)) = (SEV_STATUS_SUCCESS, t, S') \<and>
     \<not> df_awake (d_df S')"
proof -
  let ?D = "demo_df (\<lambda>_. SEV_STATUS_SUCCESS) 0" and ?S = "demo_die 0 (demo_df (\<lambda>_. SEV_STATUS_SUCCESS) 0)"
  have p: "\<not> tmr_cache_is_present (d_cache ?S) 3" by (simp add: demo_die_def present_bit tmr_cache_init_def)
  obtain F where l: "df_access_lock 0 2 ?D = (SEV_STATUS_SUCCESS, F)"
    using demo_lock by (metis prod.collapse)
  then have "df_map F = (\<lambda>_. SEV_STATUS_SUCCESS)"
    by (auto simp: df_access_lock_def sev_hal_df_acquire_def get_cstate_control_def read32_def slave_df_def
        access_df_reg_direct_def Let_def demo_df_def tick_def split: prod.split_asm if_split_asm)
  then have "fst (get_tmr_info 3 (tmr_entry tmr_cache_init 3) F) = SEV_STATUS_SUCCESS"
    by (simp add: get_tmr_info_def read_tmr_reg_eq tick_def)
  then obtain t D2 where g: "get_tmr_info 3 (tmr_entry tmr_cache_init 3) F = (SEV_STATUS_SUCCESS, t, D2)"
    by (metis prod.collapse)
  have "\<exists>S'. tmr_cache_read 3 ?S = (SEV_STATUS_SUCCESS, t, S')"
    using p l g by (simp add: tmr_cache_read_def Let_def TMR_LAST_def demo_die_def)
  then obtain S' where r: "tmr_cache_read 3 ?S = (SEV_STATUS_SUCCESS, t, S')" by blast
  from tmr_read_drops_the_lock [OF _ p _ _ r] r show ?thesis by (simp add: demo_die_def demo_df_status)
qed

theorem failed_lock_is_not_released_witness:
  "\<exists>D'. sev_dispatch_master (demo_dispatch_env SEV_STATUS_SUCCESS) SEV_MCMD_ID_DF_FLUSH 0 0 (demo_disp demo_x86 2) =
     (SEV_STATUS_HARDWARE_PLATFORM, D') \<and> df_awake (ds_df D')"
proof -
  have t: "ds_table (demo_disp demo_x86 2) SEV_MCMD_ID_DF_FLUSH =
      Some \<lparr>te_size = 0, te_lock_df = True, te_enforce = False, te_type = CMD_BUF_IGNORE\<rparr>"
    by (simp add: demo_disp_def demo_rows)
  show ?thesis
    by (rule failed_lock_is_not_released [OF demo_limit(1) t])
      (simp_all add: demo_dispatch_env_def demo_disp_def demo_df_status all_clients_idle_def CSTATE_CONTROL_CLIENTS_IDLE_FLAG_def)
qed

text \<open>A page of the hypervisor is named as the buffer of PLATFORM_STATUS.\<close>

theorem foreign_buffer_is_refused_witness:
  "fst (sev_dispatch_master (demo_dispatch_env SEV_STATUS_SUCCESS) SEV_MCMD_ID_PLATFORM_STATUS 0x1000 0
      (demo_disp (demo_rmp (\<lambda>_. 0) 0) 0)) \<noteq> SEV_STATUS_SUCCESS \<and>
    xs_mem (ds_x86 (snd (sev_dispatch_master (demo_dispatch_env SEV_STATUS_SUCCESS) SEV_MCMD_ID_PLATFORM_STATUS 0x1000 0
      (demo_disp (demo_rmp (\<lambda>_. 0) 0) 0)))) = (\<lambda>_. 0)"
proof -
  let ?D = "demo_disp (demo_rmp (\<lambda>_. 0) 0) 0"
  obtain st D' where d: "sev_dispatch_master (demo_dispatch_env SEV_STATUS_SUCCESS) SEV_MCMD_ID_PLATFORM_STATUS 0x1000 0 ?D = (st, D')"
    by fastforce
  have a: "to_addr64 0x1000 0 = 0x1000" by (simp add: to_addr64_def)
  have g: "get_rmp_paddr (ds_x86 ?D) 0x1000 0 = (SEV_STATUS_SUCCESS, 0x20004010)"
    by (simp add: demo_disp_def get_rmp_paddr_def local_get_rmp_paddr_def Let_def demo_consts)
  have "rmp_entry_get_state (page_entry (ds_x86 ?D) 0x20004010) = SNP_PAGE_STATE_HYPERVISOR"
    by (simp add: page_entry_def demo_disp_def entry_of_bytes_def read_bytes_def upt_rec rmp_entry_get_state_def
        entry_fields get_field_def)
  then have n: "\<not> page_may_be_written (ds_x86 ?D) (to_addr64 0x1000 0)" unfolding a page_may_be_written_def g by simp
  have t: "ds_table ?D SEV_MCMD_ID_PLATFORM_STATUS =
      Some \<lparr>te_size = 32, te_lock_df = False, te_enforce = True, te_type = CMD_BUF_OUTPUT_ONLY\<rparr>"
    by (simp add: demo_disp_def demo_rows)
  from foreign_buffer_is_refused [OF d n t] d show ?thesis
    by (simp add: demo_disp_def demo_dispatch_env_def)
qed

theorem buffer_page_is_reclaimed_witness:
  "rmp_entry_get_state (page_entry (ds_x86 (reclaim_command_buffer (demo_dispatch_env SEV_STATUS_SUCCESS) 0x1000
     (demo_disp (demo_rmp ((\<lambda>_. 0)(0x20004010 := 5)) 0) 0))) 0x20004010) = SNP_PAGE_STATE_RECLAIM"
proof -
  let ?m = "(\<lambda>_. 0)(0x20004010 := 5) :: bytes_mem" and ?E = "demo_dispatch_env SEV_STATUS_SUCCESS" and ?f = "\<lparr>q1 = 5, q2 = 0\<rparr>"
  let ?D = "demo_disp (demo_rmp ?m 0) 0"
  have f: "entry_of_bytes (read_bytes ?m 0x20004010 16) = ?f"
    by (simp add: entry_of_bytes_def read_bytes_def upt_rec)
  have g: "get_rmp_paddr (ds_x86 ?D) 0x1000 0 = (SEV_STATUS_SUCCESS, 0x20004010)"
    by (simp add: demo_disp_def get_rmp_paddr_def local_get_rmp_paddr_def Let_def demo_consts)
  have r: "rmp_entry_read 0x20004010 (de_entry0 ?E) (ds_x86 ?D) = (SEV_STATUS_SUCCESS, ?f, demo_rmp ?m 0)"
    using f by (simp add: demo_disp_def rmp_entry_read_def Let_def demo_rmp_copies RMP_ENTRY_SIZE_def del: fun_upd_apply)
  have v: "validate_address_range (demo_rmp m 1) 0x20004010 8 = SEV_STATUS_SUCCESS" for m
    by (simp add: validate_address_range_def demo_rmp_def demo_x86_def SEV_CBIT_MASK_def SEV_CBIT_SHIFT_def
        Let_def asid_bits_set_def SEV_ASID_ADDR_MASK_def X86_MAX_PHYS_ADDR_def X86_HYPER_TRANSPORT_AREA_def
        range_overlaps_aseg_def ranges_overlap_def CLEAR_CBIT_def rb_ranges_def demo_rb_off_def
        TMR_NR_MAX_def SNP_RMP_CPU_TMR_def SNP_RMP_IOMMU_TMR_def upt_rec validate_memory_map_def)
  have c8: "copy_to_x86 0x20004010 (bytes_of (w :: u64)) (demo_rmp m 1) =
      (SEV_STATUS_SUCCESS, demo_rmp (write_bytes m 0x20004010 (bytes_of w)) 1)" for w m
    by (simp add: copy_to_x86_def x86_copy_def window_check_def X86_64MB_MASK_def
        X86_64MB_SIZE_def v demo_consts copy_out_def Let_def)
  let ?w = "rmp_entry_write (de_al8k ?E) (de_uc ?E) 0x20004010 (set_lock 0 (set_immutable 0 ?f)) (demo_rmp ?m 0)"
  have "fst ?w = SEV_STATUS_SUCCESS"
    by (simp add: rmp_entry_write_def demo_dispatch_env_def Let_def demo_rmp_copies c8 RMP_ENTRY_SIZE_def del: fun_upd_apply)
  then obtain e' X where w: "?w = (SEV_STATUS_SUCCESS, e', X)" by (metis prod.collapse)
  have st: "rmp_entry_get_state (page_entry (ds_x86 ?D) 0x20004010) = SNP_PAGE_STATE_FIRMWARE"
    using f by (simp add: page_entry_def demo_disp_def rmp_entry_get_state_def entry_fields get_field_def del: fun_upd_apply)
  have al: "\<not> de_al8k ?E 0x20004010" by (simp add: demo_dispatch_env_def)
  have d: "16 dvd unat (0x20004010 :: u64)" "\<not> CBIT_IS_SET 0x20004010" by (simp_all add: demo_consts)
  show ?thesis using conjunct2 [OF buffer_page_is_reclaimed [OF g r w d al]] by (rule mp) (simp add: st)
qed

end
