(* ===== verification/Sev_SnpPages.thy ===== *)
theory Sev_SnpPages
  imports Sev_Activation Sev_Rmp
begin

text \<open>
  The SNP commands that change the state of pages, and those of the life of a guest context page
  (\<open>sev_mcmd.c\<close>): GCTX_CREATE, ACTIVATE, ACTIVATE_EX, GUEST_STATUS and DECOMMISSION; PAGE_MOVE,
  MD_INIT, PAGE_RECLAIM and PAGE_UNSMASH.

  The state is that of the ASIDs and guests of \<open>Sev_Activation\<close> and the x86 memory of
  \<open>Sev_X86Copy\<close>, in which the RMP lies. The contents of a guest context page are its guest,
  named \<open>SnpGuest\<close> with the address the page is mapped at, and the rest of the page in \<open>sn_ctx\<close>.
  The page is mapped with the firmware's own encryption; the octets that memory holds for given
  contents are the argument \<open>se_image\<close>. GCTX_CREATE clears and fills the page in \<open>sn_x86\<close>; where later
  commands change members of the context, that is a change of the guest only, and the octets of
  the page in \<open>sn_x86\<close> are not followed.

  A command is written in the order of its code. Each of the combinators below is one step of it:
  it either ends the command with a status or goes on with the rest.

  \<open>se_al8k\<close> and \<open>se_al2m\<close> are the alignment macros, \<open>se_uc\<close> is what the cores do to the memory
  during \<open>rmp_entry_write\<close>, \<open>se_entry0\<close> the contents of uninitialised local variables.
\<close>

section \<open>State and steps\<close>

record gctx_info =
  gx_migration_agent_paddr :: u64
  gx_psp_tsc_offset :: u64
  gx_launch_tcb :: u64
  gx_current_build_id :: u8
  gx_current_api_minor :: u8
  gx_current_api_major :: u8
  gx_vcek_dis :: bool

record snp_sys =
  sn_plat :: sev_plat
  sn_x86 :: x86
  sn_ctx :: "u64 \<Rightarrow> gctx_info"

record snp_env =
  se_al8k :: "u64 \<Rightarrow> bool"
  se_al2m :: "u64 \<Rightarrow> bool"
  se_uc :: "x86 \<Rightarrow> x86"
  se_entry0 :: rmp_entry
  se_act :: act_env
  se_pool_map :: sev_status
  se_trng :: "sev_status \<times> u8 list"
  se_committed_tcb :: u64
  se_build_id :: u8
  se_api_minor :: u8
  se_api_major :: u8
  se_image :: "sev_guest \<Rightarrow> gctx_info \<Rightarrow> u8 list"

type_synonym snp_act = "snp_sys \<Rightarrow> sev_status \<times> snp_sys"

definition SNP_ADDR_RESERVED_MASK :: u64 where "SNP_ADDR_RESERVED_MASK = PAGE_SIZE_4K - 1"
definition SNP_ADDR_PAGE_RECLAIM_RESERVED_MASK :: u64 where "SNP_ADDR_PAGE_RECLAIM_RESERVED_MASK = 0xFFE"
definition SNP_PAGE_SIZE :: "u64 \<Rightarrow> u64" where "SNP_PAGE_SIZE x = x AND 1"
definition SNP_PAGE_ADDR :: "u64 \<Rightarrow> u64" where "SNP_PAGE_ADDR x = x AND NOT (PAGE_SIZE_4K - 1)"
definition DRAM_PAGE_SIZE_2M :: u64 where "DRAM_PAGE_SIZE_2M = 1"
definition RMP_ENTRY_GPA_SHIFT :: nat where "RMP_ENTRY_GPA_SHIFT = 12"
definition PADDR_GET_GPA :: "u64 \<Rightarrow> u64" where
  "PADDR_GET_GPA paddr = drop_bit RMP_ENTRY_GPA_SHIFT (paddr AND NOT SEV_CBIT_MASK)"
definition PADDR_TO_GPA_FIELD :: "u64 \<Rightarrow> u64 \<Rightarrow> u64" where
  "PADDR_TO_GPA_FIELD paddr state = PADDR_GET_GPA paddr OR push_bit RMP_GPA_STATE_SHIFT state"
definition RMP_GPA_TO_PADDR :: "u64 \<Rightarrow> u64" where "RMP_GPA_TO_PADDR gpa = push_bit RMP_ENTRY_GPA_SHIFT gpa"

definition set_assigned :: "u64 \<Rightarrow> rmp_entry \<Rightarrow> rmp_entry" where
  "set_assigned v e = e\<lparr>q1 := put_field 0 1 v (q1 e)\<rparr>"
definition set_page_size :: "u64 \<Rightarrow> rmp_entry \<Rightarrow> rmp_entry" where
  "set_page_size v e = e\<lparr>q1 := put_field 1 1 v (q1 e)\<rparr>"
definition set_gpa :: "u64 \<Rightarrow> rmp_entry \<Rightarrow> rmp_entry" where
  "set_gpa v e = e\<lparr>q1 := put_field 12 39 v (q1 e)\<rparr>"
definition set_validated :: "u64 \<Rightarrow> rmp_entry \<Rightarrow> rmp_entry" where
  "set_validated v e = e\<lparr>q1 := put_field 62 1 v (q1 e)\<rparr>"
definition set_q2 :: "u64 \<Rightarrow> rmp_entry \<Rightarrow> rmp_entry" where
  "set_q2 v e = e\<lparr>q2 := v\<rparr>"

text \<open>The two assignments that release a page: \<open>immutable\<close>, and \<open>lock\<close> from it.\<close>

definition release_page :: "rmp_entry \<Rightarrow> rmp_entry" where
  "release_page e = set_lock (rmp_immutable (set_immutable 0 e)) (set_immutable 0 e)"

definition finish :: snp_act where
  "finish S = (SEV_STATUS_SUCCESS, S)"

definition require :: "(snp_sys \<Rightarrow> bool) \<Rightarrow> sev_status \<Rightarrow> snp_act \<Rightarrow> snp_act" where
  "require P st k S = (if P S then k S else (st, S))"

definition snp_initialized :: "snp_sys \<Rightarrow> bool" where
  "snp_initialized S \<longleftrightarrow> p_snp_state (sn_plat S) = SNP_STATE_INIT"

definition get_page ::
  "snp_env \<Rightarrow> u64 \<Rightarrow> (u64 \<times> rmp_entry \<times> snp_page_state \<Rightarrow> snp_act) \<Rightarrow> snp_act" where
  "get_page E a k S =
     (case rmp_get_addr_entry_state a (0, se_entry0 E, SNP_PAGE_STATE_INVALID) (sn_x86 S) of
        (status, r, X) \<Rightarrow>
          let S1 = S\<lparr>sn_x86 := X\<rparr> in if status \<noteq> SEV_STATUS_SUCCESS then (status, S1) else k r S1)"

definition write_entry :: "snp_env \<Rightarrow> u64 \<Rightarrow> rmp_entry \<Rightarrow> snp_act \<Rightarrow> snp_act" where
  "write_entry E p e k S =
     (case rmp_entry_write (se_al8k E) (se_uc E) p e (sn_x86 S) of
        (status, _, X) \<Rightarrow>
          let S1 = S\<lparr>sn_x86 := X\<rparr> in if status \<noteq> SEV_STATUS_SUCCESS then (status, S1) else k S1)"

text \<open>Two ways to map a page; the first one with the firmware's encryption.\<close>

definition sev_hal_map_guest_context :: "x86 \<Rightarrow> u64 \<Rightarrow> u64 \<Rightarrow> sev_status \<times> u64" where
  "sev_hal_map_guest_context X addr n =
     (let status = validate_address_range X addr n
      in if status \<noteq> SEV_STATUS_SUCCESS then (status, 0)
         else
           let a = the (snd (convert_x86_address X (Some addr)))
           in if xs_map X a \<noteq> SEV_STATUS_SUCCESS then (ERR_HAL_MEMORY_MAP, 0) else (SEV_STATUS_SUCCESS, a))"

definition map_context :: "u64 \<Rightarrow> (u64 \<Rightarrow> snp_act) \<Rightarrow> snp_act" where
  "map_context addr k S =
     (case sev_hal_map_guest_context (sn_x86 S) addr PAGE_SIZE_4K of
        (status, a) \<Rightarrow> if status \<noteq> SEV_STATUS_SUCCESS then (status, S) else k a S)"

definition map_memory :: "u64 \<Rightarrow> u64 \<Rightarrow> (u64 \<Rightarrow> snp_act) \<Rightarrow> snp_act" where
  "map_memory addr n k S =
     (case sev_hal_map_memory_ccp (sn_x86 S) addr n of
        (status, a) \<Rightarrow> if status \<noteq> SEV_STATUS_SUCCESS then (status, S) else k a S)"

definition on_plat :: "(sev_plat \<Rightarrow> sev_status \<times> sev_plat) \<Rightarrow> snp_act \<Rightarrow> snp_act" where
  "on_plat f k S =
     (case f (sn_plat S) of (status, p) \<Rightarrow>
        let S1 = S\<lparr>sn_plat := p\<rparr> in if status \<noteq> SEV_STATUS_SUCCESS then (status, S1) else k S1)"

definition on_x86 :: "(x86 \<Rightarrow> sev_status \<times> x86) \<Rightarrow> snp_act \<Rightarrow> snp_act" where
  "on_x86 f k S =
     (case f (sn_x86 S) of (status, X) \<Rightarrow>
        let S1 = S\<lparr>sn_x86 := X\<rparr> in if status \<noteq> SEV_STATUS_SUCCESS then (status, S1) else k S1)"

definition context_guest :: "snp_sys \<Rightarrow> u64 \<Rightarrow> sev_guest" where
  "context_guest S a = p_guests (sn_plat S) (SnpGuest a)"

definition launched :: "u64 \<Rightarrow> snp_sys \<Rightarrow> bool" where
  "launched a S \<longleftrightarrow> g_snp_state (context_guest S a) = SNP_GUEST_STATE_LAUNCH \<or>
     g_snp_state (context_guest S a) = SNP_GUEST_STATE_RUNNING"

section \<open>The guest context\<close>

text \<open>What most commands start with: the context page and its mapping. The continuation gets the
  address of the RMP entry, the entry, and the address at which the page is mapped.\<close>

definition with_context :: "snp_env \<Rightarrow> u64 \<Rightarrow> (u64 \<Rightarrow> rmp_entry \<Rightarrow> u64 \<Rightarrow> snp_act) \<Rightarrow> snp_act" where
  "with_context E gctx_paddr k =
     require (\<lambda>_. gctx_paddr AND SNP_ADDR_RESERVED_MASK = 0) SEV_STATUS_INVALID_PARAM (
     require snp_initialized SEV_STATUS_INVALID_PLATFORM_STATE (
     get_page E gctx_paddr (\<lambda>(p, e, st).
     require (\<lambda>_. st = SNP_PAGE_STATE_CONTEXT) SEV_STATUS_INVALID_GUEST (
     map_context gctx_paddr (k p e)))))"

definition snp_mcmd_decommission :: "snp_env \<Rightarrow> u64 \<Rightarrow> snp_act" where
  "snp_mcmd_decommission E gctx_paddr =
     with_context E gctx_paddr (\<lambda>p e gctx.
     on_plat (snp_decommission_common (se_act E) (se_pool_map E) gctx) (
     write_entry E p (set_vmsa 0 e) finish))"

definition no_pages_of_asid :: "u32 \<Rightarrow> snp_act \<Rightarrow> snp_act" where
  "no_pages_of_asid asid k S =
     (case check_rmp_for_asid (sn_x86 S) asid 0 of
        (status, cnt) \<Rightarrow>
          if status \<noteq> SEV_STATUS_SUCCESS then (status, S)
          else if cnt \<noteq> 0 then (SEV_STATUS_INVALID_CONFIG, S)
          else k S)"

definition snp_mcmd_activate :: "snp_env \<Rightarrow> u64 \<Rightarrow> u32 \<Rightarrow> snp_act" where
  "snp_mcmd_activate E gctx_paddr asid =
     with_context E gctx_paddr (\<lambda>p e gctx.
     require (launched gctx) SEV_STATUS_INVALID_GUEST_STATE (
     no_pages_of_asid asid (
     require (\<lambda>S. \<not> (g_policy_snp (context_guest S gctx) AND SNP_GUEST_POLICY_SINGLE_SOCKET_FLAG \<noteq> 0 \<and>
                      gTotalDieNum (ae_topology (se_act E)) > 1)) SEV_STATUS_POLICY_FAILURE (
     on_plat (mcmd_activate_common (se_act E) (SnpGuest gctx) asid) finish))))"

text \<open>\<open>x\<close> holds the arguments and what the copy of the list of APIC ids gives; the migration agent
  is taken from the context page.\<close>

definition agent_of :: "snp_sys \<Rightarrow> u64 \<Rightarrow> activate_ex_in \<Rightarrow> activate_ex_in" where
  "agent_of S gctx x =
     (let ma = gx_migration_agent_paddr (sn_ctx S gctx)
      in if ma = PADDR_INVALID then x\<lparr>x_ma := PADDR_INVALID\<rparr>
         else case sev_hal_map_guest_context (sn_x86 S) ma PAGE_SIZE_4K of
                (status, a) \<Rightarrow> x\<lparr>x_ma := a, x_map := status\<rparr>)"

definition snp_mcmd_activate_ex :: "snp_env \<Rightarrow> bool \<Rightarrow> u32 \<Rightarrow> u64 \<Rightarrow> activate_ex_in \<Rightarrow> snp_act" where
  "snp_mcmd_activate_ex E ex_len_ok reserved gctx_paddr x =
     require (\<lambda>_. ex_len_ok \<and> reserved = 0) SEV_STATUS_INVALID_PARAM (
     with_context E gctx_paddr (\<lambda>p e gctx.
     require (launched gctx) SEV_STATUS_INVALID_GUEST_STATE (\<lambda>S.
     (if guest_is_inactive (context_guest S gctx) then no_pages_of_asid (x_asid x) else id)
       (\<lambda>S. on_plat (mcmd_activate_ex_common (se_act E) (agent_of S gctx x) (SnpGuest gctx)) finish S) S)))"

fun snp_state_num :: "snp_guest_state \<Rightarrow> u8" where
  "snp_state_num SNP_GUEST_STATE_INIT = 0"
| "snp_state_num SNP_GUEST_STATE_LAUNCH = 1"
| "snp_state_num SNP_GUEST_STATE_RUNNING = 2"
| "snp_state_num _ = 3"

text \<open>The 32 bytes of \<open>snp_guest_status_buffer_t\<close>.\<close>

definition guest_status_bytes :: "sev_guest \<Rightarrow> bool \<Rightarrow> u8 list" where
  "guest_status_bytes g vcek_dis =
     bytes_of (g_policy_snp g) @
     take 4 (bytes_of (ucast (if guest_has_asid g then g_asid g else 0))) @
     [snp_state_num (g_snp_state g), 0, 0, 0] @
     [if vcek_dis then 1 else 0, 0, 0, 0] @ [0, 0, 0, 0] @ bytes_of 0"

definition snp_mcmd_guest_status :: "snp_env \<Rightarrow> u64 \<Rightarrow> u64 \<Rightarrow> snp_act" where
  "snp_mcmd_guest_status E gctx_paddr status_paddr =
     require (\<lambda>_. gctx_paddr AND SNP_ADDR_RESERVED_MASK = 0) SEV_STATUS_INVALID_PARAM (
     require (\<lambda>_. \<not> (status_paddr AND (PAGE_SIZE_4K - 1)) + 32 > PAGE_SIZE_4K) SEV_STATUS_INVALID_PARAM (
     require snp_initialized SEV_STATUS_INVALID_PLATFORM_STATE (
     get_page E gctx_paddr (\<lambda>(_, _, gctx_state).
     require (\<lambda>_. gctx_state = SNP_PAGE_STATE_CONTEXT) SEV_STATUS_INVALID_GUEST (
     get_page E status_paddr (\<lambda>(_, _, status_state).
     require (\<lambda>_. status_state = SNP_PAGE_STATE_FIRMWARE \<or> status_state = SNP_PAGE_STATE_DEFAULT)
       SEV_STATUS_INVALID_PAGE_STATE (
     map_context gctx_paddr (\<lambda>gctx S.
     on_x86 (copy_to_x86 status_paddr
       (guest_status_bytes (context_guest S gctx) (gx_vcek_dis (sn_ctx S gctx)))) finish S))))))))"

definition gctx_zero :: gctx_info where
  "gctx_zero = \<lparr>gx_migration_agent_paddr = 0, gx_psp_tsc_offset = 0, gx_launch_tcb = 0,
     gx_current_build_id = 0, gx_current_api_minor = 0, gx_current_api_major = 0, gx_vcek_dis = False\<rparr>"

text \<open>The 4 KB of a context page as memory holds them: what the image does not fill is zero.\<close>

definition context_octets :: "snp_env \<Rightarrow> sev_guest \<Rightarrow> gctx_info \<Rightarrow> u8 list" where
  "context_octets E g x = take (unat PAGE_SIZE_4K) (se_image E g x @ replicate (unat PAGE_SIZE_4K) 0)"

definition put_context :: "snp_env \<Rightarrow> u64 \<Rightarrow> snp_sys \<Rightarrow> snp_sys" where
  "put_context E gctx S =
     S\<lparr>sn_x86 := (sn_x86 S)\<lparr>xs_mem :=
       write_bytes (xs_mem (sn_x86 S)) gctx (context_octets E (context_guest S gctx) (sn_ctx S gctx))\<rparr>\<rparr>"

text \<open>The page is cleared and filled; the random seed is stored even if its source fails.\<close>

definition init_context :: "snp_env \<Rightarrow> u64 \<Rightarrow> snp_act \<Rightarrow> snp_act" where
  "init_context E gctx k S =
     (let g = guest_zero\<lparr>g_asid := 0, g_snp_state := SNP_GUEST_STATE_INIT, g_type := SEV_GUEST_TYPE_SNP,
                g_umc_key_seed := snd (se_trng E)\<rparr>;
          S1 = S\<lparr>sn_plat := set_guest (SnpGuest gctx) g (sn_plat S), sn_ctx := (sn_ctx S)(gctx := gctx_zero)\<rparr>
      in if fst (se_trng E) \<noteq> SEV_STATUS_SUCCESS then (fst (se_trng E), put_context E gctx S1)
         else
           k (put_context E gctx
               (S1\<lparr>sn_plat := set_guest (SnpGuest gctx) (g\<lparr>g_oek_iv_count := 0\<rparr>) (sn_plat S1),
                  sn_ctx := (sn_ctx S1)(gctx := gctx_zero\<lparr>gx_launch_tcb := se_committed_tcb E,
                    gx_current_build_id := se_build_id E, gx_current_api_minor := se_api_minor E,
                    gx_current_api_major := se_api_major E, gx_psp_tsc_offset := 0\<rparr>)\<rparr>)))"

definition snp_mcmd_gctx_create :: "snp_env \<Rightarrow> u64 \<Rightarrow> snp_act" where
  "snp_mcmd_gctx_create E gctx_paddr =
     require (\<lambda>_. gctx_paddr AND SNP_ADDR_RESERVED_MASK = 0) SEV_STATUS_INVALID_PARAM (
     require snp_initialized SEV_STATUS_INVALID_PLATFORM_STATE (
     get_page E gctx_paddr (\<lambda>(p, e, st).
     require (\<lambda>_. st = SNP_PAGE_STATE_FIRMWARE) SEV_STATUS_INVALID_PAGE_STATE (
     require (\<lambda>_. rmp_page_size e = DRAM_PAGE_SIZE_4K) SEV_STATUS_INVALID_PAGE_SIZE (
     require (\<lambda>S. validate_memory_map (xs_mem_map (sn_x86 S)) gctx_paddr (gctx_paddr + PAGE_SIZE_4K - 1)
                  = SEV_STATUS_SUCCESS) SEV_STATUS_INVALID_CONFIG (
     map_context gctx_paddr (\<lambda>gctx.
     init_context E gctx (
     write_entry E p (set_vmsa 1 e) finish))))))))"

section \<open>Pages\<close>

definition page_bytes :: "rmp_entry \<Rightarrow> u64" where
  "page_bytes e = (if rmp_page_size e = DRAM_PAGE_SIZE_4K then PAGE_SIZE_4K else PAGE_SIZE_2M)"

text \<open>The fields of the command buffer; \<open>pm_size\<close> is the field of one bit.\<close>

record page_move =
  pm_gctx :: u64
  pm_size :: u64
  pm_reserved :: u32
  pm_reserved2 :: u32
  pm_src :: u64
  pm_dst :: u64

text \<open>A page of a guest: the new entries of the source and the destination.\<close>

definition moved_guest_dst :: "snp_page_state \<Rightarrow> rmp_entry \<Rightarrow> rmp_entry \<Rightarrow> rmp_entry" where
  "moved_guest_dst src_state src dst =
     (let dst1 = set_q2 (q2 src) (set_vmsa (rmp_vmsa src) (set_gpa (rmp_gpa src) dst))
      in if src_state = SNP_PAGE_STATE_PRE_GUEST then release_page dst1
         else if src_state = SNP_PAGE_STATE_PRE_SWAP then release_page (set_validated 1 dst1)
         else dst1)"

definition moved_guest_src :: "rmp_entry \<Rightarrow> rmp_entry" where
  "moved_guest_src src = release_page (set_validated 0 src)"

definition move_guest_page ::
  "snp_env \<Rightarrow> page_move \<Rightarrow> u64 \<Rightarrow> u64 \<times> rmp_entry \<times> snp_page_state \<Rightarrow> u64 \<times> rmp_entry \<times> snp_page_state \<Rightarrow> snp_act" where
  "move_guest_page E pm gctx = (\<lambda>(sp, se, ss) (dp, de, ds).
     require (\<lambda>S. rmp_asid se = ucast (g_asid (context_guest S gctx)) \<and>
                  rmp_asid de = ucast (g_asid (context_guest S gctx))) SEV_STATUS_INVALID_PAGE_OWNER (\<lambda>S.
     on_x86 (copy_to_x86_encrypted_from_x86_encrypted (pm_dst pm) (pm_src pm) (page_bytes de)
       (g_asid (context_guest S gctx))) (
     write_entry E sp (moved_guest_src se) (
     write_entry E dp (moved_guest_dst ss se de) finish)) S))"

definition move_metadata_page ::
  "snp_env \<Rightarrow> page_move \<Rightarrow> u64 \<times> rmp_entry \<times> snp_page_state \<Rightarrow> u64 \<times> rmp_entry \<times> snp_page_state \<Rightarrow> snp_act" where
  "move_metadata_page E pm = (\<lambda>(sp, se, ss) (dp, de, ds).
     require (\<lambda>_. RMP_GET_GPA (rmp_gpa se) = PADDR_GET_GPA (pm_gctx pm)) SEV_STATUS_INVALID_PAGE_OWNER (
     (if \<not> ranges_overlap (pm_src pm) (pm_src pm + PAGE_SIZE_4K - 1) (pm_dst pm) (pm_dst pm + PAGE_SIZE_4K - 1)
      then on_x86 (copy_to_x86_from_x86 (pm_dst pm) (pm_src pm) (page_bytes de)) else id) (
     write_entry E sp (set_vmsa 0 (set_gpa 0 se)) (
     write_entry E dp (set_gpa (PADDR_TO_GPA_FIELD (pm_gctx pm) RMP_GPA_STATE_METADATA) de) finish))))"

definition snp_mcmd_page_move :: "snp_env \<Rightarrow> page_move \<Rightarrow> snp_act" where
  "snp_mcmd_page_move E pm =
     require (\<lambda>_. pm_gctx pm AND SNP_ADDR_RESERVED_MASK = 0 \<and> pm_src pm AND SNP_ADDR_RESERVED_MASK = 0 \<and>
                  pm_dst pm AND SNP_ADDR_RESERVED_MASK = 0 \<and> pm_reserved pm = 0 \<and> pm_reserved2 pm = 0)
       SEV_STATUS_INVALID_PARAM (
     require snp_initialized SEV_STATUS_INVALID_PLATFORM_STATE (
     get_page E (pm_gctx pm) (\<lambda>(_, _, gctx_state).
     get_page E (pm_src pm) (\<lambda>(sp, se, ss).
     get_page E (pm_dst pm) (\<lambda>(dp, de, ds).
     require (\<lambda>_. gctx_state = SNP_PAGE_STATE_CONTEXT) SEV_STATUS_INVALID_GUEST (
     require (\<lambda>_. rmp_page_size se = pm_size pm \<and> rmp_page_size de = pm_size pm) SEV_STATUS_INVALID_PAGE_SIZE (
     map_context (pm_gctx pm) (\<lambda>gctx.
     require (launched gctx) SEV_STATUS_INVALID_GUEST_STATE (
     require (\<lambda>S. \<not> guest_is_inactive (context_guest S gctx)) SEV_STATUS_INACTIVE (
     if (ss = SNP_PAGE_STATE_PRE_SWAP \<or> ss = SNP_PAGE_STATE_PRE_GUEST) \<and> ds = SNP_PAGE_STATE_PRE_GUEST
     then move_guest_page E pm gctx (sp, se, ss) (dp, de, ds)
     else if ss = SNP_PAGE_STATE_METADATA \<and> ds = SNP_PAGE_STATE_FIRMWARE
     then move_metadata_page E pm (sp, se, ss) (dp, de, ds)
     else Pair SEV_STATUS_INVALID_PAGE_STATE))))))))))"

definition zero_page :: "u64 \<Rightarrow> u64 \<Rightarrow> snp_act \<Rightarrow> snp_act" where
  "zero_page a n k S =
     k (S\<lparr>sn_x86 := (sn_x86 S)\<lparr>xs_mem := write_bytes (xs_mem (sn_x86 S)) a (replicate (unat n) 0)\<rparr>\<rparr>)"

definition snp_mcmd_md_init :: "snp_env \<Rightarrow> u64 \<Rightarrow> u64 \<Rightarrow> snp_act" where
  "snp_mcmd_md_init E gctx_paddr page_paddr =
     require (\<lambda>_. gctx_paddr AND SNP_ADDR_RESERVED_MASK = 0 \<and> page_paddr AND SNP_ADDR_RESERVED_MASK = 0)
       SEV_STATUS_INVALID_PARAM (
     require snp_initialized SEV_STATUS_INVALID_PLATFORM_STATE (
     get_page E gctx_paddr (\<lambda>(_, _, gctx_state).
     get_page E page_paddr (\<lambda>(p, e, page_state).
     require (\<lambda>_. gctx_state = SNP_PAGE_STATE_CONTEXT) SEV_STATUS_INVALID_GUEST (
     require (\<lambda>_. page_state = SNP_PAGE_STATE_FIRMWARE) SEV_STATUS_INVALID_PAGE_STATE (
     map_context gctx_paddr (\<lambda>gctx.
     require (launched gctx) SEV_STATUS_INVALID_GUEST_STATE (
     map_memory page_paddr (page_bytes e) (\<lambda>a.
     zero_page a (page_bytes e) (
     write_entry E p (set_gpa (PADDR_TO_GPA_FIELD gctx_paddr RMP_GPA_STATE_METADATA) e) finish))))))))))"

text \<open>\<open>None\<close> for a state from which a page cannot be reclaimed.\<close>

definition reclaimed_entry :: "snp_page_state \<Rightarrow> rmp_entry \<Rightarrow> rmp_entry option" where
  "reclaimed_entry st e =
     (case st of
        SNP_PAGE_STATE_METADATA \<Rightarrow> (let e1 = release_page e in Some (set_gpa (RMP_GET_GPA (rmp_gpa e1)) e1))
      | SNP_PAGE_STATE_FIRMWARE \<Rightarrow> Some (release_page e)
      | SNP_PAGE_STATE_PRE_GUEST \<Rightarrow> Some (release_page e)
      | SNP_PAGE_STATE_PRE_SWAP \<Rightarrow> Some (release_page e)
      | _ \<Rightarrow> None)"

definition snp_mcmd_page_reclaim :: "snp_env \<Rightarrow> u64 \<Rightarrow> snp_act" where
  "snp_mcmd_page_reclaim E page_paddr_size =
     (let page_addr = SNP_PAGE_ADDR page_paddr_size; page_size = SNP_PAGE_SIZE page_paddr_size;
          n = (if page_size = DRAM_PAGE_SIZE_4K then PAGE_SIZE_4K else PAGE_SIZE_2M)
      in
      require (\<lambda>_. page_paddr_size AND SNP_ADDR_PAGE_RECLAIM_RESERVED_MASK = 0) SEV_STATUS_INVALID_PARAM (
      require snp_initialized SEV_STATUS_INVALID_PLATFORM_STATE (
      on_x86 (\<lambda>X. (validate_address_range X page_addr n, X)) (
      get_page E page_addr (\<lambda>(p, e, st).
      require (\<lambda>_. rmp_page_size e = page_size) SEV_STATUS_INVALID_PAGE_SIZE (
      require (\<lambda>_. rmp_page_size e = DRAM_PAGE_SIZE_2M \<longrightarrow> se_al2m E page_addr) SEV_STATUS_INVALID_ADDRESS (
      if rmp_immutable e = 0 then finish
      else case reclaimed_entry st e of
             None \<Rightarrow> Pair SEV_STATUS_INVALID_PAGE_STATE
           | Some e' \<Rightarrow> write_entry E p e' finish)))))))"

section \<open>PAGE_UNSMASH\<close>

text \<open>The entries are read and written in place. At the end of a window of 64 MB the next one is
  mapped, with the size \<open>n\<close>.\<close>

definition next_entry :: "x86 \<Rightarrow> u64 \<Rightarrow> u64 \<Rightarrow> u32 \<Rightarrow> sev_status \<times> u64 \<times> u64" where
  "next_entry X rp a n =
     (if rp AND X86_64MB_MASK \<noteq> (rp + RMP_ENTRY_SIZE) AND X86_64MB_MASK
      then case sev_hal_map_memory_ccp X (rp + RMP_ENTRY_SIZE) (ucast n) of
             (status, a') \<Rightarrow> (status, rp + RMP_ENTRY_SIZE, a')
      else (SEV_STATUS_SUCCESS, rp + RMP_ENTRY_SIZE, a + RMP_ENTRY_SIZE))"

text \<open>The first loop, over the entries \<open>i\<close> to 511; \<open>prev\<close> is the entry before.\<close>

fun unsmash_check :: "snp_env \<Rightarrow> x86 \<Rightarrow> nat list \<Rightarrow> u64 \<Rightarrow> u64 \<Rightarrow> rmp_entry option \<Rightarrow> sev_status" where
  "unsmash_check E X [] rp a prev = SEV_STATUS_SUCCESS"
| "unsmash_check E X (i # is) rp a prev =
     (let e = entry_of_bytes (read_bytes (xs_mem X) a 16)
      in if rmp_page_size e \<noteq> DRAM_PAGE_SIZE_4K \<or> rmp_immutable e \<noteq> 1 \<or> rmp_vmsa e \<noteq> 0 \<or> rmp_asid e = 0
         then SEV_STATUS_INVALID_PAGE_STATE
         else if (case prev of
             None \<Rightarrow> \<not> se_al2m E (RMP_GPA_TO_PADDR (rmp_gpa e))
           | Some e0 \<Rightarrow> rmp_entry_get_state e \<noteq> rmp_entry_get_state e0 \<or> rmp_asid e \<noteq> rmp_asid e0 \<or>
               rmp_gpa e \<noteq> rmp_gpa e0 + 1 \<or> q2 e \<noteq> q2 e0)
         then SEV_STATUS_INVALID_PAGE_STATE
         else case next_entry X rp a ((512 - of_nat i) * 16) of
           (status, rp', a') \<Rightarrow>
             if status \<noteq> SEV_STATUS_SUCCESS then status else unsmash_check E X is rp' a' (Some e))"

definition unsmashed_entry :: "nat \<Rightarrow> rmp_entry \<Rightarrow> rmp_entry" where
  "unsmashed_entry i e =
     (if i = 0 then set_subpage_count 0 (set_page_size DRAM_PAGE_SIZE_2M e)
      else release_page (set_asid_field 0 (set_assigned 1 e)))"

text \<open>The second loop; the size of the next window is computed as \<open>(entry_size - i) * num_entries\<close>.\<close>

fun unsmash_merge :: "nat list \<Rightarrow> u64 \<Rightarrow> u64 \<Rightarrow> x86 \<Rightarrow> sev_status \<times> x86" where
  "unsmash_merge [] rp a X = (SEV_STATUS_SUCCESS, X)"
| "unsmash_merge (i # is) rp a X =
     (let e = entry_of_bytes (read_bytes (xs_mem X) a 16);
          X1 = X\<lparr>xs_mem := write_bytes (xs_mem X) a (entry_bytes (unsmashed_entry i e))\<rparr>
      in case next_entry X1 rp a ((16 - of_nat i) * 512) of
           (status, rp', a') \<Rightarrow>
             if status \<noteq> SEV_STATUS_SUCCESS then (status, X1) else unsmash_merge is rp' a' X1)"

definition unsmash_entries :: "snp_env \<Rightarrow> u64 \<Rightarrow> x86 \<Rightarrow> sev_status \<times> x86" where
  "unsmash_entries E rp X =
     (case sev_hal_map_memory_ccp X rp (16 * 512) of
        (status, a) \<Rightarrow>
          if status \<noteq> SEV_STATUS_SUCCESS then (status, X)
          else
            let status = unsmash_check E X [0..<512] rp a None
            in if status \<noteq> SEV_STATUS_SUCCESS then (status, X)
               else case sev_hal_map_memory_ccp X rp (16 * 512) of
                      (status, a) \<Rightarrow>
                        if status \<noteq> SEV_STATUS_SUCCESS then (status, X)
                        else unsmash_merge [0..<512] rp a X)"

text \<open>Every exit ends with \<open>skip_rmp_addr_check(false)\<close>.\<close>

definition snp_mcmd_page_unsmash :: "snp_env \<Rightarrow> u64 \<Rightarrow> snp_act" where
  "snp_mcmd_page_unsmash E page_paddr S =
     (let X = sn_x86 S;
          (status, X1) =
            (if page_paddr AND SNP_ADDR_PAGE_RECLAIM_RESERVED_MASK \<noteq> 0 then (SEV_STATUS_INVALID_PARAM, X)
             else if \<not> se_al2m E page_paddr then (SEV_STATUS_INVALID_PARAM, X)
             else if \<not> snp_initialized S then (SEV_STATUS_INVALID_PLATFORM_STATE, X)
             else case get_rmp_paddr X page_paddr 0 of
               (status, rp) \<Rightarrow>
                 if status \<noteq> SEV_STATUS_SUCCESS then (status, X)
                 else if ranges_overlap page_paddr (page_paddr + (PAGE_SIZE_2M - 1)) (xs_rmp_base X) (xs_rmp_end X)
                 then (SEV_STATUS_INVALID_ADDRESS, X)
                 else unsmash_entries E rp (skip_rmp_addr_check True X))
      in (status, S\<lparr>sn_x86 := skip_rmp_addr_check False X1\<rparr>))"

end
