(* ===== verification/Sev_RmpSlots.thy ===== *)
theory Sev_RmpSlots
  imports Sev_SnpPages
begin

section \<open>The reverse map table\<close>

text \<open>What the initialisation of SNP establishes for the table: it is aligned, and lies below the
  address bits that select an ASID; between two commands its addresses are not exempt from the
  address check.\<close>

definition rmp_wf :: "x86 \<Rightarrow> bool" where
  "rmp_wf X \<longleftrightarrow> 2 ^ 20 dvd unat (xs_rmp_base X) \<and> 2 ^ 20 dvd unat (xs_rmp_end X) + 1 \<and>
     unat (xs_rmp_end X) < 2 ^ xs_asid_shift X \<and> xs_asid_shift X \<le> 51 \<and> xs_skip_rmp X = 0"

lemma rmp_wf_skip: "rmp_wf X \<Longrightarrow> xs_skip_rmp X = 0" "rmp_wf X \<Longrightarrow> xs_skip_rmp X + 1 \<noteq> 0"
  by (simp_all add: rmp_wf_def)

lemma rmp_wf_end: "rmp_wf X \<Longrightarrow> xs_rmp_end X < 2 ^ 51"
proof -
  assume "rmp_wf X"
  then have "unat (xs_rmp_end X) < 2 ^ xs_asid_shift X" "xs_asid_shift X \<le> 51" by (simp_all add: rmp_wf_def)
  moreover from this have "(2 :: nat) ^ xs_asid_shift X \<le> 2 ^ 51" by (intro power_increasing) simp_all
  ultimately show ?thesis by (simp add: word_less_nat_alt)
qed

lemma rmp_wf_mem [simp]: "rmp_wf (X\<lparr>xs_mem := m\<rparr>) = rmp_wf X"
  by (simp add: rmp_wf_def)

text \<open>The addresses of entries.\<close>

definition rmp_slot :: "x86 \<Rightarrow> u64 \<Rightarrow> bool" where
  "rmp_slot X p \<longleftrightarrow> 16 dvd unat p \<and> xs_rmp_base X \<le> p \<and> unat p + 15 \<le> unat (xs_rmp_end X)"

lemma entry_slot:
  assumes "get_rmp_paddr X a old = (SEV_STATUS_SUCCESS, p)" and "rmp_wf X"
  shows "rmp_slot X p"
proof -
  have l: "local_get_rmp_paddr X a old = (SEV_STATUS_SUCCESS, p)"
    using assms(1) by (auto simp: get_rmp_paddr_def split: if_split_asm)
  note pa = local_rmp_paddr_nat [OF l]
  have "16 dvd (2 :: nat) ^ 20" by simp
  then have d: "16 dvd unat (xs_rmp_base X)" "16 dvd unat (xs_rmp_end X) + 1"
    using assms(2) unfolding rmp_wf_def by (meson dvd_trans)+
  have dp: "16 dvd unat p" unfolding pa(1) using d(1) by (simp add: dvd_add)
  obtain x y where xy: "unat p = 16 * x" "unat (xs_rmp_end X) + 1 = 16 * y"
    using dp d(2) by (auto elim!: dvdE)
  have "unat p < unat (xs_rmp_end X) + 1" using pa(2) by (simp add: word_le_nat_alt)
  with xy have "unat p + 15 \<le> unat (xs_rmp_end X)" by simp
  with dp pa(1) show ?thesis by (simp add: rmp_slot_def word_le_nat_alt)
qed

lemma slot_no_cbit: "rmp_slot X p \<Longrightarrow> rmp_wf X \<Longrightarrow> \<not> CBIT_IS_SET p"
proof -
  assume s: "rmp_slot X p" and w: "rmp_wf X"
  then have "p \<le> xs_rmp_end X" by (simp add: rmp_slot_def word_le_nat_alt)
  from low_address_no_cbit [OF this rmp_wf_end [OF w]] show ?thesis .
qed

lemma aligned_add: "16 dvd unat (q :: u64) \<Longrightarrow> k < 16 \<Longrightarrow> unat (q + of_nat k) = unat q + k"
proof -
  assume d: "16 dvd unat q" "k < 16"
  then obtain y where "unat q = 16 * y" by (auto elim: dvdE)
  with d u64_bound [of q] have "unat q + k < 2 ^ 64" by simp
  with d(2) show ?thesis by (subst unat_add_no_wrap) (simp_all add: unat_of_nat)
qed

lemma aligned_apart:
  assumes "16 dvd unat (p :: u64)" and "16 dvd unat q" and "p \<noteq> q" and "k < 16"
  shows "16 \<le> unat (q + of_nat k - p)"
proof (rule ccontr)
  assume "\<not> 16 \<le> unat (q + of_nat k - p)"
  define j where "j = unat (q + of_nat k - p)"
  have j: "q + of_nat k = p + of_nat j" "j < 16"
    using \<open>\<not> 16 \<le> unat (q + of_nat k - p)\<close> by (simp_all add: j_def)
  then have "unat q + k = unat p + j"
    using aligned_add [OF assms(2,4)] aligned_add [OF assms(1) j(2)] by simp
  moreover obtain x y where xy: "unat p = 16 * x" "unat q = 16 * y"
    using assms(1,2) by (auto elim!: dvdE)
  ultimately have "(16 * y + k) div 16 = (16 * x + j) div 16" by simp
  then have "x = y" using assms(4) j(2) by simp
  with xy assms(3) show False by (simp add: word_unat_eq_iff)
qed

lemma slots_apart:
  "rmp_slot X p \<Longrightarrow> rmp_slot X q \<Longrightarrow> p \<noteq> q \<Longrightarrow> k < 16 \<Longrightarrow> 16 \<le> unat (q + of_nat k - p)"
  by (rule aligned_apart) (simp_all add: rmp_slot_def)

lemma page_entry_cong:
  assumes "\<And>k. k < 16 \<Longrightarrow> xs_mem X' (q + of_nat k) = xs_mem X (q + of_nat k)"
  shows "page_entry X' q = page_entry X q"
proof -
  have "read_bytes (xs_mem X') q 16 = read_bytes (xs_mem X) q 16"
    by (rule nth_equalityI) (simp_all add: assms)
  then show ?thesis by (simp add: page_entry_def)
qed

section \<open>Steps\<close>

text \<open>A page that the table does not cover has no entry.\<close>

lemma state_cases:
  assumes "rmp_get_addr_entry_state a (p0, e0, s0) X = (SEV_STATUS_SUCCESS, (p, e, s), X')" and "rmp_wf X"
  shows "(s = SNP_PAGE_STATE_DEFAULT \<and> e = e0 \<and> fst (get_rmp_paddr X a 0) = SEV_STATUS_INVALID_PAGE_STATE) \<or>
    (get_rmp_paddr X a 0 = (SEV_STATUS_SUCCESS, p) \<and> e = page_entry X p \<and> s = rmp_entry_get_state e)"
proof -
  obtain st q where g: "get_rmp_paddr X a p0 = (st, q)" by fastforce
  note st = get_rmp_paddr_old [of X a p0, unfolded g]
  consider "st = SEV_STATUS_INVALID_PAGE_STATE" "e = e0" "s = SNP_PAGE_STATE_DEFAULT"
    | "st = SEV_STATUS_SUCCESS" "p = q" "rmp_entry_read q e0 X = (SEV_STATUS_SUCCESS, e, X')"
      "s = rmp_entry_get_state e"
    using assms(1) g by (auto simp: rmp_get_addr_entry_state_def split: if_split_asm prod.split_asm)
  then show ?thesis
  proof cases
    case 1
    then show ?thesis using st(1) by simp
  next
    case 2
    have g0: "get_rmp_paddr X a 0 = (SEV_STATUS_SUCCESS, q)" using st(2) 2(1) by simp
    note nc = slot_no_cbit [OF entry_slot [OF g0 assms(2)] assms(2)]
    from rmp_read_mem(1) [OF 2(3) nc] have "e = page_entry X q" by (simp add: page_entry_def)
    with g0 2 show ?thesis by simp
  qed
qed

lemma entry_state_not_default: "rmp_entry_get_state e \<noteq> SNP_PAGE_STATE_DEFAULT"
  unfolding rmp_entry_get_state_def by (simp split: if_split)

lemma state_entry:
  assumes "rmp_get_addr_entry_state a (p0, e0, s0) X = (SEV_STATUS_SUCCESS, (p, e, s), X')" and "rmp_wf X"
    and "s \<noteq> SNP_PAGE_STATE_DEFAULT"
  shows "get_rmp_paddr X a 0 = (SEV_STATUS_SUCCESS, p)" and "e = page_entry X p"
    and "s = rmp_entry_get_state e" and "rmp_slot X p"
  using state_cases [OF assms(1,2)] assms(3) entry_slot [OF _ assms(2)] by auto

text \<open>Writing an entry changes its 16 bytes at most, also when it fails.\<close>

lemma copy_to_frame:
  assumes "copy_to_x86 a bs X = (st, X')" and "\<not> CBIT_IS_SET a" and "length bs < 2 ^ 64"
  shows "\<exists>m. X' = X\<lparr>xs_mem := m\<rparr> \<and> (\<forall>x. length bs \<le> unat (x - a) \<longrightarrow> m x = xs_mem X x)"
proof (cases "st = SEV_STATUS_SUCCESS")
  case True
  from copy_to_x86_spec(2) [OF assms(1) [unfolded True] assms(2,3)] show ?thesis
    by (intro exI [of _ "write_bytes (xs_mem X) a bs"]) (auto simp: write_bytes_def Let_def)
next
  case False
  have "X' = X \<or> (\<exists>k. X' = X\<lparr>xs_mem := write_bytes (xs_mem X) a (take k bs)\<rparr>)"
    using assms(1,2) False
    by (auto simp: copy_to_x86_def x86_copy_def copy_out_def Let_def split: if_split_asm prod.split_asm)
  then show ?thesis
  proof
    assume "X' = X"
    then show ?thesis by (intro exI [of _ "xs_mem X"]) simp
  next
    assume "\<exists>k. X' = X\<lparr>xs_mem := write_bytes (xs_mem X) a (take k bs)\<rparr>"
    then obtain k where "X' = X\<lparr>xs_mem := write_bytes (xs_mem X) a (take k bs)\<rparr>" by blast
    then show ?thesis
      by (intro exI [of _ "write_bytes (xs_mem X) a (take k bs)"]) (auto simp: write_bytes_def Let_def)
  qed
qed

lemma offset_in_entry:
  assumes "16 \<le> unat (x - p :: u64)" and "c + n \<le> 16" and "n \<le> 8"
  shows "n \<le> unat (x - (p + of_nat c))"
proof (rule ccontr)
  assume "\<not> n \<le> unat (x - (p + of_nat c))"
  define j where "j = unat (x - (p + of_nat c))"
  have j: "x - (p + of_nat c) = of_nat j" "j < n"
    using \<open>\<not> n \<le> unat (x - (p + of_nat c))\<close> by (simp_all add: j_def)
  then have "x - p = of_nat (c + j)" by (simp add: algebra_simps)
  moreover have "c + j < 16" using j(2) assms(2) by simp
  ultimately have "unat (x - p) < 16" by (simp only: unat_of_nat) (simp add: take_bit_nat_eq_self)
  with assms(1) show False by simp
qed

lemma copies_frame:
  assumes "copies_to_x86 cs X = (st, X')" and "16 dvd unat p" and "\<not> CBIT_IS_SET p"
    and "\<forall>(a, bs) \<in> set cs. \<exists>c. a = p + of_nat c \<and> c + length bs \<le> 16 \<and> length bs \<le> 8 \<and> c < 16"
  shows "\<exists>m. X' = X\<lparr>xs_mem := m\<rparr> \<and> (\<forall>x. 16 \<le> unat (x - p) \<longrightarrow> m x = xs_mem X x)"
  using assms(1,4)
proof (induction cs arbitrary: X)
  case Nil
  then show ?case by (intro exI [of _ "xs_mem X"]) simp
next
  case (Cons ab cs)
  obtain a bs where ab: "ab = (a, bs)" by fastforce
  obtain st1 Y where w: "copy_to_x86 a bs X = (st1, Y)" by fastforce
  from Cons.prems(2) ab obtain c where c: "a = p + of_nat c" "c + length bs \<le> 16" "length bs \<le> 8" "c < 16" by auto
  have nc: "\<not> CBIT_IS_SET a" using aligned_cbit [OF assms(2) c(4)] assms(3) c(1) by simp
  from copy_to_frame [OF w nc] c(3) obtain m where
    m: "Y = X\<lparr>xs_mem := m\<rparr>" "\<And>x. length bs \<le> unat (x - a) \<Longrightarrow> m x = xs_mem X x" by auto
  have m': "m x = xs_mem X x" if "16 \<le> unat (x - p)" for x
    by (rule m(2)) (use offset_in_entry [OF that c(2,3)] c(1) in simp)
  show ?case
  proof (cases "st1 = SEV_STATUS_SUCCESS")
    case True
    then have "copies_to_x86 cs Y = (st, X')" using Cons.prems(1) w ab by simp
    from Cons.IH [OF this] Cons.prems(2) obtain m2 where
      "X' = Y\<lparr>xs_mem := m2\<rparr>" "\<forall>x. 16 \<le> unat (x - p) \<longrightarrow> m2 x = xs_mem Y x" by auto
    then show ?thesis using m(1) m' by (intro exI [of _ m2]) simp
  next
    case False
    then show ?thesis using Cons.prems(1) w ab m(1) m' by (intro exI [of _ m]) simp
  qed
qed

end
