(* ===== verification/Sev_SnpSteps.thy ===== *)
theory Sev_SnpSteps
  imports Sev_RmpSlots
begin

definition quiet :: "snp_env \<Rightarrow> bool" where
  "quiet E \<longleftrightarrow> (\<forall>X. se_uc E X = X)"

lemma locked_frame:
  assumes "rmp_entry_write_locked uc p e X = (st, e', X')" and "\<forall>Y. uc Y = Y"
    and "16 dvd unat p" and "\<not> CBIT_IS_SET p" and "xs_skip_rmp X + 1 \<noteq> 0"
  shows "\<exists>m. X' = X\<lparr>xs_mem := m\<rparr> \<and> (\<forall>x. 16 \<le> unat (x - p) \<longrightarrow> m x = xs_mem X x)"
proof -
  note cb = aligned_cbit_4_8 [OF assms(3,4)]
  obtain st1 inv X1 where r1: "rmp_entry_read p e X = (st1, inv, X1)" by (metis prod_cases3)
  have X1: "X1 = X" using read_keeps [OF assms(5), of p e] r1 by simp
  let ?inv1 = "set_asid_field RMP_INVALID_ASID inv"
  obtain st2 X2 where c2: "copy_to_x86 (p + 4) (take 4 (drop 4 (entry_bytes ?inv1))) X = (st2, X2)" by fastforce
  have "copies_to_x86 [(p + 4, take 4 (drop 4 (entry_bytes ?inv1)))] X = (st2, X2)" using c2 by (simp split: if_split)
  moreover have "\<forall>(a, bs) \<in> set [(p + 4, take 4 (drop 4 (entry_bytes ?inv1)))].
      \<exists>c. a = p + of_nat c \<and> c + length bs \<le> 16 \<and> length bs \<le> 8 \<and> c < 16"
    by (auto intro: exI [of _ 4])
  ultimately obtain m2 where
    m2: "X2 = X\<lparr>xs_mem := m2\<rparr>" "\<And>x. 16 \<le> unat (x - p) \<Longrightarrow> m2 x = xs_mem X x"
    using copies_frame [OF _ assms(3,4)] by blast
  obtain st3 inv2 X3 where r2: "rmp_entry_read p ?inv1 X2 = (st3, inv2, X3)" by (metis prod_cases3)
  have X3: "X3 = X2" using read_keeps [of X2 p ?inv1] assms(5) r2 m2(1) by simp
  let ?new = "set_subpage_count (rmp_subpage_count inv2) e"
  let ?cs = "[(p, take 4 (entry_bytes ?new)), (p + 8, bytes_of (q2 ?new)), (p + 4, take 4 (drop 4 (entry_bytes ?new)))]"
  obtain st4 X4 where c4: "copies_to_x86 ?cs X2 = (st4, X4)" by fastforce
  have ok: "\<forall>(a, bs) \<in> set ?cs. \<exists>c. a = p + of_nat c \<and> c + length bs \<le> 16 \<and> length bs \<le> 8 \<and> c < 16"
    by (auto intro: exI [of _ 4] exI [of _ 8] exI [of _ 0])
  from copies_frame [OF c4 assms(3,4) ok] obtain m4 where
    m4: "X4 = X2\<lparr>xs_mem := m4\<rparr>" "\<And>x. 16 \<le> unat (x - p) \<Longrightarrow> m4 x = xs_mem X2 x" by blast
  have "X' = X \<or> X' = X2 \<or> X' = X4"
    using assms(1) r1 c2 r2 c4 X1 X3 assms(2)
    by (auto simp: rmp_entry_write_locked_def Let_def split: if_split_asm)
  moreover have ?thesis if "X' = X" using that by (intro exI [of _ "xs_mem X"]) simp
  moreover have ?thesis if "X' = X2" using that m2 by (intro exI [of _ m2]) simp
  moreover have ?thesis if "X' = X4" using that m2 m4 by (intro exI [of _ m4]) simp
  ultimately show ?thesis by blast
qed

text \<open>An entry that is written, whatever the outcome: nothing but its bytes changes.\<close>

lemma write_frame:
  assumes "rmp_entry_write al8k uc p e X = (st, e', X')" and "\<forall>Y. uc Y = Y"
    and "rmp_slot X p" and "rmp_wf X"
  shows "\<exists>m. X' = X\<lparr>xs_mem := m\<rparr> \<and> (\<forall>x. 16 \<le> unat (x - p) \<longrightarrow> m x = xs_mem X x)"
proof -
  have d: "16 dvd unat p" "\<not> CBIT_IS_SET p" using assms(3) slot_no_cbit [OF assms(3,4)] by (simp_all add: rmp_slot_def)
  have k: "xs_skip_rmp X = 0" using rmp_wf_skip(1) [OF assms(4)] .
  let ?X0 = "skip_rmp_addr_check True X"
  have s0: "xs_skip_rmp ?X0 + 1 \<noteq> 0" by (simp add: skip_rmp_addr_check_def k)
  let ?locked = "rmp_page_size e = DRAM_PAGE_SIZE_4K \<and> al8k p"
  obtain st1 e1 X1 where w: "(if ?locked then rmp_entry_write_locked uc p e ?X0
      else case copies_to_x86 [(p + 8, bytes_of (q2 e)), (p, bytes_of (q1 e))] ?X0 of (s, Y) \<Rightarrow> (s, e, Y)) = (st1, e1, X1)"
    by (metis prod_cases3)
  have X': "X' = skip_rmp_addr_check False X1" using assms(1) w by (simp add: rmp_entry_write_def Let_def split: if_split_asm)
  have "\<exists>m. X1 = ?X0\<lparr>xs_mem := m\<rparr> \<and> (\<forall>x. 16 \<le> unat (x - p) \<longrightarrow> m x = xs_mem ?X0 x)"
  proof (cases ?locked)
    case True
    then have "rmp_entry_write_locked uc p e ?X0 = (st1, e1, X1)" using w by simp
    from locked_frame [OF this assms(2) d s0] show ?thesis .
  next
    case False
    let ?cs = "[(p + 8, bytes_of (q2 e)), (p, bytes_of (q1 e))]"
    have "copies_to_x86 ?cs ?X0 = (st1, X1)" using w False by (simp split: prod.split_asm)
    moreover have "\<forall>(a, bs) \<in> set ?cs. \<exists>c. a = p + of_nat c \<and> c + length bs \<le> 16 \<and> length bs \<le> 8 \<and> c < 16"
      by (auto intro: exI [of _ 8] exI [of _ 0])
    ultimately show ?thesis using copies_frame [OF _ d] by blast
  qed
  then obtain m where m: "X1 = ?X0\<lparr>xs_mem := m\<rparr>" "\<forall>x. 16 \<le> unat (x - p) \<longrightarrow> m x = xs_mem X x" by auto
  have "X' = X\<lparr>xs_mem := m\<rparr>" unfolding X' m(1) by (simp add: skip_rmp_addr_check_def k)
  with m(2) show ?thesis by blast
qed

lemma put_get_field: "put_field lo n (get_field lo n w) w = w"
  by (rule bit_eqI) (auto simp: bit_put_field bit_get_field dest: bit_imp_le_length)

lemma subpage_same: "rmp_subpage_count e = rmp_subpage_count f \<Longrightarrow> set_subpage_count (rmp_subpage_count f) e = e"
  using put_get_field [of 3 9 "q1 e"] by (simp add: set_subpage_count_def rmp_subpage_count_def)

text \<open>A successful write stores the entry, if its subpage count is the one in the table.\<close>

lemma write_success:
  assumes "rmp_entry_write al8k uc p e X = (SEV_STATUS_SUCCESS, e', X')" and "\<forall>Y. uc Y = Y"
    and "rmp_slot X p" and "rmp_wf X" and "rmp_subpage_count e = rmp_subpage_count (page_entry X p)"
  shows "page_entry X' p = e"
proof -
  have d: "16 dvd unat p" "\<not> CBIT_IS_SET p" using assms(3) slot_no_cbit [OF assms(3,4)] by (simp_all add: rmp_slot_def)
  have u: "uc = (\<lambda>Y. Y\<lparr>xs_mem := id (xs_mem Y)\<rparr>)" using assms(2) by auto
  from rmp_write_effect [OF assms(1) [unfolded u] d refl refl]
  have "page_entry X' p = e \<or> page_entry X' p = set_subpage_count (rmp_subpage_count (page_entry X p)) e"
    by (auto simp: page_entry_def split: if_split_asm)
  with subpage_same [OF assms(5)] show ?thesis by auto
qed

section \<open>Successful commands\<close>

lemma require_success:
  "st \<noteq> SEV_STATUS_SUCCESS \<Longrightarrow> require P st k S = (SEV_STATUS_SUCCESS, S') \<longleftrightarrow> P S \<and> k S = (SEV_STATUS_SUCCESS, S')"
  by (simp add: require_def)

lemma finish_success: "finish S = (SEV_STATUS_SUCCESS, S') \<longleftrightarrow> S' = S"
  by (auto simp: finish_def)

lemma get_page_success:
  assumes "xs_skip_rmp (sn_x86 S) + 1 \<noteq> 0"
  shows "get_page E a k S = (SEV_STATUS_SUCCESS, S') \<longleftrightarrow>
    (\<exists>r. rmp_get_addr_entry_state a (0, se_entry0 E, SNP_PAGE_STATE_INVALID) (sn_x86 S) =
       (SEV_STATUS_SUCCESS, r, sn_x86 S) \<and> k r S = (SEV_STATUS_SUCCESS, S'))"
proof -
  obtain st r X where g: "rmp_get_addr_entry_state a (0, se_entry0 E, SNP_PAGE_STATE_INVALID) (sn_x86 S) = (st, r, X)"
    by (metis prod_cases3)
  have "X = sn_x86 S" by (rule state_keeps [OF g assms])
  with g show ?thesis by (auto simp: get_page_def)
qed

lemma write_entry_success:
  "write_entry E p e k S = (SEV_STATUS_SUCCESS, S') \<longleftrightarrow>
    (\<exists>e' X. rmp_entry_write (se_al8k E) (se_uc E) p e (sn_x86 S) = (SEV_STATUS_SUCCESS, e', X) \<and>
       k (S\<lparr>sn_x86 := X\<rparr>) = (SEV_STATUS_SUCCESS, S'))"
  by (auto simp: write_entry_def Let_def split: prod.split)

lemma on_x86_success:
  "on_x86 f k S = (SEV_STATUS_SUCCESS, S') \<longleftrightarrow>
    (\<exists>X. f (sn_x86 S) = (SEV_STATUS_SUCCESS, X) \<and> k (S\<lparr>sn_x86 := X\<rparr>) = (SEV_STATUS_SUCCESS, S'))"
  by (auto simp: on_x86_def Let_def split: prod.split)

lemma on_plat_success:
  "on_plat f k S = (SEV_STATUS_SUCCESS, S') \<longleftrightarrow>
    (\<exists>p. f (sn_plat S) = (SEV_STATUS_SUCCESS, p) \<and> k (S\<lparr>sn_plat := p\<rparr>) = (SEV_STATUS_SUCCESS, S'))"
  by (auto simp: on_plat_def Let_def split: prod.split)

lemma map_context_success:
  "map_context addr k S = (SEV_STATUS_SUCCESS, S') \<longleftrightarrow>
    (\<exists>a. sev_hal_map_guest_context (sn_x86 S) addr PAGE_SIZE_4K = (SEV_STATUS_SUCCESS, a) \<and>
       k a S = (SEV_STATUS_SUCCESS, S'))"
  by (auto simp: map_context_def split: prod.split)

lemma map_memory_success:
  "map_memory addr n k S = (SEV_STATUS_SUCCESS, S') \<longleftrightarrow>
    (\<exists>a. sev_hal_map_memory_ccp (sn_x86 S) addr n = (SEV_STATUS_SUCCESS, a) \<and> k a S = (SEV_STATUS_SUCCESS, S'))"
  by (auto simp: map_memory_def split: prod.split)

lemmas step_success = require_success finish_success write_entry_success on_x86_success on_plat_success
  map_context_success map_memory_success

section \<open>The fields of the new entries\<close>

lemmas page_setters = entry_setters set_assigned_def set_page_size_def set_gpa_def set_validated_def set_q2_def

lemmas entry_calc = page_setters entry_fields get_put_other get_put_field

lemma release_fields:
  "rmp_immutable (release_page e) = 0" "rmp_lock (release_page e) = 0"
  "rmp_assigned (release_page e) = rmp_assigned e" "rmp_validated (release_page e) = rmp_validated e"
  "rmp_asid (release_page e) = rmp_asid e" "rmp_gpa (release_page e) = rmp_gpa e"
  "rmp_vmsa (release_page e) = rmp_vmsa e" "rmp_subpage_count (release_page e) = rmp_subpage_count e"
  "rmp_page_size (release_page e) = rmp_page_size e" "q2 (release_page e) = q2 e"
  by (simp_all add: release_page_def entry_calc)

lemma get_gpa_zero [simp]: "RMP_GET_GPA 0 = 0"
  by (simp add: RMP_GET_GPA_def)

text \<open>The page states by the fields.\<close>

lemma page_states:
  "rmp_entry_get_state e = SNP_PAGE_STATE_FIRMWARE \<longleftrightarrow> rmp_assigned e = 1 \<and> rmp_validated e = 0 \<and>
     rmp_asid e = 0 \<and> rmp_immutable e = 1 \<and> rmp_gpa e = 0 \<and> rmp_vmsa e = 0"
  "rmp_entry_get_state e = SNP_PAGE_STATE_RECLAIM \<longleftrightarrow> rmp_assigned e = 1 \<and> rmp_validated e = 0 \<and>
     rmp_asid e = 0 \<and> rmp_immutable e = 0 \<and> rmp_lock e = 0"
  "rmp_entry_get_state e = SNP_PAGE_STATE_CONTEXT \<longleftrightarrow> rmp_assigned e = 1 \<and> rmp_validated e = 0 \<and>
     rmp_asid e = 0 \<and> rmp_immutable e = 1 \<and> rmp_gpa e = 0 \<and> rmp_vmsa e = 1"
  "rmp_entry_get_state e = SNP_PAGE_STATE_METADATA \<longleftrightarrow> rmp_assigned e = 1 \<and> rmp_validated e = 0 \<and>
     rmp_asid e = 0 \<and> rmp_immutable e = 1 \<and> RMP_GET_GPA (rmp_gpa e) \<noteq> 0 \<and>
     RMP_GET_GPA_STATE (rmp_gpa e) = RMP_GPA_STATE_METADATA"
  "rmp_entry_get_state e = SNP_PAGE_STATE_PRE_GUEST \<longleftrightarrow> rmp_assigned e = 1 \<and> rmp_validated e = 0 \<and>
     rmp_asid e \<noteq> 0 \<and> rmp_immutable e = 1"
  "rmp_entry_get_state e = SNP_PAGE_STATE_PRE_SWAP \<longleftrightarrow> rmp_assigned e = 1 \<and> rmp_validated e = 1 \<and>
     rmp_asid e \<noteq> 0 \<and> rmp_immutable e = 1"
  "rmp_entry_get_state e = SNP_PAGE_STATE_GUEST_INVALID \<longleftrightarrow> rmp_assigned e = 1 \<and> rmp_validated e = 0 \<and>
     rmp_asid e \<noteq> 0 \<and> rmp_immutable e = 0"
  "rmp_entry_get_state e = SNP_PAGE_STATE_GUEST_VALID \<longleftrightarrow> rmp_assigned e = 1 \<and> rmp_validated e = 1 \<and>
     rmp_asid e \<noteq> 0 \<and> rmp_immutable e = 0"
  by (auto simp: rmp_entry_get_state_def word_gt_0)

lemma gpa_bits: "rmp_gpa e < 2 ^ 39"
proof -
  have "unat (rmp_gpa e) < 2 ^ 39"
    using take_bit_nat_less_exp [of 39 "unat (drop_bit 12 (q1 e))"]
    by (simp only: rmp_gpa_def get_field_def unsigned_take_bit_eq)
  then show ?thesis by (simp add: word_less_nat_alt)
qed

lemma take_bit_small: "unat (v :: u64) < 2 ^ n \<Longrightarrow> take_bit n v = v"
  by (simp only: word_unat_eq_iff unsigned_take_bit_eq take_bit_nat_eq_self)

end
