(* ===== verification/Sev_SnpFrames.thy ===== *)
theory Sev_SnpFrames
  imports Sev_SnpSteps
begin

section \<open>Data of the host stays out of the table\<close>

lemma validate_no_asid:
  "validate_address_range X a n = SEV_STATUS_SUCCESS \<Longrightarrow> \<not> asid_bits_set X (CLEAR_CBIT a)"
  by (auto simp: validate_address_range_def CLEAR_CBIT_def Let_def split: if_split_asm)

lemma bit_asid_mask: "bit (SEV_ASID_ADDR_MASK X) i \<longleftrightarrow> i < 64 \<and> xs_asid_shift X \<le> i \<and> i < xs_asid_shift X + 10"
proof -
  have e: "(0x3FF :: u64) = mask 10" by (simp add: mask_eq_exp_minus_1)
  show ?thesis unfolding SEV_ASID_ADDR_MASK_def e bit_push_bit_iff bit_mask_iff by auto
qed

lemma bit_clear_cbit: "bit (CLEAR_CBIT a) i \<longleftrightarrow> bit a i \<and> i \<noteq> 51"
  by (auto simp: CLEAR_CBIT_def bit_and_iff bit_not_iff cbit_bit dest: bit_imp_le_length)

lemma bit_lt_power:
  assumes "unat (v :: u64) < 2 ^ n" and "bit v i"
  shows "i < n"
proof -
  have "bit (take_bit n v) i" using assms by (simp only: take_bit_small)
  then show ?thesis by (simp add: bit_take_bit_iff)
qed

lemma bits_bound: "(\<And>i. bit (v :: u64) i \<Longrightarrow> i < n) \<Longrightarrow> unat v < 2 ^ n"
proof -
  assume b: "\<And>i. bit v i \<Longrightarrow> i < n"
  have "take_bit n v = v" by (rule bit_eqI) (auto simp: bit_take_bit_iff dest: b)
  then have "unat v = take_bit n (unat v)" by (metis unsigned_take_bit_eq)
  then show ?thesis by (metis take_bit_nat_less_exp)
qed

lemma mapped_outside:
  assumes "rmp_wf X" and "validate_address_range X addr n = SEV_STATUS_SUCCESS" and "k < unat n"
    and "unat asid < 1024"
  shows "\<not> (xs_rmp_base X \<le> set_asid X op addr asid + of_nat k \<and> set_asid X op addr asid + of_nat k \<le> xs_rmp_end X)"
proof
  let ?s = "xs_asid_shift X" and ?r = "set_asid X op addr asid + of_nat k"
  assume r: "xs_rmp_base X \<le> ?r \<and> ?r \<le> xs_rmp_end X"
  have s: "?s \<le> 51" "unat (xs_rmp_end X) < 2 ^ ?s" "xs_skip_rmp X = 0" using assms(1) by (simp_all add: rmp_wf_def)
  define st where "st = CLEAR_CBIT addr"
  note v = validate_success [OF assms(2) st_def refl]
  define c where "c = addr AND NOT (SEV_ASID_ADDR_MASK X)"
  define A where "A = push_bit ?s (if addr AND SEV_CBIT_MASK \<noteq> 0 \<and> plaintext_op op then SEV_ASID_SME_ASID else asid)"
  have m: "set_asid X op addr asid = c OR A" by (simp add: set_asid_def c_def A_def Let_def)
  have bc: "bit c i \<longleftrightarrow> bit addr i \<and> \<not> (?s \<le> i \<and> i < ?s + 10)" for i
    by (auto simp: c_def bit_and_iff bit_not_iff bit_asid_mask dest: bit_imp_le_length)
  obtain a1 where a1: "A = push_bit ?s a1" "unat a1 < 2 ^ 10"
    using assms(4) by (auto simp: A_def SEV_ASID_SME_ASID_def)
  have bA: "bit A i \<Longrightarrow> ?s \<le> i \<and> i < ?s + 10" for i
    using bit_lt_power [OF a1(2), of "i - ?s"] by (auto simp: a1(1) bit_push_bit_iff)
  have max: "unat (st + n - 1) < 2 ^ 46"
    using v(3) by (simp add: word_le_nat_alt X86_MAX_PHYS_ADDR_def X86_HYPER_TRANSPORT_AREA_def)
  have stn: "unat (st + n - 1) = unat st + unat n - 1" and st46: "unat st < 2 ^ 46"
  proof -
    have "unat (st + n - 1 - st) = unat (st + n - 1) - unat st" by (rule unat_sub [OF v(2)])
    moreover have "st + n - 1 - st = n - 1" by simp
    moreover have "unat (n - 1) = unat n - 1" "0 < unat n" using v(1) by (simp_all add: unat_minus_one unat_gt_0)
    ultimately show "unat (st + n - 1) = unat st + unat n - 1" "unat st < 2 ^ 46"
      using v(2) max by (simp_all add: word_le_nat_alt)
  qed
  have k: "k < 2 ^ 46" "unat (of_nat k :: u64) = k" using stn max assms(3) by (simp_all add: unat_of_nat take_bit_nat_eq_self)
  have c52: "unat c < 2 ^ 52"
  proof (rule bits_bound)
    fix i assume "bit c i"
    then have "bit st i \<or> i = 51" by (auto simp: bc st_def bit_clear_cbit)
    then show "i < 52" using bit_lt_power [OF st46, of i] by auto
  qed
  have A61: "unat A < 2 ^ 61"
  proof (rule bits_bound)
    fix i assume "bit A i"
    then show "i < 61" using bA [of i] s(1) by simp
  qed
  have d: "c AND A = 0"
    by (rule bit_eqI) (use bA in \<open>auto simp: bit_and_iff bc\<close>)
  have mc: "c OR A = c + A"
    by (rule disjunctive_add_eq_or [OF d, symmetric])
  have ur: "unat ?r = unat c + unat A + k"
    unfolding m mc using c52 A61 k by (subst unat_add_no_wrap | simp)+
  have rs: "unat ?r < 2 ^ ?s" using r s(2) by (simp add: word_le_nat_alt)
  have A0: "A = 0"
  proof (rule bit_eqI)
    fix i
    have "unat A < 2 ^ ?s" using ur rs by simp
    then show "bit A i = bit 0 i" using bit_lt_power [of A ?s i] bA [of i] by auto
  qed
  have cs: "unat c < 2 ^ ?s" using ur rs by simp
  have "c = st"
  proof (rule bit_eqI)
    fix i
    have na: "\<not> (bit st i \<and> ?s \<le> i \<and> i < ?s + 10 \<and> i \<noteq> 51)"
    proof
      assume b: "bit st i \<and> ?s \<le> i \<and> i < ?s + 10 \<and> i \<noteq> 51"
      then have "bit (st AND (SEV_ASID_ADDR_MASK X AND NOT SEV_CBIT_MASK)) i"
        by (auto simp: bit_and_iff bit_not_iff bit_asid_mask cbit_bit dest: bit_imp_le_length)
      then have "st AND (SEV_ASID_ADDR_MASK X AND NOT SEV_CBIT_MASK) \<noteq> 0" by auto
      with validate_no_asid [OF assms(2)] show False by (simp add: asid_bits_set_def st_def word_gt_0)
    qed
    have c51: "\<not> bit c 51" using bit_lt_power [OF cs, of 51] s(1) by auto
    show "bit c i = bit st i"
      using na c51 by (auto simp: bc st_def bit_clear_cbit)
  qed
  then have u: "unat ?r = unat st + k" using ur A0 by simp
  have le: "st \<le> ?r" "?r \<le> st + n - 1" using u stn assms(3) by (simp_all add: word_le_nat_alt)
  have cl: "CLEAR_CBIT st = st" "CLEAR_CBIT (st + n - 1) = st + n - 1"
    using small_no_cbit [OF v(3)] by (simp_all add: st_def cbit_idem)
  have cb: "CLEAR_CBIT x = x" if "unat x < 2 ^ ?s" for x
    by (rule bit_eqI) (use bit_lt_power [OF that, of 51] s(1) in \<open>auto simp: bit_clear_cbit\<close>)
  from no_overlap_outside [OF v(9) [OF s(3)] cl le] have "\<not> in_range ?r (xs_rmp_base X) (xs_rmp_end X)" .
  moreover have "unat (xs_rmp_base X) < 2 ^ ?s" using r s(2) by (simp add: word_le_nat_alt)
  ultimately show False using r cb s(2) by (simp add: in_range_def)
qed

text \<open>Bytes written at a mapped address therefore leave the entries of the table alone.\<close>

lemma write_outside:
  assumes "rmp_wf X" and "validate_address_range X addr n = SEV_STATUS_SUCCESS"
    and "unat asid < 1024" and "length bs \<le> unat n" and "xs_rmp_base X \<le> x" and "x \<le> xs_rmp_end X"
  shows "write_bytes m (set_asid X op addr asid) bs x = m x"
proof (rule ccontr)
  let ?a = "set_asid X op addr asid"
  assume "write_bytes m ?a bs x \<noteq> m x"
  then have k: "unat (x - ?a) < length bs" by (auto simp: write_bytes_def Let_def split: if_split_asm)
  have "x = ?a + of_nat (unat (x - ?a))" by simp
  with mapped_outside [OF assms(1,2) _ assms(3), of "unat (x - ?a)" op] k assms(4-6) show False by simp
qed

lemma slot_bytes:
  assumes "rmp_slot X q" and "k < 16"
  shows "xs_rmp_base X \<le> q + of_nat k" and "q + of_nat k \<le> xs_rmp_end X"
proof -
  have "unat (q + of_nat k) = unat q + k"
    using assms u64_bound [of "xs_rmp_end X"]
    by (subst unat_add_no_wrap) (simp_all add: rmp_slot_def unat_of_nat)
  then show "xs_rmp_base X \<le> q + of_nat k" "q + of_nat k \<le> xs_rmp_end X"
    using assms by (auto simp: rmp_slot_def word_le_nat_alt)
qed

lemma entry_write_outside:
  assumes "rmp_wf X" and "validate_address_range X addr n = SEV_STATUS_SUCCESS"
    and "unat asid < 1024" and "length bs \<le> unat n" and "rmp_slot X q"
  shows "page_entry (X\<lparr>xs_mem := write_bytes (xs_mem X) (set_asid X op addr asid) bs\<rparr>) q = page_entry X q"
  by (rule page_entry_cong) (simp add: write_outside [OF assms(1-4) slot_bytes [OF assms(5)]])

end
