(* ===== verification/Sev_SnpReclaim.thy ===== *)
theory Sev_SnpReclaim
  imports Sev_SnpFrames
begin

section \<open>What successful commands do\<close>

text \<open>A step of the x86 memory that keeps the machine.\<close>

definition same_machine :: "x86 \<Rightarrow> x86 \<Rightarrow> bool" where
  "same_machine X X' \<longleftrightarrow> X' = X\<lparr>xs_mem := xs_mem X'\<rparr>"

lemma same_machine_wf: "same_machine X X' \<Longrightarrow> rmp_wf X' = rmp_wf X"
  "same_machine X X' \<Longrightarrow> rmp_slot X' q = rmp_slot X q"
  "same_machine X X' \<Longrightarrow> get_rmp_paddr X' a v = get_rmp_paddr X a v"
proof -
  assume "same_machine X X'"
  then have e: "xs_rmp_base X' = xs_rmp_base X" "xs_rmp_end X' = xs_rmp_end X" "xs_asid_shift X' = xs_asid_shift X"
    "xs_skip_rmp X' = xs_skip_rmp X"
    unfolding same_machine_def by (metis select_convs update_convs x86.select_convs x86.surjective x86.update_convs)+
  show "rmp_wf X' = rmp_wf X" "rmp_slot X' q = rmp_slot X q" "get_rmp_paddr X' a v = get_rmp_paddr X a v"
    by (simp_all add: rmp_wf_def rmp_slot_def get_rmp_paddr_def local_get_rmp_paddr_def Let_def e)
qed

lemma same_machine_trans: "same_machine X Y \<Longrightarrow> same_machine Y Z \<Longrightarrow> same_machine X Z"
  by (simp add: same_machine_def) (metis x86.surjective x86.update_convs(1))

lemma write_frame_entries:
  assumes "rmp_entry_write al8k uc p e X = (st, e', X')" and "\<forall>Y. uc Y = Y"
    and "rmp_slot X p" and "rmp_wf X"
  shows "same_machine X X'" and "\<And>q. rmp_slot X q \<Longrightarrow> q \<noteq> p \<Longrightarrow> page_entry X' q = page_entry X q"
    and "\<And>x. 16 \<le> unat (x - p) \<Longrightarrow> xs_mem X' x = xs_mem X x"
proof -
  from write_frame [OF assms] obtain m where
    m: "X' = X\<lparr>xs_mem := m\<rparr>" "\<forall>x. 16 \<le> unat (x - p) \<longrightarrow> m x = xs_mem X x" by blast
  then show "same_machine X X'" and b: "\<And>x. 16 \<le> unat (x - p) \<Longrightarrow> xs_mem X' x = xs_mem X x"
    by (simp_all add: same_machine_def)
  show "page_entry X' q = page_entry X q" if "rmp_slot X q" "q \<noteq> p" for q
    by (rule page_entry_cong) (simp add: b slots_apart [OF assms(3) that(1) that(2) [symmetric]])
qed

lemma reclaim_transitions:
  assumes "reclaimed_entry (rmp_entry_get_state e) e = Some e'"
  shows "(rmp_entry_get_state e, rmp_entry_get_state e') \<in>
      {(SNP_PAGE_STATE_METADATA, SNP_PAGE_STATE_RECLAIM), (SNP_PAGE_STATE_FIRMWARE, SNP_PAGE_STATE_RECLAIM),
       (SNP_PAGE_STATE_PRE_GUEST, SNP_PAGE_STATE_GUEST_INVALID),
       (SNP_PAGE_STATE_PRE_SWAP, SNP_PAGE_STATE_GUEST_VALID)}"
    and "rmp_asid e' = rmp_asid e" and "rmp_subpage_count e' = rmp_subpage_count e"
proof -
  have cases: "rmp_entry_get_state e = SNP_PAGE_STATE_METADATA \<and> e' = set_gpa (RMP_GET_GPA (rmp_gpa (release_page e))) (release_page e)
     \<or> rmp_entry_get_state e \<in> {SNP_PAGE_STATE_FIRMWARE, SNP_PAGE_STATE_PRE_GUEST, SNP_PAGE_STATE_PRE_SWAP} \<and> e' = release_page e"
    using assms by (auto simp: reclaimed_entry_def Let_def split: snp_page_state.split_asm)
  have g: "rmp_assigned (set_gpa v f) = rmp_assigned f" "rmp_validated (set_gpa v f) = rmp_validated f"
    "rmp_asid (set_gpa v f) = rmp_asid f" "rmp_immutable (set_gpa v f) = rmp_immutable f"
    "rmp_lock (set_gpa v f) = rmp_lock f" "rmp_subpage_count (set_gpa v f) = rmp_subpage_count f" for v f
    by (simp_all add: entry_calc)
  show "rmp_asid e' = rmp_asid e" "rmp_subpage_count e' = rmp_subpage_count e"
    using cases by (auto simp: g release_fields)
  show "(rmp_entry_get_state e, rmp_entry_get_state e') \<in>
      {(SNP_PAGE_STATE_METADATA, SNP_PAGE_STATE_RECLAIM), (SNP_PAGE_STATE_FIRMWARE, SNP_PAGE_STATE_RECLAIM),
       (SNP_PAGE_STATE_PRE_GUEST, SNP_PAGE_STATE_GUEST_INVALID),
       (SNP_PAGE_STATE_PRE_SWAP, SNP_PAGE_STATE_GUEST_VALID)}"
    using cases
    by (elim disjE conjE insertE emptyE) (simp_all add: page_states g release_fields)
qed

lemma reclaim_effect:
  assumes "snp_mcmd_page_reclaim E w S = (SEV_STATUS_SUCCESS, S')" and "quiet E" and "rmp_wf (sn_x86 S)"
    and "get_rmp_paddr (sn_x86 S) (SNP_PAGE_ADDR w) 0 = (SEV_STATUS_SUCCESS, p)"
    and "e = page_entry (sn_x86 S) p" and "rmp_immutable e \<noteq> 0"
  shows "reclaimed_entry (rmp_entry_get_state e) e = Some (page_entry (sn_x86 S') p)"
    and "\<And>x. 16 \<le> unat (x - p) \<Longrightarrow> xs_mem (sn_x86 S') x = xs_mem (sn_x86 S) x"
    and "rmp_page_size e = SNP_PAGE_SIZE w"
proof -
  let ?X = "sn_x86 S"
  note sk = rmp_wf_skip(2) [OF assms(3)]
  from assms(1) obtain q f st where
    g: "rmp_get_addr_entry_state (SNP_PAGE_ADDR w) (0, se_entry0 E, SNP_PAGE_STATE_INVALID) ?X =
        (SEV_STATUS_SUCCESS, (q, f, st), ?X)" and ps: "rmp_page_size f = SNP_PAGE_SIZE w" and
    r: "(if rmp_immutable f = 0 then finish S = (SEV_STATUS_SUCCESS, S')
         else (case reclaimed_entry st f of None \<Rightarrow> Pair SEV_STATUS_INVALID_PAGE_STATE
               | Some e' \<Rightarrow> write_entry E q e' finish) S = (SEV_STATUS_SUCCESS, S'))"
    by (auto simp: snp_mcmd_page_reclaim_def Let_def step_success get_page_success sk split: if_split_asm)
  have nd: "st \<noteq> SNP_PAGE_STATE_DEFAULT" using state_cases [OF g assms(3)] assms(4) entry_state_not_default by auto
  note se = state_entry [OF g assms(3) nd]
  have qp: "q = p" "f = e" using se(1,2) assms(4,5) by simp_all
  show "rmp_page_size e = SNP_PAGE_SIZE w" using ps qp by simp
  from r assms(6) qp se(3) obtain e' e2 Y where re: "reclaimed_entry (rmp_entry_get_state e) e = Some e'" and
    w: "rmp_entry_write (se_al8k E) (se_uc E) p e' ?X = (SEV_STATUS_SUCCESS, e2, Y)" "S' = S\<lparr>sn_x86 := Y\<rparr>"
    by (auto simp: step_success split: option.split_asm)
  have slot: "rmp_slot ?X p" using se(4) qp by simp
  have uc: "\<forall>Y. se_uc E Y = Y" using assms(2) by (simp add: quiet_def)
  have "page_entry Y p = e'"
    by (rule write_success [OF w(1) uc slot assms(3)])
      (simp add: reclaim_transitions(3) [OF re] assms(5) [symmetric])
  then show "reclaimed_entry (rmp_entry_get_state e) e = Some (page_entry (sn_x86 S') p)" using re w(2) by simp
  show "xs_mem (sn_x86 S') x = xs_mem ?X x" if "16 \<le> unat (x - p)" for x
    using write_frame_entries(3) [OF w(1) uc slot assms(3) that] w(2) by simp
qed

text \<open>
  C13: PAGE_RECLAIM of a page with the immutable bit set succeeds only for a METADATA, FIRMWARE,
  PRE_GUEST or PRE_SWAP page of the given size; these become RECLAIM, RECLAIM, GUEST_INVALID and
  GUEST_VALID pages, a guest's page keeps its ASID, and no other byte of memory changes. A CONTEXT
  page, in particular, is not reclaimed.
\<close>

theorem page_reclaim_transitions:
  assumes "snp_mcmd_page_reclaim E w S = (SEV_STATUS_SUCCESS, S')" and "quiet E" and "rmp_wf (sn_x86 S)"
    and "get_rmp_paddr (sn_x86 S) (SNP_PAGE_ADDR w) 0 = (SEV_STATUS_SUCCESS, p)"
    and "e = page_entry (sn_x86 S) p" and "e' = page_entry (sn_x86 S') p" and "rmp_immutable e \<noteq> 0"
  shows "(rmp_entry_get_state e, rmp_entry_get_state e') \<in>
      {(SNP_PAGE_STATE_METADATA, SNP_PAGE_STATE_RECLAIM), (SNP_PAGE_STATE_FIRMWARE, SNP_PAGE_STATE_RECLAIM),
       (SNP_PAGE_STATE_PRE_GUEST, SNP_PAGE_STATE_GUEST_INVALID),
       (SNP_PAGE_STATE_PRE_SWAP, SNP_PAGE_STATE_GUEST_VALID)} \<and>
    rmp_asid e' = rmp_asid e \<and> rmp_page_size e = SNP_PAGE_SIZE w \<and>
    (\<forall>x. 16 \<le> unat (x - p) \<longrightarrow> xs_mem (sn_x86 S') x = xs_mem (sn_x86 S) x)"
proof -
  note r = reclaim_effect [OF assms(1-5,7)]
  from reclaim_transitions [OF r(1) [folded assms(6)]] r(2,3) show ?thesis by blast
qed

text \<open>
  A page that the table does not cover has no entry: PAGE_RECLAIM then takes its decision from
  a variable that was never assigned.
\<close>

theorem reclaim_of_uncovered_page_is_undefined:
  assumes "w AND SNP_ADDR_PAGE_RECLAIM_RESERVED_MASK = 0" and "snp_initialized S" and "rmp_wf (sn_x86 S)"
    and "SNP_PAGE_SIZE w = DRAM_PAGE_SIZE_4K"
    and "validate_address_range (sn_x86 S) (SNP_PAGE_ADDR w) PAGE_SIZE_4K = SEV_STATUS_SUCCESS"
    and "fst (get_rmp_paddr (sn_x86 S) (SNP_PAGE_ADDR w) 0) = SEV_STATUS_INVALID_PAGE_STATE"
  shows "fst (snp_mcmd_page_reclaim E w S) =
    (if rmp_page_size (se_entry0 E) \<noteq> DRAM_PAGE_SIZE_4K then SEV_STATUS_INVALID_PAGE_SIZE
     else if rmp_immutable (se_entry0 E) = 0 then SEV_STATUS_SUCCESS else SEV_STATUS_INVALID_PAGE_STATE)"
proof -
  obtain v where g: "get_rmp_paddr (sn_x86 S) (SNP_PAGE_ADDR w) 0 = (SEV_STATUS_INVALID_PAGE_STATE, v)"
    using assms(6) by (metis prod.collapse)
  have r: "rmp_get_addr_entry_state (SNP_PAGE_ADDR w) (0, e0, SNP_PAGE_STATE_INVALID) (sn_x86 S) =
      (SEV_STATUS_SUCCESS, (v, e0, SNP_PAGE_STATE_DEFAULT), sn_x86 S)" for e0
    by (simp add: rmp_get_addr_entry_state_def g)
  have ne: "DRAM_PAGE_SIZE_2M \<noteq> DRAM_PAGE_SIZE_4K" by (simp add: DRAM_PAGE_SIZE_2M_def DRAM_PAGE_SIZE_4K_def)
  show ?thesis
    using assms(1,2,4,5) ne
    by (auto simp: snp_mcmd_page_reclaim_def Let_def require_def on_x86_def get_page_def r finish_def reclaimed_entry_def)
qed

end
