(* ===== verification/Sev_SnpMove.thy ===== *)
theory Sev_SnpMove
  imports Sev_SnpReclaim
begin

lemma encrypted_move:
  assumes "copy_to_x86_encrypted_from_x86_encrypted dst src n asid X = (SEV_STATUS_SUCCESS, X')"
  defines "D \<equiv> set_asid X COPY_CIPHERTEXT_IN_OUT dst (ucast asid)"
    and "R \<equiv> set_asid X COPY_CIPHERTEXT_IN_OUT src (ucast asid)"
  shows "validate_address_range X src n = SEV_STATUS_SUCCESS" and "validate_address_range X dst n = SEV_STATUS_SUCCESS"
    and "(X' = X \<and> D = R) \<or> X' = X\<lparr>xs_mem := write_bytes (xs_mem X) D (read_bytes (xs_mem X) R (unat n))\<rparr>"
proof -
  from assms(1) show "validate_address_range X src n = SEV_STATUS_SUCCESS"
    "validate_address_range X dst n = SEV_STATUS_SUCCESS"
    by (auto simp: copy_to_x86_encrypted_from_x86_encrypted_def x86_copy_def move_within_def Let_def
        split: if_split_asm prod.split_asm)
  have same: "D = R" if "x86_addresses_same X R D"
  proof (rule bit_eqI)
    fix i
    have b: "bit (set_asid X COPY_CIPHERTEXT_IN_OUT a v) i \<longleftrightarrow>
        bit a i \<and> \<not> bit (SEV_ASID_ADDR_MASK X) i \<or> bit (push_bit (xs_asid_shift X) v) i" for a v :: u64
      by (auto simp: set_asid_def Let_def plaintext_op_def bit_or_iff bit_and_iff bit_not_iff dest: bit_imp_le_length)
    let ?msk = "SEV_ASID_ADDR_MASK X AND NOT SEV_CBIT_MASK"
    have e: "R AND NOT ?msk = D AND NOT ?msk" using that by (simp add: x86_addresses_same_def Let_def)
    show "bit D i = bit R i"
    proof (cases "bit ?msk i")
      case True
      then show ?thesis by (simp add: D_def R_def b bit_and_iff)
    next
      case False
      then have "bit (R AND NOT ?msk) i = bit R i" "bit (D AND NOT ?msk) i = bit D i"
        by (auto simp: bit_and_iff bit_or_iff bit_not_iff dest: bit_imp_le_length)
      with e show ?thesis by simp
    qed
  qed
  from assms(1) have "X' = X \<and> x86_addresses_same X R D \<or>
      X' = X\<lparr>xs_mem := write_bytes (xs_mem X) D (read_bytes (xs_mem X) R (unat n))\<rparr>"
    by (auto simp: copy_to_x86_encrypted_from_x86_encrypted_def x86_copy_def move_within_def Let_def D_def R_def
        split: if_split_asm prod.split_asm)
  with same show "(X' = X \<and> D = R) \<or> X' = X\<lparr>xs_mem := write_bytes (xs_mem X) D (read_bytes (xs_mem X) R (unat n))\<rparr>"
    by blast
qed

lemma asid_bound: "unat (rmp_asid e) < 1024"
proof -
  have "unat (rmp_asid e) < 2 ^ 10"
    using take_bit_nat_less_exp [of 10 "unat (drop_bit 51 (q1 e))"]
    by (simp only: rmp_asid_def get_field_def unsigned_take_bit_eq)
  then show ?thesis by simp
qed

text \<open>The entries of a moved page.\<close>

lemma moved_entries:
  assumes "rmp_entry_get_state s = SNP_PAGE_STATE_PRE_GUEST \<or> rmp_entry_get_state s = SNP_PAGE_STATE_PRE_SWAP"
    and "rmp_entry_get_state d = SNP_PAGE_STATE_PRE_GUEST"
  shows "rmp_entry_get_state (moved_guest_src s) = SNP_PAGE_STATE_GUEST_INVALID"
    and "rmp_entry_get_state (moved_guest_dst (rmp_entry_get_state s) s d) =
      (if rmp_entry_get_state s = SNP_PAGE_STATE_PRE_GUEST then SNP_PAGE_STATE_GUEST_INVALID else SNP_PAGE_STATE_GUEST_VALID)"
    and "rmp_asid (moved_guest_dst (rmp_entry_get_state s) s d) = rmp_asid d"
    and "rmp_gpa (moved_guest_dst (rmp_entry_get_state s) s d) = rmp_gpa s"
    and "rmp_vmsa (moved_guest_dst (rmp_entry_get_state s) s d) = rmp_vmsa s"
    and "q2 (moved_guest_dst (rmp_entry_get_state s) s d) = q2 s"
    and "rmp_subpage_count (moved_guest_dst (rmp_entry_get_state s) s d) = rmp_subpage_count d"
    and "rmp_subpage_count (moved_guest_src s) = rmp_subpage_count s"
proof -
  have v: "rmp_assigned (set_validated w f) = rmp_assigned f" "rmp_validated (set_validated w f) = take_bit 1 w"
    "rmp_asid (set_validated w f) = rmp_asid f" "rmp_immutable (set_validated w f) = rmp_immutable f"
    "rmp_gpa (set_validated w f) = rmp_gpa f" "rmp_vmsa (set_validated w f) = rmp_vmsa f"
    "rmp_subpage_count (set_validated w f) = rmp_subpage_count f" "q2 (set_validated w f) = q2 f" for w f
    by (simp_all add: entry_calc)
  let ?d1 = "set_q2 (q2 s) (set_vmsa (rmp_vmsa s) (set_gpa (rmp_gpa s) d))"
  have g: "unat (rmp_gpa s) < 2 ^ 39" using gpa_bits [of s] by (simp add: word_less_nat_alt)
  have m: "unat (rmp_vmsa s) < 2 ^ 1"
    using field_bool [of 61 "q1 s"] by (auto simp: rmp_vmsa_def)
  have d1: "rmp_assigned ?d1 = rmp_assigned d" "rmp_validated ?d1 = rmp_validated d" "rmp_asid ?d1 = rmp_asid d"
    "rmp_immutable ?d1 = rmp_immutable d" "rmp_subpage_count ?d1 = rmp_subpage_count d" "q2 ?d1 = q2 s"
    by (simp_all add: entry_calc)
  have d2: "rmp_gpa ?d1 = rmp_gpa s"
    using take_bit_small [OF g] by (simp add: page_setters rmp_gpa_def get_put_other get_put_field)
  have d3: "rmp_vmsa ?d1 = rmp_vmsa s"
    using take_bit_small [OF m] by (simp add: page_setters rmp_vmsa_def get_put_other get_put_field)
  have t: "take_bit 1 1 = (1 :: u64)" "take_bit 1 0 = (0 :: u64)" by simp_all
  show "rmp_entry_get_state (moved_guest_src s) = SNP_PAGE_STATE_GUEST_INVALID"
    using assms(1) by (auto simp: moved_guest_src_def page_states release_fields v t)
  show "rmp_entry_get_state (moved_guest_dst (rmp_entry_get_state s) s d) =
      (if rmp_entry_get_state s = SNP_PAGE_STATE_PRE_GUEST then SNP_PAGE_STATE_GUEST_INVALID else SNP_PAGE_STATE_GUEST_VALID)"
    using assms by (auto simp: moved_guest_dst_def Let_def page_states release_fields v t d1)
  show "rmp_asid (moved_guest_dst (rmp_entry_get_state s) s d) = rmp_asid d"
    "rmp_gpa (moved_guest_dst (rmp_entry_get_state s) s d) = rmp_gpa s"
    "rmp_vmsa (moved_guest_dst (rmp_entry_get_state s) s d) = rmp_vmsa s"
    "q2 (moved_guest_dst (rmp_entry_get_state s) s d) = q2 s"
    "rmp_subpage_count (moved_guest_dst (rmp_entry_get_state s) s d) = rmp_subpage_count d"
    by (simp_all add: moved_guest_dst_def Let_def release_fields v d1 d2 d3)
  show "rmp_subpage_count (moved_guest_src s) = rmp_subpage_count s"
    by (simp add: moved_guest_src_def release_fields v)
qed

lemma move_guest_effect:
  assumes "move_guest_page E pm a (sp, s, rmp_entry_get_state s) (dp, d, ds) S = (SEV_STATUS_SUCCESS, S')"
    and "quiet E" and "rmp_wf (sn_x86 S)" and "rmp_slot (sn_x86 S) sp" and "rmp_slot (sn_x86 S) dp" and "sp \<noteq> dp"
    and "s = page_entry (sn_x86 S) sp" and "d = page_entry (sn_x86 S) dp"
    and "rmp_entry_get_state s = SNP_PAGE_STATE_PRE_GUEST \<or> rmp_entry_get_state s = SNP_PAGE_STATE_PRE_SWAP"
    and "rmp_entry_get_state d = SNP_PAGE_STATE_PRE_GUEST"
    and "asid = g_asid (context_guest S a)" and "n = page_bytes d"
  shows "rmp_asid s = ucast asid" and "rmp_asid d = ucast asid"
    and "page_entry (sn_x86 S') sp = moved_guest_src s"
    and "page_entry (sn_x86 S') dp = moved_guest_dst (rmp_entry_get_state s) s d"
    and "read_bytes (xs_mem (sn_x86 S')) (set_asid (sn_x86 S) COPY_CIPHERTEXT_IN_OUT (pm_dst pm) (ucast asid)) (unat n) =
      read_bytes (xs_mem (sn_x86 S)) (set_asid (sn_x86 S) COPY_CIPHERTEXT_IN_OUT (pm_src pm) (ucast asid)) (unat n)"
proof -
  let ?X = "sn_x86 S"
  from assms(1,11,12) obtain X1 e1 X2 e2 X3 where
    as: "rmp_asid s = ucast asid" "rmp_asid d = ucast asid" and
    c: "copy_to_x86_encrypted_from_x86_encrypted (pm_dst pm) (pm_src pm) n asid ?X = (SEV_STATUS_SUCCESS, X1)" and
    w1: "rmp_entry_write (se_al8k E) (se_uc E) sp (moved_guest_src s) X1 = (SEV_STATUS_SUCCESS, e1, X2)" and
    w2: "rmp_entry_write (se_al8k E) (se_uc E) dp (moved_guest_dst (rmp_entry_get_state s) s d) X2 = (SEV_STATUS_SUCCESS, e2, X3)" and
    S': "S' = S\<lparr>sn_x86 := X3\<rparr>"
    by (auto simp: move_guest_page_def step_success)
  show "rmp_asid s = ucast asid" "rmp_asid d = ucast asid" by (fact as)+
  let ?D = "set_asid ?X COPY_CIPHERTEXT_IN_OUT (pm_dst pm) (ucast asid)"
  let ?R = "set_asid ?X COPY_CIPHERTEXT_IN_OUT (pm_src pm) (ucast asid)"
  note mv = encrypted_move [OF c]
  have small: "unat (ucast asid :: u64) < 1024" using asid_bound [of d] as(2) by simp
  have m1: "same_machine ?X X1" using mv(3) by (auto simp: same_machine_def)
  have pe: "page_entry X1 q = page_entry ?X q" if "rmp_slot ?X q" for q
    using mv(3) entry_write_outside [OF assms(3) mv(2) small _ that, of "read_bytes (xs_mem ?X) ?R (unat n)" COPY_CIPHERTEXT_IN_OUT]
    by auto
  have uc: "\<forall>Y. se_uc E Y = Y" using assms(2) by (simp add: quiet_def)
  note sm1 = same_machine_wf [OF m1]
  have wf1: "rmp_wf X1" "rmp_slot X1 sp" "rmp_slot X1 dp" using sm1 assms(3-5) by simp_all
  note f1 = write_frame_entries [OF w1 uc wf1(2,1)]
  note sm2 = same_machine_wf [OF f1(1)]
  have wf2: "rmp_wf X2" "rmp_slot X2 sp" "rmp_slot X2 dp" using sm2 wf1 by simp_all
  note f2 = write_frame_entries [OF w2 uc wf2(3,1)]
  note mo = moved_entries [OF assms(9,10)]
  have "page_entry X2 sp = moved_guest_src s"
    by (rule write_success [OF w1 uc wf1(2,1)]) (simp add: mo(8) pe [OF assms(4)] assms(7) [symmetric])
  with f2(2) [OF wf2(2) assms(6)] S' show "page_entry (sn_x86 S') sp = moved_guest_src s" by simp
  have d2: "page_entry X2 dp = d"
    using f1(2) [OF wf1(3) assms(6) [symmetric]] pe [OF assms(5)] assms(8) by simp
  have "page_entry X3 dp = moved_guest_dst (rmp_entry_get_state s) s d"
    by (rule write_success [OF w2 uc wf2(3,1)]) (simp add: mo(7) d2)
  with S' show "page_entry (sn_x86 S') dp = moved_guest_dst (rmp_entry_get_state s) s d" by simp
  have out: "xs_mem X3 (?D + of_nat k) = xs_mem X1 (?D + of_nat k)" if "k < unat n" for k
  proof -
    have far: "16 \<le> unat (?D + of_nat k - p)" if "rmp_slot ?X p" for p
    proof (rule ccontr)
      assume "\<not> 16 \<le> unat (?D + of_nat k - p)"
      then have "unat (?D + of_nat k - p) < 16" by simp
      from slot_bytes [OF that this] mapped_outside [OF assms(3) mv(2) \<open>k < unat n\<close> small]
      show False by simp
    qed
    show ?thesis using f2(3) [OF far [OF assms(5)]] f1(3) [OF far [OF assms(4)]] by simp
  qed
  have ln: "unat n < 2 ^ 64" using u64_bound [of n] by simp
  have "read_bytes (xs_mem X1) ?D (unat n) = read_bytes (xs_mem ?X) ?R (unat n)"
    using mv(3) read_write_bytes [of "read_bytes (xs_mem ?X) ?R (unat n)" "xs_mem ?X" ?D] ln by auto
  moreover have "read_bytes (xs_mem X3) ?D (unat n) = read_bytes (xs_mem X1) ?D (unat n)"
    by (rule nth_equalityI) (simp_all add: out)
  ultimately show "read_bytes (xs_mem (sn_x86 S')) ?D (unat n) = read_bytes (xs_mem ?X) ?R (unat n)" using S' by simp
qed

text \<open>
  C10: PAGE_MOVE of a guest's page: it succeeds only if the page at the context address is a CONTEXT
  page, the guest there is launched and active, and both pages carry its ASID. The destination then
  has the bytes of the source under the guest's key, its guest address and permissions, and is
  GUEST_INVALID or, for a swapped page, GUEST_VALID; the source is GUEST_INVALID.
\<close>

theorem page_move_keeps_owner:
  assumes "snp_mcmd_page_move E pm S = (SEV_STATUS_SUCCESS, S')" and "quiet E" and "rmp_wf (sn_x86 S)"
    and "get_rmp_paddr (sn_x86 S) (pm_gctx pm) 0 = (SEV_STATUS_SUCCESS, cp)"
    and "get_rmp_paddr (sn_x86 S) (pm_src pm) 0 = (SEV_STATUS_SUCCESS, sp)"
    and "get_rmp_paddr (sn_x86 S) (pm_dst pm) 0 = (SEV_STATUS_SUCCESS, dp)" and "sp \<noteq> dp"
    and "s = page_entry (sn_x86 S) sp" and "d = page_entry (sn_x86 S) dp" and "d' = page_entry (sn_x86 S') dp"
    and "rmp_entry_get_state s \<noteq> SNP_PAGE_STATE_METADATA"
    and "sev_hal_map_guest_context (sn_x86 S) (pm_gctx pm) PAGE_SIZE_4K = (SEV_STATUS_SUCCESS, a)"
    and "asid = g_asid (context_guest S a)"
  shows "rmp_entry_get_state (page_entry (sn_x86 S) cp) = SNP_PAGE_STATE_CONTEXT \<and>
    launched a S \<and> guest_has_asid (context_guest S a) \<and>
    rmp_asid s = ucast asid \<and> rmp_asid d = ucast asid \<and> rmp_asid d' = ucast asid \<and>
    rmp_gpa d' = rmp_gpa s \<and> q2 d' = q2 s \<and>
    rmp_entry_get_state (page_entry (sn_x86 S') sp) = SNP_PAGE_STATE_GUEST_INVALID \<and>
    rmp_entry_get_state d' = (if rmp_entry_get_state s = SNP_PAGE_STATE_PRE_GUEST
      then SNP_PAGE_STATE_GUEST_INVALID else SNP_PAGE_STATE_GUEST_VALID) \<and>
    read_bytes (xs_mem (sn_x86 S')) (set_asid (sn_x86 S) COPY_CIPHERTEXT_IN_OUT (pm_dst pm) (ucast asid)) (unat (page_bytes d)) =
      read_bytes (xs_mem (sn_x86 S)) (set_asid (sn_x86 S) COPY_CIPHERTEXT_IN_OUT (pm_src pm) (ucast asid)) (unat (page_bytes d))"
proof -
  let ?X = "sn_x86 S"
  note sk = rmp_wf_skip(2) [OF assms(3)]
  have pe: "p = p0 \<and> e = page_entry ?X p0 \<and> st = rmp_entry_get_state (page_entry ?X p0)"
    if "rmp_get_addr_entry_state b (0, se_entry0 E, SNP_PAGE_STATE_INVALID) ?X = (SEV_STATUS_SUCCESS, (p, e, st), ?X)"
      "get_rmp_paddr ?X b 0 = (SEV_STATUS_SUCCESS, p0)" for b p e st p0
    using state_cases [OF that(1) assms(3)] that(2) by auto
  from assms(1,12) have r: "rmp_entry_get_state (page_entry ?X cp) = SNP_PAGE_STATE_CONTEXT" "launched a S"
    "\<not> guest_is_inactive (context_guest S a)"
    "rmp_entry_get_state s = SNP_PAGE_STATE_PRE_GUEST \<or> rmp_entry_get_state s = SNP_PAGE_STATE_PRE_SWAP"
    "rmp_entry_get_state d = SNP_PAGE_STATE_PRE_GUEST"
    "move_guest_page E pm a (sp, s, rmp_entry_get_state s) (dp, d, rmp_entry_get_state d) S = (SEV_STATUS_SUCCESS, S')"
    using assms(11)
    by (auto simp: snp_mcmd_page_move_def step_success get_page_success sk assms(8,9) [symmetric]
        dest!: pe [OF _ assms(4)] pe [OF _ assms(5)] pe [OF _ assms(6)] split: if_split_asm)
  note slots = entry_slot [OF assms(5,3)] entry_slot [OF assms(6,3)]
  note m = move_guest_effect [OF r(6) assms(2,3) slots assms(7-9) r(4,5) assms(13) refl]
  note mo = moved_entries [OF r(4,5)]
  have "guest_has_asid (context_guest S a)" using r(3) by (simp add: guest_is_inactive_def guest_has_asid_def)
  then show ?thesis using r(1,2) m mo assms(10) by simp
qed

end
