(* ===== verification/Sev_SnpUnsmash.thy ===== *)
theory Sev_SnpUnsmash
  imports Sev_SnpMove
begin

section \<open>PAGE_UNSMASH\<close>

text \<open>The entries of a 2 MB page are in one block of 8 KB, so that a window of 64 MB can only end
  behind the last of them.\<close>

lemma block_entry:
  assumes "8192 dvd unat (rp :: u64)" and "i < 512"
  shows "unat (rp + 16 * of_nat i) = unat rp + 16 * i" and "16 dvd unat (rp + 16 * of_nat i)"
proof -
  obtain y where y: "unat rp = 8192 * y" using assms(1) by (auto elim: dvdE)
  have "y < 2 ^ 51" using u64_bound [of rp] y by simp
  then have b: "unat rp + 16 * i < 2 ^ 64" using y assms(2) by simp
  have "unat (16 * of_nat i :: u64) = 16 * i" using assms(2) by (simp add: unat_word_ariths unat_of_nat)
  with b show u: "unat (rp + 16 * of_nat i) = unat rp + 16 * i" by (simp add: unat_add_no_wrap)
  show "16 dvd unat (rp + 16 * of_nat i)" unfolding u y by (simp add: dvd_add)
qed

lemma block_window:
  assumes "8192 dvd unat (rp :: u64)" and "Suc i < 512"
  shows "(rp + 16 * of_nat i) AND X86_64MB_MASK = (rp + 16 * of_nat i + RMP_ENTRY_SIZE) AND X86_64MB_MASK"
proof -
  obtain y where y: "unat rp = 8192 * y" using assms(1) by (auto elim: dvdE)
  have e: "rp + 16 * of_nat i + RMP_ENTRY_SIZE = rp + 16 * of_nat (Suc i)" by (simp add: RMP_ENTRY_SIZE_def algebra_simps)
  have d: "(8192 * y + r) div 2 ^ 26 = y div 8192" if "r < 8192" for r
  proof -
    have "(2 :: nat) ^ 26 = 8192 * 8192" by simp
    moreover have "(8192 * y + r) div 8192 = y" using that by simp
    ultimately show ?thesis by (simp only: div_mult2_eq)
  qed
  have "align_down (2 ^ 26) (unat rp + 16 * i) = align_down (2 ^ 26) (unat rp + 16 * Suc i)"
    unfolding y align_down_def minus_mod_eq_mult_div using assms(2) d by simp
  then show ?thesis
    unfolding e word_unat_eq_iff window_mask
    using block_entry(1) [OF assms(1), of i] block_entry(1) [OF assms(1) assms(2)] assms(2) by simp
qed

lemma next_in_block:
  assumes "8192 dvd unat (rp :: u64)" and "Suc i < 512"
  shows "next_entry X (rp + 16 * of_nat i) (a + 16 * of_nat i) n =
    (SEV_STATUS_SUCCESS, rp + 16 * of_nat (Suc i), a + 16 * of_nat (Suc i))"
  using block_window [OF assms] by (simp add: next_entry_def RMP_ENTRY_SIZE_def algebra_simps)

text \<open>What the first loop demands of an entry and the one before.\<close>

definition mergeable :: "snp_env \<Rightarrow> rmp_entry option \<Rightarrow> rmp_entry \<Rightarrow> bool" where
  "mergeable E prev e \<longleftrightarrow>
     rmp_page_size e = DRAM_PAGE_SIZE_4K \<and> rmp_immutable e = 1 \<and> rmp_vmsa e = 0 \<and> rmp_asid e \<noteq> 0 \<and>
     (case prev of
        None \<Rightarrow> se_al2m E (RMP_GPA_TO_PADDR (rmp_gpa e))
      | Some e0 \<Rightarrow> rmp_entry_get_state e = rmp_entry_get_state e0 \<and> rmp_asid e = rmp_asid e0 \<and>
          rmp_gpa e = rmp_gpa e0 + 1 \<and> q2 e = q2 e0)"

lemma check_loop:
  assumes "unsmash_check E X [i..<512] (rp + 16 * of_nat i) (a + 16 * of_nat i) prev = SEV_STATUS_SUCCESS"
    and "8192 dvd unat rp" and "i \<le> j" and "j < 512"
    and "prev = (if i = 0 then None else Some (page_entry X (a + 16 * of_nat (i - 1))))"
  shows "mergeable E (if j = 0 then None else Some (page_entry X (a + 16 * of_nat (j - 1)))) (page_entry X (a + 16 * of_nat j))"
  using assms
proof (induction "512 - i" arbitrary: i prev)
  case 0
  then show ?case by simp
next
  case (Suc n)
  let ?e = "page_entry X (a + 16 * of_nat i)"
  have l: "[i..<512] = i # [Suc i..<512]" using Suc.hyps(2) by (simp add: upt_rec)
  have m: "mergeable E prev ?e"
    using Suc.prems(1) unfolding l
    by (auto simp: Let_def mergeable_def page_entry_def split: if_split_asm option.split_asm)
  show ?case
  proof (cases "j = i")
    case True
    show ?thesis using m unfolding Suc.prems(5) True by assumption
  next
    case False
    then have j: "Suc i \<le> j" "Suc i < 512" using Suc.prems(3,4) by simp_all
    have "unsmash_check E X [Suc i..<512] (rp + 16 * of_nat (Suc i)) (a + 16 * of_nat (Suc i)) (Some ?e) = SEV_STATUS_SUCCESS"
      using Suc.prems(1) unfolding l
      by (simp add: Let_def next_in_block [OF Suc.prems(2) j(2)] page_entry_def del: of_nat_Suc split: if_split_asm)
    from Suc.hyps(1) [OF _ this Suc.prems(2) j(1) Suc.prems(4)] Suc.hyps(2) show ?thesis by simp
  qed
qed

text \<open>The second loop rewrites all 512 entries, whatever the last mapping returns.\<close>

lemma write_entry_bytes:
  assumes "16 dvd unat p"
  shows "page_entry (X\<lparr>xs_mem := write_bytes (xs_mem X) p (entry_bytes e)\<rparr>) p = e"
    and "16 dvd unat q \<Longrightarrow> q \<noteq> p \<Longrightarrow> page_entry (X\<lparr>xs_mem := write_bytes (xs_mem X) p (entry_bytes e)\<rparr>) q = page_entry X q"
proof -
  show "page_entry (X\<lparr>xs_mem := write_bytes (xs_mem X) p (entry_bytes e)\<rparr>) p = e"
    by (simp add: page_entry_def) (rule read_entry, simp add: write_bytes_def Let_def)
  assume q: "16 dvd unat q" "q \<noteq> p"
  show "page_entry (X\<lparr>xs_mem := write_bytes (xs_mem X) p (entry_bytes e)\<rparr>) q = page_entry X q"
  proof (rule page_entry_cong)
    fix k :: nat assume "k < 16"
    from aligned_apart [OF assms q(1) q(2) [symmetric] this]
    show "xs_mem (X\<lparr>xs_mem := write_bytes (xs_mem X) p (entry_bytes e)\<rparr>) (q + of_nat k) = xs_mem X (q + of_nat k)"
      by (simp add: write_bytes_def Let_def)
  qed
qed

lemma merge_loop:
  assumes "unsmash_merge [i..<512] (rp + 16 * of_nat i) (rp + 16 * of_nat i) X = (st, X')"
    and "8192 dvd unat rp" and "i \<le> 512"
  shows "(\<forall>j. i \<le> j \<longrightarrow> j < 512 \<longrightarrow>
      page_entry X' (rp + 16 * of_nat j) = unsmashed_entry j (page_entry X (rp + 16 * of_nat j))) \<and>
    (\<forall>q. 16 dvd unat q \<longrightarrow> (\<forall>j. i \<le> j \<longrightarrow> j < 512 \<longrightarrow> q \<noteq> rp + 16 * of_nat j) \<longrightarrow> page_entry X' q = page_entry X q) \<and>
    same_machine X X'"
  using assms
proof (induction "512 - i" arbitrary: i X)
  case 0
  then show ?case by (simp add: same_machine_def)
next
  case (Suc n)
  let ?p = "rp + 16 * of_nat i :: u64"
  let ?e = "page_entry X ?p"
  let ?X1 = "X\<lparr>xs_mem := write_bytes (xs_mem X) ?p (entry_bytes (unsmashed_entry i ?e))\<rparr>"
  have i: "i < 512" using Suc.hyps(2) by simp
  have l: "[i..<512] = i # [Suc i..<512]" using i by (simp add: upt_rec)
  note al = block_entry [OF Suc.prems(2)]
  note w = write_entry_bytes [OF al(2) [OF i], where X = X and e = "unsmashed_entry i ?e"]
  have sm: "same_machine X ?X1" by (simp add: same_machine_def)
  have ne: "rp + 16 * of_nat j \<noteq> ?p" if "j < 512" "j \<noteq> i" for j
    using al(1) [OF that(1)] al(1) [OF i] that(2) by (metis add_left_cancel mult_left_cancel zero_neq_numeral)
  show ?case
  proof (cases "Suc i < 512")
    case True
    have r: "unsmash_merge [Suc i..<512] (rp + 16 * of_nat (Suc i)) (rp + 16 * of_nat (Suc i)) ?X1 = (st, X')"
      using Suc.prems(1) unfolding l
      by (simp add: Let_def next_in_block [OF Suc.prems(2) True] page_entry_def del: of_nat_Suc)
    have "n = 512 - Suc i" "Suc i \<le> 512" using Suc.hyps(2) by simp_all
    note IH = Suc.hyps(1) [OF this(1) r Suc.prems(2) this(2)]
    have "page_entry X' (rp + 16 * of_nat j) = unsmashed_entry j (page_entry X (rp + 16 * of_nat j))"
      if "i \<le> j" "j < 512" for j
    proof (cases "j = i")
      case True
      have "page_entry X' ?p = page_entry ?X1 ?p"
        using IH al(2) [OF i] ne i by (metis Suc_n_not_le_n)
      with True w(1) show ?thesis by simp
    next
      case False
      then have "Suc i \<le> j" using that by simp
      with IH that(2) have "page_entry X' (rp + 16 * of_nat j) = unsmashed_entry j (page_entry ?X1 (rp + 16 * of_nat j))"
        by blast
      with w(2) [OF al(2) [OF that(2)] ne [OF that(2) False]] show ?thesis by simp
    qed
    moreover have "page_entry X' q = page_entry X q"
      if "16 dvd unat q" "\<forall>j. i \<le> j \<longrightarrow> j < 512 \<longrightarrow> q \<noteq> rp + 16 * of_nat j" for q
      using IH that w(2) [OF that(1)] i by (metis Suc_leD order_refl)
    ultimately show ?thesis using IH same_machine_trans [OF sm] by blast
  next
    case False
    then have i511: "i = 511" using i by simp
    have e1: "xs_mem X' = xs_mem ?X1" "same_machine ?X1 X'"
      using Suc.prems(1) unfolding l i511
      by (auto simp: Let_def page_entry_def same_machine_def split: if_split_asm prod.split_asm)
    have pe: "page_entry X' q = page_entry ?X1 q" for q by (simp add: page_entry_def e1(1))
    have j: "j = i" if "i \<le> j" "j < 512" for j using that i511 by simp
    show ?thesis using pe w same_machine_trans [OF sm e1(2)] j i by (metis order_refl)
  qed
qed


lemma dvd_bits: "2 ^ n dvd unat (v :: u64) \<longleftrightarrow> (\<forall>i < n. \<not> bit v i)"
proof -
  have "2 ^ n dvd unat v \<longleftrightarrow> take_bit n (unat v) = 0" by (simp add: take_bit_eq_mod dvd_eq_mod_eq_0)
  also have "\<dots> \<longleftrightarrow> take_bit n v = 0" by (simp add: unsigned_take_bit_eq [symmetric] unat_eq_0 del: take_bit_eq_0_iff)
  also have "\<dots> \<longleftrightarrow> (\<forall>i < n. \<not> bit v i)"
  proof
    assume "take_bit n v = 0"
    then have "\<not> bit (take_bit n v) i" for i by simp
    then show "\<forall>i < n. \<not> bit v i" by (simp add: bit_take_bit_iff)
  next
    assume "\<forall>i < n. \<not> bit v i"
    then show "take_bit n v = 0" by (intro bit_eqI) (simp add: bit_take_bit_iff)
  qed
  finally show ?thesis .
qed

lemma aligned_entry_block:
  assumes "get_rmp_paddr X a 0 = (SEV_STATUS_SUCCESS, rp)" and "2 ^ 20 dvd unat (xs_rmp_base X)" and "2 ^ 21 dvd unat a"
  shows "8192 dvd unat rp"
proof -
  have l: "local_get_rmp_paddr X a 0 = (SEV_STATUS_SUCCESS, rp)"
    using assms(1) by (auto simp: get_rmp_paddr_def split: if_split_asm)
  have "2 ^ 21 dvd unat (CLEAR_CBIT a)" using assms(3) unfolding dvd_bits by (simp add: bit_clear_cbit)
  then obtain y where "unat (CLEAR_CBIT a) = 2 ^ 21 * y" by (elim dvdE)
  then have "16 * (unat (CLEAR_CBIT a) div 4096) = 8192 * y" by simp
  moreover obtain z where "unat (xs_rmp_base X) = 2 ^ 20 * z" using assms(2) by (elim dvdE)
  ultimately have "unat rp = 8192 * (128 * z + 2 + y)" using local_rmp_paddr_nat(1) [OF l] by simp
  then show ?thesis by simp
qed

lemma mapped_low:
  assumes "rmp_wf X" and "unat p < 2 ^ xs_asid_shift X"
  shows "set_asid X COPY_PLAINTEXT_IN p 0 = p"
proof -
  have "xs_asid_shift X \<le> 51" using assms(1) by (simp add: rmp_wf_def)
  then have c: "\<not> bit p i" if "xs_asid_shift X \<le> i" for i using bit_lt_power [OF assms(2), of i] that by auto
  have "p AND SEV_CBIT_MASK = 0"
    by (rule bit_eqI) (use c \<open>xs_asid_shift X \<le> 51\<close> in \<open>auto simp: bit_and_iff cbit_bit\<close>)
  moreover have "p AND NOT (SEV_ASID_ADDR_MASK X) = p"
    by (rule bit_eqI) (use c in \<open>auto simp: bit_and_iff bit_not_iff bit_asid_mask dest: bit_imp_le_length\<close>)
  ultimately show ?thesis by (simp add: set_asid_def Let_def)
qed

lemma slot_low: "rmp_wf X \<Longrightarrow> rmp_slot X p \<Longrightarrow> unat p < 2 ^ xs_asid_shift X"
  by (auto simp: rmp_wf_def rmp_slot_def)

lemma map_ccp_address:
  "sev_hal_map_memory_ccp X a n = (SEV_STATUS_SUCCESS, v) \<Longrightarrow> v = set_asid X COPY_PLAINTEXT_IN a 0"
  by (auto simp: sev_hal_map_memory_ccp_def convert_x86_address_def Let_def split: if_split_asm)

lemma skip_true_same: "set_asid (skip_rmp_addr_check True X) op a v = set_asid X op a v"
  "page_entry (skip_rmp_addr_check True X) q = page_entry X q"
  by (simp_all add: skip_rmp_addr_check_def set_asid_def SEV_ASID_ADDR_MASK_def page_entry_def)

text \<open>What a successful PAGE_UNSMASH went through.\<close>

lemma unsmash_success:
  assumes "snp_mcmd_page_unsmash E a S = (SEV_STATUS_SUCCESS, S')" and "rmp_wf (sn_x86 S)"
    and "get_rmp_paddr (sn_x86 S) a 0 = (SEV_STATUS_SUCCESS, rp)"
  defines "X1 \<equiv> skip_rmp_addr_check True (sn_x86 S)"
  obtains X2 where "unsmash_check E X1 [0..<512] rp rp None = SEV_STATUS_SUCCESS"
    and "unsmash_merge [0..<512] rp rp X1 = (SEV_STATUS_SUCCESS, X2)"
    and "S' = S\<lparr>sn_x86 := skip_rmp_addr_check False X2\<rparr>" and "se_al2m E a"
proof -
  let ?X = "sn_x86 S"
  have m: "v = rp" if "sev_hal_map_memory_ccp X1 rp 8192 = (SEV_STATUS_SUCCESS, v)" for v
  proof -
    have "rmp_slot ?X rp" by (rule entry_slot [OF assms(3,2)])
    then show ?thesis
      using map_ccp_address [OF that] mapped_low [OF assms(2) slot_low [OF assms(2)]]
      by (simp add: X1_def skip_true_same)
  qed
  obtain st X2 where u: "unsmash_entries E rp X1 = (st, X2)" by fastforce
  from assms(1,3) u have st: "st = SEV_STATUS_SUCCESS" "S' = S\<lparr>sn_x86 := skip_rmp_addr_check False X2\<rparr>" "se_al2m E a"
    by (auto simp: snp_mcmd_page_unsmash_def X1_def Let_def split: if_split_asm)
  from u [unfolded st(1)] have "unsmash_check E X1 [0..<512] rp rp None = SEV_STATUS_SUCCESS"
    "unsmash_merge [0..<512] rp rp X1 = (SEV_STATUS_SUCCESS, X2)"
    by (auto simp: unsmash_entries_def Let_def simp del: upt_rec_numeral unsmash_check.simps unsmash_merge.simps
        dest!: m split: if_split_asm prod.split_asm)
  with st(2,3) that show ?thesis by blast
qed

text \<open>What the two loops leave: 512 entries that passed the check, each rewritten once.\<close>

lemma unsmash_entries_after:
  assumes "snp_mcmd_page_unsmash E a S = (SEV_STATUS_SUCCESS, S')" and "rmp_wf (sn_x86 S)"
    and "\<forall>v. se_al2m E v = (2 ^ 21 dvd unat v)"
    and "get_rmp_paddr (sn_x86 S) a 0 = (SEV_STATUS_SUCCESS, rp)"
  defines "ent \<equiv> \<lambda>i. page_entry (sn_x86 S) (rp + 16 * of_nat i)"
    and "ent' \<equiv> \<lambda>i. page_entry (sn_x86 S') (rp + 16 * of_nat i)"
  shows "j < 512 \<Longrightarrow> mergeable E (if j = 0 then None else Some (ent (j - 1))) (ent j)"
    and "j < 512 \<Longrightarrow> ent' j = unsmashed_entry j (ent j)"
    and "16 dvd unat q \<Longrightarrow> \<forall>i < 512. q \<noteq> rp + 16 * of_nat i \<Longrightarrow>
      page_entry (sn_x86 S') q = page_entry (sn_x86 S) q"
proof -
  let ?X1 = "skip_rmp_addr_check True (sn_x86 S)"
  from unsmash_success [OF assms(1,2,4)] obtain X2 where
    u: "unsmash_check E ?X1 [0..<512] rp rp None = SEV_STATUS_SUCCESS"
       "unsmash_merge [0..<512] rp rp ?X1 = (SEV_STATUS_SUCCESS, X2)"
       "S' = S\<lparr>sn_x86 := skip_rmp_addr_check False X2\<rparr>" "se_al2m E a" by blast
  have al: "8192 dvd unat rp" by (rule aligned_entry_block [OF assms(4)]) (use u(4) assms(2,3) in \<open>simp_all add: rmp_wf_def\<close>)
  have pe1: "page_entry ?X1 q = page_entry (sn_x86 S) q" for q by (simp add: skip_true_same)
  have pe2: "page_entry (sn_x86 S') q = page_entry X2 q" for q by (simp add: u(3) page_entry_def)
  show "mergeable E (if j = 0 then None else Some (ent (j - 1))) (ent j)" if "j < 512"
  proof -
    have "unsmash_check E ?X1 [0..<512] (rp + 16 * of_nat 0) (rp + 16 * of_nat 0) None = SEV_STATUS_SUCCESS"
      using u(1) by (simp del: upt_rec_numeral)
    from check_loop [OF this al le0 that] show ?thesis by (simp only: pe1 assms(5) if_True simp_thms)
  qed
  have mg: "(\<forall>j < 512. ent' j = unsmashed_entry j (ent j)) \<and>
      (\<forall>q. 16 dvd unat q \<longrightarrow> (\<forall>j < 512. q \<noteq> rp + 16 * of_nat j) \<longrightarrow>
         page_entry (sn_x86 S') q = page_entry (sn_x86 S) q)"
    using merge_loop [of 0 rp ?X1 SEV_STATUS_SUCCESS X2] u(2) al
    by (simp add: pe1 pe2 assms(5,6) del: upt_rec_numeral)
  then show "ent' j = unsmashed_entry j (ent j)" if "j < 512" using that by blast
  show "page_entry (sn_x86 S') q = page_entry (sn_x86 S) q"
    if "16 dvd unat q" "\<forall>i < 512. q \<noteq> rp + 16 * of_nat i" using mg that by blast
qed

text \<open>The entries behind the first have ASID 0 then: no guest owns the pages behind the first of a
  2 MB page by their own entries.\<close>

lemma merged_pages_have_no_asid:
  assumes "snp_mcmd_page_unsmash E a S = (SEV_STATUS_SUCCESS, S')" and "rmp_wf (sn_x86 S)"
    and "\<forall>v. se_al2m E v = (2 ^ 21 dvd unat v)"
    and "get_rmp_paddr (sn_x86 S) a 0 = (SEV_STATUS_SUCCESS, rp)" and "0 < i" and "i < 512"
  shows "rmp_asid (page_entry (sn_x86 S') (rp + 16 * of_nat i)) = 0"
  using unsmash_entries_after(2) [OF assms(1-4,6)] assms(5)
  by (simp add: unsmashed_entry_def release_fields) (simp add: entry_calc)

text \<open>
  C11: PAGE_UNSMASH merges only 512 immutable 4 KB pages of one guest that are in the same state and
  have the same permissions and consecutive guest addresses from a 2 MB boundary. Its first entry
  then stands for the 2 MB page, with the ASID, guest address, permissions and state it had; the
  other 511 stay assigned and are neither immutable nor locked. No other entry changes.
\<close>

theorem page_unsmash_merges:
  assumes "snp_mcmd_page_unsmash E a S = (SEV_STATUS_SUCCESS, S')" and "rmp_wf (sn_x86 S)"
    and "\<forall>v. se_al2m E v = (2 ^ 21 dvd unat v)"
    and "get_rmp_paddr (sn_x86 S) a 0 = (SEV_STATUS_SUCCESS, rp)"
    and "ent = (\<lambda>i. page_entry (sn_x86 S) (rp + 16 * of_nat i))"
    and "ent' = (\<lambda>i. page_entry (sn_x86 S') (rp + 16 * of_nat i))"
  shows "(\<forall>i < 512. rmp_page_size (ent i) = DRAM_PAGE_SIZE_4K \<and> rmp_immutable (ent i) = 1 \<and> rmp_vmsa (ent i) = 0 \<and>
      rmp_entry_get_state (ent i) = rmp_entry_get_state (ent 0) \<and> rmp_asid (ent i) = rmp_asid (ent 0) \<and>
      rmp_gpa (ent i) = rmp_gpa (ent 0) + of_nat i \<and> q2 (ent i) = q2 (ent 0)) \<and>
    rmp_asid (ent 0) \<noteq> 0 \<and> 2 ^ 21 dvd unat (RMP_GPA_TO_PADDR (rmp_gpa (ent 0))) \<and>
    rmp_page_size (ent' 0) = DRAM_PAGE_SIZE_2M \<and> rmp_subpage_count (ent' 0) = 0 \<and>
    rmp_asid (ent' 0) = rmp_asid (ent 0) \<and> rmp_gpa (ent' 0) = rmp_gpa (ent 0) \<and> q2 (ent' 0) = q2 (ent 0) \<and>
    rmp_entry_get_state (ent' 0) = rmp_entry_get_state (ent 0) \<and>
    (\<forall>i. 0 < i \<longrightarrow> i < 512 \<longrightarrow>
       rmp_assigned (ent' i) = 1 \<and> rmp_immutable (ent' i) = 0 \<and> rmp_lock (ent' i) = 0) \<and>
    (\<forall>q. rmp_slot (sn_x86 S) q \<longrightarrow> (\<forall>i < 512. q \<noteq> rp + 16 * of_nat i) \<longrightarrow>
       page_entry (sn_x86 S') q = page_entry (sn_x86 S) q)"
proof -
  note after = unsmash_entries_after [OF assms(1-4), folded fun_cong [OF assms(5)] fun_cong [OF assms(6)]]
  have chain: "rmp_entry_get_state (ent i) = rmp_entry_get_state (ent 0) \<and> rmp_asid (ent i) = rmp_asid (ent 0) \<and>
      rmp_gpa (ent i) = rmp_gpa (ent 0) + of_nat i \<and> q2 (ent i) = q2 (ent 0)" if "i < 512" for i
    using that
  proof (induction i)
    case (Suc i)
    with after(1) [of "Suc i"] show ?case by (simp add: mergeable_def)
  qed simp
  have first: "rmp_page_size (ent i) = DRAM_PAGE_SIZE_4K \<and> rmp_immutable (ent i) = 1 \<and> rmp_vmsa (ent i) = 0 \<and>
      rmp_asid (ent i) \<noteq> 0" if "i < 512" for i
    using after(1) [OF that] by (simp add: mergeable_def)
  have e0: "ent' 0 = set_subpage_count 0 (set_page_size DRAM_PAGE_SIZE_2M (ent 0))"
    using after(2) [of 0] by (simp add: unsmashed_entry_def)
  have f0: "rmp_page_size (ent' 0) = DRAM_PAGE_SIZE_2M" "rmp_subpage_count (ent' 0) = 0"
    "rmp_asid (ent' 0) = rmp_asid (ent 0)" "rmp_gpa (ent' 0) = rmp_gpa (ent 0)" "q2 (ent' 0) = q2 (ent 0)"
    unfolding e0 by (simp_all add: entry_calc DRAM_PAGE_SIZE_2M_def)
  have s0: "rmp_entry_get_state (ent' 0) = rmp_entry_get_state (ent 0)"
    unfolding e0 rmp_entry_get_state_def by (simp add: entry_calc)
  have rest: "rmp_assigned (ent' i) = 1 \<and> rmp_immutable (ent' i) = 0 \<and> rmp_lock (ent' i) = 0" if "0 < i" "i < 512" for i
    using after(2) [OF that(2)] that(1) by (simp add: unsmashed_entry_def release_fields) (simp add: entry_calc)
  have "2 ^ 21 dvd unat (RMP_GPA_TO_PADDR (rmp_gpa (ent 0)))"
    using after(1) [of 0] assms(3) by (simp add: mergeable_def)
  moreover have "\<forall>i < 512. rmp_page_size (ent i) = DRAM_PAGE_SIZE_4K \<and> rmp_immutable (ent i) = 1 \<and> rmp_vmsa (ent i) = 0 \<and>
      rmp_entry_get_state (ent i) = rmp_entry_get_state (ent 0) \<and> rmp_asid (ent i) = rmp_asid (ent 0) \<and>
      rmp_gpa (ent i) = rmp_gpa (ent 0) + of_nat i \<and> q2 (ent i) = q2 (ent 0)"
    using first chain by blast
  moreover have "rmp_asid (ent 0) \<noteq> 0" using first [of 0] by simp
  moreover have "\<forall>q. rmp_slot (sn_x86 S) q \<longrightarrow> (\<forall>i < 512. q \<noteq> rp + 16 * of_nat i) \<longrightarrow>
       page_entry (sn_x86 S') q = page_entry (sn_x86 S) q"
    using after(3) unfolding rmp_slot_def by blast
  ultimately show ?thesis using f0 s0 rest by blast
qed

text \<open>
  When the entries of the page are the last ones of a window of 64 MB, the second loop maps the
  window behind it with a size that has wrapped around to almost 4 GB. If that fails, the command
  reports the failure although it has merged the page.
\<close>

theorem unsmash_at_window_end_reports_failure:
  assumes "unsmash_check E X [0..<512] rp rp None = SEV_STATUS_SUCCESS" and "8192 dvd unat rp"
    and "(rp + 16 * 511) AND X86_64MB_MASK \<noteq> (rp + 16 * 512) AND X86_64MB_MASK"
    and "sev_hal_map_memory_ccp X rp (16 * 512) = (SEV_STATUS_SUCCESS, rp)"
    and "fst (sev_hal_map_memory_ccp X (rp + 16 * 512) 0xFFFC2200) = st" and "st \<noteq> SEV_STATUS_SUCCESS"
  shows "\<exists>X'. unsmash_entries E rp X = (st, X') \<and> rmp_page_size (page_entry X' rp) = DRAM_PAGE_SIZE_2M"
proof -
  obtain st' X' where m: "unsmash_merge [0..<512] rp rp X = (st', X')" by fastforce
  have st': "st' = st"
  proof -
    have "fst (unsmash_merge [i..<512] (rp + 16 * of_nat i) (rp + 16 * of_nat i) Y) = st"
      if "i < 512" "same_machine X Y" for i Y
      using that
    proof (induction "511 - i" arbitrary: i Y)
      case 0
      then have i: "i = 511" by simp
      have e: "rp + 8176 + RMP_ENTRY_SIZE = rp + 8192" by (simp add: RMP_ENTRY_SIZE_def)
      have mp: "sev_hal_map_memory_ccp (Y\<lparr>xs_mem := mm\<rparr>) b n = sev_hal_map_memory_ccp X b n" for mm b n
      proof -
        have "Y = X\<lparr>xs_mem := xs_mem Y\<rparr>" using 0 by (simp add: same_machine_def)
        then have "Y\<lparr>xs_mem := mm\<rparr> = X\<lparr>xs_mem := mm\<rparr>" by (metis x86.update_convs(1) x86.surjective)
        then show ?thesis
          by (simp add: sev_hal_map_memory_ccp_def convert_x86_address_def set_asid_def SEV_ASID_ADDR_MASK_def Let_def)
      qed
      obtain v where v: "sev_hal_map_memory_ccp X (rp + 16 * 512) 0xFFFC2200 = (st, v)"
        using assms(5) by (metis prod.collapse)
      show ?case
        unfolding i using assms(3,6) v by (simp add: upt_rec Let_def next_entry_def e mp)
    next
      case (Suc n)
      have i: "Suc i < 512" using Suc.hyps(2) by simp
      have l: "[i..<512] = i # [Suc i..<512]" using i by (simp add: upt_rec)
      let ?e = "page_entry Y (rp + 16 * of_nat i)"
      let ?Y = "Y\<lparr>xs_mem := write_bytes (xs_mem Y) (rp + 16 * of_nat i) (entry_bytes (unsmashed_entry i ?e))\<rparr>"
      have "same_machine X ?Y" by (rule same_machine_trans [OF Suc.prems(2)]) (simp add: same_machine_def)
      moreover have "n = 511 - Suc i" using Suc.hyps(2) by simp
      ultimately have "fst (unsmash_merge [Suc i..<512] (rp + 16 * of_nat (Suc i)) (rp + 16 * of_nat (Suc i)) ?Y) = st"
        using Suc.hyps(1) i by blast
      then show ?case
        unfolding l by (simp add: Let_def next_in_block [OF assms(2) i] page_entry_def del: of_nat_Suc)
    qed
    from this [of 0 X] m show ?thesis by (simp add: same_machine_def del: upt_rec_numeral)
  qed
  have "unsmash_merge [0..<512] (rp + 16 * of_nat 0) (rp + 16 * of_nat 0) X = (st', X')"
    using m by (simp del: upt_rec_numeral)
  from conjunct1 [OF merge_loop [OF this assms(2) le0], rule_format, of 0]
  have "page_entry X' rp = unsmashed_entry 0 (page_entry X rp)" by simp
  then have "rmp_page_size (page_entry X' rp) = DRAM_PAGE_SIZE_2M"
    by (simp add: unsmashed_entry_def entry_calc DRAM_PAGE_SIZE_2M_def)
  moreover have "unsmash_entries E rp X = (st, X')"
    using assms(1,4) m st' by (simp add: unsmash_entries_def Let_def del: upt_rec_numeral)
  ultimately show ?thesis by blast
qed

end
