(* ===== verification/Sev_SnpContexts.thy ===== *)
theory Sev_SnpContexts
  imports Sev_SnpUnsmash
begin

section \<open>The life of a context page\<close>

lemma map_context_address:
  "sev_hal_map_guest_context X a n = (SEV_STATUS_SUCCESS, v) \<Longrightarrow>
     v = set_asid X COPY_PLAINTEXT_IN a 0 \<and> validate_address_range X a n = SEV_STATUS_SUCCESS"
  by (auto simp: sev_hal_map_guest_context_def convert_x86_address_def Let_def split: if_split_asm)

lemma single_write_effect:
  assumes "rmp_entry_write (se_al8k E) (se_uc E) p e' X = (SEV_STATUS_SUCCESS, e2, Y)" and "quiet E"
    and "rmp_wf X" and "rmp_slot X p" and "rmp_subpage_count e' = rmp_subpage_count (page_entry X p)"
  shows "page_entry Y p = e'" and "\<And>q. rmp_slot X q \<Longrightarrow> q \<noteq> p \<Longrightarrow> page_entry Y q = page_entry X q"
    and "\<And>x. 16 \<le> unat (x - p) \<Longrightarrow> xs_mem Y x = xs_mem X x"
proof -
  have uc: "\<forall>Y. se_uc E Y = Y" using assms(2) by (simp add: quiet_def)
  show "page_entry Y p = e'" by (rule write_success [OF assms(1) uc assms(4,3,5)])
  show "page_entry Y q = page_entry X q" if "rmp_slot X q" "q \<noteq> p" for q
    by (rule write_frame_entries(2) [OF assms(1) uc assms(4,3) that])
  show "xs_mem Y x = xs_mem X x" if "16 \<le> unat (x - p)" for x
    by (rule write_frame_entries(3) [OF assms(1) uc assms(4,3) that])
qed

lemma vmsa_subpage: "rmp_subpage_count (set_vmsa v e) = rmp_subpage_count e"
  by (simp add: entry_calc)

text \<open>The octets of a page that is mapped are not in the table.\<close>

lemma mapped_far_from_entry:
  assumes "rmp_wf X" and "validate_address_range X addr n = SEV_STATUS_SUCCESS" and "i < unat n" and "rmp_slot X p"
  shows "16 \<le> unat (set_asid X op addr 0 + of_nat i - p)"
proof (rule ccontr)
  assume "\<not> 16 \<le> unat (set_asid X op addr 0 + of_nat i - p)"
  then have "unat (set_asid X op addr 0 + of_nat i - p) < 16" by simp
  from slot_bytes [OF assms(4) this] mapped_outside [OF assms(1-3), of 0 op] show False by simp
qed

lemma length_context_octets [simp]: "length (context_octets E g x) = unat PAGE_SIZE_4K"
  by (simp add: context_octets_def)

text \<open>Filling the context page changes the octets of the page, and no entry of the table.\<close>

lemma put_context_effect:
  assumes "rmp_wf (sn_x86 S)" and "sev_hal_map_guest_context (sn_x86 S) ga PAGE_SIZE_4K = (SEV_STATUS_SUCCESS, a)"
    and "sn_x86 S1 = sn_x86 S"
  shows "same_machine (sn_x86 S) (sn_x86 (put_context E a S1))"
    and "\<And>q. rmp_slot (sn_x86 S) q \<Longrightarrow> page_entry (sn_x86 (put_context E a S1)) q = page_entry (sn_x86 S) q"
    and "\<And>x. unat PAGE_SIZE_4K \<le> unat (x - a) \<Longrightarrow> xs_mem (sn_x86 (put_context E a S1)) x = xs_mem (sn_x86 S) x"
    and "\<And>i. i < unat PAGE_SIZE_4K \<Longrightarrow>
      xs_mem (sn_x86 (put_context E a S1)) (a + of_nat i) = context_octets E (context_guest S1 a) (sn_ctx S1 a) ! i"
proof -
  note m = map_context_address [OF assms(2)]
  show "same_machine (sn_x86 S) (sn_x86 (put_context E a S1))" by (simp add: put_context_def same_machine_def assms(3))
  show "page_entry (sn_x86 (put_context E a S1)) q = page_entry (sn_x86 S) q" if "rmp_slot (sn_x86 S) q" for q
    using entry_write_outside [OF assms(1) conjunct2 [OF m] _ _ that, of 0 "context_octets E (context_guest S1 a) (sn_ctx S1 a)" COPY_PLAINTEXT_IN]
      m by (simp add: put_context_def assms(3))
  show "xs_mem (sn_x86 (put_context E a S1)) x = xs_mem (sn_x86 S) x" if "unat PAGE_SIZE_4K \<le> unat (x - a)" for x
    using that by (simp add: put_context_def write_bytes_def assms(3))
  show "xs_mem (sn_x86 (put_context E a S1)) (a + of_nat i) = context_octets E (context_guest S1 a) (sn_ctx S1 a) ! i"
    if "i < unat PAGE_SIZE_4K" for i
  proof -
    have "unat (of_nat i :: u64) = i" using that u64_bound [of PAGE_SIZE_4K] by (simp add: unat_of_nat take_bit_nat_eq_self)
    then show ?thesis using that by (simp add: put_context_def write_bytes_def)
  qed
qed

lemma init_context_success:
  assumes "init_context E a k S = (SEV_STATUS_SUCCESS, S')"
  shows "\<exists>S1. fst (se_trng E) = SEV_STATUS_SUCCESS \<and> sn_x86 S1 = sn_x86 S \<and>
    context_guest S1 a = guest_zero\<lparr>g_asid := 0, g_snp_state := SNP_GUEST_STATE_INIT,
      g_type := SEV_GUEST_TYPE_SNP, g_umc_key_seed := snd (se_trng E), g_oek_iv_count := 0\<rparr> \<and>
    k (put_context E a S1) = (SEV_STATUS_SUCCESS, S')"
  using assms unfolding init_context_def Let_def
  by (simp split: if_split_asm) (rule exI, rule conjI [rotated], rule conjI [rotated], assumption, simp_all add: context_guest_def)

text \<open>
  C17: GCTX_CREATE succeeds only for a FIRMWARE page of 4 KB; it becomes a CONTEXT page and holds a
  new guest without ASID, in the INIT state, with the random key seed: the 4 KB of the page are
  those of this context. No byte of x86 memory outside the page and its RMP entry changes. The
  cores do not write to memory during the command.
\<close>

theorem gctx_create_makes_a_context_page:
  assumes "snp_mcmd_gctx_create E gctx_paddr S = (SEV_STATUS_SUCCESS, S')" and "quiet E" and "rmp_wf (sn_x86 S)"
    and "get_rmp_paddr (sn_x86 S) gctx_paddr 0 = (SEV_STATUS_SUCCESS, p)"
    and "a = set_asid (sn_x86 S) COPY_PLAINTEXT_IN gctx_paddr 0" and "g = context_guest S' a"
  shows "rmp_entry_get_state (page_entry (sn_x86 S) p) = SNP_PAGE_STATE_FIRMWARE \<and>
    rmp_page_size (page_entry (sn_x86 S) p) = DRAM_PAGE_SIZE_4K \<and>
    rmp_entry_get_state (page_entry (sn_x86 S') p) = SNP_PAGE_STATE_CONTEXT \<and>
    g_snp_state g = SNP_GUEST_STATE_INIT \<and> g_type g = SEV_GUEST_TYPE_SNP \<and> \<not> guest_has_asid g \<and>
    g_umc_key_seed g = snd (se_trng E) \<and> fst (se_trng E) = SEV_STATUS_SUCCESS \<and>
    read_bytes (xs_mem (sn_x86 S')) a (unat PAGE_SIZE_4K) = context_octets E g (sn_ctx S' a) \<and>
    (\<forall>x. 16 \<le> unat (x - p) \<longrightarrow> unat PAGE_SIZE_4K \<le> unat (x - a) \<longrightarrow> xs_mem (sn_x86 S') x = xs_mem (sn_x86 S) x)"
proof -
  let ?X = "sn_x86 S"
  note sk = rmp_wf_skip(2) [OF assms(3)]
  from assms(1) obtain q e st a' where
    r: "rmp_get_addr_entry_state gctx_paddr (0, se_entry0 E, SNP_PAGE_STATE_INVALID) ?X =
      (SEV_STATUS_SUCCESS, (q, e, st), ?X)" and
    st: "st = SNP_PAGE_STATE_FIRMWARE" "rmp_page_size e = DRAM_PAGE_SIZE_4K" and
    m: "sev_hal_map_guest_context ?X gctx_paddr PAGE_SIZE_4K = (SEV_STATUS_SUCCESS, a')" and
    i: "init_context E a' (write_entry E q (set_vmsa 1 e) finish) S = (SEV_STATUS_SUCCESS, S')"
    by (auto simp: snp_mcmd_gctx_create_def step_success get_page_success sk)
  note se = state_entry [OF r assms(3)] st(1)
  have qp: "q = p" "e = page_entry ?X p" "rmp_slot ?X p" using se assms(4) by auto
  note ma = map_context_address [OF m]
  have a: "a' = a" using ma assms(5) by simp
  define g1 where "g1 = guest_zero\<lparr>g_asid := 0, g_snp_state := SNP_GUEST_STATE_INIT,
      g_type := SEV_GUEST_TYPE_SNP, g_umc_key_seed := snd (se_trng E), g_oek_iv_count := 0\<rparr>"
  obtain S1 where t: "fst (se_trng E) = SEV_STATUS_SUCCESS" and S1: "sn_x86 S1 = ?X" "context_guest S1 a = g1" and
    k: "write_entry E p (set_vmsa 1 e) finish (put_context E a S1) = (SEV_STATUS_SUCCESS, S')"
    using init_context_success [OF i [unfolded a qp(1)]] unfolding g1_def by blast
  from k obtain e2 Y where
    w: "rmp_entry_write (se_al8k E) (se_uc E) p (set_vmsa 1 e) (sn_x86 (put_context E a S1)) = (SEV_STATUS_SUCCESS, e2, Y)" and
    S': "S' = (put_context E a S1)\<lparr>sn_x86 := Y\<rparr>"
    by (auto simp: step_success)
  note pc = put_context_effect [OF assms(3) m [unfolded a] S1(1), where E = E]
  let ?X1 = "sn_x86 (put_context E a S1)"
  have wf1: "rmp_wf ?X1" "rmp_slot ?X1 p" using same_machine_wf [OF pc(1)] assms(3) qp(3) by simp_all
  have sub: "rmp_subpage_count (set_vmsa 1 e) = rmp_subpage_count (page_entry ?X1 p)"
    using pc(2) [OF qp(3)] by (simp add: vmsa_subpage qp(2))
  note f = single_write_effect [OF w assms(2) wf1 sub]
  have s2: "rmp_entry_get_state (page_entry Y p) = SNP_PAGE_STATE_CONTEXT"
    using f(1) page_transitions [of e] st(1) se(3) by (simp add: qp(2))
  have fr: "xs_mem Y x = xs_mem ?X x" if "16 \<le> unat (x - p)" "unat PAGE_SIZE_4K \<le> unat (x - a)" for x
    using f(3) [OF that(1)] pc(3) [OF that(2)] by simp
  have same: "context_guest S' a = g1" "sn_ctx S' a = sn_ctx S1 a"
    using S1(2) by (simp_all add: S' put_context_def context_guest_def)
  have g: "g = g1" and x: "sn_x86 S' = Y" using assms(6) same(1) by (simp_all add: S')
  have bytes: "read_bytes (xs_mem Y) a (unat PAGE_SIZE_4K) = context_octets E g1 (sn_ctx S1 a)"
  proof (rule nth_equalityI)
    fix i assume "i < length (read_bytes (xs_mem Y) a (unat PAGE_SIZE_4K))"
    then have i: "i < unat PAGE_SIZE_4K" by simp
    have "16 \<le> unat (a + of_nat i - p)"
      using mapped_far_from_entry [OF assms(3) conjunct2 [OF ma] i qp(3), of COPY_PLAINTEXT_IN] by (simp add: assms(5))
    then show "read_bytes (xs_mem Y) a (unat PAGE_SIZE_4K) ! i = context_octets E g1 (sn_ctx S1 a) ! i"
      using f(3) pc(4) [OF i] i by (simp add: S1(2))
  qed simp
  have na: "\<not> guest_has_asid g1" by (simp add: g1_def guest_has_asid_def guest_zero_def)
  show ?thesis
    using s2 fr na t st se qp bytes by (simp add: g x same(2)) (simp add: g1_def)
qed


lemma metadata_gpa:
  assumes "unat g < 2 ^ 36"
  shows "RMP_GET_GPA (g OR push_bit RMP_GPA_STATE_SHIFT RMP_GPA_STATE_METADATA) = g"
    and "RMP_GET_GPA_STATE (g OR push_bit RMP_GPA_STATE_SHIFT RMP_GPA_STATE_METADATA) = RMP_GPA_STATE_METADATA"
    and "take_bit 39 (g OR push_bit RMP_GPA_STATE_SHIFT RMP_GPA_STATE_METADATA) =
      g OR push_bit RMP_GPA_STATE_SHIFT RMP_GPA_STATE_METADATA"
proof -
  have b: "bit g i \<Longrightarrow> i < 36" for i by (rule bit_lt_power [OF assms])
  have e: "(7 :: u64) = mask 3" by (simp add: mask_eq_exp_minus_1)
  have f: "bit RMP_GPA_STATE_FLAG i \<longleftrightarrow> 36 \<le> i \<and> i < 39" for i
    unfolding RMP_GPA_STATE_FLAG_def RMP_GPA_STATE_SHIFT_def e bit_push_bit_iff bit_mask_iff by auto
  have one: "bit (push_bit RMP_GPA_STATE_SHIFT RMP_GPA_STATE_METADATA :: u64) i \<longleftrightarrow> i = 36" for i
    unfolding RMP_GPA_STATE_SHIFT_def RMP_GPA_STATE_METADATA_def bit_push_bit_iff bit_1_iff by auto
  show "RMP_GET_GPA (g OR push_bit RMP_GPA_STATE_SHIFT RMP_GPA_STATE_METADATA) = g"
    unfolding RMP_GET_GPA_def
    by (rule bit_eqI) (use b in \<open>fastforce simp: bit_and_iff bit_or_iff bit_not_iff f one\<close>)
  show "RMP_GET_GPA_STATE (g OR push_bit RMP_GPA_STATE_SHIFT RMP_GPA_STATE_METADATA) = RMP_GPA_STATE_METADATA"
  proof (rule bit_eqI)
    fix i
    have "\<not> bit g (36 + i)" using b [of "36 + i"] by auto
    then show "bit (RMP_GET_GPA_STATE (g OR push_bit RMP_GPA_STATE_SHIFT RMP_GPA_STATE_METADATA)) i =
      bit RMP_GPA_STATE_METADATA i"
      unfolding RMP_GET_GPA_STATE_def
      by (auto simp: bit_drop_bit_eq bit_or_iff one RMP_GPA_STATE_METADATA_def bit_1_iff RMP_GPA_STATE_SHIFT_def)
  qed
  show "take_bit 39 (g OR push_bit RMP_GPA_STATE_SHIFT RMP_GPA_STATE_METADATA) =
      g OR push_bit RMP_GPA_STATE_SHIFT RMP_GPA_STATE_METADATA"
    by (rule bit_eqI) (use b in \<open>fastforce simp: bit_take_bit_iff bit_or_iff one\<close>)
qed

lemma context_gpa_small:
  assumes "validate_address_range X a n = SEV_STATUS_SUCCESS"
  shows "unat (PADDR_GET_GPA a) < 2 ^ 36"
proof -
  note v = validate_success [OF assms refl refl]
  have "unat (CLEAR_CBIT a) < 2 ^ 48"
    using order_trans [OF v(2,3)] by (simp add: word_le_nat_alt X86_MAX_PHYS_ADDR_def X86_HYPER_TRANSPORT_AREA_def)
  then show ?thesis
    by (simp add: PADDR_GET_GPA_def CLEAR_CBIT_def [symmetric] RMP_ENTRY_GPA_SHIFT_def drop_bit_eq_div unat_div)
qed

lemma new_metadata:
  assumes "rmp_entry_get_state e = SNP_PAGE_STATE_FIRMWARE" and "unat (PADDR_GET_GPA a) < 2 ^ 36" and "PADDR_GET_GPA a \<noteq> 0"
  shows "rmp_entry_get_state (set_gpa (PADDR_TO_GPA_FIELD a RMP_GPA_STATE_METADATA) e) = SNP_PAGE_STATE_METADATA"
    and "RMP_GET_GPA (rmp_gpa (set_gpa (PADDR_TO_GPA_FIELD a RMP_GPA_STATE_METADATA) e)) = PADDR_GET_GPA a"
proof -
  note g = metadata_gpa [OF assms(2)]
  have r: "rmp_gpa (set_gpa (PADDR_TO_GPA_FIELD a RMP_GPA_STATE_METADATA) e) = PADDR_TO_GPA_FIELD a RMP_GPA_STATE_METADATA"
    by (simp add: set_gpa_def rmp_gpa_def get_put_field PADDR_TO_GPA_FIELD_def g(3) del: take_bit_or)
  have o: "rmp_assigned (set_gpa v e) = rmp_assigned e" "rmp_validated (set_gpa v e) = rmp_validated e"
    "rmp_asid (set_gpa v e) = rmp_asid e" "rmp_immutable (set_gpa v e) = rmp_immutable e" for v
    by (simp_all add: entry_calc)
  show "rmp_entry_get_state (set_gpa (PADDR_TO_GPA_FIELD a RMP_GPA_STATE_METADATA) e) = SNP_PAGE_STATE_METADATA"
    using assms(1,3) by (simp add: page_states o r) (simp add: PADDR_TO_GPA_FIELD_def g)
  show "RMP_GET_GPA (rmp_gpa (set_gpa (PADDR_TO_GPA_FIELD a RMP_GPA_STATE_METADATA) e)) = PADDR_GET_GPA a"
    unfolding r by (simp add: PADDR_TO_GPA_FIELD_def g)
qed

text \<open>
  C14: MD_INIT succeeds only for a FIRMWARE page and the CONTEXT page of a launched guest. When the
  CONTEXT page is not the one at physical address 0, the page is filled with zeros and becomes a
  METADATA page that records the guest's address. The cores do not write to memory during the
  command.
\<close>

theorem md_init_binds_page_to_guest:
  assumes "snp_mcmd_md_init E gctx_paddr page_paddr S = (SEV_STATUS_SUCCESS, S')" and "quiet E"
    and "rmp_wf (sn_x86 S)" and "get_rmp_paddr (sn_x86 S) page_paddr 0 = (SEV_STATUS_SUCCESS, p)"
    and "get_rmp_paddr (sn_x86 S) gctx_paddr 0 = (SEV_STATUS_SUCCESS, cp)" and "PADDR_GET_GPA gctx_paddr \<noteq> 0"
    and "e = page_entry (sn_x86 S) p" and "e' = page_entry (sn_x86 S') p"
  shows "rmp_entry_get_state (page_entry (sn_x86 S) cp) = SNP_PAGE_STATE_CONTEXT \<and>
    launched (set_asid (sn_x86 S) COPY_PLAINTEXT_IN gctx_paddr 0) S \<and>
    rmp_entry_get_state e = SNP_PAGE_STATE_FIRMWARE \<and> rmp_entry_get_state e' = SNP_PAGE_STATE_METADATA \<and>
    RMP_GET_GPA (rmp_gpa e') = PADDR_GET_GPA gctx_paddr \<and>
    read_bytes (xs_mem (sn_x86 S')) (set_asid (sn_x86 S) COPY_PLAINTEXT_IN page_paddr 0) (unat (page_bytes e)) =
      replicate (unat (page_bytes e)) 0 \<and>
    (\<forall>q. rmp_slot (sn_x86 S) q \<longrightarrow> q \<noteq> p \<longrightarrow> page_entry (sn_x86 S') q = page_entry (sn_x86 S) q)"
proof -
  let ?X = "sn_x86 S"
  note sk = rmp_wf_skip(2) [OF assms(3)]
  from assms(1) obtain cq ce cs q f st a b where
    c: "rmp_get_addr_entry_state gctx_paddr (0, se_entry0 E, SNP_PAGE_STATE_INVALID) ?X =
      (SEV_STATUS_SUCCESS, (cq, ce, cs), ?X)" and
    r: "rmp_get_addr_entry_state page_paddr (0, se_entry0 E, SNP_PAGE_STATE_INVALID) ?X =
      (SEV_STATUS_SUCCESS, (q, f, st), ?X)" and
    st: "cs = SNP_PAGE_STATE_CONTEXT" "st = SNP_PAGE_STATE_FIRMWARE" and
    mc: "sev_hal_map_guest_context ?X gctx_paddr PAGE_SIZE_4K = (SEV_STATUS_SUCCESS, a)" and l: "launched a S" and
    mp: "sev_hal_map_memory_ccp ?X page_paddr (page_bytes f) = (SEV_STATUS_SUCCESS, b)" and
    k: "zero_page b (page_bytes f) (write_entry E q (set_gpa (PADDR_TO_GPA_FIELD gctx_paddr RMP_GPA_STATE_METADATA) f) finish) S
      = (SEV_STATUS_SUCCESS, S')"
    by (auto simp: snp_mcmd_md_init_def step_success get_page_success sk)
  note sc = state_entry [OF c assms(3)] st(1) and sp = state_entry [OF r assms(3)] st(2)
  have qp: "q = p" "f = e" "rmp_slot ?X p" and cp: "ce = page_entry ?X cp" using sc sp assms(4,5,7) by auto
  note ca = map_context_address [OF mc]
  have b: "b = set_asid ?X COPY_PLAINTEXT_IN page_paddr 0" by (rule map_ccp_address [OF mp])
  have v: "validate_address_range ?X page_paddr (page_bytes e) = SEV_STATUS_SUCCESS"
    using mp qp by (auto simp: sev_hal_map_memory_ccp_def Let_def split: if_split_asm)
  let ?n = "unat (page_bytes e)" and ?new = "set_gpa (PADDR_TO_GPA_FIELD gctx_paddr RMP_GPA_STATE_METADATA) e"
  let ?X1 = "?X\<lparr>xs_mem := write_bytes (xs_mem ?X) b (replicate ?n 0)\<rparr>"
  from k qp obtain e2 Y where w: "rmp_entry_write (se_al8k E) (se_uc E) p ?new ?X1 = (SEV_STATUS_SUCCESS, e2, Y)"
    and S': "sn_x86 S' = Y"
    by (auto simp: zero_page_def step_success)
  have sm: "same_machine ?X ?X1" by (simp add: same_machine_def)
  have wf1: "rmp_wf ?X1" "rmp_slot ?X1 x = rmp_slot ?X x" for x using same_machine_wf [OF sm] assms(3) by simp_all
  have pe: "page_entry ?X1 x = page_entry ?X x" if "rmp_slot ?X x" for x
    unfolding b by (rule entry_write_outside [OF assms(3) v _ _ that]) simp_all
  have sub: "rmp_subpage_count ?new = rmp_subpage_count (page_entry ?X1 p)"
    using pe [OF qp(3)] assms(7) by (simp add: entry_calc)
  note fx = single_write_effect [OF w assms(2) wf1(1) _ sub] 
  have slot1: "rmp_slot ?X1 p" using wf1(2) qp(3) by simp
  have e': "e' = ?new" using fx(1) [OF slot1] assms(8) S' by simp
  have z: "read_bytes (xs_mem Y) b ?n = replicate ?n 0"
  proof (rule nth_equalityI)
    fix i assume "i < length (read_bytes (xs_mem Y) b ?n)"
    then have i: "i < ?n" by simp
    have far: "16 \<le> unat (b + of_nat i - p)"
      using mapped_far_from_entry [OF assms(3) v i qp(3), of COPY_PLAINTEXT_IN] by (simp add: b)
    have "unat (of_nat i :: u64) = i" using i u64_bound [of "page_bytes e"] by (simp add: unat_of_nat take_bit_nat_eq_self)
    then have "xs_mem ?X1 (b + of_nat i) = 0" using i by (simp add: write_bytes_def)
    with fx(3) [OF slot1 far] i show "read_bytes (xs_mem Y) b ?n ! i = replicate ?n 0 ! i" by simp
  qed simp
  have fr: "\<forall>x. rmp_slot ?X x \<longrightarrow> x \<noteq> p \<longrightarrow> page_entry Y x = page_entry ?X x"
    using fx(2) [OF slot1] wf1(2) pe by simp
  have fs: "rmp_entry_get_state e = SNP_PAGE_STATE_FIRMWARE" using sp st qp by simp
  note nm = new_metadata [OF fs context_gpa_small [OF conjunct2 [OF ca]] assms(6)]
  show ?thesis using nm z fr fs l ca sc(3) st cp by (simp add: e' S' b [symmetric])
qed

end
