(* ===== verification/Sev_SnpSealed.thy ===== *)
theory Sev_SnpSealed
  imports Sev_SnpContexts
begin

section \<open>Context pages are sealed\<close>

datatype snp_cmd =
    Gctx_create u64
  | Activate u64 u32
  | Activate_ex bool u32 u64 activate_ex_in
  | Guest_status u64 u64
  | Decommission u64
  | Page_move page_move
  | Md_init u64 u64
  | Page_reclaim u64
  | Page_unsmash u64

fun snp_exec :: "snp_env \<Rightarrow> snp_cmd \<Rightarrow> snp_act" where
  "snp_exec E (Gctx_create a) = snp_mcmd_gctx_create E a"
| "snp_exec E (Activate a asid) = snp_mcmd_activate E a asid"
| "snp_exec E (Activate_ex ok rsv a x) = snp_mcmd_activate_ex E ok rsv a x"
| "snp_exec E (Guest_status a b) = snp_mcmd_guest_status E a b"
| "snp_exec E (Decommission a) = snp_mcmd_decommission E a"
| "snp_exec E (Page_move pm) = snp_mcmd_page_move E pm"
| "snp_exec E (Md_init a b) = snp_mcmd_md_init E a b"
| "snp_exec E (Page_reclaim w) = snp_mcmd_page_reclaim E w"
| "snp_exec E (Page_unsmash a) = snp_mcmd_page_unsmash E a"

definition env_ok :: "snp_env \<Rightarrow> bool" where
  "env_ok E \<longleftrightarrow> quiet E \<and> (\<forall>v. se_al2m E v = (2 ^ 21 dvd unat v))"

text \<open>The CONTEXT pages of \<open>S\<close>, but for those in \<open>R\<close>, are as they were.\<close>

definition sealed :: "u64 set \<Rightarrow> snp_sys \<Rightarrow> snp_sys \<Rightarrow> bool" where
  "sealed R S S' \<longleftrightarrow> same_machine (sn_x86 S) (sn_x86 S') \<and>
     (\<forall>q. rmp_slot (sn_x86 S) q \<longrightarrow> rmp_entry_get_state (page_entry (sn_x86 S) q) = SNP_PAGE_STATE_CONTEXT \<longrightarrow>
        q \<notin> R \<longrightarrow> page_entry (sn_x86 S') q = page_entry (sn_x86 S) q)"

lemma sealed_refl [simp]: "sealed R S S"
  by (simp add: sealed_def same_machine_def)

lemma sealed_plat [simp]: "sealed R S (S'\<lparr>sn_plat := p\<rparr>) = sealed R S S'"
  "sealed R S (S'\<lparr>sn_ctx := c\<rparr>) = sealed R S S'"
  by (simp_all add: sealed_def)

lemma sealed_entries:
  assumes "sealed R S S'" and "same_machine (sn_x86 S') X" and "\<And>q. rmp_slot (sn_x86 S') q \<Longrightarrow> page_entry X q = page_entry (sn_x86 S') q"
  shows "sealed R S (S'\<lparr>sn_x86 := X\<rparr>)"
  using assms same_machine_trans [of "sn_x86 S" "sn_x86 S'" X] same_machine_wf(2) [of "sn_x86 S" "sn_x86 S'"]
  by (auto simp: sealed_def)

text \<open>One rule for each step of a command that starts in \<open>S0\<close>.\<close>

lemma seal_require:
  "sealed R S0 S \<Longrightarrow> (P S \<Longrightarrow> sealed R S0 (snd (k S))) \<Longrightarrow> sealed R S0 (snd (require P st k S))"
  by (simp add: require_def)

lemma seal_if:
  "(b \<Longrightarrow> sealed R S0 (snd (k1 S))) \<Longrightarrow> (\<not> b \<Longrightarrow> sealed R S0 (snd (k2 S))) \<Longrightarrow>
    sealed R S0 (snd ((if b then k1 else k2) S))"
  by simp

lemma seal_Pair: "sealed R S0 S \<Longrightarrow> sealed R S0 (snd (st, S))"
  by simp

lemma seal_get_page:
  assumes "rmp_wf (sn_x86 S)" and "sealed R S0 S"
    and "\<And>p e st. rmp_get_addr_entry_state a (0, se_entry0 E, SNP_PAGE_STATE_INVALID) (sn_x86 S) =
      (SEV_STATUS_SUCCESS, (p, e, st), sn_x86 S) \<Longrightarrow> sealed R S0 (snd (k p e st S))"
  shows "sealed R S0 (snd (get_page E a (\<lambda>(p, e, st). k p e st) S))"
proof -
  obtain st p e s X where g: "rmp_get_addr_entry_state a (0, se_entry0 E, SNP_PAGE_STATE_INVALID) (sn_x86 S) = (st, (p, e, s), X)"
    by (metis prod_cases3)
  have "X = sn_x86 S" by (rule state_keeps [OF g rmp_wf_skip(2) [OF assms(1)]])
  with g assms(2,3) show ?thesis by (auto simp: get_page_def)
qed

lemma seal_map_context:
  "sealed R S0 S \<Longrightarrow> (\<And>a. sev_hal_map_guest_context (sn_x86 S) addr PAGE_SIZE_4K = (SEV_STATUS_SUCCESS, a) \<Longrightarrow>
    sealed R S0 (snd (k a S))) \<Longrightarrow> sealed R S0 (snd (map_context addr k S))"
  by (auto simp: map_context_def split: prod.split)

lemma seal_map_memory:
  "sealed R S0 S \<Longrightarrow> (\<And>a. sev_hal_map_memory_ccp (sn_x86 S) addr n = (SEV_STATUS_SUCCESS, a) \<Longrightarrow> sealed R S0 (snd (k a S)))
    \<Longrightarrow> sealed R S0 (snd (map_memory addr n k S))"
  by (auto simp: map_memory_def split: prod.split)

lemma seal_no_pages: "sealed R S0 S \<Longrightarrow> sealed R S0 (snd (k S)) \<Longrightarrow> sealed R S0 (snd (no_pages_of_asid asid k S))"
  by (auto simp: no_pages_of_asid_def split: prod.split)

lemma seal_on_plat:
  "sealed R S0 S \<Longrightarrow> (\<And>p. sealed R S0 (snd (k (S\<lparr>sn_plat := p\<rparr>)))) \<Longrightarrow> sealed R S0 (snd (on_plat f k S))"
  by (auto simp: on_plat_def Let_def split: prod.split)

lemma seal_check:
  "sealed R S0 S \<Longrightarrow> sealed R S0 (snd (k S)) \<Longrightarrow> sealed R S0 (snd (on_x86 (\<lambda>X. (f X, X)) k S))"
  by (simp add: on_x86_def)

lemma seal_finish: "sealed R S0 S \<Longrightarrow> sealed R S0 (snd (finish S))"
  by (simp add: finish_def)

lemma sealed_write:
  assumes "rmp_entry_write (se_al8k E) (se_uc E) p e (sn_x86 S') = (st, e', X)" and "quiet E"
    and "rmp_wf (sn_x86 S)" and "rmp_slot (sn_x86 S) p" and "sealed R S S'"
    and "rmp_entry_get_state (page_entry (sn_x86 S) p) \<noteq> SNP_PAGE_STATE_CONTEXT \<or> p \<in> R"
  shows "sealed R S (S'\<lparr>sn_x86 := X\<rparr>)"
proof -
  have sm: "same_machine (sn_x86 S) (sn_x86 S')" using assms(5) by (simp add: sealed_def)
  have uc: "\<forall>Y. se_uc E Y = Y" using assms(2) by (simp add: quiet_def)
  have w: "rmp_wf (sn_x86 S')" "rmp_slot (sn_x86 S') p" using same_machine_wf [OF sm] assms(3,4) by simp_all
  note f = write_frame_entries [OF assms(1) uc w(2,1)]
  have "page_entry X q = page_entry (sn_x86 S) q" if q: "rmp_slot (sn_x86 S) q"
    "rmp_entry_get_state (page_entry (sn_x86 S) q) = SNP_PAGE_STATE_CONTEXT" "q \<notin> R" for q
  proof -
    have "q \<noteq> p" using assms(6) q by auto
    then show ?thesis using assms(5) q f(2) [of q] same_machine_wf(2) [OF sm] by (auto simp: sealed_def)
  qed
  then show ?thesis using same_machine_trans [OF sm f(1)] by (simp add: sealed_def)
qed

lemma seal_write_entry:
  assumes "sealed R S S'" and "quiet E" and "rmp_wf (sn_x86 S)" and "rmp_slot (sn_x86 S) p"
    and "rmp_entry_get_state (page_entry (sn_x86 S) p) \<noteq> SNP_PAGE_STATE_CONTEXT \<or> p \<in> R"
    and "\<And>X. sealed R S (S'\<lparr>sn_x86 := X\<rparr>) \<Longrightarrow> sealed R S (snd (k (S'\<lparr>sn_x86 := X\<rparr>)))"
  shows "sealed R S (snd (write_entry E p e k S'))"
proof -
  obtain st e' X where w: "rmp_entry_write (se_al8k E) (se_uc E) p e (sn_x86 S') = (st, e', X)" by (metis prod_cases3)
  note s = sealed_write [OF w assms(2-4,1,5)]
  show ?thesis using s assms(6) [OF s] by (simp add: write_entry_def w Let_def)
qed

section \<open>Copies of data\<close>

lemma move_frame:
  assumes "copy_to_x86_encrypted_from_x86_encrypted dst src n asid X = (st, X')" and "rmp_wf X"
    and "unat (ucast asid :: u64) < 1024"
  shows "same_machine X X'" and "\<And>q. rmp_slot X q \<Longrightarrow> page_entry X' q = page_entry X q"
proof -
  let ?D = "set_asid X COPY_CIPHERTEXT_IN_OUT dst (ucast asid)"
  have "X' = X \<or> (validate_address_range X dst n = SEV_STATUS_SUCCESS \<and>
      (\<exists>bs. length bs = unat n \<and> X' = X\<lparr>xs_mem := write_bytes (xs_mem X) ?D bs\<rparr>))"
    using assms(1)
    by (auto simp: copy_to_x86_encrypted_from_x86_encrypted_def x86_copy_def move_within_def Let_def
        intro!: exI [of _ "read_bytes _ _ _"] split: if_split_asm prod.split_asm)
  then show "same_machine X X'" "\<And>q. rmp_slot X q \<Longrightarrow> page_entry X' q = page_entry X q"
    using entry_write_outside [OF assms(2) _ assms(3)] by (auto simp: same_machine_def)
qed

lemma plain_move_frame:
  assumes "copy_to_x86_from_x86 dst src n X = (st, X')" and "rmp_wf X"
  shows "same_machine X X'" and "\<And>q. rmp_slot X q \<Longrightarrow> page_entry X' q = page_entry X q"
proof -
  let ?D = "set_asid X COPY_PLAINTEXT_IN_OUT dst 0"
  have "X' = X \<or> (validate_address_range X dst n = SEV_STATUS_SUCCESS \<and>
      (\<exists>bs. length bs = unat n \<and> X' = X\<lparr>xs_mem := write_bytes (xs_mem X) ?D bs\<rparr>))"
    using assms(1)
    by (auto simp: copy_to_x86_from_x86_def x86_copy_def move_within_def Let_def
        intro!: exI [of _ "read_bytes _ _ _"] split: if_split_asm prod.split_asm)
  then show "same_machine X X'" "\<And>q. rmp_slot X q \<Longrightarrow> page_entry X' q = page_entry X q"
    using entry_write_outside [OF assms(2), of dst n 0] by (auto simp: same_machine_def)
qed

lemma zero_frame:
  assumes "sev_hal_map_memory_ccp X a n = (SEV_STATUS_SUCCESS, b)" and "rmp_wf X" and "rmp_slot X q"
  shows "page_entry (X\<lparr>xs_mem := write_bytes (xs_mem X) b (replicate (unat n) 0)\<rparr>) q = page_entry X q"
proof -
  have "validate_address_range X a n = SEV_STATUS_SUCCESS"
    using assms(1) by (auto simp: sev_hal_map_memory_ccp_def Let_def split: if_split_asm)
  from entry_write_outside [OF assms(2) this _ _ assms(3), of 0 "replicate (unat n) 0" COPY_PLAINTEXT_IN]
  show ?thesis by (simp add: map_ccp_address [OF assms(1)])
qed

text \<open>A copy of a few bytes within one page.\<close>

lemma same_page_bits:
  assumes "unat ((a :: u64) AND 4095) + n \<le> 4096" and "0 < n" and "12 \<le> i"
  shows "bit (a + of_nat n - 1) i = bit a i"
proof -
  have e: "(4095 :: u64) = mask 12" by (simp add: mask_eq_exp_minus_1)
  define l where "l = unat a mod 4096"
  have al: "unat (a AND 4095) = l"
    unfolding e l_def take_bit_eq_mask [symmetric] unsigned_take_bit_eq by (simp add: take_bit_eq_mod)
  have n: "n \<le> 4096" using assms(1) by simp
  have w: "a + of_nat n - 1 = a + of_nat (n - 1)" using assms(2) by (simp add: of_nat_diff)
  obtain h where h: "unat a = 4096 * h + l" by (metis l_def mult_div_mod_eq)
  have "4096 * h < 2 ^ 64" using h u64_bound [of a] by simp
  then have "4096 * h + 4096 \<le> 2 ^ 64" by simp
  have un: "unat (of_nat (n - 1) :: u64) = n - 1" using n by (simp only: unsigned_of_nat) (simp add: take_bit_nat_eq_self)
  have "unat a + unat (of_nat (n - 1) :: u64) < 2 ^ LENGTH(64)"
    using \<open>4096 * h + 4096 \<le> 2 ^ 64\<close> assms(1,2) h unfolding al un by simp
  then have "unat (a + of_nat (n - 1)) = unat a + unat (of_nat (n - 1) :: u64)" by (rule unat_add_no_wrap)
  then have u: "unat (a + of_nat (n - 1)) = 4096 * h + (l + (n - 1))" by (simp only: un h add.assoc)
  have d: "(4096 * h + r) div 2 ^ i = h div 2 ^ (i - 12)" if "r < 4096" for r
  proof -
    have "(2 :: nat) ^ i = 2 ^ (12 + (i - 12))" using assms(3) by simp
    then have "(2 :: nat) ^ i = 4096 * 2 ^ (i - 12)" by (simp only: power_add) simp
    moreover have "(4096 * h + r) div 4096 = h" using that by simp
    ultimately show ?thesis by (simp only: div_mult2_eq)
  qed
  have "l < 4096" by (simp add: l_def)
  moreover have "l + (n - 1) < 4096" using assms(1,2) al by simp
  ultimately have "unat (a + of_nat (n - 1)) div 2 ^ i = unat a div 2 ^ i" by (simp only: u h d)
  then have "bit (unat (a + of_nat (n - 1))) i = bit (unat a) i" by (simp only: bit_iff_odd)
  then show ?thesis by (simp add: w bit_unsigned_iff)
qed

lemma page_copy_frame:
  assumes "copy_to_x86 a bs X = (st, X')" and "rmp_wf X" and "0 < length bs"
    and "unat (a AND 4095) + length bs \<le> 4096"
  shows "same_machine X X'" and "\<And>q. rmp_slot X q \<Longrightarrow> page_entry X' q = page_entry X q"
proof -
  let ?n = "of_nat (length bs) :: u64" and ?D = "set_asid X COPY_PLAINTEXT_OUT a 0"
  let ?l = "a + ?n - 1"
  have len: "unat ?n = length bs" using assms(4) by (simp add: unat_of_nat take_bit_nat_eq_self)
  note bt = same_page_bits [OF assms(4,3)]
  have lm: "(v AND X86_64MB_MASK = w AND X86_64MB_MASK) \<longleftrightarrow> (\<forall>i \<ge> 26. bit v i = bit w i)" for v w :: u64
  proof -
    have e: "X86_64MB_MASK = NOT (mask 26)"
      by (simp add: X86_64MB_MASK_def X86_64MB_SIZE_def mask_eq_exp_minus_1)
    have "(v AND NOT (mask 26) = w AND NOT (mask 26)) \<longleftrightarrow> (\<forall>i < 64. 26 \<le> i \<longrightarrow> bit v i = bit w i)"
      by (auto simp: bit_eq_iff bit_and_iff bit_not_iff bit_mask_iff)
    also have "\<dots> \<longleftrightarrow> (\<forall>i \<ge> 26. bit v i = bit w i)"
      using bit_imp_le_length [of v] bit_imp_le_length [of w] by auto
    finally show ?thesis unfolding e .
  qed
  have w1: "a AND X86_64MB_MASK = ?l AND X86_64MB_MASK" unfolding lm using bt by simp
  have cb: "(?l AND SEV_CBIT_MASK \<noteq> 0) = (a AND SEV_CBIT_MASK \<noteq> 0)"
    using bt [of 51] by (auto simp: bit_eq_iff [of _ 0] bit_and_iff cbit_bit)
  have w2: "?D AND X86_64MB_MASK = set_asid X COPY_PLAINTEXT_OUT ?l 0 AND X86_64MB_MASK"
    unfolding lm using bt by (auto simp: set_asid_def Let_def cb bit_or_iff bit_and_iff bit_not_iff)
  have plain: "?D = a" if "\<not> CBIT_IS_SET a" "validate_address_range X a ?n = SEV_STATUS_SUCCESS"
  proof -
    have z: "a AND SEV_CBIT_MASK = 0" using that(1) by (simp add: CBIT_IS_SET_def)
    have c: "CLEAR_CBIT a = a"
      by (rule bit_eqI) (use z in \<open>auto simp: bit_clear_cbit bit_eq_iff [of _ 0] bit_and_iff cbit_bit\<close>)
    have "a AND (SEV_ASID_ADDR_MASK X AND NOT SEV_CBIT_MASK) = 0"
      using validate_no_asid [OF that(2)] by (simp add: c asid_bits_set_def word_gt_0)
    with z have "\<not> (bit a i \<and> bit (SEV_ASID_ADDR_MASK X) i)" if "i < 64" for i
      using that by (auto simp: bit_eq_iff [of _ 0] bit_and_iff bit_not_iff cbit_bit)
    then have b: "\<not> (bit a i \<and> bit (SEV_ASID_ADDR_MASK X) i)" for i
      using bit_imp_le_length [of a i] by auto
    have "a AND NOT (SEV_ASID_ADDR_MASK X) = a"
      by (rule bit_eqI) (use b in \<open>auto simp: bit_and_iff bit_not_iff\<close>)
    then show ?thesis by (simp add: set_asid_def Let_def z)
  qed
  have "X' = X \<or> (validate_address_range X a ?n = SEV_STATUS_SUCCESS \<and> X' = X\<lparr>xs_mem := write_bytes (xs_mem X) ?D bs\<rparr>)"
    using assms(1) w1 w2 plain
    by (auto simp: copy_to_x86_def x86_copy_def copy_out_def Let_def split: if_split_asm prod.split_asm)
  then show "same_machine X X'" "\<And>q. rmp_slot X q \<Longrightarrow> page_entry X' q = page_entry X q"
    using entry_write_outside [OF assms(2), of a ?n 0 bs] len by (auto simp: same_machine_def)
qed

section \<open>Each command keeps the seal\<close>

lemma seal_on_x86_frame:
  assumes "sealed R S S'" and "rmp_wf (sn_x86 S)"
    and "\<And>st X. f (sn_x86 S') = (st, X) \<Longrightarrow> rmp_wf (sn_x86 S') \<Longrightarrow> same_machine (sn_x86 S') X \<and>
      (\<forall>q. rmp_slot (sn_x86 S') q \<longrightarrow> page_entry X q = page_entry (sn_x86 S') q)"
    and "\<And>X. sealed R S (S'\<lparr>sn_x86 := X\<rparr>) \<Longrightarrow> sealed R S (snd (k (S'\<lparr>sn_x86 := X\<rparr>)))"
  shows "sealed R S (snd (on_x86 f k S'))"
proof -
  have w: "rmp_wf (sn_x86 S')" using assms(1,2) same_machine_wf(1) [of "sn_x86 S" "sn_x86 S'"] by (simp add: sealed_def)
  have "sealed R S (S'\<lparr>sn_x86 := X\<rparr>)" if "f (sn_x86 S') = (st, X)" for st X
    using sealed_entries [OF assms(1)] assms(3) [OF that w] by blast
  then show ?thesis using assms(4) by (auto simp: on_x86_def Let_def split: prod.split)
qed

lemmas seal_rules = seal_require seal_if seal_Pair seal_get_page seal_map_context seal_map_memory seal_no_pages
  seal_on_plat seal_check seal_finish

lemma seal_context:
  assumes "rmp_wf (sn_x86 S)"
    and "\<And>p a. get_rmp_paddr (sn_x86 S) ga 0 = (SEV_STATUS_SUCCESS, p) \<Longrightarrow> rmp_slot (sn_x86 S) p \<Longrightarrow>
      sealed R S (snd (k p (page_entry (sn_x86 S) p) a S))"
  shows "sealed R S (snd (with_context E ga k S))"
  unfolding with_context_def
proof (intro seal_rules assms(1))
  fix p e st a
  assume "rmp_get_addr_entry_state ga (0, se_entry0 E, SNP_PAGE_STATE_INVALID) (sn_x86 S) =
      (SEV_STATUS_SUCCESS, (p, e, st), sn_x86 S)" "st = SNP_PAGE_STATE_CONTEXT"
  with state_entry [OF this(1) assms(1)] assms(2) [of p a] show "sealed R S (snd (k p e a S))" by simp
qed simp_all

lemma sealed_decommission:
  assumes "rmp_wf (sn_x86 S)" and "quiet E"
  shows "sealed {p. get_rmp_paddr (sn_x86 S) ga 0 = (SEV_STATUS_SUCCESS, p)} S (snd (snp_mcmd_decommission E ga S))"
  unfolding snp_mcmd_decommission_def
  by (intro seal_context [OF assms(1)] seal_rules seal_write_entry) (simp_all add: assms)

lemma sealed_activate: "rmp_wf (sn_x86 S) \<Longrightarrow> sealed R S (snd (snp_mcmd_activate E ga asid S))"
  unfolding snp_mcmd_activate_def
  by (intro seal_context seal_rules) simp_all

lemma sealed_activate_ex: "rmp_wf (sn_x86 S) \<Longrightarrow> sealed R S (snd (snp_mcmd_activate_ex E ok rsv ga x S))"
  unfolding snp_mcmd_activate_ex_def
  by (intro seal_context seal_rules) (auto intro!: seal_rules)

lemma status_page_frame:
  assumes "copy_to_x86 sa (guest_status_bytes g v) X = (st, X')" and "rmp_wf X"
    and "\<not> (sa AND (PAGE_SIZE_4K - 1)) + 32 > PAGE_SIZE_4K"
  shows "same_machine X X' \<and> (\<forall>q. rmp_slot X q \<longrightarrow> page_entry X' q = page_entry X q)"
proof -
  have l: "length (guest_status_bytes g v) = 32" by (simp add: guest_status_bytes_def)
  define w where "w = sa AND 4095"
  have "w \<le> 4095" unfolding w_def by (rule word_and_le1)
  moreover have "w + 32 \<le> 4096" using assms(3) by (simp add: PAGE_SIZE_4K_def w_def not_less)
  ultimately have "unat w + 32 \<le> 4096"
    using unat_add_no_wrap [of w 32] by (simp add: word_le_nat_alt)
  with page_copy_frame [OF assms(1,2)] show ?thesis by (simp add: l w_def)
qed

lemma sealed_guest_status:
  assumes "rmp_wf (sn_x86 S)"
  shows "sealed R S (snd (snp_mcmd_guest_status E ga sa S))"
  unfolding snp_mcmd_guest_status_def
  by (intro seal_rules seal_on_x86_frame status_page_frame assms) simp_all

lemma sealed_gctx_create:
  assumes "rmp_wf (sn_x86 S)" and "quiet E"
  shows "sealed R S (snd (snp_mcmd_gctx_create E ga S))"
proof -
  have w: "sealed R S (snd (init_context E a (write_entry E p e' finish) S))"
    if "rmp_get_addr_entry_state ga (0, se_entry0 E, SNP_PAGE_STATE_INVALID) (sn_x86 S) =
      (SEV_STATUS_SUCCESS, (p, e, st), sn_x86 S)" "st = SNP_PAGE_STATE_FIRMWARE"
      "sev_hal_map_guest_context (sn_x86 S) ga PAGE_SIZE_4K = (SEV_STATUS_SUCCESS, a)" for a p e e' st
  proof -
    have "rmp_slot (sn_x86 S) p" "rmp_entry_get_state (page_entry (sn_x86 S) p) \<noteq> SNP_PAGE_STATE_CONTEXT"
      using state_entry [OF that(1) assms(1)] that(2) by auto
    moreover have "sealed R S (put_context E a S1)" if "sn_x86 S1 = sn_x86 S" for S1
      using put_context_effect(1,2) [OF assms(1) \<open>sev_hal_map_guest_context _ _ _ = _\<close> that] by (simp add: sealed_def)
    ultimately show ?thesis
      by (auto simp: init_context_def Let_def intro!: seal_write_entry seal_finish assms)
  qed
  show ?thesis
    unfolding snp_mcmd_gctx_create_def
    by (intro seal_rules assms(1)) (simp_all add: w)
qed

lemma sealed_md_init:
  assumes "rmp_wf (sn_x86 S)" and "quiet E"
  shows "sealed R S (snd (snp_mcmd_md_init E ga pa S))"
proof -
  have z: "sealed R S (snd (zero_page a n (write_entry E p e' finish) S))"
    if "rmp_get_addr_entry_state pa (0, se_entry0 E, SNP_PAGE_STATE_INVALID) (sn_x86 S) =
      (SEV_STATUS_SUCCESS, (p, e, st), sn_x86 S)" "st = SNP_PAGE_STATE_FIRMWARE"
      "sev_hal_map_memory_ccp (sn_x86 S) pa n = (SEV_STATUS_SUCCESS, a)" for a n p e e' st
  proof -
    have "rmp_slot (sn_x86 S) p" "rmp_entry_get_state (page_entry (sn_x86 S) p) \<noteq> SNP_PAGE_STATE_CONTEXT"
      using state_entry [OF that(1) assms(1)] that(2) by auto
    moreover have "sealed R S (S\<lparr>sn_x86 := (sn_x86 S)\<lparr>xs_mem := write_bytes (xs_mem (sn_x86 S)) a (replicate (unat n) 0)\<rparr>\<rparr>)"
      by (rule sealed_entries) (simp_all add: same_machine_def zero_frame [OF that(3) assms(1)])
    ultimately show ?thesis
      by (auto simp: zero_page_def intro!: seal_write_entry seal_finish assms)
  qed
  show ?thesis
    unfolding snp_mcmd_md_init_def
    by (intro seal_rules assms(1)) (simp_all add: z)
qed

lemma sealed_page_reclaim:
  assumes "rmp_wf (sn_x86 S)" and "quiet E"
  shows "sealed R S (snd (snp_mcmd_page_reclaim E w S))"
proof -
  have "sealed R S (snd ((case reclaimed_entry st e of None \<Rightarrow> Pair SEV_STATUS_INVALID_PAGE_STATE
      | Some e' \<Rightarrow> write_entry E p e' finish) S))"
    if g: "rmp_get_addr_entry_state a (0, se_entry0 E, SNP_PAGE_STATE_INVALID) (sn_x86 S) =
      (SEV_STATUS_SUCCESS, (p, e, st), sn_x86 S)" for a p e st
  proof (cases "reclaimed_entry st e")
    case (Some e')
    then have "st \<noteq> SNP_PAGE_STATE_DEFAULT" "st \<noteq> SNP_PAGE_STATE_CONTEXT"
      by (auto simp: reclaimed_entry_def)
    with state_entry [OF g assms(1)] Some show ?thesis
      by (auto intro!: seal_write_entry seal_finish assms)
  qed simp
  then show ?thesis
    unfolding snp_mcmd_page_reclaim_def Let_def
    by (intro seal_rules assms(1)) simp_all
qed

lemma sealed_move_guest:
  assumes "rmp_wf (sn_x86 S)" and "quiet E" and "rmp_slot (sn_x86 S) sp" and "rmp_slot (sn_x86 S) dp"
    and "rmp_entry_get_state (page_entry (sn_x86 S) sp) \<noteq> SNP_PAGE_STATE_CONTEXT"
    and "rmp_entry_get_state (page_entry (sn_x86 S) dp) \<noteq> SNP_PAGE_STATE_CONTEXT"
  shows "sealed R S (snd (move_guest_page E pm a (sp, page_entry (sn_x86 S) sp, ss) (dp, page_entry (sn_x86 S) dp, ds) S))"
proof -
  have "sealed R S (snd (on_x86 (copy_to_x86_encrypted_from_x86_encrypted d s n asid)
      (write_entry E sp e1 (write_entry E dp e2 finish)) S))"
    if "rmp_asid e = ucast asid" for d s n asid e1 e2 e
  proof -
    have a: "unat (ucast asid :: u64) < 1024" using asid_bound [of e] that by simp
    show ?thesis
      by (rule seal_on_x86_frame)
        (use move_frame [OF _ _ a] assms in \<open>auto intro!: seal_write_entry seal_finish\<close>)
  qed
  then show ?thesis unfolding move_guest_page_def prod.case by (intro seal_require) auto
qed

lemma sealed_move_metadata:
  assumes "rmp_wf (sn_x86 S)" and "quiet E" and "rmp_slot (sn_x86 S) sp" and "rmp_slot (sn_x86 S) dp"
    and "rmp_entry_get_state (page_entry (sn_x86 S) sp) \<noteq> SNP_PAGE_STATE_CONTEXT"
    and "rmp_entry_get_state (page_entry (sn_x86 S) dp) \<noteq> SNP_PAGE_STATE_CONTEXT"
  shows "sealed R S (snd (move_metadata_page E pm (sp, se, ss) (dp, de, ds) S))"
proof -
  have w: "sealed R S (snd (write_entry E sp e1 (write_entry E dp e2 finish) S'))" if "sealed R S S'" for e1 e2 S'
    using that assms by (auto intro!: seal_write_entry seal_finish)
  have "sealed R S (snd (on_x86 (copy_to_x86_from_x86 d s n) (write_entry E sp e1 (write_entry E dp e2 finish)) S))"
    for d s n e1 e2
    by (rule seal_on_x86_frame) (use plain_move_frame assms(1) w in auto)
  with w [OF sealed_refl] show ?thesis unfolding move_metadata_page_def prod.case by (intro seal_require) auto
qed

lemma sealed_page_move:
  assumes "rmp_wf (sn_x86 S)" and "quiet E"
  shows "sealed R S (snd (snp_mcmd_page_move E pm S))"
proof -
  note g = state_entry [OF _ assms(1)]
  have m: "sealed R S (snd (move_guest_page E pm a (sp, se, ss) (dp, de, ds) S))"
    "ss \<noteq> SNP_PAGE_STATE_CONTEXT \<Longrightarrow> sealed R S (snd (move_metadata_page E pm (sp, se, ss) (dp, de, ds) S))"
    if s: "rmp_get_addr_entry_state (pm_src pm) (0, se_entry0 E, SNP_PAGE_STATE_INVALID) (sn_x86 S) =
        (SEV_STATUS_SUCCESS, (sp, se, ss), sn_x86 S)" "ss \<noteq> SNP_PAGE_STATE_DEFAULT" "ss \<noteq> SNP_PAGE_STATE_CONTEXT"
      and d: "rmp_get_addr_entry_state (pm_dst pm) (0, se_entry0 E, SNP_PAGE_STATE_INVALID) (sn_x86 S) =
        (SEV_STATUS_SUCCESS, (dp, de, ds), sn_x86 S)" "ds \<noteq> SNP_PAGE_STATE_DEFAULT" "ds \<noteq> SNP_PAGE_STATE_CONTEXT"
    for a sp se ss dp de ds
    using g [OF s(1,2)] g [OF d(1,2)] s(3) d(3) sealed_move_guest [OF assms, of sp dp] sealed_move_metadata [OF assms, of sp dp]
    by simp_all
  show ?thesis
    unfolding snp_mcmd_page_move_def by (intro seal_rules assms(1)) (auto intro: m)
qed

lemma same_machine_skip:
  assumes "same_machine (X :: x86) Y"
  shows "same_machine (skip_rmp_addr_check False X) (skip_rmp_addr_check False Y)"
proof -
  obtain m where "Y = X\<lparr>xs_mem := m\<rparr>" using assms by (metis same_machine_def)
  then show ?thesis by (simp add: same_machine_def skip_rmp_addr_check_def)
qed

lemma sealed_page_unsmash:
  assumes "rmp_wf (sn_x86 S)" and "env_ok E"
  shows "sealed R S (snd (snp_mcmd_page_unsmash E a S))"
proof -
  let ?X = "sn_x86 S" and ?X1 = "skip_rmp_addr_check True (sn_x86 S)"
  obtain st Y where u: "(if a AND SNP_ADDR_PAGE_RECLAIM_RESERVED_MASK \<noteq> 0 then (SEV_STATUS_INVALID_PARAM, ?X)
     else if \<not> se_al2m E a then (SEV_STATUS_INVALID_PARAM, ?X)
     else if \<not> snp_initialized S then (SEV_STATUS_INVALID_PLATFORM_STATE, ?X)
     else case get_rmp_paddr ?X a 0 of
       (status, rp) \<Rightarrow> if status \<noteq> SEV_STATUS_SUCCESS then (status, ?X)
         else if ranges_overlap a (a + (PAGE_SIZE_2M - 1)) (xs_rmp_base ?X) (xs_rmp_end ?X) then (SEV_STATUS_INVALID_ADDRESS, ?X)
         else unsmash_entries E rp ?X1) = (st, Y)" (is "?c = _") by fastforce
  have r: "snd (snp_mcmd_page_unsmash E a S) = S\<lparr>sn_x86 := skip_rmp_addr_check False Y\<rparr>"
    by (simp add: snp_mcmd_page_unsmash_def Let_def u)
  have k: "skip_rmp_addr_check False ?X = ?X" "skip_rmp_addr_check False ?X1 = ?X"
    using rmp_wf_skip [OF assms(1)] by (simp_all add: skip_rmp_addr_check_def)
  consider "Y = ?X" | rp where "get_rmp_paddr ?X a 0 = (SEV_STATUS_SUCCESS, rp)" "2 ^ 21 dvd unat a"
      "unsmash_entries E rp ?X1 = (st, Y)"
    using u assms(2) by (auto simp: env_ok_def split: if_split_asm prod.split_asm)
  then show ?thesis
  proof cases
    case 1
    then show ?thesis by (simp add: r k)
  next
    case 2
    have al: "8192 dvd unat rp" by (rule aligned_entry_block [OF 2(1) _ 2(2)]) (use assms(1) in \<open>simp add: rmp_wf_def\<close>)
    have m: "v = rp" if "sev_hal_map_memory_ccp ?X1 rp 8192 = (SEV_STATUS_SUCCESS, v)" for v
      using map_ccp_address [OF that] mapped_low [OF assms(1) slot_low [OF assms(1) entry_slot [OF 2(1) assms(1)]]]
      by (simp add: skip_true_same)
    have "Y = ?X1 \<or> (unsmash_check E ?X1 [0..<512] rp rp None = SEV_STATUS_SUCCESS \<and> unsmash_merge [0..<512] rp rp ?X1 = (st, Y))"
      using 2(3) by (auto simp: unsmash_entries_def Let_def simp del: upt_rec_numeral unsmash_check.simps unsmash_merge.simps
        dest!: m split: if_split_asm prod.split_asm)
    then show ?thesis
    proof
      assume "Y = ?X1" then show ?thesis by (simp add: r k)
    next
      assume c: "unsmash_check E ?X1 [0..<512] rp rp None = SEV_STATUS_SUCCESS \<and> unsmash_merge [0..<512] rp rp ?X1 = (st, Y)"
      have ne: "rmp_asid (page_entry ?X (rp + 16 * of_nat j)) \<noteq> 0" if "j < 512" for j
        using check_loop [of E ?X1 0 rp rp None j] c al that by (auto simp: mergeable_def skip_true_same)
      from merge_loop [of 0 rp ?X1 st Y] c al
      have f: "\<forall>q. 16 dvd unat q \<longrightarrow> (\<forall>j. 0 \<le> j \<longrightarrow> j < 512 \<longrightarrow> q \<noteq> rp + 16 * of_nat j) \<longrightarrow> page_entry Y q = page_entry ?X1 q"
        and sm: "same_machine ?X1 Y" by auto
      have "same_machine ?X (skip_rmp_addr_check False Y)"
        using same_machine_skip [OF sm] k(2) by simp
      moreover have "page_entry (skip_rmp_addr_check False Y) q = page_entry ?X q"
        if "rmp_slot ?X q" "rmp_entry_get_state (page_entry ?X q) = SNP_PAGE_STATE_CONTEXT" for q
      proof -
        have "q \<noteq> rp + 16 * of_nat j" if "j < 512" for j
          using ne [OF that] \<open>rmp_entry_get_state _ = _\<close> by (auto simp: page_states)
        then have "page_entry Y q = page_entry ?X1 q" using f that(1) by (simp add: rmp_slot_def)
        then show ?thesis by (simp add: skip_true_same) (simp add: skip_rmp_addr_check_def page_entry_def)
      qed
      ultimately show ?thesis by (simp add: r sealed_def)
    qed
  qed
qed

text \<open>The slots that a command may take from the CONTEXT pages.\<close>

fun decommissions :: "x86 \<Rightarrow> snp_cmd \<Rightarrow> u64 \<Rightarrow> bool" where
  "decommissions X (Decommission ga) p = (get_rmp_paddr X ga 0 = (SEV_STATUS_SUCCESS, p))"
| "decommissions X _ p = False"

lemma command_seals:
  assumes "rmp_wf (sn_x86 S)" and "env_ok E"
  shows "sealed {p. decommissions (sn_x86 S) c p} S (snd (snp_exec E c S))"
proof -
  have q: "quiet E" using assms(2) by (simp add: env_ok_def)
  show ?thesis
    by (cases c) (simp_all add: sealed_gctx_create sealed_activate sealed_activate_ex sealed_guest_status
        sealed_decommission sealed_page_move sealed_md_init sealed_page_reclaim sealed_page_unsmash assms q)
qed

fun snp_run :: "(snp_env \<times> snp_cmd) list \<Rightarrow> snp_sys \<Rightarrow> snp_sys" where
  "snp_run [] S = S"
| "snp_run ((E, c) # cs) S = snp_run cs (snd (snp_exec E c S))"

lemma run_seals:
  "rmp_wf (sn_x86 S) \<Longrightarrow> rmp_slot (sn_x86 S) p \<Longrightarrow>
   rmp_entry_get_state (page_entry (sn_x86 S) p) = SNP_PAGE_STATE_CONTEXT \<Longrightarrow>
   \<forall>(E, c) \<in> set cs. env_ok E \<and> \<not> decommissions (sn_x86 S) c p \<Longrightarrow>
   page_entry (sn_x86 (snp_run cs S)) p = page_entry (sn_x86 S) p"
proof (induction cs arbitrary: S)
  case (Cons Ec cs)
  obtain E c where Ec: "Ec = (E, c)" by fastforce
  let ?S1 = "snd (snp_exec E c S)"
  have c: "env_ok E" "\<not> decommissions (sn_x86 S) c p" using Cons.prems(4) by (simp_all add: Ec)
  note s = command_seals [OF Cons.prems(1) c(1), of c]
  have sm: "same_machine (sn_x86 S) (sn_x86 ?S1)" using s by (simp add: sealed_def)
  have d: "decommissions (sn_x86 ?S1) b p = decommissions (sn_x86 S) b p" for b
    by (cases b) (simp_all add: same_machine_wf(3) [OF sm])
  have pe: "page_entry (sn_x86 ?S1) p = page_entry (sn_x86 S) p"
    using s c(2) Cons.prems(2,3) by (simp add: sealed_def)
  from Cons.IH [of ?S1] Cons.prems same_machine_wf(1,2) [OF sm] pe d show ?case by (simp add: Ec)
qed simp

text \<open>
  C2: For the nine commands of \<open>snp_cmd\<close> - GCTX_CREATE, ACTIVATE, ACTIVATE_EX, GUEST_STATUS,
  DECOMMISSION, PAGE_MOVE, MD_INIT, PAGE_RECLAIM and PAGE_UNSMASH - in any sequence, successful or
  not: the RMP entry of a guest's context page stays as it is as long as DECOMMISSION is not called
  for this page. Among them nothing reclaims, moves, merges or overwrites it on the way. The claim is
  about the handlers of these commands, with no writes of the cores to memory during a command;
  PAGE_SET_STATE, the launch, swap and guest request commands, and what the dispatcher does with the
  page of the command buffer, are outside of it.
\<close>

theorem context_page_is_sealed:
  assumes "rmp_wf (sn_x86 S)" and "rmp_slot (sn_x86 S) p"
    and "rmp_entry_get_state (page_entry (sn_x86 S) p) = SNP_PAGE_STATE_CONTEXT"
    and "\<forall>(E, c) \<in> set cs. env_ok E \<and> \<not> decommissions (sn_x86 S) c p"
  shows "page_entry (sn_x86 (snp_run cs S)) p = page_entry (sn_x86 S) p"
  by (rule run_seals [OF assms])

end
