(* ===== verification/Sev_SnpWitnesses.thy ===== *)
theory Sev_SnpWitnesses
  imports Sev_SnpSealed Sev_AsidProperties
begin

text \<open>
  The page commands on a machine with four pages: at 0x1000 the context of a launched guest with
  ASID 1, at 0x2000 and 0x3000 pages of it in the PRE_GUEST state, at 0x4000 a FIRMWARE page; and
  on 512 pages at 0x200000 that can be merged.
\<close>

section \<open>The machine\<close>

definition demo_pages :: bytes_mem where
  "demo_pages = (\<lambda>_. 0)(0x20004010 := 5, 0x20004017 := 0x20, 0x20004020 := 5, 0x20004021 := 0x70, 0x20004026 := 8,
     0x20004030 := 5, 0x20004036 := 8, 0x20004040 := 5)"

definition demo_snp_env :: snp_env where
  "demo_snp_env = \<lparr>se_al8k = (\<lambda>_. False), se_al2m = (\<lambda>v. 2 ^ 21 dvd unat v), se_uc = id,
     se_entry0 = \<lparr>q1 = 0, q2 = 0\<rparr>, se_act = demo_act_env, se_pool_map = SEV_STATUS_SUCCESS,
     se_trng = (SEV_STATUS_SUCCESS, replicate 32 9), se_committed_tcb = 0, se_build_id = 0, se_api_minor = 55,
     se_api_major = 1, se_image = (\<lambda>g x. g_umc_key_seed g @ [gx_current_api_major x])\<rparr>"

definition demo_snp :: "x86 \<Rightarrow> sev_guest \<Rightarrow> snp_sys" where
  "demo_snp X g = \<lparr>sn_plat = demo_plat\<lparr>p_snp_state := SNP_STATE_INIT, p_guests := (\<lambda>_. guest_zero)(SnpGuest 0x1000 := g)\<rparr>,
     sn_x86 = X, sn_ctx = (\<lambda>_. gctx_zero)\<rparr>"

definition demo_snp_guest :: sev_guest where
  "demo_snp_guest = guest_zero\<lparr>g_asid := 1, g_guest_flags := 1, g_snp_state := SNP_GUEST_STATE_RUNNING, g_type := SEV_GUEST_TYPE_SNP\<rparr>"

lemma demo_snp_fields [simp]:
  "sn_x86 (demo_snp X g) = X" "snp_initialized (demo_snp X g)" "context_guest (demo_snp X g) 0x1000 = g"
  "(demo_snp X g)\<lparr>sn_x86 := Y\<rparr> = demo_snp Y g"
  by (simp_all add: demo_snp_def snp_initialized_def context_guest_def)

lemma demo_env_quiet: "quiet demo_snp_env" "\<forall>v. se_al2m demo_snp_env v = (2 ^ 21 dvd unat v)"
  by (simp_all add: quiet_def demo_snp_env_def)

lemma demo_wf: "rmp_wf (demo_rmp m 0)"
  by (simp add: rmp_wf_def demo_rmp_def demo_x86_def)

lemma demo_entries:
  "page_entry (demo_rmp demo_pages k) 0x20004010 = \<lparr>q1 = 0x2000000000000005, q2 = 0\<rparr>"
  "page_entry (demo_rmp demo_pages k) 0x20004020 = \<lparr>q1 = 0x0008000000007005, q2 = 0\<rparr>"
  "page_entry (demo_rmp demo_pages k) 0x20004030 = \<lparr>q1 = 0x0008000000000005, q2 = 0\<rparr>"
  "page_entry (demo_rmp demo_pages k) 0x20004040 = \<lparr>q1 = 5, q2 = 0\<rparr>"
  by (simp_all add: page_entry_def entry_of_bytes_def read_bytes_def upt_rec demo_pages_def)

lemma demo_states:
  "rmp_entry_get_state \<lparr>q1 = 0x2000000000000005, q2 = 0\<rparr> = SNP_PAGE_STATE_CONTEXT"
  "rmp_entry_get_state \<lparr>q1 = 0x0008000000007005, q2 = 0\<rparr> = SNP_PAGE_STATE_PRE_GUEST"
  "rmp_entry_get_state \<lparr>q1 = 0x0008000000000005, q2 = 0\<rparr> = SNP_PAGE_STATE_PRE_GUEST"
  "rmp_entry_get_state \<lparr>q1 = 5, q2 = 0\<rparr> = SNP_PAGE_STATE_FIRMWARE"
  by (simp_all add: rmp_entry_get_state_def entry_fields get_field_def drop_bit_eq_div)

lemma demo_slots:
  "get_rmp_paddr (demo_rmp m k) 0x1000 v = (SEV_STATUS_SUCCESS, 0x20004010)"
  "get_rmp_paddr (demo_rmp m k) 0x2000 v = (SEV_STATUS_SUCCESS, 0x20004020)"
  "get_rmp_paddr (demo_rmp m k) 0x3000 v = (SEV_STATUS_SUCCESS, 0x20004030)"
  "get_rmp_paddr (demo_rmp m k) 0x4000 v = (SEV_STATUS_SUCCESS, 0x20004040)"
  by (simp_all add: get_rmp_paddr_def local_get_rmp_paddr_def Let_def demo_consts)

lemmas demo_range = validate_address_range_def demo_rmp_def demo_x86_def SEV_CBIT_MASK_def SEV_CBIT_SHIFT_def
  Let_def asid_bits_set_def SEV_ASID_ADDR_MASK_def X86_MAX_PHYS_ADDR_def X86_HYPER_TRANSPORT_AREA_def
  range_overlaps_aseg_def ranges_overlap_def CLEAR_CBIT_def rb_ranges_def demo_rb_off_def
  TMR_NR_MAX_def SNP_RMP_CPU_TMR_def SNP_RMP_IOMMU_TMR_def upt_rec validate_memory_map_def

lemma demo_entry_ranges:
  "n = 8 \<or> n = 16 \<Longrightarrow> validate_address_range (demo_rmp m 1) 0x20004010 n = SEV_STATUS_SUCCESS"
  "n = 8 \<or> n = 16 \<Longrightarrow> validate_address_range (demo_rmp m 1) 0x20004020 n = SEV_STATUS_SUCCESS"
  "n = 8 \<or> n = 16 \<Longrightarrow> validate_address_range (demo_rmp m 1) 0x20004030 n = SEV_STATUS_SUCCESS"
  "n = 8 \<or> n = 16 \<Longrightarrow> validate_address_range (demo_rmp m 1) 0x20004040 n = SEV_STATUS_SUCCESS"
  "validate_address_range (demo_rmp m 1) 0x20004018 8 = SEV_STATUS_SUCCESS"
  "validate_address_range (demo_rmp m 1) 0x20004028 8 = SEV_STATUS_SUCCESS"
  "validate_address_range (demo_rmp m 1) 0x20004038 8 = SEV_STATUS_SUCCESS"
  "validate_address_range (demo_rmp m 1) 0x20004048 8 = SEV_STATUS_SUCCESS"
  by (auto simp add: demo_range)

lemma demo_page_ranges:
  "validate_address_range (demo_rmp m 0) 0x1000 4096 = SEV_STATUS_SUCCESS"
  "validate_address_range (demo_rmp m 0) 0x2000 4096 = SEV_STATUS_SUCCESS"
  "validate_address_range (demo_rmp m 0) 0x3000 4096 = SEV_STATUS_SUCCESS"
  "validate_address_range (demo_rmp m 0) 0x4000 4096 = SEV_STATUS_SUCCESS"
  by (simp_all add: demo_range)

lemmas demo_copy = copy_to_x86_def copy_from_x86_def x86_copy_def window_check_def X86_64MB_MASK_def
  X86_64MB_SIZE_def demo_consts copy_out_def copy_in_def Let_def

lemma demo_entry_copies:
  "p \<in> {0x20004010, 0x20004020, 0x20004030, 0x20004040} \<Longrightarrow> length bs = 8 \<Longrightarrow>
     copy_to_x86 p bs (demo_rmp m 1) = (SEV_STATUS_SUCCESS, demo_rmp (write_bytes m p bs) 1)"
  "p \<in> {0x20004010, 0x20004020, 0x20004030, 0x20004040} \<Longrightarrow> length bs = 8 \<Longrightarrow>
     copy_to_x86 (p + 8) bs (demo_rmp m 1) = (SEV_STATUS_SUCCESS, demo_rmp (write_bytes m (p + 8) bs) 1)"
  "p \<in> {0x20004010, 0x20004020, 0x20004030, 0x20004040} \<Longrightarrow>
     copy_from_x86 p bs' 16 (demo_rmp m 1) = (SEV_STATUS_SUCCESS, read_bytes m p 16)"
  by (auto simp: demo_copy demo_entry_ranges)

lemma demo_write:
  assumes "p \<in> {0x20004010, 0x20004020, 0x20004030, 0x20004040}"
  shows "rmp_entry_write (se_al8k demo_snp_env) (se_uc demo_snp_env) p e (demo_rmp m 0) = (SEV_STATUS_SUCCESS, e,
    demo_rmp (write_bytes (write_bytes m (p + 8) (bytes_of (q2 e))) p (bytes_of (q1 e))) 0)"
  by (simp add: rmp_entry_write_def demo_snp_env_def Let_def demo_entry_copies [OF assms] RMP_ENTRY_SIZE_def)

lemma demo_get:
  assumes "get_rmp_paddr (demo_rmp m 0) a 0 = (SEV_STATUS_SUCCESS, p)"
    and "p \<in> {0x20004010, 0x20004020, 0x20004030, 0x20004040}"
  shows "rmp_get_addr_entry_state a (0, e0, s0) (demo_rmp m 0) = (SEV_STATUS_SUCCESS,
    (p, page_entry (demo_rmp m 0) p, rmp_entry_get_state (page_entry (demo_rmp m 0) p)), demo_rmp m 0)"
  unfolding rmp_get_addr_entry_state_def prod.case assms(1)
  by (simp add: rmp_entry_read_def Let_def RMP_ENTRY_SIZE_def demo_entry_copies [OF assms(2)] page_entry_def)

lemma demo_gets:
  "rmp_get_addr_entry_state 0x1000 (0, e0, s0) (demo_rmp demo_pages 0) =
    (SEV_STATUS_SUCCESS, (0x20004010, \<lparr>q1 = 0x2000000000000005, q2 = 0\<rparr>, SNP_PAGE_STATE_CONTEXT), demo_rmp demo_pages 0)"
  "rmp_get_addr_entry_state 0x2000 (0, e0, s0) (demo_rmp demo_pages 0) =
    (SEV_STATUS_SUCCESS, (0x20004020, \<lparr>q1 = 0x0008000000007005, q2 = 0\<rparr>, SNP_PAGE_STATE_PRE_GUEST), demo_rmp demo_pages 0)"
  "rmp_get_addr_entry_state 0x3000 (0, e0, s0) (demo_rmp demo_pages 0) =
    (SEV_STATUS_SUCCESS, (0x20004030, \<lparr>q1 = 0x0008000000000005, q2 = 0\<rparr>, SNP_PAGE_STATE_PRE_GUEST), demo_rmp demo_pages 0)"
  "rmp_get_addr_entry_state 0x4000 (0, e0, s0) (demo_rmp demo_pages 0) =
    (SEV_STATUS_SUCCESS, (0x20004040, \<lparr>q1 = 5, q2 = 0\<rparr>, SNP_PAGE_STATE_FIRMWARE), demo_rmp demo_pages 0)"
  using demo_slots [of demo_pages 0 0] by (simp_all add: demo_get demo_entries demo_states)

lemma demo_context_map:
  "sev_hal_map_guest_context (demo_rmp m 0) 0x1000 PAGE_SIZE_4K = (SEV_STATUS_SUCCESS, 0x1000)"
  "sev_hal_map_guest_context (demo_rmp m 0) 0x4000 PAGE_SIZE_4K = (SEV_STATUS_SUCCESS, 0x4000)"
  by (simp_all add: sev_hal_map_guest_context_def PAGE_SIZE_4K_def demo_page_ranges convert_x86_address_def set_asid_def
      Let_def) (simp_all add: demo_rmp_def demo_x86_def SEV_ASID_ADDR_MASK_def SEV_CBIT_MASK_def SEV_CBIT_SHIFT_def)

lemmas demo_calc = entry_fields get_field_def drop_bit_eq_div DRAM_PAGE_SIZE_4K_def

section \<open>Witnesses\<close>

theorem page_reclaim_transitions_witness:
  "\<exists>S'. snp_mcmd_page_reclaim demo_snp_env 0x4000 (demo_snp (demo_rmp demo_pages 0) demo_snp_guest) = (SEV_STATUS_SUCCESS, S') \<and>
     rmp_entry_get_state (page_entry (sn_x86 S') 0x20004040) = SNP_PAGE_STATE_RECLAIM"
proof -
  let ?S = "demo_snp (demo_rmp demo_pages 0) demo_snp_guest"
  have a: "SNP_PAGE_ADDR 0x4000 = 0x4000" "SNP_PAGE_SIZE 0x4000 = 0"
    by (simp_all add: SNP_PAGE_ADDR_def SNP_PAGE_SIZE_def PAGE_SIZE_4K_def)
  have "fst (snp_mcmd_page_reclaim demo_snp_env 0x4000 ?S) = SEV_STATUS_SUCCESS"
    by (simp add: snp_mcmd_page_reclaim_def Let_def a SNP_ADDR_PAGE_RECLAIM_RESERVED_MASK_def DRAM_PAGE_SIZE_4K_def
        require_def on_x86_def PAGE_SIZE_4K_def demo_page_ranges get_page_def demo_gets finish_def
        DRAM_PAGE_SIZE_2M_def demo_calc reclaimed_entry_def write_entry_def demo_write)
  then obtain S' where r: "snp_mcmd_page_reclaim demo_snp_env 0x4000 ?S = (SEV_STATUS_SUCCESS, S')" by (metis prod.collapse)
  from page_reclaim_transitions [OF r demo_env_quiet(1) _ _ refl refl, where p = "0x20004040"] r show ?thesis
    by (simp add: demo_wf a demo_slots demo_entries demo_states demo_calc)
qed

theorem reclaim_of_uncovered_page_is_undefined_witness:
  "fst (snp_mcmd_page_reclaim demo_snp_env 0x1F000000 (demo_snp (demo_rmp demo_pages 0) demo_snp_guest)) = SEV_STATUS_SUCCESS \<and>
   fst (snp_mcmd_page_reclaim (demo_snp_env\<lparr>se_entry0 := \<lparr>q1 = 5, q2 = 0\<rparr>\<rparr>) 0x1F000000
     (demo_snp (demo_rmp demo_pages 0) demo_snp_guest)) = SEV_STATUS_INVALID_PAGE_STATE"
proof -
  let ?S = "demo_snp (demo_rmp demo_pages 0) demo_snp_guest"
  have a: "SNP_PAGE_ADDR 0x1F000000 = 0x1F000000" "SNP_PAGE_SIZE 0x1F000000 = DRAM_PAGE_SIZE_4K"
    "(0x1F000000 :: u64) AND SNP_ADDR_PAGE_RECLAIM_RESERVED_MASK = 0"
    by (simp_all add: SNP_PAGE_ADDR_def SNP_PAGE_SIZE_def PAGE_SIZE_4K_def DRAM_PAGE_SIZE_4K_def SNP_ADDR_PAGE_RECLAIM_RESERVED_MASK_def)
  have v: "validate_address_range (demo_rmp demo_pages 0) 0x1F000000 4096 = SEV_STATUS_SUCCESS" by (simp add: demo_range)
  have g: "fst (get_rmp_paddr (demo_rmp demo_pages 0) 0x1F000000 0) = SEV_STATUS_INVALID_PAGE_STATE"
    by (simp add: get_rmp_paddr_def local_get_rmp_paddr_def Let_def demo_consts)
  have "fst (snp_mcmd_page_reclaim E 0x1F000000 ?S) =
      (if rmp_page_size (se_entry0 E) \<noteq> DRAM_PAGE_SIZE_4K then SEV_STATUS_INVALID_PAGE_SIZE
       else if rmp_immutable (se_entry0 E) = 0 then SEV_STATUS_SUCCESS else SEV_STATUS_INVALID_PAGE_STATE)" for E
    by (rule reclaim_of_uncovered_page_is_undefined) (simp_all add: a v g demo_wf PAGE_SIZE_4K_def)
  then show ?thesis by (simp add: demo_snp_env_def demo_calc)
qed

theorem page_move_keeps_owner_witness:
  "\<exists>S'. snp_mcmd_page_move demo_snp_env \<lparr>pm_gctx = 0x1000, pm_size = 0, pm_reserved = 0, pm_reserved2 = 0, pm_src = 0x2000, pm_dst = 0x3000\<rparr>
       (demo_snp (demo_rmp demo_pages 0) demo_snp_guest) = (SEV_STATUS_SUCCESS, S') \<and>
     rmp_gpa (page_entry (sn_x86 S') 0x20004030) = 7 \<and>
     rmp_entry_get_state (page_entry (sn_x86 S') 0x20004030) = SNP_PAGE_STATE_GUEST_INVALID"
proof -
  let ?S = "demo_snp (demo_rmp demo_pages 0) demo_snp_guest"
  let ?pm = "\<lparr>pm_gctx = 0x1000, pm_size = 0, pm_reserved = 0, pm_reserved2 = 0, pm_src = 0x2000, pm_dst = 0x3000\<rparr>"
  have l: "launched 0x1000 ?S" by (simp add: launched_def demo_snp_guest_def)
  have c: "fst (copy_to_x86_encrypted_from_x86_encrypted 0x3000 0x2000 4096 1 (demo_rmp demo_pages 0)) = SEV_STATUS_SUCCESS"
    by (simp add: copy_to_x86_encrypted_from_x86_encrypted_def x86_copy_def window_check_def X86_64MB_MASK_def
        X86_64MB_SIZE_def demo_page_ranges move_within_def Let_def split: prod.split)
  then obtain m1 where c1: "copy_to_x86_encrypted_from_x86_encrypted 0x3000 0x2000 4096 1 (demo_rmp demo_pages 0) =
      (SEV_STATUS_SUCCESS, demo_rmp m1 0)"
  proof -
    obtain X1 where x: "copy_to_x86_encrypted_from_x86_encrypted 0x3000 0x2000 4096 1 (demo_rmp demo_pages 0) = (SEV_STATUS_SUCCESS, X1)"
      using c by (metis prod.collapse)
    have "same_machine (demo_rmp demo_pages 0) X1" using move_frame(1) [OF x demo_wf] by simp
    with x that show ?thesis unfolding same_machine_def by (metis demo_rmp_fields(6))
  qed
  have "fst (snp_mcmd_page_move demo_snp_env ?pm ?S) = SEV_STATUS_SUCCESS"
    by (simp add: snp_mcmd_page_move_def require_def SNP_ADDR_RESERVED_MASK_def PAGE_SIZE_4K_def get_page_def demo_gets
        map_context_def demo_context_map [unfolded PAGE_SIZE_4K_def] l demo_calc move_guest_page_def on_x86_def page_bytes_def)
      (simp add: demo_snp_guest_def guest_is_inactive_def guest_has_asid_def guest_flag_defs c1 write_entry_def demo_write finish_def)
  then obtain S' where r: "snp_mcmd_page_move demo_snp_env ?pm ?S = (SEV_STATUS_SUCCESS, S')" by (metis prod.collapse)
  from page_move_keeps_owner [OF r demo_env_quiet(1) _ _ _ _ _ refl refl refl _ _ refl, where cp = "0x20004010" and sp = "0x20004020" and dp = "0x20004030" and a = "0x1000"] r
  show ?thesis
    by (simp add: demo_wf demo_slots demo_entries demo_states demo_context_map) (simp add: demo_calc)
qed

theorem gctx_create_makes_a_context_page_witness:
  "\<exists>S'. snp_mcmd_gctx_create demo_snp_env 0x4000 (demo_snp (demo_rmp demo_pages 0) demo_snp_guest) = (SEV_STATUS_SUCCESS, S') \<and>
     rmp_entry_get_state (page_entry (sn_x86 S') 0x20004040) = SNP_PAGE_STATE_CONTEXT \<and>
     g_umc_key_seed (context_guest S' 0x4000) = replicate 32 9 \<and>
     read_bytes (xs_mem (sn_x86 S')) 0x4000 4096 =
       context_octets demo_snp_env (context_guest S' 0x4000) (sn_ctx S' 0x4000)"
proof -
  let ?S = "demo_snp (demo_rmp demo_pages 0) demo_snp_guest"
  have v: "validate_memory_map (xs_mem_map (demo_rmp demo_pages 0)) 0x4000 0x4FFF = SEV_STATUS_SUCCESS"
    by (simp add: demo_rmp_def demo_x86_def validate_memory_map_def demo_consts)
  have s: "set_asid (demo_rmp demo_pages 0) COPY_PLAINTEXT_IN 0x4000 0 = 0x4000"
    using map_context_address [OF demo_context_map(2)] by simp
  have t: "se_trng demo_snp_env = (SEV_STATUS_SUCCESS, replicate 32 9)" by (simp add: demo_snp_env_def)
  have x: "(demo_rmp m k)\<lparr>xs_mem := m'\<rparr> = demo_rmp m' k" for m m' k by (simp add: demo_rmp_def)
  have "fst (snp_mcmd_gctx_create demo_snp_env 0x4000 ?S) = SEV_STATUS_SUCCESS"
    by (simp add: snp_mcmd_gctx_create_def require_def SNP_ADDR_RESERVED_MASK_def PAGE_SIZE_4K_def get_page_def demo_gets
        map_context_def demo_context_map [unfolded PAGE_SIZE_4K_def] demo_calc v init_context_def t Let_def put_context_def x
        write_entry_def demo_write finish_def)
  then obtain S' where r: "snp_mcmd_gctx_create demo_snp_env 0x4000 ?S = (SEV_STATUS_SUCCESS, S')" by (metis prod.collapse)
  from gctx_create_makes_a_context_page [OF r demo_env_quiet(1) _ _ refl refl, where p = "0x20004040"] r show ?thesis
    by (simp add: demo_wf demo_slots s t PAGE_SIZE_4K_def)
qed


theorem md_init_binds_page_to_guest_witness:
  "\<exists>S'. snp_mcmd_md_init demo_snp_env 0x1000 0x4000 (demo_snp (demo_rmp demo_pages 0) demo_snp_guest) = (SEV_STATUS_SUCCESS, S') \<and>
     rmp_entry_get_state (page_entry (sn_x86 S') 0x20004040) = SNP_PAGE_STATE_METADATA \<and>
     RMP_GET_GPA (rmp_gpa (page_entry (sn_x86 S') 0x20004040)) = 1"
proof -
  let ?S = "demo_snp (demo_rmp demo_pages 0) demo_snp_guest"
  have l: "launched 0x1000 ?S" by (simp add: launched_def demo_snp_guest_def)
  have g: "PADDR_GET_GPA 0x1000 = 1"
    by (simp add: PADDR_GET_GPA_def RMP_ENTRY_GPA_SHIFT_def SEV_CBIT_MASK_def SEV_CBIT_SHIFT_def drop_bit_eq_div)
  have mp: "fst (sev_hal_map_memory_ccp (demo_rmp demo_pages 0) 0x4000 4096) = SEV_STATUS_SUCCESS"
    by (simp add: sev_hal_map_memory_ccp_def demo_page_ranges Let_def split: prod.split)
  then obtain a where mp1: "sev_hal_map_memory_ccp (demo_rmp demo_pages 0) 0x4000 4096 = (SEV_STATUS_SUCCESS, a)" by (metis prod.collapse)
  have "fst (snp_mcmd_md_init demo_snp_env 0x1000 0x4000 ?S) = SEV_STATUS_SUCCESS"
    by (simp add: snp_mcmd_md_init_def require_def SNP_ADDR_RESERVED_MASK_def PAGE_SIZE_4K_def get_page_def demo_gets
        map_context_def demo_context_map [unfolded PAGE_SIZE_4K_def] l demo_calc page_bytes_def map_memory_def mp1
        zero_page_def write_entry_def demo_write finish_def)
  then obtain S' where r: "snp_mcmd_md_init demo_snp_env 0x1000 0x4000 ?S = (SEV_STATUS_SUCCESS, S')" by (metis prod.collapse)
  from md_init_binds_page_to_guest [OF r demo_env_quiet(1) _ _ _ _ refl refl, where p = "0x20004040" and cp = "0x20004010"] r show ?thesis
    by (simp add: demo_wf demo_slots g)
qed

section \<open>A block of entries\<close>

definition demo_block_entry :: "nat \<Rightarrow> rmp_entry" where
  "demo_block_entry i = set_gpa (512 + of_nat i) \<lparr>q1 = 0x0008000000000005, q2 = 0\<rparr>"

definition demo_block :: "u64 \<Rightarrow> bytes_mem" where
  "demo_block rp = (\<lambda>x. if unat (x - rp) < 8192 then entry_bytes (demo_block_entry (unat (x - rp) div 16)) ! (unat (x - rp) mod 16) else 0)"

lemma demo_block_entries:
  assumes "i < 512"
  shows "page_entry (demo_rmp (demo_block rp) k) (rp + 16 * of_nat i) = demo_block_entry i"
proof -
  have "demo_block rp x = entry_bytes (demo_block_entry i) ! unat (x - (rp + 16 * of_nat i))"
    if x: "unat (x - (rp + 16 * of_nat i)) < 16" for x
  proof -
    let ?d = "x - (rp + 16 * of_nat i)"
    have u: "unat (16 * of_nat i :: u64) = 16 * i" using assms by (simp add: unat_word_ariths unat_of_nat)
    have "x - rp = 16 * of_nat i + ?d" by simp
    then have "unat (x - rp) = 16 * i + unat ?d"
      using unat_add_no_wrap [of "16 * of_nat i" ?d] u x assms by simp
    then show ?thesis using x assms by (simp add: demo_block_def)
  qed
  then have "entry_of_bytes (read_bytes (demo_block rp) (rp + 16 * of_nat i) 16) = demo_block_entry i"
    by (rule read_entry)
  then show ?thesis by (simp add: page_entry_def)
qed

lemma demo_block_fields:
  assumes "i < 512"
  shows "rmp_page_size (demo_block_entry i) = 0" "rmp_immutable (demo_block_entry i) = 1" "rmp_vmsa (demo_block_entry i) = 0"
    "rmp_asid (demo_block_entry i) = 1" "rmp_gpa (demo_block_entry i) = 512 + of_nat i" "q2 (demo_block_entry i) = 0"
    "rmp_entry_get_state (demo_block_entry i) = SNP_PAGE_STATE_PRE_GUEST"
proof -
  have "unat (512 + of_nat i :: u64) = 512 + i" using assms by (simp add: unat_word_ariths unat_of_nat)
  then have "take_bit 39 (512 + of_nat i :: u64) = 512 + of_nat i" using assms by (intro take_bit_small) simp
  then show "rmp_page_size (demo_block_entry i) = 0" "rmp_immutable (demo_block_entry i) = 1" "rmp_vmsa (demo_block_entry i) = 0"
    "rmp_asid (demo_block_entry i) = 1" "rmp_gpa (demo_block_entry i) = 512 + of_nat i" "q2 (demo_block_entry i) = 0"
    "rmp_entry_get_state (demo_block_entry i) = SNP_PAGE_STATE_PRE_GUEST"
    unfolding page_states
    by (simp_all add: demo_block_entry_def entry_calc) (simp_all add: get_field_def drop_bit_eq_div)
qed

lemma demo_block_mergeable:
  assumes "j < 512"
  shows "mergeable demo_snp_env (if j = 0 then None else Some (demo_block_entry (j - 1))) (demo_block_entry j)"
  using assms
  by (cases j) (simp_all add: mergeable_def demo_block_fields DRAM_PAGE_SIZE_4K_def demo_snp_env_def
      RMP_GPA_TO_PADDR_def RMP_ENTRY_GPA_SHIFT_def)

lemma demo_block_all:
  "\<forall>j < 512. mergeable demo_snp_env
     (if j = 0 then None else Some (page_entry (demo_rmp (demo_block rp) k) (rp + 16 * of_nat (j - 1))))
     (page_entry (demo_rmp (demo_block rp) k) (rp + 16 * of_nat j))"
proof (intro allI impI)
  fix j :: nat assume "j < 512"
  then have "j - 1 < 512" by simp
  show "mergeable demo_snp_env
     (if j = 0 then None else Some (page_entry (demo_rmp (demo_block rp) k) (rp + 16 * of_nat (j - 1))))
     (page_entry (demo_rmp (demo_block rp) k) (rp + 16 * of_nat j))"
    using demo_block_mergeable [OF \<open>j < 512\<close>]
    unfolding demo_block_entries [OF \<open>j < 512\<close>] demo_block_entries [OF \<open>j - 1 < 512\<close>] .
qed

text \<open>A block of mergeable entries passes the first loop, if the window behind it can be mapped.\<close>

lemma check_loop_complete:
  assumes "\<forall>j < 512. mergeable E (if j = 0 then None else Some (page_entry X (rp + 16 * of_nat (j - 1)))) (page_entry X (rp + 16 * of_nat j))"
    and "8192 dvd unat rp" and "i \<le> 512"
    and "prev = (if i = 0 then None else Some (page_entry X (rp + 16 * of_nat (i - 1))))"
    and "fst (next_entry X (rp + 16 * 511) (rp + 16 * 511) 16) = SEV_STATUS_SUCCESS"
  shows "unsmash_check E X [i..<512] (rp + 16 * of_nat i) (rp + 16 * of_nat i) prev = SEV_STATUS_SUCCESS"
  using assms(3,4)
proof (induction "512 - i" arbitrary: i prev)
  case (Suc n)
  have i: "i < 512" "[i..<512] = i # [Suc i..<512]" using Suc.hyps(2) by (simp_all add: upt_rec)
  let ?e = "page_entry X (rp + 16 * of_nat i)"
  have m: "mergeable E prev ?e" using assms(1) i(1) Suc.prems(2) by auto
  have r: "unsmash_check E X [Suc i..<512] (rp + 16 * of_nat (Suc i)) (rp + 16 * of_nat (Suc i)) (Some ?e) = SEV_STATUS_SUCCESS"
    using Suc.hyps(1) [of "Suc i" "Some ?e"] Suc.hyps(2) i(1) by (simp del: of_nat_Suc)
  have "unsmash_check E X (i # [Suc i..<512]) (rp + 16 * of_nat i) (rp + 16 * of_nat i) prev =
    (case next_entry X (rp + 16 * of_nat i) (rp + 16 * of_nat i) ((512 - of_nat i) * 16) of
           (status, rp', a') \<Rightarrow>
             if status \<noteq> SEV_STATUS_SUCCESS then status else unsmash_check E X [Suc i..<512] rp' a' (Some ?e))"
    using m by (cases prev) (auto simp: mergeable_def Let_def page_entry_def [symmetric])
  also have "\<dots> = SEV_STATUS_SUCCESS"
  proof (cases "Suc i < 512")
    case True
    then show ?thesis using r by (simp add: next_in_block [OF assms(2) True] del: of_nat_Suc)
  next
    case False
    then have "i = 511" using i(1) by simp
    then show ?thesis using assms(5) by (simp add: case_prod_beta)
  qed
  finally show ?case using i(2) by simp
qed simp

lemma merge_loop_status:
  assumes "8192 dvd unat rp" and "i < 512"
    and "\<And>Y. fst (next_entry (X\<lparr>xs_mem := Y\<rparr>) (rp + 16 * 511) (rp + 16 * 511) ((16 - 511) * 512)) = SEV_STATUS_SUCCESS"
  shows "fst (unsmash_merge [i..<512] (rp + 16 * of_nat i) (rp + 16 * of_nat i) (X\<lparr>xs_mem := m\<rparr>)) = SEV_STATUS_SUCCESS"
  using assms(2)
proof (induction "511 - i" arbitrary: i m)
  case 0
  then have "i = 511" by simp
  then show ?case using assms(3) by (simp add: upt_rec Let_def case_prod_beta)
next
  case (Suc n)
  then have i: "Suc i < 512" "[i..<512] = i # [Suc i..<512]" by (simp_all add: upt_rec)
  show ?case using Suc.hyps i(1) unfolding i(2) by (simp add: Let_def next_in_block [OF assms(1) i(1)] del: of_nat_Suc)
qed

lemma demo_ccp:
  "k > 0 \<Longrightarrow> sev_hal_map_memory_ccp (demo_rmp m k) 0x20006000 8192 = (SEV_STATUS_SUCCESS, 0x20006000)"
  "k > 0 \<Longrightarrow> sev_hal_map_memory_ccp (demo_rmp m k) 0x23FFE000 8192 = (SEV_STATUS_SUCCESS, 0x23FFE000)"
  "k > 0 \<Longrightarrow> fst (sev_hal_map_memory_ccp (demo_rmp m k) 0x24000000 16) = SEV_STATUS_SUCCESS"
  "k > 0 \<Longrightarrow> fst (sev_hal_map_memory_ccp (demo_rmp m k) 0x24000000 0xFFFC2200) = SEV_STATUS_INVALID_CONFIG"
  by (simp_all add: sev_hal_map_memory_ccp_def convert_x86_address_def set_asid_def Let_def)
    (simp_all add: demo_range)

theorem page_unsmash_merges_witness:
  "\<exists>S'. snp_mcmd_page_unsmash demo_snp_env 0x200000 (demo_snp (demo_rmp (demo_block 0x20006000) 0) demo_snp_guest) = (SEV_STATUS_SUCCESS, S') \<and>
     rmp_page_size (page_entry (sn_x86 S') 0x20006000) = DRAM_PAGE_SIZE_2M \<and>
     rmp_asid (page_entry (sn_x86 S') 0x20006000) = 1"
proof -
  let ?X = "demo_rmp (demo_block 0x20006000) 0" and ?X1 = "demo_rmp (demo_block 0x20006000) 1"
  let ?S = "demo_snp ?X demo_snp_guest"
  have g: "get_rmp_paddr (demo_rmp m k) 0x200000 v = (SEV_STATUS_SUCCESS, 0x20006000)" for m k v
    by (simp add: get_rmp_paddr_def local_get_rmp_paddr_def Let_def demo_consts)
  have al: "8192 dvd unat (0x20006000 :: u64)" by simp
  have nx: "fst (next_entry X (0x20006000 + 16 * 511) (0x20006000 + 16 * 511) n) = SEV_STATUS_SUCCESS" for X n
    by (simp add: next_entry_def X86_64MB_MASK_def X86_64MB_SIZE_def RMP_ENTRY_SIZE_def)
  have "unsmash_check demo_snp_env ?X1 [0..<512] (0x20006000 + 16 * of_nat 0) (0x20006000 + 16 * of_nat 0) None = SEV_STATUS_SUCCESS"
  by (rule check_loop_complete [OF demo_block_all al _ _ nx]) simp_all
  then have c: "unsmash_check demo_snp_env ?X1 [0..<512] 0x20006000 0x20006000 None = SEV_STATUS_SUCCESS"
    by (simp del: upt_rec_numeral unsmash_check.simps)
  have "fst (unsmash_merge [0..<512] (0x20006000 + 16 * of_nat 0) (0x20006000 + 16 * of_nat 0) (?X1\<lparr>xs_mem := demo_block 0x20006000\<rparr>)) = SEV_STATUS_SUCCESS"
    by (rule merge_loop_status [OF al _ nx]) simp
  then have m: "fst (unsmash_merge [0..<512] 0x20006000 0x20006000 ?X1) = SEV_STATUS_SUCCESS"
    by (simp del: upt_rec_numeral unsmash_merge.simps)
  have a2: "se_al2m demo_snp_env 0x200000" by (simp add: demo_snp_env_def)
  have o: "\<not> ranges_overlap 0x200000 (0x1FFFFF + PAGE_SIZE_2M) 0x20000000 0x200FFFFF"
    by (simp add: ranges_overlap_def PAGE_SIZE_2M_def PAGE_SIZE_4K_def demo_consts)
  have "fst (snp_mcmd_page_unsmash demo_snp_env 0x200000 ?S) = SEV_STATUS_SUCCESS"
    using m by (simp add: snp_mcmd_page_unsmash_def Let_def SNP_ADDR_PAGE_RECLAIM_RESERVED_MASK_def a2 g o
        unsmash_entries_def demo_ccp c case_prod_beta del: upt_rec_numeral unsmash_merge.simps unsmash_check.simps)
  then obtain S' where r: "snp_mcmd_page_unsmash demo_snp_env 0x200000 ?S = (SEV_STATUS_SUCCESS, S')" by (metis prod.collapse)
  have e: "page_entry ?X 0x20006000 = demo_block_entry 0" using demo_block_entries [of 0 "0x20006000" 0] by simp
  from page_unsmash_merges [OF r _ demo_env_quiet(2) _ refl refl, where rp = "0x20006000"] r show ?thesis
    by (simp add: demo_wf g e demo_block_fields)
qed

theorem unsmash_at_window_end_reports_failure_witness:
  "\<exists>X'. unsmash_entries demo_snp_env 0x23FFE000 (demo_rmp (demo_block 0x23FFE000) 1) = (SEV_STATUS_INVALID_CONFIG, X') \<and>
     rmp_page_size (page_entry X' 0x23FFE000) = DRAM_PAGE_SIZE_2M"
proof -
  let ?X1 = "demo_rmp (demo_block 0x23FFE000) 1"
  have al: "8192 dvd unat (0x23FFE000 :: u64)" by simp
  have nx: "fst (next_entry ?X1 (0x23FFE000 + 16 * 511) (0x23FFE000 + 16 * 511) 16) = SEV_STATUS_SUCCESS"
    using demo_ccp(3) [of 1 "demo_block 0x23FFE000"]
    by (simp add: next_entry_def X86_64MB_MASK_def X86_64MB_SIZE_def RMP_ENTRY_SIZE_def case_prod_beta)
  have "unsmash_check demo_snp_env ?X1 [0..<512] (0x23FFE000 + 16 * of_nat 0) (0x23FFE000 + 16 * of_nat 0) None = SEV_STATUS_SUCCESS"
  by (rule check_loop_complete [OF demo_block_all al _ _ nx]) simp_all
  then have c: "unsmash_check demo_snp_env ?X1 [0..<512] 0x23FFE000 0x23FFE000 None = SEV_STATUS_SUCCESS"
    by (simp del: upt_rec_numeral unsmash_check.simps)
  show ?thesis
    by (rule unsmash_at_window_end_reports_failure [OF c al])
      (simp_all add: demo_ccp X86_64MB_MASK_def X86_64MB_SIZE_def)
qed

text \<open>Attempts to reclaim the context page, to turn it into a metadata page, and to move it.\<close>

theorem context_page_is_sealed_witness:
  "rmp_entry_get_state (page_entry (sn_x86 (snp_run
     [(demo_snp_env, Page_reclaim 0x1000), (demo_snp_env, Md_init 0x1000 0x1000), (demo_snp_env, Page_unsmash 0),
      (demo_snp_env, Page_move \<lparr>pm_gctx = 0x1000, pm_size = 0, pm_reserved = 0, pm_reserved2 = 0, pm_src = 0x1000, pm_dst = 0x4000\<rparr>),
      (demo_snp_env, Decommission 0x4000)]
     (demo_snp (demo_rmp demo_pages 0) demo_snp_guest))) 0x20004010) = SNP_PAGE_STATE_CONTEXT"
proof -
  have ok: "env_ok demo_snp_env" by (simp add: env_ok_def demo_env_quiet)
  have s: "rmp_slot (demo_rmp demo_pages 0) 0x20004010" by (simp add: rmp_slot_def)
  show ?thesis
    by (subst context_page_is_sealed [where S = "demo_snp (demo_rmp demo_pages 0) demo_snp_guest"])
      (simp_all add: demo_wf s demo_entries demo_states ok demo_slots)
qed

end
