(* ===== verification/Sev_BigNum.thy ===== *)
theory Sev_BigNum
  imports Sev_Prelude
begin

text \<open>
  The multiple-precision arithmetic of \<open>bignum.c\<close>, used to reduce scalars of elliptic curves.

  A number is an array of 80 digits of 28 bits, of which \<open>Used\<close> count. The functions write their
  result through a pointer that may be the one of an operand, so the numbers are objects of a
  store, named by the role of the object: an argument of the caller, or a member of the scratch
  area. A digit array is a list of 80 words; digits above \<open>Used\<close> keep what was there before.

  Counters and \<open>Used\<close> are numbers below 2 ^ 32 and are modelled as \<open>nat\<close>; where a difference of
  them can wrap around it is written with \<open>sub32\<close>. A loop that the code does not bound is a
  \<open>partial_function\<close>: \<open>None\<close> means that it does not return.
\<close>

section \<open>Numbers and the store\<close>

record bignum =
  bn_used :: nat
  bn_sign :: bool
  bn_data :: "u32 list"

datatype bn_ref = BnArg nat | Barrett_u | BarrettTemp nat | BnTemp nat

type_synonym bns = "bn_ref \<Rightarrow> bignum"

definition KC_OK :: u32 where "KC_OK = 0"
definition KCERR_BUFFER_OVERFLOW :: u32 where "KCERR_BUFFER_OVERFLOW = 0x00008002"
definition KCERR_INVALID_PARAMETER :: u32 where "KCERR_INVALID_PARAMETER = 0x00008003"
definition KCERR_BN_TOO_SMALL :: u32 where "KCERR_BN_TOO_SMALL = 0x0000800D"
definition KCERR_BAD_BIGNUMBER :: u32 where "KCERR_BAD_BIGNUMBER = 0x0000800E"
definition KCERR_BN_INVALID_SIZE :: u32 where "KCERR_BN_INVALID_SIZE = 0x00008017"
definition KCERR_DATA_LENGTH :: u32 where "KCERR_DATA_LENGTH = 0x00008019"
definition BN_BITS :: nat where "BN_BITS = 28"
definition BN_MASK :: u32 where "BN_MASK = push_bit 28 1 - 1"
definition MAX_BN_ELEMENTS :: nat where "MAX_BN_ELEMENTS = 80"
definition BN_BIGGER :: u32 where "BN_BIGGER = 1"
definition BN_SMALLER :: u32 where "BN_SMALLER = 2"
definition BN_EQUAL :: u32 where "BN_EQUAL = 3"

definition sub32 :: "nat \<Rightarrow> nat \<Rightarrow> nat" where
  "sub32 a b = unat (of_nat a - of_nat b :: u32)"

definition dig :: "bns \<Rightarrow> bn_ref \<Rightarrow> nat \<Rightarrow> u32" where
  "dig s r i = bn_data (s r) ! i"
definition put_dig :: "bn_ref \<Rightarrow> nat \<Rightarrow> u32 \<Rightarrow> bns \<Rightarrow> bns" where
  "put_dig r i v s = s(r := (s r)\<lparr>bn_data := (bn_data (s r))[i := v]\<rparr>)"
definition set_used :: "bn_ref \<Rightarrow> nat \<Rightarrow> bns \<Rightarrow> bns" where
  "set_used r n s = s(r := (s r)\<lparr>bn_used := n\<rparr>)"
definition set_sign :: "bn_ref \<Rightarrow> bool \<Rightarrow> bns \<Rightarrow> bns" where
  "set_sign r b s = s(r := (s r)\<lparr>bn_sign := b\<rparr>)"

abbreviation used :: "bns \<Rightarrow> bn_ref \<Rightarrow> nat" where "used s r \<equiv> bn_used (s r)"
abbreviation sign :: "bns \<Rightarrow> bn_ref \<Rightarrow> bool" where "sign s r \<equiv> bn_sign (s r)"

fun trim_used :: "u32 list \<Rightarrow> nat \<Rightarrow> nat" where
  "trim_used d 0 = 0"
| "trim_used d (Suc n) = (if d ! n = 0 then trim_used d n else Suc n)"

definition BNTRIM :: "bn_ref \<Rightarrow> bns \<Rightarrow> bns" where
  "BNTRIM r s = set_used r (trim_used (bn_data (s r)) (used s r)) s"

definition BN_ZERO :: "bn_ref \<Rightarrow> bns \<Rightarrow> bns" where
  "BN_ZERO r s = set_sign r False (set_used r 0 s)"

section \<open>Octet strings\<close>

definition le32 :: "u8 list \<Rightarrow> u32" where
  "le32 b = ucast (b ! 0) OR push_bit 8 (ucast (b ! 1)) OR push_bit 16 (ucast (b ! 2)) OR push_bit 24 (ucast (b ! 3))"

fun words32 :: "u8 list \<Rightarrow> u32 list" where
  "words32 (a # b # c # d # bs) = le32 [a, b, c, d] # words32 bs"
| "words32 _ = []"

text \<open>One round of the loop over the words. Every eighth digit takes no new word: the pointer is
  not advanced.\<close>

function load_loop :: "bn_ref \<Rightarrow> u32 list \<Rightarrow> nat \<Rightarrow> nat \<Rightarrow> u32 \<Rightarrow> bns \<Rightarrow> nat \<times> bns" where
  "load_loop r [] i j t s = (i, s)"
| "load_loop r (w # ws) i j t s =
     (let s1 = put_dig r i ((push_bit (4 * j) w + t) AND BN_MASK) s;
          t1 = drop_bit (BN_BITS - 4 * j) w
      in if j + 1 = 8 then load_loop r (w # ws) (i + 1) 0 0 s1
         else if ws = [] then (if t1 \<noteq> 0 then (i + 2, put_dig r (i + 1) (t1 AND BN_MASK) s1) else (i + 1, s1))
         else load_loop r ws (i + 1) (j + 1) t1 s1)"
  by pat_completeness auto
termination
  by (relation "measures [\<lambda>(r, ws, i, j, t, s). length ws, \<lambda>(r, ws, i, j, t, s). if j = 7 then 1 else 0]") auto

text \<open>\<open>None\<close>: without any data the loop reads behind the buffer, and counts \<open>DataLen\<close> down from 0.\<close>

definition BNLoad :: "bn_ref \<Rightarrow> u8 list \<Rightarrow> bns \<Rightarrow> (u32 \<times> bns) option" where
  "BNLoad r data s =
     (let BnLen = length data div 7 * 2
      in if length data mod 4 \<noteq> 0 then Some (KCERR_DATA_LENGTH, s)
         else if BnLen + 2 > MAX_BN_ELEMENTS then Some (KCERR_DATA_LENGTH, s)
         else if data = [] then None
         else
           let s1 = BN_ZERO r s;
               s2 = s1(r := (s1 r)\<lparr>bn_data := replicate MAX_BN_ELEMENTS 0\<rparr>);
               (n, s3) = load_loop r (words32 data) 0 0 0 s2
           in Some (KC_OK, BNTRIM r (set_used r n s3)))"

definition bytes32 :: "u32 \<Rightarrow> u8 list" where
  "bytes32 w = [ucast w, ucast (drop_bit 8 w), ucast (drop_bit 16 w), ucast (drop_bit 24 w)]"

definition put_word :: "nat \<Rightarrow> u32 \<Rightarrow> u8 list \<Rightarrow> u8 list" where
  "put_word p w out = take p out @ bytes32 w @ drop (p + 4) out"

text \<open>The loop stores a word per digit, but for every eighth digit, which stores one that the next
  digit overwrites. \<open>p\<close> is the offset of \<open>pData\<close>, \<open>len\<close> is \<open>DataLen\<close>; \<open>i\<close> counts up to \<open>lim\<close>, the
  32-bit difference \<open>Used - 1\<close>.\<close>

function store_loop :: "(nat \<Rightarrow> u32) \<Rightarrow> nat \<Rightarrow> nat \<Rightarrow> nat \<Rightarrow> nat \<Rightarrow> nat \<Rightarrow> u8 list \<Rightarrow> u32 \<times> u8 list" where
  "store_loop d lim i j p len out =
     (if i \<ge> lim then (KC_OK, out)
      else if len = 0 then (KCERR_BUFFER_OVERFLOW + 0xB00, out)
      else if j = 7
      then store_loop d lim (i + 1) 0 p len (put_word p (drop_bit 28 (d i) + d (i + 1)) out)
      else store_loop d lim (i + 1) (j + 1) (p + 4) (len - 4)
             (put_word p (drop_bit (4 * j) (d i) +
                push_bit (BN_BITS - 4 * j) (d (i + 1) AND (push_bit (4 * (j + 1)) 1 - 1))) out))"
  by pat_completeness auto
termination
  by (relation "measure (\<lambda>(d, lim, i, j, p, len, out). lim - i)") auto

definition BNStore :: "bn_ref \<Rightarrow> u8 list \<Rightarrow> bns \<Rightarrow> u32 \<times> u8 list \<times> bns" where
  "BNStore r out s =
     (if length out mod 4 \<noteq> 0 then (KCERR_DATA_LENGTH, out, s)
      else if used s r > MAX_BN_ELEMENTS then (KCERR_BUFFER_OVERFLOW, out, s)
      else
        let s1 = BNTRIM r s;
            (status, out1) = store_loop (dig s1 r) (sub32 (used s1 r) 1) 0 0 0 (length out) out
        in (status, out1, s1))"

section \<open>Copies and shifts\<close>

definition BNCopy :: "bn_ref \<Rightarrow> bn_ref \<Rightarrow> bns \<Rightarrow> bns" where
  "BNCopy dst src s = (if dst \<noteq> src then s(dst := s src) else s)"

definition BNShiftDigR :: "bn_ref \<Rightarrow> bn_ref \<Rightarrow> nat \<Rightarrow> bns \<Rightarrow> bns" where
  "BNShiftDigR dst src k s =
     (if k = 0 then BNCopy dst src s
      else if used s src \<le> k then BN_ZERO dst s
      else
        let s1 = fold (\<lambda>i s. put_dig dst (i - k) (dig s src i) s) [k..<used s src] s
        in set_sign dst (sign s1 src) (set_used dst (used s1 src - k) s1))"

definition BNShiftDigL :: "bn_ref \<Rightarrow> bn_ref \<Rightarrow> nat \<Rightarrow> bns \<Rightarrow> u32 \<times> bns" where
  "BNShiftDigL dst src k s =
     (if k = 0 \<or> used s src = 0 then (KC_OK, BNCopy dst src s)
      else if used s src + k > MAX_BN_ELEMENTS then (KCERR_BUFFER_OVERFLOW, s)
      else
        let n = used s src + k;
            s1 = set_used dst n s;
            s2 = set_sign dst (sign s1 src) s1;
            s3 = fold (\<lambda>i s. put_dig dst i (dig s src (i - k)) s) (rev [k..<n]) s2;
            s4 = fold (\<lambda>i s. put_dig dst i 0 s) [0..<k] s3
        in (KC_OK, s4))"

definition BNShiftBitsL :: "bn_ref \<Rightarrow> bn_ref \<Rightarrow> nat \<Rightarrow> bns \<Rightarrow> u32 \<times> bns" where
  "BNShiftBitsL dst src0 shift0 s0 =
     (if shift0 = 0 \<or> used s0 src0 = 0 then (KC_OK, BNCopy dst src0 s0)
      else
        let (status, s) = (if shift0 \<ge> BN_BITS then BNShiftDigL dst src0 (shift0 div BN_BITS) s0 else (KC_OK, s0));
            src = (if shift0 \<ge> BN_BITS then dst else src0);
            shift = shift0 mod BN_BITS
        in if status \<noteq> KC_OK then (status, s)
           else if shift \<noteq> 0 \<and> used s src > 0 then
             let (carry, s1) = fold (\<lambda>i (carry, s).
                   let temp = dig s src i
                   in (drop_bit (BN_BITS - shift) temp, put_dig dst i ((push_bit shift temp AND BN_MASK) + carry) s))
                   [0..<used s src] (0, s);
                 n = used s1 src;
                 s2 = set_used dst n s1;
                 s3 = set_sign dst (sign s2 src) s2
             in (KC_OK, if carry \<noteq> 0 then set_used dst (n + 1) (put_dig dst n carry s3) else s3)
           else (KC_OK, s))"

definition BNShiftBitsR :: "bn_ref \<Rightarrow> bn_ref \<Rightarrow> nat \<Rightarrow> bns \<Rightarrow> bns" where
  "BNShiftBitsR dst src0 shift0 s0 =
     (if shift0 = 0 \<or> used s0 src0 = 0 then BNCopy dst src0 s0
      else
        let s = (if shift0 \<ge> BN_BITS then BNShiftDigR dst src0 (shift0 div BN_BITS) s0 else s0);
            src = (if shift0 \<ge> BN_BITS then dst else src0);
            shift = shift0 mod BN_BITS
        in if shift \<noteq> 0 \<and> used s src > 0 then
             let mask = push_bit shift 1 - 1;
                 (carry, s1) = fold (\<lambda>i (carry, s).
                   let temp = dig s src i
                   in (push_bit (BN_BITS - shift) (temp AND mask), put_dig dst i (drop_bit shift temp + carry) s))
                   (rev [0..<used s src]) (0, s);
                 s2 = set_used dst (used s1 src) s1;
                 s3 = set_sign dst (sign s2 src) s2
             in if dig s3 dst (used s3 src - 1) = 0 then set_used dst (used s3 dst - 1) s3 else s3
           else s)"

definition BNSet2Pwr :: "bn_ref \<Rightarrow> nat \<Rightarrow> bns \<Rightarrow> u32 \<times> bns" where
  "BNSet2Pwr r pwr s =
     (if pwr div BN_BITS \<ge> MAX_BN_ELEMENTS then (KCERR_BUFFER_OVERFLOW, s)
      else
        let s1 = fold (\<lambda>i s. put_dig r i 0 s) [0..<pwr div BN_BITS] s;
            s2 = put_dig r (pwr div BN_BITS) (push_bit (pwr mod BN_BITS) 1) s1
        in (KC_OK, set_sign r False (set_used r (pwr div BN_BITS + 1) s2)))"

section \<open>Comparison\<close>

fun compare_digits :: "bns \<Rightarrow> bn_ref \<Rightarrow> bn_ref \<Rightarrow> nat \<Rightarrow> u32" where
  "compare_digits s x y 0 = BN_EQUAL"
| "compare_digits s x y (Suc i) =
     (if dig s x i > dig s y i then BN_BIGGER
      else if dig s x i < dig s y i then BN_SMALLER
      else compare_digits s x y i)"

definition BNCompare :: "bn_ref \<Rightarrow> bn_ref \<Rightarrow> bns \<Rightarrow> u32" where
  "BNCompare x y s =
     (if used s x > used s y then BN_BIGGER
      else if used s x < used s y then BN_SMALLER
      else if used s y = 0 then BN_BIGGER
      else compare_digits s x y (used s x))"

definition BNSecureCompare :: "bn_ref \<Rightarrow> bn_ref \<Rightarrow> bns \<Rightarrow> u32" where
  "BNSecureCompare x y s =
     (let (gt, eq) = fold (\<lambda>i (gt, eq).
            let gt' = gt OR (drop_bit 31 (dig s y i - dig s x i) AND eq)
            in (gt', eq AND drop_bit 31 ((dig s y i XOR dig s x i) - 1)))
            (rev [0..<MAX_BN_ELEMENTS]) (0, 1)
      in 2 + (eq - gt))"

section \<open>Sums and differences\<close>

definition sub_digit :: "bn_ref \<Rightarrow> bn_ref \<Rightarrow> nat \<Rightarrow> u32 \<Rightarrow> u32 \<times> bns \<Rightarrow> u32 \<times> bns" where
  "sub_digit z x i temp = (\<lambda>(_, s).
     let borrow = (if temp > dig s x i then 1 else 0)
     in (borrow, put_dig z i (dig s x i + push_bit BN_BITS borrow - temp) s))"

definition BNSubtractAbs :: "bn_ref \<Rightarrow> bn_ref \<Rightarrow> bn_ref \<Rightarrow> bns \<Rightarrow> u32 \<times> bns" where
  "BNSubtractAbs z x y s =
     (let Compare = BNCompare x y s
      in if Compare \<noteq> BN_SMALLER \<and> Compare \<noteq> BN_BIGGER then (KC_OK, BN_ZERO z s)
         else
           let (px, py) = (if Compare = BN_SMALLER then (y, x) else (x, y));
               xUsed = used s px; yUsed = used s py;
               s1 = set_sign z (if Compare = BN_SMALLER then \<not> sign s x else sign s x) s;
               st = fold (\<lambda>i st. sub_digit z px i (dig (snd st) py i + fst st) st) [0..<yUsed] (0, s1);
               (_, s2) = fold (\<lambda>i st. sub_digit z px i (fst st) st) [yUsed..<xUsed] st
           in (KC_OK, BNTRIM z (set_used z xUsed s2)))"

definition add_digit :: "bn_ref \<Rightarrow> nat \<Rightarrow> u32 \<Rightarrow> u32 \<times> bns \<Rightarrow> u32 \<times> bns" where
  "add_digit z i d = (\<lambda>(_, s). (drop_bit BN_BITS d, put_dig z i (d AND BN_MASK) s))"

definition BNAddAbs :: "bn_ref \<Rightarrow> bn_ref \<Rightarrow> bn_ref \<Rightarrow> bns \<Rightarrow> u32 \<times> bns" where
  "BNAddAbs z x y s =
     (let (pmax, pmin) = (if used s x > used s y then (x, y) else (y, x))
      in if MAX_BN_ELEMENTS < used s pmax + 1 then (KCERR_BUFFER_OVERFLOW, s)
         else
           let n = used s pmax;
               st = fold (\<lambda>i st. add_digit z i (dig (snd st) x i + dig (snd st) y i + fst st) st)
                      [0..<used s pmin] (0, s);
               (carry, s1) = fold (\<lambda>i st. add_digit z i (dig (snd st) pmax i + fst st) st) [used s pmin..<n] st;
               s2 = put_dig z n carry s1;
               s3 = set_used z (n + 1) s2
           in (KC_OK, BNTRIM z (set_sign z (sign s3 x) s3)))"

definition BNSubtract :: "bn_ref \<Rightarrow> bn_ref \<Rightarrow> bn_ref \<Rightarrow> bns \<Rightarrow> u32 \<times> bns" where
  "BNSubtract z x y s = (if sign s x \<noteq> sign s y then BNAddAbs z x y s else BNSubtractAbs z x y s)"

definition BNAdd :: "bn_ref \<Rightarrow> bn_ref \<Rightarrow> bn_ref \<Rightarrow> bns \<Rightarrow> u32 \<times> bns" where
  "BNAdd z x y s =
     (if sign s x \<noteq> sign s y
      then (if sign s y then BNSubtractAbs z x y s else BNSubtractAbs z y x s)
      else BNAddAbs z x y s)"

section \<open>Products\<close>

text \<open>The inner loop: \<open>px\<close>, \<open>py\<close> and \<open>plim\<close> are the pointers into the two arrays, as indices.\<close>

function mul_inner :: "bns \<Rightarrow> bn_ref \<Rightarrow> bn_ref \<Rightarrow> nat \<Rightarrow> nat \<Rightarrow> nat \<Rightarrow> u64 \<Rightarrow> u64" where
  "mul_inner s x y px py plim carry =
     (if px < plim
      then mul_inner s x y (px + 1) (py - 1) plim (carry + ucast (dig s x px) * ucast (dig s y py))
      else carry)"
  by pat_completeness auto
termination
  by (relation "measure (\<lambda>(s, x, y, px, py, plim, c). plim - px)") auto

definition mul_store :: "bn_ref \<Rightarrow> nat \<Rightarrow> u64 \<Rightarrow> bns \<Rightarrow> u64 \<times> bns" where
  "mul_store z i carry s = (drop_bit BN_BITS carry, put_dig z i (ucast carry AND BN_MASK) s)"

definition BNMultiply :: "bn_ref \<Rightarrow> bn_ref \<Rightarrow> bn_ref \<Rightarrow> nat \<Rightarrow> bns \<Rightarrow> u32 \<times> bns" where
  "BNMultiply z x y Digits s =
     (if z = x \<or> z = y then (KCERR_INVALID_PARAMETER, s)
      else if used s x = 0 \<or> used s y = 0 then (KC_OK, BN_ZERO z s)
      else
        let Limit = (if Digits = 0 then used s x + used s y else Digits)
        in if MAX_BN_ELEMENTS < Limit then (KCERR_BN_TOO_SMALL, s)
           else
             let s1 = set_used z Limit (set_sign z (sign s x \<noteq> sign s y) s);
                 xMax = used s x - 1;
                 yUsed = used s y - 1;
                 (py, plim, carry, s2) = fold (\<lambda>i (py, plim, carry, s).
                     (py + 1, if xMax > i then plim + 1 else plim, mul_store z i (mul_inner s x y 0 py plim carry) s))
                   [0..<yUsed] (0, 1, 0, s1);
                 (px, plim, carry, s3) = fold (\<lambda>i (px, plim, carry, s).
                     (px + 1, if xMax > i then plim + 1 else plim, mul_store z i (mul_inner s x y px py plim carry) s))
                   [yUsed..<Limit] (0, plim, carry, s2)
             in (KC_OK, BNTRIM z s3))"

text \<open>Where the pointers of a column start and end.\<close>

definition high_start :: "nat \<Rightarrow> nat \<Rightarrow> nat \<Rightarrow> nat \<times> nat \<times> nat" where
  "high_start xUsed yUsed i =
     (if yUsed > i + 1 then (0, i, if xUsed > i + 1 then i + 1 else xUsed)
      else let px = i + 1 - yUsed
           in (px, yUsed - 1, px + (if xUsed > i + 1 then yUsed else xUsed + yUsed - i - 1)))"

definition BNMultiplyHighDigs :: "bn_ref \<Rightarrow> bn_ref \<Rightarrow> bn_ref \<Rightarrow> nat \<Rightarrow> bns \<Rightarrow> u32 \<times> bns" where
  "BNMultiplyHighDigs z x y Digits s =
     (if z = x \<or> z = y then (KCERR_INVALID_PARAMETER, s)
      else if used s x = 0 \<or> used s y = 0 then (KC_OK, BN_ZERO z s)
      else
        let Limit = used s x + used s y
        in if MAX_BN_ELEMENTS < Limit then (KCERR_BN_TOO_SMALL, s)
           else
             let s1 = fold (\<lambda>i s. put_dig z i 0 s) [0..<Digits] s;
                 s2 = set_used z Limit (set_sign z (sign s1 x \<noteq> sign s1 y) s1);
                 (_, s3) = fold (\<lambda>i (carry, s).
                     case high_start (used s2 x) (used s2 y) i of (px, py, plim) \<Rightarrow>
                       mul_store z i (mul_inner s x y px py plim carry) s)
                   [Digits..<Limit] (0, s2)
             in (KC_OK, BNTRIM z s3))"

definition BNMod_2Pwr :: "bn_ref \<Rightarrow> bn_ref \<Rightarrow> nat \<Rightarrow> bns \<Rightarrow> bns" where
  "BNMod_2Pwr z x e s =
     (if e = 0 then BN_ZERO z s
      else
        let s1 = BNCopy z x s
        in if e \<ge> used s1 x * BN_BITS then s1
           else
             let i = e div BN_BITS;
                 s2 = put_dig z i (dig s1 z i AND (push_bit (e mod BN_BITS) 1 - 1)) s1
             in BNTRIM z (set_used z (i + 1) s2))"

section \<open>Division\<close>

function bit_length :: "u32 \<Rightarrow> nat" where
  "bit_length w = (if w > 0 then 1 + bit_length (drop_bit 1 w) else 0)"
  by pat_completeness auto
termination
proof (relation "measure unat")
  fix w :: u32 assume "w > 0"
  then have "unat w > 0" by (simp add: word_less_nat_alt)
  then show "(drop_bit 1 w, w) \<in> measure unat" by (simp add: drop_bit_eq_div unat_div)
qed simp

definition BNBitCount :: "bn_ref \<Rightarrow> bns \<Rightarrow> nat" where
  "BNBitCount r s =
     (if used s r = 0 then 0 else (used s r - 1) * BN_BITS + bit_length (dig s r (used s r - 1)))"

text \<open>The members of the scratch area that a division uses.\<close>

abbreviation div_x :: bn_ref where "div_x \<equiv> BnTemp 0"
abbreviation div_y :: bn_ref where "div_y \<equiv> BnTemp 1"
abbreviation div_q :: bn_ref where "div_q \<equiv> BnTemp 2"
abbreviation BnTmp :: bn_ref where "BnTmp \<equiv> BnTemp 3"
abbreviation BnTmp1 :: bn_ref where "BnTmp1 \<equiv> BnTemp 4"
abbreviation BnTmp2 :: bn_ref where "BnTmp2 \<equiv> BnTemp 5"

text \<open>The top digit: \<open>while x >= y * b ** (n - t)\<close>.\<close>

partial_function (option) div_top :: "nat \<Rightarrow> bns \<Rightarrow> bns option" where
  "div_top k s =
     (if BNCompare div_x BnTmp s = BN_SMALLER then Some s
      else div_top k (snd (BNSubtract div_x div_x BnTmp (put_dig div_q k (dig s div_q k + 1) s))))"

text \<open>Step 3.2: lowers the estimate of the digit.\<close>

definition set_product :: "nat \<Rightarrow> nat \<Rightarrow> bns \<Rightarrow> u32 \<times> bns" where
  "set_product k t s0 =
     (let s = put_dig BnTmp2 0 (dig s0 div_q k) (set_used BnTmp2 1 (BN_ZERO BnTmp2 s0));
          s1 = set_used BnTmp1 2 (BN_ZERO BnTmp1 s);
          s2 = put_dig BnTmp1 0 (if t > 0 then dig s1 div_y (t - 1) else 0) s1;
          s3 = put_dig BnTmp1 1 (dig s2 div_y t) s2
      in BNMultiply BnTmp BnTmp1 BnTmp2 0 s3)"

definition set_dividend :: "nat \<Rightarrow> bns \<Rightarrow> bns" where
  "set_dividend i s =
     (let s1 = set_used BnTmp1 3 (BN_ZERO BnTmp1 s);
          s2 = put_dig BnTmp1 0 (if i > 1 then dig s1 div_x (i - 2) else 0) s1;
          s3 = put_dig BnTmp1 1 (if i > 0 then dig s2 div_x (i - 1) else 0) s2
      in put_dig BnTmp1 2 (dig s3 div_x i) s3)"

partial_function (option) div_estimate :: "nat \<Rightarrow> nat \<Rightarrow> bns \<Rightarrow> (u32 \<times> bns) option" where
  "div_estimate i t s =
     (let k = i - t - 1;
          s1 = put_dig div_q k ((dig s div_q k - 1) AND BN_MASK) s;
          (status, s2) = set_product k t s1
      in if status \<noteq> KC_OK then Some (status, s2)
         else let s3 = set_dividend i s2
              in if BNCompare BnTmp BnTmp1 s3 = BN_BIGGER then div_estimate i t s3 else Some (KC_OK, s3))"

declare div_top.simps [code] div_estimate.simps [code]

text \<open>Step 3.1: the first estimate, increased by one for the loop that follows.\<close>

definition first_estimate :: "nat \<Rightarrow> nat \<Rightarrow> bns \<Rightarrow> bns" where
  "first_estimate i t s =
     (let k = i - t - 1;
          q = (if dig s div_x i = dig s div_y t then BN_MASK
               else let temp = (push_bit BN_BITS (ucast (dig s div_x i)) + ucast (dig s div_x (i - 1)) :: u64)
                               div ucast (dig s div_y t)
                    in ucast (if temp > ucast BN_MASK then ucast BN_MASK else temp))
      in put_dig div_q k ((q + 1) AND BN_MASK) s)"

text \<open>Steps 3.3 and 3.4.\<close>

definition div_subtract :: "nat \<Rightarrow> nat \<Rightarrow> bns \<Rightarrow> u32 \<times> bns" where
  "div_subtract i t s =
     (let k = i - t - 1;
          (status, s1) = BNShiftDigL BnTmp div_y k s
      in if status \<noteq> KC_OK then (status, s1) else
      let (status, s2) = BNMultiply BnTmp1 BnTmp BnTmp2 0 s1
      in if status \<noteq> KC_OK then (status, s2) else
      let (status, s3) = BNSubtract div_x div_x BnTmp1 s2
      in if status \<noteq> KC_OK then (status, s3) else
      if sign s3 div_x then
        let (status, s4) = BNAdd div_x div_x BnTmp s3
        in if status \<noteq> KC_OK then (status, s4)
           else (KC_OK, put_dig div_q k ((dig s4 div_q k - 1) AND BN_MASK) s4)
      else (KC_OK, s3))"

fun div_loop :: "nat \<Rightarrow> nat list \<Rightarrow> bns \<Rightarrow> (u32 \<times> bns) option" where
  "div_loop t [] s = Some (KC_OK, s)"
| "div_loop t (i # is) s =
     (if i > used s div_x then div_loop t is s
      else case div_estimate i t (first_estimate i t s) of
        None \<Rightarrow> None
      | Some (status, s1) \<Rightarrow>
          if status \<noteq> KC_OK then Some (status, s1)
          else case div_subtract i t s1 of
            (status, s2) \<Rightarrow> if status \<noteq> KC_OK then Some (status, s2) else div_loop t is s2)"

text \<open>The part of the division that an error leaves early; with the shift of the normalisation.\<close>

definition div_normalize :: "bn_ref \<Rightarrow> bn_ref \<Rightarrow> bns \<Rightarrow> u32 \<times> nat \<times> bns" where
  "div_normalize a b s =
     (let shift0 = BNBitCount b s mod BN_BITS
      in if shift0 < BN_BITS - 1 then
           let shift = BN_BITS - 1 - shift0;
               (status, s1) = BNShiftBitsL div_y b shift s
           in if status \<noteq> KC_OK then (status, shift, s1)
              else case BNShiftBitsL div_x a shift s1 of (status, s2) \<Rightarrow> (status, shift, s2)
         else (KC_OK, 0, BNCopy div_y b (BNCopy div_x a s)))"

definition div_core :: "bn_ref \<Rightarrow> bn_ref \<Rightarrow> bns \<Rightarrow> (u32 \<times> nat \<times> bns) option" where
  "div_core a b s =
     (let nq = sub32 (used s a) (used s b);
          s1 = set_used div_q nq (BN_ZERO div_q s);
          s2 = fold (\<lambda>i s. put_dig div_q i 0 s) [0..<nq] s1;
          (status, shift, s3) = div_normalize a b s2
      in if status \<noteq> KC_OK then Some (status, shift, s3)
         else
           let n = used s3 div_x - 1; t = used s3 div_y - 1;
               (status, s4) = BNShiftDigL BnTmp div_y (sub32 n t) s3
           in if status \<noteq> KC_OK then Some (status, shift, s4)
              else case div_top (sub32 n t) s4 of
                None \<Rightarrow> None
              | Some s5 \<Rightarrow>
                  (case div_loop t (rev [t + 1..<n + 1]) s5 of
                     None \<Rightarrow> None
                   | Some (status, s6) \<Rightarrow> Some (status, shift, s6)))"

text \<open>\<open>z\<close> and \<open>r\<close> may be NULL.\<close>

definition BNDiv :: "bn_ref option \<Rightarrow> bn_ref \<Rightarrow> bn_ref \<Rightarrow> bn_ref option \<Rightarrow> bns \<Rightarrow> (u32 \<times> bns) option" where
  "BNDiv z a b r s =
     (let on = (\<lambda>p f s. case p of None \<Rightarrow> s | Some ref \<Rightarrow> f ref s)
      in if used s b = 0 then Some (KCERR_INVALID_PARAMETER, s)
         else if used s a = 0 then Some (KC_OK, on z BN_ZERO (on r BN_ZERO s))
         else
           let Compare = BNCompare a b s
           in if Compare = BN_SMALLER then Some (KC_OK, on z BN_ZERO (on r (\<lambda>r. BNCopy r a) s))
              else if Compare = BN_EQUAL
              then Some (KC_OK, on z (\<lambda>z s. put_dig z 0 1 (set_sign z False (set_used z 1 s))) (on r BN_ZERO s))
              else case div_core a b s of
                None \<Rightarrow> None
              | Some (status, shift, s1) \<Rightarrow>
                  let s2 = on z (\<lambda>z s. BNTRIM z (BNCopy z div_q s)) s1;
                      s3 = on r (\<lambda>r s. BNTRIM r (BNShiftBitsR r div_x shift s)) s2
                  in Some (status, s3))"

section \<open>Barrett reduction\<close>

definition BNBarrettSetup :: "bn_ref \<Rightarrow> bns \<Rightarrow> (u32 \<times> bns) option" where
  "BNBarrettSetup m s =
     (case BNSet2Pwr Barrett_u (used s m * 2 * BN_BITS) s of
        (status, s1) \<Rightarrow> if status \<noteq> KC_OK then Some (status, s1) else BNDiv (Some Barrett_u) Barrett_u m None s1)"

text \<open>The final subtractions; after eleven of them the loop gives up.\<close>

function barrett_loop :: "bn_ref \<Rightarrow> bn_ref \<Rightarrow> nat \<Rightarrow> bns \<Rightarrow> u32 \<times> bns" where
  "barrett_loop r m k s =
     (if BNSecureCompare r m s = BN_SMALLER then (KC_OK, s)
      else if k > 10 then (KCERR_BAD_BIGNUMBER, s)
      else case BNSubtract r r m s of
        (status, s1) \<Rightarrow> if status \<noteq> KC_OK then (status, s1) else barrett_loop r m (k + 1) s1)"
  by pat_completeness auto
termination
  by (relation "measure (\<lambda>(r, m, k, s). 11 - k)") auto

definition barrett_core :: "bn_ref \<Rightarrow> bn_ref \<Rightarrow> bn_ref \<Rightarrow> bns \<Rightarrow> u32 \<times> bns" where
  "barrett_core r x m s =
     (let k = used s m; q1 = BarrettTemp 0; q2 = BarrettTemp 1; q3 = BarrettTemp 2;
          s1 = BNShiftDigR q1 x (sub32 k 1) s;
          (status, s2) = BNMultiplyHighDigs q2 q1 Barrett_u (sub32 k 1) s1
      in if status \<noteq> KC_OK then (status, s2) else
      let s3 = BNMod_2Pwr q1 x (BN_BITS * (k + 1)) (BNShiftDigR q3 q2 (k + 1) s2);
          (status, s4) = BNMultiply q2 q3 m (k + 1) s3
      in if status \<noteq> KC_OK then (status, s4) else
      let (status, s5) = BNSubtract r q1 q2 s4
      in if status \<noteq> KC_OK then (status, s5) else
      let (status, s6) =
            (if sign s5 r then
               case BNSet2Pwr q1 ((k + 1) * BN_BITS) s5 of
                 (status, s) \<Rightarrow> if status \<noteq> KC_OK then (status, s) else BNAdd r r q1 s
             else (KC_OK, s5))
      in if status \<noteq> KC_OK then (status, s6) else barrett_loop r m 0 s6)"

definition BNBarrettReduce :: "bn_ref \<Rightarrow> bn_ref \<Rightarrow> bn_ref \<Rightarrow> bns \<Rightarrow> u32 \<times> bns" where
  "BNBarrettReduce r x m s =
     (if used s x > used s m * 2 then (KCERR_BN_INVALID_SIZE, s)
      else if BNSecureCompare x m s = BN_SMALLER then (KC_OK, BNCopy r x s)
      else case barrett_core r x m s of (status, s1) \<Rightarrow> (status, BNTRIM r s1))"

end
