(* ===== verification/Sev_BigNumVal.thy ===== *)
theory Sev_BigNumVal
  imports Sev_BigNum
begin

text \<open>
  The numbers that digit arrays stand for, the frame of a write to one number, and rules for the
  loops of \<open>bignum.c\<close>.
\<close>

section \<open>Values\<close>

definition bn_base :: nat where
  "bn_base = 2 ^ 28"

lemma bn_base_pos [simp]: "0 < bn_base" "bn_base \<noteq> 0" "1 < bn_base" "Suc 0 < bn_base" "1 \<le> bn_base" "Suc 0 \<le> bn_base"
  by (simp_all add: bn_base_def)

lemma bn_base_num: "bn_base = 268435456"
  by (simp add: bn_base_def)

lemma bn_base_power: "bn_base ^ n = 2 ^ (28 * n)"
  by (simp add: bn_base_def power_mult)

definition bval :: "(nat \<Rightarrow> u32) \<Rightarrow> nat \<Rightarrow> nat" where
  "bval d n = (\<Sum>i < n. unat (d i) * bn_base ^ i)"

lemma bval_0 [simp]: "bval d 0 = 0"
  by (simp add: bval_def)

lemma bval_Suc [simp]: "bval d (Suc n) = bval d n + unat (d n) * bn_base ^ n"
  by (simp add: bval_def)

lemma bval_cong: "(\<And>i. i < n \<Longrightarrow> d i = e i) \<Longrightarrow> bval d n = bval e n"
  by (simp add: bval_def)

lemma bval_less: "(\<And>i. i < n \<Longrightarrow> unat (d i) < bn_base) \<Longrightarrow> bval d n < bn_base ^ n"
proof (induction n)
  case (Suc n)
  have "bval d n < bn_base ^ n" by (rule Suc.IH) (simp add: Suc.prems)
  moreover have "(unat (d n) + 1) * bn_base ^ n \<le> bn_base * bn_base ^ n"
    using Suc.prems [of n] by (intro mult_right_mono) (simp_all add: Suc_le_eq)
  ultimately show ?case by (simp add: distrib_right)
qed simp

lemma bval_shift: "bval d (m + n) = bval d m + bn_base ^ m * bval (\<lambda>i. d (m + i)) n"
  by (induction n) (simp_all add: power_add algebra_simps)

lemma bval_zeros: "m \<le> n \<Longrightarrow> (\<And>i. m \<le> i \<Longrightarrow> i < n \<Longrightarrow> d i = 0) \<Longrightarrow> bval d n = bval d m"
proof (induction n)
  case (Suc n)
  show ?case
  proof (cases "m = Suc n")
    case False
    then have "m \<le> n" using Suc.prems(1) by simp
    then show ?thesis using Suc.IH Suc.prems(2) by simp
  qed simp
qed simp

lemma bval_mod: "(\<And>i. i < m \<Longrightarrow> unat (d i) < bn_base) \<Longrightarrow> m \<le> n \<Longrightarrow> bval d n mod bn_base ^ m = bval d m"
  using bval_shift [of d m "n - m"] bval_less [of m d] by simp

lemma bval_div: "(\<And>i. i < m \<Longrightarrow> unat (d i) < bn_base) \<Longrightarrow> m \<le> n \<Longrightarrow> bval d n div bn_base ^ m = bval (\<lambda>i. d (m + i)) (n - m)"
  using bval_shift [of d m "n - m"] bval_less [of m d] by simp

lemma bval_top_le: "0 < n \<Longrightarrow> unat (d (n - 1)) * bn_base ^ (n - 1) \<le> bval d n"
  by (cases n) simp_all

lemma bval_pos: "0 < n \<Longrightarrow> d (n - 1) \<noteq> 0 \<Longrightarrow> bn_base ^ (n - 1) \<le> bval d n"
proof -
  assume "0 < n" "d (n - 1) \<noteq> 0"
  then have "1 * bn_base ^ (n - 1) \<le> unat (d (n - 1)) * bn_base ^ (n - 1)"
    by (intro mult_right_mono) (simp_all add: Suc_le_eq unat_gt_0)
  also have "\<dots> \<le> bval d n" by (rule bval_top_le) fact
  finally show ?thesis by simp
qed

section \<open>The store\<close>

definition num :: "bns \<Rightarrow> bn_ref \<Rightarrow> nat" where
  "num s r = bval (dig s r) (used s r)"

definition bn_ok :: "bns \<Rightarrow> bn_ref \<Rightarrow> bool" where
  "bn_ok s r \<longleftrightarrow> length (bn_data (s r)) = 80 \<and> used s r \<le> 80 \<and> (\<forall>i < used s r. unat (dig s r i) < bn_base)"

definition trimmed :: "bns \<Rightarrow> bn_ref \<Rightarrow> bool" where
  "trimmed s r \<longleftrightarrow> used s r = 0 \<or> dig s r (used s r - 1) \<noteq> 0"

definition room :: "bns \<Rightarrow> bn_ref \<Rightarrow> bool" where
  "room s r \<longleftrightarrow> length (bn_data (s r)) = 80"

definition clean :: "bns \<Rightarrow> bn_ref \<Rightarrow> bool" where
  "clean s r \<longleftrightarrow> (\<forall>i. used s r \<le> i \<longrightarrow> i < 80 \<longrightarrow> dig s r i = 0)"

text \<open>Nothing but the digits of \<open>z\<close> differs.\<close>

definition digits_only :: "bn_ref \<Rightarrow> bns \<Rightarrow> bns \<Rightarrow> bool" where
  "digits_only z s s' \<longleftrightarrow> (\<forall>r. r \<noteq> z \<longrightarrow> s' r = s r) \<and> used s' z = used s z \<and> sign s' z = sign s z \<and>
     length (bn_data (s' z)) = length (bn_data (s z))"

definition others_same :: "bn_ref \<Rightarrow> bns \<Rightarrow> bns \<Rightarrow> bool" where
  "others_same z s s' \<longleftrightarrow> (\<forall>r. r \<noteq> z \<longrightarrow> s' r = s r)"

lemma dig_put: "dig (put_dig z i v s) r j = (if r = z \<and> i = j \<and> i < length (bn_data (s z)) then v else dig s r j)"
  by (cases "i < length (bn_data (s z))") (simp_all add: dig_def put_dig_def nth_list_update list_update_beyond)

lemma dig_set [simp]: "dig (set_used z n s) r = dig s r" "dig (set_sign z b s) r = dig s r"
  by (simp_all add: fun_eq_iff dig_def set_used_def set_sign_def)

lemma store_fields [simp]:
  "used (put_dig z i v s) r = used s r" "sign (put_dig z i v s) r = sign s r"
  "length (bn_data (put_dig z i v s r)) = length (bn_data (s r))"
  "used (set_used z n s) r = (if r = z then n else used s r)" "sign (set_used z n s) r = sign s r"
  "bn_data (set_used z n s r) = bn_data (s r)" "bn_data (set_sign z b s r) = bn_data (s r)"
  "used (set_sign z b s) r = used s r" "sign (set_sign z b s) r = (if r = z then b else sign s r)"
  by (simp_all add: put_dig_def set_used_def set_sign_def)

lemma store_other [simp]:
  "r \<noteq> z \<Longrightarrow> put_dig z i v s r = s r" "r \<noteq> z \<Longrightarrow> set_used z n s r = s r" "r \<noteq> z \<Longrightarrow> set_sign z b s r = s r"
  by (simp_all add: put_dig_def set_used_def set_sign_def)

lemma digits_only_refl [simp]: "digits_only z s s"
  by (simp add: digits_only_def)

lemma digits_only_put: "digits_only z s s' \<Longrightarrow> digits_only z s (put_dig z i v s')"
  by (simp add: digits_only_def)

lemma digits_only_trans: "digits_only z s s' \<Longrightarrow> digits_only z s' s'' \<Longrightarrow> digits_only z s s''"
  by (simp add: digits_only_def)

lemma digits_only_used: "digits_only z s s' \<Longrightarrow> used s' r = used s r" "digits_only z s s' \<Longrightarrow> sign s' r = sign s r"
  "digits_only z s s' \<Longrightarrow> length (bn_data (s' r)) = length (bn_data (s r))"
  by (cases "r = z"; simp add: digits_only_def)+

lemma digits_only_dig: "digits_only z s s' \<Longrightarrow> r \<noteq> z \<Longrightarrow> dig s' r i = dig s r i"
  by (simp add: digits_only_def dig_def)

lemma digits_only_others: "digits_only z s s' \<Longrightarrow> others_same z s s'"
  by (simp add: digits_only_def others_same_def)

lemma others_same_refl [simp]: "others_same z s s"
  by (simp add: others_same_def)

lemma others_same_trans: "others_same z s s' \<Longrightarrow> others_same z s' s'' \<Longrightarrow> others_same z s s''"
  by (simp add: others_same_def)

lemma others_same_set [simp]:
  "others_same z s (put_dig z i v s') = others_same z s s'" "others_same z s (set_used z n s') = others_same z s s'"
  "others_same z s (set_sign z b s') = others_same z s s'"
  by (simp_all add: others_same_def)

lemma same_object:
  assumes "s' r = s r"
  shows "num s' r = num s r" "bn_ok s' r = bn_ok s r" "trimmed s' r = trimmed s r" "clean s' r = clean s r"
    "room s' r = room s r" "dig s' r = dig s r"
proof -
  show d: "dig s' r = dig s r" using assms by (simp add: fun_eq_iff dig_def)
  show "num s' r = num s r" "bn_ok s' r = bn_ok s r" "trimmed s' r = trimmed s r" "clean s' r = clean s r"
    "room s' r = room s r"
    using assms by (simp_all add: num_def bn_ok_def trimmed_def clean_def room_def d)
qed

lemma others_num: "others_same z s s' \<Longrightarrow> r \<noteq> z \<Longrightarrow> s' r = s r"
  by (simp add: others_same_def)

lemma bn_ok_room: "bn_ok s r \<Longrightarrow> room s r"
  by (simp add: bn_ok_def room_def)

lemma bn_ok_dig: "bn_ok s r \<Longrightarrow> i < used s r \<Longrightarrow> unat (dig s r i) < bn_base"
  by (simp add: bn_ok_def)

lemma num_less: "bn_ok s r \<Longrightarrow> num s r < bn_base ^ used s r"
  by (simp add: num_def bn_ok_def bval_less)

lemma num_ge: "trimmed s r \<Longrightarrow> 0 < used s r \<Longrightarrow> bn_base ^ (used s r - 1) \<le> num s r"
  unfolding num_def trimmed_def using bval_pos [of "used s r" "dig s r"] by auto

lemma num_zero: "used s r = 0 \<Longrightarrow> num s r = 0"
  by (simp add: num_def)

lemma num_zero_iff: "trimmed s r \<Longrightarrow> num s r = 0 \<longleftrightarrow> used s r = 0"
  using num_ge [of s r] less_le_trans [OF zero_less_power [of bn_base "used s r - 1"], of "num s r"]
  by (cases "used s r = 0") (auto simp: num_zero)

section \<open>Loops\<close>

lemma fold_upt_invariant:
  assumes "P m st" and "m \<le> n" and "\<And>i st. m \<le> i \<Longrightarrow> i < n \<Longrightarrow> P i st \<Longrightarrow> P (Suc i) (f i st)"
  shows "P n (fold f [m..<n] st)"
  using assms(2,3)
proof (induction n)
  case 0
  then show ?case using assms(1) by simp
next
  case (Suc n)
  show ?case
  proof (cases "m = Suc n")
    case True
    then show ?thesis using assms(1) by simp
  next
    case False
    then have "m \<le> n" using Suc.prems(1) by simp
    then show ?thesis using Suc.IH Suc.prems(2) by simp
  qed
qed

lemma fold_down_invariant:
  assumes "P n st" and "m \<le> n" and "\<And>i st. m \<le> i \<Longrightarrow> i < n \<Longrightarrow> P (Suc i) st \<Longrightarrow> P i (f i st)"
  shows "P m (fold f (rev [m..<n]) st)"
  using assms
proof (induction n arbitrary: st)
  case 0
  then show ?case by simp
next
  case (Suc n)
  show ?case
  proof (cases "m = Suc n")
    case True
    then show ?thesis using Suc.prems(1) by simp
  next
    case False
    then have le: "m \<le> n" using Suc.prems(2) by simp
    have "P n (f n st)" using Suc.prems(1,3) le by simp
    then show ?thesis using Suc.IH [OF _ le] Suc.prems(3) le by simp
  qed
qed

end
