(* ===== verification/Sev_BigNumOps.thy ===== *)
theory Sev_BigNumOps
  imports Sev_BigNumVal
begin

text \<open>
  What the linear operations of \<open>bignum.c\<close> compute: sums, differences and comparisons.
\<close>

section \<open>Digits\<close>

lemma BN_MASK_eq: "BN_MASK = mask 28"
  by (simp add: BN_MASK_def mask_eq_exp_minus_1)

lemma unat_mask [simp]: "unat (w AND BN_MASK) = unat w mod bn_base" for w :: u32
  by (simp only: BN_MASK_eq bn_base_def take_bit_eq_mask [symmetric] unsigned_take_bit_eq)
    (simp only: take_bit_eq_mod)

lemma unat_carry [simp]: "unat (drop_bit BN_BITS w) = unat w div bn_base" for w :: u32
  by (simp add: BN_BITS_def bn_base_def drop_bit_eq_div unat_div)

lemma unat_add_small: "unat a + unat b < 2 ^ 32 \<Longrightarrow> unat (a + b) = unat a + unat b" for a b :: u32
  using unat_add_lem [of a b] by simp

lemma unat_sub_small: "unat b \<le> unat a \<Longrightarrow> unat (a - b) = unat a - unat b" for a b :: u32
  by (simp add: unat_sub_if_size word_le_nat_alt)

text \<open>The loops write a digit after they have read it: what lies above is as it was.\<close>

definition written :: "bn_ref \<Rightarrow> nat \<Rightarrow> bns \<Rightarrow> bns \<Rightarrow> bool" where
  "written z i s s' \<longleftrightarrow> digits_only z s s' \<and> (\<forall>j < i. unat (dig s' z j) < bn_base) \<and> (\<forall>j \<ge> i. dig s' z j = dig s z j)"

lemma written_0 [simp]: "written z 0 s s"
  by (simp add: written_def)

lemma written_dig: "written z i s s' \<Longrightarrow> i \<le> j \<Longrightarrow> dig s' r j = dig s r j"
  unfolding written_def using digits_only_dig by (cases "r = z") auto

lemma written_put:
  assumes "written z i s s'" "room s z" "i < 80" "unat v < bn_base"
  shows "written z (Suc i) s (put_dig z i v s')" "bval (dig (put_dig z i v s') z) (Suc i) = bval (dig s' z) i + unat v * bn_base ^ i"
proof -
  have len: "length (bn_data (s' z)) = 80" using assms(1,2) by (simp add: written_def digits_only_def room_def)
  show "written z (Suc i) s (put_dig z i v s')"
    using assms len by (auto simp: written_def dig_put intro: digits_only_put simp: less_Suc_eq)
  have "bval (dig (put_dig z i v s') z) i = bval (dig s' z) i"
    by (rule bval_cong) (simp add: dig_put)
  then show "bval (dig (put_dig z i v s') z) (Suc i) = bval (dig s' z) i + unat v * bn_base ^ i"
    using len assms(3) by (simp add: dig_put)
qed

section \<open>Trimming\<close>

lemma trim_used_le: "trim_used d n \<le> n"
  by (induction n) auto

lemma trim_used_top: "trim_used d n = 0 \<or> d ! (trim_used d n - 1) \<noteq> 0"
  by (induction n) auto

lemma trim_used_zeros: "trim_used d n \<le> i \<Longrightarrow> i < n \<Longrightarrow> d ! i = 0"
  by (induction n) (auto simp: less_Suc_eq split: if_splits)

lemma BNTRIM_fields [simp]:
  "dig (BNTRIM z s) r = dig s r" "sign (BNTRIM z s) r = sign s r" "r \<noteq> z \<Longrightarrow> BNTRIM z s r = s r"
  "bn_data (BNTRIM z s r) = bn_data (s r)" "others_same z s (BNTRIM z s') = others_same z s s'"
  by (simp_all add: BNTRIM_def)

lemma BNTRIM_le: "used (BNTRIM z s) z \<le> used s z"
  by (simp add: BNTRIM_def trim_used_le)

lemma BNTRIM_trimmed: "trimmed (BNTRIM z s) z"
  using trim_used_top [of "bn_data (s z)" "used s z"] by (auto simp: BNTRIM_def trimmed_def dig_def set_used_def)

lemma BNTRIM_zeros: "used (BNTRIM z s) z \<le> i \<Longrightarrow> i < used s z \<Longrightarrow> dig s z i = 0"
  using trim_used_zeros [of "bn_data (s z)" "used s z" i] by (simp add: BNTRIM_def dig_def)

lemma BNTRIM_num: "num (BNTRIM z s) z = num s z"
proof -
  have "bval (dig s z) (used s z) = bval (dig s z) (used (BNTRIM z s) z)"
    by (rule bval_zeros [OF BNTRIM_le]) (rule BNTRIM_zeros)
  then show ?thesis by (simp add: num_def)
qed

lemma BNTRIM_ok: "bn_ok s z \<Longrightarrow> bn_ok (BNTRIM z s) z"
  using BNTRIM_le [of z s] by (simp add: bn_ok_def)

lemma BNTRIM_eq: "trimmed s z \<Longrightarrow> BNTRIM z s = s"
proof -
  assume "trimmed s z"
  then have "trim_used (bn_data (s z)) (used s z) = used s z"
    by (cases "used s z") (auto simp: trimmed_def dig_def)
  then show ?thesis by (simp add: BNTRIM_def set_used_def)
qed

section \<open>Sums\<close>

definition add_inv :: "bn_ref \<Rightarrow> bns \<Rightarrow> nat \<Rightarrow> nat \<Rightarrow> u32 \<times> bns \<Rightarrow> bool" where
  "add_inv z s v i = (\<lambda>(c, s'). written z i s s' \<and> unat c \<le> 1 \<and> bval (dig s' z) i + unat c * bn_base ^ i = v)"

lemma add_inv_0: "add_inv z s 0 0 (0, s)"
  by (simp add: add_inv_def)

lemma add_inv_step:
  assumes "add_inv z s v i (c, s')" and "room s z" "i < 80"
    and d: "unat d = e + unat c" and e: "e < 2 * bn_base - 1"
  shows "add_inv z s (v + e * bn_base ^ i) (Suc i) (add_digit z i d (c, s'))"
proof -
  let ?m = "d AND BN_MASK" and ?c = "drop_bit BN_BITS d"
  have w: "written z i s s'" and c: "unat c \<le> 1" and val: "bval (dig s' z) i + unat c * bn_base ^ i = v"
    using assms(1) by (simp_all add: add_inv_def)
  have "unat d < 2 * bn_base" using d e c by simp
  then have c': "unat ?c \<le> 1" using less_mult_imp_div_less [of "unat d" 2 bn_base] by simp
  have m: "unat ?m < bn_base" by simp
  have "e + unat c = unat ?m + unat ?c * bn_base" unfolding d [symmetric] by simp
  then have "(e + unat c) * bn_base ^ i = unat ?m * bn_base ^ i + unat ?c * bn_base ^ Suc i"
    by (metis distrib_right mult.assoc power_Suc)
  then have "bval (dig s' z) i + unat ?m * bn_base ^ i + unat ?c * bn_base ^ Suc i = v + e * bn_base ^ i"
    using val by (simp add: distrib_right)
  then show ?thesis
    using written_put [OF w assms(2,3) m] c' by (simp add: add_inv_def add_digit_def del: bval_Suc)
qed

lemma add_loop:
  assumes "add_inv z s v a st" "a \<le> b" "b \<le> 80" "room s z"
    and d: "\<And>i c s'. a \<le> i \<Longrightarrow> i < b \<Longrightarrow> written z i s s' \<Longrightarrow> unat c \<le> 1 \<Longrightarrow> unat (d i (c, s')) = e i + unat c"
    and e: "\<And>i. a \<le> i \<Longrightarrow> i < b \<Longrightarrow> e i < 2 * bn_base - 1"
  shows "add_inv z s (v + (\<Sum>i = a..<b. e i * bn_base ^ i)) b (fold (\<lambda>i st. add_digit z i (d i st) st) [a..<b] st)"
proof -
  let ?P = "\<lambda>i st. add_inv z s (v + (\<Sum>i = a..<i. e i * bn_base ^ i)) i st"
  show ?thesis
  proof (rule fold_upt_invariant [where P = ?P])
    fix i st assume i: "a \<le> i" "i < b" and P: "?P i st"
    obtain c s' where st: "st = (c, s')" by (cases st)
    have "unat (d i st) = e i + unat c"
      using d [OF i, of s' c] P by (simp add: st add_inv_def)
    then show "?P (Suc i) (add_digit z i (d i st) st)"
      using add_inv_step [OF P [unfolded st] assms(4) _ _ e [OF i]] i assms(3) by (simp add: st sum.atLeastLessThan_Suc add.assoc)
  qed (use assms in simp_all)
qed

lemma bval_sum: "a \<le> b \<Longrightarrow> bval d b = bval d a + (\<Sum>i = a..<b. unat (d i) * bn_base ^ i)"
  unfolding bval_def lessThan_atLeast0 by (simp add: sum.atLeastLessThan_concat)

lemma BNAddAbs_spec:
  assumes x: "bn_ok s x" and y: "bn_ok s y" and z: "room s z" and small: "used s x < 80" "used s y < 80"
    and run: "BNAddAbs z x y s = (status, s')"
  shows "status = KC_OK" "others_same z s s'" "bn_ok s' z" "trimmed s' z" "num s' z = num s x + num s y" "sign s' z = sign s x"
proof -
  define hi where "hi = (if used s x > used s y then x else y)"
  define lo where "lo = (if used s x > used s y then y else x)"
  have pair: "(if used s x > used s y then (x, y) else (y, x)) = (hi, lo)" by (simp add: hi_def lo_def)
  have ok: "bn_ok s hi" "bn_ok s lo" and le: "used s lo \<le> used s hi" and n80: "used s hi < 80"
    and total: "num s x + num s y = num s hi + num s lo"
    using x y small by (auto simp: hi_def lo_def)
  let ?l = "used s lo" and ?n = "used s hi"
  let ?d1 = "\<lambda>i st. dig (snd st) x i + dig (snd st) y i + fst st"
  let ?d2 = "\<lambda>i st. dig (snd st) hi i + fst st"
  define st1 where "st1 = fold (\<lambda>i st. add_digit z i (?d1 i st) st) [0..<?l] (0, s)"
  define st2 where "st2 = fold (\<lambda>i st. add_digit z i (?d2 i st) st) [?l..<?n] st1"
  let ?e1 = "\<lambda>i. unat (dig s x i) + unat (dig s y i)"
  have "add_inv z s (0 + (\<Sum>i = 0..<?l. ?e1 i * bn_base ^ i)) ?l st1"
    unfolding st1_def
  proof (rule add_loop [OF add_inv_0])
    fix i c s' assume i: "0 \<le> i" "i < ?l" and w: "written z i s s'" and c: "unat (c :: u32) \<le> 1"
    have b: "unat (dig s x i) < bn_base" "unat (dig s y i) < bn_base"
      using bn_ok_dig [OF x, of i] bn_ok_dig [OF y, of i] i le by (auto simp: hi_def lo_def split: if_splits)
    have e: "unat (dig s x i + dig s y i) = unat (dig s x i) + unat (dig s y i)"
      using b by (intro unat_add_small) (simp add: bn_base_num)
    have "unat (dig s x i + dig s y i + c) = ?e1 i + unat c"
      using b c e by (subst unat_add_small) (simp_all add: bn_base_num)
    then show "unat (?d1 i (c, s')) = ?e1 i + unat c"
      using written_dig [OF w] by simp
  next
    fix i assume i: "0 \<le> i" "i < ?l"
    show "?e1 i < 2 * bn_base - 1"
      using bn_ok_dig [OF x, of i] bn_ok_dig [OF y, of i] i le by (auto simp: hi_def lo_def split: if_splits)
  qed (use z le n80 in simp_all)
  moreover have "(\<Sum>i = 0..<?l. ?e1 i * bn_base ^ i) = bval (dig s hi) ?l + bval (dig s lo) ?l"
    by (simp add: bval_def lessThan_atLeast0 distrib_right sum.distrib hi_def lo_def)
  ultimately have st1: "add_inv z s (bval (dig s hi) ?l + bval (dig s lo) ?l) ?l st1" by simp
  have "add_inv z s (bval (dig s hi) ?l + bval (dig s lo) ?l + (\<Sum>i = ?l..<?n. unat (dig s hi i) * bn_base ^ i)) ?n st2"
    unfolding st2_def
  proof (rule add_loop [OF st1])
    fix i c s' assume i: "?l \<le> i" "i < ?n" and w: "written z i s s'" and c: "unat (c :: u32) \<le> 1"
    have "unat (dig s hi i + c) = unat (dig s hi i) + unat c"
      using bn_ok_dig [OF ok(1) i(2)] c by (subst unat_add_small) (simp_all add: bn_base_num)
    then show "unat (?d2 i (c, s')) = unat (dig s hi i) + unat c"
      using written_dig [OF w] by simp
  next
    fix i assume "?l \<le> i" "i < ?n"
    then show "unat (dig s hi i) < 2 * bn_base - 1" using bn_ok_dig [OF ok(1)] by fastforce
  qed (use z le n80 in simp_all)
  then have "add_inv z s (num s x + num s y) ?n st2"
    using bval_sum [OF le, of "dig s hi"] total by (simp add: num_def algebra_simps)
  then obtain c s2 where st2: "st2 = (c, s2)" and w: "written z ?n s s2" and c: "unat c \<le> 1"
    and val: "bval (dig s2 z) ?n + unat c * bn_base ^ ?n = num s x + num s y"
    by (cases st2) (auto simp: add_inv_def)
  have c': "unat c < bn_base" using c by (simp add: le_less_trans)
  define s3 where "s3 = put_dig z ?n c s2"
  have w3: "written z (Suc ?n) s s3" and val3: "bval (dig s3 z) (Suc ?n) = num s x + num s y"
    using written_put [OF w z n80 c'] val by (simp_all add: s3_def)
  define s4 where "s4 = set_sign z (sign s3 x) (set_used z (Suc ?n) s3)"
  have s': "status = KC_OK" "s' = BNTRIM z s4"
    using run pair n80 unfolding BNAddAbs_def
    by (simp_all add: Let_def case_prod_beta st1_def [symmetric] st2_def [symmetric] st2 s3_def s4_def MAX_BN_ELEMENTS_def)
  have d: "digits_only z s s3" using w3 by (simp add: written_def)
  have ok4: "bn_ok s4 z"
    using w3 z n80 digits_only_used(3) [OF d, of z] by (simp add: bn_ok_def s4_def written_def room_def)
  have num4: "num s4 z = num s x + num s y" using val3 by (simp add: num_def s4_def del: bval_Suc)
  show "status = KC_OK" "others_same z s s'" "bn_ok s' z" "trimmed s' z" "num s' z = num s x + num s y" "sign s' z = sign s x"
    using s' ok4 num4 digits_only_others [OF d] digits_only_used [OF d]
    by (simp_all add: BNTRIM_ok BNTRIM_trimmed BNTRIM_num s4_def)
qed


section \<open>Comparison\<close>

lemma compare_digits_spec:
  assumes "\<And>i. i < n \<Longrightarrow> unat (dig s x i) < bn_base" "\<And>i. i < n \<Longrightarrow> unat (dig s y i) < bn_base"
  shows "compare_digits s x y n =
    (if bval (dig s x) n > bval (dig s y) n then BN_BIGGER else if bval (dig s x) n < bval (dig s y) n then BN_SMALLER else BN_EQUAL)"
  using assms
proof (induction n)
  case (Suc n)
  have top: "bval d n + unat (d n) * bn_base ^ n < bval e n + unat (e n) * bn_base ^ n"
    if lt: "unat (d n) < unat (e n)" and "bval d n < bn_base ^ n" for d e :: "nat \<Rightarrow> u32"
  proof -
    have "(unat (d n) + 1) * bn_base ^ n \<le> unat (e n) * bn_base ^ n" using lt by (intro mult_right_mono) simp_all
    then show ?thesis using that(2) by simp
  qed
  have less: "bval (dig s x) n < bn_base ^ n" "bval (dig s y) n < bn_base ^ n"
    by (rule bval_less; simp add: Suc.prems)+
  have IH: "compare_digits s x y n =
    (if bval (dig s x) n > bval (dig s y) n then BN_BIGGER else if bval (dig s x) n < bval (dig s y) n then BN_SMALLER else BN_EQUAL)"
    using Suc by simp
  show ?case
    using top [of "dig s x" "dig s y"] top [of "dig s y" "dig s x"] less IH
    by (auto simp: word_less_nat_alt not_less)
qed simp

text \<open>The comparison is one of values for numbers without leading zero digits; that of 0 with 0 is
  the exception.\<close>

lemma num_used_less:
  assumes "bn_ok s x" "trimmed s y" "used s x < used s y" shows "num s x < num s y"
proof -
  have "num s x < bn_base ^ used s x" using assms(1) by (rule num_less)
  also have "\<dots> \<le> bn_base ^ (used s y - 1)" using assms(3) by (intro power_increasing) simp_all
  also have "\<dots> \<le> num s y" using assms by (intro num_ge) simp_all
  finally show ?thesis .
qed

lemma BNCompare_spec:
  assumes "bn_ok s x" "bn_ok s y" "trimmed s x" "trimmed s y"
  shows "BNCompare x y s =
    (if num s x > num s y then BN_BIGGER else if num s x < num s y then BN_SMALLER
     else if num s x = 0 then BN_BIGGER else BN_EQUAL)"
proof (cases "used s x" "used s y" rule: linorder_cases)
  case less
  then show ?thesis using num_used_less [of s x y] assms by (simp add: BNCompare_def)
next
  case greater
  then show ?thesis using num_used_less [of s y x] assms by (simp add: BNCompare_def)
next
  case equal
  have "compare_digits s x y (used s x) =
    (if num s x > num s y then BN_BIGGER else if num s x < num s y then BN_SMALLER else BN_EQUAL)"
    unfolding num_def using compare_digits_spec [of "used s x" s x y] assms(1,2) equal by (simp add: bn_ok_dig)
  then show ?thesis
    using equal num_zero_iff [OF assms(3)] num_zero_iff [OF assms(4)] by (auto simp: BNCompare_def)
qed

lemma BN_codes [simp]: "BN_BIGGER \<noteq> BN_SMALLER" "BN_SMALLER \<noteq> BN_BIGGER" "BN_EQUAL \<noteq> BN_SMALLER" "BN_SMALLER \<noteq> BN_EQUAL"
  "BN_EQUAL \<noteq> BN_BIGGER" "BN_BIGGER \<noteq> BN_EQUAL"
  by (simp_all add: BN_BIGGER_def BN_SMALLER_def BN_EQUAL_def)

section \<open>Differences\<close>

definition sub_inv :: "bn_ref \<Rightarrow> bns \<Rightarrow> nat \<Rightarrow> nat \<Rightarrow> nat \<Rightarrow> u32 \<times> bns \<Rightarrow> bool" where
  "sub_inv z s u v i = (\<lambda>(c, s'). written z i s s' \<and> unat c \<le> 1 \<and> bval (dig s' z) i + v = u + unat c * bn_base ^ i)"

lemma sub_inv_0: "sub_inv z s 0 0 0 (0, s)"
  by (simp add: sub_inv_def)

lemma sub_inv_step:
  assumes "sub_inv z s u v i (c, s')" and "room s z" "i < 80"
    and t: "unat t = e + unat c" and e: "e < bn_base" and a: "unat (dig s x i) < bn_base"
  shows "sub_inv z s (u + unat (dig s x i) * bn_base ^ i) (v + e * bn_base ^ i) (Suc i) (sub_digit z x i t (c, s'))"
proof -
  have w: "written z i s s'" and c: "unat c \<le> 1" and val: "bval (dig s' z) i + v = u + unat c * bn_base ^ i"
    using assms(1) by (simp_all add: sub_inv_def)
  have rd: "dig s' x i = dig s x i" using w by (rule written_dig) simp
  define b :: u32 where "b = (if t > dig s x i then 1 else 0)"
  define r where "r = dig s x i + push_bit BN_BITS b - t"
  have b1: "unat b \<le> 1" by (simp add: b_def)
  have pb: "unat (push_bit BN_BITS b) = unat b * bn_base" by (simp add: b_def BN_BITS_def bn_base_def push_bit_of_1)
  have t_le: "unat t \<le> bn_base" using t c e by simp
  have up: "unat (dig s x i + push_bit BN_BITS b) = unat (dig s x i) + unat b * bn_base"
    using a b1 by (subst unat_add_small) (simp_all add: pb bn_base_num)
  have ge: "unat t \<le> unat (dig s x i) + unat b * bn_base"
    using t_le by (auto simp: b_def word_less_nat_alt not_less trans_le_add2)
  have lt: "unat (dig s x i) + unat b * bn_base < unat t + bn_base"
    using a by (auto simp: b_def word_less_nat_alt)
  have r: "unat r + unat t = unat (dig s x i) + unat b * bn_base"
    unfolding r_def using ge by (subst unat_sub_small) (simp_all add: up)
  then have small: "unat r < bn_base" using lt by simp
  have "(unat r + (e + unat c)) * bn_base ^ i = (unat (dig s x i) + unat b * bn_base) * bn_base ^ i"
    using r t by simp
  then have "bval (dig s' z) i + unat r * bn_base ^ i + (v + e * bn_base ^ i) =
      u + unat (dig s x i) * bn_base ^ i + unat b * bn_base ^ Suc i"
    using val by (simp add: distrib_right)
  then show ?thesis
    using written_put [OF w assms(2,3) small] b1 rd
    by (simp add: sub_inv_def sub_digit_def b_def [symmetric] r_def [symmetric] del: bval_Suc)
qed

lemma sub_loop:
  assumes "sub_inv z s u v a st" "a \<le> b" "b \<le> 80" "room s z"
    and x: "\<And>i. a \<le> i \<Longrightarrow> i < b \<Longrightarrow> unat (dig s x i) < bn_base"
    and t: "\<And>i c s'. a \<le> i \<Longrightarrow> i < b \<Longrightarrow> written z i s s' \<Longrightarrow> unat c \<le> 1 \<Longrightarrow> unat (t i (c, s')) = e i + unat c"
    and e: "\<And>i. a \<le> i \<Longrightarrow> i < b \<Longrightarrow> e i < bn_base"
  shows "sub_inv z s (u + (\<Sum>i = a..<b. unat (dig s x i) * bn_base ^ i)) (v + (\<Sum>i = a..<b. e i * bn_base ^ i)) b
    (fold (\<lambda>i st. sub_digit z x i (t i st) st) [a..<b] st)"
proof -
  let ?P = "\<lambda>i st. sub_inv z s (u + (\<Sum>i = a..<i. unat (dig s x i) * bn_base ^ i)) (v + (\<Sum>i = a..<i. e i * bn_base ^ i)) i st"
  show ?thesis
  proof (rule fold_upt_invariant [where P = ?P])
    fix i st assume i: "a \<le> i" "i < b" and P: "?P i st"
    obtain c s' where st: "st = (c, s')" by (cases st)
    have "unat (t i st) = e i + unat c"
      using t [OF i, of s' c] P by (simp add: st sub_inv_def)
    then show "?P (Suc i) (sub_digit z x i (t i st) st)"
      using sub_inv_step [OF P [unfolded st] assms(4) _ _ e [OF i] x [OF i]] i assms(3)
      by (simp add: st sum.atLeastLessThan_Suc add.assoc)
  qed (use assms in simp_all)
qed

text \<open>The two loops, for a minuend that is not less.\<close>

lemma sub_loops:
  assumes hi: "bn_ok s hi" and lo: "bn_ok s lo" and le: "num s lo \<le> num s hi" "used s lo \<le> used s hi" and z: "room s z"
    and st: "st = fold (\<lambda>i st. sub_digit z hi i (dig (snd st) lo i + fst st) st) [0..<used s lo] (0, s)"
    and run: "fold (\<lambda>i st. sub_digit z hi i (fst st) st) [used s lo..<used s hi] st = (c, s')"
  shows "written z (used s hi) s s'" "bval (dig s' z) (used s hi) = num s hi - num s lo"
proof -
  let ?l = "used s lo" and ?n = "used s hi"
  have n80: "?n \<le> 80" using hi by (simp add: bn_ok_def)
  have "sub_inv z s (0 + (\<Sum>i = 0..<?l. unat (dig s hi i) * bn_base ^ i)) (0 + (\<Sum>i = 0..<?l. unat (dig s lo i) * bn_base ^ i)) ?l st"
    unfolding st
  proof (rule sub_loop [OF sub_inv_0])
    fix i c s' assume i: "0 \<le> i" "i < ?l" and w: "written z i s s'" and c: "unat (c :: u32) \<le> 1"
    have "unat (dig s lo i + c) = unat (dig s lo i) + unat c"
      using bn_ok_dig [OF lo i(2)] c by (subst unat_add_small) (simp_all add: bn_base_num)
    then show "unat (dig (snd (c, s')) lo i + fst (c, s')) = unat (dig s lo i) + unat c"
      using written_dig [OF w] by simp
  qed (use z n80 le bn_ok_dig [OF hi] bn_ok_dig [OF lo] in simp_all)
  then have "sub_inv z s (bval (dig s hi) ?l) (num s lo) ?l st"
    by (simp add: num_def bval_def lessThan_atLeast0)
  then have "sub_inv z s (bval (dig s hi) ?l + (\<Sum>i = ?l..<?n. unat (dig s hi i) * bn_base ^ i))
      (num s lo + (\<Sum>i = ?l..<?n. 0 * bn_base ^ i)) ?n (c, s')"
    unfolding run [symmetric]
    by (rule sub_loop) (use z n80 le bn_ok_dig [OF hi] in simp_all)
  then have inv: "sub_inv z s (num s hi) (num s lo) ?n (c, s')"
    using bval_sum [OF le(2), of "dig s hi"] by (simp add: num_def)
  then show w: "written z ?n s s'" by (simp add: sub_inv_def)
  have val: "bval (dig s' z) ?n + num s lo = num s hi + unat c * bn_base ^ ?n" using inv by (simp add: sub_inv_def)
  have "bval (dig s' z) ?n < bn_base ^ ?n" using w by (intro bval_less) (simp add: written_def)
  then have "unat c = 0" using val le(1) inv by (cases "unat c = 0") (auto simp: sub_inv_def le_Suc_eq)
  then show "bval (dig s' z) ?n = num s hi - num s lo" using val by simp
qed

lemma BNSubtractAbs_spec:
  assumes ok: "bn_ok s x" "bn_ok s y" and tr: "trimmed s x" "trimmed s y" and z: "room s z"
    and run: "BNSubtractAbs z x y s = (status, s')"
  shows "status = KC_OK" "others_same z s s'" "bn_ok s' z" "trimmed s' z"
    "int (num s' z) = \<bar>int (num s x) - int (num s y)\<bar>"
    "num s x \<noteq> num s y \<Longrightarrow> sign s' z = (if num s x < num s y then \<not> sign s x else sign s x)"
    "num s x = num s y \<Longrightarrow> \<not> sign s x \<Longrightarrow> \<not> sign s' z"
    "max (used s x) (used s y) \<le> j \<Longrightarrow> dig s' z j = dig s z j"
    "num s x \<noteq> num s y \<Longrightarrow> used s' z \<le> j \<Longrightarrow> j < max (used s x) (used s y) \<Longrightarrow> dig s' z j = 0"
proof -
  define hi where "hi = (if BNCompare x y s = BN_SMALLER then y else x)"
  define lo where "lo = (if BNCompare x y s = BN_SMALLER then x else y)"
  note cmp = BNCompare_spec [OF ok tr]
  have small: "BNCompare x y s = BN_SMALLER \<longleftrightarrow> num s x < num s y" using cmp by auto
  have eq: "BNCompare x y s = BN_EQUAL \<longleftrightarrow> num s x = num s y \<and> 0 < num s x" using cmp by auto
  have codes: "BNCompare x y s = BN_SMALLER \<or> BNCompare x y s = BN_BIGGER \<or> BNCompare x y s = BN_EQUAL" using cmp by auto
  have all: "status = KC_OK \<and> others_same z s s' \<and> bn_ok s' z \<and> trimmed s' z \<and>
    int (num s' z) = \<bar>int (num s x) - int (num s y)\<bar> \<and>
    (num s x \<noteq> num s y \<longrightarrow> sign s' z = (if num s x < num s y then \<not> sign s x else sign s x)) \<and>
    (num s x = num s y \<longrightarrow> \<not> sign s x \<longrightarrow> \<not> sign s' z) \<and>
    (\<forall>j. max (used s x) (used s y) \<le> j \<longrightarrow> dig s' z j = dig s z j) \<and>
    (\<forall>j. num s x \<noteq> num s y \<longrightarrow> used s' z \<le> j \<longrightarrow> j < max (used s x) (used s y) \<longrightarrow> dig s' z j = 0)"
  proof (cases "BNCompare x y s = BN_EQUAL")
    case True
    then have "status = KC_OK" "s' = BN_ZERO z s" using run by (simp_all add: BNSubtractAbs_def)
    then show ?thesis
      using True eq z by (simp add: BN_ZERO_def bn_ok_def room_def trimmed_def num_def)
  next
    case False
    have oks: "bn_ok s hi" "bn_ok s lo" "trimmed s hi" "trimmed s lo" using ok tr by (simp_all add: hi_def lo_def)
    have le: "num s lo \<le> num s hi" using small by (auto simp: hi_def lo_def)
    then have ule: "used s lo \<le> used s hi"
      using num_used_less [of s hi lo] oks by (meson leD le_less_linear)
    have pair: "(if BNCompare x y s = BN_SMALLER then (y, x) else (x, y)) = (hi, lo)" by (simp add: hi_def lo_def)
    have mx: "max (used s x) (used s y) = used s hi" using ule by (auto simp: hi_def lo_def max_def split: if_splits)
    define s1 where "s1 = set_sign z (if num s x < num s y then \<not> sign s x else sign s x) s"
    have same: "used s1 r = used s r" "dig s1 r = dig s r" "num s1 r = num s r" "bn_ok s1 r = bn_ok s r" for r
      by (simp_all add: s1_def num_def bn_ok_def)
    define st where "st = fold (\<lambda>i st. sub_digit z hi i (dig (snd st) lo i + fst st) st) [0..<used s1 lo] (0, s1)"
    obtain c s2 where st2: "fold (\<lambda>i st. sub_digit z hi i (fst st) st) [used s1 lo..<used s1 hi] st = (c, s2)"
      by (rule prod.exhaust)
    have w: "written z (used s hi) s1 s2" and val: "bval (dig s2 z) (used s hi) = num s hi - num s lo"
      using sub_loops [OF _ _ _ _ _ st_def st2] oks le ule z same by (simp_all add: room_def s1_def)
    define s3 where "s3 = set_used z (used s hi) s2"
    have s': "status = KC_OK" "s' = BNTRIM z s3"
    proof -
      have c: "\<not> (BNCompare x y s \<noteq> BN_SMALLER \<and> BNCompare x y s \<noteq> BN_BIGGER)" using codes False by blast
      have s1': "set_sign z (if BNCompare x y s = BN_SMALLER then \<not> sign s x else sign s x) s = s1"
        by (simp only: small s1_def)
      have "BNSubtractAbs z x y s = (KC_OK, BNTRIM z s3)"
        unfolding BNSubtractAbs_def Let_def if_not_P [OF c] pair prod.case s1' same(1) [symmetric]
          st_def [symmetric] st2 s3_def by (simp only: same(1))
      then show "status = KC_OK" "s' = BNTRIM z s3" using run by simp_all
    qed
    have d: "digits_only z s1 s2" using w by (simp add: written_def)
    have ok3: "bn_ok s3 z"
      using w z oks(1) digits_only_used(3) [OF d, of z] by (simp add: bn_ok_def s3_def written_def room_def s1_def)
    have num3: "num s3 z = num s hi - num s lo" using val by (simp add: num_def s3_def)
    have oth: "others_same z s s2" using digits_only_others [OF d] by (simp add: others_same_def s1_def)
    have zeros: "dig s' z j = 0" if "used s' z \<le> j" "j < used s hi" for j
      using BNTRIM_zeros [of z s3 j] that by (simp add: s' s3_def)
    have keep: "dig s' z j = dig s z j" if "used s hi \<le> j" for j
      using w that by (simp add: s' s3_def written_def s1_def)
    have num': "int (num s' z) = \<bar>int (num s x) - int (num s y)\<bar>"
      using small le by (auto simp: s' BNTRIM_num num3 hi_def lo_def)
    have sgn: "sign s' z = (if num s x < num s y then \<not> sign s x else sign s x)"
      using digits_only_used(2) [OF d, of z] by (simp add: s' s3_def s1_def)
    have rest: "others_same z s s'" "bn_ok s' z" "trimmed s' z"
      using oth ok3 by (simp_all add: s' BNTRIM_ok BNTRIM_trimmed s3_def)
    show ?thesis unfolding mx using s'(1) rest num' sgn zeros keep eq False by auto
  qed
  show "status = KC_OK" "others_same z s s'" "bn_ok s' z" "trimmed s' z"
    "int (num s' z) = \<bar>int (num s x) - int (num s y)\<bar>"
    "num s x \<noteq> num s y \<Longrightarrow> sign s' z = (if num s x < num s y then \<not> sign s x else sign s x)"
    "num s x = num s y \<Longrightarrow> \<not> sign s x \<Longrightarrow> \<not> sign s' z"
    "max (used s x) (used s y) \<le> j \<Longrightarrow> dig s' z j = dig s z j"
    "num s x \<noteq> num s y \<Longrightarrow> used s' z \<le> j \<Longrightarrow> j < max (used s x) (used s y) \<Longrightarrow> dig s' z j = 0"
    using all by blast+
qed

section \<open>Signed sums and differences\<close>

definition val :: "bns \<Rightarrow> bn_ref \<Rightarrow> int" where
  "val s r = (if sign s r then - int (num s r) else int (num s r))"

text \<open>A result: the object \<open>z\<close> holds the value \<open>v\<close>, without leading zero digits, and nothing else changed.\<close>

definition result :: "bn_ref \<Rightarrow> bns \<Rightarrow> int \<Rightarrow> bns \<Rightarrow> bool" where
  "result z s v s' \<longleftrightarrow> others_same z s s' \<and> bn_ok s' z \<and> trimmed s' z \<and> val s' z = v"

definition nat_result :: "bn_ref \<Rightarrow> bns \<Rightarrow> nat \<Rightarrow> bns \<Rightarrow> bool" where
  "nat_result z s n s' \<longleftrightarrow> others_same z s s' \<and> bn_ok s' z \<and> trimmed s' z \<and> num s' z = n \<and> \<not> sign s' z"

lemma BNSubtractAbs_result:
  assumes "bn_ok s x" "bn_ok s y" "trimmed s x" "trimmed s y" "room s z"
    and "BNSubtractAbs z x y s = (status, s')"
  shows "status = KC_OK \<and>
    result z s (if sign s x then int (num s y) - int (num s x) else int (num s x) - int (num s y)) s'"
proof -
  note spec = BNSubtractAbs_spec [OF assms]
  have "val s' z = (if sign s x then int (num s y) - int (num s x) else int (num s x) - int (num s y))"
    using spec(5-7) by (cases "num s x" "num s y" rule: linorder_cases) (auto simp: val_def)
  then show ?thesis using spec by (simp add: result_def)
qed

lemma BNAddAbs_result:
  assumes "bn_ok s x" "bn_ok s y" "room s z" "used s x < 80" "used s y < 80"
    and "BNAddAbs z x y s = (status, s')"
  shows "status = KC_OK \<and> result z s (if sign s x then - int (num s x + num s y) else int (num s x + num s y)) s'"
  using BNAddAbs_spec [OF assms] by (auto simp: result_def val_def)

lemma BNSubtract_result:
  assumes ok: "bn_ok s x" "bn_ok s y" "trimmed s x" "trimmed s y" "room s z"
    and small: "sign s x \<noteq> sign s y \<Longrightarrow> used s x < 80 \<and> used s y < 80"
    and run: "BNSubtract z x y s = (status, s')"
  shows "status = KC_OK \<and> result z s (val s x - val s y) s'"
proof (cases "sign s x = sign s y")
  case True
  then show ?thesis using BNSubtractAbs_result [OF ok, of status s'] run by (simp add: BNSubtract_def val_def split: if_splits)
next
  case False
  then show ?thesis
    using BNAddAbs_result [OF ok(1,2,5), of status s'] small run by (auto simp: BNSubtract_def val_def split: if_splits)
qed

lemma BNAdd_result:
  assumes ok: "bn_ok s x" "bn_ok s y" "trimmed s x" "trimmed s y" "room s z"
    and small: "sign s x = sign s y \<Longrightarrow> used s x < 80 \<and> used s y < 80"
    and run: "BNAdd z x y s = (status, s')"
  shows "status = KC_OK \<and> result z s (val s x + val s y) s'"
proof (cases "sign s x = sign s y")
  case True
  then show ?thesis
    using BNAddAbs_result [OF ok(1,2,5), of status s'] small run by (auto simp: BNAdd_def val_def split: if_splits)
next
  case False
  show ?thesis
  proof (cases "sign s y")
    case True
    then show ?thesis
      using BNSubtractAbs_result [OF ok, of status s'] run False by (simp add: BNAdd_def val_def)
  next
    case sy: False
    then show ?thesis
      using BNSubtractAbs_result [OF ok(2,1,4,3,5), of status s'] run False by (simp add: BNAdd_def val_def)
  qed
qed

lemma result_status: "f = (status, s') \<Longrightarrow> status = KC_OK \<and> result z s v s' \<Longrightarrow> \<exists>s'. f = (KC_OK, s') \<and> result z s v s'"
  by blast

end
