(* ===== verification/Sev_BigNumShift.thy ===== *)
theory Sev_BigNumShift
  imports Sev_BigNumOps
begin

text \<open>
  The comparison of all digits, copies, shifts, powers and remainders of two, and bit lengths of
  \<open>bignum.c\<close>.
\<close>

section \<open>The comparison in constant time\<close>

lemma top_bit_diff:
  assumes "unat a < bn_base" "unat b < bn_base"
  shows "drop_bit 31 (a - b) = (if a < b then 1 else 0 :: u32)"
proof (cases "a < b")
  case True
  then have "unat (a - b) = 2 ^ 32 + unat a - unat b" using assms by (simp add: unat_sub_if_size word_less_nat_alt word_size)
  then have "unat (drop_bit 31 (a - b)) = 1"
    using assms True by (simp add: unsigned_drop_bit_eq drop_bit_eq_div word_less_nat_alt bn_base_num unat_div div_nat_eqI)
  then show ?thesis using True by (metis unat_1 word_unat_eq_iff)
next
  case False
  then have "unat (a - b) = unat a - unat b" by (intro unat_sub_small) (simp add: word_less_nat_alt)
  then have "unat (drop_bit 31 (a - b)) = 0"
    using assms by (simp add: drop_bit_eq_div unat_div bn_base_num)
  then show ?thesis using False by (simp add: unat_eq_0)
qed

lemma top_bit_equal:
  assumes "unat a < bn_base" "unat b < bn_base"
  shows "drop_bit 31 ((a XOR b) - 1) = (if a = b then 1 else 0 :: u32)"
proof (cases "a = b")
  case False
  have small: "x < bn_base \<longleftrightarrow> take_bit 28 x = x" for x :: nat
    by (simp add: take_bit_nat_eq_self_iff bn_base_def)
  have "unat (a XOR b) < bn_base"
    using assms unfolding small unsigned_xor_eq by (simp add: take_bit_xor)
  moreover have "0 < unat (a XOR b)" using False by (auto simp: unat_gt_0 bit_eq_iff bit_xor_iff)
  ultimately have "unat ((a XOR b) - 1) < bn_base"
    by (subst unat_sub_small) (simp_all add: Suc_le_eq)
  then have "unat (drop_bit 31 ((a XOR b) - 1)) = 0"
    by (simp add: drop_bit_eq_div unat_div bn_base_num)
  then show ?thesis using False by (simp add: unat_eq_0)
qed simp

lemma bval_low: "bval (\<lambda>j. x (m + j)) (Suc n) = unat (x m) + bn_base * bval (\<lambda>j. x (Suc m + j)) n"
  using bval_shift [of "\<lambda>j. x (m + j)" 1 n] by simp

definition compare_round :: "(nat \<Rightarrow> u32) \<Rightarrow> (nat \<Rightarrow> u32) \<Rightarrow> nat \<Rightarrow> u32 \<times> u32 \<Rightarrow> u32 \<times> u32" where
  "compare_round x y i = (\<lambda>(gt, eq).
     (gt OR (drop_bit 31 (y i - x i) AND eq), eq AND drop_bit 31 ((y i XOR x i) - 1)))"

lemma compare_rounds:
  assumes "\<And>i. i < n \<Longrightarrow> unat (x i) < bn_base" "\<And>i. i < n \<Longrightarrow> unat (y i) < bn_base"
  shows "fold (compare_round x y) (rev [0..<n]) (0, 1) =
    (if bval x n > bval y n then 1 else 0, if bval x n = bval y n then 1 else 0)"
proof -
  let ?P = "\<lambda>m st. st = (if bval (\<lambda>i. x (m + i)) (n - m) > bval (\<lambda>i. y (m + i)) (n - m) then 1 else 0 :: u32,
     if bval (\<lambda>i. x (m + i)) (n - m) = bval (\<lambda>i. y (m + i)) (n - m) then 1 else 0 :: u32)"
  have "?P 0 (fold (compare_round x y) (rev [0..<n]) (0, 1))"
  proof (rule fold_down_invariant [where P = ?P])
    fix i st assume i: "i < n" and P: "?P (Suc i) st"
    let ?X = "bval (\<lambda>j. x (Suc i + j)) (n - Suc i)" and ?Y = "bval (\<lambda>j. y (Suc i + j)) (n - Suc i)"
    have step: "n - i = Suc (n - Suc i)" using i by simp
    have lt: "unat (x i) < bn_base" "unat (y i) < bn_base" using assms i by simp_all
    have lex: "a + bn_base * A < b + bn_base * B \<longleftrightarrow> A < B \<or> A = B \<and> a < b" "a + bn_base * A = b + bn_base * B \<longleftrightarrow> A = B \<and> a = b"
      if "a < bn_base" "b < bn_base" for a b A B
    proof -
      have *: "a + bn_base * A < b + bn_base * B" if "A < B" "a < bn_base" for a b A B
      proof -
        have "bn_base * Suc A \<le> bn_base * B" using that by (intro mult_left_mono) simp_all
        then show ?thesis using that by simp
      qed
      show "a + bn_base * A < b + bn_base * B \<longleftrightarrow> A < B \<or> A = B \<and> a < b" "a + bn_base * A = b + bn_base * B \<longleftrightarrow> A = B \<and> a = b"
        using *[of A B a b] *[of B A b a] that by (cases A B rule: linorder_cases; simp)+
    qed
    show "?P i (compare_round x y i st)"
      unfolding step bval_low P compare_round_def using lt
      by (cases ?X ?Y rule: linorder_cases)
         (simp_all add: lex top_bit_diff top_bit_equal word_less_nat_alt word_unat_eq_iff)
  qed simp_all
  then show ?thesis by simp
qed

lemma clean_num: "bn_ok s r \<Longrightarrow> clean s r \<Longrightarrow> bval (dig s r) 80 = num s r"
  unfolding num_def by (rule bval_zeros) (simp_all add: bn_ok_def clean_def)

lemma clean_dig: "bn_ok s r \<Longrightarrow> clean s r \<Longrightarrow> i < 80 \<Longrightarrow> unat (dig s r i) < bn_base"
  by (cases "i < used s r") (simp_all add: bn_ok_def clean_def)

text \<open>The comparison in constant time looks at all 80 digits, so it needs those above \<open>Used\<close> to be 0;
  then it is the comparison of the values.\<close>

lemma BNSecureCompare_spec:
  assumes "bn_ok s x" "bn_ok s y" "clean s x" "clean s y"
  shows "BNSecureCompare x y s =
    (if num s x > num s y then BN_BIGGER else if num s x < num s y then BN_SMALLER else BN_EQUAL)"
proof -
  have "fold (compare_round (dig s x) (dig s y)) (rev [0..<80]) (0, 1) =
      (if num s x > num s y then 1 else 0, if num s x = num s y then 1 else 0)"
    using compare_rounds [of 80 "dig s x" "dig s y"] assms by (simp add: clean_num clean_dig)
  moreover have "BNSecureCompare x y s =
      (case fold (compare_round (dig s x) (dig s y)) (rev [0..<80]) (0, 1) of (gt, eq) \<Rightarrow> 2 + (eq - gt))"
    by (simp add: BNSecureCompare_def compare_round_def [abs_def] Let_def MAX_BN_ELEMENTS_def)
  ultimately show ?thesis
    by (simp add: Let_def MAX_BN_ELEMENTS_def BN_EQUAL_def BN_BIGGER_def BN_SMALLER_def)
qed

section \<open>Copies and shifts by digits\<close>

lemma BNCopy_at [simp]: "BNCopy z x s z = s x"
  by (simp add: BNCopy_def)

lemma BNCopy_same: "others_same z s (BNCopy z x s)"
  by (simp add: BNCopy_def others_same_def)

lemma at_object:
  assumes "s' r' = s r"
  shows "num s' r' = num s r" "bn_ok s' r' = bn_ok s r" "trimmed s' r' = trimmed s r" "clean s' r' = clean s r" "val s' r' = val s r"
proof -
  have d: "dig s' r' = dig s r" using assms by (simp add: fun_eq_iff dig_def)
  show "num s' r' = num s r" "bn_ok s' r' = bn_ok s r" "trimmed s' r' = trimmed s r" "clean s' r' = clean s r" "val s' r' = val s r"
    using assms by (simp_all add: num_def bn_ok_def trimmed_def clean_def val_def d)
qed

lemma BN_ZERO_result: "room s z \<Longrightarrow> nat_result z s 0 (BN_ZERO z s)"
  by (simp add: nat_result_def BN_ZERO_def others_same_def bn_ok_def room_def trimmed_def val_def num_def)

lemma BNCopy_result: "bn_ok s x \<Longrightarrow> trimmed s x \<Longrightarrow> \<not> sign s x \<Longrightarrow> nat_result z s (num s x) (BNCopy z x s)"
  using at_object [of "BNCopy z x s" z s x] by (simp add: nat_result_def BNCopy_same)

lemma room_put [simp]: "room (put_dig z i v s) r = room s r" "room (set_used z n s) r = room s r" "room (set_sign z b s) r = room s r"
  by (simp_all add: room_def)

lemma digits_only_room: "digits_only z s s' \<Longrightarrow> room s' r = room s r"
  using digits_only_used(3) [of z s s' r] by (simp add: room_def)

lemma bval_drop: "k \<le> n \<Longrightarrow> (\<And>i. i < k \<Longrightarrow> unat (d i) < bn_base) \<Longrightarrow> bval (\<lambda>j. d (j + k)) (n - k) = bval d n div bn_base ^ k"
  using bval_div [of k d n] by (simp add: add.commute)

lemma shift_right_loop:
  assumes "room s dst" "k \<le> n" "n \<le> 80"
  shows "digits_only dst s (fold (\<lambda>i s. put_dig dst (i - k) (dig s src i) s) [k..<n] s) \<and>
    (\<forall>j. j + k < n \<longrightarrow> dig (fold (\<lambda>i s. put_dig dst (i - k) (dig s src i) s) [k..<n] s) dst j = dig s src (j + k))"
proof -
  let ?P = "\<lambda>i st. digits_only dst s st \<and> (\<forall>j. j + k < i \<longrightarrow> dig st dst j = dig s src (j + k)) \<and>
    (\<forall>j. i \<le> j + k \<longrightarrow> dig st dst j = dig s dst j)"
  have "?P n (fold (\<lambda>i s. put_dig dst (i - k) (dig s src i) s) [k..<n] s)"
  proof (rule fold_upt_invariant [where P = ?P])
    fix i st assume i: "k \<le> i" "i < n" and P: "?P i st"
    have rd: "dig st src i = dig s src i"
      using P digits_only_dig [of dst s st src i] by (cases "src = dst") auto
    have len: "length (bn_data (st dst)) = 80"
      using P assms(1) digits_only_room [of dst s st dst] by (simp add: room_def)
    show "?P (Suc i) (put_dig dst (i - k) (dig st src i) st)"
      using P i assms(3) len rd by (auto simp: dig_put less_Suc_eq intro: digits_only_put)
  qed (use assms in simp_all)
  then show ?thesis by blast
qed

lemma BNShiftDigR_result:
  assumes x: "bn_ok s x" "trimmed s x" "\<not> sign s x" and z: "room s z"
  shows "nat_result z s (num s x div bn_base ^ k) (BNShiftDigR z x k s)"
proof -
  have zero: "num s x div bn_base ^ k = 0" if "used s x \<le> k"
  proof -
    have "num s x < bn_base ^ used s x" using x(1) by (rule num_less)
    also have "\<dots> \<le> bn_base ^ k" using that by (intro power_increasing) simp_all
    finally show ?thesis by simp
  qed
  consider "k = 0" | "0 < k" "used s x \<le> k" | "0 < k" "k < used s x" by linarith
  then show ?thesis
  proof cases
    case 1
    then show ?thesis using BNCopy_result [OF x] by (simp add: BNShiftDigR_def val_def)
  next
    case 2
    then show ?thesis using BN_ZERO_result [OF z] zero by (simp add: BNShiftDigR_def)
  next
    case 3
    let ?n = "used s x"
    define s1 where "s1 = fold (\<lambda>i s. put_dig z (i - k) (dig s x i) s) [k..<?n] s"
    have n80: "?n \<le> 80" using x(1) by (simp add: bn_ok_def)
    have d: "digits_only z s s1" and new: "\<And>j. j + k < ?n \<Longrightarrow> dig s1 z j = dig s x (j + k)"
      using shift_right_loop [OF z, of k ?n x] 3 n80 by (simp_all add: s1_def)
    have run: "BNShiftDigR z x k s = set_sign z (sign s1 x) (set_used z (used s1 x - k) s1)"
      using 3 by (simp add: BNShiftDigR_def Let_def s1_def)
    have "bval (dig s1 z) (?n - k) = bval (\<lambda>j. dig s x (j + k)) (?n - k)" by (rule bval_cong) (simp add: new)
    also have "\<dots> = num s x div bn_base ^ k"
      unfolding num_def using 3 x(1) by (intro bval_drop) (simp_all add: bn_ok_dig)
    finally have v: "bval (dig s1 z) (?n - k) = num s x div bn_base ^ k" .
    have top: "dig s1 z (?n - k - 1) \<noteq> 0" using new [of "?n - k - 1"] 3 x(2) by (simp add: trimmed_def)
    show ?thesis
      using v top n80 new 3 x digits_only_used [OF d] digits_only_others [OF d] z digits_only_room [OF d, of z]
      by (simp add: run nat_result_def bn_ok_def trimmed_def val_def num_def room_def bn_ok_dig)
  qed
qed

lemma shift_left_loop:
  assumes "room s dst" "k \<le> n" "n \<le> 80"
  shows "digits_only dst s (fold (\<lambda>i s. put_dig dst i (dig s src (i - k)) s) (rev [k..<n]) s) \<and>
    (\<forall>j. k \<le> j \<longrightarrow> j < n \<longrightarrow> dig (fold (\<lambda>i s. put_dig dst i (dig s src (i - k)) s) (rev [k..<n]) s) dst j = dig s src (j - k))"
proof -
  let ?P = "\<lambda>i st. digits_only dst s st \<and> (\<forall>j. i \<le> j \<longrightarrow> j < n \<longrightarrow> dig st dst j = dig s src (j - k)) \<and>
    (\<forall>j < i. dig st dst j = dig s dst j)"
  have "?P k (fold (\<lambda>i s. put_dig dst i (dig s src (i - k)) s) (rev [k..<n]) s)"
  proof (rule fold_down_invariant [where P = ?P])
    fix i st assume i: "k \<le> i" "i < n" and P: "?P (Suc i) st"
    have rd: "dig st src (i - k) = dig s src (i - k)"
      using P digits_only_dig [of dst s st src "i - k"] by (cases "src = dst") auto
    have len: "length (bn_data (st dst)) = 80"
      using P assms(1) digits_only_room [of dst s st dst] by (simp add: room_def)
    show "?P i (put_dig dst i (dig st src (i - k)) st)"
      using P i assms(3) len rd by (auto simp: dig_put Suc_le_eq intro: digits_only_put)
  qed (use assms in simp_all)
  then show ?thesis by blast
qed

lemma zero_loop:
  assumes "room s z" "n \<le> 80"
  shows "digits_only z s (fold (\<lambda>i s. put_dig z i 0 s) [0..<n] s) \<and>
    (\<forall>j. dig (fold (\<lambda>i s. put_dig z i 0 s) [0..<n] s) z j = (if j < n then 0 else dig s z j))"
proof -
  let ?P = "\<lambda>i st. digits_only z s st \<and> (\<forall>j. dig st z j = (if j < i then 0 else dig s z j))"
  show ?thesis
  proof (rule fold_upt_invariant [where P = ?P])
    fix i st assume i: "0 \<le> i" "i < n" and P: "?P i st"
    have "length (bn_data (st z)) = 80"
      using P assms(1) digits_only_room [of z s st z] by (simp add: room_def)
    then show "?P (Suc i) (put_dig z i 0 st)"
      using P i assms(2) by (auto simp: dig_put intro: digits_only_put)
  qed simp_all
qed

lemma BNShiftDigL_result:
  assumes x: "bn_ok s x" "trimmed s x" "\<not> sign s x" and z: "room s z" and fits: "used s x + k \<le> 80"
    and run: "BNShiftDigL z x k s = (status, s')"
  shows "status = KC_OK" "nat_result z s (num s x * bn_base ^ k) s'" "0 < used s x \<Longrightarrow> used s' z = used s x + k"
proof -
  have all: "status = KC_OK \<and> nat_result z s (num s x * bn_base ^ k) s' \<and> (0 < used s x \<longrightarrow> used s' z = used s x + k)"
  proof (cases "k = 0 \<or> used s x = 0")
    case True
    then have "status = KC_OK" "s' = BNCopy z x s" using run by (auto simp: BNShiftDigL_def)
    then show ?thesis
      using True BNCopy_result [OF x, of z] by (auto simp: val_def num_zero)
  next
    case False
    let ?n = "used s x + k"
    define s2 where "s2 = set_sign z (sign s x) (set_used z ?n s)"
    define s3 where "s3 = fold (\<lambda>i s. put_dig z i (dig s x (i - k)) s) (rev [k..<?n]) s2"
    define s4 where "s4 = fold (\<lambda>i s. put_dig z i 0 s) [0..<k] s3"
    have run': "status = KC_OK" "s' = s4"
      using run False fits unfolding BNShiftDigL_def
      by (simp_all add: Let_def MAX_BN_ELEMENTS_def s2_def s3_def s4_def)
    have z2: "room s2 z" using z by (simp add: s2_def)
    have d3: "digits_only z s2 s3" and new: "\<And>j. k \<le> j \<Longrightarrow> j < ?n \<Longrightarrow> dig s3 z j = dig s x (j - k)"
      using shift_left_loop [OF z2, of k ?n x] fits by (simp_all add: s3_def s2_def)
    have d4: "digits_only z s3 s4" and zero: "\<And>j. dig s4 z j = (if j < k then 0 else dig s3 z j)"
      using zero_loop [of s3 z k] fits z2 digits_only_room [OF d3] by (simp_all add: s4_def)
    have d: "digits_only z s2 s4" using d3 d4 by (rule digits_only_trans)
    have "bval (dig s4 z) ?n = bval (dig s4 z) k + bn_base ^ k * bval (\<lambda>i. dig s4 z (k + i)) (used s x)"
      using bval_shift [of "dig s4 z" k "used s x"] by (simp add: add.commute)
    also have "bval (dig s4 z) k = 0" using bval_zeros [of 0 k "dig s4 z"] zero by simp
    also have "bval (\<lambda>i. dig s4 z (k + i)) (used s x) = num s x"
      unfolding num_def by (rule bval_cong) (simp add: zero new)
    finally have v: "bval (dig s4 z) ?n = num s x * bn_base ^ k" by simp
    have top: "dig s4 z (?n - 1) \<noteq> 0" using new [of "?n - 1"] zero [of "?n - 1"] x(2) False by (auto simp: trimmed_def not_less)
    have small: "unat (dig s4 z j) < bn_base" if "j < ?n" for j
      using new [of j] zero [of j] that bn_ok_dig [OF x(1), of "j - k"] by simp
    have "nat_result z s2 (num s x * bn_base ^ k) s4"
      using v top small fits digits_only_used [OF d] digits_only_others [OF d] x(3) z2 digits_only_room [OF d, of z]
      by (simp add: nat_result_def bn_ok_def trimmed_def val_def num_def room_def s2_def)
    then have "nat_result z s (num s x * bn_base ^ k) s4" by (simp add: nat_result_def others_same_def s2_def)
    then show ?thesis using run' digits_only_used(1) [OF d, of z] by (simp add: s2_def)
  qed
  then show "status = KC_OK" "nat_result z s (num s x * bn_base ^ k) s'" "0 < used s x \<Longrightarrow> used s' z = used s x + k" by blast+
qed

end
