(* ===== verification/Sev_BigNumBits.thy ===== *)
theory Sev_BigNumBits
  imports Sev_BigNumShift
begin

text \<open>
  Shifts by bits, powers of two and their remainders, and the bit length of a number.
\<close>

section \<open>Shifts by bits\<close>

text \<open>A digit that is shifted by less than its width, split into what stays and what is carried.\<close>

lemma unat_u32: "unat t < 2 ^ 32" for t :: u32
  by (rule less_le_trans [OF unsigned_less]) simp

lemma shift_digit:
  fixes t :: u32 assumes "sh < 28"
  shows "unat (push_bit sh t AND BN_MASK) = (unat t mod 2 ^ (28 - sh)) * 2 ^ sh"
    "unat (drop_bit (BN_BITS - sh) t) = unat t div 2 ^ (28 - sh)"
proof -
  have "unat (push_bit sh t) = take_bit 32 (unat t * 2 ^ sh)"
    by (simp only: unsigned_push_bit_eq) (simp add: push_bit_eq_mult)
  then have "unat (push_bit sh t AND BN_MASK) = take_bit 28 (take_bit 32 (unat t * 2 ^ sh))"
    by (simp add: bn_base_def take_bit_eq_mod)
  also have "\<dots> = (unat t * 2 ^ sh) mod 2 ^ 28" by (simp only: take_bit_take_bit) (simp add: take_bit_eq_mod)
  also have "(2 :: nat) ^ 28 = 2 ^ (28 - sh) * 2 ^ sh" using assms by (simp flip: power_add)
  finally show "unat (push_bit sh t AND BN_MASK) = (unat t mod 2 ^ (28 - sh)) * 2 ^ sh"
    by (simp add: mod_mult_mult2)
  show "unat (drop_bit (BN_BITS - sh) t) = unat t div 2 ^ (28 - sh)"
    by (simp only: unsigned_drop_bit_eq BN_BITS_def) (simp add: drop_bit_eq_div take_bit_nat_eq_self unat_u32 [simplified])
qed

text \<open>The loop of a left shift, from the lowest digit up.\<close>

definition shl_round :: "bn_ref \<Rightarrow> bn_ref \<Rightarrow> nat \<Rightarrow> nat \<Rightarrow> u32 \<times> bns \<Rightarrow> u32 \<times> bns" where
  "shl_round dst src sh i = (\<lambda>(carry, s).
     (drop_bit (BN_BITS - sh) (dig s src i), put_dig dst i ((push_bit sh (dig s src i) AND BN_MASK) + carry) s))"

lemma mult_add_less:
  fixes a b c d :: nat assumes "a < b" "c < d" shows "a * d + c < b * d"
proof -
  have "Suc a * d \<le> b * d" using assms(1) by (intro mult_right_mono) simp_all
  then show ?thesis using assms(2) by simp
qed

lemma shl_loop:
  assumes z: "room s dst" and n: "n \<le> 80" and sh: "sh < 28" and x: "\<And>i. i < n \<Longrightarrow> unat (dig s src i) < bn_base"
    and run: "fold (shl_round dst src sh) [0..<n] (0, s) = (carry, s')"
  shows "written dst n s s'" "unat carry < 2 ^ sh" "bval (dig s' dst) n + unat carry * bn_base ^ n = bval (dig s src) n * 2 ^ sh"
proof -
  let ?P = "\<lambda>i (c :: u32, s'). written dst i s s' \<and> unat c < 2 ^ sh \<and>
    bval (dig s' dst) i + unat c * bn_base ^ i = bval (dig s src) i * 2 ^ sh"
  have split: "(2 :: nat) ^ (28 - sh) * 2 ^ sh = bn_base" using sh by (simp add: bn_base_def flip: power_add)
  have "?P n (fold (shl_round dst src sh) [0..<n] (0, s))"
  proof (rule fold_upt_invariant [where P = ?P])
    fix i st assume i: "0 \<le> i" "i < n" and P: "?P i st"
    obtain c s1 where st: "st = (c, s1)" by (cases st)
    have w: "written dst i s s1" and c: "unat c < 2 ^ sh"
      and v: "bval (dig s1 dst) i + unat c * bn_base ^ i = bval (dig s src) i * 2 ^ sh" using P by (simp_all add: st)
    define t where "t = dig s src i"
    have rd: "dig s1 src i = t" using written_dig [OF w] by (simp add: t_def)
    let ?m = "push_bit sh t AND BN_MASK" and ?c = "drop_bit (BN_BITS - sh) t"
    note d = shift_digit [OF sh, of t]
    have "unat ?m + unat c < bn_base"
      unfolding d split [symmetric] by (rule mult_add_less) (use c in simp_all)
    moreover from this have "unat (?m + c) = unat ?m + unat c" by (intro unat_add_small) (simp add: bn_base_num)
    ultimately have m: "unat (?m + c) < bn_base" "unat (?m + c) = (unat t mod 2 ^ (28 - sh)) * 2 ^ sh + unat c"
      by (simp_all add: d del: unat_mask)
    have c': "unat ?c < 2 ^ sh"
      unfolding d using x [OF i(2)] split by (intro less_mult_imp_div_less) (simp add: t_def mult.commute)
    have "unat t = unat t div 2 ^ (28 - sh) * 2 ^ (28 - sh) + unat t mod 2 ^ (28 - sh)" by (simp only: div_mult_mod_eq)
    then have eq: "unat t * 2 ^ sh = unat ?c * bn_base + (unat t mod 2 ^ (28 - sh)) * 2 ^ sh"
      unfolding d split [symmetric] by (metis add_mult_distrib mult.assoc)
    have "unat t * bn_base ^ i * 2 ^ sh = (unat t * 2 ^ sh) * bn_base ^ i" by (simp add: ac_simps)
    then have "unat t * bn_base ^ i * 2 ^ sh + unat c * bn_base ^ i = unat (?m + c) * bn_base ^ i + unat ?c * bn_base ^ Suc i"
      unfolding m(2) eq by (simp add: algebra_simps)
    then have "bval (dig s1 dst) i + unat (?m + c) * bn_base ^ i + unat ?c * bn_base ^ Suc i = bval (dig s src) (Suc i) * 2 ^ sh"
      using v by (simp add: t_def algebra_simps)
    then show "?P (Suc i) (shl_round dst src sh i st)"
      using written_put [OF w z _ m(1)] i n c' by (simp add: st shl_round_def rd del: bval_Suc)
  qed simp_all
  then show "written dst n s s'" "unat carry < 2 ^ sh" "bval (dig s' dst) n + unat carry * bn_base ^ n = bval (dig s src) n * 2 ^ sh"
    by (simp_all add: run)
qed

lemma BNShiftBitsL_small:
  assumes x: "bn_ok s x" "trimmed s x" "\<not> sign s x" "0 < used s x" and z: "room s z" and fits: "used s x + 1 \<le> 80"
    and sh: "0 < sh" "sh < 28" and run: "BNShiftBitsL z x sh s = (status, s')"
  shows "status = KC_OK" "nat_result z s (num s x * 2 ^ sh) s'" "used s' z = used s x \<or> used s' z = used s x + 1"
proof -
  let ?n = "used s x"
  obtain c s1 where loop: "fold (shl_round z x sh) [0..<?n] (0, s) = (c, s1)" by (rule prod.exhaust)
  have n80: "?n \<le> 80" using fits by simp
  have w: "written z ?n s s1" and c: "unat c < 2 ^ sh"
    and v: "bval (dig s1 z) ?n + unat c * bn_base ^ ?n = num s x * 2 ^ sh"
    using shl_loop [OF z n80 sh(2) _ loop] x(1) by (simp_all add: bn_ok_dig num_def)
  define s3 where "s3 = set_sign z (sign s1 x) (set_used z ?n s1)"
  have d: "digits_only z s s1" using w by (simp add: written_def)
  note same = digits_only_used [OF d] digits_only_others [OF d] digits_only_room [OF d]
  have run': "status = KC_OK" "s' = (if c \<noteq> 0 then set_used z (?n + 1) (put_dig z ?n c s3) else s3)"
    using run loop sh x(4) unfolding BNShiftBitsL_def
    by (simp_all add: Let_def BN_BITS_def KC_OK_def shl_round_def [abs_def] same s3_def cong: if_cong)
  have c28: "unat c < bn_base"
    using c less_trans [OF _ power_strict_increasing [of sh 28 "2 :: nat"]] sh by (simp add: bn_base_def)
  have w3: "written z (Suc ?n) s (put_dig z ?n c s1)" "bval (dig (put_dig z ?n c s1) z) (Suc ?n) = num s x * 2 ^ sh"
    using written_put [OF w z _ c28] fits v by simp_all
  have all: "nat_result z s (num s x * 2 ^ sh) s' \<and> (used s' z = ?n \<or> used s' z = ?n + 1)"
  proof (cases "c = 0")
    case False
    have s': "s' = set_used z (?n + 1) (put_dig z ?n c s3)" using run'(2) False by simp
    have dg: "dig s' z j = dig (put_dig z ?n c s1) z j" for j
      using z same by (simp add: s' s3_def dig_put room_def)
    have vv: "bval (dig s' z) (Suc ?n) = num s x * 2 ^ sh" using w3(2) bval_cong [of "Suc ?n" "dig s' z"] dg by simp
    have top: "dig s' z ?n \<noteq> 0" using False fits z same by (simp add: dg dig_put room_def)
    have ok: "bn_ok s' z" using w3(1) dg fits z same by (simp add: bn_ok_def written_def s' s3_def room_def)
    have "others_same z s s'" "\<not> sign s' z" "used s' z = Suc ?n" using same x(3) by (simp_all add: s' s3_def)
    then show ?thesis using vv top ok by (simp add: nat_result_def trimmed_def num_def del: bval_Suc)
  next
    case True
    have s': "s' = s3" using run'(2) True by simp
    have "bval (dig s1 z) ?n = num s x * 2 ^ sh" using v True by simp
    moreover have "bn_base ^ (?n - 1) \<le> bval (dig s1 z) ?n"
      using num_ge [OF x(2,4)] calculation by (simp add: le_trans [OF _ mult_le_mono2 [of 1]])
    then have "dig s1 z (?n - 1) \<noteq> 0"
      using bval_less [of "?n - 1" "dig s1 z"] w x(4) by (cases ?n) (auto simp: written_def)
    moreover have "\<forall>i < ?n. unat (dig s1 z i) < bn_base" using w by (simp add: written_def)
    ultimately show ?thesis
      using n80 z same x(3) by (simp add: s' s3_def nat_result_def bn_ok_def trimmed_def num_def room_def)
  qed
  show "status = KC_OK" "nat_result z s (num s x * 2 ^ sh) s'" "used s' z = ?n \<or> used s' z = ?n + 1"
    using run' all by blast+
qed

text \<open>The loop of a right shift, from the highest digit down.\<close>

definition shr_round :: "bn_ref \<Rightarrow> bn_ref \<Rightarrow> nat \<Rightarrow> nat \<Rightarrow> u32 \<times> bns \<Rightarrow> u32 \<times> bns" where
  "shr_round dst src sh i = (\<lambda>(carry, s).
     (push_bit (BN_BITS - sh) (dig s src i AND (push_bit sh 1 - 1)), put_dig dst i (drop_bit sh (dig s src i) + carry) s))"

lemma shr_digit:
  fixes t :: u32 assumes "sh < 28" "unat t < bn_base"
  shows "unat (push_bit (BN_BITS - sh) (t AND (push_bit sh 1 - 1))) = (unat t mod 2 ^ sh) * 2 ^ (28 - sh)"
    "unat (drop_bit sh t) = unat t div 2 ^ sh" "unat t div 2 ^ sh < 2 ^ (28 - sh)"
proof -
  have split: "(2 :: nat) ^ (28 - sh) * 2 ^ sh = bn_base" using assms(1) by (simp add: bn_base_def flip: power_add)
  have m: "unat (t AND (push_bit sh 1 - 1)) = unat t mod 2 ^ sh"
    by (simp only: push_bit_of_1 mask_eq_exp_minus_1 [symmetric] take_bit_eq_mask [symmetric] unsigned_take_bit_eq)
      (simp only: take_bit_eq_mod)
  have "(unat t mod 2 ^ sh) * 2 ^ (28 - sh) < 2 ^ sh * 2 ^ (28 - sh)" by (intro mult_strict_right_mono) simp_all
  also have "(2 :: nat) ^ sh * 2 ^ (28 - sh) < 2 ^ 32" using split by (simp add: mult.commute bn_base_num)
  finally have less: "(unat t mod 2 ^ sh) * 2 ^ (28 - sh) < 2 ^ 32" .
  have "unat (push_bit (28 - sh) (t AND (push_bit sh 1 - 1))) = take_bit 32 (unat (t AND (push_bit sh 1 - 1)) * 2 ^ (28 - sh))"
    by (simp only: unsigned_push_bit_eq) (simp add: push_bit_eq_mult)
  then show "unat (push_bit (BN_BITS - sh) (t AND (push_bit sh 1 - 1))) = (unat t mod 2 ^ sh) * 2 ^ (28 - sh)"
    unfolding m BN_BITS_def by (simp only: take_bit_nat_eq_self [OF less])
  show "unat (drop_bit sh t) = unat t div 2 ^ sh"
    by (simp only: unsigned_drop_bit_eq) (simp add: drop_bit_eq_div take_bit_nat_eq_self unat_u32 [simplified])
  show "unat t div 2 ^ sh < 2 ^ (28 - sh)"
    using assms(2) split by (intro less_mult_imp_div_less) simp
qed

lemma shift_split:
  fixes X t q :: nat assumes "sh < 28"
  shows "(t + bn_base * X) div 2 ^ sh = t div 2 ^ sh + (X mod 2 ^ sh) * 2 ^ (28 - sh) + bn_base * (X div 2 ^ sh)"
proof -
  have split: "bn_base = 2 ^ sh * 2 ^ (28 - sh)" using assms by (simp add: bn_base_def flip: power_add)
  have "bn_base * X = 2 ^ sh * (2 ^ (28 - sh) * X)" by (simp add: split)
  then have "(t + bn_base * X) div 2 ^ sh = t div 2 ^ sh + 2 ^ (28 - sh) * X"
    by (simp only: div_mult_self2 power_not_zero zero_neq_numeral not_False_eq_True numeral_neq_zero add.commute)
  moreover define a r where "a = X div 2 ^ sh" and "r = X mod 2 ^ sh"
  moreover from this have "X = a * 2 ^ sh + r" by (simp only: div_mult_mod_eq)
  then have "2 ^ (28 - sh) * X = r * 2 ^ (28 - sh) + bn_base * a" by (simp add: split algebra_simps)
  ultimately show ?thesis by (simp only:)
qed

lemma shr_loop:
  assumes z: "room s dst" and n: "n \<le> 80" and sh: "sh < 28" and x: "\<And>i. i < n \<Longrightarrow> unat (dig s src i) < bn_base"
    and run: "fold (shr_round dst src sh) (rev [0..<n]) (0, s) = (carry, s')"
  shows "digits_only dst s s'" "\<And>i. i < n \<Longrightarrow> unat (dig s' dst i) < bn_base" "bval (dig s' dst) n = bval (dig s src) n div 2 ^ sh"
proof -
  define X where "X i = bval (\<lambda>j. dig s src (i + j)) (n - i)" for i
  let ?P = "\<lambda>i (c :: u32, s'). digits_only dst s s' \<and> (\<forall>j < i. dig s' dst j = dig s dst j) \<and>
    (\<forall>j. i \<le> j \<longrightarrow> j < n \<longrightarrow> unat (dig s' dst j) < bn_base) \<and>
    unat c = (X i mod 2 ^ sh) * 2 ^ (28 - sh) \<and> bval (\<lambda>j. dig s' dst (i + j)) (n - i) = X i div 2 ^ sh"
  have "?P 0 (fold (shr_round dst src sh) (rev [0..<n]) (0, s))"
  proof (rule fold_down_invariant [where P = ?P])
    fix i st assume i: "0 \<le> i" "i < n" and P: "?P (Suc i) st"
    obtain c s1 where st: "st = (c, s1)" by (cases st)
    have d: "digits_only dst s s1" and low: "\<And>j. j < Suc i \<Longrightarrow> dig s1 dst j = dig s dst j"
      and high: "\<And>j. Suc i \<le> j \<Longrightarrow> j < n \<Longrightarrow> unat (dig s1 dst j) < bn_base"
      and c: "unat c = (X (Suc i) mod 2 ^ sh) * 2 ^ (28 - sh)"
      and v: "bval (\<lambda>j. dig s1 dst (Suc i + j)) (n - Suc i) = X (Suc i) div 2 ^ sh" using P by (simp_all add: st)
    define t where "t = dig s src i"
    have rd: "dig s1 src i = t" using low digits_only_dig [OF d, of src i] by (cases "src = dst") (simp_all add: t_def)
    have t: "unat t < bn_base" using x i by (simp add: t_def)
    note dg = shr_digit [OF sh t]
    have Xi: "X i = unat t + bn_base * X (Suc i)"
      using bval_low [of "dig s src" i "n - Suc i"] i by (simp add: X_def t_def Suc_diff_Suc)
    define u where "u = drop_bit sh t + c"
    have split: "bn_base = 2 ^ sh * 2 ^ (28 - sh)" using sh by (simp add: bn_base_def flip: power_add)
    have lt: "unat (drop_bit sh t) + unat c < bn_base"
      unfolding c split add.commute [of "unat (drop_bit sh t)"] by (rule mult_add_less) (use dg in simp_all)
    then have u: "unat u = unat t div 2 ^ sh + unat c" "unat u < bn_base"
      using unat_add_small [of "drop_bit sh t" c] dg by (simp_all add: u_def bn_base_num)
    have len: "length (bn_data (s1 dst)) = 80" using digits_only_room [OF d, of dst] z by (simp add: room_def)
    have "X i mod 2 ^ sh = unat t mod 2 ^ sh" unfolding Xi split by (simp add: mult.assoc)
    moreover have "bval (\<lambda>j. dig (put_dig dst i u s1) dst (i + j)) (n - i) = X i div 2 ^ sh"
    proof -
      have "bval (\<lambda>j. dig (put_dig dst i u s1) dst (i + j)) (n - i) =
          unat u + bn_base * bval (\<lambda>j. dig (put_dig dst i u s1) dst (Suc i + j)) (n - Suc i)"
        using bval_low [of "dig (put_dig dst i u s1) dst" i "n - Suc i"] i n len by (simp add: Suc_diff_Suc dig_put)
      also have "bval (\<lambda>j. dig (put_dig dst i u s1) dst (Suc i + j)) (n - Suc i) = X (Suc i) div 2 ^ sh"
        unfolding v [symmetric] by (rule bval_cong) (simp add: dig_put)
      finally show ?thesis unfolding Xi shift_split [OF sh] u c by simp
    qed
    ultimately show "?P i (shr_round dst src sh i st)"
      using d low high u dg i n len
      by (auto simp: st shr_round_def rd u_def [symmetric] dig_put intro: digits_only_put)
  qed (simp_all add: X_def)
  then show "digits_only dst s s'" "\<And>i. i < n \<Longrightarrow> unat (dig s' dst i) < bn_base" "bval (dig s' dst) n = bval (dig s src) n div 2 ^ sh"
    by (simp_all add: run X_def)
qed

lemma shr_part:
  assumes x: "bn_ok s x" "\<not> sign s x" "0 < used s x" and z: "room s z" and sh: "sh < 28"
    and loop: "fold (shr_round z x sh) (rev [0..<used s x]) (0, s) = (c, s1)"
    and s3: "s3 = set_sign z (sign (set_used z (used s1 x) s1) x) (set_used z (used s1 x) s1)"
    and s': "s' = (if dig s3 z (used s3 x - 1) = 0 then set_used z (used s3 z - 1) s3 else s3)"
  shows "others_same z s s' \<and> bn_ok s' z \<and> num s' z = num s x div 2 ^ sh \<and> \<not> sign s' z"
proof -
  let ?n = "used s x"
  have n80: "?n \<le> 80" using x by (simp add: bn_ok_def)
  have d: "digits_only z s s1" and small: "\<And>i. i < ?n \<Longrightarrow> unat (dig s1 z i) < bn_base"
    and v: "bval (dig s1 z) ?n = num s x div 2 ^ sh"
    using shr_loop [OF z n80 sh _ loop] x by (simp_all add: bn_ok_dig num_def)
  note same = digits_only_used [OF d] digits_only_others [OF d] digits_only_room [OF d]
  have us: "used s3 x = ?n" "used s3 z = ?n" using same by (simp_all add: s3)
  have dg: "dig s3 z = dig s1 z" by (simp add: s3)
  have s'': "s' = (if dig s1 z (?n - 1) = 0 then set_used z (?n - 1) s3 else s3)"
    unfolding s' us dg by simp
  have "bval (dig s1 z) (if dig s1 z (?n - 1) = 0 then ?n - 1 else ?n) = bval (dig s1 z) ?n"
    using x(3) by (cases ?n) auto
  then show ?thesis
    using small v n80 same z x(2) by (auto simp: s'' bn_ok_def num_def s3 room_def)
qed

lemma BNShiftBitsR_spec:
  assumes x: "bn_ok s x" "trimmed s x" "\<not> sign s x" and z: "room s z"
  shows "others_same z s (BNShiftBitsR z x sh s) \<and> bn_ok (BNShiftBitsR z x sh s) z \<and>
    num (BNShiftBitsR z x sh s) z = num s x div 2 ^ sh \<and> \<not> sign (BNShiftBitsR z x sh s) z"
proof (cases "sh = 0 \<or> used s x = 0")
  case True
  then show ?thesis
    using BNCopy_result [OF x, of z] by (auto simp: BNShiftBitsR_def nat_result_def num_zero)
next
  case False
  define s0 where "s0 = (if sh \<ge> BN_BITS then BNShiftDigR z x (sh div BN_BITS) s else s)"
  define y where "y = (if sh \<ge> BN_BITS then z else x)"
  have s0: "others_same z s s0" "bn_ok s0 y" "num s0 y = num s x div bn_base ^ (sh div 28)" "\<not> sign s0 y" "room s0 z"
    using BNShiftDigR_result [OF x z, of "sh div 28"] x z
    by (auto simp: s0_def y_def BN_BITS_def nat_result_def dest: bn_ok_room)
  have total: "num s0 y div 2 ^ (sh mod 28) = num s x div 2 ^ sh"
    unfolding s0(3) bn_base_power by (simp flip: div_mult2_eq power_add)
  show ?thesis
  proof (cases "sh mod 28 \<noteq> 0 \<and> used s0 y > 0")
    case True
    obtain c s1 where loop: "fold (shr_round z y (sh mod 28)) (rev [0..<used s0 y]) (0, s0) = (c, s1)" by (rule prod.exhaust)
    define s3 where "s3 = set_sign z (sign (set_used z (used s1 y) s1) y) (set_used z (used s1 y) s1)"
    define s4 where "s4 = (if dig s3 z (used s3 y - 1) = 0 then set_used z (used s3 z - 1) s3 else s3)"
    have "BNShiftBitsR z x sh s = s4"
      unfolding BNShiftBitsR_def if_not_P [OF False] Let_def s0_def [symmetric] y_def [symmetric]
      using True loop by (simp add: BN_BITS_def shr_round_def [abs_def] s4_def s3_def)
    then show ?thesis
      using shr_part [OF s0(2,4) _ s0(5) _ loop s3_def s4_def] True s0(1) total by (auto intro: others_same_trans)
  next
    case stop: False
    have "BNShiftBitsR z x sh s = s0"
      unfolding BNShiftBitsR_def if_not_P [OF False] Let_def s0_def [symmetric] y_def [symmetric]
      using stop by (auto simp: BN_BITS_def)
    moreover have "y = z" using stop False x by (auto simp: y_def s0_def BN_BITS_def)
    moreover have "num s0 y = num s x div 2 ^ sh"
      using total stop num_zero [of s0 y] by (cases "sh mod 28 = 0") auto
    ultimately show ?thesis using s0 by simp
  qed
qed

section \<open>Powers of two\<close>

lemma BNSet2Pwr_result:
  assumes z: "room s z" and run: "BNSet2Pwr z e s = (status, s')" and e: "e div 28 < 80"
  shows "status = KC_OK \<and> nat_result z s (2 ^ e) s' \<and> used s' z = e div 28 + 1"
proof -
  let ?k = "e div 28"
  define s1 where "s1 = fold (\<lambda>i s. put_dig z i 0 s) [0..<?k] s"
  define s2 where "s2 = put_dig z ?k (push_bit (e mod 28) 1) s1"
  have run': "status = KC_OK" "s' = set_sign z False (set_used z (?k + 1) s2)"
    using run e unfolding BNSet2Pwr_def by (simp_all add: Let_def BN_BITS_def MAX_BN_ELEMENTS_def s1_def s2_def)
  have d: "digits_only z s s1" and zero: "\<And>j. dig s1 z j = (if j < ?k then 0 else dig s z j)"
    using zero_loop [OF z, of ?k] e by (simp_all add: s1_def)
  have len: "length (bn_data (s1 z)) = 80" using digits_only_room [OF d, of z] z by (simp add: room_def)
  have dg: "dig s2 z j = (if j < ?k then 0 else if j = ?k then 2 ^ (e mod 28) else dig s z j)" for j
    using zero len e by (simp add: s2_def dig_put)
  have "unat (push_bit (e mod 28) 1 :: u32) = 2 ^ (e mod 28)"
    using power_strict_increasing [of "e mod 28" 32 "2 :: nat"]
    by (simp only: unsigned_push_bit_eq) (simp add: push_bit_eq_mult take_bit_nat_eq_self)
  then have p: "unat (2 ^ (e mod 28) :: u32) = 2 ^ (e mod 28)" by (simp add: push_bit_of_1)
  have small: "(2 :: nat) ^ (e mod 28) < bn_base"
    using power_strict_increasing [of "e mod 28" 28 "2 :: nat"] by (simp add: bn_base_def)
  have "bval (dig s2 z) ?k = 0" using bval_zeros [of 0 ?k "dig s2 z"] dg by simp
  then have v: "bval (dig s2 z) (Suc ?k) = 2 ^ e"
    by (simp add: dg p bn_base_power flip: power_add)
  have top: "dig s2 z ?k \<noteq> 0" using p by (auto simp: dg dest: arg_cong [of _ _ unat])
  have "\<forall>j < Suc ?k. unat (dig s2 z j) < bn_base" using small by (simp add: dg p)
  then show ?thesis
    using run' v top e len digits_only_others [OF d]
    by (simp add: nat_result_def bn_ok_def trimmed_def num_def s2_def del: bval_Suc)
qed

lemma BNMod_2Pwr_result:
  assumes x: "bn_ok s x" "trimmed s x" "\<not> sign s x" and z: "room s z"
  shows "nat_result z s (num s x mod 2 ^ e) (BNMod_2Pwr z x e s)"
proof -
  define s1 where "s1 = BNCopy z x s"
  have s1: "nat_result z s (num s x) s1" "used s1 x = used s x" "used s1 z = used s x" "dig s1 z = dig s x"
    using BNCopy_result [OF x, of z] by (simp_all add: s1_def BNCopy_def dig_def fun_eq_iff)
  consider "e = 0" | "0 < e" "used s x * 28 \<le> e" | "0 < e" "e < used s x * 28" by linarith
  then show ?thesis
  proof cases
    case 1
    then show ?thesis using BN_ZERO_result [OF z] by (simp add: BNMod_2Pwr_def)
  next
    case 2
    have "num s x < bn_base ^ used s x" using x(1) by (rule num_less)
    also have "\<dots> \<le> 2 ^ e" unfolding bn_base_power using 2 by (intro power_increasing) simp_all
    finally show ?thesis using 2 s1 by (simp add: BNMod_2Pwr_def s1_def [symmetric] BN_BITS_def)
  next
    case 3
    let ?k = "e div 28" and ?n = "used s x"
    have k: "?k < ?n" using 3 by (simp add: less_mult_imp_div_less)
    have n80: "?n \<le> 80" using x(1) by (simp add: bn_ok_def)
    have len: "length (bn_data (s1 z)) = 80" using s1(1) by (simp add: nat_result_def bn_ok_def)
    define w where "w = dig s x ?k AND (push_bit (e mod 28) 1 - 1)"
    define s2 where "s2 = set_used z (?k + 1) (put_dig z ?k w s1)"
    have run: "BNMod_2Pwr z x e s = BNTRIM z s2"
      using 3 s1 unfolding BNMod_2Pwr_def by (simp add: Let_def s1_def [symmetric] BN_BITS_def s2_def w_def)
    have wv: "unat w = unat (dig s x ?k) mod 2 ^ (e mod 28)"
      unfolding w_def
      by (simp only: push_bit_of_1 mask_eq_exp_minus_1 [symmetric] take_bit_eq_mask [symmetric] unsigned_take_bit_eq)
        (simp only: take_bit_eq_mod)
    then have wless: "unat w < bn_base"
      using bn_ok_dig [OF x(1) k] le_less_trans [OF mod_less_eq_dividend] by simp
    have dg: "dig s2 z j = (if j = ?k then w else dig s x j)" for j
      using k n80 len by (simp add: s2_def dig_put s1)
    have split: "2 ^ e = bn_base ^ ?k * 2 ^ (e mod 28)" by (simp add: bn_base_power flip: power_add)
    have hi: "num s x = bval (dig s x) ?k + bn_base ^ ?k * bval (\<lambda>j. dig s x (?k + j)) (?n - ?k)"
      using bval_shift [of "dig s x" ?k "?n - ?k"] k by (simp add: num_def)
    have low: "bval (dig s x) ?k < bn_base ^ ?k" using bn_ok_dig [OF x(1)] k by (intro bval_less) simp
    have top: "bval (\<lambda>j. dig s x (?k + j)) (?n - ?k) = unat (dig s x ?k) + bn_base * bval (\<lambda>j. dig s x (Suc ?k + j)) (?n - Suc ?k)"
      using bval_low [of "dig s x" ?k "?n - Suc ?k"] k by (simp add: Suc_diff_Suc)
    have b: "bn_base = 2 ^ (e mod 28) * 2 ^ (28 - e mod 28)" by (simp add: bn_base_def flip: power_add)
    have "bval (\<lambda>j. dig s x (?k + j)) (?n - ?k) mod 2 ^ (e mod 28) = unat w"
      unfolding top wv b by (simp add: mult.assoc)
    moreover have "num s x div bn_base ^ ?k = bval (\<lambda>j. dig s x (?k + j)) (?n - ?k)"
      "num s x mod bn_base ^ ?k = bval (dig s x) ?k" unfolding hi using low by simp_all
    ultimately have "num s x mod 2 ^ e = bval (dig s x) ?k + bn_base ^ ?k * unat w"
      unfolding split by (simp add: mod_mult2_eq)
    moreover have "bval (dig s2 z) ?k = bval (dig s x) ?k" by (rule bval_cong) (simp add: dg)
    ultimately have v: "bval (dig s2 z) (Suc ?k) = num s x mod 2 ^ e" by (simp add: dg)
    have "\<forall>j < Suc ?k. unat (dig s2 z j) < bn_base" using wless bn_ok_dig [OF x(1)] k by (simp add: dg)
    then have "bn_ok s2 z" "num s2 z = num s x mod 2 ^ e" "others_same z s s2" "\<not> sign s2 z"
      using v k n80 len s1(1) by (simp_all add: bn_ok_def num_def s2_def nat_result_def del: bval_Suc)
    then show ?thesis by (simp add: run nat_result_def BNTRIM_ok BNTRIM_trimmed BNTRIM_num)
  qed
qed

section \<open>Bit lengths\<close>

lemma bit_length_bounds: "0 < w \<Longrightarrow> 0 < bit_length w \<and> 2 ^ (bit_length w - 1) \<le> unat w \<and> unat w < 2 ^ bit_length w"
proof (induction w rule: bit_length.induct)
  case (1 w)
  let ?h = "drop_bit 1 w"
  have h: "unat ?h = unat w div 2" by (simp add: unsigned_drop_bit_eq drop_bit_eq_div unat_div)
  have l: "bit_length w = 1 + bit_length ?h" using 1(2) by (subst bit_length.simps) simp
  show ?case
  proof (cases "?h = 0")
    case True
    then have "unat w div 2 = 0" using h by simp
    then have "unat w = 1" using 1(2) by (simp add: word_less_nat_alt)
    moreover have "bit_length ?h = 0" using True by (subst bit_length.simps) simp
    ultimately show ?thesis using l by simp
  next
    case False
    then have "0 < ?h" by (simp add: word_gt_0)
    then have IH: "0 < bit_length ?h" "2 ^ (bit_length ?h - 1) \<le> unat w div 2" "unat w div 2 < 2 ^ bit_length ?h"
      using 1(1) [OF 1(2)] h by simp_all
    have "(2 :: nat) ^ (bit_length w - 1) = 2 * 2 ^ (bit_length ?h - 1)"
      using l IH(1) by (cases "bit_length ?h") simp_all
    moreover have "(2 :: nat) ^ bit_length w = 2 * 2 ^ bit_length ?h" using l by simp
    ultimately show ?thesis using IH l by linarith
  qed
qed

lemma BNBitCount_spec:
  assumes x: "bn_ok s x" "trimmed s x" and pos: "0 < num s x"
  shows "0 < BNBitCount x s" "2 ^ (BNBitCount x s - 1) \<le> num s x" "num s x < 2 ^ BNBitCount x s"
proof -
  have u: "0 < used s x" using pos num_zero_iff [OF x(2)] by simp
  let ?k = "used s x - 1"
  let ?t = "dig s x ?k" and ?l = "bit_length (dig s x (used s x - 1))"
  have "?t \<noteq> 0" using x(2) u by (simp add: trimmed_def)
  then have t: "0 < ?l" "2 ^ (?l - 1) \<le> unat ?t" "unat ?t < 2 ^ ?l"
    using bit_length_bounds [of ?t] by (simp_all add: word_gt_0)
  have c: "BNBitCount x s = 28 * ?k + ?l" using u by (simp add: BNBitCount_def BN_BITS_def)
  have v: "num s x = bval (dig s x) ?k + unat ?t * bn_base ^ ?k" using u by (cases "used s x") (simp_all add: num_def)
  have low: "bval (dig s x) ?k < bn_base ^ ?k" using bn_ok_dig [OF x(1)] by (intro bval_less) simp
  show "0 < BNBitCount x s" using c t by simp
  have "2 ^ (BNBitCount x s - 1) = bn_base ^ ?k * 2 ^ (?l - 1)"
    using t(1) by (simp add: c bn_base_power flip: power_add)
  also have "\<dots> \<le> bn_base ^ ?k * unat ?t" using t(2) by simp
  finally show "2 ^ (BNBitCount x s - 1) \<le> num s x" using v by (simp add: mult.commute)
  have "num s x < (unat ?t + 1) * bn_base ^ ?k" using v low by simp
  also have "\<dots> \<le> 2 ^ ?l * bn_base ^ ?k" using t(3) by (intro mult_right_mono) simp_all
  finally show "num s x < 2 ^ BNBitCount x s" by (simp add: c bn_base_power mult.commute flip: power_add)
qed

end
