(* ===== verification/Sev_BigNumMul.thy ===== *)
theory Sev_BigNumMul
  imports Complex_Main Sev_BigNumBits
begin

text \<open>
  What the multiplications of \<open>bignum.c\<close> compute: the columns of the product, their carries and
  the bound that keeps a column within 64 bits.
\<close>

section \<open>Columns\<close>

text \<open>Column \<open>i\<close> of the product of \<open>n\<close> digits \<open>d\<close> by \<open>m\<close> digits \<open>e\<close>.\<close>

definition column :: "(nat \<Rightarrow> u32) \<Rightarrow> nat \<Rightarrow> (nat \<Rightarrow> u32) \<Rightarrow> nat \<Rightarrow> nat \<Rightarrow> nat" where
  "column d n e m i = (\<Sum>p = i + 1 - m..<min (i + 1) n. unat (d p) * unat (e (i - p)))"

definition digit_upto :: "(nat \<Rightarrow> u32) \<Rightarrow> nat \<Rightarrow> nat \<Rightarrow> nat" where
  "digit_upto d n i = (if i < n then unat (d i) else 0)"

lemma column_conv: "0 < m \<Longrightarrow> column d n e m i = (\<Sum>p \<le> i. digit_upto d n p * digit_upto e m (i - p))"
proof -
  assume m: "0 < m"
  have "column d n e m i = (\<Sum>p = i + 1 - m..<min (i + 1) n. digit_upto d n p * digit_upto e m (i - p))"
    unfolding column_def by (rule sum.cong) (use m in \<open>auto simp: digit_upto_def\<close>)
  also have "\<dots> = (\<Sum>p \<le> i. digit_upto d n p * digit_upto e m (i - p))"
    by (rule sum.mono_neutral_left) (auto simp: digit_upto_def)
  finally show ?thesis .
qed

lemma bval_upto: "n \<le> Suc k \<Longrightarrow> bval d n = (\<Sum>i \<le> k. digit_upto d n i * bn_base ^ i)"
proof -
  assume n: "n \<le> Suc k"
  have "bval d n = (\<Sum>i < n. digit_upto d n i * bn_base ^ i)" by (simp add: bval_def digit_upto_def)
  also have "\<dots> = (\<Sum>i \<le> k. digit_upto d n i * bn_base ^ i)"
    by (rule sum.mono_neutral_left) (use n in \<open>auto simp: digit_upto_def\<close>)
  finally show ?thesis .
qed

lemma columns_product:
  assumes "0 < n" "0 < m"
  shows "(\<Sum>i < n + m - 1. column d n e m i * bn_base ^ i) = bval d n * bval e m"
proof -
  have "bval d n * bval e m = (\<Sum>i \<le> n - 1. digit_upto d n i * bn_base ^ i) * (\<Sum>i \<le> m - 1. digit_upto e m i * bn_base ^ i)"
    by (simp add: bval_upto [of n "n - 1"] bval_upto [of m "m - 1"] assms)
  also have "\<dots> = (\<Sum>i \<le> (n - 1) + (m - 1). (\<Sum>p \<le> i. digit_upto d n p * digit_upto e m (i - p)) * bn_base ^ i)"
    by (rule polynomial_product_nat) (use assms in \<open>auto simp: digit_upto_def\<close>)
  also have "\<dots> = (\<Sum>i < n + m - 1. column d n e m i * bn_base ^ i)"
    using assms by (simp add: column_conv lessThan_Suc_atMost [symmetric] Suc_diff_Suc)
  finally show ?thesis by simp
qed

lemma column_zero: "n + m - 1 \<le> i \<Longrightarrow> 0 < n \<Longrightarrow> 0 < m \<Longrightarrow> column d n e m i = 0"
  by (simp add: column_def)

lemma columns_from: "0 < n \<Longrightarrow> 0 < m \<Longrightarrow> n + m - 1 \<le> L \<Longrightarrow> (\<Sum>i < L. column d n e m i * bn_base ^ i) = bval d n * bval e m"
proof -
  assume a: "0 < n" "0 < m" "n + m - 1 \<le> L"
  have "(\<Sum>i < n + m - 1. column d n e m i * bn_base ^ i) = (\<Sum>i < L. column d n e m i * bn_base ^ i)"
    by (rule sum.mono_neutral_left) (use a in \<open>auto simp: column_zero\<close>)
  then show ?thesis using columns_product [of n m d e] a by simp
qed

lemma column_bound:
  assumes "\<And>i. i < n \<Longrightarrow> unat (d i) < bn_base" "\<And>i. i < m \<Longrightarrow> unat (e i) < bn_base" "n \<le> 80" "0 < m"
  shows "column d n e m i \<le> 80 * (bn_base - 1) ^ 2"
proof -
  have "column d n e m i \<le> (\<Sum>p = i + 1 - m..<min (i + 1) n. (bn_base - 1) ^ 2)"
    unfolding column_def
  proof (rule sum_mono)
    fix p assume p: "p \<in> {i + 1 - m..<min (i + 1) n}"
    have "p < n" "i - p < m" using p assms(4) by (simp, simp, arith)
    then have "unat (d p) \<le> bn_base - 1" "unat (e (i - p)) \<le> bn_base - 1"
      using assms(1) [of p] assms(2) [of "i - p"] by linarith+
    then show "unat (d p) * unat (e (i - p)) \<le> (bn_base - 1) ^ 2"
      unfolding power2_eq_square by (rule mult_mono) simp_all
  qed
  also have "\<dots> = card {i + 1 - m..<min (i + 1) n} * (bn_base - 1) ^ 2" by simp
  also have "\<dots> \<le> 80 * (bn_base - 1) ^ 2" using assms(3) by (intro mult_right_mono) simp_all
  finally show ?thesis .
qed

section \<open>The inner loop\<close>

declare mul_inner.simps [simp del]

lemma unat_mult_digits:
  fixes a b :: u32 assumes "unat a < bn_base" "unat b < bn_base"
  shows "unat (ucast a * ucast b :: u64) = unat a * unat b"
proof -
  have "unat a * unat b < bn_base * bn_base" using assms by (intro mult_strict_mono) simp_all
  then have "unat a * unat b < 2 ^ 64" by (simp add: bn_base_num)
  then show ?thesis by (simp add: unat_mult_lem [THEN iffD1] unsigned_ucast_eq take_bit_nat_eq_self unat_u32 [simplified] less_trans [OF unat_u32])
qed

lemma mul_inner_sum:
  assumes "plim - px \<le> py + 1"
    and "\<And>p. px \<le> p \<Longrightarrow> p < plim \<Longrightarrow> unat (dig s x p) < bn_base"
    and "\<And>p. px \<le> p \<Longrightarrow> p < plim \<Longrightarrow> unat (dig s y (px + py - p)) < bn_base"
    and "unat carry + (\<Sum>p = px..<plim. unat (dig s x p) * unat (dig s y (px + py - p))) < 2 ^ 64"
  shows "unat (mul_inner s x y px py plim carry) =
    unat carry + (\<Sum>p = px..<plim. unat (dig s x p) * unat (dig s y (px + py - p)))"
  using assms
proof (induction s x y px py plim carry rule: mul_inner.induct)
  case (1 s x y px py plim carry)
  show ?case
  proof (cases "px < plim")
    case True
    let ?v = "\<lambda>p. unat (dig s x p) * unat (dig s y (px + py - p))"
    let ?c = "carry + ucast (dig s x px) * ucast (dig s y py)"
    have split: "(\<Sum>p = px..<plim. ?v p) = unat (dig s x px) * unat (dig s y py) + (\<Sum>p = px + 1..<plim. ?v p)"
      using sum.atLeast_Suc_lessThan [OF True, of ?v] by simp
    have m: "unat (ucast (dig s x px) * ucast (dig s y py) :: u64) = unat (dig s x px) * unat (dig s y py)"
      using 1(3) [of px] 1(4) [of px] True by (intro unat_mult_digits) simp_all
    have c: "unat ?c = unat carry + unat (dig s x px) * unat (dig s y py)"
      using 1(5) unfolding split m [symmetric] by (intro unat_add_lem [THEN iffD1]) simp
    show ?thesis
    proof (cases "px + 1 < plim")
      case more: True
      then have idx: "px + 1 + (py - 1) = px + py" using 1(2) by linarith
      have "unat (mul_inner s x y (px + 1) (py - 1) plim ?c) = unat ?c + (\<Sum>p = px + 1..<plim. ?v p)"
        using 1(1) [OF True] 1(2-5) more unfolding idx split c by simp
      then show ?thesis using True by (subst mul_inner.simps) (simp add: c split)
    next
      case False
      then have "plim = Suc px" using True by simp
      then show ?thesis using True c by (subst mul_inner.simps) (simp add: mul_inner.simps)
    qed
  next
    case False
    then show ?thesis by (subst mul_inner.simps) simp
  qed
qed

section \<open>The loop over the columns\<close>

definition mul_inv :: "bn_ref \<Rightarrow> bns \<Rightarrow> (nat \<Rightarrow> nat) \<Rightarrow> nat \<Rightarrow> nat \<Rightarrow> u64 \<times> bns \<Rightarrow> bool" where
  "mul_inv z s col a i = (\<lambda>(c, s'). written z i s s' \<and> unat c \<le> 80 * bn_base \<and>
     bval (dig s' z) i + unat c * bn_base ^ i = (\<Sum>j = a..<i. col j * bn_base ^ j))"

lemma column_fits: "c \<le> 80 * bn_base \<Longrightarrow> v \<le> 80 * (bn_base - 1) ^ 2 \<Longrightarrow> c + v \<le> 80 * bn_base * bn_base \<and> c + v < 2 ^ 64"
  by (simp add: bn_base_num power2_eq_square)

lemma mul_inv_step:
  assumes inv: "mul_inv z s (column (dig s x) n (dig s y) m) a i (c, s')" and z: "room s z" "x \<noteq> z" "y \<noteq> z"
    and i: "a \<le> i" "i < 80" and n: "0 < n" "n \<le> 80" and m: "0 < m"
    and x: "\<And>j. j < n \<Longrightarrow> unat (dig s x j) < bn_base" and y: "\<And>j. j < m \<Longrightarrow> unat (dig s y j) < bn_base"
    and p: "px + py = i" "px = i + 1 - m" "plim = min (i + 1) n"
  shows "mul_inv z s (column (dig s x) n (dig s y) m) a (Suc i) (mul_store z i (mul_inner s' x y px py plim c) s')"
proof -
  let ?col = "column (dig s x) n (dig s y) m"
  have w: "written z i s s'" and c: "unat c \<le> 80 * bn_base"
    and v: "bval (dig s' z) i + unat c * bn_base ^ i = (\<Sum>j = a..<i. ?col j * bn_base ^ j)"
    using inv by (simp_all add: mul_inv_def)
  have d: "digits_only z s s'" using w by (simp add: written_def)
  have rd: "dig s' x = dig s x" "dig s' y = dig s y"
    using digits_only_dig [OF d] z by (simp_all add: fun_eq_iff)
  have sum: "(\<Sum>q = px..<plim. unat (dig s' x q) * unat (dig s' y (px + py - q))) = ?col i"
    unfolding p(1) by (simp add: column_def rd p(2,3))
  note fits = column_fits [OF c column_bound [of n "dig s x" m "dig s y" i, OF x y n(2) m]]
  define t where "t = mul_inner s' x y px py plim c"
  have t: "unat t = unat c + ?col i"
    unfolding t_def sum [symmetric]
  proof (rule mul_inner_sum)
    show "plim - px \<le> py + 1" using p by linarith
    fix q assume q: "px \<le> q" "q < plim"
    show "unat (dig s' x q) < bn_base" using q p x by (simp add: rd)
    have "px + py - q < m" using q p m by linarith
    then show "unat (dig s' y (px + py - q)) < bn_base" using y by (simp add: rd)
  qed (use fits sum in simp)
  let ?m = "ucast t AND BN_MASK :: u32" and ?c = "drop_bit BN_BITS t"
  have um: "unat ?m = unat t mod bn_base"
    by (simp only: unat_mask unsigned_ucast_eq) (simp only: bn_base_def take_bit_eq_mod [symmetric] take_bit_take_bit, simp)
  have uc: "unat ?c = unat t div bn_base" by (simp add: BN_BITS_def bn_base_def drop_bit_eq_div unat_div)
  have ub: "unat ?m < bn_base" by (simp add: um)
  have "unat ?c \<le> (80 * bn_base * bn_base) div bn_base" unfolding uc t by (intro div_le_mono) (use fits in simp)
  then have c': "unat ?c \<le> 80 * bn_base" by simp
  have "unat ?m + unat ?c * bn_base = unat c + ?col i" unfolding um uc t [symmetric] by simp
  then have "(unat ?m + unat ?c * bn_base) * bn_base ^ i = (unat c + ?col i) * bn_base ^ i" by simp
  then have "bval (dig s' z) i + unat ?m * bn_base ^ i + unat ?c * bn_base ^ Suc i = (\<Sum>j = a..<Suc i. ?col j * bn_base ^ j)"
    using v i(1) by (simp add: algebra_simps)
  then show ?thesis
    using written_put [OF w z(1) i(2) ub] c' by (simp add: mul_inv_def mul_store_def t_def [symmetric] del: bval_Suc)
qed

text \<open>What the columns up to \<open>L\<close> leave in \<open>L\<close> digits.\<close>

lemma mul_inv_value:
  assumes "mul_inv z s col a L (c, s')"
  shows "bval (dig s' z) L = (\<Sum>j = a..<L. col j * bn_base ^ j) mod bn_base ^ L"
proof -
  have "bval (dig s' z) L < bn_base ^ L" using assms by (intro bval_less) (simp add: mul_inv_def written_def)
  then have "bval (dig s' z) L = (bval (dig s' z) L + unat c * bn_base ^ L) mod bn_base ^ L" by simp
  also have "bval (dig s' z) L + unat c * bn_base ^ L = (\<Sum>j = a..<L. col j * bn_base ^ j)" using assms by (simp add: mul_inv_def)
  finally show ?thesis .
qed

lemma columns_mod:
  assumes "0 < n" "0 < m"
  shows "(\<Sum>j = 0..<L. column d n e m j * bn_base ^ j) mod bn_base ^ L = (bval d n * bval e m) mod bn_base ^ L"
proof -
  let ?t = "\<lambda>j. column d n e m j * bn_base ^ j" and ?K = "max L (n + m)"
  have "bval d n * bval e m = (\<Sum>j = 0..<?K. ?t j)"
    using columns_from [of n m ?K d e] assms by (simp add: lessThan_atLeast0)
  also have "\<dots> = (\<Sum>j = 0..<L. ?t j) + (\<Sum>j = L..<?K. ?t j)" by (simp add: sum.atLeastLessThan_concat)
  also have "(\<Sum>j = L..<?K. ?t j) = bn_base ^ L * (\<Sum>j = L..<?K. column d n e m j * bn_base ^ (j - L))"
    unfolding sum_distrib_left by (rule sum.cong) (simp_all add: ac_simps flip: power_add)
  finally show ?thesis by simp
qed

section \<open>The products\<close>

lemma mul_inv_start: "mul_inv z s col 0 0 (0, s)"
  by (simp add: mul_inv_def)

lemma BNMultiply_result:
  assumes x: "bn_ok s x" and y: "bn_ok s y" and sg: "sign s x = sign s y" and z: "room s z" "x \<noteq> z" "y \<noteq> z"
    and L: "L = (if Digits = 0 then used s x + used s y else Digits)" "L \<le> 80"
    and run: "BNMultiply z x y Digits s = (status, s')"
  shows "status = KC_OK \<and> nat_result z s ((num s x * num s y) mod bn_base ^ L) s'"
proof (cases "used s x = 0 \<or> used s y = 0")
  case True
  then show ?thesis
    using run z BN_ZERO_result [OF z(1)] by (auto simp: BNMultiply_def num_zero)
next
  case False
  let ?n = "used s x" and ?m = "used s y"
  have nm: "0 < ?n" "0 < ?m" "?n \<le> 80" using False x by (simp_all add: bn_ok_def)
  define s1 where "s1 = set_used z L (set_sign z (sign s x \<noteq> sign s y) s)"
  have s1: "dig s1 = dig s" "room s1 z" "others_same z s s1" "used s1 z = L" "\<not> sign s1 z"
    using z sg by (simp_all add: s1_def fun_eq_iff)
  let ?col = "column (dig s1 x) ?n (dig s1 y) ?m"
  let ?f1 = "\<lambda>i (py, plim, carry, s). (py + 1, if ?n - 1 > i then plim + 1 else plim,
     mul_store z i (mul_inner s x y 0 py plim carry) s)"
  let ?f2 = "\<lambda>py i (px, plim, carry, s). (px + 1, if ?n - 1 > i then plim + 1 else plim,
     mul_store z i (mul_inner s x y px py plim carry) s)"
  have dx: "\<And>j. j < ?n \<Longrightarrow> unat (dig s1 x j) < bn_base" and dy: "\<And>j. j < ?m \<Longrightarrow> unat (dig s1 y j) < bn_base"
    using x y by (simp_all add: s1 bn_ok_dig)
  let ?P1 = "\<lambda>i (py, plim, c, s'). py = i \<and> plim = min (i + 1) ?n \<and> mul_inv z s1 ?col 0 i (c, s')"
  let ?P2 = "\<lambda>i (px, plim, c, s'). px = i - (?m - 1) \<and> plim = min (i + 1) ?n \<and> mul_inv z s1 ?col 0 i (c, s')"
  let ?K = "max L (?m - 1)"
  have m80: "?m \<le> 80" using y by (simp add: bn_ok_def)
  have "?P1 (?m - 1) (fold ?f1 [0..<?m - 1] (0, 1, 0, s1))"
  proof (rule fold_upt_invariant [where P = ?P1])
    fix i st assume i: "0 \<le> i" "i < ?m - 1" and P: "?P1 i st"
    obtain py plim c s' where st: "st = (py, plim, c, s')" by (cases st) auto
    have "mul_inv z s1 ?col 0 (Suc i) (mul_store z i (mul_inner s' x y 0 py plim c) s')"
      by (rule mul_inv_step) (use P st z s1 nm dx dy i m80 in simp_all)
    then show "?P1 (Suc i) (?f1 i st)" using P by (auto simp: st case_prod_beta)
  qed (use mul_inv_start nm in simp_all)
  then obtain plim c s2 where st1: "fold ?f1 [0..<?m - 1] (0, 1, 0, s1) = (?m - 1, plim, c, s2)"
    and P: "plim = min ?m ?n" "mul_inv z s1 ?col 0 (?m - 1) (c, s2)"
    using nm by (cases "fold ?f1 [0..<?m - 1] (0, 1, 0, s1)") auto
  have "?P2 ?K (fold (?f2 (?m - 1)) [?m - 1..<?K] (0, plim, c, s2))"
  proof (rule fold_upt_invariant [where P = ?P2])
    fix i st assume i: "?m - 1 \<le> i" "i < ?K" and P: "?P2 i st"
    obtain px plim c s' where st: "st = (px, plim, c, s')" by (cases st) auto
    have "mul_inv z s1 ?col 0 (Suc i) (mul_store z i (mul_inner s' x y px (?m - 1) plim c) s')"
      by (rule mul_inv_step) (use P st z s1 nm dx dy i L m80 in auto)
    then show "?P2 (Suc i) (?f2 (?m - 1) i st)" using P i nm by (auto simp: st case_prod_beta)
  qed (use P nm in simp_all)
  moreover have "[?m - 1..<?K] = [?m - 1..<L]" by (simp add: max_def)
  ultimately obtain px plim' c' s3 where st2: "fold (?f2 (?m - 1)) [?m - 1..<L] (0, plim, c, s2) = (px, plim', c', s3)"
    and inv: "mul_inv z s1 ?col 0 ?K (c', s3)"
    by (cases "fold (?f2 (?m - 1)) [?m - 1..<L] (0, plim, c, s2)") auto
  have "\<not> (z = x \<or> z = y)" "\<not> MAX_BN_ELEMENTS < L" using z L by (auto simp: MAX_BN_ELEMENTS_def)
  then have "BNMultiply z x y Digits s = (KC_OK, BNTRIM z s3)"
    unfolding BNMultiply_def Let_def L(1) [symmetric] s1_def [symmetric] using False st1 st2 by (simp only: if_False prod.case)
  then have run': "status = KC_OK" "s' = BNTRIM z s3" using run by simp_all
  have w: "written z ?K s1 s3" using inv by (simp add: mul_inv_def)
  have d: "digits_only z s1 s3" using w by (simp add: written_def)
  have "bval (dig s3 z) L = bval (dig s3 z) ?K mod bn_base ^ L"
    using w by (intro bval_mod [symmetric]) (simp_all add: written_def)
  also have "\<dots> = (num s x * num s y) mod bn_base ^ ?K mod bn_base ^ L"
    using mul_inv_value [OF inv] columns_mod [OF nm(1,2)] by (simp add: num_def s1)
  also have "\<dots> = (num s x * num s y) mod bn_base ^ L" by (rule mod_mod_cancel) (simp add: le_imp_power_dvd)
  finally have "bn_ok s3 z" "others_same z s s3" "\<not> sign s3 z" "num s3 z = (num s x * num s y) mod bn_base ^ L"
    using w L digits_only_used [OF d] s1 digits_only_room [OF d, of z] others_same_trans [OF s1(3) digits_only_others [OF d]]
    by (simp_all add: bn_ok_def written_def room_def num_def)
  then show ?thesis using run' by (simp add: nat_result_def BNTRIM_ok BNTRIM_trimmed BNTRIM_num)
qed

text \<open>The high digits alone: the columns below \<open>D\<close> are left out, their carries too.\<close>

definition high_product :: "(nat \<Rightarrow> u32) \<Rightarrow> nat \<Rightarrow> (nat \<Rightarrow> u32) \<Rightarrow> nat \<Rightarrow> nat \<Rightarrow> nat" where
  "high_product d n e m D = (\<Sum>j = D..<n + m. column d n e m j * bn_base ^ j)"

lemma high_start_eq:
  assumes "0 < n" "0 < m" "i < n + m" and "high_start n m i = (px, py, plim)"
  shows "px + py = i" "px = i + 1 - m" "plim = min (i + 1) n"
  using assms by (auto simp: high_start_def Let_def min_def split: if_splits)

lemma BNMultiplyHighDigs_result:
  assumes x: "bn_ok s x" and y: "bn_ok s y" and sg: "sign s x = sign s y" and z: "room s z" "x \<noteq> z" "y \<noteq> z"
    and fits: "used s x + used s y \<le> 80" "D \<le> 80"
    and run: "BNMultiplyHighDigs z x y D s = (status, s')"
  shows "status = KC_OK" "nat_result z s (high_product (dig s x) (used s x) (dig s y) (used s y) D) s'"
proof -
  let ?n = "used s x" and ?m = "used s y"
  let ?L = "?n + ?m"
  have all: "status = KC_OK \<and> nat_result z s (high_product (dig s x) ?n (dig s y) ?m D) s'"
  proof (cases "?n = 0 \<or> ?m = 0")
    case True
    then have "high_product (dig s x) ?n (dig s y) ?m D = 0"
      unfolding high_product_def column_def by (intro sum.neutral ballI) auto
    then show ?thesis
      using True run z BN_ZERO_result [OF z(1)] by (auto simp: BNMultiplyHighDigs_def)
  next
    case False
    have nm: "0 < ?n" "0 < ?m" "?n \<le> 80" using False x by (simp_all add: bn_ok_def)
    define s1 where "s1 = fold (\<lambda>i s. put_dig z i 0 s) [0..<D] s"
    have d1: "digits_only z s s1" and zero: "\<And>j. dig s1 z j = (if j < D then 0 else dig s z j)"
      using zero_loop [OF z(1) fits(2)] by (simp_all add: s1_def)
    define s2 where "s2 = set_used z ?L (set_sign z (sign s1 x \<noteq> sign s1 y) s1)"
    have s2: "dig s2 x = dig s x" "dig s2 y = dig s y" "dig s2 z = dig s1 z" "room s2 z" "others_same z s s2" "used s2 z = ?L"
        "used s2 x = ?n" "used s2 y = ?m" "\<not> sign s2 z"
      using digits_only_dig [OF d1] z sg digits_only_room [OF d1] digits_only_others [OF d1] digits_only_used [OF d1]
      by (simp_all add: s2_def fun_eq_iff)
    let ?col = "column (dig s2 x) ?n (dig s2 y) ?m"
    let ?f = "\<lambda>i (carry, s). case high_start (used s2 x) (used s2 y) i of (px, py, plim) \<Rightarrow>
                       mul_store z i (mul_inner s x y px py plim carry) s"
    let ?P = "\<lambda>i st. mul_inv z s2 ?col D i st"
    have w0: "written z D s2 s2" using zero s2 by (simp add: written_def)
    have v0: "bval (dig s2 z) D = 0" using bval_zeros [of 0 D "dig s2 z"] zero s2 by simp
    have start: "?P D (0, s2)" using w0 v0 by (simp add: mul_inv_def)
    have "?P (max D ?L) (fold ?f [D..<max D ?L] (0, s2))"
    proof (rule fold_upt_invariant [where P = ?P])
      fix i st assume i: "D \<le> i" "i < max D ?L" and P: "?P i st"
      obtain c s' where st: "st = (c, s')" by (cases st)
      obtain px py plim where h: "high_start ?n ?m i = (px, py, plim)" by (cases "high_start ?n ?m i") auto
      have "mul_inv z s2 ?col D (Suc i) (mul_store z i (mul_inner s' x y px py plim c) s')"
        by (rule mul_inv_step)
          (use high_start_eq [OF nm(1,2) _ h] P st z s2 nm x y i fits in \<open>auto simp: bn_ok_dig\<close>)
      then show "?P (Suc i) (?f i st)" using s2 h by (simp add: st)
    qed (use start in simp_all)
    moreover have "[D..<max D ?L] = [D..<?L]" by (simp add: max_def)
    ultimately obtain c s3 where st: "fold ?f [D..<?L] (0, s2) = (c, s3)" and inv: "?P (max D ?L) (c, s3)"
      by (cases "fold ?f [D..<?L] (0, s2)") auto
    have "\<not> (z = x \<or> z = y)" "\<not> MAX_BN_ELEMENTS < ?L" using z fits by (auto simp: MAX_BN_ELEMENTS_def)
    then have "BNMultiplyHighDigs z x y D s = (KC_OK, BNTRIM z s3)"
      unfolding BNMultiplyHighDigs_def Let_def s1_def [symmetric] s2_def [symmetric] using False st by (simp only: if_False prod.case)
    then have run': "status = KC_OK" "s' = BNTRIM z s3" using run by simp_all
    have w: "written z (max D ?L) s2 s3" using inv by (simp add: mul_inv_def)
    have d: "digits_only z s2 s3" using w by (simp add: written_def)
    let ?h = "high_product (dig s x) ?n (dig s y) ?m D"
    have "?h \<le> (\<Sum>j < ?L. column (dig s x) ?n (dig s y) ?m j * bn_base ^ j)"
      unfolding high_product_def lessThan_atLeast0 by (rule sum_mono2) auto
    also have "\<dots> = num s x * num s y" using columns_from [OF nm(1,2)] by (simp add: num_def)
    also have "\<dots> < bn_base ^ ?n * bn_base ^ ?m" using num_less [OF x] num_less [OF y] by (intro mult_strict_mono) simp_all
    finally have less: "?h < bn_base ^ ?L" by (simp add: power_add)
    have h': "(\<Sum>j = D..<max D ?L. ?col j * bn_base ^ j) = ?h"
      unfolding high_product_def s2 by (cases "D \<le> ?L") (simp_all add: max_def)
    have "bval (dig s3 z) ?L = bval (dig s3 z) (max D ?L) mod bn_base ^ ?L"
      using w by (intro bval_mod [symmetric]) (simp_all add: written_def)
    also have "\<dots> = ?h mod bn_base ^ (max D ?L) mod bn_base ^ ?L" using mul_inv_value [OF inv] h' by simp
    also have "\<dots> = ?h mod bn_base ^ ?L" by (rule mod_mod_cancel) (simp add: le_imp_power_dvd)
    finally have "bval (dig s3 z) ?L = ?h" using less by simp
    then have "bn_ok s3 z" "others_same z s s3" "\<not> sign s3 z" "num s3 z = ?h"
      using w fits digits_only_used [OF d] s2 digits_only_room [OF d, of z] others_same_trans [OF s2(5) digits_only_others [OF d]]
      by (simp_all add: bn_ok_def written_def room_def num_def)
    then show ?thesis using run' by (simp add: nat_result_def BNTRIM_ok BNTRIM_trimmed BNTRIM_num)
  qed
  then show "status = KC_OK" "nat_result z s (high_product (dig s x) ?n (dig s y) ?m D) s'" by blast+
qed

text \<open>What is left out is at most \<open>D\<close> times \<open>bn_base ^ (D + 1)\<close>.\<close>

lemma digit_power_sum: "(\<Sum>j < D. (bn_base - 1) * bn_base ^ j) < bn_base ^ D"
proof (induction D)
  case (Suc D)
  have "(bn_base - 1) * bn_base ^ D + bn_base ^ D = bn_base ^ Suc D"
    by (simp add: diff_mult_distrib)
  then show ?case using Suc by (simp del: power_Suc)
qed simp

lemma low_columns:
  assumes d: "\<And>j. j < n \<Longrightarrow> unat (d j) < bn_base" and e: "\<And>j. j < m \<Longrightarrow> unat (e j) < bn_base" and m: "0 < m"
  shows "(\<Sum>j < D. column d n e m j * bn_base ^ j) \<le> D * bn_base ^ (D + 1)"
proof -
  have col: "column d n e m j \<le> D * (bn_base - 1) ^ 2" if "j < D" for j
  proof -
    have "column d n e m j \<le> (\<Sum>p = j + 1 - m..<min (j + 1) n. (bn_base - 1) ^ 2)"
      unfolding column_def
    proof (rule sum_mono)
      fix p assume p: "p \<in> {j + 1 - m..<min (j + 1) n}"
      have "p < n" "j - p < m" using p m by (simp, simp, arith)
      then have "unat (d p) \<le> bn_base - 1" "unat (e (j - p)) \<le> bn_base - 1"
        using d [of p] e [of "j - p"] by linarith+
      then show "unat (d p) * unat (e (j - p)) \<le> (bn_base - 1) ^ 2"
        unfolding power2_eq_square by (rule mult_mono) simp_all
    qed
    also have "\<dots> = card {j + 1 - m..<min (j + 1) n} * (bn_base - 1) ^ 2" by simp
    also have "\<dots> \<le> D * (bn_base - 1) ^ 2" using that by (intro mult_right_mono) simp_all
    finally show ?thesis .
  qed
  have "(\<Sum>j < D. column d n e m j * bn_base ^ j) \<le> (\<Sum>j < D. D * (bn_base - 1) ^ 2 * bn_base ^ j)"
    by (intro sum_mono mult_right_mono col) simp_all
  also have "\<dots> = D * (bn_base - 1) * (\<Sum>j < D. (bn_base - 1) * bn_base ^ j)"
    by (simp add: sum_distrib_left power2_eq_square ac_simps)
  also have "\<dots> \<le> D * bn_base * bn_base ^ D"
    using digit_power_sum [of D] by (intro mult_mono) simp_all
  finally show ?thesis by simp
qed

lemma high_product_bounds_pos:
  assumes d: "\<And>j. j < n \<Longrightarrow> unat (d j) < bn_base" and e: "\<And>j. j < m \<Longrightarrow> unat (e j) < bn_base" and nm: "0 < n" "0 < m"
  shows "high_product d n e m D \<le> bval d n * bval e m" "bval d n * bval e m \<le> high_product d n e m D + D * bn_base ^ (D + 1)"
proof -
  let ?t = "\<lambda>j. column d n e m j * bn_base ^ j"
  have total: "(\<Sum>j < n + m. ?t j) = bval d n * bval e m" using columns_from [OF nm] by simp
  have "high_product d n e m D \<le> (\<Sum>j < n + m. ?t j)"
    unfolding high_product_def lessThan_atLeast0 by (rule sum_mono2) auto
  then show "high_product d n e m D \<le> bval d n * bval e m" by (simp add: total)
  have "(\<Sum>j < n + m. ?t j) \<le> (\<Sum>j \<in> {..<D} \<union> {D..<n + m}. ?t j)" by (rule sum_mono2) auto
  also have "\<dots> = (\<Sum>j < D. ?t j) + (\<Sum>j = D..<n + m. ?t j)" by (rule sum.union_disjoint) auto
  finally show "bval d n * bval e m \<le> high_product d n e m D + D * bn_base ^ (D + 1)"
    using low_columns [of n d m e D, OF d e nm(2)] total by (simp add: high_product_def)
qed

lemma high_product_bounds:
  assumes "\<And>j. j < n \<Longrightarrow> unat (d j) < bn_base" "\<And>j. j < m \<Longrightarrow> unat (e j) < bn_base"
  shows "high_product d n e m D \<le> bval d n * bval e m" "bval d n * bval e m \<le> high_product d n e m D + D * bn_base ^ (D + 1)"
proof -
  have "high_product d n e m D \<le> bval d n * bval e m \<and> bval d n * bval e m \<le> high_product d n e m D + D * bn_base ^ (D + 1)"
  proof (cases "0 < n \<and> 0 < m")
    case True
    then show ?thesis using high_product_bounds_pos [of n d m e D] assms by simp
  next
    case False
    then have "high_product d n e m D = 0"
      unfolding high_product_def column_def by (intro sum.neutral ballI) auto
    then show ?thesis using False by auto
  qed
  then show "high_product d n e m D \<le> bval d n * bval e m" "bval d n * bval e m \<le> high_product d n e m D + D * bn_base ^ (D + 1)"
    by blast+
qed

end
