(* ===== verification/Sev_BigNumDiv.thy ===== *)
theory Sev_BigNumDiv
  imports Sev_BigNumMul
begin

text \<open>
  The division of \<open>bignum.c\<close>: the estimate of a digit of the quotient is at most one too large,
  its loops end, and the remainder is the one of the division.
\<close>

section \<open>The estimate of a digit\<close>

text \<open>\<open>U\<close> is the weight of the last of the digits that the estimate looks at, \<open>P\<close> the shifted
  divisor and \<open>N\<close> the dividend; \<open>y2\<close> and \<open>x3\<close> are their leading digits.\<close>

lemma estimate_upper:
  fixes q y2 U P N x3 :: nat
  assumes "y2 * U \<le> P" "N < (x3 + 1) * U" "q * P \<le> N"
  shows "q * y2 \<le> x3"
proof -
  have "(q * y2) * U \<le> q * P" using assms(1) by (simp add: mult.assoc)
  then have "(q * y2) * U < (x3 + 1) * U" using assms by linarith
  then have "q * y2 < x3 + 1" by (simp only: mult_less_cancel2)
  then show ?thesis by simp
qed

lemma estimate_lower:
  fixes v y2 U P N x3 c :: nat
  assumes "P \<le> (y2 + 1) * U" "x3 * U \<le> N" "v * y2 \<le> x3" "v < c" "c * U \<le> P" "0 < U"
  shows "v * P < N + P"
proof -
  have "v * P \<le> v * ((y2 + 1) * U)" using assms(1) by simp
  also have "\<dots> = (v * y2) * U + v * U" by (simp add: algebra_simps)
  also have "\<dots> \<le> x3 * U + v * U" using assms(3) by simp
  also have "\<dots> < x3 * U + c * U" using assms(4,6) by simp
  finally show ?thesis using assms by linarith
qed

definition digit_or_0 :: "(nat \<Rightarrow> u32) \<Rightarrow> bool \<Rightarrow> nat \<Rightarrow> nat" where
  "digit_or_0 d b i = (if b then unat (d i) else 0)"

lemma leading_two:
  assumes "\<And>j. j \<le> t \<Longrightarrow> unat (d j) < bn_base"
  shows "(unat (d t) * bn_base + digit_or_0 d (0 < t) (t - 1)) * bn_base ^ t \<le> bval d (t + 1) * bn_base"
    "bval d (t + 1) * bn_base \<le> (unat (d t) * bn_base + digit_or_0 d (0 < t) (t - 1) + 1) * bn_base ^ t"
    "unat (d t) * bn_base ^ t \<le> bval d (t + 1)" "bval d (t + 1) \<le> (unat (d t) + 1) * bn_base ^ t"
proof -
  have low: "bval d t < bn_base ^ t" using assms by (intro bval_less) simp
  show "unat (d t) * bn_base ^ t \<le> bval d (t + 1)" "bval d (t + 1) \<le> (unat (d t) + 1) * bn_base ^ t"
    using low by simp_all
  have "(unat (d t) * bn_base + digit_or_0 d (0 < t) (t - 1)) * bn_base ^ t \<le> bval d (t + 1) * bn_base \<and>
    bval d (t + 1) * bn_base \<le> (unat (d t) * bn_base + digit_or_0 d (0 < t) (t - 1) + 1) * bn_base ^ t"
  proof (cases t)
    case (Suc u)
    have "bval d u * bn_base \<le> bn_base ^ u * bn_base"
      using bval_less [of u d] assms Suc by (intro mult_right_mono) (auto simp: less_imp_le)
    then show ?thesis by (simp add: Suc digit_or_0_def algebra_simps)
  qed (simp add: digit_or_0_def)
  then show "(unat (d t) * bn_base + digit_or_0 d (0 < t) (t - 1)) * bn_base ^ t \<le> bval d (t + 1) * bn_base"
    "bval d (t + 1) * bn_base \<le> (unat (d t) * bn_base + digit_or_0 d (0 < t) (t - 1) + 1) * bn_base ^ t" by blast+
qed

definition top3 :: "(nat \<Rightarrow> u32) \<Rightarrow> nat \<Rightarrow> nat" where
  "top3 d i = unat (d i) * bn_base ^ 2 + digit_or_0 d (0 < i) (i - 1) * bn_base + digit_or_0 d (1 < i) (i - 2)"

definition top2 :: "(nat \<Rightarrow> u32) \<Rightarrow> nat \<Rightarrow> nat" where
  "top2 d t = unat (d t) * bn_base + digit_or_0 d (0 < t) (t - 1)"

lemma leading_three:
  assumes "\<And>j. j \<le> i \<Longrightarrow> unat (d j) < bn_base" and "0 < i"
  shows "top3 d i * bn_base ^ (i - 1) \<le> bval d (i + 1) * bn_base"
    "bval d (i + 1) * bn_base < (top3 d i + 1) * bn_base ^ (i - 1)"
proof -
  obtain u where u: "i = Suc u" using assms(2) by (cases i) auto
  have "top3 d i * bn_base ^ u \<le> bval d (i + 1) * bn_base \<and> bval d (i + 1) * bn_base < (top3 d i + 1) * bn_base ^ u"
  proof (cases u)
    case 0
    then show ?thesis by (simp add: u top3_def digit_or_0_def algebra_simps power2_eq_square)
  next
    case (Suc v)
    have "bval d v * bn_base < bn_base ^ v * bn_base"
      using bval_less [of v d] assms u Suc by (intro mult_strict_right_mono) auto
    then show ?thesis by (simp add: u Suc top3_def digit_or_0_def algebra_simps power2_eq_square)
  qed
  then show "top3 d i * bn_base ^ (i - 1) \<le> bval d (i + 1) * bn_base"
    "bval d (i + 1) * bn_base < (top3 d i + 1) * bn_base ^ (i - 1)" by (simp_all add: u)
qed

text \<open>The digit that the estimate settles on: not below the digit of the quotient, and at most one
  above. The comparison of the code takes any product of two digits for smaller than the dividend.\<close>

definition kept :: "nat \<Rightarrow> nat \<Rightarrow> nat \<Rightarrow> bool" where
  "kept v y2 x3 \<longleftrightarrow> v * y2 < bn_base ^ 2 \<or> v * y2 \<le> x3"

lemma estimate_bounds:
  assumes x: "\<And>j. j \<le> i \<Longrightarrow> unat (dx j) < bn_base" and y: "\<And>j. j \<le> t \<Longrightarrow> unat (dy j) < bn_base"
    and i: "i = t + k + 1" and norm: "2 ^ 26 \<le> unat (dy t)"
    and less: "bval dx (i + 1) < bval dy (t + 1) * bn_base ^ (k + 1)"
    and v0: "v0 = (if dx i = dy t then bn_base - 1
                   else min (bn_base - 1) ((unat (dx i) * bn_base + unat (dx (i - 1))) div unat (dy t)))"
    and v: "v \<le> v0" "kept v (top2 dy t) (top3 dx i)" "\<And>u. v < u \<Longrightarrow> u \<le> v0 \<Longrightarrow> top3 dx i < u * top2 dy t"
  shows "v < bn_base" "bval dx (i + 1) div (bval dy (t + 1) * bn_base ^ k) \<le> v"
    "v \<le> bval dx (i + 1) div (bval dy (t + 1) * bn_base ^ k) + 1"
proof -
  define X Y where "X = bval dx (i + 1)" and "Y = bval dy (t + 1)"
  define U where "U = bn_base ^ (i - 1)"
  define y2 x3 where "y2 = top2 dy t" and "x3 = top3 dx i"
  define q where "q = X div (Y * bn_base ^ k)"
  have i0: "0 < i" and U: "U = bn_base ^ t * bn_base ^ k" "0 < U" "bn_base ^ i = bn_base * U"
    using i by (simp_all add: U_def power_add)
  let ?P = "Y * bn_base ^ k * bn_base" and ?N = "X * bn_base"
  note ly = leading_two [of t dy, OF y] and lx = leading_three [of i dx, OF x i0]
  have yt: "0 < unat (dy t)" using norm by (rule less_le_trans [rotated]) simp
  have Y0: "0 < Y" using ly(3) yt by (simp add: Y_def)
  have P1: "y2 * U \<le> ?P" "?P \<le> (y2 + 1) * U"
    using mult_right_mono [OF ly(1), of "bn_base ^ k"] mult_right_mono [OF ly(2), of "bn_base ^ k"]
    by (simp_all add: Y_def y2_def top2_def U algebra_simps)
  have P2: "unat (dy t) * (bn_base * U) \<le> ?P" "?P \<le> (unat (dy t) + 1) * (bn_base * U)"
    using mult_right_mono [OF ly(3), of "bn_base ^ k * bn_base"] mult_right_mono [OF ly(4), of "bn_base ^ k * bn_base"]
    by (simp_all add: Y_def U algebra_simps)
  have N: "x3 * U \<le> ?N" "?N < (x3 + 1) * U" using lx by (simp_all add: X_def x3_def U_def)
  have less': "X < Y * bn_base ^ (k + 1)" using less by (simp only: X_def Y_def)
  have qX: "q * (Y * bn_base ^ k) \<le> X" by (simp add: q_def)
  have "q * ?P \<le> ?N" using mult_right_mono [OF qX, of bn_base] by (simp add: mult.assoc)
  then have qu: "q * y2 \<le> x3" by (rule estimate_upper [OF P1(1) N(2)])
  have "q * (Y * bn_base ^ k) < bn_base * (Y * bn_base ^ k)"
    using le_less_trans [OF qX less'] by (simp add: ac_simps)
  then have qb: "q < bn_base" by simp
  have "q * unat (dy t) * bn_base \<le> q * y2" by (simp add: y2_def top2_def algebra_simps)
  also note qu
  also have "x3 < (unat (dx i) * bn_base + unat (dx (i - 1)) + 1) * bn_base"
    using x [of "i - 2"] i0 by (auto simp: x3_def top3_def digit_or_0_def power2_eq_square algebra_simps)
  finally have "q * unat (dy t) < unat (dx i) * bn_base + unat (dx (i - 1)) + 1" by (simp only: mult_less_cancel2)
  then have "q \<le> (unat (dx i) * bn_base + unat (dx (i - 1))) div unat (dy t)"
    using yt by (simp add: less_eq_div_iff_mult_less_eq)
  then have qv0: "q \<le> v0" using qb by (simp add: v0)
  have "v0 \<le> bn_base - 1" by (simp add: v0)
  then show vb: "v < bn_base" using v(1) bn_base_pos(1) by linarith
  have "q \<le> v"
  proof (rule ccontr)
    assume "\<not> q \<le> v"
    then have "x3 < q * y2" using v(3) [of q] qv0 by (simp add: x3_def y2_def)
    then show False using qu by simp
  qed
  then show "bval dx (i + 1) div (bval dy (t + 1) * bn_base ^ k) \<le> v" by (simp add: q_def X_def Y_def)
  have "1 * (bn_base * U) \<le> unat (dy t) * (bn_base * U)" using yt by (intro mult_right_mono) simp_all
  then have BUP: "bn_base * U \<le> ?P" using P2(1) by linarith
  have "v * ?P < ?N + ?P"
  proof (cases "v * y2 \<le> x3")
    case True
    show ?thesis by (rule estimate_lower [OF P1(2) N(1) True vb BUP U(2)])
  next
    case False
    then have two: "v * y2 < bn_base ^ 2" using v(2) by (simp add: kept_def x3_def y2_def)
    have z: "unat (dx i) = 0"
    proof (rule ccontr)
      assume "unat (dx i) \<noteq> 0"
      then have "1 * bn_base ^ 2 \<le> unat (dx i) * bn_base ^ 2" by (intro mult_right_mono) simp_all
      then have "bn_base ^ 2 \<le> x3" unfolding x3_def top3_def by linarith
      then show False using two False by linarith
    qed
    then have "dx i \<noteq> dy t" using yt by auto
    then have "v \<le> unat (dx (i - 1)) div unat (dy t)" using v(1) z by (simp add: v0)
    then have vy: "v * unat (dy t) \<le> unat (dx (i - 1))" using yt by (simp add: less_eq_div_iff_mult_less_eq)
    have "v * 2 ^ 26 \<le> v * unat (dy t)" using norm by (rule mult_left_mono) simp
    moreover have "unat (dx (i - 1)) < bn_base" by (rule x) simp
    ultimately have "v * 2 ^ 26 < bn_base" using vy by linarith
    then have v4: "v < 2 ^ 26" by (simp add: bn_base_def)
    have "x3 = unat (dx (i - 1)) * bn_base + digit_or_0 dx (1 < i) (i - 2)"
      using z i0 by (simp add: x3_def top3_def digit_or_0_def)
    then have "unat (dx (i - 1)) * (bn_base * U) \<le> x3 * U" by (simp add: algebra_simps)
    then have n: "unat (dx (i - 1)) * (bn_base * U) \<le> ?N" using N(1) by (rule le_trans)
    have "2 ^ 26 * (bn_base * U) \<le> unat (dy t) * (bn_base * U)" using norm by (rule mult_right_mono) simp
    then have "2 ^ 26 * (bn_base * U) \<le> ?P" using P2(1) by (rule le_trans)
    then show ?thesis by (intro estimate_lower [OF P2(2) n vy v4]) (simp_all add: U)
  qed
  then have "v * (Y * bn_base ^ k) * bn_base < (X + Y * bn_base ^ k) * bn_base" by (simp add: algebra_simps)
  then have "v * (Y * bn_base ^ k) < X + Y * bn_base ^ k" by simp
  then have "v * (Y * bn_base ^ k) div (Y * bn_base ^ k) \<le> (X + Y * bn_base ^ k) div (Y * bn_base ^ k)"
    by (intro div_le_mono) (rule less_imp_le)
  also have "v * (Y * bn_base ^ k) div (Y * bn_base ^ k) = v" using Y0 by simp
  also have "(X + Y * bn_base ^ k) div (Y * bn_base ^ k) = X div (Y * bn_base ^ k) + 1" using Y0 by simp
  finally show "v \<le> bval dx (i + 1) div (bval dy (t + 1) * bn_base ^ k) + 1"
    by (simp only: X_def Y_def)
qed

section \<open>The scratch area\<close>

abbreviation div_temps :: "bn_ref set" where
  "div_temps \<equiv> {div_x, div_y, div_q, BnTmp, BnTmp1, BnTmp2}"

definition others_than :: "bn_ref set \<Rightarrow> bns \<Rightarrow> bns \<Rightarrow> bool" where
  "others_than Z s s' \<longleftrightarrow> (\<forall>r. r \<notin> Z \<longrightarrow> s' r = s r)"

lemma others_than_refl [simp]: "others_than Z s s"
  by (simp add: others_than_def)

lemma others_than_trans: "others_than Z s s' \<Longrightarrow> others_than Z s' s'' \<Longrightarrow> others_than Z s s''"
  by (simp add: others_than_def)

lemma others_than_same: "others_same z s s' \<Longrightarrow> z \<in> Z \<Longrightarrow> others_than Z s s'"
  by (auto simp: others_than_def others_same_def)

lemma others_than_mono: "others_than Z s s' \<Longrightarrow> Z \<subseteq> Z' \<Longrightarrow> others_than Z' s s'"
  by (auto simp: others_than_def)

section \<open>The product and the dividend of the estimate\<close>

lemma dig_at: "s' r = s r \<Longrightarrow> dig s' r = dig s r"
  by (simp add: fun_eq_iff dig_def)

lemma set_product_spec:
  assumes room: "room s BnTmp" "room s BnTmp1" "room s BnTmp2"
    and d: "unat (dig s div_q k) < bn_base" "unat (dig s div_y t) < bn_base" "0 < t \<Longrightarrow> unat (dig s div_y (t - 1)) < bn_base"
    and run: "set_product k t s = (status, s')"
  shows "status = KC_OK" "others_than {BnTmp, BnTmp1, BnTmp2} s s'"
    "bn_ok s' BnTmp" "trimmed s' BnTmp" "\<not> sign s' BnTmp" "num s' BnTmp = unat (dig s div_q k) * top2 (dig s div_y) t"
    "bn_ok s' BnTmp2" "\<not> sign s' BnTmp2" "num s' BnTmp2 = unat (dig s div_q k)" "used s' BnTmp2 = 1" "room s' BnTmp1"
proof -
  define s0 where "s0 = put_dig BnTmp2 0 (dig s div_q k) (set_used BnTmp2 1 (BN_ZERO BnTmp2 s))"
  define s1 where "s1 = set_used BnTmp1 2 (BN_ZERO BnTmp1 s0)"
  define s2 where "s2 = put_dig BnTmp1 0 (if t > 0 then dig s1 div_y (t - 1) else 0) s1"
  define s3 where "s3 = put_dig BnTmp1 1 (dig s2 div_y t) s2"
  have z: "BnTmp1 \<noteq> BnTmp2" "BnTmp \<noteq> BnTmp1" "BnTmp \<noteq> BnTmp2" "div_y \<noteq> BnTmp1" "div_y \<noteq> BnTmp2" by simp_all
  have oth: "others_than {BnTmp1, BnTmp2} s s3"
    by (simp add: others_than_def s3_def s2_def s1_def s0_def BN_ZERO_def)
  have y: "dig s2 div_y = dig s div_y" "dig s1 div_y = dig s div_y"
    by (rule dig_at; simp add: s2_def s1_def s0_def BN_ZERO_def)+
  have q: "dig s3 BnTmp2 0 = dig s div_q k" "used s3 BnTmp2 = 1" "\<not> sign s3 BnTmp2" "length (bn_data (s3 BnTmp2)) = 80"
    using room by (simp_all add: s3_def s2_def s1_def s0_def BN_ZERO_def dig_put room_def)
  have p: "dig s3 BnTmp1 0 = (if t > 0 then dig s div_y (t - 1) else 0)" "dig s3 BnTmp1 1 = dig s div_y t"
      "used s3 BnTmp1 = 2" "\<not> sign s3 BnTmp1" "length (bn_data (s3 BnTmp1)) = 80"
    using room y unfolding s3_def s2_def by (simp_all add: s1_def s0_def BN_ZERO_def dig_put room_def)
  have t0: "room s3 BnTmp" using room by (simp add: s3_def s2_def s1_def s0_def BN_ZERO_def)
  have ok2: "bn_ok s3 BnTmp2" "num s3 BnTmp2 = unat (dig s div_q k)" using q d by (simp_all add: bn_ok_def num_def)
  have ok1: "bn_ok s3 BnTmp1" using p d by (auto simp: bn_ok_def less_2_cases_iff)
  have two: "(2 :: nat) = Suc 1" by simp
  have n1: "num s3 BnTmp1 = top2 (dig s div_y) t"
    using p unfolding num_def p(3) two by (simp add: top2_def digit_or_0_def)
  have "num s3 BnTmp1 < bn_base ^ 2" "num s3 BnTmp2 < bn_base ^ 1"
    using num_less [OF ok1] num_less [OF ok2(1)] by (simp_all only: p q)
  then have less: "num s3 BnTmp1 * num s3 BnTmp2 < bn_base ^ 3"
    using mult_strict_mono [of "num s3 BnTmp1" "bn_base ^ 2" "num s3 BnTmp2" "bn_base ^ 1"]
    by (simp add: power2_eq_square power3_eq_cube)
  have "BNMultiply BnTmp BnTmp1 BnTmp2 0 s3 = (status, s')"
    using run unfolding set_product_def Let_def s3_def s2_def s1_def s0_def .
  then have res: "status = KC_OK \<and> nat_result BnTmp s3 ((num s3 BnTmp1 * num s3 BnTmp2) mod bn_base ^ 3) s'"
    by (rule BNMultiply_result [OF ok1 ok2(1) _ t0, rotated -1]) (simp_all add: p(3,4) q(2,3))
  then have r: "nat_result BnTmp s3 (num s3 BnTmp1 * num s3 BnTmp2) s'" using less by simp
  then have same: "s' BnTmp2 = s3 BnTmp2" "s' BnTmp1 = s3 BnTmp1" by (simp_all add: nat_result_def others_same_def)
  have "others_than {BnTmp, BnTmp1, BnTmp2} s3 s'" using r by (auto simp: nat_result_def intro: others_than_same)
  then show "others_than {BnTmp, BnTmp1, BnTmp2} s s'"
    using others_than_mono [OF oth] others_than_trans by blast
  show "status = KC_OK" "bn_ok s' BnTmp" "trimmed s' BnTmp" "\<not> sign s' BnTmp"
    using res by (simp_all add: nat_result_def)
  show "num s' BnTmp = unat (dig s div_q k) * top2 (dig s div_y) t" using r n1 ok2 by (simp add: nat_result_def)
  show "bn_ok s' BnTmp2" "\<not> sign s' BnTmp2" "num s' BnTmp2 = unat (dig s div_q k)" "used s' BnTmp2 = 1" "room s' BnTmp1"
    using ok2 q same_object [of s' BnTmp2 s3, OF same(1)] same_object(5) [of s' BnTmp1 s3, OF same(2)] p same by (simp_all add: room_def)
qed

lemma set_dividend_spec:
  assumes room: "room s BnTmp1" and d: "\<And>j. j \<le> i \<Longrightarrow> unat (dig s div_x j) < bn_base"
  shows "others_same BnTmp1 s (set_dividend i s)" "bn_ok (set_dividend i s) BnTmp1" "used (set_dividend i s) BnTmp1 = 3"
    "num (set_dividend i s) BnTmp1 = top3 (dig s div_x) i" "\<not> sign (set_dividend i s) BnTmp1"
proof -
  define s1 where "s1 = set_used BnTmp1 3 (BN_ZERO BnTmp1 s)"
  define s2 where "s2 = put_dig BnTmp1 0 (if i > 1 then dig s1 div_x (i - 2) else 0) s1"
  define s3 where "s3 = put_dig BnTmp1 1 (if i > 0 then dig s2 div_x (i - 1) else 0) s2"
  define s4 where "s4 = put_dig BnTmp1 2 (dig s3 div_x i) s3"
  have s4: "set_dividend i s = s4" by (simp add: set_dividend_def Let_def s4_def s3_def s2_def s1_def)
  have x: "dig s1 div_x = dig s div_x" "dig s2 div_x = dig s div_x" "dig s3 div_x = dig s div_x"
    by (rule dig_at; simp add: s3_def s2_def s1_def BN_ZERO_def)+
  have p: "dig s4 BnTmp1 0 = (if i > 1 then dig s div_x (i - 2) else 0)" "dig s4 BnTmp1 1 = (if i > 0 then dig s div_x (i - 1) else 0)"
      "dig s4 BnTmp1 2 = dig s div_x i" "used s4 BnTmp1 = 3" "\<not> sign s4 BnTmp1" "length (bn_data (s4 BnTmp1)) = 80"
    using room x unfolding s4_def s3_def s2_def by (simp_all add: s1_def BN_ZERO_def dig_put room_def)
  have three: "(3 :: nat) = Suc (Suc (Suc 0))" by simp
  show "others_same BnTmp1 s (set_dividend i s)" unfolding s4
    by (simp add: others_same_def s4_def s3_def s2_def s1_def BN_ZERO_def)
  show "used (set_dividend i s) BnTmp1 = 3" "\<not> sign (set_dividend i s) BnTmp1" using p by (simp_all add: s4)
  have "unat (dig s4 BnTmp1 j) < bn_base" if "j < 3" for j
  proof -
    have "j = 0 \<or> j = 1 \<or> j = 2" using that by auto
    then show ?thesis using p(1-3) d by (elim disjE) simp_all
  qed
  then show "bn_ok (set_dividend i s) BnTmp1" using p by (simp add: s4 bn_ok_def)
  show "num (set_dividend i s) BnTmp1 = top3 (dig s div_x) i"
    using p(1-3) unfolding s4 num_def p(4) three
    by (simp add: top3_def digit_or_0_def power2_eq_square numeral_2_eq_2)
qed

section \<open>The estimate ends\<close>

declare One_nat_def [simp del]

text \<open>Only digit \<open>k\<close> of the quotient changes.\<close>

definition quotient_at :: "nat \<Rightarrow> bns \<Rightarrow> bns \<Rightarrow> bool" where
  "quotient_at k s s' \<longleftrightarrow> used s' div_q = used s div_q \<and> sign s' div_q = sign s div_q \<and>
     length (bn_data (s' div_q)) = length (bn_data (s div_q)) \<and> (\<forall>j. j \<noteq> k \<longrightarrow> dig s' div_q j = dig s div_q j)"

lemma quotient_at_refl [simp]: "quotient_at k s s"
  by (simp add: quotient_at_def)

lemma quotient_at_trans: "quotient_at k s s' \<Longrightarrow> quotient_at k s' s'' \<Longrightarrow> quotient_at k s s''"
  by (simp add: quotient_at_def)

lemma quotient_at_put: "quotient_at k s (put_dig div_q k v s)"
  by (simp add: quotient_at_def dig_put)

lemma quotient_at_same: "s' div_q = s div_q \<Longrightarrow> quotient_at k s s'"
  by (simp add: quotient_at_def dig_def)

definition div_rooms :: "bns \<Rightarrow> bool" where
  "div_rooms s \<longleftrightarrow> (\<forall>r \<in> div_temps. room s r)"

lemma dec_mask:
  fixes w :: u32 assumes "0 < unat w" "unat w < bn_base" shows "unat ((w - 1) AND BN_MASK) = unat w - 1"
  using assms unat_sub_small [of 1 w] by (simp add: Suc_le_eq)

definition estimated :: "nat \<Rightarrow> nat \<Rightarrow> nat \<Rightarrow> nat \<Rightarrow> bns \<Rightarrow> bns \<Rightarrow> bool" where
  "estimated k i t v s s' \<longleftrightarrow>
     others_than {div_q, BnTmp, BnTmp1, BnTmp2} s s' \<and> quotient_at k s s' \<and> div_rooms s' \<and>
     unat (dig s' div_q k) \<le> v \<and>
     kept (unat (dig s' div_q k)) (top2 (dig s div_y) t) (top3 (dig s div_x) i) \<and>
     (\<forall>u. unat (dig s' div_q k) < u \<longrightarrow> u \<le> v \<longrightarrow> top3 (dig s div_x) i < u * top2 (dig s div_y) t) \<and>
     bn_ok s' BnTmp2 \<and> \<not> sign s' BnTmp2 \<and> num s' BnTmp2 = unat (dig s' div_q k) \<and> used s' BnTmp2 = 1"

lemma compare_with_three:
  assumes "bn_ok s x" "trimmed s x" "num s x < bn_base ^ 3" and y: "bn_ok s y" "used s y = 3"
  shows "BNCompare x y s = BN_BIGGER \<longleftrightarrow> \<not> (num s x < bn_base ^ 2 \<or> num s x \<le> num s y)"
proof -
  have "used s x \<le> 3"
  proof (rule ccontr)
    assume "\<not> used s x \<le> 3"
    then have "bn_base ^ 3 \<le> bn_base ^ (used s x - 1)" "bn_base ^ (used s x - 1) \<le> num s x"
      using num_ge [OF assms(2)] by (auto intro!: power_increasing)
    then show False using assms(3) by linarith
  qed
  show ?thesis
  proof (cases "used s x = 3")
    case True
    have "bn_base ^ 2 \<le> num s x" using num_ge [OF assms(2)] True by simp
    moreover have "compare_digits s x y 3 =
      (if num s x > num s y then BN_BIGGER else if num s x < num s y then BN_SMALLER else BN_EQUAL)"
      unfolding num_def True y(2) using compare_digits_spec [of 3 s x y] assms True by (simp add: bn_ok_dig)
    ultimately show ?thesis using True y by (simp add: BNCompare_def not_less)
  next
    case False
    then have "used s x \<le> 2" using \<open>used s x \<le> 3\<close> by simp
    then have "num s x < bn_base ^ 2"
      using num_less [OF assms(1)] less_le_trans power_increasing [of "used s x" 2 bn_base] by fastforce
    then show ?thesis using False \<open>used s x \<le> 3\<close> y by (simp add: BNCompare_def)
  qed
qed

lemma div_estimate_spec:
  assumes "div_rooms s" "k = i - t - 1" "k < 80" "v = unat ((dig s div_q k - 1) AND BN_MASK)"
    and "\<And>j. j \<le> t \<Longrightarrow> unat (dig s div_y j) < bn_base" "\<And>j. j \<le> i \<Longrightarrow> unat (dig s div_x j) < bn_base"
  shows "\<exists>s'. div_estimate i t s = Some (KC_OK, s') \<and> estimated k i t v s s'"
  using assms
proof (induction v arbitrary: s rule: less_induct)
  case (less v)
  let ?w = "(dig s div_q k - 1) AND BN_MASK"
  define s1 where "s1 = put_dig div_q k ?w s"
  have rooms: "room s r" if "r \<in> div_temps" for r using less.prems(1) that by (simp only: div_rooms_def)
  have len: "length (bn_data (s div_q)) = 80" using rooms [of div_q] by (simp add: room_def)
  have q1: "dig s1 div_q k = ?w" using len less.prems(3) by (simp add: s1_def dig_put)
  have v: "v < bn_base" unfolding less.prems(4) by simp
  have same1: "s1 r = s r" if "r \<noteq> div_q" for r using that by (simp add: s1_def)
  have dy: "dig s1 div_y = dig s div_y" and dx: "dig s1 div_x = dig s div_x" by (rule dig_at; simp add: s1_def)+
  have rooms1: "room s1 r = room s r" for r by (simp add: s1_def)
  obtain st s2 where sp: "set_product k t s1 = (st, s2)" by (rule prod.exhaust)
  note p = set_product_spec [OF _ _ _ _ _ _ sp]
  have r1: "room s1 BnTmp" "room s1 BnTmp1" "room s1 BnTmp2" using rooms by (simp_all add: rooms1)
  have d1: "unat (dig s1 div_q k) < bn_base" "unat (dig s1 div_y t) < bn_base" "0 < t \<Longrightarrow> unat (dig s1 div_y (t - 1)) < bn_base"
    using v less.prems(4,5) by (simp_all add: q1 dy)
  note p = set_product_spec [OF r1 d1 sp]
  let ?y2 = "top2 (dig s div_y) t" and ?x3 = "top3 (dig s div_x) i"
  have dx2: "dig s2 div_x = dig s div_x" using p(2) dx dig_at [of s2 div_x s1] by (simp add: others_than_def)
  define s3 where "s3 = set_dividend i s2"
  note e = set_dividend_spec [OF p(11), of i]
  have x: "\<And>j. j \<le> i \<Longrightarrow> unat (dig s2 div_x j) < bn_base" using less.prems(6) dx2 by simp
  have e: "others_same BnTmp1 s2 s3" "bn_ok s3 BnTmp1" "used s3 BnTmp1 = 3" "num s3 BnTmp1 = ?x3" "\<not> sign s3 BnTmp1"
    using set_dividend_spec [OF p(11) x] by (simp_all add: s3_def dx2)
  have same3: "s3 BnTmp = s2 BnTmp" "s3 BnTmp2 = s2 BnTmp2" "s3 div_q = s1 div_q"
    using e(1) p(2) by (simp_all add: others_same_def others_than_def)
  have oth: "others_than {BnTmp, BnTmp1, BnTmp2} s1 s3"
    using others_than_same [OF e(1), of "{BnTmp, BnTmp1, BnTmp2}"] p(2) others_than_trans by blast
  then have oth_s: "others_than {div_q, BnTmp, BnTmp1, BnTmp2} s s3" by (auto simp: others_than_def same1)
  have q3: "dig s3 div_q k = ?w" using q1 same3(3) by (simp add: dig_def)
  have tmp: "bn_ok s3 BnTmp" "trimmed s3 BnTmp" "num s3 BnTmp = v * ?y2"
    using p same_object [of s3 BnTmp s2, OF same3(1)] less.prems(4) q1 dy by simp_all
  have tmp2: "bn_ok s3 BnTmp2" "\<not> sign s3 BnTmp2" "num s3 BnTmp2 = v" "used s3 BnTmp2 = 1"
    using p same_object [of s3 BnTmp2 s2, OF same3(2)] same3(2) less.prems(4) q1 by simp_all
  have rooms3: "div_rooms s3"
  proof -
    have "room s3 r" if "r \<in> div_temps" for r
      using that rooms [of r] rooms1 same_object(5) [of s3 r s1] oth bn_ok_room [OF tmp(1)] bn_ok_room [OF tmp2(1)] bn_ok_room [OF e(2)]
      by (auto simp: others_than_def)
    then show ?thesis by (simp only: div_rooms_def) blast
  qed
  have qa: "quotient_at k s s3"
    using quotient_at_trans [OF quotient_at_put [of k s ?w] quotient_at_same [of s3 "put_dig div_q k ?w s"]] same3(3)
    by (simp add: s1_def)
  have y2: "?y2 < bn_base ^ 2"
  proof -
    have "unat (dig s div_y t) < bn_base" "digit_or_0 (dig s div_y) (0 < t) (t - 1) < bn_base"
      using less.prems(5) [of t] less.prems(5) [of "t - 1"] by (auto simp: digit_or_0_def)
    then show ?thesis unfolding top2_def power2_eq_square by (rule mult_add_less)
  qed
  have "num s3 BnTmp < bn_base ^ 3"
    unfolding tmp(3) using mult_strict_mono [OF v y2] by (simp add: power2_eq_square power3_eq_cube)
  then have cmp: "BNCompare BnTmp BnTmp1 s3 = BN_BIGGER \<longleftrightarrow> \<not> kept v ?y2 ?x3"
    using compare_with_three [OF tmp(1,2) _ e(2,3)] by (simp add: kept_def tmp(3) e(4))
  have run: "div_estimate i t s = (if BNCompare BnTmp BnTmp1 s3 = BN_BIGGER then div_estimate i t s3 else Some (KC_OK, s3))"
    by (subst div_estimate.simps) (use less.prems(2) sp p(1) in \<open>simp add: s1_def s3_def\<close>)
  show ?case
  proof (cases "kept v ?y2 ?x3")
    case True
    then show ?thesis
      using run cmp oth_s qa rooms3 tmp2 q3 less.prems(4) by (auto simp: estimated_def)
  next
    case False
    then have v0: "0 < v" and big: "?x3 < v * ?y2" by (cases v; simp add: kept_def)+
    have v': "v - 1 = unat ((dig s3 div_q k - 1) AND BN_MASK)"
      unfolding q3 less.prems(4) by (rule dec_mask [symmetric]) (use v0 less.prems(4) in simp_all)
    have d3: "dig s3 div_x = dig s div_x" "dig s3 div_y = dig s div_y"
      using oth dx dy dig_at [of s3 div_x s1] dig_at [of s3 div_y s1] by (simp_all add: others_than_def)
    have "\<exists>s'. div_estimate i t s3 = Some (KC_OK, s') \<and> estimated k i t (v - 1) s3 s'"
      by (rule less.IH) (use v0 rooms3 less.prems v' d3 in simp_all)
    then obtain s' where s': "div_estimate i t s3 = Some (KC_OK, s')" "estimated k i t (v - 1) s3 s'" by blast
    have "estimated k i t v s s'"
    proof -
      have "?x3 < u * ?y2" if "unat (dig s' div_q k) < u" "u \<le> v" for u
        using s'(2) that big by (cases "u = v") (simp_all add: estimated_def d3)
      then show ?thesis
        using s'(2) others_than_trans [OF oth_s] quotient_at_trans [OF qa] by (auto simp: estimated_def d3)
    qed
    then show ?thesis using run cmp False s'(1) by simp
  qed
qed

declare One_nat_def [simp]

end
