(* ===== verification/Sev_BigNumQuot.thy ===== *)
theory Sev_BigNumQuot
  imports Sev_BigNumDiv
begin

text \<open>
  The loops of the division of \<open>bignum.c\<close> over the digits of the quotient, and the division as a
  whole.
\<close>

declare One_nat_def [simp del]

section \<open>Subtracting the product\<close>

text \<open>The digits of the dividend above \<open>Used\<close>, which the next round reads, are 0.\<close>

definition zeros_above :: "nat \<Rightarrow> bns \<Rightarrow> bool" where
  "zeros_above n s \<longleftrightarrow> used s div_x = 0 \<or> (\<forall>j. used s div_x \<le> j \<longrightarrow> j \<le> n \<longrightarrow> dig s div_x j = 0)"

lemma zeros_above_sub:
  assumes "bn_ok s p" "bn_ok s q" "trimmed s p" "trimmed s q" "room s div_x" "BNSubtractAbs div_x p q s = (status, s')"
    and "p = div_x \<or> q = div_x" "0 < used s div_x" "zeros_above n s"
  shows "zeros_above n s'"
proof (cases "num s p = num s q")
  case True
  note spec = BNSubtractAbs_spec [OF assms(1-6)]
  then have "num s' div_x = 0" using True by simp
  then show ?thesis using num_zero_iff [OF spec(4)] by (simp add: zeros_above_def)
next
  case False
  note spec = BNSubtractAbs_spec [OF assms(1-6)]
  have le: "used s div_x \<le> max (used s p) (used s q)" using assms(7) by auto
  have "dig s' div_x j = 0" if "used s' div_x \<le> j" "j \<le> n" for j
  proof (cases "j < max (used s p) (used s q)")
    case True
    then show ?thesis using spec(9) [OF False that(1)] by simp
  next
    case out: False
    then have "dig s' div_x j = dig s div_x j" using spec(8) [of j] by (simp add: not_less)
    then show ?thesis using assms(8,9) le out that by (simp add: zeros_above_def)
  qed
  then show ?thesis by (simp add: zeros_above_def)
qed

definition divisor :: "nat \<Rightarrow> nat \<Rightarrow> bns \<Rightarrow> bool" where
  "divisor t Y s \<longleftrightarrow> bn_ok s div_y \<and> trimmed s div_y \<and> \<not> sign s div_y \<and> used s div_y = t + 1 \<and> num s div_y = Y \<and>
     2 ^ 26 \<le> unat (dig s div_y t)"

definition dividend :: "nat \<Rightarrow> bns \<Rightarrow> bool" where
  "dividend n s \<longleftrightarrow> bn_ok s div_x \<and> trimmed s div_x \<and> \<not> sign s div_x \<and> zeros_above n s"

lemma divisor_same: "s' div_y = s div_y \<Longrightarrow> divisor t Y s' = divisor t Y s"
  using same_object [of s' div_y s] by (simp add: divisor_def)

lemma dividend_same: "s' div_x = s div_x \<Longrightarrow> dividend n s' = dividend n s"
  using same_object [of s' div_x s] by (simp add: dividend_def zeros_above_def)

lemma div_rooms_room: "div_rooms s \<Longrightarrow> r \<in> div_temps \<Longrightarrow> room s r"
  unfolding div_rooms_def by (rule bspec)

lemma div_roomsI: "(\<And>r. r \<in> div_temps \<Longrightarrow> room s r) \<Longrightarrow> div_rooms s"
  unfolding div_rooms_def by (rule ballI)

lemma div_rooms_step:
  assumes "div_rooms s" "others_same z s s'" "room s' z" shows "div_rooms s'"
proof (rule div_roomsI)
  fix r assume "r \<in> div_temps"
  then show "room s' r"
    using assms(2,3) div_rooms_room [OF assms(1)] same_object(5) [of s' r s] by (cases "r = z") (simp_all add: others_same_def)
qed

lemma abs_diff:
  "int a = \<bar>int b - int c\<bar> \<Longrightarrow> c \<le> b \<Longrightarrow> a = b - c" "int a = \<bar>int b - int c\<bar> \<Longrightarrow> b \<le> c \<Longrightarrow> a = c - b"
  by linarith+

lemma div_subtract_spec:
  assumes rooms: "div_rooms s" and y: "divisor t Y s" and x: "dividend n s" "0 < used s div_x"
    and i: "i = t + k + 1" "i < 80"
    and m: "bn_ok s BnTmp2" "\<not> sign s BnTmp2" "num s BnTmp2 = v" "used s BnTmp2 = 1"
    and q: "unat (dig s div_q k) = v" "v < bn_base"
      "num s div_x div (Y * bn_base ^ k) \<le> v" "v \<le> num s div_x div (Y * bn_base ^ k) + 1"
  shows "\<exists>s'. div_subtract i t s = (KC_OK, s') \<and> others_than (div_temps - {div_y}) s s' \<and> quotient_at k s s' \<and>
    div_rooms s' \<and> dividend n s' \<and> num s' div_x = num s div_x mod (Y * bn_base ^ k) \<and>
    unat (dig s' div_q k) = num s div_x div (Y * bn_base ^ k)"
proof -
  let ?D = "Y * bn_base ^ k" and ?X = "num s div_x"
  define Q where "Q = ?X div ?D"
  have y': "bn_ok s div_y" "trimmed s div_y" "\<not> sign s div_y" "used s div_y = t + 1" "num s div_y = Y"
    using y by (simp_all add: divisor_def)
  have k: "i - t - 1 = k" "i - (t + 1) = k" using i by simp_all
  have Y0: "0 < Y" using num_zero_iff [OF y'(2)] y'(4,5) by simp
  obtain st1 s1 where r1: "BNShiftDigL BnTmp div_y k s = (st1, s1)" by (rule prod.exhaust)
  have shift: "st1 = KC_OK" "nat_result BnTmp s ?D s1" "used s1 BnTmp = i"
    using BNShiftDigL_result [OF y'(1-3) div_rooms_room [OF rooms] _ r1] y'(4,5) i by simp_all
  have same1: "s1 r = s r" if "r \<noteq> BnTmp" for r using shift(2) that by (simp add: nat_result_def others_same_def)
  have rooms1: "div_rooms s1" using div_rooms_step [OF rooms] shift(2) by (auto simp: nat_result_def intro: bn_ok_room)
  have m1: "bn_ok s1 BnTmp2" "\<not> sign s1 BnTmp2" "num s1 BnTmp2 = v" "used s1 BnTmp2 = 1"
    using m same_object [of s1 BnTmp2 s] same1 [of BnTmp2] by simp_all
  obtain st2 s2 where r2: "BNMultiply BnTmp1 BnTmp BnTmp2 0 s1 = (st2, s2)" by (rule prod.exhaust)
  have "st2 = KC_OK \<and> nat_result BnTmp1 s1 ((num s1 BnTmp * num s1 BnTmp2) mod bn_base ^ (i + 1)) s2"
    by (rule BNMultiply_result [OF _ m1(1) _ div_rooms_room [OF rooms1] _ _ _ _ r2])
      (use shift m1 i in \<open>simp_all add: nat_result_def\<close>)
  moreover have "num s1 BnTmp * num s1 BnTmp2 < bn_base ^ (i + 1)"
    using mult_strict_mono [OF num_less [of s1 BnTmp] num_less [OF m1(1)]] shift m1 by (simp add: nat_result_def power_add)
  ultimately have mul: "st2 = KC_OK" "nat_result BnTmp1 s1 (?D * v) s2"
    using shift(2) m1 by (simp_all add: nat_result_def)
  have same2: "s2 r = s r" if "r \<noteq> BnTmp" "r \<noteq> BnTmp1" for r
    using mul(2) same1 that by (simp add: nat_result_def others_same_def)
  have rooms2: "div_rooms s2" using div_rooms_step [OF rooms1] mul(2) by (auto simp: nat_result_def intro: bn_ok_room)
  have x2: "bn_ok s2 div_x" "trimmed s2 div_x" "\<not> sign s2 div_x" "num s2 div_x = ?X" "used s2 div_x = used s div_x" "zeros_above n s2"
    using x(1) same2 [of div_x] same_object [of s2 div_x s] by (simp_all add: dividend_def zeros_above_def)
  have p2: "bn_ok s2 BnTmp1" "trimmed s2 BnTmp1" "\<not> sign s2 BnTmp1" "num s2 BnTmp1 = ?D * v" using mul(2) by (simp_all add: nat_result_def)
  have "s2 BnTmp = s1 BnTmp" using mul(2) by (simp add: nat_result_def others_same_def)
  then have t2: "bn_ok s2 BnTmp" "trimmed s2 BnTmp" "\<not> sign s2 BnTmp" "num s2 BnTmp = ?D"
    using shift(2) same_object [of s2 BnTmp s1] by (simp_all add: nat_result_def)
  obtain st3 s3 where r3: "BNSubtract div_x div_x BnTmp1 s2 = (st3, s3)" by (rule prod.exhaust)
  then have r3': "BNSubtractAbs div_x div_x BnTmp1 s2 = (st3, s3)" using x2 p2 by (simp add: BNSubtract_def)
  note sub = BNSubtractAbs_spec [OF x2(1) p2(1) x2(2) p2(2) div_rooms_room [OF rooms2] r3', simplified]
  have z3: "zeros_above n s3"
    by (rule zeros_above_sub [OF x2(1) p2(1) x2(2) p2(2) div_rooms_room [OF rooms2] r3']) (use x2 x in simp_all)
  have rooms3: "div_rooms s3" using div_rooms_step [OF rooms2 sub(2)] sub(3) by (simp add: bn_ok_room)
  have same3: "s3 r = s2 r" if "r \<noteq> div_x" for r using sub(2) that by (simp add: others_same_def)
  have eqQ: "?X = Q * ?D + ?X mod ?D" unfolding Q_def by (rule div_mult_mod_eq [symmetric])
  have step3: "others_than (div_temps - {div_y}) s s3"
    using same2 same3 by (auto simp: others_than_def)
  have q3: "s3 div_q = s div_q" using same2 same3 by simp
  show ?thesis
  proof (cases "?X < ?D * v")
    case False
    have vQ: "v = Q"
    proof (rule ccontr)
      assume "v \<noteq> Q"
      then have "v = Q + 1" using q by (simp add: Q_def)
      moreover have "?X < ?D * (Q + 1)"
        using dividend_less_times_div [of ?D ?X] Y0 by (simp add: Q_def algebra_simps)
      ultimately show False using False by simp
    qed
    have "?X - ?D * v = ?X mod ?D" "?D * v \<le> ?X"
      using False by (simp_all add: vQ Q_def minus_mult_div_eq_mod)
    moreover have "num s3 div_x = ?X - ?D * v"
      using abs_diff(1) [OF sub(5)] False by (simp only: x2(4) p2(4) not_less)
    ultimately have n3: "num s3 div_x = ?X mod ?D" by simp
    moreover have "\<not> sign s3 div_x" using sub(6,7) x2 p2 False by (cases "?X = ?D * v") simp_all
    moreover have "div_subtract i t s = (KC_OK, s3)"
      using r1 r2 r3 shift(1) mul(1) sub(1) calculation by (simp add: div_subtract_def Let_def k)
    ultimately show ?thesis
      using q(1) q3 rooms3 sub(3,4) z3 step3 quotient_at_same [of s3 s k, OF q3] vQ
      by (simp add: dividend_def Q_def dig_def)
  next
    case True
    have v: "v = Q + 1"
    proof (rule ccontr)
      assume "v \<noteq> Q + 1"
      then have "v = Q" using q by (simp add: Q_def)
      then show False using True eqQ by (simp add: mult.commute)
    qed
    have neg: "sign s3 div_x" using sub(6) x2 p2 True by simp
    have n3: "num s3 div_x = ?D * v - ?X" using abs_diff(2) [OF sub(5)] True by (simp only: x2(4) p2(4) less_imp_le)
    have le: "num s3 div_x \<le> ?D" unfolding n3 v using eqQ by (simp add: algebra_simps)
    have t3: "bn_ok s3 BnTmp" "trimmed s3 BnTmp" "\<not> sign s3 BnTmp" "num s3 BnTmp = ?D"
      using t2 same3 [of BnTmp] same_object [of s3 BnTmp s2] by simp_all
    obtain st4 s4 where r4: "BNAdd div_x div_x BnTmp s3 = (st4, s4)" by (rule prod.exhaust)
    then have r4': "BNSubtractAbs div_x BnTmp div_x s3 = (st4, s4)" using neg t3 by (simp add: BNAdd_def)
    note add = BNSubtractAbs_spec [OF t3(1) sub(3) t3(2) sub(4) div_rooms_room [OF rooms3] r4', simplified]
    have pos3: "0 < used s3 div_x" using num_zero_iff [OF sub(4)] n3 True by simp
    have z4: "zeros_above n s4"
      by (rule zeros_above_sub [OF t3(1) sub(3) t3(2) sub(4) div_rooms_room [OF rooms3] r4']) (use pos3 z3 in simp_all)
    have rooms4: "div_rooms s4" using div_rooms_step [OF rooms3 add(2)] add(3) by (simp add: bn_ok_room)
    have n4: "num s4 div_x = ?X mod ?D"
    proof -
      have "num s4 div_x = ?D - (?D * v - ?X)" using abs_diff(1) [OF add(5)] le by (simp only: t3(4) n3)
      also have "\<dots> = ?X - ?D * Q" using le True unfolding n3 v by (simp add: algebra_simps)
      finally show ?thesis by (simp add: Q_def minus_mult_div_eq_mod)
    qed
    have pos4: "\<not> sign s4 div_x" using add(6,7) t3 le by (cases "num s3 div_x = ?D") simp_all
    have q4: "s4 div_q = s div_q" using add(2) q3 by (simp add: others_same_def)
    define s5 where "s5 = put_dig div_q k ((dig s4 div_q k - 1) AND BN_MASK) s4"
    have run: "div_subtract i t s = (KC_OK, s5)"
      using r1 r2 r3 r4 shift(1) mul(1) sub(1) add(1) neg by (simp add: div_subtract_def Let_def k s5_def)
    have len: "length (bn_data (s4 div_q)) = 80" using div_rooms_room [OF rooms4, of div_q] by (simp add: room_def)
    have "dig s4 div_q k = dig s div_q k" using q4 by (simp add: dig_def)
    then have q5: "unat (dig s5 div_q k) = Q"
      using dec_mask [of "dig s div_q k"] q v len i by (simp add: s5_def dig_put)
    have x5: "s5 div_x = s4 div_x" by (simp add: s5_def)
    have "dividend n s4" using add(3,4) pos4 z4 by (simp add: dividend_def)
    then have d5: "dividend n s5" by (simp add: dividend_same [of s5 s4 n, OF x5])
    have rooms5: "div_rooms s5" using div_rooms_step [OF rooms4, of div_q s5] len by (simp add: s5_def room_def)
    have "others_than (div_temps - {div_y}) s s5"
      using step3 add(2) by (auto simp: others_than_def others_same_def s5_def)
    moreover have "quotient_at k s s5"
      using quotient_at_trans [OF quotient_at_same [of s4 s k, OF q4] quotient_at_put] by (simp add: s5_def)
    ultimately show ?thesis using run rooms5 d5 n4 same_object(1) [of s5 div_x s4, OF x5] q5 by (simp add: Q_def)
  qed
qed

section \<open>The loop over the digits\<close>

lemma unat_BN_MASK: "unat BN_MASK = bn_base - 1"
  by (simp add: BN_MASK_def bn_base_num push_bit_of_1)

lemma inc_mask:
  fixes q :: u32 assumes "unat q < bn_base"
  shows "unat ((((q + 1) AND BN_MASK) - 1) AND BN_MASK) = unat q"
proof (cases "unat q = bn_base - 1")
  case True
  have one: "unat (q + 1) = bn_base" using True by (subst unat_add_small) (simp_all add: bn_base_num)
  have "unat ((q + 1) AND BN_MASK) = 0" by (simp add: one)
  then have z: "(q + 1) AND BN_MASK = 0" by (simp add: word_unat_eq_iff)
  have "unat ((- 1 :: u32) AND BN_MASK) = bn_base - 1" by (simp add: unat_BN_MASK del: unat_mask)
  then show ?thesis by (simp add: z True del: unat_mask)
next
  case False
  then have lt: "unat q + 1 < bn_base" using assms by simp
  have one: "unat (q + 1) = unat q + 1" using lt by (subst unat_add_small) (simp_all add: bn_base_num)
  have m: "unat ((q + 1) AND BN_MASK) = unat q + 1" using lt by (simp add: one)
  then show ?thesis using dec_mask [of "(q + 1) AND BN_MASK"] lt by simp
qed

lemma first_estimate_spec:
  assumes "div_rooms s" "k = i - t - 1" "k < 80" "unat (dig s div_x i) < bn_base" "unat (dig s div_x (i - 1)) < bn_base"
    and s': "s' = first_estimate i t s"
  shows "others_same div_q s s'" "quotient_at k s s'" "div_rooms s'"
    "unat ((dig s' div_q k - 1) AND BN_MASK) =
       (if dig s div_x i = dig s div_y t then bn_base - 1
        else min (bn_base - 1) ((unat (dig s div_x i) * bn_base + unat (dig s div_x (i - 1))) div unat (dig s div_y t)))"
proof -
  define temp :: u64 where "temp = (push_bit BN_BITS (ucast (dig s div_x i)) + ucast (dig s div_x (i - 1))) div ucast (dig s div_y t)"
  define q :: u32 where "q = (if dig s div_x i = dig s div_y t then BN_MASK
               else ucast (if temp > ucast BN_MASK then ucast BN_MASK else temp))"
  have s'': "s' = put_dig div_q k ((q + 1) AND BN_MASK) s"
    unfolding s' first_estimate_def by (simp add: Let_def assms(2) q_def temp_def)
  show "others_same div_q s s'" by (simp add: s'' others_same_def)
  show "quotient_at k s s'" unfolding s'' by (rule quotient_at_put)
  have room: "room s div_q" using div_rooms_room [OF assms(1)] by simp
  show "div_rooms s'" using div_rooms_step [OF assms(1), of div_q s'] room by (simp add: s'' others_same_def)
  have len: "length (bn_data (s div_q)) = 80" using room by (simp add: room_def)
  have u: "unat (ucast a :: u64) = unat a" for a :: u32
    by (simp add: unsigned_ucast_eq take_bit_nat_eq_self less_trans [OF unat_u32])
  have pb: "unat (push_bit BN_BITS (ucast (dig s div_x i)) :: u64) = unat (dig s div_x i) * bn_base"
    using assms(4) by (simp only: unsigned_push_bit_eq u BN_BITS_def) (simp add: push_bit_eq_mult take_bit_nat_eq_self bn_base_num)
  have "unat (push_bit BN_BITS (ucast (dig s div_x i)) + ucast (dig s div_x (i - 1)) :: u64) =
      unat (dig s div_x i) * bn_base + unat (dig s div_x (i - 1))"
    using unat_add_lem [of "push_bit BN_BITS (ucast (dig s div_x i)) :: u64" "ucast (dig s div_x (i - 1))"] assms(4,5)
    by (simp add: pb u bn_base_num)
  then have t: "unat temp = (unat (dig s div_x i) * bn_base + unat (dig s div_x (i - 1))) div unat (dig s div_y t)"
    by (simp add: temp_def unat_div u)
  note mask = unat_BN_MASK
  have cut: "unat (ucast (if temp > ucast BN_MASK then ucast BN_MASK else temp) :: u32) = min (bn_base - 1) (unat temp)"
  proof (cases "temp > ucast BN_MASK")
    case True
    moreover have "unat (ucast (ucast BN_MASK :: u64) :: u32) = bn_base - 1" by (simp add: BN_MASK_def bn_base_num push_bit_of_1)
    ultimately show ?thesis using mask u [of BN_MASK] by (simp add: word_less_nat_alt)
  next
    case False
    then have le: "unat temp \<le> bn_base - 1" using mask u [of BN_MASK] by (simp add: word_less_nat_alt)
    then have "unat (ucast temp :: u32) = unat temp"
      by (simp add: unsigned_ucast_eq take_bit_nat_eq_self bn_base_num)
    then show ?thesis using False le by simp
  qed
  then have "unat q = (if dig s div_x i = dig s div_y t then bn_base - 1 else min (bn_base - 1) (unat temp))"
    by (simp add: q_def mask)
  moreover from this have "unat q < bn_base" by (simp add: min_less_iff_disj)
  moreover have "dig s' div_q k = (q + 1) AND BN_MASK" using len assms(3) by (simp add: s'' dig_put)
  ultimately show "unat ((dig s' div_q k - 1) AND BN_MASK) =
       (if dig s div_x i = dig s div_y t then bn_base - 1
        else min (bn_base - 1) ((unat (dig s div_x i) * bn_base + unat (dig s div_x (i - 1))) div unat (dig s div_y t)))"
    using inc_mask [of q] t by (simp del: unat_mask)
qed

text \<open>The digits of the quotient from \<open>K\<close> on are settled: with them, the dividend so far makes up the
  first dividend \<open>X0\<close>. Digits from \<open>nq\<close> on are not part of the quotient that is returned.\<close>

definition quot_inv :: "bns \<Rightarrow> nat \<Rightarrow> nat \<Rightarrow> nat \<Rightarrow> nat \<Rightarrow> nat \<Rightarrow> nat \<Rightarrow> bns \<Rightarrow> bool" where
  "quot_inv s0 t Y n nq X0 K s \<longleftrightarrow>
     others_than (div_temps - {div_y}) s0 s \<and> div_rooms s \<and> dividend n s \<and> num s div_x < Y * bn_base ^ K \<and>
     used s div_q = nq \<and> \<not> sign s div_q \<and> (\<forall>j < nq. unat (dig s div_q j) < bn_base) \<and>
     (\<forall>j < K. j < nq \<longrightarrow> dig s div_q j = 0) \<and>
     (\<exists>Q. (\<forall>j. K \<le> j \<longrightarrow> j < nq \<longrightarrow> Q j = unat (dig s div_q j)) \<and>
          X0 = num s div_x + Y * (\<Sum>j = K..<n - t + 1. Q j * bn_base ^ j))"

lemma quotient_split:
  assumes "X0 = X + Y * (\<Sum>j = Suc k..<m. Q j * bn_base ^ j)" "k < m" "Q' k = X div (Y * bn_base ^ k)"
    and "\<And>j. k < j \<Longrightarrow> Q' j = Q j"
  shows "X0 = X mod (Y * bn_base ^ k) + Y * (\<Sum>j = k..<m. Q' j * bn_base ^ j)"
proof -
  have "(\<Sum>j = k..<m. Q' j * bn_base ^ j) = Q' k * bn_base ^ k + (\<Sum>j = Suc k..<m. Q' j * bn_base ^ j)"
    using assms(2) by (rule sum.atLeast_Suc_lessThan)
  also have "(\<Sum>j = Suc k..<m. Q' j * bn_base ^ j) = (\<Sum>j = Suc k..<m. Q j * bn_base ^ j)"
    by (rule sum.cong) (simp_all add: assms(4))
  finally have "Y * (\<Sum>j = k..<m. Q' j * bn_base ^ j) =
      X div (Y * bn_base ^ k) * (Y * bn_base ^ k) + Y * (\<Sum>j = Suc k..<m. Q j * bn_base ^ j)"
    by (simp add: assms(3) algebra_simps)
  then show ?thesis using assms(1) div_mult_mod_eq [of X "Y * bn_base ^ k"] by linarith
qed

lemma dividend_digits:
  assumes "dividend n s" "0 < used s div_x" "i \<le> n" "used s div_x \<le> i + 1"
  shows "j \<le> i \<Longrightarrow> unat (dig s div_x j) < bn_base" "bval (dig s div_x) (i + 1) = num s div_x"
proof -
  have z: "dig s div_x j = 0" if "used s div_x \<le> j" "j \<le> i" for j
    using assms that by (simp add: dividend_def zeros_above_def)
  show "j \<le> i \<Longrightarrow> unat (dig s div_x j) < bn_base"
    using z [of j] bn_ok_dig [of s div_x j] assms(1) by (cases "j < used s div_x") (simp_all add: dividend_def)
  show "bval (dig s div_x) (i + 1) = num s div_x"
    unfolding num_def by (rule bval_zeros [OF assms(4)]) (simp add: z)
qed

lemma used_le: "trimmed s r \<Longrightarrow> num s r < bn_base ^ m \<Longrightarrow> used s r \<le> m"
proof (rule ccontr)
  assume "trimmed s r" "num s r < bn_base ^ m" "\<not> used s r \<le> m"
  then have "bn_base ^ m \<le> bn_base ^ (used s r - 1)" "bn_base ^ (used s r - 1) \<le> num s r"
    using num_ge [of s r] by (auto intro!: power_increasing)
  then show False using \<open>num s r < bn_base ^ m\<close> by linarith
qed

lemma div_loop_step:
  assumes inv: "quot_inv s0 t Y n nq X0 (Suc k) s" and y0: "divisor t Y s0"
    and i: "i = t + k + 1" "i \<le> n" "n < 80" and nq: "nq \<le> 80"
  shows "\<exists>s'. div_loop t (i # is) s = div_loop t is s' \<and> quot_inv s0 t Y n nq X0 k s'"
proof -
  let ?D = "Y * bn_base ^ k" and ?X = "num s div_x"
  have oth: "others_than (div_temps - {div_y}) s0 s" and rooms: "div_rooms s" and x: "dividend n s"
    and less: "?X < Y * bn_base ^ Suc k" and q: "used s div_q = nq" "\<not> sign s div_q" "\<forall>j < nq. unat (dig s div_q j) < bn_base"
      "\<forall>j < Suc k. j < nq \<longrightarrow> dig s div_q j = 0"
    using inv by (simp_all add: quot_inv_def)
  obtain Q where Q: "\<forall>j. Suc k \<le> j \<longrightarrow> j < nq \<longrightarrow> Q j = unat (dig s div_q j)"
    and X0: "X0 = ?X + Y * (\<Sum>j = Suc k..<n - t + 1. Q j * bn_base ^ j)"
    using inv by (auto simp: quot_inv_def)
  have y: "divisor t Y s" using oth y0 divisor_same [of s s0] by (simp add: others_than_def)
  then have y': "bn_ok s div_y" "trimmed s div_y" "used s div_y = t + 1" "num s div_y = Y" "2 ^ 26 \<le> unat (dig s div_y t)"
    by (simp_all add: divisor_def)
  have Yge: "bn_base ^ t \<le> Y" using num_ge [OF y'(2)] y'(3,4) by simp
  have Yless: "Y < bn_base ^ (t + 1)" using num_less [OF y'(1)] y'(3,4) by simp
  have km: "k < n - t + 1" using i by simp
  show ?thesis
  proof (cases "i > used s div_x")
    case True
    have "?X < bn_base ^ used s div_x" using x by (intro num_less) (simp add: dividend_def)
    also have "\<dots> \<le> bn_base ^ (t + k)" using True i by (intro power_increasing) simp_all
    also have "\<dots> \<le> ?D" using Yge by (simp add: power_add)
    finally have small: "?X < ?D" .
    define Q' where "Q' = Q(k := 0)"
    have "X0 = ?X mod ?D + Y * (\<Sum>j = k..<n - t + 1. Q' j * bn_base ^ j)"
      by (rule quotient_split [OF X0 km]) (use small in \<open>simp_all add: Q'_def\<close>)
    moreover have "\<forall>j. k \<le> j \<longrightarrow> j < nq \<longrightarrow> Q' j = unat (dig s div_q j)"
      using Q q(4) by (simp add: Q'_def)
    ultimately have "quot_inv s0 t Y n nq X0 k s"
      unfolding quot_inv_def using oth rooms x small q by (auto intro!: exI [of _ Q'])
    then show ?thesis using True by auto
  next
    case False
    then have pos: "0 < used s div_x" using i by simp
    have "?X < bn_base ^ (i + 1)"
      using less_trans [OF less] Yless by (simp add: i power_add algebra_simps)
    then have ule: "used s div_x \<le> i + 1" using used_le x by (simp add: dividend_def)
    note dx = dividend_digits [OF x pos i(2) ule]
    have dy: "\<And>j. j \<le> t \<Longrightarrow> unat (dig s div_y j) < bn_base" using bn_ok_dig [OF y'(1)] y'(3) by simp
    have k: "k = i - t - 1" "k < 80" using i by simp_all
    define s1 where "s1 = first_estimate i t s"
    have xi: "unat (dig s div_x i) < bn_base" "unat (dig s div_x (i - 1)) < bn_base" by (rule dx(1); simp)+
    note f = first_estimate_spec [OF rooms k xi s1_def]
    have same1: "s1 div_y = s div_y" "s1 div_x = s div_x" "s1 BnTmp2 = s BnTmp2" using f(1) by (simp_all add: others_same_def)
    note d1 = dig_at [of s1 div_y s, OF same1(1)] dig_at [of s1 div_x s, OF same1(2)]
    have "\<exists>s'. div_estimate i t s1 = Some (KC_OK, s') \<and> estimated k i t (unat ((dig s1 div_q k - 1) AND BN_MASK)) s1 s'"
      by (rule div_estimate_spec [OF f(3) k refl]) (simp_all only: d1 dy dx)
    then obtain s2 where e: "div_estimate i t s1 = Some (KC_OK, s2)"
        "estimated k i t (unat ((dig s1 div_q k - 1) AND BN_MASK)) s1 s2" by blast
    let ?v = "unat (dig s2 div_q k)"
    have e': "others_than {div_q, BnTmp, BnTmp1, BnTmp2} s1 s2" "quotient_at k s1 s2" "div_rooms s2"
        "bn_ok s2 BnTmp2" "\<not> sign s2 BnTmp2" "num s2 BnTmp2 = ?v" "used s2 BnTmp2 = 1"
        "?v \<le> unat ((dig s1 div_q k - 1) AND BN_MASK)" "kept ?v (top2 (dig s div_y) t) (top3 (dig s div_x) i)"
        "\<And>u. ?v < u \<Longrightarrow> u \<le> unat ((dig s1 div_q k - 1) AND BN_MASK) \<Longrightarrow> top3 (dig s div_x) i < u * top2 (dig s div_y) t"
      using e(2) by (simp_all only: estimated_def d1) blast+
    have same2: "s2 div_y = s div_y" "s2 div_x = s div_x" using e'(1) same1 by (simp_all add: others_than_def)
    have n: "bval (dig s div_x) (i + 1) = ?X" "bval (dig s div_y) (t + 1) = Y" using dx(2) y'(3,4) by (simp_all add: num_def)
    have less': "bval (dig s div_x) (i + 1) < bval (dig s div_y) (t + 1) * bn_base ^ (k + 1)" unfolding n using less by (simp only: Suc_eq_plus1)
    note b = estimate_bounds [OF dx(1) dy i(1) y'(5) less' f(4) e'(8-10), unfolded n]
    have v: "?v < bn_base" "?X div ?D \<le> ?v" "?v \<le> ?X div ?D + 1" using b by simp_all
    have x2: "dividend n s2" "divisor t Y s2" "0 < used s2 div_x" "num s2 div_x = ?X"
      using x y pos dividend_same [of s2 s n, OF same2(2)] divisor_same [of s2 s, OF same2(1)] same2(2)
        same_object(1) [of s2 div_x s, OF same2(2)] by simp_all
    have "\<exists>s'. div_subtract i t s2 = (KC_OK, s') \<and> others_than (div_temps - {div_y}) s2 s' \<and> quotient_at k s2 s' \<and>
        div_rooms s' \<and> dividend n s' \<and> num s' div_x = num s2 div_x mod ?D \<and>
        unat (dig s' div_q k) = num s2 div_x div ?D"
      by (rule div_subtract_spec [OF e'(3) x2(2,1,3) i(1) _ e'(4-7) refl v(1)]) (use i v x2(4) in simp_all)
    then obtain s3 where s3: "div_subtract i t s2 = (KC_OK, s3)" "others_than (div_temps - {div_y}) s2 s3" "quotient_at k s2 s3"
        "div_rooms s3" "dividend n s3" "num s3 div_x = ?X mod ?D" "unat (dig s3 div_q k) = ?X div ?D"
      unfolding x2(4) by blast
    have run: "div_loop t (i # is) s = div_loop t is s3"
      using False e(1) s3(1) by (simp add: s1_def)
    have qa: "quotient_at k s s3" using f(2) e'(2) s3(3) by (blast intro: quotient_at_trans)
    have oth3: "others_than (div_temps - {div_y}) s0 s3"
      using oth f(1) e'(1) s3(2) by (auto simp: others_than_def others_same_def)
    have D0: "0 < ?D" using Yge zero_less_power [of bn_base t] by (cases "Y = 0") simp_all
    define Q' where "Q' = Q(k := ?X div ?D)"
    have "X0 = ?X mod ?D + Y * (\<Sum>j = k..<n - t + 1. Q' j * bn_base ^ j)"
      by (rule quotient_split [OF X0 km]) (simp_all add: Q'_def)
    moreover have "\<forall>j. k \<le> j \<longrightarrow> j < nq \<longrightarrow> Q' j = unat (dig s3 div_q j)"
      using Q qa s3(7) by (auto simp: Q'_def quotient_at_def)
    moreover have "\<forall>j < nq. unat (dig s3 div_q j) < bn_base"
    proof (intro allI impI)
      fix j assume j: "j < nq"
      show "unat (dig s3 div_q j) < bn_base"
      proof (cases "j = k")
        case True
        then show ?thesis using s3(7) v(1,2) by simp
      next
        case False
        then show ?thesis using qa q(3) j by (simp add: quotient_at_def)
      qed
    qed
    moreover have "\<forall>j < k. j < nq \<longrightarrow> dig s3 div_q j = 0" using qa q(4) by (simp add: quotient_at_def)
    ultimately have "quot_inv s0 t Y n nq X0 k s3"
      unfolding quot_inv_def using oth3 s3(4-6) qa q D0 by (auto simp: quotient_at_def intro!: exI [of _ Q'])
    then show ?thesis using run by blast
  qed
qed

lemma div_loop_spec:
  assumes "quot_inv s0 t Y n nq X0 K s" "divisor t Y s0" "t + K \<le> n" "n < 80" "nq \<le> 80"
  shows "\<exists>s'. div_loop t (rev [t + 1..<t + K + 1]) s = Some (KC_OK, s') \<and> quot_inv s0 t Y n nq X0 0 s'"
  using assms
proof (induction K arbitrary: s)
  case (Suc k)
  have "rev [t + 1..<t + Suc k + 1] = (t + k + 1) # rev [t + 1..<t + k + 1]" by simp
  moreover obtain s' where "div_loop t ((t + k + 1) # rev [t + 1..<t + k + 1]) s = div_loop t (rev [t + 1..<t + k + 1]) s'"
    "quot_inv s0 t Y n nq X0 k s'"
    using div_loop_step [OF Suc.prems(1,2) refl _ Suc.prems(4,5)] Suc.prems(3) by auto
  ultimately show ?case using Suc.IH [of s'] Suc.prems by simp
qed simp

section \<open>The top digit\<close>

lemma div_top_spec:
  assumes "div_rooms s" "dividend n s" and b: "bn_ok s BnTmp" "trimmed s BnTmp" "\<not> sign s BnTmp" "num s BnTmp = D" "0 < D"
    and "K < 80"
  shows "\<exists>s'. div_top K s = Some s' \<and> others_than {div_x, div_q} s s' \<and> quotient_at K s s' \<and> div_rooms s' \<and>
    dividend n s' \<and> num s' div_x = num s div_x mod D \<and>
    (unat (dig s div_q K) + num s div_x div D < bn_base \<longrightarrow>
       unat (dig s' div_q K) = unat (dig s div_q K) + num s div_x div D)"
  using assms
proof (induction "num s div_x" arbitrary: s rule: less_induct)
  case less
  have x: "bn_ok s div_x" "trimmed s div_x" "\<not> sign s div_x" "zeros_above n s" using less.prems(2) by (simp_all add: dividend_def)
  let ?X = "num s div_x"
  have cmp: "BNCompare div_x BnTmp s = BN_SMALLER \<longleftrightarrow> ?X < D"
    using BNCompare_spec [OF x(1) less.prems(3) x(2) less.prems(4)] less.prems(6,7) by simp
  show ?case
  proof (cases "?X < D")
    case True
    then have "div_top K s = Some s" using cmp by (simp add: div_top.simps)
    then show ?thesis using True less.prems by simp
  next
    case False
    define s1 where "s1 = put_dig div_q K (dig s div_q K + 1) s"
    have same1: "s1 div_x = s div_x" "s1 BnTmp = s BnTmp" by (simp_all add: s1_def)
    have rooms1: "div_rooms s1"
      using div_rooms_step [OF less.prems(1), of div_q s1] div_rooms_room [OF less.prems(1), of div_q] by (simp add: s1_def others_same_def)
    have x1: "bn_ok s1 div_x" "trimmed s1 div_x" "\<not> sign s1 div_x" "num s1 div_x = ?X" "zeros_above n s1" "used s1 div_x = used s div_x"
      using x same_object [of s1 div_x s, OF same1(1)] dividend_same [of s1 s n, OF same1(1)] same1(1) less.prems(2)
      by (simp_all add: dividend_def)
    have b1: "bn_ok s1 BnTmp" "trimmed s1 BnTmp" "\<not> sign s1 BnTmp" "num s1 BnTmp = D"
      using less.prems same_object [of s1 BnTmp s, OF same1(2)] same1(2) by simp_all
    obtain st2 s2 where r: "BNSubtract div_x div_x BnTmp s1 = (st2, s2)" by (rule prod.exhaust)
    then have r': "BNSubtractAbs div_x div_x BnTmp s1 = (st2, s2)" using x1 b1 by (simp add: BNSubtract_def)
    note sub = BNSubtractAbs_spec [OF x1(1) b1(1) x1(2) b1(2) div_rooms_room [OF rooms1] r', simplified]
    have pos: "0 < used s1 div_x" using num_zero_iff [OF x(2)] False less.prems(7) x1(6) by (cases "used s div_x = 0") simp_all
    have z2: "zeros_above n s2"
      by (rule zeros_above_sub [OF x1(1) b1(1) x1(2) b1(2) div_rooms_room [OF rooms1] r']) (use pos x1 in simp_all)
    have n2: "num s2 div_x = ?X - D" using abs_diff(1) [OF sub(5)] False by (simp only: x1(4) b1(4) not_less)
    have sg: "\<not> sign s2 div_x" using sub(6,7) x1 b1 False by (cases "?X = D") simp_all
    have rooms2: "div_rooms s2" using div_rooms_step [OF rooms1 sub(2)] sub(3) by (simp add: bn_ok_room)
    have d2: "dividend n s2" using sub z2 sg by (simp add: dividend_def)
    have same2: "s2 BnTmp = s1 BnTmp" "s2 div_q = s1 div_q" using sub(2) by (simp_all add: others_same_def)
    have b2: "bn_ok s2 BnTmp" "trimmed s2 BnTmp" "\<not> sign s2 BnTmp" "num s2 BnTmp = D"
      using b1 same_object [of s2 BnTmp s1, OF same2(1)] same2(1) by simp_all
    have run: "div_top K s = div_top K s2"
      by (subst div_top.simps) (use False cmp r in \<open>simp add: s1_def\<close>)
    have "\<exists>s'. div_top K s2 = Some s' \<and> others_than {div_x, div_q} s2 s' \<and> quotient_at K s2 s' \<and> div_rooms s' \<and>
      dividend n s' \<and> num s' div_x = num s2 div_x mod D \<and>
      (unat (dig s2 div_q K) + num s2 div_x div D < bn_base \<longrightarrow>
         unat (dig s' div_q K) = unat (dig s2 div_q K) + num s2 div_x div D)"
      by (rule less.hyps) (use n2 False less.prems rooms2 d2 b2 in simp_all)
    then obtain s' where s': "div_top K s2 = Some s'" "others_than {div_x, div_q} s2 s'" "quotient_at K s2 s'" "div_rooms s'"
      "dividend n s'" "num s' div_x = (?X - D) mod D"
      "unat (dig s2 div_q K) + (?X - D) div D < bn_base \<Longrightarrow> unat (dig s' div_q K) = unat (dig s2 div_q K) + (?X - D) div D"
      unfolding n2 by blast
    have "length (bn_data (s div_q)) = 80" using div_rooms_room [OF less.prems(1), of div_q] by (simp add: room_def)
    then have q2: "dig s2 div_q K = dig s div_q K + 1" using same2(2) less.prems(8) dig_put by (simp add: dig_at [of s2 div_q s1] s1_def)
    have dm: "?X div D = (?X - D) div D + 1" "?X mod D = (?X - D) mod D"
      using False less.prems(7) by (simp_all add: le_div_geq le_mod_geq)
    have "unat (dig s' div_q K) = unat (dig s div_q K) + ?X div D" if "unat (dig s div_q K) + ?X div D < bn_base"
    proof -
      have "unat (dig s div_q K + 1) = unat (dig s div_q K) + 1"
        using that dm(1) by (subst unat_add_small) (simp_all add: bn_base_num)
      then show ?thesis using s'(7) that dm(1) by (simp add: q2)
    qed
    moreover have "others_than {div_x, div_q} s s'"
      using s'(2) sub(2) by (auto simp: others_than_def others_same_def s1_def)
    moreover have "quotient_at K s s'"
      using quotient_at_trans [OF quotient_at_put quotient_at_trans [OF quotient_at_same s'(3)], of "dig s div_q K + 1" s] same2(2)
      by (simp add: s1_def)
    ultimately show ?thesis using run s' dm(2) by simp
  qed
qed

section \<open>Normalisation\<close>

lemma normalized_top:
  assumes "bn_ok s r" "trimmed s r" "2 ^ (28 * c + 26) \<le> num s r" "num s r < 2 ^ (28 * c + 27)"
  shows "used s r = c + 1" "2 ^ 26 \<le> unat (dig s r c)"
proof -
  have "(2 :: nat) ^ (28 * c + 27) \<le> bn_base ^ (c + 1)" unfolding bn_base_power by (rule power_increasing) simp_all
  then have le: "used s r \<le> c + 1" using assms(4) by (intro used_le [OF assms(2)]) simp
  have "bn_base ^ c \<le> 2 ^ (28 * c + 26)" unfolding bn_base_power by (rule power_increasing) simp_all
  then have "bn_base ^ c < bn_base ^ used s r" using num_less [OF assms(1)] assms(3) by linarith
  then have "c < used s r" by (simp add: power_strict_increasing_iff)
  then show u: "used s r = c + 1" using le by simp
  have v: "num s r = bval (dig s r) c + unat (dig s r c) * bn_base ^ c" by (simp add: num_def u flip: Suc_eq_plus1)
  have low: "bval (dig s r) c < bn_base ^ c" using bn_ok_dig [OF assms(1)] u by (intro bval_less) simp
  have "2 ^ 26 * bn_base ^ c \<le> num s r" using assms(3) by (simp add: bn_base_power power_add mult.commute)
  also have "\<dots> < (unat (dig s r c) + 1) * bn_base ^ c" using v low by (simp add: distrib_right)
  finally have "2 ^ 26 < unat (dig s r c) + 1" by (simp only: mult_less_cancel2)
  then show "2 ^ 26 \<le> unat (dig s r c)" by simp
qed

lemma div_normalize_spec:
  assumes a: "bn_ok s a" "trimmed s a" "\<not> sign s a" "0 < num s a" "used s a \<le> 79" "a \<notin> div_temps"
    and b: "bn_ok s b" "trimmed s b" "\<not> sign s b" "0 < num s b" "used s b \<le> 79" "b \<notin> div_temps" and rooms: "div_rooms s"
  shows "\<exists>sh s' t. div_normalize a b s = (KC_OK, sh, s') \<and> others_than {div_x, div_y} s s' \<and> div_rooms s' \<and>
    divisor t (num s b * 2 ^ sh) s' \<and> t \<le> used s b \<and>
    bn_ok s' div_x \<and> trimmed s' div_x \<and> \<not> sign s' div_x \<and> num s' div_x = num s a * 2 ^ sh \<and>
    used s a \<le> used s' div_x \<and> used s' div_x \<le> used s a + 1"
proof -
  define m where "m = BNBitCount b s"
  have m: "0 < m" "2 ^ (m - 1) \<le> num s b" "num s b < 2 ^ m" using BNBitCount_spec [OF b(1,2,4)] by (simp_all add: m_def)
  define sh where "sh = (if m mod 28 < 27 then 27 - m mod 28 else 0)"
  define c where "c = m div 28"
  have "m mod 28 < 28" by simp
  then have mc: "m + sh = 28 * c + 27"
    using mult_div_mod_eq [of 28 m] unfolding sh_def c_def by (split if_split, intro conjI impI; linarith)
  have "m - 1 + sh = 28 * c + 26" using mc m(1) by simp
  then have "2 ^ (28 * c + 26) = (2 :: nat) ^ (m - 1) * 2 ^ sh" by (simp flip: power_add)
  also have "\<dots> \<le> num s b * 2 ^ sh" using m(2) by (rule mult_right_mono) simp
  finally have lo: "2 ^ (28 * c + 26) \<le> num s b * 2 ^ sh" .
  have "num s b * 2 ^ sh < 2 ^ m * 2 ^ sh" using m(3) by (rule mult_strict_right_mono) simp
  then have hi: "num s b * 2 ^ sh < 2 ^ (28 * c + 27)" by (simp add: mc flip: power_add)
  have ne: "a \<noteq> div_x" "a \<noteq> div_y" "b \<noteq> div_x" "b \<noteq> div_y" using a(6) b(6) by auto
  have ua: "0 < used s a" "0 < used s b" using num_zero_iff [OF a(2)] num_zero_iff [OF b(2)] a(4) b(4) by simp_all
  have "\<exists>s'. div_normalize a b s = (KC_OK, sh, s') \<and> others_than {div_x, div_y} s s' \<and> div_rooms s' \<and>
    bn_ok s' div_y \<and> trimmed s' div_y \<and> \<not> sign s' div_y \<and> num s' div_y = num s b * 2 ^ sh \<and> used s' div_y \<le> used s b + 1 \<and>
    bn_ok s' div_x \<and> trimmed s' div_x \<and> \<not> sign s' div_x \<and> num s' div_x = num s a * 2 ^ sh \<and>
    used s a \<le> used s' div_x \<and> used s' div_x \<le> used s a + 1"
  proof (cases "m mod 28 < 27")
    case True
    then have sh0: "sh = 27 - m mod 28" "0 < sh" "sh < 28" by (simp_all add: sh_def)
    obtain st1 s1 where r1: "BNShiftBitsL div_y b sh s = (st1, s1)" by (rule prod.exhaust)
    note y = BNShiftBitsL_small [OF b(1-3) ua(2) div_rooms_room [OF rooms] _ sh0(2,3) r1]
    have y1: "st1 = KC_OK" "nat_result div_y s (num s b * 2 ^ sh) s1" "used s1 div_y \<le> used s b + 1" using y b(5) by auto
    have same1: "s1 a = s a" "s1 div_x = s div_x" using y1(2) ne by (simp_all add: nat_result_def others_same_def)
    have a1: "bn_ok s1 a" "trimmed s1 a" "\<not> sign s1 a" "0 < used s1 a" "used s1 a + 1 \<le> 80" "num s1 a = num s a"
      using a ua same_object [of s1 a s, OF same1(1)] same1(1) by simp_all
    have rooms1: "div_rooms s1" using div_rooms_step [OF rooms] y1(2) by (auto simp: nat_result_def intro: bn_ok_room)
    obtain st2 s2 where r2: "BNShiftBitsL div_x a sh s1 = (st2, s2)" by (rule prod.exhaust)
    note x = BNShiftBitsL_small [OF a1(1-4) div_rooms_room [OF rooms1] a1(5) sh0(2,3) r2]
    have x2: "st2 = KC_OK" "nat_result div_x s1 (num s a * 2 ^ sh) s2" "used s a \<le> used s2 div_x" "used s2 div_x \<le> used s a + 1"
      using x a1(6) same1(1) by auto
    have same2: "s2 div_y = s1 div_y" using x2(2) by (simp add: nat_result_def others_same_def)
    have run: "div_normalize a b s = (KC_OK, sh, s2)"
      using r1 r2 y1(1) x2(1) True by (simp add: div_normalize_def Let_def BN_BITS_def m_def [symmetric] sh0(1))
    have rooms2: "div_rooms s2" using div_rooms_step [OF rooms1] x2(2) by (auto simp: nat_result_def intro: bn_ok_room)
    have "others_than {div_x, div_y} s s2" using x2(2) y1(2) by (auto simp: nat_result_def others_than_def others_same_def)
    then show ?thesis
      using run rooms2 x2 y1 same_object [of s2 div_y s1, OF same2] same2 by (simp add: nat_result_def)
  next
    case False
    then have sh0: "sh = 0" by (simp add: sh_def)
    define s1 where "s1 = BNCopy div_x a s"
    define s2 where "s2 = BNCopy div_y b s1"
    have run: "div_normalize a b s = (KC_OK, 0, s2)"
      using False by (simp add: div_normalize_def Let_def BN_BITS_def m_def [symmetric] s2_def s1_def)
    have o: "s2 div_x = s a" "s2 div_y = s b" "others_than {div_x, div_y} s s2"
      using ne by (simp_all add: s2_def s1_def BNCopy_def others_than_def)
    have xy: "room s2 div_x" "room s2 div_y" using o bn_ok_room [OF a(1)] bn_ok_room [OF b(1)] by (simp_all add: room_def)
    have "room s2 r" if "r \<in> div_temps" for r
    proof (cases "r \<in> {div_x, div_y}")
      case True
      then show ?thesis using xy by blast
    next
      case False
      then have "s2 r = s r" using o(3) unfolding others_than_def by blast
      then show ?thesis using div_rooms_room [OF rooms that] by (simp add: room_def)
    qed
    then have "div_rooms s2" by (rule div_roomsI)
    then show ?thesis using run o a b at_object [of s2 div_x s a, OF o(1)] at_object [of s2 div_y s b, OF o(2)] by (simp add: sh0)
  qed
  then obtain s' where s': "div_normalize a b s = (KC_OK, sh, s')" "others_than {div_x, div_y} s s'" "div_rooms s'"
    "bn_ok s' div_y" "trimmed s' div_y" "\<not> sign s' div_y" "num s' div_y = num s b * 2 ^ sh" "used s' div_y \<le> used s b + 1"
    "bn_ok s' div_x" "trimmed s' div_x" "\<not> sign s' div_x" "num s' div_x = num s a * 2 ^ sh"
    "used s a \<le> used s' div_x" "used s' div_x \<le> used s a + 1" by blast
  have "used s' div_y = c + 1" "2 ^ 26 \<le> unat (dig s' div_y c)"
    using normalized_top [OF s'(4,5), of c] lo hi s'(7) by simp_all
  then have "divisor c (num s b * 2 ^ sh) s'" "c \<le> used s b" using s' by (simp_all add: divisor_def)
  then show ?thesis using s' by blast
qed

section \<open>The division\<close>

lemma sub32_eq: "b \<le> a \<Longrightarrow> a < 2 ^ 32 \<Longrightarrow> sub32 a b = a - b"
proof -
  assume a: "b \<le> a" "a < 2 ^ 32"
  then have "unat (of_nat a :: u32) = a" "unat (of_nat b :: u32) = b"
    by (simp_all add: unat_of_nat take_bit_nat_eq_self)
  then show ?thesis using a unat_sub_small [of "of_nat b" "of_nat a"] by (simp add: sub32_def)
qed

lemma div_mod_sum: "x < Y \<Longrightarrow> (x + Y * S) div Y = S \<and> (x + Y * S) mod Y = x" for x Y S :: nat
  by simp

lemma quotient_value:
  assumes "\<And>j. j < nq \<Longrightarrow> unat (d j) < bn_base" "\<And>j. j < nq \<Longrightarrow> Q j = unat (d j)" "nq \<le> m"
  shows "bval d nq = (\<Sum>j = 0..<m. Q j * bn_base ^ j) mod bn_base ^ nq"
proof -
  have "(\<Sum>j = 0..<m. Q j * bn_base ^ j) = (\<Sum>j = 0..<nq. Q j * bn_base ^ j) + (\<Sum>j = nq..<m. Q j * bn_base ^ j)"
    using assms(3) by (simp add: sum.atLeastLessThan_concat)
  also have "(\<Sum>j = 0..<nq. Q j * bn_base ^ j) = bval d nq" by (simp add: bval_def assms(2) lessThan_atLeast0)
  also have "(\<Sum>j = nq..<m. Q j * bn_base ^ j) = bn_base ^ nq * (\<Sum>j = nq..<m. Q j * bn_base ^ (j - nq))"
    unfolding sum_distrib_left by (rule sum.cong) (simp_all add: ac_simps flip: power_add)
  finally show ?thesis using bval_less [of nq d] assms(1) by simp
qed

lemma div_core_spec:
  assumes a: "bn_ok s a" "trimmed s a" "\<not> sign s a" "used s a \<le> 79" "a \<notin> div_temps"
    and b: "bn_ok s b" "trimmed s b" "\<not> sign s b" "0 < num s b" "b \<notin> div_temps" and rooms: "div_rooms s"
    and le: "num s b \<le> num s a"
  shows "\<exists>sh s'. div_core a b s = Some (KC_OK, sh, s') \<and> others_than div_temps s s' \<and> div_rooms s' \<and>
    bn_ok s' div_q \<and> \<not> sign s' div_q \<and> num s' div_q = (num s a div num s b) mod bn_base ^ (used s a - used s b) \<and>
    bn_ok s' div_x \<and> trimmed s' div_x \<and> \<not> sign s' div_x \<and> num s' div_x = (num s a mod num s b) * 2 ^ sh"
proof -
  have ule: "used s b \<le> used s a" using num_used_less [OF a(1) b(2)] le by (meson leD le_less_linear)
  have a79: "used s a \<le> 79" "used s b \<le> 79" using a(4) ule by simp_all
  define nq where "nq = used s a - used s b"
  have nq: "sub32 (used s a) (used s b) = nq" "nq \<le> 80" using sub32_eq [OF ule] a79 by (simp_all add: nq_def)
  define s1 where "s1 = set_used div_q nq (BN_ZERO div_q s)"
  define s2 where "s2 = fold (\<lambda>i s. put_dig div_q i 0 s) [0..<nq] s1"
  have q1: "others_same div_q s s1" "room s1 div_q" "used s1 div_q = nq" "\<not> sign s1 div_q"
    using div_rooms_room [OF rooms, of div_q] by (simp_all add: s1_def BN_ZERO_def others_same_def)
  have z: "digits_only div_q s1 s2" "\<And>j. dig s2 div_q j = (if j < nq then 0 else dig s1 div_q j)"
    using zero_loop [OF q1(2) nq(2)] by (simp_all add: s2_def)
  have q2: "room s2 div_q" "used s2 div_q = nq" "\<not> sign s2 div_q"
    using q1 digits_only_room [OF z(1)] digits_only_used [OF z(1)] by simp_all
  have o2: "others_same div_q s s2" using q1(1) digits_only_others [OF z(1)] by (rule others_same_trans)
  have rooms2: "div_rooms s2" using div_rooms_step [OF rooms o2 q2(1)] .
  have sa: "s2 a = s a" "s2 b = s b" using o2 a(5) b(5) by (simp_all add: others_same_def)
  note ia = same_object [of s2 a s, OF sa(1)] and ib = same_object [of s2 b s, OF sa(2)]
  have pos: "0 < num s a" using b(4) le by simp
  obtain sh s3 t where n3: "div_normalize a b s2 = (KC_OK, sh, s3)" "others_than {div_x, div_y} s2 s3" "div_rooms s3"
    "divisor t (num s b * 2 ^ sh) s3" "t \<le> used s b" "bn_ok s3 div_x" "trimmed s3 div_x" "\<not> sign s3 div_x"
    "num s3 div_x = num s a * 2 ^ sh" "used s a \<le> used s3 div_x" "used s3 div_x \<le> used s a + 1"
    using div_normalize_spec [of s2 a b] a b a79 rooms2 ia ib sa pos by auto
  let ?Y = "num s b * 2 ^ sh" and ?X0 = "num s a * 2 ^ sh" and ?n = "used s3 div_x - 1"
  have y3: "bn_ok s3 div_y" "trimmed s3 div_y" "\<not> sign s3 div_y" "used s3 div_y = t + 1" "num s3 div_y = ?Y"
    using n3(4) by (simp_all add: divisor_def)
  have XY: "?Y \<le> ?X0" using le by simp
  have "used s3 div_y \<le> used s3 div_x"
    using num_used_less [OF n3(6) y3(2)] XY n3(9) y3(5) by (cases "used s3 div_y \<le> used s3 div_x") (simp_all add: not_le)
  then have tn: "t \<le> ?n" "?n + 1 = used s3 div_x" "?n < 80" using y3(4) n3(11) a79 by simp_all
  define K where "K = ?n - t"
  have K: "sub32 ?n t = K" "K < 80" "nq \<le> K + 1" "t + K = ?n" "t + 1 + K \<le> 80"
    using sub32_eq [OF tn(1)] tn n3(5,10) by (simp_all add: K_def nq_def)
  obtain st4 s4 where r4: "BNShiftDigL BnTmp div_y K s3 = (st4, s4)" by (rule prod.exhaust)
  let ?D = "?Y * bn_base ^ K"
  have sl: "st4 = KC_OK" "nat_result BnTmp s3 ?D s4"
    using BNShiftDigL_result [OF y3(1-3) div_rooms_room [OF n3(3)] _ r4] y3(4,5) K(5) by simp_all
  have o4: "others_same BnTmp s3 s4" and b4: "bn_ok s4 BnTmp" "trimmed s4 BnTmp" "\<not> sign s4 BnTmp" "num s4 BnTmp = ?D"
    using sl(2) by (simp_all add: nat_result_def)
  have rooms4: "div_rooms s4" using div_rooms_step [OF n3(3) o4] b4(1) by (simp add: bn_ok_room)
  have same4: "s4 div_x = s3 div_x" "s4 div_y = s3 div_y" "s4 div_q = s2 div_q"
    using o4 n3(2) by (simp_all add: others_same_def others_than_def)
  have "zeros_above ?n s3" using tn(2) by (auto simp: zeros_above_def)
  then have x4: "dividend ?n s4" "num s4 div_x = ?X0"
    using n3(6-9) dividend_same [of s4 s3 ?n, OF same4(1)] same_object(1) [of s4 div_x s3, OF same4(1)] by (simp_all add: dividend_def)
  have D0: "0 < ?D" using b(4) by simp
  obtain s5 where t5: "div_top K s4 = Some s5" "others_than {div_x, div_q} s4 s5" "quotient_at K s4 s5" "div_rooms s5"
    "dividend ?n s5" "num s5 div_x = ?X0 mod ?D"
    "unat (dig s4 div_q K) + ?X0 div ?D < bn_base \<Longrightarrow> unat (dig s5 div_q K) = unat (dig s4 div_q K) + ?X0 div ?D"
    using div_top_spec [OF rooms4 x4(1) b4 D0 K(2)] x4(2) by auto
  have y4: "divisor t ?Y s4" using n3(4) divisor_same [of s4 s3, OF same4(2)] by simp
  have Yge: "bn_base ^ t \<le> ?Y" using num_ge [OF y3(2)] y3(4,5) by simp
  have "?X0 < bn_base ^ (?n + 1)" using num_less [OF n3(6)] n3(9) tn(2) by simp
  also have "\<dots> = bn_base * (bn_base ^ t * bn_base ^ K)" by (simp add: power_add flip: K(4))
  also have "\<dots> \<le> bn_base * ?D" using Yge by (intro mult_left_mono mult_right_mono) simp_all
  finally have top: "?X0 div ?D < bn_base" using D0 by (intro less_mult_imp_div_less) simp
  have dq4: "dig s4 div_q = dig s2 div_q" using same4(3) by (simp add: dig_at [of s4 div_q s2])
  have dq: "dig s5 div_q j = 0" if "j < nq" "j \<noteq> K" for j
    using t5(3) z(2) that by (simp add: quotient_at_def dq4)
  have dK: "unat (dig s5 div_q K) = ?X0 div ?D" if "K < nq" using t5(7) top z(2) that by (simp add: dq4)
  define Q where "Q = (\<lambda>j :: nat. if j = K then ?X0 div ?D else 0)"
  have inv: "quot_inv s4 t ?Y ?n nq ?X0 K s5"
    unfolding quot_inv_def
  proof (intro conjI exI [of _ Q])
    show "others_than (div_temps - {div_y}) s4 s5" using t5(2) by (auto simp: others_than_def)
    show "num s5 div_x < ?D" using t5(6) D0 by simp
    show "used s5 div_q = nq" "\<not> sign s5 div_q" using t5(3) q2 same4(3) by (simp_all add: quotient_at_def)
    show "\<forall>j < nq. unat (dig s5 div_q j) < bn_base"
    proof (intro allI impI)
      fix j assume "j < nq"
      then show "unat (dig s5 div_q j) < bn_base" using dq [of j] dK top by (cases "j = K") simp_all
    qed
    show "\<forall>j < K. j < nq \<longrightarrow> dig s5 div_q j = 0" using dq by simp
    show "\<forall>j. K \<le> j \<longrightarrow> j < nq \<longrightarrow> Q j = unat (dig s5 div_q j)" using dq dK by (simp add: Q_def)
    have "{K..<K + 1} = {K}" by auto
    then have "(\<Sum>j = K..<?n - t + 1. Q j * bn_base ^ j) = ?X0 div ?D * bn_base ^ K"
      unfolding K_def [symmetric] by (simp add: Q_def)
    then show "?X0 = num s5 div_x + ?Y * (\<Sum>j = K..<?n - t + 1. Q j * bn_base ^ j)"
      unfolding t5(6) using div_mult_mod_eq [of ?X0 ?D] by (simp add: ac_simps)
  qed (use t5 in simp_all)
  obtain s6 where r6: "div_loop t (rev [t + 1..<?n + 1]) s5 = Some (KC_OK, s6)" and inv6: "quot_inv s4 t ?Y ?n nq ?X0 0 s6"
    using div_loop_spec [OF inv y4 _ tn(3) nq(2)] K(4) by auto
  obtain Q' where q6: "\<And>j. j < nq \<Longrightarrow> Q' j = unat (dig s6 div_q j)"
    and X6: "?X0 = num s6 div_x + ?Y * (\<Sum>j = 0..<K + 1. Q' j * bn_base ^ j)" and less6: "num s6 div_x < ?Y"
    using inv6 by (auto simp: quot_inv_def K_def)
  have "?X0 div ?Y = (\<Sum>j = 0..<K + 1. Q' j * bn_base ^ j)" "?X0 mod ?Y = num s6 div_x"
    unfolding X6 using div_mod_sum [OF less6] by blast+
  then have dm: "(\<Sum>j = 0..<K + 1. Q' j * bn_base ^ j) = num s a div num s b" "num s6 div_x = (num s a mod num s b) * 2 ^ sh"
    by (simp_all add: mult_mod_left)
  have u6: "used s6 div_q = nq" "\<not> sign s6 div_q" "\<And>j. j < nq \<Longrightarrow> unat (dig s6 div_q j) < bn_base" "div_rooms s6" "dividend ?n s6"
    using inv6 by (simp_all add: quot_inv_def)
  have "num s6 div_q = (num s a div num s b) mod bn_base ^ nq"
    unfolding num_def [of s6 div_q] u6(1) using quotient_value [OF u6(3) q6 K(3)] dm(1) by simp
  moreover have "bn_ok s6 div_q" using u6 nq(2) div_rooms_room [OF u6(4), of div_q] by (simp add: bn_ok_def room_def)
  moreover have "others_than div_temps s s6"
    using o2 n3(2) o4 inv6 by (auto simp: quot_inv_def others_than_def others_same_def)
  moreover have "div_core a b s = Some (KC_OK, sh, s6)"
    unfolding div_core_def Let_def nq(1) s1_def [symmetric] s2_def [symmetric]
    using n3(1) r4 t5(1) r6 sl(1) K(1) y3(4) by simp
  ultimately show ?thesis using u6 dm(2) by (auto simp: dividend_def nq_def)
qed

text \<open>The division: the quotient has room for \<open>Used\<close> of the dividend less that of the divisor, so a
  further digit of it is lost. The remainder is right.\<close>

definition quotient_returned :: "bns \<Rightarrow> bn_ref \<Rightarrow> bn_ref \<Rightarrow> nat" where
  "quotient_returned s a b =
     (if num s a = num s b then 1 else (num s a div num s b) mod bn_base ^ (used s a - used s b))"

definition holds :: "bns \<Rightarrow> bn_ref \<Rightarrow> nat \<Rightarrow> bool" where
  "holds s r n \<longleftrightarrow> bn_ok s r \<and> trimmed s r \<and> \<not> sign s r \<and> num s r = n"

lemma holds_same: "s' r = s r \<Longrightarrow> holds s' r n = holds s r n"
  using same_object [of s' r s] by (simp add: holds_def)

definition opt_apply :: "bn_ref option \<Rightarrow> (bn_ref \<Rightarrow> bns \<Rightarrow> bns) \<Rightarrow> bns \<Rightarrow> bns" where
  "opt_apply p f s = (case p of None \<Rightarrow> s | Some ref \<Rightarrow> f ref s)"

lemma opt_apply_holds:
  assumes "\<And>q. p = Some q \<Longrightarrow> others_same q s (f q s) \<and> holds (f q s) q n"
  shows "others_than (set_option p) s (opt_apply p f s) \<and> (\<forall>q. p = Some q \<longrightarrow> holds (opt_apply p f s) q n)"
  using assms by (cases p) (auto simp: opt_apply_def others_than_def others_same_def)

lemma opt_apply_two:
  assumes p: "\<And>q. p = Some q \<Longrightarrow> others_same q s (f q s) \<and> holds (f q s) q n"
    and p': "\<And>q s'. p' = Some q \<Longrightarrow> others_than (set_option p) s s' \<Longrightarrow> others_same q s' (g q s') \<and> holds (g q s') q m"
    and ne: "p = None \<or> p' = None \<or> p \<noteq> p'" and s': "s' = opt_apply p' g (opt_apply p f s)"
  shows "others_than (set_option p \<union> set_option p') s s'" "p = Some q \<Longrightarrow> holds s' q n" "p' = Some q \<Longrightarrow> holds s' q m"
proof -
  note one = opt_apply_holds [where p = p and f = f and s = s and n = n, OF p]
  have two: "others_than (set_option p') (opt_apply p f s) s' \<and> (\<forall>q. p' = Some q \<longrightarrow> holds s' q m)"
    unfolding s' by (rule opt_apply_holds) (use p' one in blast)
  show "others_than (set_option p \<union> set_option p') s s'" using one two by (auto simp: others_than_def)
  show "p' = Some q \<Longrightarrow> holds s' q m" using two by blast
  assume "p = Some q"
  moreover from this have "s' q = opt_apply p f s q" using two ne by (cases p') (auto simp: others_than_def)
  ultimately show "holds s' q n" using one holds_same [of s' q "opt_apply p f s"] by blast
qed

lemma BN_ONE_spec:
  assumes "room s z" and "s' = put_dig z 0 1 (set_sign z False (set_used z 1 s))"
  shows "others_same z s s' \<and> holds s' z 1"
proof -
  have d: "dig s' z 0 = 1" "used s' z = 1" "\<not> sign s' z" using assms by (simp_all add: room_def dig_put)
  have "unat (1 :: u32) < bn_base" by simp
  then have "bn_ok s' z" using assms d by (auto simp: bn_ok_def room_def)
  moreover have "bval (dig s' z) (Suc 0) = 1" by (simp add: d)
  ultimately show ?thesis
    using assms(2) d by (simp add: holds_def others_same_def trimmed_def num_def One_nat_def)
qed

lemma BN_ZERO_holds: "room s z \<Longrightarrow> others_same z s (BN_ZERO z s) \<and> holds (BN_ZERO z s) z 0"
  using BN_ZERO_result [of s z] by (simp add: nat_result_def holds_def)

lemma BNDiv_unfold:
  "BNDiv z a b r s =
     (if used s b = 0 then Some (KCERR_INVALID_PARAMETER, s)
      else if used s a = 0 then Some (KC_OK, opt_apply z BN_ZERO (opt_apply r BN_ZERO s))
      else if BNCompare a b s = BN_SMALLER then Some (KC_OK, opt_apply z BN_ZERO (opt_apply r (\<lambda>r. BNCopy r a) s))
      else if BNCompare a b s = BN_EQUAL
      then Some (KC_OK, opt_apply z (\<lambda>z s. put_dig z 0 1 (set_sign z False (set_used z 1 s))) (opt_apply r BN_ZERO s))
      else case div_core a b s of
             None \<Rightarrow> None
           | Some (status, shift, s1) \<Rightarrow>
               Some (status, opt_apply r (\<lambda>r s. BNTRIM r (BNShiftBitsR r div_x shift s))
                               (opt_apply z (\<lambda>z s. BNTRIM z (BNCopy z div_q s)) s1)))"
  by (simp add: BNDiv_def opt_apply_def Let_def cong: option.case_cong)

lemma BNDiv_spec:
  assumes a: "bn_ok s a" "trimmed s a" "\<not> sign s a" "used s a \<le> 79" "a \<notin> div_temps"
    and b: "bn_ok s b" "trimmed s b" "\<not> sign s b" "0 < num s b" "b \<notin> div_temps" and rooms: "div_rooms s"
    and z: "\<And>q. z = Some q \<Longrightarrow> room s q \<and> q \<notin> div_temps" and r: "\<And>p. r = Some p \<Longrightarrow> room s p \<and> p \<notin> div_temps"
    and zr: "z = None \<or> r = None \<or> z \<noteq> r"
  shows "\<exists>s'. BNDiv z a b r s = Some (KC_OK, s') \<and> others_than (div_temps \<union> set_option z \<union> set_option r) s s' \<and>
    (\<forall>q. z = Some q \<longrightarrow> holds s' q (quotient_returned s a b)) \<and> (\<forall>p. r = Some p \<longrightarrow> holds s' p (num s a mod num s b))"
proof -
  have ub: "used s b \<noteq> 0" using num_zero_iff [OF b(2)] b(4) by simp
  have ua: "used s a = 0 \<longleftrightarrow> num s a = 0" using num_zero_iff [OF a(2)] by simp
  have cmp: "BNCompare a b s = (if num s a > num s b then BN_BIGGER else if num s a < num s b then BN_SMALLER else BN_EQUAL)"
    using BNCompare_spec [OF a(1) b(1) a(2) b(2)] b(4) by auto
  have rz: "r = None \<or> z = None \<or> r \<noteq> z" using zr by auto
  have keep: "room s' q" if "z = Some q" "others_than (set_option r) s s'" for q s'
    using z [OF that(1)] that rz same_object(5) [of s' q s] by (cases r) (auto simp: others_than_def)
  have fin: ?thesis
    if run: "BNDiv z a b r s = Some (KC_OK, opt_apply z g (opt_apply r f s))"
      and f: "\<And>q. r = Some q \<Longrightarrow> others_same q s (f q s) \<and> holds (f q s) q (num s a mod num s b)"
      and g: "\<And>q s'. z = Some q \<Longrightarrow> room s' q \<Longrightarrow> others_same q s' (g q s') \<and> holds (g q s') q (quotient_returned s a b)" for f g
  proof -
    note two = opt_apply_two [where p = r and p' = z and f = f and g = g, OF f g [OF _ keep] rz refl]
    show ?thesis using run two others_than_mono [OF two(1), of "div_temps \<union> set_option z \<union> set_option r"] by blast
  qed
  consider "num s a = 0" | "0 < num s a" "num s a < num s b" | "num s a = num s b" | "num s b < num s a" by linarith
  then show ?thesis
  proof cases
    case 1
    show ?thesis
    proof (rule fin)
      show "BNDiv z a b r s = Some (KC_OK, opt_apply z BN_ZERO (opt_apply r BN_ZERO s))" using 1 ua ub by (simp add: BNDiv_unfold)
    qed (use 1 b(4) r BN_ZERO_holds in \<open>simp_all add: quotient_returned_def\<close>)
  next
    case 2
    show ?thesis
    proof (rule fin)
      show "BNDiv z a b r s = Some (KC_OK, opt_apply z BN_ZERO (opt_apply r (\<lambda>r. BNCopy r a) s))"
        using 2 ua ub cmp by (simp add: BNDiv_unfold)
      show "others_same q s (BNCopy q a s) \<and> holds (BNCopy q a s) q (num s a mod num s b)" for q
        using BNCopy_result [OF a(1-3), of q] 2 by (simp add: nat_result_def holds_def)
    qed (use 2 BN_ZERO_holds in \<open>simp_all add: quotient_returned_def\<close>)
  next
    case 3
    show ?thesis
    proof (rule fin)
      show "BNDiv z a b r s = Some (KC_OK, opt_apply z (\<lambda>z s. put_dig z 0 1 (set_sign z False (set_used z 1 s))) (opt_apply r BN_ZERO s))"
        using 3 ua ub cmp b(4) by (simp add: BNDiv_unfold)
    qed (use 3 r BN_ZERO_holds BN_ONE_spec in \<open>simp_all add: quotient_returned_def\<close>)
  next
    case 4
    obtain sh s1 where c: "div_core a b s = Some (KC_OK, sh, s1)" "others_than div_temps s s1" "div_rooms s1"
      "bn_ok s1 div_q" "\<not> sign s1 div_q" "num s1 div_q = (num s a div num s b) mod bn_base ^ (used s a - used s b)"
      "bn_ok s1 div_x" "trimmed s1 div_x" "\<not> sign s1 div_x" "num s1 div_x = (num s a mod num s b) * 2 ^ sh"
      using div_core_spec [OF a b rooms] 4 by auto
    have q: "quotient_returned s a b = num s1 div_q" using 4 c(6) by (simp add: quotient_returned_def)
    define s2 where "s2 = opt_apply r (\<lambda>r s. BNTRIM r (BNShiftBitsR r div_x sh s)) (opt_apply z (\<lambda>z s. BNTRIM z (BNCopy z div_q s)) s1)"
    have run: "BNDiv z a b r s = Some (KC_OK, s2)" using c(1) 4 ua ub cmp b(4) by (simp add: BNDiv_unfold s2_def)
    have fz: "others_same q s1 (BNTRIM q (BNCopy q div_q s1)) \<and> holds (BNTRIM q (BNCopy q div_q s1)) q (quotient_returned s a b)" for q
      using at_object [of "BNCopy q div_q s1" q s1 div_q] c(4,5) BNCopy_same [of q s1 div_q]
      by (simp add: holds_def BNTRIM_ok BNTRIM_trimmed BNTRIM_num q)
    have gr: "others_same p s' (BNTRIM p (BNShiftBitsR p div_x sh s')) \<and>
        holds (BNTRIM p (BNShiftBitsR p div_x sh s')) p (num s a mod num s b)"
      if "r = Some p" "others_than (set_option z) s1 s'" for p s'
    proof -
      have "div_x \<notin> set_option z" using z by auto
      then have x: "s' div_x = s1 div_x" using that(2) by (simp add: others_than_def)
      have "p \<notin> set_option z" "p \<notin> div_temps" using that(1) zr r by auto
      then have "s' p = s p" using that(2) c(2) by (simp add: others_than_def)
      then have "room s' p" using r [OF that(1)] by (simp add: room_def)
      then show ?thesis
        using BNShiftBitsR_spec [of s' div_x p sh] c same_object [of s' div_x s1, OF x] x
        by (simp add: holds_def BNTRIM_ok BNTRIM_trimmed BNTRIM_num)
    qed
    note two = opt_apply_two [where p = z and p' = r, OF fz gr zr s2_def]
    have "others_than (div_temps \<union> set_option z \<union> set_option r) s s2"
      using two(1) c(2) by (auto simp: others_than_def)
    then show ?thesis using run two by blast
  qed
qed

declare One_nat_def [simp]

end
