(* ===== verification/Sev_BigNumReduce.thy ===== *)
theory Sev_BigNumReduce
  imports Sev_BigNumQuot
begin

text \<open>
  Barrett's reduction in \<open>bignum.c\<close>: the estimate of the quotient is at most three too small, so the
  loop of subtractions ends well before its limit, with the remainder.
\<close>

section \<open>The estimate of the quotient\<close>

lemma barrett_estimate:
  fixes x m u q1 h B k :: nat
  assumes m: "0 < m" and u: "u = P div m" and P: "P = B1 * B2" and q1: "q1 = x div B1"
    and x: "x < P" and uless: "u < B2" and q1less: "q1 < B2"
    and h: "h \<le> q1 * u" "q1 * u \<le> h + B2" and B: "0 < B1" "0 < B2"
  shows "h div B2 \<le> x div m" "x div m \<le> h div B2 + 3"
proof -
  define q where "q = x div m"
  have "(h div B2) * B2 \<le> h" by simp
  also note h(1)
  finally have "(h div B2) * B2 * (B1 * m) \<le> q1 * u * (B1 * m)" by (rule mult_right_mono) simp
  also have "q1 * u * (B1 * m) = (q1 * B1) * (u * m)" by (simp add: ac_simps)
  also have "\<dots> \<le> x * P" using u q1 by (intro mult_mono) simp_all
  finally have "((h div B2) * m) * P \<le> x * P" by (simp add: P ac_simps)
  then have "(h div B2) * m \<le> x" using B by (simp add: P)
  then show "h div B2 \<le> x div m" using m by (simp add: less_eq_div_iff_mult_less_eq)
  have um: "P < (u + 1) * m" unfolding u using dividend_less_times_div [OF m, of P] by (simp add: algebra_simps)
  have xq: "x < (q1 + 1) * B1" unfolding q1 using dividend_less_times_div [OF B(1), of x] by (simp add: algebra_simps)
  have "q * B2 < q1 * u + 2 * B2"
  proof (cases "q = 0")
    case False
    have "q * B2 * B1 = q * P" by (simp add: P ac_simps)
    also have "\<dots> < q * ((u + 1) * m)" using um False by simp
    also have "\<dots> = (q * m) * (u + 1)" by (simp only: ac_simps)
    also have "\<dots> \<le> x * (u + 1)" by (intro mult_right_mono) (simp_all add: q_def)
    also have "\<dots> < (q1 + 1) * B1 * (u + 1)" using xq by (intro mult_strict_right_mono) simp_all
    finally have "(q * B2) * B1 < ((q1 + 1) * (u + 1)) * B1" by (simp only: ac_simps)
    then have "q * B2 < (q1 + 1) * (u + 1)" by (simp only: mult_less_cancel2)
    also have "\<dots> = q1 * u + (q1 + u + 1)" by (simp add: algebra_simps)
    also have "\<dots> \<le> q1 * u + 2 * B2" using uless q1less by simp
    finally show ?thesis .
  qed (use B in simp)
  also have "\<dots> \<le> h + 3 * B2" using h(2) by simp
  also have "\<dots> < (h div B2 + 1) * B2 + 3 * B2" using dividend_less_times_div [OF B(2), of h] by (simp add: algebra_simps)
  finally have "q * B2 < (h div B2 + 4) * B2" by (simp add: algebra_simps)
  then have "q < h div B2 + 4" by (simp only: mult_less_cancel2)
  then show "x div m \<le> h div B2 + 3" by (simp add: q_def)
qed

section \<open>The setup\<close>

lemma power_quotient_less:
  assumes "bn_ok s m" "trimmed s m" "0 < used s m" "num s m \<noteq> bn_base ^ (used s m - 1)"
  shows "bn_base ^ (2 * used s m) div num s m < bn_base ^ (used s m + 1)"
proof -
  obtain k where k: "used s m = Suc k" using assms(3) by (cases "used s m") auto
  have "bn_base ^ k < num s m" using num_ge [OF assms(2,3)] assms(4) k by simp
  then have "bn_base ^ (k + 2) * bn_base ^ k < bn_base ^ (k + 2) * num s m" by (rule mult_strict_left_mono) simp
  moreover have "bn_base ^ (2 * used s m) = bn_base ^ (k + 2) * bn_base ^ k" by (simp add: k mult_2 flip: power_add)
  ultimately have "bn_base ^ (2 * used s m) < bn_base ^ (k + 2) * num s m" by simp
  then show ?thesis using k by (intro less_mult_imp_div_less) simp
qed

lemma BNBarrettSetup_spec:
  assumes m: "bn_ok s m" "trimmed s m" "\<not> sign s m" "0 < num s m" "used s m \<le> 39" "m \<notin> div_temps" "m \<noteq> Barrett_u"
    and ne: "num s m \<noteq> bn_base ^ (used s m - 1)" and rooms: "div_rooms s" "room s Barrett_u"
  shows "\<exists>s'. BNBarrettSetup m s = Some (KC_OK, s') \<and> others_than (insert Barrett_u div_temps) s s' \<and>
    holds s' Barrett_u (bn_base ^ (2 * used s m) div num s m)"
proof -
  let ?k = "used s m"
  have k0: "0 < ?k" using num_zero_iff [OF m(2)] m(4) by simp
  obtain st s1 where r1: "BNSet2Pwr Barrett_u (?k * 2 * BN_BITS) s = (st, s1)" by (rule prod.exhaust)
  have "?k * 2 * BN_BITS div 28 = 2 * ?k" by (simp add: BN_BITS_def)
  then have p: "st = KC_OK" "nat_result Barrett_u s (2 ^ (?k * 2 * BN_BITS)) s1" "used s1 Barrett_u = 2 * ?k + 1"
    using BNSet2Pwr_result [OF rooms(2) r1] m(5) by simp_all
  have v: "(2 :: nat) ^ (?k * 2 * BN_BITS) = bn_base ^ (2 * ?k)" by (simp add: bn_base_power BN_BITS_def ac_simps)
  have o: "others_same Barrett_u s s1" using p(2) by (simp add: nat_result_def)
  have sm: "s1 m = s m" using o m(7) by (simp add: others_same_def)
  note im = same_object [of s1 m s, OF sm]
  have rooms1: "div_rooms s1" using div_rooms_step [OF rooms(1) o] p(2) by (simp add: nat_result_def bn_ok_room)
  have u1: "bn_ok s1 Barrett_u" "trimmed s1 Barrett_u" "\<not> sign s1 Barrett_u" "num s1 Barrett_u = bn_base ^ (2 * ?k)"
    using p(2) v by (simp_all add: nat_result_def)
  have "\<exists>s'. BNDiv (Some Barrett_u) Barrett_u m None s1 = Some (KC_OK, s') \<and>
      others_than (div_temps \<union> set_option (Some Barrett_u) \<union> set_option None) s1 s' \<and>
      (\<forall>q. Some Barrett_u = Some q \<longrightarrow> holds s' q (quotient_returned s1 Barrett_u m)) \<and>
      (\<forall>p. None = Some p \<longrightarrow> holds s' p (num s1 Barrett_u mod num s1 m))"
    by (rule BNDiv_spec) (use u1 p(3) m im sm rooms1 in \<open>simp_all add: bn_ok_room\<close>)
  then obtain s2 where s2: "BNDiv (Some Barrett_u) Barrett_u m None s1 = Some (KC_OK, s2)"
    "others_than (insert Barrett_u div_temps) s1 s2" "holds s2 Barrett_u (quotient_returned s1 Barrett_u m)"
    by (auto simp: others_than_def)
  have "num s m < bn_base ^ ?k" using m(1) by (rule num_less)
  also have "\<dots> \<le> bn_base ^ (2 * ?k)" by (rule power_increasing) simp_all
  finally have "num s m \<noteq> bn_base ^ (2 * ?k)" by simp
  then have "quotient_returned s1 Barrett_u m = (bn_base ^ (2 * ?k) div num s m) mod bn_base ^ (?k + 1)"
    by (simp add: quotient_returned_def u1(4) im p(3) sm)
  also have "\<dots> = bn_base ^ (2 * ?k) div num s m"
    using power_quotient_less [OF m(1,2) k0 ne] by simp
  finally have "holds s2 Barrett_u (bn_base ^ (2 * ?k) div num s m)" using s2(3) by simp
  moreover have "BNBarrettSetup m s = Some (KC_OK, s2)" using r1 p(1) s2(1) by (simp add: BNBarrettSetup_def)
  moreover have "others_than (insert Barrett_u div_temps) s s2"
    using o s2(2) by (auto simp: others_than_def others_same_def)
  ultimately show ?thesis by blast
qed

section \<open>The final subtractions\<close>

declare barrett_loop.simps [simp del]

lemma clean_sub:
  assumes "bn_ok s p" "bn_ok s q" "trimmed s p" "trimmed s q" "room s z" "BNSubtractAbs z p q s = (status, s')"
    and ne: "num s p \<noteq> num s q" and tail: "\<And>j. max (used s p) (used s q) \<le> j \<Longrightarrow> j < 80 \<Longrightarrow> dig s z j = 0"
  shows "clean s' z"
  unfolding clean_def
proof (intro allI impI)
  fix j assume j: "used s' z \<le> j" "j < 80"
  note spec = BNSubtractAbs_spec [OF assms(1-6)]
  show "dig s' z j = 0"
  proof (cases "max (used s p) (used s q) \<le> j")
    case True
    then show ?thesis using spec(8) [of j] tail j by simp
  next
    case False
    then show ?thesis using spec(9) [OF ne j(1)] by (simp only: not_le)
  qed
qed

lemma barrett_loop_spec:
  assumes r: "bn_ok s r" "trimmed s r" "\<not> sign s r" "clean s r" and m: "bn_ok s m" "trimmed s m" "\<not> sign s m" "clean s m"
    and ne: "r \<noteq> m" "num s r mod num s m \<noteq> 0" "0 < num s m" and c: "num s r div num s m + c \<le> 11"
  shows "\<exists>s'. barrett_loop r m c s = (KC_OK, s') \<and> others_same r s s' \<and> holds s' r (num s r mod num s m) \<and> clean s' r"
  using assms
proof (induction "11 - c" arbitrary: s c rule: less_induct)
  case less
  note cmp = BNSecureCompare_spec [OF less.prems(1,5,4,8)]
  show ?case
  proof (cases "num s r < num s m")
    case True
    then show ?thesis using cmp less.prems by (simp add: barrett_loop.simps holds_def)
  next
    case False
    then have gt: "num s m < num s r" using less.prems(10) by (cases "num s m = num s r") auto
    then have "0 < num s r div num s m" using less.prems(11) by (simp add: div_greater_zero_iff)
    then have c: "c < 11" using less.prems(12) by simp
    obtain st s1 where r1: "BNSubtract r r m s = (st, s1)" by (rule prod.exhaust)
    then have r1': "BNSubtractAbs r r m s = (st, s1)" using less.prems by (simp add: BNSubtract_def)
    note sub = BNSubtractAbs_spec [OF less.prems(1,5,2,6) bn_ok_room [OF less.prems(1)] r1']
    have cl: "clean s1 r"
      by (rule clean_sub [OF less.prems(1,5,2,6) bn_ok_room [OF less.prems(1)] r1']) (use gt less.prems(4) in \<open>simp_all add: clean_def\<close>)
    have n1: "num s1 r = num s r - num s m" using abs_diff(1) [OF sub(5)] gt by simp
    have sg: "\<not> sign s1 r" using sub(6) gt less.prems(3) by simp
    have sm: "s1 m = s m" using sub(2) less.prems(9) by (simp add: others_same_def)
    note im = same_object [of s1 m s, OF sm]
    have md: "num s1 r mod num s m = num s r mod num s m" "num s1 r div num s m + 1 = num s r div num s m"
      unfolding n1 using gt less.prems(11) by (simp_all add: le_mod_geq le_div_geq)
    have run: "barrett_loop r m c s = barrett_loop r m (c + 1) s1"
      by (subst barrett_loop.simps) (use cmp gt c r1 sub(1) in simp)
    have "\<exists>s'. barrett_loop r m (c + 1) s1 = (KC_OK, s') \<and> others_same r s1 s' \<and> holds s' r (num s1 r mod num s1 m) \<and> clean s' r"
      by (rule less.hyps) (use c sub(3,4) sg cl im sm less.prems md in simp_all)
    then show ?thesis using run sub(2) md(1) im(1) others_same_trans by auto
  qed
qed

section \<open>The reduction\<close>

abbreviation barrett_temps :: "bn_ref set" where
  "barrett_temps \<equiv> {BarrettTemp 0, BarrettTemp 1, BarrettTemp 2}"

declare One_nat_def [simp del]

lemma mod_difference:
  fixes x a M :: nat assumes "a \<le> x" "x - a < M"
  shows "\<bar>int (x mod M) - int (a mod M)\<bar> = (if x mod M < a mod M then int M - int (x - a) else int (x - a))"
    "x mod M < a mod M \<longleftrightarrow> \<not> int (x mod M) - int (a mod M) = int (x - a)"
proof -
  have "(int x mod int M - int a mod int M) mod int M = (int x - int a) mod int M" by (rule mod_diff_eq)
  also have "int x - int a = int (x - a)" using assms(1) by (simp add: of_nat_diff)
  also have "\<dots> mod int M = int (x - a)" using assms(2) by (intro mod_pos_pos_trivial) simp_all
  finally have "(int (x mod M) - int (a mod M)) mod int M = int (x - a)" by (simp add: zmod_int)
  then obtain k where k: "int (x mod M) - int (a mod M) = int (x - a) + k * int M"
    by (metis add.commute mult.commute mult_div_mod_eq)
  have M: "0 < int M" using assms by simp
  have b: "0 \<le> int (x mod M)" "int (x mod M) < int M" "0 \<le> int (a mod M)" "int (a mod M) < int M" using M by simp_all
  have d: "int (x - a) < int M" using assms(2) by simp
  have "k * int M < 1 * int M" using k b d by linarith
  then have k1: "k < 1" using M by (simp only: mult_less_cancel_right)
  have "(- 2) * int M < k * int M" using k b d by linarith
  then have "- 2 < k" using M by (simp only: mult_less_cancel_right)
  then have "k = 0 \<or> k = - 1" using k1 by linarith
  then show "\<bar>int (x mod M) - int (a mod M)\<bar> = (if x mod M < a mod M then int M - int (x - a) else int (x - a))"
    "x mod M < a mod M \<longleftrightarrow> \<not> int (x mod M) - int (a mod M) = int (x - a)"
    using k d M by auto
qed

text \<open>The remainder is written to \<open>r\<close>, all digits of which are 0 before.\<close>

lemma barrett_core_spec:
  assumes x: "bn_ok s x" "trimmed s x" "\<not> sign s x" "used s x \<le> 2 * used s m"
    and m: "bn_ok s m" "trimmed s m" "\<not> sign s m" "clean s m" "0 < num s m" "used s m \<le> 39"
    and ne: "num s m \<noteq> bn_base ^ (used s m - 1)" "num s x mod num s m \<noteq> 0"
    and u: "holds s Barrett_u (bn_base ^ (2 * used s m) div num s m)"
    and rooms: "room s r" "room s (BarrettTemp 0)" "room s (BarrettTemp 1)" "room s (BarrettTemp 2)"
    and sep: "r \<noteq> m" "r \<noteq> x" "r \<noteq> Barrett_u" "r \<notin> barrett_temps" "x \<notin> barrett_temps" "m \<notin> barrett_temps"
    and blank: "\<And>j. j < 80 \<Longrightarrow> dig s r j = 0"
  shows "\<exists>s'. barrett_core r x m s = (KC_OK, s') \<and> others_than (insert r barrett_temps) s s' \<and>
    holds s' r (num s x mod num s m) \<and> clean s' r"
proof -
  let ?k = "used s m" and ?X = "num s x" and ?M = "num s m"
  let ?q1 = "BarrettTemp 0" and ?q2 = "BarrettTemp 1" and ?q3 = "BarrettTemp 2"
  have k: "0 < ?k" "sub32 ?k 1 = ?k - 1" using num_zero_iff [OF m(2)] m(5) sub32_eq [of 1 ?k] m(6) by simp_all
  define B1 B2 P where "B1 = bn_base ^ (?k - 1)" and "B2 = bn_base ^ (?k + 1)" and "P = bn_base ^ (2 * ?k)"
  have P: "P = B1 * B2" using k(1) by (simp add: P_def B1_def B2_def mult_2 flip: power_add)
  define U where "U = P div ?M"
  have u': "bn_ok s Barrett_u" "trimmed s Barrett_u" "\<not> sign s Barrett_u" "num s Barrett_u = U"
    using u by (simp_all add: holds_def U_def P_def)
  have XP: "?X < P"
    using less_le_trans [OF num_less [OF x(1)] power_increasing [OF x(4), of bn_base]] by (simp add: P_def)
  have Uless: "U < B2" unfolding U_def P_def B2_def by (rule power_quotient_less [OF m(1,2) k(1) ne(1)])
  define Q1 where "Q1 = ?X div B1"
  have Q1less: "Q1 < B2" unfolding Q1_def using XP P by (intro less_mult_imp_div_less) (simp add: mult.commute)
  \<comment> \<open>q1\<close>
  define s1 where "s1 = BNShiftDigR ?q1 x (?k - 1) s"
  have r1: "others_same ?q1 s s1" "bn_ok s1 ?q1" "trimmed s1 ?q1" "\<not> sign s1 ?q1" "num s1 ?q1 = Q1"
    using BNShiftDigR_result [OF x(1-3) rooms(2), of "?k - 1"] by (simp_all add: s1_def nat_result_def Q1_def B1_def)
  have n1: "s1 Barrett_u = s Barrett_u" "s1 x = s x" "s1 m = s m" "s1 r = s r" "s1 ?q2 = s ?q2" "s1 ?q3 = s ?q3"
    using r1(1) sep by (auto simp: others_same_def)
  note iu = same_object [of s1 Barrett_u s, OF n1(1)]
  have uq: "used s1 ?q1 \<le> ?k + 1" "used s1 Barrett_u \<le> ?k + 1"
    using used_le [OF r1(3)] r1(5) Q1less used_le [OF u'(2)] u'(4) Uless n1(1) by (simp_all add: B2_def)
  obtain st2 s2 where e2: "BNMultiplyHighDigs ?q2 ?q1 Barrett_u (?k - 1) s1 = (st2, s2)" by (rule prod.exhaust)
  define h where "h = high_product (dig s1 ?q1) (used s1 ?q1) (dig s1 Barrett_u) (used s1 Barrett_u) (?k - 1)"
  have p2: "st2 = KC_OK" "nat_result ?q2 s1 h s2"
    using BNMultiplyHighDigs_result [OF r1(2) _ _ _ _ _ _ _ e2] u' r1(4) iu n1 uq m(6) same_object(5) [of s1 ?q2 s, OF n1(5)] rooms(3)
    by (simp_all add: h_def)
  have "h \<le> Q1 * U \<and> Q1 * U \<le> h + (?k - 1) * bn_base ^ (?k - 1 + 1)"
    using high_product_bounds [of "used s1 ?q1" "dig s1 ?q1" "used s1 Barrett_u" "dig s1 Barrett_u" "?k - 1"]
      bn_ok_dig [OF r1(2)] bn_ok_dig [of s1 Barrett_u] u' iu r1(5) by (simp add: h_def num_def)
  moreover have "(?k - 1) * bn_base ^ (?k - 1 + 1) \<le> bn_base * bn_base ^ ?k"
    using k(1) m(6) by (intro mult_mono) (simp_all add: bn_base_num)
  moreover have "bn_base * bn_base ^ ?k = B2" by (simp add: B2_def power_add)
  ultimately have hb: "h \<le> Q1 * U" "Q1 * U \<le> h + B2" by linarith+
  define Q3 where "Q3 = h div B2"
  have est: "Q3 \<le> ?X div ?M" "?X div ?M \<le> Q3 + 3"
    using barrett_estimate [OF m(5) U_def P Q1_def XP Uless Q1less hb] by (simp_all add: Q3_def B1_def B2_def)
  define V where "V = ?X - Q3 * ?M"
  have QX: "Q3 * ?M \<le> ?X" using est(1) m(5) by (simp add: less_eq_div_iff_mult_less_eq)
  have "?X = Q3 * ?M + V" using QX by (simp add: V_def)
  then have Vm: "V mod ?M = ?X mod ?M" "?X div ?M = Q3 + V div ?M" using m(5) by simp_all
  have Vd: "V div ?M \<le> 3" using est(2) Vm(2) by simp
  have V0: "V \<noteq> 0" using ne(2) Vm(1) by (cases "V = 0") simp_all
  have "V < (V div ?M + 1) * ?M" using dividend_less_times_div [OF m(5), of V] by (simp add: algebra_simps)
  also have "\<dots> \<le> 4 * bn_base ^ ?k" using Vd num_less [OF m(1)] by (intro mult_mono) simp_all
  also have "\<dots> \<le> B2" by (simp add: B2_def bn_base_num power_add)
  finally have VB: "V < B2" .
  have n2: "s2 r' = s1 r'" if "r' \<noteq> ?q2" for r' using p2(2) that by (simp add: nat_result_def others_same_def)
  define sA where "sA = BNShiftDigR ?q3 ?q2 (?k + 1) s2"
  have h2: "bn_ok s2 ?q2" "trimmed s2 ?q2" "\<not> sign s2 ?q2" "num s2 ?q2 = h" using p2(2) by (simp_all add: nat_result_def)
  have A: "nat_result ?q3 s2 Q3 sA"
    using BNShiftDigR_result [OF h2(1-3), of ?q3 "?k + 1"] n2 [of ?q3] n1(6) rooms(4) same_object(5) [of s2 ?q3 s]
    by (simp add: sA_def h2(4) Q3_def B2_def)
  have nA: "sA r' = s r'" if "r' \<notin> barrett_temps" for r'
    using A n2 [of r'] r1(1) that by (simp add: nat_result_def others_same_def)
  note ixA = same_object [of sA x s, OF nA [OF sep(5)]] and imA = same_object [of sA m s, OF nA [OF sep(6)]]
  have roomA: "room sA ?q1"
    using A n2 [of ?q1] same_object(5) [of sA ?q1 s1] bn_ok_room [OF r1(2)] by (simp add: nat_result_def others_same_def)
  define s3 where "s3 = BNMod_2Pwr ?q1 x (BN_BITS * (?k + 1)) sA"
  have e28: "(2 :: nat) ^ (BN_BITS * (?k + 1)) = B2" by (simp add: B2_def bn_base_power BN_BITS_def)
  have p3: "nat_result ?q1 sA (?X mod B2) s3"
    using BNMod_2Pwr_result [of sA x ?q1 "BN_BITS * (?k + 1)"] x ixA nA [OF sep(5)] roomA unfolding e28 by (simp add: s3_def)
  have n3: "s3 r' = sA r'" if "r' \<noteq> ?q1" for r' using p3 that by (simp add: nat_result_def others_same_def)
  have q33: "bn_ok s3 ?q3" "\<not> sign s3 ?q3" "num s3 ?q3 = Q3"
    using A same_object [of s3 ?q3 sA, OF n3] n3 [of ?q3] by (simp_all add: nat_result_def)
  have sm3: "s3 m = s m" using n3 [of m] nA [OF sep(6)] sep(6) by auto
  note im3 = same_object [of s3 m s, OF sm3]
  have q23: "room s3 ?q2"
    using n3 [of ?q2] A h2(1) same_object(5) [of s3 ?q2 s2] by (simp add: nat_result_def others_same_def bn_ok_room)
  obtain st4 s4 where e4: "BNMultiply ?q2 ?q3 m (?k + 1) s3 = (st4, s4)" by (rule prod.exhaust)
  have "st4 = KC_OK \<and> nat_result ?q2 s3 ((num s3 ?q3 * num s3 m) mod bn_base ^ (?k + 1)) s4"
    by (rule BNMultiply_result [OF q33(1) _ _ q23 _ _ _ _ e4]) (use m im3 sm3 q33 sep in auto)
  then have p4: "st4 = KC_OK" "nat_result ?q2 s3 ((Q3 * ?M) mod B2) s4" by (simp_all add: q33(3) im3 B2_def)
  have n4: "s4 r' = s3 r'" if "r' \<noteq> ?q2" for r' using p4(2) that by (simp add: nat_result_def others_same_def)
  have q14: "bn_ok s4 ?q1" "trimmed s4 ?q1" "\<not> sign s4 ?q1" "num s4 ?q1 = ?X mod B2"
    using p3 same_object [of s4 ?q1 s3, OF n4] n4 [of ?q1] by (simp_all add: nat_result_def)
  have q24: "bn_ok s4 ?q2" "trimmed s4 ?q2" "\<not> sign s4 ?q2" "num s4 ?q2 = (Q3 * ?M) mod B2"
    using p4(2) by (simp_all add: nat_result_def)
  have out4: "s4 r' = s r'" if "r' \<notin> barrett_temps" for r' using that n4 [of r'] n3 [of r'] nA [of r'] by simp
  have r4: "room s4 r" "\<And>j. j < 80 \<Longrightarrow> dig s4 r j = 0"
    using same_object [of s4 r s, OF out4 [OF sep(4)]] rooms(1) blank by simp_all
  obtain st5 s5 where e5: "BNSubtract r ?q1 ?q2 s4 = (st5, s5)" by (rule prod.exhaust)
  then have e5': "BNSubtractAbs r ?q1 ?q2 s4 = (st5, s5)" using q14 q24 by (simp add: BNSubtract_def)
  note sub = BNSubtractAbs_spec [OF q14(1) q24(1) q14(2) q24(2) r4(1) e5']
  note md = mod_difference [OF QX, of B2, folded V_def, OF VB]
  have sgn: "sign s5 r \<longleftrightarrow> ?X mod B2 < (Q3 * ?M) mod B2"
    using sub(6,7) q14(3,4) q24(4) by (cases "?X mod B2 = (Q3 * ?M) mod B2") auto
  have n5: "int (num s5 r) = (if ?X mod B2 < (Q3 * ?M) mod B2 then int B2 - int V else int V)"
    using sub(5) md(1) by (simp add: q14(4) q24(4))
  have neq: "num s4 ?q1 \<noteq> num s4 ?q2"
    using md V0 VB by (auto simp: q14(4) q24(4))
  have cl5: "clean s5 r" by (rule clean_sub [OF q14(1) q24(1) q14(2) q24(2) r4(1) e5' neq]) (simp add: r4)
  have out5: "s5 r' = s4 r'" if "r' \<noteq> r" for r' using sub(2) that by (simp add: others_same_def)
  have "\<exists>s6. (if sign s5 r then
               case BNSet2Pwr ?q1 ((?k + 1) * BN_BITS) s5 of
                 (status, s) \<Rightarrow> if status \<noteq> KC_OK then (status, s) else BNAdd r r ?q1 s
             else (KC_OK, s5)) = (KC_OK, s6) \<and> others_than {r, ?q1} s5 s6 \<and> holds s6 r V \<and> clean s6 r"
  proof (cases "sign s5 r")
    case False
    then show ?thesis using sub(3,4) n5 sgn cl5 by (simp add: holds_def)
  next
    case True
    have nr: "num s5 r = B2 - V" "B2 - V < B2" using n5 sgn True VB V0 by simp_all
    obtain st7 s7 where e7: "BNSet2Pwr ?q1 ((?k + 1) * BN_BITS) s5 = (st7, s7)" by (rule prod.exhaust)
    have "?q1 \<noteq> r" using sep(4) by auto
    then have "room s5 ?q1" using out5 [of ?q1] same_object(5) [of s5 ?q1 s4] q14(1) by (simp add: bn_ok_room)
    then have p7: "st7 = KC_OK" "nat_result ?q1 s5 (2 ^ ((?k + 1) * BN_BITS)) s7"
      using BNSet2Pwr_result [OF _ e7] m(6) by (simp_all add: BN_BITS_def)
    have q17: "bn_ok s7 ?q1" "trimmed s7 ?q1" "\<not> sign s7 ?q1" "num s7 ?q1 = B2"
      using p7(2) e28 by (simp_all add: nat_result_def mult.commute)
    have sr: "s7 r = s5 r" using p7(2) \<open>?q1 \<noteq> r\<close> by (simp add: nat_result_def others_same_def)
    note ir = same_object [of s7 r s5, OF sr]
    have r7: "bn_ok s7 r" "trimmed s7 r" "sign s7 r" "num s7 r = B2 - V" "clean s7 r" using sub(3,4) ir sr True nr cl5 by simp_all
    obtain st8 s8 where e8: "BNAdd r r ?q1 s7 = (st8, s8)" by (rule prod.exhaust)
    then have e8': "BNSubtractAbs r ?q1 r s7 = (st8, s8)" using r7 q17 by (simp add: BNAdd_def)
    note add = BNSubtractAbs_spec [OF q17(1) r7(1) q17(2) r7(2) bn_ok_room [OF r7(1)] e8']
    have ne8: "num s7 ?q1 \<noteq> num s7 r" using nr(2) by (simp add: q17(4) r7(4))
    have "num s8 r = B2 - (B2 - V)" using abs_diff(1) [OF add(5)] by (simp add: q17(4) r7(4))
    then have n8: "num s8 r = V" using VB by simp
    have sg8: "\<not> sign s8 r" using add(6) [OF ne8] q17 r7 by simp
    have cl8: "clean s8 r"
      by (rule clean_sub [OF q17(1) r7(1) q17(2) r7(2) bn_ok_room [OF r7(1)] e8' ne8]) (use r7(5) in \<open>simp add: clean_def\<close>)
    have "others_than {r, ?q1} s5 s8" using p7(2) add(2) by (auto simp: nat_result_def others_than_def others_same_def)
    then show ?thesis using True e7 e8 p7(1) add(1,3,4) n8 sg8 cl8 by (simp add: holds_def)
  qed
  then obtain s6 where e6: "(if sign s5 r then
               case BNSet2Pwr ?q1 ((?k + 1) * BN_BITS) s5 of
                 (status, s) \<Rightarrow> if status \<noteq> KC_OK then (status, s) else BNAdd r r ?q1 s
             else (KC_OK, s5)) = (KC_OK, s6)" and p6: "others_than {r, ?q1} s5 s6" "holds s6 r V" "clean s6 r" by blast
  have out6: "others_than (insert r barrett_temps) s s6"
    using p6(1) out5 out4 by (auto simp: others_than_def)
  then have sm6: "s6 m = s m" using sep(1,6) by (simp add: others_than_def)
  note im6 = same_object [of s6 m s, OF sm6]
  have "\<exists>s'. barrett_loop r m 0 s6 = (KC_OK, s') \<and> others_same r s6 s' \<and> holds s' r (num s6 r mod num s6 m) \<and> clean s' r"
    by (rule barrett_loop_spec) (use p6 m im6 sm6 sep(1) Vm Vd ne(2) in \<open>simp_all add: holds_def\<close>)
  then obtain s7 where e7: "barrett_loop r m 0 s6 = (KC_OK, s7)" "others_same r s6 s7" "holds s7 r (num s6 r mod num s6 m)" "clean s7 r" by blast
  have "holds s7 r (?X mod ?M)" using e7(3) p6(2) im6 Vm(1) by (simp add: holds_def)
  moreover have "others_than (insert r barrett_temps) s s7" using out6 e7(2) by (simp add: others_than_def others_same_def)
  moreover have "barrett_core r x m s = (KC_OK, s7)"
    unfolding barrett_core_def Let_def k(2) s1_def [symmetric] e2 prod.case p2(1) sA_def [symmetric] s3_def [symmetric] e4 p4(1) e5 sub(1) e6
    by (simp add: e7(1))
  ultimately show ?thesis using e7(4) by blast
qed

lemma BNBarrettReduce_spec:
  assumes x: "bn_ok s x" "trimmed s x" "\<not> sign s x" "clean s x" "used s x \<le> 2 * used s m"
    and m: "bn_ok s m" "trimmed s m" "\<not> sign s m" "clean s m" "0 < num s m" "used s m \<le> 39"
    and ne: "num s m \<noteq> bn_base ^ (used s m - 1)" "num s x < num s m \<or> num s x mod num s m \<noteq> 0"
    and u: "holds s Barrett_u (bn_base ^ (2 * used s m) div num s m)"
    and rooms: "room s r" "room s (BarrettTemp 0)" "room s (BarrettTemp 1)" "room s (BarrettTemp 2)"
    and sep: "r \<noteq> m" "r \<noteq> x" "r \<noteq> Barrett_u" "r \<notin> barrett_temps" "x \<notin> barrett_temps" "m \<notin> barrett_temps"
    and blank: "\<And>j. j < 80 \<Longrightarrow> dig s r j = 0"
  shows "\<exists>s'. BNBarrettReduce r x m s = (KC_OK, s') \<and> others_than (insert r barrett_temps) s s' \<and>
    holds s' r (num s x mod num s m) \<and> clean s' r"
proof (cases "num s x < num s m")
  case True
  then have "BNBarrettReduce r x m s = (KC_OK, BNCopy r x s)"
    using BNSecureCompare_spec [OF x(1) m(1) x(4) m(4)] x(5) by (simp add: BNBarrettReduce_def)
  then show ?thesis
    using BNCopy_result [OF x(1-3), of r] at_object [of "BNCopy r x s" r s x] x True others_than_same [of r s _ "insert r barrett_temps"]
    by (auto simp: nat_result_def holds_def)
next
  case False
  then have "BNSecureCompare x m s \<noteq> BN_SMALLER" using BNSecureCompare_spec [OF x(1) m(1) x(4) m(4)] by simp
  moreover obtain s1 where c: "barrett_core r x m s = (KC_OK, s1)" "others_than (insert r barrett_temps) s s1"
    "holds s1 r (num s x mod num s m)" "clean s1 r"
    using barrett_core_spec [OF x(1-3,5) m ne(1) _ u rooms sep blank] ne(2) False by blast
  ultimately have "BNBarrettReduce r x m s = (KC_OK, s1)"
    using x(5) BNTRIM_eq [of s1 r] by (simp add: BNBarrettReduce_def holds_def)
  then show ?thesis using c by blast
qed

declare One_nat_def [simp]

end
