(* ===== verification/Sev_BigNumBytes.thy ===== *)
theory Sev_BigNumBytes
  imports Sev_BigNumReduce
begin

text \<open>
  Loading a number from octets and storing it: \<open>BNLoad\<close> reads the value of the octets, \<open>BNStore\<close>
  writes the low bits of the number, which need not be all of them.
\<close>

section \<open>Little-endian values\<close>

fun le_val :: "u8 list \<Rightarrow> nat" where
  "le_val [] = 0"
| "le_val (b # bs) = unat b + 256 * le_val bs"

lemma le_val_append: "le_val (xs @ ys) = le_val xs + 256 ^ length xs * le_val ys"
  by (induction xs) (simp_all add: algebra_simps)

lemma le_val_less: "le_val bs < 256 ^ length bs"
proof (induction bs)
  case (Cons b bs)
  have "unat b < 256" using unsigned_less [of b, where ?'a = nat] by simp
  then show ?case using Cons mult_add_less [of "le_val bs" "256 ^ length bs" "unat b" 256] by (simp add: mult.commute add.commute)
qed simp

lemma byte_split:
  fixes x y a b :: nat
  assumes "x < 256" "y < 256" shows "x + 256 * a = y + 256 * b \<longleftrightarrow> x = y \<and> a = b"
proof
  assume e: "x + 256 * a = y + 256 * b"
  have "x = (x + 256 * a) mod 256" "y = (y + 256 * b) mod 256" using assms by simp_all
  then show "x = y \<and> a = b" using e by simp
qed simp

lemma le_val_inj: "length a = length b \<Longrightarrow> le_val a = le_val b \<longleftrightarrow> a = b"
proof (induction a b rule: list_induct2)
  case (Cons x xs y ys)
  have "unat x < 256" "unat y < 256" using unsigned_less [of x, where ?'a = nat] unsigned_less [of y, where ?'a = nat] by simp_all
  then show ?case using Cons byte_split [of "unat x" "unat y" "le_val xs" "le_val ys"] by (simp add: word_unat_eq_iff)
qed simp

fun val32 :: "u32 list \<Rightarrow> nat" where
  "val32 [] = 0"
| "val32 (w # ws) = unat w + 2 ^ 32 * val32 ws"

lemma unat_u8_u32: "unat (ucast b :: u32) = unat b" for b :: u8
  by (simp add: unsigned_ucast_eq take_bit_nat_eq_self less_trans [OF unsigned_less])

lemma or_shift_add:
  fixes a b :: u32 assumes "unat a < 2 ^ n" "unat b < 2 ^ (32 - n)" "n \<le> 32"
  shows "unat (a OR push_bit n b) = unat a + unat b * 2 ^ n"
proof -
  have "a AND push_bit n b = 0"
  proof (rule bit_word_eqI)
    fix i assume "i < LENGTH(32)"
    show "bit (a AND push_bit n b) i = bit (0 :: u32) i"
    proof (cases "n \<le> i")
      case True
      have "take_bit n (unat a) = unat a" using assms(1) by (simp add: take_bit_nat_eq_self)
      then have "bit (unat a) i = bit (take_bit n (unat a)) i" by simp
      then have "\<not> bit a i" using True by (simp add: bit_take_bit_iff bit_unsigned_iff)
      then show ?thesis by (simp add: bit_and_iff)
    qed (simp add: bit_and_iff bit_push_bit_iff)
  qed
  then have "a OR push_bit n b = a + push_bit n b" by (rule disjunctive_add_eq_or [symmetric])
  moreover have less: "unat b * 2 ^ n + unat a < 2 ^ 32"
    using mult_add_less [OF assms(2,1)] assms(3) by (simp flip: power_add)
  moreover from this have "unat (push_bit n b) = unat b * 2 ^ n"
    by (simp only: unsigned_push_bit_eq) (simp add: push_bit_eq_mult take_bit_nat_eq_self)
  ultimately show ?thesis using unat_add_small [of a "push_bit n b"] by simp
qed

lemma unat_u8: "unat b < 2 ^ 8" for b :: u8
  by (rule less_le_trans [OF unsigned_less]) simp

lemma le32_val: "unat (le32 [a, b, c, d]) = unat a + 2 ^ 8 * unat b + 2 ^ 16 * unat c + 2 ^ 24 * unat d"
proof -
  note small = unat_u8 [of a] unat_u8 [of b] unat_u8 [of c] unat_u8 [of d]
  let ?x = "ucast a OR push_bit 8 (ucast b) :: u32"
  have x: "unat ?x = unat a + unat b * 2 ^ 8" using small by (subst or_shift_add) (simp_all add: unat_u8_u32)
  let ?y = "?x OR push_bit 16 (ucast c)"
  have y: "unat ?y = unat a + unat b * 2 ^ 8 + unat c * 2 ^ 16" using small x by (subst or_shift_add) (simp_all add: unat_u8_u32)
  have "unat (?y OR push_bit 24 (ucast d)) = unat a + unat b * 2 ^ 8 + unat c * 2 ^ 16 + unat d * 2 ^ 24"
    using small y by (subst or_shift_add) (simp_all add: unat_u8_u32)
  then show ?thesis by (simp add: le32_def or.assoc)
qed

lemma words32_val: "length bs mod 4 = 0 \<Longrightarrow> val32 (words32 bs) = le_val bs \<and> 4 * length (words32 bs) = length bs"
proof (induction bs rule: words32.induct)
  case (1 a b c d bs)
  then have "length bs mod 4 = 0" by (simp add: mod_Suc split: if_splits)
  then show ?case using 1 by (simp add: le32_val)
qed simp_all

section \<open>Loading\<close>

declare load_loop.simps [simp del]

lemma load_digit:
  fixes w t :: u32
  assumes "unat t < 2 ^ (4 * j)" "j \<le> 6"
  shows "unat ((push_bit (4 * j) w + t) AND BN_MASK) + bn_base * unat (drop_bit (BN_BITS - 4 * j) w) = unat t + 2 ^ (4 * j) * unat w"
    "unat (drop_bit (BN_BITS - 4 * j) w) < 2 ^ (4 * (j + 1))"
proof -
  have c: "(28 :: nat) - 4 * j + 4 * j = 28" "(28 - 4 * j) + 4 * (j + 1) = 32" using assms(2) by simp_all
  have h: "unat (drop_bit (BN_BITS - 4 * j) w) = unat w div 2 ^ (28 - 4 * j)"
    by (simp only: unsigned_drop_bit_eq BN_BITS_def) (simp add: drop_bit_eq_div take_bit_nat_eq_self unat_u32 [simplified])
  have "unat w < 2 ^ (4 * (j + 1)) * 2 ^ (28 - 4 * j)" using unat_u32 [of w] c(2) by (simp flip: power_add)
  then show "unat (drop_bit (BN_BITS - 4 * j) w) < 2 ^ (4 * (j + 1))" unfolding h by (rule less_mult_imp_div_less)
  have "unat (push_bit (4 * j) w + t) = (2 ^ (4 * j) * unat w + unat t) mod 2 ^ 32"
  proof -
    have "unat (push_bit (4 * j) w) = (2 ^ (4 * j) * unat w) mod 2 ^ 32"
      by (simp only: unsigned_push_bit_eq) (simp add: push_bit_eq_mult take_bit_eq_mod mult.commute)
    then show ?thesis by (simp only: unat_word_ariths(1)) (simp add: mod_add_left_eq)
  qed
  then have "unat ((push_bit (4 * j) w + t) AND BN_MASK) = (2 ^ (4 * j) * unat w + unat t) mod 2 ^ 32 mod 2 ^ 28"
    by (simp add: bn_base_def)
  also have "\<dots> = (2 ^ (4 * j) * unat w + unat t) mod 2 ^ 28" by (rule mod_mod_cancel) simp
  finally have m: "unat ((push_bit (4 * j) w + t) AND BN_MASK) = (2 ^ (4 * j) * unat w + unat t) mod bn_base" by (simp add: bn_base_def)
  have b: "bn_base = 2 ^ (4 * j) * 2 ^ (28 - 4 * j)" using c(1) by (simp add: bn_base_def flip: power_add)
  have "(2 ^ (4 * j) * unat w + unat t) div bn_base = unat w div 2 ^ (28 - 4 * j)"
    unfolding b div_mult2_eq using assms(1) by simp
  then show "unat ((push_bit (4 * j) w + t) AND BN_MASK) + bn_base * unat (drop_bit (BN_BITS - 4 * j) w) = unat t + 2 ^ (4 * j) * unat w"
    unfolding m h by (metis add.commute mod_mult_div_eq)
qed

lemma load_last:
  assumes "unat t < 2 ^ 28"
  shows "unat ((push_bit 28 w + t) AND BN_MASK) = unat t"
proof -
  have "unat (push_bit 28 w + t) mod 2 ^ 28 = (2 ^ 28 * unat w + unat t) mod 2 ^ 32 mod 2 ^ 28"
  proof -
    have "unat (push_bit 28 w) = (2 ^ 28 * unat w) mod 2 ^ 32"
      by (simp only: unsigned_push_bit_eq) (simp add: push_bit_eq_mult take_bit_eq_mod mult.commute)
    then show ?thesis by (simp only: unat_word_ariths(1)) (simp add: mod_add_left_eq)
  qed
  also have "\<dots> = (2 ^ 28 * unat w + unat t) mod 2 ^ 28" by (rule mod_mod_cancel) simp
  also have "\<dots> = unat t" using assms by simp
  finally show ?thesis by (simp add: bn_base_def)
qed

text \<open>From here on: \<open>i\<close> digits are written, \<open>t\<close> holds the next \<open>4 * j\<close> bits.\<close>

lemma load_loop_spec:
  assumes "load_loop r ws i j t s = (n, s')" "ws \<noteq> []" "j \<le> 7" "unat t < 2 ^ (4 * j)"
    and "written r i s0 s" "room s0 r" "28 * i + 4 * j + 32 * length ws \<le> 28 * 79"
  shows "n \<le> 80 \<and> written r n s0 s' \<and> bval (dig s' r) n = bval (dig s r) i + bn_base ^ i * (unat t + 2 ^ (4 * j) * val32 ws)"
  using assms
proof (induction r ws i j t s rule: load_loop.induct)
  case (2 r w ws i j t s)
  define m where "m = (push_bit (4 * j) w + t) AND BN_MASK"
  define t1 where "t1 = drop_bit (BN_BITS - 4 * j) w"
  define s1 where "s1 = put_dig r i m s"
  have i: "i + 1 < 80" using "2.prems"(2,7) by (cases ws) simp_all
  have mb: "unat m < bn_base" by (simp add: m_def)
  have w1: "written r (Suc i) s0 s1" "bval (dig s1 r) (Suc i) = bval (dig s r) i + unat m * bn_base ^ i"
    unfolding s1_def by (rule written_put [OF "2.prems"(5,6) _ mb]; use i in simp)+
  note IH = "2.IH" [OF s1_def [unfolded m_def] t1_def]
  note unf = load_loop.simps(2) [of r w ws i j t s, folded m_def t1_def, unfolded Let_def, folded s1_def]
  show ?case
  proof (cases "j = 7")
    case True
    have mt: "unat m = unat t" using load_last [of t w] "2.prems"(4) True by (simp add: m_def)
    have "n \<le> 80 \<and> written r n s0 s' \<and>
        bval (dig s' r) n = bval (dig s1 r) (i + 1) + bn_base ^ (i + 1) * (unat (0 :: u32) + 2 ^ (4 * 0) * val32 (w # ws))"
      by (rule IH(1)) (use True "2.prems"(1,6,7) unf w1 in simp_all)
    then show ?thesis
      using w1(2) mt True by (simp add: algebra_simps bn_base_num del: bval_Suc val32.simps)
  next
    case False
    then have j: "j \<le> 6" using "2.prems"(3) by simp
    note d = load_digit [OF "2.prems"(4) j, of w, folded m_def t1_def]
    show ?thesis
    proof (cases "ws = []")
      case last: True
      have eq: "bval (dig s1 r) (Suc i) + unat t1 * bn_base ^ Suc i = bval (dig s r) i + bn_base ^ i * (unat t + 2 ^ (4 * j) * unat w)"
        unfolding w1(2) d(1) [symmetric] by (simp add: algebra_simps)
      show ?thesis
      proof (cases "t1 = 0")
        case True
        then have "n = i + 1" "s' = s1" using "2.prems"(1) unf False last by simp_all
        then show ?thesis using w1(1) eq True last i by simp
      next
        case nz: False
        have "(2 :: nat) ^ (4 * (j + 1)) \<le> 2 ^ 28" using j by (intro power_increasing) simp_all
        then have "unat t1 < bn_base" using d(2) by (simp add: bn_base_def)
        then have tm: "unat (t1 AND BN_MASK) = unat t1" "unat (t1 AND BN_MASK) < bn_base" by simp_all
        have "n = i + 2" "s' = put_dig r (i + 1) (t1 AND BN_MASK) s1" using "2.prems"(1) unf False last nz by simp_all
        then show ?thesis
          using written_put [OF w1(1) "2.prems"(6) _ tm(2)] eq tm(1) last i by simp
      qed
    next
      case more: False
      have A: "n \<le> 80 \<and> written r n s0 s' \<and>
          bval (dig s' r) n = bval (dig s1 r) (i + 1) + bn_base ^ (i + 1) * (unat t1 + 2 ^ (4 * (j + 1)) * val32 ws)"
        by (rule IH(2)) (use False more j "2.prems"(1,6,7) unf w1 d(2) in simp_all)
      have "(2 :: nat) ^ (4 * j) * 2 ^ 32 = bn_base * 2 ^ (4 * (j + 1))" by (simp add: bn_base_def power_add)
      then have C: "bn_base ^ i * (2 ^ (4 * j) * (2 ^ 32 * val32 ws)) = bn_base ^ (i + 1) * (2 ^ (4 * (j + 1)) * val32 ws)"
        by (metis mult.assoc power_Suc2 Suc_eq_plus1)
      have D: "bval (dig s1 r) (i + 1) + bn_base ^ (i + 1) * unat t1 = bval (dig s r) i + bn_base ^ i * (unat t + 2 ^ (4 * j) * unat w)"
        using w1(2) unfolding d(1) [symmetric] by (simp add: algebra_simps)
      have "bn_base ^ i * (unat t + 2 ^ (4 * j) * val32 (w # ws)) =
          bn_base ^ i * (unat t + 2 ^ (4 * j) * unat w) + bn_base ^ i * (2 ^ (4 * j) * (2 ^ 32 * val32 ws))"
        by (simp only: val32.simps distrib_left add.assoc)
      also have "bval (dig s r) i + \<dots> = bval (dig s1 r) (i + 1) + bn_base ^ (i + 1) * (unat t1 + 2 ^ (4 * (j + 1)) * val32 ws)"
        unfolding C using D by (simp only: distrib_left)
      finally show ?thesis using A by simp
    qed
  qed
qed simp

lemma BNLoad_spec:
  assumes "data \<noteq> []" "length data mod 4 = 0" "length data \<le> 276"
  shows "\<exists>s'. BNLoad r data s = Some (KC_OK, s') \<and> others_same r s s' \<and> holds s' r (le_val data) \<and> clean s' r"
proof -
  define s2 where "s2 = (BN_ZERO r s)(r := (BN_ZERO r s r)\<lparr>bn_data := replicate MAX_BN_ELEMENTS 0\<rparr>)"
  have s2: "others_same r s s2" "room s2 r" "\<And>j. j < 80 \<Longrightarrow> dig s2 r j = 0" "\<not> sign s2 r"
    by (simp_all add: s2_def others_same_def BN_ZERO_def room_def MAX_BN_ELEMENTS_def dig_def set_sign_def set_used_def)
  note w = words32_val [OF assms(2)]
  have ne: "words32 data \<noteq> []" using w assms(1) by auto
  obtain n s3 where l: "load_loop r (words32 data) 0 0 0 s2 = (n, s3)" by (rule prod.exhaust)
  have "n \<le> 80 \<and> written r n s2 s3 \<and> bval (dig s3 r) n = bval (dig s2 r) 0 + bn_base ^ 0 * (unat (0 :: u32) + 2 ^ (4 * 0) * val32 (words32 data))"
    by (rule load_loop_spec [OF l ne]) (use s2 w assms(3) in simp_all)
  then have p: "n \<le> 80" "written r n s2 s3" "bval (dig s3 r) n = le_val data" using w by simp_all
  define s4 where "s4 = set_used r n s3"
  have "\<not> length data div 7 * 2 + 2 > MAX_BN_ELEMENTS" using assms(3) by (simp add: MAX_BN_ELEMENTS_def)
  then have run: "BNLoad r data s = Some (KC_OK, BNTRIM r s4)"
    using assms l by (simp add: BNLoad_def Let_def s4_def flip: s2_def)
  have d: "digits_only r s2 s3" using p(2) by (simp add: written_def)
  have "bn_ok s4 r" "num s4 r = le_val data" "\<not> sign s4 r" "others_same r s s4"
    using p digits_only_room [OF d, of r] digits_only_used [OF d] others_same_trans [OF s2(1) digits_only_others [OF d]] s2
    by (simp_all add: bn_ok_def num_def s4_def written_def room_def)
  moreover have "clean (BNTRIM r s4) r"
    unfolding clean_def
  proof (intro allI impI)
    fix j assume j: "used (BNTRIM r s4) r \<le> j" "j < 80"
    show "dig (BNTRIM r s4) r j = 0"
      using BNTRIM_zeros [OF j(1)] p(2) s2(3) [OF j(2)] by (cases "j < n") (simp_all add: s4_def written_def)
  qed
  ultimately show ?thesis using run by (auto simp: holds_def BNTRIM_ok BNTRIM_trimmed BNTRIM_num)
qed

section \<open>Storing\<close>

text \<open>Bytes at offset \<open>p\<close>.\<close>

lemma unat_ucast8: "unat (ucast (drop_bit k w) :: u8) = unat w div 2 ^ k mod 256" for w :: u32
proof -
  have "unat (drop_bit k w) = unat w div 2 ^ k"
    by (simp only: unsigned_drop_bit_eq) (simp add: drop_bit_eq_div take_bit_nat_eq_self unat_u32 [simplified])
  then show ?thesis by (simp add: unsigned_ucast_eq take_bit_eq_mod)
qed

lemma le_val_bytes32: "le_val (bytes32 w) = unat w"
proof -
  define a1 a2 a3 where "a1 = unat w div 256" and "a2 = a1 div 256" and "a3 = a2 div 256"
  have "unat w = unat w mod 256 + 256 * a1" "a1 = a1 mod 256 + 256 * a2" "a2 = a2 mod 256 + 256 * a3"
    by (simp_all add: a1_def a2_def a3_def)
  moreover have "a3 = unat w div 2 ^ 24" by (simp add: a3_def a2_def a1_def flip: div_mult2_eq)
  then have "a3 < 256" using less_mult_imp_div_less [of "unat w" 256 "2 ^ 24"] unat_u32 [of w] by simp
  ultimately have "unat w = unat w mod 256 + 256 * (a1 mod 256) + 65536 * (a2 mod 256) + 16777216 * (a3 mod 256)" by simp
  moreover have "a1 = unat w div 256" "a2 = unat w div 65536" "a3 = unat w div 16777216"
    by (simp_all add: a1_def a2_def a3_def flip: div_mult2_eq)
  ultimately have "unat w = unat w mod 256 + 256 * (unat w div 256 mod 256) + 65536 * (unat w div 65536 mod 256) + 16777216 * (unat w div 16777216 mod 256)"
    by simp
  then show ?thesis
    using unat_ucast8 [of 0 w] unat_ucast8 [of 8 w] unat_ucast8 [of 16 w] unat_ucast8 [of 24 w]
    by (simp add: bytes32_def)
qed

lemma put_word_take:
  assumes "p + 4 \<le> length out"
  shows "length (put_word p w out) = length out" "take p (put_word p w out) = take p out"
    "le_val (take (p + 4) (put_word p w out)) = le_val (take p out) + 256 ^ p * unat w"
    "drop (p + 4) (put_word p w out) = drop (p + 4) out"
proof -
  have l: "length (bytes32 w) = 4" by (simp add: bytes32_def)
  show "length (put_word p w out) = length out" "take p (put_word p w out) = take p out" "drop (p + 4) (put_word p w out) = drop (p + 4) out"
    using assms l by (simp_all add: put_word_def)
  have "take (p + 4) (put_word p w out) = take p out @ bytes32 w" using assms l by (simp add: put_word_def)
  then show "le_val (take (p + 4) (put_word p w out)) = le_val (take p out) + 256 ^ p * unat w"
    using assms by (simp add: le_val_append le_val_bytes32)
qed

text \<open>The number of octets that the digits up to \<open>lm\<close> write.\<close>

definition bytes_stored :: "nat \<Rightarrow> nat" where
  "bytes_stored lm = 28 * (lm div 8) + 4 * (lm mod 8) + (if lm mod 8 = 0 \<and> 0 < lm then 4 else 0)"

lemma bytes_stored_room:
  assumes "8 * c + j < lm" "j \<le> 7" shows "28 * c + 4 * j + 4 \<le> bytes_stored lm"
proof -
  define C J where "C = lm div 8" and "J = lm mod 8"
  have lm: "lm = 8 * C + J" "J < 8" by (simp_all add: C_def J_def)
  show ?thesis
  proof (cases "J = 0")
    case True
    then have "c < C" using assms lm by simp
    then show ?thesis using assms lm True by (simp add: bytes_stored_def C_def [symmetric] J_def [symmetric])
  next
    case False
    then have "c < C \<or> c = C \<and> j < J" using assms lm by linarith
    then show ?thesis using assms False by (auto simp: bytes_stored_def C_def [symmetric] J_def [symmetric])
  qed
qed

lemma store_word:
  fixes d :: "nat \<Rightarrow> u32" assumes "j \<le> 6" "unat (d i) < bn_base" "unat (d (i + 1)) < bn_base"
  shows "unat (drop_bit (4 * j) (d i) + push_bit (BN_BITS - 4 * j) (d (i + 1) AND (push_bit (4 * (j + 1)) 1 - 1))) =
    unat (d i) div 2 ^ (4 * j) + unat (d (i + 1)) mod 2 ^ (4 * (j + 1)) * 2 ^ (28 - 4 * j)"
proof -
  have c: "4 * (j + 1) + (28 - 4 * j) = 32" "28 - 4 * j + 4 * j = 28" using assms(1) by simp_all
  have lo: "unat (drop_bit (4 * j) (d i)) = unat (d i) div 2 ^ (4 * j)"
    by (simp only: unsigned_drop_bit_eq) (simp add: drop_bit_eq_div take_bit_nat_eq_self unat_u32 [simplified])
  have "unat (d i) < 2 ^ (28 - 4 * j) * 2 ^ (4 * j)" using assms(2) c(2) by (simp add: bn_base_def flip: power_add)
  then have lob: "unat (d i) div 2 ^ (4 * j) < 2 ^ (28 - 4 * j)" by (rule less_mult_imp_div_less)
  have m: "unat (d (i + 1) AND (push_bit (4 * (j + 1)) 1 - 1)) = unat (d (i + 1)) mod 2 ^ (4 * (j + 1))"
    by (simp only: push_bit_of_1 mask_eq_exp_minus_1 [symmetric] take_bit_eq_mask [symmetric] unsigned_take_bit_eq)
      (simp only: take_bit_eq_mod)
  have "unat (d (i + 1)) mod 2 ^ (4 * (j + 1)) < 2 ^ (4 * (j + 1))" by simp
  then have t: "unat (d (i + 1)) mod 2 ^ (4 * (j + 1)) * 2 ^ (28 - 4 * j) + unat (d i) div 2 ^ (4 * j) < 2 ^ 32"
    using mult_add_less [OF _ lob, of "unat (d (i + 1)) mod 2 ^ (4 * (j + 1))" "2 ^ (4 * (j + 1))"] c(1) by (simp flip: power_add)
  then have hi: "unat (push_bit (BN_BITS - 4 * j) (d (i + 1) AND (push_bit (4 * (j + 1)) 1 - 1))) =
      unat (d (i + 1)) mod 2 ^ (4 * (j + 1)) * 2 ^ (28 - 4 * j)"
    by (simp only: unsigned_push_bit_eq m BN_BITS_def) (simp add: push_bit_eq_mult take_bit_nat_eq_self)
  have "unat (drop_bit (4 * j) (d i)) + unat (push_bit (BN_BITS - 4 * j) (d (i + 1) AND (push_bit (4 * (j + 1)) 1 - 1))) < 2 ^ 32"
    unfolding lo hi using t by (simp only: add.commute)
  from unat_add_small [OF this] show ?thesis unfolding lo hi .
qed

declare store_loop.simps [simp del]

lemma store_loop_spec:
  assumes "i \<le> lm" "i = 8 * c + j" "j \<le> 7" "p = 28 * c + 4 * j" "len = length out - p" "bytes_stored lm \<le> length out"
    and "\<And>j. j \<le> lm \<Longrightarrow> unat (d j) < bn_base"
    and "le_val (take p out) = bval d i + unat (d i) mod 2 ^ (4 * j) * bn_base ^ i"
    and "j = 0 \<Longrightarrow> 0 < i \<Longrightarrow> le_val (take (p + 4) out) = bval d (i + 1)"
  shows "\<exists>out'. store_loop d lm i j p len out = (KC_OK, out') \<and> length out' = length out \<and>
    le_val (take (bytes_stored lm) out') = bval d (lm + 1) mod 256 ^ bytes_stored lm \<and>
    drop (bytes_stored lm) out' = drop (bytes_stored lm) out"
  using assms
proof (induction "lm - i" arbitrary: i j c p len out)
  case 0
  then have i: "i = lm" by simp
  have q: "bytes_stored lm = p + (if j = 0 \<and> 0 < lm then 4 else 0)"
    using 0(3-5) i by (auto simp: bytes_stored_def)
  have "(256 :: nat) ^ p = 2 ^ (8 * p)" by (simp add: power_mult)
  also have "8 * p = 28 * lm + 4 * j" using 0(3,5) i by simp
  finally have e: "256 ^ p = bn_base ^ lm * 2 ^ (4 * j)" by (simp add: bn_base_power power_add)
  have "le_val (take (bytes_stored lm) out) = bval d (lm + 1) mod 256 ^ bytes_stored lm"
  proof (cases "j = 0 \<and> 0 < lm")
    case True
    have "bval d (lm + 1) < bn_base ^ (lm + 1)" using 0(8) by (intro bval_less) simp
    also have "\<dots> \<le> 256 ^ (p + 4)" using e True by (simp add: power_add bn_base_num)
    finally show ?thesis using 0(10) True i by (simp add: q)
  next
    case False
    have low: "bval d lm < bn_base ^ lm" using 0(8) by (intro bval_less) simp
    have "bval d (lm + 1) mod 256 ^ p = bval d lm + unat (d lm) mod 2 ^ (4 * j) * bn_base ^ lm"
      unfolding e mod_mult2_eq using low by simp
    then show ?thesis using 0(9) False i by (auto simp: q)
  qed
  moreover have "store_loop d lm i j p len out = (KC_OK, out)" using i by (simp add: store_loop.simps)
  ultimately show ?case by simp
next
  case (Suc k)
  then have i: "i < lm" by simp
  have p4: "p + 4 \<le> bytes_stored lm" using bytes_stored_room [of c j lm] i Suc.prems by simp
  then have room: "p + 4 \<le> length out" "len \<noteq> 0" using Suc.prems(5,6) by simp_all
  have "(256 :: nat) ^ p = 2 ^ (8 * p)" by (simp add: power_mult)
  also have "8 * p = 28 * i + 4 * j" using Suc.prems(2,4) by simp
  finally have e: "256 ^ p = bn_base ^ i * 2 ^ (4 * j)" by (simp add: bn_base_power power_add)
  have di: "unat (d i) < bn_base" "unat (d (i + 1)) < bn_base" using Suc.prems(7) i by simp_all
  show ?case
  proof (cases "j = 7")
    case True
    define w where "w = drop_bit 28 (d i) + d (i + 1)"
    have "unat (drop_bit 28 (d i)) = 0" using di(1) by (simp add: bn_base_num drop_bit_eq_div unat_div)
    then have w: "w = d (i + 1)" by (simp add: w_def unat_eq_0)
    note pw = put_word_take [OF room(1), of w]
    have full: "le_val (take p out) = bval d (i + 1)" using Suc.prems(8) True di by (simp add: bn_base_num)
    have e28: "256 ^ p = bn_base ^ (i + 1)" unfolding e using True by (simp add: bn_base_num)
    have full2: "le_val (take (p + 4) (put_word p w out)) = bval d (i + 1 + 1)"
      using pw(3) full e28 by (simp add: w)
    have run: "store_loop d lm i j p len out = store_loop d lm (i + 1) 0 p len (put_word p w out)"
      using i True room(2) by (subst store_loop.simps) (simp add: w_def)
    have "\<exists>out'. store_loop d lm (i + 1) 0 p len (put_word p w out) = (KC_OK, out') \<and> length out' = length (put_word p w out) \<and>
      le_val (take (bytes_stored lm) out') = bval d (lm + 1) mod 256 ^ bytes_stored lm \<and>
      drop (bytes_stored lm) out' = drop (bytes_stored lm) (put_word p w out)"
      by (rule Suc.hyps(1) [where c = "c + 1"])
        (use Suc.hyps(2) Suc.prems(1-7) i True pw(1,2) full full2 in \<open>simp_all del: bval_Suc power_Suc\<close>)
    moreover have "drop (bytes_stored lm) (put_word p w out) = drop (bytes_stored lm) out"
      using pw(4) p4 by (metis drop_drop le_add_diff_inverse2)
    ultimately show ?thesis using run pw(1) by simp
  next
    case False
    then have j: "j \<le> 6" using Suc.prems(3) by simp
    define w where "w = drop_bit (4 * j) (d i) + push_bit (BN_BITS - 4 * j) (d (i + 1) AND (push_bit (4 * (j + 1)) 1 - 1))"
    have w: "unat w = unat (d i) div 2 ^ (4 * j) + unat (d (i + 1)) mod 2 ^ (4 * (j + 1)) * 2 ^ (28 - 4 * j)"
      unfolding w_def by (rule store_word [OF j di])
    note pw = put_word_take [OF room(1), of w]
    have b: "bn_base = 2 ^ (4 * j) * 2 ^ (28 - 4 * j)" using j by (simp add: bn_base_def flip: power_add)
    have "le_val (take (p + 4) (put_word p w out)) =
        bval d i + (unat (d i) mod 2 ^ (4 * j) + 2 ^ (4 * j) * (unat (d i) div 2 ^ (4 * j))) * bn_base ^ i +
        unat (d (i + 1)) mod 2 ^ (4 * (j + 1)) * (bn_base ^ i * (2 ^ (4 * j) * 2 ^ (28 - 4 * j)))"
      unfolding pw(3) Suc.prems(8) w e by (simp only: distrib_left distrib_right ac_simps)
    also have "\<dots> = bval d (i + 1) + unat (d (i + 1)) mod 2 ^ (4 * (j + 1)) * bn_base ^ (i + 1)"
      unfolding b [symmetric] mod_mult_div_eq by simp
    finally have full: "le_val (take (p + 4) (put_word p w out)) =
        bval d (i + 1) + unat (d (i + 1)) mod 2 ^ (4 * (j + 1)) * bn_base ^ (i + 1)" .
    have run: "store_loop d lm i j p len out = store_loop d lm (i + 1) (j + 1) (p + 4) (len - 4) (put_word p w out)"
      using i False room(2) by (subst store_loop.simps) (simp add: w_def)
    have "\<exists>out'. store_loop d lm (i + 1) (j + 1) (p + 4) (len - 4) (put_word p w out) = (KC_OK, out') \<and>
      length out' = length (put_word p w out) \<and>
      le_val (take (bytes_stored lm) out') = bval d (lm + 1) mod 256 ^ bytes_stored lm \<and>
      drop (bytes_stored lm) out' = drop (bytes_stored lm) (put_word p w out)"
      by (rule Suc.hyps(1) [where c = c])
        (use Suc.hyps(2) Suc.prems i j pw(1) full in \<open>simp_all del: bval_Suc power_Suc\<close>)
    moreover have "drop (bytes_stored lm) (put_word p w out) = drop (bytes_stored lm) out"
      using pw(4) p4 by (metis drop_drop le_add_diff_inverse2)
    ultimately show ?thesis using run pw(1) by simp
  qed
qed

text \<open>What is stored of a number: as many of its low octets as its digits give. One of a single digit
  stores nothing.\<close>

lemma BNStore_spec:
  assumes n: "holds s r n" "0 < n" and out: "length out mod 4 = 0" "bytes_stored (used s r - 1) \<le> length out"
  shows "\<exists>out' s'. BNStore r out s = (KC_OK, out', s') \<and> length out' = length out \<and>
    le_val (take (bytes_stored (used s r - 1)) out') = n mod 256 ^ bytes_stored (used s r - 1) \<and>
    drop (bytes_stored (used s r - 1)) out' = drop (bytes_stored (used s r - 1)) out"
proof -
  have ok: "bn_ok s r" "trimmed s r" "num s r = n" using n by (simp_all add: holds_def)
  let ?m = "used s r - 1"
  have u: "0 < used s r" using num_zero_iff [OF ok(2)] ok(3) n(2) by simp
  then have m: "sub32 (used s r) 1 = ?m" "?m + 1 = used s r" "used s r \<le> 80"
    using sub32_eq [of 1 "used s r"] ok(1) by (simp_all add: bn_ok_def)
  have "\<exists>out'. store_loop (dig s r) ?m 0 0 0 (length out) out = (KC_OK, out') \<and> length out' = length out \<and>
    le_val (take (bytes_stored ?m) out') = bval (dig s r) (?m + 1) mod 256 ^ bytes_stored ?m \<and>
    drop (bytes_stored ?m) out' = drop (bytes_stored ?m) out"
    by (rule store_loop_spec [where c = 0]) (use out bn_ok_dig [OF ok(1)] u in simp_all)
  then obtain out' where o: "store_loop (dig s r) ?m 0 0 0 (length out) out = (KC_OK, out')" "length out' = length out"
    "le_val (take (bytes_stored ?m) out') = bval (dig s r) (?m + 1) mod 256 ^ bytes_stored ?m"
    "drop (bytes_stored ?m) out' = drop (bytes_stored ?m) out" by blast
  have "BNStore r out s = (KC_OK, out', s)"
    using out(1) m BNTRIM_eq [OF ok(2)] o(1) by (simp add: BNStore_def MAX_BN_ELEMENTS_def)
  then show ?thesis using o(2-4) ok(3) m(2) by (simp add: num_def)
qed

end
