(* ===== verification/Sev_BigNumProperties.thy ===== *)
theory Sev_BigNumProperties
  imports Sev_BigNumBytes
begin

text \<open>
  The properties of the multiple-precision arithmetic, with witnesses on small numbers.
\<close>

declare One_nat_def [simp del]

definition demo_num :: "u32 list \<Rightarrow> bignum" where
  "demo_num ds = \<lparr>bn_used = length ds, bn_sign = False, bn_data = ds @ replicate (80 - length ds) 0\<rparr>"

text \<open>The first argument holds 5 + 3 * 2 ^ 28, the second 7; every other number is 0.\<close>

definition demo_bns :: bns where
  "demo_bns r = (if r = BnArg 0 then demo_num [5, 3] else if r = BnArg 1 then demo_num [7] else demo_num [])"

lemma demo_parts:
  "used demo_bns (BnArg 0) = 2" "used demo_bns (BnArg 1) = 1" "\<not> sign demo_bns r" "length (bn_data (demo_bns r)) = 80"
  by (simp_all add: demo_bns_def demo_num_def)

lemma demo_dig:
  assumes "i < 80"
  shows "dig demo_bns (BnArg 0) i = (if i = 0 then 5 else if i = 1 then 3 else 0)"
    "dig demo_bns (BnArg 1) i = (if i = 0 then 7 else 0)"
  using assms by (simp_all add: dig_def demo_bns_def demo_num_def nth_Cons')

lemma demo_args:
  "bn_ok demo_bns (BnArg 0)" "trimmed demo_bns (BnArg 0)" "clean demo_bns (BnArg 0)"
  "bn_ok demo_bns (BnArg 1)" "trimmed demo_bns (BnArg 1)" "clean demo_bns (BnArg 1)"
  by (simp_all add: bn_ok_def trimmed_def clean_def demo_parts demo_dig bn_base_num)

lemma demo_values: "num demo_bns (BnArg 0) = 5 + 3 * bn_base" "num demo_bns (BnArg 1) = 7"
proof -
  have two: "{..<2 :: nat} = {0, 1}" by auto
  show "num demo_bns (BnArg 0) = 5 + 3 * bn_base" by (simp add: num_def bval_def demo_parts demo_dig two)
  show "num demo_bns (BnArg 1) = 7" by (simp add: num_def bval_def demo_parts demo_dig)
qed

lemma demo_room: "room demo_bns r"
  by (simp add: room_def demo_bns_def demo_num_def)

lemma demo_div_rooms: "div_rooms demo_bns"
  by (simp add: div_rooms_def demo_room)

text \<open>
  C5: \<open>BNDiv\<close> always returns, with the remainder of the division in \<open>r\<close>; when the quotient has at most
  \<open>used a - used b\<close> digits, it is in \<open>q\<close>. Nothing but the results and the scratch numbers changes. (What
  \<open>q\<close> holds when the quotient has one digit more is no part of the claim.)
\<close>

theorem division_correct:
  assumes "bn_ok s a" and "trimmed s a" and "\<not> sign s a" and "used s a \<le> 79" and "a \<notin> div_temps"
    and "bn_ok s b" and "trimmed s b" and "\<not> sign s b" and "0 < num s b" and "b \<notin> div_temps" and "div_rooms s"
    and "room s q" and "q \<notin> div_temps" and "room s r" and "r \<notin> div_temps" and "q \<noteq> r"
  shows "\<exists>s'. BNDiv (Some q) a b (Some r) s = Some (KC_OK, s') \<and> others_than (div_temps \<union> {q, r}) s s' \<and>
    holds s' r (num s a mod num s b) \<and>
    (num s a < num s b * bn_base ^ (used s a - used s b) \<longrightarrow> holds s' q (num s a div num s b))"
proof -
  have "\<exists>s'. BNDiv (Some q) a b (Some r) s = Some (KC_OK, s') \<and> others_than (div_temps \<union> set_option (Some q) \<union> set_option (Some r)) s s' \<and>
    (\<forall>q'. Some q = Some q' \<longrightarrow> holds s' q' (quotient_returned s a b)) \<and> (\<forall>p. Some r = Some p \<longrightarrow> holds s' p (num s a mod num s b))"
    by (rule BNDiv_spec) (use assms in auto)
  moreover have "quotient_returned s a b = num s a div num s b" if "num s a < num s b * bn_base ^ (used s a - used s b)"
  proof -
    have "num s a div num s b < bn_base ^ (used s a - used s b)"
      by (rule less_mult_imp_div_less) (use that in \<open>simp only: mult.commute\<close>)
    then show ?thesis using assms(9) by (simp add: quotient_returned_def)
  qed
  moreover have "div_temps \<union> set_option (Some q) \<union> set_option (Some r) = div_temps \<union> {q, r}" by auto
  ultimately show ?thesis by fastforce
qed

theorem division_correct_witness:
  "\<exists>s'. BNDiv (Some (BnArg 2)) (BnArg 0) (BnArg 1) (Some (BnArg 3)) demo_bns = Some (KC_OK, s') \<and>
    holds s' (BnArg 3) 4 \<and> holds s' (BnArg 2) 115043767"
proof -
  have v: "num demo_bns (BnArg 0) mod num demo_bns (BnArg 1) = 4" "num demo_bns (BnArg 0) div num demo_bns (BnArg 1) = 115043767"
    by (simp_all add: demo_values bn_base_num)
  have fits: "num demo_bns (BnArg 0) < num demo_bns (BnArg 1) * bn_base ^ (used demo_bns (BnArg 0) - used demo_bns (BnArg 1))"
    by (simp add: demo_values demo_parts bn_base_num)
  have "\<exists>s'. BNDiv (Some (BnArg 2)) (BnArg 0) (BnArg 1) (Some (BnArg 3)) demo_bns = Some (KC_OK, s') \<and>
      others_than (div_temps \<union> {BnArg 2, BnArg 3}) demo_bns s' \<and>
      holds s' (BnArg 3) (num demo_bns (BnArg 0) mod num demo_bns (BnArg 1)) \<and>
      (num demo_bns (BnArg 0) < num demo_bns (BnArg 1) * bn_base ^ (used demo_bns (BnArg 0) - used demo_bns (BnArg 1)) \<longrightarrow>
        holds s' (BnArg 2) (num demo_bns (BnArg 0) div num demo_bns (BnArg 1)))"
    by (rule division_correct) (simp_all add: demo_args demo_parts demo_values demo_room demo_div_rooms)
  then show ?thesis using fits v by auto
qed

text \<open>
  C38: The sum and the difference of signed numbers are those of the integers, whatever of the three
  objects are the same; the result has no leading zero digits and no other object changes.
\<close>

theorem signed_sum_and_difference:
  assumes "bn_ok s x" and "bn_ok s y" and "trimmed s x" and "trimmed s y" and "room s z"
    and "used s x < 80" and "used s y < 80"
  shows "\<exists>s1 s2. BNAdd z x y s = (KC_OK, s1) \<and> result z s (val s x + val s y) s1 \<and>
    BNSubtract z x y s = (KC_OK, s2) \<and> result z s (val s x - val s y) s2"
proof -
  obtain st1 s1 st2 s2 where "BNAdd z x y s = (st1, s1)" "BNSubtract z x y s = (st2, s2)" by (metis surj_pair)
  then show ?thesis using BNAdd_result [OF assms(1-5)] BNSubtract_result [OF assms(1-5)] assms(6,7) by blast
qed

theorem signed_sum_and_difference_witness:
  "\<exists>s1 s2. BNAdd (BnArg 1) (BnArg 1) (BnArg 0) demo_bns = (KC_OK, s1) \<and> val s1 (BnArg 1) = 805306380 \<and>
    BNSubtract (BnArg 1) (BnArg 1) (BnArg 0) demo_bns = (KC_OK, s2) \<and> val s2 (BnArg 1) = - 805306366"
proof -
  have v: "val demo_bns (BnArg 1) + val demo_bns (BnArg 0) = 805306380" "val demo_bns (BnArg 1) - val demo_bns (BnArg 0) = - 805306366"
    by (simp_all add: val_def demo_parts demo_values bn_base_num)
  show ?thesis
    using signed_sum_and_difference [of demo_bns "BnArg 1" "BnArg 0" "BnArg 1"] v
    by (auto simp: demo_args demo_parts demo_room result_def)
qed

text \<open>When the number has all digits that its octets can fill, all octets are stored.\<close>

lemma all_octets_stored:
  assumes "k mod 4 = 0" and "0 < k"
  shows "bytes_stored ((8 * k - 1) div 28) = k"
proof -
  define c w where "c = k div 28" and "w = k mod 28 div 4"
  have "k mod 28 mod 4 = 0" using assms(1) by (simp add: mod_mod_cancel)
  then have "k mod 28 = 4 * w" using div_mult_mod_eq [of "k mod 28" 4] by (simp add: w_def)
  then have k: "k = 28 * c + 4 * w" using div_mult_mod_eq [of k 28] by (simp add: c_def)
  have w: "w < 7" using mod_less_divisor [of 28 k] \<open>k mod 28 = 4 * w\<close> by linarith
  have d: "(28 * x + y) div 28 = x" if "y < 28" for x y :: nat using that by simp
  show ?thesis
  proof (cases "w = 0")
    case True
    then obtain c' where c: "c = Suc c'" using k assms(2) by (cases c) simp_all
    have e: "8 * k - 1 = 28 * (8 * c' + 7) + 27" unfolding k True c by simp
    have m: "(8 * k - 1) div 28 = 8 * c' + 7" unfolding e by (rule d) simp
    show ?thesis unfolding m bytes_stored_def unfolding k True c by simp
  next
    case False
    have e: "8 * k - 1 = 28 * (8 * c + w) + (4 * w - 1)" unfolding k using False by simp
    have m: "(8 * k - 1) div 28 = 8 * c + w" unfolding e by (rule d) (use w in simp)
    show ?thesis using False w unfolding m bytes_stored_def unfolding k by simp
  qed
qed

text \<open>
  C39: Octets that are loaded as a number and stored again come back, and the rest of the buffer is as
  it was, when the number has as many digits as the octets fill: its top digit, number
  \<open>(8 * length data - 1) div 28\<close>, is not zero.
\<close>

theorem load_store_round_trip:
  assumes "data \<noteq> []" and "length data mod 4 = 0" and "length data \<le> 276"
    and "bn_base ^ ((8 * length data - 1) div 28) \<le> le_val data"
    and "length out mod 4 = 0" and "length data \<le> length out"
  shows "\<exists>s1 s2 out'. BNLoad r data s = Some (KC_OK, s1) \<and> BNStore r out s1 = (KC_OK, out', s2) \<and>
    length out' = length out \<and> take (length data) out' = data \<and> drop (length data) out' = drop (length data) out"
proof -
  obtain s1 where l: "BNLoad r data s = Some (KC_OK, s1)" "holds s1 r (le_val data)"
    using BNLoad_spec [OF assms(1-3)] by blast
  let ?m = "(8 * length data - 1) div 28"
  have ok: "bn_ok s1 r" "trimmed s1 r" "num s1 r = le_val data" using l(2) by (simp_all add: holds_def)
  have pos: "0 < le_val data" using assms(4) by (rule less_le_trans [rotated]) (simp add: bn_base_num)
  have u: "0 < used s1 r" using num_zero_iff [OF ok(2)] ok(3) pos by simp
  have "bn_base ^ ?m < bn_base ^ used s1 r" using assms(4) num_less [OF ok(1)] unfolding ok(3) by (rule le_less_trans)
  then have lo: "?m < used s1 r" using power_less_imp_less_exp [of bn_base ?m "used s1 r"] by (simp add: bn_base_num)
  have "bn_base ^ (used s1 r - 1) \<le> le_val data" using num_ge [OF ok(2) u] ok(3) by simp
  also have "\<dots> < 256 ^ length data" by (rule le_val_less)
  finally have "(2 :: nat) ^ (28 * (used s1 r - 1)) < 2 ^ (8 * length data)" by (simp add: bn_base_power power_mult)
  then have "28 * (used s1 r - 1) < 8 * length data" by (rule power_less_imp_less_exp [rotated]) simp
  then have "used s1 r - 1 \<le> ?m" by (simp add: less_eq_div_iff_mult_less_eq)
  then have "used s1 r - 1 = ?m" using lo by linarith
  then have n: "bytes_stored (used s1 r - 1) = length data" using all_octets_stored [of "length data"] assms(1,2) by simp
  obtain out' s2 where st: "BNStore r out s1 = (KC_OK, out', s2)" "length out' = length out"
      "le_val (take (length data) out') = le_val data mod 256 ^ length data" "drop (length data) out' = drop (length data) out"
    using BNStore_spec [OF l(2) pos assms(5)] n assms(6) by auto
  have "take (length data) out' = data"
    using le_val_inj [of "take (length data) out'" data] st(2,3) assms(6) le_val_less [of data] by simp
  then show ?thesis using l(1) st by blast
qed

theorem load_store_round_trip_witness:
  "\<exists>s1 s2 out'. BNLoad (BnArg 0) [1, 2, 3, 4, 5, 6, 7, 8] demo_bns = Some (KC_OK, s1) \<and>
    BNStore (BnArg 0) (replicate 12 9) s1 = (KC_OK, out', s2) \<and>
    length out' = 12 \<and> take 8 out' = [1, 2, 3, 4, 5, 6, 7, 8] \<and> drop 8 out' = replicate 4 9"
proof -
  let ?d = "[1, 2, 3, 4, 5, 6, 7, 8] :: u8 list"
  have l: "length ?d = 8" by simp
  have "bn_base ^ 2 \<le> le_val ?d" by (simp add: bn_base_num)
  then have top: "bn_base ^ ((8 * length ?d - 1) div 28) \<le> le_val ?d" unfolding l by simp
  have "\<exists>s1 s2 out'. BNLoad (BnArg 0) ?d demo_bns = Some (KC_OK, s1) \<and> BNStore (BnArg 0) (replicate 12 9) s1 = (KC_OK, out', s2) \<and>
      length out' = length (replicate 12 9 :: u8 list) \<and> take (length ?d) out' = ?d \<and>
      drop (length ?d) out' = drop (length ?d) (replicate 12 9)"
    by (rule load_store_round_trip [OF _ _ _ top]) simp_all
  then show ?thesis unfolding l by simp
qed

text \<open>
  The product of two numbers of the same sign is their product modulo \<open>bn_base ^ Digits\<close>, or the
  full product when no number of digits is given, also for a square.
\<close>

theorem product_modulo_digits:
  assumes "bn_ok s x" and "bn_ok s y" and "sign s x = sign s y" and "room s z" and "x \<noteq> z" and "y \<noteq> z"
    and "used s x + used s y \<le> 80" and "Digits \<le> 80"
  shows "\<exists>s'. BNMultiply z x y Digits s = (KC_OK, s') \<and>
    nat_result z s (if Digits = 0 then num s x * num s y else num s x * num s y mod bn_base ^ Digits) s'"
proof -
  obtain st s' where run: "BNMultiply z x y Digits s = (st, s')" by (metis surj_pair)
  have "num s x * num s y < bn_base ^ used s x * bn_base ^ used s y"
    using num_less [OF assms(1)] num_less [OF assms(2)] by (intro mult_strict_mono) simp_all
  then have "num s x * num s y mod bn_base ^ (used s x + used s y) = num s x * num s y" by (simp add: power_add)
  then show ?thesis
    using BNMultiply_result [OF assms(1-6) refl _ run] assms(7,8) run by (cases "Digits = 0") auto
qed

theorem product_modulo_digits_witness:
  "\<exists>s'. BNMultiply (BnArg 2) (BnArg 0) (BnArg 0) 0 demo_bns = (KC_OK, s') \<and> num s' (BnArg 2) = 648518354394415129 \<and>
    s' (BnArg 0) = demo_bns (BnArg 0)"
  using product_modulo_digits [of demo_bns "BnArg 0" "BnArg 0" "BnArg 2" 0]
  by (auto simp: demo_args demo_parts demo_values demo_room nat_result_def bn_base_num others_same_def)

declare One_nat_def [simp]

end
