(* ===== verification/Sev_SecureOps.thy ===== *)
theory Sev_SecureOps
  imports Sev_BigNumBytes
begin

text \<open>
  The constant-time comparisons of \<open>secure_ops.c\<close> and the byte helpers of \<open>helper.c\<close>.

  An octet string is a list of bytes, and a pointer that may be NULL is an option. The code
  computes on \<open>int\<close> values: the differences of bytes are signed and shifted arithmetically, so
  the model computes on \<open>int\<close> too, and takes the low eight bits where a \<open>uint8_t\<close> is assigned.
\<close>

section \<open>Comparisons\<close>

definition secure_compare :: "u8 list option \<Rightarrow> u8 list option \<Rightarrow> nat \<Rightarrow> int" where
  "secure_compare left right sz =
     (let result =
        (case (left, right) of
           (Some l, Some r) \<Rightarrow> fold (\<lambda>i result. result OR uint (l ! i XOR r ! i)) [0..<sz] 0
         | _ \<Rightarrow> 0x200)
      in drop_bit 8 (result + 0xff))"

text \<open>One round: the more significant bytes come first.\<close>

definition compare_byte :: "u8 \<Rightarrow> u8 \<Rightarrow> int \<times> int \<Rightarrow> int \<times> int" where
  "compare_byte l r = (\<lambda>(gt, eq).
     (take_bit 8 (gt OR (drop_bit 8 (uint r - uint l) AND eq)),
      take_bit 8 (eq AND drop_bit 8 ((uint r XOR uint l) - 1))))"

definition secure_array_compare_le :: "u8 list \<Rightarrow> u8 list \<Rightarrow> nat \<Rightarrow> int" where
  "secure_array_compare_le l r sz =
     (let (gt, eq) = fold (\<lambda>i. compare_byte (l ! i) (r ! i)) (rev [0..<sz]) (0, 1)
      in 2 - (gt + eq + eq))"

definition secure_memzero :: "nat \<Rightarrow> u8 list \<Rightarrow> u8 list" where
  "secure_memzero sz buffer = (if sz > 0 then replicate sz 0 @ drop sz buffer else buffer)"

section \<open>Byte helpers\<close>

fun all_zero :: "u8 list \<Rightarrow> nat \<Rightarrow> nat \<Rightarrow> bool" where
  "all_zero buffer i 0 = True"
| "all_zero buffer i (Suc n) = (if buffer ! i \<noteq> 0 then False else all_zero buffer (i + 1) n)"

definition is_empty :: "u8 list option \<Rightarrow> nat \<Rightarrow> bool" where
  "is_empty object sz = (case object of None \<Rightarrow> False | Some buffer \<Rightarrow> all_zero buffer 0 sz)"

text \<open>The pointers \<open>start\<close> and \<open>end\<close> as indices; for a size of 0 the end is before the start.\<close>

function reverse_loop :: "int \<Rightarrow> int \<Rightarrow> u8 list \<Rightarrow> u8 list" where
  "reverse_loop start stop bytes =
     (if start < stop
      then reverse_loop (start + 1) (stop - 1)
             (bytes[nat start := bytes ! nat stop, nat stop := bytes ! nat start])
      else bytes)"
  by pat_completeness auto
termination
  by (relation "measure (\<lambda>(start, stop, bytes). nat (stop - start))") auto

declare reverse_loop.simps [simp del]

definition reverse_bytes :: "u8 list option \<Rightarrow> nat \<Rightarrow> sev_status \<times> u8 list option" where
  "reverse_bytes bytes sz =
     (case bytes of
        None \<Rightarrow> (ERR_INVALID_PARAMS, None)
      | Some bs \<Rightarrow> (SEV_STATUS_SUCCESS, Some (reverse_loop 0 (int sz - 1) bs)))"

section \<open>What the comparisons decide\<close>

lemma uint_u8: "0 \<le> uint (b :: u8)" "uint b < 256"
  using uint_lt2p [of b] by simp_all

lemma xor_int_zero: "(a :: int) XOR b = 0 \<longleftrightarrow> a = b"
  by (auto simp: bit_eq_iff bit_simps)

lemma xor_word_zero: "uint (a XOR b) = 0 \<longleftrightarrow> a = b" for a b :: u8
  by (simp add: unsigned_xor_eq xor_int_zero word_uint_eq_iff)

lemma or_below_256: "0 \<le> a \<Longrightarrow> a < 256 \<Longrightarrow> 0 \<le> b \<Longrightarrow> b < 256 \<Longrightarrow> 0 \<le> (a OR b) \<and> (a OR b :: int) < 256"
  using OR_upper [of a 8 b] by simp

lemma compare_fold:
  assumes "0 \<le> a" "a < 256"
  shows "0 \<le> fold (\<lambda>i result. result OR uint (l ! i XOR r ! i)) xs a \<and>
    fold (\<lambda>i result. result OR uint (l ! i XOR r ! i)) xs a < 256 \<and>
    (fold (\<lambda>i result. result OR uint (l ! i XOR r ! i)) xs a = 0 \<longleftrightarrow> a = 0 \<and> (\<forall>i \<in> set xs. l ! i = (r ! i :: u8)))"
  using assms
proof (induction xs arbitrary: a)
  case (Cons x xs)
  let ?b = "uint (l ! x XOR r ! x)"
  have b: "0 \<le> a OR ?b" "a OR ?b < 256" using or_below_256 [of a ?b] Cons.prems uint_u8 by auto
  show ?case using Cons.IH [OF b] or_eq_0_iff [of a ?b] xor_word_zero [of "l ! x" "r ! x"] by auto
qed simp

text \<open>0 for equal strings, 1 for different ones, 2 for a NULL pointer.\<close>

lemma secure_compare_spec:
  assumes "sz \<le> length l" "sz \<le> length r"
  shows "secure_compare (Some l) (Some r) sz = (if take sz l = take sz r then 0 else 1)"
proof -
  let ?f = "fold (\<lambda>i result. result OR uint (l ! i XOR r ! i)) [0..<sz] 0"
  have f: "0 \<le> ?f" "?f < 256" "?f = 0 \<longleftrightarrow> (\<forall>i < sz. l ! i = r ! i)"
    using compare_fold [of 0 l r "[0..<sz]"] by auto
  have "take sz l = take sz r \<longleftrightarrow> (\<forall>i < sz. l ! i = r ! i)"
    using assms by (auto simp: list_eq_iff_nth_eq)
  moreover have "drop_bit 8 (?f + 0xff) = (if ?f = 0 then 0 else 1)" using f(1,2) by (auto simp: drop_bit_eq_div)
  ultimately show ?thesis using f(3) by (simp add: secure_compare_def)
qed

lemma secure_compare_null: "left = None \<or> right = None \<Longrightarrow> secure_compare left right sz = 2"
  by (auto simp: secure_compare_def drop_bit_eq_div split: option.splits)

lemma negative_byte: "- 256 \<le> (d :: int) \<Longrightarrow> d < 0 \<Longrightarrow> d div 256 = -1"
  by presburger

lemma drop8_small: "0 \<le> (d :: int) \<Longrightarrow> d < 256 \<Longrightarrow> drop_bit 8 d = 0"
  by (simp add: drop_bit_eq_div)

lemma compare_byte_equal: "compare_byte l r (gt, 0) = (take_bit 8 gt, 0)"
  by (simp add: compare_byte_def)

lemma compare_byte_greater: "gt \<in> {0, 1} \<Longrightarrow> uint r < uint l \<Longrightarrow> compare_byte l r (gt, 1) = (1, 0)"
proof -
  assume g: "gt \<in> {0, 1}" "uint r < uint l"
  have d: "drop_bit 8 (uint r - uint l) = -1"
    unfolding drop_bit_eq_div by (simp, rule negative_byte) (use g(2) uint_u8 [of r] uint_u8 [of l] in linarith)+
  have x: "uint r XOR uint l \<noteq> 0" using g(2) by (simp add: xor_int_zero)
  moreover have "0 \<le> uint r XOR uint l" "uint r XOR uint l < 256"
    using XOR_upper [of "uint r" 8 "uint l"] uint_u8 [of r] uint_u8 [of l] by simp_all
  ultimately have "drop_bit 8 ((uint r XOR uint l) - 1) = 0" by (intro drop8_small) linarith+
  with d g(1) show ?thesis by (auto simp: compare_byte_def)
qed

lemma compare_byte_less: "gt = 0 \<Longrightarrow> uint l < uint r \<Longrightarrow> compare_byte l r (gt, 1) = (0, 0)"
proof -
  assume g: "gt = 0" "uint l < uint r"
  have d: "drop_bit 8 (uint r - uint l) = 0"
    unfolding drop_bit_eq_div by (simp, rule div_pos_pos_trivial) (use g(2) uint_u8 [of r] uint_u8 [of l] in linarith)+
  have x: "uint r XOR uint l \<noteq> 0" using g(2) by (simp add: xor_int_zero)
  moreover have "0 \<le> uint r XOR uint l" "uint r XOR uint l < 256"
    using XOR_upper [of "uint r" 8 "uint l"] uint_u8 [of r] uint_u8 [of l] by simp_all
  ultimately have "drop_bit 8 ((uint r XOR uint l) - 1) = 0" by (intro drop8_small) linarith+
  with d g(1) show ?thesis by (simp add: compare_byte_def)
qed

lemma compare_byte_same: "gt = 0 \<Longrightarrow> compare_byte l l (gt, 1) = (0, 1)"
  by (simp add: compare_byte_def drop_bit_eq_div)

lemma compare_decided: "gt \<in> {0, 1} \<Longrightarrow> fold (\<lambda>i. compare_byte (l ! i) (r ! i)) xs (gt, 0) = (gt, 0)"
  by (induction xs) (auto simp: compare_byte_equal)

lemma le_val_take_Suc:
  assumes "n < length bs" shows "le_val (take (Suc n) bs) = le_val (take n bs) + 256 ^ n * unat (bs ! n)"
proof -
  have "take (Suc n) bs = take n bs @ [bs ! n]" using assms by (rule take_Suc_conv_app_nth)
  then show ?thesis using assms by (simp add: le_val_append min_def)
qed

lemma le_val_take_less: "n \<le> length bs \<Longrightarrow> le_val (take n bs) < 256 ^ n"
  using le_val_less [of "take n bs"] by (simp only: length_take min_absorb2)

lemma top_byte_decides:
  fixes a b x y :: nat
  assumes "a < B" "b < B" "x < y"
  shows "a + B * x < b + B * y"
proof -
  have "a + B * x < B * (x + 1)" using assms(1) by simp
  also have "\<dots> \<le> B * y" using assms(3) by (intro mult_left_mono) simp_all
  finally show ?thesis by simp
qed

lemma unat_less_uint: "unat a < unat b \<longleftrightarrow> uint a < uint b" for a b :: u8
  by (simp only: word_less_nat_alt [symmetric] word_less_def)

lemma compare_le_fold:
  assumes "n \<le> length l" "n \<le> length r"
  shows "fold (\<lambda>i. compare_byte (l ! i) (r ! i)) (rev [0..<n]) (0, 1) =
    (if le_val (take n l) > le_val (take n r) then (1, 0)
     else if le_val (take n l) < le_val (take n r) then (0, 0) else (0, 1))"
  using assms
proof (induction n)
  case (Suc n)
  let ?a = "le_val (take n l)" and ?b = "le_val (take n r)"
  have bound: "?a < 256 ^ n" "?b < 256 ^ n" using Suc.prems by (simp_all add: le_val_take_less)
  have v: "le_val (take (Suc n) l) = ?a + 256 ^ n * unat (l ! n)" "le_val (take (Suc n) r) = ?b + 256 ^ n * unat (r ! n)"
    using Suc.prems by (simp_all add: le_val_take_Suc)
  have rounds: "fold (\<lambda>i. compare_byte (l ! i) (r ! i)) (rev [0..<Suc n]) (0, 1) =
      fold (\<lambda>i. compare_byte (l ! i) (r ! i)) (rev [0..<n]) (compare_byte (l ! n) (r ! n) (0, 1))"
    by simp
  consider "uint (r ! n) < uint (l ! n)" | "uint (l ! n) < uint (r ! n)" | "l ! n = r ! n"
    by (metis linorder_neqE word_uint_eq_iff)
  then show ?case
  proof cases
    case 1
    then show ?thesis unfolding rounds v using compare_byte_greater [of 0, OF _ 1] compare_decided [of 1 l r]
        top_byte_decides [OF bound(2,1), of "unat (r ! n)" "unat (l ! n)"] by (simp add: unat_less_uint)
  next
    case 2
    then show ?thesis unfolding rounds v using compare_byte_less [OF _ 2] compare_decided [of 0 l r]
        top_byte_decides [OF bound, of "unat (l ! n)" "unat (r ! n)"] by (simp add: unat_less_uint)
  next
    case 3
    then show ?thesis unfolding rounds v using compare_byte_same [of 0 "r ! n"] Suc by simp
  qed
qed simp

text \<open>The comparison of little-endian numbers: 0 for equal, 1 for greater, 2 for less.\<close>

lemma compare_le_spec:
  assumes "sz \<le> length l" "sz \<le> length r"
  shows "secure_array_compare_le l r sz =
    (if le_val (take sz l) > le_val (take sz r) then 1
     else if le_val (take sz l) < le_val (take sz r) then 2 else 0)"
  using compare_le_fold [OF assms] by (simp add: secure_array_compare_le_def)

section \<open>The reversal\<close>

lemma reverse_loop_spec:
  assumes "0 \<le> start" "stop < int (length bs)" "start \<le> stop + 1"
  shows "reverse_loop start stop bs =
    take (nat start) bs @ rev (drop (nat start) (take (nat (stop + 1)) bs)) @ drop (nat (stop + 1)) bs"
  using assms
proof (induction start stop bs rule: reverse_loop.induct)
  case (1 start stop bs)
  show ?case
  proof (cases "start < stop")
    case False
    define a where "a = nat start"
    consider "stop + 1 = start" | "stop = start" using False 1(4) by linarith
    then show ?thesis
    proof cases
      case 1
      then show ?thesis using False by (simp add: reverse_loop.simps [of start stop])
    next
      case 2
      then have n: "nat (stop + 1) = Suc a" "a < length bs" using 1(2,3) by (simp_all add: a_def)
      have "drop a (take (Suc a) bs) = [bs ! a]" using n(2) by (simp add: take_Suc_conv_app_nth)
      then show ?thesis using False n 2 id_take_nth_drop [of a bs]
        by (simp add: reverse_loop.simps [of start start] a_def [symmetric])
    qed
  next
    case True
    define a c where "a = nat start" and "c = nat stop"
    have ac: "a < c" "c < length bs" "start = int a" "stop = int c" using True 1(2,3) by (simp_all add: a_def c_def)
    let ?bs = "bs[a := bs ! c, c := bs ! a]"
    define mid where "mid = drop (a + 1) (take c bs)"
    have split: "bs = take a bs @ bs ! a # mid @ bs ! c # drop (Suc c) bs"
    proof -
      have "take c bs = take a (take c bs) @ take c bs ! a # drop (Suc a) (take c bs)"
        using ac by (intro id_take_nth_drop) simp
      then have t: "take c bs = take a bs @ bs ! a # mid" using ac by (simp add: mid_def min_def)
      have "bs = take c bs @ bs ! c # drop (Suc c) bs" using ac(2) by (rule id_take_nth_drop)
      then show ?thesis unfolding t by simp
    qed
    have lm: "length mid = c - (a + 1)" using ac by (simp add: mid_def)
    define P Q x y where "P = take a bs" and "Q = drop (Suc c) bs" and "x = bs ! a" and "y = bs ! c"
    have bs: "bs = P @ x # mid @ y # Q" "length P = a" using split ac by (simp_all add: P_def Q_def x_def y_def)
    have bs': "?bs = P @ y # mid @ x # Q"
    proof -
      have "c = length P + Suc (length mid)" using ac lm bs(2) by simp
      then show ?thesis unfolding x_def [symmetric] y_def [symmetric]
        by (subst (1) bs(1)) (simp add: bs(2) [symmetric] list_update_append)
    qed
    have ca: "c = a + Suc (length mid)" using lm ac(1) by simp
    have "reverse_loop start stop bs = reverse_loop (start + 1) (stop - 1) ?bs"
      using True by (subst reverse_loop.simps) (simp add: a_def c_def)
    also have "\<dots> = take (nat (start + 1)) ?bs @ rev (drop (nat (start + 1)) (take (nat (stop - 1 + 1)) ?bs)) @ drop (nat (stop - 1 + 1)) ?bs"
      unfolding a_def c_def by (rule 1(1)) (use True ac in \<open>simp_all\<close>)
    also have "nat (start + 1) = Suc a" using ac by simp
    also have "nat (stop - 1 + 1) = c" using ac by simp
    also have "take (Suc a) ?bs = P @ [y]" unfolding bs' using bs(2) by simp
    also have "take c ?bs = P @ y # mid" unfolding bs' using bs(2) ca by simp
    also have "drop c ?bs = x # Q" unfolding bs' using bs(2) ca by simp
    also have "drop (Suc a) (P @ y # mid) = mid" using bs(2) by simp
    also have "(P @ [y]) @ rev mid @ x # Q = P @ rev (x # mid @ [y]) @ Q" by simp
    also have "x # mid @ [y] = drop a (take (c + 1) bs)"
      using bs(2) ca by (subst bs(1)) simp
    finally show ?thesis using ac by (simp add: P_def Q_def nat_add_distrib)
  qed
qed

lemma reverse_bytes_spec:
  assumes "sz \<le> length bs"
  shows "reverse_bytes (Some bs) sz = (SEV_STATUS_SUCCESS, Some (rev (take sz bs) @ drop sz bs))"
  using reverse_loop_spec [of 0 "int sz - 1" bs] assms by (simp add: reverse_bytes_def)

lemma all_zero_spec: "i + n \<le> length bs \<Longrightarrow> all_zero bs i n \<longleftrightarrow> (\<forall>j < n. bs ! (i + j) = 0)"
proof (induction n arbitrary: i)
  case (Suc n)
  then show ?case by (auto simp: All_less_Suc2)
qed simp

end
