(* ===== verification/Sev_Digest.thy ===== *)
theory Sev_Digest
  imports Sev_SecureOps
begin

text \<open>
  Digests of messages: the streaming interface of \<open>digest.c\<close> over the hash engine, the keyed digests of
  \<open>hmac.c\<close> and the key derivation of \<open>nist_kdf.c\<close>.

  The engine behind \<open>Svc_SHA\<close> is not part of the repository. It is the parameter \<open>svc\<close>: from the members
  of \<open>sev_hal_sha_t\<close> to whether the call returned \<open>BL_OK\<close>, and the octets it wrote at \<open>digest\<close>. A
  pointer that may be NULL is an option; the contexts and results are objects of the callers.
\<close>

section \<open>The hash engine\<close>

datatype sha_type = SHA_TYPE_256 | SHA_TYPE_384 | SHA_TYPE_OTHER nat

definition DIGEST_SHA256_SIZE_BYTES :: nat where "DIGEST_SHA256_SIZE_BYTES = 32"
definition SHA256_BLOCK_SIZE_BYTES :: nat where "SHA256_BLOCK_SIZE_BYTES = 64"
definition DIGEST_SHA384_SIZE_BYTES :: nat where "DIGEST_SHA384_SIZE_BYTES = 48"
definition SHA384_BLOCK_SIZE_BYTES :: nat where "SHA384_BLOCK_SIZE_BYTES = 128"
definition SHA_BLOCK_SIZE_BYTES :: nat where "SHA_BLOCK_SIZE_BYTES = SHA384_BLOCK_SIZE_BYTES"
definition DIGEST_STORAGE_BYTES :: nat where "DIGEST_STORAGE_BYTES = 64"

record sev_hal_sha_t =
  SHAType :: sha_type
  sha_data :: "u8 list"
  digest_len :: nat
  intermediate_digest :: "u8 list option"
  intermediate_msg_len :: u32
  som :: bool
  eom :: bool

type_synonym sha_service = "sev_hal_sha_t \<Rightarrow> bool \<times> u8 list"

definition sev_hal_sha :: "sha_service \<Rightarrow> sev_hal_sha_t \<Rightarrow> sha_type \<Rightarrow> sev_status \<times> u8 list" where
  "sev_hal_sha svc pParams t =
     (if t \<noteq> SHA_TYPE_256 \<and> t \<noteq> SHA_TYPE_384 then (ERR_INVALID_PARAMS, [])
      else case svc (pParams\<lparr>SHAType := t\<rparr>) of
        (ok, out) \<Rightarrow> (if ok then SEV_STATUS_SUCCESS else ERR_HAL_SHA256, out))"

definition INTERMEDIATE_DIGEST_SIZE :: "sha_type \<Rightarrow> nat" where
  "INTERMEDIATE_DIGEST_SIZE t = (if t = SHA_TYPE_256 then DIGEST_SHA256_SIZE_BYTES else DIGEST_STORAGE_BYTES)"

definition FINAL_DIGEST_SIZE :: "sha_type \<Rightarrow> nat" where
  "FINAL_DIGEST_SIZE t = (if t = SHA_TYPE_256 then DIGEST_SHA256_SIZE_BYTES else DIGEST_SHA384_SIZE_BYTES)"

section \<open>Contexts\<close>

record digest_sha_ctx =
  dc_h :: "u8 list"
  dc_msg_block :: "u8 list"
  dc_bytes_used :: nat
  dc_length :: u32
  dc_sha_type :: sha_type

text \<open>\<open>memcpy(buf + k, bytes, length)\<close>.\<close>

definition put_bytes :: "nat \<Rightarrow> u8 list \<Rightarrow> u8 list \<Rightarrow> u8 list" where
  "put_bytes k bytes buf = take k buf @ bytes @ drop (k + length bytes) buf"

definition sha_init :: "sha_service \<Rightarrow> u8 list \<Rightarrow> sha_type \<Rightarrow> sev_status \<times> u8 list" where
  "sha_init svc digest t =
     (if t \<noteq> SHA_TYPE_256 \<and> t \<noteq> SHA_TYPE_384 then (ERR_INVALID_PARAMS, digest)
      else case sev_hal_sha svc \<lparr>SHAType = t, sha_data = [], digest_len = INTERMEDIATE_DIGEST_SIZE t,
          intermediate_digest = None, intermediate_msg_len = 0, som = True, eom = False\<rparr> t of
        (status, out) \<Rightarrow> (status, put_bytes 0 out digest))"

text \<open>The length counts up even when the engine fails.\<close>

definition sha_update :: "sha_service \<Rightarrow> u8 list \<Rightarrow> digest_sha_ctx \<Rightarrow> sev_status \<times> digest_sha_ctx" where
  "sha_update svc data ctx =
     (let t = dc_sha_type ctx
      in if length data = 0 then (ERR_INVALID_PARAMS, ctx)
         else if (t = SHA_TYPE_256 \<and> length data mod 64 \<noteq> 0) \<or> (t = SHA_TYPE_384 \<and> length data mod 128 \<noteq> 0)
         then (ERR_INVALID_PARAMS, ctx)
         else case sev_hal_sha svc \<lparr>SHAType = t, sha_data = data, digest_len = INTERMEDIATE_DIGEST_SIZE t,
             intermediate_digest = Some (dc_h ctx), intermediate_msg_len = dc_length ctx, som = False, eom = False\<rparr> t of
           (status, digest) \<Rightarrow>
             let ctx1 = (if status = SEV_STATUS_SUCCESS
                   then ctx\<lparr>dc_h := put_bytes 0 (take (INTERMEDIATE_DIGEST_SIZE t) digest) (dc_h ctx)\<rparr> else ctx)
             in (status, ctx1\<lparr>dc_length := dc_length ctx1 + of_nat (length data)\<rparr>))"

text \<open>The results: status, context, digest and its length.\<close>

definition sha_final ::
    "sha_service \<Rightarrow> u8 list \<Rightarrow> u8 list \<Rightarrow> nat \<Rightarrow> digest_sha_ctx \<Rightarrow> sev_status \<times> digest_sha_ctx \<times> u8 list \<times> nat" where
  "sha_final svc data digest len ctx =
     (let t = dc_sha_type ctx; n = FINAL_DIGEST_SIZE t
      in case sev_hal_sha svc \<lparr>SHAType = t, sha_data = data, digest_len = n,
          intermediate_digest = Some (dc_h ctx), intermediate_msg_len = dc_length ctx, som = False, eom = True\<rparr> t of
        (status, local_digest) \<Rightarrow>
          if status = SEV_STATUS_SUCCESS
          then (status, ctx\<lparr>dc_h := put_bytes 0 (take n local_digest) (dc_h ctx), dc_length := dc_length ctx + of_nat (length data)\<rparr>,
                put_bytes 0 (take n local_digest) digest, n)
          else (status, ctx\<lparr>dc_length := dc_length ctx + of_nat (length data)\<rparr>, digest, len))"

section \<open>The streaming interface\<close>

definition digest_sha_init :: "sha_service \<Rightarrow> digest_sha_ctx \<Rightarrow> sha_type \<Rightarrow> sev_status \<times> digest_sha_ctx" where
  "digest_sha_init svc ctx t =
     (if t \<noteq> SHA_TYPE_256 \<and> t \<noteq> SHA_TYPE_384 then (ERR_INVALID_PARAMS, ctx)
      else case sha_init svc (replicate DIGEST_STORAGE_BYTES 0) t of
        (status, h) \<Rightarrow> (status, \<lparr>dc_h = h, dc_msg_block = replicate SHA_BLOCK_SIZE_BYTES 0, dc_bytes_used = 0,
          dc_length = 0, dc_sha_type = t\<rparr>))"

definition block_size :: "sha_type \<Rightarrow> nat" where
  "block_size t = (if t = SHA_TYPE_256 then SHA256_BLOCK_SIZE_BYTES else SHA384_BLOCK_SIZE_BYTES)"

text \<open>Completes the block that an earlier update left: status, context and the rest of the input.\<close>

definition fill_block :: "sha_service \<Rightarrow> u8 list \<Rightarrow> digest_sha_ctx \<Rightarrow> sev_status \<times> digest_sha_ctx \<times> u8 list" where
  "fill_block svc input ctx =
     (let len = block_size (dc_sha_type ctx) - dc_bytes_used ctx;
          ctx1 = ctx\<lparr>dc_msg_block := put_bytes (dc_bytes_used ctx) (take len input) (dc_msg_block ctx)\<rparr>
      in case sha_update svc (take (block_size (dc_sha_type ctx)) (dc_msg_block ctx1)) ctx1 of
           (status, ctx2) \<Rightarrow> (status, ctx2, drop len input))"

text \<open>The whole blocks go to the engine, the rest is kept.\<close>

definition absorb_blocks :: "sha_service \<Rightarrow> u8 list \<Rightarrow> digest_sha_ctx \<Rightarrow> sev_status \<times> digest_sha_ctx" where
  "absorb_blocks svc input ctx =
     (let used = length input AND (block_size (dc_sha_type ctx) - 1);
          ctx1 = ctx\<lparr>dc_bytes_used := used\<rparr>;
          n = length input - used;
          (status, ctx2) = (if n > 0 then sha_update svc (take n input) ctx1 else (SEV_STATUS_SUCCESS, ctx1))
      in if status \<noteq> SEV_STATUS_SUCCESS then (status, ctx2)
         else (SEV_STATUS_SUCCESS, ctx2\<lparr>dc_msg_block := put_bytes 0 (drop n input) (dc_msg_block ctx2)\<rparr>))"

definition digest_sha_update :: "sha_service \<Rightarrow> u8 list option \<Rightarrow> digest_sha_ctx \<Rightarrow> sev_status \<times> digest_sha_ctx" where
  "digest_sha_update svc data ctx =
     (case data of
        None \<Rightarrow> (ERR_INVALID_PARAMS, ctx)
      | Some input0 \<Rightarrow>
          let bs = block_size (dc_sha_type ctx)
          in if dc_bytes_used ctx > 0 \<and> bs - dc_bytes_used ctx > length input0
             then (SEV_STATUS_SUCCESS, ctx\<lparr>dc_msg_block := put_bytes (dc_bytes_used ctx) input0 (dc_msg_block ctx),
                                           dc_bytes_used := dc_bytes_used ctx + length input0\<rparr>)
             else
               case (if dc_bytes_used ctx > 0 then fill_block svc input0 ctx else (SEV_STATUS_SUCCESS, ctx, input0)) of
                 (status, ctx1, input) \<Rightarrow>
                   if status \<noteq> SEV_STATUS_SUCCESS then (status, ctx1) else absorb_blocks svc input ctx1)"

definition digest_sha_final ::
    "sha_service \<Rightarrow> u8 list \<Rightarrow> nat \<Rightarrow> digest_sha_ctx \<Rightarrow> sev_status \<times> digest_sha_ctx \<times> u8 list \<times> nat" where
  "digest_sha_final svc digest len ctx =
     (case sha_final svc (take (dc_bytes_used ctx) (dc_msg_block ctx)) digest len ctx of
        (status, ctx1, digest1, len1) \<Rightarrow> (status, ctx1\<lparr>dc_bytes_used := 0\<rparr>, digest1, len1))"

text \<open>What is on the stack before the context is initialised does not matter: \<open>ctx0\<close>.\<close>

definition digest_sha ::
    "sha_service \<Rightarrow> digest_sha_ctx \<Rightarrow> u8 list option \<Rightarrow> u8 list \<Rightarrow> nat \<Rightarrow> sha_type \<Rightarrow> sev_status \<times> u8 list \<times> nat" where
  "digest_sha svc ctx0 msg digest len t =
     (case msg of
        None \<Rightarrow> (ERR_INVALID_PARAMS, digest, len)
      | Some m \<Rightarrow>
          if length m = 0 \<or> len = 0 \<or> (t \<noteq> SHA_TYPE_256 \<and> t \<noteq> SHA_TYPE_384) then (ERR_INVALID_PARAMS, digest, len)
          else case digest_sha_init svc ctx0 t of (status, ctx) \<Rightarrow>
            if status \<noteq> SEV_STATUS_SUCCESS then (status, digest, len) else
            case digest_sha_update svc (Some m) ctx of (status, ctx1) \<Rightarrow>
            if status \<noteq> SEV_STATUS_SUCCESS then (status, digest, len) else
            case digest_sha_final svc digest len ctx1 of (status, _, digest1, len1) \<Rightarrow> (status, digest1, len1))"

section \<open>Keyed digests\<close>

definition HMAC_SHA256_SIZE_BYTES :: nat where "HMAC_SHA256_SIZE_BYTES = DIGEST_SHA256_SIZE_BYTES"
definition HMAC_SHA256_BLOCK_SIZE_BYTES :: nat where "HMAC_SHA256_BLOCK_SIZE_BYTES = 64"
definition HMAC_SHA256_KEY_SIZE_BYTES :: nat where "HMAC_SHA256_KEY_SIZE_BYTES = 64"
definition HMAC_IPAD_VALUE :: u8 where "HMAC_IPAD_VALUE = 0x36"
definition HMAC_OPAD_VALUE :: u8 where "HMAC_OPAD_VALUE = 0x5C"

record hmac_sha256_ctx =
  digest_ctx :: digest_sha_ctx
  hc_key :: "u8 list"
  hc_key_len :: nat

text \<open>The key in a block, every octet combined with the padding octet.\<close>

definition padded_key :: "u8 \<Rightarrow> u8 list \<Rightarrow> u8 list" where
  "padded_key v key = map (\<lambda>b. b XOR v) (put_bytes 0 key (replicate HMAC_SHA256_BLOCK_SIZE_BYTES 0))"

definition hmac_sha256_init :: "sha_service \<Rightarrow> u8 list option \<Rightarrow> hmac_sha256_ctx \<Rightarrow> sev_status \<times> hmac_sha256_ctx" where
  "hmac_sha256_init svc key ctx =
     (case key of
        None \<Rightarrow> (ERR_INVALID_PARAMS, ctx)
      | Some k \<Rightarrow>
          if length k = 0 \<or> length k > HMAC_SHA256_KEY_SIZE_BYTES then (ERR_INVALID_PARAMS, ctx)
          else case digest_sha_init svc (digest_ctx ctx) SHA_TYPE_256 of (status, d1) \<Rightarrow>
            if status \<noteq> SEV_STATUS_SUCCESS then (status, ctx\<lparr>digest_ctx := d1\<rparr>) else
            case digest_sha_update svc (Some (padded_key HMAC_IPAD_VALUE k)) d1 of (status, d2) \<Rightarrow>
            if status \<noteq> SEV_STATUS_SUCCESS then (status, ctx\<lparr>digest_ctx := d2\<rparr>)
            else (SEV_STATUS_SUCCESS, \<lparr>digest_ctx = d2, hc_key = put_bytes 0 k (hc_key ctx), hc_key_len = length k\<rparr>))"

definition hmac_sha256_update :: "sha_service \<Rightarrow> u8 list option \<Rightarrow> hmac_sha256_ctx \<Rightarrow> sev_status \<times> hmac_sha256_ctx" where
  "hmac_sha256_update svc data ctx =
     (case digest_sha_update svc data (digest_ctx ctx) of (status, d) \<Rightarrow> (status, ctx\<lparr>digest_ctx := d\<rparr>))"

text \<open>\<open>after_opad\<close> are the 32 octets behind the padded key in \<open>pad_data\<close>, where the inner digest goes.\<close>

definition hmac_sha256_final ::
    "sha_service \<Rightarrow> u8 list \<Rightarrow> u8 list \<Rightarrow> hmac_sha256_ctx \<Rightarrow> sev_status \<times> hmac_sha256_ctx \<times> u8 list" where
  "hmac_sha256_final svc after_opad hmac ctx =
     (let k_opad = padded_key HMAC_OPAD_VALUE (take (hc_key_len ctx) (hc_key ctx))
      in case digest_sha_final svc after_opad HMAC_SHA256_BLOCK_SIZE_BYTES (digest_ctx ctx) of (status, d1, inner, _) \<Rightarrow>
         if status \<noteq> SEV_STATUS_SUCCESS then (status, ctx\<lparr>digest_ctx := d1\<rparr>, hmac) else
         case digest_sha_init svc d1 SHA_TYPE_256 of (status, d2) \<Rightarrow>
         if status \<noteq> SEV_STATUS_SUCCESS then (status, ctx\<lparr>digest_ctx := d2\<rparr>, hmac) else
         case digest_sha_update svc (Some (k_opad @ take HMAC_SHA256_SIZE_BYTES inner)) d2 of (status, d3) \<Rightarrow>
         if status \<noteq> SEV_STATUS_SUCCESS then (status, ctx\<lparr>digest_ctx := d3\<rparr>, hmac) else
         case digest_sha_final svc hmac HMAC_SHA256_SIZE_BYTES d3 of (status, d4, hmac1, _) \<Rightarrow>
         (status, ctx\<lparr>digest_ctx := d4\<rparr>, hmac1))"

text \<open>\<open>junk\<close> is what the stack holds before: a context, and octets.\<close>

definition hmac_sha256 ::
    "sha_service \<Rightarrow> hmac_sha256_ctx \<times> u8 list \<Rightarrow> u8 list option \<Rightarrow> u8 list option \<Rightarrow> u8 list \<Rightarrow> sev_status \<times> u8 list" where
  "hmac_sha256 svc junk msg key hmac =
     (case (msg, key) of
        (Some m, Some k) \<Rightarrow>
          if length m = 0 \<or> length k = 0 then (ERR_INVALID_PARAMS, hmac)
          else case hmac_sha256_init svc key (fst junk) of (status, ctx1) \<Rightarrow>
            if status \<noteq> SEV_STATUS_SUCCESS then (status, hmac) else
            case hmac_sha256_update svc msg ctx1 of (status, ctx2) \<Rightarrow>
            if status \<noteq> SEV_STATUS_SUCCESS then (status, hmac) else
            case hmac_sha256_final svc (snd junk) hmac ctx2 of (status, _, hmac1) \<Rightarrow> (status, hmac1)
      | _ \<Rightarrow> (ERR_INVALID_PARAMS, hmac))"

definition hmac_sha256_verify :: "u8 list option \<Rightarrow> u8 list option \<Rightarrow> sev_status" where
  "hmac_sha256_verify hmac valid_hmac =
     (if hmac = None \<or> valid_hmac = None then ERR_INVALID_PARAMS
      else if secure_compare valid_hmac hmac HMAC_SHA256_SIZE_BYTES \<noteq> 0 then SEV_STATUS_BAD_MEASUREMENT
      else SEV_STATUS_SUCCESS)"

definition hmac_sha256_verify_msg ::
    "sha_service \<Rightarrow> hmac_sha256_ctx \<times> u8 list \<Rightarrow> u8 list option \<Rightarrow> u8 list option \<Rightarrow> u8 list option \<Rightarrow> sev_status" where
  "hmac_sha256_verify_msg svc junk msg key valid_hmac =
     (case (msg, key, valid_hmac) of
        (Some m, Some k, Some v) \<Rightarrow>
          if length m = 0 \<or> length k = 0 then ERR_INVALID_PARAMS
          else case hmac_sha256 svc junk msg key (replicate HMAC_SHA256_SIZE_BYTES 0) of (status, hmac) \<Rightarrow>
            if status \<noteq> SEV_STATUS_SUCCESS then status
            else if secure_compare (Some hmac) valid_hmac HMAC_SHA256_SIZE_BYTES \<noteq> 0 then SEV_STATUS_BAD_MEASUREMENT
            else SEV_STATUS_SUCCESS
      | _ \<Rightarrow> ERR_INVALID_PARAMS)"

section \<open>Key derivation\<close>

definition NIST_KDF_H_BYTES :: nat where "NIST_KDF_H_BYTES = HMAC_SHA256_SIZE_BYTES"
definition NIST_KDF_H :: nat where "NIST_KDF_H = NIST_KDF_H_BYTES * 8"

record nist_kdf_prf_params =
  kdf_key :: "u8 list option"
  kdf_i :: u32
  kdf_label :: "u8 list option"
  kdf_context :: "u8 list option"
  kdf_l :: u32

text \<open>The inputs of the digest, in order; a context of length 0 is left out. The octets of \<open>i\<close> and \<open>l\<close>
  are those of the machine's representation, least significant first.\<close>

definition prf_inputs :: "nist_kdf_prf_params \<Rightarrow> u8 list option list" where
  "prf_inputs p =
     [Some (bytes32 (kdf_i p)), kdf_label p, Some [0]] @
     (case kdf_context p of Some c \<Rightarrow> if length c \<noteq> 0 then [Some c] else [] | None \<Rightarrow> []) @
     [Some (bytes32 (kdf_l p))]"

definition nist_kdf_prf ::
    "sha_service \<Rightarrow> hmac_sha256_ctx \<times> u8 list \<Rightarrow> u8 list \<Rightarrow> nist_kdf_prf_params \<Rightarrow> sev_status \<times> u8 list" where
  "nist_kdf_prf svc junk out p =
     (if length out \<noteq> NIST_KDF_H_BYTES \<or> kdf_key p = None \<or> kdf_label p = None then (ERR_INVALID_PARAMS, out)
      else case hmac_sha256_init svc (kdf_key p) (fst junk) of (status, ctx1) \<Rightarrow>
        if status \<noteq> SEV_STATUS_SUCCESS then (status, out) else
        case iter_err (hmac_sha256_update svc) (prf_inputs p) ctx1 of (status, ctx2) \<Rightarrow>
        if status \<noteq> SEV_STATUS_SUCCESS then (status, out) else
        case hmac_sha256_final svc (snd junk) (replicate HMAC_SHA256_SIZE_BYTES 0) ctx2 of (status, _, hmac) \<Rightarrow>
        if status \<noteq> SEV_STATUS_SUCCESS then (status, out)
        else (SEV_STATUS_SUCCESS, put_bytes 0 (take (length out) hmac) out))"

text \<open>The loop: the remaining values of \<open>i\<close>, the offset and the octets left.\<close>

fun kdf_loop ::
    "sha_service \<Rightarrow> hmac_sha256_ctx \<times> u8 list \<Rightarrow> u8 list option \<Rightarrow> u8 list option \<Rightarrow> u8 list option \<Rightarrow> u32 \<Rightarrow>
     nat list \<Rightarrow> nat \<Rightarrow> nat \<Rightarrow> u8 list \<Rightarrow> u8 list \<Rightarrow> sev_status \<times> u8 list" where
  "kdf_loop svc junk key label context l [] offset bytes_left prf_out key_out = (SEV_STATUS_SUCCESS, key_out)"
| "kdf_loop svc junk key label context l (i # is) offset bytes_left prf_out key_out =
     (case nist_kdf_prf svc junk prf_out
         \<lparr>kdf_key = key, kdf_i = of_nat i, kdf_label = label, kdf_context = context, kdf_l = l\<rparr> of
        (status, prf_out1) \<Rightarrow>
          if status \<noteq> SEV_STATUS_SUCCESS then (status, key_out)
          else if bytes_left \<le> NIST_KDF_H_BYTES
          then kdf_loop svc junk key label context l is offset bytes_left prf_out1
                 (put_bytes offset (take bytes_left prf_out1) key_out)
          else kdf_loop svc junk key label context l is (offset + NIST_KDF_H_BYTES) (bytes_left - NIST_KDF_H_BYTES) prf_out1
                 (put_bytes offset prf_out1 key_out))"

definition nist_kdf ::
    "sha_service \<Rightarrow> hmac_sha256_ctx \<times> u8 list \<Rightarrow> u8 list option \<Rightarrow> u8 list option \<Rightarrow> u8 list option \<Rightarrow> u8 list option \<Rightarrow>
     sev_status \<times> u8 list option" where
  "nist_kdf svc junk key_out key_in label context =
     (case key_out of
        None \<Rightarrow> (ERR_INVALID_PARAMS, None)
      | Some ko \<Rightarrow>
          let l = of_nat (length ko) * 8 :: u32;
              n = (l - 1) div of_nat NIST_KDF_H + 1
          in case kdf_loop svc junk key_in label context l [1..<unat n + 1] 0 (length ko)
                 (replicate NIST_KDF_H_BYTES 0) ko of
               (status, ko1) \<Rightarrow> (status, Some ko1))"

definition kdf_derive ::
    "sha_service \<Rightarrow> hmac_sha256_ctx \<times> u8 list \<Rightarrow> u8 list option \<Rightarrow> u8 list option \<Rightarrow> u8 list option \<Rightarrow> u8 list option \<Rightarrow>
     sev_status \<times> u8 list option" where
  "kdf_derive svc junk key_out key_in label context = nist_kdf svc junk key_out key_in label context"

end
