(* ===== verification/Sev_DigestStream.thy ===== *)
theory Sev_DigestStream
  imports Sev_Digest
begin

text \<open>
  The streaming digests compute the digest of the whole message, however it is cut into updates; the
  keyed digest and the key derivation built on them equal their reference definitions.

  What the engine does is described by an algorithm on block-aligned data: an initial value, a
  function that absorbs whole blocks, one that finishes with the remaining octets. \<open>sha_laws\<close> says that
  the engine computes it.
\<close>

section \<open>The interface of a streaming digest\<close>

text \<open>The client's view: \<open>repr c m\<close> is that the context \<open>c\<close> has absorbed \<open>m\<close>.\<close>

locale streaming_digest =
  fixes repr :: "'c \<Rightarrow> u8 list \<Rightarrow> bool"
    and absorb :: "u8 list option \<Rightarrow> 'c \<Rightarrow> sev_status \<times> 'c"
    and limit :: nat
  assumes absorb_some: "repr c m \<Longrightarrow> length m + length x < limit \<Longrightarrow>
      \<exists>c'. absorb (Some x) c = (SEV_STATUS_SUCCESS, c') \<and> repr c' (m @ x)"
    and absorb_none: "absorb None c = (ERR_INVALID_PARAMS, c)"
begin

lemma absorb_all:
  assumes "repr c m" "length m + length (concat xs) < limit"
  shows "\<exists>c'. iter_err absorb (map Some xs) c = (SEV_STATUS_SUCCESS, c') \<and> repr c' (m @ concat xs)"
  using assms
proof (induction xs arbitrary: c m)
  case (Cons x xs)
  then obtain c1 where c1: "absorb (Some x) c = (SEV_STATUS_SUCCESS, c1)" "repr c1 (m @ x)"
    using absorb_some [of c m x] by auto
  then show ?case using Cons.IH [of c1 "m @ x"] Cons.prems by auto
qed simp

text \<open>The cuts do not matter.\<close>

lemma absorb_at_once:
  assumes "repr c m" "length m + length (concat xs) < limit" "concat xs = concat ys"
  shows "\<exists>c1 c2. iter_err absorb (map Some xs) c = (SEV_STATUS_SUCCESS, c1) \<and>
    iter_err absorb (map Some ys) c = (SEV_STATUS_SUCCESS, c2) \<and> repr c1 (m @ concat ys) \<and> repr c2 (m @ concat ys)"
  using absorb_all [OF assms(1), of xs] absorb_all [OF assms(1), of ys] assms(2,3) by auto

lemma absorb_missing:
  assumes "repr c m" "length m + length (concat xs) < limit"
  shows "fst (iter_err absorb (map Some xs @ None # ys) c) = ERR_INVALID_PARAMS"
  using absorb_all [OF assms] absorb_none by (auto simp: iter_err_append)

end

section \<open>What the engine computes\<close>

record sha_algorithm =
  sha_iv :: "u8 list"
  sha_blocks :: "u8 list \<Rightarrow> u8 list \<Rightarrow> u8 list"
  sha_finish :: "u8 list \<Rightarrow> nat \<Rightarrow> u8 list \<Rightarrow> u8 list"

text \<open>The intermediate digest is read from the first octets of the storage.\<close>

definition sha_laws :: "sha_service \<Rightarrow> sha_algorithm \<Rightarrow> sha_type \<Rightarrow> bool" where
  "sha_laws svc alg t \<longleftrightarrow>
     t \<in> {SHA_TYPE_256, SHA_TYPE_384} \<and>
     (\<forall>d. svc \<lparr>SHAType = t, sha_data = [], digest_len = d, intermediate_digest = None, intermediate_msg_len = 0,
        som = True, eom = False\<rparr> = (True, sha_iv alg)) \<and>
     length (sha_iv alg) = INTERMEDIATE_DIGEST_SIZE t \<and>
     (\<forall>h x n. length h = DIGEST_STORAGE_BYTES \<longrightarrow> x \<noteq> [] \<longrightarrow> length x mod block_size t = 0 \<longrightarrow>
        svc \<lparr>SHAType = t, sha_data = x, digest_len = INTERMEDIATE_DIGEST_SIZE t, intermediate_digest = Some h,
          intermediate_msg_len = n, som = False, eom = False\<rparr> =
        (True, sha_blocks alg (take (INTERMEDIATE_DIGEST_SIZE t) h) x)) \<and>
     (\<forall>h x. length h = INTERMEDIATE_DIGEST_SIZE t \<longrightarrow> length (sha_blocks alg h x) = INTERMEDIATE_DIGEST_SIZE t) \<and>
     (\<forall>h x n. length h = DIGEST_STORAGE_BYTES \<longrightarrow>
        svc \<lparr>SHAType = t, sha_data = x, digest_len = FINAL_DIGEST_SIZE t, intermediate_digest = Some h,
          intermediate_msg_len = n, som = False, eom = True\<rparr> =
        (True, sha_finish alg (take (INTERMEDIATE_DIGEST_SIZE t) h) (unat n) x)) \<and>
     (\<forall>h n x. length (sha_finish alg h n x) = FINAL_DIGEST_SIZE t) \<and>
     (\<forall>h. sha_blocks alg h [] = h) \<and>
     (\<forall>h x y. length x mod block_size t = 0 \<longrightarrow> length y mod block_size t = 0 \<longrightarrow>
        sha_blocks alg h (x @ y) = sha_blocks alg (sha_blocks alg h x) y)"

definition whole_blocks :: "sha_type \<Rightarrow> nat \<Rightarrow> nat" where
  "whole_blocks t n = n - n mod block_size t"

text \<open>The digest of a message, in one go.\<close>

definition sha_digest :: "sha_algorithm \<Rightarrow> sha_type \<Rightarrow> u8 list \<Rightarrow> u8 list" where
  "sha_digest alg t m =
     (let k = whole_blocks t (length m) in sha_finish alg (sha_blocks alg (sha_iv alg) (take k m)) k (drop k m))"

section \<open>What a context stands for\<close>

definition ctx_repr :: "sha_service \<Rightarrow> sha_algorithm \<Rightarrow> sha_type \<Rightarrow> digest_sha_ctx \<Rightarrow> u8 list \<Rightarrow> bool" where
  "ctx_repr svc alg t c m \<longleftrightarrow>
     sha_laws svc alg t \<and> dc_sha_type c = t \<and> length (dc_h c) = DIGEST_STORAGE_BYTES \<and>
     length (dc_msg_block c) = SHA_BLOCK_SIZE_BYTES \<and> length m < 2 ^ 32 \<and>
     dc_bytes_used c = length m mod block_size t \<and>
     dc_length c = of_nat (whole_blocks t (length m)) \<and>
     take (INTERMEDIATE_DIGEST_SIZE t) (dc_h c) = sha_blocks alg (sha_iv alg) (take (whole_blocks t (length m)) m) \<and>
     take (length m mod block_size t) (dc_msg_block c) = drop (whole_blocks t (length m)) m"

lemmas sizes = block_size_def SHA256_BLOCK_SIZE_BYTES_def SHA384_BLOCK_SIZE_BYTES_def SHA_BLOCK_SIZE_BYTES_def
  INTERMEDIATE_DIGEST_SIZE_def FINAL_DIGEST_SIZE_def DIGEST_SHA256_SIZE_BYTES_def DIGEST_SHA384_SIZE_BYTES_def
  DIGEST_STORAGE_BYTES_def

lemma size_bounds: "0 < block_size t" "block_size t \<le> SHA_BLOCK_SIZE_BYTES"
  "INTERMEDIATE_DIGEST_SIZE t \<le> DIGEST_STORAGE_BYTES" "FINAL_DIGEST_SIZE t \<le> INTERMEDIATE_DIGEST_SIZE t"
  by (simp_all add: sizes)

lemma whole_blocks: "whole_blocks t n mod block_size t = 0" "whole_blocks t n \<le> n"
  "n = whole_blocks t n + n mod block_size t"
  by (simp_all add: whole_blocks_def minus_mod_eq_mult_div)

lemma mask_block: "n AND (block_size t - 1) = n mod block_size t"
proof -
  have "block_size t = 2 ^ (if t = SHA_TYPE_256 then 6 else 7)" by (simp add: sizes)
  then show ?thesis by (metis take_bit_eq_mask mask_eq_exp_minus_1 take_bit_eq_mod)
qed

lemma put_bytes_length: "k + length x \<le> length buf \<Longrightarrow> length (put_bytes k x buf) = length buf"
  by (simp add: put_bytes_def)

lemma put_bytes_take: "k + length x \<le> length buf \<Longrightarrow> take (k + length x) (put_bytes k x buf) = take k buf @ x"
  by (simp add: put_bytes_def)

lemma put_bytes_0: "put_bytes 0 x buf = x @ drop (length x) buf"
  by (simp add: put_bytes_def)

text \<open>The engine absorbs whole blocks.\<close>

lemma sha_update_blocks:
  assumes "sha_laws svc alg t" "dc_sha_type c = t" "length (dc_h c) = DIGEST_STORAGE_BYTES" "x \<noteq> []"
    "length x mod block_size t = 0"
  shows "\<exists>h. sha_update svc x c = (SEV_STATUS_SUCCESS, c\<lparr>dc_h := h, dc_length := dc_length c + of_nat (length x)\<rparr>) \<and>
    length h = DIGEST_STORAGE_BYTES \<and>
    take (INTERMEDIATE_DIGEST_SIZE t) h = sha_blocks alg (take (INTERMEDIATE_DIGEST_SIZE t) (dc_h c)) x"
proof -
  let ?n = "INTERMEDIATE_DIGEST_SIZE t"
  let ?b = "sha_blocks alg (take ?n (dc_h c)) x"
  let ?h = "put_bytes 0 (take ?n ?b) (dc_h c)"
  have t: "t = SHA_TYPE_256 \<or> t = SHA_TYPE_384" using assms(1) by (simp add: sha_laws_def)
  have lb: "length ?b = ?n" using assms(1,3) size_bounds(3) [of t] by (simp add: sha_laws_def)
  have call: "svc \<lparr>SHAType = t, sha_data = x, digest_len = ?n, intermediate_digest = Some (dc_h c),
      intermediate_msg_len = dc_length c, som = False, eom = False\<rparr> = (True, ?b)"
    using assms(1,3-5) by (simp add: sha_laws_def)
  have "sha_update svc x c = (SEV_STATUS_SUCCESS, c\<lparr>dc_h := ?h, dc_length := dc_length c + of_nat (length x)\<rparr>)"
    using assms(2,4,5) t call
    by (auto simp: sha_update_def sev_hal_sha_def Let_def block_size_def SHA256_BLOCK_SIZE_BYTES_def SHA384_BLOCK_SIZE_BYTES_def)
  moreover have "length ?h = DIGEST_STORAGE_BYTES" using lb assms(3) size_bounds(3) [of t] by (simp add: put_bytes_length)
  moreover have "take ?n ?h = ?b" using lb by (simp add: put_bytes_0)
  ultimately show ?thesis by blast
qed

text \<open>A context between blocks: it has absorbed \<open>m\<close>, and its block holds nothing.\<close>

definition ctx_aligned :: "sha_service \<Rightarrow> sha_algorithm \<Rightarrow> sha_type \<Rightarrow> digest_sha_ctx \<Rightarrow> u8 list \<Rightarrow> bool" where
  "ctx_aligned svc alg t c m \<longleftrightarrow>
     sha_laws svc alg t \<and> dc_sha_type c = t \<and> length (dc_h c) = DIGEST_STORAGE_BYTES \<and>
     length (dc_msg_block c) = SHA_BLOCK_SIZE_BYTES \<and> length m mod block_size t = 0 \<and>
     dc_length c = of_nat (length m) \<and> take (INTERMEDIATE_DIGEST_SIZE t) (dc_h c) = sha_blocks alg (sha_iv alg) m"

lemma aligned_update:
  assumes "ctx_aligned svc alg t c m" "x \<noteq> []" "length x mod block_size t = 0"
  shows "\<exists>c'. sha_update svc x c = (SEV_STATUS_SUCCESS, c') \<and> ctx_aligned svc alg t c' (m @ x) \<and>
    dc_bytes_used c' = dc_bytes_used c \<and> dc_msg_block c' = dc_msg_block c"
proof -
  have a: "sha_laws svc alg t" "dc_sha_type c = t" "length (dc_h c) = DIGEST_STORAGE_BYTES" "length m mod block_size t = 0"
    "take (INTERMEDIATE_DIGEST_SIZE t) (dc_h c) = sha_blocks alg (sha_iv alg) m"
    using assms(1) by (simp_all add: ctx_aligned_def)
  obtain h where h: "sha_update svc x c = (SEV_STATUS_SUCCESS, c\<lparr>dc_h := h, dc_length := dc_length c + of_nat (length x)\<rparr>)"
    "length h = DIGEST_STORAGE_BYTES"
    "take (INTERMEDIATE_DIGEST_SIZE t) h = sha_blocks alg (take (INTERMEDIATE_DIGEST_SIZE t) (dc_h c)) x"
    using sha_update_blocks [OF a(1-3) assms(2,3)] by blast
  have lm: "(length m + length x) mod block_size t = 0"
    using a(4) assms(3) mod_add_left_eq [of "length m" "block_size t" "length x"] by simp
  have "sha_blocks alg (sha_iv alg) (m @ x) = sha_blocks alg (sha_blocks alg (sha_iv alg) m) x"
    using a(1,4) assms(3) by (simp add: sha_laws_def)
  then have "ctx_aligned svc alg t (c\<lparr>dc_h := h, dc_length := dc_length c + of_nat (length x)\<rparr>) (m @ x)"
    using assms(1) a h lm by (simp add: ctx_aligned_def)
  then show ?thesis using h(1) by simp
qed

lemma aligned_absorb:
  assumes a: "ctx_aligned svc alg t c m" and len: "length m + length x < 2 ^ 32"
  shows "\<exists>c'. absorb_blocks svc x c = (SEV_STATUS_SUCCESS, c') \<and> ctx_repr svc alg t c' (m @ x)"
proof -
  have t: "dc_sha_type c = t" using a by (simp add: ctx_aligned_def)
  define r where "r = length x mod block_size t"
  define n where "n = length x - r"
  let ?c1 = "c\<lparr>dc_bytes_used := r\<rparr>"
  have n: "n = whole_blocks t (length x)" by (simp add: n_def r_def whole_blocks_def)
  have a1: "ctx_aligned svc alg t ?c1 m" using a by (simp add: ctx_aligned_def)
  have mod0: "length m mod block_size t = 0" using a by (simp add: ctx_aligned_def)
  have ln: "length (take n x) mod block_size t = 0" using whole_blocks(1,2) [of t "length x"] n by simp
  have "\<exists>c2. (if n > 0 then sha_update svc (take n x) ?c1 else (SEV_STATUS_SUCCESS, ?c1)) = (SEV_STATUS_SUCCESS, c2) \<and>
      ctx_aligned svc alg t c2 (m @ take n x) \<and> dc_bytes_used c2 = r"
  proof (cases "n > 0")
    case True
    then have "take n x \<noteq> []" by (auto simp: n_def)
    then show ?thesis using aligned_update [OF a1 _ ln] True by auto
  qed (use a1 in simp)
  then obtain c2 where c2: "(if n > 0 then sha_update svc (take n x) ?c1 else (SEV_STATUS_SUCCESS, ?c1)) = (SEV_STATUS_SUCCESS, c2)"
    "ctx_aligned svc alg t c2 (m @ take n x)" "dc_bytes_used c2 = r" by blast
  let ?c3 = "c2\<lparr>dc_msg_block := put_bytes 0 (drop n x) (dc_msg_block c2)\<rparr>"
  have run: "absorb_blocks svc x c = (SEV_STATUS_SUCCESS, ?c3)"
    unfolding absorb_blocks_def t mask_block Let_def r_def [symmetric] n_def [symmetric] c2(1) by simp
  have rest: "length (drop n x) = r" using whole_blocks(2,3) [where t = t and n = "length x"] n by (simp add: n_def r_def)
  have wb: "whole_blocks t (length (m @ x)) = length m + n" "length (m @ x) mod block_size t = r"
  proof -
    have "length (m @ x) mod block_size t = r"
      using mod_add_left_eq [of "length m" "block_size t" "length x"] mod0 by (simp add: r_def)
    then show "whole_blocks t (length (m @ x)) = length m + n" "length (m @ x) mod block_size t = r"
      using rest by (simp_all add: whole_blocks_def n_def)
  qed
  have nx: "n \<le> length x" by (simp add: n_def)
  have rb: "r \<le> SHA_BLOCK_SIZE_BYTES" unfolding r_def using size_bounds(1,2) [of t] mod_less_divisor less_imp_le le_trans by blast
  have "ctx_repr svc alg t ?c3 (m @ x)"
    using c2(2,3) rest rb len wb nx
    by (simp add: ctx_repr_def ctx_aligned_def put_bytes_length put_bytes_0)
  with run show ?thesis by blast
qed

text \<open>A block that an earlier update left is completed.\<close>

lemma fill_completes:
  assumes c: "ctx_repr svc alg t c m" and used: "0 < dc_bytes_used c" and x: "block_size t - dc_bytes_used c \<le> length x"
  shows "\<exists>c'. fill_block svc x c = (SEV_STATUS_SUCCESS, c', drop (block_size t - dc_bytes_used c) x) \<and>
    ctx_aligned svc alg t c' (m @ take (block_size t - dc_bytes_used c) x)"
proof -
  define r where "r = length m mod block_size t"
  define k where "k = whole_blocks t (length m)"
  define y where "y = take (block_size t - r) x"
  have p: "sha_laws svc alg t" "dc_sha_type c = t" "dc_bytes_used c = r" "length (dc_msg_block c) = SHA_BLOCK_SIZE_BYTES"
    "length (dc_h c) = DIGEST_STORAGE_BYTES" "dc_length c = of_nat k" "take r (dc_msg_block c) = drop k m"
    "take (INTERMEDIATE_DIGEST_SIZE t) (dc_h c) = sha_blocks alg (sha_iv alg) (take k m)"
    using c by (simp_all add: ctx_repr_def r_def k_def)
  have rb: "r < block_size t" "block_size t \<le> SHA_BLOCK_SIZE_BYTES" using size_bounds(1,2) by (simp_all add: r_def)
  have ly: "length y = block_size t - r" using x p(3) by (simp add: y_def)
  have km: "k \<le> length m" "length m = k + r" "k mod block_size t = 0" using whole_blocks [where t = t and n = "length m"] by (simp_all add: k_def r_def)
  define c1 where "c1 = c\<lparr>dc_msg_block := put_bytes r y (dc_msg_block c)\<rparr>"
  have al: "ctx_aligned svc alg t c1 (take k m)"
    using p rb ly km by (simp add: ctx_aligned_def c1_def put_bytes_length)
  have blk: "take (block_size t) (dc_msg_block c1) = drop k m @ y"
    using put_bytes_take [of r y "dc_msg_block c"] p(4,7) rb ly by (simp add: c1_def)
  have lb: "length (drop k m @ y) = block_size t" using km ly rb by simp
  have nb: "drop k m @ y \<noteq> []" by (rule notI) (use lb size_bounds(1) [of t] in \<open>simp only: list.size(3)\<close>)
  have lb0: "length (drop k m @ y) mod block_size t = 0" unfolding lb by simp
  obtain c' where u: "sha_update svc (drop k m @ y) c1 = (SEV_STATUS_SUCCESS, c')"
    "ctx_aligned svc alg t c' (take k m @ drop k m @ y)"
    using aligned_update [OF al nb lb0] by blast
  have "fill_block svc x c = (SEV_STATUS_SUCCESS, c', drop (block_size t - r) x)"
    using u(1) blk unfolding fill_block_def Let_def p(2,3) y_def [symmetric] c1_def [symmetric] by simp
  moreover have m: "take k m @ drop k m @ y = m @ y" by (simp flip: append_assoc)
  have "ctx_aligned svc alg t c' (m @ y)" using u(2) unfolding m .
  ultimately show ?thesis by (simp add: p(3) y_def)
qed

lemma update_small:
  assumes c: "ctx_repr svc alg t c m" and x: "length x < block_size t - dc_bytes_used c" and len: "length m + length x < 2 ^ 32"
  shows "ctx_repr svc alg t (c\<lparr>dc_msg_block := put_bytes (dc_bytes_used c) x (dc_msg_block c),
    dc_bytes_used := dc_bytes_used c + length x\<rparr>) (m @ x)"
proof -
  define r where "r = length m mod block_size t"
  define k where "k = whole_blocks t (length m)"
  have p: "dc_bytes_used c = r" "length (dc_msg_block c) = SHA_BLOCK_SIZE_BYTES" "take r (dc_msg_block c) = drop k m"
    using c by (simp_all add: ctx_repr_def r_def k_def)
  have km: "length m = k + r" "k mod block_size t = 0" "k \<le> length m" using whole_blocks [where t = t and n = "length m"] by (simp_all add: k_def r_def)
  have small: "r + length x < block_size t" using x p(1) by simp
  have "length (m @ x) mod block_size t = (k mod block_size t + (r + length x)) mod block_size t"
    unfolding mod_add_left_eq using km(1) by (simp add: add.assoc)
  then have w: "length (m @ x) mod block_size t = r + length x" using km(2) small by simp
  then have wb: "whole_blocks t (length (m @ x)) = k" using km(1) by (simp add: whole_blocks_def)
  have fits: "r + length x \<le> length (dc_msg_block c)" using small size_bounds(2) [of t] p(2) by simp
  show ?thesis
    using c w wb put_bytes_length [OF fits] put_bytes_take [OF fits] p km(3) len
    by (simp add: ctx_repr_def k_def)
qed

lemma update_repr:
  assumes c: "ctx_repr svc alg t c m" and len: "length m + length x < 2 ^ 32"
  shows "\<exists>c'. digest_sha_update svc (Some x) c = (SEV_STATUS_SUCCESS, c') \<and> ctx_repr svc alg t c' (m @ x)"
proof -
  have t: "dc_sha_type c = t" using c by (simp add: ctx_repr_def)
  consider "0 < dc_bytes_used c" "length x < block_size t - dc_bytes_used c"
    | "0 < dc_bytes_used c" "block_size t - dc_bytes_used c \<le> length x" | "dc_bytes_used c = 0" by linarith
  then show ?thesis
  proof cases
    case 1
    then show ?thesis using update_small [OF c 1(2) len] t by (simp add: digest_sha_update_def)
  next
    case 2
    let ?n = "block_size t - dc_bytes_used c"
    obtain c1 where c1: "fill_block svc x c = (SEV_STATUS_SUCCESS, c1, drop ?n x)" "ctx_aligned svc alg t c1 (m @ take ?n x)"
      using fill_completes [OF c 2] by blast
    have l: "length (m @ take ?n x) + length (drop ?n x) < 2 ^ 32" using len 2(2) by simp
    obtain c2 where "absorb_blocks svc (drop ?n x) c1 = (SEV_STATUS_SUCCESS, c2)"
      "ctx_repr svc alg t c2 ((m @ take ?n x) @ drop ?n x)"
      using aligned_absorb [OF c1(2) l] by blast
    then show ?thesis using 2 c1(1) t by (simp add: digest_sha_update_def)
  next
    case 3
    then have "ctx_aligned svc alg t c m" using c by (simp add: ctx_repr_def ctx_aligned_def whole_blocks_def)
    then show ?thesis using aligned_absorb [of svc alg t c m x] len 3 by (simp add: digest_sha_update_def)
  qed
qed

interpretation digest: streaming_digest "ctx_repr svc alg t" "digest_sha_update svc" "2 ^ 32"
  by unfold_locales (use update_repr in \<open>auto simp: digest_sha_update_def\<close>)

section \<open>The start and the end\<close>

lemma init_repr:
  assumes "sha_laws svc alg t"
  shows "\<exists>c'. digest_sha_init svc c t = (SEV_STATUS_SUCCESS, c') \<and> ctx_repr svc alg t c' []"
proof -
  have t: "t = SHA_TYPE_256 \<or> t = SHA_TYPE_384" and iv: "length (sha_iv alg) = INTERMEDIATE_DIGEST_SIZE t"
    and call: "\<And>d. svc \<lparr>SHAType = t, sha_data = [], digest_len = d, intermediate_digest = None, intermediate_msg_len = 0,
        som = True, eom = False\<rparr> = (True, sha_iv alg)" and nil: "\<And>h. sha_blocks alg h [] = h"
    using assms by (simp_all add: sha_laws_def)
  let ?h = "put_bytes 0 (sha_iv alg) (replicate DIGEST_STORAGE_BYTES 0)"
  have run: "digest_sha_init svc c t = (SEV_STATUS_SUCCESS, \<lparr>dc_h = ?h,
      dc_msg_block = replicate SHA_BLOCK_SIZE_BYTES 0, dc_bytes_used = 0, dc_length = 0, dc_sha_type = t\<rparr>)"
    using t call by (auto simp: digest_sha_init_def sha_init_def sev_hal_sha_def)
  have lh: "length ?h = DIGEST_STORAGE_BYTES" "take (INTERMEDIATE_DIGEST_SIZE t) ?h = sha_iv alg"
    using iv size_bounds(3) [of t] by (simp_all add: put_bytes_0)
  have "ctx_repr svc alg t \<lparr>dc_h = ?h, dc_msg_block = replicate SHA_BLOCK_SIZE_BYTES 0, dc_bytes_used = 0,
      dc_length = 0, dc_sha_type = t\<rparr> []"
    using assms lh nil by (simp add: ctx_repr_def whole_blocks_def)
  with run show ?thesis by blast
qed

lemma final_repr:
  assumes c: "ctx_repr svc alg t c m" and d: "FINAL_DIGEST_SIZE t \<le> length d"
  shows "\<exists>c'. digest_sha_final svc d len c = (SEV_STATUS_SUCCESS, c', put_bytes 0 (sha_digest alg t m) d, FINAL_DIGEST_SIZE t)"
proof -
  have laws: "sha_laws svc alg t" and p: "dc_sha_type c = t" "dc_bytes_used c = length m mod block_size t"
      "take (length m mod block_size t) (dc_msg_block c) = drop (whole_blocks t (length m)) m"
      "dc_length c = of_nat (whole_blocks t (length m))" "length m < 2 ^ 32" "length (dc_h c) = DIGEST_STORAGE_BYTES"
      "take (INTERMEDIATE_DIGEST_SIZE t) (dc_h c) = sha_blocks alg (sha_iv alg) (take (whole_blocks t (length m)) m)"
    using c by (simp_all add: ctx_repr_def)
  let ?x = "drop (whole_blocks t (length m)) m"
  have t: "t = SHA_TYPE_256 \<or> t = SHA_TYPE_384" using laws by (simp add: sha_laws_def)
  have "whole_blocks t (length m) < 2 ^ 32" using whole_blocks(2) [of t "length m"] p(5) by linarith
  then have un: "unat (of_nat (whole_blocks t (length m)) :: u32) = whole_blocks t (length m)"
    by (simp add: unsigned_of_nat take_bit_nat_eq_self)
  have call: "svc \<lparr>SHAType = t, sha_data = ?x, digest_len = FINAL_DIGEST_SIZE t, intermediate_digest = Some (dc_h c),
      intermediate_msg_len = dc_length c, som = False, eom = True\<rparr> = (True, sha_digest alg t m)"
    using laws p(4,6,7) un by (simp add: sha_laws_def sha_digest_def Let_def)
  have ls: "length (sha_digest alg t m) = FINAL_DIGEST_SIZE t" using laws by (simp add: sha_laws_def sha_digest_def Let_def)
  show ?thesis
    using t call ls p(1-3) by (auto simp: digest_sha_final_def sha_final_def sev_hal_sha_def Let_def)
qed

section \<open>The keyed digest\<close>

text \<open>The keyed digest as FIPS 198-1 defines it for a key of at most one block of 64 octets: the key is
  filled up with zeros to a block and combined by exclusive or with the octet 5C for the outer and
  36 for the inner digest.\<close>

definition hmac_reference :: "sha_algorithm \<Rightarrow> u8 list \<Rightarrow> u8 list \<Rightarrow> u8 list" where
  "hmac_reference alg key m =
     (let k0 = key @ replicate (64 - length key) 0;
          outer = map (\<lambda>b. b XOR 0x5C) k0; inner = map (\<lambda>b. b XOR 0x36) k0
      in sha_digest alg SHA_TYPE_256 (outer @ sha_digest alg SHA_TYPE_256 (inner @ m)))"

lemma padded_key_block:
  "length key \<le> 64 \<Longrightarrow> padded_key v key = map (\<lambda>b. b XOR v) (key @ replicate (64 - length key) 0)"
  by (simp add: padded_key_def put_bytes_0 HMAC_SHA256_BLOCK_SIZE_BYTES_def)

lemma hmac_reference_padded:
  "length key \<le> 64 \<Longrightarrow> hmac_reference alg key m =
     sha_digest alg SHA_TYPE_256 (padded_key HMAC_OPAD_VALUE key @
       sha_digest alg SHA_TYPE_256 (padded_key HMAC_IPAD_VALUE key @ m))"
  by (simp add: hmac_reference_def Let_def padded_key_block HMAC_OPAD_VALUE_def HMAC_IPAD_VALUE_def)

lemma length_padded_key: "length key \<le> 64 \<Longrightarrow> length (padded_key v key) = 64"
  by (simp add: padded_key_block)

definition hmac_repr :: "sha_service \<Rightarrow> sha_algorithm \<Rightarrow> u8 list \<Rightarrow> hmac_sha256_ctx \<Rightarrow> u8 list \<Rightarrow> bool" where
  "hmac_repr svc alg key c m \<longleftrightarrow>
     ctx_repr svc alg SHA_TYPE_256 (digest_ctx c) (padded_key HMAC_IPAD_VALUE key @ m) \<and>
     length key \<le> 64 \<and> take (hc_key_len c) (hc_key c) = key"

interpretation hmac: streaming_digest "hmac_repr svc alg key" "hmac_sha256_update svc" "2 ^ 32 - 64"
proof
  fix c and m x :: "u8 list" assume h: "hmac_repr svc alg key c m" "length m + length x < 2 ^ 32 - 64"
  let ?k = "padded_key HMAC_IPAD_VALUE key"
  have "length (?k @ m) + length x < 2 ^ 32" using h length_padded_key by (simp add: hmac_repr_def)
  then obtain d where "digest_sha_update svc (Some x) (digest_ctx c) = (SEV_STATUS_SUCCESS, d)"
    "ctx_repr svc alg SHA_TYPE_256 d ((?k @ m) @ x)"
    using update_repr h(1) unfolding hmac_repr_def by blast
  then show "\<exists>c'. hmac_sha256_update svc (Some x) c = (SEV_STATUS_SUCCESS, c') \<and> hmac_repr svc alg key c' (m @ x)"
    using h(1) by (simp add: hmac_sha256_update_def hmac_repr_def)
qed (simp add: hmac_sha256_update_def digest_sha_update_def)

lemma hmac_init_repr:
  assumes laws: "sha_laws svc alg SHA_TYPE_256" and k: "0 < length key" "length key \<le> 64" and c: "length (hc_key c) = 64"
  shows "\<exists>c'. hmac_sha256_init svc (Some key) c = (SEV_STATUS_SUCCESS, c') \<and> hmac_repr svc alg key c' []"
proof -
  obtain d1 where d1: "digest_sha_init svc (digest_ctx c) SHA_TYPE_256 = (SEV_STATUS_SUCCESS, d1)"
    "ctx_repr svc alg SHA_TYPE_256 d1 []" using init_repr [OF laws] by blast
  obtain d2 where d2: "digest_sha_update svc (Some (padded_key HMAC_IPAD_VALUE key)) d1 = (SEV_STATUS_SUCCESS, d2)"
    "ctx_repr svc alg SHA_TYPE_256 d2 (padded_key HMAC_IPAD_VALUE key)"
    using update_repr [OF d1(2), of "padded_key HMAC_IPAD_VALUE key"] length_padded_key [OF k(2)] by auto
  show ?thesis using d1(1) d2 k c
    by (simp add: hmac_sha256_init_def hmac_repr_def HMAC_SHA256_KEY_SIZE_BYTES_def put_bytes_0)
qed

lemma length_sha_digest: "sha_laws svc alg t \<Longrightarrow> length (sha_digest alg t m) = FINAL_DIGEST_SIZE t"
  by (simp add: sha_laws_def sha_digest_def Let_def)

lemma final_size_256: "FINAL_DIGEST_SIZE SHA_TYPE_256 = 32" "HMAC_SHA256_SIZE_BYTES = 32"
  by (simp_all add: sizes HMAC_SHA256_SIZE_BYTES_def)

lemma hmac_final_repr:
  assumes c: "hmac_repr svc alg key c m" and room: "length after_opad = 32" "length hmac = 32"
  shows "\<exists>c'. hmac_sha256_final svc after_opad hmac c = (SEV_STATUS_SUCCESS, c', hmac_reference alg key m)"
proof -
  let ?in = "sha_digest alg SHA_TYPE_256 (padded_key HMAC_IPAD_VALUE key @ m)"
  let ?outer = "padded_key HMAC_OPAD_VALUE key @ ?in"
  have laws: "sha_laws svc alg SHA_TYPE_256" and k: "length key \<le> 64" "take (hc_key_len c) (hc_key c) = key"
    using c by (simp_all add: hmac_repr_def ctx_repr_def)
  have li: "length ?in = 32" using length_sha_digest [OF laws] final_size_256 by simp
  obtain d1 where d1: "digest_sha_final svc after_opad HMAC_SHA256_BLOCK_SIZE_BYTES (digest_ctx c) =
      (SEV_STATUS_SUCCESS, d1, put_bytes 0 ?in after_opad, FINAL_DIGEST_SIZE SHA_TYPE_256)"
    using final_repr [of svc alg SHA_TYPE_256 "digest_ctx c" "padded_key HMAC_IPAD_VALUE key @ m" after_opad HMAC_SHA256_BLOCK_SIZE_BYTES]
      c room(1) final_size_256 by (auto simp: hmac_repr_def)
  obtain d2 where d2: "digest_sha_init svc d1 SHA_TYPE_256 = (SEV_STATUS_SUCCESS, d2)"
    "ctx_repr svc alg SHA_TYPE_256 d2 []" using init_repr [OF laws] by blast
  have inner: "take HMAC_SHA256_SIZE_BYTES (put_bytes 0 ?in after_opad) = ?in" using li by (simp add: put_bytes_0 final_size_256)
  obtain d3 where d3: "digest_sha_update svc (Some ?outer) d2 = (SEV_STATUS_SUCCESS, d3)" "ctx_repr svc alg SHA_TYPE_256 d3 ?outer"
    using update_repr [OF d2(2), of ?outer] length_padded_key [OF k(1)] li by auto
  obtain d4 where d4: "digest_sha_final svc hmac HMAC_SHA256_SIZE_BYTES d3 =
      (SEV_STATUS_SUCCESS, d4, put_bytes 0 (hmac_reference alg key m) hmac, FINAL_DIGEST_SIZE SHA_TYPE_256)"
    using final_repr [OF d3(2), of hmac HMAC_SHA256_SIZE_BYTES] room(2) final_size_256 by (auto simp: hmac_reference_padded [OF k(1)])
  have "length (hmac_reference alg key m) = 32"
    using length_sha_digest [OF laws] final_size_256 by (simp add: hmac_reference_def Let_def)
  then have "put_bytes 0 (hmac_reference alg key m) hmac = hmac_reference alg key m" using room(2) by (simp add: put_bytes_0)
  then show ?thesis using d1 d2(1) d3(1) d4 k(2) inner by (simp add: hmac_sha256_final_def Let_def)
qed

lemma hmac_computes:
  assumes laws: "sha_laws svc alg SHA_TYPE_256" and k: "0 < length key" "length key \<le> 64"
    and m: "m \<noteq> []" "length m < 2 ^ 32 - 64"
    and junk: "length (hc_key (fst junk)) = 64" "length (snd junk) = 32" "length hmac = 32"
  shows "hmac_sha256 svc junk (Some m) (Some key) hmac = (SEV_STATUS_SUCCESS, hmac_reference alg key m)"
proof -
  obtain c1 where c1: "hmac_sha256_init svc (Some key) (fst junk) = (SEV_STATUS_SUCCESS, c1)" "hmac_repr svc alg key c1 []"
    using hmac_init_repr [OF laws k junk(1)] by blast
  obtain c2 where c2: "hmac_sha256_update svc (Some m) c1 = (SEV_STATUS_SUCCESS, c2)" "hmac_repr svc alg key c2 m"
    using hmac.absorb_some [OF c1(2), of m] m(2) by auto
  show ?thesis using c1(1) c2(1) hmac_final_repr [OF c2(2) junk(2,3)] k m(1) by (auto simp: hmac_sha256_def)
qed

section \<open>The derived key\<close>

text \<open>What the code derives: counter and length enter the message in the order of the machine, least
  significant octet first.\<close>

definition prf_message :: "u32 \<Rightarrow> u8 list \<Rightarrow> u8 list \<Rightarrow> u32 \<Rightarrow> u8 list" where
  "prf_message i label context l = bytes32 i @ label @ [0] @ context @ bytes32 l"

text \<open>The output of the pseudo-random function for the counters 1, 2, ..., cut to the length of the key.\<close>

definition kdf_reference :: "sha_algorithm \<Rightarrow> u8 list \<Rightarrow> u8 list \<Rightarrow> u8 list \<Rightarrow> nat \<Rightarrow> u8 list" where
  "kdf_reference alg key label context n =
     take n (concat (map (\<lambda>i. hmac_reference alg key (prf_message (of_nat i) label context (of_nat (8 * n))))
       [1..<(n + 31) div 32 + 1]))"

lemma prf_computes:
  assumes laws: "sha_laws svc alg SHA_TYPE_256" and k: "0 < length key" "length key \<le> 64"
    and len: "length label + length context < 2 ^ 31"
    and junk: "length (hc_key (fst junk)) = 64" "length (snd junk) = 32" and out: "length out = 32"
  shows "nist_kdf_prf svc junk out
      \<lparr>kdf_key = Some key, kdf_i = i, kdf_label = Some label, kdf_context = Some context, kdf_l = l\<rparr> =
    (SEV_STATUS_SUCCESS, hmac_reference alg key (prf_message i label context l))"
proof -
  let ?p = "\<lparr>kdf_key = Some key, kdf_i = i, kdf_label = Some label, kdf_context = Some context, kdf_l = l\<rparr>"
  let ?xs = "[bytes32 i, label, [0]] @ (if length context \<noteq> 0 then [context] else []) @ [bytes32 l]"
  have xs: "prf_inputs ?p = map Some ?xs" "concat ?xs = prf_message i label context l"
    by (simp_all add: prf_inputs_def prf_message_def)
  obtain c1 where c1: "hmac_sha256_init svc (Some key) (fst junk) = (SEV_STATUS_SUCCESS, c1)" "hmac_repr svc alg key c1 []"
    using hmac_init_repr [OF laws k junk(1)] by blast
  have "length (concat ?xs) < 2 ^ 32 - 64" unfolding xs(2) using len by (simp add: prf_message_def bytes32_def)
  then obtain c2 where c2: "iter_err (hmac_sha256_update svc) (prf_inputs ?p) c1 = (SEV_STATUS_SUCCESS, c2)"
    "hmac_repr svc alg key c2 (prf_message i label context l)"
    using hmac.absorb_all [OF c1(2), of ?xs] xs by auto
  obtain c3 where c3: "hmac_sha256_final svc (snd junk) (replicate HMAC_SHA256_SIZE_BYTES 0) c2 =
      (SEV_STATUS_SUCCESS, c3, hmac_reference alg key (prf_message i label context l))"
    using hmac_final_repr [OF c2(2) junk(2), of "replicate HMAC_SHA256_SIZE_BYTES 0"] final_size_256 by auto
  have "length (hmac_reference alg key (prf_message i label context l)) = 32"
    using length_sha_digest [OF laws] final_size_256 by (simp add: hmac_reference_def Let_def)
  then show ?thesis using c1(1) c2(1) c3 out
    by (simp add: nist_kdf_prf_def NIST_KDF_H_BYTES_def final_size_256 put_bytes_0)
qed

lemma take_concat_upto:
  assumes "\<And>i. length (f i) = 32" "k \<le> n"
  shows "take (32 * k) (concat (map f [1..<n + 1])) = concat (map f [1..<k + 1])"
proof -
  have "[1..<n + 1] = [1..<k + 1] @ [k + 1..<n + 1]" using assms(2) upt_add_eq_append [of 1 "k + 1" "n - k"] by simp
  moreover have "length (concat (map f [1..<k + 1])) = 32 * k"
  proof -
    have "length (concat (map f xs)) = 32 * length xs" for xs using assms(1) by (induction xs) simp_all
    then show ?thesis by (simp del: upt_Suc)
  qed
  ultimately show ?thesis by (simp del: upt_Suc)
qed

text \<open>Before the round for \<open>i\<close>, \<open>32 * (i - 1)\<close> octets of the key are written; the last round writes the
  rest.\<close>

lemma kdf_loop_computes:
  assumes one: "\<And>i out. length out = 32 \<Longrightarrow> nist_kdf_prf svc junk out
      \<lparr>kdf_key = key, kdf_i = of_nat i, kdf_label = label, kdf_context = context, kdf_l = l\<rparr> = (SEV_STATUS_SUCCESS, f i)"
    and f: "\<And>i. length (f i) = 32"
    and n: "n = (len + 31) div 32" "0 < len"
  shows "k < n \<Longrightarrow> length ko = len \<Longrightarrow> length out = 32 \<Longrightarrow> take (32 * k) ko = concat (map f [1..<k + 1]) \<Longrightarrow>
    kdf_loop svc junk key label context l [k + 1..<n + 1] (32 * k) (len - 32 * k) out ko =
      (SEV_STATUS_SUCCESS, take len (concat (map f [1..<n + 1])))"
proof (induction "n - k" arbitrary: k ko out)
  case (Suc d)
  have NB: "NIST_KDF_H_BYTES = 32" by (simp add: NIST_KDF_H_BYTES_def final_size_256)
  have head: "[k + 1..<n + 1] = (k + 1) # [k + 2..<n + 1]" using Suc.prems(1) by (simp add: upt_conv_Cons)
  have p: "nist_kdf_prf svc junk out
      \<lparr>kdf_key = key, kdf_i = of_nat (k + 1), kdf_label = label, kdf_context = context, kdf_l = l\<rparr> = (SEV_STATUS_SUCCESS, f (k + 1))"
    by (rule one [OF Suc.prems(3)])
  have blocks: "concat (map f [1..<k + 2]) = take (32 * k) ko @ f (k + 1)" using Suc.prems(4) by simp
  show ?case
  proof (cases "k + 1 < n")
    case True
    then have more: "32 * (k + 1) < len" using n by (simp add: less_eq_div_iff_mult_less_eq)
    then have big: "\<not> len - 32 * k \<le> 32" by simp
    let ?ko = "put_bytes (32 * k) (f (k + 1)) ko"
    have fits: "32 * k + length (f (k + 1)) \<le> length ko" using more Suc.prems(2) f by simp
    have t: "take (32 * (k + 1)) ?ko = concat (map f [1..<(k + 1) + 1])"
      using put_bytes_take [OF fits] f blocks by (simp add: numeral_2_eq_2 add.commute del: upt_Suc)
    have "kdf_loop svc junk key label context l [k + 1..<n + 1] (32 * k) (len - 32 * k) out ko =
        kdf_loop svc junk key label context l [(k + 1) + 1..<n + 1] (32 * (k + 1)) (len - 32 * (k + 1)) (f (k + 1)) ?ko"
      unfolding head using p big by (simp add: NB add.commute del: upt_Suc)
    also have "\<dots> = (SEV_STATUS_SUCCESS, take len (concat (map f [1..<n + 1])))"
      by (rule Suc.hyps(1)) (use Suc.hyps(2) True f Suc.prems(2) put_bytes_length [OF fits] t in \<open>simp_all del: upt_Suc\<close>)
    finally show ?thesis .
  next
    case False
    then have kn: "n = k + 1" using Suc.prems(1) by simp
    then have last: "len - 32 * k \<le> 32" "32 * k < len" using n by presburger+
    have "put_bytes (32 * k) (take (len - 32 * k) (f (k + 1))) ko = take len (take (32 * k) ko @ f (k + 1))"
      using last Suc.prems(2) f by (simp add: put_bytes_def)
    then show ?thesis unfolding head using p last kn blocks by (simp add: NB numeral_2_eq_2 del: upt_Suc)
  qed
qed simp

lemma kdf_computes:
  assumes laws: "sha_laws svc alg SHA_TYPE_256" and k: "0 < length key" "length key \<le> 64"
    and len: "length label + length context < 2 ^ 31"
    and junk: "length (hc_key (fst junk)) = 64" "length (snd junk) = 32"
    and out: "0 < length key_out" "8 * length key_out < 2 ^ 32"
  shows "nist_kdf svc junk (Some key_out) (Some key) (Some label) (Some context) =
    (SEV_STATUS_SUCCESS, Some (kdf_reference alg key label context (length key_out)))"
proof -
  let ?n = "length key_out"
  let ?l = "of_nat ?n * 8 :: u32"
  let ?f = "\<lambda>i. hmac_reference alg key (prf_message (of_nat i) label context ?l)"
  have l: "?l = of_nat (8 * ?n)" by (simp add: mult.commute)
  have ul: "unat ?l = 8 * ?n" unfolding l unsigned_of_nat of_nat_id by (rule take_bit_nat_eq_self) (use out(2) in simp)
  have n1: "1 \<le> 8 * ?n" using out(1) by linarith
  then have "1 \<le> ?l" unfolding word_le_nat_alt ul by simp
  then have "unat (?l - 1) = 8 * ?n - 1" using ul by (simp add: unat_sub_no_wrap)
  then have "unat ((?l - 1) div of_nat NIST_KDF_H) = (8 * ?n - 1) div 256"
    by (simp add: unat_div NIST_KDF_H_def NIST_KDF_H_BYTES_def final_size_256)
  moreover have q: "(8 * ?n - 1) div 256 + 1 = (?n + 31) div 32"
  proof -
    obtain p where p: "?n = Suc p" using out(1) gr0_conv_Suc by blast
    have "(8 * ?n - 1) div 8 = p" by (simp add: p)
    then have "(8 * ?n - 1) div 256 = p div 32" using div_mult2_eq [of "8 * ?n - 1" 8 32] by simp
    then show ?thesis using p by simp
  qed
  moreover have "(8 * ?n - 1) div 256 + 1 < 2 ^ 32" using out(2) by simp
  ultimately have rounds: "unat ((?l - 1) div of_nat NIST_KDF_H + 1) = (?n + 31) div 32"
    by (subst unat_add_no_wrap) simp_all
  have lf: "length (?f i) = 32" for i
    using length_sha_digest [OF laws] final_size_256 by (simp add: hmac_reference_def Let_def)
  have "kdf_loop svc junk (Some key) (Some label) (Some context) ?l [0 + 1..<(?n + 31) div 32 + 1] (32 * 0) (?n - 32 * 0)
      (replicate NIST_KDF_H_BYTES 0) key_out = (SEV_STATUS_SUCCESS, take ?n (concat (map ?f [1..<(?n + 31) div 32 + 1])))"
    by (rule kdf_loop_computes)
      (use prf_computes [OF laws k len junk] lf out(1) q in \<open>simp_all add: NIST_KDF_H_BYTES_def final_size_256 del: upt_Suc\<close>)
  then show ?thesis using rounds by (simp add: nist_kdf_def Let_def kdf_reference_def mult.commute del: upt_Suc)
qed

end
