(* ===== verification/Sev_DigestProperties.thy ===== *)
theory Sev_DigestProperties
  imports Sev_DigestStream
begin

text \<open>
  The properties of the digests, with witnesses on a small engine that obeys the laws: absorbing
  blocks adds up their octets, finishing adds the length and the rest.
\<close>

definition demo_alg :: "sha_type \<Rightarrow> sha_algorithm" where
  "demo_alg t = \<lparr>sha_iv = replicate (INTERMEDIATE_DIGEST_SIZE t) 7,
     sha_blocks = (\<lambda>h x. h[0 := h ! 0 + sum_list x]),
     sha_finish = (\<lambda>h n x. take (FINAL_DIGEST_SIZE t) (h[0 := h ! 0 + sum_list x + of_nat n] @ replicate 64 0))\<rparr>"

definition demo_sha :: sha_service where
  "demo_sha op =
     (let t = SHAType op; alg = demo_alg t
      in case intermediate_digest op of
           None \<Rightarrow> (True, sha_iv alg)
         | Some h \<Rightarrow>
             let h = take (INTERMEDIATE_DIGEST_SIZE t) h
             in (True, if eom op then sha_finish alg h (unat (intermediate_msg_len op)) (sha_data op) else sha_blocks alg h (sha_data op)))"

lemma demo_sha_laws: "t \<in> {SHA_TYPE_256, SHA_TYPE_384} \<Longrightarrow> sha_laws demo_sha (demo_alg t) t"
proof -
  assume t: "t \<in> {SHA_TYPE_256, SHA_TYPE_384}"
  have a: "h[0 := h ! 0 + sum_list (x @ y)] = (h[0 := h ! 0 + sum_list x])[0 := (h[0 := h ! 0 + sum_list x]) ! 0 + sum_list y]"
    for h x y :: "u8 list"
    by (cases h) (simp_all add: add.assoc)
  have b: "h[0 := h ! 0 + sum_list []] = h" for h :: "u8 list" by (cases h) simp_all
  have c: "FINAL_DIGEST_SIZE t \<le> 64" by (simp add: sizes)
  show ?thesis using t a b c by (auto simp: sha_laws_def demo_sha_def demo_alg_def Let_def)
qed

text \<open>
  C6: A message that is fed to a digest in any number of pieces, of any sizes, has the digest that it
  has in one piece: the result is the reference digest of the concatenation.
\<close>

theorem streaming_equals_one_shot:
  assumes "sha_laws svc alg t" and "digest_sha_init svc c0 t = (status0, c1)"
    and "length (concat pieces) < 2 ^ 32" and "FINAL_DIGEST_SIZE t \<le> length d"
  shows "\<exists>c2 c3. status0 = SEV_STATUS_SUCCESS \<and>
    iter_err (digest_sha_update svc) (map Some pieces) c1 = (SEV_STATUS_SUCCESS, c2) \<and>
    digest_sha_final svc d n c2 =
      (SEV_STATUS_SUCCESS, c3, put_bytes 0 (sha_digest alg t (concat pieces)) d, FINAL_DIGEST_SIZE t)"
proof -
  have r: "status0 = SEV_STATUS_SUCCESS" "ctx_repr svc alg t c1 []" using init_repr [OF assms(1), of c0] assms(2) by auto
  obtain c2 where c2: "iter_err (digest_sha_update svc) (map Some pieces) c1 = (SEV_STATUS_SUCCESS, c2)"
    "ctx_repr svc alg t c2 (concat pieces)"
    using digest.absorb_all [OF r(2), of pieces] assms(3) by auto
  then show ?thesis using r(1) final_repr [OF c2(2) assms(4)] by blast
qed

theorem streaming_equals_one_shot_witness:
  "\<exists>c1 c2 c3. digest_sha_init demo_sha (undefined :: digest_sha_ctx) SHA_TYPE_384 = (SEV_STATUS_SUCCESS, c1) \<and>
    iter_err (digest_sha_update demo_sha) (map Some [[1, 2], [], replicate 200 3]) c1 = (SEV_STATUS_SUCCESS, c2) \<and>
    digest_sha_final demo_sha (replicate 64 0) 64 c2 =
      (SEV_STATUS_SUCCESS, c3, put_bytes 0 (sha_digest (demo_alg SHA_TYPE_384) SHA_TYPE_384 (concat [[1, 2], [], replicate 200 3])) (replicate 64 0), 48)"
proof -
  obtain s c1 where i: "digest_sha_init demo_sha undefined SHA_TYPE_384 = (s, c1)" by (rule prod.exhaust)
  have "FINAL_DIGEST_SIZE SHA_TYPE_384 = 48" by (simp add: sizes)
  then show ?thesis
    using i streaming_equals_one_shot [OF demo_sha_laws i, of "[[1, 2], [], replicate 200 3]" "replicate 64 0" 64] by auto
qed

text \<open>
  C20: \<open>hmac_sha256\<close> is the keyed digest of FIPS 198-1 for a key of 1 to 64 octets and a message that is
  not empty: \<open>hmac_reference\<close>, which is written with the octets of the standard and over the engine's
  digest only.
\<close>

theorem hmac_equals_reference:
  assumes "sha_laws svc alg SHA_TYPE_256" and "0 < length key" and "length key \<le> 64"
    and "m \<noteq> []" and "length m < 2 ^ 32 - 64"
    and "length (hc_key (fst junk)) = 64" and "length (snd junk) = 32" and "length hmac = 32"
  shows "hmac_sha256 svc junk (Some m) (Some key) hmac = (SEV_STATUS_SUCCESS, hmac_reference alg key m)"
  by (rule hmac_computes [OF assms])

definition demo_junk :: "hmac_sha256_ctx \<times> u8 list" where
  "demo_junk = (\<lparr>digest_ctx = \<lparr>dc_h = [], dc_msg_block = [], dc_bytes_used = 0, dc_length = 0, dc_sha_type = SHA_TYPE_256\<rparr>,
     hc_key = replicate 64 9, hc_key_len = 0\<rparr>, replicate 32 4)"

theorem hmac_equals_reference_witness:
  "hmac_sha256 demo_sha demo_junk (Some [1]) (Some [2, 3]) (replicate 32 0) =
    (SEV_STATUS_SUCCESS, hmac_reference (demo_alg SHA_TYPE_256) [2, 3] [1])"
  by (rule hmac_equals_reference [OF demo_sha_laws]) (simp_all add: demo_junk_def)

text \<open>
  What \<open>kdf_derive\<close> computes: the keyed digests of counter, label, a zero octet, context and length in
  bits, for the counters from 1 on, concatenated and cut to the length of the key. Counter and length
  enter in the order of the machine, not most significant octet first.
\<close>

theorem kdf_derive_computes:
  assumes "sha_laws svc alg SHA_TYPE_256" and "0 < length key" and "length key \<le> 64"
    and "length label + length context < 2 ^ 31"
    and "length (hc_key (fst junk)) = 64" and "length (snd junk) = 32"
    and "0 < length key_out" and "8 * length key_out < 2 ^ 32"
  shows "kdf_derive svc junk (Some key_out) (Some key) (Some label) (Some context) =
    (SEV_STATUS_SUCCESS, Some (kdf_reference alg key label context (length key_out)))"
  unfolding kdf_derive_def by (rule kdf_computes [OF assms])

theorem kdf_derive_computes_witness:
  "kdf_derive demo_sha demo_junk (Some (replicate 56 0)) (Some [5]) (Some [1, 2]) (Some []) =
    (SEV_STATUS_SUCCESS, Some (kdf_reference (demo_alg SHA_TYPE_256) [5] [1, 2] [] 56))"
  using kdf_derive_computes [OF demo_sha_laws, of "[5]" "[1, 2]" "[]" demo_junk "replicate 56 0"] by (simp add: demo_junk_def)

end
