(* ===== verification/Sev_Ecc.thy ===== *)
theory Sev_Ecc
  imports Sev_SecureOps
begin

text \<open>
  Scalars and points of elliptic curves, \<open>ecc.c\<close>.

  A scalar is an array of 72 bytes, least significant first. The field and curve arithmetic is done
  by the coprocessor behind \<open>Svc_EccPrimitive\<close>, which is not part of the repository: it is the
  parameter \<open>svc\<close>, a pair of functions from the primitive with its operands to whether the call
  returned \<open>BL_OK\<close> and the contents of the result object after it.

  The functions of this file pass each other addresses of their objects: those take the objects
  themselves, and the tests for NULL, which then never hold, are left out. Where a pointer comes from
  a caller outside of the file, it is an option. An outer \<open>None\<close> means that the function does not
  return, or writes behind an object.
\<close>

section \<open>Data\<close>

definition ECC_SCALAR_SIZE_BYTES :: nat where "ECC_SCALAR_SIZE_BYTES = 72"
definition ECC_CURVE_SECP384R1_SIZE_BYTES :: nat where "ECC_CURVE_SECP384R1_SIZE_BYTES = 48"
definition SEV_ECC_CURVE_SIZE_BYTES :: nat where "SEV_ECC_CURVE_SIZE_BYTES = ECC_CURVE_SECP384R1_SIZE_BYTES"
definition ECC_KEYGEN_EXTRA_BYTES :: nat where "ECC_KEYGEN_EXTRA_BYTES = 8"
definition ECC_CURVE_NAME_INVALID :: u32 where "ECC_CURVE_NAME_INVALID = 0"
definition ECC_CURVE_NAME_SECP256K1 :: u32 where "ECC_CURVE_NAME_SECP256K1 = 1"
definition ECC_CURVE_NAME_SECP384R1 :: u32 where "ECC_CURVE_NAME_SECP384R1 = 2"

type_synonym scalar = "u8 list"

record ecc_point =
  pt_x :: scalar
  pt_y :: scalar

record ecc_curve =
  cv_name :: u32
  cv_p :: scalar
  cv_a :: scalar
  cv_b :: scalar
  cv_G :: ecc_point
  cv_n :: scalar
  cv_h :: scalar

record ecc_keypair =
  kp_curve :: u32
  kp_Q :: ecc_point
  kp_d :: scalar

record ecc_pubkey =
  pk_curve :: u32
  pk_Q :: ecc_point

definition zero_scalar :: scalar where "zero_scalar = replicate ECC_SCALAR_SIZE_BYTES 0"
definition one_scalar :: scalar where "one_scalar = zero_scalar[0 := 1]"
definition zero_point :: ecc_point where "zero_point = \<lparr>pt_x = zero_scalar, pt_y = zero_scalar\<rparr>"
definition zero_keypair :: ecc_keypair where
  "zero_keypair = \<lparr>kp_curve = ECC_CURVE_NAME_INVALID, kp_Q = zero_point, kp_d = zero_scalar\<rparr>"

text \<open>An initialiser sets the bytes it does not name to 0.\<close>

definition scalar_init :: "u8 list \<Rightarrow> scalar" where
  "scalar_init bs = bs @ replicate (ECC_SCALAR_SIZE_BYTES - length bs) 0"

definition ECC_CURVE_SECP256K1 :: ecc_curve where
  "ECC_CURVE_SECP256K1 = \<lparr>
     cv_name = ECC_CURVE_NAME_SECP256K1,
     cv_p = scalar_init [0x2f, 0xfc, 0xff, 0xff, 0xfe, 0xff, 0xff, 0xff, 0xff, 0xff, 0xff, 0xff, 0xff, 0xff, 0xff, 0xff,
       0xff, 0xff, 0xff, 0xff, 0xff, 0xff, 0xff, 0xff, 0xff, 0xff, 0xff, 0xff, 0xff, 0xff, 0xff, 0xff],
     cv_a = scalar_init [0x00, 0x00, 0x00, 0x00, 0x00, 0x00, 0x00, 0x00, 0x00, 0x00, 0x00, 0x00, 0x00, 0x00, 0x00, 0x00,
       0x00, 0x00, 0x00, 0x00, 0x00, 0x00, 0x00, 0x00, 0x00, 0x00, 0x00, 0x00, 0x00, 0x00, 0x00, 0x00],
     cv_b = scalar_init [0x07, 0x00, 0x00, 0x00, 0x00, 0x00, 0x00, 0x00, 0x00, 0x00, 0x00, 0x00, 0x00, 0x00, 0x00, 0x00,
       0x00, 0x00, 0x00, 0x00, 0x00, 0x00, 0x00, 0x00, 0x00, 0x00, 0x00, 0x00, 0x00, 0x00, 0x00, 0x00],
     cv_G = \<lparr>pt_x = scalar_init [0x98, 0x17, 0xf8, 0x16, 0x5b, 0x81, 0xf2, 0x59, 0xd9, 0x28, 0xce, 0x2d, 0xdb, 0xfc, 0x9b, 0x02,
       0x07, 0x0b, 0x87, 0xce, 0x95, 0x62, 0xa0, 0x55, 0xac, 0xbb, 0xdc, 0xf9, 0x7e, 0x66, 0xbe, 0x79],
       pt_y = scalar_init [0xb8, 0xd4, 0x10, 0xfb, 0x8f, 0xd0, 0x47, 0x9c, 0x19, 0x54, 0x85, 0xa6, 0x48, 0xb4, 0x17, 0xfd,
       0xa8, 0x08, 0x11, 0x0e, 0xfc, 0xfb, 0xa4, 0x5d, 0x65, 0xc4, 0xa3, 0x26, 0x77, 0xda, 0x3a, 0x48]\<rparr>,
     cv_n = scalar_init [0x41, 0x41, 0x36, 0xd0, 0x8c, 0x5e, 0xd2, 0xbf, 0x3b, 0xa0, 0x48, 0xaf, 0xe6, 0xdc, 0xae, 0xba,
       0xfe, 0xff, 0xff, 0xff, 0xff, 0xff, 0xff, 0xff, 0xff, 0xff, 0xff, 0xff, 0xff, 0xff, 0xff, 0xff],
     cv_h = scalar_init [0x01]\<rparr>"

definition ECC_CURVE_SECP384R1 :: ecc_curve where
  "ECC_CURVE_SECP384R1 = \<lparr>
     cv_name = ECC_CURVE_NAME_SECP384R1,
     cv_p = scalar_init [0xff, 0xff, 0xff, 0xff, 0x00, 0x00, 0x00, 0x00, 0x00, 0x00, 0x00, 0x00, 0xff, 0xff, 0xff, 0xff,
       0xfe, 0xff, 0xff, 0xff, 0xff, 0xff, 0xff, 0xff, 0xff, 0xff, 0xff, 0xff, 0xff, 0xff, 0xff, 0xff,
       0xff, 0xff, 0xff, 0xff, 0xff, 0xff, 0xff, 0xff, 0xff, 0xff, 0xff, 0xff, 0xff, 0xff, 0xff, 0xff],
     cv_a = scalar_init [0xfc, 0xff, 0xff, 0xff, 0x00, 0x00, 0x00, 0x00, 0x00, 0x00, 0x00, 0x00, 0xff, 0xff, 0xff, 0xff,
       0xfe, 0xff, 0xff, 0xff, 0xff, 0xff, 0xff, 0xff, 0xff, 0xff, 0xff, 0xff, 0xff, 0xff, 0xff, 0xff,
       0xff, 0xff, 0xff, 0xff, 0xff, 0xff, 0xff, 0xff, 0xff, 0xff, 0xff, 0xff, 0xff, 0xff, 0xff, 0xff],
     cv_b = scalar_init [0xef, 0x2a, 0xec, 0xd3, 0xed, 0xc8, 0x85, 0x2a, 0x9d, 0xd1, 0x2e, 0x8a, 0x8d, 0x39, 0x56, 0xc6,
       0x5a, 0x87, 0x13, 0x50, 0x8f, 0x08, 0x14, 0x03, 0x12, 0x41, 0x81, 0xfe, 0x6e, 0x9c, 0x1d, 0x18,
       0x19, 0x2d, 0xf8, 0xe3, 0x6b, 0x05, 0x8e, 0x98, 0xe4, 0xe7, 0x3e, 0xe2, 0xa7, 0x2f, 0x31, 0xb3],
     cv_G = \<lparr>pt_x = scalar_init [0xb7, 0x0a, 0x76, 0x72, 0x38, 0x5e, 0x54, 0x3a, 0x6c, 0x29, 0x55, 0xbf, 0x5d, 0xf2, 0x02, 0x55,
       0x38, 0x2a, 0x54, 0x82, 0xe0, 0x41, 0xf7, 0x59, 0x98, 0x9b, 0xa7, 0x8b, 0x62, 0x3b, 0x1d, 0x6e,
       0x74, 0xad, 0x20, 0xf3, 0x1e, 0xc7, 0xb1, 0x8e, 0x37, 0x05, 0x8b, 0xbe, 0x22, 0xca, 0x87, 0xaa],
       pt_y = scalar_init [0x5f, 0x0e, 0xea, 0x90, 0x7c, 0x1d, 0x43, 0x7a, 0x9d, 0x81, 0x7e, 0x1d, 0xce, 0xb1, 0x60, 0x0a,
       0xc0, 0xb8, 0xf0, 0xb5, 0x13, 0x31, 0xda, 0xe9, 0x7c, 0x14, 0x9a, 0x28, 0xbd, 0x1d, 0xf4, 0xf8,
       0x29, 0xdc, 0x92, 0x92, 0xbf, 0x98, 0x9e, 0x5d, 0x6f, 0x2c, 0x26, 0x96, 0x4a, 0xde, 0x17, 0x36]\<rparr>,
     cv_n = scalar_init [0x73, 0x29, 0xc5, 0xcc, 0x6a, 0x19, 0xec, 0xec, 0x7a, 0xa7, 0xb0, 0x48, 0xb2, 0x0d, 0x1a, 0x58,
       0xdf, 0x2d, 0x37, 0xf4, 0x81, 0x4d, 0x63, 0xc7, 0xff, 0xff, 0xff, 0xff, 0xff, 0xff, 0xff, 0xff,
       0xff, 0xff, 0xff, 0xff, 0xff, 0xff, 0xff, 0xff, 0xff, 0xff, 0xff, 0xff, 0xff, 0xff, 0xff, 0xff],
     cv_h = scalar_init [0x01]\<rparr>"

definition sev_supported_curves :: "ecc_curve option list" where
  "sev_supported_curves = [None, Some ECC_CURVE_SECP256K1, Some ECC_CURVE_SECP384R1]"

definition curve_id_is_valid :: "u32 \<Rightarrow> bool" where
  "curve_id_is_valid curve_id \<longleftrightarrow> curve_id \<noteq> ECC_CURVE_NAME_INVALID \<and> unat curve_id < length sev_supported_curves"

definition ecc_get_curve :: "u32 \<Rightarrow> ecc_curve option" where
  "ecc_get_curve curve_id = (if curve_id_is_valid curve_id then sev_supported_curves ! unat curve_id else None)"

text \<open>\<open>memcpy(pubkey, keypair, sizeof(*pubkey))\<close>: the first two members.\<close>

definition ecc_get_pubkey :: "ecc_keypair option \<Rightarrow> ecc_pubkey option \<Rightarrow> sev_status \<times> ecc_pubkey option" where
  "ecc_get_pubkey keypair pubkey =
     (case (keypair, pubkey) of
        (Some kp, Some _) \<Rightarrow> (SEV_STATUS_SUCCESS, Some \<lparr>pk_curve = kp_curve kp, pk_Q = kp_Q kp\<rparr>)
      | _ \<Rightarrow> (ERR_INVALID_PARAMS, pubkey))"

section \<open>The coprocessor\<close>

text \<open>The operands in the order of the members of the commands; the first is the result object.\<close>

datatype scalar_primitive =
    SCALAR_ADD scalar scalar scalar scalar
  | SCALAR_MUL scalar scalar scalar scalar
  | SCALAR_INV scalar scalar scalar

datatype point_primitive =
    POINT_ADD ecc_point scalar ecc_point ecc_point
  | POINT_DOUBLE ecc_point scalar scalar ecc_point
  | POINT_SCALE ecc_point scalar scalar scalar ecc_point
  | POINT_DUAL_MUL ecc_point scalar scalar scalar ecc_point scalar ecc_point

record ecc_service =
  svc_scalar :: "scalar_primitive \<Rightarrow> bool \<times> scalar"
  svc_point :: "point_primitive \<Rightarrow> bool \<times> ecc_point"

definition sev_hal_ecc_scalar :: "ecc_service \<Rightarrow> scalar_primitive \<Rightarrow> sev_status \<times> scalar" where
  "sev_hal_ecc_scalar svc cmd =
     (case svc_scalar svc cmd of (ok, r) \<Rightarrow> (if ok then SEV_STATUS_SUCCESS else ERR_HAL_ECC_PRIMITIVE, r))"

definition sev_hal_ecc_point :: "ecc_service \<Rightarrow> point_primitive \<Rightarrow> sev_status \<times> ecc_point" where
  "sev_hal_ecc_point svc cmd =
     (case svc_point svc cmd of (ok, r) \<Rightarrow> (if ok then SEV_STATUS_SUCCESS else ERR_HAL_ECC_PRIMITIVE, r))"

definition ecc_scalar_add :: "ecc_service \<Rightarrow> scalar \<Rightarrow> scalar \<Rightarrow> scalar \<Rightarrow> scalar \<Rightarrow> sev_status \<times> scalar" where
  "ecc_scalar_add svc rop op1 op2 modulus = sev_hal_ecc_scalar svc (SCALAR_ADD rop modulus op1 op2)"

definition ecc_scalar_mul :: "ecc_service \<Rightarrow> scalar \<Rightarrow> scalar \<Rightarrow> scalar \<Rightarrow> scalar \<Rightarrow> sev_status \<times> scalar" where
  "ecc_scalar_mul svc rop op1 op2 modulus = sev_hal_ecc_scalar svc (SCALAR_MUL rop modulus op1 op2)"

definition ecc_scalar_inv :: "ecc_service \<Rightarrow> scalar \<Rightarrow> scalar \<Rightarrow> scalar \<Rightarrow> sev_status \<times> scalar" where
  "ecc_scalar_inv svc rop op1 modulus = sev_hal_ecc_scalar svc (SCALAR_INV rop modulus op1)"

definition ecc_point_add :: "ecc_service \<Rightarrow> ecc_point \<Rightarrow> ecc_point \<Rightarrow> ecc_point \<Rightarrow> u32 \<Rightarrow> sev_status \<times> ecc_point" where
  "ecc_point_add svc rop op1 op2 curve_id =
     (case ecc_get_curve curve_id of
        None \<Rightarrow> (ERR_INVALID_PARAMS, rop)
      | Some curve \<Rightarrow> sev_hal_ecc_point svc (POINT_ADD rop (cv_p curve) op1 op2))"

definition ecc_point_double :: "ecc_service \<Rightarrow> ecc_point \<Rightarrow> ecc_point \<Rightarrow> u32 \<Rightarrow> sev_status \<times> ecc_point" where
  "ecc_point_double svc rop op1 curve_id =
     (case ecc_get_curve curve_id of
        None \<Rightarrow> (ERR_INVALID_PARAMS, rop)
      | Some curve \<Rightarrow> sev_hal_ecc_point svc (POINT_DOUBLE rop (cv_p curve) (cv_a curve) op1))"

definition ecc_point_scale :: "ecc_service \<Rightarrow> ecc_point \<Rightarrow> ecc_point \<Rightarrow> scalar \<Rightarrow> u32 \<Rightarrow> sev_status \<times> ecc_point" where
  "ecc_point_scale svc rop op1 k curve_id =
     (case ecc_get_curve curve_id of
        None \<Rightarrow> (ERR_INVALID_PARAMS, rop)
      | Some curve \<Rightarrow> sev_hal_ecc_point svc (POINT_SCALE rop (cv_p curve) (cv_a curve) k op1))"

definition ecc_point_linear ::
    "ecc_service \<Rightarrow> ecc_point \<Rightarrow> ecc_point \<Rightarrow> scalar \<Rightarrow> ecc_point \<Rightarrow> scalar \<Rightarrow> u32 \<Rightarrow> sev_status \<times> ecc_point" where
  "ecc_point_linear svc rop op1 k op2 h curve_id =
     (case ecc_get_curve curve_id of
        None \<Rightarrow> (ERR_INVALID_PARAMS, rop)
      | Some curve \<Rightarrow> sev_hal_ecc_point svc (POINT_DUAL_MUL rop (cv_p curve) (cv_a curve) k op1 h op2))"

section \<open>Scalars\<close>

text \<open>\<open>size\<close> bytes of \<open>buffer\<close>, reversed. A NULL pointer is \<open>None\<close>.\<close>

definition ecc_scalar_init :: "scalar \<Rightarrow> u8 list option \<Rightarrow> nat \<Rightarrow> sev_status \<times> scalar" where
  "ecc_scalar_init scalar buffer sz =
     (case buffer of
        None \<Rightarrow> (ERR_INVALID_PARAMS, scalar)
      | Some buf \<Rightarrow>
          if sz > ECC_SCALAR_SIZE_BYTES then (ERR_INVALID_PARAMS, scalar)
          else
            let temp = take sz buf @ drop sz zero_scalar
            in case reverse_bytes (Some temp) sz of
                 (status, temp1) \<Rightarrow>
                   if status \<noteq> SEV_STATUS_SUCCESS then (status, scalar) else (SEV_STATUS_SUCCESS, the temp1))"

definition ecc_scalar_is_greater :: "scalar \<Rightarrow> scalar \<Rightarrow> bool" where
  "ecc_scalar_is_greater a b = (secure_array_compare_le a b ECC_SCALAR_SIZE_BYTES = 1)"

text \<open>The first byte is 0 and every byte equals the one after it.\<close>

definition ecc_scalar_is_zero :: "scalar \<Rightarrow> bool" where
  "ecc_scalar_is_zero rop =
     (if rop ! 0 = 0 then secure_compare (Some rop) (Some (drop 1 rop)) (ECC_SCALAR_SIZE_BYTES - 1) = 0 else False)"

text \<open>A round reads both bytes before it writes the result's, so the result may be an operand.\<close>

definition minus_byte :: "u8 \<Rightarrow> u8 \<Rightarrow> u32 \<Rightarrow> u8 \<times> u32" where
  "minus_byte a b borrow =
     (let op_left = ucast (ucast a - borrow) :: u8; op_right = b
      in if op_left > a then (op_left - op_right, 1)
         else (op_left - op_right, if op_left - op_right > op_left then 1 else 0))"

fun minus_bytes :: "u8 list \<Rightarrow> u8 list \<Rightarrow> u32 \<Rightarrow> u8 list" where
  "minus_bytes (a # op1) (b # op2) borrow =
     (case minus_byte a b borrow of (r, borrow') \<Rightarrow> r # minus_bytes op1 op2 borrow')"
| "minus_bytes _ _ borrow = []"

definition ecc_scalar_minus :: "scalar \<Rightarrow> scalar \<Rightarrow> scalar \<Rightarrow> sev_status \<times> scalar" where
  "ecc_scalar_minus rop op1 op2 =
     (if ecc_scalar_is_greater op2 op1 then (ERR_INVALID_PARAMS, rop)
      else (SEV_STATUS_SUCCESS, minus_bytes op1 op2 0))"

partial_function (option) mod_loop :: "scalar \<Rightarrow> scalar \<Rightarrow> scalar \<Rightarrow> (sev_status \<times> scalar) option" where
  "mod_loop rop op modulus =
     (if ecc_scalar_is_greater modulus op then Some (SEV_STATUS_SUCCESS, op)
      else case ecc_scalar_minus op op modulus of
        (status, op') \<Rightarrow> if status \<noteq> SEV_STATUS_SUCCESS then Some (status, rop) else mod_loop rop op' modulus)"

declare mod_loop.simps [code]

definition ecc_scalar_mod :: "scalar \<Rightarrow> scalar \<Rightarrow> scalar \<Rightarrow> (sev_status \<times> scalar) option" where
  "ecc_scalar_mod rop op1 modulus = mod_loop rop op1 modulus"

text \<open>The objects of \<open>ecc_scalar_reduce\<close>: \<open>mod\<close>, \<open>x\<close> and \<open>result\<close>. The scratch area and \<open>result\<close> are
  cleared, the other two are loaded.\<close>

abbreviation bn_mod :: bn_ref where "bn_mod \<equiv> BnArg 0"
abbreviation bn_x :: bn_ref where "bn_x \<equiv> BnArg 1"
abbreviation bn_result :: bn_ref where "bn_result \<equiv> BnArg 2"

definition cleared_bns :: bns where
  "cleared_bns = (\<lambda>r. \<lparr>bn_used = 0, bn_sign = False, bn_data = replicate MAX_BN_ELEMENTS 0\<rparr>)"

definition ecc_scalar_reduce :: "scalar \<Rightarrow> scalar \<Rightarrow> scalar \<Rightarrow> (sev_status \<times> scalar) option" where
  "ecc_scalar_reduce rop op1 modulus =
     (case BNLoad bn_mod modulus cleared_bns of None \<Rightarrow> None | Some (rc, s1) \<Rightarrow>
      if rc \<noteq> KC_OK then Some (ERR_INVALID_PARAMS, rop) else
      case BNLoad bn_x op1 s1 of None \<Rightarrow> None | Some (rc, s2) \<Rightarrow>
      if rc \<noteq> KC_OK then Some (ERR_INVALID_PARAMS, rop) else
      case BNBarrettSetup bn_mod s2 of None \<Rightarrow> None | Some (rc, s3) \<Rightarrow>
      if rc \<noteq> KC_OK then Some (ERR_UNKNOWN, rop) else
      case BNBarrettReduce bn_result bn_x bn_mod s3 of (rc, s4) \<Rightarrow>
      if rc \<noteq> KC_OK then Some (ERR_UNKNOWN, rop) else
      case BNStore bn_result rop s4 of (rc, rop', s5) \<Rightarrow>
      if rc \<noteq> KC_OK then Some (ERR_UNKNOWN, rop') else Some (SEV_STATUS_SUCCESS, rop'))"

section \<open>Public keys\<close>

text \<open>A step of a function that leaves at the first error.\<close>

definition on_success :: "sev_status \<times> 'a \<Rightarrow> (sev_status \<Rightarrow> 'b) \<Rightarrow> ('a \<Rightarrow> 'b) \<Rightarrow> 'b" where
  "on_success r leave go = (case r of (status, x) \<Rightarrow> if status \<noteq> SEV_STATUS_SUCCESS then leave status else go x)"

definition on_success_opt :: "(sev_status \<times> 'a) option \<Rightarrow> (sev_status \<Rightarrow> 'b option) \<Rightarrow> ('a \<Rightarrow> 'b option) \<Rightarrow> 'b option" where
  "on_success_opt r leave go = (case r of None \<Rightarrow> None | Some r \<Rightarrow> on_success r leave go)"

definition check_ec_points_on_curve :: "ecc_service \<Rightarrow> ecc_pubkey \<Rightarrow> bool option" where
  "check_ec_points_on_curve svc pubkey =
     (case ecc_get_curve (pk_curve pubkey) of
        None \<Rightarrow> Some False
      | Some curve \<Rightarrow>
          let x = pt_x (pk_Q pubkey); y = pt_y (pk_Q pubkey); a = cv_a curve; b = cv_b curve; p = cv_p curve;
              end = (\<lambda>_. Some False)
          in on_success (ecc_scalar_mul svc zero_scalar y y p) end (\<lambda>y_sq_modp.
             on_success (ecc_scalar_mul svc zero_scalar x x p) end (\<lambda>x_sq_modp.
             on_success (ecc_scalar_mul svc zero_scalar x_sq_modp x p) end (\<lambda>x_cub_modp.
             on_success (ecc_scalar_mul svc zero_scalar a x p) end (\<lambda>ax_modp.
             on_success_opt (ecc_scalar_mod zero_scalar b p) end (\<lambda>b_modp.
             on_success (ecc_scalar_add svc zero_scalar x_cub_modp ax_modp p) end (\<lambda>x_cub_plus_ax.
             on_success (ecc_scalar_add svc zero_scalar x_cub_plus_ax b_modp p) end (\<lambda>x_cub_plus_ax_plus_b.
             on_success (ecc_scalar_minus zero_scalar x_cub_plus_ax_plus_b y_sq_modp) end (\<lambda>subtraction.
             Some (ecc_scalar_is_zero subtraction))))))))))"

definition ecc_pubkey_is_valid :: "ecc_service \<Rightarrow> ecc_pubkey \<Rightarrow> bool option" where
  "ecc_pubkey_is_valid svc pubkey =
     (if \<not> curve_id_is_valid (pk_curve pubkey) \<or> pk_curve pubkey \<noteq> ECC_CURVE_NAME_SECP384R1 then Some False
      else check_ec_points_on_curve svc pubkey)"

section \<open>Key pairs\<close>

definition ecc_keypair_from_extra_bits ::
    "ecc_service \<Rightarrow> ecc_keypair option \<Rightarrow> u32 \<Rightarrow> u8 list option \<Rightarrow> (sev_status \<times> ecc_keypair option) option" where
  "ecc_keypair_from_extra_bits svc keypair curve_id rdata =
     (case (keypair, ecc_get_curve curve_id, rdata) of
        (Some kp, Some curve, Some rd) \<Rightarrow>
          if length rd \<noteq> SEV_ECC_CURVE_SIZE_BYTES + ECC_KEYGEN_EXTRA_BYTES then Some (ERR_INVALID_PARAMS, keypair)
          else
            let c = rd @ drop (length rd) zero_scalar;
                end = (\<lambda>status. Some (status, keypair))
            in on_success (ecc_scalar_minus zero_scalar (cv_n curve) one_scalar) end (\<lambda>modulus.
               on_success_opt (ecc_scalar_reduce zero_scalar c modulus) end (\<lambda>d1.
               on_success (ecc_scalar_add svc d1 d1 one_scalar (cv_n curve)) end (\<lambda>d2.
               on_success (ecc_point_scale svc zero_point (cv_G curve) d2 curve_id) end (\<lambda>Q.
               Some (SEV_STATUS_SUCCESS, Some \<lparr>kp_curve = curve_id, kp_Q = Q, kp_d = d2\<rparr>)))))
      | _ \<Rightarrow> Some (ERR_INVALID_PARAMS, keypair))"

text \<open>The borrow and the carry move up the bytes until a byte does not wrap around.\<close>

fun borrow_loop :: "nat list \<Rightarrow> bool \<Rightarrow> scalar \<Rightarrow> scalar" where
  "borrow_loop [] borrow n_x = n_x"
| "borrow_loop (i # is) borrow n_x =
     (if \<not> borrow then n_x
      else let prev_val = n_x ! i; n_x1 = n_x[i := prev_val - 1]
           in borrow_loop is (prev_val < n_x1 ! i) n_x1)"

fun carry_loop :: "nat list \<Rightarrow> scalar \<Rightarrow> scalar" where
  "carry_loop [] n_x = n_x"
| "carry_loop (i # is) n_x =
     (let prev_val = n_x ! i; n_x1 = n_x[i := prev_val + 1]
      in if \<not> prev_val > n_x1 ! i then n_x1 else carry_loop is n_x1)"

definition minus_two :: "scalar \<Rightarrow> scalar" where
  "minus_two n =
     (let prev_val = n ! 0; n_x = n[0 := prev_val - 2]
      in borrow_loop [1..<ECC_SCALAR_SIZE_BYTES] (prev_val < n_x ! 0) n_x)"

text \<open>The carry loop counts up \<open>n_x\<close>, which is not used afterwards; the private key is \<open>c\<close>.\<close>

definition ecc_keypair_from_candidates ::
    "ecc_service \<Rightarrow> ecc_keypair option \<Rightarrow> u32 \<Rightarrow> u8 list option \<Rightarrow> (sev_status \<times> ecc_keypair option) option" where
  "ecc_keypair_from_candidates svc keypair curve_id rdata =
     (case (keypair, ecc_get_curve curve_id, rdata) of
        (Some kp, Some curve, Some rd) \<Rightarrow>
          if length rd = 0 then Some (ERR_INVALID_PARAMS, keypair)
          else if length rd > ECC_SCALAR_SIZE_BYTES then None
          else
            let n_x = minus_two (cv_n curve);
                c = rd @ drop (length rd) zero_scalar
            in if ecc_scalar_is_greater c n_x then Some (ERR_INVALID_PARAMS, Some zero_keypair)
               else
                 let n_x1 = carry_loop [0..<ECC_SCALAR_SIZE_BYTES] n_x
                 in case ecc_point_scale svc zero_point (cv_G curve) c curve_id of
                      (status, Q) \<Rightarrow>
                        if status \<noteq> SEV_STATUS_SUCCESS then Some (status, Some (zero_keypair\<lparr>kp_Q := Q\<rparr>))
                        else Some (SEV_STATUS_SUCCESS, Some \<lparr>kp_curve = curve_id, kp_Q = Q, kp_d = c\<rparr>)
      | _ \<Rightarrow> Some (ERR_INVALID_PARAMS, keypair))"

definition ecc_keypair_generate_rdata ::
    "ecc_service \<Rightarrow> ecc_keypair option \<Rightarrow> u32 \<Rightarrow> u8 list option \<Rightarrow> (sev_status \<times> ecc_keypair option) option" where
  "ecc_keypair_generate_rdata svc keypair curve_id rdata = ecc_keypair_from_candidates svc keypair curve_id rdata"

end
