(* ===== verification/Sev_Ecdsa.thy ===== *)
theory Sev_Ecdsa
  imports Sev_Ecc Sev_Digest
begin

text \<open>
  Signatures (\<open>ecdsa.c\<close>) and key agreement (\<open>ecdh.c\<close>).

  The random number generator behind \<open>Svc_Trng\<close> is the parameter \<open>trng\<close>: the \<open>n\<close>-th call's outcome and
  octets. The loops that draw until a number fits have no bound; \<open>None\<close> is that they do not return.
\<close>

record ecdsa_sig =
  sig_r :: scalar
  sig_s :: scalar

definition zero_sig :: ecdsa_sig where "zero_sig = \<lparr>sig_r = zero_scalar, sig_s = zero_scalar\<rparr>"

type_synonym trng_service = "nat \<Rightarrow> bool \<times> u8 list"

definition sev_hal_trng :: "trng_service \<Rightarrow> nat \<Rightarrow> sev_status \<times> u8 list" where
  "sev_hal_trng trng n = (case trng n of (ok, out) \<Rightarrow> (if ok then SEV_STATUS_SUCCESS else ERR_HAL_TRNG, out))"

section \<open>Key pairs\<close>

partial_function (option) ecdsa_keypair_generate ::
    "ecc_service \<Rightarrow> trng_service \<Rightarrow> nat \<Rightarrow> ecc_keypair option \<Rightarrow> (sev_status \<times> ecc_keypair option \<times> nat) option" where
  "ecdsa_keypair_generate svc trng n keypair =
     (case sev_hal_trng trng n of (status, random) \<Rightarrow>
        if status \<noteq> SEV_STATUS_SUCCESS then Some (status, keypair, n + 1)
        else case ecc_keypair_generate_rdata svc keypair ECC_CURVE_NAME_SECP384R1 (Some random) of
          None \<Rightarrow> None
        | Some (status, keypair1) \<Rightarrow>
            if status = ERR_INVALID_PARAMS then ecdsa_keypair_generate svc trng (n + 1) keypair1
            else Some (status, keypair1, n + 1))"

declare ecdsa_keypair_generate.simps [code]

definition ecdsa_export_pubkey :: "ecc_pubkey option \<Rightarrow> ecc_keypair option \<Rightarrow> sev_status \<times> ecc_pubkey option" where
  "ecdsa_export_pubkey pubkey keypair = ecc_get_pubkey keypair pubkey"

section \<open>Signatures\<close>

text \<open>From the point where all inputs are known to the end. The signature is cleared first.\<close>

definition sign_with :: "ecc_service \<Rightarrow> ecc_curve \<Rightarrow> ecc_keypair \<Rightarrow> u8 list \<Rightarrow> scalar \<Rightarrow> (sev_status \<times> ecdsa_sig option) option" where
  "sign_with svc curve keypair digest k =
     (let sig0 = zero_sig; n = cv_n curve
      in on_success (ecc_point_scale svc zero_point (cv_G curve) k (cv_name curve)) (\<lambda>status. Some (status, Some sig0)) (\<lambda>X.
         on_success_opt (ecc_scalar_mod zero_scalar (pt_x X) n) (\<lambda>status. Some (status, Some sig0)) (\<lambda>r.
         if ecc_scalar_is_zero r then Some (ERR_INVALID_PARAMS, Some sig0)
         else
           let sig1 = sig0\<lparr>sig_r := r\<rparr>; end = (\<lambda>status. Some (status, Some sig1))
           in on_success (ecc_scalar_inv svc k k n) end (\<lambda>k_inv.
              on_success (ecc_scalar_mul svc r (kp_d keypair) r n) end (\<lambda>dr.
              on_success (ecc_scalar_init zero_scalar (Some digest) (length digest)) end (\<lambda>e.
              on_success (ecc_scalar_add svc e e dr n) end (\<lambda>e1.
              case ecc_scalar_mul svc (sig_s sig1) k_inv e1 n of (status, s) \<Rightarrow>
                let sig2 = sig1\<lparr>sig_s := s\<rparr>
                in if status \<noteq> SEV_STATUS_SUCCESS then Some (status, Some sig2)
                   else if ecc_scalar_is_zero s then Some (ERR_INVALID_PARAMS, Some sig2)
                   else Some (SEV_STATUS_SUCCESS, Some sig2))))))))"

definition ecdsa_sign_rdata ::
    "ecc_service \<Rightarrow> ecdsa_sig option \<Rightarrow> ecc_keypair option \<Rightarrow> u8 list option \<Rightarrow> u8 list option \<Rightarrow>
     (sev_status \<times> ecdsa_sig option) option" where
  "ecdsa_sign_rdata svc sig keypair digest rdata =
     (case (sig, keypair, digest, rdata) of
        (Some _, Some kp, Some dg, Some rd) \<Rightarrow>
          (case ecc_get_curve (kp_curve kp) of
             None \<Rightarrow> Some (ERR_INVALID_PARAMS, sig)
           | Some curve \<Rightarrow>
               if length dg = 0 \<or> length rd = 0 then Some (ERR_INVALID_PARAMS, sig)
               else if length rd > ECC_SCALAR_SIZE_BYTES then None
               else
                 let k = rd @ drop (length rd) zero_scalar
                 in if ecc_scalar_is_greater k (cv_n curve) then Some (ERR_INVALID_PARAMS, sig)
                    else if ecc_scalar_is_zero k then Some (ERR_INVALID_PARAMS, sig)
                    else sign_with svc curve kp dg k)
      | _ \<Rightarrow> Some (ERR_INVALID_PARAMS, sig))"

partial_function (option) sign_loop ::
    "ecc_service \<Rightarrow> trng_service \<Rightarrow> nat \<Rightarrow> ecdsa_sig option \<Rightarrow> ecc_keypair option \<Rightarrow> u8 list option \<Rightarrow>
     (sev_status \<times> ecdsa_sig option \<times> nat) option" where
  "sign_loop svc trng n sig keypair digest =
     (case sev_hal_trng trng n of (status, random) \<Rightarrow>
        if status \<noteq> SEV_STATUS_SUCCESS then Some (status, sig, n + 1)
        else case ecdsa_sign_rdata svc sig keypair digest (Some random) of
          None \<Rightarrow> None
        | Some (status, sig1) \<Rightarrow>
            if status = ERR_INVALID_PARAMS then sign_loop svc trng (n + 1) sig1 keypair digest
            else Some (status, sig1, n + 1))"

declare sign_loop.simps [code]

definition ecdsa_sign ::
    "ecc_service \<Rightarrow> trng_service \<Rightarrow> nat \<Rightarrow> ecdsa_sig option \<Rightarrow> ecc_keypair option \<Rightarrow> u8 list option \<Rightarrow>
     (sev_status \<times> ecdsa_sig option \<times> nat) option" where
  "ecdsa_sign svc trng n sig keypair digest =
     (if sig = None \<or> keypair = None \<or> digest = None \<or> digest = Some [] then Some (ERR_INVALID_PARAMS, sig, n)
      else sign_loop svc trng n sig keypair digest)"

definition ecdsa_verify ::
    "ecc_service \<Rightarrow> ecdsa_sig option \<Rightarrow> ecc_pubkey option \<Rightarrow> u8 list option \<Rightarrow> sev_status option" where
  "ecdsa_verify svc sig pubkey digest =
     (case (sig, pubkey, digest) of
        (Some sg, Some pk, Some dg) \<Rightarrow>
          (case ecc_get_curve (pk_curve pk) of
             None \<Rightarrow> Some ERR_INVALID_PARAMS
           | Some curve \<Rightarrow>
               let n = cv_n curve
               in if length dg = 0 then Some ERR_INVALID_PARAMS
                  else if ecc_scalar_is_zero (sig_r sg) then Some SEV_STATUS_BAD_SIGNATURE
                  else if \<not> ecc_scalar_is_greater n (sig_r sg) then Some SEV_STATUS_BAD_SIGNATURE
                  else if ecc_scalar_is_zero (sig_s sg) then Some SEV_STATUS_BAD_SIGNATURE
                  else if \<not> ecc_scalar_is_greater n (sig_s sg) then Some SEV_STATUS_BAD_SIGNATURE
                  else
                    on_success (ecc_scalar_init zero_scalar (Some dg) (length dg)) Some (\<lambda>e.
                    on_success (ecc_scalar_inv svc zero_scalar (sig_s sg) n) Some (\<lambda>w.
                    on_success (ecc_scalar_mul svc zero_scalar e w n) Some (\<lambda>u1.
                    on_success (ecc_scalar_mul svc zero_scalar (sig_r sg) w n) Some (\<lambda>u2.
                    on_success (ecc_point_linear svc zero_point (cv_G curve) u1 (pk_Q pk) u2 (cv_name curve)) Some (\<lambda>X.
                    on_success_opt (ecc_scalar_mod zero_scalar (pt_x X) n) Some (\<lambda>v.
                    if secure_compare (Some (sig_r sg)) (Some v) ECC_SCALAR_SIZE_BYTES \<noteq> 0
                    then Some SEV_STATUS_BAD_SIGNATURE else Some SEV_STATUS_SUCCESS)))))))
      | _ \<Rightarrow> Some ERR_INVALID_PARAMS)"

section \<open>Messages\<close>

definition SEV_CERT_ALGO_ECDSA_SHA256 :: u32 where "SEV_CERT_ALGO_ECDSA_SHA256 = 0x002"
definition SEV_CERT_ALGO_ECDSA_SHA384 :: u32 where "SEV_CERT_ALGO_ECDSA_SHA384 = 0x102"

text \<open>\<open>stack\<close> is what the digest's context and buffer hold before. The result: status, signature and
  the number of random draws.\<close>

definition sign_verify_msg ::
    "ecc_service \<Rightarrow> sha_service \<Rightarrow> trng_service \<Rightarrow> nat \<Rightarrow> digest_sha_ctx \<times> u8 list \<Rightarrow> ecdsa_sig option \<Rightarrow>
     ecc_keypair option \<Rightarrow> u8 list option \<Rightarrow> bool \<Rightarrow> u32 \<Rightarrow> (sev_status \<times> ecdsa_sig option \<times> nat) option" where
  "sign_verify_msg svc hash trng c stack sig keypair msg do_sign algo =
     (case (sig, keypair, msg) of
        (Some _, Some kp, Some m) \<Rightarrow>
          if kp_curve kp = ECC_CURVE_NAME_INVALID then Some (ERR_INVALID_PARAMS, sig, c)
          else if algo \<noteq> SEV_CERT_ALGO_ECDSA_SHA256 \<and> algo \<noteq> SEV_CERT_ALGO_ECDSA_SHA384
          then Some (ERR_INVALID_PARAMS, sig, c)
          else if length m = 0 then Some (SEV_STATUS_INVALID_LENGTH, sig, c)
          else
            let t = (if algo = SEV_CERT_ALGO_ECDSA_SHA256 then SHA_TYPE_256 else SHA_TYPE_384)
            in case digest_sha hash (fst stack) msg (snd stack) DIGEST_STORAGE_BYTES t of (status, sha, sha_len) \<Rightarrow>
               if status \<noteq> SEV_STATUS_SUCCESS then Some (status, sig, c)
               else case ecc_get_pubkey keypair (Some \<lparr>pk_curve = 0, pk_Q = zero_point\<rparr>) of (status, pubkey) \<Rightarrow>
               if status \<noteq> SEV_STATUS_SUCCESS then Some (status, sig, c)
               else if do_sign then ecdsa_sign svc trng c sig keypair (Some (take sha_len sha))
               else map_option (\<lambda>status. (status, sig, c)) (ecdsa_verify svc sig pubkey (Some (take sha_len sha)))
      | _ \<Rightarrow> Some (ERR_INVALID_PARAMS, sig, c))"

definition ecdsa_sign_msg ::
    "ecc_service \<Rightarrow> sha_service \<Rightarrow> trng_service \<Rightarrow> nat \<Rightarrow> digest_sha_ctx \<times> u8 list \<Rightarrow> ecdsa_sig option \<Rightarrow>
     ecc_keypair option \<Rightarrow> u8 list option \<Rightarrow> u32 \<Rightarrow> (sev_status \<times> ecdsa_sig option \<times> nat) option" where
  "ecdsa_sign_msg svc hash trng c stack sig keypair msg algo =
     sign_verify_msg svc hash trng c stack sig keypair msg True algo"

text \<open>The public key is passed as a key pair, whose private part, \<open>beyond\<close>, is what lies behind the public key
  in memory.\<close>

definition ecdsa_verify_msg ::
    "ecc_service \<Rightarrow> sha_service \<Rightarrow> trng_service \<Rightarrow> nat \<Rightarrow> digest_sha_ctx \<times> u8 list \<Rightarrow> scalar \<Rightarrow> ecdsa_sig option \<Rightarrow>
     ecc_pubkey option \<Rightarrow> u8 list option \<Rightarrow> u32 \<Rightarrow> (sev_status \<times> ecdsa_sig option \<times> nat) option" where
  "ecdsa_verify_msg svc hash trng c stack beyond sig pubkey msg algo =
     sign_verify_msg svc hash trng c stack sig
       (map_option (\<lambda>pk. \<lparr>kp_curve = pk_curve pk, kp_Q = pk_Q pk, kp_d = beyond\<rparr>) pubkey) msg False algo"

section \<open>Key agreement\<close>

partial_function (option) ecdh_loop ::
    "ecc_service \<Rightarrow> trng_service \<Rightarrow> nat \<Rightarrow> ecc_keypair option \<Rightarrow> (sev_status \<times> ecc_keypair option \<times> nat) option" where
  "ecdh_loop svc trng n keypair =
     (case sev_hal_trng trng n of (status, random) \<Rightarrow>
        if status \<noteq> SEV_STATUS_SUCCESS then Some (status, keypair, n + 1)
        else case ecc_keypair_generate_rdata svc keypair ECC_CURVE_NAME_SECP384R1 (Some random) of
          None \<Rightarrow> None
        | Some (status, keypair1) \<Rightarrow>
            if status = ERR_INVALID_PARAMS then ecdh_loop svc trng (n + 1) keypair1
            else Some (status, keypair1, n + 1))"

declare ecdh_loop.simps [code]

definition ecdh_keypair_generate ::
    "ecc_service \<Rightarrow> trng_service \<Rightarrow> nat \<Rightarrow> ecc_keypair option \<Rightarrow> (sev_status \<times> ecc_keypair option \<times> nat) option" where
  "ecdh_keypair_generate svc trng n keypair =
     (if keypair = None then Some (ERR_INVALID_PARAMS, None, n) else ecdh_loop svc trng n keypair)"

text \<open>\<open>point0\<close> is what the stack holds at \<open>result\<close>; \<open>length\<close> is the size of \<open>secret\<close>.\<close>

definition ecdh_key_agreement ::
    "ecc_service \<Rightarrow> ecc_point \<Rightarrow> ecc_keypair option \<Rightarrow> ecc_pubkey option \<Rightarrow> u8 list option \<Rightarrow> (sev_status \<times> u8 list option) option" where
  "ecdh_key_agreement svc point0 lkeypair rpubkey secret =
     (case (lkeypair, rpubkey, secret) of
        (Some kp, Some pk, Some sec) \<Rightarrow>
          if length sec < ECC_CURVE_SECP384R1_SIZE_BYTES then Some (ERR_INVALID_PARAMS, secret)
          else case ecc_pubkey_is_valid svc pk of
            None \<Rightarrow> None
          | Some valid \<Rightarrow>
              if \<not> valid \<or> pk_curve pk \<noteq> kp_curve kp then Some (SEV_STATUS_INVALID_CERTIFICATE, secret)
              else
                on_success (ecc_point_scale svc point0 (pk_Q pk) (kp_d kp) (kp_curve kp)) (\<lambda>status. Some (status, secret)) (\<lambda>result.
                case reverse_bytes (Some (pt_x result)) ECC_CURVE_SECP384R1_SIZE_BYTES of (status, x) \<Rightarrow>
                  if status \<noteq> SEV_STATUS_SUCCESS then Some (status, secret)
                  else Some (SEV_STATUS_SUCCESS, Some (put_bytes 0 (take ECC_CURVE_SECP384R1_SIZE_BYTES (the x)) sec)))
      | _ \<Rightarrow> Some (ERR_INVALID_PARAMS, secret))"

end
