(* ===== verification/Sev_EccScalars.thy ===== *)
theory Sev_EccScalars
  imports Sev_Ecc
begin

text \<open>
  Scalars as numbers: what the operations of \<open>ecc.c\<close> on arrays of 72 bytes do to the numbers that
  the arrays hold. \<open>is_scalar\<close> is the length of the array, \<open>le_val\<close> its value, \<open>to_scalar\<close> the array
  of a number.
\<close>

section \<open>Numbers and their bytes\<close>

definition is_scalar :: "scalar \<Rightarrow> bool" where "is_scalar a \<longleftrightarrow> length a = ECC_SCALAR_SIZE_BYTES"

fun le_bytes :: "nat \<Rightarrow> nat \<Rightarrow> u8 list" where
  "le_bytes 0 v = []"
| "le_bytes (Suc n) v = of_nat v # le_bytes n (v div 256)"

abbreviation to_scalar :: "nat \<Rightarrow> scalar" where "to_scalar \<equiv> le_bytes ECC_SCALAR_SIZE_BYTES"

lemma length_le_bytes [simp]: "length (le_bytes n v) = n"
  by (induction n arbitrary: v) simp_all

lemma le_val_le_bytes: "le_val (le_bytes n v) = v mod 256 ^ n"
proof (induction n arbitrary: v)
  case (Suc n)
  have "unat (of_nat v :: u8) = v mod 256" by (simp add: unsigned_of_nat take_bit_eq_mod)
  then show ?case using Suc [of "v div 256"] mod_mult2_eq [of v 256 "256 ^ n"] by simp
qed simp

lemma le_val_zero: "le_val a = 0 \<longleftrightarrow> (\<forall>i < length a. a ! i = 0)"
  by (induction a) (auto simp: unat_eq_0 All_less_Suc2)

lemma le_val_replicate [simp]: "le_val (replicate n 0) = 0"
  by (simp add: le_val_zero)

lemma is_scalar_to_scalar [simp]: "is_scalar (to_scalar v)"
  by (simp add: is_scalar_def)

lemma scalar_less: "is_scalar a \<Longrightarrow> le_val a < 256 ^ ECC_SCALAR_SIZE_BYTES"
  using le_val_less [of a] by (simp add: is_scalar_def)

lemma le_val_to_scalar: "v < 256 ^ ECC_SCALAR_SIZE_BYTES \<Longrightarrow> le_val (to_scalar v) = v"
  by (simp add: le_val_le_bytes)

lemma scalar_eq: "is_scalar a \<Longrightarrow> is_scalar b \<Longrightarrow> a = b \<longleftrightarrow> le_val a = le_val b"
  using le_val_inj [of a b] by (simp add: is_scalar_def)

lemma to_scalar_le_val: "is_scalar a \<Longrightarrow> to_scalar (le_val a) = a"
  using scalar_eq [of "to_scalar (le_val a)" a] by (simp add: le_val_to_scalar scalar_less)

lemma zero_scalar [simp]: "is_scalar zero_scalar" "le_val zero_scalar = 0"
  by (simp_all add: zero_scalar_def is_scalar_def)

lemma one_scalar [simp]: "is_scalar one_scalar" "le_val one_scalar = 1"
  by (simp_all add: one_scalar_def zero_scalar_def is_scalar_def ECC_SCALAR_SIZE_BYTES_def numeral_eq_Suc)

section \<open>Comparisons\<close>

lemma ecc_scalar_is_greater_spec:
  "is_scalar a \<Longrightarrow> is_scalar b \<Longrightarrow> ecc_scalar_is_greater a b \<longleftrightarrow> le_val b < le_val a"
  using compare_le_spec [of ECC_SCALAR_SIZE_BYTES a b] by (auto simp: ecc_scalar_is_greater_def is_scalar_def)

lemma ecc_scalar_is_zero_spec:
  assumes "is_scalar a" shows "ecc_scalar_is_zero a \<longleftrightarrow> le_val a = 0"
proof -
  have len: "length a = 72" using assms by (simp add: is_scalar_def ECC_SCALAR_SIZE_BYTES_def)
  have eq: "take 71 a = take 71 (drop 1 a) \<longleftrightarrow> (\<forall>i < 71. a ! i = a ! (i + 1))"
    using len by (auto simp: list_eq_iff_nth_eq)
  have "a ! 0 = 0 \<and> (\<forall>i < 71. a ! i = a ! (i + 1)) \<longleftrightarrow> (\<forall>i < 72. a ! i = 0)"
  proof (intro iffI conjI allI impI)
    fix i assume h: "a ! 0 = 0 \<and> (\<forall>i < 71. a ! i = a ! (i + 1))" "i < (72 :: nat)"
    show "a ! i = 0" using h(2)
    proof (induction i)
      case (Suc i)
      then have "a ! i = a ! (i + 1)" using h(1) by simp
      then show ?case using Suc by simp
    qed (use h(1) in simp)
  qed simp_all
  moreover have "ecc_scalar_is_zero a \<longleftrightarrow> a ! 0 = 0 \<and> take 71 a = take 71 (drop 1 a)"
    using secure_compare_spec [of 71 a "drop 1 a"] len by (simp add: ecc_scalar_is_zero_def ECC_SCALAR_SIZE_BYTES_def)
  ultimately show ?thesis unfolding le_val_zero len eq by blast
qed

section \<open>Differences and remainders\<close>

lemma minus_byte_spec:
  assumes "borrow \<in> {0, 1}" "minus_byte a b borrow = (r, borrow')"
  shows "borrow' \<in> {0, 1} \<and> unat r + unat b + unat borrow = unat a + 256 * unat borrow'"
proof -
  define A where "A = unat a"
  define B where "B = unat b"
  have bound: "A < 256" "B < 256"
    using unsigned_less [of a, where ?'a = nat] unsigned_less [of b, where ?'a = nat] by (simp_all add: A_def B_def)
  let ?l = "ucast (ucast a - borrow) :: u8"
  have l: "unat ?l = (if unat borrow = 1 \<and> A = 0 then 255 else A - unat borrow)"
  proof (cases "borrow = 0")
    case True
    then show ?thesis using bound by (simp add: A_def unat_ucast_down)
  next
    case False
    then have b: "borrow = 1" using assms(1) by simp
    show ?thesis
    proof (cases "A = 0")
      case True
      then have "a = 0" by (simp add: A_def unat_eq_0)
      moreover have "ucast (- 1 :: u32) = (- 1 :: u8)" "unat (- 1 :: u8) = 255" by code_simp+
      ultimately show ?thesis using b True by (simp add: A_def)
    next
      case 2: False
      then have "unat (ucast a - 1 :: u32) = A - 1"
        by (subst unat_sub_no_wrap) (simp_all add: A_def word_le_nat_alt)
      then show ?thesis using b 2 bound by (simp add: unat_ucast_down)
    qed
  qed
  define L where "L = unat ?l"
  have sub: "unat (?l - b) = (if B \<le> L then L - B else 256 + L - B)"
    by (cases "B \<le> L") (simp_all add: L_def B_def unat_sub_if')
  have gt: "?l > a \<longleftrightarrow> L > A" "?l - b > ?l \<longleftrightarrow> unat (?l - b) > L" by (simp_all add: word_less_nat_alt L_def A_def)
  have L: "L = (if unat borrow = 1 \<and> A = 0 then 255 else A - unat borrow)" using l by (simp add: L_def)
  have eq: "(r, borrow') = (if L > A then (?l - b, 1) else (?l - b, if unat (?l - b) > L then 1 else 0))"
    using assms(2) unfolding minus_byte_def Let_def gt by simp
  have bb: "unat borrow = 0 \<or> unat borrow = 1" using assms(1) by auto
  have "unat r = (if B \<le> L then L - B else 256 + L - B)" using eq sub by (auto split: if_splits)
  moreover have "unat borrow' = (if L > A \<or> unat (?l - b) > L then 1 else 0) \<and> borrow' \<in> {0, 1}"
    using eq by (auto split: if_splits)
  ultimately show ?thesis unfolding A_def [symmetric] B_def [symmetric]
    using bb L bound sub by (auto split: if_splits)
qed

lemma minus_bytes_spec:
  assumes "length a = length b" "borrow \<in> {0, 1}" "le_val b + unat borrow \<le> le_val a"
  shows "length (minus_bytes a b borrow) = length a \<and>
    le_val (minus_bytes a b borrow) + le_val b + unat borrow = le_val a"
  using assms
proof (induction a b arbitrary: borrow rule: list_induct2)
  case (Cons x xs y ys)
  obtain r borrow' where m: "minus_byte x y borrow = (r, borrow')" by (rule prod.exhaust)
  have s: "borrow' \<in> {0, 1}" "unat r + unat y + unat borrow = unat x + 256 * unat borrow'"
    using minus_byte_spec [OF Cons.prems(1) m] by simp_all
  have "unat r < 256" using unsigned_less [of r, where ?'a = nat] by simp
  then have "le_val ys + unat borrow' \<le> le_val xs" using Cons.prems(2) s(2) by simp
  then have "length (minus_bytes xs ys borrow') = length xs"
    "le_val (minus_bytes xs ys borrow') + le_val ys + unat borrow' = le_val xs"
    using Cons.IH [OF s(1)] by simp_all
  then show ?case using m s(2) by simp
qed simp

lemma ecc_scalar_minus_spec:
  assumes "is_scalar a" "is_scalar b"
  shows "ecc_scalar_minus rop a b =
    (if le_val a < le_val b then (ERR_INVALID_PARAMS, rop) else (SEV_STATUS_SUCCESS, to_scalar (le_val a - le_val b)))"
proof -
  have "minus_bytes a b 0 = to_scalar (le_val a - le_val b)" if "le_val b \<le> le_val a"
  proof -
    have m: "is_scalar (minus_bytes a b 0)" "le_val (minus_bytes a b 0) + le_val b = le_val a"
      using minus_bytes_spec [of a b 0] assms that by (simp_all add: is_scalar_def)
    then show ?thesis using to_scalar_le_val [OF m(1)] by (metis diff_add_inverse2)
  qed
  then show ?thesis
    using ecc_scalar_is_greater_spec [OF assms(2,1)] by (simp add: ecc_scalar_minus_def)
qed

lemma mod_loop_terminates:
  assumes "is_scalar m" "0 < le_val m" "is_scalar a"
  shows "mod_loop rop a m = Some (SEV_STATUS_SUCCESS, to_scalar (le_val a mod le_val m))"
  using assms(3)
proof (induction "le_val a" arbitrary: a rule: less_induct)
  case less
  show ?case
  proof (cases "le_val a < le_val m")
    case True
    then show ?thesis using less.prems assms(1)
      by (subst mod_loop.simps) (simp add: ecc_scalar_is_greater_spec to_scalar_le_val)
  next
    case False
    let ?a = "to_scalar (le_val a - le_val m)"
    have v: "le_val ?a = le_val a - le_val m"
      using scalar_less [OF less.prems] by (intro le_val_to_scalar) simp
    have "mod_loop rop a m = mod_loop rop ?a m"
      using False less.prems assms(1)
      by (subst mod_loop.simps) (simp add: ecc_scalar_is_greater_spec ecc_scalar_minus_spec)
    also have "\<dots> = Some (SEV_STATUS_SUCCESS, to_scalar (le_val ?a mod le_val m))"
      by (rule less.hyps) (use v False assms(2) in simp_all)
    finally show ?thesis using v False le_mod_geq [of "le_val m" "le_val a"] by simp
  qed
qed

lemma ecc_scalar_mod_spec:
  assumes "is_scalar a" "is_scalar m" "0 < le_val m"
  shows "ecc_scalar_mod rop a m = Some (SEV_STATUS_SUCCESS, to_scalar (le_val a mod le_val m))"
  using mod_loop_terminates [OF assms(2,3,1)] by (simp add: ecc_scalar_mod_def)

text \<open>The modulus 0 is never greater and is subtracted for ever.\<close>

lemma mod_loop_zero:
  assumes "is_scalar m" "le_val m = 0"
  shows "is_scalar a \<Longrightarrow> mod_loop rop a m = None"
proof -
  have "False" if "mod_loop rop a m = Some y" "is_scalar a" "is_scalar m" "le_val m = 0" for rop a m y
  proof -
    have "is_scalar a \<longrightarrow> is_scalar m \<longrightarrow> le_val m = 0 \<longrightarrow> False"
    proof (rule mod_loop.raw_induct [of "\<lambda>rop a m y. is_scalar a \<longrightarrow> is_scalar m \<longrightarrow> le_val m = 0 \<longrightarrow> False", OF _ that(1)])
      fix loop :: "scalar \<Rightarrow> scalar \<Rightarrow> scalar \<Rightarrow> (sev_status \<times> scalar) option" and rop a m y
      assume IH: "\<And>rop a m y. loop rop a m = Some y \<Longrightarrow> is_scalar a \<longrightarrow> is_scalar m \<longrightarrow> le_val m = 0 \<longrightarrow> False"
        and step: "(if ecc_scalar_is_greater m a then Some (SEV_STATUS_SUCCESS, a)
          else case ecc_scalar_minus a a m of
            (status, op') \<Rightarrow> if status \<noteq> SEV_STATUS_SUCCESS then Some (status, rop) else loop rop op' m) = Some y"
      show "is_scalar a \<longrightarrow> is_scalar m \<longrightarrow> le_val m = 0 \<longrightarrow> False"
      proof (intro impI)
        assume h: "is_scalar a" "is_scalar m" "le_val m = 0"
        then have "loop rop a m = Some y"
          using step by (simp add: ecc_scalar_is_greater_spec ecc_scalar_minus_spec to_scalar_le_val)
        then show False using IH h by blast
      qed
    qed
    then show False using that by simp
  qed
  then show "is_scalar a \<Longrightarrow> mod_loop rop a m = None" using assms by (cases "mod_loop rop a m") auto
qed

section \<open>The octet string of a digest\<close>

lemma ecc_scalar_init_spec:
  assumes "length buf \<le> ECC_SCALAR_SIZE_BYTES"
  shows "ecc_scalar_init rop (Some buf) (length buf) = (SEV_STATUS_SUCCESS, to_scalar (le_val (rev buf)))"
proof -
  let ?t = "buf @ drop (length buf) zero_scalar"
  have "reverse_bytes (Some ?t) (length buf) = (SEV_STATUS_SUCCESS, Some (rev buf @ drop (length buf) zero_scalar))"
    using reverse_bytes_spec [of "length buf" ?t] by simp
  moreover have "is_scalar (rev buf @ drop (length buf) zero_scalar)"
    using assms by (simp add: is_scalar_def zero_scalar_def)
  moreover have "le_val (rev buf @ drop (length buf) zero_scalar) = le_val (rev buf)"
    by (simp add: le_val_append zero_scalar_def)
  ultimately show ?thesis using assms to_scalar_le_val [of "rev buf @ drop (length buf) zero_scalar"]
    by (simp add: ecc_scalar_init_def)
qed

section \<open>The reduction through Barrett's method\<close>

lemma used_of_bounds:
  assumes "holds s r n" "bn_base ^ (k - 1) \<le> n" "n < bn_base ^ k" "0 < k"
  shows "used s r = k"
proof -
  have ok: "bn_ok s r" "trimmed s r" "num s r = n" using assms(1) by (simp_all add: holds_def)
  have n0: "0 < n" using assms(2) less_le_trans [OF zero_less_power [OF bn_base_pos(1)]] by blast
  then have u0: "0 < used s r" using num_zero_iff [OF ok(2)] ok(3) by auto
  have "bn_base ^ (used s r - 1) < bn_base ^ k"
    by (rule le_less_trans [OF num_ge [OF ok(2) u0]]) (simp only: ok(3) assms(3))
  then have "used s r - 1 < k" using power_less_imp_less_exp [of bn_base] bn_base_pos(3) by blast
  moreover have "bn_base ^ (k - 1) < bn_base ^ used s r"
    by (rule le_less_trans [OF assms(2)]) (use num_less [OF ok(1)] ok(3) in simp)
  then have "k - 1 < used s r" using power_less_imp_less_exp [of bn_base] bn_base_pos(3) by blast
  ultimately show ?thesis using u0 assms(4) by simp
qed

lemma cleared_room: "room cleared_bns r" "dig cleared_bns r j = (if j < 80 then 0 else dig cleared_bns r j)"
  by (simp_all add: cleared_bns_def room_def dig_def MAX_BN_ELEMENTS_def)

lemma reduce_core:
  assumes m: "is_scalar m" "0 < u" "bn_base ^ (u - 1) < le_val m" "le_val m < bn_base ^ u"
    and x: "is_scalar x" "le_val x < bn_base ^ (2 * u)" "le_val x < le_val m \<or> le_val x mod le_val m \<noteq> 0"
  shows "\<exists>s1 s2 s3 s4. BNLoad bn_mod m cleared_bns = Some (KC_OK, s1) \<and> BNLoad bn_x x s1 = Some (KC_OK, s2) \<and>
    BNBarrettSetup bn_mod s2 = Some (KC_OK, s3) \<and> BNBarrettReduce bn_result bn_x bn_mod s3 = (KC_OK, s4) \<and>
    holds s4 bn_result (le_val x mod le_val m)"
proof -
  have len: "length m = 72" "length x = 72" using m(1) x(1) by (simp_all add: is_scalar_def ECC_SCALAR_SIZE_BYTES_def)
  obtain s1 where s1: "BNLoad bn_mod m cleared_bns = Some (KC_OK, s1)" "others_same bn_mod cleared_bns s1"
    "holds s1 bn_mod (le_val m)" "clean s1 bn_mod"
    using BNLoad_spec [of m bn_mod cleared_bns] len by force
  obtain s2 where s2: "BNLoad bn_x x s1 = Some (KC_OK, s2)" "others_same bn_x s1 s2" "holds s2 bn_x (le_val x)" "clean s2 bn_x"
    using BNLoad_spec [of x bn_x s1] len by force
  have m2: "s2 bn_mod = s1 bn_mod" using s2(2) by (simp add: others_same_def)
  have rest2: "s2 r = cleared_bns r" if "r \<noteq> bn_mod" "r \<noteq> bn_x" for r
    using s1(2) s2(2) that by (simp add: others_same_def)
  have hm2: "holds s2 bn_mod (le_val m)" "clean s2 bn_mod"
    using s1(3,4) holds_same [of s2 bn_mod s1, OF m2] same_object [of s2 bn_mod s1, OF m2] by simp_all
  have um: "used s2 bn_mod = u" by (rule used_of_bounds [OF hm2(1)]) (use m in simp_all)
  have u39: "u \<le> 39"
  proof (rule ccontr)
    assume "\<not> u \<le> 39"
    then have "bn_base ^ 39 \<le> bn_base ^ (u - 1)" using bn_base_pos(3) by (intro power_increasing) simp_all
    moreover have "le_val m < 256 ^ 72" using le_val_less [of m] len by simp
    moreover have "(256 :: nat) ^ 72 \<le> bn_base ^ 39" unfolding bn_base_num by simp
    ultimately show False using m(3) by linarith
  qed
  have room2: "room s2 r" if "r \<noteq> bn_mod" "r \<noteq> bn_x" for r
    using rest2 [OF that] cleared_room(1) [of r] by (simp add: room_def)
  have parts: "bn_ok s2 bn_mod" "trimmed s2 bn_mod" "\<not> sign s2 bn_mod" "num s2 bn_mod = le_val m"
    using hm2(1) by (simp_all add: holds_def)
  have dr: "div_rooms s2" unfolding div_rooms_def using room2 by simp
  have ne: "num s2 bn_mod \<noteq> bn_base ^ (used s2 bn_mod - 1)" "0 < num s2 bn_mod" using parts(4) um m(3) by simp_all
  obtain s3 where s3: "BNBarrettSetup bn_mod s2 = Some (KC_OK, s3)" "others_than (insert Barrett_u div_temps) s2 s3"
    "holds s3 Barrett_u (bn_base ^ (2 * used s2 bn_mod) div num s2 bn_mod)"
    using BNBarrettSetup_spec [OF parts(1-3) ne(2) _ _ _ ne(1) dr] um u39 room2 by auto
  have same3: "s3 r = s2 r" if "r \<notin> insert Barrett_u div_temps" for r using s3(2) that unfolding others_than_def by blast
  have m3: "s3 bn_mod = s2 bn_mod" "s3 bn_x = s2 bn_x" "s3 bn_result = s2 bn_result"
    by (rule same3, simp)+
  have room3: "room s3 r" if "r \<in> {bn_result, BarrettTemp 0, BarrettTemp 1, BarrettTemp 2}" for r
  proof -
    have "s3 r = s2 r" using that by (intro same3) auto
    then show ?thesis using room2 [of r] that by (auto simp: room_def)
  qed
  note obj_m = same_object [of s3 bn_mod s2, OF m3(1)] and obj_x = same_object [of s3 bn_x s2, OF m3(2)]
  have um3: "used s3 bn_mod = u" "used s3 bn_x = used s2 bn_x" using um m3 by simp_all
  have px: "bn_ok s2 bn_x" "trimmed s2 bn_x" "\<not> sign s2 bn_x" "num s2 bn_x = le_val x" using s2(3) by (simp_all add: holds_def)
  have ux: "used s2 bn_x \<le> 2 * u"
  proof (cases "used s2 bn_x = 0")
    case False
    then have "bn_base ^ (used s2 bn_x - 1) \<le> num s2 bn_x" using num_ge [OF px(2)] by simp
    then have "bn_base ^ (used s2 bn_x - 1) < bn_base ^ (2 * u)" unfolding px(4) using x(2) by (rule le_less_trans)
    then have "used s2 bn_x - 1 < 2 * u" using power_less_imp_less_exp [of bn_base] bn_base_pos(3) by blast
    then show ?thesis by simp
  qed simp
  have blank: "dig s3 bn_result j = 0" if "j < 80" for j
    using rest2 [of bn_result] m3(3) cleared_room(2) [of bn_result j] that by (simp add: dig_def)
  have "\<exists>s4. BNBarrettReduce bn_result bn_x bn_mod s3 = (KC_OK, s4) \<and> others_than (insert bn_result barrett_temps) s3 s4 \<and>
      holds s4 bn_result (num s3 bn_x mod num s3 bn_mod) \<and> clean s4 bn_result"
  proof (rule BNBarrettReduce_spec)
    show "bn_ok s3 bn_x" "trimmed s3 bn_x" "\<not> sign s3 bn_x" "clean s3 bn_x" "used s3 bn_x \<le> 2 * used s3 bn_mod"
      using px s2(4) obj_x um3 ux m3 by simp_all
    show "bn_ok s3 bn_mod" "trimmed s3 bn_mod" "\<not> sign s3 bn_mod" "clean s3 bn_mod" "0 < num s3 bn_mod" "used s3 bn_mod \<le> 39"
      using parts hm2(2) obj_m ne um3 u39 m3 by simp_all
    show "num s3 bn_mod \<noteq> bn_base ^ (used s3 bn_mod - 1)" "num s3 bn_x < num s3 bn_mod \<or> num s3 bn_x mod num s3 bn_mod \<noteq> 0"
      using ne obj_m obj_x parts(4) px(4) um um3 x(3) by simp_all
    show "holds s3 Barrett_u (bn_base ^ (2 * used s3 bn_mod) div num s3 bn_mod)"
      using s3(3) um um3 obj_m by simp
    show "room s3 bn_result" "room s3 (BarrettTemp 0)" "room s3 (BarrettTemp 1)" "room s3 (BarrettTemp 2)"
      using room3 by simp_all
  qed (use blank in simp_all)
  then obtain s4 where "BNBarrettReduce bn_result bn_x bn_mod s3 = (KC_OK, s4)"
    "holds s4 bn_result (num s3 bn_x mod num s3 bn_mod)" by blast
  moreover have "num s3 bn_x mod num s3 bn_mod = le_val x mod le_val m"
    by (simp only: obj_m obj_x parts(4) px(4))
  ultimately show ?thesis using s1(1) s2(1) s3(1) by metis
qed

text \<open>What \<open>ecc_scalar_reduce\<close> leaves in a cleared result: the low octets of the remainder, as many as
  \<open>BNStore\<close> writes for its number of digits.\<close>

lemma ecc_scalar_reduce_spec:
  assumes m: "is_scalar m" "0 < u" "bn_base ^ (u - 1) < le_val m" "le_val m < bn_base ^ u"
    and x: "is_scalar x" "le_val x < bn_base ^ (2 * u)"
    and r: "bn_base ^ k \<le> le_val x mod le_val m" "le_val x mod le_val m < bn_base ^ (k + 1)"
  shows "ecc_scalar_reduce zero_scalar x m =
    Some (SEV_STATUS_SUCCESS, to_scalar (le_val x mod le_val m mod 256 ^ bytes_stored k))"
proof -
  let ?r = "le_val x mod le_val m"
  have r0: "0 < ?r" using r(1) less_le_trans [OF zero_less_power [OF bn_base_pos(1)]] by blast
  obtain s1 s2 s3 s4 where s: "BNLoad bn_mod m cleared_bns = Some (KC_OK, s1)" "BNLoad bn_x x s1 = Some (KC_OK, s2)"
    "BNBarrettSetup bn_mod s2 = Some (KC_OK, s3)" "BNBarrettReduce bn_result bn_x bn_mod s3 = (KC_OK, s4)"
    and h: "holds s4 bn_result ?r"
    using reduce_core [OF m x] r0 by blast
  have u: "used s4 bn_result = k + 1" by (rule used_of_bounds [OF h]) (use r in simp_all)
  have k20: "k \<le> 20"
  proof (rule ccontr)
    assume "\<not> k \<le> 20"
    then have "bn_base ^ 21 \<le> bn_base ^ k" using bn_base_pos(3) by (intro power_increasing) simp_all
    moreover have "?r < 256 ^ 72" using scalar_less [OF x(1)] le_less_trans [OF mod_less_eq_dividend] by (simp add: ECC_SCALAR_SIZE_BYTES_def)
    moreover have "(256 :: nat) ^ 72 \<le> bn_base ^ 21" unfolding bn_base_num by simp
    ultimately show False using r(1) by linarith
  qed
  have "\<forall>k \<in> set [0..<21]. bytes_stored k \<le> 72" by code_simp
  then have fits: "bytes_stored k \<le> 72" using k20 by simp
  have len: "length zero_scalar = 72" by (simp add: zero_scalar_def ECC_SCALAR_SIZE_BYTES_def)
  obtain out s5 where o: "BNStore bn_result zero_scalar s4 = (KC_OK, out, s5)" "length out = length zero_scalar"
    "le_val (take (bytes_stored k) out) = ?r mod 256 ^ bytes_stored k"
    "drop (bytes_stored k) out = drop (bytes_stored k) zero_scalar"
    using BNStore_spec [OF h r0, of zero_scalar] u len fits by auto
  have "le_val (drop (bytes_stored k) out) = 0" unfolding o(4) by (simp add: zero_scalar_def)
  then have "le_val out = ?r mod 256 ^ bytes_stored k"
    using o(3) le_val_append [of "take (bytes_stored k) out" "drop (bytes_stored k) out"] by simp
  moreover have "is_scalar out" using o(2) zero_scalar(1) by (simp add: is_scalar_def)
  ultimately have "out = to_scalar (?r mod 256 ^ bytes_stored k)" using to_scalar_le_val [of out] by simp
  then show ?thesis using s o(1) by (simp add: ecc_scalar_reduce_def KC_OK_def)
qed

end
