(* ===== verification/Sev_EccLaws.thy ===== *)
theory Sev_EccLaws
  imports Sev_Ecdsa Sev_EccScalars Sev_DigestStream
begin

text \<open>
  What keys, signatures and agreed secrets are worth when the coprocessor computes what its
  documentation says: \<open>scalar_laws\<close> for arithmetic modulo a number, \<open>point_laws\<close> for the multiples of the
  base point of a curve.
\<close>

section \<open>The curves\<close>

lemma length_scalar_init: "length bs \<le> 72 \<Longrightarrow> is_scalar (scalar_init bs)"
  by (simp add: scalar_init_def is_scalar_def ECC_SCALAR_SIZE_BYTES_def)

lemma le_val_scalar_init [simp]: "le_val (scalar_init bs) = le_val bs"
  by (simp add: scalar_init_def le_val_append)

definition curve_ok :: "ecc_curve \<Rightarrow> bool" where
  "curve_ok c \<longleftrightarrow> is_scalar (cv_p c) \<and> is_scalar (cv_a c) \<and> is_scalar (cv_b c) \<and> is_scalar (cv_n c) \<and>
     is_scalar (pt_x (cv_G c)) \<and> is_scalar (pt_y (cv_G c)) \<and> 1 < le_val (cv_p c) \<and> 2 < le_val (cv_n c)"

lemma supported_curves_ok: "curve_ok ECC_CURVE_SECP256K1" "curve_ok ECC_CURVE_SECP384R1"
  by (simp_all add: curve_ok_def ECC_CURVE_SECP256K1_def ECC_CURVE_SECP384R1_def length_scalar_init)

lemma get_curve_cases:
  "ecc_get_curve i = Some c \<longleftrightarrow>
    i = ECC_CURVE_NAME_SECP256K1 \<and> c = ECC_CURVE_SECP256K1 \<or> i = ECC_CURVE_NAME_SECP384R1 \<and> c = ECC_CURVE_SECP384R1"
proof -
  have "i = 1 \<or> i = 2" if "i \<noteq> 0" "unat i < 3"
  proof -
    have "unat i \<noteq> 0" using that(1) by (simp add: unat_eq_0)
    then have "unat i = 1 \<or> unat i = 2" using that(2) by linarith
    then show ?thesis by (auto simp: word_unat_eq_iff)
  qed
  then show ?thesis
    by (auto simp: ecc_get_curve_def curve_id_is_valid_def sev_supported_curves_def ECC_CURVE_NAME_INVALID_def
        ECC_CURVE_NAME_SECP256K1_def ECC_CURVE_NAME_SECP384R1_def split: if_splits)
qed

lemma get_curve_ok:
  assumes "ecc_get_curve i = Some c" shows "curve_ok c" "cv_name c = i" "ecc_get_curve (cv_name c) = Some c"
  using assms supported_curves_ok unfolding get_curve_cases
  by (auto simp: ECC_CURVE_SECP256K1_def ECC_CURVE_SECP384R1_def)

section \<open>The coprocessor\<close>

definition scalar_laws :: "ecc_service \<Rightarrow> bool" where
  "scalar_laws svc \<longleftrightarrow>
     (\<forall>r n a b. is_scalar n \<longrightarrow> is_scalar a \<longrightarrow> is_scalar b \<longrightarrow> 0 < le_val n \<longrightarrow>
        svc_scalar svc (SCALAR_ADD r n a b) = (True, to_scalar ((le_val a + le_val b) mod le_val n)) \<and>
        svc_scalar svc (SCALAR_MUL r n a b) = (True, to_scalar (le_val a * le_val b mod le_val n))) \<and>
     (\<forall>r n a w. is_scalar n \<longrightarrow> is_scalar a \<longrightarrow> svc_scalar svc (SCALAR_INV r n a) = (True, w) \<longrightarrow>
        is_scalar w \<and> le_val w * le_val a mod le_val n = 1)"

text \<open>\<open>mul k\<close> is the \<open>k\<close>-fold base point. The point at infinity is an error.\<close>

definition point_laws :: "ecc_service \<Rightarrow> ecc_curve \<Rightarrow> (nat \<Rightarrow> ecc_point) \<Rightarrow> bool" where
  "point_laws svc c mul \<longleftrightarrow>
     (\<forall>k. is_scalar (pt_x (mul k)) \<and> mul (k mod le_val (cv_n c)) = mul k) \<and> cv_G c = mul 1 \<and>
     (\<forall>R k j. is_scalar k \<longrightarrow>
        (if le_val k * j mod le_val (cv_n c) = 0 then \<not> fst (svc_point svc (POINT_SCALE R (cv_p c) (cv_a c) k (mul j)))
         else svc_point svc (POINT_SCALE R (cv_p c) (cv_a c) k (mul j)) = (True, mul (le_val k * j)))) \<and>
     (\<forall>R u v i j. is_scalar u \<longrightarrow> is_scalar v \<longrightarrow> (le_val u * i + le_val v * j) mod le_val (cv_n c) \<noteq> 0 \<longrightarrow>
        svc_point svc (POINT_DUAL_MUL R (cv_p c) (cv_a c) u (mul i) v (mul j)) = (True, mul (le_val u * i + le_val v * j)))"

lemma scalar_bound: "is_scalar n \<Longrightarrow> 0 < le_val n \<Longrightarrow> v mod le_val n < 256 ^ ECC_SCALAR_SIZE_BYTES"
  using scalar_less [of n] less_trans [OF mod_less_divisor] by blast

lemma le_val_mod [simp]: "is_scalar n \<Longrightarrow> 0 < le_val n \<Longrightarrow> le_val (to_scalar (v mod le_val n)) = v mod le_val n"
  by (rule le_val_to_scalar) (rule scalar_bound)

lemma ecc_scalar_add_spec:
  assumes "scalar_laws svc" "is_scalar n" "is_scalar a" "is_scalar b" "0 < le_val n"
  shows "ecc_scalar_add svc r a b n = (SEV_STATUS_SUCCESS, to_scalar ((le_val a + le_val b) mod le_val n))"
proof -
  have "svc_scalar svc (SCALAR_ADD r n a b) = (True, to_scalar ((le_val a + le_val b) mod le_val n))"
    using assms unfolding scalar_laws_def by blast
  then show ?thesis by (simp add: ecc_scalar_add_def sev_hal_ecc_scalar_def)
qed

lemma ecc_scalar_mul_spec:
  assumes "scalar_laws svc" "is_scalar n" "is_scalar a" "is_scalar b" "0 < le_val n"
  shows "ecc_scalar_mul svc r a b n = (SEV_STATUS_SUCCESS, to_scalar (le_val a * le_val b mod le_val n))"
proof -
  have "svc_scalar svc (SCALAR_MUL r n a b) = (True, to_scalar (le_val a * le_val b mod le_val n))"
    using assms unfolding scalar_laws_def by blast
  then show ?thesis by (simp add: ecc_scalar_mul_def sev_hal_ecc_scalar_def)
qed

lemma ecc_scalar_inv_spec:
  assumes "scalar_laws svc" "is_scalar n" "is_scalar a" "ecc_scalar_inv svc r a n = (SEV_STATUS_SUCCESS, w)"
  shows "is_scalar w \<and> le_val w * le_val a mod le_val n = 1"
proof -
  have "svc_scalar svc (SCALAR_INV r n a) = (True, w)"
    using assms(4) by (cases "svc_scalar svc (SCALAR_INV r n a)") (simp add: ecc_scalar_inv_def sev_hal_ecc_scalar_def split: if_splits)
  then show ?thesis using assms(1-3) unfolding scalar_laws_def by blast
qed

lemma ecc_point_scale_spec:
  assumes "point_laws svc c mul" "ecc_get_curve i = Some c" "is_scalar k"
  shows "if le_val k * j mod le_val (cv_n c) = 0 then fst (ecc_point_scale svc R (mul j) k i) = ERR_HAL_ECC_PRIMITIVE
    else ecc_point_scale svc R (mul j) k i = (SEV_STATUS_SUCCESS, mul (le_val k * j))"
proof -
  have law: "if le_val k * j mod le_val (cv_n c) = 0 then \<not> fst (svc_point svc (POINT_SCALE R (cv_p c) (cv_a c) k (mul j)))
      else svc_point svc (POINT_SCALE R (cv_p c) (cv_a c) k (mul j)) = (True, mul (le_val k * j))"
    using assms(1,3) unfolding point_laws_def by blast
  show ?thesis
  proof (cases "le_val k * j mod le_val (cv_n c) = 0")
    case True
    then show ?thesis using law assms(2)
      by (cases "svc_point svc (POINT_SCALE R (cv_p c) (cv_a c) k (mul j))") (simp add: ecc_point_scale_def sev_hal_ecc_point_def)
  next
    case False
    then show ?thesis using law assms(2) by (simp add: ecc_point_scale_def sev_hal_ecc_point_def)
  qed
qed

lemma ecc_point_linear_spec:
  assumes "point_laws svc c mul" "ecc_get_curve i = Some c" "is_scalar u" "is_scalar v"
    "(le_val u * a + le_val v * b) mod le_val (cv_n c) \<noteq> 0"
  shows "ecc_point_linear svc R (mul a) u (mul b) v i = (SEV_STATUS_SUCCESS, mul (le_val u * a + le_val v * b))"
proof -
  have "svc_point svc (POINT_DUAL_MUL R (cv_p c) (cv_a c) u (mul a) v (mul b)) = (True, mul (le_val u * a + le_val v * b))"
    using assms(1,3-5) unfolding point_laws_def by blast
  then show ?thesis using assms(2) by (simp add: ecc_point_linear_def sev_hal_ecc_point_def)
qed

lemma on_success_simps [simp]:
  "on_success (SEV_STATUS_SUCCESS, x) leave go = go x"
  "on_success_opt None leave go = None" "on_success_opt (Some r) leave go' = on_success r leave go'"
  by (simp_all add: on_success_def on_success_opt_def)

lemma on_success_cases:
  assumes "on_success r leave go = y"
  obtains (go) x where "r = (SEV_STATUS_SUCCESS, x)" "go x = y"
    | (leave) status x where "r = (status, x)" "status \<noteq> SEV_STATUS_SUCCESS" "leave status = y"
  using assms by (cases r) (auto simp: on_success_def split: if_splits)

section \<open>Points on the curve\<close>

lemma check_points_spec:
  assumes laws: "scalar_laws svc" and c: "ecc_get_curve (pk_curve pk) = Some c"
    and Q: "is_scalar (pt_x (pk_Q pk))" "is_scalar (pt_y (pk_Q pk))"
  shows "check_ec_points_on_curve svc pk =
    Some ((le_val (pt_y (pk_Q pk)))\<^sup>2 mod le_val (cv_p c) =
      ((le_val (pt_x (pk_Q pk))) ^ 3 + le_val (cv_a c) * le_val (pt_x (pk_Q pk)) + le_val (cv_b c)) mod le_val (cv_p c))"
proof -
  define x y a b p where "x = le_val (pt_x (pk_Q pk))" and "y = le_val (pt_y (pk_Q pk))"
    and "a = le_val (cv_a c)" and "b = le_val (cv_b c)" and "p = le_val (cv_p c)"
  have ok: "is_scalar (cv_p c)" "is_scalar (cv_a c)" "is_scalar (cv_b c)" "0 < p"
    using get_curve_ok(1) [OF c] by (simp_all add: curve_ok_def p_def)
  have lv: "le_val (to_scalar (v mod p)) = v mod p" for v using ok(1,4) by (simp add: p_def)
  define rhs where "rhs = ((x * x mod p * x mod p + a * x mod p) mod p + b mod p) mod p"
  define lhs where "lhs = y * y mod p"
  have sub: "ecc_scalar_minus zero_scalar (to_scalar rhs) (to_scalar lhs) =
      (if rhs < lhs then (ERR_INVALID_PARAMS, zero_scalar) else (SEV_STATUS_SUCCESS, to_scalar (rhs - lhs)))"
    by (simp add: ecc_scalar_minus_spec rhs_def lhs_def lv)
  have "rhs < 256 ^ ECC_SCALAR_SIZE_BYTES" using scalar_bound [of "cv_p c"] ok by (simp add: rhs_def p_def)
  then have lr: "le_val (to_scalar (rhs - lhs)) = rhs - lhs" by (intro le_val_to_scalar) simp
  have "check_ec_points_on_curve svc pk = on_success (ecc_scalar_minus zero_scalar (to_scalar rhs) (to_scalar lhs))
      (\<lambda>_. Some False) (\<lambda>subtraction. Some (ecc_scalar_is_zero subtraction))"
    using c Q ok laws
    by (simp add: check_ec_points_on_curve_def Let_def ecc_scalar_mul_spec ecc_scalar_add_spec ecc_scalar_mod_spec
        rhs_def lhs_def x_def y_def a_def b_def p_def)
  also have "\<dots> = Some (rhs = lhs)"
    unfolding sub using lr by (auto simp: on_success_def ecc_scalar_is_zero_spec)
  also have "rhs = (x ^ 3 + a * x + b) mod p" by (simp add: rhs_def mod_simps power3_eq_cube)
  also have "lhs = y\<^sup>2 mod p" by (simp add: lhs_def power2_eq_square)
  finally show ?thesis by (auto simp: x_def y_def a_def b_def p_def)
qed

lemma pubkey_valid_spec:
  assumes laws: "scalar_laws svc" and Q: "is_scalar (pt_x (pk_Q pk))" "is_scalar (pt_y (pk_Q pk))"
  shows "ecc_pubkey_is_valid svc pk =
    Some (pk_curve pk = ECC_CURVE_NAME_SECP384R1 \<and>
      (le_val (pt_y (pk_Q pk)))\<^sup>2 mod le_val (cv_p ECC_CURVE_SECP384R1) =
      ((le_val (pt_x (pk_Q pk))) ^ 3 + le_val (cv_a ECC_CURVE_SECP384R1) * le_val (pt_x (pk_Q pk)) +
        le_val (cv_b ECC_CURVE_SECP384R1)) mod le_val (cv_p ECC_CURVE_SECP384R1))"
proof (cases "pk_curve pk = ECC_CURVE_NAME_SECP384R1")
  case True
  then have "ecc_get_curve (pk_curve pk) = Some ECC_CURVE_SECP384R1" by (simp add: get_curve_cases)
  moreover from this have "curve_id_is_valid (pk_curve pk)" by (auto simp: ecc_get_curve_def split: if_splits)
  ultimately show ?thesis using check_points_spec [OF laws _ Q] True by (simp add: ecc_pubkey_is_valid_def)
qed (simp add: ecc_pubkey_is_valid_def)

section \<open>Signatures\<close>

text \<open>The arithmetic of a verification: the two multipliers add up to the number that was drawn.\<close>

lemma verify_arithmetic:
  fixes n k :: nat
  assumes ki: "ki * k mod n = 1" and w: "w * s mod n = 1" and s: "s = ki * ((e + d * r mod n) mod n) mod n"
  shows "((e * w mod n) * 1 + (r * w mod n) * d) mod n = k mod n"
proof -
  have "k * s mod n = (ki * k mod n) * (e + d * r) mod n" unfolding s by (simp add: mod_simps ac_simps)
  then have ks: "k * s mod n = (e + d * r) mod n" unfolding ki by (simp add: mod_simps)
  have "((e * w mod n) * 1 + (r * w mod n) * d) mod n = (e * w mod n + (r * w mod n) * d mod n) mod n"
    by (simp only: mult_1_right mod_add_right_eq)
  also have "\<dots> = (e * w + r * w * d) mod n" by (simp only: mod_mult_left_eq mod_add_eq)
  also have "e * w + r * w * d = w * (e + d * r)" by (simp add: algebra_simps)
  also have "w * (e + d * r) mod n = w * ((e + d * r) mod n) mod n" by (simp only: mod_mult_right_eq)
  also have "\<dots> = k * (w * s mod n) mod n" unfolding ks [symmetric] by (simp add: mod_simps ac_simps)
  finally show ?thesis unfolding w by simp
qed

text \<open>What a successful signature is made of.\<close>

lemma sign_rdata_success:
  assumes run: "ecdsa_sign_rdata svc sig (Some kp) (Some dg) (Some rd) = Some (SEV_STATUS_SUCCESS, sig')"
    and c: "ecc_get_curve (kp_curve kp) = Some c"
    and laws: "scalar_laws svc" "point_laws svc c mul" and d: "is_scalar (kp_d kp)"
  shows "\<exists>k ki r s sg. is_scalar k \<and> 0 < le_val k mod le_val (cv_n c) \<and> sig' = Some sg \<and> 0 < length dg \<and>
    length dg \<le> ECC_SCALAR_SIZE_BYTES \<and> sg = \<lparr>sig_r = to_scalar r, sig_s = to_scalar s\<rparr> \<and>
    r = le_val (pt_x (mul (le_val k))) mod le_val (cv_n c) \<and> 0 < r \<and> 0 < s \<and> ki * le_val k mod le_val (cv_n c) = 1 \<and>
    s = ki * ((le_val (rev dg) + le_val (kp_d kp) * r mod le_val (cv_n c)) mod le_val (cv_n c)) mod le_val (cv_n c)"
proof -
  let ?n = "le_val (cv_n c)"
  define k where "k = rd @ drop (length rd) zero_scalar"
  have n: "is_scalar (cv_n c)" "0 < ?n" "ecc_get_curve (cv_name c) = Some c"
    using get_curve_ok [OF c] by (simp_all add: curve_ok_def)
  have pre: "0 < length dg" "length rd \<le> ECC_SCALAR_SIZE_BYTES" and w: "sign_with svc c kp dg k = Some (SEV_STATUS_SUCCESS, sig')"
    using run c by (auto simp: ecdsa_sign_rdata_def k_def Let_def split: option.splits if_splits)
  have k: "is_scalar k" using pre(2) by (simp add: k_def is_scalar_def zero_scalar_def)
  have G: "cv_G c = mul 1" and px: "is_scalar (pt_x (mul j))" for j using laws(2) by (simp_all add: point_laws_def)
  note scale = ecc_point_scale_spec [OF laws(2) n(3) k, of 1 zero_point]
  obtain X where X: "ecc_point_scale svc zero_point (mul 1) k (cv_name c) = (SEV_STATUS_SUCCESS, X)"
    using w by (auto simp: sign_with_def Let_def G on_success_def split: prod.splits if_splits)
  then have k0: "le_val k mod ?n \<noteq> 0" and X': "X = mul (le_val k)" using scale by (auto split: if_splits)
  define r where "r = le_val (pt_x X) mod ?n"
  have lr: "le_val (to_scalar r) = r" using n by (simp add: r_def)
  have m: "ecc_scalar_mod zero_scalar (pt_x X) (cv_n c) = Some (SEV_STATUS_SUCCESS, to_scalar r)"
    using ecc_scalar_mod_spec px n X' by (simp add: r_def)
  have r0: "0 < r" using w X m lr
    by (auto simp: sign_with_def Let_def G ecc_scalar_is_zero_spec split: if_splits)
  let ?dr = "le_val (kp_d kp) * r mod ?n"
  have mul1: "ecc_scalar_mul svc (to_scalar r) (kp_d kp) (to_scalar r) (cv_n c) = (SEV_STATUS_SUCCESS, to_scalar ?dr)"
    using ecc_scalar_mul_spec [OF laws(1) n(1) d _ n(2), of "to_scalar r"] lr by simp
  obtain k_inv where inv: "ecc_scalar_inv svc k k (cv_n c) = (SEV_STATUS_SUCCESS, k_inv)"
    using w X m lr r0
    by (auto simp: sign_with_def Let_def G ecc_scalar_is_zero_spec on_success_def split: prod.splits if_splits)
  have ki: "is_scalar k_inv" "le_val k_inv * le_val k mod ?n = 1" using ecc_scalar_inv_spec [OF laws(1) n(1) k inv] by simp_all
  have ld: "length dg \<le> ECC_SCALAR_SIZE_BYTES"
  proof (rule ccontr)
    assume "\<not> length dg \<le> ECC_SCALAR_SIZE_BYTES"
    then have "ecc_scalar_init zero_scalar (Some dg) (length dg) = (ERR_INVALID_PARAMS, zero_scalar)"
      by (simp add: ecc_scalar_init_def)
    then show False using w X m lr r0 inv mul1
      by (simp add: sign_with_def Let_def G ecc_scalar_is_zero_spec on_success_def)
  qed
  let ?e = "le_val (rev dg)"
  have le: "le_val (to_scalar ?e) = ?e"
  proof (rule le_val_to_scalar)
    have "?e < 256 ^ length (rev dg)" by (rule le_val_less)
    also have "\<dots> \<le> 256 ^ ECC_SCALAR_SIZE_BYTES" using ld by (intro power_increasing) simp_all
    finally show "?e < 256 ^ ECC_SCALAR_SIZE_BYTES" .
  qed
  let ?t = "(?e + ?dr) mod ?n"
  have add: "ecc_scalar_add svc (to_scalar ?e) (to_scalar ?e) (to_scalar ?dr) (cv_n c) = (SEV_STATUS_SUCCESS, to_scalar ?t)"
    using ecc_scalar_add_spec [OF laws(1) n(1) _ _ n(2), of "to_scalar ?e" "to_scalar ?dr"] le n by simp
  define s where "s = le_val k_inv * ?t mod ?n"
  have ls: "le_val (to_scalar s) = s" using n by (simp add: s_def)
  have mul2: "ecc_scalar_mul svc zero_scalar k_inv (to_scalar ?t) (cv_n c) = (SEV_STATUS_SUCCESS, to_scalar s)"
    using ecc_scalar_mul_spec [OF laws(1) n(1) ki(1) _ n(2), of "to_scalar ?t"] n by (simp add: s_def)
  have fin: "sig' = Some \<lparr>sig_r = to_scalar r, sig_s = to_scalar s\<rparr> \<and> 0 < s"
    using w X m lr r0 inv mul1 add mul2 ecc_scalar_init_spec [OF ld, of zero_scalar] ls
    by (auto simp: sign_with_def Let_def G ecc_scalar_is_zero_spec zero_sig_def split: if_splits)
  show ?thesis using k k0 pre(1) ld fin r0 ki X' by (auto simp: r_def s_def)
qed

text \<open>For \<open>r\<close> and \<open>s\<close> in range the verification comes to the coprocessor with the two multipliers.\<close>

lemma verify_reaches_point:
  assumes c: "ecc_get_curve (pk_curve pk) = Some c" and laws: "scalar_laws svc" "point_laws svc c mul"
    and Q: "pk_Q pk = mul d" and dg: "0 < length dg" "length dg \<le> ECC_SCALAR_SIZE_BYTES"
    and sg: "is_scalar (sig_r sg)" "is_scalar (sig_s sg)"
    and inv: "svc_scalar svc (SCALAR_INV zero_scalar (cv_n c) (sig_s sg)) = (True, w)"
    and range: "0 < le_val (sig_r sg)" "le_val (sig_r sg) < le_val (cv_n c)" "0 < le_val (sig_s sg)" "le_val (sig_s sg) < le_val (cv_n c)"
    and u1: "u1 = to_scalar (le_val (rev dg) * le_val w mod le_val (cv_n c))"
    and u2: "u2 = to_scalar (le_val (sig_r sg) * le_val w mod le_val (cv_n c))"
  shows "ecdsa_verify svc (Some sg) (Some pk) (Some dg) =
    on_success (sev_hal_ecc_point svc (POINT_DUAL_MUL zero_point (cv_p c) (cv_a c) u1 (mul 1) u2 (mul d))) Some (\<lambda>X.
      on_success_opt (ecc_scalar_mod zero_scalar (pt_x X) (cv_n c)) Some (\<lambda>v.
        if secure_compare (Some (sig_r sg)) (Some v) ECC_SCALAR_SIZE_BYTES \<noteq> 0
        then Some SEV_STATUS_BAD_SIGNATURE else Some SEV_STATUS_SUCCESS))"
proof -
  let ?n = "le_val (cv_n c)" and ?e = "le_val (rev dg)"
  have n: "is_scalar (cv_n c)" "0 < ?n" "ecc_get_curve (cv_name c) = Some c"
    using get_curve_ok [OF c] by (simp_all add: curve_ok_def)
  have w: "is_scalar w" using laws(1) n(1) sg(2) inv unfolding scalar_laws_def by blast
  have G: "cv_G c = mul 1" using laws(2) by (simp add: point_laws_def)
  have inv': "ecc_scalar_inv svc zero_scalar (sig_s sg) (cv_n c) = (SEV_STATUS_SUCCESS, w)"
    using inv by (simp add: ecc_scalar_inv_def sev_hal_ecc_scalar_def)
  have le: "le_val (to_scalar ?e) = ?e"
  proof (rule le_val_to_scalar)
    have "?e < 256 ^ length (rev dg)" by (rule le_val_less)
    also have "\<dots> \<le> 256 ^ ECC_SCALAR_SIZE_BYTES" using dg(2) by (intro power_increasing) simp_all
    finally show "?e < 256 ^ ECC_SCALAR_SIZE_BYTES" .
  qed
  have m1: "ecc_scalar_mul svc zero_scalar (to_scalar ?e) w (cv_n c) = (SEV_STATUS_SUCCESS, u1)"
    using ecc_scalar_mul_spec [OF laws(1) n(1) _ w n(2), of "to_scalar ?e"] le by (simp add: u1)
  have m2: "ecc_scalar_mul svc zero_scalar (sig_r sg) w (cv_n c) = (SEV_STATUS_SUCCESS, u2)"
    unfolding u2 by (rule ecc_scalar_mul_spec [OF laws(1) n(1) sg(1) w n(2)])
  show ?thesis
    using c dg(1) sg range n(1,3) inv' m1 m2 Q ecc_scalar_init_spec [OF dg(2), of zero_scalar]
    by (simp add: ecdsa_verify_def Let_def G ecc_scalar_is_zero_spec ecc_scalar_is_greater_spec ecc_point_linear_def)
qed

lemma verify_runs:
  assumes c: "ecc_get_curve (pk_curve pk) = Some c" and laws: "scalar_laws svc" "point_laws svc c mul"
    and Q: "pk_Q pk = mul d" and dg: "0 < length dg" "length dg \<le> ECC_SCALAR_SIZE_BYTES"
    and sg: "is_scalar (sig_r sg)" "is_scalar (sig_s sg)"
    and inv: "svc_scalar svc (SCALAR_INV zero_scalar (cv_n c) (sig_s sg)) = (True, w)"
    and range: "0 < le_val (sig_r sg)" "le_val (sig_r sg) < le_val (cv_n c)" "0 < le_val (sig_s sg)" "le_val (sig_s sg) < le_val (cv_n c)"
    and u: "u = (le_val (rev dg) * le_val w mod le_val (cv_n c)) * 1 + (le_val (sig_r sg) * le_val w mod le_val (cv_n c)) * d"
      "u mod le_val (cv_n c) \<noteq> 0"
  shows "ecdsa_verify svc (Some sg) (Some pk) (Some dg) =
    Some (if le_val (pt_x (mul u)) mod le_val (cv_n c) = le_val (sig_r sg) then SEV_STATUS_SUCCESS else SEV_STATUS_BAD_SIGNATURE)"
proof -
  let ?n = "le_val (cv_n c)"
  let ?u1 = "to_scalar (le_val (rev dg) * le_val w mod ?n)" and ?u2 = "to_scalar (le_val (sig_r sg) * le_val w mod ?n)"
  have n: "is_scalar (cv_n c)" "0 < ?n" using get_curve_ok [OF c] by (simp_all add: curve_ok_def)
  have px: "is_scalar (pt_x (mul j))" for j using laws(2) by (simp add: point_laws_def)
  have lin: "(le_val ?u1 * 1 + le_val ?u2 * d) = u" using n u(1) by simp
  have "svc_point svc (POINT_DUAL_MUL zero_point (cv_p c) (cv_a c) ?u1 (mul 1) ?u2 (mul d)) = (True, mul u)"
    using laws(2) u(2) lin is_scalar_to_scalar unfolding point_laws_def by metis
  then have pt: "sev_hal_ecc_point svc (POINT_DUAL_MUL zero_point (cv_p c) (cv_a c) ?u1 (mul 1) ?u2 (mul d)) = (SEV_STATUS_SUCCESS, mul u)"
    by (simp add: sev_hal_ecc_point_def)
  have md: "ecc_scalar_mod zero_scalar (pt_x (mul u)) (cv_n c) = Some (SEV_STATUS_SUCCESS, to_scalar (le_val (pt_x (mul u)) mod ?n))"
    by (rule ecc_scalar_mod_spec [OF px n])
  have lx: "length (sig_r sg) = ECC_SCALAR_SIZE_BYTES" "length (to_scalar (le_val (pt_x (mul u)) mod ?n)) = ECC_SCALAR_SIZE_BYTES"
    using sg(1) by (simp_all add: is_scalar_def)
  have cmp: "secure_compare (Some (sig_r sg)) (Some (to_scalar (le_val (pt_x (mul u)) mod ?n))) ECC_SCALAR_SIZE_BYTES =
      (if le_val (sig_r sg) = le_val (pt_x (mul u)) mod ?n then 0 else 1)"
    using secure_compare_spec [of ECC_SCALAR_SIZE_BYTES "sig_r sg" "to_scalar (le_val (pt_x (mul u)) mod ?n)"] lx
      scalar_eq [of "sig_r sg" "to_scalar (le_val (pt_x (mul u)) mod ?n)"] sg(1) n by simp
  show ?thesis
    unfolding verify_reaches_point [OF c laws Q dg sg inv range refl refl] pt using md cmp by simp
qed

text \<open>When the two multiples add up to the point at infinity and the coprocessor reports that, so does the verification.\<close>

lemma verify_infinity:
  assumes c: "ecc_get_curve (pk_curve pk) = Some c" and laws: "scalar_laws svc" "point_laws svc c mul"
    and Q: "pk_Q pk = mul d" and dg: "0 < length dg" "length dg \<le> ECC_SCALAR_SIZE_BYTES"
    and sg: "is_scalar (sig_r sg)" "is_scalar (sig_s sg)"
    and inv: "svc_scalar svc (SCALAR_INV zero_scalar (cv_n c) (sig_s sg)) = (True, w)"
    and range: "0 < le_val (sig_r sg)" "le_val (sig_r sg) < le_val (cv_n c)" "0 < le_val (sig_s sg)" "le_val (sig_s sg) < le_val (cv_n c)"
    and zero: "((le_val (rev dg) * le_val w mod le_val (cv_n c)) * 1 + (le_val (sig_r sg) * le_val w mod le_val (cv_n c)) * d) mod le_val (cv_n c) = 0"
    and inf: "\<And>R u v. is_scalar u \<Longrightarrow> is_scalar v \<Longrightarrow> (le_val u + le_val v * d) mod le_val (cv_n c) = 0 \<Longrightarrow>
      \<not> fst (svc_point svc (POINT_DUAL_MUL R (cv_p c) (cv_a c) u (mul 1) v (mul d)))"
  shows "ecdsa_verify svc (Some sg) (Some pk) (Some dg) = Some ERR_HAL_ECC_PRIMITIVE"
proof -
  let ?n = "le_val (cv_n c)"
  let ?u1 = "to_scalar (le_val (rev dg) * le_val w mod ?n)" and ?u2 = "to_scalar (le_val (sig_r sg) * le_val w mod ?n)"
  let ?p = "POINT_DUAL_MUL zero_point (cv_p c) (cv_a c) ?u1 (mul 1) ?u2 (mul d)"
  have n: "is_scalar (cv_n c)" "0 < ?n" using get_curve_ok [OF c] by (simp_all add: curve_ok_def)
  have "\<not> fst (svc_point svc ?p)" by (rule inf) (use n zero in simp_all)
  then have "sev_hal_ecc_point svc ?p = (ERR_HAL_ECC_PRIMITIVE, snd (svc_point svc ?p))"
    by (cases "svc_point svc ?p") (simp add: sev_hal_ecc_point_def)
  then show ?thesis
    unfolding verify_reaches_point [OF c laws Q dg sg inv range refl refl] by (simp add: on_success_def)
qed

text \<open>A signature made with the private key is accepted under the public key.\<close>

lemma signature_accepted:
  assumes run: "ecdsa_sign_rdata svc sig (Some kp) (Some dg) (Some rd) = Some (SEV_STATUS_SUCCESS, Some sg)"
    and c: "ecc_get_curve (kp_curve kp) = Some c"
    and laws: "scalar_laws svc" "point_laws svc c mul" and d: "is_scalar (kp_d kp)" and Q: "kp_Q kp = mul (le_val (kp_d kp))"
    and inv: "fst (svc_scalar svc (SCALAR_INV zero_scalar (cv_n c) (sig_s sg)))"
  shows "ecdsa_verify svc (Some sg) (Some \<lparr>pk_curve = kp_curve kp, pk_Q = kp_Q kp\<rparr>) (Some dg) = Some SEV_STATUS_SUCCESS"
proof -
  let ?n = "le_val (cv_n c)" and ?d = "le_val (kp_d kp)"
  have n: "is_scalar (cv_n c)" "0 < ?n" using get_curve_ok [OF c] by (simp_all add: curve_ok_def)
  obtain k ki r s where k: "is_scalar k" "0 < le_val k mod ?n" "0 < length dg" "length dg \<le> ECC_SCALAR_SIZE_BYTES"
    and sg: "sg = \<lparr>sig_r = to_scalar r, sig_s = to_scalar s\<rparr>" and r: "r = le_val (pt_x (mul (le_val k))) mod ?n" "0 < r" "0 < s"
    and ki: "ki * le_val k mod ?n = 1" and s: "s = ki * ((le_val (rev dg) + ?d * r mod ?n) mod ?n) mod ?n"
    using sign_rdata_success [OF run c laws d] by auto
  have v: "le_val (to_scalar r) = r" "le_val (to_scalar s) = s" "r < ?n" "s < ?n" using n by (simp_all add: r(1) s)
  obtain w where w: "svc_scalar svc (SCALAR_INV zero_scalar (cv_n c) (sig_s sg)) = (True, w)"
    using inv by (cases "svc_scalar svc (SCALAR_INV zero_scalar (cv_n c) (sig_s sg))") auto
  have ws: "le_val w * s mod ?n = 1"
    using laws(1) n(1) w sg v(2) is_scalar_to_scalar [of s] unfolding scalar_laws_def by (metis ecdsa_sig.select_convs(2))
  define u where "u = (le_val (rev dg) * le_val w mod ?n) * 1 + (le_val (sig_r sg) * le_val w mod ?n) * ?d"
  have u: "u mod ?n = le_val k mod ?n"
    using verify_arithmetic [OF ki ws s] by (simp add: u_def sg v(1))
  have mk: "mul u = mul (le_val k)" using laws(2) u unfolding point_laws_def by metis
  have "ecdsa_verify svc (Some sg) (Some \<lparr>pk_curve = kp_curve kp, pk_Q = kp_Q kp\<rparr>) (Some dg) =
      Some (if le_val (pt_x (mul u)) mod ?n = le_val (sig_r sg) then SEV_STATUS_SUCCESS else SEV_STATUS_BAD_SIGNATURE)"
    by (rule verify_runs [where d = ?d, OF _ laws _ k(3,4) _ _ w]) (use c Q sg v r k(2) u in \<open>simp_all add: u_def\<close>)
  also have "le_val (pt_x (mul u)) mod ?n = le_val (sig_r sg)" by (simp add: mk sg v(1) r(1) [symmetric])
  finally show ?thesis by simp
qed

section \<open>Agreed secrets\<close>

lemma key_agreement_computes:
  assumes laws: "point_laws svc ECC_CURVE_SECP384R1 mul" and d: "is_scalar (kp_d kp)" "kp_curve kp = ECC_CURVE_NAME_SECP384R1"
    and pk: "ecc_pubkey_is_valid svc pk = Some True" "pk_Q pk = mul e" "pk_curve pk = ECC_CURVE_NAME_SECP384R1"
    and nz: "le_val (kp_d kp) * e mod le_val (cv_n ECC_CURVE_SECP384R1) \<noteq> 0" and sec: "length secret = 48"
  shows "ecdh_key_agreement svc R (Some kp) (Some pk) (Some secret) =
    Some (SEV_STATUS_SUCCESS, Some (rev (take 48 (pt_x (mul (le_val (kp_d kp) * e))))))"
proof -
  let ?P = "mul (le_val (kp_d kp) * e)"
  have c: "ecc_get_curve ECC_CURVE_NAME_SECP384R1 = Some ECC_CURVE_SECP384R1" by (simp add: get_curve_cases)
  have sc: "ecc_point_scale svc R (mul e) (kp_d kp) ECC_CURVE_NAME_SECP384R1 = (SEV_STATUS_SUCCESS, ?P)"
    using ecc_point_scale_spec [OF laws c d(1), of e R] nz by simp
  have lx: "length (pt_x ?P) = 72" using laws by (simp add: point_laws_def is_scalar_def ECC_SCALAR_SIZE_BYTES_def)
  have "reverse_bytes (Some (pt_x ?P)) 48 = (SEV_STATUS_SUCCESS, Some (rev (take 48 (pt_x ?P)) @ drop 48 (pt_x ?P)))"
    using reverse_bytes_spec [of 48 "pt_x ?P"] lx by simp
  then show ?thesis using d pk sc lx sec
    by (simp add: ecdh_key_agreement_def ECC_CURVE_SECP384R1_SIZE_BYTES_def put_bytes_0)
qed

section \<open>Key generation\<close>

lemma borrow_loop_spec:
  assumes "length n = 72" "k \<le> 72" "0 < le_val (drop k n)"
  shows "length (borrow_loop [k..<72] True n) = 72 \<and>
    take k (borrow_loop [k..<72] True n) = take k n \<and> le_val (drop k (borrow_loop [k..<72] True n)) + 1 = le_val (drop k n)"
  using assms
proof (induction "72 - k" arbitrary: k n)
  case 0
  then show ?case by simp
next
  case (Suc m)
  then have k: "k < 72" by simp
  define x where "x = n ! k"
  define n1 where "n1 = n[k := x - 1]"
  have d: "drop k n = x # drop (k + 1) n" using k Suc.prems(1) by (simp add: x_def Cons_nth_drop_Suc)
  have d1: "drop k n1 = (x - 1) # drop (k + 1) n" "take k n1 = take k n" "length n1 = 72" "n1 ! k = x - 1"
    using k Suc.prems(1) by (simp_all add: n1_def Cons_nth_drop_Suc [symmetric])
  have l: "[k..<72] = k # [k + 1..<72]" using k by (simp add: upt_conv_Cons)
  have step: "borrow_loop [k..<72] True n = borrow_loop [k + 1..<72] (x < x - 1) n1"
    unfolding l by (simp add: Let_def x_def n1_def k Suc.prems(1))
  show ?case
  proof (cases "x = 0")
    case True
    moreover have "(0 :: u8) < - 1" by code_simp
    ultimately have "x < x - 1" by simp
    then have r: "borrow_loop [k..<72] True n = borrow_loop [k + 1..<72] True n1" using step by simp
    have dd: "drop (k + 1) n1 = drop (k + 1) n" by (simp add: n1_def)
    have pos: "0 < le_val (drop (k + 1) n)" using Suc.prems(3) d True by simp
    have IH: "length (borrow_loop [k + 1..<72] True n1) = 72 \<and> take (k + 1) (borrow_loop [k + 1..<72] True n1) = take (k + 1) n1 \<and>
        le_val (drop (k + 1) (borrow_loop [k + 1..<72] True n1)) + 1 = le_val (drop (k + 1) n1)"
      by (rule Suc.hyps(1)) (use Suc.hyps(2) d1(3) k dd pos in simp_all)
    let ?m = "borrow_loop [k + 1..<72] True n1"
    have "?m ! k = (take (k + 1) ?m) ! k" by simp
    also have "\<dots> = x - 1" using IH d1(4) by simp
    finally have mk: "drop k ?m = (x - 1) # drop (k + 1) ?m" using IH k by (simp add: Cons_nth_drop_Suc [symmetric])
    have "take k ?m = take k (take (k + 1) ?m)" by simp
    also have "\<dots> = take k n" using IH d1(2) by simp
    finally have tk: "take k ?m = take k n" .
    have l: "le_val (drop (k + 1) n) = le_val (drop (k + 1) ?m) + 1" using IH dd by simp
    have "unat (- 1 :: u8) = 255" by code_simp
    then show ?thesis unfolding r d mk using IH tk l True by simp
  next
    case False
    then have "\<not> x < x - 1" by (simp add: word_less_nat_alt unat_minus_one)
    then have r: "borrow_loop [k..<72] True n = n1" using step by (cases "[k + 1..<72]") simp_all
    have "unat (x - 1) + 1 = unat x" using False by (simp add: unat_minus_one) (metis Suc_pred unat_gt_0)
    then show ?thesis unfolding r d d1(1) using d1(2,3) by simp
  qed
qed

lemma minus_two_spec:
  assumes n: "is_scalar n" "2 \<le> le_val n"
  shows "is_scalar (minus_two n) \<and> le_val (minus_two n) = le_val n - 2"
proof -
  have len: "length n = 72" using n(1) by (simp add: is_scalar_def ECC_SCALAR_SIZE_BYTES_def)
  define x where "x = n ! 0"
  define n1 where "n1 = n[0 := x - 2]"
  have d: "n = x # drop 1 n" using len by (cases n) (simp_all add: x_def)
  have d1: "n1 = (x - 2) # drop 1 n" "length n1 = 72" "drop 1 n1 = drop 1 n" unfolding n1_def using len by (cases n, simp_all)+
  have run: "minus_two n = borrow_loop [1..<72] (x < x - 2) n1"
    using len by (simp add: minus_two_def Let_def x_def n1_def ECC_SCALAR_SIZE_BYTES_def)
  have v: "le_val n = unat x + 256 * le_val (drop 1 n)" by (subst d) simp
  have small: "unat x < 256" using unsigned_less [of x, where ?'a = nat] by simp
  have u2: "unat (x - 2) = (if unat x < 2 then unat x + 254 else unat x - 2)"
    by (simp add: unat_sub_if')
  show ?thesis
  proof (cases "unat x < 2")
    case True
    then have b: "x < x - 2" using u2 by (simp add: word_less_nat_alt)
    have pos: "0 < le_val (drop 1 n1)" using n(2) v True d1(3) by simp
    have B: "length (borrow_loop [1..<72] True n1) = 72 \<and> take 1 (borrow_loop [1..<72] True n1) = take 1 n1 \<and>
        le_val (drop 1 (borrow_loop [1..<72] True n1)) + 1 = le_val (drop 1 n1)"
      by (rule borrow_loop_spec [OF d1(2) _ pos]) simp
    let ?m = "borrow_loop [1..<72] True n1"
    have "?m = take 1 ?m @ drop 1 ?m" by simp
    also have "take 1 ?m = [x - 2]" using B d1(1) by simp
    finally have "le_val ?m = unat (x - 2) + 256 * le_val (drop 1 ?m)" by (metis append_Cons append_Nil le_val.simps(2))
    moreover have "le_val (drop 1 n) = le_val (drop 1 ?m) + 1" using B d1(3) by simp
    ultimately have "le_val ?m = le_val n - 2" using v u2 True by simp
    then show ?thesis using B b run by (simp add: is_scalar_def ECC_SCALAR_SIZE_BYTES_def)
  next
    case False
    then have "\<not> x < x - 2" using u2 by (simp add: word_less_nat_alt)
    then have "minus_two n = n1" using run by (simp add: upt_conv_Cons)
    then show ?thesis using u2 False v small d1(1,2) by (simp add: is_scalar_def ECC_SCALAR_SIZE_BYTES_def)
  qed
qed

text \<open>Candidates: octets that are at most \<open>n - 2\<close> are the private key as they are.\<close>

lemma candidates_spec:
  assumes laws: "point_laws svc c mul" and c: "ecc_get_curve i = Some c" and rd: "0 < length rd" "length rd \<le> 72"
  shows "ecc_keypair_from_candidates svc (Some kp) i (Some rd) =
    Some (if le_val rd > le_val (cv_n c) - 2 then (ERR_INVALID_PARAMS, Some zero_keypair)
      else if le_val rd mod le_val (cv_n c) = 0
      then (ERR_HAL_ECC_PRIMITIVE, Some (zero_keypair\<lparr>kp_Q := snd (ecc_point_scale svc zero_point (cv_G c) (to_scalar (le_val rd)) i)\<rparr>))
      else (SEV_STATUS_SUCCESS, Some \<lparr>kp_curve = i, kp_Q = mul (le_val rd), kp_d = to_scalar (le_val rd)\<rparr>))"
proof -
  let ?c = "rd @ drop (length rd) zero_scalar"
  have ok: "is_scalar (cv_n c)" "2 < le_val (cv_n c)" using get_curve_ok [OF c] by (simp_all add: curve_ok_def)
  have n2: "is_scalar (minus_two (cv_n c))" "le_val (minus_two (cv_n c)) = le_val (cv_n c) - 2"
    using minus_two_spec [OF ok(1)] ok(2) by simp_all
  have sc: "is_scalar ?c" using rd(2) by (simp add: is_scalar_def zero_scalar_def ECC_SCALAR_SIZE_BYTES_def)
  moreover have "le_val ?c = le_val rd" by (simp add: le_val_append zero_scalar_def)
  ultimately have cs: "?c = to_scalar (le_val rd)" using to_scalar_le_val by metis
  have lc: "le_val (to_scalar (le_val rd)) = le_val rd" using cs \<open>le_val ?c = le_val rd\<close> by simp
  have gr: "ecc_scalar_is_greater (to_scalar (le_val rd)) (minus_two (cv_n c)) \<longleftrightarrow> le_val rd > le_val (cv_n c) - 2"
    using ecc_scalar_is_greater_spec [OF is_scalar_to_scalar n2(1)] n2(2) lc by simp
  have rd2: "\<not> ECC_SCALAR_SIZE_BYTES < length rd" using rd(2) by (simp add: ECC_SCALAR_SIZE_BYTES_def)
  have G: "cv_G c = mul 1" using laws by (simp add: point_laws_def)
  show ?thesis
    using ecc_point_scale_spec [OF laws c, of "to_scalar (le_val rd)" 1 zero_point] rd(1) rd2 c gr
    by (cases "ecc_point_scale svc zero_point (mul 1) (to_scalar (le_val rd)) i")
      (auto simp: ecc_keypair_from_candidates_def Let_def cs G lc split: if_splits)
qed

text \<open>The loop over the draws ends at the first that is at most \<open>n - 2\<close>.\<close>

lemma keypair_generate_ends:
  assumes laws: "point_laws svc ECC_CURVE_SECP384R1 mul"
    and draws: "\<And>i. i < k \<Longrightarrow> fst (trng (c + i)) \<and> length (snd (trng (c + i))) = 48 \<and>
      le_val (snd (trng (c + i))) > le_val (cv_n ECC_CURVE_SECP384R1) - 2"
    and good: "trng (c + k) = (True, rd)" "length rd = 48" "0 < le_val rd" "le_val rd \<le> le_val (cv_n ECC_CURVE_SECP384R1) - 2"
  shows "ecdsa_keypair_generate svc trng c (Some kp) =
    Some (SEV_STATUS_SUCCESS, Some \<lparr>kp_curve = ECC_CURVE_NAME_SECP384R1, kp_Q = mul (le_val rd), kp_d = to_scalar (le_val rd)\<rparr>, c + k + 1)"
  using draws good(1)
proof (induction k arbitrary: c kp)
  case 0
  let ?n = "le_val (cv_n ECC_CURVE_SECP384R1)"
  have cv: "ecc_get_curve ECC_CURVE_NAME_SECP384R1 = Some ECC_CURVE_SECP384R1" by (simp add: get_curve_cases)
  have "2 < ?n" using supported_curves_ok by (simp add: curve_ok_def)
  then have "le_val rd mod ?n \<noteq> 0" using good(3,4) by simp
  then have "ecc_keypair_generate_rdata svc (Some kp) ECC_CURVE_NAME_SECP384R1 (Some rd) = Some (SEV_STATUS_SUCCESS,
      Some \<lparr>kp_curve = ECC_CURVE_NAME_SECP384R1, kp_Q = mul (le_val rd), kp_d = to_scalar (le_val rd)\<rparr>)"
    using candidates_spec [OF laws cv, of rd kp] good(2,4) by (simp add: ecc_keypair_generate_rdata_def)
  then show ?case using 0(2) by (subst ecdsa_keypair_generate.simps) (simp add: sev_hal_trng_def)
next
  case (Suc k)
  have cv: "ecc_get_curve ECC_CURVE_NAME_SECP384R1 = Some ECC_CURVE_SECP384R1" by (simp add: get_curve_cases)
  obtain r where r: "trng c = (True, r)" "length r = 48" "le_val r > le_val (cv_n ECC_CURVE_SECP384R1) - 2"
    using Suc.prems(1) [of 0] by (cases "trng c") auto
  have "ecc_keypair_generate_rdata svc (Some kp) ECC_CURVE_NAME_SECP384R1 (Some r) = Some (ERR_INVALID_PARAMS, Some zero_keypair)"
    using candidates_spec [OF laws cv, of r kp] r(2,3) by (simp add: ecc_keypair_generate_rdata_def)
  then have "ecdsa_keypair_generate svc trng c (Some kp) = ecdsa_keypair_generate svc trng (c + 1) (Some zero_keypair)"
    using r(1) by (subst ecdsa_keypair_generate.simps) (simp add: sev_hal_trng_def)
  also have "\<dots> = Some (SEV_STATUS_SUCCESS, Some \<lparr>kp_curve = ECC_CURVE_NAME_SECP384R1, kp_Q = mul (le_val rd), kp_d = to_scalar (le_val rd)\<rparr>, c + 1 + k + 1)"
    by (rule Suc.IH) (use Suc.prems(1) [of "Suc _"] Suc.prems(2) in simp_all)
  finally show ?case by simp
qed

text \<open>Without an object for the key pair, every draw is refused for ever.\<close>

lemma keypair_generate_null:
  assumes trng: "\<And>i. fst (trng i)"
  shows "ecdsa_keypair_generate svc trng c None = None"
proof -
  have no: "False" if "ecdsa_keypair_generate svc trng' c kp = Some y" "kp = None" "trng' = trng" for c kp y svc trng'
  proof -
    have "kp = None \<longrightarrow> trng' = trng \<longrightarrow> False"
    proof (rule ecdsa_keypair_generate.raw_induct [of "\<lambda>svc trng' c kp y. kp = None \<longrightarrow> trng' = trng \<longrightarrow> False", OF _ that(1)])
      fix gen :: "ecc_service \<Rightarrow> trng_service \<Rightarrow> nat \<Rightarrow> ecc_keypair option \<Rightarrow> (sev_status \<times> ecc_keypair option \<times> nat) option"
        and svc trng' c kp y
      assume IH: "\<And>svc trng' c kp y. gen svc trng' c kp = Some y \<Longrightarrow> kp = None \<longrightarrow> trng' = trng \<longrightarrow> False"
        and step: "(case sev_hal_trng trng' c of (status, random) \<Rightarrow>
            if status \<noteq> SEV_STATUS_SUCCESS then Some (status, kp, c + 1)
            else case ecc_keypair_generate_rdata svc kp ECC_CURVE_NAME_SECP384R1 (Some random) of
              None \<Rightarrow> None
            | Some (status, keypair1) \<Rightarrow>
                if status = ERR_INVALID_PARAMS then gen svc trng' (c + 1) keypair1 else Some (status, keypair1, c + 1)) = Some y"
      show "kp = None \<longrightarrow> trng' = trng \<longrightarrow> False"
      proof (intro impI)
        assume h: "kp = None" "trng' = trng"
        have t: "sev_hal_trng trng c = (SEV_STATUS_SUCCESS, snd (trng c))"
          using trng [of c] by (cases "trng c") (simp add: sev_hal_trng_def)
        have g: "ecc_keypair_generate_rdata svc None i (Some r) = Some (ERR_INVALID_PARAMS, None)" for i r
          by (simp add: ecc_keypair_generate_rdata_def ecc_keypair_from_candidates_def)
        have "gen svc trng (c + 1) None = Some y" using step t g h by simp
        then show False using IH by blast
      qed
    qed
    then show False using that by simp
  qed
  show ?thesis by (cases "ecdsa_keypair_generate svc trng c None") (use no in blast)+
qed

section \<open>Keys derived from a seed\<close>

lemma secp384r1_values:
  "le_val (cv_n ECC_CURVE_SECP384R1) = 39402006196394479212279040100143613805079739270465446667946905279627659399113263569398956308152294913554433653942643"
  "le_val (cv_p ECC_CURVE_SECP384R1) = 39402006196394479212279040100143613805079739270465446667948293404245721771496870329047266088258938001861606973112319"
  "le_val (cv_a ECC_CURVE_SECP384R1) = 39402006196394479212279040100143613805079739270465446667948293404245721771496870329047266088258938001861606973112316"
  "le_val (cv_b ECC_CURVE_SECP384R1) = 27580193559959705877849011840389048093056905856361568521428707301988689241309860865136260764883745107765439761230575"
  "le_val (pt_x (cv_G ECC_CURVE_SECP384R1)) = 26247035095799689268623156744566981891852923491109213387815615900925518854738050089022388053975719786650872476732087"
  "le_val (pt_y (cv_G ECC_CURVE_SECP384R1)) = 8325710961489029985546751289520108179287853048861315594709205902480503199884419224438643760392947333078086511627871"
  by (simp_all add: ECC_CURVE_SECP384R1_def)

text \<open>The private key is one more than the remainder of the octets modulo \<open>n - 1\<close>, of which only the
  octets count that \<open>BNStore\<close> writes for a number of \<open>k + 1\<close> digits.\<close>

lemma extra_bits_spec:
  fixes k :: nat
  assumes laws: "scalar_laws svc" "point_laws svc ECC_CURVE_SECP384R1 mul" and rd: "length rd = 56"
    and rem: "rem = le_val rd mod (le_val (cv_n ECC_CURVE_SECP384R1) - 1)"
    and k: "bn_base ^ k \<le> rem" "rem < bn_base ^ (k + 1)"
  shows "ecc_keypair_from_extra_bits svc (Some kp) ECC_CURVE_NAME_SECP384R1 (Some rd) =
    Some (SEV_STATUS_SUCCESS, Some \<lparr>kp_curve = ECC_CURVE_NAME_SECP384R1, kp_Q = mul (rem mod 256 ^ bytes_stored k + 1),
      kp_d = to_scalar (rem mod 256 ^ bytes_stored k + 1)\<rparr>)"
proof -
  let ?c = ECC_CURVE_SECP384R1
  let ?n = "le_val (cv_n ?c)"
  let ?x = "rd @ drop (length rd) zero_scalar"
  have c: "ecc_get_curve ECC_CURVE_NAME_SECP384R1 = Some ?c" by (simp add: get_curve_cases)
  have n: "is_scalar (cv_n ?c)" "2 < ?n" "0 < ?n" using supported_curves_ok(2) by (simp_all add: curve_ok_def)
  have m: "is_scalar (to_scalar (?n - 1))" "le_val (to_scalar (?n - 1)) = ?n - 1"
    using scalar_less [OF n(1)] by (simp_all add: le_val_to_scalar)
  have minus: "ecc_scalar_minus zero_scalar (cv_n ?c) one_scalar = (SEV_STATUS_SUCCESS, to_scalar (?n - 1))"
    using ecc_scalar_minus_spec [OF n(1) one_scalar(1)] n(2) by simp
  have x: "is_scalar ?x" "le_val ?x = le_val rd"
    using rd by (simp_all add: is_scalar_def zero_scalar_def ECC_SCALAR_SIZE_BYTES_def le_val_append)
  have b: "bn_base ^ 13 < ?n - 1" "?n - 1 < bn_base ^ 14" by (simp_all add: secp384r1_values bn_base_num)
  have "le_val rd < 256 ^ 56" using le_val_less [of rd] rd by simp
  also have "\<dots> < bn_base ^ (2 * 14)" by (simp add: bn_base_num)
  finally have xb: "le_val ?x < bn_base ^ (2 * 14)" using x(2) by simp
  define d where "d = rem mod 256 ^ bytes_stored k"
  have red: "ecc_scalar_reduce zero_scalar ?x (to_scalar (?n - 1)) = Some (SEV_STATUS_SUCCESS, to_scalar d)"
    using ecc_scalar_reduce_spec [of "to_scalar (?n - 1)" 14 ?x k] m b xb x k by (simp add: d_def rem)
  have "rem < ?n - 1" using rem n(2) by simp
  then have dn: "d + 1 < ?n" using mod_less_eq_dividend [of rem "256 ^ bytes_stored k"] unfolding d_def by linarith
  have ld: "le_val (to_scalar d) = d" "le_val (to_scalar (d + 1)) = d + 1"
    using dn scalar_less [OF n(1)] by (simp_all add: le_val_to_scalar)
  have add: "ecc_scalar_add svc (to_scalar d) (to_scalar d) one_scalar (cv_n ?c) = (SEV_STATUS_SUCCESS, to_scalar (d + 1))"
    using ecc_scalar_add_spec [OF laws(1) n(1) _ one_scalar(1) n(3), of "to_scalar d"] ld dn by simp
  have G: "cv_G ?c = mul 1" using laws(2) by (simp add: point_laws_def)
  have scale: "ecc_point_scale svc zero_point (mul 1) (to_scalar (d + 1)) ECC_CURVE_NAME_SECP384R1 = (SEV_STATUS_SUCCESS, mul (d + 1))"
    using ecc_point_scale_spec [OF laws(2) c is_scalar_to_scalar, of "d + 1" 1 zero_point] ld dn by simp
  show ?thesis
    unfolding d_def [symmetric] using c rd minus red add scale
    by (simp add: ecc_keypair_from_extra_bits_def Let_def G SEV_ECC_CURVE_SIZE_BYTES_def ECC_CURVE_SECP384R1_SIZE_BYTES_def
        ECC_KEYGEN_EXTRA_BYTES_def)
qed

end
