(* ===== verification/Sev_P384.thy ===== *)
theory Sev_P384
  imports Sev_Prelude
begin

text \<open>
  The base point of the curve P-384 and its inverse satisfy the equation of the curve. The reductions
  are done one product at a time, which keeps the numbers small.
\<close>

lemma mod_sum3: "(a + b + c) mod p = (a mod p + b mod p + c) mod p" for a b c p :: nat
  by (metis mod_add_left_eq mod_add_right_eq add.commute add.left_commute)

text \<open>A remainder with its quotient, which turns a division into a multiplication.\<close>

lemma mod_by_quotient: "a = p * q + r \<Longrightarrow> r < p \<Longrightarrow> a mod p = r" for a p q r :: nat
  by simp

lemma curve_step_1:
  "(gx :: nat) = 26247035095799689268623156744566981891852923491109213387815615900925518854738050089022388053975719786650872476732087 \<Longrightarrow> p = 39402006196394479212279040100143613805079739270465446667948293404245721771496870329047266088258938001861606973112319 \<Longrightarrow> gx * gx mod p = 679971533856132212205617414932360354764106180264079082911937676692986189053294113671889426697513798718359702384665"
  by (rule mod_by_quotient [where q = 17484055199787764311844323871903661160424182943692593257284651485755779013842088432201135521684168425210514933670216]) (hypsubst, simp only: arith_simps rel_simps)+

lemma curve_step_2:
  "(gx :: nat) = 26247035095799689268623156744566981891852923491109213387815615900925518854738050089022388053975719786650872476732087 \<Longrightarrow> p = 39402006196394479212279040100143613805079739270465446667948293404245721771496870329047266088258938001861606973112319 \<Longrightarrow> 679971533856132212205617414932360354764106180264079082911937676692986189053294113671889426697513798718359702384665 * gx mod p = 6470495628197800609836252231135728394189928842178937256124669874055798497364219295337110212204564973926028994104134"
  by (rule mod_by_quotient [where q = 452952487350752673154694797811435891842034483631354660682697400616472519143236417970944658756677867801987906957159]) (hypsubst, simp only: arith_simps rel_simps)+

lemma curve_step_3:
  "(gx :: nat) = 26247035095799689268623156744566981891852923491109213387815615900925518854738050089022388053975719786650872476732087 \<Longrightarrow> p = 39402006196394479212279040100143613805079739270465446667948293404245721771496870329047266088258938001861606973112319 \<Longrightarrow> 39402006196394479212279040100143613805079739270465446667948293404245721771496870329047266088258938001861606973112316 * gx mod p = 62907105389890618688609966586281934600708067603253172449739105714886978779590391027368014590716643770596516028377"
  by (rule mod_by_quotient [where q = 26247035095799689268623156744566981891852923491109213387815615900925518854738050089022388053975719786650872476732085]) (hypsubst, simp only: arith_simps rel_simps)+

lemma curve_step_4:
  "(p :: nat) = 39402006196394479212279040100143613805079739270465446667948293404245721771496870329047266088258938001861606973112319 \<Longrightarrow> (6470495628197800609836252231135728394189928842178937256124669874055798497364219295337110212204564973926028994104134 + 62907105389890618688609966586281934600708067603253172449739105714886978779590391027368014590716643770596516028377 + 27580193559959705877849011840389048093056905856361568521428707301988689241309860865136260764883745107765439761230575) mod p = 34113596293547397106373874038111058421847542766143758950003116281759374717453670551500738991679026725462065271363086"
  by (rule mod_by_quotient [where q = 0]) (hypsubst, simp only: arith_simps rel_simps)+

lemma curve_step_5:
  "(p :: nat) = 39402006196394479212279040100143613805079739270465446667948293404245721771496870329047266088258938001861606973112319 \<Longrightarrow> 8325710961489029985546751289520108179287853048861315594709205902480503199884419224438643760392947333078086511627871 * 8325710961489029985546751289520108179287853048861315594709205902480503199884419224438643760392947333078086511627871 mod p = 34113596293547397106373874038111058421847542766143758950003116281759374717453670551500738991679026725462065271363086"
  by (rule mod_by_quotient [where q = 1759236894404670017446709830169870124020072470552756828955338227068264065400348089564600521391760797087907768880845]) (hypsubst, simp only: arith_simps rel_simps)+

lemma curve_step_6:
  "(p :: nat) = 39402006196394479212279040100143613805079739270465446667948293404245721771496870329047266088258938001861606973112319 \<Longrightarrow> 31076295234905449226732288810623505625791886221604131073239087501765218571612451104608622327865990668783520461484448 * 31076295234905449226732288810623505625791886221604131073239087501765218571612451104608622327865990668783520461484448 mod p = 34113596293547397106373874038111058421847542766143758950003116281759374717453670551500738991679026725462065271363086"
  by (rule mod_by_quotient [where q = 24509821167821089258632247351273267570524105643295572307485219826352979437128379969734579088864804132793341718737422]) (hypsubst, simp only: arith_simps rel_simps)+

lemma curve_equation:
  fixes x y p :: nat
  assumes x: "x = 26247035095799689268623156744566981891852923491109213387815615900925518854738050089022388053975719786650872476732087" and y: "y = 8325710961489029985546751289520108179287853048861315594709205902480503199884419224438643760392947333078086511627871 \<or> y = 31076295234905449226732288810623505625791886221604131073239087501765218571612451104608622327865990668783520461484448" and p: "p = 39402006196394479212279040100143613805079739270465446667948293404245721771496870329047266088258938001861606973112319"
  shows "y\<^sup>2 mod p = (x ^ 3 + 39402006196394479212279040100143613805079739270465446667948293404245721771496870329047266088258938001861606973112316 * x + 27580193559959705877849011840389048093056905856361568521428707301988689241309860865136260764883745107765439761230575) mod p"
proof -
  have "(x ^ 3 + 39402006196394479212279040100143613805079739270465446667948293404245721771496870329047266088258938001861606973112316 * x + 27580193559959705877849011840389048093056905856361568521428707301988689241309860865136260764883745107765439761230575) mod p = ((x * x mod p) * x mod p + (39402006196394479212279040100143613805079739270465446667948293404245721771496870329047266088258938001861606973112316 * x mod p) + 27580193559959705877849011840389048093056905856361568521428707301988689241309860865136260764883745107765439761230575) mod p"
    unfolding mod_mult_left_eq [of "x * x"] power3_eq_cube by (rule mod_sum3)
  also have "\<dots> = 34113596293547397106373874038111058421847542766143758950003116281759374717453670551500738991679026725462065271363086" unfolding curve_step_1 [OF x p] curve_step_2 [OF x p] curve_step_3 [OF x p] by (rule curve_step_4 [OF p])
  also have "\<dots> = y\<^sup>2 mod p" using y curve_step_5 [OF p] curve_step_6 [OF p] by (metis power2_eq_square)
  finally show ?thesis ..
qed

end
