(* ===== verification/Sev_EccProperties.thy ===== *)
theory Sev_EccProperties
  imports Sev_EccLaws Sev_P384
begin

text \<open>
  The properties of keys, signatures, agreed secrets and keyed digests, with their witnesses. The
  witnesses run on a small coprocessor that obeys the laws: it computes modulo the order of the
  curve, and encodes the \<open>k\<close>-fold base point by \<open>k\<close>, but for the base point and its inverse, which are
  the curve's.
\<close>

section \<open>A coprocessor that obeys the laws\<close>

abbreviation demo_curve :: ecc_curve where "demo_curve \<equiv> ECC_CURVE_SECP384R1"
abbreviation demo_n :: nat where "demo_n \<equiv> le_val (cv_n ECC_CURVE_SECP384R1)"
abbreviation demo_G :: ecc_point where "demo_G \<equiv> cv_G ECC_CURVE_SECP384R1"

definition demo_minus_G :: ecc_point where
  "demo_minus_G = \<lparr>pt_x = pt_x demo_G, pt_y = to_scalar (le_val (cv_p demo_curve) - le_val (pt_y demo_G))\<rparr>"

definition demo_mul :: "nat \<Rightarrow> ecc_point" where
  "demo_mul k =
     (let m = k mod demo_n
      in if m = 1 then demo_G else if m = demo_n - 1 then demo_minus_G else \<lparr>pt_x = to_scalar m, pt_y = zero_scalar\<rparr>)"

definition demo_log :: "ecc_point \<Rightarrow> nat" where
  "demo_log P = (if P = demo_G then 1 else if P = demo_minus_G then demo_n - 1 else le_val (pt_x P))"

definition demo_inverse :: "nat \<Rightarrow> nat \<Rightarrow> nat" where
  "demo_inverse a n = nat (fst (bezw a n) mod int n)"

fun demo_scalar :: "scalar_primitive \<Rightarrow> bool \<times> scalar" where
  "demo_scalar (SCALAR_ADD r n a b) = (True, to_scalar ((le_val a + le_val b) mod le_val n))"
| "demo_scalar (SCALAR_MUL r n a b) = (True, to_scalar (le_val a * le_val b mod le_val n))"
| "demo_scalar (SCALAR_INV r n a) =
     (let w = to_scalar (demo_inverse (le_val a) (le_val n)) in (le_val w * le_val a mod le_val n = 1, w))"

fun demo_point :: "point_primitive \<Rightarrow> bool \<times> ecc_point" where
  "demo_point (POINT_ADD R p P Q) = (False, R)"
| "demo_point (POINT_DOUBLE R p a P) = (False, R)"
| "demo_point (POINT_SCALE R p a k P) = (let j = le_val k * demo_log P in (j mod demo_n \<noteq> 0, demo_mul j))"
| "demo_point (POINT_DUAL_MUL R p a k P h Q) =
     (let j = le_val k * demo_log P + le_val h * demo_log Q in (j mod demo_n \<noteq> 0, demo_mul j))"

definition demo_ecc :: ecc_service where "demo_ecc = \<lparr>svc_scalar = demo_scalar, svc_point = demo_point\<rparr>"

lemma demo_n_pos: "0 < demo_n" "2 < demo_n" "demo_n < 256 ^ ECC_SCALAR_SIZE_BYTES"
  by (simp_all add: secp384r1_values ECC_SCALAR_SIZE_BYTES_def)

lemma demo_points: "is_scalar (pt_x demo_G)" "is_scalar (pt_y demo_G)" "is_scalar (cv_n demo_curve)"
  "le_val (pt_y demo_minus_G) = le_val (cv_p demo_curve) - le_val (pt_y demo_G)" "pt_x demo_minus_G = pt_x demo_G"
  using supported_curves_ok(2)
  by (simp_all add: curve_ok_def demo_minus_G_def le_val_le_bytes secp384r1_values ECC_SCALAR_SIZE_BYTES_def)

lemma demo_distinct: "le_val (pt_y demo_G) \<noteq> 0" "le_val (pt_y demo_minus_G) \<noteq> 0" "le_val (pt_y demo_minus_G) \<noteq> le_val (pt_y demo_G)"
  by (simp_all add: demo_points(4) secp384r1_values)

lemma demo_log_mul: "demo_log (demo_mul k) = k mod demo_n"
proof -
  let ?m = "k mod demo_n"
  let ?P = "\<lparr>pt_x = to_scalar ?m, pt_y = zero_scalar\<rparr>"
  have ne: "?P \<noteq> demo_G" "?P \<noteq> demo_minus_G" "demo_minus_G \<noteq> demo_G"
    using demo_distinct zero_scalar(2) by (metis ecc_point.select_convs(2))+
  have "?m < 256 ^ ECC_SCALAR_SIZE_BYTES" using mod_less_divisor [OF demo_n_pos(1), of k] demo_n_pos(3) by (rule less_trans)
  then have "le_val (to_scalar ?m) = ?m" by (rule le_val_to_scalar)
  then have P: "demo_log ?P = ?m" using ne by (simp add: demo_log_def)
  consider "?m = 1" | "?m \<noteq> 1" "?m = demo_n - 1" | "?m \<noteq> 1" "?m \<noteq> demo_n - 1" by blast
  then show ?thesis
  proof cases
    case 1
    then have "demo_mul k = demo_G" by (simp only: demo_mul_def Let_def if_True refl)
    then show ?thesis using 1 by (simp only: demo_log_def if_True refl)
  next
    case 2
    then have "demo_mul k = demo_minus_G" by (simp only: demo_mul_def Let_def if_True if_False refl)
    then show ?thesis using 2(2) ne(3) by (simp only: demo_log_def if_True if_False refl)
  next
    case 3
    then have "demo_mul k = ?P" by (simp only: demo_mul_def Let_def if_False)
    then show ?thesis using P by simp
  qed
qed

lemma demo_mul_mod: "demo_mul (k mod demo_n) = demo_mul k"
  by (simp only: demo_mul_def mod_mod_trivial)

lemma demo_mul_cong: "j mod demo_n = k mod demo_n \<Longrightarrow> demo_mul j = demo_mul k"
  by (simp only: demo_mul_def)

lemma demo_mul_1: "demo_mul 1 = demo_G"
  using demo_n_pos(2) by (simp add: demo_mul_def)

lemma demo_laws: "scalar_laws demo_ecc" "point_laws demo_ecc demo_curve demo_mul"
proof -
  show "scalar_laws demo_ecc"
    unfolding scalar_laws_def
  proof (intro conjI allI impI)
    fix r n a w assume "svc_scalar demo_ecc (SCALAR_INV r n a) = (True, w)"
    then have w: "w = to_scalar (demo_inverse (le_val a) (le_val n))" "le_val w * le_val a mod le_val n = 1"
      unfolding demo_ecc_def ecc_service.select_convs demo_scalar.simps Let_def by blast+
    show "is_scalar w" unfolding w(1) by simp
    show "le_val w * le_val a mod le_val n = 1" by (rule w(2))
  qed (simp_all add: demo_ecc_def)
  have x: "is_scalar (pt_x (demo_mul k))" for k using demo_points by (simp add: demo_mul_def Let_def)
  have scale: "(a * (j mod demo_n)) mod demo_n = a * j mod demo_n" for a j :: nat by (simp only: mod_mult_right_eq)
  have dual: "(a * (i mod demo_n) + b * (j mod demo_n)) mod demo_n = (a * i + b * j) mod demo_n" for a b i j :: nat
    by (rule mod_add_cong) (rule mod_mult_right_eq)+
  have s: "demo_point (POINT_SCALE R p a k (demo_mul j)) = (le_val k * j mod demo_n \<noteq> 0, demo_mul (le_val k * j))" for R p a k j
    unfolding demo_point.simps Let_def demo_log_mul scale by (simp only: demo_mul_cong [OF scale])
  have d: "demo_point (POINT_DUAL_MUL R p a k (demo_mul i) h (demo_mul j)) =
      ((le_val k * i + le_val h * j) mod demo_n \<noteq> 0, demo_mul (le_val k * i + le_val h * j))" for R p a k i h j
    unfolding demo_point.simps Let_def demo_log_mul dual by (simp only: demo_mul_cong [OF dual])
  show "point_laws demo_ecc demo_curve demo_mul"
    unfolding point_laws_def demo_ecc_def ecc_service.select_convs
  proof (intro conjI allI impI)
    show "is_scalar (pt_x (demo_mul k))" "demo_mul (k mod demo_n) = demo_mul k" for k by (rule x, rule demo_mul_mod)
    show "demo_G = demo_mul 1" by (rule demo_mul_1 [symmetric])
    show "if le_val k * j mod demo_n = 0 then \<not> fst (demo_point (POINT_SCALE R (cv_p demo_curve) (cv_a demo_curve) k (demo_mul j)))
        else demo_point (POINT_SCALE R (cv_p demo_curve) (cv_a demo_curve) k (demo_mul j)) = (True, demo_mul (le_val k * j))" for R k j
      unfolding s by simp
    show "demo_point (POINT_DUAL_MUL R (cv_p demo_curve) (cv_a demo_curve) u (demo_mul i) v (demo_mul j)) =
        (True, demo_mul (le_val u * i + le_val v * j))" if "(le_val u * i + le_val v * j) mod demo_n \<noteq> 0" for R u v i j
      unfolding d using that by simp
  qed
qed

section \<open>Signatures\<close>

text \<open>
  C19: A signature that \<open>ecdsa_sign_rdata\<close> returns is accepted by \<open>ecdsa_verify\<close> under the public key of
  the pair, for the same digest and on both curves, when the coprocessor computes modulo the order
  of the curve and on multiples of the base point, and finds the inverse of \<open>s\<close>.
\<close>

theorem signature_round_trip:
  assumes "ecdsa_sign_rdata svc sig (Some kp) (Some dg) (Some rd) = Some (SEV_STATUS_SUCCESS, Some sg)"
    and "ecc_get_curve (kp_curve kp) = Some c" and "scalar_laws svc" and "point_laws svc c mul"
    and "is_scalar (kp_d kp)" and "kp_Q kp = mul (le_val (kp_d kp))"
    and "fst (svc_scalar svc (SCALAR_INV zero_scalar (cv_n c) (sig_s sg)))"
  shows "ecdsa_verify svc (Some sg) (snd (ecc_get_pubkey (Some kp) (Some pk0))) (Some dg) = Some SEV_STATUS_SUCCESS"
  using signature_accepted [OF assms] by (simp add: ecc_get_pubkey_def)

definition demo_keypair :: ecc_keypair where
  "demo_keypair = \<lparr>kp_curve = ECC_CURVE_NAME_SECP384R1, kp_Q = demo_mul 2, kp_d = to_scalar 2\<rparr>"

text \<open>With 1 drawn and the private key 2, the digest is chosen such that \<open>s\<close> is 1.\<close>

definition demo_digest :: "u8 list" where
  "demo_digest = rev (le_bytes 48 26309942201189579887311766711153263826453631558712466560262578757404281088750426960753136508353150253807122354421113)"

lemma demo_digest_val: "le_val (rev demo_digest) =
    26309942201189579887311766711153263826453631558712466560262578757404281088750426960753136508353150253807122354421113"
  "length demo_digest = 48"
  unfolding demo_digest_def rev_rev_ident le_val_le_bytes by simp_all

lemma demo_inverse_1: "demo_scalar (SCALAR_INV r (cv_n demo_curve) one_scalar) = (True, one_scalar)"
proof -
  have "demo_inverse 1 demo_n = 1"
    using demo_n_pos(2) by (simp add: demo_inverse_def bezw.simps [of "Suc 0" demo_n] bezw.simps [of demo_n "Suc 0"] bezw.simps [of "Suc 0" 0])
  moreover have "to_scalar 1 = one_scalar" using to_scalar_le_val [OF one_scalar(1)] by simp
  ultimately show ?thesis using demo_n_pos(2) by (simp add: Let_def)
qed

lemma demo_signature:
  "ecdsa_sign_rdata demo_ecc (Some zero_sig) (Some demo_keypair) (Some demo_digest) (Some [1]) =
    Some (SEV_STATUS_SUCCESS, Some \<lparr>sig_r = pt_x demo_G, sig_s = one_scalar\<rparr>)"
proof -
  let ?n = demo_n
  let ?r = "le_val (pt_x demo_G)"
  have c: "ecc_get_curve ECC_CURVE_NAME_SECP384R1 = Some demo_curve" by (simp add: get_curve_cases)
  have cn: "ecc_get_curve (cv_name demo_curve) = Some demo_curve" by (rule get_curve_ok(3) [OF c])
  have k: "[1] @ drop (length [1 :: u8]) zero_scalar = one_scalar"
    by (simp add: one_scalar_def zero_scalar_def ECC_SCALAR_SIZE_BYTES_def numeral_eq_Suc)
  have scale: "ecc_point_scale demo_ecc zero_point demo_G one_scalar (cv_name demo_curve) = (SEV_STATUS_SUCCESS, demo_G)"
    using ecc_point_scale_spec [OF demo_laws(2) cn one_scalar(1), of 1 zero_point] demo_n_pos(2) by (simp add: demo_mul_1 [unfolded One_nat_def])
  have r: "?r < ?n" "0 < ?r" "to_scalar ?r = pt_x demo_G"
    using to_scalar_le_val [OF demo_points(1)] by (simp_all add: secp384r1_values)
  have m: "ecc_scalar_mod zero_scalar (pt_x demo_G) (cv_n demo_curve) = Some (SEV_STATUS_SUCCESS, pt_x demo_G)"
    using ecc_scalar_mod_spec [OF demo_points(1,3) demo_n_pos(1)] r by simp
  have inv: "ecc_scalar_inv demo_ecc one_scalar one_scalar (cv_n demo_curve) = (SEV_STATUS_SUCCESS, one_scalar)"
    using demo_inverse_1 by (simp add: ecc_scalar_inv_def sev_hal_ecc_scalar_def demo_ecc_def del: demo_scalar.simps)
  have two: "le_val (to_scalar 2) = 2" by (rule le_val_to_scalar) (simp add: ECC_SCALAR_SIZE_BYTES_def)
  have mul1: "ecc_scalar_mul demo_ecc (pt_x demo_G) (to_scalar 2) (pt_x demo_G) (cv_n demo_curve) = (SEV_STATUS_SUCCESS, to_scalar (2 * ?r mod ?n))"
    using ecc_scalar_mul_spec [OF demo_laws(1) demo_points(3) is_scalar_to_scalar demo_points(1) demo_n_pos(1)] two by simp
  let ?e = "le_val (rev demo_digest)"
  have init: "ecc_scalar_init zero_scalar (Some demo_digest) (length demo_digest) = (SEV_STATUS_SUCCESS, to_scalar ?e)"
    by (rule ecc_scalar_init_spec) (simp add: demo_digest_val ECC_SCALAR_SIZE_BYTES_def)
  have le: "le_val (to_scalar ?e) = ?e" by (rule le_val_to_scalar) (simp add: demo_digest_val ECC_SCALAR_SIZE_BYTES_def)
  have one: "(?e + 2 * ?r mod ?n) mod ?n = 1" by (simp add: demo_digest_val secp384r1_values)
  have "ecc_scalar_add demo_ecc (to_scalar ?e) (to_scalar ?e) (to_scalar (2 * ?r mod ?n)) (cv_n demo_curve) =
      (SEV_STATUS_SUCCESS, to_scalar ((?e + 2 * ?r mod ?n) mod ?n))"
    using ecc_scalar_add_spec [OF demo_laws(1) demo_points(3) is_scalar_to_scalar is_scalar_to_scalar demo_n_pos(1), of "to_scalar ?e" ?e "2 * ?r mod ?n"]
      le le_val_mod [OF demo_points(3) demo_n_pos(1), of "2 * ?r"] by simp
  then have add: "ecc_scalar_add demo_ecc (to_scalar ?e) (to_scalar ?e) (to_scalar (2 * ?r mod ?n)) (cv_n demo_curve) =
      (SEV_STATUS_SUCCESS, one_scalar)"
    unfolding one using to_scalar_le_val [OF one_scalar(1)] by simp
  have mul2: "ecc_scalar_mul demo_ecc zero_scalar one_scalar one_scalar (cv_n demo_curve) = (SEV_STATUS_SUCCESS, one_scalar)"
    using ecc_scalar_mul_spec [OF demo_laws(1) demo_points(3) one_scalar(1) one_scalar(1) demo_n_pos(1), of zero_scalar]
      demo_n_pos(2) to_scalar_le_val [OF one_scalar(1)] by simp
  have "sign_with demo_ecc demo_curve demo_keypair demo_digest one_scalar =
      Some (SEV_STATUS_SUCCESS, Some \<lparr>sig_r = pt_x demo_G, sig_s = one_scalar\<rparr>)"
    using scale m r(2) inv mul1 init add mul2 demo_points(1)
    by (simp add: sign_with_def Let_def ecc_scalar_is_zero_spec demo_keypair_def zero_sig_def)
  moreover have "\<not> ecc_scalar_is_greater one_scalar (cv_n demo_curve)" "\<not> ecc_scalar_is_zero one_scalar"
    using demo_n_pos(2) demo_points(3) by (simp_all add: ecc_scalar_is_greater_spec ecc_scalar_is_zero_spec)
  ultimately show ?thesis using c k demo_digest_val(2)
    by (simp add: ecdsa_sign_rdata_def demo_keypair_def ECC_SCALAR_SIZE_BYTES_def)
qed

theorem signature_round_trip_witness:
  "ecdsa_verify demo_ecc (Some \<lparr>sig_r = pt_x demo_G, sig_s = one_scalar\<rparr>)
    (snd (ecc_get_pubkey (Some demo_keypair) (Some \<lparr>pk_curve = 0, pk_Q = zero_point\<rparr>))) (Some demo_digest) = Some SEV_STATUS_SUCCESS"
proof (rule signature_round_trip [OF demo_signature, where c = demo_curve and mul = demo_mul])
  show "ecc_get_curve (kp_curve demo_keypair) = Some demo_curve" by (simp add: get_curve_cases demo_keypair_def)
  show "kp_Q demo_keypair = demo_mul (le_val (kp_d demo_keypair))"
    by (simp add: demo_keypair_def le_val_le_bytes ECC_SCALAR_SIZE_BYTES_def)
  show "fst (svc_scalar demo_ecc (SCALAR_INV zero_scalar (cv_n demo_curve) (sig_s \<lparr>sig_r = pt_x demo_G, sig_s = one_scalar\<rparr>)))"
    using demo_inverse_1 [of zero_scalar] by (simp add: demo_ecc_def del: demo_scalar.simps)
qed (simp_all add: demo_laws demo_keypair_def)

text \<open>The decision of the standard. A digest stands for its leftmost bits, as many as the order has, most
  significant first; \<open>r\<close> and \<open>s\<close> are in range, and with the inverse \<open>w\<close> of \<open>s\<close> the point
  \<open>(e w + r w d) G\<close> is not the point at infinity and has an abscissa that is \<open>r\<close> modulo the order.\<close>

fun bit_size :: "nat \<Rightarrow> nat" where
  "bit_size n = (if n = 0 then 0 else Suc (bit_size (n div 2)))"

declare bit_size.simps [simp del]

definition bits2int :: "nat \<Rightarrow> u8 list \<Rightarrow> nat" where
  "bits2int n digest = foldl (\<lambda>v b. 256 * v + unat b) 0 digest div 2 ^ (8 * length digest - bit_size n)"

definition ecdsa_reference :: "(nat \<Rightarrow> ecc_point) \<Rightarrow> nat \<Rightarrow> nat \<Rightarrow> u8 list \<Rightarrow> nat \<Rightarrow> nat \<Rightarrow> bool" where
  "ecdsa_reference mul n d digest r s \<longleftrightarrow>
     0 < r \<and> r < n \<and> 0 < s \<and> s < n \<and>
     (\<exists>w. w * s mod n = 1 \<and>
       (bits2int n digest * w + r * w * d) mod n \<noteq> 0 \<and>
       le_val (pt_x (mul (bits2int n digest * w + r * w * d))) mod n = r)"

lemma foldl_octets: "foldl (\<lambda>v b. 256 * v + unat b) a xs = 256 ^ length xs * a + le_val (rev xs)"
  by (induction xs arbitrary: a) (simp_all add: le_val_append algebra_simps)

lemma bit_size_bound: "0 < n \<Longrightarrow> 2 ^ (bit_size n - 1) \<le> n \<and> n < 2 ^ bit_size n \<and> 0 < bit_size n"
proof (induction n rule: bit_size.induct)
  case (1 n)
  show ?case
  proof (cases "n div 2 = 0")
    case True
    then have "n = 1" using 1(2) by linarith
    then show ?thesis by (simp add: bit_size.simps)
  next
    case False
    then have IH: "2 ^ (bit_size (n div 2) - 1) \<le> n div 2" "n div 2 < 2 ^ bit_size (n div 2)" "0 < bit_size (n div 2)"
      using 1 by simp_all
    obtain k where k: "bit_size (n div 2) = Suc k" using IH(3) by (cases "bit_size (n div 2)") simp_all
    have "bit_size n = Suc (Suc k)" using 1(2) k by (simp add: bit_size.simps [of n])
    moreover have "2 * 2 ^ k \<le> n" "n < 4 * 2 ^ k" using IH(1,2) unfolding k by simp_all
    ultimately show ?thesis by simp
  qed
qed

text \<open>A digest with no more bits than the order is taken as a whole.\<close>

lemma bits2int_whole: "8 * length digest \<le> bit_size n \<Longrightarrow> bits2int n digest = le_val (rev digest)"
  by (simp add: bits2int_def foldl_octets)

lemma inverse_unique:
  fixes w v s n :: nat
  assumes "w * s mod n = 1" "v * s mod n = 1" shows "w mod n = v mod n"
proof -
  have "w mod n = w * (v * s mod n) mod n" using assms(2) by simp
  also have "\<dots> = v * (w * s mod n) mod n" by (simp add: mod_simps ac_simps)
  finally show ?thesis using assms(1) by simp
qed

text \<open>The inverse of \<open>s\<close> takes the equation of the point to \<open>e + r d\<close>: both are zero or none.\<close>

lemma inverted_zero_iff:
  fixes e r d w s n :: nat
  assumes "w * s mod n = 1"
  shows "(e * w + r * w * d) mod n = 0 \<longleftrightarrow> (e + r * d) mod n = 0"
proof
  assume "(e * w + r * w * d) mod n = 0"
  then have z: "w * (e + r * d) mod n = 0" by (simp add: algebra_simps)
  have "(e + r * d) mod n = (w * s mod n) * (e + r * d) mod n" using assms by simp
  also have "\<dots> = (w * (e + r * d) mod n) * s mod n" unfolding mod_mult_left_eq by (simp only: ac_simps)
  finally show "(e + r * d) mod n = 0" unfolding z by simp
next
  assume "(e + r * d) mod n = 0"
  then have "w * (e + r * d) mod n = 0" by (metis mod_mult_right_eq mult_0_right mod_0)
  then show "(e * w + r * w * d) mod n = 0" by (simp add: algebra_simps)
qed

text \<open>
  C3: For a digest of no more bits than the order of the curve, \<open>ecdsa_verify\<close> decides as the standard
  does: it returns success for exactly the signatures that the standard accepts. Of the others,
  those whose point is the point at infinity get the error of the coprocessor,
  \<open>ERR_HAL_ECC_PRIMITIVE\<close>, and all the rest \<open>SEV_STATUS_BAD_SIGNATURE\<close>. The coprocessor is assumed to
  compute modulo the order and on multiples of the base point, to report the point at infinity,
  and to find the inverse of \<open>s\<close>. Longer digests, which the standard truncates, are not covered.
\<close>

theorem verify_decides_the_standard:
  assumes c: "ecc_get_curve (pk_curve pk) = Some c" and laws: "scalar_laws svc" "point_laws svc c mul"
    and Q: "pk_Q pk = mul d" and dg: "0 < length dg" "8 * length dg \<le> bit_size (le_val (cv_n c))"
    and sg: "is_scalar (sig_r sg)" "is_scalar (sig_s sg)"
    and inverse: "fst (svc_scalar svc (SCALAR_INV zero_scalar (cv_n c) (sig_s sg)))"
    and infinity: "\<And>R u v. is_scalar u \<Longrightarrow> is_scalar v \<Longrightarrow> (le_val u + le_val v * d) mod le_val (cv_n c) = 0 \<Longrightarrow>
      \<not> fst (svc_point svc (POINT_DUAL_MUL R (cv_p c) (cv_a c) u (mul 1) v (mul d)))"
    and n: "n = le_val (cv_n c)" and r: "r = le_val (sig_r sg)" and s: "s = le_val (sig_s sg)"
  shows "ecdsa_verify svc (Some sg) (Some pk) (Some dg) =
    Some (if ecdsa_reference mul n d dg r s then SEV_STATUS_SUCCESS
      else if 0 < r \<and> r < n \<and> 0 < s \<and> s < n \<and> (bits2int n dg + r * d) mod n = 0 then ERR_HAL_ECC_PRIMITIVE
      else SEV_STATUS_BAD_SIGNATURE)"
proof (cases "0 < r \<and> r < n \<and> 0 < s \<and> s < n")
  case False
  have "is_scalar (cv_n c)" using get_curve_ok [OF c] by (simp add: curve_ok_def)
  then have "ecdsa_verify svc (Some sg) (Some pk) (Some dg) = Some SEV_STATUS_BAD_SIGNATURE"
    using False c dg(1) sg
    by (auto simp: n r s ecdsa_verify_def Let_def ecc_scalar_is_zero_spec ecc_scalar_is_greater_spec)
  then show ?thesis using False by (auto simp: ecdsa_reference_def)
next
  case True
  define e where "e = le_val (rev dg)"
  have e: "bits2int n dg = e" unfolding e_def n by (rule bits2int_whole [OF dg(2)])
  have ns: "is_scalar (cv_n c)" using get_curve_ok [OF c] by (simp add: curve_ok_def)
  have "8 * length dg \<le> 8 * ECC_SCALAR_SIZE_BYTES"
  proof -
    have "(2 :: nat) ^ (bit_size n - 1) \<le> n" "0 < bit_size n" using bit_size_bound [of n] True by simp_all
    moreover have "n < 2 ^ (8 * ECC_SCALAR_SIZE_BYTES)" using scalar_less [OF ns] by (simp add: n power_mult)
    ultimately have "(2 :: nat) ^ (bit_size n - 1) < 2 ^ (8 * ECC_SCALAR_SIZE_BYTES)" by (rule_tac le_less_trans)
    then have "bit_size n - 1 < 8 * ECC_SCALAR_SIZE_BYTES" by (rule power_less_imp_less_exp [rotated]) simp
    then show ?thesis using dg(2) \<open>0 < bit_size n\<close> unfolding n by linarith
  qed
  then have dg': "length dg \<le> ECC_SCALAR_SIZE_BYTES" by simp
  obtain w where w: "svc_scalar svc (SCALAR_INV zero_scalar (cv_n c) (sig_s sg)) = (True, w)"
    using inverse by (cases "svc_scalar svc (SCALAR_INV zero_scalar (cv_n c) (sig_s sg))") auto
  have ws: "le_val w * s mod n = 1" using laws(1) ns w sg(2) unfolding scalar_laws_def n s by blast
  define u where "u = (e * le_val w mod n) * 1 + (r * le_val w mod n) * d"
  have same: "(e * v + r * v * d) mod n = u mod n" if "v * s mod n = 1" for v
  proof -
    have f: "e * v + r * v * d = v * (e + r * d)" for v by (simp add: algebra_simps)
    have "(e * v + r * v * d) mod n = (v mod n) * (e + r * d) mod n" unfolding f mod_mult_left_eq ..
    also have "\<dots> = (le_val w mod n) * (e + r * d) mod n" unfolding inverse_unique [OF that ws] ..
    also have "\<dots> = (e * le_val w + r * le_val w * d) mod n" unfolding f mod_mult_left_eq ..
    also have "\<dots> = u mod n" unfolding u_def mult_1_right
      by (rule mod_add_cong) (simp_all only: mod_mod_trivial mod_mult_left_eq)
    finally show ?thesis .
  qed
  have m: "mul (e * v + r * v * d) = mul u" if "v * s mod n = 1" for v
    using laws(2) same [OF that] unfolding point_laws_def n by metis
  have reference: "ecdsa_reference mul n d dg r s \<longleftrightarrow> u mod n \<noteq> 0 \<and> le_val (pt_x (mul u)) mod n = r"
    using True ws m same by (auto simp: ecdsa_reference_def e)
  have zero: "u mod n = 0 \<longleftrightarrow> (e + r * d) mod n = 0"
    unfolding same [OF ws, symmetric] by (rule inverted_zero_iff [OF ws])
  note run = c laws Q dg(1) dg' sg w
  show ?thesis
  proof (cases "u mod n = 0")
    case True
    have "ecdsa_verify svc (Some sg) (Some pk) (Some dg) = Some ERR_HAL_ECC_PRIMITIVE"
      by (rule verify_infinity [OF run _ _ _ _ _ infinity])
        (use True \<open>0 < r \<and> r < n \<and> 0 < s \<and> s < n\<close> in \<open>simp_all add: u_def e_def n r s\<close>)
    then show ?thesis using True \<open>0 < r \<and> r < n \<and> 0 < s \<and> s < n\<close> zero reference e by simp
  next
    case False
    have "ecdsa_verify svc (Some sg) (Some pk) (Some dg) =
        Some (if le_val (pt_x (mul u)) mod n = r then SEV_STATUS_SUCCESS else SEV_STATUS_BAD_SIGNATURE)"
      unfolding n r by (intro verify_runs [OF run])
        (use True False in \<open>simp_all add: u_def e_def n r s\<close>)
    then show ?thesis using False zero reference e by simp
  qed
qed

lemma demo_infinity:
  assumes "(le_val u + le_val v * d) mod demo_n = 0"
  shows "\<not> fst (svc_point demo_ecc (POINT_DUAL_MUL R (cv_p demo_curve) (cv_a demo_curve) u (demo_mul 1) v (demo_mul d)))"
proof -
  have "(le_val u * (1 mod demo_n) + le_val v * (d mod demo_n)) mod demo_n = (le_val u * 1 + le_val v * d) mod demo_n"
    by (rule mod_add_cong) (rule mod_mult_right_eq)+
  then show ?thesis using assms by (simp add: demo_ecc_def Let_def demo_log_mul del: One_nat_def)
qed

text \<open>The signature of \<open>demo_signature\<close> is accepted, with \<open>r = 0\<close> in place of its \<open>r\<close> it is not.\<close>

theorem verify_decides_the_standard_witness:
  "ecdsa_verify demo_ecc (Some \<lparr>sig_r = pt_x demo_G, sig_s = one_scalar\<rparr>)
      (Some \<lparr>pk_curve = ECC_CURVE_NAME_SECP384R1, pk_Q = demo_mul 2\<rparr>) (Some demo_digest) = Some SEV_STATUS_SUCCESS \<and>
    ecdsa_verify demo_ecc (Some \<lparr>sig_r = zero_scalar, sig_s = one_scalar\<rparr>)
      (Some \<lparr>pk_curve = ECC_CURVE_NAME_SECP384R1, pk_Q = demo_mul 2\<rparr>) (Some demo_digest) = Some SEV_STATUS_BAD_SIGNATURE"
proof -
  let ?G = "le_val (pt_x demo_G)" and ?e = "le_val (rev demo_digest)"
  have "384 \<le> bit_size demo_n"
  proof (rule ccontr)
    assume "\<not> ?thesis"
    then have "(2 :: nat) ^ bit_size demo_n \<le> 2 ^ 383" by (intro power_increasing) simp_all
    then show False using bit_size_bound [OF demo_n_pos(1)] by (simp add: secp384r1_values)
  qed
  then have dg: "0 < length demo_digest" "8 * length demo_digest \<le> bit_size demo_n" by (simp_all add: demo_digest_val)
  have run: "ecdsa_verify demo_ecc (Some \<lparr>sig_r = x, sig_s = one_scalar\<rparr>) (Some \<lparr>pk_curve = ECC_CURVE_NAME_SECP384R1, pk_Q = demo_mul 2\<rparr>)
      (Some demo_digest) = Some (if ecdsa_reference demo_mul demo_n 2 demo_digest r 1 then SEV_STATUS_SUCCESS
        else if 0 < r \<and> r < demo_n \<and> 0 < (1 :: nat) \<and> 1 < demo_n \<and> (bits2int demo_n demo_digest + r * 2) mod demo_n = 0
        then ERR_HAL_ECC_PRIMITIVE else SEV_STATUS_BAD_SIGNATURE)" if "is_scalar x" "r = le_val x" for x r
    by (rule verify_decides_the_standard [OF _ demo_laws _ _ _ _ _ _ demo_infinity, where d = 2])
      (use that dg demo_inverse_1 [of zero_scalar]
        in \<open>simp_all add: get_curve_cases demo_ecc_def one_scalar(2) del: demo_scalar.simps demo_point.simps\<close>)
  have "(?e * 1 + ?G * 1 * 2) mod demo_n = 1" by (simp add: demo_digest_val secp384r1_values)
  then have P: "demo_mul (?e * 1 + ?G * 1 * 2) = demo_G" "(?e * 1 + ?G * 1 * 2) mod demo_n \<noteq> 0"
    by (simp_all only: demo_mul_def Let_def if_True refl)
  have "?G < demo_n" "0 < ?G" "1 < demo_n" by (simp_all add: secp384r1_values)
  then have "ecdsa_reference demo_mul demo_n 2 demo_digest ?G 1"
    unfolding ecdsa_reference_def bits2int_whole [OF dg(2)]
    by (intro conjI exI [where x = 1] P(2)) (simp_all only: P(1) mod_less mult_1_left)
  then show ?thesis using run [OF demo_points(1) refl] run [of zero_scalar 0] by (simp add: ecdsa_reference_def)
qed

section \<open>Public keys and agreed secrets\<close>

text \<open>
  C21: \<open>ecc_pubkey_is_valid\<close> accepts a public key exactly when it is of the curve P-384 and its
  coordinates satisfy the equation of the curve modulo \<open>p\<close>.
\<close>

theorem pubkey_valid_iff_on_curve:
  assumes "scalar_laws svc" and "is_scalar (pt_x (pk_Q pk))" and "is_scalar (pt_y (pk_Q pk))"
  shows "ecc_pubkey_is_valid svc pk =
    Some (pk_curve pk = ECC_CURVE_NAME_SECP384R1 \<and>
      (le_val (pt_y (pk_Q pk)))\<^sup>2 mod le_val (cv_p ECC_CURVE_SECP384R1) =
      ((le_val (pt_x (pk_Q pk))) ^ 3 + le_val (cv_a ECC_CURVE_SECP384R1) * le_val (pt_x (pk_Q pk)) +
        le_val (cv_b ECC_CURVE_SECP384R1)) mod le_val (cv_p ECC_CURVE_SECP384R1))"
  by (rule pubkey_valid_spec [OF assms])

lemma demo_equations:
  "(le_val (pt_y demo_G))\<^sup>2 mod le_val (cv_p demo_curve) = ((le_val (pt_x demo_G)) ^ 3 + le_val (cv_a demo_curve) *
    le_val (pt_x demo_G) + le_val (cv_b demo_curve)) mod le_val (cv_p demo_curve)"
  "(le_val (pt_y demo_minus_G))\<^sup>2 mod le_val (cv_p demo_curve) = ((le_val (pt_x demo_minus_G)) ^ 3 + le_val (cv_a demo_curve) *
    le_val (pt_x demo_minus_G) + le_val (cv_b demo_curve)) mod le_val (cv_p demo_curve)"
proof -
  have y: "le_val (pt_y demo_minus_G) =
      31076295234905449226732288810623505625791886221604131073239087501765218571612451104608622327865990668783520461484448"
    unfolding demo_points(4) secp384r1_values(2,6) by simp
  show "(le_val (pt_y demo_G))\<^sup>2 mod le_val (cv_p demo_curve) = ((le_val (pt_x demo_G)) ^ 3 + le_val (cv_a demo_curve) *
      le_val (pt_x demo_G) + le_val (cv_b demo_curve)) mod le_val (cv_p demo_curve)"
    unfolding secp384r1_values(3,4)
    by (rule curve_equation [OF secp384r1_values(5) disjI1 [OF secp384r1_values(6)] secp384r1_values(2)])
  show "(le_val (pt_y demo_minus_G))\<^sup>2 mod le_val (cv_p demo_curve) = ((le_val (pt_x demo_minus_G)) ^ 3 + le_val (cv_a demo_curve) *
      le_val (pt_x demo_minus_G) + le_val (cv_b demo_curve)) mod le_val (cv_p demo_curve)"
    unfolding demo_points(5) secp384r1_values(3,4)
    by (rule curve_equation [OF secp384r1_values(5) disjI2 [OF y] secp384r1_values(2)])
qed

theorem pubkey_valid_iff_on_curve_witness:
  "ecc_pubkey_is_valid demo_ecc \<lparr>pk_curve = ECC_CURVE_NAME_SECP384R1, pk_Q = demo_G\<rparr> = Some True"
  using pubkey_valid_iff_on_curve [OF demo_laws(1), of "\<lparr>pk_curve = ECC_CURVE_NAME_SECP384R1, pk_Q = demo_G\<rparr>"]
    demo_points(1,2) demo_equations(1) by simp

text \<open>The equation of the curve.\<close>

definition on_P384 :: "ecc_point \<Rightarrow> bool" where
  "on_P384 P \<longleftrightarrow>
     (let p = le_val (cv_p ECC_CURVE_SECP384R1); x = le_val (pt_x P); y = le_val (pt_y P)
      in y * y mod p = (x * x * x + le_val (cv_a ECC_CURVE_SECP384R1) * x + le_val (cv_b ECC_CURVE_SECP384R1)) mod p)"

lemma valid_iff_on_P384:
  assumes "scalar_laws svc" and "is_scalar (pt_x (pk_Q pk))" and "is_scalar (pt_y (pk_Q pk))"
  shows "ecc_pubkey_is_valid svc pk = Some (pk_curve pk = ECC_CURVE_NAME_SECP384R1 \<and> on_P384 (pk_Q pk))"
  by (simp add: pubkey_valid_spec [OF assms] on_P384_def Let_def power2_eq_square power3_eq_cube)

text \<open>One side: the answer to any public key whose point is the \<open>e\<close>-fold base point.\<close>

lemma agreement_with_peer:
  assumes laws: "scalar_laws svc" "point_laws svc ECC_CURVE_SECP384R1 mul"
    and kp: "is_scalar (kp_d kp)" "kp_curve kp = ECC_CURVE_NAME_SECP384R1"
    and pk: "pk_curve pk = ECC_CURVE_NAME_SECP384R1" "pk_Q pk = mul e" "is_scalar (pt_y (pk_Q pk))"
    and nz: "le_val (kp_d kp) * e mod le_val (cv_n ECC_CURVE_SECP384R1) \<noteq> 0" and sec: "length secret = 48"
  shows "ecdh_key_agreement svc R (Some kp) (Some pk) (Some secret) =
    Some (if on_P384 (mul e) then (SEV_STATUS_SUCCESS, Some (rev (take 48 (pt_x (mul (le_val (kp_d kp) * e))))))
      else (SEV_STATUS_INVALID_CERTIFICATE, Some secret))"
proof -
  have "is_scalar (pt_x (pk_Q pk))" using laws(2) pk(2) by (simp add: point_laws_def)
  then have v: "ecc_pubkey_is_valid svc pk = Some (on_P384 (mul e))" using valid_iff_on_P384 [OF laws(1) _ pk(3)] pk(1,2) by simp
  show ?thesis
  proof (cases "on_P384 (mul e)")
    case True
    then show ?thesis using key_agreement_computes [OF laws(2) kp _ pk(2,1) nz sec] v by simp
  next
    case False
    then show ?thesis using v sec by (simp add: ecdh_key_agreement_def ECC_CURVE_SECP384R1_SIZE_BYTES_def)
  qed
qed

text \<open>
  C34: The agreed secret of two parties with key pairs of P-384, of private keys \<open>d\<^sub>a\<close> and \<open>d\<^sub>b\<close>. Each
  computes from its private key and the other's public key the first 48 octets of the abscissa of
  the \<open>d\<^sub>a d\<^sub>b\<close>-fold base point, in reverse order, provided the public key satisfies the equation of the
  curve; otherwise it returns \<open>SEV_STATUS_INVALID_CERTIFICATE\<close> and leaves the buffer as it was, as it
  does for every public key of another curve. The product of the private keys is not 0 modulo the
  order, and the coprocessor obeys \<open>scalar_laws\<close> and \<open>point_laws\<close>.
\<close>

theorem agreed_secrets_are_equal:
  assumes laws: "scalar_laws svc" "point_laws svc ECC_CURVE_SECP384R1 mul"
    and a: "is_scalar (kp_d a)" "kp_curve a = ECC_CURVE_NAME_SECP384R1" "kp_Q a = mul (le_val (kp_d a))" "is_scalar (pt_y (kp_Q a))"
    and b: "is_scalar (kp_d b)" "kp_curve b = ECC_CURVE_NAME_SECP384R1" "kp_Q b = mul (le_val (kp_d b))" "is_scalar (pt_y (kp_Q b))"
    and nz: "le_val (kp_d a) * le_val (kp_d b) mod le_val (cv_n ECC_CURVE_SECP384R1) \<noteq> 0"
    and sec: "length s1 = 48" "length s2 = 48"
    and secret: "secret = rev (take 48 (pt_x (mul (le_val (kp_d a) * le_val (kp_d b)))))"
  shows "ecdh_key_agreement svc R1 (Some a) (Some \<lparr>pk_curve = kp_curve b, pk_Q = kp_Q b\<rparr>) (Some s1) =
      Some (if on_P384 (kp_Q b) then (SEV_STATUS_SUCCESS, Some secret) else (SEV_STATUS_INVALID_CERTIFICATE, Some s1)) \<and>
    ecdh_key_agreement svc R2 (Some b) (Some \<lparr>pk_curve = kp_curve a, pk_Q = kp_Q a\<rparr>) (Some s2) =
      Some (if on_P384 (kp_Q a) then (SEV_STATUS_SUCCESS, Some secret) else (SEV_STATUS_INVALID_CERTIFICATE, Some s2)) \<and>
    (pk_curve other \<noteq> ECC_CURVE_NAME_SECP384R1 \<longrightarrow>
      ecdh_key_agreement svc R1 (Some a) (Some other) (Some s1) = Some (SEV_STATUS_INVALID_CERTIFICATE, Some s1))"
proof (intro conjI impI)
  show "ecdh_key_agreement svc R1 (Some a) (Some \<lparr>pk_curve = kp_curve b, pk_Q = kp_Q b\<rparr>) (Some s1) =
      Some (if on_P384 (kp_Q b) then (SEV_STATUS_SUCCESS, Some secret) else (SEV_STATUS_INVALID_CERTIFICATE, Some s1))"
    using agreement_with_peer [OF laws a(1,2), of "\<lparr>pk_curve = kp_curve b, pk_Q = kp_Q b\<rparr>" "le_val (kp_d b)" s1 R1]
    using b nz sec by (simp add: secret)
  show "ecdh_key_agreement svc R2 (Some b) (Some \<lparr>pk_curve = kp_curve a, pk_Q = kp_Q a\<rparr>) (Some s2) =
      Some (if on_P384 (kp_Q a) then (SEV_STATUS_SUCCESS, Some secret) else (SEV_STATUS_INVALID_CERTIFICATE, Some s2))"
    using agreement_with_peer [OF laws b(1,2), of "\<lparr>pk_curve = kp_curve a, pk_Q = kp_Q a\<rparr>" "le_val (kp_d a)" s2 R2]
    using a nz sec by (simp add: secret mult.commute)
next
  assume "pk_curve other \<noteq> ECC_CURVE_NAME_SECP384R1"
  then show "ecdh_key_agreement svc R1 (Some a) (Some other) (Some s1) = Some (SEV_STATUS_INVALID_CERTIFICATE, Some s1)"
    using sec(1) by (simp add: ecdh_key_agreement_def ecc_pubkey_is_valid_def ECC_CURVE_SECP384R1_SIZE_BYTES_def)
qed

text \<open>With the private keys 1 and \<open>n - 1\<close> the secret is the abscissa of the base point.\<close>

theorem agreed_secrets_are_equal_witness:
  "ecdh_key_agreement demo_ecc zero_point (Some \<lparr>kp_curve = ECC_CURVE_NAME_SECP384R1, kp_Q = demo_G, kp_d = one_scalar\<rparr>)
      (Some \<lparr>pk_curve = ECC_CURVE_NAME_SECP384R1, pk_Q = demo_minus_G\<rparr>) (Some (replicate 48 0)) =
      Some (SEV_STATUS_SUCCESS, Some (rev (take 48 (pt_x demo_G)))) \<and>
    ecdh_key_agreement demo_ecc zero_point
      (Some \<lparr>kp_curve = ECC_CURVE_NAME_SECP384R1, kp_Q = demo_minus_G, kp_d = to_scalar (demo_n - 1)\<rparr>)
      (Some \<lparr>pk_curve = ECC_CURVE_NAME_SECP384R1, pk_Q = demo_G\<rparr>) (Some (replicate 48 1)) =
      Some (SEV_STATUS_SUCCESS, Some (rev (take 48 (pt_x demo_G))))"
proof -
  let ?a = "\<lparr>kp_curve = ECC_CURVE_NAME_SECP384R1, kp_Q = demo_G, kp_d = one_scalar\<rparr>"
  let ?b = "\<lparr>kp_curve = ECC_CURVE_NAME_SECP384R1, kp_Q = demo_minus_G, kp_d = to_scalar (demo_n - 1)\<rparr>"
  let ?s = "rev (take 48 (pt_x (demo_mul (le_val (kp_d ?a) * le_val (kp_d ?b)))))"
  have d: "le_val (to_scalar (demo_n - 1)) = demo_n - 1" by (rule le_val_to_scalar) (use demo_n_pos(3) in linarith)
  have m: "(demo_n - 1) mod demo_n = demo_n - 1" "demo_n - 1 \<noteq> 1" using demo_n_pos(2) by simp_all
  then have Q: "demo_mul (demo_n - 1) = demo_minus_G" by (simp only: demo_mul_def Let_def if_True if_False refl)
  have on: "on_P384 demo_G" "on_P384 demo_minus_G"
    using demo_equations unfolding on_P384_def Let_def power2_eq_square power3_eq_cube by simp_all
  have y: "is_scalar (pt_y demo_minus_G)" by (simp add: demo_minus_G_def)
  have "ecdh_key_agreement demo_ecc zero_point (Some ?a) (Some \<lparr>pk_curve = kp_curve ?b, pk_Q = kp_Q ?b\<rparr>) (Some (replicate 48 0)) =
      Some (if on_P384 (kp_Q ?b) then (SEV_STATUS_SUCCESS, Some ?s) else (SEV_STATUS_INVALID_CERTIFICATE, Some (replicate 48 0))) \<and>
    ecdh_key_agreement demo_ecc zero_point (Some ?b) (Some \<lparr>pk_curve = kp_curve ?a, pk_Q = kp_Q ?a\<rparr>) (Some (replicate 48 1)) =
      Some (if on_P384 (kp_Q ?a) then (SEV_STATUS_SUCCESS, Some ?s) else (SEV_STATUS_INVALID_CERTIFICATE, Some (replicate 48 1))) \<and>
    (pk_curve \<lparr>pk_curve = 0, pk_Q = demo_G\<rparr> \<noteq> ECC_CURVE_NAME_SECP384R1 \<longrightarrow>
      ecdh_key_agreement demo_ecc zero_point (Some ?a) (Some \<lparr>pk_curve = 0, pk_Q = demo_G\<rparr>) (Some (replicate 48 0)) =
        Some (SEV_STATUS_INVALID_CERTIFICATE, Some (replicate 48 0)))"
    by (rule agreed_secrets_are_equal [OF demo_laws])
      (use demo_points(2) y d Q demo_mul_1 m demo_n_pos(2) in \<open>simp_all\<close>)
  moreover have "pt_x (demo_mul (le_val (kp_d ?a) * le_val (kp_d ?b))) = pt_x demo_G"
    using d Q demo_points(5) by simp
  ultimately show ?thesis using on by simp
qed

section \<open>Key generation\<close>

text \<open>
  C35: A chip key derived from 56 octets of a seed is \<open>d = (c mod (n - 1)) + 1\<close>, where \<open>c\<close> is the number
  that the octets hold, with the public key \<open>d G\<close>. The claim covers the seeds whose remainder has all
  14 digits of the modulus, \<open>bn_base ^ 13 \<le> c mod (n - 1)\<close> (of 2 ^ 384 remainders all but 2 ^ 364).
\<close>

theorem seeded_key_is_remainder:
  assumes "scalar_laws svc" and "point_laws svc ECC_CURVE_SECP384R1 mul" and "length rd = 56"
    and "d = le_val rd mod (le_val (cv_n ECC_CURVE_SECP384R1) - 1) + 1"
    and "bn_base ^ 13 \<le> le_val rd mod (le_val (cv_n ECC_CURVE_SECP384R1) - 1)"
  shows "ecc_keypair_from_extra_bits svc (Some kp) ECC_CURVE_NAME_SECP384R1 (Some rd) =
      Some (SEV_STATUS_SUCCESS, Some \<lparr>kp_curve = ECC_CURVE_NAME_SECP384R1, kp_Q = mul d, kp_d = to_scalar d\<rparr>)"
proof -
  let ?r = "le_val rd mod (le_val (cv_n ECC_CURVE_SECP384R1) - 1)"
  have small: "?r < le_val (cv_n ECC_CURVE_SECP384R1) - 1" using demo_n_pos(2) by simp
  also have "\<dots> < 256 ^ bytes_stored 13" by (simp add: secp384r1_values bytes_stored_def)
  finally have all: "?r mod 256 ^ bytes_stored 13 = ?r" by simp
  have "le_val (cv_n ECC_CURVE_SECP384R1) - 1 < bn_base ^ (13 + 1)" by (simp add: secp384r1_values bn_base_num)
  with small have "?r < bn_base ^ (13 + 1)" by (rule less_trans)
  from extra_bits_spec [OF assms(1-3) refl assms(5) this] show ?thesis unfolding all assms(4) .
qed

theorem seeded_key_is_remainder_witness:
  "ecc_keypair_from_extra_bits demo_ecc (Some zero_keypair) ECC_CURVE_NAME_SECP384R1 (Some (le_bytes 56 (bn_base ^ 13))) =
    Some (SEV_STATUS_SUCCESS, Some \<lparr>kp_curve = ECC_CURVE_NAME_SECP384R1, kp_Q = demo_mul (bn_base ^ 13 + 1), kp_d = to_scalar (bn_base ^ 13 + 1)\<rparr>)"
proof -
  have s: "bn_base ^ 13 < 256 ^ 56" "bn_base ^ 13 < demo_n - 1" by (simp_all add: bn_base_num secp384r1_values)
  then have r: "le_val (le_bytes 56 (bn_base ^ 13)) mod (demo_n - 1) = bn_base ^ 13" by (simp add: le_val_le_bytes)
  show ?thesis
    by (rule seeded_key_is_remainder [OF demo_laws]) (simp_all only: r length_le_bytes refl order_refl)
qed

text \<open>
  C36: Key generation ends with the first draw in the range from 1 to \<open>n - 2\<close>, however many draws above
  \<open>n - 2\<close> come before it, and uses no further one. It returns a key pair of P-384: a private key from 1
  to \<open>n - 1\<close> and the public key that is its multiple of the base point. (Which private key a draw gives
  is no part of the claim.)
\<close>

theorem generation_ends_at_first_candidate:
  assumes "point_laws svc ECC_CURVE_SECP384R1 mul"
    and "\<And>i. i < k \<Longrightarrow> fst (trng (c + i)) \<and> length (snd (trng (c + i))) = 48 \<and>
      le_val (snd (trng (c + i))) > le_val (cv_n ECC_CURVE_SECP384R1) - 2"
    and "trng (c + k) = (True, rd)" and "length rd = 48" and "0 < le_val rd"
    and "le_val rd \<le> le_val (cv_n ECC_CURVE_SECP384R1) - 2"
  shows "\<exists>d. 0 < d \<and> d < le_val (cv_n ECC_CURVE_SECP384R1) \<and>
    ecdsa_keypair_generate svc trng c (Some kp) =
      Some (SEV_STATUS_SUCCESS, Some \<lparr>kp_curve = ECC_CURVE_NAME_SECP384R1, kp_Q = mul d, kp_d = to_scalar d\<rparr>, c + k + 1)"
proof -
  have "le_val rd < le_val (cv_n ECC_CURVE_SECP384R1)" using assms(6) demo_n_pos(2) by linarith
  then show ?thesis using keypair_generate_ends [where trng = trng and c = c and k = k, OF assms] assms(5) by blast
qed

theorem generation_ends_at_first_candidate_witness:
  "\<exists>d. 0 < d \<and> d < demo_n \<and>
    ecdsa_keypair_generate demo_ecc (\<lambda>i. (True, if i < 3 then replicate 48 255 else le_bytes 48 5)) 1 (Some zero_keypair) =
      Some (SEV_STATUS_SUCCESS, Some \<lparr>kp_curve = ECC_CURVE_NAME_SECP384R1, kp_Q = demo_mul d, kp_d = to_scalar d\<rparr>, 4)"
proof -
  let ?t = "\<lambda>i :: nat. (True, if i < 3 then replicate 48 255 else le_bytes 48 5)"
  have five: "le_val (le_bytes 48 5) = 5" by (simp add: le_val_le_bytes)
  have "le_val (replicate n 255) + 1 = 256 ^ n" for n by (induction n) simp_all
  from this [of 48] have high: "le_val (replicate 48 255) > demo_n - 2" unfolding secp384r1_values by simp
  have "\<exists>d. 0 < d \<and> d < demo_n \<and> ecdsa_keypair_generate demo_ecc ?t 1 (Some zero_keypair) =
      Some (SEV_STATUS_SUCCESS, Some \<lparr>kp_curve = ECC_CURVE_NAME_SECP384R1, kp_Q = demo_mul d, kp_d = to_scalar d\<rparr>, 1 + 2 + 1)"
    by (rule generation_ends_at_first_candidate [OF demo_laws(2), where rd = "le_bytes 48 5"])
      (use high five in \<open>simp_all add: secp384r1_values\<close>)
  moreover have "1 + 2 + 1 = (4 :: nat)" by simp
  ultimately show ?thesis by (simp only:)
qed

text \<open>
  C37: \<open>ecc_scalar_mod\<close> returns the remainder for every modulus but 0, and does not return for 0.
\<close>

theorem scalar_mod_total:
  assumes "is_scalar a" and "is_scalar m"
  shows "ecc_scalar_mod rop a m =
    (if le_val m = 0 then None else Some (SEV_STATUS_SUCCESS, to_scalar (le_val a mod le_val m)))"
  using ecc_scalar_mod_spec [OF assms] mod_loop_zero [OF assms(2) _ assms(1)] by (simp add: ecc_scalar_mod_def)

theorem scalar_mod_total_witness:
  "ecc_scalar_mod zero_scalar (to_scalar 17) (to_scalar 5) = Some (SEV_STATUS_SUCCESS, to_scalar 2)"
  using scalar_mod_total [OF is_scalar_to_scalar [of 17] is_scalar_to_scalar [of 5], of zero_scalar] by (simp add: le_val_le_bytes ECC_SCALAR_SIZE_BYTES_def)

text \<open>
  The constant-time comparison of little-endian strings orders them as the numbers they hold:
  0 for equal, 1 for greater, 2 for less.
\<close>

theorem compare_le_orders_numbers:
  assumes "n \<le> length l" and "n \<le> length r"
  shows "secure_array_compare_le l r n =
    (if le_val (take n l) > le_val (take n r) then 1 else if le_val (take n l) < le_val (take n r) then 2 else 0)"
  by (rule compare_le_spec [OF assms])

theorem compare_le_orders_numbers_witness: "secure_array_compare_le [1, 2, 9] [2, 1] 2 = 1"
  using compare_le_orders_numbers [of 2 "[1, 2, 9]" "[2, 1]"] by simp

end
