(* ===== verification/Sev_CpuidConstants.thy ===== *)
theory Sev_CpuidConstants
  imports Sev_Prelude
begin

text \<open>
  The constants of \<open>cpuid_lookup.h\<close>: for every CPUID function the value a register may have (\<open>_DEFAULT\<close>)
  and the bits that must be 0 (\<open>_RESERVED\<close>), built from the bits of the features as the header builds
  them, and the numbers of the rules. An amount of a shift is a \<open>nat\<close>. All equations are in the
  collection \<open>cpuid_constants\<close>.
\<close>

named_theorems cpuid_constants

definition SEV_FEATURE_INFO_x00_EAX :: u32 where [cpuid_constants]: "SEV_FEATURE_INFO_x00_EAX = 1"
definition SEV_FEATURE_INFO_x00_EBX :: u32 where [cpuid_constants]: "SEV_FEATURE_INFO_x00_EBX = 1"
definition SEV_FEATURE_INFO_x00_ECX_VLEK :: u32 where [cpuid_constants]:
  "SEV_FEATURE_INFO_x00_ECX_VLEK = push_bit 0 1"
definition SEV_FEATURE_INFO_x00_ECX_X86_SNP_SHUTDOWN :: u32 where [cpuid_constants]:
  "SEV_FEATURE_INFO_x00_ECX_X86_SNP_SHUTDOWN = push_bit 1 1"
definition SEV_FEATURE_INFO_x00_ECX :: u32 where [cpuid_constants]:
  "SEV_FEATURE_INFO_x00_ECX = SEV_FEATURE_INFO_x00_ECX_VLEK OR SEV_FEATURE_INFO_x00_ECX_X86_SNP_SHUTDOWN"
definition SEV_FEATURE_INFO_x00_EDX :: u32 where [cpuid_constants]: "SEV_FEATURE_INFO_x00_EDX = 0"
definition SEV_FEATURE_INFO_x01_EAX :: u32 where [cpuid_constants]: "SEV_FEATURE_INFO_x01_EAX = 0x1ff"
definition SEV_FEATURE_INFO_x01_EBX :: u32 where [cpuid_constants]: "SEV_FEATURE_INFO_x01_EBX = 0"
definition SEV_FEATURE_INFO_x01_ECX :: u32 where [cpuid_constants]: "SEV_FEATURE_INFO_x01_ECX = 0"
definition SEV_FEATURE_INFO_x01_EDX :: u32 where [cpuid_constants]: "SEV_FEATURE_INFO_x01_EDX = 0"

definition CPUID_STD_RANGE_MIN :: u32 where [cpuid_constants]: "CPUID_STD_RANGE_MIN = 0x00000000"
definition CPUID_STD_RANGE_MAX :: u32 where [cpuid_constants]: "CPUID_STD_RANGE_MAX = 0x0000ffff"
definition CPUID_EXT_RANGE_MIN :: u32 where [cpuid_constants]: "CPUID_EXT_RANGE_MIN = 0x80000000"
definition CPUID_EXT_RANGE_MAX :: u32 where [cpuid_constants]: "CPUID_EXT_RANGE_MAX = 0x8000ffff"
definition CPUID_RULE_EXACT :: u8 where [cpuid_constants]: "CPUID_RULE_EXACT = 0"
definition CPUID_RULE_MASK :: u8 where [cpuid_constants]: "CPUID_RULE_MASK = 1"
definition CPUID_RULE_CUSTOM :: u8 where [cpuid_constants]: "CPUID_RULE_CUSTOM = 2"
definition CPUID_RULE_LESSTHAN :: u8 where [cpuid_constants]: "CPUID_RULE_LESSTHAN = 3"
definition CPUID_RULE_UNCHECKED :: u8 where [cpuid_constants]: "CPUID_RULE_UNCHECKED = 4"
definition CPUID_RULE_DOES_NOT_EXIST :: u8 where [cpuid_constants]: "CPUID_RULE_DOES_NOT_EXIST = 0xff"

definition XCR0_AVX :: u64 where [cpuid_constants]: "XCR0_AVX = push_bit 2 1"
definition XCR0_KREGS :: u64 where [cpuid_constants]: "XCR0_KREGS = push_bit 5 1"
definition XCR0_ZMMHI :: u64 where [cpuid_constants]: "XCR0_ZMMHI = push_bit 6 1"
definition XCR0_HIZMM :: u64 where [cpuid_constants]: "XCR0_HIZMM = push_bit 7 1"
definition XCR0_MPK :: u64 where [cpuid_constants]: "XCR0_MPK = push_bit 9 1"

definition CET_U :: u64 where [cpuid_constants]: "CET_U = push_bit 11 1"
definition CET_S :: u64 where [cpuid_constants]: "CET_S = push_bit 12 1"

definition FNXXXXXXXX_CUSTOM :: u32 where [cpuid_constants]: "FNXXXXXXXX_CUSTOM = 0"
definition FNXXXXXXXX_CPUID_DOES_NOT_EXIST :: u32 where [cpuid_constants]:
  "FNXXXXXXXX_CPUID_DOES_NOT_EXIST = 0x000000000"
definition FNXXXXXXXX_RESERVED_DOES_NOT_EXIST :: u32 where [cpuid_constants]:
  "FNXXXXXXXX_RESERVED_DOES_NOT_EXIST = NOT 0"

definition FN00000000_EAX_DEFAULT :: u32 where [cpuid_constants]: "FN00000000_EAX_DEFAULT = 0x00000010"
definition FN00000000_EAX_RESERVED :: u32 where [cpuid_constants]: "FN00000000_EAX_RESERVED = 0x00000000"
definition FN00000000_EBX_DEFAULT :: u32 where [cpuid_constants]: "FN00000000_EBX_DEFAULT = 0x68747541"
definition FN00000000_EBX_RESERVED :: u32 where [cpuid_constants]: "FN00000000_EBX_RESERVED = 0x00000000"
definition FN00000000_ECX_DEFAULT :: u32 where [cpuid_constants]: "FN00000000_ECX_DEFAULT = 0x444d4163"
definition FN00000000_ECX_RESERVED :: u32 where [cpuid_constants]: "FN00000000_ECX_RESERVED = 0x00000000"
definition FN00000000_EDX_DEFAULT :: u32 where [cpuid_constants]: "FN00000000_EDX_DEFAULT = 0x69746e65"
definition FN00000000_EDX_RESERVED :: u32 where [cpuid_constants]: "FN00000000_EDX_RESERVED = 0x00000000"

definition FN00000001_EAX_STEPPING_SHIFT :: nat where [cpuid_constants]: "FN00000001_EAX_STEPPING_SHIFT = 0"
definition FN00000001_EAX_STEPPING_MASK :: u32 where [cpuid_constants]:
  "FN00000001_EAX_STEPPING_MASK = push_bit FN00000001_EAX_STEPPING_SHIFT 0xf"
definition FN00000001_EAX_BMODEL_SHIFT :: nat where [cpuid_constants]: "FN00000001_EAX_BMODEL_SHIFT = 4"
definition FN00000001_EAX_BMODEL_MASK :: u32 where [cpuid_constants]:
  "FN00000001_EAX_BMODEL_MASK = push_bit FN00000001_EAX_BMODEL_SHIFT 0xf"
definition FN00000001_EAX_BFAMILY_SHIFT :: nat where [cpuid_constants]: "FN00000001_EAX_BFAMILY_SHIFT = 8"
definition FN00000001_EAX_BFAMILY_MASK :: u32 where [cpuid_constants]:
  "FN00000001_EAX_BFAMILY_MASK = push_bit FN00000001_EAX_BFAMILY_SHIFT 0xf"
definition FN00000001_EAX_EMODEL_SHIFT :: nat where [cpuid_constants]: "FN00000001_EAX_EMODEL_SHIFT = 16"
definition FN00000001_EAX_EMODEL_MASK :: u32 where [cpuid_constants]:
  "FN00000001_EAX_EMODEL_MASK = push_bit FN00000001_EAX_EMODEL_SHIFT 0xf"
definition FN00000001_EAX_EFAMILY_SHIFT :: nat where [cpuid_constants]: "FN00000001_EAX_EFAMILY_SHIFT = 20"
definition FN00000001_EAX_EFAMILY_MASK :: u32 where [cpuid_constants]:
  "FN00000001_EAX_EFAMILY_MASK = push_bit FN00000001_EAX_EFAMILY_SHIFT 0xff"
definition FN00000001_EAX_RESERVED :: u32 where [cpuid_constants]: "FN00000001_EAX_RESERVED = 0xf000f000"
definition FN00000001_EBX_CFLUSH_MASK :: u32 where [cpuid_constants]: "FN00000001_EBX_CFLUSH_MASK = 0xff00"
definition FN00000001_EBX_CFLUSH_SHIFT :: nat where [cpuid_constants]: "FN00000001_EBX_CFLUSH_SHIFT = 8"
definition FN00000001_EBX_CFLUSH_EXACT :: u32 where [cpuid_constants]: "FN00000001_EBX_CFLUSH_EXACT = 8"
definition FN00000001_EBX_RESERVED :: u32 where [cpuid_constants]: "FN00000001_EBX_RESERVED = 0x000000ff"
definition FN00000001_ECX_RESHV :: u32 where [cpuid_constants]: "FN00000001_ECX_RESHV = push_bit 31 1"
definition FN00000001_ECX_RDRAND :: u32 where [cpuid_constants]: "FN00000001_ECX_RDRAND = push_bit 30 1"
definition FN00000001_ECX_F16C :: u32 where [cpuid_constants]: "FN00000001_ECX_F16C = push_bit 29 1"
definition FN00000001_ECX_AVX :: u32 where [cpuid_constants]: "FN00000001_ECX_AVX = push_bit 28 1"
definition FN00000001_ECX_OSXSAVE :: u32 where [cpuid_constants]: "FN00000001_ECX_OSXSAVE = push_bit 27 1"
definition FN00000001_ECX_XSAVE :: u32 where [cpuid_constants]: "FN00000001_ECX_XSAVE = push_bit 26 1"
definition FN00000001_ECX_AES :: u32 where [cpuid_constants]: "FN00000001_ECX_AES = push_bit 25 1"
definition FN00000001_ECX_POPCNT :: u32 where [cpuid_constants]: "FN00000001_ECX_POPCNT = push_bit 23 1"
definition FN00000001_ECX_MOVBE :: u32 where [cpuid_constants]: "FN00000001_ECX_MOVBE = push_bit 22 1"
definition FN00000001_ECX_X2APIC :: u32 where [cpuid_constants]: "FN00000001_ECX_X2APIC = push_bit 21 1"
definition FN00000001_ECX_SSE42 :: u32 where [cpuid_constants]: "FN00000001_ECX_SSE42 = push_bit 20 1"
definition FN00000001_ECX_SSE41 :: u32 where [cpuid_constants]: "FN00000001_ECX_SSE41 = push_bit 19 1"
definition FN00000001_ECX_PCID :: u32 where [cpuid_constants]: "FN00000001_ECX_PCID = push_bit 17 1"
definition FN00000001_ECX_CMPXCH16B :: u32 where [cpuid_constants]: "FN00000001_ECX_CMPXCH16B = push_bit 13 1"
definition FN00000001_ECX_FMA :: u32 where [cpuid_constants]: "FN00000001_ECX_FMA = push_bit 12 1"
definition FN00000001_ECX_SSSSE3 :: u32 where [cpuid_constants]: "FN00000001_ECX_SSSSE3 = push_bit 9 1"
definition FN00000001_ECX_MONITOR :: u32 where [cpuid_constants]: "FN00000001_ECX_MONITOR = push_bit 3 1"
definition FN00000001_ECX_PCLMULQDQ :: u32 where [cpuid_constants]: "FN00000001_ECX_PCLMULQDQ = push_bit 1 1"
definition FN00000001_ECX_SSE3 :: u32 where [cpuid_constants]: "FN00000001_ECX_SSE3 = push_bit 0 1"
definition FN00000001_ECX_RESERVED :: u32 where [cpuid_constants]: "FN00000001_ECX_RESERVED = 0x105cdf4"
definition FN00000001_ECX_DEFAULT :: u32 where [cpuid_constants]:
  "FN00000001_ECX_DEFAULT = FN00000001_ECX_RDRAND OR FN00000001_ECX_F16C OR FN00000001_ECX_AVX OR FN00000001_ECX_XSAVE OR 
     FN00000001_ECX_AES OR FN00000001_ECX_POPCNT OR FN00000001_ECX_MOVBE OR FN00000001_ECX_X2APIC OR 
     FN00000001_ECX_SSE42 OR FN00000001_ECX_SSE41 OR FN00000001_ECX_PCID OR FN00000001_ECX_CMPXCH16B OR 
     FN00000001_ECX_FMA OR FN00000001_ECX_SSSSE3 OR FN00000001_ECX_MONITOR OR 
     FN00000001_ECX_PCLMULQDQ OR FN00000001_ECX_SSE3"
definition FN00000001_EDX_HTT :: u32 where [cpuid_constants]: "FN00000001_EDX_HTT = push_bit 28 1"
definition FN00000001_EDX_SSE2 :: u32 where [cpuid_constants]: "FN00000001_EDX_SSE2 = push_bit 26 1"
definition FN00000001_EDX_SSE3 :: u32 where [cpuid_constants]: "FN00000001_EDX_SSE3 = push_bit 25 1"
definition FN00000001_EDX_FXSR :: u32 where [cpuid_constants]: "FN00000001_EDX_FXSR = push_bit 24 1"
definition FN00000001_EDX_MMX :: u32 where [cpuid_constants]: "FN00000001_EDX_MMX = push_bit 23 1"
definition FN00000001_EDX_CLFSH :: u32 where [cpuid_constants]: "FN00000001_EDX_CLFSH = push_bit 19 1"
definition FN00000001_EDX_PSE36 :: u32 where [cpuid_constants]: "FN00000001_EDX_PSE36 = push_bit 17 1"
definition FN00000001_EDX_PAT :: u32 where [cpuid_constants]: "FN00000001_EDX_PAT = push_bit 16 1"
definition FN00000001_EDX_CMOV :: u32 where [cpuid_constants]: "FN00000001_EDX_CMOV = push_bit 15 1"
definition FN00000001_EDX_MCA :: u32 where [cpuid_constants]: "FN00000001_EDX_MCA = push_bit 14 1"
definition FN00000001_EDX_PGE :: u32 where [cpuid_constants]: "FN00000001_EDX_PGE = push_bit 13 1"
definition FN00000001_EDX_MTRR :: u32 where [cpuid_constants]: "FN00000001_EDX_MTRR = push_bit 12 1"
definition FN00000001_EDX_SYSENTEXIT :: u32 where [cpuid_constants]: "FN00000001_EDX_SYSENTEXIT = push_bit 11 1"
definition FN00000001_EDX_APIC :: u32 where [cpuid_constants]: "FN00000001_EDX_APIC = push_bit 9 1"
definition FN00000001_EDX_CMPXCHG8B :: u32 where [cpuid_constants]: "FN00000001_EDX_CMPXCHG8B = push_bit 8 1"
definition FN00000001_EDX_MCE :: u32 where [cpuid_constants]: "FN00000001_EDX_MCE = push_bit 7 1"
definition FN00000001_EDX_PAE :: u32 where [cpuid_constants]: "FN00000001_EDX_PAE = push_bit 6 1"
definition FN00000001_EDX_MSR :: u32 where [cpuid_constants]: "FN00000001_EDX_MSR = push_bit 5 1"
definition FN00000001_EDX_TSC :: u32 where [cpuid_constants]: "FN00000001_EDX_TSC = push_bit 4 1"
definition FN00000001_EDX_PSE :: u32 where [cpuid_constants]: "FN00000001_EDX_PSE = push_bit 3 1"
definition FN00000001_EDX_DE :: u32 where [cpuid_constants]: "FN00000001_EDX_DE = push_bit 2 1"
definition FN00000001_EDX_VME :: u32 where [cpuid_constants]: "FN00000001_EDX_VME = push_bit 1 1"
definition FN00000001_EDX_FPU :: u32 where [cpuid_constants]: "FN00000001_EDX_FPU = push_bit 0 1"
definition FN00000001_EDX_RESERVED :: u32 where [cpuid_constants]: "FN00000001_EDX_RESERVED = 0xe8740400"
definition FN00000001_EDX_DEFAULT :: u32 where [cpuid_constants]:
  "FN00000001_EDX_DEFAULT = FN00000001_EDX_HTT OR FN00000001_EDX_HTT OR FN00000001_EDX_SSE2 OR FN00000001_EDX_SSE3 OR 
     FN00000001_EDX_FXSR OR FN00000001_EDX_MMX OR FN00000001_EDX_CLFSH OR FN00000001_EDX_PSE36 OR 
     FN00000001_EDX_PAT OR FN00000001_EDX_CMOV OR FN00000001_EDX_MCA OR FN00000001_EDX_PGE OR 
     FN00000001_EDX_MTRR OR FN00000001_EDX_SYSENTEXIT OR FN00000001_EDX_APIC OR 
     FN00000001_EDX_CMPXCHG8B OR FN00000001_EDX_MCE OR FN00000001_EDX_PAE OR FN00000001_EDX_MSR OR 
     FN00000001_EDX_TSC OR FN00000001_EDX_PSE OR FN00000001_EDX_DE OR FN00000001_EDX_VME OR 
     FN00000001_EDX_FPU"

definition FN00000005_EAX_DEFAULT :: u32 where [cpuid_constants]: "FN00000005_EAX_DEFAULT = 0x00000040"
definition FN00000005_EAX_RESERVED :: u32 where [cpuid_constants]: "FN00000005_EAX_RESERVED = 0xffff0000"
definition FN00000005_EBX_DEFAULT :: u32 where [cpuid_constants]: "FN00000005_EBX_DEFAULT = 0x00000040"
definition FN00000005_EBX_RESERVED :: u32 where [cpuid_constants]: "FN00000005_EBX_RESERVED = 0xffff0000"
definition FN00000005_ECX_DEFAULT :: u32 where [cpuid_constants]: "FN00000005_ECX_DEFAULT = 0x00000003"
definition FN00000005_ECX_RESERVED :: u32 where [cpuid_constants]: "FN00000005_ECX_RESERVED = 0xfffffffc"
definition FN00000005_EDX_DEFAULT :: u32 where [cpuid_constants]: "FN00000005_EDX_DEFAULT = 0x00000011"
definition FN00000005_EDX_RESERVED :: u32 where [cpuid_constants]: "FN00000005_EDX_RESERVED = 0xffffff00"

definition FN00000006_EAX_DEFAULT :: u32 where [cpuid_constants]: "FN00000006_EAX_DEFAULT = 0x00000004"
definition FN00000006_EAX_RESERVED :: u32 where [cpuid_constants]: "FN00000006_EAX_RESERVED = 0xfffffffb"
definition FN00000006_EBX_DEFAULT :: u32 where [cpuid_constants]: "FN00000006_EBX_DEFAULT = 0x00000000"
definition FN00000006_EBX_RESERVED :: u32 where [cpuid_constants]: "FN00000006_EBX_RESERVED = 0xffffffff"
definition FN00000006_ECX_DEFAULT :: u32 where [cpuid_constants]: "FN00000006_ECX_DEFAULT = 0x00000001"
definition FN00000006_ECX_RESERVED :: u32 where [cpuid_constants]: "FN00000006_ECX_RESERVED = 0xfffffffe"
definition FN00000006_EDX_DEFAULT :: u32 where [cpuid_constants]: "FN00000006_EDX_DEFAULT = 0x00000000"
definition FN00000006_EDX_RESERVED :: u32 where [cpuid_constants]: "FN00000006_EDX_RESERVED = 0xffffffff"

definition FN00000007_x00_EAX_DEFAULT :: u32 where [cpuid_constants]: "FN00000007_x00_EAX_DEFAULT = 0x00000001"
definition FN00000007_x00_EAX_RESERVED :: u32 where [cpuid_constants]: "FN00000007_x00_EAX_RESERVED = 0x00000000"
definition FN00000007_x00_EBX_AVX512VL :: u32 where [cpuid_constants]:
  "FN00000007_x00_EBX_AVX512VL = push_bit 31 1"
definition FN00000007_x00_EBX_AVX512BW :: u32 where [cpuid_constants]:
  "FN00000007_x00_EBX_AVX512BW = push_bit 30 1"
definition FN00000007_x00_EBX_SHA :: u32 where [cpuid_constants]: "FN00000007_x00_EBX_SHA = push_bit 29 1"
definition FN00000007_x00_EBX_AVX512CD :: u32 where [cpuid_constants]:
  "FN00000007_x00_EBX_AVX512CD = push_bit 28 1"
definition FN00000007_x00_EBX_CLWB :: u32 where [cpuid_constants]: "FN00000007_x00_EBX_CLWB = push_bit 24 1"
definition FN00000007_x00_EBX_CLFSHOPT :: u32 where [cpuid_constants]:
  "FN00000007_x00_EBX_CLFSHOPT = push_bit 23 1"
definition FN00000007_x00_EBX_PCOMMIT :: u32 where [cpuid_constants]: "FN00000007_x00_EBX_PCOMMIT = push_bit 22 0"
definition FN00000007_x00_EBX_AVX512_IFMA :: u32 where [cpuid_constants]:
  "FN00000007_x00_EBX_AVX512_IFMA = push_bit 21 1"
definition FN00000007_x00_EBX_SMAP :: u32 where [cpuid_constants]: "FN00000007_x00_EBX_SMAP = push_bit 20 1"
definition FN00000007_x00_EBX_ADX :: u32 where [cpuid_constants]: "FN00000007_x00_EBX_ADX = push_bit 19 1"
definition FN00000007_x00_EBX_RDSEED :: u32 where [cpuid_constants]: "FN00000007_x00_EBX_RDSEED = push_bit 18 1"
definition FN00000007_x00_EBX_AVX512DQ :: u32 where [cpuid_constants]:
  "FN00000007_x00_EBX_AVX512DQ = push_bit 17 1"
definition FN00000007_x00_EBX_AVX512F :: u32 where [cpuid_constants]: "FN00000007_x00_EBX_AVX512F = push_bit 16 1"
definition FN00000007_x00_EBX_PQE :: u32 where [cpuid_constants]: "FN00000007_x00_EBX_PQE = push_bit 15 1"
definition FN00000007_x00_EBX_PQM :: u32 where [cpuid_constants]: "FN00000007_x00_EBX_PQM = push_bit 12 1"
definition FN00000007_x00_EBX_INVPCID :: u32 where [cpuid_constants]: "FN00000007_x00_EBX_INVPCID = push_bit 10 1"
definition FN00000007_x00_EBX_ERMS :: u32 where [cpuid_constants]: "FN00000007_x00_EBX_ERMS = push_bit 9 1"
definition FN00000007_x00_EBX_BMI2 :: u32 where [cpuid_constants]: "FN00000007_x00_EBX_BMI2 = push_bit 8 1"
definition FN00000007_x00_EBX_SMEP :: u32 where [cpuid_constants]: "FN00000007_x00_EBX_SMEP = push_bit 7 1"
definition FN00000007_x00_EBX_AVX2 :: u32 where [cpuid_constants]: "FN00000007_x00_EBX_AVX2 = push_bit 5 1"
definition FN00000007_x00_EBX_HLE :: u32 where [cpuid_constants]: "FN00000007_x00_EBX_HLE = push_bit 4 0"
definition FN00000007_x00_EBX_BMII :: u32 where [cpuid_constants]: "FN00000007_x00_EBX_BMII = push_bit 3 1"
definition FN00000007_x00_EBX_FSGSBASE :: u32 where [cpuid_constants]: "FN00000007_x00_EBX_FSGSBASE = push_bit 0 1"
definition FN00000007_x00_EBX_RESERVED :: u32 where [cpuid_constants]: "FN00000007_x00_EBX_RESERVED = 0xe006846"
definition FN00000007_x00_EBX_DEFAULT :: u32 where [cpuid_constants]:
  "FN00000007_x00_EBX_DEFAULT = FN00000007_x00_EBX_AVX512VL OR FN00000007_x00_EBX_AVX512BW OR FN00000007_x00_EBX_SHA OR 
     FN00000007_x00_EBX_AVX512CD OR FN00000007_x00_EBX_CLWB OR FN00000007_x00_EBX_CLFSHOPT OR 
     FN00000007_x00_EBX_PCOMMIT OR FN00000007_x00_EBX_AVX512_IFMA OR FN00000007_x00_EBX_SMAP OR 
     FN00000007_x00_EBX_ADX OR FN00000007_x00_EBX_RDSEED OR FN00000007_x00_EBX_AVX512DQ OR 
     FN00000007_x00_EBX_AVX512F OR FN00000007_x00_EBX_PQE OR FN00000007_x00_EBX_PQM OR 
     FN00000007_x00_EBX_INVPCID OR FN00000007_x00_EBX_ERMS OR FN00000007_x00_EBX_BMI2 OR 
     FN00000007_x00_EBX_SMEP OR FN00000007_x00_EBX_AVX2 OR FN00000007_x00_EBX_HLE OR 
     FN00000007_x00_EBX_BMII OR FN00000007_x00_EBX_FSGSBASE"
definition FN00000007_x00_ECX_RDPID :: u32 where [cpuid_constants]: "FN00000007_x00_ECX_RDPID = push_bit 22 1"
definition FN00000007_x00_ECX_LA57 :: u32 where [cpuid_constants]: "FN00000007_x00_ECX_LA57 = push_bit 16 1"
definition FN00000007_x00_ECX_AVX512_VPOP :: u32 where [cpuid_constants]:
  "FN00000007_x00_ECX_AVX512_VPOP = push_bit 14 1"
definition FN00000007_x00_ECX_AVX512_BITALG :: u32 where [cpuid_constants]:
  "FN00000007_x00_ECX_AVX512_BITALG = push_bit 12 1"
definition FN00000007_x00_ECX_AVX512_VNNI :: u32 where [cpuid_constants]:
  "FN00000007_x00_ECX_AVX512_VNNI = push_bit 11 1"
definition FN00000007_x00_ECX_VPCLMULQDQ :: u32 where [cpuid_constants]:
  "FN00000007_x00_ECX_VPCLMULQDQ = push_bit 10 1"
definition FN00000007_x00_ECX_VAES_256 :: u32 where [cpuid_constants]: "FN00000007_x00_ECX_VAES_256 = push_bit 9 1"
definition FN00000007_x00_ECX_GFNI :: u32 where [cpuid_constants]: "FN00000007_x00_ECX_GFNI = push_bit 8 1"
definition FN00000007_x00_ECX_CET_SS :: u32 where [cpuid_constants]: "FN00000007_x00_ECX_CET_SS = push_bit 7 1"
definition FN00000007_x00_ECX_AVX512_VBMI2 :: u32 where [cpuid_constants]:
  "FN00000007_x00_ECX_AVX512_VBMI2 = push_bit 6 1"
definition FN00000007_x00_ECX_OSPKE :: u32 where [cpuid_constants]: "FN00000007_x00_ECX_OSPKE = push_bit 4 1"
definition FN00000007_x00_ECX_PKU :: u32 where [cpuid_constants]: "FN00000007_x00_ECX_PKU = push_bit 3 1"
definition FN00000007_x00_ECX_UMIP :: u32 where [cpuid_constants]: "FN00000007_x00_ECX_UMIP = push_bit 2 1"
definition FN00000007_x00_ECX_AVX512_VBMI :: u32 where [cpuid_constants]:
  "FN00000007_x00_ECX_AVX512_VBMI = push_bit 1 1"
definition FN00000007_x00_ECX_RESERVED :: u32 where [cpuid_constants]: "FN00000007_x00_ECX_RESERVED = 0xffbea021"
definition FN00000007_x00_ECX_DEFAULT :: u32 where [cpuid_constants]:
  "FN00000007_x00_ECX_DEFAULT = FN00000007_x00_ECX_RDPID OR FN00000007_x00_ECX_LA57 OR FN00000007_x00_ECX_AVX512_VPOP OR 
     FN00000007_x00_ECX_AVX512_BITALG OR FN00000007_x00_ECX_AVX512_VNNI OR 
     FN00000007_x00_ECX_VPCLMULQDQ OR FN00000007_x00_ECX_VAES_256 OR FN00000007_x00_ECX_GFNI OR 
     FN00000007_x00_ECX_CET_SS OR FN00000007_x00_ECX_AVX512_VBMI2 OR FN00000007_x00_ECX_PKU OR 
     FN00000007_x00_ECX_UMIP OR FN00000007_x00_ECX_AVX512_VBMI"
definition FN00000007_x00_EDX_DEFAULT :: u32 where [cpuid_constants]: "FN00000007_x00_EDX_DEFAULT = 0x10000010"
definition FN00000007_x00_EDX_RESERVED :: u32 where [cpuid_constants]: "FN00000007_x00_EDX_RESERVED = 0xefffffef"
definition FN00000007_x01_EAX_AVX512_BF16 :: u32 where [cpuid_constants]:
  "FN00000007_x01_EAX_AVX512_BF16 = push_bit 5 1"
definition FN00000007_x01_EAX_DEFAULT :: u32 where [cpuid_constants]:
  "FN00000007_x01_EAX_DEFAULT = FN00000007_x01_EAX_AVX512_BF16"
definition FN00000007_x01_EAX_RESERVED :: u32 where [cpuid_constants]:
  "FN00000007_x01_EAX_RESERVED = NOT FN00000007_x01_EAX_DEFAULT"
definition FN00000007_x01_EBX_DEFAULT :: u32 where [cpuid_constants]: "FN00000007_x01_EBX_DEFAULT = 0"
definition FN00000007_x01_EBX_RESERVED :: u32 where [cpuid_constants]:
  "FN00000007_x01_EBX_RESERVED = NOT FN00000007_x01_EBX_DEFAULT"
definition FN00000007_x01_ECX_DEFAULT :: u32 where [cpuid_constants]: "FN00000007_x01_ECX_DEFAULT = 0"
definition FN00000007_x01_ECX_RESERVED :: u32 where [cpuid_constants]:
  "FN00000007_x01_ECX_RESERVED = NOT FN00000007_x01_ECX_DEFAULT"
definition FN00000007_x01_EDX_DEFAULT :: u32 where [cpuid_constants]: "FN00000007_x01_EDX_DEFAULT = 0"
definition FN00000007_x01_EDX_RESERVED :: u32 where [cpuid_constants]:
  "FN00000007_x01_EDX_RESERVED = NOT FN00000007_x01_ECX_DEFAULT"

definition FN0000000B_x00_EAX_DEFAULT :: u32 where [cpuid_constants]: "FN0000000B_x00_EAX_DEFAULT = 0x00000001"
definition FN0000000B_x00_EAX_RESERVED :: u32 where [cpuid_constants]: "FN0000000B_x00_EAX_RESERVED = 0xffffffe0"
definition FN0000000B_x00_EBX_DEFAULT :: u32 where [cpuid_constants]: "FN0000000B_x00_EBX_DEFAULT = 0x00000003"
definition FN0000000B_x00_EBX_RESERVED :: u32 where [cpuid_constants]: "FN0000000B_x00_EBX_RESERVED = 0xffff0000"
definition FN0000000B_x00_ECX_DEFAULT :: u32 where [cpuid_constants]: "FN0000000B_x00_ECX_DEFAULT = 0x00000100"
definition FN0000000B_x00_ECX_RESERVED :: u32 where [cpuid_constants]: "FN0000000B_x00_ECX_RESERVED = 0xffff0000"
definition FN0000000B_EDX_DEFAULT :: u32 where [cpuid_constants]: "FN0000000B_EDX_DEFAULT = 0xffffffff"
definition FN0000000B_EDX_RESERVED :: u32 where [cpuid_constants]: "FN0000000B_EDX_RESERVED = 0x00000000"
definition FN0000000B_x01_EAX_DEFAULT :: u32 where [cpuid_constants]: "FN0000000B_x01_EAX_DEFAULT = 0x00000007"
definition FN0000000B_x01_EAX_RESERVED :: u32 where [cpuid_constants]: "FN0000000B_x01_EAX_RESERVED = 0xffffffe0"
definition FN0000000B_x01_EBX_DEFAULT :: u32 where [cpuid_constants]: "FN0000000B_x01_EBX_DEFAULT = 0x000000ff"
definition FN0000000B_x01_EBX_RESERVED :: u32 where [cpuid_constants]: "FN0000000B_x01_EBX_RESERVED = 0xffff0000"
definition FN0000000B_x01_ECX_DEFAULT :: u32 where [cpuid_constants]: "FN0000000B_x01_ECX_DEFAULT = 0x00000201"
definition FN0000000B_x01_ECX_RESERVED :: u32 where [cpuid_constants]: "FN0000000B_x01_ECX_RESERVED = 0xffff0000"
definition FN0000000B_x02_EAX_DEFAULT :: u32 where [cpuid_constants]: "FN0000000B_x02_EAX_DEFAULT = 0x00000000"
definition FN0000000B_x02_EAX_RESERVED :: u32 where [cpuid_constants]: "FN0000000B_x02_EAX_RESERVED = 0xffffffe0"
definition FN0000000B_x02_EBX_DEFAULT :: u32 where [cpuid_constants]: "FN0000000B_x02_EBX_DEFAULT = 0x00000000"
definition FN0000000B_x02_EBX_RESERVED :: u32 where [cpuid_constants]: "FN0000000B_x02_EBX_RESERVED = 0xffff0000"
definition FN0000000B_x02_ECX_DEFAULT :: u32 where [cpuid_constants]: "FN0000000B_x02_ECX_DEFAULT = 0x00000002"
definition FN0000000B_x02_ECX_RESERVED :: u32 where [cpuid_constants]: "FN0000000B_x02_ECX_RESERVED = 0xffff0000"

definition FN0000000D_x00_EAX_MPK :: u32 where [cpuid_constants]: "FN0000000D_x00_EAX_MPK = push_bit 9 1"
definition FN0000000D_x00_EAX_HIZMM :: u32 where [cpuid_constants]: "FN0000000D_x00_EAX_HIZMM = push_bit 7 1"
definition FN0000000D_x00_EAX_ZMMHI :: u32 where [cpuid_constants]: "FN0000000D_x00_EAX_ZMMHI = push_bit 6 1"
definition FN0000000D_x00_EAX_KREGS :: u32 where [cpuid_constants]: "FN0000000D_x00_EAX_KREGS = push_bit 5 1"
definition FN0000000D_x00_EAX_AVX :: u32 where [cpuid_constants]: "FN0000000D_x00_EAX_AVX = push_bit 2 1"
definition FN0000000D_x00_EAX_SSE :: u32 where [cpuid_constants]: "FN0000000D_x00_EAX_SSE = push_bit 1 1"
definition FN0000000D_x00_EAX_X87 :: u32 where [cpuid_constants]: "FN0000000D_x00_EAX_X87 = push_bit 0 1"
definition FN0000000D_x00_EAX_RESERVED :: u32 where [cpuid_constants]: "FN0000000D_x00_EAX_RESERVED = 0xfffffd18"
definition FN0000000D_x00_EAX_DEFAULT :: u32 where [cpuid_constants]:
  "FN0000000D_x00_EAX_DEFAULT = FN0000000D_x00_EAX_MPK OR FN0000000D_x00_EAX_HIZMM OR FN0000000D_x00_EAX_ZMMHI OR 
     FN0000000D_x00_EAX_KREGS OR FN0000000D_x00_EAX_AVX OR FN0000000D_x00_EAX_SSE OR 
     FN0000000D_x00_EAX_X87"
definition FN0000000D_x00_EBX_RESERVED :: u32 where [cpuid_constants]: "FN0000000D_x00_EBX_RESERVED = 0x00000000"
definition FN0000000D_x00_ECX_RESERVED :: u32 where [cpuid_constants]: "FN0000000D_x00_ECX_RESERVED = 0x00000000"
definition FN0000000D_x00_EDX_DEFAULT :: u32 where [cpuid_constants]: "FN0000000D_x00_EDX_DEFAULT = 0x00000000"
definition FN0000000D_x00_EDX_RESERVED :: u32 where [cpuid_constants]: "FN0000000D_x00_EDX_RESERVED = 0x00000000"
definition FN0000000D_x01_EAX_XSAVES :: u32 where [cpuid_constants]: "FN0000000D_x01_EAX_XSAVES = push_bit 3 1"
definition FN0000000D_x01_EAX_XGETBV :: u32 where [cpuid_constants]: "FN0000000D_x01_EAX_XGETBV = push_bit 2 1"
definition FN0000000D_x01_EAX_XSAVEC :: u32 where [cpuid_constants]: "FN0000000D_x01_EAX_XSAVEC = push_bit 1 1"
definition FN0000000D_x01_EAX_XSAVEOPT :: u32 where [cpuid_constants]: "FN0000000D_x01_EAX_XSAVEOPT = push_bit 0 1"
definition FN0000000D_x01_EAX_RESERVED :: u32 where [cpuid_constants]: "FN0000000D_x01_EAX_RESERVED = 0xfffffff0"
definition FN0000000D_x01_EAX_DEFAULT :: u32 where [cpuid_constants]:
  "FN0000000D_x01_EAX_DEFAULT = FN0000000D_x01_EAX_XSAVES OR FN0000000D_x01_EAX_XGETBV OR FN0000000D_x01_EAX_XSAVEC OR 
     FN0000000D_x01_EAX_XSAVEOPT"
definition FN0000000D_x01_EBX_RESERVED :: u32 where [cpuid_constants]: "FN0000000D_x01_EBX_RESERVED = 0x00000000"
definition FN0000000D_x01_ECX_DEFAULT :: u32 where [cpuid_constants]: "FN0000000D_x01_ECX_DEFAULT = 0x00001800"
definition FN0000000D_x01_ECX_RESERVED :: u32 where [cpuid_constants]: "FN0000000D_x01_ECX_RESERVED = 0x00000000"
definition FN0000000D_x01_EDX_DEFAULT :: u32 where [cpuid_constants]: "FN0000000D_x01_EDX_DEFAULT = 0x00000000"
definition FN0000000D_x01_EDX_RESERVED :: u32 where [cpuid_constants]: "FN0000000D_x01_EDX_RESERVED = 0x00000000"
definition FN0000000D_x02_EAX_DEFAULT :: u32 where [cpuid_constants]: "FN0000000D_x02_EAX_DEFAULT = 0x00000100"
definition FN0000000D_x02_EAX_RESERVED :: u32 where [cpuid_constants]: "FN0000000D_x02_EAX_RESERVED = 0x00000000"
definition FN0000000D_x02_EBX_DEFAULT :: u32 where [cpuid_constants]: "FN0000000D_x02_EBX_DEFAULT = 0x00000240"
definition FN0000000D_x02_EBX_RESERVED :: u32 where [cpuid_constants]: "FN0000000D_x02_EBX_RESERVED = 0x00000000"
definition FN0000000D_x02_ECX_DEFAULT :: u32 where [cpuid_constants]: "FN0000000D_x02_ECX_DEFAULT = 0x00000000"
definition FN0000000D_x02_ECX_RESERVED :: u32 where [cpuid_constants]: "FN0000000D_x02_ECX_RESERVED = 0xfffffffc"
definition FN0000000D_x02_EDX_DEFAULT :: u32 where [cpuid_constants]: "FN0000000D_x02_EDX_DEFAULT = 0x00000000"
definition FN0000000D_x02_EDX_RESERVED :: u32 where [cpuid_constants]: "FN0000000D_x02_EDX_RESERVED = 0xffffffff"
definition FN0000000D_x05_EAX_DEFAULT :: u32 where [cpuid_constants]: "FN0000000D_x05_EAX_DEFAULT = 0x00000040"
definition FN0000000D_x05_EAX_RESERVED :: u32 where [cpuid_constants]: "FN0000000D_x05_EAX_RESERVED = 0x00000000"
definition FN0000000D_x05_EBX_DEFAULT :: u32 where [cpuid_constants]: "FN0000000D_x05_EBX_DEFAULT = 0x00000340"
definition FN0000000D_x05_EBX_RESERVED :: u32 where [cpuid_constants]: "FN0000000D_x05_EBX_RESERVED = 0x00000000"
definition FN0000000D_x05_ECX_DEFAULT :: u32 where [cpuid_constants]: "FN0000000D_x05_ECX_DEFAULT = 0x00000003"
definition FN0000000D_x05_ECX_RESERVED :: u32 where [cpuid_constants]:
  "FN0000000D_x05_ECX_RESERVED = NOT FN0000000D_x05_ECX_DEFAULT"
definition FN0000000D_x05_EDX_DEFAULT :: u32 where [cpuid_constants]: "FN0000000D_x05_EDX_DEFAULT = 0x00000000"
definition FN0000000D_x05_EDX_RESERVED :: u32 where [cpuid_constants]: "FN0000000D_x05_EDX_RESERVED = 0xffffffff"
definition FN0000000D_x06_EAX_DEFAULT :: u32 where [cpuid_constants]: "FN0000000D_x06_EAX_DEFAULT = 0x00000200"
definition FN0000000D_x06_EAX_RESERVED :: u32 where [cpuid_constants]: "FN0000000D_x06_EAX_RESERVED = 0x00000000"
definition FN0000000D_x06_EBX_DEFAULT :: u32 where [cpuid_constants]: "FN0000000D_x06_EBX_DEFAULT = 0x00000380"
definition FN0000000D_x06_EBX_RESERVED :: u32 where [cpuid_constants]: "FN0000000D_x06_EBX_RESERVED = 0x00000000"
definition FN0000000D_x06_ECX_DEFAULT :: u32 where [cpuid_constants]: "FN0000000D_x06_ECX_DEFAULT = 0x00000003"
definition FN0000000D_x06_ECX_RESERVED :: u32 where [cpuid_constants]:
  "FN0000000D_x06_ECX_RESERVED = NOT FN0000000D_x06_ECX_DEFAULT"
definition FN0000000D_x06_EDX_DEFAULT :: u32 where [cpuid_constants]: "FN0000000D_x06_EDX_DEFAULT = 0x00000000"
definition FN0000000D_x06_EDX_RESERVED :: u32 where [cpuid_constants]: "FN0000000D_x06_EDX_RESERVED = 0xffffffff"
definition FN0000000D_x07_EAX_DEFAULT :: u32 where [cpuid_constants]: "FN0000000D_x07_EAX_DEFAULT = 0x00000400"
definition FN0000000D_x07_EAX_RESERVED :: u32 where [cpuid_constants]: "FN0000000D_x07_EAX_RESERVED = 0x00000000"
definition FN0000000D_x07_EBX_DEFAULT :: u32 where [cpuid_constants]: "FN0000000D_x07_EBX_DEFAULT = 0x00000580"
definition FN0000000D_x07_EBX_RESERVED :: u32 where [cpuid_constants]: "FN0000000D_x07_EBX_RESERVED = 0x00000000"
definition FN0000000D_x07_ECX_DEFAULT :: u32 where [cpuid_constants]: "FN0000000D_x07_ECX_DEFAULT = 0x00000003"
definition FN0000000D_x07_ECX_RESERVED :: u32 where [cpuid_constants]:
  "FN0000000D_x07_ECX_RESERVED = NOT FN0000000D_x07_ECX_DEFAULT"
definition FN0000000D_x07_EDX_DEFAULT :: u32 where [cpuid_constants]: "FN0000000D_x07_EDX_DEFAULT = 0x00000000"
definition FN0000000D_x07_EDX_RESERVED :: u32 where [cpuid_constants]: "FN0000000D_x07_EDX_RESERVED = 0xffffffff"
definition FN0000000D_x09_EAX_DEFAULT :: u32 where [cpuid_constants]: "FN0000000D_x09_EAX_DEFAULT = 0x00000008"
definition FN0000000D_x09_EAX_RESERVED :: u32 where [cpuid_constants]: "FN0000000D_x09_EAX_RESERVED = 0x00000000"
definition FN0000000D_x09_EBX_DEFAULT :: u32 where [cpuid_constants]: "FN0000000D_x09_EBX_DEFAULT = 0x00000980"
definition FN0000000D_x09_EBX_RESERVED :: u32 where [cpuid_constants]: "FN0000000D_x09_EBX_RESERVED = 0x00000000"
definition FN0000000D_x09_ECX_DEFAULT :: u32 where [cpuid_constants]: "FN0000000D_x09_ECX_DEFAULT = 0x00000000"
definition FN0000000D_x09_ECX_RESERVED :: u32 where [cpuid_constants]: "FN0000000D_x09_ECX_RESERVED = 0xfffffffc"
definition FN0000000D_x09_EDX_DEFAULT :: u32 where [cpuid_constants]: "FN0000000D_x09_EDX_DEFAULT = 0x00000000"
definition FN0000000D_x09_EDX_RESERVED :: u32 where [cpuid_constants]: "FN0000000D_x09_EDX_RESERVED = 0xffffffff"
definition FN0000000D_x0B_EAX_DEFAULT :: u32 where [cpuid_constants]: "FN0000000D_x0B_EAX_DEFAULT = 0x00000010"
definition FN0000000D_x0B_EAX_RESERVED :: u32 where [cpuid_constants]: "FN0000000D_x0B_EAX_RESERVED = 0x00000000"
definition FN0000000D_x0B_EBX_DEFAULT :: u32 where [cpuid_constants]: "FN0000000D_x0B_EBX_DEFAULT = 0x00000000"
definition FN0000000D_x0B_EBX_RESERVED :: u32 where [cpuid_constants]: "FN0000000D_x0B_EBX_RESERVED = 0x00000000"
definition FN0000000D_x0B_ECX_DEFAULT :: u32 where [cpuid_constants]: "FN0000000D_x0B_ECX_DEFAULT = 0x00000001"
definition FN0000000D_x0B_ECX_RESERVED :: u32 where [cpuid_constants]: "FN0000000D_x0B_ECX_RESERVED = 0xfffffffc"
definition FN0000000D_x0B_EDX_DEFAULT :: u32 where [cpuid_constants]: "FN0000000D_x0B_EDX_DEFAULT = 0x00000000"
definition FN0000000D_x0B_EDX_RESERVED :: u32 where [cpuid_constants]: "FN0000000D_x0B_EDX_RESERVED = 0xffffffff"
definition FN0000000D_x0C_EAX_DEFAULT :: u32 where [cpuid_constants]: "FN0000000D_x0C_EAX_DEFAULT = 0x00000018"
definition FN0000000D_x0C_EAX_RESERVED :: u32 where [cpuid_constants]: "FN0000000D_x0C_EAX_RESERVED = 0x00000000"
definition FN0000000D_x0C_EBX_DEFAULT :: u32 where [cpuid_constants]: "FN0000000D_x0C_EBX_DEFAULT = 0x00000000"
definition FN0000000D_x0C_EBX_RESERVED :: u32 where [cpuid_constants]: "FN0000000D_x0C_EBX_RESERVED = 0x00000000"
definition FN0000000D_x0C_ECX_DEFAULT :: u32 where [cpuid_constants]: "FN0000000D_x0C_ECX_DEFAULT = 0x00000001"
definition FN0000000D_x0C_ECX_RESERVED :: u32 where [cpuid_constants]: "FN0000000D_x0C_ECX_RESERVED = 0xfffffffc"
definition FN0000000D_x0C_EDX_DEFAULT :: u32 where [cpuid_constants]: "FN0000000D_x0C_EDX_DEFAULT = 0x00000000"
definition FN0000000D_x0C_EDX_RESERVED :: u32 where [cpuid_constants]: "FN0000000D_x0C_EDX_RESERVED = 0xffffffff"

definition FN0000000F_x00_EAX_DEFAULT :: u32 where [cpuid_constants]: "FN0000000F_x00_EAX_DEFAULT = 0x00000000"
definition FN0000000F_x00_EAX_RESERVED :: u32 where [cpuid_constants]: "FN0000000F_x00_EAX_RESERVED = 0xffffffff"
definition FN0000000F_x00_EBX_DEFAULT :: u32 where [cpuid_constants]: "FN0000000F_x00_EBX_DEFAULT = 0x000000ff"
definition FN0000000F_x00_EBX_RESERVED :: u32 where [cpuid_constants]: "FN0000000F_x00_EBX_RESERVED = 0x00000000"
definition FN0000000F_x00_ECX_DEFAULT :: u32 where [cpuid_constants]: "FN0000000F_x00_ECX_DEFAULT = 0x00000000"
definition FN0000000F_x00_ECX_RESERVED :: u32 where [cpuid_constants]: "FN0000000F_x00_ECX_RESERVED = 0xffffffff"
definition FN0000000F_x00_EDX_DEFAULT :: u32 where [cpuid_constants]: "FN0000000F_x00_EDX_DEFAULT = 0x00000002"
definition FN0000000F_x00_EDX_RESERVED :: u32 where [cpuid_constants]: "FN0000000F_x00_EDX_RESERVED = 0xfffffffd"
definition FN0000000F_x01_EAX_DEFAULT :: u32 where [cpuid_constants]: "FN0000000F_x01_EAX_DEFAULT = 0x00000000"
definition FN0000000F_x01_EAX_RESERVED :: u32 where [cpuid_constants]: "FN0000000F_x01_EAX_RESERVED = 0xfffffe00"
definition FN0000000F_x01_EBX_DEFAULT :: u32 where [cpuid_constants]: "FN0000000F_x01_EBX_DEFAULT = 0x00000040"
definition FN0000000F_x01_EBX_RESERVED :: u32 where [cpuid_constants]: "FN0000000F_x01_EBX_RESERVED = 0x00000000"
definition FN0000000F_x01_ECX_DEFAULT :: u32 where [cpuid_constants]: "FN0000000F_x01_ECX_DEFAULT = 0x000000ff"
definition FN0000000F_x01_ECX_RESERVED :: u32 where [cpuid_constants]: "FN0000000F_x01_ECX_RESERVED = 0x00000000"
definition FN0000000F_x01_EDX_L3CACHELOCALBNDWDTHMON :: u32 where [cpuid_constants]:
  "FN0000000F_x01_EDX_L3CACHELOCALBNDWDTHMON = push_bit 2 1"
definition FN0000000F_x01_EDX_L3CACHETOTALBNDWDTHMON :: u32 where [cpuid_constants]:
  "FN0000000F_x01_EDX_L3CACHETOTALBNDWDTHMON = push_bit 1 1"
definition FN0000000F_x01_EDX_L3CACHEOCCUPNCYMON :: u32 where [cpuid_constants]:
  "FN0000000F_x01_EDX_L3CACHEOCCUPNCYMON = push_bit 0 1"
definition FN0000000F_x01_EDX_RESERVED :: u32 where [cpuid_constants]: "FN0000000F_x01_EDX_RESERVED = 0xfffffff8"
definition FN0000000F_x01_EDX_DEFAULT :: u32 where [cpuid_constants]:
  "FN0000000F_x01_EDX_DEFAULT = FN0000000F_x01_EDX_L3CACHELOCALBNDWDTHMON OR FN0000000F_x01_EDX_L3CACHETOTALBNDWDTHMON OR 
     FN0000000F_x01_EDX_L3CACHEOCCUPNCYMON"

definition FN00000010_x00_EAX_DEFAULT :: u32 where [cpuid_constants]: "FN00000010_x00_EAX_DEFAULT = 0x00000000"
definition FN00000010_x00_EAX_RESERVED :: u32 where [cpuid_constants]: "FN00000010_x00_EAX_RESERVED = 0xffffffff"
definition FN00000010_x00_EBX_DEFAULT :: u32 where [cpuid_constants]: "FN00000010_x00_EBX_DEFAULT = 0x00000002"
definition FN00000010_x00_EBX_RESERVED :: u32 where [cpuid_constants]: "FN00000010_x00_EBX_RESERVED = 0xfffffff9"
definition FN00000010_x00_ECX_DEFAULT :: u32 where [cpuid_constants]: "FN00000010_x00_ECX_DEFAULT = 0x00000000"
definition FN00000010_x00_ECX_RESERVED :: u32 where [cpuid_constants]: "FN00000010_x00_ECX_RESERVED = 0xffffffff"
definition FN00000010_x00_EDX_DEFAULT :: u32 where [cpuid_constants]: "FN00000010_x00_EDX_DEFAULT = 0x00000000"
definition FN00000010_x00_EDX_RESERVED :: u32 where [cpuid_constants]: "FN00000010_x00_EDX_RESERVED = 0xffffffff"
definition FN00000010_x01_EAX_DEFAULT :: u32 where [cpuid_constants]: "FN00000010_x01_EAX_DEFAULT = 0x0000000f"
definition FN00000010_x01_EAX_RESERVED :: u32 where [cpuid_constants]: "FN00000010_x01_EAX_RESERVED = 0xffffffe0"
definition FN00000010_x01_EBX_DEFAULT :: u32 where [cpuid_constants]: "FN00000010_x01_EBX_DEFAULT = 0x00000000"
definition FN00000010_x01_EBX_RESERVED :: u32 where [cpuid_constants]: "FN00000010_x01_EBX_RESERVED = 0x00000000"
definition FN00000010_x01_ECX_DEFAULT :: u32 where [cpuid_constants]: "FN00000010_x01_ECX_DEFAULT = 0x00000004"
definition FN00000010_x01_ECX_RESERVED :: u32 where [cpuid_constants]: "FN00000010_x01_ECX_RESERVED = 0xfffffffb"
definition FN00000010_x01_EDX_DEFAULT :: u32 where [cpuid_constants]: "FN00000010_x01_EDX_DEFAULT = 0x0000000f"
definition FN00000010_x01_EDX_RESERVED :: u32 where [cpuid_constants]: "FN00000010_x01_EDX_RESERVED = 0xffff0000"

definition FN80000000_EAX_DEFAULT :: u32 where [cpuid_constants]: "FN80000000_EAX_DEFAULT = 0x80000028"
definition FN80000000_EAX_RESERVED :: u32 where [cpuid_constants]: "FN80000000_EAX_RESERVED = 0x00000000"
definition FN80000000_EBX_DEFAULT :: u32 where [cpuid_constants]: "FN80000000_EBX_DEFAULT = 0x68747541"
definition FN80000000_EBX_RESERVED :: u32 where [cpuid_constants]: "FN80000000_EBX_RESERVED = 0x00000000"
definition FN80000000_ECX_DEFAULT :: u32 where [cpuid_constants]: "FN80000000_ECX_DEFAULT = 0x444d4163"
definition FN80000000_ECX_RESERVED :: u32 where [cpuid_constants]: "FN80000000_ECX_RESERVED = 0x00000000"
definition FN80000000_EDX_DEFAULT :: u32 where [cpuid_constants]: "FN80000000_EDX_DEFAULT = 0x69746e65"
definition FN80000000_EDX_RESERVED :: u32 where [cpuid_constants]: "FN80000000_EDX_RESERVED = 0x00000000"

definition FN80000001_EBX_RESERVED :: u32 where [cpuid_constants]: "FN80000001_EBX_RESERVED = 0x0fffffff"
definition FN80000001_ECX_ADMSKEXTN :: u32 where [cpuid_constants]: "FN80000001_ECX_ADMSKEXTN = push_bit 30 1"
definition FN80000001_ECX_MWAITEXTENDED :: u32 where [cpuid_constants]:
  "FN80000001_ECX_MWAITEXTENDED = push_bit 29 1"
definition FN80000001_ECX_PERFCTRLEXTLLC :: u32 where [cpuid_constants]:
  "FN80000001_ECX_PERFCTRLEXTLLC = push_bit 28 1"
definition FN80000001_ECX_PERFTSC :: u32 where [cpuid_constants]: "FN80000001_ECX_PERFTSC = push_bit 27 0"
definition FN80000001_ECX_DATABPEXT :: u32 where [cpuid_constants]: "FN80000001_ECX_DATABPEXT = push_bit 26 1"
definition FN80000001_ECX_STREAMPERFMON :: u32 where [cpuid_constants]:
  "FN80000001_ECX_STREAMPERFMON = push_bit 25 0"
definition FN80000001_ECX_PERFCTRLEXTDF :: u32 where [cpuid_constants]:
  "FN80000001_ECX_PERFCTRLEXTDF = push_bit 24 1"
definition FN80000001_ECX_PERFCTREXTCORE :: u32 where [cpuid_constants]:
  "FN80000001_ECX_PERFCTREXTCORE = push_bit 23 1"
definition FN80000001_ECX_TOPOLOGYEXT :: u32 where [cpuid_constants]: "FN80000001_ECX_TOPOLOGYEXT = push_bit 22 1"
definition FN80000001_ECX_TCE :: u32 where [cpuid_constants]: "FN80000001_ECX_TCE = push_bit 17 1"
definition FN80000001_ECX_FMA4 :: u32 where [cpuid_constants]: "FN80000001_ECX_FMA4 = push_bit 16 0"
definition FN80000001_ECX_LWP :: u32 where [cpuid_constants]: "FN80000001_ECX_LWP = push_bit 15 0"
definition FN80000001_ECX_WDT :: u32 where [cpuid_constants]: "FN80000001_ECX_WDT = push_bit 13 1"
definition FN80000001_ECX_SKINIT :: u32 where [cpuid_constants]: "FN80000001_ECX_SKINIT = push_bit 12 1"
definition FN80000001_ECX_XOP :: u32 where [cpuid_constants]: "FN80000001_ECX_XOP = push_bit 11 0"
definition FN80000001_ECX_IBS :: u32 where [cpuid_constants]: "FN80000001_ECX_IBS = push_bit 10 1"
definition FN80000001_ECX_OSVW :: u32 where [cpuid_constants]: "FN80000001_ECX_OSVW = push_bit 9 1"
definition FN80000001_ECX_3DNOWPREFETCH :: u32 where [cpuid_constants]:
  "FN80000001_ECX_3DNOWPREFETCH = push_bit 8 1"
definition FN80000001_ECX_MISALIGN :: u32 where [cpuid_constants]: "FN80000001_ECX_MISALIGN = push_bit 7 1"
definition FN80000001_ECX_SSE4A :: u32 where [cpuid_constants]: "FN80000001_ECX_SSE4A = push_bit 6 1"
definition FN80000001_ECX_ABM :: u32 where [cpuid_constants]: "FN80000001_ECX_ABM = push_bit 5 1"
definition FN80000001_ECX_ALTMOVCR8 :: u32 where [cpuid_constants]: "FN80000001_ECX_ALTMOVCR8 = push_bit 4 1"
definition FN80000001_ECX_EXTAPICSPACE :: u32 where [cpuid_constants]: "FN80000001_ECX_EXTAPICSPACE = push_bit 3 1"
definition FN80000001_ECX_SVM :: u32 where [cpuid_constants]: "FN80000001_ECX_SVM = push_bit 2 1"
definition FN80000001_ECX_CMPLEGACY :: u32 where [cpuid_constants]: "FN80000001_ECX_CMPLEGACY = push_bit 1 1"
definition FN80000001_ECX_LAHFSAHF :: u32 where [cpuid_constants]: "FN80000001_ECX_LAHFSAHF = push_bit 0 1"
definition FN80000001_ECX_RESERVED :: u32 where [cpuid_constants]: "FN80000001_ECX_RESERVED = 0x803c4000"
definition FN80000001_ECX_DEFAULT :: u32 where [cpuid_constants]:
  "FN80000001_ECX_DEFAULT = FN80000001_ECX_ADMSKEXTN OR FN80000001_ECX_MWAITEXTENDED OR FN80000001_ECX_PERFCTRLEXTLLC OR 
     FN80000001_ECX_PERFTSC OR FN80000001_ECX_DATABPEXT OR FN80000001_ECX_STREAMPERFMON OR 
     FN80000001_ECX_PERFCTRLEXTDF OR FN80000001_ECX_PERFCTREXTCORE OR FN80000001_ECX_TOPOLOGYEXT OR 
     FN80000001_ECX_TCE OR FN80000001_ECX_FMA4 OR FN80000001_ECX_LWP OR FN80000001_ECX_WDT OR 
     FN80000001_ECX_SKINIT OR FN80000001_ECX_XOP OR FN80000001_ECX_IBS OR FN80000001_ECX_OSVW OR 
     FN80000001_ECX_3DNOWPREFETCH OR FN80000001_ECX_MISALIGN OR FN80000001_ECX_SSE4A OR 
     FN80000001_ECX_ABM OR FN80000001_ECX_ALTMOVCR8 OR FN80000001_ECX_EXTAPICSPACE OR 
     FN80000001_ECX_SVM OR FN80000001_ECX_CMPLEGACY OR FN80000001_ECX_LAHFSAHF"
definition FN80000001_EDX_3DNOW :: u32 where [cpuid_constants]: "FN80000001_EDX_3DNOW = push_bit 31 0"
definition FN80000001_EDX_3DNOWEXT :: u32 where [cpuid_constants]: "FN80000001_EDX_3DNOWEXT = push_bit 30 0"
definition FN80000001_EDX_LM :: u32 where [cpuid_constants]: "FN80000001_EDX_LM = push_bit 29 1"
definition FN80000001_EDX_RDTSCP :: u32 where [cpuid_constants]: "FN80000001_EDX_RDTSCP = push_bit 27 1"
definition FN80000001_EDX_PAGE1GB :: u32 where [cpuid_constants]: "FN80000001_EDX_PAGE1GB = push_bit 26 1"
definition FN80000001_EDX_FFXSR :: u32 where [cpuid_constants]: "FN80000001_EDX_FFXSR = push_bit 25 1"
definition FN80000001_EDX_FXSR :: u32 where [cpuid_constants]: "FN80000001_EDX_FXSR = push_bit 24 1"
definition FN80000001_EDX_MMX :: u32 where [cpuid_constants]: "FN80000001_EDX_MMX = push_bit 23 1"
definition FN80000001_EDX_MMXEXT :: u32 where [cpuid_constants]: "FN80000001_EDX_MMXEXT = push_bit 22 1"
definition FN80000001_EDX_NX :: u32 where [cpuid_constants]: "FN80000001_EDX_NX = push_bit 20 1"
definition FN80000001_EDX_PSE36 :: u32 where [cpuid_constants]: "FN80000001_EDX_PSE36 = push_bit 17 1"
definition FN80000001_EDX_PAT :: u32 where [cpuid_constants]: "FN80000001_EDX_PAT = push_bit 16 1"
definition FN80000001_EDX_CMOV :: u32 where [cpuid_constants]: "FN80000001_EDX_CMOV = push_bit 15 1"
definition FN80000001_EDX_MCA :: u32 where [cpuid_constants]: "FN80000001_EDX_MCA = push_bit 14 1"
definition FN80000001_EDX_PGE :: u32 where [cpuid_constants]: "FN80000001_EDX_PGE = push_bit 13 1"
definition FN80000001_EDX_MTRR :: u32 where [cpuid_constants]: "FN80000001_EDX_MTRR = push_bit 12 1"
definition FN80000001_EDX_SYSCALLSYSRET :: u32 where [cpuid_constants]:
  "FN80000001_EDX_SYSCALLSYSRET = push_bit 11 1"
definition FN80000001_EDX_APIC :: u32 where [cpuid_constants]: "FN80000001_EDX_APIC = push_bit 9 1"
definition FN80000001_EDX_CMPXCHG8B :: u32 where [cpuid_constants]: "FN80000001_EDX_CMPXCHG8B = push_bit 8 1"
definition FN80000001_EDX_MCE :: u32 where [cpuid_constants]: "FN80000001_EDX_MCE = push_bit 7 1"
definition FN80000001_EDX_PAE :: u32 where [cpuid_constants]: "FN80000001_EDX_PAE = push_bit 6 1"
definition FN80000001_EDX_MSR :: u32 where [cpuid_constants]: "FN80000001_EDX_MSR = push_bit 5 1"
definition FN80000001_EDX_TSC :: u32 where [cpuid_constants]: "FN80000001_EDX_TSC = push_bit 4 1"
definition FN80000001_EDX_PSE :: u32 where [cpuid_constants]: "FN80000001_EDX_PSE = push_bit 3 1"
definition FN80000001_EDX_DE :: u32 where [cpuid_constants]: "FN80000001_EDX_DE = push_bit 2 1"
definition FN80000001_EDX_VME :: u32 where [cpuid_constants]: "FN80000001_EDX_VME = push_bit 1 1"
definition FN80000001_EDX_FPU :: u32 where [cpuid_constants]: "FN80000001_EDX_FPU = push_bit 0 1"
definition FN80000001_EDX_RESERVED :: u32 where [cpuid_constants]: "FN80000001_EDX_RESERVED = 0x102c0400"
definition FN80000001_EDX_DEFAULT :: u32 where [cpuid_constants]:
  "FN80000001_EDX_DEFAULT = FN80000001_EDX_3DNOW OR FN80000001_EDX_3DNOWEXT OR FN80000001_EDX_LM OR FN80000001_EDX_RDTSCP OR 
     FN80000001_EDX_PAGE1GB OR FN80000001_EDX_FFXSR OR FN80000001_EDX_FXSR OR FN80000001_EDX_MMX OR 
     FN80000001_EDX_MMXEXT OR FN80000001_EDX_NX OR FN80000001_EDX_PSE36 OR FN80000001_EDX_PAT OR 
     FN80000001_EDX_CMOV OR FN80000001_EDX_MCA OR FN80000001_EDX_PGE OR FN80000001_EDX_MTRR OR 
     FN80000001_EDX_SYSCALLSYSRET OR FN80000001_EDX_APIC OR FN80000001_EDX_CMPXCHG8B OR 
     FN80000001_EDX_MCE OR FN80000001_EDX_PAE OR FN80000001_EDX_MSR OR FN80000001_EDX_TSC OR 
     FN80000001_EDX_PSE OR FN80000001_EDX_DE OR FN80000001_EDX_VME OR FN80000001_EDX_FPU"

definition FN80000002_DEFAULT :: u32 where [cpuid_constants]: "FN80000002_DEFAULT = 0xffffffff"
definition FN80000002_RESERVED :: u32 where [cpuid_constants]: "FN80000002_RESERVED = 0x00000000"

definition FN80000003_DEFAULT :: u32 where [cpuid_constants]: "FN80000003_DEFAULT = 0xffffffff"
definition FN80000003_RESERVED :: u32 where [cpuid_constants]: "FN80000003_RESERVED = 0x00000000"

definition FN80000004_DEFAULT :: u32 where [cpuid_constants]: "FN80000004_DEFAULT = 0xffffffff"
definition FN80000004_RESERVED :: u32 where [cpuid_constants]: "FN80000004_RESERVED = 0x00000000"

definition FN80000005_EAX_DEFAULT :: u32 where [cpuid_constants]: "FN80000005_EAX_DEFAULT = 0xff40ff40"
definition FN80000005_EAX_RESERVED :: u32 where [cpuid_constants]: "FN80000005_EAX_RESERVED = 0x00000000"
definition FN80000005_EBX_DEFAULT :: u32 where [cpuid_constants]: "FN80000005_EBX_DEFAULT = 0xff40ff40"
definition FN80000005_EBX_RESERVED :: u32 where [cpuid_constants]: "FN80000005_EBX_RESERVED = 0x00000000"
definition FN80000005_ECX_DEFAULT :: u32 where [cpuid_constants]: "FN80000005_ECX_DEFAULT = 0x20080140"
definition FN80000005_ECX_RESERVED :: u32 where [cpuid_constants]: "FN80000005_ECX_RESERVED = 0x00000000"
definition FN80000005_EDX_DEFAULT :: u32 where [cpuid_constants]: "FN80000005_EDX_DEFAULT = 0x20080140"
definition FN80000005_EDX_RESERVED :: u32 where [cpuid_constants]: "FN80000005_EDX_RESERVED = 0x00000000"

definition FN80000006_EAX_DEFAULT :: u32 where [cpuid_constants]: "FN80000006_EAX_DEFAULT = 0x48002200"
definition FN80000006_EAX_RESERVED :: u32 where [cpuid_constants]: "FN80000006_EAX_RESERVED = 0x00000000"
definition FN80000006_EBX_DEFAULT :: u32 where [cpuid_constants]: "FN80000006_EBX_DEFAULT = 0x68004200"
definition FN80000006_EBX_RESERVED :: u32 where [cpuid_constants]: "FN80000006_EBX_RESERVED = 0x00000000"
definition FN80000006_ECX_DEFAULT :: u32 where [cpuid_constants]: "FN80000006_ECX_DEFAULT = 0x02006140"
definition FN80000006_ECX_RESERVED :: u32 where [cpuid_constants]: "FN80000006_ECX_RESERVED = 0x00000000"
definition FN80000006_EDX_DEFAULT :: u32 where [cpuid_constants]: "FN80000006_EDX_DEFAULT = 0xffffffff"
definition FN80000006_EDX_RESERVED :: u32 where [cpuid_constants]: "FN80000006_EDX_RESERVED = 0x00030000"

definition FN80000007_EAX_DEFAULT :: u32 where [cpuid_constants]: "FN80000007_EAX_DEFAULT = 0x00000000"
definition FN80000007_EAX_RESERVED :: u32 where [cpuid_constants]: "FN80000007_EAX_RESERVED = 0xffffffff"
definition FN80000007_EBX_LWSMI :: u32 where [cpuid_constants]: "FN80000007_EBX_LWSMI = push_bit 5 1"
definition FN80000007_EBX_PFEHSUPPORTPRESENT :: u32 where [cpuid_constants]:
  "FN80000007_EBX_PFEHSUPPORTPRESENT = push_bit 4 1"
definition FN80000007_EBX_SCALABLEMCA :: u32 where [cpuid_constants]: "FN80000007_EBX_SCALABLEMCA = push_bit 3 1"
definition FN80000007_EBX_HWA :: u32 where [cpuid_constants]: "FN80000007_EBX_HWA = push_bit 2 0"
definition FN80000007_EBX_SUCCOR :: u32 where [cpuid_constants]: "FN80000007_EBX_SUCCOR = push_bit 1 1"
definition FN80000007_EBX_MCAOVERFLOWRECOV :: u32 where [cpuid_constants]:
  "FN80000007_EBX_MCAOVERFLOWRECOV = push_bit 0 1"
definition FN80000007_EBX_RESERVED :: u32 where [cpuid_constants]: "FN80000007_EBX_RESERVED = 0xffffffc0"
definition FN80000007_EBX_DEFAULT :: u32 where [cpuid_constants]:
  "FN80000007_EBX_DEFAULT = FN80000007_EBX_LWSMI OR FN80000007_EBX_PFEHSUPPORTPRESENT OR FN80000007_EBX_SCALABLEMCA OR 
     FN80000007_EBX_HWA OR FN80000007_EBX_SUCCOR OR FN80000007_EBX_MCAOVERFLOWRECOV"
definition FN80000007_ECX_DEFAULT :: u32 where [cpuid_constants]: "FN80000007_ECX_DEFAULT = 0x00000000"
definition FN80000007_ECX_RESERVED :: u32 where [cpuid_constants]: "FN80000007_ECX_RESERVED = 0x00000000"
definition FN80000007_EDX_RAPL :: u32 where [cpuid_constants]: "FN80000007_EDX_RAPL = push_bit 14 1"
definition FN80000007_EDX_CONNECTEDSTANDBY :: u32 where [cpuid_constants]:
  "FN80000007_EDX_CONNECTEDSTANDBY = push_bit 13 1"
definition FN80000007_EDX_PROCPOWERREPORTING :: u32 where [cpuid_constants]:
  "FN80000007_EDX_PROCPOWERREPORTING = push_bit 12 0"
definition FN80000007_EDX_PROCFDBKIFC :: u32 where [cpuid_constants]: "FN80000007_EDX_PROCFDBKIFC = push_bit 11 0"
definition FN80000007_EDX_EFFFREQRO :: u32 where [cpuid_constants]: "FN80000007_EDX_EFFFREQRO = push_bit 10 1"
definition FN80000007_EDX_CPB :: u32 where [cpuid_constants]: "FN80000007_EDX_CPB = push_bit 9 1"
definition FN80000007_EDX_TSCINVARIANT :: u32 where [cpuid_constants]: "FN80000007_EDX_TSCINVARIANT = push_bit 8 1"
definition FN80000007_EDX_HWPSTATE :: u32 where [cpuid_constants]: "FN80000007_EDX_HWPSTATE = push_bit 7 1"
definition FN80000007_EDX_ONEHUNDREDMHZSTEP :: u32 where [cpuid_constants]:
  "FN80000007_EDX_ONEHUNDREDMHZSTEP = push_bit 6 0"
definition FN80000007_EDX_TM :: u32 where [cpuid_constants]: "FN80000007_EDX_TM = push_bit 4 1"
definition FN80000007_EDX_TTP :: u32 where [cpuid_constants]: "FN80000007_EDX_TTP = push_bit 3 1"
definition FN80000007_EDX_TS :: u32 where [cpuid_constants]: "FN80000007_EDX_TS = push_bit 0 1"
definition FN80000007_EDX_RESERVED :: u32 where [cpuid_constants]: "FN80000007_EDX_RESERVED = 0xffff8026"
definition FN80000007_EDX_DEFAULT :: u32 where [cpuid_constants]:
  "FN80000007_EDX_DEFAULT = FN80000007_EDX_RAPL OR FN80000007_EDX_CONNECTEDSTANDBY OR FN80000007_EDX_PROCPOWERREPORTING OR 
     FN80000007_EDX_PROCFDBKIFC OR FN80000007_EDX_EFFFREQRO OR FN80000007_EDX_CPB OR 
     FN80000007_EDX_TSCINVARIANT OR FN80000007_EDX_HWPSTATE OR FN80000007_EDX_ONEHUNDREDMHZSTEP OR 
     FN80000007_EDX_TM OR FN80000007_EDX_TTP OR FN80000007_EDX_TS"

definition FN80000008_EAX_PADDRSIZE_MASK :: u32 where [cpuid_constants]:
  "FN80000008_EAX_PADDRSIZE_MASK = 0x000000ff"
definition FN80000008_EAX_PADDRSIZE_SHIFT :: nat where [cpuid_constants]: "FN80000008_EAX_PADDRSIZE_SHIFT = 0"
definition FN80000008_EAX_PADDRSIZE_EXACT :: u32 where [cpuid_constants]:
  "FN80000008_EAX_PADDRSIZE_EXACT = 0x00000034"
definition FN80000008_EAX_LADDRSIZE_MASK :: u32 where [cpuid_constants]:
  "FN80000008_EAX_LADDRSIZE_MASK = 0x0000ff00"
definition FN80000008_EAX_LADDRSIZE_SHIFT :: nat where [cpuid_constants]: "FN80000008_EAX_LADDRSIZE_SHIFT = 8"
definition FN80000008_EAX_LADDRSIZE_EXACT :: u32 where [cpuid_constants]:
  "FN80000008_EAX_LADDRSIZE_EXACT = 0x00000039"
definition FN80000008_EAX_GPADDRSIZE_MASK :: u32 where [cpuid_constants]:
  "FN80000008_EAX_GPADDRSIZE_MASK = 0x00ff0000"
definition FN80000008_EAX_GPADDRSIZE_SHIFT :: nat where [cpuid_constants]: "FN80000008_EAX_GPADDRSIZE_SHIFT = 16"
definition FN80000008_EAX_GPADDRSIZE_EXACT :: u32 where [cpuid_constants]:
  "FN80000008_EAX_GPADDRSIZE_EXACT = 0x000000ff"
definition FN80000008_EAX_RESERVED :: u32 where [cpuid_constants]: "FN80000008_EAX_RESERVED = 0xff000000"
definition FN80000008_EBX_BRANCHSAMPLE :: u32 where [cpuid_constants]:
  "FN80000008_EBX_BRANCHSAMPLE = push_bit 31 0"
definition FN80000008_EBX_IBPB_RET :: u32 where [cpuid_constants]: "FN80000008_EBX_IBPB_RET = push_bit 30 1"
definition FN80000008_EBX_BTC_NO :: u32 where [cpuid_constants]: "FN80000008_EBX_BTC_NO = push_bit 29 1"
definition FN80000008_EBX_PSFD :: u32 where [cpuid_constants]: "FN80000008_EBX_PSFD = push_bit 28 1"
definition FN80000008_EBX_CPPC :: u32 where [cpuid_constants]: "FN80000008_EBX_CPPC = push_bit 27 1"
definition FN80000008_EBX_SSBD :: u32 where [cpuid_constants]: "FN80000008_EBX_SSBD = push_bit 24 1"
definition FN80000008_EBX_PPIN :: u32 where [cpuid_constants]: "FN80000008_EBX_PPIN = push_bit 23 1"
definition FN80000008_EBX_LBRTSXINFO :: u32 where [cpuid_constants]: "FN80000008_EBX_LBRTSXINFO = push_bit 22 0"
definition FN80000008_EBX_TLBFLUSHNESTED :: u32 where [cpuid_constants]:
  "FN80000008_EBX_TLBFLUSHNESTED = push_bit 21 1"
definition FN80000008_EBX_EFERLMSLEUNSUPP :: u32 where [cpuid_constants]:
  "FN80000008_EBX_EFERLMSLEUNSUPP = push_bit 20 1"
definition FN80000008_EBX_IBRSPRVSSAMEMODE :: u32 where [cpuid_constants]:
  "FN80000008_EBX_IBRSPRVSSAMEMODE = push_bit 19 1"
definition FN80000008_EBX_IBRSPREFERRED :: u32 where [cpuid_constants]:
  "FN80000008_EBX_IBRSPREFERRED = push_bit 18 1"
definition FN80000008_EBX_STIBPALWAYSON :: u32 where [cpuid_constants]:
  "FN80000008_EBX_STIBPALWAYSON = push_bit 17 1"
definition FN80000008_EBX_IBRSALWAYSON :: u32 where [cpuid_constants]:
  "FN80000008_EBX_IBRSALWAYSON = push_bit 16 0"
definition FN80000008_EBX_STIBP :: u32 where [cpuid_constants]: "FN80000008_EBX_STIBP = push_bit 15 1"
definition FN80000008_EBX_IBRS :: u32 where [cpuid_constants]: "FN80000008_EBX_IBRS = push_bit 14 1"
definition FN80000008_EBX_INT_WBINVD :: u32 where [cpuid_constants]: "FN80000008_EBX_INT_WBINVD = push_bit 13 1"
definition FN80000008_EBX_IBPB :: u32 where [cpuid_constants]: "FN80000008_EBX_IBPB = push_bit 12 1"
definition FN80000008_EBX_LBREXTN :: u32 where [cpuid_constants]: "FN80000008_EBX_LBREXTN = push_bit 10 0"
definition FN80000008_EBX_WBNOINVD :: u32 where [cpuid_constants]: "FN80000008_EBX_WBNOINVD = push_bit 9 1"
definition FN80000008_EBX_MCOMMIT :: u32 where [cpuid_constants]: "FN80000008_EBX_MCOMMIT = push_bit 8 1"
definition FN80000008_EBX_MBE :: u32 where [cpuid_constants]: "FN80000008_EBX_MBE = push_bit 6 1"
definition FN80000008_EBX_RDPRU :: u32 where [cpuid_constants]: "FN80000008_EBX_RDPRU = push_bit 4 1"
definition FN80000008_EBX_INVLPGB :: u32 where [cpuid_constants]: "FN80000008_EBX_INVLPGB = push_bit 3 1"
definition FN80000008_EBX_RSTRFPERRPTRS :: u32 where [cpuid_constants]:
  "FN80000008_EBX_RSTRFPERRPTRS = push_bit 2 1"
definition FN80000008_EBX_INSTRETCNTMSR :: u32 where [cpuid_constants]:
  "FN80000008_EBX_INSTRETCNTMSR = push_bit 1 1"
definition FN80000008_EBX_CLZERO :: u32 where [cpuid_constants]: "FN80000008_EBX_CLZERO = push_bit 0 1"
definition FN80000008_EBX_RESERVED :: u32 where [cpuid_constants]: "FN80000008_EBX_RESERVED = 0x060008a0"
definition FN80000008_EBX_DEFAULT :: u32 where [cpuid_constants]:
  "FN80000008_EBX_DEFAULT = FN80000008_EBX_BRANCHSAMPLE OR FN80000008_EBX_IBPB_RET OR FN80000008_EBX_BTC_NO OR 
     FN80000008_EBX_PSFD OR FN80000008_EBX_CPPC OR FN80000008_EBX_SSBD OR FN80000008_EBX_PPIN OR 
     FN80000008_EBX_LBRTSXINFO OR FN80000008_EBX_TLBFLUSHNESTED OR FN80000008_EBX_EFERLMSLEUNSUPP OR 
     FN80000008_EBX_IBRSPRVSSAMEMODE OR FN80000008_EBX_IBRSPREFERRED OR FN80000008_EBX_STIBPALWAYSON OR 
     FN80000008_EBX_IBRSALWAYSON OR FN80000008_EBX_STIBP OR FN80000008_EBX_IBRS OR 
     FN80000008_EBX_INT_WBINVD OR FN80000008_EBX_IBPB OR FN80000008_EBX_LBREXTN OR 
     FN80000008_EBX_WBNOINVD OR FN80000008_EBX_MCOMMIT OR FN80000008_EBX_MBE OR FN80000008_EBX_RDPRU OR 
     FN80000008_EBX_INVLPGB OR FN80000008_EBX_RSTRFPERRPTRS OR FN80000008_EBX_INSTRETCNTMSR OR 
     FN80000008_EBX_CLZERO"
definition FN80000008_ECX_RESERVED :: u32 where [cpuid_constants]: "FN80000008_ECX_RESERVED = 0xfffc0f00"
definition FN80000008_EDX_INVLPGBMAX_MASK :: u32 where [cpuid_constants]:
  "FN80000008_EDX_INVLPGBMAX_MASK = 0x0000ffff"
definition FN80000008_EDX_INVLPGBMAX_SHIFT :: nat where [cpuid_constants]: "FN80000008_EDX_INVLPGBMAX_SHIFT = 0"
definition FN80000008_EDX_INVLPGBMAX_EXACT :: u32 where [cpuid_constants]:
  "FN80000008_EDX_INVLPGBMAX_EXACT = 0x00000007"
definition FN80000008_EDX_RDPRUMAX_MASK :: u32 where [cpuid_constants]: "FN80000008_EDX_RDPRUMAX_MASK = 0x00ff0000"
definition FN80000008_EDX_RDPRUMAX_SHIFT :: nat where [cpuid_constants]: "FN80000008_EDX_RDPRUMAX_SHIFT = 16"
definition FN80000008_EDX_RDPRUMAX_EXACT :: u32 where [cpuid_constants]:
  "FN80000008_EDX_RDPRUMAX_EXACT = 0x00000001"
definition FN80000008_EDX_RESERVED :: u32 where [cpuid_constants]: "FN80000008_EDX_RESERVED = 0xff000000"

definition FN8000000A_EAX_DEFAULT :: u32 where [cpuid_constants]: "FN8000000A_EAX_DEFAULT = 0x00000001"
definition FN8000000A_EAX_RESERVED :: u32 where [cpuid_constants]: "FN8000000A_EAX_RESERVED = 0xffffff00"
definition FN8000000A_EBX_DEFAULT :: u32 where [cpuid_constants]: "FN8000000A_EBX_DEFAULT = 0x0000ffff"
definition FN8000000A_EBX_RESERVED :: u32 where [cpuid_constants]: "FN8000000A_EBX_RESERVED = 0x00000000"
definition FN8000000A_EDX_VMCB_ADDR_RANGE :: u32 where [cpuid_constants]:
  "FN8000000A_EDX_VMCB_ADDR_RANGE = push_bit 28 1"
definition FN8000000A_EDX_EXTLVTFLTCHG :: u32 where [cpuid_constants]:
  "FN8000000A_EDX_EXTLVTFLTCHG = push_bit 27 1"
definition FN8000000A_EDX_IBSVIRT :: u32 where [cpuid_constants]: "FN8000000A_EDX_IBSVIRT = push_bit 26 1"
definition FN8000000A_EDX_NMIVIRT :: u32 where [cpuid_constants]: "FN8000000A_EDX_NMIVIRT = push_bit 25 1"
definition FN8000000A_EDX_TLBSYNC :: u32 where [cpuid_constants]: "FN8000000A_EDX_TLBSYNC = push_bit 24 1"
definition FN8000000A_EDX_HOST_MCE_OVERRIDE :: u32 where [cpuid_constants]:
  "FN8000000A_EDX_HOST_MCE_OVERRIDE = push_bit 23 1"
definition FN8000000A_EDX_NONWRITEGPT :: u32 where [cpuid_constants]: "FN8000000A_EDX_NONWRITEGPT = push_bit 21 1"
definition FN8000000A_EDX_GUESSPECCTL :: u32 where [cpuid_constants]: "FN8000000A_EDX_GUESSPECCTL = push_bit 20 1"
definition FN8000000A_EDX_SUPERVISORSS :: u32 where [cpuid_constants]:
  "FN8000000A_EDX_SUPERVISORSS = push_bit 19 1"
definition FN8000000A_EDX_X2AVIC :: u32 where [cpuid_constants]: "FN8000000A_EDX_X2AVIC = push_bit 18 1"
definition FN8000000A_EDX_GMET :: u32 where [cpuid_constants]: "FN8000000A_EDX_GMET = push_bit 17 1"
definition FN8000000A_EDX_VGIF :: u32 where [cpuid_constants]: "FN8000000A_EDX_VGIF = push_bit 16 1"
definition FN8000000A_EDX_V_VMSAVE_VMLOAD :: u32 where [cpuid_constants]:
  "FN8000000A_EDX_V_VMSAVE_VMLOAD = push_bit 15 1"
definition FN8000000A_EDX_AVIC :: u32 where [cpuid_constants]: "FN8000000A_EDX_AVIC = push_bit 13 1"
definition FN8000000A_EDX_PAUSEFILTERTHRESH :: u32 where [cpuid_constants]:
  "FN8000000A_EDX_PAUSEFILTERTHRESH = push_bit 12 1"
definition FN8000000A_EDX_ENCRYPTEDMCODEP :: u32 where [cpuid_constants]:
  "FN8000000A_EDX_ENCRYPTEDMCODEP = push_bit 11 1"
definition FN8000000A_EDX_PAUSEFILTER :: u32 where [cpuid_constants]: "FN8000000A_EDX_PAUSEFILTER = push_bit 10 1"
definition FN8000000A_EDX_DECODEASSIST :: u32 where [cpuid_constants]: "FN8000000A_EDX_DECODEASSIST = push_bit 7 1"
definition FN8000000A_EDX_FLUSHBYASID :: u32 where [cpuid_constants]: "FN8000000A_EDX_FLUSHBYASID = push_bit 6 1"
definition FN8000000A_EDX_VMCBCLEAN :: u32 where [cpuid_constants]: "FN8000000A_EDX_VMCBCLEAN = push_bit 5 1"
definition FN8000000A_EDX_TSCRATEMSR :: u32 where [cpuid_constants]: "FN8000000A_EDX_TSCRATEMSR = push_bit 4 1"
definition FN8000000A_EDX_NRIPS :: u32 where [cpuid_constants]: "FN8000000A_EDX_NRIPS = push_bit 3 1"
definition FN8000000A_EDX_SVML :: u32 where [cpuid_constants]: "FN8000000A_EDX_SVML = push_bit 2 1"
definition FN8000000A_EDX_LBRVIRT :: u32 where [cpuid_constants]: "FN8000000A_EDX_LBRVIRT = push_bit 1 1"
definition FN8000000A_EDX_NP :: u32 where [cpuid_constants]: "FN8000000A_EDX_NP = push_bit 0 1"
definition FN8000000A_EDX_RESERVED :: u32 where [cpuid_constants]: "FN8000000A_EDX_RESERVED = 0xe0404300"
definition FN8000000A_EDX_DEFAULT :: u32 where [cpuid_constants]:
  "FN8000000A_EDX_DEFAULT = FN8000000A_EDX_VMCB_ADDR_RANGE OR FN8000000A_EDX_EXTLVTFLTCHG OR FN8000000A_EDX_IBSVIRT OR 
     FN8000000A_EDX_NMIVIRT OR FN8000000A_EDX_TLBSYNC OR FN8000000A_EDX_HOST_MCE_OVERRIDE OR 
     FN8000000A_EDX_NONWRITEGPT OR FN8000000A_EDX_GUESSPECCTL OR FN8000000A_EDX_SUPERVISORSS OR 
     FN8000000A_EDX_X2AVIC OR FN8000000A_EDX_GMET OR FN8000000A_EDX_VGIF OR 
     FN8000000A_EDX_V_VMSAVE_VMLOAD OR FN8000000A_EDX_AVIC OR FN8000000A_EDX_PAUSEFILTERTHRESH OR 
     FN8000000A_EDX_ENCRYPTEDMCODEP OR FN8000000A_EDX_PAUSEFILTER OR FN8000000A_EDX_DECODEASSIST OR 
     FN8000000A_EDX_FLUSHBYASID OR FN8000000A_EDX_VMCBCLEAN OR FN8000000A_EDX_TSCRATEMSR OR 
     FN8000000A_EDX_NRIPS OR FN8000000A_EDX_SVML OR FN8000000A_EDX_LBRVIRT OR FN8000000A_EDX_NP"

definition FN80000019_EAX_DEFAULT :: u32 where [cpuid_constants]: "FN80000019_EAX_DEFAULT = 0xf040f040"
definition FN80000019_EAX_RESERVED :: u32 where [cpuid_constants]: "FN80000019_EAX_RESERVED = 0x00000000"
definition FN80000019_EBX_DEFAULT :: u32 where [cpuid_constants]: "FN80000019_EBX_DEFAULT = 0xf0400000"
definition FN80000019_EBX_RESERVED :: u32 where [cpuid_constants]: "FN80000019_EBX_RESERVED = 0x00000000"

definition FN8000001A_EAX_DEFAULT :: u32 where [cpuid_constants]: "FN8000001A_EAX_DEFAULT = 0x00000006"
definition FN8000001A_EAX_RESERVED :: u32 where [cpuid_constants]: "FN8000001A_EAX_RESERVED = 0xfffffff8"

definition FN8000001B_EAX_ZEN4IBSEXT :: u32 where [cpuid_constants]: "FN8000001B_EAX_ZEN4IBSEXT = push_bit 11 1"
definition FN8000001B_EAX_IBSOPDATA4 :: u32 where [cpuid_constants]: "FN8000001B_EAX_IBSOPDATA4 = push_bit 10 0"
definition FN8000001B_EAX_IBSFETCHCTLEXTD :: u32 where [cpuid_constants]:
  "FN8000001B_EAX_IBSFETCHCTLEXTD = push_bit 9 1"
definition FN8000001B_EAX_OPBRNFUSE :: u32 where [cpuid_constants]: "FN8000001B_EAX_OPBRNFUSE = push_bit 8 1"
definition FN8000001B_EAX_RIPINVALIDCHK :: u32 where [cpuid_constants]:
  "FN8000001B_EAX_RIPINVALIDCHK = push_bit 7 1"
definition FN8000001B_EAX_OPCNTEXT :: u32 where [cpuid_constants]: "FN8000001B_EAX_OPCNTEXT = push_bit 6 1"
definition FN8000001B_EAX_BRNTRGT :: u32 where [cpuid_constants]: "FN8000001B_EAX_BRNTRGT = push_bit 5 1"
definition FN8000001B_EAX_OPCNT :: u32 where [cpuid_constants]: "FN8000001B_EAX_OPCNT = push_bit 4 1"
definition FN8000001B_EAX_RDWROPCNT :: u32 where [cpuid_constants]: "FN8000001B_EAX_RDWROPCNT = push_bit 3 1"
definition FN8000001B_EAX_OPSAM :: u32 where [cpuid_constants]: "FN8000001B_EAX_OPSAM = push_bit 2 1"
definition FN8000001B_EAX_FETCHSAM :: u32 where [cpuid_constants]: "FN8000001B_EAX_FETCHSAM = push_bit 1 1"
definition FN8000001B_EAX_IBSFFV :: u32 where [cpuid_constants]: "FN8000001B_EAX_IBSFFV = push_bit 0 1"
definition FN8000001B_EAX_RESERVED :: u32 where [cpuid_constants]: "FN8000001B_EAX_RESERVED = 0xfffff000"
definition FN8000001B_EAX_DEFAULT :: u32 where [cpuid_constants]:
  "FN8000001B_EAX_DEFAULT = FN8000001B_EAX_ZEN4IBSEXT OR FN8000001B_EAX_IBSOPDATA4 OR FN8000001B_EAX_IBSFETCHCTLEXTD OR 
     FN8000001B_EAX_OPBRNFUSE OR FN8000001B_EAX_RIPINVALIDCHK OR FN8000001B_EAX_OPCNTEXT OR 
     FN8000001B_EAX_BRNTRGT OR FN8000001B_EAX_OPCNT OR FN8000001B_EAX_RDWROPCNT OR 
     FN8000001B_EAX_OPSAM OR FN8000001B_EAX_FETCHSAM OR FN8000001B_EAX_IBSFFV"

definition FN8000001D_x00_EAX_DEFAULT :: u32 where [cpuid_constants]:
  "FN8000001D_x00_EAX_DEFAULT = push_bit 14 0xfff OR push_bit 9 0 OR push_bit 8 1 OR push_bit 5 1 OR push_bit 0 1"
definition FN8000001D_x00_EAX_RESERVED :: u32 where [cpuid_constants]: "FN8000001D_x00_EAX_RESERVED = 0xfc003c00"
definition FN8000001D_x00_EBX_DEFAULT :: u32 where [cpuid_constants]:
  "FN8000001D_x00_EBX_DEFAULT = push_bit 22 7 OR push_bit 12 0 OR push_bit 0 0x3f"
definition FN8000001D_x00_EBX_RESERVED :: u32 where [cpuid_constants]: "FN8000001D_x00_EBX_RESERVED = 0x00000000"
definition FN8000001D_x00_ECX_DEFAULT :: u32 where [cpuid_constants]: "FN8000001D_x00_ECX_DEFAULT = 0x0000003f"
definition FN8000001D_x00_ECX_RESERVED :: u32 where [cpuid_constants]: "FN8000001D_x00_ECX_RESERVED = 0x00000000"
definition FN8000001D_x00_EDX_DEFAULT :: u32 where [cpuid_constants]:
  "FN8000001D_x00_EDX_DEFAULT = push_bit 1 0 OR push_bit 0 0"
definition FN8000001D_x00_EDX_RESERVED :: u32 where [cpuid_constants]: "FN8000001D_x00_EDX_RESERVED = 0xfffffffc"
definition FN8000001D_x01_EAX_DEFAULT :: u32 where [cpuid_constants]:
  "FN8000001D_x01_EAX_DEFAULT = push_bit 14 0xfff OR push_bit 9 0 OR push_bit 8 1 OR push_bit 5 1 OR push_bit 0 2"
definition FN8000001D_x01_EAX_RESERVED :: u32 where [cpuid_constants]: "FN8000001D_x01_EAX_RESERVED = 0xfc003c00"
definition FN8000001D_x01_EBX_DEFAULT :: u32 where [cpuid_constants]:
  "FN8000001D_x01_EBX_DEFAULT = push_bit 22 7 OR push_bit 12 0 OR push_bit 0 0x3f"
definition FN8000001D_x01_EBX_RESERVED :: u32 where [cpuid_constants]: "FN8000001D_x01_EBX_RESERVED = 0x00000000"
definition FN8000001D_x01_ECX_DEFAULT :: u32 where [cpuid_constants]: "FN8000001D_x01_ECX_DEFAULT = 0x0000003f"
definition FN8000001D_x01_ECX_RESERVED :: u32 where [cpuid_constants]: "FN8000001D_x01_ECX_RESERVED = 0x00000000"
definition FN8000001D_x01_EDX_DEFAULT :: u32 where [cpuid_constants]:
  "FN8000001D_x01_EDX_DEFAULT = push_bit 1 0 OR push_bit 0 0"
definition FN8000001D_x01_EDX_RESERVED :: u32 where [cpuid_constants]: "FN8000001D_x01_EDX_RESERVED = 0xfffffffc"
definition FN8000001D_x02_EAX_DEFAULT :: u32 where [cpuid_constants]:
  "FN8000001D_x02_EAX_DEFAULT = push_bit 14 0xfff OR push_bit 8 1 OR push_bit 5 2 OR push_bit 0 3"
definition FN8000001D_x02_EAX_RESERVED :: u32 where [cpuid_constants]: "FN8000001D_x02_EAX_RESERVED = 0xfc003c00"
definition FN8000001D_x02_EBX_DEFAULT :: u32 where [cpuid_constants]:
  "FN8000001D_x02_EBX_DEFAULT = push_bit 22 7 OR push_bit 12 0 OR push_bit 0 0x3f"
definition FN8000001D_x02_EBX_RESERVED :: u32 where [cpuid_constants]: "FN8000001D_x02_EBX_RESERVED = 0x00000000"
definition FN8000001D_x02_ECX_DEFAULT :: u32 where [cpuid_constants]: "FN8000001D_x02_ECX_DEFAULT = 0x000003ff"
definition FN8000001D_x02_ECX_RESERVED :: u32 where [cpuid_constants]: "FN8000001D_x02_ECX_RESERVED = 0x00000000"
definition FN8000001D_x02_EDX_DEFAULT :: u32 where [cpuid_constants]:
  "FN8000001D_x02_EDX_DEFAULT = push_bit 1 1 OR push_bit 0 0"
definition FN8000001D_x02_EDX_RESERVED :: u32 where [cpuid_constants]: "FN8000001D_x02_EDX_RESERVED = 0xfffffffc"
definition FN8000001D_x03_EAX_DEFAULT :: u32 where [cpuid_constants]:
  "FN8000001D_x03_EAX_DEFAULT = push_bit 14 0xfff OR push_bit 8 1 OR push_bit 5 3 OR push_bit 0 3"
definition FN8000001D_x03_EAX_RESERVED :: u32 where [cpuid_constants]: "FN8000001D_x03_EAX_RESERVED = 0xfc003c00"
definition FN8000001D_x03_EBX_DEFAULT :: u32 where [cpuid_constants]:
  "FN8000001D_x03_EBX_DEFAULT = push_bit 22 0xf OR push_bit 12 0 OR push_bit 0 0x3f"
definition FN8000001D_x03_EBX_RESERVED :: u32 where [cpuid_constants]: "FN8000001D_x03_EBX_RESERVED = 0x00000000"
definition FN8000001D_x03_ECX_DEFAULT :: u32 where [cpuid_constants]: "FN8000001D_x03_ECX_DEFAULT = 0x0000ffff"
definition FN8000001D_x03_ECX_RESERVED :: u32 where [cpuid_constants]: "FN8000001D_x03_ECX_RESERVED = 0x00000000"
definition FN8000001D_x03_EDX_DEFAULT :: u32 where [cpuid_constants]:
  "FN8000001D_x03_EDX_DEFAULT = push_bit 1 0 OR push_bit 0 1"
definition FN8000001D_x03_EDX_RESERVED :: u32 where [cpuid_constants]: "FN8000001D_x03_EDX_RESERVED = 0xfffffffc"
definition FN8000001D_x04_EAX_DEFAULT :: u32 where [cpuid_constants]: "FN8000001D_x04_EAX_DEFAULT = 0x00000000"
definition FN8000001D_x04_EAX_RESERVED :: u32 where [cpuid_constants]: "FN8000001D_x04_EAX_RESERVED = 0xfffffff0"
definition FN8000001D_x04_EBX_DEFAULT :: u32 where [cpuid_constants]: "FN8000001D_x04_EBX_DEFAULT = 0x00000000"
definition FN8000001D_x04_EBX_RESERVED :: u32 where [cpuid_constants]: "FN8000001D_x04_EBX_RESERVED = 0xffffffff"
definition FN8000001D_x04_ECX_DEFAULT :: u32 where [cpuid_constants]: "FN8000001D_x04_ECX_DEFAULT = 0x00000000"
definition FN8000001D_x04_ECX_RESERVED :: u32 where [cpuid_constants]: "FN8000001D_x04_ECX_RESERVED = 0x00000000"
definition FN8000001D_x04_EDX_DEFAULT :: u32 where [cpuid_constants]: "FN8000001D_x04_EDX_DEFAULT = 0x00000000"
definition FN8000001D_x04_EDX_RESERVED :: u32 where [cpuid_constants]: "FN8000001D_x04_EDX_RESERVED = 0xffffffff"

definition FN8000001E_EAX_DEFAULT :: u32 where [cpuid_constants]: "FN8000001E_EAX_DEFAULT = 0xffffffff"
definition FN8000001E_EAX_RESERVED :: u32 where [cpuid_constants]: "FN8000001E_EAX_RESERVED = 0x00000000"
definition FN8000001E_EBX_DEFAULT :: u32 where [cpuid_constants]: "FN8000001E_EBX_DEFAULT = 0x0000ffff"
definition FN8000001E_EBX_RESERVED :: u32 where [cpuid_constants]: "FN8000001E_EBX_RESERVED = 0xffff0000"
definition FN8000001E_ECX_DEFAULT :: u32 where [cpuid_constants]: "FN8000001E_ECX_DEFAULT = 0x000000ff"
definition FN8000001E_ECX_RESERVED :: u32 where [cpuid_constants]: "FN8000001E_ECX_RESERVED = 0xfffff800"

definition FN8000001F_EAX_SMT_PROT :: u32 where [cpuid_constants]: "FN8000001F_EAX_SMT_PROT = push_bit 25 1"
definition FN8000001F_EAX_VMSAREGPROT :: u32 where [cpuid_constants]: "FN8000001F_EAX_VMSAREGPROT = push_bit 24 1"
definition FN8000001F_EAX_IBSVIRT :: u32 where [cpuid_constants]: "FN8000001F_EAX_IBSVIRT = push_bit 19 1"
definition FN8000001F_EAX_VIRTTOMMSR :: u32 where [cpuid_constants]: "FN8000001F_EAX_VIRTTOMMSR = push_bit 18 1"
definition FN8000001F_EAX_VMGEXITPARAM :: u32 where [cpuid_constants]:
  "FN8000001F_EAX_VMGEXITPARAM = push_bit 17 1"
definition FN8000001F_EAX_VTE :: u32 where [cpuid_constants]: "FN8000001F_EAX_VTE = push_bit 16 1"
definition FN8000001F_EAX_PREVENTHOSTIBS :: u32 where [cpuid_constants]:
  "FN8000001F_EAX_PREVENTHOSTIBS = push_bit 15 1"
definition FN8000001F_EAX_DEBUGSTATESWAP :: u32 where [cpuid_constants]:
  "FN8000001F_EAX_DEBUGSTATESWAP = push_bit 14 1"
definition FN8000001F_EAX_ALTERNATEINJ :: u32 where [cpuid_constants]:
  "FN8000001F_EAX_ALTERNATEINJ = push_bit 13 1"
definition FN8000001F_EAX_RESTRICTINJ :: u32 where [cpuid_constants]: "FN8000001F_EAX_RESTRICTINJ = push_bit 12 1"
definition FN8000001F_EAX_REG64BITHYPERVSR :: u32 where [cpuid_constants]:
  "FN8000001F_EAX_REG64BITHYPERVSR = push_bit 11 1"
definition FN8000001F_EAX_COHERENCYENFORCED :: u32 where [cpuid_constants]:
  "FN8000001F_EAX_COHERENCYENFORCED = push_bit 10 1"
definition FN8000001F_EAX_TSCAUXVIRT :: u32 where [cpuid_constants]: "FN8000001F_EAX_TSCAUXVIRT = push_bit 9 1"
definition FN8000001F_EAX_SECURETSC :: u32 where [cpuid_constants]: "FN8000001F_EAX_SECURETSC = push_bit 8 1"
definition FN8000001F_EAX_VMPLSSS :: u32 where [cpuid_constants]: "FN8000001F_EAX_VMPLSSS = push_bit 7 1"
definition FN8000001F_EAX_RMPQUERY :: u32 where [cpuid_constants]: "FN8000001F_EAX_RMPQUERY = push_bit 6 1"
definition FN8000001F_EAX_VMPL :: u32 where [cpuid_constants]: "FN8000001F_EAX_VMPL = push_bit 5 1"
definition FN8000001F_EAX_SNP :: u32 where [cpuid_constants]: "FN8000001F_EAX_SNP = push_bit 4 1"
definition FN8000001F_EAX_SEVES :: u32 where [cpuid_constants]: "FN8000001F_EAX_SEVES = push_bit 3 1"
definition FN8000001F_EAX_VMPGFLUSH :: u32 where [cpuid_constants]: "FN8000001F_EAX_VMPGFLUSH = push_bit 2 1"
definition FN8000001F_EAX_SEV :: u32 where [cpuid_constants]: "FN8000001F_EAX_SEV = push_bit 1 1"
definition FN8000001F_EAX_SME :: u32 where [cpuid_constants]: "FN8000001F_EAX_SME = push_bit 0 1"
definition FN8000001F_EAX_RESERVED :: u32 where [cpuid_constants]: "FN8000001F_EAX_RESERVED = 0xfcf00000"
definition FN8000001F_EAX_DEFAULT :: u32 where [cpuid_constants]:
  "FN8000001F_EAX_DEFAULT = FN8000001F_EAX_SMT_PROT OR FN8000001F_EAX_VMSAREGPROT OR FN8000001F_EAX_IBSVIRT OR 
     FN8000001F_EAX_VIRTTOMMSR OR FN8000001F_EAX_VMGEXITPARAM OR FN8000001F_EAX_VTE OR 
     FN8000001F_EAX_PREVENTHOSTIBS OR FN8000001F_EAX_DEBUGSTATESWAP OR FN8000001F_EAX_ALTERNATEINJ OR 
     FN8000001F_EAX_RESTRICTINJ OR FN8000001F_EAX_REG64BITHYPERVSR OR 
     FN8000001F_EAX_COHERENCYENFORCED OR FN8000001F_EAX_TSCAUXVIRT OR FN8000001F_EAX_SECURETSC OR 
     FN8000001F_EAX_VMPLSSS OR FN8000001F_EAX_RMPQUERY OR FN8000001F_EAX_VMPL OR FN8000001F_EAX_SNP OR 
     FN8000001F_EAX_SEVES OR FN8000001F_EAX_VMPGFLUSH OR FN8000001F_EAX_SEV OR FN8000001F_EAX_SME"
definition FN8000001F_EBX_DEFAULT :: u32 where [cpuid_constants]: "FN8000001F_EBX_DEFAULT = push_bit 0 0x33"
definition FN8000001F_EBX_UNCHECKED_SHIFT :: nat where [cpuid_constants]: "FN8000001F_EBX_UNCHECKED_SHIFT = 6"
definition FN8000001F_EBX_UNCHECKED_MASK :: u32 where [cpuid_constants]:
  "FN8000001F_EBX_UNCHECKED_MASK = push_bit FN8000001F_EBX_UNCHECKED_SHIFT 0x3f"
definition FN8000001F_EBX_VMPL_SUP_SHIFT :: nat where [cpuid_constants]: "FN8000001F_EBX_VMPL_SUP_SHIFT = 12"
definition FN8000001F_EBX_VMPL_SUP_MASK :: u32 where [cpuid_constants]:
  "FN8000001F_EBX_VMPL_SUP_MASK = push_bit FN8000001F_EBX_VMPL_SUP_SHIFT 0xf"
definition FN8000001F_EBX_VMPL_SUP_MAX :: u32 where [cpuid_constants]: "FN8000001F_EBX_VMPL_SUP_MAX = 4"
definition FN8000001F_EBX_RESERVED :: u32 where [cpuid_constants]: "FN8000001F_EBX_RESERVED = 0xffff0000"
definition FN8000001F_ECX_RESERVED :: u32 where [cpuid_constants]: "FN8000001F_ECX_RESERVED = 0x00000000"
definition FN8000001F_EDX_RESERVED :: u32 where [cpuid_constants]: "FN8000001F_EDX_RESERVED = 0x00000000"

definition FN80000020_x00_EAX_DEFAULT :: u32 where [cpuid_constants]: "FN80000020_x00_EAX_DEFAULT = 0x00000000"
definition FN80000020_x00_EAX_RESERVED :: u32 where [cpuid_constants]: "FN80000020_x00_EAX_RESERVED = 0xffffffff"
definition FN80000020_x00_EBX_DEFAULT :: u32 where [cpuid_constants]: "FN80000020_x00_EBX_DEFAULT = 0x0000001e"
definition FN80000020_x00_EBX_RESERVED :: u32 where [cpuid_constants]: "FN80000020_x00_EBX_RESERVED = 0xffffffe1"
definition FN80000020_x00_ECX_DEFAULT :: u32 where [cpuid_constants]: "FN80000020_x00_ECX_DEFAULT = 0x00000000"
definition FN80000020_x00_ECX_RESERVED :: u32 where [cpuid_constants]: "FN80000020_x00_ECX_RESERVED = 0xffffffff"
definition FN80000020_x00_EDX_DEFAULT :: u32 where [cpuid_constants]: "FN80000020_x00_EDX_DEFAULT = 0x00000000"
definition FN80000020_x00_EDX_RESERVED :: u32 where [cpuid_constants]: "FN80000020_x00_EDX_RESERVED = 0xffffffff"
definition FN80000020_x01_EAX_DEFAULT :: u32 where [cpuid_constants]: "FN80000020_x01_EAX_DEFAULT = 0x0000000b"
definition FN80000020_x01_EAX_RESERVED :: u32 where [cpuid_constants]: "FN80000020_x01_EAX_RESERVED = 0x00000000"
definition FN80000020_x01_EBX_DEFAULT :: u32 where [cpuid_constants]: "FN80000020_x01_EBX_DEFAULT = 0x00000000"
definition FN80000020_x01_EBX_RESERVED :: u32 where [cpuid_constants]: "FN80000020_x01_EBX_RESERVED = 0xffffffff"
definition FN80000020_x01_ECX_DEFAULT :: u32 where [cpuid_constants]: "FN80000020_x01_ECX_DEFAULT = 0x00000000"
definition FN80000020_x01_ECX_RESERVED :: u32 where [cpuid_constants]: "FN80000020_x01_ECX_RESERVED = 0xffffffff"
definition FN80000020_x01_EDX_DEFAULT :: u32 where [cpuid_constants]: "FN80000020_x01_EDX_DEFAULT = 0x0000000f"
definition FN80000020_x01_EDX_RESERVED :: u32 where [cpuid_constants]: "FN80000020_x01_EDX_RESERVED = 0x00000000"
definition FN80000020_x02_EAX_DEFAULT :: u32 where [cpuid_constants]: "FN80000020_x02_EAX_DEFAULT = 0x0000000b"
definition FN80000020_x02_EAX_RESERVED :: u32 where [cpuid_constants]: "FN80000020_x02_EAX_RESERVED = 0x00000000"
definition FN80000020_x02_EBX_DEFAULT :: u32 where [cpuid_constants]: "FN80000020_x02_EBX_DEFAULT = 0x00000000"
definition FN80000020_x02_EBX_RESERVED :: u32 where [cpuid_constants]: "FN80000020_x02_EBX_RESERVED = 0xffffffff"
definition FN80000020_x02_ECX_DEFAULT :: u32 where [cpuid_constants]: "FN80000020_x02_ECX_DEFAULT = 0x00000000"
definition FN80000020_x02_ECX_RESERVED :: u32 where [cpuid_constants]: "FN80000020_x02_ECX_RESERVED = 0xffffffff"
definition FN80000020_x02_EDX_DEFAULT :: u32 where [cpuid_constants]: "FN80000020_x02_EDX_DEFAULT = 0x0000000f"
definition FN80000020_x02_EDX_RESERVED :: u32 where [cpuid_constants]: "FN80000020_x02_EDX_RESERVED = 0x00000000"
definition FN80000020_x03_EAX_DEFAULT :: u32 where [cpuid_constants]: "FN80000020_x03_EAX_DEFAULT = 0x00000000"
definition FN80000020_x03_EAX_RESERVED :: u32 where [cpuid_constants]: "FN80000020_x03_EAX_RESERVED = 0x00000000"
definition FN80000020_x03_EBX_DEFAULT :: u32 where [cpuid_constants]: "FN80000020_x03_EBX_DEFAULT = 0x00000002"
definition FN80000020_x03_EBX_RESERVED :: u32 where [cpuid_constants]: "FN80000020_x03_EBX_RESERVED = 0x00000000"
definition FN80000020_x03_ECX_DEFAULT :: u32 where [cpuid_constants]: "FN80000020_x03_ECX_DEFAULT = 0x0000007f"
definition FN80000020_x03_ECX_RESERVED :: u32 where [cpuid_constants]:
  "FN80000020_x03_ECX_RESERVED = NOT FN80000020_x03_ECX_DEFAULT"
definition FN80000020_x03_EDX_DEFAULT :: u32 where [cpuid_constants]: "FN80000020_x03_EDX_DEFAULT = 0x00000000"
definition FN80000020_x03_EDX_RESERVED :: u32 where [cpuid_constants]: "FN80000020_x03_EDX_RESERVED = 0x00000000"

definition FN80000021_EAX_IBPB_BRTYPE :: u32 where [cpuid_constants]: "FN80000021_EAX_IBPB_BRTYPE = push_bit 28 1"
definition FN80000021_EAX_SBPB :: u32 where [cpuid_constants]: "FN80000021_EAX_SBPB = push_bit 27 1"
definition FN80000021_EAX_EPSF :: u32 where [cpuid_constants]: "FN80000021_EAX_EPSF = push_bit 18 1"
definition FN80000021_EAX_GPONUSERCPUID :: u32 where [cpuid_constants]:
  "FN80000021_EAX_GPONUSERCPUID = push_bit 17 1"
definition FN80000021_EAX_PREFETCHCTL :: u32 where [cpuid_constants]: "FN80000021_EAX_PREFETCHCTL = push_bit 13 1"
definition FN80000021_EAX_FSRC :: u32 where [cpuid_constants]: "FN80000021_EAX_FSRC = push_bit 11 1"
definition FN80000021_EAX_FSRS :: u32 where [cpuid_constants]: "FN80000021_EAX_FSRS = push_bit 10 1"
definition FN80000021_EAX_NOSMMCTLMSR :: u32 where [cpuid_constants]: "FN80000021_EAX_NOSMMCTLMSR = push_bit 9 1"
definition FN80000021_EAX_AUTOIBRS :: u32 where [cpuid_constants]: "FN80000021_EAX_AUTOIBRS = push_bit 8 1"
definition FN80000021_EAX_UPADDRIGNORE :: u32 where [cpuid_constants]: "FN80000021_EAX_UPADDRIGNORE = push_bit 7 1"
definition FN80000021_EAX_NULLSELCLRBASE :: u32 where [cpuid_constants]:
  "FN80000021_EAX_NULLSELCLRBASE = push_bit 6 1"
definition FN80000021_EAX_TXSCTL :: u32 where [cpuid_constants]: "FN80000021_EAX_TXSCTL = push_bit 4 0"
definition FN80000021_EAX_SMMPGCFGLOCK :: u32 where [cpuid_constants]: "FN80000021_EAX_SMMPGCFGLOCK = push_bit 3 1"
definition FN80000021_EAX_LFENCE :: u32 where [cpuid_constants]: "FN80000021_EAX_LFENCE = push_bit 2 1"
definition FN80000021_EAX_KERNELBASENONSRL :: u32 where [cpuid_constants]:
  "FN80000021_EAX_KERNELBASENONSRL = push_bit 1 1"
definition FN80000021_EAX_NONSTDDATABP :: u32 where [cpuid_constants]: "FN80000021_EAX_NONSTDDATABP = push_bit 0 1"
definition FN80000021_EAX_RESERVED :: u32 where [cpuid_constants]: "FN80000021_EAX_RESERVED = 0xe7f9d020"
definition FN80000021_EAX_DEFAULT :: u32 where [cpuid_constants]:
  "FN80000021_EAX_DEFAULT = FN80000021_EAX_IBPB_BRTYPE OR FN80000021_EAX_SBPB OR FN80000021_EAX_EPSF OR 
     FN80000021_EAX_GPONUSERCPUID OR FN80000021_EAX_PREFETCHCTL OR FN80000021_EAX_FSRC OR 
     FN80000021_EAX_FSRS OR FN80000021_EAX_NOSMMCTLMSR OR FN80000021_EAX_AUTOIBRS OR 
     FN80000021_EAX_UPADDRIGNORE OR FN80000021_EAX_NULLSELCLRBASE OR FN80000021_EAX_TXSCTL OR 
     FN80000021_EAX_SMMPGCFGLOCK OR FN80000021_EAX_LFENCE OR FN80000021_EAX_KERNELBASENONSRL OR 
     FN80000021_EAX_NONSTDDATABP"
definition FN80000021_EBX_DEFAULT :: u32 where [cpuid_constants]: "FN80000021_EBX_DEFAULT = 0x00000000"
definition FN80000021_EBX_RESERVED :: u32 where [cpuid_constants]: "FN80000021_EBX_RESERVED = 0xfffff000"

definition FN80000022_EAX_DEFAULT :: u32 where [cpuid_constants]: "FN80000022_EAX_DEFAULT = 0x00000007"
definition FN80000022_EAX_RESERVED :: u32 where [cpuid_constants]:
  "FN80000022_EAX_RESERVED = NOT FN80000022_EAX_DEFAULT"
definition FN80000022_EBX_NUM_PERF_CORE_SHIFT :: nat where [cpuid_constants]:
  "FN80000022_EBX_NUM_PERF_CORE_SHIFT = 0"
definition FN80000022_EBX_NUM_PERF_CORE_MASK :: u32 where [cpuid_constants]:
  "FN80000022_EBX_NUM_PERF_CORE_MASK = push_bit FN80000022_EBX_NUM_PERF_CORE_SHIFT 0xf"
definition FN80000022_EBX_LIBRV2STACKSZ_SHIFT :: nat where [cpuid_constants]:
  "FN80000022_EBX_LIBRV2STACKSZ_SHIFT = 4"
definition FN80000022_EBX_LIBRV2STACKSZ_MASK :: u32 where [cpuid_constants]:
  "FN80000022_EBX_LIBRV2STACKSZ_MASK = push_bit FN80000022_EBX_LIBRV2STACKSZ_SHIFT 0x3f"
definition FN80000022_EBX_NUM_PERF_CORE_VALUE :: u32 where [cpuid_constants]:
  "FN80000022_EBX_NUM_PERF_CORE_VALUE = 0x06"
definition FN80000022_EBX_LIBRV2STACKSZ_VALUE :: u32 where [cpuid_constants]:
  "FN80000022_EBX_LIBRV2STACKSZ_VALUE = 0x10"
definition FN80000022_EDX_DEFAULT :: u32 where [cpuid_constants]: "FN80000022_EDX_DEFAULT = 0x00000000"

definition FN80000023_EAX_DEFAULT :: u32 where [cpuid_constants]: "FN80000023_EAX_DEFAULT = 0x00000001"
definition FN80000023_EAX_RESERVED :: u32 where [cpuid_constants]:
  "FN80000023_EAX_RESERVED = NOT FN80000023_EAX_DEFAULT"
definition FN80000023_EBX_DEFAULT :: u32 where [cpuid_constants]: "FN80000023_EBX_DEFAULT = 0x00000063"
definition FN80000023_EBX_RESERVED :: u32 where [cpuid_constants]: "FN80000023_EBX_RESERVED = 0x00000000"
definition FN80000023_ECX_DEFAULT :: u32 where [cpuid_constants]: "FN80000023_ECX_DEFAULT = 0x00000000"
definition FN80000023_ECX_RESERVED :: u32 where [cpuid_constants]: "FN80000023_ECX_RESERVED = 0xffffffff"
definition FN80000023_EDX_DEFAULT :: u32 where [cpuid_constants]: "FN80000023_EDX_DEFAULT = 0x00000000"
definition FN80000023_EDX_RESERVED :: u32 where [cpuid_constants]: "FN80000023_EDX_RESERVED = 0xffffffff"

definition FN80000024_x00_EAX_DEFAULT :: u32 where [cpuid_constants]:
  "FN80000024_x00_EAX_DEFAULT = SEV_FEATURE_INFO_x00_EAX"
definition FN80000024_x00_EBX_DEFAULT :: u32 where [cpuid_constants]:
  "FN80000024_x00_EBX_DEFAULT = SEV_FEATURE_INFO_x00_EBX"
definition FN80000024_x00_ECX_DEFAULT :: u32 where [cpuid_constants]:
  "FN80000024_x00_ECX_DEFAULT = SEV_FEATURE_INFO_x00_ECX"
definition FN80000024_x00_EDX_DEFAULT :: u32 where [cpuid_constants]:
  "FN80000024_x00_EDX_DEFAULT = SEV_FEATURE_INFO_x00_EDX"
definition FN80000024_x00_EAX_RESERVED :: u32 where [cpuid_constants]: "FN80000024_x00_EAX_RESERVED = 0x00000000"
definition FN80000024_x00_EBX_RESERVED :: u32 where [cpuid_constants]:
  "FN80000024_x00_EBX_RESERVED = NOT FN80000024_x00_EBX_DEFAULT"
definition FN80000024_x00_ECX_RESERVED :: u32 where [cpuid_constants]:
  "FN80000024_x00_ECX_RESERVED = NOT FN80000024_x00_ECX_DEFAULT"
definition FN80000024_x00_EDX_RESERVED :: u32 where [cpuid_constants]:
  "FN80000024_x00_EDX_RESERVED = NOT FN80000024_x00_EDX_DEFAULT"
definition FN80000024_x01_EAX_DEFAULT :: u32 where [cpuid_constants]:
  "FN80000024_x01_EAX_DEFAULT = SEV_FEATURE_INFO_x01_EAX"
definition FN80000024_x01_EBX_DEFAULT :: u32 where [cpuid_constants]:
  "FN80000024_x01_EBX_DEFAULT = SEV_FEATURE_INFO_x01_EBX"
definition FN80000024_x01_ECX_DEFAULT :: u32 where [cpuid_constants]:
  "FN80000024_x01_ECX_DEFAULT = SEV_FEATURE_INFO_x01_ECX"
definition FN80000024_x01_EDX_DEFAULT :: u32 where [cpuid_constants]:
  "FN80000024_x01_EDX_DEFAULT = SEV_FEATURE_INFO_x01_EDX"
definition FN80000024_x01_EAX_RESERVED :: u32 where [cpuid_constants]:
  "FN80000024_x01_EAX_RESERVED = NOT FN80000024_x01_EAX_DEFAULT"
definition FN80000024_x01_EBX_RESERVED :: u32 where [cpuid_constants]:
  "FN80000024_x01_EBX_RESERVED = NOT FN80000024_x01_EBX_DEFAULT"
definition FN80000024_x01_ECX_RESERVED :: u32 where [cpuid_constants]:
  "FN80000024_x01_ECX_RESERVED = NOT FN80000024_x01_ECX_DEFAULT"
definition FN80000024_x01_EDX_RESERVED :: u32 where [cpuid_constants]:
  "FN80000024_x01_EDX_RESERVED = NOT FN80000024_x01_EDX_DEFAULT"

definition FN80000026_DEFAULT :: u32 where [cpuid_constants]: "FN80000026_DEFAULT = 0x00000000"
definition FN80000026_RESERVED :: u32 where [cpuid_constants]: "FN80000026_RESERVED = 0x00000000"

end
