(* ===== verification/Sev_Cpuid.thy ===== *)
theory Sev_Cpuid
  imports Sev_CpuidConstants
begin

text \<open>
  The policy for CPUID values, \<open>cpuid_lookup.c\<close>: what a guest may be told about the processor. The
  hypervisor proposes the values of the CPUID functions, and the firmware accepts them or corrects them.

  A function of the processor is a leaf, given by \<open>EAX\<close> and \<open>ECX\<close>, and has four output registers. The
  pointers to the registers are a record that is returned updated. The value that \<open>get_fms\<close> reads from
  the hardware register is the parameter \<open>hw\<close>: the status of \<open>sev_hal_read_reg\<close> and the value. The code
  sets a flag \<open>failed\<close> whenever it corrects a register; the checks of a register are functions on the
  pair of the flag and the register.
\<close>

section \<open>Data\<close>

record snp_cpuid_function =
  cf_eax_in :: u32
  cf_ecx_in :: u32
  cf_xcr0_in :: u64
  cf_xss_in :: u64
  cf_eax :: u32
  cf_ebx :: u32
  cf_ecx :: u32
  cf_edx :: u32
  cf_reserved :: u64

record cpuid_regs =
  r_eax :: u32
  r_ebx :: u32
  r_ecx :: u32
  r_edx :: u32

type_synonym fms_reg = "sev_status \<times> u32"
type_synonym custom_func = "fms_reg \<Rightarrow> u32 \<Rightarrow> u32 \<Rightarrow> u64 \<Rightarrow> u64 \<Rightarrow> cpuid_regs \<Rightarrow> sev_status \<times> cpuid_regs"

record cpuid_ruleset =
  eax_rule :: u8
  ebx_rule :: u8
  ecx_rule :: u8
  edx_rule :: u8

record cpuid_lookup =
  lk_eax_in :: u32
  lk_ecx_in :: u32
  lk_custom_func :: "custom_func option"
  lk_eax_out :: u32
  lk_ebx_out :: u32
  lk_ecx_out :: u32
  lk_edx_out :: u32
  lk_eax_reserved :: u32
  lk_ebx_reserved :: u32
  lk_ecx_reserved :: u32
  lk_edx_reserved :: u32
  lk_rules :: cpuid_ruleset

section \<open>Family, model and stepping\<close>

definition get_fms :: "fms_reg \<Rightarrow> sev_status \<times> u32" where
  "get_fms hw = (case hw of (status, v) \<Rightarrow> (status, v AND NOT 0))"

definition FMS_FAMILY :: "u32 \<Rightarrow> u32" where
  "FMS_FAMILY eax =
     drop_bit FN00000001_EAX_EFAMILY_SHIFT (eax AND FN00000001_EAX_EFAMILY_MASK) +
     drop_bit FN00000001_EAX_BFAMILY_SHIFT (eax AND FN00000001_EAX_BFAMILY_MASK)"

definition FMS_MODEL :: "u32 \<Rightarrow> u32" where
  "FMS_MODEL eax =
     drop_bit FN00000001_EAX_EMODEL_SHIFT (eax AND FN00000001_EAX_EMODEL_MASK) +
     drop_bit FN00000001_EAX_BMODEL_SHIFT (eax AND FN00000001_EAX_BMODEL_MASK)"

definition FMS_STEPPING :: "u32 \<Rightarrow> u32" where
  "FMS_STEPPING eax = drop_bit FN00000001_EAX_STEPPING_SHIFT (eax AND FN00000001_EAX_STEPPING_MASK)"

definition compare_FMS :: "u32 \<Rightarrow> u32 \<Rightarrow> bool" where
  "compare_FMS eax_a eax_b \<longleftrightarrow>
     FMS_FAMILY eax_b < FMS_FAMILY eax_a \<or>
     (FMS_FAMILY eax_b = FMS_FAMILY eax_a \<and> FMS_MODEL eax_b < FMS_MODEL eax_a) \<or>
     (FMS_FAMILY eax_b = FMS_FAMILY eax_a \<and> FMS_MODEL eax_b = FMS_MODEL eax_a \<and>
      FMS_STEPPING eax_b \<le> FMS_STEPPING eax_a)"

section \<open>The checks of a register\<close>

text \<open>The checks that the functions below repeat for their registers: bits that must be 0, a mask of
  allowed bits, an exact value, a greatest value.\<close>

definition zeros_check :: "u32 \<Rightarrow> bool \<times> u32 \<Rightarrow> bool \<times> u32" where
  "zeros_check res = (\<lambda>(failed, r). if (NOT r AND res) \<noteq> res then (True, r AND NOT res) else (failed, r))"

definition mask_check :: "u32 \<Rightarrow> bool \<times> u32 \<Rightarrow> bool \<times> u32" where
  "mask_check d = (\<lambda>(failed, r). if (r AND d) \<noteq> r then (True, r AND d) else (failed, r))"

definition exact_check :: "u32 \<Rightarrow> bool \<times> u32 \<Rightarrow> bool \<times> u32" where
  "exact_check d = (\<lambda>(failed, r). if r \<noteq> d then (True, d) else (failed, r))"

definition most_check :: "u32 \<Rightarrow> bool \<times> u32 \<Rightarrow> bool \<times> u32" where
  "most_check d = (\<lambda>(failed, r). if r > d then (True, d) else (failed, r))"

text \<open>A mask that leaves the bits \<open>free\<close> unchecked.\<close>

definition free_mask_check :: "u32 \<Rightarrow> u32 \<Rightarrow> bool \<times> u32 \<Rightarrow> bool \<times> u32" where
  "free_mask_check d free = (\<lambda>(failed, r).
     if ((r AND NOT free) AND d) \<noteq> r AND NOT free then (True, r AND (d OR free)) else (failed, r))"

text \<open>A greatest value and an exact value of the field that \<open>fmask\<close> covers.\<close>

definition field_most_check :: "u32 \<Rightarrow> nat \<Rightarrow> u32 \<Rightarrow> bool \<times> u32 \<Rightarrow> bool \<times> u32" where
  "field_most_check fmask shift most = (\<lambda>(failed, r).
     if drop_bit shift (r AND fmask) > most then (True, (r AND NOT fmask) OR push_bit shift most) else (failed, r))"

definition field_exact_check :: "u32 \<Rightarrow> nat \<Rightarrow> u32 \<Rightarrow> bool \<times> u32 \<Rightarrow> bool \<times> u32" where
  "field_exact_check fmask shift d = (\<lambda>(failed, r).
     if drop_bit shift (r AND fmask) \<noteq> d then (True, (r AND NOT fmask) OR push_bit shift d) else (failed, r))"

text \<open>Family, model and stepping at most those of the hardware; a failed read counts as 0.\<close>

definition fms_check :: "fms_reg \<Rightarrow> bool \<times> u32 \<Rightarrow> bool \<times> u32" where
  "fms_check hw = (\<lambda>(failed, r).
     case get_fms hw of (status, v) \<Rightarrow>
       let (failed, actual_fms) = (if status \<noteq> SEV_STATUS_SUCCESS then (True, 0) else (failed, v))
       in if \<not> compare_FMS actual_fms r then (True, actual_fms) else (failed, r))"

definition verdict :: "bool \<Rightarrow> sev_status" where
  "verdict failed = (if failed then SEV_STATUS_INVALID_PARAM else SEV_STATUS_SUCCESS)"

section \<open>Functions with rules of their own\<close>

definition FN00000001_CUSTOM :: custom_func where
  "FN00000001_CUSTOM hw eax_in ecx_in xcr0_in xss_in regs =
     (if eax_in \<noteq> 0x00000001 \<or> ecx_in \<noteq> 0 then (ERR_INVALID_PARAMS, regs)
      else
        let (f1, eax) = zeros_check FN00000001_EAX_RESERVED (fms_check hw (False, r_eax regs));
            (f2, ebx) = zeros_check FN00000001_EBX_RESERVED
              (field_exact_check FN00000001_EBX_CFLUSH_MASK FN00000001_EBX_CFLUSH_SHIFT FN00000001_EBX_CFLUSH_EXACT
                (f1, r_ebx regs));
            (f3, ecx) = zeros_check FN00000001_ECX_RESERVED
              (free_mask_check FN00000001_ECX_DEFAULT (FN00000001_ECX_OSXSAVE OR FN00000001_ECX_RESHV) (f2, r_ecx regs));
            (f4, edx) = zeros_check FN00000001_EDX_RESERVED (mask_check FN00000001_EDX_DEFAULT (f3, r_edx regs))
        in (verdict f4, \<lparr>r_eax = eax, r_ebx = ebx, r_ecx = ecx, r_edx = edx\<rparr>))"

text \<open>For \<open>EDX\<close> the correction keeps the bits outside of the mask.\<close>

definition FN00000007_x00_CUSTOM :: custom_func where
  "FN00000007_x00_CUSTOM hw eax_in ecx_in xcr0_in xss_in regs =
     (if eax_in \<noteq> 0x00000007 \<or> ecx_in \<noteq> 0 then (ERR_INVALID_PARAMS, regs)
      else
        let (f1, eax) = zeros_check FN00000007_x00_EAX_RESERVED (most_check FN00000007_x00_EAX_DEFAULT (False, r_eax regs));
            (f2, ebx) = zeros_check FN00000007_x00_EBX_RESERVED (mask_check FN00000007_x00_EBX_DEFAULT (f1, r_ebx regs));
            (f3, ecx) = zeros_check FN00000007_x00_ECX_RESERVED
              (free_mask_check FN00000007_x00_ECX_DEFAULT FN00000007_x00_ECX_OSPKE (f2, r_ecx regs));
            (f4, edx) = zeros_check FN00000007_x00_EDX_RESERVED
              (if (r_edx regs AND FN00000007_x00_EDX_DEFAULT) \<noteq> r_edx regs
               then (True, r_edx regs AND NOT FN00000007_x00_EDX_DEFAULT) else (f3, r_edx regs))
        in (verdict f4, \<lparr>r_eax = eax, r_ebx = ebx, r_ecx = ecx, r_edx = edx\<rparr>))"

text \<open>The first half of the state components must be there.\<close>

definition x87_sse_check :: "bool \<times> u32 \<Rightarrow> bool \<times> u32" where
  "x87_sse_check = (\<lambda>(failed, r).
     let both = FN0000000D_x00_EAX_X87 OR FN0000000D_x00_EAX_SSE
     in if (r AND both) \<noteq> both then (True, r OR both) else (failed, r))"

definition expected_ebx :: "u64 \<Rightarrow> u32" where
  "expected_ebx xcr0_in =
     (if (xcr0_in AND XCR0_MPK) \<noteq> 0 then 0x988
      else if (xcr0_in AND XCR0_HIZMM) \<noteq> 0 then 0x980
      else if (xcr0_in AND XCR0_ZMMHI) \<noteq> 0 then 0x580
      else if (xcr0_in AND XCR0_KREGS) \<noteq> 0 then 0x380
      else if (xcr0_in AND XCR0_AVX) \<noteq> 0 then 0x340
      else 0x240)"

definition FN0000000D_X00_CUSTOM :: custom_func where
  "FN0000000D_X00_CUSTOM hw eax_in ecx_in xcr0_in xss_in regs =
     (if eax_in \<noteq> 0x0000000d \<or> ecx_in \<noteq> 0 then (ERR_INVALID_PARAMS, regs)
      else
        let (f1, eax) = zeros_check FN0000000D_x00_EAX_RESERVED
              (mask_check FN0000000D_x00_EAX_DEFAULT (x87_sse_check (False, r_eax regs)));
            (f2, ebx) = zeros_check FN0000000D_x00_EBX_RESERVED (exact_check (expected_ebx xcr0_in) (f1, r_ebx regs));
            (f3, ecx) = zeros_check FN0000000D_x00_ECX_RESERVED (f2, r_ecx regs);
            (f4, edx) = zeros_check FN0000000D_x00_EDX_RESERVED (exact_check FN0000000D_x00_EDX_DEFAULT (f3, r_edx regs))
        in (verdict f4, \<lparr>r_eax = eax, r_ebx = ebx, r_ecx = ecx, r_edx = edx\<rparr>))"

definition ebx_check :: "u64 \<Rightarrow> u64 \<Rightarrow> u32" where
  "ebx_check xcr0_in xss_in =
     0x240 +
     (if (xcr0_in AND XCR0_MPK) \<noteq> 0 then 0x8 else 0) +
     (if (xcr0_in AND XCR0_HIZMM) \<noteq> 0 then 0x400 else 0) +
     (if (xcr0_in AND XCR0_ZMMHI) \<noteq> 0 then 0x200 else 0) +
     (if (xcr0_in AND XCR0_KREGS) \<noteq> 0 then 0x40 else 0) +
     (if (xcr0_in AND XCR0_AVX) \<noteq> 0 then 0x100 else 0) +
     (if (xss_in AND CET_U) \<noteq> 0 then 0x10 else 0) +
     (if (xss_in AND CET_S) \<noteq> 0 then 0x18 else 0)"

definition FN0000000D_X01_CUSTOM :: custom_func where
  "FN0000000D_X01_CUSTOM hw eax_in ecx_in xcr0_in xss_in regs =
     (if eax_in \<noteq> 0x0000000D \<or> ecx_in \<noteq> 0x1 then (ERR_INVALID_PARAMS, regs)
      else
        let (f1, eax) = zeros_check FN0000000D_x01_EAX_RESERVED (mask_check FN0000000D_x01_EAX_DEFAULT (False, r_eax regs));
            (f2, ebx) = zeros_check FN0000000D_x01_EBX_RESERVED (exact_check (ebx_check xcr0_in xss_in) (f1, r_ebx regs));
            (f3, ecx) = zeros_check FN0000000D_x01_ECX_RESERVED (mask_check FN0000000D_x01_ECX_DEFAULT (f2, r_ecx regs));
            (f4, edx) = zeros_check FN0000000D_x01_EDX_RESERVED (mask_check FN0000000D_x01_EDX_DEFAULT (f3, r_edx regs))
        in (verdict f4, \<lparr>r_eax = eax, r_ebx = ebx, r_ecx = ecx, r_edx = edx\<rparr>))"

definition FN80000001_CUSTOM :: custom_func where
  "FN80000001_CUSTOM hw eax_in ecx_in xcr0_in xss_in regs =
     (if eax_in \<noteq> 0x80000001 \<or> ecx_in \<noteq> 0 then (ERR_INVALID_PARAMS, regs)
      else
        let (f1, eax) = zeros_check FN00000001_EAX_RESERVED (fms_check hw (False, r_eax regs));
            (f2, ebx) = zeros_check FN80000001_EBX_RESERVED (f1, r_ebx regs);
            (f3, ecx) = zeros_check FN80000001_ECX_RESERVED (mask_check FN80000001_ECX_DEFAULT (f2, r_ecx regs));
            (f4, edx) = zeros_check FN80000001_EDX_RESERVED (mask_check FN80000001_EDX_DEFAULT (f3, r_edx regs))
        in (verdict f4, \<lparr>r_eax = eax, r_ebx = ebx, r_ecx = ecx, r_edx = edx\<rparr>))"

definition FN80000008_CUSTOM :: custom_func where
  "FN80000008_CUSTOM hw eax_in ecx_in xcr0_in xss_in regs =
     (if eax_in \<noteq> 0x80000008 \<or> ecx_in \<noteq> 0 then (ERR_INVALID_PARAMS, regs)
      else
        let (f1, eax) = zeros_check FN80000008_EAX_RESERVED
              (field_most_check FN80000008_EAX_GPADDRSIZE_MASK FN80000008_EAX_GPADDRSIZE_SHIFT FN80000008_EAX_GPADDRSIZE_EXACT
              (field_most_check FN80000008_EAX_LADDRSIZE_MASK FN80000008_EAX_LADDRSIZE_SHIFT FN80000008_EAX_LADDRSIZE_EXACT
              (field_most_check FN80000008_EAX_PADDRSIZE_MASK FN80000008_EAX_PADDRSIZE_SHIFT FN80000008_EAX_PADDRSIZE_EXACT
                (False, r_eax regs))));
            (f2, ebx) = zeros_check FN80000008_EBX_RESERVED (mask_check FN80000008_EBX_DEFAULT (f1, r_ebx regs));
            (f3, ecx) = zeros_check FN80000008_ECX_RESERVED (f2, r_ecx regs);
            (f4, edx) = zeros_check FN80000008_EDX_RESERVED
              (field_most_check FN80000008_EDX_RDPRUMAX_MASK FN80000008_EDX_RDPRUMAX_SHIFT FN80000008_EDX_RDPRUMAX_EXACT
              (field_most_check FN80000008_EDX_INVLPGBMAX_MASK FN80000008_EDX_INVLPGBMAX_SHIFT FN80000008_EDX_INVLPGBMAX_EXACT
                (f3, r_edx regs)))
        in (verdict f4, \<lparr>r_eax = eax, r_ebx = ebx, r_ecx = ecx, r_edx = edx\<rparr>))"

text \<open>The correction of the strict part of \<open>EBX\<close> clears the unchecked bits and keeps the strict ones.\<close>

definition strict_ebx_check :: "bool \<times> u32 \<Rightarrow> bool \<times> u32" where
  "strict_ebx_check = (\<lambda>(failed, r).
     if ((r AND NOT FN8000001F_EBX_UNCHECKED_MASK) AND NOT FN8000001F_EBX_VMPL_SUP_MASK) \<noteq> FN8000001F_EBX_DEFAULT
     then (True, (r AND NOT FN8000001F_EBX_UNCHECKED_MASK) OR FN8000001F_EBX_DEFAULT) else (failed, r))"

definition FN8000001F_CUSTOM :: custom_func where
  "FN8000001F_CUSTOM hw eax_in ecx_in xcr0_in xss_in regs =
     (if eax_in \<noteq> 0x8000001F \<or> ecx_in \<noteq> 0x0 then (ERR_INVALID_PARAMS, regs)
      else
        let (f1, eax) = zeros_check FN8000001F_EAX_RESERVED (mask_check FN8000001F_EAX_DEFAULT (False, r_eax regs));
            (f2, ebx) = zeros_check FN8000001F_EBX_RESERVED
              (field_most_check FN8000001F_EBX_VMPL_SUP_MASK FN8000001F_EBX_VMPL_SUP_SHIFT FN8000001F_EBX_VMPL_SUP_MAX
                (strict_ebx_check (f1, r_ebx regs)));
            (f3, ecx) = zeros_check FN8000001F_ECX_RESERVED (f2, r_ecx regs);
            (f4, edx) = zeros_check FN8000001F_EDX_RESERVED (f3, r_edx regs)
        in (verdict f4, \<lparr>r_eax = eax, r_ebx = ebx, r_ecx = ecx, r_edx = edx\<rparr>))"

text \<open>The fields of \<open>EBX\<close> are both read before the first is corrected.\<close>

definition perf_ebx_check :: "bool \<times> u32 \<Rightarrow> bool \<times> u32" where
  "perf_ebx_check = (\<lambda>(failed, r).
     let num_per_ctr_cores = drop_bit FN80000022_EBX_NUM_PERF_CORE_SHIFT (r AND FN80000022_EBX_NUM_PERF_CORE_MASK);
         libv2stacksz = drop_bit FN80000022_EBX_LIBRV2STACKSZ_SHIFT (r AND FN80000022_EBX_LIBRV2STACKSZ_MASK);
         (failed1, r1) =
           (if num_per_ctr_cores > FN80000022_EBX_NUM_PERF_CORE_VALUE
            then (True, (r AND NOT FN80000022_EBX_NUM_PERF_CORE_MASK) OR
                        push_bit FN80000022_EBX_NUM_PERF_CORE_SHIFT FN80000022_EBX_NUM_PERF_CORE_VALUE)
            else (failed, r))
     in if libv2stacksz > FN80000022_EBX_LIBRV2STACKSZ_VALUE
        then (True, (r1 AND NOT FN80000022_EBX_LIBRV2STACKSZ_MASK) OR
                    push_bit FN80000022_EBX_LIBRV2STACKSZ_SHIFT FN80000022_EBX_LIBRV2STACKSZ_VALUE)
        else (failed1, r1))"

definition FN80000022_CUSTOM :: custom_func where
  "FN80000022_CUSTOM hw eax_in ecx_in xcr0_in xss_in regs =
     (if eax_in \<noteq> 0x80000022 \<or> ecx_in \<noteq> 0 then (ERR_INVALID_PARAMS, regs)
      else
        let (f1, eax) = zeros_check FN80000022_EAX_RESERVED (mask_check FN80000022_EAX_DEFAULT (False, r_eax regs));
            (f2, ebx) = perf_ebx_check (f1, r_ebx regs);
            (f4, edx) = exact_check FN80000022_EDX_DEFAULT (f2, r_edx regs)
        in (verdict f4, \<lparr>r_eax = eax, r_ebx = ebx, r_ecx = r_ecx regs, r_edx = edx\<rparr>))"

section \<open>The table\<close>

text \<open>A row: the leaf, the function, the values, the reserved bits and the rules.\<close>

definition row ::
    "u32 \<Rightarrow> u32 \<Rightarrow> custom_func option \<Rightarrow> u32 \<times> u32 \<times> u32 \<times> u32 \<Rightarrow> u32 \<times> u32 \<times> u32 \<times> u32 \<Rightarrow> u8 \<times> u8 \<times> u8 \<times> u8 \<Rightarrow> cpuid_lookup" where
  "row a c f v res rs =
     (case (v, res, rs) of ((v1, v2, v3, v4), (s1, s2, s3, s4), (u1, u2, u3, u4)) \<Rightarrow>
        \<lparr>lk_eax_in = a, lk_ecx_in = c, lk_custom_func = f, lk_eax_out = v1, lk_ebx_out = v2, lk_ecx_out = v3, lk_edx_out = v4,
         lk_eax_reserved = s1, lk_ebx_reserved = s2, lk_ecx_reserved = s3, lk_edx_reserved = s4,
         lk_rules = \<lparr>eax_rule = u1, ebx_rule = u2, ecx_rule = u3, edx_rule = u4\<rparr>\<rparr>)"

definition rows_0_to_6 :: "cpuid_lookup list" where
  "rows_0_to_6 = [
     row 0x00000000 0x00000000 None
       (FN00000000_EAX_DEFAULT, FN00000000_EBX_DEFAULT, FN00000000_ECX_DEFAULT, FN00000000_EDX_DEFAULT)
       (FN00000000_EAX_RESERVED, FN00000000_EBX_RESERVED, FN00000000_ECX_RESERVED, FN00000000_EDX_RESERVED)
       (CPUID_RULE_LESSTHAN, CPUID_RULE_UNCHECKED, CPUID_RULE_UNCHECKED, CPUID_RULE_UNCHECKED),
     row 0x00000001 0x00000000 (Some FN00000001_CUSTOM)
       (FNXXXXXXXX_CUSTOM, FNXXXXXXXX_CUSTOM, FNXXXXXXXX_CUSTOM, FNXXXXXXXX_CUSTOM)
       (FNXXXXXXXX_CUSTOM, FNXXXXXXXX_CUSTOM, FNXXXXXXXX_CUSTOM, FNXXXXXXXX_CUSTOM)
       (CPUID_RULE_CUSTOM, CPUID_RULE_CUSTOM, CPUID_RULE_CUSTOM, CPUID_RULE_CUSTOM),
     row 0x00000002 0x00000000 None
       (FNXXXXXXXX_CPUID_DOES_NOT_EXIST, FNXXXXXXXX_CPUID_DOES_NOT_EXIST, FNXXXXXXXX_CPUID_DOES_NOT_EXIST, FNXXXXXXXX_CPUID_DOES_NOT_EXIST)
       (FNXXXXXXXX_CPUID_DOES_NOT_EXIST, FNXXXXXXXX_CPUID_DOES_NOT_EXIST, FNXXXXXXXX_CPUID_DOES_NOT_EXIST, FNXXXXXXXX_CPUID_DOES_NOT_EXIST)
       (CPUID_RULE_UNCHECKED, CPUID_RULE_UNCHECKED, CPUID_RULE_UNCHECKED, CPUID_RULE_UNCHECKED),
     row 0x00000004 0x00000000 None
       (FNXXXXXXXX_CPUID_DOES_NOT_EXIST, FNXXXXXXXX_CPUID_DOES_NOT_EXIST, FNXXXXXXXX_CPUID_DOES_NOT_EXIST, FNXXXXXXXX_CPUID_DOES_NOT_EXIST)
       (FNXXXXXXXX_CPUID_DOES_NOT_EXIST, FNXXXXXXXX_CPUID_DOES_NOT_EXIST, FNXXXXXXXX_CPUID_DOES_NOT_EXIST, FNXXXXXXXX_CPUID_DOES_NOT_EXIST)
       (CPUID_RULE_UNCHECKED, CPUID_RULE_UNCHECKED, CPUID_RULE_UNCHECKED, CPUID_RULE_UNCHECKED),
     row 0x00000005 0x00000000 None
       (FN00000005_EAX_DEFAULT, FN00000005_EBX_DEFAULT, FN00000005_ECX_DEFAULT, FN00000005_EDX_DEFAULT)
       (FN00000005_EAX_RESERVED, FN00000005_EBX_RESERVED, FN00000005_ECX_RESERVED, FN00000005_EDX_RESERVED)
       (CPUID_RULE_UNCHECKED, CPUID_RULE_UNCHECKED, CPUID_RULE_UNCHECKED, CPUID_RULE_UNCHECKED),
     row 0x00000006 0x00000000 None
       (FN00000006_EAX_DEFAULT, FN00000006_EBX_DEFAULT, FN00000006_ECX_DEFAULT, FN00000006_EDX_DEFAULT)
       (FN00000006_EAX_RESERVED, FN00000006_EBX_RESERVED, FN00000006_ECX_RESERVED, FN00000006_EDX_RESERVED)
       (CPUID_RULE_MASK, CPUID_RULE_EXACT, CPUID_RULE_MASK, CPUID_RULE_EXACT)]"

definition rows_7_to_B :: "cpuid_lookup list" where
  "rows_7_to_B = [
     row 0x00000007 0x00000000 (Some FN00000007_x00_CUSTOM)
       (FNXXXXXXXX_CUSTOM, FNXXXXXXXX_CUSTOM, FNXXXXXXXX_CUSTOM, FNXXXXXXXX_CUSTOM)
       (FNXXXXXXXX_CUSTOM, FNXXXXXXXX_CUSTOM, FNXXXXXXXX_CUSTOM, FNXXXXXXXX_CUSTOM)
       (CPUID_RULE_CUSTOM, CPUID_RULE_CUSTOM, CPUID_RULE_CUSTOM, CPUID_RULE_CUSTOM),
     row 0x00000007 0x00000001 None
       (FN00000007_x01_EAX_DEFAULT, FN00000007_x01_EBX_DEFAULT, FN00000007_x01_ECX_DEFAULT, FN00000007_x01_EDX_DEFAULT)
       (FN00000007_x01_EAX_RESERVED, FN00000007_x01_EBX_RESERVED, FN00000007_x01_ECX_RESERVED, FN00000007_x01_EDX_RESERVED)
       (CPUID_RULE_MASK, CPUID_RULE_EXACT, CPUID_RULE_EXACT, CPUID_RULE_EXACT),
     row 0x0000000B 0x00000000 None
       (FN0000000B_x00_EAX_DEFAULT, FN0000000B_x00_EBX_DEFAULT, FN0000000B_x00_ECX_DEFAULT, FN0000000B_EDX_DEFAULT)
       (FN0000000B_x00_EAX_RESERVED, FN0000000B_x00_EBX_RESERVED, FN0000000B_x00_ECX_RESERVED, FN0000000B_EDX_RESERVED)
       (CPUID_RULE_UNCHECKED, CPUID_RULE_UNCHECKED, CPUID_RULE_UNCHECKED, CPUID_RULE_UNCHECKED),
     row 0x0000000B 0x00000001 None
       (FN0000000B_x01_EAX_DEFAULT, FN0000000B_x01_EBX_DEFAULT, FN0000000B_x01_ECX_DEFAULT, FN0000000B_EDX_DEFAULT)
       (FN0000000B_x01_EAX_RESERVED, FN0000000B_x01_EBX_RESERVED, FN0000000B_x01_ECX_RESERVED, FN0000000B_EDX_RESERVED)
       (CPUID_RULE_UNCHECKED, CPUID_RULE_UNCHECKED, CPUID_RULE_UNCHECKED, CPUID_RULE_UNCHECKED),
     row 0x0000000B 0x00000002 None
       (FN0000000B_x02_EAX_DEFAULT, FN0000000B_x02_EBX_DEFAULT, FN0000000B_x02_ECX_DEFAULT, FN0000000B_EDX_DEFAULT)
       (FN0000000B_x02_EAX_RESERVED, FN0000000B_x02_EBX_RESERVED, FN0000000B_x02_ECX_RESERVED, FN0000000B_EDX_RESERVED)
       (CPUID_RULE_UNCHECKED, CPUID_RULE_UNCHECKED, CPUID_RULE_UNCHECKED, CPUID_RULE_UNCHECKED)]"

definition rows_D_0_to_5 :: "cpuid_lookup list" where
  "rows_D_0_to_5 = [
     row 0x0000000D 0x00000000 (Some FN0000000D_X00_CUSTOM)
       (FNXXXXXXXX_CUSTOM, FNXXXXXXXX_CUSTOM, FNXXXXXXXX_CUSTOM, FNXXXXXXXX_CUSTOM)
       (FNXXXXXXXX_CUSTOM, FNXXXXXXXX_CUSTOM, FNXXXXXXXX_CUSTOM, FNXXXXXXXX_CUSTOM)
       (CPUID_RULE_CUSTOM, CPUID_RULE_CUSTOM, CPUID_RULE_CUSTOM, CPUID_RULE_CUSTOM),
     row 0x0000000D 0x00000001 (Some FN0000000D_X01_CUSTOM)
       (FNXXXXXXXX_CUSTOM, FNXXXXXXXX_CUSTOM, FNXXXXXXXX_CUSTOM, FNXXXXXXXX_CUSTOM)
       (FNXXXXXXXX_CUSTOM, FNXXXXXXXX_CUSTOM, FNXXXXXXXX_CUSTOM, FNXXXXXXXX_CUSTOM)
       (CPUID_RULE_CUSTOM, CPUID_RULE_CUSTOM, CPUID_RULE_CUSTOM, CPUID_RULE_CUSTOM),
     row 0x0000000D 0x00000002 None
       (FN0000000D_x02_EAX_DEFAULT, FN0000000D_x02_EBX_DEFAULT, FN0000000D_x02_ECX_DEFAULT, FN0000000D_x02_EDX_DEFAULT)
       (FN0000000D_x02_EAX_RESERVED, FN0000000D_x02_EBX_RESERVED, FN0000000D_x02_ECX_RESERVED, FN0000000D_x02_EDX_RESERVED)
       (CPUID_RULE_EXACT, CPUID_RULE_EXACT, CPUID_RULE_EXACT, CPUID_RULE_EXACT),
     row 0x0000000D 0x00000005 None
       (FN0000000D_x05_EAX_DEFAULT, FN0000000D_x05_EBX_DEFAULT, FN0000000D_x05_ECX_DEFAULT, FN0000000D_x05_EDX_DEFAULT)
       (FN0000000D_x05_EAX_RESERVED, FN0000000D_x05_EBX_RESERVED, FN0000000D_x05_ECX_RESERVED, FN0000000D_x05_EDX_RESERVED)
       (CPUID_RULE_EXACT, CPUID_RULE_EXACT, CPUID_RULE_MASK, CPUID_RULE_EXACT)]"

definition rows_D_6_to_C :: "cpuid_lookup list" where
  "rows_D_6_to_C = [
     row 0x0000000D 0x00000006 None
       (FN0000000D_x06_EAX_DEFAULT, FN0000000D_x06_EBX_DEFAULT, FN0000000D_x06_ECX_DEFAULT, FN0000000D_x06_EDX_DEFAULT)
       (FN0000000D_x06_EAX_RESERVED, FN0000000D_x06_EBX_RESERVED, FN0000000D_x06_ECX_RESERVED, FN0000000D_x06_EDX_RESERVED)
       (CPUID_RULE_EXACT, CPUID_RULE_EXACT, CPUID_RULE_MASK, CPUID_RULE_EXACT),
     row 0x0000000D 0x00000007 None
       (FN0000000D_x07_EAX_DEFAULT, FN0000000D_x07_EBX_DEFAULT, FN0000000D_x07_ECX_DEFAULT, FN0000000D_x07_EDX_DEFAULT)
       (FN0000000D_x07_EAX_RESERVED, FN0000000D_x07_EBX_RESERVED, FN0000000D_x07_ECX_RESERVED, FN0000000D_x07_EDX_RESERVED)
       (CPUID_RULE_EXACT, CPUID_RULE_EXACT, CPUID_RULE_MASK, CPUID_RULE_EXACT),
     row 0x0000000D 0x00000009 None
       (FN0000000D_x09_EAX_DEFAULT, FN0000000D_x09_EBX_DEFAULT, FN0000000D_x09_ECX_DEFAULT, FN0000000D_x09_EDX_DEFAULT)
       (FN0000000D_x09_EAX_RESERVED, FN0000000D_x09_EBX_RESERVED, FN0000000D_x09_ECX_RESERVED, FN0000000D_x09_EDX_RESERVED)
       (CPUID_RULE_EXACT, CPUID_RULE_EXACT, CPUID_RULE_EXACT, CPUID_RULE_EXACT),
     row 0x0000000D 0x0000000B None
       (FN0000000D_x0B_EAX_DEFAULT, FN0000000D_x0B_EBX_DEFAULT, FN0000000D_x0B_ECX_DEFAULT, FN0000000D_x0B_EDX_DEFAULT)
       (FN0000000D_x0B_EAX_RESERVED, FN0000000D_x0B_EBX_RESERVED, FN0000000D_x0B_ECX_RESERVED, FN0000000D_x0B_EDX_RESERVED)
       (CPUID_RULE_EXACT, CPUID_RULE_EXACT, CPUID_RULE_EXACT, CPUID_RULE_EXACT),
     row 0x0000000D 0x0000000C None
       (FN0000000D_x0C_EAX_DEFAULT, FN0000000D_x0C_EBX_DEFAULT, FN0000000D_x0C_ECX_DEFAULT, FN0000000D_x0C_EDX_DEFAULT)
       (FN0000000D_x0C_EAX_RESERVED, FN0000000D_x0C_EBX_RESERVED, FN0000000D_x0C_ECX_RESERVED, FN0000000D_x0C_EDX_RESERVED)
       (CPUID_RULE_EXACT, CPUID_RULE_EXACT, CPUID_RULE_EXACT, CPUID_RULE_EXACT)]"

definition rows_F_to_10 :: "cpuid_lookup list" where
  "rows_F_to_10 = [
     row 0x0000000F 0x00000000 None
       (FN0000000F_x00_EAX_DEFAULT, FN0000000F_x00_EBX_DEFAULT, FN0000000F_x00_ECX_DEFAULT, FN0000000F_x00_EDX_DEFAULT)
       (FN0000000F_x00_EAX_RESERVED, FN0000000F_x00_EBX_RESERVED, FN0000000F_x00_ECX_RESERVED, FN0000000F_x00_EDX_RESERVED)
       (CPUID_RULE_EXACT, CPUID_RULE_UNCHECKED, CPUID_RULE_EXACT, CPUID_RULE_UNCHECKED),
     row 0x0000000F 0x00000001 None
       (FN0000000F_x01_EAX_DEFAULT, FN0000000F_x01_EBX_DEFAULT, FN0000000F_x01_ECX_DEFAULT, FN0000000F_x01_EDX_DEFAULT)
       (FN0000000F_x01_EAX_RESERVED, FN0000000F_x01_EBX_RESERVED, FN0000000F_x01_ECX_RESERVED, FN0000000F_x01_EDX_RESERVED)
       (CPUID_RULE_UNCHECKED, CPUID_RULE_UNCHECKED, CPUID_RULE_UNCHECKED, CPUID_RULE_UNCHECKED),
     row 0x00000010 0x00000000 None
       (FN00000010_x00_EAX_DEFAULT, FN00000010_x00_EBX_DEFAULT, FN00000010_x00_ECX_DEFAULT, FN00000010_x00_EDX_DEFAULT)
       (FN00000010_x00_EAX_RESERVED, FN00000010_x00_EBX_RESERVED, FN00000010_x00_ECX_RESERVED, FN00000010_x00_EDX_RESERVED)
       (CPUID_RULE_EXACT, CPUID_RULE_UNCHECKED, CPUID_RULE_EXACT, CPUID_RULE_EXACT),
     row 0x00000010 0x00000001 None
       (FN00000010_x01_EAX_DEFAULT, FN00000010_x01_EBX_DEFAULT, FN00000010_x01_ECX_DEFAULT, FN00000010_x01_EDX_DEFAULT)
       (FN00000010_x01_EAX_RESERVED, FN00000010_x01_EBX_RESERVED, FN00000010_x01_ECX_RESERVED, FN00000010_x01_EDX_RESERVED)
       (CPUID_RULE_UNCHECKED, CPUID_RULE_UNCHECKED, CPUID_RULE_UNCHECKED, CPUID_RULE_UNCHECKED)]"

definition rows_80000000_to_5 :: "cpuid_lookup list" where
  "rows_80000000_to_5 = [
     row 0x80000000 0x00000000 None
       (FN80000000_EAX_DEFAULT, FN80000000_EBX_DEFAULT, FN80000000_ECX_DEFAULT, FN80000000_EDX_DEFAULT)
       (FN80000000_EAX_RESERVED, FN80000000_EBX_RESERVED, FN80000000_ECX_RESERVED, FN80000000_EDX_RESERVED)
       (CPUID_RULE_LESSTHAN, CPUID_RULE_UNCHECKED, CPUID_RULE_UNCHECKED, CPUID_RULE_UNCHECKED),
     row 0x80000001 0x00000000 (Some FN80000001_CUSTOM)
       (FNXXXXXXXX_CUSTOM, FNXXXXXXXX_CUSTOM, FNXXXXXXXX_CUSTOM, FNXXXXXXXX_CUSTOM)
       (FNXXXXXXXX_CUSTOM, FNXXXXXXXX_CUSTOM, FNXXXXXXXX_CUSTOM, FNXXXXXXXX_CUSTOM)
       (CPUID_RULE_CUSTOM, CPUID_RULE_CUSTOM, CPUID_RULE_CUSTOM, CPUID_RULE_CUSTOM),
     row 0x80000002 0x00000000 None
       (FN80000002_DEFAULT, FN80000002_DEFAULT, FN80000002_DEFAULT, FN80000002_DEFAULT)
       (FN80000002_RESERVED, FN80000002_RESERVED, FN80000002_RESERVED, FN80000002_RESERVED)
       (CPUID_RULE_UNCHECKED, CPUID_RULE_UNCHECKED, CPUID_RULE_UNCHECKED, CPUID_RULE_UNCHECKED),
     row 0x80000003 0x00000000 None
       (FN80000003_DEFAULT, FN80000003_DEFAULT, FN80000003_DEFAULT, FN80000003_DEFAULT)
       (FN80000003_RESERVED, FN80000003_RESERVED, FN80000003_RESERVED, FN80000003_RESERVED)
       (CPUID_RULE_UNCHECKED, CPUID_RULE_UNCHECKED, CPUID_RULE_UNCHECKED, CPUID_RULE_UNCHECKED),
     row 0x80000004 0x00000000 None
       (FN80000004_DEFAULT, FN80000004_DEFAULT, FN80000004_DEFAULT, FN80000004_DEFAULT)
       (FN80000004_RESERVED, FN80000004_RESERVED, FN80000004_RESERVED, FN80000004_RESERVED)
       (CPUID_RULE_UNCHECKED, CPUID_RULE_UNCHECKED, CPUID_RULE_UNCHECKED, CPUID_RULE_UNCHECKED),
     row 0x80000005 0x00000000 None
       (FN80000005_EAX_DEFAULT, FN80000005_EBX_DEFAULT, FN80000005_ECX_DEFAULT, FN80000005_EDX_DEFAULT)
       (FN80000005_EAX_RESERVED, FN80000005_EBX_RESERVED, FN80000005_ECX_RESERVED, FN80000005_EDX_RESERVED)
       (CPUID_RULE_UNCHECKED, CPUID_RULE_UNCHECKED, CPUID_RULE_UNCHECKED, CPUID_RULE_UNCHECKED)]"

definition rows_80000006_to_19 :: "cpuid_lookup list" where
  "rows_80000006_to_19 = [
     row 0x80000006 0x00000000 None
       (FN80000006_EAX_DEFAULT, FN80000006_EBX_DEFAULT, FN80000006_ECX_DEFAULT, FN80000006_EDX_DEFAULT)
       (FN80000006_EAX_RESERVED, FN80000006_EBX_RESERVED, FN80000006_ECX_RESERVED, FN80000006_EDX_RESERVED)
       (CPUID_RULE_UNCHECKED, CPUID_RULE_UNCHECKED, CPUID_RULE_UNCHECKED, CPUID_RULE_UNCHECKED),
     row 0x80000007 0x00000000 None
       (FN80000007_EAX_DEFAULT, FN80000007_EBX_DEFAULT, FN80000007_ECX_DEFAULT, FN80000007_EDX_DEFAULT)
       (FN80000007_EAX_RESERVED, FN80000007_EBX_RESERVED, FN80000007_ECX_RESERVED, FN80000007_EDX_RESERVED)
       (CPUID_RULE_EXACT, CPUID_RULE_MASK, CPUID_RULE_UNCHECKED, CPUID_RULE_MASK),
     row 0x80000008 0x00000000 (Some FN80000008_CUSTOM)
       (FNXXXXXXXX_CUSTOM, FNXXXXXXXX_CUSTOM, FNXXXXXXXX_CUSTOM, FNXXXXXXXX_CUSTOM)
       (FNXXXXXXXX_CUSTOM, FNXXXXXXXX_CUSTOM, FNXXXXXXXX_CUSTOM, FNXXXXXXXX_CUSTOM)
       (CPUID_RULE_CUSTOM, CPUID_RULE_CUSTOM, CPUID_RULE_CUSTOM, CPUID_RULE_CUSTOM),
     row 0x8000000A 0x00000000 None
       (FN8000000A_EAX_DEFAULT, FN8000000A_EBX_DEFAULT, FNXXXXXXXX_CPUID_DOES_NOT_EXIST, FN8000000A_EDX_DEFAULT)
       (FN8000000A_EAX_RESERVED, FN8000000A_EBX_RESERVED, FNXXXXXXXX_RESERVED_DOES_NOT_EXIST, FN8000000A_EDX_RESERVED)
       (CPUID_RULE_UNCHECKED, CPUID_RULE_UNCHECKED, CPUID_RULE_EXACT, CPUID_RULE_MASK),
     row 0x80000019 0x00000000 None
       (FN80000019_EAX_DEFAULT, FN80000019_EBX_DEFAULT, FNXXXXXXXX_CPUID_DOES_NOT_EXIST, FNXXXXXXXX_CPUID_DOES_NOT_EXIST)
       (FN80000019_EAX_RESERVED, FN80000019_EBX_RESERVED, FNXXXXXXXX_RESERVED_DOES_NOT_EXIST, FNXXXXXXXX_RESERVED_DOES_NOT_EXIST)
       (CPUID_RULE_UNCHECKED, CPUID_RULE_UNCHECKED, CPUID_RULE_EXACT, CPUID_RULE_EXACT)]"

definition rows_8000001A_to_1D :: "cpuid_lookup list" where
  "rows_8000001A_to_1D = [
     row 0x8000001A 0x00000000 None
       (FN8000001A_EAX_DEFAULT, FNXXXXXXXX_CPUID_DOES_NOT_EXIST, FNXXXXXXXX_CPUID_DOES_NOT_EXIST, FNXXXXXXXX_CPUID_DOES_NOT_EXIST)
       (FN8000001A_EAX_RESERVED, FNXXXXXXXX_RESERVED_DOES_NOT_EXIST, FNXXXXXXXX_RESERVED_DOES_NOT_EXIST, FNXXXXXXXX_RESERVED_DOES_NOT_EXIST)
       (CPUID_RULE_UNCHECKED, CPUID_RULE_EXACT, CPUID_RULE_EXACT, CPUID_RULE_EXACT),
     row 0x8000001B 0x00000000 None
       (FN8000001B_EAX_DEFAULT, FNXXXXXXXX_CPUID_DOES_NOT_EXIST, FNXXXXXXXX_CPUID_DOES_NOT_EXIST, FNXXXXXXXX_CPUID_DOES_NOT_EXIST)
       (FN8000001B_EAX_RESERVED, FNXXXXXXXX_RESERVED_DOES_NOT_EXIST, FNXXXXXXXX_RESERVED_DOES_NOT_EXIST, FNXXXXXXXX_RESERVED_DOES_NOT_EXIST)
       (CPUID_RULE_MASK, CPUID_RULE_EXACT, CPUID_RULE_EXACT, CPUID_RULE_EXACT),
     row 0x8000001D 0x00000000 None
       (FN8000001D_x00_EAX_DEFAULT, FN8000001D_x00_EBX_DEFAULT, FN8000001D_x00_ECX_DEFAULT, FN8000001D_x00_EDX_DEFAULT)
       (FN8000001D_x00_EAX_RESERVED, FN8000001D_x00_EBX_RESERVED, FN8000001D_x00_ECX_RESERVED, FN8000001D_x00_EDX_RESERVED)
       (CPUID_RULE_UNCHECKED, CPUID_RULE_UNCHECKED, CPUID_RULE_UNCHECKED, CPUID_RULE_UNCHECKED)]"

definition rows_8000001D_to_1F :: "cpuid_lookup list" where
  "rows_8000001D_to_1F = [
     row 0x8000001D 0x00000001 None
       (FN8000001D_x01_EAX_DEFAULT, FN8000001D_x01_EBX_DEFAULT, FN8000001D_x01_ECX_DEFAULT, FN8000001D_x01_EDX_DEFAULT)
       (FN8000001D_x01_EAX_RESERVED, FN8000001D_x01_EBX_RESERVED, FN8000001D_x01_ECX_RESERVED, FN8000001D_x01_EDX_RESERVED)
       (CPUID_RULE_UNCHECKED, CPUID_RULE_UNCHECKED, CPUID_RULE_UNCHECKED, CPUID_RULE_UNCHECKED),
     row 0x8000001D 0x00000002 None
       (FN8000001D_x02_EAX_DEFAULT, FN8000001D_x02_EBX_DEFAULT, FN8000001D_x02_ECX_DEFAULT, FN8000001D_x02_EDX_DEFAULT)
       (FN8000001D_x02_EAX_RESERVED, FN8000001D_x02_EBX_RESERVED, FN8000001D_x02_ECX_RESERVED, FN8000001D_x02_EDX_RESERVED)
       (CPUID_RULE_UNCHECKED, CPUID_RULE_UNCHECKED, CPUID_RULE_UNCHECKED, CPUID_RULE_UNCHECKED),
     row 0x8000001D 0x00000003 None
       (FN8000001D_x03_EAX_DEFAULT, FN8000001D_x03_EBX_DEFAULT, FN8000001D_x03_ECX_DEFAULT, FN8000001D_x03_EDX_DEFAULT)
       (FN8000001D_x03_EAX_RESERVED, FN8000001D_x03_EBX_RESERVED, FN8000001D_x03_ECX_RESERVED, FN8000001D_x03_EDX_RESERVED)
       (CPUID_RULE_UNCHECKED, CPUID_RULE_UNCHECKED, CPUID_RULE_UNCHECKED, CPUID_RULE_UNCHECKED),
     row 0x8000001D 0x00000004 None
       (FN8000001D_x04_EAX_DEFAULT, FN8000001D_x04_EBX_DEFAULT, FN8000001D_x04_ECX_DEFAULT, FN8000001D_x04_EDX_DEFAULT)
       (FN8000001D_x04_EAX_RESERVED, FN8000001D_x04_EBX_RESERVED, FN8000001D_x04_ECX_RESERVED, FN8000001D_x04_EDX_RESERVED)
       (CPUID_RULE_UNCHECKED, CPUID_RULE_EXACT, CPUID_RULE_UNCHECKED, CPUID_RULE_EXACT),
     row 0x8000001E 0x00000000 None
       (FN8000001E_EAX_DEFAULT, FN8000001E_EBX_DEFAULT, FN8000001E_ECX_DEFAULT, FNXXXXXXXX_CPUID_DOES_NOT_EXIST)
       (FN8000001E_EAX_RESERVED, FN8000001E_EBX_RESERVED, FN8000001E_ECX_RESERVED, FNXXXXXXXX_RESERVED_DOES_NOT_EXIST)
       (CPUID_RULE_UNCHECKED, CPUID_RULE_UNCHECKED, CPUID_RULE_UNCHECKED, CPUID_RULE_UNCHECKED),
     row 0x8000001F 0x00000000 (Some FN8000001F_CUSTOM)
       (FNXXXXXXXX_CUSTOM, FNXXXXXXXX_CUSTOM, FNXXXXXXXX_CUSTOM, FNXXXXXXXX_CUSTOM)
       (FNXXXXXXXX_CUSTOM, FNXXXXXXXX_CUSTOM, FNXXXXXXXX_CUSTOM, FNXXXXXXXX_CUSTOM)
       (CPUID_RULE_CUSTOM, CPUID_RULE_CUSTOM, CPUID_RULE_CUSTOM, CPUID_RULE_CUSTOM)]"

definition rows_80000020 :: "cpuid_lookup list" where
  "rows_80000020 = [
     row 0x80000020 0x00000000 None
       (FN80000020_x00_EAX_DEFAULT, FN80000020_x00_EBX_DEFAULT, FN80000020_x00_ECX_DEFAULT, FN80000020_x00_EDX_DEFAULT)
       (FN80000020_x00_EAX_RESERVED, FN80000020_x00_EBX_RESERVED, FN80000020_x00_ECX_RESERVED, FN80000020_x00_EDX_RESERVED)
       (CPUID_RULE_EXACT, CPUID_RULE_UNCHECKED, CPUID_RULE_EXACT, CPUID_RULE_EXACT),
     row 0x80000020 0x00000001 None
       (FN80000020_x01_EAX_DEFAULT, FN80000020_x01_EBX_DEFAULT, FN80000020_x01_ECX_DEFAULT, FN80000020_x01_EDX_DEFAULT)
       (FN80000020_x01_EAX_RESERVED, FN80000020_x01_EBX_RESERVED, FN80000020_x01_ECX_RESERVED, FN80000020_x01_EDX_RESERVED)
       (CPUID_RULE_UNCHECKED, CPUID_RULE_EXACT, CPUID_RULE_EXACT, CPUID_RULE_UNCHECKED),
     row 0x80000020 0x00000002 None
       (FN80000020_x02_EAX_DEFAULT, FN80000020_x02_EBX_DEFAULT, FN80000020_x02_ECX_DEFAULT, FN80000020_x02_EDX_DEFAULT)
       (FN80000020_x02_EAX_RESERVED, FN80000020_x02_EBX_RESERVED, FN80000020_x02_ECX_RESERVED, FN80000020_x02_EDX_RESERVED)
       (CPUID_RULE_UNCHECKED, CPUID_RULE_EXACT, CPUID_RULE_EXACT, CPUID_RULE_UNCHECKED),
     row 0x80000020 0x00000003 None
       (FN80000020_x03_EAX_DEFAULT, FN80000020_x03_EBX_DEFAULT, FN80000020_x03_ECX_DEFAULT, FN80000020_x03_EDX_DEFAULT)
       (FN80000020_x03_EAX_RESERVED, FN80000020_x03_EBX_RESERVED, FN80000020_x03_ECX_RESERVED, FN80000020_x03_EDX_RESERVED)
       (CPUID_RULE_EXACT, CPUID_RULE_UNCHECKED, CPUID_RULE_MASK, CPUID_RULE_EXACT)]"

definition rows_80000021_to_24 :: "cpuid_lookup list" where
  "rows_80000021_to_24 = [
     row 0x80000021 0x00000000 None
       (FN80000021_EAX_DEFAULT, FN80000021_EBX_DEFAULT, FNXXXXXXXX_CPUID_DOES_NOT_EXIST, FNXXXXXXXX_CPUID_DOES_NOT_EXIST)
       (FN80000021_EAX_RESERVED, FN80000021_EBX_RESERVED, FNXXXXXXXX_RESERVED_DOES_NOT_EXIST, FNXXXXXXXX_RESERVED_DOES_NOT_EXIST)
       (CPUID_RULE_MASK, CPUID_RULE_UNCHECKED, CPUID_RULE_EXACT, CPUID_RULE_EXACT),
     row 0x80000022 0x00000000 (Some FN80000022_CUSTOM)
       (FNXXXXXXXX_CUSTOM, FNXXXXXXXX_CUSTOM, FNXXXXXXXX_CUSTOM, FNXXXXXXXX_CUSTOM)
       (FNXXXXXXXX_CUSTOM, FNXXXXXXXX_CUSTOM, FNXXXXXXXX_CUSTOM, FNXXXXXXXX_CUSTOM)
       (CPUID_RULE_CUSTOM, CPUID_RULE_CUSTOM, CPUID_RULE_CUSTOM, CPUID_RULE_CUSTOM),
     row 0x80000023 0x00000000 None
       (FN80000023_EAX_DEFAULT, FN80000023_EBX_DEFAULT, FN80000023_ECX_DEFAULT, FN80000023_EDX_DEFAULT)
       (FN80000023_EAX_RESERVED, FN80000023_EBX_RESERVED, FN80000023_ECX_RESERVED, FN80000023_EDX_RESERVED)
       (CPUID_RULE_MASK, CPUID_RULE_UNCHECKED, CPUID_RULE_EXACT, CPUID_RULE_EXACT),
     row 0x80000024 0x00000000 None
       (FN80000024_x00_EAX_DEFAULT, FN80000024_x00_EBX_DEFAULT, FN80000024_x00_ECX_DEFAULT, FN80000024_x00_EDX_DEFAULT)
       (FN80000024_x00_EAX_RESERVED, FN80000024_x00_EBX_RESERVED, FN80000024_x00_ECX_RESERVED, FN80000024_x00_EDX_RESERVED)
       (CPUID_RULE_LESSTHAN, CPUID_RULE_MASK, CPUID_RULE_MASK, CPUID_RULE_EXACT),
     row 0x80000024 0x00000001 None
       (FN80000024_x01_EAX_DEFAULT, FN80000024_x01_EBX_DEFAULT, FN80000024_x01_ECX_DEFAULT, FN80000024_x01_EDX_DEFAULT)
       (FN80000024_x01_EAX_RESERVED, FN80000024_x01_EBX_RESERVED, FN80000024_x01_ECX_RESERVED, FN80000024_x01_EDX_RESERVED)
       (CPUID_RULE_MASK, CPUID_RULE_EXACT, CPUID_RULE_EXACT, CPUID_RULE_EXACT)]"

definition rows_80000026 :: "cpuid_lookup list" where
  "rows_80000026 = [
     row 0x80000026 0x00000000 None
       (FN80000026_DEFAULT, FN80000026_DEFAULT, FN80000026_DEFAULT, FN80000026_DEFAULT)
       (FN80000026_RESERVED, FN80000026_RESERVED, FN80000026_RESERVED, FN80000026_RESERVED)
       (CPUID_RULE_UNCHECKED, CPUID_RULE_UNCHECKED, CPUID_RULE_UNCHECKED, CPUID_RULE_UNCHECKED),
     row 0x80000026 0x00000001 None
       (FN80000026_DEFAULT, FN80000026_DEFAULT, FN80000026_DEFAULT, FN80000026_DEFAULT)
       (FN80000026_RESERVED, FN80000026_RESERVED, FN80000026_RESERVED, FN80000026_RESERVED)
       (CPUID_RULE_UNCHECKED, CPUID_RULE_UNCHECKED, CPUID_RULE_UNCHECKED, CPUID_RULE_UNCHECKED),
     row 0x80000026 0x00000002 None
       (FN80000026_DEFAULT, FN80000026_DEFAULT, FN80000026_DEFAULT, FN80000026_DEFAULT)
       (FN80000026_RESERVED, FN80000026_RESERVED, FN80000026_RESERVED, FN80000026_RESERVED)
       (CPUID_RULE_UNCHECKED, CPUID_RULE_UNCHECKED, CPUID_RULE_UNCHECKED, CPUID_RULE_UNCHECKED),
     row 0x80000026 0x00000003 None
       (FN80000026_DEFAULT, FN80000026_DEFAULT, FN80000026_DEFAULT, FN80000026_DEFAULT)
       (FN80000026_RESERVED, FN80000026_RESERVED, FN80000026_RESERVED, FN80000026_RESERVED)
       (CPUID_RULE_UNCHECKED, CPUID_RULE_UNCHECKED, CPUID_RULE_UNCHECKED, CPUID_RULE_UNCHECKED)]"

definition lookup_table :: "cpuid_lookup list" where
  "lookup_table =
     rows_0_to_6 @ rows_7_to_B @ rows_D_0_to_5 @ rows_D_6_to_C @ rows_F_to_10 @ rows_80000000_to_5 @
      rows_80000006_to_19 @ rows_8000001A_to_1D @ rows_8000001D_to_1F @ rows_80000020 @ rows_80000021_to_24 @ rows_80000026"

section \<open>Checking an entry\<close>

definition cpuid_entry_rule_check :: "u8 \<Rightarrow> u32 \<Rightarrow> u32 \<Rightarrow> u32 \<Rightarrow> sev_status \<times> u32" where
  "cpuid_entry_rule_check rule valmask reservedmask reg =
     (let reserved = (\<lambda>reg. if (NOT reg AND reservedmask) \<noteq> reservedmask
                            then (SEV_STATUS_INVALID_CONFIG, reg AND NOT reservedmask) else (SEV_STATUS_SUCCESS, reg))
      in if rule = CPUID_RULE_MASK then
           (if (reg AND valmask) \<noteq> reg then (SEV_STATUS_INVALID_CONFIG, reg AND valmask) else reserved reg)
         else if rule = CPUID_RULE_EXACT then
           (if reg \<noteq> valmask then (SEV_STATUS_INVALID_CONFIG, valmask) else reserved reg)
         else if rule = CPUID_RULE_LESSTHAN then
           (if reg > valmask then (SEV_STATUS_INVALID_CONFIG, valmask) else reserved reg)
         else if rule = CPUID_RULE_UNCHECKED then reserved reg
         else reserved valmask)"

text \<open>The four registers by the rules of a row: whether an error was detected, and the registers.\<close>

definition check_rules :: "cpuid_lookup \<Rightarrow> cpuid_regs \<Rightarrow> bool \<times> cpuid_regs" where
  "check_rules l regs =
     (let (s1, eax) = cpuid_entry_rule_check (eax_rule (lk_rules l)) (lk_eax_out l) (lk_eax_reserved l) (r_eax regs);
          (s2, ebx) = cpuid_entry_rule_check (ebx_rule (lk_rules l)) (lk_ebx_out l) (lk_ebx_reserved l) (r_ebx regs);
          (s3, ecx) = cpuid_entry_rule_check (ecx_rule (lk_rules l)) (lk_ecx_out l) (lk_ecx_reserved l) (r_ecx regs);
          (s4, edx) = cpuid_entry_rule_check (edx_rule (lk_rules l)) (lk_edx_out l) (lk_edx_reserved l) (r_edx regs)
      in (s1 \<noteq> SEV_STATUS_SUCCESS \<or> s2 \<noteq> SEV_STATUS_SUCCESS \<or> s3 \<noteq> SEV_STATUS_SUCCESS \<or> s4 \<noteq> SEV_STATUS_SUCCESS,
          \<lparr>r_eax = eax, r_ebx = ebx, r_ecx = ecx, r_edx = edx\<rparr>))"

definition zero_regs :: cpuid_regs where "zero_regs = \<lparr>r_eax = 0, r_ebx = 0, r_ecx = 0, r_edx = 0\<rparr>"

text \<open>The first row of the leaf decides; both callers pass the addresses of existing objects, so that
  the test for NULL is left out. Without an error the last status is that of a success.\<close>

definition sanitize_cpuid_entry :: "fms_reg \<Rightarrow> u32 \<Rightarrow> u32 \<Rightarrow> u64 \<Rightarrow> u64 \<Rightarrow> cpuid_regs \<Rightarrow> sev_status \<times> cpuid_regs" where
  "sanitize_cpuid_entry hw eax_in ecx_in xcr0_in xss_in regs =
     (case find (\<lambda>l. lk_eax_in l = eax_in \<and> lk_ecx_in l = ecx_in) lookup_table of
        None \<Rightarrow> if regs \<noteq> zero_regs then (SEV_STATUS_INVALID_PARAM, zero_regs) else (SEV_STATUS_SUCCESS, regs)
      | Some l \<Rightarrow>
          (case lk_custom_func l of
             None \<Rightarrow> (case check_rules l regs of (error_detected, regs1) \<Rightarrow>
               (if error_detected then SEV_STATUS_INVALID_PARAM else SEV_STATUS_SUCCESS, regs1))
           | Some f \<Rightarrow> (case f hw eax_in ecx_in xcr0_in xss_in regs of (status, regs1) \<Rightarrow>
               (if status \<noteq> SEV_STATUS_SUCCESS then SEV_STATUS_INVALID_PARAM else status, regs1))))"

section \<open>Checking a list\<close>

definition in_cpuid_range :: "u32 \<Rightarrow> bool" where
  "in_cpuid_range eax_in \<longleftrightarrow>
     (sint eax_in \<ge> sint CPUID_STD_RANGE_MIN \<and> eax_in \<le> CPUID_STD_RANGE_MAX) \<or>
     (eax_in \<ge> CPUID_EXT_RANGE_MIN \<and> eax_in \<le> CPUID_EXT_RANGE_MAX)"

definition regs_of :: "snp_cpuid_function \<Rightarrow> cpuid_regs" where
  "regs_of e = \<lparr>r_eax = cf_eax e, r_ebx = cf_ebx e, r_ecx = cf_ecx e, r_edx = cf_edx e\<rparr>"

definition with_regs :: "cpuid_regs \<Rightarrow> snp_cpuid_function \<Rightarrow> snp_cpuid_function" where
  "with_regs regs e = e\<lparr>cf_eax := r_eax regs, cf_ebx := r_ebx regs, cf_ecx := r_ecx regs, cf_edx := r_edx regs\<rparr>"

text \<open>One round of the loop: the flag, the count and the entry.\<close>

definition sanitize_round :: "fms_reg \<Rightarrow> snp_cpuid_function \<Rightarrow> bool \<times> nat \<Rightarrow> (bool \<times> nat) \<times> snp_cpuid_function" where
  "sanitize_round hw e = (\<lambda>(failed, rsp_count).
     if in_cpuid_range (cf_eax_in e) then
       (case sanitize_cpuid_entry hw (cf_eax_in e) (cf_ecx_in e) (cf_xcr0_in e) (cf_xss_in e) (regs_of e) of
          (status, regs) \<Rightarrow>
            ((failed \<or> cf_reserved e \<noteq> 0 \<or> status \<noteq> SEV_STATUS_SUCCESS, rsp_count + 1), with_regs regs e))
     else ((failed, rsp_count), e))"

fun sanitize_loop :: "fms_reg \<Rightarrow> snp_cpuid_function list \<Rightarrow> bool \<times> nat \<Rightarrow> (bool \<times> nat) \<times> snp_cpuid_function list" where
  "sanitize_loop hw [] st = (st, [])"
| "sanitize_loop hw (e # es) st =
     (case sanitize_round hw e st of (st1, e1) \<Rightarrow>
      case sanitize_loop hw es st1 of (st2, es1) \<Rightarrow> (st2, e1 # es1))"

text \<open>The list is the first \<open>req_count\<close> entries of the array. The results: status, count and entries.\<close>

definition sanitize_cpuid_list :: "fms_reg \<Rightarrow> snp_cpuid_function list \<Rightarrow> sev_status \<times> nat \<times> snp_cpuid_function list" where
  "sanitize_cpuid_list hw es =
     (case sanitize_loop hw es (False, 0) of
        ((failed, rsp_count), es1) \<Rightarrow>
          (if failed then SEV_STATUS_INVALID_PARAM else SEV_STATUS_SUCCESS, rsp_count, es1))"

end
