(* ===== verification/Sev_CpuidChecks.thy ===== *)
theory Sev_CpuidChecks
  imports Sev_Cpuid
begin

text \<open>
  What the checks of a register promise, as a contract: a register that is allowed passes unchanged, one
  that is not sets the flag; most checks also leave an allowed value. The contract composes, so that
  each function of the policy meets it for each of its registers.
\<close>

section \<open>Bits\<close>

lemma zeros_iff: "(NOT r AND res) \<noteq> res \<longleftrightarrow> r AND res \<noteq> 0" for r res :: u32
  by (simp add: bit_eq_iff bit_simps) blast

lemma mask_iff: "(r AND d) \<noteq> r \<longleftrightarrow> r AND NOT d \<noteq> 0" for r d :: u32
  by (simp add: bit_eq_iff bit_simps) blast

lemma and_least: "r AND m \<le> r" for r m :: u32
  by (rule word_and_le2)

lemma disjoint_not: "d AND res = 0 \<Longrightarrow> d AND NOT res = d" for d res :: u32
  by (simp add: bit_eq_iff bit_simps) blast

lemma drop_bit_mono: "a \<le> b \<Longrightarrow> drop_bit n a \<le> drop_bit n b" for a b :: u32
  by (simp add: word_le_nat_alt drop_bit_eq_div unat_div unat_drop_bit_eq div_le_mono)

section \<open>The contract\<close>

locale register_check =
  fixes check :: "bool \<times> u32 \<Rightarrow> bool \<times> u32" and ok :: "u32 \<Rightarrow> bool"
  assumes accepts: "ok r \<Longrightarrow> check (failed, r) = (failed, r)"
    and rejects: "\<not> ok r \<Longrightarrow> fst (check (failed, r))"
begin

lemma flag: "fst (check (failed, r)) \<longleftrightarrow> failed \<or> \<not> ok r"
  using accepts [of r failed] rejects [of r failed] by (cases "ok r") auto

lemma flag_set: "check (failed, r) = (f, r') \<Longrightarrow> f \<longleftrightarrow> failed \<or> \<not> ok r"
  using flag [of failed r] by simp

lemma same_register: "ok r \<Longrightarrow> snd (check (failed, r)) = r"
  using accepts by simp

end

locale correcting_check = register_check +
  assumes corrects: "ok (snd (check (failed, r)))"
begin

lemma corrected: "check (failed, r) = (f, r') \<Longrightarrow> ok r'"
  using corrects [of failed r] by simp

lemma twice: "check (failed, r) = (f, r') \<Longrightarrow> check (failed', r') = (failed', r')"
  using corrected accepts by blast

end

lemma compose_checks:
  assumes "register_check c1 ok1" and "register_check c2 ok2"
  shows "register_check (\<lambda>x. c2 (c1 x)) (\<lambda>r. ok1 r \<and> ok2 r)"
proof
  fix r failed assume "\<not> (ok1 r \<and> ok2 r)"
  then show "fst (c2 (c1 (failed, r)))"
    using register_check.flag [OF assms(1), of failed r] register_check.accepts [OF assms(1), of r failed]
      register_check.flag [OF assms(2)] by (cases "c1 (failed, r)") auto
qed (simp add: register_check.accepts [OF assms(1)] register_check.accepts [OF assms(2)])

lemma correcting_is_check: "correcting_check c ok \<Longrightarrow> register_check c ok"
  by (simp add: correcting_check_def)

text \<open>The second check may not undo the first.\<close>

lemma compose_correcting:
  assumes "correcting_check c1 ok1" and "correcting_check c2 ok2"
    and keeps: "\<And>f r. ok1 r \<Longrightarrow> ok1 (snd (c2 (f, r)))"
  shows "correcting_check (\<lambda>x. c2 (c1 x)) (\<lambda>r. ok1 r \<and> ok2 r)"
  unfolding correcting_check_def correcting_check_axioms_def
proof (intro conjI allI)
  show "register_check (\<lambda>x. c2 (c1 x)) (\<lambda>r. ok1 r \<and> ok2 r)"
    by (rule compose_checks [OF correcting_is_check [OF assms(1)] correcting_is_check [OF assms(2)]])
next
  fix failed r
  obtain f r1 where r1: "c1 (failed, r) = (f, r1)" by (rule prod.exhaust)
  show "ok1 (snd (c2 (c1 (failed, r))))" "ok2 (snd (c2 (c1 (failed, r))))"
    using correcting_check.corrected [OF assms(1) r1] keeps correcting_check.corrects [OF assms(2)] by (simp_all add: r1)
qed

section \<open>The checks\<close>

interpretation zeros: correcting_check "zeros_check res" "\<lambda>r. r AND res = 0"
  by unfold_locales (auto simp: zeros_check_def zeros_iff bit_eq_iff bit_simps)

interpretation mask: correcting_check "mask_check d" "\<lambda>r. r AND NOT d = 0"
  by unfold_locales (auto simp: mask_check_def mask_iff bit_eq_iff bit_simps)

interpretation exact: correcting_check "exact_check d" "\<lambda>r. r = d"
  by unfold_locales (auto simp: exact_check_def)

interpretation most: correcting_check "most_check d" "\<lambda>r. r \<le> d"
  by unfold_locales (auto simp: most_check_def)

interpretation free_mask: correcting_check "free_mask_check d free" "\<lambda>r. r AND NOT (d OR free) = 0"
proof
  fix r f
  have same: "((r AND NOT free) AND d) \<noteq> r AND NOT free \<longleftrightarrow> r AND NOT (d OR free) \<noteq> 0"
    unfolding mask_iff by (simp add: and.assoc ac_simps)
  show "r AND NOT (d OR free) = 0 \<Longrightarrow> free_mask_check d free (f, r) = (f, r)"
    "r AND NOT (d OR free) \<noteq> 0 \<Longrightarrow> fst (free_mask_check d free (f, r))"
    "snd (free_mask_check d free (f, r)) AND NOT (d OR free) = 0"
    using same by (auto simp: free_mask_check_def bit_eq_iff bit_simps)
qed

text \<open>The value of a field; its correction needs a value that fits.\<close>

abbreviation field :: "u32 \<Rightarrow> nat \<Rightarrow> u32 \<Rightarrow> u32" where
  "field fmask shift r \<equiv> drop_bit shift (r AND fmask)"

lemma field_corrected:
  "((r AND NOT fmask) OR push_bit shift v) AND fmask = push_bit shift v AND fmask" for r fmask v :: u32
  by (simp add: bit_eq_iff bit_simps) blast

lemma field_most_check:
  assumes "field fmask shift (push_bit shift most) \<le> most"
  shows "correcting_check (field_most_check fmask shift most) (\<lambda>r. field fmask shift r \<le> most)"
  using assms by unfold_locales (auto simp: field_most_check_def field_corrected not_le simp del: drop_bit_and)

lemma field_exact_check:
  assumes "field fmask shift (push_bit shift d) = d"
  shows "correcting_check (field_exact_check fmask shift d) (\<lambda>r. field fmask shift r = d)"
  using assms by unfold_locales (auto simp: field_exact_check_def field_corrected simp del: drop_bit_and)

interpretation identity: correcting_check "\<lambda>x. x" "\<lambda>_. True"
  by unfold_locales simp_all

section \<open>What the last check of a register keeps\<close>

lemma snd_zeros [simp]: "snd (zeros_check res (f, r)) = r AND NOT res"
proof -
  have "r AND NOT res = r" if "r AND res = 0" using that by (simp add: bit_eq_iff bit_simps) blast
  then show ?thesis by (auto simp: zeros_check_def zeros_iff)
qed

lemma mask_kept: "r AND NOT d = 0 \<Longrightarrow> (r AND NOT res) AND NOT d = 0" for r d res :: u32
  by (auto simp: bit_eq_iff bit_simps)

lemma most_kept: "r \<le> d \<Longrightarrow> r AND NOT res \<le> d" for r d res :: u32
  using and_least [of r "NOT res"] by simp

lemma field_most_kept: "field fmask shift r \<le> v \<Longrightarrow> field fmask shift (r AND NOT res) \<le> v" for r fmask v res :: u32
proof -
  assume "field fmask shift r \<le> v"
  moreover have "(r AND NOT res) AND fmask \<le> r AND fmask" using and_least [of "r AND fmask" "NOT res"] by (simp add: ac_simps)
  ultimately show ?thesis using drop_bit_mono order_trans by blast
qed

lemma field_same: "fmask AND res = 0 \<Longrightarrow> (r AND NOT res) AND fmask = r AND fmask" for r fmask res :: u32
  by (simp add: bit_eq_iff bit_simps) blast

text \<open>A check of a field does not touch the bits of another.\<close>

lemma other_field:
  assumes "fmask AND gmask = 0" and "push_bit shift v AND gmask = 0"
  shows "snd (field_most_check fmask shift v (f, r)) AND gmask = r AND gmask"
proof -
  have "((r AND NOT fmask) OR push_bit shift v) AND gmask = r AND gmask"
    using assms by (simp add: bit_eq_iff bit_simps) blast
  then show ?thesis by (auto simp: field_most_check_def)
qed

text \<open>Family, model and stepping do not depend on the reserved bits.\<close>

lemma fms_and:
  assumes "r AND FN00000001_EAX_EFAMILY_MASK = r' AND FN00000001_EAX_EFAMILY_MASK"
    and "r AND FN00000001_EAX_BFAMILY_MASK = r' AND FN00000001_EAX_BFAMILY_MASK"
    and "r AND FN00000001_EAX_EMODEL_MASK = r' AND FN00000001_EAX_EMODEL_MASK"
    and "r AND FN00000001_EAX_BMODEL_MASK = r' AND FN00000001_EAX_BMODEL_MASK"
    and "r AND FN00000001_EAX_STEPPING_MASK = r' AND FN00000001_EAX_STEPPING_MASK"
  shows "compare_FMS v r = compare_FMS v r'"
  using assms by (simp add: compare_FMS_def FMS_FAMILY_def FMS_MODEL_def FMS_STEPPING_def)

lemma fms_reserved: "compare_FMS v (r AND NOT FN00000001_EAX_RESERVED) = compare_FMS v r"
  by (rule fms_and) (rule field_same, simp add: cpuid_constants)+

lemma compare_FMS_refl: "compare_FMS v v"
  by (simp add: compare_FMS_def)

definition fms_allowed :: "fms_reg \<Rightarrow> u32 \<Rightarrow> bool" where
  "fms_allowed hw r \<longleftrightarrow> fst hw = SEV_STATUS_SUCCESS \<and> compare_FMS (snd hw) r"

interpretation fms: register_check "fms_check hw" "fms_allowed hw"
  by unfold_locales (auto simp: fms_check_def get_fms_def fms_allowed_def split: prod.splits)

lemma fms_correcting: "fst hw = SEV_STATUS_SUCCESS \<Longrightarrow> correcting_check (fms_check hw) (fms_allowed hw)"
  by unfold_locales (auto simp: fms_check_def get_fms_def fms_allowed_def compare_FMS_refl split: prod.splits)

interpretation x87_sse: correcting_check x87_sse_check
    "\<lambda>r. r AND (FN0000000D_x00_EAX_X87 OR FN0000000D_x00_EAX_SSE) = FN0000000D_x00_EAX_X87 OR FN0000000D_x00_EAX_SSE"
  by unfold_locales (auto simp: x87_sse_check_def Let_def bit_eq_iff bit_simps)

text \<open>The strict bits of the memory encryption leaf: detected, but not corrected.\<close>

interpretation strict_ebx: register_check strict_ebx_check
    "\<lambda>r. (r AND NOT FN8000001F_EBX_UNCHECKED_MASK) AND NOT FN8000001F_EBX_VMPL_SUP_MASK = FN8000001F_EBX_DEFAULT"
  by unfold_locales (auto simp: strict_ebx_check_def)

end
