(* ===== verification/Sev_CpuidPolicy.thy ===== *)
theory Sev_CpuidPolicy
  imports Sev_CpuidChecks
begin

text \<open>
  The policy that \<open>sanitize_cpuid_entry\<close> enforces, stated as what each register of a leaf may hold, and
  the proofs that the functions and the rows of the table decide it.
\<close>

section \<open>Four registers\<close>

definition run4 ::
    "(bool \<times> u32 \<Rightarrow> bool \<times> u32) \<Rightarrow> (bool \<times> u32 \<Rightarrow> bool \<times> u32) \<Rightarrow> (bool \<times> u32 \<Rightarrow> bool \<times> u32) \<Rightarrow>
     (bool \<times> u32 \<Rightarrow> bool \<times> u32) \<Rightarrow> cpuid_regs \<Rightarrow> sev_status \<times> cpuid_regs" where
  "run4 c1 c2 c3 c4 regs =
     (let (f1, eax) = c1 (False, r_eax regs); (f2, ebx) = c2 (f1, r_ebx regs);
          (f3, ecx) = c3 (f2, r_ecx regs); (f4, edx) = c4 (f3, r_edx regs)
      in (verdict f4, \<lparr>r_eax = eax, r_ebx = ebx, r_ecx = ecx, r_edx = edx\<rparr>))"

type_synonym leaf_policy = "(u32 \<Rightarrow> bool) \<times> (u32 \<Rightarrow> bool) \<times> (u32 \<Rightarrow> bool) \<times> (u32 \<Rightarrow> bool)"

definition meets :: "leaf_policy \<Rightarrow> cpuid_regs \<Rightarrow> bool" where
  "meets p regs \<longleftrightarrow> (case p of (p1, p2, p3, p4) \<Rightarrow> p1 (r_eax regs) \<and> p2 (r_ebx regs) \<and> p3 (r_ecx regs) \<and> p4 (r_edx regs))"

text \<open>What it means that a result decides a policy, and that it also corrects.\<close>

definition decides :: "leaf_policy \<Rightarrow> cpuid_regs \<Rightarrow> sev_status \<times> cpuid_regs \<Rightarrow> bool" where
  "decides p regs res \<longleftrightarrow>
     fst res = (if meets p regs then SEV_STATUS_SUCCESS else SEV_STATUS_INVALID_PARAM) \<and> (meets p regs \<longrightarrow> snd res = regs)"

lemma run4_decides:
  assumes "register_check c1 p1" "register_check c2 p2" "register_check c3 p3" "register_check c4 p4"
  shows "decides (p1, p2, p3, p4) regs (run4 c1 c2 c3 c4 regs)"
proof -
  obtain f1 eax where 1: "c1 (False, r_eax regs) = (f1, eax)" by (rule prod.exhaust)
  obtain f2 ebx where 2: "c2 (f1, r_ebx regs) = (f2, ebx)" by (rule prod.exhaust)
  obtain f3 ecx where 3: "c3 (f2, r_ecx regs) = (f3, ecx)" by (rule prod.exhaust)
  obtain f4 edx where 4: "c4 (f3, r_edx regs) = (f4, edx)" by (rule prod.exhaust)
  have f: "f4 \<longleftrightarrow> \<not> meets (p1, p2, p3, p4) regs"
    using register_check.flag_set [OF assms(1) 1] register_check.flag_set [OF assms(2) 2]
      register_check.flag_set [OF assms(3) 3] register_check.flag_set [OF assms(4) 4]
    by (auto simp: meets_def)
  have "eax = r_eax regs \<and> ebx = r_ebx regs \<and> ecx = r_ecx regs \<and> edx = r_edx regs" if "meets (p1, p2, p3, p4) regs"
    using that register_check.same_register [OF assms(1), of "r_eax regs" False] register_check.same_register [OF assms(2), of "r_ebx regs" f1]
      register_check.same_register [OF assms(3), of "r_ecx regs" f2] register_check.same_register [OF assms(4), of "r_edx regs" f3]
    by (simp add: meets_def 1 2 3 4)
  then show ?thesis by (simp add: decides_def run4_def 1 2 3 4 f verdict_def)
qed

lemma run4_corrects:
  assumes "correcting_check c1 p1" "correcting_check c2 p2" "correcting_check c3 p3" "correcting_check c4 p4"
  shows "meets (p1, p2, p3, p4) (snd (run4 c1 c2 c3 c4 regs))"
  using correcting_check.corrected [OF assms(1)] correcting_check.corrected [OF assms(2)]
    correcting_check.corrected [OF assms(3)] correcting_check.corrected [OF assms(4)]
  by (auto simp: run4_def meets_def split: prod.splits)

section \<open>The rules of the table\<close>

definition rule_allows :: "u8 \<Rightarrow> u32 \<Rightarrow> u32 \<Rightarrow> u32 \<Rightarrow> bool" where
  "rule_allows rule d res r \<longleftrightarrow>
     r AND res = 0 \<and>
     (rule = CPUID_RULE_MASK \<longrightarrow> r AND NOT d = 0) \<and> (rule = CPUID_RULE_EXACT \<longrightarrow> r = d) \<and> (rule = CPUID_RULE_LESSTHAN \<longrightarrow> r \<le> d)"

text \<open>A rule makes sense with its value: the value has no reserved bits, and the rule is one that checks.\<close>

definition sound_rule :: "u8 \<Rightarrow> u32 \<Rightarrow> u32 \<Rightarrow> bool" where
  "sound_rule rule d res \<longleftrightarrow>
     rule = CPUID_RULE_UNCHECKED \<or>
     (rule = CPUID_RULE_MASK \<or> rule = CPUID_RULE_EXACT \<or> rule = CPUID_RULE_LESSTHAN) \<and> d AND res = 0"

lemma rule_numbers:
  "CPUID_RULE_MASK \<noteq> CPUID_RULE_EXACT" "CPUID_RULE_MASK \<noteq> CPUID_RULE_LESSTHAN" "CPUID_RULE_MASK \<noteq> CPUID_RULE_UNCHECKED"
  "CPUID_RULE_EXACT \<noteq> CPUID_RULE_LESSTHAN" "CPUID_RULE_EXACT \<noteq> CPUID_RULE_UNCHECKED" "CPUID_RULE_LESSTHAN \<noteq> CPUID_RULE_UNCHECKED"
  by (simp_all add: cpuid_constants)

definition rule_step :: "u8 \<Rightarrow> u32 \<Rightarrow> u32 \<Rightarrow> bool \<times> u32 \<Rightarrow> bool \<times> u32" where
  "rule_step rule d res = (\<lambda>(failed, r).
     case cpuid_entry_rule_check rule d res r of (status, r') \<Rightarrow> (failed \<or> status \<noteq> SEV_STATUS_SUCCESS, r'))"

text \<open>The rules as the checks of the other functions: after a correction the reserved bits are not looked at.\<close>

lemma rule_step_cases:
  "rule_step CPUID_RULE_MASK d res (f, r) = (if (r AND d) \<noteq> r then (True, r AND d) else zeros_check res (f, r))"
  "rule_step CPUID_RULE_EXACT d res (f, r) = (if r \<noteq> d then (True, d) else zeros_check res (f, r))"
  "rule_step CPUID_RULE_LESSTHAN d res (f, r) = (if r > d then (True, d) else zeros_check res (f, r))"
  "rule_step CPUID_RULE_UNCHECKED d res (f, r) = zeros_check res (f, r)"
  by (auto simp: rule_step_def cpuid_entry_rule_check_def zeros_check_def Let_def rule_numbers rule_numbers [symmetric])

lemma rule_correcting:
  assumes "sound_rule rule d res"
  shows "correcting_check (rule_step rule d res) (rule_allows rule d res)"
proof
  fix r f
  have z: "zeros_check res (g, q) = (if q AND res = 0 then (g, q) else (True, q AND NOT res))" for g q
    by (simp add: zeros_check_def zeros_iff)
  have masked: "(r AND d) AND res = 0" "(r AND d) AND NOT d = 0" if "d AND res = 0"
    using that by (auto simp: bit_eq_iff bit_simps)
  have cleared: "(q AND NOT res) AND res = 0" for q by (simp add: bit_eq_iff bit_simps)
  note facts = rule_allows_def rule_numbers rule_numbers [symmetric] z mask_iff masked mask_kept most_kept cleared rule_step_cases
  show "rule_allows rule d res r \<Longrightarrow> rule_step rule d res (f, r) = (f, r)"
    using assms by (auto simp: sound_rule_def facts)
  show "\<not> rule_allows rule d res r \<Longrightarrow> fst (rule_step rule d res (f, r))"
    using assms by (auto simp: sound_rule_def facts)
  show "rule_allows rule d res (snd (rule_step rule d res (f, r)))"
    using assms by (auto simp: sound_rule_def facts)
qed

definition row_policy :: "cpuid_lookup \<Rightarrow> leaf_policy" where
  "row_policy l =
     (rule_allows (eax_rule (lk_rules l)) (lk_eax_out l) (lk_eax_reserved l),
      rule_allows (ebx_rule (lk_rules l)) (lk_ebx_out l) (lk_ebx_reserved l),
      rule_allows (ecx_rule (lk_rules l)) (lk_ecx_out l) (lk_ecx_reserved l),
      rule_allows (edx_rule (lk_rules l)) (lk_edx_out l) (lk_edx_reserved l))"

definition sound_row :: "cpuid_lookup \<Rightarrow> bool" where
  "sound_row l \<longleftrightarrow>
     sound_rule (eax_rule (lk_rules l)) (lk_eax_out l) (lk_eax_reserved l) \<and>
     sound_rule (ebx_rule (lk_rules l)) (lk_ebx_out l) (lk_ebx_reserved l) \<and>
     sound_rule (ecx_rule (lk_rules l)) (lk_ecx_out l) (lk_ecx_reserved l) \<and>
     sound_rule (edx_rule (lk_rules l)) (lk_edx_out l) (lk_edx_reserved l)"

lemma check_rules_run4:
  "(case check_rules l regs of (e, regs1) \<Rightarrow> (if e then SEV_STATUS_INVALID_PARAM else SEV_STATUS_SUCCESS, regs1)) =
    run4 (rule_step (eax_rule (lk_rules l)) (lk_eax_out l) (lk_eax_reserved l))
      (rule_step (ebx_rule (lk_rules l)) (lk_ebx_out l) (lk_ebx_reserved l))
      (rule_step (ecx_rule (lk_rules l)) (lk_ecx_out l) (lk_ecx_reserved l))
      (rule_step (edx_rule (lk_rules l)) (lk_edx_out l) (lk_edx_reserved l)) regs"
  by (simp add: check_rules_def run4_def rule_step_def verdict_def Let_def split: prod.splits)

section \<open>The rows of the table\<close>

lemmas table_rows = rows_0_to_6_def rows_7_to_B_def rows_D_0_to_5_def rows_D_6_to_C_def rows_F_to_10_def
  rows_80000000_to_5_def rows_80000006_to_19_def rows_8000001A_to_1D_def rows_8000001D_to_1F_def
  rows_80000020_def rows_80000021_to_24_def rows_80000026_def

definition custom_leaves :: "(u32 \<times> u32) list" where
  "custom_leaves = [(0x00000001, 0), (0x00000007, 0), (0x0000000D, 0), (0x0000000D, 1),
     (0x80000001, 0), (0x80000008, 0), (0x8000001F, 0), (0x80000022, 0)]"

definition good_row :: "cpuid_lookup \<Rightarrow> bool" where
  "good_row l \<longleftrightarrow>
     (if (lk_eax_in l, lk_ecx_in l) \<in> set custom_leaves then lk_custom_func l \<noteq> None else lk_custom_func l = None \<and> sound_row l)"

lemma good_rows:
  "list_all good_row rows_0_to_6" "list_all good_row rows_7_to_B" "list_all good_row rows_D_0_to_5"
  "list_all good_row rows_D_6_to_C" "list_all good_row rows_F_to_10" "list_all good_row rows_80000000_to_5"
  "list_all good_row rows_80000006_to_19" "list_all good_row rows_8000001A_to_1D" "list_all good_row rows_8000001D_to_1F"
  "list_all good_row rows_80000020" "list_all good_row rows_80000021_to_24" "list_all good_row rows_80000026"
  unfolding table_rows
  by (simp_all add: good_row_def row_def custom_leaves_def sound_row_def sound_rule_def cpuid_constants)

lemma table_good: "l \<in> set lookup_table \<Longrightarrow> good_row l"
  using good_rows by (auto simp: lookup_table_def list_all_iff)

section \<open>The functions\<close>

abbreviation no_bits :: "u32 \<Rightarrow> u32 \<Rightarrow> bool" where "no_bits res r \<equiv> r AND res = 0"
abbreviation only_bits :: "u32 \<Rightarrow> u32 \<Rightarrow> bool" where "only_bits d r \<equiv> r AND NOT d = 0"

definition FN00000001_policy :: "fms_reg \<Rightarrow> leaf_policy" where
  "FN00000001_policy hw =
     (\<lambda>r. fms_allowed hw r \<and> no_bits FN00000001_EAX_RESERVED r,
      \<lambda>r. field FN00000001_EBX_CFLUSH_MASK FN00000001_EBX_CFLUSH_SHIFT r = FN00000001_EBX_CFLUSH_EXACT \<and> no_bits FN00000001_EBX_RESERVED r,
      \<lambda>r. only_bits (FN00000001_ECX_DEFAULT OR (FN00000001_ECX_OSXSAVE OR FN00000001_ECX_RESHV)) r \<and> no_bits FN00000001_ECX_RESERVED r,
      \<lambda>r. only_bits FN00000001_EDX_DEFAULT r \<and> no_bits FN00000001_EDX_RESERVED r)"

definition FN00000007_policy :: leaf_policy where
  "FN00000007_policy =
     (\<lambda>r. r \<le> FN00000007_x00_EAX_DEFAULT \<and> no_bits FN00000007_x00_EAX_RESERVED r,
      \<lambda>r. only_bits FN00000007_x00_EBX_DEFAULT r \<and> no_bits FN00000007_x00_EBX_RESERVED r,
      \<lambda>r. only_bits (FN00000007_x00_ECX_DEFAULT OR FN00000007_x00_ECX_OSPKE) r \<and> no_bits FN00000007_x00_ECX_RESERVED r,
      \<lambda>r. only_bits FN00000007_x00_EDX_DEFAULT r \<and> no_bits FN00000007_x00_EDX_RESERVED r)"

definition FN0000000D_0_policy :: "u64 \<Rightarrow> leaf_policy" where
  "FN0000000D_0_policy xcr0 =
     (\<lambda>r. (r AND (FN0000000D_x00_EAX_X87 OR FN0000000D_x00_EAX_SSE) = FN0000000D_x00_EAX_X87 OR FN0000000D_x00_EAX_SSE \<and>
          only_bits FN0000000D_x00_EAX_DEFAULT r) \<and> no_bits FN0000000D_x00_EAX_RESERVED r,
      \<lambda>r. r = expected_ebx xcr0 \<and> no_bits FN0000000D_x00_EBX_RESERVED r,
      \<lambda>r. no_bits FN0000000D_x00_ECX_RESERVED r,
      \<lambda>r. r = FN0000000D_x00_EDX_DEFAULT \<and> no_bits FN0000000D_x00_EDX_RESERVED r)"

definition FN0000000D_1_policy :: "u64 \<Rightarrow> u64 \<Rightarrow> leaf_policy" where
  "FN0000000D_1_policy xcr0 xss =
     (\<lambda>r. only_bits FN0000000D_x01_EAX_DEFAULT r \<and> no_bits FN0000000D_x01_EAX_RESERVED r,
      \<lambda>r. r = ebx_check xcr0 xss \<and> no_bits FN0000000D_x01_EBX_RESERVED r,
      \<lambda>r. only_bits FN0000000D_x01_ECX_DEFAULT r \<and> no_bits FN0000000D_x01_ECX_RESERVED r,
      \<lambda>r. only_bits FN0000000D_x01_EDX_DEFAULT r \<and> no_bits FN0000000D_x01_EDX_RESERVED r)"

definition FN80000001_policy :: "fms_reg \<Rightarrow> leaf_policy" where
  "FN80000001_policy hw =
     (\<lambda>r. fms_allowed hw r \<and> no_bits FN00000001_EAX_RESERVED r,
      \<lambda>r. no_bits FN80000001_EBX_RESERVED r,
      \<lambda>r. only_bits FN80000001_ECX_DEFAULT r \<and> no_bits FN80000001_ECX_RESERVED r,
      \<lambda>r. only_bits FN80000001_EDX_DEFAULT r \<and> no_bits FN80000001_EDX_RESERVED r)"

definition FN80000008_policy :: leaf_policy where
  "FN80000008_policy =
     (\<lambda>r. ((field FN80000008_EAX_PADDRSIZE_MASK FN80000008_EAX_PADDRSIZE_SHIFT r \<le> FN80000008_EAX_PADDRSIZE_EXACT \<and>
           field FN80000008_EAX_LADDRSIZE_MASK FN80000008_EAX_LADDRSIZE_SHIFT r \<le> FN80000008_EAX_LADDRSIZE_EXACT) \<and>
           field FN80000008_EAX_GPADDRSIZE_MASK FN80000008_EAX_GPADDRSIZE_SHIFT r \<le> FN80000008_EAX_GPADDRSIZE_EXACT) \<and>
          no_bits FN80000008_EAX_RESERVED r,
      \<lambda>r. only_bits FN80000008_EBX_DEFAULT r \<and> no_bits FN80000008_EBX_RESERVED r,
      \<lambda>r. no_bits FN80000008_ECX_RESERVED r,
      \<lambda>r. (field FN80000008_EDX_INVLPGBMAX_MASK FN80000008_EDX_INVLPGBMAX_SHIFT r \<le> FN80000008_EDX_INVLPGBMAX_EXACT \<and>
           field FN80000008_EDX_RDPRUMAX_MASK FN80000008_EDX_RDPRUMAX_SHIFT r \<le> FN80000008_EDX_RDPRUMAX_EXACT) \<and>
          no_bits FN80000008_EDX_RESERVED r)"

definition FN8000001F_policy :: leaf_policy where
  "FN8000001F_policy =
     (\<lambda>r. only_bits FN8000001F_EAX_DEFAULT r \<and> no_bits FN8000001F_EAX_RESERVED r,
      \<lambda>r. ((r AND NOT FN8000001F_EBX_UNCHECKED_MASK) AND NOT FN8000001F_EBX_VMPL_SUP_MASK = FN8000001F_EBX_DEFAULT \<and>
           field FN8000001F_EBX_VMPL_SUP_MASK FN8000001F_EBX_VMPL_SUP_SHIFT r \<le> FN8000001F_EBX_VMPL_SUP_MAX) \<and>
          no_bits FN8000001F_EBX_RESERVED r,
      \<lambda>r. no_bits FN8000001F_ECX_RESERVED r,
      \<lambda>r. no_bits FN8000001F_EDX_RESERVED r)"

definition FN80000022_policy :: leaf_policy where
  "FN80000022_policy =
     (\<lambda>r. only_bits FN80000022_EAX_DEFAULT r \<and> no_bits FN80000022_EAX_RESERVED r,
      \<lambda>r. field FN80000022_EBX_NUM_PERF_CORE_MASK FN80000022_EBX_NUM_PERF_CORE_SHIFT r \<le> FN80000022_EBX_NUM_PERF_CORE_VALUE \<and>
          field FN80000022_EBX_LIBRV2STACKSZ_MASK FN80000022_EBX_LIBRV2STACKSZ_SHIFT r \<le> FN80000022_EBX_LIBRV2STACKSZ_VALUE,
      \<lambda>_. True,
      \<lambda>r. r = FN80000022_EDX_DEFAULT)"

end
