(* ===== verification/Sev_CpuidLeaves.thy ===== *)
theory Sev_CpuidLeaves
  imports Sev_CpuidPolicy
begin

text \<open>Every function of the policy decides the policy of its leaf, and all but one leave a register that
  the policy allows.\<close>

section \<open>Registers\<close>

lemma zeros_after_mask: "correcting_check (\<lambda>x. zeros_check res (mask_check d x)) (\<lambda>r. only_bits d r \<and> no_bits res r)"
  by (rule compose_correcting [OF mask.correcting_check_axioms zeros.correcting_check_axioms]) (simp add: mask_kept)

lemma zeros_after_free_mask:
  "correcting_check (\<lambda>x. zeros_check res (free_mask_check d free x)) (\<lambda>r. only_bits (d OR free) r \<and> no_bits res r)"
  by (rule compose_correcting [OF free_mask.correcting_check_axioms zeros.correcting_check_axioms])
    (simp only: snd_zeros mask_kept)

lemma zeros_after_most: "correcting_check (\<lambda>x. zeros_check res (most_check d x)) (\<lambda>r. r \<le> d \<and> no_bits res r)"
  by (rule compose_correcting [OF most.correcting_check_axioms zeros.correcting_check_axioms]) (simp add: most_kept)

lemma zeros_after_exact:
  "d AND res = 0 \<Longrightarrow> correcting_check (\<lambda>x. zeros_check res (exact_check d x)) (\<lambda>r. r = d \<and> no_bits res r)"
  by (rule compose_correcting [OF exact.correcting_check_axioms zeros.correcting_check_axioms]) (simp add: disjoint_not)

lemma zeros_after_fms:
  "register_check (\<lambda>x. zeros_check FN00000001_EAX_RESERVED (fms_check hw x)) (\<lambda>r. fms_allowed hw r \<and> no_bits FN00000001_EAX_RESERVED r)"
  "fst hw = SEV_STATUS_SUCCESS \<Longrightarrow> correcting_check (\<lambda>x. zeros_check FN00000001_EAX_RESERVED (fms_check hw x))
    (\<lambda>r. fms_allowed hw r \<and> no_bits FN00000001_EAX_RESERVED r)"
proof -
  show "register_check (\<lambda>x. zeros_check FN00000001_EAX_RESERVED (fms_check hw x)) (\<lambda>r. fms_allowed hw r \<and> no_bits FN00000001_EAX_RESERVED r)"
    by (rule compose_checks [OF fms.register_check_axioms correcting_is_check [OF zeros.correcting_check_axioms]])
  show "correcting_check (\<lambda>x. zeros_check FN00000001_EAX_RESERVED (fms_check hw x))
    (\<lambda>r. fms_allowed hw r \<and> no_bits FN00000001_EAX_RESERVED r)" if "fst hw = SEV_STATUS_SUCCESS"
    by (rule compose_correcting [OF fms_correcting [OF that] zeros.correcting_check_axioms]) (simp add: fms_allowed_def fms_reserved)
qed

lemmas correcting_instances = zeros.correcting_check_axioms zeros_after_mask zeros_after_free_mask zeros_after_most
  identity.correcting_check_axioms

lemmas check_instances = correcting_instances [THEN correcting_is_check]

lemma clflush_check:
  "correcting_check (\<lambda>x. zeros_check FN00000001_EBX_RESERVED
      (field_exact_check FN00000001_EBX_CFLUSH_MASK FN00000001_EBX_CFLUSH_SHIFT FN00000001_EBX_CFLUSH_EXACT x))
    (\<lambda>r. field FN00000001_EBX_CFLUSH_MASK FN00000001_EBX_CFLUSH_SHIFT r = FN00000001_EBX_CFLUSH_EXACT \<and> no_bits FN00000001_EBX_RESERVED r)"
proof (rule compose_correcting [OF field_exact_check zeros.correcting_check_axioms])
  have "FN00000001_EBX_CFLUSH_MASK AND FN00000001_EBX_RESERVED = 0" by (simp add: cpuid_constants)
  note same = field_same [OF this]
  show "field FN00000001_EBX_CFLUSH_MASK FN00000001_EBX_CFLUSH_SHIFT (snd (zeros_check FN00000001_EBX_RESERVED (f, r))) =
      FN00000001_EBX_CFLUSH_EXACT"
    if "field FN00000001_EBX_CFLUSH_MASK FN00000001_EBX_CFLUSH_SHIFT r = FN00000001_EBX_CFLUSH_EXACT" for f r
    using that by (simp only: snd_zeros same)
qed (simp add: cpuid_constants)

lemma features_check:
  "correcting_check (\<lambda>x. zeros_check FN00000007_x00_EDX_RESERVED
      (case x of (f, r) \<Rightarrow> if (r AND FN00000007_x00_EDX_DEFAULT) \<noteq> r then (True, r AND NOT FN00000007_x00_EDX_DEFAULT) else (f, r)))
    (\<lambda>r. only_bits FN00000007_x00_EDX_DEFAULT r \<and> no_bits FN00000007_x00_EDX_RESERVED r)"
proof
  have res: "FN00000007_x00_EDX_RESERVED = NOT FN00000007_x00_EDX_DEFAULT" by (simp add: cpuid_constants)
  have gone: "(r AND NOT d) AND NOT (NOT d) = 0" for r d :: u32 by (simp add: bit_eq_iff bit_simps)
  fix r f
  show "only_bits FN00000007_x00_EDX_DEFAULT r \<and> no_bits FN00000007_x00_EDX_RESERVED r \<Longrightarrow>
      zeros_check FN00000007_x00_EDX_RESERVED
       (case (f, r) of (f, r) \<Rightarrow> if (r AND FN00000007_x00_EDX_DEFAULT) \<noteq> r then (True, r AND NOT FN00000007_x00_EDX_DEFAULT) else (f, r)) = (f, r)"
    by (simp add: mask_iff zeros.accepts)
  show "\<not> (only_bits FN00000007_x00_EDX_DEFAULT r \<and> no_bits FN00000007_x00_EDX_RESERVED r) \<Longrightarrow>
      fst (zeros_check FN00000007_x00_EDX_RESERVED
       (case (f, r) of (f, r) \<Rightarrow> if (r AND FN00000007_x00_EDX_DEFAULT) \<noteq> r then (True, r AND NOT FN00000007_x00_EDX_DEFAULT) else (f, r)))"
    by (auto simp: mask_iff zeros.flag)
  show "only_bits FN00000007_x00_EDX_DEFAULT (snd (zeros_check FN00000007_x00_EDX_RESERVED
       (case (f, r) of (f, r) \<Rightarrow> if (r AND FN00000007_x00_EDX_DEFAULT) \<noteq> r then (True, r AND NOT FN00000007_x00_EDX_DEFAULT) else (f, r)))) \<and>
      no_bits FN00000007_x00_EDX_RESERVED (snd (zeros_check FN00000007_x00_EDX_RESERVED
       (case (f, r) of (f, r) \<Rightarrow> if (r AND FN00000007_x00_EDX_DEFAULT) \<noteq> r then (True, r AND NOT FN00000007_x00_EDX_DEFAULT) else (f, r))))"
    unfolding res by (auto simp: mask_iff gone mask_kept simp del: and.assoc) (auto simp: bit_eq_iff bit_simps)
qed

lemma state_check:
  "correcting_check (\<lambda>x. zeros_check FN0000000D_x00_EAX_RESERVED (mask_check FN0000000D_x00_EAX_DEFAULT (x87_sse_check x)))
    (\<lambda>r. (r AND (FN0000000D_x00_EAX_X87 OR FN0000000D_x00_EAX_SSE) = FN0000000D_x00_EAX_X87 OR FN0000000D_x00_EAX_SSE \<and>
      only_bits FN0000000D_x00_EAX_DEFAULT r) \<and> no_bits FN0000000D_x00_EAX_RESERVED r)"
proof (rule compose_correcting [OF compose_correcting [OF x87_sse.correcting_check_axioms mask.correcting_check_axioms]
      zeros.correcting_check_axioms])
  let ?b = "FN0000000D_x00_EAX_X87 OR FN0000000D_x00_EAX_SSE"
  have masked: "snd (mask_check d (f, r)) = r AND d" for d f r by (auto simp: mask_check_def)
  have sub: "?b AND FN0000000D_x00_EAX_DEFAULT = ?b" "?b AND NOT FN0000000D_x00_EAX_RESERVED = ?b"
    by (simp_all add: cpuid_constants)
  show "snd (mask_check FN0000000D_x00_EAX_DEFAULT (f, r)) AND ?b = ?b" if "r AND ?b = ?b" for f r
    using that sub(1) by (simp only: masked) (metis and.assoc and.commute)
  show "snd (zeros_check FN0000000D_x00_EAX_RESERVED (f, r)) AND ?b = ?b \<and>
      only_bits FN0000000D_x00_EAX_DEFAULT (snd (zeros_check FN0000000D_x00_EAX_RESERVED (f, r)))"
    if "r AND ?b = ?b \<and> only_bits FN0000000D_x00_EAX_DEFAULT r" for f r
  proof
    show "snd (zeros_check FN0000000D_x00_EAX_RESERVED (f, r)) AND ?b = ?b"
      using that sub(2) by (simp only: snd_zeros) (metis and.assoc and.commute)
    show "only_bits FN0000000D_x00_EAX_DEFAULT (snd (zeros_check FN0000000D_x00_EAX_RESERVED (f, r)))"
      using that by (simp add: mask_kept)
  qed
qed

section \<open>Fields\<close>

lemma field_most_zeros:
  assumes "correcting_check c ok" and "\<And>f r. ok r \<Longrightarrow> ok (snd (zeros_check res (f, r)))"
  shows "correcting_check (\<lambda>x. zeros_check res (c x)) (\<lambda>r. ok r \<and> no_bits res r)"
  by (rule compose_correcting [OF assms(1) zeros.correcting_check_axioms assms(2)])

lemma addr_size_check:
  "correcting_check (\<lambda>x. zeros_check FN80000008_EAX_RESERVED
      (field_most_check FN80000008_EAX_GPADDRSIZE_MASK FN80000008_EAX_GPADDRSIZE_SHIFT FN80000008_EAX_GPADDRSIZE_EXACT
      (field_most_check FN80000008_EAX_LADDRSIZE_MASK FN80000008_EAX_LADDRSIZE_SHIFT FN80000008_EAX_LADDRSIZE_EXACT
      (field_most_check FN80000008_EAX_PADDRSIZE_MASK FN80000008_EAX_PADDRSIZE_SHIFT FN80000008_EAX_PADDRSIZE_EXACT x))))
    (\<lambda>r. ((field FN80000008_EAX_PADDRSIZE_MASK FN80000008_EAX_PADDRSIZE_SHIFT r \<le> FN80000008_EAX_PADDRSIZE_EXACT \<and>
        field FN80000008_EAX_LADDRSIZE_MASK FN80000008_EAX_LADDRSIZE_SHIFT r \<le> FN80000008_EAX_LADDRSIZE_EXACT) \<and>
        field FN80000008_EAX_GPADDRSIZE_MASK FN80000008_EAX_GPADDRSIZE_SHIFT r \<le> FN80000008_EAX_GPADDRSIZE_EXACT) \<and>
      no_bits FN80000008_EAX_RESERVED r)"
proof (rule field_most_zeros [OF compose_correcting [OF compose_correcting [OF field_most_check field_most_check] field_most_check]])
  let ?p = "FN80000008_EAX_PADDRSIZE_MASK" and ?l = "FN80000008_EAX_LADDRSIZE_MASK" and ?g = "FN80000008_EAX_GPADDRSIZE_MASK"
  have "?l AND ?p = 0" "push_bit FN80000008_EAX_LADDRSIZE_SHIFT FN80000008_EAX_LADDRSIZE_EXACT AND ?p = 0"
    "?g AND ?p = 0" "push_bit FN80000008_EAX_GPADDRSIZE_SHIFT FN80000008_EAX_GPADDRSIZE_EXACT AND ?p = 0"
    "?g AND ?l = 0" "push_bit FN80000008_EAX_GPADDRSIZE_SHIFT FN80000008_EAX_GPADDRSIZE_EXACT AND ?l = 0"
    by (simp_all add: cpuid_constants)
  note others = other_field [OF this(1,2)] other_field [OF this(3,4)] other_field [OF this(5,6)]
  show "field ?p FN80000008_EAX_PADDRSIZE_SHIFT (snd (field_most_check ?l FN80000008_EAX_LADDRSIZE_SHIFT FN80000008_EAX_LADDRSIZE_EXACT (f, r)))
      \<le> FN80000008_EAX_PADDRSIZE_EXACT" if "field ?p FN80000008_EAX_PADDRSIZE_SHIFT r \<le> FN80000008_EAX_PADDRSIZE_EXACT" for f r
    using that by (simp only: others)
  show "field ?p FN80000008_EAX_PADDRSIZE_SHIFT (snd (field_most_check ?g FN80000008_EAX_GPADDRSIZE_SHIFT FN80000008_EAX_GPADDRSIZE_EXACT (f, r)))
        \<le> FN80000008_EAX_PADDRSIZE_EXACT \<and>
      field ?l FN80000008_EAX_LADDRSIZE_SHIFT (snd (field_most_check ?g FN80000008_EAX_GPADDRSIZE_SHIFT FN80000008_EAX_GPADDRSIZE_EXACT (f, r)))
        \<le> FN80000008_EAX_LADDRSIZE_EXACT"
    if "field ?p FN80000008_EAX_PADDRSIZE_SHIFT r \<le> FN80000008_EAX_PADDRSIZE_EXACT \<and>
      field ?l FN80000008_EAX_LADDRSIZE_SHIFT r \<le> FN80000008_EAX_LADDRSIZE_EXACT" for f r
    using that by (simp only: others)
qed (simp_all only: snd_zeros field_most_kept, simp_all add: cpuid_constants)

lemma count_check:
  "correcting_check (\<lambda>x. zeros_check FN80000008_EDX_RESERVED
      (field_most_check FN80000008_EDX_RDPRUMAX_MASK FN80000008_EDX_RDPRUMAX_SHIFT FN80000008_EDX_RDPRUMAX_EXACT
      (field_most_check FN80000008_EDX_INVLPGBMAX_MASK FN80000008_EDX_INVLPGBMAX_SHIFT FN80000008_EDX_INVLPGBMAX_EXACT x)))
    (\<lambda>r. (field FN80000008_EDX_INVLPGBMAX_MASK FN80000008_EDX_INVLPGBMAX_SHIFT r \<le> FN80000008_EDX_INVLPGBMAX_EXACT \<and>
        field FN80000008_EDX_RDPRUMAX_MASK FN80000008_EDX_RDPRUMAX_SHIFT r \<le> FN80000008_EDX_RDPRUMAX_EXACT) \<and>
      no_bits FN80000008_EDX_RESERVED r)"
proof (rule field_most_zeros [OF compose_correcting [OF field_most_check field_most_check]])
  let ?i = "FN80000008_EDX_INVLPGBMAX_MASK" and ?d = "FN80000008_EDX_RDPRUMAX_MASK"
  have "?d AND ?i = 0" "push_bit FN80000008_EDX_RDPRUMAX_SHIFT FN80000008_EDX_RDPRUMAX_EXACT AND ?i = 0"
    by (simp_all add: cpuid_constants)
  note other = other_field [OF this]
  show "field ?i FN80000008_EDX_INVLPGBMAX_SHIFT (snd (field_most_check ?d FN80000008_EDX_RDPRUMAX_SHIFT FN80000008_EDX_RDPRUMAX_EXACT (f, r)))
      \<le> FN80000008_EDX_INVLPGBMAX_EXACT" if "field ?i FN80000008_EDX_INVLPGBMAX_SHIFT r \<le> FN80000008_EDX_INVLPGBMAX_EXACT" for f r
    using that by (simp only: other)
qed (simp_all only: snd_zeros field_most_kept, simp_all add: cpuid_constants)

text \<open>The two fields of \<open>EBX\<close> are corrected one after the other, although both are read first.\<close>

lemma perf_ebx_is_two_checks:
  "perf_ebx_check x =
    field_most_check FN80000022_EBX_LIBRV2STACKSZ_MASK FN80000022_EBX_LIBRV2STACKSZ_SHIFT FN80000022_EBX_LIBRV2STACKSZ_VALUE
      (field_most_check FN80000022_EBX_NUM_PERF_CORE_MASK FN80000022_EBX_NUM_PERF_CORE_SHIFT FN80000022_EBX_NUM_PERF_CORE_VALUE x)"
proof -
  obtain f r where x: "x = (f, r)" by (rule prod.exhaust)
  have "FN80000022_EBX_NUM_PERF_CORE_MASK AND FN80000022_EBX_LIBRV2STACKSZ_MASK = 0"
    "push_bit FN80000022_EBX_NUM_PERF_CORE_SHIFT FN80000022_EBX_NUM_PERF_CORE_VALUE AND FN80000022_EBX_LIBRV2STACKSZ_MASK = 0"
    by (simp_all add: cpuid_constants)
  from other_field [OF this, of f r] show ?thesis
    unfolding x by (auto simp: perf_ebx_check_def field_most_check_def Let_def simp del: drop_bit_and split: if_splits)
qed

lemma perf_check:
  "correcting_check perf_ebx_check
    (\<lambda>r. field FN80000022_EBX_NUM_PERF_CORE_MASK FN80000022_EBX_NUM_PERF_CORE_SHIFT r \<le> FN80000022_EBX_NUM_PERF_CORE_VALUE \<and>
      field FN80000022_EBX_LIBRV2STACKSZ_MASK FN80000022_EBX_LIBRV2STACKSZ_SHIFT r \<le> FN80000022_EBX_LIBRV2STACKSZ_VALUE)"
proof -
  let ?i = "FN80000022_EBX_NUM_PERF_CORE_MASK" and ?d = "FN80000022_EBX_LIBRV2STACKSZ_MASK"
  have "?d AND ?i = 0" "push_bit FN80000022_EBX_LIBRV2STACKSZ_SHIFT FN80000022_EBX_LIBRV2STACKSZ_VALUE AND ?i = 0"
    by (simp_all add: cpuid_constants)
  note other = other_field [OF this]
  show ?thesis
    unfolding perf_ebx_is_two_checks
    by (rule compose_correcting [OF field_most_check field_most_check]) (simp_all only: other, simp_all add: cpuid_constants)
qed

lemma memory_ebx_check:
  "register_check (\<lambda>x. zeros_check FN8000001F_EBX_RESERVED
      (field_most_check FN8000001F_EBX_VMPL_SUP_MASK FN8000001F_EBX_VMPL_SUP_SHIFT FN8000001F_EBX_VMPL_SUP_MAX (strict_ebx_check x)))
    (\<lambda>r. ((r AND NOT FN8000001F_EBX_UNCHECKED_MASK) AND NOT FN8000001F_EBX_VMPL_SUP_MASK = FN8000001F_EBX_DEFAULT \<and>
      field FN8000001F_EBX_VMPL_SUP_MASK FN8000001F_EBX_VMPL_SUP_SHIFT r \<le> FN8000001F_EBX_VMPL_SUP_MAX) \<and> no_bits FN8000001F_EBX_RESERVED r)"
  by (rule compose_checks [OF compose_checks [OF strict_ebx.register_check_axioms
        correcting_is_check [OF field_most_check]] correcting_is_check [OF zeros.correcting_check_axioms]])
    (simp add: cpuid_constants)

section \<open>The leaves\<close>

lemmas custom_defs = FN00000001_CUSTOM_def FN00000007_x00_CUSTOM_def FN0000000D_X00_CUSTOM_def FN0000000D_X01_CUSTOM_def
  FN80000001_CUSTOM_def FN80000008_CUSTOM_def FN8000001F_CUSTOM_def FN80000022_CUSTOM_def

lemmas policy_defs = FN00000001_policy_def FN00000007_policy_def FN0000000D_0_policy_def FN0000000D_1_policy_def
  FN80000001_policy_def FN80000008_policy_def FN8000001F_policy_def FN80000022_policy_def

lemma expected_ebx_free: "expected_ebx xcr0 AND FN0000000D_x00_EBX_RESERVED = 0" "ebx_check xcr0 xss AND FN0000000D_x01_EBX_RESERVED = 0"
  "FN0000000D_x00_EDX_DEFAULT AND FN0000000D_x00_EDX_RESERVED = 0"
  by (simp_all add: cpuid_constants)

text \<open>Each function as four checks.\<close>

lemma custom_run4:
  "FN00000001_CUSTOM hw 0x00000001 0 xcr0 xss regs =
    run4 (\<lambda>x. zeros_check FN00000001_EAX_RESERVED (fms_check hw x))
      (\<lambda>x. zeros_check FN00000001_EBX_RESERVED
        (field_exact_check FN00000001_EBX_CFLUSH_MASK FN00000001_EBX_CFLUSH_SHIFT FN00000001_EBX_CFLUSH_EXACT x))
      (\<lambda>x. zeros_check FN00000001_ECX_RESERVED (free_mask_check FN00000001_ECX_DEFAULT (FN00000001_ECX_OSXSAVE OR FN00000001_ECX_RESHV) x))
      (\<lambda>x. zeros_check FN00000001_EDX_RESERVED (mask_check FN00000001_EDX_DEFAULT x)) regs"
  "FN00000007_x00_CUSTOM hw 0x00000007 0 xcr0 xss regs =
    run4 (\<lambda>x. zeros_check FN00000007_x00_EAX_RESERVED (most_check FN00000007_x00_EAX_DEFAULT x))
      (\<lambda>x. zeros_check FN00000007_x00_EBX_RESERVED (mask_check FN00000007_x00_EBX_DEFAULT x))
      (\<lambda>x. zeros_check FN00000007_x00_ECX_RESERVED (free_mask_check FN00000007_x00_ECX_DEFAULT FN00000007_x00_ECX_OSPKE x))
      (\<lambda>x. zeros_check FN00000007_x00_EDX_RESERVED
        (case x of (f, r) \<Rightarrow> if (r AND FN00000007_x00_EDX_DEFAULT) \<noteq> r then (True, r AND NOT FN00000007_x00_EDX_DEFAULT) else (f, r))) regs"
  "FN0000000D_X00_CUSTOM hw 0x0000000D 0 xcr0 xss regs =
    run4 (\<lambda>x. zeros_check FN0000000D_x00_EAX_RESERVED (mask_check FN0000000D_x00_EAX_DEFAULT (x87_sse_check x)))
      (\<lambda>x. zeros_check FN0000000D_x00_EBX_RESERVED (exact_check (expected_ebx xcr0) x))
      (\<lambda>x. zeros_check FN0000000D_x00_ECX_RESERVED x)
      (\<lambda>x. zeros_check FN0000000D_x00_EDX_RESERVED (exact_check FN0000000D_x00_EDX_DEFAULT x)) regs"
  "FN0000000D_X01_CUSTOM hw 0x0000000D 1 xcr0 xss regs =
    run4 (\<lambda>x. zeros_check FN0000000D_x01_EAX_RESERVED (mask_check FN0000000D_x01_EAX_DEFAULT x))
      (\<lambda>x. zeros_check FN0000000D_x01_EBX_RESERVED (exact_check (ebx_check xcr0 xss) x))
      (\<lambda>x. zeros_check FN0000000D_x01_ECX_RESERVED (mask_check FN0000000D_x01_ECX_DEFAULT x))
      (\<lambda>x. zeros_check FN0000000D_x01_EDX_RESERVED (mask_check FN0000000D_x01_EDX_DEFAULT x)) regs"
  "FN80000001_CUSTOM hw 0x80000001 0 xcr0 xss regs =
    run4 (\<lambda>x. zeros_check FN00000001_EAX_RESERVED (fms_check hw x)) (\<lambda>x. zeros_check FN80000001_EBX_RESERVED x)
      (\<lambda>x. zeros_check FN80000001_ECX_RESERVED (mask_check FN80000001_ECX_DEFAULT x))
      (\<lambda>x. zeros_check FN80000001_EDX_RESERVED (mask_check FN80000001_EDX_DEFAULT x)) regs"
  "FN80000008_CUSTOM hw 0x80000008 0 xcr0 xss regs =
    run4 (\<lambda>x. zeros_check FN80000008_EAX_RESERVED
        (field_most_check FN80000008_EAX_GPADDRSIZE_MASK FN80000008_EAX_GPADDRSIZE_SHIFT FN80000008_EAX_GPADDRSIZE_EXACT
        (field_most_check FN80000008_EAX_LADDRSIZE_MASK FN80000008_EAX_LADDRSIZE_SHIFT FN80000008_EAX_LADDRSIZE_EXACT
        (field_most_check FN80000008_EAX_PADDRSIZE_MASK FN80000008_EAX_PADDRSIZE_SHIFT FN80000008_EAX_PADDRSIZE_EXACT x))))
      (\<lambda>x. zeros_check FN80000008_EBX_RESERVED (mask_check FN80000008_EBX_DEFAULT x))
      (\<lambda>x. zeros_check FN80000008_ECX_RESERVED x)
      (\<lambda>x. zeros_check FN80000008_EDX_RESERVED
        (field_most_check FN80000008_EDX_RDPRUMAX_MASK FN80000008_EDX_RDPRUMAX_SHIFT FN80000008_EDX_RDPRUMAX_EXACT
        (field_most_check FN80000008_EDX_INVLPGBMAX_MASK FN80000008_EDX_INVLPGBMAX_SHIFT FN80000008_EDX_INVLPGBMAX_EXACT x))) regs"
  "FN8000001F_CUSTOM hw 0x8000001F 0 xcr0 xss regs =
    run4 (\<lambda>x. zeros_check FN8000001F_EAX_RESERVED (mask_check FN8000001F_EAX_DEFAULT x))
      (\<lambda>x. zeros_check FN8000001F_EBX_RESERVED
        (field_most_check FN8000001F_EBX_VMPL_SUP_MASK FN8000001F_EBX_VMPL_SUP_SHIFT FN8000001F_EBX_VMPL_SUP_MAX (strict_ebx_check x)))
      (\<lambda>x. zeros_check FN8000001F_ECX_RESERVED x) (\<lambda>x. zeros_check FN8000001F_EDX_RESERVED x) regs"
  "FN80000022_CUSTOM hw 0x80000022 0 xcr0 xss regs =
    run4 (\<lambda>x. zeros_check FN80000022_EAX_RESERVED (mask_check FN80000022_EAX_DEFAULT x)) perf_ebx_check (\<lambda>x. x)
      (exact_check FN80000022_EDX_DEFAULT) regs"
  by (simp_all add: custom_defs run4_def)

text \<open>The custom functions, by their leaf.\<close>

definition custom_policy :: "fms_reg \<Rightarrow> u32 \<Rightarrow> u32 \<Rightarrow> u64 \<Rightarrow> u64 \<Rightarrow> leaf_policy" where
  "custom_policy hw eax_in ecx_in xcr0 xss =
     (if eax_in = 0x00000001 then FN00000001_policy hw
      else if eax_in = 0x00000007 then FN00000007_policy
      else if eax_in = 0x0000000D \<and> ecx_in = 0 then FN0000000D_0_policy xcr0
      else if eax_in = 0x0000000D then FN0000000D_1_policy xcr0 xss
      else if eax_in = 0x80000001 then FN80000001_policy hw
      else if eax_in = 0x80000008 then FN80000008_policy
      else if eax_in = 0x8000001F then FN8000001F_policy
      else FN80000022_policy)"

definition custom_result :: "fms_reg \<Rightarrow> u32 \<Rightarrow> u32 \<Rightarrow> u64 \<Rightarrow> u64 \<Rightarrow> cpuid_regs \<Rightarrow> sev_status \<times> cpuid_regs" where
  "custom_result hw eax_in ecx_in xcr0 xss regs =
     (if eax_in = 0x00000001 then FN00000001_CUSTOM hw eax_in ecx_in xcr0 xss regs
      else if eax_in = 0x00000007 then FN00000007_x00_CUSTOM hw eax_in ecx_in xcr0 xss regs
      else if eax_in = 0x0000000D \<and> ecx_in = 0 then FN0000000D_X00_CUSTOM hw eax_in ecx_in xcr0 xss regs
      else if eax_in = 0x0000000D then FN0000000D_X01_CUSTOM hw eax_in ecx_in xcr0 xss regs
      else if eax_in = 0x80000001 then FN80000001_CUSTOM hw eax_in ecx_in xcr0 xss regs
      else if eax_in = 0x80000008 then FN80000008_CUSTOM hw eax_in ecx_in xcr0 xss regs
      else if eax_in = 0x8000001F then FN8000001F_CUSTOM hw eax_in ecx_in xcr0 xss regs
      else FN80000022_CUSTOM hw eax_in ecx_in xcr0 xss regs)"

lemma exact_checks:
  "correcting_check (\<lambda>x. zeros_check FN0000000D_x00_EBX_RESERVED (exact_check (expected_ebx xcr0) x))
    (\<lambda>r. r = expected_ebx xcr0 \<and> no_bits FN0000000D_x00_EBX_RESERVED r)"
  "correcting_check (\<lambda>x. zeros_check FN0000000D_x01_EBX_RESERVED (exact_check (ebx_check xcr0 xss) x))
    (\<lambda>r. r = ebx_check xcr0 xss \<and> no_bits FN0000000D_x01_EBX_RESERVED r)"
  "correcting_check (\<lambda>x. zeros_check FN0000000D_x00_EDX_RESERVED (exact_check FN0000000D_x00_EDX_DEFAULT x))
    (\<lambda>r. r = FN0000000D_x00_EDX_DEFAULT \<and> no_bits FN0000000D_x00_EDX_RESERVED r)"
  by (rule zeros_after_exact, rule expected_ebx_free)+

lemmas register_corrections = correcting_instances exact.correcting_check_axioms exact_checks clflush_check features_check state_check
  addr_size_check count_check perf_check

lemmas register_checks = register_corrections [THEN correcting_is_check] zeros_after_fms(1) memory_ebx_check

lemma leaf_decides:
  "decides (FN00000001_policy hw) regs (FN00000001_CUSTOM hw 0x00000001 0 xcr0 xss regs)"
  "decides (FN00000007_policy) regs (FN00000007_x00_CUSTOM hw 0x00000007 0 xcr0 xss regs)"
  "decides (FN0000000D_0_policy xcr0) regs (FN0000000D_X00_CUSTOM hw 0x0000000D 0 xcr0 xss regs)"
  "decides (FN0000000D_1_policy xcr0 xss) regs (FN0000000D_X01_CUSTOM hw 0x0000000D 1 xcr0 xss regs)"
  "decides (FN80000001_policy hw) regs (FN80000001_CUSTOM hw 0x80000001 0 xcr0 xss regs)"
  "decides (FN80000008_policy) regs (FN80000008_CUSTOM hw 0x80000008 0 xcr0 xss regs)"
  "decides (FN8000001F_policy) regs (FN8000001F_CUSTOM hw 0x8000001F 0 xcr0 xss regs)"
  "decides (FN80000022_policy) regs (FN80000022_CUSTOM hw 0x80000022 0 xcr0 xss regs)"
  unfolding policy_defs custom_run4 by (rule run4_decides; rule register_checks)+

lemma leaf_corrects:
  "fst hw = SEV_STATUS_SUCCESS \<Longrightarrow> meets (FN00000001_policy hw) (snd (FN00000001_CUSTOM hw 0x00000001 0 xcr0 xss regs))"
  "meets (FN00000007_policy) (snd (FN00000007_x00_CUSTOM hw 0x00000007 0 xcr0 xss regs))"
  "meets (FN0000000D_0_policy xcr0) (snd (FN0000000D_X00_CUSTOM hw 0x0000000D 0 xcr0 xss regs))"
  "meets (FN0000000D_1_policy xcr0 xss) (snd (FN0000000D_X01_CUSTOM hw 0x0000000D 1 xcr0 xss regs))"
  "fst hw = SEV_STATUS_SUCCESS \<Longrightarrow> meets (FN80000001_policy hw) (snd (FN80000001_CUSTOM hw 0x80000001 0 xcr0 xss regs))"
  "meets (FN80000008_policy) (snd (FN80000008_CUSTOM hw 0x80000008 0 xcr0 xss regs))"
  "meets (FN80000022_policy) (snd (FN80000022_CUSTOM hw 0x80000022 0 xcr0 xss regs))"
  unfolding policy_defs custom_run4
  by (rule run4_corrects; (rule zeros_after_fms(2), assumption | rule register_corrections))+

lemma custom_decides:
  assumes "(eax_in, ecx_in) \<in> set custom_leaves"
  shows "decides (custom_policy hw eax_in ecx_in xcr0 xss) regs (custom_result hw eax_in ecx_in xcr0 xss regs)"
  using assms unfolding custom_leaves_def by (auto simp: custom_policy_def custom_result_def leaf_decides)

lemma custom_corrects:
  assumes "(eax_in, ecx_in) \<in> set custom_leaves" and "eax_in \<noteq> 0x8000001F" and "fst hw = SEV_STATUS_SUCCESS"
  shows "meets (custom_policy hw eax_in ecx_in xcr0 xss) (snd (custom_result hw eax_in ecx_in xcr0 xss regs))"
  using assms unfolding custom_leaves_def by (auto simp: custom_policy_def custom_result_def leaf_corrects)

end
