(* ===== verification/Sev_CpuidSpec.thy ===== *)
theory Sev_CpuidSpec
  imports Sev_CpuidLeaves
begin

text \<open>
  What the registers of a CPUID function may hold, written down with numbers of its own: neither the
  rows of \<open>lookup_table\<close> nor the constants of \<open>cpuid_lookup.h\<close> nor the functions of the code are used in
  it. The check of an entry decides it, and its corrections meet it.

  Left out are the functions for which a comment of the repository and the code say different things:
  family, model and stepping (1 and \<open>80000001\<close>), the sizes of the XSAVE areas (\<open>D\<close>, 0 and 1), the memory
  encryption function \<open>8000001F\<close>, the performance counters \<open>80000022\<close>, and the functions with a value
  that the header calls a mask and the table does not check (\<open>B\<close>, 1; \<open>80000006\<close>; \<open>8000000A\<close>; \<open>8000001D\<close>, 0
  to 3; \<open>8000001E\<close>).
\<close>

section \<open>The requirements\<close>

text \<open>Anything; only these bits; this value; at most this value; fields, each given by its position,
  its width and its greatest value, and nothing outside of them.\<close>

datatype requirement = Any | Bits u32 | Exactly u32 | At_most u32 | Fields "(nat \<times> nat \<times> u32) list"

fun fulfils :: "u32 \<Rightarrow> requirement \<Rightarrow> bool" where
  "fulfils r Any \<longleftrightarrow> True"
| "fulfils r (Bits m) \<longleftrightarrow> r AND NOT m = 0"
| "fulfils r (Exactly v) \<longleftrightarrow> r = v"
| "fulfils r (At_most v) \<longleftrightarrow> r \<le> v"
| "fulfils r (Fields fs) \<longleftrightarrow>
     (\<forall>(p, w, v) \<in> set fs. take_bit w (drop_bit p r) \<le> v) \<and>
     (\<forall>n < 32. bit r n \<longrightarrow> (\<exists>(p, w, v) \<in> set fs. p \<le> n \<and> n < p + w))"

type_synonym requirements = "requirement \<times> requirement \<times> requirement \<times> requirement"

definition fulfil_all :: "requirements \<Rightarrow> cpuid_regs \<Rightarrow> bool" where
  "fulfil_all q regs \<longleftrightarrow> (case q of (q1, q2, q3, q4) \<Rightarrow>
     fulfils (r_eax regs) q1 \<and> fulfils (r_ebx regs) q2 \<and> fulfils (r_ecx regs) q3 \<and> fulfils (r_edx regs) q4)"

text \<open>The function, its sub-function and the requirements for \<open>EAX\<close>, \<open>EBX\<close>, \<open>ECX\<close> and \<open>EDX\<close>.\<close>

definition published :: "((u32 \<times> u32) \<times> requirements) list" where
  "published = [
     ((0, 0), At_most 0x10, Any, Any, Any),
     ((0x2, 0), Any, Any, Any, Any),
     ((0x4, 0), Any, Any, Any, Any),
     ((0x5, 0), Bits 0xFFFF, Bits 0xFFFF, Bits 0x3, Bits 0xFF),
     ((0x6, 0), Bits 0x4, Exactly 0, Bits 1, Exactly 0),
     ((0x7, 0), At_most 1, Bits 0xF1BF97A9, Bits 0x415FDE, Bits 0x10000010),
     ((0x7, 1), Bits 0x20, Exactly 0, Exactly 0, Exactly 0),
     ((0xB, 0), Bits 0x1F, Bits 0xFFFF, Bits 0xFFFF, Any),
     ((0xB, 2), Bits 0x1F, Bits 0xFFFF, Bits 0xFFFF, Any),
     ((0xD, 2), Exactly 0x100, Exactly 0x240, Exactly 0, Exactly 0),
     ((0xD, 5), Exactly 0x40, Exactly 0x340, Bits 0x3, Exactly 0),
     ((0xD, 6), Exactly 0x200, Exactly 0x380, Bits 0x3, Exactly 0),
     ((0xD, 7), Exactly 0x400, Exactly 0x580, Bits 0x3, Exactly 0),
     ((0xD, 9), Exactly 0x8, Exactly 0x980, Exactly 0, Exactly 0),
     ((0xD, 11), Exactly 0x10, Exactly 0, Exactly 1, Exactly 0),
     ((0xD, 12), Exactly 0x18, Exactly 0, Exactly 1, Exactly 0),
     ((0xF, 0), Exactly 0, Any, Exactly 0, Bits 0x2),
     ((0xF, 1), Bits 0x1FF, Any, Any, Bits 0x7),
     ((0x10, 0), Exactly 0, Bits 0x6, Exactly 0, Exactly 0),
     ((0x10, 1), Bits 0x1F, Any, Bits 0x4, Bits 0xFFFF),
     ((0x80000000, 0), At_most 0x80000028, Any, Any, Any),
     ((0x80000002, 0), Any, Any, Any, Any),
     ((0x80000003, 0), Any, Any, Any, Any),
     ((0x80000004, 0), Any, Any, Any, Any),
     ((0x80000005, 0), Any, Any, Any, Any),
     ((0x80000007, 0), Exactly 0, Bits 0x3B, Any, Bits 0x6799),
     ((0x80000008, 0), Fields [(0, 8, 0x34), (8, 8, 0x39), (16, 8, 0xFF)], Bits 0x79BEF35F, Bits 0x3F0FF, Fields [(0, 16, 7), (16, 8, 1)]),
     ((0x80000019, 0), Any, Any, Exactly 0, Exactly 0),
     ((0x8000001A, 0), Bits 0x7, Exactly 0, Exactly 0, Exactly 0),
     ((0x8000001B, 0), Bits 0xBFF, Exactly 0, Exactly 0, Exactly 0),
     ((0x8000001D, 4), Bits 0xF, Exactly 0, Any, Exactly 0),
     ((0x80000020, 0), Exactly 0, Bits 0x1E, Exactly 0, Exactly 0),
     ((0x80000020, 1), Any, Exactly 0, Exactly 0, Any),
     ((0x80000020, 2), Any, Exactly 0, Exactly 0, Any),
     ((0x80000020, 3), Exactly 0, Any, Bits 0x7F, Exactly 0),
     ((0x80000021, 0), Bits 0x18062FCF, Bits 0xFFF, Exactly 0, Exactly 0),
     ((0x80000023, 0), Bits 1, Any, Exactly 0, Exactly 0),
     ((0x80000024, 0), At_most 1, Bits 1, Bits 0x3, Exactly 0),
     ((0x80000024, 1), Bits 0x1FF, Exactly 0, Exactly 0, Exactly 0),
     ((0x80000026, 0), Any, Any, Any, Any),
     ((0x80000026, 1), Any, Any, Any, Any),
     ((0x80000026, 2), Any, Any, Any, Any),
     ((0x80000026, 3), Any, Any, Any, Any)]"

definition left_out_leaves :: "(u32 \<times> u32) list" where
  "left_out_leaves = [(1, 0), (0xB, 1), (0xD, 0), (0xD, 1), (0x80000001, 0), (0x80000006, 0), (0x8000000A, 0),
     (0x8000001D, 0), (0x8000001D, 1), (0x8000001D, 2), (0x8000001D, 3), (0x8000001E, 0), (0x8000001F, 0),
     (0x80000022, 0)]"

text \<open>A function that is not published must report nothing.\<close>

definition leaf_allows :: "u32 \<times> u32 \<Rightarrow> cpuid_regs \<Rightarrow> bool" where
  "leaf_allows leaf regs \<longleftrightarrow>
     fulfil_all (case map_of published leaf of Some q \<Rightarrow> q | None \<Rightarrow> (Exactly 0, Exactly 0, Exactly 0, Exactly 0)) regs"

section \<open>The rows of the table\<close>

definition requirement_of :: "u8 \<Rightarrow> u32 \<Rightarrow> u32 \<Rightarrow> requirement" where
  "requirement_of rule d res =
     (if rule = CPUID_RULE_UNCHECKED then (if res = 0 then Any else Bits (NOT res))
      else if rule = CPUID_RULE_MASK then Bits (d AND NOT res)
      else if rule = CPUID_RULE_EXACT then Exactly d
      else At_most d)"

text \<open>A greatest value goes with no reserved bits.\<close>

definition plain_rule :: "u8 \<Rightarrow> u32 \<Rightarrow> u32 \<Rightarrow> bool" where
  "plain_rule rule d res \<longleftrightarrow> sound_rule rule d res \<and> (rule = CPUID_RULE_LESSTHAN \<longrightarrow> res = 0)"

lemma requirement_of_rule:
  assumes "plain_rule rule d res"
  shows "fulfils r (requirement_of rule d res) \<longleftrightarrow> rule_allows rule d res r"
proof -
  have "r AND NOT (d AND NOT res) = 0 \<longleftrightarrow> r AND NOT d = 0 \<and> r AND res = 0"
    by (simp add: bit_eq_iff bit_simps) blast
  then show ?thesis
    using assms by (auto simp: plain_rule_def sound_rule_def requirement_of_def rule_allows_def
        rule_numbers rule_numbers [symmetric])
qed

definition requirements_of :: "cpuid_lookup \<Rightarrow> requirements" where
  "requirements_of l =
     (requirement_of (eax_rule (lk_rules l)) (lk_eax_out l) (lk_eax_reserved l),
      requirement_of (ebx_rule (lk_rules l)) (lk_ebx_out l) (lk_ebx_reserved l),
      requirement_of (ecx_rule (lk_rules l)) (lk_ecx_out l) (lk_ecx_reserved l),
      requirement_of (edx_rule (lk_rules l)) (lk_edx_out l) (lk_edx_reserved l))"

definition published_row :: "cpuid_lookup \<Rightarrow> bool" where
  "published_row l \<longleftrightarrow>
     (lk_eax_in l, lk_ecx_in l) \<in> set left_out_leaves \<or>
     (if (lk_eax_in l, lk_ecx_in l) \<in> set custom_leaves then map_of published (lk_eax_in l, lk_ecx_in l) \<noteq> None
      else map_of published (lk_eax_in l, lk_ecx_in l) = Some (requirements_of l) \<and>
        plain_rule (eax_rule (lk_rules l)) (lk_eax_out l) (lk_eax_reserved l) \<and>
        plain_rule (ebx_rule (lk_rules l)) (lk_ebx_out l) (lk_ebx_reserved l) \<and>
        plain_rule (ecx_rule (lk_rules l)) (lk_ecx_out l) (lk_ecx_reserved l) \<and>
        plain_rule (edx_rule (lk_rules l)) (lk_edx_out l) (lk_edx_reserved l))"

lemma published_rows:
  "list_all published_row rows_0_to_6" "list_all published_row rows_7_to_B" "list_all published_row rows_D_0_to_5"
  "list_all published_row rows_D_6_to_C" "list_all published_row rows_F_to_10" "list_all published_row rows_80000000_to_5"
  "list_all published_row rows_80000006_to_19" "list_all published_row rows_8000001A_to_1D" "list_all published_row rows_8000001D_to_1F"
  "list_all published_row rows_80000020" "list_all published_row rows_80000021_to_24" "list_all published_row rows_80000026"
  unfolding table_rows
  by (simp_all add: published_row_def row_def published_def left_out_leaves_def custom_leaves_def requirements_of_def
      requirement_of_def plain_rule_def sound_rule_def cpuid_constants)

lemma table_published: "l \<in> set lookup_table \<Longrightarrow> published_row l"
  using published_rows by (auto simp: lookup_table_def list_all_iff)

lemma row_requirements:
  assumes "l \<in> set lookup_table" and "leaf = (lk_eax_in l, lk_ecx_in l)"
    and "leaf \<notin> set left_out_leaves" and "leaf \<notin> set custom_leaves"
  shows "leaf_allows leaf regs \<longleftrightarrow> meets (row_policy l) regs"
  using table_published [OF assms(1)] assms(2-4)
  by (auto simp: published_row_def leaf_allows_def fulfil_all_def requirements_of_def requirement_of_rule
      row_policy_def meets_def)

section \<open>The functions with rules of their own\<close>

lemma map_published_custom:
  "map_of published (7, 0) = Some (At_most 1, Bits 0xF1BF97A9, Bits 0x415FDE, Bits 0x10000010)"
  "map_of published (0x80000008, 0) = Some (Fields [(0, 8, 0x34), (8, 8, 0x39), (16, 8, 0xFF)],
     Bits 0x79BEF35F, Bits 0x3F0FF, Fields [(0, 16, 7), (16, 8, 1)])"
  by (simp_all add: published_def)

lemma two_masks: "m = d AND NOT res \<Longrightarrow> r AND NOT m = 0 \<longleftrightarrow> only_bits d r \<and> no_bits res r" for r m d res :: u32
  by (simp add: bit_eq_iff bit_simps) blast

lemma feature_requirements: "leaf_allows (7, 0) regs \<longleftrightarrow> meets FN00000007_policy regs"
proof -
  have "fulfils r (Bits 0xF1BF97A9) \<longleftrightarrow> only_bits FN00000007_x00_EBX_DEFAULT r \<and> no_bits FN00000007_x00_EBX_RESERVED r"
    "fulfils r (Bits 0x415FDE) \<longleftrightarrow>
      only_bits (FN00000007_x00_ECX_DEFAULT OR FN00000007_x00_ECX_OSPKE) r \<and> no_bits FN00000007_x00_ECX_RESERVED r"
    "fulfils r (Bits 0x10000010) \<longleftrightarrow> only_bits FN00000007_x00_EDX_DEFAULT r \<and> no_bits FN00000007_x00_EDX_RESERVED r" for r
    unfolding fulfils.simps by (rule two_masks, simp add: cpuid_constants)+
  moreover have "fulfils r (At_most 1) \<longleftrightarrow> r \<le> FN00000007_x00_EAX_DEFAULT \<and> no_bits FN00000007_x00_EAX_RESERVED r" for r
    by (simp add: cpuid_constants)
  ultimately show ?thesis
    by (simp only: leaf_allows_def map_published_custom option.case fulfil_all_def prod.case FN00000007_policy_def meets_def)
qed

lemma field_is_bits: "m = push_bit p (mask w) \<Longrightarrow> field m p r = take_bit w (drop_bit p r)" for r :: u32
  by (auto simp: bit_eq_iff bit_simps dest: bit_imp_le_length)

lemma size_fields:
  "field FN80000008_EAX_PADDRSIZE_MASK FN80000008_EAX_PADDRSIZE_SHIFT r = take_bit 8 (drop_bit 0 r)"
  "field FN80000008_EAX_LADDRSIZE_MASK FN80000008_EAX_LADDRSIZE_SHIFT r = take_bit 8 (drop_bit 8 r)"
  "field FN80000008_EAX_GPADDRSIZE_MASK FN80000008_EAX_GPADDRSIZE_SHIFT r = take_bit 8 (drop_bit 16 r)"
  "field FN80000008_EDX_INVLPGBMAX_MASK FN80000008_EDX_INVLPGBMAX_SHIFT r = take_bit 16 (drop_bit 0 r)"
  "field FN80000008_EDX_RDPRUMAX_MASK FN80000008_EDX_RDPRUMAX_SHIFT r = take_bit 8 (drop_bit 16 r)"
  unfolding FN80000008_EAX_PADDRSIZE_SHIFT_def FN80000008_EAX_LADDRSIZE_SHIFT_def FN80000008_EAX_GPADDRSIZE_SHIFT_def
    FN80000008_EDX_INVLPGBMAX_SHIFT_def FN80000008_EDX_RDPRUMAX_SHIFT_def
  by (rule field_is_bits, simp add: cpuid_constants mask_eq_exp_minus_1)+

lemma outside_fields: "res = NOT (mask k) \<Longrightarrow> no_bits res r \<longleftrightarrow> (\<forall>n < 32. bit r n \<longrightarrow> n < k)" for r res :: u32
  by (auto simp: bit_eq_iff bit_simps)

lemma size_reserved:
  "no_bits FN80000008_EAX_RESERVED r \<longleftrightarrow> (\<forall>n < 32. bit r n \<longrightarrow> n < 8 \<or> 8 \<le> n \<and> n < 16 \<or> 16 \<le> n \<and> n < 24)"
  "no_bits FN80000008_EDX_RESERVED r \<longleftrightarrow> (\<forall>n < 32. bit r n \<longrightarrow> n < 16 \<or> 16 \<le> n \<and> n < 24)"
proof -
  have "FN80000008_EAX_RESERVED = NOT (mask 24)" "FN80000008_EDX_RESERVED = NOT (mask 24)"
    by (simp_all add: cpuid_constants mask_eq_exp_minus_1)
  note outside_fields [OF this(1), of r] outside_fields [OF this(2), of r]
  then show "no_bits FN80000008_EAX_RESERVED r \<longleftrightarrow> (\<forall>n < 32. bit r n \<longrightarrow> n < 8 \<or> 8 \<le> n \<and> n < 16 \<or> 16 \<le> n \<and> n < 24)"
    "no_bits FN80000008_EDX_RESERVED r \<longleftrightarrow> (\<forall>n < 32. bit r n \<longrightarrow> n < 16 \<or> 16 \<le> n \<and> n < 24)"
    by auto
qed

lemma size_requirements: "leaf_allows (0x80000008, 0) regs \<longleftrightarrow> meets FN80000008_policy regs"
proof -
  have "fulfils r (Bits 0x79BEF35F) \<longleftrightarrow> only_bits FN80000008_EBX_DEFAULT r \<and> no_bits FN80000008_EBX_RESERVED r" for r
    unfolding fulfils.simps by (rule two_masks) (simp add: cpuid_constants)
  moreover have "fulfils r (Bits 0x3F0FF) \<longleftrightarrow> no_bits FN80000008_ECX_RESERVED r" for r
  proof -
    have "NOT 0x3F0FF = FN80000008_ECX_RESERVED" by (simp add: cpuid_constants)
    then show ?thesis unfolding fulfils.simps by (rule arg_cong)
  qed
  moreover have "fulfils r (Fields [(0, 8, 0x34), (8, 8, 0x39), (16, 8, 0xFF)]) \<longleftrightarrow>
      ((take_bit 8 (drop_bit 0 r) \<le> FN80000008_EAX_PADDRSIZE_EXACT \<and> take_bit 8 (drop_bit 8 r) \<le> FN80000008_EAX_LADDRSIZE_EXACT) \<and>
        take_bit 8 (drop_bit 16 r) \<le> FN80000008_EAX_GPADDRSIZE_EXACT) \<and> no_bits FN80000008_EAX_RESERVED r" for r
    unfolding size_reserved FN80000008_EAX_PADDRSIZE_EXACT_def FN80000008_EAX_LADDRSIZE_EXACT_def
      FN80000008_EAX_GPADDRSIZE_EXACT_def by simp
  moreover have "fulfils r (Fields [(0, 16, 7), (16, 8, 1)]) \<longleftrightarrow>
      (take_bit 16 (drop_bit 0 r) \<le> FN80000008_EDX_INVLPGBMAX_EXACT \<and> take_bit 8 (drop_bit 16 r) \<le> FN80000008_EDX_RDPRUMAX_EXACT) \<and>
      no_bits FN80000008_EDX_RESERVED r" for r
    unfolding size_reserved FN80000008_EDX_INVLPGBMAX_EXACT_def FN80000008_EDX_RDPRUMAX_EXACT_def by simp
  ultimately show ?thesis
    by (simp only: leaf_allows_def map_published_custom option.case fulfil_all_def prod.case FN80000008_policy_def
        meets_def size_fields)
qed

text \<open>Every function that is published is in the table.\<close>

lemma published_in_table: "set (map fst published) \<subseteq> set (map (\<lambda>l. (lk_eax_in l, lk_ecx_in l)) lookup_table)"
  unfolding lookup_table_def table_rows published_def by (simp add: row_def)

lemma published_listed:
  assumes "(a, c) \<notin> set left_out_leaves"
  shows "map_of published (a, c) = None \<longleftrightarrow> find (\<lambda>l. lk_eax_in l = a \<and> lk_ecx_in l = c) lookup_table = None"
proof
  assume none: "map_of published (a, c) = None"
  have "\<not> (lk_eax_in l = a \<and> lk_ecx_in l = c)" if "l \<in> set lookup_table" for l
    using table_published [OF that] none assms by (auto simp: published_row_def split: if_splits)
  then show "find (\<lambda>l. lk_eax_in l = a \<and> lk_ecx_in l = c) lookup_table = None" by (simp add: find_None_iff)
next
  assume "find (\<lambda>l. lk_eax_in l = a \<and> lk_ecx_in l = c) lookup_table = None"
  then have "(a, c) \<notin> set (map (\<lambda>l. (lk_eax_in l, lk_ecx_in l)) lookup_table)" by (auto simp: find_None_iff)
  then show "map_of published (a, c) = None" using published_in_table by (auto simp: map_of_eq_None_iff)
qed

end
