(* ===== verification/Sev_CpuidProperties.thy ===== *)
theory Sev_CpuidProperties
  imports Sev_CpuidSpec
begin

text \<open>
  What the check of a list of CPUID values guarantees: it accepts exactly the values that
  \<open>Sev_CpuidSpec\<close> allows, it does not change what it accepts, and what it corrects it accepts the next
  time; and where the checks of the functions that are left out there fall short.
\<close>

section \<open>One entry\<close>

text \<open>What the table says of a leaf; a leaf that is not listed must be 0.\<close>

definition cpuid_policy :: "fms_reg \<Rightarrow> u32 \<Rightarrow> u32 \<Rightarrow> u64 \<Rightarrow> u64 \<Rightarrow> leaf_policy" where
  "cpuid_policy hw eax_in ecx_in xcr0 xss =
     (if (eax_in, ecx_in) \<in> set custom_leaves then custom_policy hw eax_in ecx_in xcr0 xss
      else case find (\<lambda>l. lk_eax_in l = eax_in \<and> lk_ecx_in l = ecx_in) lookup_table of
        Some l \<Rightarrow> row_policy l
      | None \<Rightarrow> (\<lambda>r. r = 0, \<lambda>r. r = 0, \<lambda>r. r = 0, \<lambda>r. r = 0))"

lemma meets_zero: "meets (\<lambda>r. r = 0, \<lambda>r. r = 0, \<lambda>r. r = 0, \<lambda>r. r = 0) regs \<longleftrightarrow> regs = zero_regs"
  by (cases regs) (simp add: meets_def zero_regs_def)

lemma find_custom:
  "map_option lk_custom_func (find (\<lambda>l. lk_eax_in l = 0x00000001 \<and> lk_ecx_in l = 0) lookup_table) = Some (Some FN00000001_CUSTOM)"
  "map_option lk_custom_func (find (\<lambda>l. lk_eax_in l = 0x00000007 \<and> lk_ecx_in l = 0) lookup_table) = Some (Some FN00000007_x00_CUSTOM)"
  "map_option lk_custom_func (find (\<lambda>l. lk_eax_in l = 0x0000000D \<and> lk_ecx_in l = 0) lookup_table) = Some (Some FN0000000D_X00_CUSTOM)"
  "map_option lk_custom_func (find (\<lambda>l. lk_eax_in l = 0x0000000D \<and> lk_ecx_in l = 1) lookup_table) = Some (Some FN0000000D_X01_CUSTOM)"
  "map_option lk_custom_func (find (\<lambda>l. lk_eax_in l = 0x80000001 \<and> lk_ecx_in l = 0) lookup_table) = Some (Some FN80000001_CUSTOM)"
  "map_option lk_custom_func (find (\<lambda>l. lk_eax_in l = 0x80000008 \<and> lk_ecx_in l = 0) lookup_table) = Some (Some FN80000008_CUSTOM)"
  "map_option lk_custom_func (find (\<lambda>l. lk_eax_in l = 0x8000001F \<and> lk_ecx_in l = 0) lookup_table) = Some (Some FN8000001F_CUSTOM)"
  "map_option lk_custom_func (find (\<lambda>l. lk_eax_in l = 0x80000022 \<and> lk_ecx_in l = 0) lookup_table) = Some (Some FN80000022_CUSTOM)"
  unfolding lookup_table_def table_rows row_def by simp_all

text \<open>An entry with a function of its own has the result of that function.\<close>

lemma status_kept: "decides p regs res \<Longrightarrow> (if fst res \<noteq> SEV_STATUS_SUCCESS then SEV_STATUS_INVALID_PARAM else fst res, snd res) = res"
  by (cases res) (simp add: decides_def split: if_splits)

lemma found_custom:
  "map_option lk_custom_func (find (\<lambda>l. lk_eax_in l = eax_in \<and> lk_ecx_in l = ecx_in) lookup_table) = Some (Some f) \<Longrightarrow>
    sanitize_cpuid_entry hw eax_in ecx_in xcr0 xss regs =
      (let res = f hw eax_in ecx_in xcr0 xss regs
       in (if fst res \<noteq> SEV_STATUS_SUCCESS then SEV_STATUS_INVALID_PARAM else fst res, snd res))"
  by (auto simp: sanitize_cpuid_entry_def split: prod.splits)

lemma sanitize_custom:
  assumes "(eax_in, ecx_in) \<in> set custom_leaves"
  shows "sanitize_cpuid_entry hw eax_in ecx_in xcr0 xss regs = custom_result hw eax_in ecx_in xcr0 xss regs"
proof -
  have "sanitize_cpuid_entry hw eax_in ecx_in xcr0 xss regs =
      (let res = custom_result hw eax_in ecx_in xcr0 xss regs
       in (if fst res \<noteq> SEV_STATUS_SUCCESS then SEV_STATUS_INVALID_PARAM else fst res, snd res))"
    using assms unfolding custom_leaves_def by (auto simp: custom_result_def found_custom [OF find_custom(1)]
        found_custom [OF find_custom(2)] found_custom [OF find_custom(3)] found_custom [OF find_custom(4)]
        found_custom [OF find_custom(5)] found_custom [OF find_custom(6)] found_custom [OF find_custom(7)]
        found_custom [OF find_custom(8)])
  then show ?thesis using status_kept [OF custom_decides [OF assms]] by (simp only: Let_def)
qed

lemma sanitize_rules:
  assumes "(eax_in, ecx_in) \<notin> set custom_leaves" and "find (\<lambda>l. lk_eax_in l = eax_in \<and> lk_ecx_in l = ecx_in) lookup_table = Some l"
  shows "decides (row_policy l) regs (sanitize_cpuid_entry hw eax_in ecx_in xcr0 xss regs)"
    and "meets (row_policy l) (snd (sanitize_cpuid_entry hw eax_in ecx_in xcr0 xss regs))"
proof -
  have l: "l \<in> set lookup_table" "lk_eax_in l = eax_in" "lk_ecx_in l = ecx_in" using assms(2) by (auto simp: find_Some_iff)
  have g: "lk_custom_func l = None" "sound_row l" using table_good [OF l(1)] assms(1) by (simp_all add: good_row_def l)
  note c = g(2) [unfolded sound_row_def, THEN conjunct1, THEN rule_correcting]
    g(2) [unfolded sound_row_def, THEN conjunct2, THEN conjunct1, THEN rule_correcting]
    g(2) [unfolded sound_row_def, THEN conjunct2, THEN conjunct2, THEN conjunct1, THEN rule_correcting]
    g(2) [unfolded sound_row_def, THEN conjunct2, THEN conjunct2, THEN conjunct2, THEN rule_correcting]
  have run: "sanitize_cpuid_entry hw eax_in ecx_in xcr0 xss regs =
      run4 (rule_step (eax_rule (lk_rules l)) (lk_eax_out l) (lk_eax_reserved l))
        (rule_step (ebx_rule (lk_rules l)) (lk_ebx_out l) (lk_ebx_reserved l))
        (rule_step (ecx_rule (lk_rules l)) (lk_ecx_out l) (lk_ecx_reserved l))
        (rule_step (edx_rule (lk_rules l)) (lk_edx_out l) (lk_edx_reserved l)) regs"
    unfolding check_rules_run4 [symmetric] by (simp add: sanitize_cpuid_entry_def assms(2) g(1))
  show "decides (row_policy l) regs (sanitize_cpuid_entry hw eax_in ecx_in xcr0 xss regs)"
    unfolding run row_policy_def by (rule run4_decides) (rule correcting_is_check, rule c)+
  show "meets (row_policy l) (snd (sanitize_cpuid_entry hw eax_in ecx_in xcr0 xss regs))"
    unfolding run row_policy_def by (rule run4_corrects) (rule c)+
qed


lemma entry_corrects:
  assumes "eax_in \<noteq> 0x8000001F" and "fst hw = SEV_STATUS_SUCCESS"
  shows "meets (cpuid_policy hw eax_in ecx_in xcr0 xss) (snd (sanitize_cpuid_entry hw eax_in ecx_in xcr0 xss regs))"
proof (cases "(eax_in, ecx_in) \<in> set custom_leaves")
  case True
  then show ?thesis using custom_corrects [OF True assms] by (simp add: cpuid_policy_def sanitize_custom)
next
  case False
  show ?thesis
  proof (cases "find (\<lambda>l. lk_eax_in l = eax_in \<and> lk_ecx_in l = ecx_in) lookup_table")
    case None
    then show ?thesis using False by (simp add: cpuid_policy_def meets_zero sanitize_cpuid_entry_def)
  qed (use False in \<open>simp add: cpuid_policy_def sanitize_rules(2)\<close>)
qed




section \<open>Lists\<close>




lemma with_own_regs [simp]: "with_regs (regs_of e) e = e"
  by (simp add: with_regs_def regs_of_def)

lemma with_regs_parts [simp]:
  "regs_of (with_regs r e) = r" "cf_eax_in (with_regs r e) = cf_eax_in e" "cf_ecx_in (with_regs r e) = cf_ecx_in e"
  "cf_xcr0_in (with_regs r e) = cf_xcr0_in e" "cf_xss_in (with_regs r e) = cf_xss_in e"
  "cf_reserved (with_regs r e) = cf_reserved e"
  by (simp_all add: with_regs_def regs_of_def)










section \<open>Where the check falls short\<close>

text \<open>The strict bits 5:0 of \<open>EBX\<close> of the memory encryption leaf, the position of the encryption bit, are
  detected but not corrected: the value that comes back is rejected again.\<close>

lemma memory_leaf_not_corrected:
  "FN8000001F_CUSTOM hw 0x8000001F 0 xcr0 xss \<lparr>r_eax = 0, r_ebx = 0x3F, r_ecx = 0, r_edx = 0\<rparr> =
    (SEV_STATUS_INVALID_PARAM, \<lparr>r_eax = 0, r_ebx = 0x3F, r_ecx = 0, r_edx = 0\<rparr>)"
  by (simp add: FN8000001F_CUSTOM_def zeros_check_def mask_check_def field_most_check_def strict_ebx_check_def verdict_def cpuid_constants)

text \<open>The extended model is added to the base model instead of being put in front of it: on a processor of
  model \<open>11\<close> (hexadecimal), a guest may be told that it is model \<open>20\<close>.\<close>

lemma later_model_accepted: "compare_FMS 0x00A10F11 0x00A20F00"
  by (simp add: compare_FMS_def FMS_FAMILY_def FMS_MODEL_def FMS_STEPPING_def cpuid_constants)

text \<open>The sizes of the XSAVE areas that the code demands with protection keys, and with supervisor shadow
  stacks.\<close>

lemma xsave_sizes_demanded:
  "expected_ebx XCR0_MPK = 0x988" "ebx_check XCR0_MPK 0 = 0x248" "ebx_check 0 CET_S = 0x258"
  by (simp_all add: expected_ebx_def ebx_check_def cpuid_constants)

end
