(* ===== verification/Sev_Ranges.thy ===== *)
theory Sev_Ranges
  imports Sev_SnpPages
begin

text \<open>
  The initialisation of the reverse map table and PAGE_SET_STATE (\<open>sev_rmp.c\<close>, \<open>sev_mcmd.c\<close>): a list
  of address ranges, each with the value of the RMP entries of its pages, is built first and then
  written to the table.

  The state is the x86 memory of \<open>Sev_X86Copy\<close>; \<open>rmp_limit\<close>, the last address that the table
  covers, is an argument. The list lies in the scratch buffer; its field \<open>count\<close> is the length of
  \<open>rs_list\<close>. Sorting is \<open>sort_key\<close>; the order of ranges with equal base, which \<open>qsort\<close> leaves open, is
  the one in which they were added.

  Arguments for what is outside: \<open>win\<close>, the size of a mapping window (\<open>SYSHUB_TLB_WINDOW_SIZE\<close>);
  \<open>al1m\<close>, the alignment macro \<open>IS_ALIGNED_TO_1MB\<close>; \<open>eng\<close>, the copy engine, which answers when a
  command is queued and when its result is asked for, and what it has written by then; \<open>uc\<close>, what
  the cores do to the memory after an entry was locked; \<open>sscb_rmp\<close>, \<open>sscb_tseg\<close>, \<open>sscb_aseg\<close>, the bits
  of \<open>SSCB_Control\<close>. Loops that need not end for all arguments give \<open>None\<close> if they do not.
\<close>

section \<open>The bounds of the table\<close>

text \<open>\<open>regs\<close> is what \<open>get_rmp_base_end\<close> returns; the state keeps the bounds on success.\<close>

definition get_rmp_bounds :: "(u64 \<Rightarrow> bool) \<Rightarrow> sev_status \<times> u64 \<times> u64 \<Rightarrow> x86 \<Rightarrow> sev_status \<times> x86" where
  "get_rmp_bounds al1m regs X =
     (case regs of (status, rmp_base, rmp_end) \<Rightarrow>
        if status \<noteq> SEV_STATUS_SUCCESS then (status, X)
        else
          let X1 = skip_rmp_addr_check True X;
              status = validate_address_range X1 rmp_base (rmp_end - rmp_base);
              X2 = skip_rmp_addr_check False X1
          in if status \<noteq> SEV_STATUS_SUCCESS then (status, X2)
             else if \<not> al1m rmp_base \<or> \<not> al1m (rmp_end - rmp_base + 1) then (SEV_STATUS_INVALID_CONFIG, X2)
             else if (rmp_base OR rmp_end) AND SEV_CBIT_MASK \<noteq> 0 then (SEV_STATUS_UNSUPPORTED, X2)
             else (SEV_STATUS_SUCCESS, X2\<lparr>xs_rmp_base := rmp_base, xs_rmp_end := rmp_end\<rparr>))"

section \<open>Lists of ranges\<close>

record rmp_range =
  rr_base :: u64
  rr_end :: u64
  rr_val :: u64

record rmp_ranges =
  rs_limit :: nat
  rs_list :: "rmp_range list"

definition RMP_ENTRY_VAL_HV :: u64 where "RMP_ENTRY_VAL_HV = 0"
definition RMP_ENTRY_VAL_HV_FIXED :: u64 where "RMP_ENTRY_VAL_HV_FIXED = 4"
definition RMP_ENTRY_VAL_FIRMWARE :: u64 where "RMP_ENTRY_VAL_FIRMWARE = 0x8000000000000005"
definition SEV_SCRATCH_BUF_LEN :: nat where "SEV_SCRATCH_BUF_LEN = 0x5000"
definition SNP_RANGE_LIST_MAX_COUNT :: u32 where "SNP_RANGE_LIST_MAX_COUNT = 4096 div 16 - 1"
definition SNP_PAGE_SET_STATE_ADDR_RESERVED_MASK :: u64 where
  "SNP_PAGE_SET_STATE_ADDR_RESERVED_MASK = PAGE_SIZE_2M - 1"

text \<open>\<open>limit\<close> and \<open>count\<close> take 8 bytes, a range 24. The result: the answer, \<open>rmp_limit\<close> (the old one
  when it was not assigned), and the list.\<close>

definition init_ranges :: "x86 \<Rightarrow> u64 \<Rightarrow> bool \<Rightarrow> bool \<times> u64 \<times> rmp_ranges option" where
  "init_ranges X old ppRanges_null =
     (let rmp_base = xs_rmp_base X AND NOT (PAGE_SIZE_4K - 1);
          rmp_end = xs_rmp_end X OR (PAGE_SIZE_4K - 1)
      in if rmp_base \<ge> rmp_end then (False, old, None)
         else if rmp_end + 1 - rmp_base < RMP_ASID_COUNTERS_SIZE + RMP_ENTRY_SIZE then (False, old, None)
         else
           let rmp_limit = (rmp_end + 1 - (rmp_base + RMP_ASID_COUNTERS_SIZE)) div RMP_ENTRY_SIZE * PAGE_SIZE_4K - 1
           in if ppRanges_null then (False, rmp_limit, None)
              else (True, rmp_limit, Some \<lparr>rs_limit = (SEV_SCRATCH_BUF_LEN - 8) div 24, rs_list = []\<rparr>))"

definition append_range :: "rmp_ranges \<Rightarrow> u64 \<Rightarrow> u64 \<Rightarrow> u64 \<Rightarrow> bool \<times> rmp_ranges" where
  "append_range R base limit val =
     (if length (rs_list R) \<ge> rs_limit R then (False, R)
      else (True, R\<lparr>rs_list := rs_list R @ [\<lparr>rr_base = base, rr_end = limit, rr_val = val\<rparr>]\<rparr>))"

definition set_range :: "nat \<Rightarrow> rmp_range \<Rightarrow> rmp_ranges \<Rightarrow> rmp_ranges" where
  "set_range i pr R = R\<lparr>rs_list := (rs_list R)[i := pr]\<rparr>"

text \<open>The loop over the ranges that were there before; the first component is the value of an early
  return.\<close>

fun add_range_loop ::
  "u64 \<Rightarrow> u64 \<Rightarrow> u64 \<Rightarrow> nat list \<Rightarrow> bool \<Rightarrow> rmp_ranges \<Rightarrow> bool option \<times> bool \<times> rmp_ranges" where
  "add_range_loop base limit val [] overlap R = (None, overlap, R)"
| "add_range_loop base limit val (i # is) overlap R =
     (let pr = rs_list R ! i
      in if limit < rr_base pr \<or> base > rr_end pr then add_range_loop base limit val is overlap R
         else if val = rr_val pr then add_range_loop base limit val is True R
         else if base \<le> rr_base pr \<and> rr_end pr \<le> limit
         then add_range_loop base limit val is True (set_range i (pr\<lparr>rr_val := val\<rparr>) R)
         else
           let (ok, R1) = append_range R base limit val
           in if \<not> ok then (Some False, True, R1)
              else if base \<le> rr_base pr \<and> limit < rr_end pr
              then add_range_loop base limit val is True (set_range i (pr\<lparr>rr_base := limit + 1\<rparr>) R1)
              else if rr_base pr < base \<and> rr_end pr \<le> limit
              then add_range_loop base limit val is True (set_range i (pr\<lparr>rr_end := base - 1\<rparr>) R1)
              else if rr_base pr < base \<and> limit < rr_end pr
              then
                let R2 = snd (append_range R1 (limit + 1) (rr_end pr) (rr_val pr))
                in (Some True, True, set_range i (pr\<lparr>rr_end := base - 1\<rparr>) R2)
              else (Some False, True, R1))"

definition add_range :: "u64 \<Rightarrow> rmp_ranges \<Rightarrow> u64 \<Rightarrow> u64 \<Rightarrow> u64 \<Rightarrow> bool \<times> rmp_ranges" where
  "add_range rmp_limit R base limit0 val =
     (let limit = (if limit0 > rmp_limit then rmp_limit else limit0)
      in if base > rmp_limit then (True, R)
         else case add_range_loop base limit val [0..<length (rs_list R)] False R of
                (Some ok, _, R1) \<Rightarrow> (ok, R1)
              | (None, overlap, R1) \<Rightarrow>
                  if \<not> overlap then append_range R1 base limit val else (True, R1))"

fun check_range_loop :: "rmp_range list \<Rightarrow> u64 \<Rightarrow> u64 \<Rightarrow> u64 \<Rightarrow> bool \<Rightarrow> bool" where
  "check_range_loop [] base limit rmp_val ret_val = ret_val"
| "check_range_loop (pr # prs) base limit rmp_val ret_val =
     (if limit < rr_base pr \<or> base > rr_end pr then check_range_loop prs base limit rmp_val ret_val
      else if rr_val pr \<noteq> rmp_val then False
      else check_range_loop prs base limit rmp_val True)"

definition check_range :: "u64 \<Rightarrow> rmp_ranges \<Rightarrow> u64 \<Rightarrow> u64 \<Rightarrow> u64 \<Rightarrow> bool" where
  "check_range rmp_limit R base limit rmp_val =
     (if limit > rmp_limit then rmp_val = RMP_ENTRY_VAL_HV_FIXED
      else check_range_loop (rs_list R) base limit rmp_val False)"

text \<open>The comparison function of the sort.\<close>

definition range_compare :: "rmp_range \<Rightarrow> rmp_range \<Rightarrow> int" where
  "range_compare v1 v2 = (if rr_base v1 < rr_base v2 then -1 else if rr_base v2 < rr_base v1 then 1 else 0)"

section \<open>The list of the host\<close>

definition read32 :: "x86 \<Rightarrow> u64 \<Rightarrow> u32" where
  "read32 X a = ucast (word_of_bytes (read_bytes (xs_mem X) a 4))"

definition read64 :: "x86 \<Rightarrow> u64 \<Rightarrow> u64" where
  "read64 X a = word_of_bytes (read_bytes (xs_mem X) a 8)"

text \<open>One range of the list, with the part that lies in the table itself cut out.\<close>

definition add_reserved :: "x86 \<Rightarrow> u64 \<Rightarrow> u64 \<Rightarrow> u32 \<Rightarrow> rmp_ranges \<Rightarrow> rmp_ranges" where
  "add_reserved X rmp_limit base page_count R =
     (let limit = base + ucast page_count * PAGE_SIZE_4K - 1;
          rmp_base = xs_rmp_base X; rmp_end = xs_rmp_end X
      in if ranges_overlap base limit rmp_base rmp_end then
           let R1 = (if base < rmp_base
                     then snd (add_range rmp_limit R base (rmp_base - 1) RMP_ENTRY_VAL_HV_FIXED) else R)
           in if rmp_end < limit
              then snd (add_range rmp_limit R1 (rmp_end + 1) limit RMP_ENTRY_VAL_HV_FIXED) else R1
         else if page_count \<noteq> 0 then snd (add_range rmp_limit R base limit RMP_ENTRY_VAL_HV_FIXED)
         else R)"

text \<open>The loop; \<open>p\<close> is the address of the range, of which there are \<open>n\<close> left.\<close>

fun walk_reserved_loop :: "x86 \<Rightarrow> u64 \<Rightarrow> u64 \<Rightarrow> nat \<Rightarrow> u64 \<Rightarrow> rmp_ranges \<Rightarrow> sev_status \<times> rmp_ranges" where
  "walk_reserved_loop X rmp_limit base_mbz_bits 0 p R = (SEV_STATUS_SUCCESS, R)"
| "walk_reserved_loop X rmp_limit base_mbz_bits (Suc n) p R =
     (let base = read64 X p AND NOT SEV_CBIT_MASK
      in if read32 X (p + 12) \<noteq> 0 \<or> base AND base_mbz_bits \<noteq> 0 then (SEV_STATUS_INVALID_PARAM, R)
         else walk_reserved_loop X rmp_limit base_mbz_bits n (p + 16)
                (add_reserved X rmp_limit base (read32 X (p + 8)) R))"

definition walk_reserved_list :: "x86 \<Rightarrow> u64 \<Rightarrow> rmp_ranges \<Rightarrow> u64 \<Rightarrow> u64 \<Rightarrow> sev_status \<times> rmp_ranges" where
  "walk_reserved_list X rmp_limit R reserved_list_paddr base_mbz_bits =
     (if reserved_list_paddr = PADDR_INVALID \<or>
         validate_address_range X reserved_list_paddr PAGE_SIZE_4K \<noteq> SEV_STATUS_SUCCESS
      then (SEV_STATUS_INVALID_ADDRESS, R)
      else
        let a = set_asid X COPY_PLAINTEXT_IN reserved_list_paddr 0
        in if xs_map X a \<noteq> SEV_STATUS_SUCCESS then (ERR_HAL_MEMORY_MAP, R)
           else
             let rln = read32 X a
             in if read32 X (a + 4) \<noteq> 0 \<or> rln > SNP_RANGE_LIST_MAX_COUNT \<or>
                   ucast (rln * 16 + 8) + (a AND (PAGE_SIZE_4K - 1)) > PAGE_SIZE_4K
                then (SEV_STATUS_INVALID_PARAM, R)
                else walk_reserved_loop X rmp_limit base_mbz_bits (unat rln) (a + 8) R)"

definition add_known_hvfixed_ranges :: "x86 \<Rightarrow> bool \<Rightarrow> bool \<Rightarrow> u64 \<Rightarrow> u64 \<Rightarrow> rmp_ranges \<Rightarrow> rmp_ranges" where
  "add_known_hvfixed_ranges X sscb_tseg sscb_aseg smm_end rmp_limit R =
     (let R1 = (if sscb_tseg then snd (add_range rmp_limit R (xs_smm_base X) smm_end RMP_ENTRY_VAL_HV_FIXED) else R);
          R2 = (if sscb_aseg then
                  snd (add_range rmp_limit R1 (xs_aseg_base X) (xs_aseg_limit X) RMP_ENTRY_VAL_HV_FIXED) else R1)
      in snd (add_range rmp_limit R2 0xFD00000000 0xFDFFFFFFFF RMP_ENTRY_VAL_HV_FIXED))"

section \<open>Writing a range to the table\<close>

definition map_rmp_table :: "x86 \<Rightarrow> u64 \<Rightarrow> u32 \<Rightarrow> sev_status \<times> u64" where
  "map_rmp_table X x86_addr n =
     (case sev_hal_map_memory_ccp X x86_addr (ucast n) of (status, axi_buffer) \<Rightarrow>
        if status \<noteq> SEV_STATUS_SUCCESS then (status, 0) else (status, axi_buffer))"

type_synonym fill_engine = "u64 \<Rightarrow> u32 \<Rightarrow> bytes_mem \<Rightarrow> sev_status \<times> sev_status \<times> bytes_mem"

text \<open>The command copies a zero word over and over to \<open>n\<close> bytes at \<open>dest\<close>.\<close>

definition fill_zeroes :: "fill_engine \<Rightarrow> u64 \<Rightarrow> u32 \<Rightarrow> x86 \<Rightarrow> sev_status \<times> x86" where
  "fill_zeroes eng dest n X =
     (case eng dest n (xs_mem X) of (queued, done, m) \<Rightarrow>
        if queued \<noteq> SEV_STATUS_SUCCESS then (queued, X\<lparr>xs_mem := m\<rparr>) else (done, X\<lparr>xs_mem := m\<rparr>))"

definition map_and_fill :: "fill_engine \<Rightarrow> u64 \<Rightarrow> u32 \<Rightarrow> x86 \<Rightarrow> sev_status \<times> x86" where
  "map_and_fill eng addr n X =
     (case map_rmp_table X addr n of (status, a) \<Rightarrow>
        if status \<noteq> SEV_STATUS_SUCCESS then (status, X) else fill_zeroes eng a n X)"

text \<open>The loop over the windows after the first one.\<close>

partial_function (option) fill_loop :: "fill_engine \<Rightarrow> u64 \<Rightarrow> u64 \<Rightarrow> x86 \<Rightarrow> (sev_status \<times> x86) option" where
  "fill_loop eng process_addr end_address X =
     (if process_addr < end_address then
        let process_size = (if end_address - process_addr < X86_64MB_SIZE
                            then ucast (end_address - process_addr) + 1 else ucast X86_64MB_SIZE :: u32)
        in case map_and_fill eng process_addr process_size X of (status, X1) \<Rightarrow>
             if status \<noteq> SEV_STATUS_SUCCESS then Some (status, X1)
             else fill_loop eng (process_addr + X86_64MB_SIZE) end_address X1
      else Some (SEV_STATUS_SUCCESS, X))"

definition fill_rmp_block_zeroes :: "fill_engine \<Rightarrow> u64 \<Rightarrow> u64 \<Rightarrow> x86 \<Rightarrow> (sev_status \<times> x86) option" where
  "fill_rmp_block_zeroes eng start_address end_address X =
     (if start_address AND X86_64MB_MASK = end_address AND X86_64MB_MASK
      then Some (map_and_fill eng start_address (ucast (end_address - start_address) + 1) X)
      else
        let process_addr = (start_address AND X86_64MB_MASK) + X86_64MB_SIZE
        in case map_and_fill eng start_address (ucast (process_addr - start_address)) X of (status, X1) \<Rightarrow>
             if status \<noteq> SEV_STATUS_SUCCESS then Some (status, X1)
             else fill_loop eng process_addr end_address X1)"

datatype scan_result =
    SCAN_RES_FINISHED | SCAN_RES_HIT_RMP_END | SCAN_RES_TERMINATED | SCAN_RES_BAD_PADDR | SCAN_RES_SCAN_TOO_BIG

text \<open>The functions that are called for entries in the mapped table: they get the address of the
  first one and a number of entries, and answer how many they have dealt with.\<close>

type_synonym scanner = "u64 \<Rightarrow> u32 \<Rightarrow> x86 \<Rightarrow> u32 \<times> x86"

definition put_q1 :: "u64 \<Rightarrow> u64 \<Rightarrow> x86 \<Rightarrow> x86" where
  "put_q1 p v X = X\<lparr>xs_mem := write_bytes (xs_mem X) p (bytes_of v)\<rparr>"

definition put_q2 :: "u64 \<Rightarrow> u64 \<Rightarrow> x86 \<Rightarrow> x86" where
  "put_q2 p v X = X\<lparr>xs_mem := write_bytes (xs_mem X) (p + 8) (bytes_of v)\<rparr>"

text \<open>\<open>n\<close> entries from \<open>p\<close> on.\<close>

fun write_entries :: "u64 \<Rightarrow> nat \<Rightarrow> u64 \<Rightarrow> x86 \<Rightarrow> x86" where
  "write_entries val 0 p X = X"
| "write_entries val (Suc n) p X = write_entries val n (p + RMP_ENTRY_SIZE) (put_q2 p 0 (put_q1 p val X))"

definition write_rmp_entry :: "u64 \<Rightarrow> scanner" where
  "write_rmp_entry val p req_size X = (req_size, write_entries val (unat req_size) p X)"

text \<open>The address test is on the low 32 bits of the pointer.\<close>

definition update_rmp_entry :: "(x86 \<Rightarrow> x86) \<Rightarrow> u64 \<Rightarrow> scanner" where
  "update_rmp_entry uc val p req_size0 X =
     (if val \<noteq> RMP_ENTRY_VAL_HV_FIXED \<or>
         ucast (ucast p :: u32) AND (SNP_PAGE_SET_STATE_ADDR_RESERVED_MASK * 16 div 4096) \<noteq> 0 then (0, X)
      else
        let req_size = (if req_size0 > 512 then 512 else req_size0);
            X1 = uc (put_q1 p (put_field 51 10 RMP_INVALID_ASID (read64 X p)) X);
            rmp_entry = read64 X1 p;
            subpage_count = get_field 3 9 rmp_entry
        in if ucast subpage_count + 1 < req_size
           then (0, put_q1 p (put_field 51 10 0 rmp_entry) X1)
           else
             let X2 = put_q2 p 0 (write_entries val (unat req_size - 1) (p + RMP_ENTRY_SIZE) X1);
                 e = put_field 3 9 (subpage_count - ucast (req_size - 1)) val
             in (if req_size = 0 then 1 else req_size, put_q1 p (put_field 51 10 0 e) X2))"

definition check_fw :: scanner where
  "check_fw p req_size X =
     (if put_field 3 9 0 (read64 X p) = RMP_ENTRY_VAL_FIRMWARE then (1, X) else (0, X))"

text \<open>The scan. \<open>mapped\<close> is the pointer to the current entry in the mapped window, with the size for
  which the window was mapped.\<close>

partial_function (option) scan_loop ::
  "u64 \<Rightarrow> scanner \<Rightarrow> u32 \<Rightarrow> u64 \<Rightarrow> (u64 \<times> u32) option \<Rightarrow> x86 \<Rightarrow> (scan_result \<times> x86) option" where
  "scan_loop win f num_pages rmp_paddr mapped X =
     (if num_pages = 0 then Some (SCAN_RES_FINISHED, X)
      else if rmp_paddr > xs_rmp_end X then Some (SCAN_RES_HIT_RMP_END, X)
      else
        let window = win - (rmp_paddr AND (win - 1));
            needed_size = num_pages * ucast RMP_ENTRY_SIZE :: u32;
            mappable_size = (if ucast needed_size < window then needed_size else ucast window);
            (status, p, mappable) =
              (case mapped of
                 Some (p, n) \<Rightarrow> (SEV_STATUS_SUCCESS, p, n)
               | None \<Rightarrow> (case sev_hal_map_memory_ccp X rmp_paddr (ucast mappable_size) of
                            (status, a) \<Rightarrow> (status, a, mappable_size)))
        in if status \<noteq> SEV_STATUS_SUCCESS then Some (SCAN_RES_TERMINATED, X)
           else
             case f p (mappable div 16) X of (entries_done, X1) \<Rightarrow>
               if entries_done = 0 then Some (SCAN_RES_TERMINATED, X1)
               else
                 let paddr = rmp_paddr + ucast (entries_done * ucast RMP_ENTRY_SIZE :: u32)
                 in scan_loop win f (num_pages - entries_done) paddr
                      (if paddr AND (win - 1) = 0 then None
                       else Some (p + ucast (entries_done * ucast RMP_ENTRY_SIZE :: u32), mappable)) X1)"

definition scan_rmp :: "u64 \<Rightarrow> u64 \<Rightarrow> u64 \<Rightarrow> scanner \<Rightarrow> x86 \<Rightarrow> (scan_result \<times> x86) option" where
  "scan_rmp win addr limit f X =
     (let size = limit + 1 - addr;
          num_pages = ucast (drop_bit ALIGNMENT_BITS_4K size) :: u32;
          low_bits = ucast (PAGE_SIZE_4K - 1) :: u32
      in if size = 0 then Some (SCAN_RES_FINISHED, X)
         else if size \<noteq> push_bit ALIGNMENT_BITS_4K (ucast num_pages) then Some (SCAN_RES_SCAN_TOO_BIG, X)
         else
           let extra = drop_bit ALIGNMENT_BITS_4K
                 (ucast ((ucast addr :: u32) AND low_bits) + (size AND ucast low_bits) + ucast low_bits)
           in case local_get_rmp_paddr X addr 0 of (status, rmp_paddr) \<Rightarrow>
                if status = SEV_STATUS_INVALID_PAGE_STATE then Some (SCAN_RES_HIT_RMP_END, X)
                else if status \<noteq> SEV_STATUS_SUCCESS then Some (SCAN_RES_BAD_PADDR, X)
                else scan_loop win f (num_pages + ucast extra) rmp_paddr None X)"

definition write_rmp_range ::
  "u64 \<Rightarrow> fill_engine \<Rightarrow> (x86 \<Rightarrow> x86) \<Rightarrow> bool \<Rightarrow> rmp_range \<Rightarrow> x86 \<Rightarrow> (bool \<times> x86) option" where
  "write_rmp_range win eng uc sscb_rmp pr X =
     (if rr_val pr = RMP_ENTRY_VAL_HV then
        let (st1, base) = local_get_rmp_paddr X (rr_base pr) 0;
            (st2, limit) = local_get_rmp_paddr X (rr_end pr) 0
        in if st1 \<noteq> SEV_STATUS_SUCCESS \<or> st2 \<noteq> SEV_STATUS_SUCCESS then Some (False, X)
           else map_option (\<lambda>(status, X1). (status = SEV_STATUS_SUCCESS, X1))
                  (fill_rmp_block_zeroes eng base (limit + RMP_ENTRY_SIZE - 1) X)
      else
        let fn = (if sscb_rmp then write_rmp_entry (rr_val pr) else update_rmp_entry uc (rr_val pr))
        in map_option (\<lambda>(res, X1). (res = SCAN_RES_FINISHED \<or> res = SCAN_RES_HIT_RMP_END, X1))
             (scan_rmp win (rr_base pr) (rr_end pr) fn X))"

fun write_ranges ::
  "u64 \<Rightarrow> fill_engine \<Rightarrow> (x86 \<Rightarrow> x86) \<Rightarrow> bool \<Rightarrow> rmp_range list \<Rightarrow> x86 \<Rightarrow> (bool \<times> x86) option" where
  "write_ranges win eng uc sscb_rmp [] X = Some (True, X)"
| "write_ranges win eng uc sscb_rmp (pr # prs) X =
     (case write_rmp_range win eng uc sscb_rmp pr X of
        None \<Rightarrow> None
      | Some (ok, X1) \<Rightarrow> if \<not> ok then Some (False, X1) else write_ranges win eng uc sscb_rmp prs X1)"

section \<open>Subpage counts\<close>

definition X86_2MB_SIZE :: u64 where "X86_2MB_SIZE = 2 * 1024 * 1024"
definition X86_2MB_MASK :: u64 where "X86_2MB_MASK = NOT (X86_2MB_SIZE - 1)"

function subpage_count_loop ::
  "bool \<Rightarrow> rmp_entry \<Rightarrow> bool \<Rightarrow> u64 \<Rightarrow> u64 \<Rightarrow> x86 \<Rightarrow> sev_status \<times> x86" where
  "subpage_count_loop sscb_rmp entry0 overlap_range x86_buffer_end process_addr X =
     (if process_addr = x86_buffer_end + 1 then (SEV_STATUS_SUCCESS, X)
      else if x86_buffer_end + 1 - process_addr \<le> X86_2MB_SIZE then
        update_rmp_2mb_subpage_count sscb_rmp entry0 process_addr
          (ucast (x86_buffer_end - process_addr + 1) div ucast PAGE_SIZE_4K - 1) True overlap_range X
      else
        case update_rmp_2mb_subpage_count sscb_rmp entry0 process_addr 511 True overlap_range X of
          (status, X1) \<Rightarrow>
            if status \<noteq> SEV_STATUS_SUCCESS then (status, X1)
            else subpage_count_loop sscb_rmp entry0 overlap_range x86_buffer_end (process_addr + X86_2MB_SIZE) X1)"
  by pat_completeness auto

termination
proof (relation "measure (\<lambda>(_, _, _, e, p, _). unat (e + 1 - p))", goal_cases)
  case (2 _ _ _ e p)
  then have "X86_2MB_SIZE < e + 1 - p" by simp
  moreover have "unat X86_2MB_SIZE > 0" by (simp add: X86_2MB_SIZE_def)
  ultimately have "unat (e + 1 - p - X86_2MB_SIZE) < unat (e + 1 - p)"
    by (subst unat_sub) (simp_all add: word_less_nat_alt word_le_nat_alt)
  also have "e + 1 - p - X86_2MB_SIZE = e + 1 - (p + X86_2MB_SIZE)" by (simp add: algebra_simps)
  finally show ?case by simp
qed simp

text \<open>\<open>subpage_count\<close> is a number of 32 bits; the quotient is taken of that.\<close>

definition set_rmp_sub_page_count ::
  "bool \<Rightarrow> rmp_entry \<Rightarrow> u64 \<Rightarrow> u64 \<Rightarrow> bool \<Rightarrow> x86 \<Rightarrow> sev_status \<times> x86" where
  "set_rmp_sub_page_count sscb_rmp entry0 x86_buffer_start x86_buffer_end overlap_range X =
     (let first = x86_buffer_start AND X86_2MB_MASK;
          head = (if first = x86_buffer_start then 1 else 0 :: u32)
      in if first = x86_buffer_end AND X86_2MB_MASK then
           update_rmp_2mb_subpage_count sscb_rmp entry0 first
             (ucast (x86_buffer_end - x86_buffer_start + 1) div ucast PAGE_SIZE_4K - head) True overlap_range X
         else
           let end_addr = first + X86_2MB_SIZE
           in case update_rmp_2mb_subpage_count sscb_rmp entry0 first
                     (ucast ((end_addr - x86_buffer_start) div PAGE_SIZE_4K) - head) True overlap_range X of
                (status, X1) \<Rightarrow>
                  if status \<noteq> SEV_STATUS_SUCCESS then (status, X1)
                  else subpage_count_loop sscb_rmp entry0 overlap_range x86_buffer_end end_addr X1)"

section \<open>Initialisation of the table, and PAGE_SET_STATE\<close>

text \<open>The list of ranges that \<open>configure_rmp\<close> builds before it looks at the RMP itself.\<close>

definition memory_ranges :: "u64 \<Rightarrow> (u64 \<times> u64) list \<Rightarrow> rmp_ranges \<Rightarrow> rmp_ranges" where
  "memory_ranges rmp_limit regions R =
     foldl (\<lambda>R (b, l). snd (add_range rmp_limit R b l RMP_ENTRY_VAL_HV)) R regions"

definition build_ranges ::
  "x86 \<Rightarrow> bool \<Rightarrow> bool \<Rightarrow> u64 \<Rightarrow> u64 \<Rightarrow> u64 \<Rightarrow> (u64 \<times> u64) list \<Rightarrow> rmp_ranges \<Rightarrow> rmp_ranges" where
  "build_ranges X sscb_tseg sscb_aseg smm_end rmp_limit reserved_list_paddr regions R =
     (let R1 = snd (add_range rmp_limit R 0 rmp_limit RMP_ENTRY_VAL_HV_FIXED);
          R2 = memory_ranges rmp_limit regions R1;
          R3 = (if reserved_list_paddr \<noteq> PADDR_INVALID
                then snd (walk_reserved_list X rmp_limit R2 reserved_list_paddr SNP_ADDR_RESERVED_MASK) else R2)
      in add_known_hvfixed_ranges X sscb_tseg sscb_aseg smm_end rmp_limit R3)"

text \<open>The second half of \<open>configure_rmp\<close>: the ranges are written, the counters of the ASIDs cleared, and
  the pages of the RMP counted. \<open>entry0\<close> is the contents of an uninitialised variable.\<close>

definition fill_rmp ::
  "u64 \<Rightarrow> fill_engine \<Rightarrow> (x86 \<Rightarrow> x86) \<Rightarrow> bool \<Rightarrow> rmp_entry \<Rightarrow> rmp_range list \<Rightarrow> x86 \<Rightarrow> (bool \<times> x86) option" where
  "fill_rmp win eng uc sscb_rmp entry0 prs X =
     (case write_ranges win eng uc sscb_rmp prs X of
        None \<Rightarrow> None
      | Some (ok, X1) \<Rightarrow>
          if \<not> ok then Some (False, X1)
          else
            (case fill_rmp_block_zeroes eng (xs_rmp_base X) (xs_rmp_base X + RMP_ASID_COUNTERS_SIZE - 1) X1 of
               None \<Rightarrow> None
             | Some (status, X2) \<Rightarrow>
                 if status \<noteq> SEV_STATUS_SUCCESS then Some (False, X2)
                 else
                   let (status, X3) = set_rmp_sub_page_count sscb_rmp entry0 (xs_rmp_base X) (xs_rmp_end X) True X2
                   in Some (status = SEV_STATUS_SUCCESS, X3)))"

definition configure_rmp ::
  "u64 \<Rightarrow> fill_engine \<Rightarrow> (x86 \<Rightarrow> x86) \<Rightarrow> bool \<Rightarrow> bool \<Rightarrow> bool \<Rightarrow> u64 \<Rightarrow> rmp_entry \<Rightarrow> u64 \<Rightarrow> x86 \<Rightarrow> (bool \<times> x86) option" where
  "configure_rmp win eng uc sscb_rmp sscb_tseg sscb_aseg smm_end entry0 reserved_list_paddr X =
     (case init_ranges X 0 False of
        (True, rmp_limit, Some R) \<Rightarrow>
          (case xs_mem_map X of
             None \<Rightarrow> Some (False, X)
           | Some regions \<Rightarrow>
               if regions = [] then Some (False, X)
               else
                 let R1 = build_ranges X sscb_tseg sscb_aseg smm_end rmp_limit reserved_list_paddr regions R
                 in if \<not> check_range rmp_limit R1 (xs_rmp_base X) (xs_rmp_end X) RMP_ENTRY_VAL_HV
                    then Some (False, X)
                    else
                      let R2 = snd (add_range rmp_limit R1 (xs_rmp_base X) (xs_rmp_end X) RMP_ENTRY_VAL_FIRMWARE)
                      in fill_rmp win eng uc sscb_rmp entry0 (sort_key rr_base (rs_list R2)) X)
      | _ \<Rightarrow> Some (False, X))"

text \<open>The first loop: every page of every range is a FIRMWARE page, and not one of the RMP.\<close>

fun check_fw_ranges :: "u64 \<Rightarrow> rmp_range list \<Rightarrow> x86 \<Rightarrow> (sev_status \<times> x86) option" where
  "check_fw_ranges win [] X = Some (SEV_STATUS_SUCCESS, X)"
| "check_fw_ranges win (pr # prs) X =
     (if ranges_overlap (rr_base pr) (rr_end pr) (xs_rmp_base X) (xs_rmp_end X)
      then Some (SEV_STATUS_INVALID_ADDRESS, X)
      else case scan_rmp win (rr_base pr) (rr_end pr) check_fw X of
             None \<Rightarrow> None
           | Some (res, X1) \<Rightarrow>
               (case res of
                  SCAN_RES_TERMINATED \<Rightarrow> Some (SEV_STATUS_INVALID_PAGE_STATE, X1)
                | SCAN_RES_BAD_PADDR \<Rightarrow> Some (SEV_STATUS_INVALID_ADDRESS, X1)
                | SCAN_RES_SCAN_TOO_BIG \<Rightarrow> Some (SEV_STATUS_INVALID_ADDRESS, X1)
                | _ \<Rightarrow> check_fw_ranges win prs X1))"

definition page_set_hv_fixed ::
  "u64 \<Rightarrow> fill_engine \<Rightarrow> (x86 \<Rightarrow> x86) \<Rightarrow> bool \<Rightarrow> u64 \<Rightarrow> x86 \<Rightarrow> (sev_status \<times> x86) option" where
  "page_set_hv_fixed win eng uc sscb_rmp list_paddr X =
     (case init_ranges X 0 False of
        (True, rmp_limit, Some R) \<Rightarrow>
          (case walk_reserved_list X rmp_limit R list_paddr SNP_PAGE_SET_STATE_ADDR_RESERVED_MASK of
             (status, R1) \<Rightarrow>
               if status \<noteq> SEV_STATUS_SUCCESS then Some (status, X)
               else
                 let prs = sort_key rr_base (rs_list R1)
                 in (case check_fw_ranges win prs (skip_rmp_addr_check True X) of
                       None \<Rightarrow> None
                     | Some (status, X1) \<Rightarrow>
                         if status \<noteq> SEV_STATUS_SUCCESS then Some (status, skip_rmp_addr_check False X1)
                         else map_option (\<lambda>(ok, X2).
                                (if ok then SEV_STATUS_SUCCESS else SEV_STATUS_INVALID_ADDRESS,
                                 skip_rmp_addr_check False X2))
                                (write_ranges win eng uc sscb_rmp prs X1)))
      | _ \<Rightarrow> Some (SEV_STATUS_INVALID_ADDRESS, X))"

text \<open>\<open>len_ok\<close>: the length in the buffer is that of the command.\<close>

definition snp_mcmd_page_set_state ::
  "u64 \<Rightarrow> fill_engine \<Rightarrow> (x86 \<Rightarrow> x86) \<Rightarrow> bool \<Rightarrow> bool \<Rightarrow> u32 \<Rightarrow> u64 \<Rightarrow> snp_sys \<Rightarrow> (sev_status \<times> snp_sys) option" where
  "snp_mcmd_page_set_state win eng uc sscb_rmp len_ok reserved list_paddr S =
     (if \<not> len_ok then Some (SEV_STATUS_INVALID_LENGTH, S)
      else if reserved \<noteq> 0 \<or> list_paddr AND SNP_ADDR_RESERVED_MASK \<noteq> 0 then Some (SEV_STATUS_INVALID_PARAM, S)
      else if \<not> snp_initialized S then Some (SEV_STATUS_INVALID_PLATFORM_STATE, S)
      else map_option (\<lambda>(status, X). (status, S\<lparr>sn_x86 := X\<rparr>))
             (page_set_hv_fixed win eng uc sscb_rmp list_paddr (sn_x86 S)))"

section \<open>Ranges of entries in a given state\<close>

definition initial_entry :: "snp_page_state \<Rightarrow> rmp_entry option" where
  "initial_entry page_state =
     (let zero = \<lparr>q1 = 0, q2 = 0\<rparr>
      in case page_state of
           SNP_PAGE_STATE_FIRMWARE \<Rightarrow>
             Some (set_gpa (PADDR_TO_GPA_FIELD 0 0) (set_lock 1 (set_immutable 1 (set_assigned 1 zero))))
         | SNP_PAGE_STATE_FIRMWARE_IOMMU \<Rightarrow>
             Some (set_gpa (PADDR_TO_GPA_FIELD (push_bit RMP_ENTRY_GPA_SHIFT 1) RMP_GPA_STATE_FW_IOMMU)
                    (set_lock 1 (set_immutable 1 (set_assigned 1 zero))))
         | SNP_PAGE_STATE_RECLAIM \<Rightarrow> Some (set_assigned 1 zero)
         | SNP_PAGE_STATE_HYPERVISOR \<Rightarrow> Some zero
         | _ \<Rightarrow> None)"

partial_function (option) initialize_loop ::
  "(u64 \<Rightarrow> bool) \<Rightarrow> (x86 \<Rightarrow> x86) \<Rightarrow> rmp_entry \<Rightarrow> u64 \<Rightarrow> u64 \<Rightarrow> x86 \<Rightarrow> (sev_status \<times> x86) option" where
  "initialize_loop al8k uc e rmp_entry_start rmp_entry_end X =
     (if rmp_entry_start \<le> rmp_entry_end then
        case rmp_entry_write al8k uc rmp_entry_start e X of (status, _, X1) \<Rightarrow>
          if status \<noteq> SEV_STATUS_SUCCESS then Some (status, X1)
          else initialize_loop al8k uc e (rmp_entry_start + RMP_ENTRY_SIZE) rmp_entry_end X1
      else Some (SEV_STATUS_SUCCESS, X))"

definition initialize_rmp_entries_range ::
  "(u64 \<Rightarrow> bool) \<Rightarrow> (x86 \<Rightarrow> x86) \<Rightarrow> u64 \<Rightarrow> u64 \<Rightarrow> snp_page_state \<Rightarrow> x86 \<Rightarrow> (sev_status \<times> x86) option" where
  "initialize_rmp_entries_range al8k uc rmp_entry_start rmp_entry_end page_state X =
     (case initial_entry page_state of
        None \<Rightarrow> Some (ERR_INVALID_PARAMS, X)
      | Some e \<Rightarrow> initialize_loop al8k uc e rmp_entry_start rmp_entry_end X)"

definition set_rmp_range_to_firmware_iommu_state ::
  "(u64 \<Rightarrow> bool) \<Rightarrow> (x86 \<Rightarrow> x86) \<Rightarrow> u64 \<Rightarrow> u64 \<Rightarrow> x86 \<Rightarrow> (sev_status \<times> x86) option" where
  "set_rmp_range_to_firmware_iommu_state al8k uc s e =
     initialize_rmp_entries_range al8k uc s e SNP_PAGE_STATE_FIRMWARE_IOMMU"

definition set_rmp_range_to_hypervisor_state ::
  "(u64 \<Rightarrow> bool) \<Rightarrow> (x86 \<Rightarrow> x86) \<Rightarrow> u64 \<Rightarrow> u64 \<Rightarrow> x86 \<Rightarrow> (sev_status \<times> x86) option" where
  "set_rmp_range_to_hypervisor_state al8k uc s e =
     initialize_rmp_entries_range al8k uc s e SNP_PAGE_STATE_HYPERVISOR"

definition set_rmp_range_to_reclaim_state ::
  "(u64 \<Rightarrow> bool) \<Rightarrow> (x86 \<Rightarrow> x86) \<Rightarrow> u64 \<Rightarrow> u64 \<Rightarrow> x86 \<Rightarrow> (sev_status \<times> x86) option" where
  "set_rmp_range_to_reclaim_state al8k uc s e =
     initialize_rmp_entries_range al8k uc s e SNP_PAGE_STATE_RECLAIM"

text \<open>The metadata entries of swapped pages are copied like other data.\<close>

definition mdata_entry_read :: "u64 \<Rightarrow> u8 list \<Rightarrow> u64 \<Rightarrow> x86 \<Rightarrow> sev_status \<times> u8 list" where
  "mdata_entry_read mdata_paddr mdata_data n X = copy_from_x86 mdata_paddr mdata_data n X"

definition mdata_entry_write :: "u64 \<Rightarrow> u8 list \<Rightarrow> x86 \<Rightarrow> sev_status \<times> x86" where
  "mdata_entry_write mdata_paddr mdata_data X = copy_to_x86 mdata_paddr mdata_data X"

text \<open>\<open>None\<close> stands for a null pointer argument; the second component is the output.\<close>

definition require_rmp_reinit :: "bool \<Rightarrow> u64 \<Rightarrow> u64 \<Rightarrow> bool \<Rightarrow> sev_status \<times> bool" where
  "require_rmp_reinit args_ok committed_tcb old_tcb required_init =
     (if \<not> args_ok then (ERR_INVALID_PARAMS, required_init)
      else (SEV_STATUS_SUCCESS, committed_tcb \<noteq> old_tcb))"

text \<open>The flag \<open>is_rmp_initialized\<close> after the call.\<close>

definition rmp_is_uninitialized :: "bool \<Rightarrow> bool" where
  "rmp_is_uninitialized is_rmp_initialized = False"

end
