(* ===== verification/Sev_RangeLists.thy ===== *)
theory Sev_RangeLists
  imports Sev_Ranges
begin

text \<open>
  What \<open>add_range\<close> does to the list of ranges, in terms of how many ranges with a given kind of value
  contain an address: an added range takes the addresses between its bounds away from all others.
\<close>

section \<open>Counting ranges\<close>

definition in_rr :: "rmp_range \<Rightarrow> u64 \<Rightarrow> bool" where
  "in_rr r a \<longleftrightarrow> rr_base r \<le> a \<and> a \<le> rr_end r"

definition cnt :: "(u64 \<Rightarrow> bool) \<Rightarrow> u64 \<Rightarrow> rmp_range list \<Rightarrow> nat" where
  "cnt P a rs = length (filter (\<lambda>r. in_rr r a \<and> P (rr_val r)) rs)"

lemma cnt_Nil [simp]: "cnt P a [] = 0"
  by (simp add: cnt_def)

lemma cnt_Cons: "cnt P a (r # rs) = (if in_rr r a \<and> P (rr_val r) then 1 else 0) + cnt P a rs"
  by (simp add: cnt_def)

lemma cnt_append [simp]: "cnt P a (rs @ rs') = cnt P a rs + cnt P a rs'"
  by (simp add: cnt_def)

lemma cnt_one [simp]: "cnt P a [r] = (if in_rr r a \<and> P (rr_val r) then 1 else 0)"
  by (simp add: cnt_def)

lemma cnt_update:
  "k < length rs \<Longrightarrow> cnt P a (rs[k := r]) + cnt P a [rs ! k] = cnt P a rs + cnt P a [r]"
proof (induction rs arbitrary: k)
  case (Cons x rs)
  then show ?case by (cases k) (simp_all add: cnt_Cons)
qed simp

lemma cnt_zero: "cnt P a rs = 0 \<longleftrightarrow> (\<forall>r \<in> set rs. in_rr r a \<longrightarrow> \<not> P (rr_val r))"
  by (auto simp: cnt_def filter_empty_conv)

lemma cnt_pos: "0 < cnt P a rs \<longleftrightarrow> (\<exists>r \<in> set rs. in_rr r a \<and> P (rr_val r))"
  using cnt_zero [of P a rs] by auto

lemma cnt_mono: "(\<And>v. P v \<Longrightarrow> Q v) \<Longrightarrow> cnt P a rs \<le> cnt Q a rs"
  by (induction rs) (auto simp: cnt_Cons)

text \<open>If at most one range counts, no other one does.\<close>

lemma cnt_unique:
  assumes "cnt P a rs \<le> 1" and "i < length rs" and "j < length rs" and "i \<noteq> j"
    and "in_rr (rs ! i) a" and "P (rr_val (rs ! i))" and "in_rr (rs ! j) a"
  shows "\<not> P (rr_val (rs ! j))"
proof
  assume p: "P (rr_val (rs ! j))"
  define z where "z = \<lparr>rr_base = 1, rr_end = 0, rr_val = (0 :: u64)\<rparr>"
  have z: "cnt P a [z] = 0" by (simp add: z_def in_rr_def)
  have "cnt P a (rs[i := z]) + 1 = cnt P a rs" using cnt_update [OF assms(2), of P a z] z assms(5,6) by simp
  then have "cnt P a (rs[i := z]) = 0" using assms(1) by simp
  moreover have "rs[i := z] ! j \<in> set (rs[i := z])" using assms(3) by (simp add: set_conv_nth) auto
  ultimately show False using assms(3,4,7) p by (auto simp: cnt_zero)
qed

section \<open>The loop\<close>

definition meets :: "u64 \<Rightarrow> u64 \<Rightarrow> rmp_range \<Rightarrow> bool" where
  "meets base limit r \<longleftrightarrow> \<not> (limit < rr_base r \<or> base > rr_end r)"

lemma in_rr_meets: "in_rr r a \<Longrightarrow> base \<le> a \<Longrightarrow> a \<le> limit \<Longrightarrow> meets base limit r"
  by (auto simp: in_rr_def meets_def)

text \<open>What is left of the list: the counts outside of the new range are kept, within it only its own
  value is left.\<close>

definition taken_over :: "u64 \<Rightarrow> u64 \<Rightarrow> u64 \<Rightarrow> rmp_range list \<Rightarrow> rmp_range list \<Rightarrow> bool" where
  "taken_over base limit val rs rs' \<longleftrightarrow>
     (\<forall>a P. \<not> (base \<le> a \<and> a \<le> limit) \<longrightarrow> cnt P a rs' = cnt P a rs) \<and>
     (\<forall>a. base \<le> a \<and> a \<le> limit \<longrightarrow> cnt (\<lambda>v. v \<noteq> val) a rs' = 0) \<and>
     (\<forall>a. base \<le> a \<and> a \<le> limit \<longrightarrow> 0 < cnt (\<lambda>_. True) a rs \<longrightarrow> 0 < cnt (\<lambda>v. v = val) a rs')"

text \<open>One step of it: the same for the range at index \<open>k\<close> only.\<close>

definition step_ok :: "u64 \<Rightarrow> u64 \<Rightarrow> u64 \<Rightarrow> nat \<Rightarrow> rmp_range list \<Rightarrow> rmp_range list \<Rightarrow> bool" where
  "step_ok base limit val k rs rs' \<longleftrightarrow>
     (\<forall>a P. \<not> (base \<le> a \<and> a \<le> limit) \<longrightarrow> cnt P a rs' = cnt P a rs) \<and>
     (\<forall>a. base \<le> a \<and> a \<le> limit \<longrightarrow> cnt (\<lambda>v. v \<noteq> val) a rs' \<le> cnt (\<lambda>v. v \<noteq> val) a rs) \<and>
     (\<forall>a. base \<le> a \<and> a \<le> limit \<longrightarrow> 0 < cnt (\<lambda>_. True) a rs \<longrightarrow> 0 < cnt (\<lambda>_. True) a rs') \<and>
     length rs \<le> length rs' \<and> (\<forall>i < length rs. i \<noteq> k \<longrightarrow> rs' ! i = rs ! i) \<and>
     (rr_val (rs' ! k) = val \<or> \<not> meets base limit (rs' ! k)) \<and>
     (\<forall>i. length rs \<le> i \<and> i < length rs' \<longrightarrow> rr_val (rs' ! i) = val)"

lemma update_step:
  assumes "k < length rs" and "base \<le> limit"
    and "\<And>a. \<not> (base \<le> a \<and> a \<le> limit) \<Longrightarrow> in_rr r a = in_rr (rs ! k) a"
    and "rr_val r = rr_val (rs ! k) \<or> (rr_val r = val \<and> base \<le> rr_base (rs ! k) \<and> rr_end (rs ! k) \<le> limit)"
    and "rr_val r = val \<or> \<not> meets base limit r"
    and "\<And>a. base \<le> a \<Longrightarrow> a \<le> limit \<Longrightarrow> in_rr (rs ! k) a \<Longrightarrow> in_rr r a \<or> extra \<noteq> []"
    and "set extra \<subseteq> {\<lparr>rr_base = base, rr_end = limit, rr_val = val\<rparr>}"
  shows "step_ok base limit val k rs (rs[k := r] @ extra)"
proof -
  note up = cnt_update [OF assms(1), of _ _ r]
  have ex: "\<forall>e \<in> set extra. e = \<lparr>rr_base = base, rr_end = limit, rr_val = val\<rparr>" using assms(7) by auto
  have out: "cnt P a (rs[k := r] @ extra) = cnt P a rs" if "\<not> (base \<le> a \<and> a \<le> limit)" for a P
  proof -
    have "cnt P a extra = 0" using that ex by (auto simp: cnt_zero in_rr_def)
    moreover have "cnt P a [r] = cnt P a [rs ! k]"
      using assms(3) [OF that] assms(4) that by (auto simp: in_rr_def)
    ultimately show ?thesis using up [of P a] by simp
  qed
  have less: "cnt (\<lambda>v. v \<noteq> val) a (rs[k := r] @ extra) \<le> cnt (\<lambda>v. v \<noteq> val) a rs"
    if "base \<le> a" "a \<le> limit" for a
  proof -
    have "cnt (\<lambda>v. v \<noteq> val) a extra = 0" using ex by (auto simp: cnt_zero)
    moreover have "cnt (\<lambda>v. v \<noteq> val) a [r] = 0"
      using assms(5) that in_rr_meets [of r a base limit] by auto
    ultimately show ?thesis using up [of "\<lambda>v. v \<noteq> val" a] by simp
  qed
  have some: "0 < cnt (\<lambda>_. True) a (rs[k := r] @ extra)"
    if a: "base \<le> a" "a \<le> limit" and "0 < cnt (\<lambda>_. True) a rs" for a
  proof (cases "extra = []")
    case True
    then show ?thesis using up [of "\<lambda>_. True" a] that assms(6) [OF a] by (auto split: if_split_asm)
  next
    case False
    then obtain e where "e \<in> set extra" by (cases extra) auto
    moreover from this have "e = \<lparr>rr_base = base, rr_end = limit, rr_val = val\<rparr>" using ex by blast
    then have "in_rr e a" using a by (simp add: in_rr_def)
    ultimately have "0 < cnt (\<lambda>_. True) a extra" by (auto simp: cnt_pos)
    then show ?thesis by simp
  qed
  have "rr_val ((rs[k := r] @ extra) ! i) = val" if "length rs \<le> i" "i < length (rs[k := r] @ extra)" for i
  proof -
    have "extra ! (i - length rs) \<in> set extra" using that by (intro nth_mem) simp
    then have "extra ! (i - length rs) = \<lparr>rr_base = base, rr_end = limit, rr_val = val\<rparr>" using ex by blast
    then show ?thesis using that by (simp add: nth_append)
  qed
  then show ?thesis
    using out less some assms(1,5) by (auto simp: step_ok_def nth_append)
qed

lemma cnt_only:
  assumes "cnt (\<lambda>v. v \<noteq> val) a rs = 0"
  shows "cnt (\<lambda>v. v = val) a rs = cnt (\<lambda>_. True) a rs"
  using assms by (induction rs) (auto simp: cnt_Cons split: if_split_asm)

definition loop_ok ::
  "u64 \<Rightarrow> u64 \<Rightarrow> u64 \<Rightarrow> nat list \<Rightarrow> bool \<Rightarrow> rmp_range list \<Rightarrow> bool option \<times> bool \<times> rmp_ranges \<Rightarrow> bool" where
  "loop_ok base limit val is overlap rs res \<longleftrightarrow>
     (case res of (ret, overlap', R') \<Rightarrow>
        ret \<noteq> Some False \<and> taken_over base limit val rs (rs_list R') \<and>
        (ret = None \<longrightarrow> overlap' = (overlap \<or> (\<exists>i \<in> set is. meets base limit (rs ! i)))))"

lemma append_range_cases:
  "append_range R b l v =
     (if length (rs_list R) < rs_limit R
      then (True, R\<lparr>rs_list := rs_list R @ [\<lparr>rr_base = b, rr_end = l, rr_val = v\<rparr>]\<rparr>) else (False, R))"
  by (simp add: append_range_def not_less)

lemma set_range_list [simp]:
  "rs_list (set_range i pr R) = (rs_list R)[i := pr]" "rs_limit (set_range i pr R) = rs_limit R"
  by (simp_all add: set_range_def)

lemma loop_length_limit:
  "(m \<le> length (rs_list R) \<longrightarrow> m \<le> length (rs_list (snd (snd (add_range_loop base limit val is ov R))))) \<and>
     rs_limit (snd (snd (add_range_loop base limit val is ov R))) = rs_limit R"
proof (induction "is" arbitrary: ov R val)
  case (Cons i "is")
  then show ?case by (simp add: Let_def append_range_cases)
qed simp

lemma loop_length:
  "add_range_loop base limit val is ov R = (ret, ov', R') \<Longrightarrow>
     length (rs_list R) \<le> length (rs_list R') \<and> rs_limit R' = rs_limit R"
  using loop_length_limit [of "length (rs_list R)" R base limit val "is" ov] by simp

lemma step_then_loop:
  assumes "step_ok base limit val k rs rs1" and "k < n" and "n \<le> length rs"
    and "loop_ok base limit val [Suc k..<n] ov1 rs1 res"
    and "ov1 = (ov \<or> meets base limit (rs ! k))"
  shows "loop_ok base limit val [k..<n] ov rs res"
proof -
  obtain ret ov' R' where res: "res = (ret, ov', R')" by (cases res)
  have same: "rs1 ! i = rs ! i" if "i \<in> {Suc k..<n}" for i
    using assms(1-3) that by (simp add: step_ok_def)
  have "{k..<n} = insert k {Suc k..<n}" using assms(2) by auto
  then have "(ov \<or> (\<exists>i \<in> {k..<n}. meets base limit (rs ! i))) =
      (ov1 \<or> (\<exists>i \<in> {Suc k..<n}. meets base limit (rs1 ! i)))"
    using same assms(5) by auto
  moreover have "taken_over base limit val rs (rs_list R')"
    using assms(1,4) unfolding loop_ok_def res taken_over_def step_ok_def by auto
  ultimately show ?thesis using assms(4) by (simp add: loop_ok_def res)
qed

lemma loop_end:
  assumes "\<forall>i < length rs. rr_val (rs ! i) = val \<or> \<not> meets base limit (rs ! i)"
  shows "taken_over base limit val rs rs"
proof -
  have "cnt (\<lambda>v. v \<noteq> val) a rs = 0" if "base \<le> a" "a \<le> limit" for a
    unfolding cnt_zero
  proof
    fix r assume "r \<in> set rs"
    then show "in_rr r a \<longrightarrow> \<not> rr_val r \<noteq> val"
      using assms in_rr_meets [OF _ that] by (auto simp: in_set_conv_nth)
  qed
  then show ?thesis by (simp add: taken_over_def cnt_only)
qed

lemma below_minus_one: "(x :: u64) < b \<Longrightarrow> a \<le> b - 1 \<longleftrightarrow> a < b"
proof -
  assume "x < b"
  then have "b \<noteq> 0" by auto
  then have "unat (b - 1) = unat b - 1" "unat b \<noteq> 0" by (simp_all add: unat_minus_one unat_eq_0)
  then show ?thesis by (auto simp: word_le_nat_alt word_less_nat_alt)
qed

lemma above_plus_one: "(l :: u64) < y \<Longrightarrow> l + 1 \<le> a \<longleftrightarrow> l < a"
proof -
  assume "l < y"
  then have "unat l + 1 < 2 ^ 64" using u64_bound [of y] by (simp add: word_less_nat_alt)
  then have "unat (l + 1) = unat l + 1" using unat_plus_of_nat [of l 1] by simp
  then show ?thesis by (auto simp: word_le_nat_alt word_less_nat_alt)
qed

text \<open>The new range lies within an old one, which is the only other one there.\<close>

lemma split_taken_over:
  assumes "k < length rs" and "rr_base (rs ! k) < base" and "limit < rr_end (rs ! k)" and "base \<le> limit"
    and "rr_val (rs ! k) \<noteq> val"
    and "\<forall>a. base \<le> a \<and> a \<le> limit \<longrightarrow> cnt (\<lambda>v. v \<noteq> val) a rs \<le> 1"
  shows "taken_over base limit val rs
    (rs[k := (rs ! k)\<lparr>rr_end := base - 1\<rparr>] @
      [\<lparr>rr_base = base, rr_end = limit, rr_val = val\<rparr>,
       \<lparr>rr_base = limit + 1, rr_end = rr_end (rs ! k), rr_val = rr_val (rs ! k)\<rparr>])"
proof -
  let ?r = "(rs ! k)\<lparr>rr_end := base - 1\<rparr>"
  note up = cnt_update [OF assms(1), of _ _ ?r]
  note b = below_minus_one [OF assms(2)] and l = above_plus_one [OF assms(3)]
  show ?thesis
    unfolding taken_over_def
  proof (intro conjI allI impI)
    fix a P assume "\<not> (base \<le> a \<and> a \<le> limit)"
    then show "cnt P a (rs[k := ?r] @ [\<lparr>rr_base = base, rr_end = limit, rr_val = val\<rparr>,
       \<lparr>rr_base = limit + 1, rr_end = rr_end (rs ! k), rr_val = rr_val (rs ! k)\<rparr>]) = cnt P a rs"
      using up [of P a] assms(2-4) by (auto simp: cnt_Cons in_rr_def b l split: if_split_asm)
  next
    fix a assume a: "base \<le> a \<and> a \<le> limit"
    then have "in_rr (rs ! k) a" "\<not> in_rr ?r a" using assms(2,3) by (auto simp: in_rr_def b)
    then have "cnt (\<lambda>v. v \<noteq> val) a (rs[k := ?r]) = 0"
      using up [of "\<lambda>v. v \<noteq> val" a] assms(5,6) a by (auto simp: le_Suc_eq)
    then show "cnt (\<lambda>v. v \<noteq> val) a (rs[k := ?r] @ [\<lparr>rr_base = base, rr_end = limit, rr_val = val\<rparr>,
       \<lparr>rr_base = limit + 1, rr_end = rr_end (rs ! k), rr_val = rr_val (rs ! k)\<rparr>]) = 0"
      using a by (auto simp: cnt_Cons in_rr_def l)
  next
    fix a assume "base \<le> a \<and> a \<le> limit"
    then show "0 < cnt (\<lambda>v. v = val) a (rs[k := ?r] @ [\<lparr>rr_base = base, rr_end = limit, rr_val = val\<rparr>,
       \<lparr>rr_base = limit + 1, rr_end = rr_end (rs ! k), rr_val = rr_val (rs ! k)\<rparr>])"
      by (simp add: cnt_Cons in_rr_def)
  qed
qed

lemma left_step:
  assumes "k < length rs" and "base \<le> limit" and "base \<le> rr_base (rs ! k)" and "rr_base (rs ! k) \<le> limit"
    and "limit < rr_end (rs ! k)"
  shows "step_ok base limit val k rs (rs[k := (rs ! k)\<lparr>rr_base := limit + 1\<rparr>] @
    [\<lparr>rr_base = base, rr_end = limit, rr_val = val\<rparr>])"
proof (rule update_step)
  note l = above_plus_one [OF assms(5)]
  show "in_rr ((rs ! k)\<lparr>rr_base := limit + 1\<rparr>) a = in_rr (rs ! k) a" if "\<not> (base \<le> a \<and> a \<le> limit)" for a
  proof (cases "limit < a")
    case True
    then have "rr_base (rs ! k) \<le> a" using assms(4) by order
    with True show ?thesis by (simp add: in_rr_def l)
  next
    case False
    then have "\<not> rr_base (rs ! k) \<le> a" using that assms(3) by (cases "base \<le> a") (simp, order)
    with False show ?thesis by (simp add: in_rr_def l)
  qed
  have "limit < limit + 1" using l [of "limit + 1"] by simp
  then show "rr_val ((rs ! k)\<lparr>rr_base := limit + 1\<rparr>) = val \<or> \<not> meets base limit ((rs ! k)\<lparr>rr_base := limit + 1\<rparr>)"
    by (simp add: meets_def)
qed (use assms in auto)

lemma right_step:
  assumes "k < length rs" and "base \<le> limit" and "rr_base (rs ! k) < base" and "base \<le> rr_end (rs ! k)"
    and "rr_end (rs ! k) \<le> limit"
  shows "step_ok base limit val k rs (rs[k := (rs ! k)\<lparr>rr_end := base - 1\<rparr>] @
    [\<lparr>rr_base = base, rr_end = limit, rr_val = val\<rparr>])"
proof (rule update_step)
  note b = below_minus_one [OF assms(3)]
  show "in_rr ((rs ! k)\<lparr>rr_end := base - 1\<rparr>) a = in_rr (rs ! k) a" if "\<not> (base \<le> a \<and> a \<le> limit)" for a
  proof (cases "a < base")
    case True
    then have "a \<le> rr_end (rs ! k)" using assms(4) by order
    with True show ?thesis by (simp add: in_rr_def b)
  next
    case False
    then have "\<not> a \<le> rr_end (rs ! k)" using that assms(5) by (cases "a \<le> limit") (simp, order)
    with False show ?thesis by (simp add: in_rr_def b)
  qed
  have "base - 1 < base" using b [of "base - 1"] by simp
  then show "rr_val ((rs ! k)\<lparr>rr_end := base - 1\<rparr>) = val \<or> \<not> meets base limit ((rs ! k)\<lparr>rr_end := base - 1\<rparr>)"
    by (simp add: meets_def)
qed (use assms in auto)

lemma loop_taken_over:
  assumes "base \<le> limit" and "k \<le> n" and "n \<le> length (rs_list R)"
    and "\<forall>i < k. rr_val (rs_list R ! i) = val \<or> \<not> meets base limit (rs_list R ! i)"
    and "\<forall>i. n \<le> i \<and> i < length (rs_list R) \<longrightarrow> rr_val (rs_list R ! i) = val"
    and "\<forall>a. base \<le> a \<and> a \<le> limit \<longrightarrow> cnt (\<lambda>v. v \<noteq> val) a (rs_list R) \<le> 1"
    and "length (rs_list (snd (snd (add_range_loop base limit val [k..<n] ov R)))) < rs_limit R"
  shows "loop_ok base limit val [k..<n] ov (rs_list R) (add_range_loop base limit val [k..<n] ov R)"
  using assms
proof (induction "n - k" arbitrary: k ov R)
  case 0
  then have "taken_over base limit val (rs_list R) (rs_list R)"
    by (intro loop_end) (metis diff_is_0_eq leI le_antisym)
  with 0 show ?case by (simp add: loop_ok_def)
next
  case (Suc m)
  let ?rs = "rs_list R" and ?pr = "rs_list R ! k" and ?new = "\<lparr>rr_base = base, rr_end = limit, rr_val = val\<rparr>"
  let ?loop = "add_range_loop base limit val"
  from Suc have k: "k < n" "k < length ?rs" "[k..<n] = k # [Suc k..<n]" by (simp_all add: upt_conv_Cons)
  have go: "loop_ok base limit val [k..<n] ov ?rs (add_range_loop base limit val [Suc k..<n] ov1 R1)"
    if st: "step_ok base limit val k ?rs (rs_list R1)" and "rs_limit R1 = rs_limit R"
      and "ov1 = (ov \<or> meets base limit ?pr)"
      and "length (rs_list (snd (snd (add_range_loop base limit val [Suc k..<n] ov1 R1)))) < rs_limit R"
    for R1 ov1
  proof (rule step_then_loop [OF st])
    show "loop_ok base limit val [Suc k..<n] ov1 (rs_list R1) (add_range_loop base limit val [Suc k..<n] ov1 R1)"
    proof (rule Suc.hyps)
      have "rr_val (rs_list R1 ! i) = val \<or> \<not> meets base limit (rs_list R1 ! i)" if "i < Suc k" for i
        using st Suc.prems(3,4) that k by (cases "i = k") (auto simp: step_ok_def less_Suc_eq)
      then show "\<forall>i < Suc k. rr_val (rs_list R1 ! i) = val \<or> \<not> meets base limit (rs_list R1 ! i)" by blast
      have "rr_val (rs_list R1 ! i) = val" if "n \<le> i" "i < length (rs_list R1)" for i
        using st Suc.prems(5) k that by (cases "i < length ?rs") (auto simp: step_ok_def)
      then show "\<forall>i. n \<le> i \<and> i < length (rs_list R1) \<longrightarrow> rr_val (rs_list R1 ! i) = val" by blast
      show "\<forall>a. base \<le> a \<and> a \<le> limit \<longrightarrow> cnt (\<lambda>v. v \<noteq> val) a (rs_list R1) \<le> 1"
        using st Suc.prems(6) unfolding step_ok_def by (meson order_trans)
    qed (use that Suc.hyps(2) Suc.prems k in \<open>auto simp: step_ok_def\<close>)
  qed (use that k Suc.prems in auto)
  show ?case
  proof (cases "meets base limit ?pr \<and> rr_val ?pr \<noteq> val")
    case False
    then have "step_ok base limit val k ?rs ?rs" by (auto simp: step_ok_def)
    moreover have "?loop [k..<n] ov R = ?loop [Suc k..<n] (ov \<or> meets base limit ?pr) R"
      using False by (auto simp: k(3) meets_def Let_def)
    ultimately show ?thesis using go [of R "ov \<or> meets base limit ?pr"] Suc.prems(7) by simp
  next
    case True
    then have m: "\<not> limit < rr_base ?pr" "\<not> rr_end ?pr < base" "rr_val ?pr \<noteq> val" by (simp_all add: meets_def)
    show ?thesis
    proof (cases "base \<le> rr_base ?pr \<and> rr_end ?pr \<le> limit")
      case full: True
      have st: "step_ok base limit val k ?rs (?rs[k := ?pr\<lparr>rr_val := val\<rparr>] @ [])"
        by (rule update_step) (use k Suc.prems(1) full m in \<open>auto simp: in_rr_def\<close>)
      have "?loop [k..<n] ov R = ?loop [Suc k..<n] True (set_range k (?pr\<lparr>rr_val := val\<rparr>) R)"
        using full m by (simp add: k(3) Let_def)
      then show ?thesis using go [of "set_range k (?pr\<lparr>rr_val := val\<rparr>) R" True] Suc.prems(7) st True by simp
    next
      case part: False
      let ?R1 = "R\<lparr>rs_list := ?rs @ [?new]\<rparr>"
      have "length ?rs < rs_limit R"
      proof (rule ccontr)
        assume "\<not> length ?rs < rs_limit R"
        then have "?loop [k..<n] ov R = (Some False, True, R)"
          using m part by (auto simp: k(3) Let_def append_range_cases)
        with Suc.prems(7) \<open>\<not> length ?rs < rs_limit R\<close> show False by simp
      qed
      then have room: "append_range R base limit val = (True, ?R1)" by (simp add: append_range_cases)
      consider (left) "base \<le> rr_base ?pr" "limit < rr_end ?pr" | (right) "rr_base ?pr < base" "rr_end ?pr \<le> limit"
        | (inner) "rr_base ?pr < base" "limit < rr_end ?pr"
        using part by force
      then show ?thesis
      proof cases
        case left
        have st: "step_ok base limit val k ?rs (?rs[k := ?pr\<lparr>rr_base := limit + 1\<rparr>] @ [?new])"
          by (rule left_step) (use k Suc.prems(1) left m in auto)
        have "?loop [k..<n] ov R = ?loop [Suc k..<n] True (set_range k (?pr\<lparr>rr_base := limit + 1\<rparr>) ?R1)"
          using part left m room by (auto simp: k(3) Let_def)
        then show ?thesis
          using go [of "set_range k (?pr\<lparr>rr_base := limit + 1\<rparr>) ?R1" True] Suc.prems(7) st True k(2)
          by (simp add: list_update_append1)
      next
        case right
        have st: "step_ok base limit val k ?rs (?rs[k := ?pr\<lparr>rr_end := base - 1\<rparr>] @ [?new])"
          by (rule right_step) (use k Suc.prems(1) right m in auto)
        have "?loop [k..<n] ov R = ?loop [Suc k..<n] True (set_range k (?pr\<lparr>rr_end := base - 1\<rparr>) ?R1)"
          using part right m room by (auto simp: k(3) Let_def)
        then show ?thesis
          using go [of "set_range k (?pr\<lparr>rr_end := base - 1\<rparr>) ?R1" True] Suc.prems(7) st True k(2)
          by (simp add: list_update_append1)
      next
        case inner
        note t = split_taken_over [OF k(2) inner Suc.prems(1) m(3) Suc.prems(6)]
        let ?tail = "\<lparr>rr_base = limit + 1, rr_end = rr_end ?pr, rr_val = rr_val ?pr\<rparr>"
        have eq: "?loop [k..<n] ov R = (Some True, True, set_range k (?pr\<lparr>rr_end := base - 1\<rparr>)
            (snd (append_range ?R1 (limit + 1) (rr_end ?pr) (rr_val ?pr))))"
          using part inner m room by (auto simp: k(3) Let_def)
        have "append_range ?R1 (limit + 1) (rr_end ?pr) (rr_val ?pr) =
            (True, ?R1\<lparr>rs_list := ?rs @ [?new, ?tail]\<rparr>)"
          using Suc.prems(7) unfolding eq by (simp add: append_range_cases split: if_split_asm)
        then show ?thesis unfolding eq using k(2) t by (simp add: loop_ok_def list_update_append1)
      qed
    qed
  qed
qed

end
