(* ===== verification/Sev_RangeMap.thy ===== *)
theory Sev_RangeMap
  imports Sev_RangeLists "HOL-Library.Multiset"
begin

text \<open>
  The list of ranges as a map from addresses to RMP values. \<open>means L f rs\<close>: up to the address \<open>L\<close> each
  address \<open>a\<close> lies in some range of \<open>rs\<close>, and all ranges in which it lies have the value \<open>f a\<close>. Adding
  a range paints its addresses with its value, as long as at most one range of another value is at
  each of them; for the regions of memory, which are disjoint, no address is in more than one.
\<close>

section \<open>Painting\<close>

definition means :: "u64 \<Rightarrow> (u64 \<Rightarrow> u64) \<Rightarrow> rmp_range list \<Rightarrow> bool" where
  "means L f rs \<longleftrightarrow> (\<forall>a \<le> L. 0 < cnt (\<lambda>v. v = f a) a rs \<and> cnt (\<lambda>v. v \<noteq> f a) a rs = 0)"

definition paint :: "u64 \<times> u64 \<times> u64 \<Rightarrow> (u64 \<Rightarrow> u64) \<Rightarrow> u64 \<Rightarrow> u64" where
  "paint = (\<lambda>(b, l, v) f a. if b \<le> a \<and> a \<le> l then v else f a)"

definition paint_all :: "(u64 \<times> u64 \<times> u64) list \<Rightarrow> (u64 \<Rightarrow> u64) \<Rightarrow> u64 \<Rightarrow> u64" where
  "paint_all ps f = foldl (\<lambda>f p. paint p f) f ps"

definition add_all :: "u64 \<Rightarrow> (u64 \<times> u64 \<times> u64) list \<Rightarrow> rmp_ranges \<Rightarrow> rmp_ranges" where
  "add_all L ps R = foldl (\<lambda>R (b, l, v). snd (add_range L R b l v)) R ps"

text \<open>A list that is not full at the end never was.\<close>

definition not_full :: "rmp_ranges \<Rightarrow> bool" where
  "not_full R \<longleftrightarrow> length (rs_list R) < rs_limit R"

lemma add_range_length:
  "length (rs_list R) \<le> length (rs_list (snd (add_range L R b l v))) \<and> rs_limit (snd (add_range L R b l v)) = rs_limit R"
proof -
  obtain ret ov R1 where lo: "add_range_loop b (if l > L then L else l) v [0..<length (rs_list R)] False R = (ret, ov, R1)"
    by (metis prod_cases3)
  from loop_length [OF lo] show ?thesis
    by (auto simp: add_range_def Let_def lo append_range_cases split: option.split)
qed

lemma not_full_before: "not_full (snd (add_range L R b l v)) \<Longrightarrow> not_full R"
  using add_range_length [of R L b l v] by (auto simp: not_full_def)

lemma add_all_not_full: "not_full (add_all L ps R) \<Longrightarrow> not_full R"
proof (induction ps arbitrary: R)
  case (Cons p ps)
  obtain b l v where "p = (b, l, v)" by (cases p)
  with Cons show ?case by (auto simp: add_all_def dest: not_full_before)
qed (simp add: add_all_def)

lemma add_range_result:
  assumes "means L f (rs_list R)" and "base \<le> limit \<or> L < base"
    and "\<forall>a \<le> L. base \<le> a \<and> a \<le> limit \<longrightarrow> cnt (\<lambda>v. v \<noteq> val) a (rs_list R) \<le> 1"
    and "not_full (snd (add_range L R base limit val))"
  shows "fst (add_range L R base limit val) \<and>
    (L < base \<or> taken_over base (min limit L) val (rs_list R) (rs_list (snd (add_range L R base limit val))))"
proof (cases "L < base")
  case True
  then show ?thesis by (simp add: add_range_def Let_def)
next
  case False
  let ?l = "min limit L" and ?rs = "rs_list R"
  let ?loop = "add_range_loop base ?l val [0..<length ?rs] False R"
  have l: "(if limit > L then L else limit) = ?l" by (auto simp: min_def)
  have bl: "base \<le> ?l" using assms(2) False by simp
  obtain ret ov R1 where lo: "?loop = (ret, ov, R1)" by (metis prod_cases3)
  have e: "add_range L R base limit val = (case ret of Some ok \<Rightarrow> (ok, R1)
      | None \<Rightarrow> if \<not> ov then append_range R1 base ?l val else (True, R1))"
    using False lo by (cases ret) (simp_all add: add_range_def Let_def l)
  have "length (rs_list R1) < rs_limit R"
    using assms(4) loop_length [OF lo] unfolding e not_full_def
    by (auto simp: append_range_cases split: option.split_asm if_split_asm)
  moreover have "\<forall>i. length ?rs \<le> i \<and> i < length ?rs \<longrightarrow> rr_val (?rs ! i) = val" by auto
  ultimately have ok: "loop_ok base ?l val [0..<length ?rs] False ?rs (ret, ov, R1)"
    using loop_taken_over [of base ?l 0 "length ?rs" R val False] bl assms(3) by (simp add: lo)
  have "ov" if "ret = None"
  proof -
    have "0 < cnt (\<lambda>v. v = f base) base ?rs" using assms(1) False by (simp add: means_def not_less)
    then obtain i where i: "i < length ?rs" "in_rr (?rs ! i) base" by (auto simp: cnt_pos in_set_conv_nth)
    from in_rr_meets [OF i(2), of base ?l] bl have "meets base ?l (?rs ! i)" by simp
    with ok that i(1) show ?thesis by (auto simp: loop_ok_def)
  qed
  with ok show ?thesis unfolding e by (auto simp: loop_ok_def split: option.split)
qed

lemma taken_over_paint:
  assumes "taken_over base (min limit L) val rs rs'" and "means L f rs"
  shows "means L (paint (base, limit, val) f) rs'"
  unfolding means_def
proof (intro allI impI)
  fix a assume a: "a \<le> L"
  show "0 < cnt (\<lambda>v. v = paint (base, limit, val) f a) a rs' \<and> cnt (\<lambda>v. v \<noteq> paint (base, limit, val) f a) a rs' = 0"
  proof (cases "base \<le> a \<and> a \<le> limit")
    case True
    have "0 < cnt (\<lambda>v. v = f a) a rs" using assms(2) a by (simp add: means_def)
    moreover have "cnt (\<lambda>v. v = f a) a rs \<le> cnt (\<lambda>_. True) a rs" by (rule cnt_mono) simp
    ultimately have "0 < cnt (\<lambda>_. True) a rs" by simp
    then show ?thesis using True a assms(1) by (simp add: paint_def taken_over_def)
  next
    case False
    then have "cnt P a rs' = cnt P a rs" for P using assms(1) by (auto simp: taken_over_def)
    moreover have "paint (base, limit, val) f a = f a" using False by (auto simp: paint_def)
    ultimately show ?thesis using assms(2) a by (simp add: means_def)
  qed
qed

lemma add_range_paint:
  assumes "means L f (rs_list R)" and "base \<le> limit \<or> L < base"
    and "\<forall>a \<le> L. base \<le> a \<and> a \<le> limit \<longrightarrow> cnt (\<lambda>v. v \<noteq> val) a (rs_list R) \<le> 1"
    and "not_full (snd (add_range L R base limit val))"
  shows "means L (paint (base, limit, val) f) (rs_list (snd (add_range L R base limit val)))"
proof (cases "L < base")
  case True
  then have "means L (paint (base, limit, val) f) (rs_list R)"
    using assms(1) by (auto simp: means_def paint_def)
  with True show ?thesis by (simp add: add_range_def Let_def)
next
  case False
  with add_range_result [OF assms] taken_over_paint assms(1) show ?thesis by blast
qed

text \<open>At most one range of another value at each address: kept when ranges of the value are added.\<close>

definition lone :: "u64 \<Rightarrow> u64 \<Rightarrow> rmp_range list \<Rightarrow> bool" where
  "lone L val rs \<longleftrightarrow> (\<forall>a \<le> L. cnt (\<lambda>v. v \<noteq> val) a rs \<le> 1)"

lemma add_range_lone:
  assumes "means L f (rs_list R)" and "base \<le> limit \<or> L < base" and "lone L val (rs_list R)"
    and "not_full (snd (add_range L R base limit val))"
  shows "lone L val (rs_list (snd (add_range L R base limit val)))"
proof (cases "L < base")
  case True
  then show ?thesis using assms(3) by (simp add: add_range_def Let_def)
next
  case False
  have "\<forall>a \<le> L. base \<le> a \<and> a \<le> limit \<longrightarrow> cnt (\<lambda>v. v \<noteq> val) a (rs_list R) \<le> 1"
    using assms(3) by (simp add: lone_def)
  from add_range_result [OF assms(1,2) this assms(4)] False
  have t: "taken_over base (min limit L) val (rs_list R) (rs_list (snd (add_range L R base limit val)))" by simp
  show ?thesis
    unfolding lone_def
  proof (intro allI impI)
    fix a assume a: "a \<le> L"
    show "cnt (\<lambda>v. v \<noteq> val) a (rs_list (snd (add_range L R base limit val))) \<le> 1"
    proof (cases "base \<le> a \<and> a \<le> min limit L")
      case True
      then show ?thesis using t by (simp add: taken_over_def)
    next
      case False
      then have "cnt (\<lambda>v. v \<noteq> val) a (rs_list (snd (add_range L R base limit val))) =
          cnt (\<lambda>v. v \<noteq> val) a (rs_list R)"
        using t unfolding taken_over_def by blast
      then show ?thesis using assms(3) a by (simp add: lone_def)
    qed
  qed
qed

lemma add_all_paint:
  assumes "means L f (rs_list R)" and "lone L val (rs_list R)"
    and "\<forall>(b, l, v) \<in> set ps. v = val \<and> (b \<le> l \<or> L < b)" and "not_full (add_all L ps R)"
  shows "means L (paint_all ps f) (rs_list (add_all L ps R)) \<and> lone L val (rs_list (add_all L ps R))"
  using assms
proof (induction ps arbitrary: R f)
  case Nil
  then show ?case by (simp add: add_all_def paint_all_def)
next
  case (Cons p ps)
  obtain b l where p: "p = (b, l, val)" "b \<le> l \<or> L < b" using Cons.prems(3) by (cases p) auto
  let ?R = "snd (add_range L R b l val)"
  have r: "add_all L (p # ps) R = add_all L ps ?R" "paint_all (p # ps) f = paint_all ps (paint p f)"
    by (simp_all add: add_all_def paint_all_def p)
  have nf: "not_full ?R" using Cons.prems(4) by (simp add: r add_all_not_full)
  have "\<forall>a \<le> L. b \<le> a \<and> a \<le> l \<longrightarrow> cnt (\<lambda>v. v \<noteq> val) a (rs_list R) \<le> 1"
    using Cons.prems(2) by (simp add: lone_def)
  from add_range_paint [OF Cons.prems(1) p(2) this nf] add_range_lone [OF Cons.prems(1) p(2) Cons.prems(2) nf]
    Cons.IH [of "paint p f" ?R] Cons.prems(3,4)
  show ?case unfolding r by (simp add: p(1) [symmetric])
qed

section \<open>Regions of memory\<close>

text \<open>A range that meets just one other: the loop changes only that one.\<close>

lemma loop_skips:
  "\<forall>i \<in> set is. \<not> meets base limit (rs_list R ! i) \<Longrightarrow>
     add_range_loop base limit val (is @ js) ov R = add_range_loop base limit val js ov R"
  by (induction "is") (auto simp: Let_def meets_def)

lemma loop_from:
  assumes "k < n" and "\<forall>i < n. i \<noteq> k \<longrightarrow> \<not> meets base limit (rs_list R ! i)"
  shows "add_range_loop base limit val [0..<n] False R = add_range_loop base limit val (k # [Suc k..<n]) False R"
proof -
  have s: "[0..<n] = [0..<k] @ (k # [Suc k..<n])"
    using assms(1) upt_add_eq_append [of 0 k "n - k"] upt_conv_Cons [of k n] by simp
  show ?thesis unfolding s using assms by (intro loop_skips) auto
qed

lemma loop_rest:
  assumes "\<forall>i < n. i \<noteq> k \<longrightarrow> \<not> meets base limit (rs_list R ! i)"
    and "\<forall>i. k < i \<and> i < n \<longrightarrow> rs_list R1 ! i = rs_list R ! i"
  shows "add_range_loop base limit val [Suc k..<n] True R1 = (None, True, R1)"
proof -
  have "add_range_loop base limit val ([Suc k..<n] @ []) True R1 = add_range_loop base limit val [] True R1"
    using assms by (intro loop_skips) auto
  then show ?thesis by simp
qed

text \<open>What the list looks like after that, as far as its ranges of other values are concerned.\<close>

definition cut_at :: "u64 \<Rightarrow> u64 \<Rightarrow> rmp_range \<Rightarrow> rmp_range list" where
  "cut_at base limit r =
     (if rr_base r < base then [r\<lparr>rr_end := base - 1\<rparr>] else []) @
     (if limit < rr_end r then [r\<lparr>rr_base := limit + 1\<rparr>] else [])"

lemma add_range_within:
  assumes "k < length (rs_list R)" and "base \<le> limit" and "limit \<le> L"
    and "rr_base (rs_list R ! k) \<le> base" and "limit \<le> rr_end (rs_list R ! k)"
    and "rr_val (rs_list R ! k) \<noteq> val"
    and "\<forall>i < length (rs_list R). i \<noteq> k \<longrightarrow> \<not> meets base limit (rs_list R ! i)"
    and "not_full (snd (add_range L R base limit val))"
  shows "mset (rs_list (snd (add_range L R base limit val))) =
    mset (rs_list R) - {#rs_list R ! k#} + mset (cut_at base limit (rs_list R ! k)) +
    {#\<lparr>rr_base = base, rr_end = limit, rr_val = val\<rparr>#}"
proof -
  let ?rs = "rs_list R" and ?pr = "rs_list R ! k" and ?n = "length (rs_list R)"
  let ?new = "\<lparr>rr_base = base, rr_end = limit, rr_val = val\<rparr>"
  have l: "(if limit > L then L else limit) = limit" "\<not> base > L" using assms(2,3) by auto
  have m: "\<not> limit < rr_base ?pr" "\<not> rr_end ?pr < base" using assms(2,4,5) by auto
  note from_k = loop_from [OF assms(1,7)]
  have res: "snd (add_range L R base limit val) = R1"
    if "add_range_loop base limit val (k # [Suc k..<?n]) False R = (ret, True, R1)" for ret R1
    using that l by (auto simp: add_range_def Let_def from_k split: option.split)
  have up: "mset (?rs[k := r]) = mset ?rs - {#?pr#} + {#r#}" for r using mset_update [OF assms(1)] by simp
  show ?thesis
  proof (cases "base \<le> rr_base ?pr \<and> rr_end ?pr \<le> limit")
    case True
    then have eq: "base = rr_base ?pr" "limit = rr_end ?pr" using assms(4,5) by auto
    have r: "?pr\<lparr>rr_val := val\<rparr> = ?new" by (simp add: eq)
    have "add_range_loop base limit val (k # [Suc k..<?n]) False R = (None, True, set_range k ?new R)"
      using True assms(6) m loop_rest [OF assms(7), of "set_range k ?new R" val] by (simp add: Let_def r)
    from res [OF this] show ?thesis by (simp add: up cut_at_def eq)
  next
    case part: False
    let ?R1 = "R\<lparr>rs_list := ?rs @ [?new]\<rparr>"
    have "?n < rs_limit R"
    proof (rule ccontr)
      assume n: "\<not> ?n < rs_limit R"
      then have "add_range_loop base limit val (k # [Suc k..<?n]) False R = (Some False, True, R)"
        using m part assms(6) by (auto simp: append_range_cases Let_def)
      from res [OF this] n assms(8) show False by (simp add: not_full_def)
    qed
    then have room: "append_range R base limit val = (True, ?R1)" by (simp add: append_range_cases)
    consider (left) "base = rr_base ?pr" "limit < rr_end ?pr" | (right) "rr_base ?pr < base" "rr_end ?pr = limit"
      | (inner) "rr_base ?pr < base" "limit < rr_end ?pr"
      using part assms(4,5) by (metis le_less less_le)
    then show ?thesis
    proof cases
      case left
      let ?R2 = "set_range k (?pr\<lparr>rr_base := limit + 1\<rparr>) ?R1"
      have "add_range_loop base limit val (k # [Suc k..<?n]) False R = (None, True, ?R2)"
        using left assms(6) m part room loop_rest [OF assms(7), of ?R2 val] by (simp add: Let_def nth_append)
      from res [OF this] show ?thesis using assms(1) left by (simp add: up cut_at_def list_update_append1)
    next
      case right
      let ?R2 = "set_range k (?pr\<lparr>rr_end := base - 1\<rparr>) ?R1"
      have "add_range_loop base limit val (k # [Suc k..<?n]) False R = (None, True, ?R2)"
        using right assms(6) m part room loop_rest [OF assms(7), of ?R2 val] by (simp add: Let_def nth_append)
      from res [OF this] show ?thesis using assms(1) right by (simp add: up cut_at_def list_update_append1)
    next
      case inner
      let ?R2 = "set_range k (?pr\<lparr>rr_end := base - 1\<rparr>) (snd (append_range ?R1 (limit + 1) (rr_end ?pr) (rr_val ?pr)))"
      have "add_range_loop base limit val (k # [Suc k..<?n]) False R = (Some True, True, ?R2)"
        using inner assms(6) m part room by (auto simp: Let_def)
      note r = res [OF this]
      let ?tail = "\<lparr>rr_base = limit + 1, rr_end = rr_end ?pr, rr_val = rr_val ?pr\<rparr>"
      have "append_range ?R1 (limit + 1) (rr_end ?pr) (rr_val ?pr) = (True, ?R1\<lparr>rs_list := ?rs @ [?new, ?tail]\<rparr>)"
        using assms(8) unfolding r by (simp add: not_full_def append_range_cases split: if_split_asm)
      then have "rs_list (snd (add_range L R base limit val)) = ?rs[k := ?pr\<lparr>rr_end := base - 1\<rparr>] @ [?new, ?tail]"
        using assms(1) by (simp add: r list_update_append1)
      then show ?thesis using inner by (simp add: up cut_at_def)
    qed
  qed
qed

text \<open>The list while regions of memory are added: the ranges are disjoint and not empty, and between
  any two ranges that are not memory there is memory.\<close>

definition parted :: "u64 \<Rightarrow> (u64 \<Rightarrow> u64) \<Rightarrow> rmp_range list \<Rightarrow> bool" where
  "parted L f rs \<longleftrightarrow> means L f rs \<and> (\<forall>a. cnt (\<lambda>_. True) a rs \<le> 1) \<and>
     (\<forall>r \<in> set rs. rr_base r \<le> rr_end r \<and> rr_end r \<le> L) \<and>
     (\<forall>r1 \<in> set rs. \<forall>r2 \<in> set rs. rr_val r1 \<noteq> RMP_ENTRY_VAL_HV \<and> rr_val r2 \<noteq> RMP_ENTRY_VAL_HV \<and>
        rr_end r1 < rr_base r2 \<longrightarrow> (\<exists>a. rr_end r1 < a \<and> a < rr_base r2 \<and> f a = RMP_ENTRY_VAL_HV))"

lemma cnt_remove1: "x \<in> set rs \<Longrightarrow> cnt P a (remove1 x rs) + cnt P a [x] = cnt P a rs"
  by (induction rs) (auto simp: cnt_Cons)

lemma cnt_mset: "mset rs = mset rs' \<Longrightarrow> cnt P a rs = cnt P a rs'"
  unfolding cnt_def by (metis mset_filter size_mset)

lemma means_cnt: "(\<And>P a. cnt P a rs = cnt P a rs') \<Longrightarrow> means L f rs = means L f rs'"
  by (simp add: means_def)

lemma parted_mset: "mset rs = mset rs' \<Longrightarrow> parted L f rs \<Longrightarrow> parted L f rs'"
  using cnt_mset [of rs rs'] means_cnt [of rs rs'] mset_eq_setD [of rs rs'] by (simp add: parted_def)

lemma cnt_cut_at:
  assumes "rr_base r \<le> base" and "base \<le> limit" and "limit \<le> rr_end r"
  shows "cnt P a (cut_at base limit r) = (if base \<le> a \<and> a \<le> limit then 0 else cnt P a [r])"
proof -
  have b: "a \<le> base - 1 \<longleftrightarrow> a < base" if "rr_base r < base" using below_minus_one [OF that] .
  have l: "limit + 1 \<le> a \<longleftrightarrow> limit < a" if "limit < rr_end r" using above_plus_one [OF that] .
  have "cnt P a (cut_at base limit r) =
      (if rr_base r < base \<and> rr_base r \<le> a \<and> a < base \<and> P (rr_val r) then 1 else 0) +
      (if limit < rr_end r \<and> limit < a \<and> a \<le> rr_end r \<and> P (rr_val r) then 1 else 0)"
    using b l by (simp add: cut_at_def in_rr_def)
  then show ?thesis using assms by (auto simp: in_rr_def)
qed

lemma cut_at_pieces:
  assumes "x \<in> set (cut_at base limit r)"
  shows "(rr_base r < base \<and> x = r\<lparr>rr_end := base - 1\<rparr>) \<or> (limit < rr_end r \<and> x = r\<lparr>rr_base := limit + 1\<rparr>)"
  using assms by (auto simp: cut_at_def split: if_split_asm)

lemma parted_between:
  "parted L f rs \<Longrightarrow> r1 \<in> set rs \<Longrightarrow> r2 \<in> set rs \<Longrightarrow> rr_val r1 \<noteq> RMP_ENTRY_VAL_HV \<Longrightarrow>
     rr_val r2 \<noteq> RMP_ENTRY_VAL_HV \<Longrightarrow> rr_end r1 < rr_base r2 \<Longrightarrow>
     \<exists>a. rr_end r1 < a \<and> a < rr_base r2 \<and> f a = RMP_ENTRY_VAL_HV"
  unfolding parted_def by blast

lemma hv_fixed_not_hv: "RMP_ENTRY_VAL_HV_FIXED \<noteq> RMP_ENTRY_VAL_HV"
  by (simp add: RMP_ENTRY_VAL_HV_def RMP_ENTRY_VAL_HV_FIXED_def)

text \<open>The region lies within one range.\<close>

lemma parted_holder:
  assumes "parted L f rs" and "base \<le> limit" and "limit \<le> L"
    and "\<forall>a. base \<le> a \<and> a \<le> limit \<longrightarrow> f a = RMP_ENTRY_VAL_HV_FIXED"
  obtains k where "k < length rs" and "rr_base (rs ! k) \<le> base" and "limit \<le> rr_end (rs ! k)"
    and "rr_val (rs ! k) = RMP_ENTRY_VAL_HV_FIXED"
    and "\<forall>i < length rs. i \<noteq> k \<longrightarrow> \<not> meets base limit (rs ! i)"
proof -
  have hold: "\<exists>k < length rs. in_rr (rs ! k) a \<and> rr_val (rs ! k) = RMP_ENTRY_VAL_HV_FIXED"
    if "base \<le> a" "a \<le> limit" for a
  proof -
    have "f a = RMP_ENTRY_VAL_HV_FIXED" "a \<le> L" using assms(3,4) that by auto
    moreover have "0 < cnt (\<lambda>v. v = f a) a rs" using assms(1) \<open>a \<le> L\<close> by (simp add: parted_def means_def)
    ultimately show ?thesis by (auto simp: cnt_pos in_set_conv_nth)
  qed
  have one: "i = j" if "i < length rs" "j < length rs" "in_rr (rs ! i) a" "in_rr (rs ! j) a" for i j a
    using cnt_unique [of "\<lambda>_. True" a rs i j] assms(1) that by (auto simp: parted_def)
  obtain k where k: "k < length rs" "in_rr (rs ! k) base" "rr_val (rs ! k) = RMP_ENTRY_VAL_HV_FIXED"
    using hold [of base] assms(2) by auto
  have up: "limit \<le> rr_end (rs ! k)"
  proof (rule ccontr)
    let ?e = "rr_end (rs ! k)"
    assume "\<not> limit \<le> ?e"
    then have e: "?e < limit" by simp
    have s: "?e + 1 \<le> a \<longleftrightarrow> ?e < a" for a by (rule above_plus_one [OF e])
    have "base \<le> ?e" using k(2) by (simp add: in_rr_def)
    moreover have "?e < ?e + 1" using s [of "?e + 1"] by simp
    ultimately have "base \<le> ?e + 1" "?e + 1 \<le> limit" using e s [of limit] by simp_all
    then obtain j where j: "j < length rs" "in_rr (rs ! j) (?e + 1)" "rr_val (rs ! j) = RMP_ENTRY_VAL_HV_FIXED"
      using hold by blast
    have "\<not> in_rr (rs ! k) (?e + 1)" using \<open>?e < ?e + 1\<close> by (auto simp: in_rr_def)
    then have "j \<noteq> k" using j(2) by auto
    have ke: "in_rr (rs ! k) ?e" using k(2) by (auto simp: in_rr_def)
    have "\<not> in_rr (rs ! j) ?e" using one [OF j(1) k(1) _ ke] \<open>j \<noteq> k\<close> by auto
    then have "?e < rr_base (rs ! j)" using j(2) \<open>?e < ?e + 1\<close> by (auto simp: in_rr_def)
    then obtain a where "?e < a" "a < rr_base (rs ! j)"
      using parted_between [OF assms(1), of "rs ! k" "rs ! j"] k j hv_fixed_not_hv by auto
    then show False using s [of a] j(2) by (auto simp: in_rr_def)
  qed
  have "\<not> meets base limit (rs ! i)" if i: "i < length rs" "i \<noteq> k" for i
  proof
    assume m: "meets base limit (rs ! i)"
    let ?a = "max base (rr_base (rs ! i))"
    have "rr_base (rs ! i) \<le> rr_end (rs ! i)" using assms(1) i(1) by (simp add: parted_def)
    with m have "in_rr (rs ! i) ?a" "base \<le> ?a" "?a \<le> limit" using assms(2) by (auto simp: in_rr_def meets_def not_less)
    moreover from this have "in_rr (rs ! k) ?a" using k(2) up by (auto simp: in_rr_def le_max_iff_disj)
    ultimately show False using one i k(1) by blast
  qed
  with k up that [of k] show ?thesis by (auto simp: in_rr_def)
qed

lemma parted_step:
  assumes "parted L f rs" and "k < length rs" and "base \<le> limit" and "limit \<le> L"
    and "rr_base (rs ! k) \<le> base" and "limit \<le> rr_end (rs ! k)"
    and "rr_val (rs ! k) = RMP_ENTRY_VAL_HV_FIXED"
    and "means L (paint (base, l, RMP_ENTRY_VAL_HV) f) rs'"
    and "l = limit \<or> (limit = L \<and> L \<le> l)"
    and "rs' = remove1 (rs ! k) rs @ cut_at base limit (rs ! k) @
      [\<lparr>rr_base = base, rr_end = limit, rr_val = RMP_ENTRY_VAL_HV\<rparr>]"
  shows "parted L (paint (base, l, RMP_ENTRY_VAL_HV) f) rs'"
proof -
  let ?pr = "rs ! k" and ?f = "paint (base, l, RMP_ENTRY_VAL_HV) f" and ?others = "remove1 (rs ! k) rs"
  have pr: "?pr \<in> set rs" using assms(2) by simp
  then have ne: "rr_base ?pr \<le> rr_end ?pr" "rr_end ?pr \<le> L" using assms(1) by (simp_all add: parted_def)
  note rem = cnt_remove1 [OF pr]
  have total: "cnt (\<lambda>_. True) a rs \<le> 1" for a using assms(1) by (simp add: parted_def)
  have apart: "\<not> in_rr x a" if "x \<in> set ?others" "in_rr ?pr a" for x a
    using rem [of "\<lambda>_. True" a] total [of a] that(2) cnt_zero [of "\<lambda>_. True" a ?others] that(1) by auto
  have one: "cnt (\<lambda>_. True) a rs' \<le> 1" for a
  proof (cases "base \<le> a \<and> a \<le> limit")
    case True
    then have "in_rr ?pr a" using assms(5,6) by (auto simp: in_rr_def)
    then have "cnt (\<lambda>_. True) a ?others = 0" using apart by (auto simp: cnt_zero)
    with True show ?thesis using assms(5,6) by (simp add: assms(10) cnt_cut_at [OF assms(5,3,6)])
  next
    case False
    then have "cnt (\<lambda>_. True) a [\<lparr>rr_base = base, rr_end = limit, rr_val = RMP_ENTRY_VAL_HV\<rparr>] = 0"
      by (auto simp: in_rr_def)
    with False show ?thesis
      using rem [of "\<lambda>_. True" a] total [of a] by (auto simp: assms(10) cnt_cut_at [OF assms(5,3,6)])
  qed
  have set': "set rs' = set ?others \<union> set (cut_at base limit ?pr) \<union>
      {\<lparr>rr_base = base, rr_end = limit, rr_val = RMP_ENTRY_VAL_HV\<rparr>}" by (simp add: assms(10))
  have sub: "x \<in> set rs" if "x \<in> set ?others" for x using that set_remove1_subset [of ?pr rs] by blast
  have piece: "rr_base ?pr \<le> rr_base x \<and> rr_base x \<le> rr_end x \<and> rr_end x \<le> rr_end ?pr \<and> rr_val x = rr_val ?pr"
    if "x \<in> set (cut_at base limit ?pr)" for x
    using cut_at_pieces [OF that]
  proof (elim disjE conjE)
    assume x: "rr_base ?pr < base" "x = ?pr\<lparr>rr_end := base - 1\<rparr>"
    have "base - 1 < base" "rr_base ?pr \<le> base - 1"
      using below_minus_one [OF x(1), of "base - 1"] below_minus_one [OF x(1), of "rr_base ?pr"] x(1) by simp_all
    moreover from this have "base - 1 \<le> rr_end ?pr" using assms(3,6) by order
    ultimately show ?thesis by (simp add: x(2))
  next
    assume x: "limit < rr_end ?pr" "x = ?pr\<lparr>rr_base := limit + 1\<rparr>"
    have "limit < limit + 1" "limit + 1 \<le> rr_end ?pr"
      using above_plus_one [OF x(1), of "limit + 1"] above_plus_one [OF x(1), of "rr_end ?pr"] x(1) by simp_all
    moreover from this have "rr_base ?pr \<le> limit + 1" using assms(3,5) by order
    ultimately show ?thesis by (simp add: x(2))
  qed
  have filled: "rr_base r \<le> rr_end r \<and> rr_end r \<le> L" if "r \<in> set rs'" for r
  proof -
    have "rr_end r \<le> L" if "r \<in> set (cut_at base limit ?pr)" using piece [OF that] ne(2) by (meson order_trans)
    then show ?thesis using that assms(1,3,4) piece sub unfolding set' parted_def by auto
  qed
  have keep: "\<exists>a. x < a \<and> a < y \<and> ?f a = RMP_ENTRY_VAL_HV"
    if "\<exists>a. x < a \<and> a < y \<and> f a = RMP_ENTRY_VAL_HV" for x y
    using that by (auto simp: paint_def)
  have hvf: "rr_val ?pr \<noteq> RMP_ENTRY_VAL_HV" using assms(7) hv_fixed_not_hv by simp
  note old = parted_between [OF assms(1)]
  have left: "\<exists>a. rr_end o1 < a \<and> a < rr_base ?pr \<and> f a = RMP_ENTRY_VAL_HV"
    if "o1 \<in> set ?others" "rr_val o1 \<noteq> RMP_ENTRY_VAL_HV" "rr_end o1 < rr_end ?pr" for o1
  proof (rule old [OF sub [OF that(1)] pr that(2) hvf], rule ccontr)
    assume "\<not> rr_end o1 < rr_base ?pr"
    then have "in_rr ?pr (rr_end o1)" using that(3) by (auto simp: in_rr_def)
    moreover have "in_rr o1 (rr_end o1)" using assms(1) sub [OF that(1)] by (simp add: parted_def in_rr_def)
    ultimately show False using apart [OF that(1)] by blast
  qed
  have right: "\<exists>a. rr_end ?pr < a \<and> a < rr_base o2 \<and> f a = RMP_ENTRY_VAL_HV"
    if "o2 \<in> set ?others" "rr_val o2 \<noteq> RMP_ENTRY_VAL_HV" "rr_base ?pr < rr_base o2" for o2
  proof (rule old [OF pr sub [OF that(1)] hvf that(2)], rule ccontr)
    assume "\<not> rr_end ?pr < rr_base o2"
    then have "in_rr ?pr (rr_base o2)" using that(3) by (auto simp: in_rr_def)
    moreover have "in_rr o2 (rr_base o2)" using assms(1) sub [OF that(1)] by (simp add: parted_def in_rr_def)
    ultimately show False using apart [OF that(1)] by blast
  qed
  have between: "\<exists>a. rr_end r1 < a \<and> a < rr_base r2 \<and> ?f a = RMP_ENTRY_VAL_HV"
    if r: "r1 \<in> set rs'" "r2 \<in> set rs'" "rr_val r1 \<noteq> RMP_ENTRY_VAL_HV" "rr_val r2 \<noteq> RMP_ENTRY_VAL_HV"
      "rr_end r1 < rr_base r2" for r1 r2
  proof -
    have m: "(r \<in> set ?others) \<or> (r \<in> set (cut_at base limit ?pr))"
      if "r \<in> set rs'" "rr_val r \<noteq> RMP_ENTRY_VAL_HV" for r
      using that by (auto simp: set')
    from m [OF r(1,3)] m [OF r(2,4)] consider (oo) "r1 \<in> set ?others" "r2 \<in> set ?others"
      | (op) "r1 \<in> set ?others" "r2 \<in> set (cut_at base limit ?pr)"
      | (po) "r1 \<in> set (cut_at base limit ?pr)" "r2 \<in> set ?others"
      | (pp) "r1 \<in> set (cut_at base limit ?pr)" "r2 \<in> set (cut_at base limit ?pr)" by blast
    then show ?thesis
    proof cases
      case oo
      then show ?thesis using keep old [OF sub sub] r by blast
    next
      case op
      have p: "rr_base ?pr \<le> rr_base r2" "rr_base r2 \<le> rr_end r2" "rr_end r2 \<le> rr_end ?pr"
        using piece [OF op(2)] by auto
      then have "rr_end r1 < rr_end ?pr" using r(5) by order
      then obtain a where "rr_end r1 < a" "a < rr_base ?pr" "f a = RMP_ENTRY_VAL_HV"
        using left [OF op(1) r(3)] by blast
      moreover from this have "a < rr_base r2" using p by order
      ultimately show ?thesis using keep by blast
    next
      case po
      have p: "rr_base ?pr \<le> rr_base r1" "rr_base r1 \<le> rr_end r1" "rr_end r1 \<le> rr_end ?pr"
        using piece [OF po(1)] by auto
      then have "rr_base ?pr < rr_base r2" using r(5) by order
      then obtain a where "rr_end ?pr < a" "a < rr_base r2" "f a = RMP_ENTRY_VAL_HV"
        using right [OF po(2) r(4)] by blast
      moreover from this have "rr_end r1 < a" using p by order
      ultimately show ?thesis using keep by blast
    next
      case pp
      have "rr_base r1 \<le> rr_end r1" "rr_base r2 \<le> rr_end r2" using piece pp by blast+
      with cut_at_pieces [OF pp(1)] cut_at_pieces [OF pp(2)] r(5) ne
      have "rr_base ?pr < base \<and> rr_end r1 = base - 1 \<and> limit < rr_end ?pr \<and> rr_base r2 = limit + 1" by auto
      then have "rr_end r1 < base" "base < rr_base r2"
        using below_minus_one [of "rr_base ?pr" base "rr_end r1"] above_plus_one [of limit "rr_end ?pr" "rr_base r2"]
          assms(3) by auto
      moreover have "?f base = RMP_ENTRY_VAL_HV" using assms(3,4,9) by (auto simp: paint_def)
      ultimately show ?thesis by blast
    qed
  qed
  show ?thesis
    unfolding parted_def using assms(8) one filled between by blast
qed

lemma add_region:
  assumes "parted L f (rs_list R)" and "base \<le> l"
    and "\<forall>a \<le> L. base \<le> a \<and> a \<le> l \<longrightarrow> f a = RMP_ENTRY_VAL_HV_FIXED"
    and "not_full (snd (add_range L R base l RMP_ENTRY_VAL_HV))"
  shows "parted L (paint (base, l, RMP_ENTRY_VAL_HV) f) (rs_list (snd (add_range L R base l RMP_ENTRY_VAL_HV)))"
proof (cases "L < base")
  case True
  let ?f = "paint (base, l, RMP_ENTRY_VAL_HV) f"
  have "?f a = f a" if "a \<le> L" for a using True that by (auto simp: paint_def)
  then have "means L ?f (rs_list R) = means L f (rs_list R)" by (simp add: means_def)
  moreover have "f a = RMP_ENTRY_VAL_HV \<Longrightarrow> ?f a = RMP_ENTRY_VAL_HV" for a by (simp add: paint_def)
  ultimately have "parted L ?f (rs_list R)" using assms(1) unfolding parted_def by blast
  with True show ?thesis by (simp add: add_range_def Let_def)
next
  case False
  let ?limit = "min l L" and ?v = "RMP_ENTRY_VAL_HV"
  have e: "add_range L R base l ?v = add_range L R base ?limit ?v"
    by (auto simp: add_range_def Let_def min_def)
  have b: "base \<le> ?limit" "?limit \<le> L" using assms(2) False by simp_all
  have nf: "not_full (snd (add_range L R base ?limit ?v))" using assms(4) by (simp add: e)
  have "\<forall>a. base \<le> a \<and> a \<le> ?limit \<longrightarrow> f a = RMP_ENTRY_VAL_HV_FIXED" using assms(3) by simp
  from parted_holder [OF assms(1) b this] obtain k where k: "k < length (rs_list R)"
    "rr_base (rs_list R ! k) \<le> base" "?limit \<le> rr_end (rs_list R ! k)"
    "rr_val (rs_list R ! k) = RMP_ENTRY_VAL_HV_FIXED"
    "\<forall>i < length (rs_list R). i \<noteq> k \<longrightarrow> \<not> meets base ?limit (rs_list R ! i)" .
  let ?rs = "remove1 (rs_list R ! k) (rs_list R) @ cut_at base ?limit (rs_list R ! k) @
    [\<lparr>rr_base = base, rr_end = ?limit, rr_val = ?v\<rparr>]"
  have m: "mset (rs_list (snd (add_range L R base l ?v))) = mset ?rs"
    using add_range_within [OF k(1) b k(2,3) _ k(5) nf] k(4) hv_fixed_not_hv by (simp add: e)
  have pm: "means L f (rs_list R)" and one: "\<And>a. cnt (\<lambda>_. True) a (rs_list R) \<le> 1"
    using assms(1) by (simp_all add: parted_def)
  have "cnt (\<lambda>v. v \<noteq> ?v) a (rs_list R) \<le> 1" for a
    using cnt_mono [of "\<lambda>v. v \<noteq> ?v" "\<lambda>_. True" a "rs_list R"] one [of a] by simp
  then have "means L (paint (base, l, ?v) f) (rs_list (snd (add_range L R base l ?v)))"
    using assms(2,4) pm by (intro add_range_paint) auto
  then have "means L (paint (base, l, ?v) f) ?rs" using means_cnt cnt_mset [OF m] by metis
  moreover have "l = ?limit \<or> (?limit = L \<and> L \<le> l)" by (auto simp: min_def)
  ultimately have "parted L (paint (base, l, ?v) f) ?rs"
    using parted_step [OF assms(1) k(1) b k(2-4) _ _ refl] by blast
  from parted_mset [OF m [symmetric] this] show ?thesis .
qed

text \<open>Disjoint regions, none of which is empty.\<close>

fun disjoint_regions :: "(u64 \<times> u64) list \<Rightarrow> bool" where
  "disjoint_regions [] \<longleftrightarrow> True"
| "disjoint_regions ((b, l) # rs) \<longleftrightarrow> b \<le> l \<and> list_all (\<lambda>(b', l'). l < b' \<or> l' < b) rs \<and> disjoint_regions rs"

definition region_ranges :: "(u64 \<times> u64) list \<Rightarrow> (u64 \<times> u64 \<times> u64) list" where
  "region_ranges regions = map (\<lambda>(b, l). (b, l, RMP_ENTRY_VAL_HV)) regions"

lemma memory_ranges_all: "memory_ranges L regions R = add_all L (region_ranges regions) R"
  unfolding memory_ranges_def add_all_def region_ranges_def
  by (induction regions arbitrary: R) auto

lemma memory_stage:
  assumes "parted L f (rs_list R)" and "disjoint_regions regions"
    and "\<forall>(b, l) \<in> set regions. \<forall>a \<le> L. b \<le> a \<and> a \<le> l \<longrightarrow> f a = RMP_ENTRY_VAL_HV_FIXED"
    and "not_full (memory_ranges L regions R)"
  shows "parted L (paint_all (region_ranges regions) f) (rs_list (memory_ranges L regions R))"
  using assms
proof (induction regions arbitrary: f R)
  case Nil
  then show ?case by (simp add: memory_ranges_def region_ranges_def paint_all_def)
next
  case (Cons r regions)
  obtain b l where r: "r = (b, l)" by (cases r)
  let ?R = "snd (add_range L R b l RMP_ENTRY_VAL_HV)" and ?f = "paint (b, l, RMP_ENTRY_VAL_HV) f"
  have s: "memory_ranges L (r # regions) R = memory_ranges L regions ?R"
    "paint_all (region_ranges (r # regions)) f = paint_all (region_ranges regions) ?f"
    by (simp_all add: memory_ranges_def region_ranges_def paint_all_def r)
  have nr: "not_full (memory_ranges L regions ?R)" using Cons.prems(4) by (simp only: s)
  then have nf: "not_full ?R" unfolding memory_ranges_all by (rule add_all_not_full)
  have p: "parted L ?f (rs_list ?R)"
    using Cons.prems(1-3) nf by (intro add_region) (auto simp: r)
  have "?f a = RMP_ENTRY_VAL_HV_FIXED" if "(b', l') \<in> set regions" "a \<le> L" "b' \<le> a" "a \<le> l'" for b' l' a
  proof -
    have "l < b' \<or> l' < b" using Cons.prems(2) that(1) by (auto simp: r list_all_iff)
    then have "\<not> (b \<le> a \<and> a \<le> l)" using that(3,4) by auto
    then have "?f a = f a" by (auto simp: paint_def)
    then show ?thesis using Cons.prems(3) that by auto
  qed
  then show ?case unfolding s using Cons.prems(2) p nr by (intro Cons.IH) (auto simp: r)
qed

end
