(* ===== verification/Sev_RmpLayout.thy ===== *)
theory Sev_RmpLayout
  imports Sev_RangeMap
begin

text \<open>
  What SNP_INIT makes of the reverse map table: the list of ranges that \<open>configure_rmp\<close> writes gives
  each page the value of the last of its steps that concerns it. A page is a FIRMWARE page if it
  belongs to the table, a HYPERVISOR page if it is memory that nothing reserves, HV_FIXED otherwise.
\<close>

section \<open>The ranges of the host's list\<close>

text \<open>The ranges that one entry of the list adds, and the entries that the loop gets to.\<close>

definition entry_ranges :: "x86 \<Rightarrow> u64 \<times> u32 \<Rightarrow> (u64 \<times> u64) list" where
  "entry_ranges X = (\<lambda>(base, n).
     let limit = base + ucast n * PAGE_SIZE_4K - 1
     in if ranges_overlap base limit (xs_rmp_base X) (xs_rmp_end X) then
          (if base < xs_rmp_base X then [(base, xs_rmp_base X - 1)] else []) @
          (if xs_rmp_end X < limit then [(xs_rmp_end X + 1, limit)] else [])
        else if n \<noteq> 0 then [(base, limit)] else [])"

fun walked_entries :: "x86 \<Rightarrow> u64 \<Rightarrow> nat \<Rightarrow> u64 \<Rightarrow> (u64 \<times> u32) list" where
  "walked_entries X mbz 0 p = []"
| "walked_entries X mbz (Suc n) p =
     (let base = read64 X p AND NOT SEV_CBIT_MASK
      in if read32 X (p + 12) \<noteq> 0 \<or> base AND mbz \<noteq> 0 then []
         else (base, read32 X (p + 8)) # walked_entries X mbz n (p + 16))"

definition list_entries :: "x86 \<Rightarrow> u64 \<Rightarrow> u64 \<Rightarrow> (u64 \<times> u32) list" where
  "list_entries X paddr mbz =
     (let a = set_asid X COPY_PLAINTEXT_IN paddr 0; n = read32 X a
      in if paddr = PADDR_INVALID \<or> validate_address_range X paddr PAGE_SIZE_4K \<noteq> SEV_STATUS_SUCCESS \<or>
            xs_map X a \<noteq> SEV_STATUS_SUCCESS \<or> read32 X (a + 4) \<noteq> 0 \<or> n > SNP_RANGE_LIST_MAX_COUNT \<or>
            ucast (n * 16 + 8) + (a AND (PAGE_SIZE_4K - 1)) > PAGE_SIZE_4K then []
         else walked_entries X mbz (unat n) (a + 8))"

definition host_ranges :: "x86 \<Rightarrow> u64 \<Rightarrow> u64 \<Rightarrow> (u64 \<times> u64) list" where
  "host_ranges X paddr mbz = concat (map (entry_ranges X) (list_entries X paddr mbz))"

definition fixed :: "u64 \<times> u64 \<Rightarrow> u64 \<times> u64 \<times> u64" where
  "fixed = (\<lambda>(b, l). (b, l, RMP_ENTRY_VAL_HV_FIXED))"

lemma add_all_append: "add_all L (ps @ qs) R = add_all L qs (add_all L ps R)"
  by (simp add: add_all_def)

lemma add_all_Nil [simp]: "add_all L [] R = R"
  by (simp add: add_all_def)

lemma add_all_Cons [simp]: "add_all L ((b, l, v) # ps) R = add_all L ps (snd (add_range L R b l v))"
  by (simp add: add_all_def)

lemma add_reserved_all: "add_reserved X L base n R = add_all L (map fixed (entry_ranges X (base, n))) R"
  by (simp add: add_reserved_def entry_ranges_def Let_def fixed_def)

lemma walk_loop_all:
  "snd (walk_reserved_loop X L mbz n p R) = add_all L (map fixed (concat (map (entry_ranges X) (walked_entries X mbz n p)))) R"
  by (induction n arbitrary: p R) (auto simp: Let_def add_reserved_all add_all_append)

lemma walk_list_all:
  "snd (walk_reserved_list X L R paddr mbz) = add_all L (map fixed (host_ranges X paddr mbz)) R"
  by (auto simp: walk_reserved_list_def host_ranges_def list_entries_def Let_def walk_loop_all)

text \<open>None of them is empty, but for those that lie behind the last address of the table.\<close>

lemma entry_ranges_proper:
  assumes "L < 2 ^ 63" and "(b, l) \<in> set (entry_ranges X e)"
  shows "b \<le> l \<or> L < b"
proof -
  obtain base n where e: "e = (base, n)" by (cases e)
  let ?size = "ucast n * PAGE_SIZE_4K :: u64"
  have n: "unat (ucast n :: u64) = unat n" by (simp add: unat_ucast_up)
  have bound: "unat n < 2 ^ 32" using u32_bound [of n] by simp
  have size: "unat ?size = unat n * 4096" using bound by (subst unat_mult_no_wrap) (simp_all add: n PAGE_SIZE_4K_def)
  have whole: "base \<le> base + ?size - 1 \<or> L < base" if "n \<noteq> 0"
  proof (cases "unat base + unat n * 4096 \<le> 2 ^ 64")
    case True
    have n0: "unat n \<noteq> 0" using that by (simp add: unat_eq_0)
    have "base + ?size - 1 = base + of_nat (unat n * 4096 - 1)"
    proof -
      have "(of_nat (unat n * 4096 - 1) :: u64) = of_nat (unat ?size) - 1" using n0 by (simp add: size of_nat_diff)
      then show ?thesis by simp
    qed
    also have "unat (base + of_nat (unat n * 4096 - 1) :: u64) = unat base + (unat n * 4096 - 1)"
      using True n0 by (intro unat_plus_of_nat) simp
    finally show ?thesis by (simp add: word_le_nat_alt)
  next
    case False
    have "unat L < 2 ^ 63" using assms(1) by (simp add: word_less_nat_alt)
    moreover have "unat n * 4096 < 2 ^ 44" using bound by simp
    ultimately have "unat L < unat base" using False by simp
    then show ?thesis by (simp add: word_less_nat_alt)
  qed
  show ?thesis
    using assms(2) whole below_minus_one [of base "xs_rmp_base X" base]
      above_plus_one [of "xs_rmp_end X" "base + ?size - 1" "base + ?size - 1"]
    by (auto simp: e entry_ranges_def Let_def split: if_split_asm)
qed

section \<open>The layout\<close>

definition known_ranges :: "x86 \<Rightarrow> bool \<Rightarrow> bool \<Rightarrow> u64 \<Rightarrow> (u64 \<times> u64) list" where
  "known_ranges X sscb_tseg sscb_aseg smm_end =
     (if sscb_tseg then [(xs_smm_base X, smm_end)] else []) @
     (if sscb_aseg then [(xs_aseg_base X, xs_aseg_limit X)] else []) @ [(0xFD00000000, 0xFDFFFFFFFF)]"

definition reserved_ranges :: "x86 \<Rightarrow> bool \<Rightarrow> bool \<Rightarrow> u64 \<Rightarrow> u64 \<Rightarrow> (u64 \<times> u64) list" where
  "reserved_ranges X sscb_tseg sscb_aseg smm_end paddr =
     (if paddr \<noteq> PADDR_INVALID then host_ranges X paddr SNP_ADDR_RESERVED_MASK else []) @
     known_ranges X sscb_tseg sscb_aseg smm_end"

definition covered :: "(u64 \<times> u64) list \<Rightarrow> u64 \<Rightarrow> bool" where
  "covered ranges a \<longleftrightarrow> (\<exists>(b, l) \<in> set ranges. b \<le> a \<and> a \<le> l)"

text \<open>The value for an address: the specification of the layout.\<close>

definition rmp_layout :: "x86 \<Rightarrow> (u64 \<times> u64) list \<Rightarrow> (u64 \<times> u64) list \<Rightarrow> u64 \<Rightarrow> u64" where
  "rmp_layout X reserved regions a =
     (if xs_rmp_base X \<le> a \<and> a \<le> xs_rmp_end X then RMP_ENTRY_VAL_FIRMWARE
      else if covered regions a \<and> \<not> covered reserved a then RMP_ENTRY_VAL_HV
      else RMP_ENTRY_VAL_HV_FIXED)"

lemma paint_all_same:
  "paint_all (map (\<lambda>(b, l). (b, l, v)) ranges) f a = (if covered ranges a then v else f a)"
  unfolding paint_all_def
proof (induction ranges arbitrary: f)
  case (Cons r ranges)
  obtain b l where "r = (b, l)" by (cases r)
  with Cons [of "paint (b, l, v) f"] show ?case by (auto simp: covered_def paint_def)
qed (simp add: covered_def)

lemma build_ranges_all:
  "build_ranges X tseg aseg smm_end L paddr regions R =
     add_all L (map fixed (reserved_ranges X tseg aseg smm_end paddr))
       (memory_ranges L regions (snd (add_range L R 0 L RMP_ENTRY_VAL_HV_FIXED)))"
  by (simp add: build_ranges_def add_known_hvfixed_ranges_def reserved_ranges_def known_ranges_def Let_def
      walk_list_all add_all_append fixed_def)

lemma first_range:
  assumes "init_ranges X old False = (True, L, Some R)"
  shows "rs_list (snd (add_range L R 0 L RMP_ENTRY_VAL_HV_FIXED)) =
    [\<lparr>rr_base = 0, rr_end = L, rr_val = RMP_ENTRY_VAL_HV_FIXED\<rparr>]"
proof -
  have "R = \<lparr>rs_limit = (SEV_SCRATCH_BUF_LEN - 8) div 24, rs_list = []\<rparr>"
    using assms by (auto simp: init_ranges_def Let_def split: if_split_asm)
  then show ?thesis by (simp add: add_range_def append_range_def SEV_SCRATCH_BUF_LEN_def Let_def)
qed

lemma all_fixed_parted: "parted L (\<lambda>_. RMP_ENTRY_VAL_HV_FIXED) [\<lparr>rr_base = 0, rr_end = L, rr_val = RMP_ENTRY_VAL_HV_FIXED\<rparr>]"
  by (auto simp: parted_def means_def in_rr_def)

lemma check_range_cnt:
  assumes "check_range L R b l v" and "v \<noteq> RMP_ENTRY_VAL_HV_FIXED" and "b \<le> a" and "a \<le> l"
    and "r \<in> set (rs_list R)" and "in_rr r a"
  shows "rr_val r = v"
proof -
  have loop: "check_range_loop rs b l v ret \<Longrightarrow> r \<in> set rs \<Longrightarrow> rr_val r = v" for rs ret
    using in_rr_meets [OF assms(6,3,4)]
    by (induction rs arbitrary: ret) (auto simp: meets_def split: if_split_asm)
  have "check_range_loop (rs_list R) b l v False"
    using assms(1,2) by (auto simp: check_range_def split: if_split_asm)
  from loop [OF this assms(5)] show ?thesis .
qed

lemma cnt_cong:
  "(\<And>r. r \<in> set rs \<Longrightarrow> in_rr r a \<Longrightarrow> P (rr_val r) = Q (rr_val r)) \<Longrightarrow> cnt P a rs = cnt Q a rs"
  by (induction rs) (auto simp: cnt_Cons)

lemma layout_of_list:
  assumes "init_ranges X old False = (True, L, Some R)" and "L < 2 ^ 63" and "disjoint_regions regions"
    and "sscb_tseg \<Longrightarrow> xs_smm_base X \<le> smm_end" and "sscb_aseg \<Longrightarrow> xs_aseg_base X \<le> xs_aseg_limit X"
    and "xs_rmp_base X \<le> xs_rmp_end X"
    and "R1 = build_ranges X sscb_tseg sscb_aseg smm_end L paddr regions R"
    and "check_range L R1 (xs_rmp_base X) (xs_rmp_end X) RMP_ENTRY_VAL_HV"
    and "R2 = snd (add_range L R1 (xs_rmp_base X) (xs_rmp_end X) RMP_ENTRY_VAL_FIRMWARE)" and "not_full R2"
  shows "means L (rmp_layout X (reserved_ranges X sscb_tseg sscb_aseg smm_end paddr) regions) (rs_list R2)"
proof -
  let ?reserved = "reserved_ranges X sscb_tseg sscb_aseg smm_end paddr"
  let ?R0 = "snd (add_range L R 0 L RMP_ENTRY_VAL_HV_FIXED)" and ?f0 = "\<lambda>_ :: u64. RMP_ENTRY_VAL_HV_FIXED"
  let ?Rm = "memory_ranges L regions ?R0" and ?fm = "paint_all (region_ranges regions) ?f0"
  have r1: "R1 = add_all L (map fixed ?reserved) ?Rm" by (simp add: assms(7) build_ranges_all)
  have nf1: "not_full R1" using assms(9,10) not_full_before by blast
  then have nfm: "not_full ?Rm" unfolding r1 by (rule add_all_not_full)
  have pm: "parted L ?fm (rs_list ?Rm)"
    by (rule memory_stage) (use assms(3) nfm first_range [OF assms(1)] all_fixed_parted in auto)
  then have "means L ?fm (rs_list ?Rm)" and one: "\<And>a. cnt (\<lambda>_. True) a (rs_list ?Rm) \<le> 1"
    by (simp_all add: parted_def)
  moreover have "lone L RMP_ENTRY_VAL_HV_FIXED (rs_list ?Rm)"
    unfolding lone_def using one cnt_mono [of "\<lambda>v. v \<noteq> RMP_ENTRY_VAL_HV_FIXED" "\<lambda>_. True"] order_trans by blast
  moreover have "\<forall>(b, l, v) \<in> set (map fixed ?reserved). v = RMP_ENTRY_VAL_HV_FIXED \<and> (b \<le> l \<or> L < b)"
    using assms(4,5)
    by (auto simp: fixed_def reserved_ranges_def known_ranges_def host_ranges_def split: if_split_asm
        dest!: entry_ranges_proper [OF assms(2)])
  ultimately have "means L (paint_all (map fixed ?reserved) ?fm) (rs_list R1)"
    and l1: "lone L RMP_ENTRY_VAL_HV_FIXED (rs_list R1)"
    using add_all_paint [of L ?fm ?Rm RMP_ENTRY_VAL_HV_FIXED "map fixed ?reserved"] nf1 by (simp_all add: r1)
  moreover have "cnt (\<lambda>v. v \<noteq> RMP_ENTRY_VAL_FIRMWARE) a (rs_list R1) \<le> 1"
    if "a \<le> L" "xs_rmp_base X \<le> a" "a \<le> xs_rmp_end X" for a
  proof -
    have "cnt (\<lambda>v. v \<noteq> RMP_ENTRY_VAL_FIRMWARE) a (rs_list R1) = cnt (\<lambda>v. v \<noteq> RMP_ENTRY_VAL_HV_FIXED) a (rs_list R1)"
      using check_range_cnt [OF assms(8) _ that(2,3)] hv_fixed_not_hv
      by (intro cnt_cong) (auto simp: RMP_ENTRY_VAL_HV_def RMP_ENTRY_VAL_FIRMWARE_def RMP_ENTRY_VAL_HV_FIXED_def)
    then show ?thesis using l1 that(1) by (simp add: lone_def)
  qed
  ultimately have m: "means L (paint (xs_rmp_base X, xs_rmp_end X, RMP_ENTRY_VAL_FIRMWARE)
      (paint_all (map fixed ?reserved) ?fm)) (rs_list R2)"
    unfolding assms(9) using assms(6,9,10) by (intro add_range_paint) auto
  have "paint (xs_rmp_base X, xs_rmp_end X, RMP_ENTRY_VAL_FIRMWARE) (paint_all (map fixed ?reserved) ?fm) a =
      rmp_layout X ?reserved regions a" for a
    unfolding fixed_def region_ranges_def paint_all_same by (simp add: paint_def rmp_layout_def)
  with m show ?thesis by (simp add: means_def)
qed

end
