(* ===== verification/Sev_RmpFill.thy ===== *)
theory Sev_RmpFill
  imports Sev_RmpLayout Sev_SnpWitnesses
begin

text \<open>
  Writing ranges to the table, in terms of the entries: a range whose pages are covered by the table
  gets its value in the entries of its pages, and no other entry changes.
\<close>

section \<open>Entries of pages\<close>

definition rmp_bounds :: "x86 \<Rightarrow> bool" where
  "rmp_bounds X \<longleftrightarrow> rmp_wf (X\<lparr>xs_skip_rmp := 0\<rparr>)"

definition rmp_first :: "x86 \<Rightarrow> u64" where
  "rmp_first X = xs_rmp_base X + RMP_ASID_COUNTERS_SIZE"

definition slot :: "x86 \<Rightarrow> nat \<Rightarrow> u64" where
  "slot X k = rmp_first X + 16 * of_nat k"

definition entries :: "x86 \<Rightarrow> nat" where
  "entries X = (unat (xs_rmp_end X) + 1 - (unat (xs_rmp_base X) + 16384)) div 16"

definition entry_at :: "x86 \<Rightarrow> nat \<Rightarrow> rmp_entry" where
  "entry_at X k = page_entry X (slot X k)"

text \<open>Two states that differ in the memory only.\<close>

definition same_setup :: "x86 \<Rightarrow> x86 \<Rightarrow> bool" where
  "same_setup X X' \<longleftrightarrow> (\<exists>m. X' = X\<lparr>xs_mem := m\<rparr>)"

lemma same_refl [simp]: "same_setup X X"
  unfolding same_setup_def by (rule exI [of _ "xs_mem X"]) simp

lemma same_trans: "same_setup X Y \<Longrightarrow> same_setup Y Z \<Longrightarrow> same_setup X Z"
  unfolding same_setup_def by auto

lemma same_mem [simp]: "same_setup X (X\<lparr>xs_mem := m\<rparr>)"
  unfolding same_setup_def by blast

lemma same_slots: "same_setup X X' \<Longrightarrow> slot X' k = slot X k \<and> entries X' = entries X \<and> rmp_bounds X' = rmp_bounds X"
  unfolding same_setup_def by (auto simp: slot_def entries_def rmp_first_def rmp_bounds_def rmp_wf_def)

lemma bounds_facts:
  assumes "rmp_bounds X"
  shows "16 dvd unat (xs_rmp_base X)" and "16 dvd unat (xs_rmp_end X) + 1"
    and "unat (xs_rmp_end X) < 2 ^ xs_asid_shift X" and "unat (xs_rmp_end X) < 2 ^ 51"
proof -
  have d: "(16 :: nat) dvd 2 ^ 20" by simp
  from assms show "16 dvd unat (xs_rmp_base X)" "16 dvd unat (xs_rmp_end X) + 1"
    unfolding rmp_bounds_def rmp_wf_def by (auto intro: dvd_trans [OF d])
  show "unat (xs_rmp_end X) < 2 ^ xs_asid_shift X" using assms by (simp add: rmp_bounds_def rmp_wf_def)
  moreover have "(2 :: nat) ^ xs_asid_shift X \<le> 2 ^ 51"
    using assms by (intro power_increasing) (simp_all add: rmp_bounds_def rmp_wf_def)
  ultimately show "unat (xs_rmp_end X) < 2 ^ 51" by simp
qed

lemma slot_facts:
  assumes "rmp_bounds X" and "k < entries X"
  shows "unat (slot X k) = unat (xs_rmp_base X) + 16384 + 16 * k" and "unat (slot X k) + 15 \<le> unat (xs_rmp_end X)"
    and "16 dvd unat (slot X k)" and "unat (slot X k) < 2 ^ xs_asid_shift X"
proof -
  note b = bounds_facts [OF assms(1)]
  obtain x y where xy: "unat (xs_rmp_base X) = 16 * x" "unat (xs_rmp_end X) + 1 = 16 * y" using b(1,2) by (auto elim!: dvdE)
  have le: "16 * x + 16384 + 16 * k + 16 \<le> 16 * y"
    using assms(2) unfolding entries_def xy by simp
  have n: "unat (rmp_first X) = 16 * x + 16384"
    using le xy b(4) unfolding rmp_first_def
    by (subst unat_add_no_wrap) (simp_all add: RMP_ASID_COUNTERS_SIZE_def)
  have "slot X k = rmp_first X + of_nat (16 * k)" by (simp add: slot_def)
  also have "unat (rmp_first X + of_nat (16 * k)) = 16 * x + 16384 + 16 * k"
    using le xy b(4) by (subst unat_plus_of_nat) (simp_all add: n)
  finally show u: "unat (slot X k) = unat (xs_rmp_base X) + 16384 + 16 * k" by (simp add: xy(1))
  show e: "unat (slot X k) + 15 \<le> unat (xs_rmp_end X)" using le xy u by simp
  show "16 dvd unat (slot X k)" unfolding u xy(1) by simp
  show "unat (slot X k) < 2 ^ xs_asid_shift X" using e b(3) by simp
qed

lemma slot_inj: "rmp_bounds X \<Longrightarrow> k < entries X \<Longrightarrow> j < entries X \<Longrightarrow> slot X k = slot X j \<Longrightarrow> k = j"
proof -
  assume a: "rmp_bounds X" "k < entries X" "j < entries X" and "slot X k = slot X j"
  then have "unat (slot X k) = unat (slot X j)" by (simp only:)
  then show ?thesis unfolding slot_facts(1) [OF a(1,2)] slot_facts(1) [OF a(1,3)] by simp
qed

lemma slot_add: "slot X (k + j) = slot X k + 16 * of_nat j"
  by (simp add: slot_def algebra_simps)

section \<open>Writing entries\<close>

lemma put_mem:
  "xs_mem (put_q2 p 0 (put_q1 p v X)) x =
     (if unat (x - p) < 8 then bytes_of v ! unat (x - p)
      else if unat (x - p) < 16 then bytes_of 0 ! (unat (x - p) - 8) else xs_mem X x)"
  by (auto simp: put_q1_def put_q2_def write_bytes_4_8(3) [where a = p] write_bytes_4_8(1) [where a = p])

lemma put_entry:
  assumes "16 dvd unat p" and "16 dvd unat q"
  shows "page_entry (put_q2 p 0 (put_q1 p v X)) q = (if q = p then \<lparr>q1 = v, q2 = 0\<rparr> else page_entry X q)"
proof (cases "q = p")
  case True
  have "page_entry (put_q2 p 0 (put_q1 p v X)) p = \<lparr>q1 = v, q2 = 0\<rparr>"
    unfolding page_entry_def
    by (rule read_entry) (simp add: put_mem nth_entry_bytes)
  with True show ?thesis by simp
next
  case False
  have "page_entry (put_q2 p 0 (put_q1 p v X)) q = page_entry X q"
  proof (rule page_entry_cong)
    fix k :: nat
    assume "k < 16"
    from aligned_apart [OF assms False [symmetric] this]
    show "xs_mem (put_q2 p 0 (put_q1 p v X)) (q + of_nat k) = xs_mem X (q + of_nat k)"
      by (simp add: put_mem)
  qed
  with False show ?thesis by simp
qed

lemma put_same: "same_setup X (put_q2 p 0 (put_q1 p v X))"
  by (simp add: put_q1_def put_q2_def)

lemma write_entries_same: "same_setup X (write_entries val n p X)"
  by (induction n arbitrary: p X) (auto intro: same_trans [OF put_same])

lemma page_entry_slot:
  assumes "rmp_bounds X" and "k + n \<le> entries X" and "j < entries X"
  shows "page_entry (write_entries val n (slot X k) X) (slot X j) =
    (if k \<le> j \<and> j < k + n then \<lparr>q1 = val, q2 = 0\<rparr> else entry_at X j)"
  using assms
proof (induction n arbitrary: k X)
  case 0
  then show ?case by (auto simp: entry_at_def)
next
  case (Suc n)
  let ?X = "put_q2 (slot X k) 0 (put_q1 (slot X k) val X)"
  have k: "k < entries X" using Suc.prems(2) by simp
  note s = same_slots [OF put_same [of X "slot X k" val]]
  have next': "slot X k + RMP_ENTRY_SIZE = slot X (Suc k)" using slot_add [of X k 1] by (simp add: RMP_ENTRY_SIZE_def)
  have "page_entry (write_entries val n (slot ?X (Suc k)) ?X) (slot ?X j) =
      (if Suc k \<le> j \<and> j < Suc k + n then \<lparr>q1 = val, q2 = 0\<rparr> else entry_at ?X j)"
    using Suc.prems s by (intro Suc.IH) simp_all
  moreover have "entry_at ?X j = (if j = k then \<lparr>q1 = val, q2 = 0\<rparr> else entry_at X j)"
    using put_entry [of "slot X k" "slot X j" val X] slot_facts(3) [OF Suc.prems(1) k]
      slot_facts(3) [OF Suc.prems(1,3)] slot_inj [OF Suc.prems(1,3) k] s by (auto simp: entry_at_def)
  ultimately show ?case using s by (auto simp: next')
qed

lemma entry_at_write:
  assumes "rmp_bounds X" and "k + n \<le> entries X" and "j < entries X"
  shows "entry_at (write_entries val n (slot X k) X) j =
    (if k \<le> j \<and> j < k + n then \<lparr>q1 = val, q2 = 0\<rparr> else entry_at X j)"
  using page_entry_slot [OF assms] same_slots [OF write_entries_same] by (simp add: entry_at_def)

section \<open>Scanning\<close>

text \<open>The entries of some pages have been given a value, the others not.\<close>

definition filled :: "nat \<Rightarrow> nat \<Rightarrow> u64 \<Rightarrow> x86 \<Rightarrow> x86 \<Rightarrow> bool" where
  "filled k n val X X' \<longleftrightarrow> same_setup X X' \<and>
     (\<forall>j < entries X. entry_at X' j = (if k \<le> j \<and> j < k + n then \<lparr>q1 = val, q2 = 0\<rparr> else entry_at X j))"

lemma filled_none: "filled k 0 val X X"
  by (auto simp: filled_def)

lemma filled_append:
  assumes "filled k n val X Y" and "filled (k + n) m val Y Z"
  shows "filled k (n + m) val X Z"
  using assms same_slots [of X Y] same_trans [of X Y Z] by (auto simp: filled_def)

lemma filled_write: "rmp_bounds X \<Longrightarrow> k + n \<le> entries X \<Longrightarrow> filled k n val X (write_entries val n (slot X k) X)"
  by (simp add: filled_def write_entries_same entry_at_write)

lemma mapped_slot:
  assumes "rmp_bounds X" and "k < entries X" and "sev_hal_map_memory_ccp X (slot X k) n = (SEV_STATUS_SUCCESS, p)"
  shows "p = slot X k"
proof -
  have "set_asid (X\<lparr>xs_skip_rmp := 0\<rparr>) COPY_PLAINTEXT_IN (slot X k) 0 = slot X k"
    using assms(1) slot_facts(4) [OF assms(1,2)] by (intro mapped_low) (simp_all add: rmp_bounds_def)
  then show ?thesis using map_ccp_address [OF assms(3)] by (simp add: set_asid_def SEV_ASID_ADDR_MASK_def)
qed

lemma unat_pow2: "m < 64 \<Longrightarrow> unat (2 ^ m :: u64) = 2 ^ m"
proof -
  assume "m < 64"
  from power_strict_increasing [OF this, of "2 :: nat"] have "(2 :: nat) ^ m < 2 ^ 64" by simp
  then have "unat (of_nat (2 ^ m) :: u64) = 2 ^ m" unfolding unat_of_nat by (intro mod_less) simp
  then show ?thesis by simp
qed

text \<open>The window is a power of two; of a page of entries in it, at least one is left.\<close>

lemma window_rest:
  assumes "16 dvd unat (a :: u64)" and "4 \<le> m" and "m < 32"
  shows "unat (2 ^ m - (a AND (2 ^ m - 1))) = 2 ^ m - unat a mod 2 ^ m" and "16 dvd 2 ^ m - unat a mod 2 ^ m"
    and "0 < 2 ^ m - unat a mod 2 ^ m"
proof -
  have p: "unat (2 ^ m :: u64) = 2 ^ m" using assms(3) by (simp add: unat_pow2)
  have r: "unat (a AND (2 ^ m - 1)) = unat a mod 2 ^ m"
    by (simp add: mask_eq_exp_minus_1 [symmetric] take_bit_eq_mask [symmetric] take_bit_eq_mod unat_mod p)
  have le: "unat a mod 2 ^ m < 2 ^ m" by simp
  then show "unat (2 ^ m - (a AND (2 ^ m - 1))) = 2 ^ m - unat a mod 2 ^ m"
    by (subst unat_sub) (simp_all add: word_le_nat_alt r p)
  have d: "(16 :: nat) dvd 2 ^ m" using le_imp_power_dvd [OF assms(2), of "2 :: nat"] by simp
  then show "16 dvd 2 ^ m - unat a mod 2 ^ m" using assms(1) by (intro dvd_diff_nat) (simp_all add: dvd_mod)
  show "0 < 2 ^ m - unat a mod 2 ^ m" using le by simp
qed

lemma window_start: "m < 32 \<Longrightarrow> 2 ^ m dvd unat (a :: u64) \<Longrightarrow> a AND (2 ^ m - 1) = 0"
proof -
  assume "m < 32" and d: "2 ^ m dvd unat a"
  then have "unat (2 ^ m :: u64) = 2 ^ m" by (simp add: unat_pow2)
  then have "unat (a AND (2 ^ m - 1)) = 0"
    using d by (simp add: mask_eq_exp_minus_1 [symmetric] take_bit_eq_mask [symmetric] take_bit_eq_mod unat_mod)
  then show ?thesis by (simp add: unat_eq_0)
qed

lemma scan_write:
  assumes "rmp_bounds X" and "k + n \<le> entries X" and "n < 2 ^ 28" and "4 \<le> m" and "m < 32"
    and "scan_loop (2 ^ m) (write_rmp_entry val) (of_nat n) (slot X k) None X = Some (res, X')"
    and "res = SCAN_RES_FINISHED \<or> res = SCAN_RES_HIT_RMP_END"
  shows "filled k n val X X'"
  using assms(1-3,6)
proof (induction n arbitrary: k X rule: less_induct)
  case (less n)
  show ?case
  proof (cases "n = 0")
    case True
    then show ?thesis using less.prems(4) by (simp add: scan_loop.simps filled_none)
  next
    case False
    let ?a = "slot X k" and ?w = "2 ^ m - unat (slot X k) mod 2 ^ m"
    have k: "k < entries X" using less.prems(2) False by simp
    note sf = slot_facts [OF less.prems(1) k] and wr = window_rest [OF slot_facts(3) [OF less.prems(1) k] assms(4,5)]
    have nz: "(of_nat n :: u32) \<noteq> 0"
      using False less.prems(3) by (simp add: word_unat_eq_iff unat_of_nat)
    have inside: "\<not> ?a > xs_rmp_end X" using sf(2) by (simp add: word_less_nat_alt)
    define needed where "needed = (of_nat n * ucast RMP_ENTRY_SIZE :: u32)"
    define window where "window = (2 ^ m - (?a AND (2 ^ m - 1)) :: u64)"
    define mappable where "mappable = (if ucast needed < window then needed else (ucast window :: u32))"
    have un: "unat needed = 16 * n"
      using less.prems(3) by (simp add: needed_def RMP_ENTRY_SIZE_def unat_word_ariths unat_of_nat)
    have uw: "unat window = ?w" unfolding window_def by (rule wr(1))
    have w32: "?w \<le> 2 ^ m" "(2 :: nat) ^ m < 2 ^ 32" using power_strict_increasing [OF assms(5), of "2 :: nat"] by simp_all
    define c where "c = min n (?w div 16)"
    obtain v where v: "?w = 16 * v" using wr(2) by (elim dvdE)
    have um: "unat mappable = 16 * c"
    proof (cases "16 * n < ?w")
      case True
      then show ?thesis using v by (simp add: mappable_def word_less_nat_alt unat_ucast_up un uw c_def)
    next
      case f: False
      have "unat (ucast window :: u32) = ?w" using uw w32 by (subst unat_ucast_down) simp_all
      with f show ?thesis using v by (simp add: mappable_def word_less_nat_alt unat_ucast_up un uw c_def)
    qed
    have c: "0 < c" "c \<le> n" using v wr(3) False by (auto simp: c_def)
    define X1 where "X1 = write_entries val c ?a X"
    have dn: "unat (mappable div 16) = c" by (simp add: unat_div um)
    then have f: "write_rmp_entry val ?a (mappable div 16) X = (mappable div 16, X1)" "mappable div 16 \<noteq> 0"
      using c by (auto simp: write_rmp_entry_def X1_def)
    have of_done: "mappable div 16 = of_nat c" by (simp add: dn [symmetric])
    have step: "?a + ucast (mappable div 16 * ucast RMP_ENTRY_SIZE :: u32) = slot X (k + c)"
    proof -
      have "16 * c < 2 ^ 32" using c(2) less.prems(3) by simp
      then have "unat (mappable div 16 * ucast RMP_ENTRY_SIZE :: u32) = 16 * c"
        by (simp add: unat_word_ariths(2) dn RMP_ENTRY_SIZE_def)
      moreover have "unat (of_nat (16 * c) :: u64) = 16 * c"
        unfolding unat_of_nat by (rule mod_less) (use c(2) less.prems(3) in simp)
      ultimately have "ucast (mappable div 16 * ucast RMP_ENTRY_SIZE :: u32) = (of_nat (16 * c) :: u64)"
        unfolding word_unat_eq_iff by (simp add: unat_ucast_up)
      then show ?thesis by (simp add: slot_add)
    qed
    note sl = less.prems(4) [unfolded scan_loop.simps [of "2 ^ m" "write_rmp_entry val" "of_nat n" "slot X k" None X]]
    obtain p where mp: "sev_hal_map_memory_ccp X ?a (ucast mappable) = (SEV_STATUS_SUCCESS, p)"
    proof -
      obtain st p where "sev_hal_map_memory_ccp X ?a (ucast mappable) = (st, p)" by fastforce
      then show ?thesis
        using that sl assms(7) nz inside
        by (auto simp: Let_def needed_def [symmetric] window_def [symmetric] mappable_def [symmetric] split: if_split_asm)
    qed
    note p = mapped_slot [OF less.prems(1) k mp]
    define next' where "next' = (if slot X (k + c) AND (2 ^ m - 1) = 0 then None
      else Some (?a + ucast (mappable div 16 * ucast RMP_ENTRY_SIZE :: u32), mappable))"
    have "scan_loop (2 ^ m) (write_rmp_entry val) (of_nat n - mappable div 16) (slot X (k + c)) next' X1 = Some (res, X')"
      using sl nz inside mp f p
      by (simp add: Let_def needed_def [symmetric] window_def [symmetric] mappable_def [symmetric] step next'_def)
    then have go: "scan_loop (2 ^ m) (write_rmp_entry val) (of_nat n - of_nat c) (slot X (k + c)) next' X1 = Some (res, X')"
      by (simp only: of_done)
    have fw: "filled k c val X X1"
      unfolding X1_def using less.prems(1,2) c(2) by (intro filled_write) simp_all
    then have ss: "slot X1 j = slot X j" "entries X1 = entries X" "rmp_bounds X1" for j
      using same_slots less.prems(1) by (auto simp: filled_def)
    have "filled (k + c) (n - c) val X1 X'"
    proof (cases "c = n")
      case True
      then show ?thesis using go by (simp add: scan_loop.simps filled_none)
    next
      case False
      then have cw: "16 * c = ?w" using v by (auto simp: c_def min_def split: if_split_asm)
      have kc: "k + c < entries X" using less.prems(2) c(2) False by simp
      have "unat (slot X (k + c)) = unat ?a + 16 * c"
        using slot_facts(1) [OF less.prems(1) kc] sf(1) by simp
      then have "unat (slot X (k + c)) = unat ?a + ?w" by (simp only: cw)
      moreover have "unat ?a mod 2 ^ m < 2 ^ m" by simp
      then have "unat ?a + ?w = 2 ^ m * (unat ?a div 2 ^ m + 1)"
        using mult_div_mod_eq [of "2 ^ m" "unat ?a"] unfolding distrib_left mult_1_right by linarith
      ultimately have "next' = None" using window_start [OF assms(5), of "slot X (k + c)"] unfolding next'_def by (metis dvd_triv_left)
      then show ?thesis
        using less.IH [of "n - c" X1 "k + c"] c False go ss less.prems(2,3) by (simp add: of_nat_diff)
    qed
    from filled_append [OF fw this] c(2) show ?thesis by simp
  qed
qed

section \<open>Clearing\<close>

text \<open>What the code relies on from the copy engine.\<close>

definition fills_zeroes :: "fill_engine \<Rightarrow> bool" where
  "fills_zeroes eng \<longleftrightarrow> (\<forall>dest n m m'. eng dest n m = (SEV_STATUS_SUCCESS, SEV_STATUS_SUCCESS, m') \<longrightarrow>
     m' = write_bytes m dest (replicate (unat n) 0))"

lemma bytes_of_zero: "i < 8 \<Longrightarrow> bytes_of 0 ! i = 0"
  by (simp add: bytes_of_nth)

lemma zeroed_entry:
  assumes "rmp_bounds X" and "k + c \<le> entries X" and "0 < c" and "j < entries X"
  shows "page_entry (X\<lparr>xs_mem := write_bytes (xs_mem X) (slot X k) (replicate (16 * c) 0)\<rparr>) (slot X j) =
    (if k \<le> j \<and> j < k + c then \<lparr>q1 = 0, q2 = 0\<rparr> else entry_at X j)"
proof -
  let ?B = "unat (xs_rmp_base X) + 16384" and ?m = "write_bytes (xs_mem X) (slot X k) (replicate (16 * c) 0)"
  have k: "k < entries X" using assms(2,3) by simp
  note sk = slot_facts [OF assms(1) k] and sj = slot_facts [OF assms(1,4)]
  have kc: "?B + 16 * (k + c) \<le> 2 ^ 51"
  proof -
    obtain c' where c: "c = Suc c'" using assms(3) by (cases c) auto
    then have "k + c' < entries X" using assms(2) by simp
    from slot_facts(1,2) [OF assms(1) this] bounds_facts(4) [OF assms(1)] show ?thesis by (simp add: c)
  qed
  have d: "unat (slot X j + of_nat i - slot X k) =
      (if ?B + 16 * k \<le> ?B + 16 * j + i then 16 * j + i - 16 * k else 2 ^ 64 + (16 * j + i) - 16 * k)" if "i < 16" for i
  proof -
    have "unat (slot X j + of_nat i) = ?B + 16 * j + i" using aligned_add [OF sj(3) that] sj(1) by simp
    then show ?thesis using sk(1) by (subst unat_sub_if') auto
  qed
  show ?thesis
  proof (cases "k \<le> j \<and> j < k + c")
    case True
    have "page_entry (X\<lparr>xs_mem := ?m\<rparr>) (slot X j) = \<lparr>q1 = 0, q2 = 0\<rparr>"
      unfolding page_entry_def
    proof (rule read_entry)
      fix x assume x: "unat (x - slot X j) < 16"
      define i where "i = unat (x - slot X j)"
      have i: "i < 16" "x = slot X j + of_nat i" using x by (simp_all add: i_def)
      have "unat (x - slot X k) < 16 * c" using d [OF i(1)] True i(1) unfolding i(2) by auto
      then have "?m x = 0" by (simp add: write_bytes_def Let_def)
      moreover have "entry_bytes \<lparr>q1 = 0, q2 = 0\<rparr> ! i = 0" using i(1) by (simp add: nth_entry_bytes bytes_of_zero)
      ultimately show "xs_mem (X\<lparr>xs_mem := ?m\<rparr>) x = entry_bytes \<lparr>q1 = 0, q2 = 0\<rparr> ! unat (x - slot X j)"
        by (simp add: i_def)
    qed
    with True show ?thesis by simp
  next
    case False
    have "page_entry (X\<lparr>xs_mem := ?m\<rparr>) (slot X j) = page_entry X (slot X j)"
    proof (rule page_entry_cong)
      fix i :: nat assume i: "i < 16"
      have "\<not> unat (slot X j + of_nat i - slot X k) < 16 * c"
        using d [OF i] False kc i by auto
      then show "xs_mem (X\<lparr>xs_mem := ?m\<rparr>) (slot X j + of_nat i) = xs_mem X (slot X j + of_nat i)"
        by (simp add: write_bytes_def Let_def)
    qed
    with False show ?thesis by (auto simp: entry_at_def)
  qed
qed

lemma fill_piece:
  assumes "rmp_bounds X" and "k + c \<le> entries X" and "0 < c" and "unat n = 16 * c" and "fills_zeroes eng"
    and "map_and_fill eng (slot X k) n X = (SEV_STATUS_SUCCESS, X')"
  shows "filled k c RMP_ENTRY_VAL_HV X X'"
proof -
  have k: "k < entries X" using assms(2,3) by simp
  obtain p where mp: "sev_hal_map_memory_ccp X (slot X k) (ucast n) = (SEV_STATUS_SUCCESS, p)"
    and fz: "fill_zeroes eng p n X = (SEV_STATUS_SUCCESS, X')"
    using assms(6) by (auto simp: map_and_fill_def map_rmp_table_def split: prod.split_asm if_split_asm)
  have p: "p = slot X k" by (rule mapped_slot [OF assms(1) k mp])
  obtain m' where e: "eng p n (xs_mem X) = (SEV_STATUS_SUCCESS, SEV_STATUS_SUCCESS, m')" "X' = X\<lparr>xs_mem := m'\<rparr>"
    using fz by (auto simp: fill_zeroes_def split: prod.split_asm if_split_asm)
  then have "X' = X\<lparr>xs_mem := write_bytes (xs_mem X) (slot X k) (replicate (16 * c) 0)\<rparr>"
    using assms(5) [unfolded fills_zeroes_def, rule_format, OF e(1)] by (simp add: assms(4) p)
  then show ?thesis
    using zeroed_entry [OF assms(1-3)] same_slots [of X X']
    by (simp add: filled_def entry_at_def RMP_ENTRY_VAL_HV_def)
qed

lemma fill_windows:
  assumes "rmp_bounds X" and "k + n \<le> entries X" and "0 < n" and "fills_zeroes eng"
    and "fill_loop eng (slot X k) (slot X (k + n - 1) + 15) X = Some (SEV_STATUS_SUCCESS, X')"
  shows "filled k n RMP_ENTRY_VAL_HV X X'"
  using assms(1-3,5)
proof (induction n arbitrary: k X rule: less_induct)
  case (less n)
  let ?e = "slot X (k + n - 1) + 15"
  have k: "k < entries X" "k + n - 1 < entries X" using less.prems(2,3) by simp_all
  note sk = slot_facts [OF less.prems(1) k(1)] and se = slot_facts [OF less.prems(1) k(2)]
  have ue: "unat ?e = unat (slot X k) + 16 * n - 1"
    using aligned_add [OF se(3), of 15] se(1) sk(1) less.prems(3) by simp
  have lt: "slot X k < ?e" using ue less.prems(3) by (simp add: word_less_nat_alt)
  have ud: "unat (?e - slot X k) = 16 * n - 1" using ue lt less.prems(3) by (subst unat_sub) (simp_all add: word_le_nat_alt)
  have e51: "unat ?e < 2 ^ 51" using ue se(1,2) sk(1) bounds_facts(4) [OF less.prems(1)] less.prems(3) by simp
  show ?case
  proof (cases "?e - slot X k < X86_64MB_SIZE")
    case True
    then have n: "16 * n \<le> 2 ^ 26" using ud by (simp add: word_less_nat_alt X86_64MB_SIZE_def)
    let ?size = "ucast (?e - slot X k) + 1 :: u32"
    have "unat (ucast (?e - slot X k) :: u32) = 16 * n - 1" using n ud by (subst unat_ucast_down) simp_all
    then have us: "unat ?size = 16 * n" using n less.prems(3) by (subst unat_add_no_wrap) simp_all
    obtain X1 where mf: "map_and_fill eng (slot X k) ?size X = (SEV_STATUS_SUCCESS, X1)"
      and rest: "fill_loop eng (slot X k + X86_64MB_SIZE) ?e X1 = Some (SEV_STATUS_SUCCESS, X')"
      using less.prems(4) True lt
      by (simp add: fill_loop.simps [of eng "slot X k"] split: prod.split_asm if_split_asm)
    have "unat (slot X k + X86_64MB_SIZE) = unat (slot X k) + 2 ^ 26"
      using e51 ue less.prems(3) by (subst unat_add_no_wrap) (simp_all add: X86_64MB_SIZE_def)
    then have "\<not> slot X k + X86_64MB_SIZE < ?e" using ue n less.prems(3) by (simp add: word_less_nat_alt)
    then have "X' = X1" using rest by (simp add: fill_loop.simps [of eng "slot X k + X86_64MB_SIZE"])
    with fill_piece [OF less.prems(1-3) us assms(4) mf] show ?thesis by simp
  next
    case False
    then have n: "2 ^ 22 < n" using ud by (simp add: word_less_nat_alt X86_64MB_SIZE_def)
    have us: "unat (ucast X86_64MB_SIZE :: u32) = 16 * 2 ^ 22" by (simp add: X86_64MB_SIZE_def)
    obtain X1 where mf: "map_and_fill eng (slot X k) (ucast X86_64MB_SIZE) X = (SEV_STATUS_SUCCESS, X1)"
      and rest: "fill_loop eng (slot X k + X86_64MB_SIZE) ?e X1 = Some (SEV_STATUS_SUCCESS, X')"
      using less.prems(4) False lt
      by (simp add: fill_loop.simps [of eng "slot X k"] split: prod.split_asm if_split_asm)
    have f: "filled k (2 ^ 22) RMP_ENTRY_VAL_HV X X1"
      by (rule fill_piece [OF less.prems(1) _ _ us assms(4) mf]) (use less.prems(2) n in simp_all)
    then have ss: "slot X1 j = slot X j" "entries X1 = entries X" "rmp_bounds X1" for j
      using same_slots less.prems(1) by (auto simp: filled_def)
    have "slot X k + X86_64MB_SIZE = slot X1 (k + 2 ^ 22)" by (simp add: ss slot_add X86_64MB_SIZE_def)
    moreover have "k + n - 1 = k + 2 ^ 22 + (n - 2 ^ 22) - 1" using n by simp
    ultimately have "filled (k + 2 ^ 22) (n - 2 ^ 22) RMP_ENTRY_VAL_HV X1 X'"
      using rest n less.prems(2) ss by (intro less.IH) (simp_all del: One_nat_def)
    from filled_append [OF f this] n show ?thesis by simp
  qed
qed

section \<open>Ranges\<close>

lemma window_mod: "(x AND X86_64MB_MASK = y AND X86_64MB_MASK) = (unat x div 2 ^ 26 = unat y div 2 ^ 26)"
proof -
  have "(x AND X86_64MB_MASK = y AND X86_64MB_MASK) =
      (unat (x AND X86_64MB_MASK) = unat (y AND X86_64MB_MASK))" by (simp add: word_unat_eq_iff)
  also have "\<dots> = (2 ^ 26 * (unat x div 2 ^ 26) = 2 ^ 26 * (unat y div 2 ^ 26))"
    unfolding window_mask align_down_def by (simp add: minus_mod_eq_mult_div)
  finally show ?thesis by simp
qed

lemma same_block: "a div m = b div m \<Longrightarrow> 0 < m \<Longrightarrow> b - a < (m :: nat)"
proof -
  assume "a div m = b div m" and "0 < m"
  then have "m * (a div m) = m * (b div m)" "b mod m < m" by simp_all
  then show ?thesis using mult_div_mod_eq [of m a] mult_div_mod_eq [of m b] by linarith
qed

lemma next_block: "a div m < b div m \<Longrightarrow> a - a mod m + m \<le> (b :: nat)"
proof -
  assume "a div m < b div m"
  then have "m * (a div m + 1) \<le> m * (b div m)" by (intro mult_le_mono2) simp
  then show ?thesis using mult_div_mod_eq [of m b] unfolding minus_mod_eq_mult_div distrib_left mult_1_right by linarith
qed

lemma fill_block:
  assumes "rmp_bounds X" and "k + n \<le> entries X" and "0 < n" and "fills_zeroes eng"
    and "fill_rmp_block_zeroes eng (slot X k) (slot X (k + n - 1) + 15) X = Some (SEV_STATUS_SUCCESS, X')"
  shows "filled k n RMP_ENTRY_VAL_HV X X'"
proof -
  let ?a = "slot X k" and ?e = "slot X (k + n - 1) + 15"
  have k: "k < entries X" "k + n - 1 < entries X" using assms(2,3) by simp_all
  note sk = slot_facts [OF assms(1) k(1)] and se = slot_facts [OF assms(1) k(2)]
  have ue: "unat ?e = unat ?a + 16 * n - 1"
    using aligned_add [OF se(3), of 15] se(1) sk(1) assms(3) by simp
  have le: "?a \<le> ?e" using ue assms(3) by (simp add: word_le_nat_alt)
  have ud: "unat (?e - ?a) = 16 * n - 1" using ue unat_sub [OF le] assms(3) by simp
  show ?thesis
  proof (cases "?a AND X86_64MB_MASK = ?e AND X86_64MB_MASK")
    case True
    then have "unat ?a div 2 ^ 26 = (unat ?a + 16 * n - 1) div 2 ^ 26" unfolding window_mod ue .
    from same_block [OF this] have n: "16 * n \<le> 2 ^ 26" by simp
    have "unat (ucast (?e - ?a) :: u32) = 16 * n - 1" using n ud by (subst unat_ucast_down) simp_all
    then have "unat (ucast (?e - ?a) + 1 :: u32) = 16 * n" using n assms(3) by (subst unat_add_no_wrap) simp_all
    from fill_piece [OF assms(1-3) this assms(4)] show ?thesis
      using assms(5) True by (simp add: fill_rmp_block_zeroes_def)
  next
    case False
    let ?r = "unat ?a mod 2 ^ 26"
    let ?next = "(?a AND X86_64MB_MASK) + X86_64MB_SIZE"
    have e51: "unat ?e < 2 ^ 51" using ue se(1,2) sk(1) bounds_facts(4) [OF assms(1)] assms(3) by simp
    have a51: "unat ?a < 2 ^ 51" using e51 le by (simp add: word_le_nat_alt)
    have un: "unat ?next = unat ?a - ?r + 2 ^ 26"
      using a51 by (subst unat_add_no_wrap) (simp_all add: window_mask align_down_def X86_64MB_SIZE_def)
    obtain c where c: "2 ^ 26 - ?r = 16 * c"
      using window_rest(2) [OF sk(3), of 26] by (auto elim: dvdE)
    have r: "?r < 2 ^ 26" by simp
    have rle: "?r \<le> unat ?a" by simp
    have uc: "unat ?next = unat ?a + 16 * c" using un c r rle by linarith
    have "?next = ?a + of_nat (16 * c)"
    proof -
      have "unat (?a + of_nat (16 * c)) = unat ?a + 16 * c"
        using a51 c r by (intro unat_plus_of_nat) simp
      with uc show ?thesis by (simp add: word_unat_eq_iff)
    qed
    then have nx: "?next = slot X (k + c)" by (simp add: slot_add)
    have c0: "0 < c" using c r by linarith
    have "unat ?a div 2 ^ 26 < unat ?e div 2 ^ 26"
      using False le unfolding window_mod by (metis div_le_mono le_neq_implies_less word_le_nat_alt)
    then have "unat ?next \<le> unat ?e" unfolding un by (rule next_block)
    then have cn: "c < n" using uc ue assms(3) by linarith
    have "unat (?next - ?a) = 16 * c" using uc by (subst unat_sub) (simp_all add: word_le_nat_alt)
    then have size: "unat (ucast (?next - ?a) :: u32) = 16 * c" using c by (subst unat_ucast_down) simp_all
    obtain X1 where mf: "map_and_fill eng ?a (ucast (?next - ?a)) X = (SEV_STATUS_SUCCESS, X1)"
      and rest: "fill_loop eng ?next ?e X1 = Some (SEV_STATUS_SUCCESS, X')"
      using assms(5) False
      by (simp add: fill_rmp_block_zeroes_def Let_def split: prod.split_asm if_split_asm)
    have f: "filled k c RMP_ENTRY_VAL_HV X X1"
      by (rule fill_piece [OF assms(1) _ c0 size assms(4) mf]) (use assms(2) cn in simp)
    then have ss: "slot X1 j = slot X j" "entries X1 = entries X" "rmp_bounds X1" for j
      using same_slots assms(1) by (auto simp: filled_def)
    have "k + n - 1 = k + c + (n - c) - 1" using cn by simp
    then have "filled (k + c) (n - c) RMP_ENTRY_VAL_HV X1 X'"
      using rest cn assms(2,4) ss nx by (intro fill_windows) (simp_all del: One_nat_def)
    from filled_append [OF f this] cn show ?thesis by simp
  qed
qed

text \<open>A range of whole pages that the table covers.\<close>

definition page_range :: "x86 \<Rightarrow> rmp_range \<Rightarrow> nat \<Rightarrow> nat \<Rightarrow> bool" where
  "page_range X r k n \<longleftrightarrow> unat (rr_base r) = 4096 * k \<and> unat (rr_end r) + 1 = 4096 * (k + n) \<and> 0 < n \<and>
     k + n \<le> entries X \<and> 4096 * (k + n) \<le> 2 ^ 51 \<and> n < 2 ^ 28"

lemma lookup_slot:
  assumes "rmp_bounds X" and "unat a div 4096 = k" and "k < entries X" and "unat a < 2 ^ 51"
  shows "local_get_rmp_paddr X a old = (SEV_STATUS_SUCCESS, slot X k)"
proof -
  note sf = slot_facts [OF assms(1,3)] and b = bounds_facts [OF assms(1)]
  have "CLEAR_CBIT a = a"
    by (rule bit_eqI) (use bit_lt_power [OF assms(4)] in \<open>auto simp: bit_clear_cbit\<close>)
  then have page: "drop_bit ALIGNMENT_BITS_4K (CLEAR_CBIT a) = of_nat k"
    by (simp add: ALIGNMENT_BITS_4K_def drop_bit_eq_div word_unat_eq_iff unat_div assms(2) [symmetric]) 
      (simp add: unat_of_nat mod_less less_imp_diff_less div_le_dividend u64_bound le_less_trans [OF div_le_dividend])
  have k: "16 * k < 2 ^ 51" using sf(1,2) b(4) by simp
  have uk: "unat (of_nat k * RMP_ENTRY_SIZE) = 16 * k"
    using k by (simp add: RMP_ENTRY_SIZE_def unat_word_ariths(2) unat_of_nat)
  have "unat ((NOT 0) - RMP_ASID_COUNTERS_SIZE - of_nat k * RMP_ENTRY_SIZE) = 2 ^ 64 - 1 - 16384 - 16 * k"
    using k by (subst unat_sub) (simp_all add: RMP_ASID_COUNTERS_SIZE_def uk word_le_nat_alt)
  then have room: "\<not> (NOT 0) - RMP_ASID_COUNTERS_SIZE - of_nat k * RMP_ENTRY_SIZE < xs_rmp_base X"
    using sf(1,2) b(4) by (simp add: word_less_nat_alt)
  have at: "xs_rmp_base X + RMP_ASID_COUNTERS_SIZE + of_nat k * RMP_ENTRY_SIZE = slot X k"
    by (simp add: slot_def rmp_first_def RMP_ENTRY_SIZE_def)
  have "\<not> slot X k > xs_rmp_end X" using sf(2) by (simp add: word_less_nat_alt)
  with room show ?thesis by (simp add: local_get_rmp_paddr_def Let_def page at)
qed

lemma word_of_unat: "unat (w :: 'a::len word) = n \<Longrightarrow> w = of_nat n"
  by auto

lemma low_bits_zero:
  assumes "4096 dvd unat (x :: u64)"
  shows "x AND 0xFFF = 0" and "(ucast x :: u32) AND 0xFFF = 0"
proof -
  have m: "(0xFFF :: u64) = mask 12" "(0xFFF :: u32) = mask 12" by (simp_all add: mask_eq_exp_minus_1)
  show z: "x AND 0xFFF = 0" using window_start [of 12 x] assms by simp
  have "\<not> (bit x i \<and> i < 12)" for i
    using z unfolding m by (metis bit_and_iff bit_mask_iff bit_0_eq bot_apply bot_bool_def possible_bit_word bit_imp_le_length)
  then show "(ucast x :: u32) AND 0xFFF = 0"
    unfolding m by (intro bit_eqI) (auto simp: bit_and_iff bit_mask_iff bit_ucast_iff)
qed

lemma scan_start:
  assumes "rmp_bounds X" and "page_range X r k n"
  shows "scan_rmp win (rr_base r) (rr_end r) f X = scan_loop win f (of_nat n) (slot X k) None X"
proof -
  from assms(2) have r: "unat (rr_base r) = 4096 * k" "unat (rr_end r) + 1 = 4096 * (k + n)" "0 < n"
    "k + n \<le> entries X" "4096 * (k + n) \<le> 2 ^ 51" "n < 2 ^ 28" by (simp_all add: page_range_def)
  let ?size = "rr_end r + 1 - rr_base r"
  have "unat (rr_end r + 1) = 4096 * (k + n)" using r(2,5) by (subst unat_plus_of_nat [of _ 1, simplified]) simp_all
  then have us: "unat ?size = 4096 * n" using r(1) by (subst unat_sub) (simp_all add: word_le_nat_alt)
  define S where "S = ?size"
  have uS: "unat S = 4096 * n" by (simp add: S_def us)
  have "unat (drop_bit 12 S) = n" by (simp add: drop_bit_eq_div unat_div uS)
  then have "unat (ucast (drop_bit 12 S) :: u32) = n" using r(6) by (subst unat_ucast_down) simp_all
  then have num: "ucast (drop_bit ALIGNMENT_BITS_4K S) = (of_nat n :: u32)"
    unfolding ALIGNMENT_BITS_4K_def by (rule word_of_unat)
  have un: "unat (of_nat n :: u32) = n" using r(6) unfolding unat_of_nat by (intro mod_less) simp
  have "unat (push_bit 12 (ucast (of_nat n :: u32)) :: u64) = 4096 * n"
    using r(6) by (simp add: push_bit_eq_mult unat_word_ariths(2) unat_ucast_up un)
  then have pb: "S = push_bit ALIGNMENT_BITS_4K (ucast (of_nat n :: u32))"
    using uS unfolding ALIGNMENT_BITS_4K_def by (simp only: word_unat_eq_iff)
  have S0: "S \<noteq> 0" using uS r(3) by auto
  have low: "(ucast (rr_base r) :: u32) AND 0xFFF = 0" "S AND 0xFFF = 0"
    using low_bits_zero [of "rr_base r"] low_bits_zero [of S] r(1) uS by simp_all
  have "unat (rr_base r) div 4096 = k" "k < entries X" "unat (rr_base r) < 2 ^ 51" using r by simp_all
  note lk = lookup_slot [OF assms(1) this]
  show ?thesis
    unfolding scan_rmp_def Let_def S_def [symmetric] num
    by (simp only: S0 pb [symmetric] lk if_False prod.case refl not_True_eq_False simp_thms)
      (simp add: PAGE_SIZE_4K_def low ALIGNMENT_BITS_4K_def)
qed

lemma write_range:
  assumes "rmp_bounds X" and "page_range X r k n" and "fills_zeroes eng" and "4 \<le> m" and "m < 32"
    and "write_rmp_range (2 ^ m) eng uc True r X = Some (True, X')"
  shows "filled k n (rr_val r) X X'"
proof -
  from assms(2) have r: "unat (rr_base r) = 4096 * k" "unat (rr_end r) + 1 = 4096 * (k + n)" "0 < n"
    "k + n \<le> entries X" "4096 * (k + n) \<le> 2 ^ 51" "n < 2 ^ 28" by (simp_all add: page_range_def)
  show ?thesis
  proof (cases "rr_val r = RMP_ENTRY_VAL_HV")
    case True
    have "unat (rr_base r) div 4096 = k" "k < entries X" "unat (rr_base r) < 2 ^ 51" using r by simp_all
    note lb = lookup_slot [OF assms(1) this]
    obtain n' where n': "n = Suc n'" using r(3) by (cases n) simp_all
    have "unat (rr_end r) = 4096 * (k + n') + 4095" using r(2) by (simp add: n')
    then have "unat (rr_end r) div 4096 = k + n - 1" by (simp add: n')
    moreover have "k + n - 1 < entries X" "unat (rr_end r) < 2 ^ 51" using r by simp_all
    ultimately have le: "local_get_rmp_paddr X (rr_end r) 0 = (SEV_STATUS_SUCCESS, slot X (k + n - 1))"
      by (intro lookup_slot [OF assms(1)])
    have "fill_rmp_block_zeroes eng (slot X k) (slot X (k + n - 1) + 15) X = Some (SEV_STATUS_SUCCESS, X')"
      using assms(6) True lb le by (auto simp: write_rmp_range_def RMP_ENTRY_SIZE_def algebra_simps)
    from fill_block [OF assms(1) r(4,3) assms(3) this] True show ?thesis by simp
  next
    case False
    then obtain res where "scan_loop (2 ^ m) (write_rmp_entry (rr_val r)) (of_nat n) (slot X k) None X = Some (res, X')"
      "res = SCAN_RES_FINISHED \<or> res = SCAN_RES_HIT_RMP_END"
      using assms(6) scan_start [OF assms(1,2)] by (auto simp: write_rmp_range_def)
    from scan_write [OF assms(1) r(4,6) assms(4,5) this] show ?thesis .
  qed
qed

text \<open>All ranges of a list, which agree on the value of each page.\<close>

lemma write_all:
  assumes "rmp_bounds X" and "\<forall>r \<in> set prs. \<exists>k n. page_range X r k n" and "fills_zeroes eng" and "4 \<le> m" and "m < 32"
    and "write_ranges (2 ^ m) eng uc True prs X = Some (True, X')"
    and "\<forall>r \<in> set prs. \<forall>k n j. page_range X r k n \<and> k \<le> j \<and> j < k + n \<longrightarrow> rr_val r = v j"
    and "j < entries X"
  shows "same_setup X X' \<and> entry_at X' j =
    (if \<exists>r \<in> set prs. \<exists>k n. page_range X r k n \<and> k \<le> j \<and> j < k + n then \<lparr>q1 = v j, q2 = 0\<rparr> else entry_at X j)"
  using assms(1,2,6-8)
proof (induction prs arbitrary: X)
  case Nil
  then show ?case by simp
next
  case (Cons r prs)
  obtain k n where pr: "page_range X r k n" using Cons.prems(2) by auto
  obtain X1 where w: "write_rmp_range (2 ^ m) eng uc True r X = Some (True, X1)"
    and rest: "write_ranges (2 ^ m) eng uc True prs X1 = Some (True, X')"
    using Cons.prems(3) by (auto split: option.split_asm if_split_asm prod.split_asm)
  note f = write_range [OF Cons.prems(1) pr assms(3-5) w]
  then have s: "same_setup X X1" by (simp add: filled_def)
  note ss = same_slots [OF s]
  have pg: "page_range X1 r' k' n' = page_range X r' k' n'" for r' k' n' using ss by (simp add: page_range_def)
  have only: "k' = k \<and> n' = n" if "page_range X r k' n'" for k' n' using pr that by (auto simp: page_range_def)
  have IH: "same_setup X1 X' \<and> entry_at X' j =
    (if \<exists>r \<in> set prs. \<exists>k n. page_range X r k n \<and> k \<le> j \<and> j < k + n then \<lparr>q1 = v j, q2 = 0\<rparr> else entry_at X1 j)"
    using Cons.IH [of X1] Cons.prems rest ss unfolding pg by simp
  have "entry_at X1 j = (if k \<le> j \<and> j < k + n then \<lparr>q1 = v j, q2 = 0\<rparr> else entry_at X j)"
    using f Cons.prems(4,5) pr by (auto simp: filled_def)
  moreover have "(\<exists>k n. page_range X r k n \<and> k \<le> j \<and> j < k + n) = (k \<le> j \<and> j < k + n)" using only pr by blast
  ultimately show ?case using IH same_trans [OF s] by auto
qed

end
