(* ===== verification/Sev_RmpInit.thy ===== *)
theory Sev_RmpInit
  imports Sev_RmpFill
begin

text \<open>
  The initialisation of the reverse map table, from the list of ranges to the entries: all ranges of
  the list consist of whole pages that the table covers, so that the entry of each page gets the value
  of the layout.
\<close>

section \<open>Whole pages\<close>

definition whole :: "u64 \<Rightarrow> rmp_range \<Rightarrow> bool" where
  "whole L r \<longleftrightarrow> 4096 dvd unat (rr_base r) \<and> 4096 dvd unat (rr_end r) + 1 \<and> rr_base r \<le> rr_end r \<and> rr_end r \<le> L"

definition page_aligned :: "u64 \<times> u64 \<Rightarrow> bool" where
  "page_aligned = (\<lambda>(b, l). 4096 dvd unat b \<and> 4096 dvd unat l + 1)"

lemma next_page: "(l :: u64) < y \<Longrightarrow> unat (l + 1) = unat l + 1"
  using u64_bound [of y] unat_plus_of_nat [of l 1] by (simp add: word_less_nat_alt)

lemma page_before: "(x :: u64) < b \<Longrightarrow> unat (b - 1) + 1 = unat b"
  by (subst unat_sub) (auto simp: word_le_nat_alt word_less_nat_alt)

lemma whole_pieces:
  assumes "whole L r" and "4096 dvd unat base" and "4096 dvd unat limit + 1"
  shows "limit < rr_end r \<Longrightarrow> whole L (r\<lparr>rr_base := limit + 1\<rparr>)"
    and "limit < rr_end r \<Longrightarrow> whole L \<lparr>rr_base = limit + 1, rr_end = rr_end r, rr_val = v\<rparr>"
    and "rr_base r < base \<Longrightarrow> base \<le> rr_end r \<Longrightarrow> whole L (r\<lparr>rr_end := base - 1\<rparr>)"
proof -
  show "whole L (r\<lparr>rr_base := limit + 1\<rparr>)" "whole L \<lparr>rr_base = limit + 1, rr_end = rr_end r, rr_val = v\<rparr>"
    if "limit < rr_end r" using assms that next_page [OF that] by (auto simp: whole_def word_le_nat_alt word_less_nat_alt)
  show "whole L (r\<lparr>rr_end := base - 1\<rparr>)" if "rr_base r < base" "base \<le> rr_end r"
    using assms that page_before [OF that(1)] by (auto simp: whole_def word_le_nat_alt word_less_nat_alt)
qed

lemma loop_whole:
  assumes "\<forall>r \<in> set (rs_list R). whole L r" and "4096 dvd unat base" and "4096 dvd unat limit + 1"
    and "base \<le> limit" and "limit \<le> L" and "\<forall>i \<in> set is. i < length (rs_list R)"
    and "add_range_loop base limit val is ov R = (ret, ov', R')"
  shows "\<forall>r \<in> set (rs_list R'). whole L r"
  using assms(1,6,7)
proof (induction "is" arbitrary: R ov)
  case Nil
  then show ?case by simp
next
  case (Cons i "is")
  let ?pr = "rs_list R ! i"
  have i: "i < length (rs_list R)" using Cons.prems(2) by simp
  then have w: "whole L ?pr" using Cons.prems(1) by simp
  have new: "whole L \<lparr>rr_base = base, rr_end = limit, rr_val = val\<rparr>"
    using assms(2-5) by (simp add: whole_def)
  have upd: "\<forall>r \<in> set ((rs_list R1)[i := p]). whole L r" if "whole L p" "\<forall>r \<in> set (rs_list R1). whole L r" for p R1
    using that set_update_subset_insert [of "rs_list R1" i p] by blast
  have app: "\<forall>r \<in> set (rs_list (snd (append_range R1 b l v))). whole L r"
    if "whole L \<lparr>rr_base = b, rr_end = l, rr_val = v\<rparr>" "\<forall>r \<in> set (rs_list R1). whole L r" for R1 b l v
    using that by (simp add: append_range_cases)
  have len: "length (rs_list R) \<le> length (rs_list (snd (append_range R1 b l v)))"
    if "length (rs_list R) \<le> length (rs_list R1)" for R1 b l v
    using that by (simp add: append_range_cases)
  note pieces = whole_pieces [OF w assms(2,3)]
  consider "limit < rr_base ?pr \<or> base > rr_end ?pr" | "\<not> (limit < rr_base ?pr \<or> base > rr_end ?pr)" "val = rr_val ?pr"
    | "\<not> (limit < rr_base ?pr \<or> base > rr_end ?pr)" "val \<noteq> rr_val ?pr" "base \<le> rr_base ?pr \<and> rr_end ?pr \<le> limit"
    | "\<not> (limit < rr_base ?pr \<or> base > rr_end ?pr)" "val \<noteq> rr_val ?pr" "\<not> (base \<le> rr_base ?pr \<and> rr_end ?pr \<le> limit)"
    by blast
  then show ?case
  proof cases
    case 3
    have "whole L (?pr\<lparr>rr_val := val\<rparr>)" using w by (simp add: whole_def)
    from upd [OF this Cons.prems(1)] show ?thesis
      using Cons.prems 3 by (intro Cons.IH [of "set_range i (?pr\<lparr>rr_val := val\<rparr>) R" True]) (auto simp: Let_def)
  next
    case 4
    obtain ok R1 where ar: "append_range R base limit val = (ok, R1)" by (metis prod.exhaust)
    have R1: "\<forall>r \<in> set (rs_list R1). whole L r" "length (rs_list R) \<le> length (rs_list R1)"
      using app [OF new Cons.prems(1)] len [of R base limit val] ar by simp_all
    have in1: "\<forall>j \<in> set is. j < length (rs_list R1)" using Cons.prems(2) R1(2) by auto
    consider "\<not> ok" | "ok" "base \<le> rr_base ?pr \<and> limit < rr_end ?pr" | "ok" "rr_base ?pr < base \<and> rr_end ?pr \<le> limit"
      | "ok" "rr_base ?pr < base \<and> limit < rr_end ?pr" using 4 by fastforce
    then show ?thesis
    proof cases
      case a: 1
      then have "R' = R1" using Cons.prems(3) 4 ar by (simp add: Let_def)
      with R1 show ?thesis by simp
    next
      case a: 2
      from upd [OF pieces(1) R1(1)] a Cons.prems in1 4 ar show ?thesis
        by (intro Cons.IH [of "set_range i (?pr\<lparr>rr_base := limit + 1\<rparr>) R1" True]) (simp_all add: Let_def)
    next
      case a: 3
      then have n: "\<not> (base \<le> rr_base ?pr \<and> limit < rr_end ?pr)" "base \<le> rr_end ?pr" using 4 by auto
      from upd [OF pieces(3) R1(1)] a n Cons.prems in1 4 ar show ?thesis
        by (intro Cons.IH [of "set_range i (?pr\<lparr>rr_end := base - 1\<rparr>) R1" True]) (simp_all add: Let_def)
    next
      case a: 4
      then have n: "\<not> (base \<le> rr_base ?pr \<and> limit < rr_end ?pr)" "\<not> (rr_base ?pr < base \<and> rr_end ?pr \<le> limit)" by auto
      then have "R' = set_range i (?pr\<lparr>rr_end := base - 1\<rparr>) (snd (append_range R1 (limit + 1) (rr_end ?pr) (rr_val ?pr)))"
        using Cons.prems(3) 4 ar a by (simp add: Let_def)
      moreover have "whole L (?pr\<lparr>rr_end := base - 1\<rparr>)" using a 4 by (intro pieces(3)) auto
      ultimately show ?thesis using upd [OF _ app [OF pieces(2) R1(1)]] a by simp
    qed
  qed (use Cons in \<open>auto simp: Let_def\<close>)
qed

lemma add_range_whole:
  assumes "\<forall>r \<in> set (rs_list R). whole L r" and "page_aligned (b, l)" and "4096 dvd unat L + 1" and "b \<le> l \<or> L < b"
  shows "\<forall>r \<in> set (rs_list (snd (add_range L R b l v))). whole L r"
proof (cases "L < b")
  case True
  then show ?thesis using assms(1) by (simp add: add_range_def)
next
  case False
  let ?l = "if l > L then L else l"
  have bl: "4096 dvd unat b" "4096 dvd unat ?l + 1" "b \<le> ?l" "?l \<le> L"
    using assms(2-4) False by (auto simp: page_aligned_def)
  obtain ret ov R1 where lo: "add_range_loop b ?l v [0..<length (rs_list R)] False R = (ret, ov, R1)"
    by (metis prod_cases3)
  have R1: "\<forall>r \<in> set (rs_list R1). whole L r"
    by (rule loop_whole [OF assms(1) bl _ lo]) simp
  moreover have "\<forall>r \<in> set (rs_list (snd (append_range R1 b ?l v))). whole L r"
    using R1 bl by (simp add: append_range_cases whole_def)
  ultimately show ?thesis using False by (simp add: add_range_def Let_def lo split: option.split)
qed

lemma add_all_whole:
  assumes "\<forall>r \<in> set (rs_list R). whole L r" and "\<forall>(b, l, v) \<in> set ps. page_aligned (b, l) \<and> (b \<le> l \<or> L < b)"
    and "4096 dvd unat L + 1"
  shows "\<forall>r \<in> set (rs_list (add_all L ps R)). whole L r"
  using assms(1,2)
proof (induction ps arbitrary: R)
  case (Cons p ps)
  obtain b l v where p: "p = (b, l, v)" by (cases p)
  have "\<forall>r \<in> set (rs_list (snd (add_range L R b l v))). whole L r"
    using Cons.prems assms(3) by (intro add_range_whole) (auto simp: p)
  from Cons.IH [OF this] Cons.prems(2) show ?case by (simp add: p)
qed simp

section \<open>The ranges of SNP_INIT\<close>

lemma dvd_word: "4096 dvd unat (of_nat (4096 * m) :: u64)"
  unfolding unat_of_nat by (intro dvd_mod) simp_all

lemma unat_minus1: "unat (- 1 :: u64) = 2 ^ 64 - 1"
  by (simp add: unsigned_minus_1_eq_mask mask_eq_exp_minus_1)

lemma dvd_last: "4096 dvd unat (x :: u64) \<Longrightarrow> 4096 dvd unat (x - 1) + 1"
proof (cases "x = 0")
  case False
  assume "4096 dvd unat x"
  moreover have "unat (x - 1) + 1 = unat x" using False by (intro page_before [of 0]) (simp add: word_gt_0)
  ultimately show ?thesis by simp
qed (simp add: unat_minus1)

lemma low_bit:
  assumes "4096 dvd unat (x :: u64)" and "bit x i"
  shows "12 \<le> i"
proof (rule ccontr)
  assume "\<not> 12 \<le> i"
  moreover have "take_bit 12 x = 0"
    using window_start [of 12 x] assms(1) by (simp add: take_bit_eq_mask mask_eq_exp_minus_1)
  ultimately show False using assms(2) by (metis bit_take_bit_iff bit_0_eq bot_apply bot_bool_def not_le)
qed

lemma page_bits:
  assumes "b AND (PAGE_SIZE_4K - 1) = (0 :: u64)"
  shows "4096 dvd unat b"
proof -
  have "(0xFFF :: u64) = mask 12" by (simp add: mask_eq_exp_minus_1)
  then have "take_bit 12 b = 0" using assms by (simp add: take_bit_eq_mask PAGE_SIZE_4K_def)
  then have "unat (b mod 4096) = 0" by (simp add: take_bit_eq_mod)
  then show ?thesis by (simp add: unat_mod mod_eq_0_iff_dvd)
qed

lemma dvd_size:
  assumes "4096 dvd unat b"
  shows "4096 dvd unat (b + ucast (n :: u32) * PAGE_SIZE_4K)"
proof -
  obtain k where k: "unat b = 4096 * k" using assms by (elim dvdE)
  have "b + ucast n * PAGE_SIZE_4K = of_nat (unat b + 4096 * unat n)" by (simp add: PAGE_SIZE_4K_def)
  also have "\<dots> = of_nat (4096 * (k + unat n))" by (simp only: k distrib_left)
  finally show ?thesis by (simp only: dvd_word)
qed

lemma rmp_aligned:
  assumes "rmp_bounds X"
  shows "4096 dvd unat (xs_rmp_base X)" and "4096 dvd unat (xs_rmp_end X) + 1"
    and "4096 dvd unat (xs_rmp_end X + 1)"
proof -
  have d: "(4096 :: nat) dvd 2 ^ 20" by simp
  show "4096 dvd unat (xs_rmp_base X)" and e: "4096 dvd unat (xs_rmp_end X) + 1"
    using assms unfolding rmp_bounds_def rmp_wf_def by (auto intro: dvd_trans [OF d])
  have "unat (xs_rmp_end X + 1) = unat (xs_rmp_end X) + 1"
    using bounds_facts(4) [OF assms] unat_plus_of_nat [of "xs_rmp_end X" 1] by simp
  with e show "4096 dvd unat (xs_rmp_end X + 1)" by simp
qed

lemma entry_ranges_aligned:
  assumes "rmp_bounds X" and "4096 dvd unat base" and "r \<in> set (entry_ranges X (base, n))"
  shows "page_aligned r"
  using rmp_aligned [OF assms(1)] assms(2,3) dvd_last [OF dvd_size [OF assms(2), of n]]
    dvd_last [OF rmp_aligned(1) [OF assms(1)]]
  by (auto simp: entry_ranges_def Let_def page_aligned_def split: if_split_asm)

lemma walked_aligned: "(b, n) \<in> set (walked_entries X (PAGE_SIZE_4K - 1) c p) \<Longrightarrow> 4096 dvd unat b"
  by (induction c arbitrary: p) (auto simp: Let_def page_bits split: if_split_asm)

lemma host_ranges_aligned:
  assumes "rmp_bounds X" and "r \<in> set (host_ranges X paddr SNP_ADDR_RESERVED_MASK)"
  shows "page_aligned r"
proof -
  obtain base n where e: "(base, n) \<in> set (list_entries X paddr SNP_ADDR_RESERVED_MASK)" "r \<in> set (entry_ranges X (base, n))"
    using assms(2) by (auto simp: host_ranges_def)
  then have "4096 dvd unat base"
    by (auto simp: list_entries_def SNP_ADDR_RESERVED_MASK_def Let_def split: if_split_asm dest: walked_aligned)
  from entry_ranges_aligned [OF assms(1) this e(2)] show ?thesis .
qed

text \<open>The last address that the table covers.\<close>

lemma init_limit:
  assumes "rmp_bounds X" and "entries X < 2 ^ 28" and "init_ranges X old False = (True, L, Some R)"
  shows "unat L + 1 = 4096 * entries X" and "rs_list R = []" and "xs_rmp_base X < xs_rmp_end X"
proof -
  note a = rmp_aligned [OF assms(1)] and e51 = bounds_facts(4) [OF assms(1)]
  have mk: "PAGE_SIZE_4K - 1 = (mask 12 :: u64)" by (simp add: PAGE_SIZE_4K_def mask_eq_exp_minus_1)
  have base: "xs_rmp_base X AND NOT (PAGE_SIZE_4K - 1) = xs_rmp_base X"
  proof (rule bit_eqI)
    fix i
    show "bit (xs_rmp_base X AND NOT (PAGE_SIZE_4K - 1)) i = bit (xs_rmp_base X) i"
      unfolding mk bit_and_iff bit_not_iff bit_mask_iff using low_bit [OF a(1), of i] bit_imp_le_length [of "xs_rmp_base X" i]
      by auto
  qed
  have "xs_rmp_end X OR (PAGE_SIZE_4K - 1) = xs_rmp_end X"
  proof -
    have "(unat (xs_rmp_end X) + 1) mod 4096 = 0" using a(2) by simp
    then have "unat (xs_rmp_end X) mod 4096 = 4095" by (simp add: mod_Suc split: if_split_asm)
    then have "unat (xs_rmp_end X mod 4096) = 4095" by (simp add: unat_mod)
    then have "take_bit 12 (xs_rmp_end X) = mask 12" by (simp add: take_bit_eq_mod word_unat_eq_iff mask_eq_exp_minus_1)
    then have "bit (take_bit 12 (xs_rmp_end X)) i = (i < 12)" for i by (auto simp: bit_mask_iff simp del: mask_numeral)
    then have "i < 12 \<Longrightarrow> bit (xs_rmp_end X) i" for i by (auto simp: bit_take_bit_iff)
    then show ?thesis unfolding mk by (intro bit_eqI) (auto simp: bit_or_iff bit_mask_iff simp del: mask_numeral)
  qed
  note m = base this
  let ?b = "unat (xs_rmp_base X)" and ?e = "unat (xs_rmp_end X)"
  have u1: "unat (xs_rmp_end X + 1) = ?e + 1" using e51 unat_plus_of_nat [of "xs_rmp_end X" 1] by simp
  have c: "xs_rmp_base X < xs_rmp_end X" "16400 \<le> xs_rmp_end X + 1 - xs_rmp_base X"
    "L = (xs_rmp_end X + 1 - (xs_rmp_base X + RMP_ASID_COUNTERS_SIZE)) div RMP_ENTRY_SIZE * PAGE_SIZE_4K - 1" "rs_list R = []"
    using assms(3) m
    by (auto simp: init_ranges_def Let_def RMP_ASID_COUNTERS_SIZE_def RMP_ENTRY_SIZE_def not_le not_less split: if_split_asm)
  then show "xs_rmp_base X < xs_rmp_end X" "rs_list R = []" by simp_all
  have us: "unat (xs_rmp_end X + 1 - xs_rmp_base X) = ?e + 1 - ?b"
    using u1 c(1) by (subst unat_sub) (simp_all add: word_le_nat_alt word_less_nat_alt)
  then have room: "?b + 16400 \<le> ?e + 1" using c(1,2) by (simp add: word_le_nat_alt word_less_nat_alt)
  have ub: "unat (xs_rmp_base X + RMP_ASID_COUNTERS_SIZE) = ?b + 16384"
    using room e51 by (subst unat_add_no_wrap) (simp_all add: RMP_ASID_COUNTERS_SIZE_def)
  have "unat (xs_rmp_end X + 1 - (xs_rmp_base X + RMP_ASID_COUNTERS_SIZE)) = ?e + 1 - (?b + 16384)"
    using u1 ub room by (subst unat_sub) (simp_all add: word_le_nat_alt)
  then have n: "unat ((xs_rmp_end X + 1 - (xs_rmp_base X + RMP_ASID_COUNTERS_SIZE)) div RMP_ENTRY_SIZE) = entries X"
    by (simp add: unat_div entries_def RMP_ENTRY_SIZE_def)
  have "unat ((xs_rmp_end X + 1 - (xs_rmp_base X + RMP_ASID_COUNTERS_SIZE)) div RMP_ENTRY_SIZE * PAGE_SIZE_4K) = 4096 * entries X"
    using assms(2) n by (subst unat_mult_no_wrap) (simp_all add: PAGE_SIZE_4K_def)
  moreover have "0 < entries X" using room by (simp add: entries_def)
  ultimately show "unat L + 1 = 4096 * entries X" unfolding c(3)
    by (subst unat_sub) (simp_all add: word_le_nat_alt)
qed

text \<open>A range of whole pages below the limit, in terms of the entries.\<close>

lemma whole_pages:
  assumes "rmp_bounds X" and "entries X < 2 ^ 28" and "unat L + 1 = 4096 * entries X" and "whole L r"
  shows "\<exists>k n. page_range X r k n"
proof -
  obtain k m where km: "unat (rr_base r) = 4096 * k" "unat (rr_end r) + 1 = 4096 * m"
    using assms(4) by (auto simp: whole_def elim!: dvdE)
  have le: "unat (rr_base r) \<le> unat (rr_end r)" "unat (rr_end r) \<le> unat L"
    using assms(4) by (simp_all add: whole_def word_le_nat_alt)
  then have "k < m" "m \<le> entries X" using km assms(3) by linarith+
  then have "page_range X r k (m - k)" using km assms(2) by (simp add: page_range_def)
  then show ?thesis by blast
qed

lemma page_in_range:
  assumes "entries X < 2 ^ 28" and "j < entries X" and "page_range X r k n"
  shows "(k \<le> j \<and> j < k + n) = in_rr r (of_nat (4096 * j))"
proof -
  have u: "unat (of_nat (4096 * j) :: u64) = 4096 * j"
    using assms(1,2) unfolding unat_of_nat by (intro mod_less) simp
  show ?thesis using assms(3) by (auto simp: page_range_def in_rr_def word_le_nat_alt u simp del: of_nat_mult)
qed

end
