(* ===== verification/Sev_RmpCounts.thy ===== *)
theory Sev_RmpCounts
  imports Sev_RmpInit
begin

text \<open>
  The last two steps of the initialisation: clearing the counters of the ASIDs, which leaves the
  entries as they are, and counting the pages of the table in the entries of 2 MB pages, which changes
  only the counts in the entries.
\<close>

section \<open>Entries up to the count of subpages\<close>

definition but_count :: "rmp_entry \<Rightarrow> rmp_entry" where
  "but_count e = set_subpage_count 0 e"

definition counts_only :: "x86 \<Rightarrow> x86 \<Rightarrow> bool" where
  "counts_only X X' \<longleftrightarrow> same_setup X X' \<and> (\<forall>j < entries X. but_count (entry_at X' j) = but_count (entry_at X j))"

lemma but_count_set [simp]: "but_count (set_subpage_count c e) = but_count e"
proof -
  have "put_field 3 9 0 (put_field 3 9 c (q1 e)) = put_field 3 9 0 (q1 e)"
    by (rule bit_eqI) (auto simp: bit_put_field)
  then show ?thesis by (simp add: but_count_def set_subpage_count_def)
qed

lemma counts_refl [simp]: "counts_only X X"
  by (simp add: counts_only_def)

lemma counts_trans: "counts_only X Y \<Longrightarrow> counts_only Y Z \<Longrightarrow> counts_only X Z"
  using same_slots [of X Y] same_trans by (auto simp: counts_only_def)

lemma state_but_count: "rmp_entry_get_state (but_count e) = rmp_entry_get_state e"
  unfolding but_count_def set_subpage_count_def rmp_entry_get_state_def
  by (simp add: entry_fields get_put_other)

section \<open>The counters\<close>

lemma entry_below:
  assumes "rmp_bounds X" and "j < entries X"
  shows "page_entry (X\<lparr>xs_mem := write_bytes (xs_mem X) (xs_rmp_base X) (replicate 16384 0)\<rparr>) (slot X j) = entry_at X j"
  unfolding entry_at_def
proof (rule page_entry_cong)
  fix i :: nat assume i: "i < 16"
  note sj = slot_facts [OF assms]
  have "unat (slot X j + of_nat i) = unat (xs_rmp_base X) + 16384 + 16 * j + i"
    using aligned_add [OF sj(3) i] sj(1) by simp
  then have "unat (slot X j + of_nat i - xs_rmp_base X) = 16384 + 16 * j + i"
    by (subst unat_sub_if') auto
  then show "xs_mem (X\<lparr>xs_mem := write_bytes (xs_mem X) (xs_rmp_base X) (replicate 16384 0)\<rparr>) (slot X j + of_nat i) =
      xs_mem X (slot X j + of_nat i)" by (simp add: write_bytes_def Let_def)
qed

lemma clear_counters:
  assumes "rmp_bounds X" and "0 < entries X" and "fills_zeroes eng"
    and "fill_rmp_block_zeroes eng (xs_rmp_base X) (xs_rmp_base X + RMP_ASID_COUNTERS_SIZE - 1) X = Some (SEV_STATUS_SUCCESS, X')"
  shows "counts_only X X'"
proof -
  let ?b = "xs_rmp_base X" and ?e = "xs_rmp_base X + RMP_ASID_COUNTERS_SIZE - 1"
  obtain x where x: "unat ?b = 2 ^ 20 * x" using assms(1) by (auto simp: rmp_bounds_def rmp_wf_def elim: dvdE)
  note s0 = slot_facts [OF assms(1,2)]
  have b51: "unat ?b + 16384 < 2 ^ 51" using s0(1,2) bounds_facts(4) [OF assms(1)] by simp
  have ue: "unat ?e = unat ?b + 16383"
  proof -
    have "?e = ?b + of_nat 16383" by (simp add: RMP_ASID_COUNTERS_SIZE_def)
    also have "unat \<dots> = unat ?b + 16383" using b51 by (intro unat_plus_of_nat) simp
    finally show ?thesis .
  qed
  have "unat ?b div 2 ^ 26 = unat ?e div 2 ^ 26" unfolding ue x by simp
  then have "?b AND X86_64MB_MASK = ?e AND X86_64MB_MASK" by (simp add: window_mod)
  then have mf: "map_and_fill eng ?b (ucast (?e - ?b) + 1) X = (SEV_STATUS_SUCCESS, X')"
    using assms(4) by (simp add: fill_rmp_block_zeroes_def)
  have size: "ucast (?e - ?b) + 1 = (16384 :: u32)" by (simp add: RMP_ASID_COUNTERS_SIZE_def)
  obtain p where mp: "sev_hal_map_memory_ccp X ?b 16384 = (SEV_STATUS_SUCCESS, p)"
    and fz: "fill_zeroes eng p 16384 X = (SEV_STATUS_SUCCESS, X')"
    using mf unfolding size by (auto simp: map_and_fill_def map_rmp_table_def split: prod.split_asm if_split_asm)
  have "set_asid (X\<lparr>xs_skip_rmp := 0\<rparr>) COPY_PLAINTEXT_IN ?b 0 = ?b"
    using assms(1) s0(1,4) by (intro mapped_low) (simp_all add: rmp_bounds_def)
  then have p: "p = ?b" using map_ccp_address [OF mp] by (simp add: set_asid_def SEV_ASID_ADDR_MASK_def)
  obtain m' where e: "eng p 16384 (xs_mem X) = (SEV_STATUS_SUCCESS, SEV_STATUS_SUCCESS, m')" "X' = X\<lparr>xs_mem := m'\<rparr>"
    using fz by (auto simp: fill_zeroes_def split: prod.split_asm if_split_asm)
  then have "X' = X\<lparr>xs_mem := write_bytes (xs_mem X) ?b (replicate 16384 0)\<rparr>"
    using assms(3) [unfolded fills_zeroes_def, rule_format, OF e(1)] by (simp add: p)
  then show ?thesis
    using entry_below [OF assms(1)] same_slots [of X X'] by (simp add: counts_only_def entry_at_def)
qed

section \<open>The counts of subpages\<close>

lemma looked_up_slot:
  assumes "rmp_bounds X" and "local_get_rmp_paddr X a old = (SEV_STATUS_SUCCESS, p)"
  obtains k where "k < entries X" and "p = slot X k"
proof -
  let ?k = "unat (CLEAR_CBIT a) div 4096"
  note pa = local_rmp_paddr_nat [OF assms(2)] and b = bounds_facts [OF assms(1)]
  obtain x y where xy: "unat (xs_rmp_base X) = 16 * x" "unat (xs_rmp_end X) + 1 = 16 * y" using b(1,2) by (auto elim!: dvdE)
  have "16 * x + 16384 + 16 * ?k < 16 * y" using pa xy by (simp add: word_le_nat_alt)
  then have "?k < y - (x + 1024)" by linarith
  moreover have "16 * y - (16 * x + 16384) = 16 * (y - (x + 1024))" by (simp add: diff_mult_distrib2)
  ultimately have k: "?k < entries X" unfolding entries_def xy by simp
  moreover have "p = slot X ?k" using slot_facts(1) [OF assms(1) k] pa(1) by (simp add: word_unat_eq_iff)
  ultimately show thesis by (rule that)
qed

lemma write_entry_at:
  assumes "16 dvd unat p" and "16 dvd unat q"
  shows "page_entry (X\<lparr>xs_mem := write_bytes (write_bytes (xs_mem X) (p + 8) (bytes_of (q2 e))) p (bytes_of (q1 e))\<rparr>) q =
    (if q = p then e else page_entry X q)" (is "page_entry ?X q = _")
proof (cases "q = p")
  case True
  have "page_entry ?X p = e"
    unfolding page_entry_def
    by (rule read_entry)
      (auto simp: write_bytes_4_8(3) [where a = p] write_bytes_4_8(1) [where a = p] nth_entry_bytes)
  with True show ?thesis by simp
next
  case False
  have "page_entry ?X q = page_entry X q"
  proof (rule page_entry_cong)
    fix k :: nat
    assume "k < 16"
    from aligned_apart [OF assms False [symmetric] this]
    show "xs_mem ?X (q + of_nat k) = xs_mem X (q + of_nat k)"
      by (auto simp: write_bytes_4_8(3) [where a = p] write_bytes_4_8(1) [where a = p])
  qed
  with False show ?thesis by simp
qed

lemma slot_plain:
  assumes "rmp_bounds X" and "k < entries X"
  shows "\<not> CBIT_IS_SET (slot X k)" and "\<not> CBIT_IS_SET (slot X k + 8)"
proof -
  note s = slot_facts [OF assms] and b = bounds_facts(4) [OF assms(1)]
  have "unat (slot X k + 8) = unat (slot X k) + 8" using aligned_add [OF s(3), of 8] by simp
  then have le: "slot X k \<le> xs_rmp_end X" "slot X k + 8 \<le> xs_rmp_end X" using s(2) by (simp_all add: word_le_nat_alt)
  have "xs_rmp_end X < 2 ^ 51" using b by (simp add: word_less_nat_alt)
  from le [THEN low_address_no_cbit, OF this]
  show "\<not> CBIT_IS_SET (slot X k)" "\<not> CBIT_IS_SET (slot X k + 8)" .
qed

lemma update_count:
  assumes "rmp_bounds X"
    and "update_rmp_2mb_subpage_count sscb_rmp e0 a c True True X = (SEV_STATUS_SUCCESS, X')" and "xs_skip_rmp X + 1 \<noteq> 0"
  shows "counts_only X X'"
proof -
  obtain p e where l: "local_get_rmp_paddr X a 0 = (SEV_STATUS_SUCCESS, p)"
    and r: "rmp_entry_read p e0 X = (SEV_STATUS_SUCCESS, e, X)"
    and w: "rmp_entry_write_direct sscb_rmp p (set_subpage_count (rmp_subpage_count e + ucast c) e) X = (SEV_STATUS_SUCCESS, X')"
    using assms(2) read_keeps [OF assms(3)]
    by (auto simp: update_rmp_2mb_subpage_count_def get_rmp_paddr_overlap_def split: prod.split_asm if_split_asm)
      (metis snd_conv)
  obtain k where k: "k < entries X" "p = slot X k" using looked_up_slot [OF assms(1) l] .
  note pl = slot_plain [OF assms(1) k(1), folded k(2)]
  have e: "e = entry_at X k" using rmp_read_mem(1) [OF r pl(1)] by (simp add: entry_at_def page_entry_def k(2))
  let ?e = "set_subpage_count (rmp_subpage_count e + ucast c) e"
  obtain X1 where c: "copy_to_x86 (p + 8) (bytes_of (q2 ?e)) X = (SEV_STATUS_SUCCESS, X1)"
    "copy_to_x86 p (bytes_of (q1 ?e)) X1 = (SEV_STATUS_SUCCESS, X')"
    using w by (auto simp: rmp_entry_write_direct_def split: prod.split_asm if_split_asm)
  have X': "X' = X\<lparr>xs_mem := write_bytes (write_bytes (xs_mem X) (p + 8) (bytes_of (q2 ?e))) p (bytes_of (q1 ?e))\<rparr>"
    using copy_to_x86_spec(2) [OF c(1) pl(2)] copy_to_x86_spec(2) [OF c(2) pl(1)] by simp
  then have s: "same_setup X X'" by simp
  have "page_entry X' (slot X j) = (if j = k then ?e else entry_at X j)" if "j < entries X" for j
    unfolding X' using write_entry_at [of p "slot X j" X ?e] slot_facts(3) [OF assms(1)] k that
      slot_inj [OF assms(1) that k(1)] by (auto simp: entry_at_def)
  then have "but_count (entry_at X' j) = but_count (entry_at X j)" if "j < entries X" for j
    using that same_slots [OF s] by (simp add: entry_at_def [of X'] e)
  with s show ?thesis by (simp add: counts_only_def)
qed

lemma count_keeps:
  "counts_only X X' \<Longrightarrow> rmp_bounds X' = rmp_bounds X \<and> xs_skip_rmp X' = xs_skip_rmp X"
  using same_slots [of X X'] by (auto simp: counts_only_def same_setup_def)

lemma count_loop:
  assumes "rmp_bounds X" and "xs_skip_rmp X + 1 \<noteq> 0"
    and "subpage_count_loop sscb_rmp e0 True e p X = (SEV_STATUS_SUCCESS, X')"
  shows "counts_only X X'"
  using assms
proof (induction sscb_rmp e0 True e p X rule: subpage_count_loop.induct)
  case (1 sscb_rmp e0 e p X)
  consider "p = e + 1" | "p \<noteq> e + 1" "e + 1 - p \<le> X86_2MB_SIZE" | "p \<noteq> e + 1" "\<not> e + 1 - p \<le> X86_2MB_SIZE" by blast
  then show ?case
  proof cases
    case 1
    then show ?thesis using "1.prems"(3) by simp
  next
    case 2
    then show ?thesis using "1.prems" update_count by (simp add: subpage_count_loop.simps [of sscb_rmp])
  next
    case 3
    then obtain X1 where u: "update_rmp_2mb_subpage_count sscb_rmp e0 p 511 True True X = (SEV_STATUS_SUCCESS, X1)"
      and rest: "subpage_count_loop sscb_rmp e0 True e (p + X86_2MB_SIZE) X1 = (SEV_STATUS_SUCCESS, X')"
      using "1.prems"(3) by (simp add: subpage_count_loop.simps [of sscb_rmp e0 True e p] split: prod.split_asm if_split_asm)
    have "counts_only X X1" using update_count [OF "1.prems"(1) u "1.prems"(2)] .
    moreover from count_keeps [OF this] have "counts_only X1 X'"
      using "1.hyps" [OF 3 u [symmetric]] "1.prems"(1,2) rest by simp
    ultimately show ?thesis by (rule counts_trans)
  qed
qed

lemma sub_page_count:
  assumes "rmp_bounds X" and "xs_skip_rmp X + 1 \<noteq> 0"
    and "set_rmp_sub_page_count sscb_rmp e0 s e True X = (SEV_STATUS_SUCCESS, X')"
  shows "counts_only X X'"
proof (cases "s AND X86_2MB_MASK = e AND X86_2MB_MASK")
  case True
  then show ?thesis using assms update_count by (simp add: set_rmp_sub_page_count_def Let_def)
next
  case False
  then obtain X1 c where u: "update_rmp_2mb_subpage_count sscb_rmp e0 (s AND X86_2MB_MASK) c True True X = (SEV_STATUS_SUCCESS, X1)"
    and rest: "subpage_count_loop sscb_rmp e0 True e ((s AND X86_2MB_MASK) + X86_2MB_SIZE) X1 = (SEV_STATUS_SUCCESS, X')"
    using assms(3) by (auto simp: set_rmp_sub_page_count_def Let_def simp del: subpage_count_loop.simps split: prod.split_asm if_split_asm)
  have "counts_only X X1" using update_count [OF assms(1) u assms(2)] .
  moreover from count_keeps [OF this] have "counts_only X1 X'" using count_loop [OF _ _ rest] assms(1,2) by simp
  ultimately show ?thesis by (rule counts_trans)
qed

end
