(* ===== verification/Sev_RmpSetup.thy ===== *)
theory Sev_RmpSetup
  imports Sev_RmpCounts
begin

text \<open>
  SNP_INIT and the reverse map table: after \<open>configure_rmp\<close> every page that the table covers is in the
  state that the memory map, the reserved ranges and the place of the table itself call for.
\<close>

section \<open>The states\<close>

definition initial_state :: "x86 \<Rightarrow> (u64 \<times> u64) list \<Rightarrow> (u64 \<times> u64) list \<Rightarrow> u64 \<Rightarrow> snp_page_state" where
  "initial_state X reserved regions a =
     (if xs_rmp_base X \<le> a \<and> a \<le> xs_rmp_end X then SNP_PAGE_STATE_FIRMWARE
      else if covered regions a \<and> \<not> covered reserved a then SNP_PAGE_STATE_HYPERVISOR
      else SNP_PAGE_STATE_HV_FIXED)"

lemma layout_state:
  "rmp_entry_get_state \<lparr>q1 = rmp_layout X reserved regions a, q2 = 0\<rparr> = initial_state X reserved regions a"
  by (simp add: rmp_layout_def initial_state_def rmp_entry_get_state_def entry_fields get_field_def
      RMP_ENTRY_VAL_FIRMWARE_def RMP_ENTRY_VAL_HV_def RMP_ENTRY_VAL_HV_FIXED_def)

text \<open>The list of ranges that is written.\<close>

definition initial_ranges :: "x86 \<Rightarrow> bool \<Rightarrow> bool \<Rightarrow> u64 \<Rightarrow> u64 \<Rightarrow> (u64 \<times> u64) list \<Rightarrow> rmp_ranges" where
  "initial_ranges X sscb_tseg sscb_aseg smm_end paddr regions =
     (case init_ranges X 0 False of (_, L, R) \<Rightarrow>
        snd (add_range L (build_ranges X sscb_tseg sscb_aseg smm_end L paddr regions (the R))
               (xs_rmp_base X) (xs_rmp_end X) RMP_ENTRY_VAL_FIRMWARE))"

lemma configure_steps:
  assumes "configure_rmp win eng uc sscb tseg aseg smm_end e0 paddr X = Some (True, X')" and "xs_mem_map X = Some regions"
  obtains L R X1 X2 where "init_ranges X 0 False = (True, L, Some R)"
    and "check_range L (build_ranges X tseg aseg smm_end L paddr regions R) (xs_rmp_base X) (xs_rmp_end X) RMP_ENTRY_VAL_HV"
    and "write_ranges win eng uc sscb (sort_key rr_base (rs_list (initial_ranges X tseg aseg smm_end paddr regions))) X = Some (True, X1)"
    and "fill_rmp_block_zeroes eng (xs_rmp_base X) (xs_rmp_base X + RMP_ASID_COUNTERS_SIZE - 1) X1 = Some (SEV_STATUS_SUCCESS, X2)"
    and "set_rmp_sub_page_count sscb e0 (xs_rmp_base X) (xs_rmp_end X) True X2 = (SEV_STATUS_SUCCESS, X')"
proof -
  obtain L R where i: "init_ranges X 0 False = (True, L, Some R)"
    using assms(1) by (auto simp: configure_rmp_def split: prod.split_asm bool.split_asm option.split_asm)
  let ?R = "build_ranges X tseg aseg smm_end L paddr regions R"
  have c: "check_range L ?R (xs_rmp_base X) (xs_rmp_end X) RMP_ENTRY_VAL_HV"
    using assms by (auto simp: configure_rmp_def i Let_def split: if_split_asm)
  have e: "initial_ranges X tseg aseg smm_end paddr regions =
      snd (add_range L ?R (xs_rmp_base X) (xs_rmp_end X) RMP_ENTRY_VAL_FIRMWARE)"
    by (simp add: initial_ranges_def i)
  have "fill_rmp win eng uc sscb e0 (sort_key rr_base (rs_list (initial_ranges X tseg aseg smm_end paddr regions))) X = Some (True, X')"
    using assms c by (auto simp: configure_rmp_def i e Let_def split: if_split_asm)
  then show thesis
    using that [OF i c]
    by (auto simp: fill_rmp_def Let_def split: option.split_asm prod.split_asm if_split_asm)
qed

lemma init_limit_bound:
  assumes "unat (L :: u64) + 1 = 4096 * n" and "n < 2 ^ 28"
  shows "L < 2 ^ 63" and "4096 dvd unat L + 1"
  using assms by (simp_all add: word_less_nat_alt)

lemma initial_whole:
  assumes "rmp_bounds X" and "entries X < 2 ^ 28" and "init_ranges X 0 False = (True, L, Some R)"
    and "disjoint_regions regions" and "\<forall>r \<in> set regions. page_aligned r"
    and "tseg \<longrightarrow> xs_smm_base X \<le> smm_end \<and> page_aligned (xs_smm_base X, smm_end)"
    and "aseg \<longrightarrow> xs_aseg_base X \<le> xs_aseg_limit X \<and> page_aligned (xs_aseg_base X, xs_aseg_limit X)"
  shows "\<forall>r \<in> set (rs_list (initial_ranges X tseg aseg smm_end paddr regions)). whole L r"
proof -
  note il = init_limit [OF assms(1-3)]
  note L = init_limit_bound [OF il(1) assms(2)]
  have regions: "b \<le> l" if "(b, l) \<in> set regions" for b l
    using assms(4) that by (induction regions rule: disjoint_regions.induct) auto
  have host: "page_aligned (b, l) \<and> (b \<le> l \<or> L < b)" if "(b, l) \<in> set (host_ranges X paddr SNP_ADDR_RESERVED_MASK)" for b l
    using host_ranges_aligned [OF assms(1) that] that
    by (auto simp: host_ranges_def simp del: disj_not1 disj_not2 dest!: entry_ranges_proper [OF L(1)])
  have "page_aligned (0xFD00000000, 0xFDFFFFFFFF)" by (simp add: page_aligned_def)
  then have res: "\<forall>(b, l, v) \<in> set (map fixed (reserved_ranges X tseg aseg smm_end paddr)). page_aligned (b, l) \<and> (b \<le> l \<or> L < b)"
    using assms(6,7) host by (auto simp: fixed_def reserved_ranges_def known_ranges_def split: if_split_asm)
  have mem: "\<forall>(b, l, v) \<in> set (region_ranges regions). page_aligned (b, l) \<and> (b \<le> l \<or> L < b)"
    using assms(5) regions by (auto simp: region_ranges_def)
  have pa: "page_aligned (xs_rmp_base X, xs_rmp_end X)" using rmp_aligned [OF assms(1)] by (simp add: page_aligned_def)
  show ?thesis
    unfolding initial_ranges_def assms(3) prod.case build_ranges_all memory_ranges_all option.sel
    by (intro add_range_whole add_all_whole res mem L(2) pa)
      (use il(2,3) L(2) in \<open>auto simp: page_aligned_def\<close>)
qed

text \<open>The entries after the ranges are written.\<close>

lemma written_layout:
  assumes "rmp_bounds X" and "entries X < 2 ^ 28" and "init_ranges X 0 False = (True, L, Some R)"
    and "\<forall>r \<in> set prs. whole L r" and "means L f prs"
    and "fills_zeroes eng" and "4 \<le> m" and "m < 32"
    and "write_ranges (2 ^ m) eng uc True prs X = Some (True, X')" and "j < entries X"
  shows "same_setup X X'" and "entry_at X' j = \<lparr>q1 = f (of_nat (4096 * j)), q2 = 0\<rparr>"
proof -
  note il = init_limit [OF assms(1-3)]
  let ?a = "\<lambda>j. of_nat (4096 * j) :: u64"
  have aL: "?a i \<le> L" if "i < entries X" for i
  proof -
    have "unat (?a i) = 4096 * i" using that assms(2) unfolding unat_of_nat by (intro mod_less) simp
    then show ?thesis using that il(1) by (simp add: word_le_nat_alt)
  qed
  have pr: "\<forall>r \<in> set prs. \<exists>k n. page_range X r k n"
    using whole_pages [OF assms(1,2) il(1)] assms(4) by blast
  note inr = page_in_range [OF assms(2)]
  have val: "\<forall>r \<in> set prs. \<forall>k n i. page_range X r k n \<and> k \<le> i \<and> i < k + n \<longrightarrow> rr_val r = f (?a i)"
  proof (intro ballI allI impI)
    fix r k n i assume r: "r \<in> set prs" and p: "page_range X r k n \<and> k \<le> i \<and> i < k + n"
    then have i: "i < entries X" by (simp add: page_range_def)
    with p inr have "in_rr r (?a i)" by blast
    moreover have "cnt (\<lambda>v. v \<noteq> f (?a i)) (?a i) prs = 0" using assms(5) aL [OF i] by (simp add: means_def)
    ultimately show "rr_val r = f (?a i)" using r unfolding cnt_zero by blast
  qed
  have "0 < cnt (\<lambda>v. v = f (?a j)) (?a j) prs" using assms(5) aL [OF assms(10)] by (simp add: means_def)
  then obtain r where r: "r \<in> set prs" "in_rr r (?a j)" unfolding cnt_pos by blast
  then have "\<exists>r \<in> set prs. \<exists>k n. page_range X r k n \<and> k \<le> j \<and> j < k + n"
    using pr inr [OF assms(10)] by blast
  with write_all [OF assms(1) pr assms(6-9) val assms(10)]
  show "same_setup X X'" "entry_at X' j = \<lparr>q1 = f (of_nat (4096 * j)), q2 = 0\<rparr>" by simp_all
qed

text \<open>
  C4: The initialisation of the reverse map table by SNP_INIT: when \<open>configure_rmp\<close> succeeds, every page
  that the table covers has the state that the layout says. The pages of the table itself are FIRMWARE
  pages, pages of the memory map that nothing reserves are HYPERVISOR pages, all others HV_FIXED. The
  hypotheses: the table lies where \<open>get_rmp_bounds\<close> accepts it, and covers less than 1 TB; the regions of
  the memory map are disjoint and consist of whole pages, as do the SMM ranges; the list of ranges did
  not overflow, which the code does not notice; the copy engine fills with zeroes what it says it fills.
\<close>

theorem configure_rmp_states:
  assumes "configure_rmp (2 ^ m) eng uc True sscb_tseg sscb_aseg smm_end entry0 paddr X = Some (True, X')"
    and "rmp_bounds X" and "entries X < 2 ^ 28" and "xs_skip_rmp X + 1 \<noteq> 0"
    and "fills_zeroes eng" and "4 \<le> m" and "m < 32"
    and "xs_mem_map X = Some regions" and "disjoint_regions regions" and "\<forall>r \<in> set regions. page_aligned r"
    and "sscb_tseg \<longrightarrow> xs_smm_base X \<le> smm_end \<and> page_aligned (xs_smm_base X, smm_end)"
    and "sscb_aseg \<longrightarrow> xs_aseg_base X \<le> xs_aseg_limit X \<and> page_aligned (xs_aseg_base X, xs_aseg_limit X)"
    and "not_full (initial_ranges X sscb_tseg sscb_aseg smm_end paddr regions)"
    and "j < entries X"
  shows "rmp_entry_get_state (entry_at X' j) =
    initial_state X (reserved_ranges X sscb_tseg sscb_aseg smm_end paddr) regions (of_nat (4096 * j))"
proof -
  obtain L R X1 X2 where i: "init_ranges X 0 False = (True, L, Some R)"
    and c: "check_range L (build_ranges X sscb_tseg sscb_aseg smm_end L paddr regions R) (xs_rmp_base X) (xs_rmp_end X) RMP_ENTRY_VAL_HV"
    and w: "write_ranges (2 ^ m) eng uc True (sort_key rr_base (rs_list (initial_ranges X sscb_tseg sscb_aseg smm_end paddr regions))) X = Some (True, X1)"
    and z: "fill_rmp_block_zeroes eng (xs_rmp_base X) (xs_rmp_base X + RMP_ASID_COUNTERS_SIZE - 1) X1 = Some (SEV_STATUS_SUCCESS, X2)"
    and s: "set_rmp_sub_page_count True entry0 (xs_rmp_base X) (xs_rmp_end X) True X2 = (SEV_STATUS_SUCCESS, X')"
    by (rule configure_steps [OF assms(1,8)])
  let ?f = "rmp_layout X (reserved_ranges X sscb_tseg sscb_aseg smm_end paddr) regions"
  note il = init_limit [OF assms(2,3) i]
  have "means L ?f (rs_list (initial_ranges X sscb_tseg sscb_aseg smm_end paddr regions))"
    using assms(11-13) il(3) c
    by (intro layout_of_list [OF i init_limit_bound(1) [OF il(1) assms(3)] assms(9) _ _ _ refl]) (simp_all add: initial_ranges_def i)
  then have m: "means L ?f (sort_key rr_base (rs_list (initial_ranges X sscb_tseg sscb_aseg smm_end paddr regions)))"
    using means_cnt [OF cnt_mset] by (metis mset_sort)
  have wl: "\<forall>r \<in> set (sort_key rr_base (rs_list (initial_ranges X sscb_tseg sscb_aseg smm_end paddr regions))). whole L r"
    using initial_whole [OF assms(2,3) i assms(9-12)] by simp
  note W = written_layout [OF assms(2,3) i wl m assms(5-7) w]
  note ss = same_slots [OF W(1) [OF assms(14)]]
  have unchanged: "xs_rmp_base X1 = xs_rmp_base X" "xs_skip_rmp X1 = xs_skip_rmp X"
    using W(1) [OF assms(14)] by (auto simp: same_setup_def)
  have c1: "counts_only X1 X2"
    using z assms(2,5,14) ss by (intro clear_counters [of X1 eng]) (simp_all add: unchanged)
  have c2: "counts_only X2 X'"
    using count_keeps [OF c1] ss assms(2,4) unchanged by (intro sub_page_count [OF _ _ s]) simp_all
  have "but_count (entry_at X' j) = but_count (entry_at X1 j)"
    using counts_trans [OF c1 c2] assms(14) ss by (simp add: counts_only_def)
  then have "rmp_entry_get_state (entry_at X' j) = rmp_entry_get_state (entry_at X1 j)"
    by (metis state_but_count)
  also have "\<dots> = initial_state X (reserved_ranges X sscb_tseg sscb_aseg smm_end paddr) regions (of_nat (4096 * j))"
    using W(2) [OF assms(14)] layout_state by simp
  finally show ?thesis .
qed

end
