(* ===== verification/Sev_RmpSetupDemo.thy ===== *)
theory Sev_RmpSetupDemo
  imports Sev_RmpSetup
begin

text \<open>
  A table of 1 MB at 1 MB, in a system whose memory lies below 640 KB and from 1 MB up to 128 MB: the
  table covers the first 252 MB. And three cases in which ranges are not treated as their comments say.
\<close>

definition demo_setup :: "bytes_mem \<Rightarrow> u32 \<Rightarrow> x86" where
  "demo_setup m k = demo_x86\<lparr>xs_mem := m, xs_rmp_base := 0x100000, xs_rmp_end := 0x1FFFFF, xs_skip_rmp := k,
     xs_mem_map := Some [(0, 0x9FFFF), (0x100000, 0x7FFFFFF)]\<rparr>"

lemma demo_setup_fields [simp]:
  "xs_mem (demo_setup m k) = m" "xs_rmp_base (demo_setup m k) = 0x100000"
  "xs_rmp_end (demo_setup m k) = 0x1FFFFF" "xs_skip_rmp (demo_setup m k) = k"
  "xs_mem_map (demo_setup m k) = Some [(0, 0x9FFFF), (0x100000, 0x7FFFFFF)]"
  "xs_map (demo_setup m k) a = SEV_STATUS_SUCCESS" "(demo_setup m k)\<lparr>xs_mem := m'\<rparr> = demo_setup m' k"
  "skip_rmp_addr_check True (demo_setup m k) = demo_setup m (k + 1)"
  "k > 0 \<Longrightarrow> skip_rmp_addr_check False (demo_setup m k) = demo_setup m (k - 1)"
  by (simp_all add: demo_setup_def demo_x86_def skip_rmp_addr_check_def)

lemma demo_setup_ranges:
  "rs_list (initial_ranges (demo_setup m k) False False 0 PADDR_INVALID [(0, 0x9FFFF), (0x100000, 0x7FFFFFF)]) =
     [\<lparr>rr_base = 0xA0000, rr_end = 0xFFFFF, rr_val = 4\<rparr>, \<lparr>rr_base = 0, rr_end = 0x9FFFF, rr_val = 0\<rparr>,
      \<lparr>rr_base = 0x200000, rr_end = 0x7FFFFFF, rr_val = 0\<rparr>, \<lparr>rr_base = 0x8000000, rr_end = 0xFBFFFFF, rr_val = 4\<rparr>,
      \<lparr>rr_base = 0x100000, rr_end = 0x1FFFFF, rr_val = 0x8000000000000005\<rparr>]"
  by (simp add: initial_ranges_def init_ranges_def build_ranges_def memory_ranges_def add_range_def append_range_def
      set_range_def add_known_hvfixed_ranges_def Let_def PAGE_SIZE_4K_def RMP_ASID_COUNTERS_SIZE_def RMP_ENTRY_SIZE_def
      SEV_SCRATCH_BUF_LEN_def RMP_ENTRY_VAL_HV_def RMP_ENTRY_VAL_HV_FIXED_def RMP_ENTRY_VAL_FIRMWARE_def upt_rec)

lemma demo_setup_validate:
  "validate_address_range (demo_setup m 1) 0x100000 16384 = SEV_STATUS_SUCCESS"
  "validate_address_range (demo_setup m 1) 0x104000 0xA00 = SEV_STATUS_SUCCESS"
  "validate_address_range (demo_setup m 1) 0x104A00 0x600 = SEV_STATUS_SUCCESS"
  "validate_address_range (demo_setup m 1) 0x105000 0x1000 = SEV_STATUS_SUCCESS"
  "validate_address_range (demo_setup m 1) 0x106000 0x7E000 = SEV_STATUS_SUCCESS"
  "validate_address_range (demo_setup m 1) 0x184000 0x7C000 = SEV_STATUS_SUCCESS"
  "validate_address_range (demo_setup m 2) 0x104000 16 = SEV_STATUS_SUCCESS"
  "validate_address_range (demo_setup m 1) 0x104000 8 = SEV_STATUS_SUCCESS"
  "validate_address_range (demo_setup m 1) 0x104008 8 = SEV_STATUS_SUCCESS"
  by (simp_all add: validate_address_range_def demo_setup_def demo_x86_def SEV_CBIT_MASK_def SEV_CBIT_SHIFT_def
      Let_def asid_bits_set_def SEV_ASID_ADDR_MASK_def X86_MAX_PHYS_ADDR_def X86_HYPER_TRANSPORT_AREA_def
      range_overlaps_aseg_def ranges_overlap_def CLEAR_CBIT_def rb_ranges_def demo_rb_off_def
      TMR_NR_MAX_def SNP_RMP_CPU_TMR_def SNP_RMP_IOMMU_TMR_def upt_rec validate_memory_map_def)

definition demo_fill :: fill_engine where
  "demo_fill dest n m = (SEV_STATUS_SUCCESS, SEV_STATUS_SUCCESS, write_bytes m dest (replicate (unat n) 0))"

lemma demo_fills: "fills_zeroes demo_fill"
  by (simp add: fills_zeroes_def demo_fill_def)

lemma demo_convert: "a \<in> {0x100000, 0x104000, 0x104A00, 0x105000, 0x106000, 0x184000} \<Longrightarrow>
  snd (convert_x86_address (demo_setup m 1) (Some a)) = Some a"
  by (auto simp: convert_x86_address_def set_asid_def demo_setup_def demo_x86_def SEV_ASID_ADDR_MASK_def Let_def demo_consts
     SEV_ASID_SME_ASID_def)

lemma demo_map:
  "sev_hal_map_memory_ccp (demo_setup m 1) 0x100000 16384 = (SEV_STATUS_SUCCESS, 0x100000)"
  "sev_hal_map_memory_ccp (demo_setup m 1) 0x104000 0xA00 = (SEV_STATUS_SUCCESS, 0x104000)"
  "sev_hal_map_memory_ccp (demo_setup m 1) 0x104A00 0x600 = (SEV_STATUS_SUCCESS, 0x104A00)"
  "sev_hal_map_memory_ccp (demo_setup m 1) 0x105000 0x1000 = (SEV_STATUS_SUCCESS, 0x105000)"
  "sev_hal_map_memory_ccp (demo_setup m 1) 0x106000 0x7E000 = (SEV_STATUS_SUCCESS, 0x106000)"
  "sev_hal_map_memory_ccp (demo_setup m 1) 0x184000 0x7C000 = (SEV_STATUS_SUCCESS, 0x184000)"
  by (simp_all add: sev_hal_map_memory_ccp_def demo_setup_validate demo_convert)

lemma demo_lookup:
  "local_get_rmp_paddr (demo_setup m k) 0 0 = (SEV_STATUS_SUCCESS, 0x104000)"
  "local_get_rmp_paddr (demo_setup m k) 0x9FFFF 0 = (SEV_STATUS_SUCCESS, 0x1049F0)"
  "local_get_rmp_paddr (demo_setup m k) 0xA0000 0 = (SEV_STATUS_SUCCESS, 0x104A00)"
  "local_get_rmp_paddr (demo_setup m k) 0x100000 0 = (SEV_STATUS_SUCCESS, 0x105000)"
  "local_get_rmp_paddr (demo_setup m k) 0x200000 0 = (SEV_STATUS_SUCCESS, 0x106000)"
  "local_get_rmp_paddr (demo_setup m k) 0x7FFFFFF 0 = (SEV_STATUS_SUCCESS, 0x183FF0)"
  "local_get_rmp_paddr (demo_setup m k) 0x8000000 0 = (SEV_STATUS_SUCCESS, 0x184000)"
  by (simp_all add: local_get_rmp_paddr_def Let_def demo_consts)

lemma demo_zeroes:
  "\<exists>m'. write_rmp_range 0x4000000 demo_fill uc True \<lparr>rr_base = 0, rr_end = 0x9FFFF, rr_val = 0\<rparr> (demo_setup m 1) =
     Some (True, demo_setup m' 1)"
  "\<exists>m'. write_rmp_range 0x4000000 demo_fill uc True \<lparr>rr_base = 0x200000, rr_end = 0x7FFFFFF, rr_val = 0\<rparr> (demo_setup m 1) =
     Some (True, demo_setup m' 1)"
  "\<exists>m'. fill_rmp_block_zeroes demo_fill 0x100000 (0x100000 + RMP_ASID_COUNTERS_SIZE - 1) (demo_setup m 1) =
     Some (SEV_STATUS_SUCCESS, demo_setup m' 1)"
  by (simp_all add: write_rmp_range_def RMP_ENTRY_VAL_HV_def demo_lookup fill_rmp_block_zeroes_def X86_64MB_MASK_def
      X86_64MB_SIZE_def map_and_fill_def map_rmp_table_def demo_map fill_zeroes_def demo_fill_def demo_consts)
    (blast intro: refl)+

lemma demo_written: "\<exists>m'. write_entries v n p (demo_setup m k) = demo_setup m' k"
  using write_entries_same [of "demo_setup m k" v n p] by (auto simp: same_setup_def)

lemma demo_values_written:
  "\<exists>m'. write_rmp_range 0x4000000 eng uc True \<lparr>rr_base = 0xA0000, rr_end = 0xFFFFF, rr_val = 4\<rparr> (demo_setup m 1) =
     Some (True, demo_setup m' 1)"
  "\<exists>m'. write_rmp_range 0x4000000 eng uc True \<lparr>rr_base = 0x100000, rr_end = 0x1FFFFF, rr_val = 0x8000000000000005\<rparr> (demo_setup m 1) =
     Some (True, demo_setup m' 1)"
  "\<exists>m'. write_rmp_range 0x4000000 eng uc True \<lparr>rr_base = 0x8000000, rr_end = 0xFBFFFFF, rr_val = 4\<rparr> (demo_setup m 1) =
     Some (True, demo_setup m' 1)"
  using demo_written [where v = 4 and n = 96 and p = "0x104A00" and m = m and k = 1]
    demo_written [where v = "0x8000000000000005" and n = 256 and p = "0x105000" and m = m and k = 1]
    demo_written [where v = 4 and n = 31744 and p = "0x184000" and m = m and k = 1]
  by (auto simp: write_rmp_range_def RMP_ENTRY_VAL_HV_def scan_rmp_def demo_lookup Let_def PAGE_SIZE_4K_def ALIGNMENT_BITS_4K_def
      RMP_ENTRY_SIZE_def write_rmp_entry_def demo_map 
      scan_loop.simps [where num_pages = 96] scan_loop.simps [where num_pages = 256]
      scan_loop.simps [where num_pages = 31744] scan_loop.simps [where num_pages = 0])

lemma demo_count:
  "\<exists>m'. set_rmp_sub_page_count True e0 0x100000 0x1FFFFF True (demo_setup m 1) = (SEV_STATUS_SUCCESS, demo_setup m' 1)"
  by (simp add: set_rmp_sub_page_count_def Let_def X86_2MB_MASK_def X86_2MB_SIZE_def update_rmp_2mb_subpage_count_def
      get_rmp_paddr_overlap_def demo_lookup rmp_entry_read_def rmp_entry_write_direct_def copy_from_x86_def copy_to_x86_def
      x86_copy_def window_check_def X86_64MB_MASK_def X86_64MB_SIZE_def demo_setup_validate demo_consts copy_out_def copy_in_def) blast

lemma demo_configured:
  "\<exists>X'. configure_rmp (2 ^ 26) demo_fill uc True False False 0 e0 PADDR_INVALID (demo_setup m 1) = Some (True, X')"
proof -
  let ?eng = demo_fill
  let ?w = "\<lambda>b l v. write_rmp_range (2 ^ 26) ?eng uc True \<lparr>rr_base = b, rr_end = l, rr_val = v\<rparr>"
  obtain m1 where w1: "?w 0 0x9FFFF 0 (demo_setup m 1) = Some (True, demo_setup m1 1)"
    using demo_zeroes(1) [of uc m] by auto
  obtain m2 where w2: "?w 0xA0000 0xFFFFF 4 (demo_setup m1 1) = Some (True, demo_setup m2 1)"
    using demo_values_written(1) [of ?eng uc m1] by auto
  obtain m3 where w3: "?w 0x100000 0x1FFFFF 0x8000000000000005 (demo_setup m2 1) = Some (True, demo_setup m3 1)"
    using demo_values_written(2) [of ?eng uc m2] by auto
  obtain m4 where w4: "?w 0x200000 0x7FFFFFF 0 (demo_setup m3 1) = Some (True, demo_setup m4 1)"
    using demo_zeroes(2) [of uc m3] by auto
  obtain m5 where w5: "?w 0x8000000 0xFBFFFFF 4 (demo_setup m4 1) = Some (True, demo_setup m5 1)"
    using demo_values_written(3) [of ?eng uc m4] by auto
  obtain m6 where z: "fill_rmp_block_zeroes ?eng 0x100000 (0x100000 + RMP_ASID_COUNTERS_SIZE - 1) (demo_setup m5 1) =
      Some (SEV_STATUS_SUCCESS, demo_setup m6 1)" using demo_zeroes(3) [of m5] by blast
  obtain m7 where c: "set_rmp_sub_page_count True e0 0x100000 0x1FFFFF True (demo_setup m6 1) = (SEV_STATUS_SUCCESS, demo_setup m7 1)"
    using demo_count [of e0 m6] by blast
  let ?prs = "sort_key rr_base (rs_list (initial_ranges (demo_setup m 1) False False 0 PADDR_INVALID [(0, 0x9FFFF), (0x100000, 0x7FFFFFF)]))"
  have "write_ranges (2 ^ 26) ?eng uc True ?prs (demo_setup m 1) = Some (True, demo_setup m5 1)"
    by (simp only: demo_setup_ranges) (simp add: w1 w2 w3 w4 w5 del: power_numeral)
  then have f: "fill_rmp (2 ^ 26) ?eng uc True e0 ?prs (demo_setup m 1) = Some (True, demo_setup m7 1)"
    using z by (simp add: fill_rmp_def c del: power_numeral)
  have i: "init_ranges (demo_setup m 1) 0 False = (True, 0xFBFFFFF, Some \<lparr>rs_limit = 853, rs_list = []\<rparr>)"
    by (simp add: init_ranges_def Let_def PAGE_SIZE_4K_def RMP_ASID_COUNTERS_SIZE_def RMP_ENTRY_SIZE_def SEV_SCRATCH_BUF_LEN_def)
  let ?R = "build_ranges (demo_setup m 1) False False 0 0xFBFFFFF PADDR_INVALID [(0, 0x9FFFF), (0x100000, 0x7FFFFFF)]
    \<lparr>rs_limit = 853, rs_list = []\<rparr>"
  have "check_range 0xFBFFFFF ?R 0x100000 0x1FFFFF RMP_ENTRY_VAL_HV"
    by (simp add: check_range_def build_ranges_def memory_ranges_def add_range_def append_range_def
      set_range_def add_known_hvfixed_ranges_def Let_def RMP_ENTRY_VAL_HV_def RMP_ENTRY_VAL_HV_FIXED_def upt_rec)
  then have "configure_rmp (2 ^ 26) ?eng uc True False False 0 e0 PADDR_INVALID (demo_setup m 1) =
      fill_rmp (2 ^ 26) ?eng uc True e0 ?prs (demo_setup m 1)"
    by (simp add: configure_rmp_def i initial_ranges_def del: power_numeral)
  from trans [OF this f] show ?thesis by (rule exI)
qed

theorem configure_rmp_states_witness:
  "\<exists>X'. configure_rmp (2 ^ 26) demo_fill id True False False 0 \<lparr>q1 = 0, q2 = 0\<rparr> PADDR_INVALID (demo_setup (\<lambda>_. 7) 1) = Some (True, X') \<and>
     rmp_entry_get_state (entry_at X' 0) = SNP_PAGE_STATE_HYPERVISOR \<and>
     rmp_entry_get_state (entry_at X' 0xA0) = SNP_PAGE_STATE_HV_FIXED \<and>
     rmp_entry_get_state (entry_at X' 0x100) = SNP_PAGE_STATE_FIRMWARE"
proof -
  let ?X = "demo_setup (\<lambda>_. 7) 1" and ?regions = "[(0, 0x9FFFF), (0x100000, 0x7FFFFFF)] :: (u64 \<times> u64) list"
  obtain X' where X': "configure_rmp (2 ^ 26) demo_fill id True False False 0 \<lparr>q1 = 0, q2 = 0\<rparr> PADDR_INVALID ?X = Some (True, X')"
    using demo_configured by blast
  have b: "rmp_bounds ?X" by (simp add: rmp_bounds_def rmp_wf_def demo_setup_def demo_x86_def)
  have e: "entries ?X = 64512" by (simp add: entries_def)
  have n: "not_full (initial_ranges ?X False False 0 PADDR_INVALID ?regions)"
    unfolding not_full_def demo_setup_ranges
    by (simp add: initial_ranges_def init_ranges_def build_ranges_def memory_ranges_def add_range_def append_range_def
      set_range_def add_known_hvfixed_ranges_def Let_def PAGE_SIZE_4K_def RMP_ASID_COUNTERS_SIZE_def RMP_ENTRY_SIZE_def
      SEV_SCRATCH_BUF_LEN_def RMP_ENTRY_VAL_HV_def RMP_ENTRY_VAL_HV_FIXED_def RMP_ENTRY_VAL_FIRMWARE_def upt_rec)
  have "rmp_entry_get_state (entry_at X' j) =
      initial_state ?X (reserved_ranges ?X False False 0 PADDR_INVALID) ?regions (of_nat (4096 * j))" if "j < 64512" for j
    by (rule configure_rmp_states [OF X' b _ _ demo_fills _ _ _ _ _ _ _ n])
      (use that in \<open>simp_all add: e page_aligned_def\<close>)
  from this [of 0] this [of "0xA0"] this [of "0x100"] X' show ?thesis
    by (simp add: initial_state_def reserved_ranges_def known_ranges_def covered_def)
qed

section \<open>Ranges that go wrong\<close>

text \<open>A range that overlaps one of the same value is dropped with the part that is not in the list.\<close>

lemma rest_of_overlapping_range_is_lost:
  "add_range 0xFFFFFFFF \<lparr>rs_limit = 853, rs_list = [\<lparr>rr_base = 0, rr_end = 0x1FFFFF, rr_val = 4\<rparr>]\<rparr> 0x100000 0x3FFFFF 4 =
     (True, \<lparr>rs_limit = 853, rs_list = [\<lparr>rr_base = 0, rr_end = 0x1FFFFF, rr_val = 4\<rparr>]\<rparr>)"
  by (simp add: add_range_def)

text \<open>An entry of no pages at address 0 of the host's list reserves all that is not in the table.\<close>

lemma empty_entry_reserves_everything:
  assumes "0 < xs_rmp_base X" and "xs_rmp_base X \<le> xs_rmp_end X" and "xs_rmp_end X \<noteq> - 1"
  shows "entry_ranges X (0, 0) = [(0, xs_rmp_base X - 1), (xs_rmp_end X + 1, - 1)]"
proof -
  have "xs_rmp_end X < - 1" using assms(3) word_order.extremum [of "xs_rmp_end X"] by (simp add: word_order.not_eq_extremum)
  moreover have "CLEAR_CBIT (xs_rmp_base X) \<le> CLEAR_CBIT (- 1)"
    by (simp add: CLEAR_CBIT_def word_and_le1)
  moreover have "CLEAR_CBIT 0 = 0" by (simp add: CLEAR_CBIT_def)
  ultimately show ?thesis using assms by (auto simp: entry_ranges_def Let_def ranges_overlap_def)
qed

text \<open>The last page of a range of 513 pages: the window was mapped for all of them, and its size, not
  the number of pages that are left, is what the scanner gets.\<close>

lemma rest_of_scan_is_a_whole_block:
  assumes "rmp_paddr \<le> xs_rmp_end X" and "ucast (ucast p :: u32) AND (SNP_PAGE_SET_STATE_ADDR_RESERVED_MASK * 16 div 4096) = 0"
    and "X1 = uc (put_q1 p (put_field 51 10 RMP_INVALID_ASID (read64 X p)) X)" and "get_field 3 9 (read64 X1 p) < 511"
  shows "scan_loop win (update_rmp_entry uc RMP_ENTRY_VAL_HV_FIXED) 1 rmp_paddr (Some (p, 513 * 16)) X =
    Some (SCAN_RES_TERMINATED, put_q1 p (put_field 51 10 0 (read64 X1 p)) X1)"
proof -
  have "unat (get_field 3 9 (read64 X1 p)) < 511" using assms(4) by (simp add: word_less_nat_alt)
  then have "ucast (get_field 3 9 (read64 X1 p)) + 1 < (512 :: u32)"
    by (simp add: word_less_nat_alt unat_word_ariths(1) unat_ucast_down)
  then show ?thesis
    using assms(1-3) by (simp add: scan_loop.simps [where num_pages = 1] update_rmp_entry_def Let_def not_less [symmetric])
qed

end
