(* ===== verification/Spec2Isabelle.thy ===== *)
theory Spec2Isabelle
  imports Sev_States Sev_Pool Sev_RingBuffer Sev_AsidProperties Sev_Es Sev_Rmp Sev_Tmr Sev_Dispatch Sev_SnpWitnesses Sev_BigNumProperties Sev_DigestProperties Sev_EccProperties Sev_CpuidProperties
    Sev_RmpSetupDemo
begin

text \<open>
  Verification of the AMD SEV firmware (\<open>fw/psp_bl_uapps/sev_uapp/src\<close>), the user application of
  the Platform Security Processor that manages encrypted guests (SEV, SEV-ES) and guests with
  protected page tables (SEV-SNP). The x86 host sends commands through a mailbox or a ring buffer;
  the firmware checks the command buffer, runs the handler, and writes the answer back.

  \<^bold>\<open>The program and its theories.\<close> In the order of a command's way through the firmware:

    \<^item> \<open>Sev_RbTypes\<close>, \<open>Sev_RingBuffer\<close> (\<open>sev_ring_buffer.c\<close>): the two command queues in x86 memory, the
      mailbox registers, the selection of the next command, its status, interrupts and pauses.
    \<^item> \<open>Sev_Dispatch\<close> (\<open>sev_dispatch.c\<close>, the ids of \<open>sev_scmd.h\<close>): the table of commands, and
      \<open>sev_dispatch_master\<close>: address and page checks of the buffer, the lock of the data fabric, the
      copies in and out, the release of the buffer's page. The handler is an argument.
    \<^item> \<open>Sev_States\<close> (\<open>sev_guest.c\<close>, \<open>sev_plat.c\<close>): the tables of the allowed state transitions of guests
      and of the platform, and the functions that walk them.
    \<^item> \<open>Sev_Guest\<close> (\<open>sev_guest.c\<close>, \<open>sev_guest.h\<close>): guest slots, handles, policies, activation on cores.
    \<^item> \<open>Sev_Cores\<close> (\<open>sev_hal_interface.c\<close>, \<open>apicid.c\<close>): the registers of all cores in the CPU TMR (invalid
      ASIDs, WBINVD), and those that all threads must agree on.
    \<^item> \<open>Sev_Activation\<close> (\<open>sev_mcmd.c\<close>): ACTIVATE, ACTIVATE_EX, DEACTIVATE, DF_FLUSH, DECOMMISSION,
      LAUNCH_FINISH and RECEIVE_FINISH as far as they assign ASIDs, over the masks of CCXs per ASID
      (dirty, clean, allocated, in use) of \<open>sev_plat.h\<close>.
    \<^item> \<open>Sev_Pool\<close> (\<open>pool_u32.c\<close>), \<open>Sev_Es\<close> (\<open>sev_es.c\<close>): the pool of VCPU blocks, a linked list over DRAM
      indices with CRC blocks; the region of SEV-ES.
    \<^item> \<open>Sev_X86Copy\<close> (\<open>x86_copy.c\<close>): what addresses the firmware touches in x86 memory
      (\<open>validate_address_range\<close>) and the copies, with the bits of the address that select the key.
    \<^item> \<open>Sev_Rmp\<close> (\<open>sev_rmp.c\<close>): the reverse map table that lies in x86 memory: entries, page states,
      reading and writing an entry while the cores may change its subpage count.
    \<^item> \<open>Sev_Ranges\<close> (\<open>sev_rmp.c\<close>): the list of address ranges with the value of their entries, from which
      SNP_INIT makes the table (\<open>configure_rmp\<close>), the scan of the entries of a range in mapped windows,
      and PAGE_SET_STATE, which makes pages HV_FIXED (\<open>page_set_hv_fixed\<close>).
    \<^item> \<open>Sev_SnpPages\<close> (\<open>sev_mcmd.c\<close>): the SNP commands of a guest's context page and of pages.
    \<^item> \<open>Sev_DfRegs\<close> (\<open>df_regs.c\<close>, \<open>sev_hal.c\<close>): access to the registers of the data fabric and its lock.
    \<^item> \<open>Sev_Tmr\<close> (\<open>tmr_cache.c\<close>, \<open>sev_tmr.c\<close>): trusted memory regions, their registers and the cache of them.

    \<^item> \<open>Sev_CpuidConstants\<close>, \<open>Sev_Cpuid\<close>, \<open>Sev_CpuidChecks\<close>, \<open>Sev_CpuidPolicy\<close>, \<open>Sev_CpuidLeaves\<close>,
      \<open>Sev_CpuidSpec\<close>, \<open>Sev_CpuidProperties\<close> (\<open>cpuid_lookup.c\<close>, \<open>cpuid_lookup.h\<close>): the table of CPUID leaves with the rule
      of each register, and the check of the values that a guest is going to see. What the CPUID
      registers of the processor hold is the argument \<open>hw\<close>.
    \<^item> \<open>Sev_BigNum\<close> and \<open>Sev_BigNumBits\<close>, \<open>..Ops\<close>, \<open>..Mul\<close>, \<open>..Div\<close>, \<open>..Quot\<close>, \<open>..Reduce\<close>, \<open>..Bytes\<close>,
      \<open>..Properties\<close> (\<open>bignum.c\<close>): signed numbers of 80 digits of 28 bits in a store of objects that are
      passed by reference, so that arguments may coincide as in the code.
    \<^item> \<open>Sev_Digest\<close>, \<open>Sev_DigestStream\<close>, \<open>Sev_DigestProperties\<close> (\<open>digest.c\<close>, \<open>hmac.c\<close>, \<open>nist_kdf.c\<close>): digests
      fed in pieces, keyed digests and the derivation of keys. The hash engine is the argument \<open>svc\<close>.
    \<^item> \<open>Sev_SecureOps\<close>, \<open>Sev_Ecc\<close>, \<open>Sev_EccScalars\<close>, \<open>Sev_Ecdsa\<close>, \<open>Sev_EccLaws\<close>, \<open>Sev_P384\<close>,
      \<open>Sev_EccProperties\<close> (\<open>secure_ops.c\<close>, \<open>ecc.c\<close>, \<open>ecdsa.c\<close>, \<open>ecdh.c\<close>): scalars of 72 octets and points,
      key pairs, signatures and key agreement. The coprocessor that computes with scalars and points
      and the random numbers are arguments; the types \<open>ecc_scalar_t\<close>, \<open>ecc_point_t\<close> and \<open>SHA_TYPE\<close> are
      declared outside of the repository, and have the fields that the code uses.

  \<open>Sev_Prelude\<close> holds the word types, statuses and the shared lemmas on words, bits and lists;
  \<open>Sev_Interfaces\<close> the locales through which one part relies on another (a step-wise copied region,
  a list with owners, a conserved pool, a state machine with a table) with their interpretations in
  the theories of the parts.

  \<^bold>\<open>How code is translated.\<close> A C struct is a record, an enum a datatype, a register or a field a word
  of its width; sums and shifts wrap as in C. Each function is a definition of the same name that
  returns its status and the new state, one branch for each early exit; loops are recursions over
  the list of indices or with a measure, or partial functions where they may not end. Constants carry the names
  of their macros. What is outside the code is a parameter: what the hardware answers (statuses of
  mappings, register contents, the SMU), random numbers, the contents of uninitialised variables
  (where the code reads them), and \<open>se_uc\<close>, the writes of the cores between two accesses.
  The contents of a guest context page are the guest's record, named by the address at which the
  page is mapped; its cryptographic fields are not modelled. GCTX_CREATE also clears the 4 KB of the
  page in the byte memory and puts the octets of the new context there (\<open>se_image\<close> is the layout of
  the compiler); later changes of the record are not followed in these octets.

  \<^bold>\<open>What is shown.\<close>

    \<^item> ASIDs (\<open>Sev_AsidSafety\<close>, \<open>Sev_AsidProperties\<close>): an invariant of the reachable states of the
      step relation of the modelled commands on ASIDs; two guests never hold the same ASID, an ASID
      on which a guest ran stays dirty and is refused until DF_FLUSH, whatever other commands come
      in between (\<open>host_step\<close>), and what each command does to the masks. Which CCXs DF_FLUSH cleans is
      what the scan of the cores reports, which may be too many (\<open>wbinvd_scan_report\<close>).
    \<^item> SNP pages (\<open>Sev_RmpSlots\<close>, \<open>Sev_SnpSteps\<close>, \<open>Sev_SnpFrames\<close>: entries of different pages do not
      overlap, and no copy of data reaches the table; \<open>Sev_SnpReclaim\<close>, \<open>Sev_SnpMove\<close>, \<open>Sev_SnpUnsmash\<close>,
      \<open>Sev_SnpContexts\<close>: what each successful command has checked and done; \<open>Sev_SnpSealed\<close>: no
      sequence of the nine modelled commands changes the entry of a CONTEXT page before its
      DECOMMISSION; what the dispatcher and the commands that are not modelled do is outside of it;
      \<open>Sev_SnpWitnesses\<close>: a machine on which they succeed).
    \<^item> The initial table (\<open>Sev_RangeLists\<close>, \<open>Sev_RangeMap\<close>: adding a range to the list paints its
      addresses; \<open>Sev_RmpLayout\<close>: the list means \<open>rmp_layout\<close>; \<open>Sev_RmpFill\<close>: writing a range changes the
      entries of its pages only; \<open>Sev_RmpInit\<close>, \<open>Sev_RmpCounts\<close>, \<open>Sev_RmpSetup\<close>: every page that the
      table covers ends in the state of the layout; \<open>Sev_RmpSetupDemo\<close>: a machine on which it is
      initialised, and ranges that go wrong).
    \<^item> Ring buffer: a refinement to two queues of commands; each is executed once and in order, as long as
      the pages of commands and statuses can be mapped.
    \<^item> Pool: a representation as a list of blocks; no trace of operations loses or duplicates one.
    \<^item> Memory: addresses that pass the check avoid the protected ranges; copies round trip.
    \<^item> Dispatch and fabric: the buffer that is written has been checked, the lock is released on
      every path, a command that writes its buffer is refused when the buffer starts in a foreign page,
      the regions that the cache reports are those of the registers, but for regions whose last
      change of flags failed (the set \<open>W\<close> of \<open>tmr_reachable\<close>).

    \<^item> CPUID: a list of values is accepted exactly if its entries fulfil the requirements that
      \<open>Sev_CpuidSpec\<close> states with literal numbers, and a corrected list is accepted. Left out are the 14
      functions whose comments and code differ. The checks of single registers are instances of two locales in
      \<open>Sev_CpuidChecks\<close>: one for checks that accept or reject, and one for those that also correct.
    \<^item> Numbers: each operation yields the value of the operation on the integers, under the
      conditions under which no digits are lost (the top digit of a quotient, the last bytes of
      \<open>BNStore\<close>); the lemmas \<open>BNDiv_spec\<close> and \<open>extra_bits_spec\<close> say what happens otherwise.
    \<^item> Digests: feeding in pieces equals the digest of the whole (locale \<open>streaming_digest\<close>, under the
      hypothesis \<open>sha_laws\<close> that the engine carries its state from call to call), and the keyed digest equals FIPS
      198-1. \<open>kdf_derive_computes\<close> says what the key derivation computes, in the order of octets of the
      code, which is not that of the standard.
    \<^item> Curves: verification of digests that are no longer than the order decides as the standard,
      signatures round trip, both parties agree on the abscissa of the common point, valid public keys are the points of the curve. The hypotheses \<open>scalar_laws\<close>
      and \<open>point_laws\<close> say that the coprocessor computes modulo its modulus and in a group; \<open>Sev_P384\<close>
      gives an instance, on which the witnesses evaluate the model with numbers of P-384.

  \<^bold>\<open>Bounds.\<close> The loops over RMP entries (512), CCXs, cores, threads, TMRs and table rows are
  recursions over the list of their indices. \<open>firmware_writable_loop\<close> and \<open>pool\<close> loops have measures.
  Loops that may not end (the division, the scans and fills of the table, the search for a key) are
  partial functions whose value is \<open>None\<close> when they run for ever. No definition uses fuel.

  \<^bold>\<open>Not modelled.\<close> The modes of the cipher engine and RSA (\<open>ccp_direct_cipher.c\<close>, \<open>cipher.c\<close>, \<open>rsa.c\<close>), and
  what is built on them (wrapping of keys, launch digests, attestation reports); the launch, send,
  receive, debug and swap commands but for their use of ASIDs; what SNP_INIT does outside of the reverse
  map table; persistent data in SPI flash; system calls to the boot loader, start-up code and
  register access in assembler.
\<close>

end
